(* ===== verification/Ard_Prelude.thy ===== *)
theory Ard_Prelude
  imports Main "HOL-Library.AList" "HOL-Library.List_Lexorder" "HOL-Library.Char_ord"
    "HOL-Library.Product_Lexorder"
begin

text \<open>
  Shared vocabulary of the development: the exceptions the code raises as one datatype, the
  result type of a computation that may raise, the loops that stop at the first exception,
  Python dictionaries as association lists in insertion order, and the generic lemmas on
  them that the component theories use.
\<close>

section \<open>Exceptions and results\<close>

text \<open>Process exit codes of the workflow commands (\<open>application/contracts.py\<close>).\<close>

datatype exit_code = SUCCESS | VALIDATION | CONFIGURATION | TRANSIENT | CONFLICT | SECURITY | PARTIAL

text \<open>Why an LLM provider call failed (\<open>llm/contracts.py\<close>).\<close>

datatype failure_kind = CONFIGURATION_FAILURE | TRANSIENT_FAILURE | OUTPUT_FAILURE

text \<open>
  One constructor per exception class the modelled code raises or catches. The string is the
  exception's message (for a workflow error its code), as the code builds it.
\<close>

datatype exn =
    ValueError string
  | ValidationError string
  | TypeError string
  | KeyError string
  | IndexError
  | OSError string
  | AssertionError string
  | IdentityConflict string
  | PipelineValidationError string
  | PipelineSecurityError string
  | ReleaseBlocked string
  | ProviderExecutionError string failure_kind
  | WorkflowError exit_code string

text \<open>Subclass test of Python: the classes that \<open>except ValueError\<close> catches.\<close>

fun is_value_error :: "exn \<Rightarrow> bool" where
  "is_value_error (ValueError _) = True"
| "is_value_error (ValidationError _) = True"
| "is_value_error (IdentityConflict _) = True"
| "is_value_error (PipelineValidationError _) = True"
| "is_value_error (PipelineSecurityError _) = True"
| "is_value_error (ReleaseBlocked _) = True"
| "is_value_error _ = False"

fun exn_message :: "exn \<Rightarrow> string" where
  "exn_message (ValueError m) = m"
| "exn_message (ValidationError m) = m"
| "exn_message (TypeError m) = m"
| "exn_message (KeyError m) = m"
| "exn_message IndexError = []"
| "exn_message (OSError m) = m"
| "exn_message (AssertionError m) = m"
| "exn_message (IdentityConflict m) = m"
| "exn_message (PipelineValidationError m) = m"
| "exn_message (PipelineSecurityError m) = m"
| "exn_message (ReleaseBlocked m) = m"
| "exn_message (ProviderExecutionError m _) = m"
| "exn_message (WorkflowError _ m) = m"

type_synonym 'a result = "exn + 'a"

text \<open>Sequencing of two computations that may raise.\<close>

fun bind_ok :: "'e + 'a \<Rightarrow> ('a \<Rightarrow> 'e + 'b) \<Rightarrow> 'e + 'b" where
  "bind_ok (Inl e) f = Inl e"
| "bind_ok (Inr x) f = f x"

text \<open>A list comprehension whose element expression may raise.\<close>

fun traverse :: "('a \<Rightarrow> 'e + 'b) \<Rightarrow> 'a list \<Rightarrow> 'e + 'b list" where
  "traverse f [] = Inr []"
| "traverse f (x # xs) =
     (case f x of Inl e \<Rightarrow> Inl e
      | Inr y \<Rightarrow> (case traverse f xs of Inl e \<Rightarrow> Inl e | Inr ys \<Rightarrow> Inr (y # ys)))"

text \<open>A \<open>for\<close> loop over a list that carries a state and may raise.\<close>

fun fold_ok :: "('s \<Rightarrow> 'a \<Rightarrow> 'e + 's) \<Rightarrow> 's \<Rightarrow> 'a list \<Rightarrow> 'e + 's" where
  "fold_ok f s [] = Inr s"
| "fold_ok f s (x # xs) = (case f s x of Inl e \<Rightarrow> Inl e | Inr s' \<Rightarrow> fold_ok f s' xs)"

fun is_ok :: "'e + 'a \<Rightarrow> bool" where
  "is_ok (Inl e) = False"
| "is_ok (Inr x) = True"

lemma is_ok_iff: "is_ok r \<longleftrightarrow> (\<exists>x. r = Inr x)"
  by (cases r) auto

lemma bind_ok_Inr_iff [simp]: "bind_ok r f = Inr y \<longleftrightarrow> (\<exists>x. r = Inr x \<and> f x = Inr y)"
  by (cases r) auto

lemma bind_ok_Inl_iff:
  "bind_ok r f = Inl e \<longleftrightarrow> r = Inl e \<or> (\<exists>x. r = Inr x \<and> f x = Inl e)"
  by (cases r) auto

lemma bind_ok_assoc: "bind_ok (bind_ok r f) g = bind_ok r (\<lambda>x. bind_ok (f x) g)"
  by (cases r) auto

lemma fold_ok_append:
  "fold_ok f s (xs @ ys) = bind_ok (fold_ok f s xs) (\<lambda>t. fold_ok f t ys)"
  by (induction xs arbitrary: s) (auto split: sum.splits)

lemma fold_ok_snoc: "fold_ok f s (xs @ [x]) = bind_ok (fold_ok f s xs) (\<lambda>t. f t x)"
  by (induction xs arbitrary: s) (auto split: sum.splits)

text \<open>The loop invariant rule, and its version where the invariant sees what was consumed.\<close>

lemma fold_ok_invariant:
  assumes "fold_ok f s xs = Inr t" and "P s"
    and "\<And>s x s'. x \<in> set xs \<Longrightarrow> P s \<Longrightarrow> f s x = Inr s' \<Longrightarrow> P s'"
  shows "P t"
  using assms
proof (induction xs arbitrary: s)
  case (Cons x xs)
  from Cons.prems(1) obtain s' where step: "f s x = Inr s'" and rest: "fold_ok f s' xs = Inr t"
    by (auto split: sum.splits)
  have "P s'" using Cons.prems(3) [OF _ Cons.prems(2) step] by simp
  from Cons.IH [OF rest this] Cons.prems(3) show ?case by (meson list.set_intros(2))
qed simp

lemma fold_ok_invariant_prefix:
  assumes "fold_ok f s xs = Inr t" and "P [] s"
    and "\<And>ys x s s'. P ys s \<Longrightarrow> x \<in> set xs \<Longrightarrow> f s x = Inr s' \<Longrightarrow> P (ys @ [x]) s'"
  shows "P xs t"
proof -
  have "fold_ok f s zs = Inr t \<Longrightarrow> P ys s \<Longrightarrow> set zs \<subseteq> set xs \<Longrightarrow> P (ys @ zs) t" for ys zs
  proof (induction zs arbitrary: ys s)
    case (Cons z zs)
    from Cons.prems obtain s' where "f s z = Inr s'" and "fold_ok f s' zs = Inr t"
      by (auto split: sum.splits)
    with Cons.IH [of s' "ys @ [z]"] Cons.prems assms(3) [of ys s z s'] show ?case by auto
  qed simp
  from this [of xs "[]"] assms show ?thesis by simp
qed

lemma fold_ok_simulation:
  assumes "\<And>s x. h' (f s x) = g (h s) x" and "\<And>e. h' (Inl e) = Inl e"
    and "\<And>s. h' (Inr s) = Inr (h s)"
  shows "h' (fold_ok f s xs) = fold_ok g (h s) xs"
proof (induction xs arbitrary: s)
  case Nil
  then show ?case by (simp add: assms)
next
  case (Cons x xs)
  show ?case
  proof (cases "f s x")
    case (Inl e)
    with assms(1) [of s x] assms(2) have "g (h s) x = Inl e" by simp
    with Inl show ?thesis by (simp add: assms)
  next
    case (Inr s')
    with assms(1) [of s x] assms(3) have "g (h s) x = Inr (h s')" by simp
    with Inr Cons show ?thesis by simp
  qed
qed

text \<open>Recursive functions may call themselves inside a traversal.\<close>

lemma traverse_cong [fundef_cong]:
  assumes "xs = ys" and "\<And>x. x \<in> set ys \<Longrightarrow> f x = g x"
  shows "traverse f xs = traverse g ys"
  unfolding assms(1) using assms(2)
proof (induction ys)
  case (Cons y ys)
  then have "f y = g y" and "traverse f ys = traverse g ys" by auto
  then show ?case by (simp only: traverse.simps)
qed simp

lemma fold_ok_cong [fundef_cong]:
  assumes "xs = ys" and "s = t" and "\<And>x u. x \<in> set ys \<Longrightarrow> f u x = g u x"
  shows "fold_ok f s xs = fold_ok g t ys"
  unfolding assms(1,2) using assms(3)
proof (induction ys arbitrary: t)
  case (Cons y ys)
  then have "f t y = g t y" and "fold_ok f u ys = fold_ok g u ys" for u by auto
  then show ?case by (simp only: fold_ok.simps)
qed simp

lemma traverse_list_all2: "traverse f xs = Inr ys \<Longrightarrow> list_all2 (\<lambda>x y. f x = Inr y) xs ys"
  by (induction xs arbitrary: ys) (auto split: sum.splits)

lemma list_all2_traverse: "list_all2 (\<lambda>x y. f x = Inr y) xs ys \<Longrightarrow> traverse f xs = Inr ys"
  by (induction xs ys rule: list_all2_induct) auto

lemma traverse_Inr_iff:
  "traverse f xs = Inr ys \<longleftrightarrow> list_all2 (\<lambda>x y. f x = Inr y) xs ys"
  by (blast intro: traverse_list_all2 list_all2_traverse)

lemma traverse_length: "traverse f xs = Inr ys \<Longrightarrow> length ys = length xs"
  by (simp add: traverse_Inr_iff list_all2_lengthD)

lemma traverse_all: "\<forall>x\<in>set xs. f x = Inr (h x) \<Longrightarrow> traverse f xs = Inr (map h xs)"
  by (induction xs) auto

lemma traverse_ok_iff: "(\<exists>ys. traverse f xs = Inr ys) \<longleftrightarrow> (\<forall>x\<in>set xs. \<exists>y. f x = Inr y)"
proof (induction xs)
  case (Cons x xs)
  then show ?case by (cases "f x"; cases "traverse f xs") auto
qed simp

lemma fold_ok_all:
  "\<forall>x\<in>set xs. \<forall>s. f s x = Inr (g x s) \<Longrightarrow> fold_ok f s xs = Inr (fold g xs s)"
  by (induction xs arbitrary: s) auto

lemma traverse_map:
  assumes "traverse f xs = Inr ys" and "\<And>x y. x \<in> set xs \<Longrightarrow> f x = Inr y \<Longrightarrow> g y = h x"
  shows "map g ys = map h xs"
  using assms by (induction xs arbitrary: ys) (auto split: sum.splits)

lemma traverse_in_set:
  assumes "traverse f xs = Inr ys" and "y \<in> set ys"
  obtains x where "x \<in> set xs" and "f x = Inr y"
proof -
  from assms(2) obtain i where i: "i < length ys" and y: "y = ys ! i"
    by (auto simp: in_set_conv_nth)
  from traverse_list_all2 [OF assms(1)] i have "i < length xs" and "f (xs ! i) = Inr y"
    by (auto simp: list_all2_conv_all_nth y)
  then show thesis by (intro that [of "xs ! i"]) auto
qed

section \<open>Optional values\<close>

text \<open>\<open>[x for x in xs if x is not None]\<close>, and \<open>xs[i]\<close> with its exception.\<close>

definition somes :: "'a option list \<Rightarrow> 'a list" where
  "somes xs = concat (map (\<lambda>x. case x of None \<Rightarrow> [] | Some y \<Rightarrow> [y]) xs)"

lemma set_somes [simp]: "set (somes xs) = {y. Some y \<in> set xs}"
  by (force simp: somes_def split: option.splits)

lemma somes_simps [simp]: "somes [] = []" "somes (None # xs) = somes xs" "somes (Some y # xs) = y # somes xs"
  "somes (xs @ ys) = somes xs @ somes ys"
  by (simp_all add: somes_def)

definition at_index :: "'a list \<Rightarrow> nat \<Rightarrow> 'a result" where
  "at_index xs i = (if i < length xs then Inr (xs ! i) else Inl IndexError)"

lemma at_index_Inr [simp]: "at_index xs i = Inr x \<longleftrightarrow> i < length xs \<and> x = xs ! i"
  by (auto simp: at_index_def)

section \<open>Dictionaries\<close>

text \<open>
  A Python dictionary keeps its insertion order, an assignment to an existing key keeps its
  place: \<open>AList.update\<close>. Lookup is \<open>map_of\<close>.
\<close>

type_synonym ('k, 'v) dict = "('k \<times> 'v) list"

abbreviation dict_get :: "('k, 'v) dict \<Rightarrow> 'k \<Rightarrow> 'v option" where
  "dict_get \<equiv> map_of"

abbreviation dict_set :: "'k \<Rightarrow> 'v \<Rightarrow> ('k, 'v) dict \<Rightarrow> ('k, 'v) dict" where
  "dict_set \<equiv> AList.update"

abbreviation dict_keys :: "('k, 'v) dict \<Rightarrow> 'k list" where
  "dict_keys d \<equiv> map fst d"

abbreviation dict_values :: "('k, 'v) dict \<Rightarrow> 'v list" where
  "dict_values d \<equiv> map snd d"

text \<open>A dictionary comprehension \<open>{key(x): value(x) for x in xs}\<close>: later keys win.\<close>

definition dict_of :: "('a \<Rightarrow> 'k) \<Rightarrow> ('a \<Rightarrow> 'v) \<Rightarrow> 'a list \<Rightarrow> ('k, 'v) dict" where
  "dict_of key val xs = fold (\<lambda>x d. dict_set (key x) (val x) d) xs []"

definition dict_ok :: "('k, 'v) dict \<Rightarrow> bool" where
  "dict_ok d \<longleftrightarrow> distinct (dict_keys d)"

lemma dict_ok_empty [simp]: "dict_ok []"
  by (simp add: dict_ok_def)

lemma dict_ok_set [simp]: "dict_ok d \<Longrightarrow> dict_ok (dict_set k v d)"
  by (simp add: dict_ok_def distinct_update)

lemma dict_get_set [simp]: "dict_get (dict_set k v d) = (dict_get d)(k \<mapsto> v)"
  by (simp add: update_conv')

lemma dict_get_in:
  "dict_ok d \<Longrightarrow> dict_get d k = Some v \<longleftrightarrow> (k, v) \<in> set d"
  by (auto simp: dict_ok_def dest: map_of_SomeD)

lemma dict_ok_fold:
  "dict_ok d \<Longrightarrow> dict_ok (fold (\<lambda>x d. dict_set (key x) (val x) d) xs d)"
  by (induction xs arbitrary: d) auto

lemma dict_ok_of [simp]: "dict_ok (dict_of key val xs)"
  by (simp add: dict_of_def dict_ok_fold)

lemma dict_get_fold:
  "dict_get (fold (\<lambda>x d. dict_set (key x) (val x) d) xs d) k =
     (case find (\<lambda>x. key x = k) (rev xs) of Some x \<Rightarrow> Some (val x) | None \<Rightarrow> dict_get d k)"
proof (induction xs arbitrary: d rule: rev_induct)
  case (snoc x xs)
  then show ?case by auto
qed simp

lemma dict_get_of:
  "dict_get (dict_of key val xs) k = map_option val (find (\<lambda>x. key x = k) (rev xs))"
  by (auto simp: dict_of_def dict_get_fold split: option.splits)

lemma dict_keys_set: "set (dict_keys (dict_set k v d)) = insert k (set (dict_keys d))"
  by (induction d) auto

lemma find_unique:
  assumes "distinct (map key xs)" and "x \<in> set xs"
  shows "find (\<lambda>y. key y = key x) xs = Some x"
  using assms by (induction xs) force+

lemma find_None_iff_ball: "find P xs = None \<longleftrightarrow> (\<forall>x\<in>set xs. \<not> P x)"
  by (auto simp: find_None_iff)

lemma find_SomeD: "find P xs = Some x \<Longrightarrow> x \<in> set xs \<and> P x"
  by (induction xs) (auto split: if_splits)

lemma dict_get_of_unique:
  assumes "distinct (map key xs)" and "x \<in> set xs"
  shows "dict_get (dict_of key val xs) (key x) = Some (val x)"
proof -
  from assms have "find (\<lambda>y. key y = key x) (rev xs) = Some x"
    by (intro find_unique) (auto simp flip: rev_map)
  then show ?thesis by (simp add: dict_get_of)
qed

lemma dict_get_of_eq:
  assumes "distinct (map key xs)" and "\<And>x. x \<in> set xs \<Longrightarrow> m (key x) = Some (val x)"
    and "\<And>k. m k \<noteq> None \<Longrightarrow> k \<in> key ` set xs"
  shows "dict_get (dict_of key val xs) = m"
proof
  fix k
  show "dict_get (dict_of key val xs) k = m k"
  proof (cases "k \<in> key ` set xs")
    case True
    then show ?thesis using assms dict_get_of_unique by fastforce
  next
    case False
    moreover from False assms(3) have "m k = None" by blast
    ultimately show ?thesis by (auto simp: dict_get_of find_None_iff)
  qed
qed

lemma dict_get_of_None:
  "dict_get (dict_of key val xs) k = None \<longleftrightarrow> k \<notin> key ` set xs"
  by (auto simp: dict_get_of find_None_iff)

section \<open>Sorting\<close>

text \<open>\<open>sorted(set(xs))\<close>.\<close>

definition sorted_set :: "'a::linorder list \<Rightarrow> 'a list" where
  "sorted_set xs = sort (remdups xs)"

lemma set_sorted_set [simp]: "set (sorted_set xs) = set xs"
  by (simp add: sorted_set_def)

lemma sorted_sorted_set [simp]: "sorted (sorted_set xs)"
  by (simp add: sorted_set_def)

lemma distinct_sorted_set [simp]: "distinct (sorted_set xs)"
  by (simp add: sorted_set_def)

lemma sorted_set_cong: "set xs = set ys \<Longrightarrow> sorted_set xs = sorted_set ys"
  by (intro sorted_distinct_set_unique) auto

lemma length_sorted_set [simp]: "length (sorted_set xs) = card (set xs)"
  by (metis distinct_card distinct_sorted_set set_sorted_set)

lemma sorted_set_idem [simp]: "sorted_set (sorted_set xs) = sorted_set xs"
  by (rule sorted_set_cong) simp

lemma sorted_set_Nil_iff [simp]: "sorted_set xs = [] \<longleftrightarrow> xs = []"
  by (metis set_sorted_set set_empty)

lemma sort_Nil_iff [simp]: "sort xs = [] \<longleftrightarrow> xs = []"
  by (metis set_empty set_sort)

lemma one_less_card_iff: "finite A \<Longrightarrow> 1 < card A \<longleftrightarrow> (\<exists>a\<in>A. \<exists>b\<in>A. a \<noteq> b)"
  using card_le_Suc0_iff_eq [of A] by (metis One_nat_def linorder_not_less)

lemma dict_set_subset: "set (dict_set k v d) \<subseteq> insert (k, v) (set d)"
  by (induction d) auto

lemma dict_get_values: "dict_ok d \<Longrightarrow> v \<in> set (dict_values d) \<longleftrightarrow> (\<exists>k. dict_get d k = Some v)"
  by (force simp: dict_get_in)

text \<open>The values of a dictionary in the order of its sorted keys.\<close>

definition sorted_values :: "('k::linorder, 'v) dict \<Rightarrow> 'v list" where
  "sorted_values d = map snd (sort_key fst d)"

lemma set_sorted_values [simp]: "set (sorted_values d) = set (dict_values d)"
  by (simp add: sorted_values_def)

lemma sorted_values_cong:
  assumes "dict_ok d" and "dict_ok e" and "dict_get d = dict_get e"
  shows "sorted_values d = sorted_values e"
proof -
  have set_eq: "set d = set e" using assms by (metis dict_get_in subrelI subset_antisym)
  have "inj_on fst (set d)" using assms(1) by (simp add: dict_ok_def distinct_map)
  then have "sort_key fst d = sort_key fst e"
    using assms(1,2) set_eq
    by (intro map_sorted_distinct_set_unique [where f = fst])
       (simp_all add: dict_ok_def distinct_map distinct_sort)
  then show ?thesis by (simp add: sorted_values_def)
qed

end
