(* ===== verification/Py_Strings.thy ===== *)
theory Py_Strings
  imports Ard_Prelude
begin

text \<open>
  The string operations of Python that the code uses. A string is the list of the bytes of its
  UTF-8 encoding, so comparison of strings (\<open>sorted\<close>, \<open>==\<close>) is Python's. Stripping and case
  folding act on ASCII: they agree with Python's on every text whose non-ASCII characters have
  no case and are not spaces (Hangul, Han, digits, punctuation), which is what the repository
  processes.
\<close>

section \<open>Characters\<close>

definition is_space :: "char \<Rightarrow> bool" where
  "is_space c \<longleftrightarrow> (let n = of_char c :: nat in (9 \<le> n \<and> n \<le> 13) \<or> (28 \<le> n \<and> n \<le> 32))"

definition is_upper :: "char \<Rightarrow> bool" where
  "is_upper c \<longleftrightarrow> (let n = of_char c :: nat in 65 \<le> n \<and> n \<le> 90)"

definition is_lower :: "char \<Rightarrow> bool" where
  "is_lower c \<longleftrightarrow> (let n = of_char c :: nat in 97 \<le> n \<and> n \<le> 122)"

definition is_digit :: "char \<Rightarrow> bool" where
  "is_digit c \<longleftrightarrow> (let n = of_char c :: nat in 48 \<le> n \<and> n \<le> 57)"

definition is_hex :: "char \<Rightarrow> bool" where
  "is_hex c \<longleftrightarrow> is_digit c \<or> (let n = of_char c :: nat in 97 \<le> n \<and> n \<le> 102)"

definition lower_char :: "char \<Rightarrow> char" where
  "lower_char c = (if is_upper c then char_of ((of_char c :: nat) + 32) else c)"

lemma of_char_lt: "(of_char c :: nat) < 256"
  by (metis char_of_eq_iff nat_of_char_less_256 of_char_of)

lemma of_char_char_of: "n < 256 \<Longrightarrow> of_char (char_of n) = (n :: nat)"
  by (simp add: of_char_of)

lemma lower_char_idem [simp]: "lower_char (lower_char c) = lower_char c"
  by (auto simp: lower_char_def is_upper_def Let_def of_char_of)

lemma lower_char_not_upper: "\<not> is_upper c \<Longrightarrow> lower_char c = c"
  by (simp add: lower_char_def)

section \<open>Strings\<close>

definition str_lower :: "string \<Rightarrow> string" where
  "str_lower s = map lower_char s"

abbreviation casefold :: "string \<Rightarrow> string" where
  "casefold \<equiv> str_lower"

definition lstrip :: "string \<Rightarrow> string" where
  "lstrip s = dropWhile is_space s"

definition rstrip :: "string \<Rightarrow> string" where
  "rstrip s = rev (dropWhile is_space (rev s))"

definition strip :: "string \<Rightarrow> string" where
  "strip s = rstrip (lstrip s)"

lemma str_lower_idem [simp]: "str_lower (str_lower s) = str_lower s"
  by (simp add: str_lower_def)

lemma str_lower_Nil_iff [simp]: "str_lower s = [] \<longleftrightarrow> s = []"
  by (simp add: str_lower_def)

lemma length_str_lower [simp]: "length (str_lower s) = length s"
  by (simp add: str_lower_def)

definition stripped :: "string \<Rightarrow> bool" where
  "stripped s \<longleftrightarrow> s = [] \<or> (\<not> is_space (hd s) \<and> \<not> is_space (last s))"

lemma strip_id: "stripped s \<Longrightarrow> strip s = s"
proof (cases "s = []")
  case False
  assume "stripped s"
  with False have "\<not> is_space (hd s)" and "\<not> is_space (last s)"
    by (auto simp: stripped_def)
  moreover have "rev s = last s # rev (butlast s)"
    using False by (metis append_butlast_last_id rev_eq_Cons_iff rev_rev_ident)
  moreover have "s = hd s # tl s" using False by simp
  ultimately show ?thesis
    by (metis dropWhile.simps(2) lstrip_def rev_rev_ident rstrip_def strip_def)
qed (simp add: strip_def lstrip_def rstrip_def)

lemma hd_rev_dropWhile:
  assumes "xs = dropWhile P ys" and "rev zs = dropWhile Q (rev xs)" and "zs \<noteq> []"
  shows "\<not> P (hd zs)"
proof -
  from assms(2) obtain us where "rev xs = us @ rev zs"
    by (metis takeWhile_dropWhile_id)
  then have "xs = zs @ rev us" by (metis rev_append rev_rev_ident)
  with assms(3) have "hd xs = hd zs" and "xs \<noteq> []" by auto
  with assms(1) show ?thesis by (metis hd_dropWhile)
qed

lemma stripped_strip [simp]: "stripped (strip s)"
proof (cases "strip s = []")
  case False
  have "rev (strip s) = dropWhile is_space (rev (lstrip s))"
    by (simp add: strip_def rstrip_def)
  with False have "\<not> is_space (hd (rev (strip s)))" by (metis Nil_is_rev_conv hd_dropWhile)
  moreover have "\<not> is_space (hd (strip s))"
    using hd_rev_dropWhile [of "lstrip s" is_space s "strip s" is_space] False
    by (simp add: strip_def rstrip_def lstrip_def)
  ultimately show ?thesis using False by (simp add: stripped_def hd_rev)
qed (simp add: stripped_def)

lemma strip_idem [simp]: "strip (strip s) = strip s"
  by (simp add: strip_id)

lemma is_space_lower [simp]: "is_space (lower_char c) = is_space c"
  by (auto simp: lower_char_def is_space_def is_upper_def Let_def of_char_of)

lemma stripped_lower [simp]: "stripped (str_lower s) = stripped s"
  by (cases "s = []") (auto simp: stripped_def str_lower_def hd_map last_map)

lemma set_strip_subset: "set (strip s) \<subseteq> set s"
proof
  fix x
  assume "x \<in> set (strip s)"
  then have "x \<in> set (rev (dropWhile is_space s))"
    by (auto simp: strip_def rstrip_def lstrip_def dest: set_dropWhileD)
  then show "x \<in> set s" by (auto dest: set_dropWhileD)
qed

section \<open>Splitting and joining\<close>

text \<open>\<open>s.split(c)\<close> for a one-character separator: never empty, one part per separator plus one.\<close>

fun split_on :: "char \<Rightarrow> string \<Rightarrow> string list" where
  "split_on c [] = [[]]"
| "split_on c (x # xs) =
     (if x = c then [] # split_on c xs
      else (case split_on c xs of p # ps \<Rightarrow> (x # p) # ps | [] \<Rightarrow> [[x]]))"

text \<open>\<open>sep.join(parts)\<close>.\<close>

fun join :: "string \<Rightarrow> string list \<Rightarrow> string" where
  "join sep [] = []"
| "join sep [p] = p"
| "join sep (p # q # ps) = p @ sep @ join sep (q # ps)"

lemma split_on_nonempty [simp]: "split_on c s \<noteq> []"
  by (induction s) (auto split: list.splits)

lemma split_on_no_sep: "c \<notin> set s \<Longrightarrow> split_on c s = [s]"
  by (induction s) auto

lemma split_on_append:
  "c \<notin> set p \<Longrightarrow> split_on c (p @ c # s) = p # split_on c s"
  by (induction p) auto

lemma split_join:
  "ps \<noteq> [] \<Longrightarrow> \<forall>p\<in>set ps. c \<notin> set p \<Longrightarrow> split_on c (join [c] ps) = ps"
  by (induction "[c]" ps rule: join.induct) (auto simp: split_on_no_sep split_on_append)

lemma join_split: "join [c] (split_on c s) = s"
proof (induction s)
  case (Cons x xs)
  obtain p ps where "split_on c xs = p # ps"
    by (cases "split_on c xs") auto
  with Cons show ?case by (cases ps) auto
qed simp

lemma split_on_parts: "p \<in> set (split_on c s) \<Longrightarrow> c \<notin> set p"
proof (induction s arbitrary: p)
  case (Cons x xs)
  then show ?case by (auto split: if_splits list.splits)
qed simp

text \<open>\<open>s.rsplit(c, 1)\<close> unpacked into two names: None is the ValueError of a missing separator.\<close>

definition rsplit1 :: "char \<Rightarrow> string \<Rightarrow> (string \<times> string) option" where
  "rsplit1 c s =
     (let after = rev (takeWhile (\<lambda>x. x \<noteq> c) (rev s)); rest = dropWhile (\<lambda>x. x \<noteq> c) (rev s)
      in case rest of [] \<Rightarrow> None | _ # before \<Rightarrow> Some (rev before, after))"

lemma rsplit1_append: "c \<notin> set b \<Longrightarrow> rsplit1 c (a @ c # b) = Some (a, b)"
proof -
  assume "c \<notin> set b"
  then have *: "\<And>x. x \<in> set (rev b) \<Longrightarrow> x \<noteq> c" by auto
  have "takeWhile (\<lambda>x. x \<noteq> c) (rev b @ c # rev a) = rev b"
    using takeWhile_append2 [OF *, of "rev b"] by simp
  moreover have "dropWhile (\<lambda>x. x \<noteq> c) (rev b @ c # rev a) = c # rev a"
    using dropWhile_append2 [OF *, of "rev b"] by simp
  ultimately have "takeWhile (\<lambda>x. x \<noteq> c) (rev b @ c # rev a) = rev b"
    and "dropWhile (\<lambda>x. x \<noteq> c) (rev b @ c # rev a) = c # rev a" .
  then show ?thesis by (simp add: rsplit1_def)
qed

lemma rsplit1_None: "rsplit1 c s = None \<longleftrightarrow> c \<notin> set s"
proof -
  have "rsplit1 c s = None \<longleftrightarrow> dropWhile (\<lambda>x. x \<noteq> c) (rev s) = []"
    unfolding rsplit1_def Let_def by (simp only: split: list.splits) auto
  also have "\<dots> \<longleftrightarrow> c \<notin> set s" by (auto simp: dropWhile_eq_Nil_conv)
  finally show ?thesis .
qed

lemma rsplit1_Some: "rsplit1 c s = Some (a, b) \<Longrightarrow> s = a @ c # b \<and> c \<notin> set b"
proof -
  assume "rsplit1 c s = Some (a, b)"
  then have "c \<in> set s" by (metis option.distinct(1) rsplit1_None)
  then obtain a' b' where "s = a' @ c # b'" and "c \<notin> set b'"
    by (meson split_list_last)
  with \<open>rsplit1 c s = Some (a, b)\<close> show ?thesis by (simp add: rsplit1_append)
qed

section \<open>Decimal and hexadecimal numerals\<close>

definition digit_char :: "nat \<Rightarrow> char" where
  "digit_char n = (if n < 10 then char_of (48 + n) else char_of (87 + n))"

text \<open>\<open>str(n)\<close> of a non-negative integer.\<close>

fun nat_str :: "nat \<Rightarrow> string" where
  "nat_str n = (if n < 10 then [digit_char n] else nat_str (n div 10) @ [digit_char (n mod 10)])"

declare nat_str.simps [simp del]

definition int_str :: "int \<Rightarrow> string" where
  "int_str i = (if i < 0 then CHR ''-'' # nat_str (nat (- i)) else nat_str (nat i))"

lemma of_digit_char: "n < 16 \<Longrightarrow> of_char (digit_char n) = (if n < 10 then 48 + n else 87 + n :: nat)"
proof -
  assume "n < 16"
  then have "48 + n < 256" and "87 + n < 256" by simp_all
  then show ?thesis
    unfolding digit_char_def by (metis of_char_char_of)
qed

lemma digit_char_inj: "m < 16 \<Longrightarrow> n < 16 \<Longrightarrow> digit_char m = digit_char n \<Longrightarrow> m = n"
proof -
  assume "m < 16" "n < 16" "digit_char m = digit_char n"
  then have "(if m < 10 then 48 + m else 87 + m) = (if n < 10 then 48 + n else 87 + n)"
    using of_digit_char by metis
  then show "m = n" using \<open>m < 16\<close> \<open>n < 16\<close> by (simp split: if_splits)
qed

lemma is_digit_digit_char: "n < 10 \<Longrightarrow> is_digit (digit_char n)"
  using of_digit_char [of n] by (simp add: is_digit_def)

lemma is_hex_digit_char: "n < 16 \<Longrightarrow> is_hex (digit_char n)"
  using of_digit_char [of n]
  by (auto simp: is_hex_def is_digit_def split: if_splits)

lemma nat_str_digits: "\<forall>c\<in>set (nat_str n). is_digit c"
proof (induction n rule: nat_str.induct)
  case (1 n)
  then show ?case
    by (subst nat_str.simps) (auto simp: is_digit_digit_char)
qed

lemma nat_str_nonempty [simp]: "nat_str n \<noteq> []"
  by (subst nat_str.simps) simp

lemma nat_str_inj: "nat_str m = nat_str n \<Longrightarrow> m = n"
proof (induction m arbitrary: n rule: nat_str.induct)
  case (1 m)
  note eq = nat_str.simps [of m] nat_str.simps [of n]
  show ?case
  proof (cases "m < 10 \<or> n < 10")
    case True
    with "1.prems" eq have "m < 10" and "n < 10"
      by (auto split: if_splits simp: Cons_eq_append_conv append_eq_Cons_conv)
    with "1.prems" eq show ?thesis
      by (auto intro: digit_char_inj)
  next
    case False
    with "1.prems" eq have "nat_str (m div 10) = nat_str (n div 10)"
      and "digit_char (m mod 10) = digit_char (n mod 10)"
      by (auto)
    with "1.IH" False have "m div 10 = n div 10" and "m mod 10 = n mod 10"
      by (auto intro: digit_char_inj)
    then show ?thesis by (metis div_mult_mod_eq)
  qed
qed

lemma int_str_inj: "0 \<le> i \<Longrightarrow> 0 \<le> j \<Longrightarrow> int_str i = int_str j \<Longrightarrow> i = j"
  by (auto simp: int_str_def dest: nat_str_inj)

lemma int_str_digits: "0 \<le> i \<Longrightarrow> c \<in> set (int_str i) \<Longrightarrow> is_digit c"
  using nat_str_digits by (auto simp: int_str_def)

text \<open>\<open>'%0<w>x'\<close>: \<open>w\<close> hexadecimal digits, most significant first.\<close>

fun hex_fixed :: "nat \<Rightarrow> nat \<Rightarrow> string" where
  "hex_fixed 0 n = []"
| "hex_fixed (Suc w) n = hex_fixed w (n div 16) @ [digit_char (n mod 16)]"

lemma length_hex_fixed [simp]: "length (hex_fixed w n) = w"
  by (induction w arbitrary: n) auto

lemma hex_fixed_hex: "\<forall>c\<in>set (hex_fixed w n). is_hex c"
  by (induction w arbitrary: n) (auto simp: is_hex_digit_char)

lemma hex_fixed_append: "hex_fixed (v + w) n = hex_fixed v (n div 16 ^ w) @ hex_fixed w (n mod 16 ^ w)"
proof (induction w arbitrary: n)
  case (Suc w)
  have "n div 16 mod 16 ^ w = n mod 16 ^ Suc w div 16"
    by (simp add: mod_mult2_eq)
  moreover have "n mod 16 = n mod 16 ^ Suc w mod 16"
    by (simp add: mod_mod_cancel)
  moreover have "n div 16 div 16 ^ w = n div 16 ^ Suc w"
    by (simp add: div_mult2_eq)
  ultimately show ?case using Suc [of "n div 16"]
    by (simp add: add_Suc_right del: power_Suc)
qed simp

lemma hex_fixed_inj: "m < 16 ^ w \<Longrightarrow> n < 16 ^ w \<Longrightarrow> hex_fixed w m = hex_fixed w n \<Longrightarrow> m = n"
proof (induction w arbitrary: m n)
  case (Suc w)
  then have "hex_fixed w (m div 16) = hex_fixed w (n div 16)"
    and "digit_char (m mod 16) = digit_char (n mod 16)"
    by (auto)
  moreover have "m div 16 < 16 ^ w" and "n div 16 < 16 ^ w"
    using Suc.prems(1,2) by (auto simp: less_mult_imp_div_less mult.commute)
  ultimately have "m div 16 = n div 16" and "m mod 16 = n mod 16"
    using Suc.IH by (auto intro: digit_char_inj)
  then show ?case by (metis div_mult_mod_eq)
qed simp

definition starts_with :: "string \<Rightarrow> string \<Rightarrow> bool" where
  "starts_with p s \<longleftrightarrow> take (length p) s = p"

definition ends_with :: "string \<Rightarrow> string \<Rightarrow> bool" where
  "ends_with p s \<longleftrightarrow> starts_with (rev p) (rev s)"

lemma starts_with_append [simp]: "starts_with p (p @ s)"
  by (simp add: starts_with_def)

lemma starts_with_iff: "starts_with p s \<longleftrightarrow> (\<exists>t. s = p @ t)"
  unfolding starts_with_def by (metis append_eq_conv_conj append_take_drop_id)

end
