(* ===== verification/Ids.thy ===== *)
theory Ids
  imports Py_Strings
begin

text \<open>
  Identifier allocation (\<open>ids.py\<close>): prefixed RFC 9562 UUIDv7 strings built by shifting and
  or-ing a 48-bit timestamp, the version and variant fields and 74 random bits, and the textual
  patterns that \<open>models.py\<close> and \<open>impact.py\<close> require of an identifier. The lemmas show that what
  the allocator builds is what the patterns accept, and that it never builds the same
  identifier from two different inputs.
\<close>

unbundle bit_operations_syntax

section \<open>Allocation\<close>

definition ID_PREFIXES :: "string list" where
  "ID_PREFIXES = [''prd'', ''tbl'', ''col'', ''met'', ''rel'', ''lnk'', ''cst'']"

definition MAX_TIMESTAMP_MS :: int where
  "MAX_TIMESTAMP_MS = push_bit 48 1 - 1"

definition MAX_RANDOM_BITS :: int where
  "MAX_RANDOM_BITS = push_bit 74 1 - 1"

text \<open>\<open>str(uuid.UUID(int=value))\<close>: 32 hexadecimal digits in groups of 8, 4, 4, 4 and 12.\<close>

definition uuid_str :: "nat \<Rightarrow> string" where
  "uuid_str value =
     (let hex = hex_fixed 32 value
      in take 8 hex @ ''-'' @ take 4 (drop 8 hex) @ ''-'' @ take 4 (drop 12 hex) @ ''-''
         @ take 4 (drop 16 hex) @ ''-'' @ drop 20 hex)"

definition uuid7_value :: "int \<Rightarrow> int \<Rightarrow> int" where
  "uuid7_value timestamp randomness =
     (let rand_a = drop_bit 62 randomness;
          rand_b = randomness AND (push_bit 62 1 - 1)
      in (((push_bit 80 timestamp OR push_bit 76 7) OR push_bit 64 rand_a) OR push_bit 62 2)
         OR rand_b)"

text \<open>
  The clock (milliseconds since the epoch) and the 74 bits of \<open>secrets.randbits\<close> are inputs;
  they are used where the optional arguments are absent.
\<close>

definition new_id :: "string \<Rightarrow> int option \<Rightarrow> int option \<Rightarrow> int \<Rightarrow> int \<Rightarrow> string result" where
  "new_id prefix timestamp_ms random_bits clock entropy =
     (if prefix \<notin> set ID_PREFIXES then Inl (ValueError (''unsupported ID prefix: '' @ prefix))
      else
        let timestamp = (case timestamp_ms of None \<Rightarrow> clock | Some t \<Rightarrow> t)
        in if \<not> (0 \<le> timestamp \<and> timestamp \<le> MAX_TIMESTAMP_MS)
           then Inl (ValueError ''timestamp_ms must fit in 48 bits'')
           else
             let randomness = (case random_bits of None \<Rightarrow> entropy | Some r \<Rightarrow> r)
             in if \<not> (0 \<le> randomness \<and> randomness \<le> MAX_RANDOM_BITS)
                then Inl (ValueError ''random_bits must be a 74-bit unsigned integer'')
                else Inr (prefix @ ''_'' @ uuid_str (nat (uuid7_value timestamp randomness))))"

section \<open>Patterns\<close>

text \<open>
  \<open>[0-9a-f]{8}-[0-9a-f]{4}-7[0-9a-f]{3}-[89ab][0-9a-f]{3}-[0-9a-f]{12}\<close>, read group by group.
\<close>

definition hex_group :: "nat \<Rightarrow> string \<Rightarrow> bool" where
  "hex_group n s \<longleftrightarrow> length s = n \<and> list_all is_hex s"

definition uuid7_pattern :: "string \<Rightarrow> bool" where
  "uuid7_pattern s =
     (case split_on CHR ''-'' s of
        [a, b, c, d, e] \<Rightarrow>
          hex_group 8 a \<and> hex_group 4 b
          \<and> c \<noteq> [] \<and> hd c = CHR ''7'' \<and> hex_group 3 (tl c)
          \<and> d \<noteq> [] \<and> hd d \<in> set ''89ab'' \<and> hex_group 3 (tl d)
          \<and> hex_group 12 e
      | _ \<Rightarrow> False)"

definition id_pattern :: "string \<Rightarrow> string \<Rightarrow> bool" where
  "id_pattern prefix s \<longleftrightarrow>
     starts_with (prefix @ ''_'') s \<and> uuid7_pattern (drop (length prefix + 1) s)"

section \<open>The bit layout as arithmetic\<close>

lemma or_shift:
  fixes a b :: int
  assumes "0 \<le> b" and "b < 2 ^ n"
  shows "push_bit n a OR b = a * 2 ^ n + b"
proof -
  have "push_bit n a AND b = 0"
  proof (rule bit_eqI)
    fix m
    show "bit (push_bit n a AND b) m \<longleftrightarrow> bit (0::int) m"
    proof (cases "m < n")
      case False
      with assms have "\<not> bit b m"
        by (metis bit_take_bit_iff take_bit_int_eq_self)
      then show ?thesis by (simp add: bit_and_iff)
    qed (simp add: bit_and_iff bit_push_bit_iff)
  qed
  then show ?thesis
    by (metis disjunctive_add_eq_or push_bit_eq_mult)
qed

lemma uuid7_value_arith:
  assumes "0 \<le> r"
    and "r < 2 ^ 74"
  shows "uuid7_value t r =
    ((((t * 2 ^ 4 + 7) * 2 ^ 12 + r div 2 ^ 62) * 2 ^ 2 + 2) * 2 ^ 62) + r mod 2 ^ 62"
proof -
  let ?ra = "r div 2 ^ 62" and ?rb = "r mod 2 ^ 62"
  have ra: "drop_bit 62 r = ?ra" by (simp add: drop_bit_eq_div)
  have mask: "push_bit 62 1 - 1 = (mask 62 :: int)" by (simp add: mask_eq_exp_minus_1 push_bit_eq_mult)
  have rb: "r AND (push_bit 62 1 - 1) = ?rb"
    by (simp only: mask flip: take_bit_eq_mask) (simp add: take_bit_eq_mod)
  have bounds: "0 \<le> ?ra" "?ra < 2 ^ 12" "0 \<le> ?rb" "?rb < 2 ^ 62"
    using assms by auto
  have s1: "push_bit 80 t OR push_bit 76 7 = push_bit 76 (t * 2 ^ 4 + 7)"
    using or_shift [of "push_bit 76 7" 80 t] by (simp add: push_bit_eq_mult)
  have s2: "push_bit 76 (t * 2 ^ 4 + 7) OR push_bit 64 ?ra
      = push_bit 64 ((t * 2 ^ 4 + 7) * 2 ^ 12 + ?ra)"
    using or_shift [of "push_bit 64 ?ra" 76 "t * 2 ^ 4 + 7"] bounds
    by (simp add: push_bit_eq_mult)
  have s3: "push_bit 64 ((t * 2 ^ 4 + 7) * 2 ^ 12 + ?ra) OR push_bit 62 2
      = push_bit 62 (((t * 2 ^ 4 + 7) * 2 ^ 12 + ?ra) * 2 ^ 2 + 2)"
    using or_shift [of "push_bit 62 2" 64 "(t * 2 ^ 4 + 7) * 2 ^ 12 + ?ra"]
    by (simp add: push_bit_eq_mult)
  have s4: "push_bit 62 (((t * 2 ^ 4 + 7) * 2 ^ 12 + ?ra) * 2 ^ 2 + 2) OR ?rb
      = (((t * 2 ^ 4 + 7) * 2 ^ 12 + ?ra) * 2 ^ 2 + 2) * 2 ^ 62 + ?rb"
    using bounds by (intro or_shift) auto
  show ?thesis
    unfolding uuid7_value_def Let_def ra rb s1 s2 s3 s4 ..
qed

lemma uuid7_value_nonneg: "0 \<le> t \<Longrightarrow> 0 \<le> r \<Longrightarrow> r < 2 ^ 74 \<Longrightarrow> 0 \<le> uuid7_value t r"
  by (simp add: uuid7_value_arith)

text \<open>The fields of the 128-bit value, read back by division.\<close>

lemma field_read:
  fixes a b c :: int
  assumes "0 \<le> b" "b < 2 ^ w" "0 \<le> c" "c < 2 ^ k"
  shows "((a * 2 ^ w + b) * 2 ^ k + c) div 2 ^ k mod 2 ^ w = b"
proof -
  have "((a * 2 ^ w + b) * 2 ^ k + c) div 2 ^ k = a * 2 ^ w + b"
    using assms by (simp add: div_pos_pos_trivial)
  then show ?thesis using assms by simp
qed

lemma uuid7_value_fields:
  assumes "0 \<le> t" "t < 2 ^ 48" "0 \<le> r" "r < 2 ^ 74"
  defines "v \<equiv> uuid7_value t r"
  shows "v div 2 ^ 80 = t" and "v div 2 ^ 64 mod 2 ^ 16 = 7 * 2 ^ 12 + r div 2 ^ 62"
    and "v div 2 ^ 48 mod 2 ^ 16 = 2 * 2 ^ 14 + r mod 2 ^ 62 div 2 ^ 48"
    and "v mod 2 ^ 62 = r mod 2 ^ 62" and "v < 2 ^ 128"
proof -
  define ra rb where "ra = r div 2 ^ 62" and "rb = r mod 2 ^ 62"
  have v: "v = (((t * 2 ^ 4 + 7) * 2 ^ 12 + ra) * 2 ^ 2 + 2) * 2 ^ 62 + rb"
    unfolding v_def ra_def rb_def using assms(3,4) by (rule uuid7_value_arith)
  have b: "0 \<le> ra" "ra < 2 ^ 12" "0 \<le> rb" "rb < 2 ^ 62"
    using assms by (auto simp: ra_def rb_def)
  from b show "v div 2 ^ 80 = t" unfolding v by simp
  have "v = (t * 2 ^ 16 + (7 * 2 ^ 12 + ra)) * 2 ^ 64 + (2 * 2 ^ 62 + rb)"
    unfolding v by (simp add: algebra_simps)
  then show "v div 2 ^ 64 mod 2 ^ 16 = 7 * 2 ^ 12 + r div 2 ^ 62"
    using b field_read [of "7 * 2 ^ 12 + ra" 16 "2 * 2 ^ 62 + rb" 64 t] by (simp add: ra_def)
  have "rb = rb div 2 ^ 48 * 2 ^ 48 + rb mod 2 ^ 48" by simp
  then have v48: "v = ((((t * 2 ^ 4 + 7) * 2 ^ 12 + ra) * 2 ^ 16) + (2 * 2 ^ 14 + rb div 2 ^ 48)) * 2 ^ 48
      + rb mod 2 ^ 48"
    unfolding v by (simp add: algebra_simps)
  have "rb div 2 ^ 48 < 2 ^ 14" and "0 \<le> rb div 2 ^ 48" using b by auto
  then show "v div 2 ^ 48 mod 2 ^ 16 = 2 * 2 ^ 14 + r mod 2 ^ 62 div 2 ^ 48"
    unfolding v48 rb_def by (intro field_read) auto
  have "v mod 2 ^ 62 = rb mod 2 ^ 62" unfolding v by (rule mod_mult_self3)
  with b show "v mod 2 ^ 62 = r mod 2 ^ 62" by (simp add: rb_def)
  have "((t * 2 ^ 4 + 7) * 2 ^ 12 + ra) * 2 ^ 2 + 2 < 2 ^ 66" using b(2) assms(2) by simp
  with b show "v < 2 ^ 128" unfolding v by simp
qed

section \<open>Allocated identifiers match the patterns\<close>

lemma is_hex_not_dash: "list_all is_hex s \<Longrightarrow> CHR ''-'' \<notin> set s"
  by (auto simp: list_all_iff is_hex_def is_digit_def)

lemma mod_div_swap: "n mod (a * b) div a = n div a mod b" for n a b :: nat
  by (cases "a = 0") (simp_all add: mod_mult2_eq)

lemma hex_32_groups:
  "hex_fixed 32 n = hex_fixed 8 (n div 16 ^ 24) @ hex_fixed 4 (n div 16 ^ 20 mod 16 ^ 4)
     @ hex_fixed 4 (n div 16 ^ 16 mod 16 ^ 4) @ hex_fixed 4 (n div 16 ^ 12 mod 16 ^ 4)
     @ hex_fixed 12 (n mod 16 ^ 12)"
proof -
  have "hex_fixed 32 n = hex_fixed 8 (n div 16 ^ 24) @ hex_fixed 24 (n mod 16 ^ 24)"
    using hex_fixed_append [of 8 24 n] by simp
  also have "hex_fixed 24 (n mod 16 ^ 24)
      = hex_fixed 4 (n mod 16 ^ 24 div 16 ^ 20) @ hex_fixed 20 (n mod 16 ^ 20)"
    using hex_fixed_append [of 4 20 "n mod 16 ^ 24"] by (simp add: mod_mod_cancel)
  also have "hex_fixed 20 (n mod 16 ^ 20)
      = hex_fixed 4 (n mod 16 ^ 20 div 16 ^ 16) @ hex_fixed 16 (n mod 16 ^ 16)"
    using hex_fixed_append [of 4 16 "n mod 16 ^ 20"] by (simp add: mod_mod_cancel)
  also have "hex_fixed 16 (n mod 16 ^ 16)
      = hex_fixed 4 (n mod 16 ^ 16 div 16 ^ 12) @ hex_fixed 12 (n mod 16 ^ 12)"
    using hex_fixed_append [of 4 12 "n mod 16 ^ 16"] by (simp add: mod_mod_cancel)
  also have "n mod 16 ^ 24 div 16 ^ 20 = n div 16 ^ 20 mod 16 ^ 4"
    using mod_div_swap [of n "16 ^ 20" "16 ^ 4"] by (simp flip: power_add)
  also have "n mod 16 ^ 20 div 16 ^ 16 = n div 16 ^ 16 mod 16 ^ 4"
    using mod_div_swap [of n "16 ^ 16" "16 ^ 4"] by (simp flip: power_add)
  also have "n mod 16 ^ 16 div 16 ^ 12 = n div 16 ^ 12 mod 16 ^ 4"
    using mod_div_swap [of n "16 ^ 12" "16 ^ 4"] by (simp flip: power_add)
  finally show ?thesis .
qed

lemma uuid_str_groups:
  "uuid_str n = join ''-''
     [hex_fixed 8 (n div 16 ^ 24), hex_fixed 4 (n div 16 ^ 20 mod 16 ^ 4),
      hex_fixed 4 (n div 16 ^ 16 mod 16 ^ 4), hex_fixed 4 (n div 16 ^ 12 mod 16 ^ 4),
      hex_fixed 12 (n mod 16 ^ 12)]"
  unfolding uuid_str_def Let_def hex_32_groups by simp

lemma hex_fixed_4:
  "d < 16 \<Longrightarrow> m < 16 ^ 3 \<Longrightarrow> hex_fixed 4 (d * 16 ^ 3 + m) = digit_char d # hex_fixed 3 m"
  using hex_fixed_append [of 1 3 "d * 16 ^ 3 + m"] by simp

lemma hex_group_fixed [simp]: "hex_group w (hex_fixed w n)"
  using hex_fixed_hex by (auto simp: hex_group_def list_all_iff)

text \<open>The 16-digit tail of the value carries the version and the variant where the pattern wants them.\<close>

lemma nat_div_mod:
  "0 \<le> v \<Longrightarrow> nat v div 2 ^ j mod 2 ^ k = nat (v div 2 ^ j mod 2 ^ k)" for v :: int
proof -
  assume "0 \<le> v"
  then have "nat (v div 2 ^ j mod 2 ^ k) = nat (v div 2 ^ j) mod nat (2 ^ k)"
    by (intro nat_mod_distrib) (auto simp: pos_imp_zdiv_nonneg_iff)
  also have "\<dots> = nat v div 2 ^ j mod 2 ^ k"
    using \<open>0 \<le> v\<close> by (simp add: nat_div_distrib nat_power_eq)
  finally show ?thesis ..
qed

lemma version_char: "digit_char 7 = CHR ''7''"
  by code_simp

lemma variant_chars: "k < 4 \<Longrightarrow> digit_char (8 + k) \<in> set ''89ab''"
proof -
  assume "k < 4"
  then have "k = 0 \<or> k = 1 \<or> k = 2 \<or> k = 3" by auto
  moreover have "digit_char 8 = CHR ''8''" "digit_char 9 = CHR ''9''"
    "digit_char 10 = CHR ''a''" "digit_char 11 = CHR ''b''" by code_simp+
  ultimately show ?thesis by auto
qed

lemma uuid7_groups:
  assumes "0 \<le> t" "t < 2 ^ 48" "0 \<le> r" "r < 2 ^ 74"
  defines "n \<equiv> nat (uuid7_value t r)"
  shows "hex_fixed 4 (n div 16 ^ 16 mod 16 ^ 4) = CHR ''7'' # hex_fixed 3 (nat (r div 2 ^ 62))"
    and "\<exists>d\<in>set ''89ab''. \<exists>m. hex_fixed 4 (n div 16 ^ 12 mod 16 ^ 4) = d # hex_fixed 3 m"
proof -
  note f = uuid7_value_fields [OF assms(1-4)]
  have nn: "0 \<le> uuid7_value t r" using assms by (simp add: uuid7_value_nonneg)
  have p: "(16::nat) ^ 16 = 2 ^ 64" "(16::nat) ^ 12 = 2 ^ 48" "(16::nat) ^ 4 = 2 ^ 16" by simp_all
  have ra: "nat (r div 2 ^ 62) < 16 ^ 3" using assms by auto
  have "n div 16 ^ 16 mod 16 ^ 4 = nat (7 * 2 ^ 12 + r div 2 ^ 62)"
    unfolding n_def p nat_div_mod [OF nn] f(2) ..
  also have "\<dots> = 7 * 16 ^ 3 + nat (r div 2 ^ 62)" using assms by (simp add: nat_add_distrib)
  finally show "hex_fixed 4 (n div 16 ^ 16 mod 16 ^ 4) = CHR ''7'' # hex_fixed 3 (nat (r div 2 ^ 62))"
    using hex_fixed_4 [of 7 "nat (r div 2 ^ 62)"] ra
    by (simp add: version_char)
  define rb where "rb = nat (r mod 2 ^ 62 div 2 ^ 48)"
  have rb: "rb < 2 ^ 14"
    using assms by (auto simp: rb_def nat_less_iff)
  have "n div 16 ^ 12 mod 16 ^ 4 = nat (2 * 2 ^ 14 + r mod 2 ^ 62 div 2 ^ 48)"
    unfolding n_def p nat_div_mod [OF nn] f(3) ..
  also have "\<dots> = 2 * 2 ^ 14 + rb" by (simp add: nat_add_distrib rb_def)
  also have "\<dots> = (8 + rb div 2 ^ 12) * 16 ^ 3 + rb mod 2 ^ 12" by simp
  finally have "hex_fixed 4 (n div 16 ^ 12 mod 16 ^ 4)
      = digit_char (8 + rb div 2 ^ 12) # hex_fixed 3 (rb mod 2 ^ 12)"
    using hex_fixed_4 [of "8 + rb div 2 ^ 12" "rb mod 2 ^ 12"] rb by (simp add: less_mult_imp_div_less)
  moreover have "digit_char (8 + rb div 2 ^ 12) \<in> set ''89ab''"
    by (rule variant_chars) (use rb in auto)
  ultimately show "\<exists>d\<in>set ''89ab''. \<exists>m. hex_fixed 4 (n div 16 ^ 12 mod 16 ^ 4) = d # hex_fixed 3 m"
    by blast
qed

lemma uuid_str_pattern:
  assumes "0 \<le> t" "t < 2 ^ 48" "0 \<le> r" "r < 2 ^ 74"
  shows "uuid7_pattern (uuid_str (nat (uuid7_value t r)))"
proof -
  let ?n = "nat (uuid7_value t r)"
  let ?gs = "[hex_fixed 8 (?n div 16 ^ 24), hex_fixed 4 (?n div 16 ^ 20 mod 16 ^ 4),
      hex_fixed 4 (?n div 16 ^ 16 mod 16 ^ 4), hex_fixed 4 (?n div 16 ^ 12 mod 16 ^ 4),
      hex_fixed 12 (?n mod 16 ^ 12)]"
  have "\<forall>g\<in>set ?gs. CHR ''-'' \<notin> set g"
    using hex_fixed_hex by (auto intro!: is_hex_not_dash simp: list_all_iff)
  then have "split_on CHR ''-'' (uuid_str ?n) = ?gs"
    unfolding uuid_str_groups by (intro split_join) auto
  moreover obtain d m where "d \<in> set ''89ab''" "hex_fixed 4 (?n div 16 ^ 12 mod 16 ^ 4) = d # hex_fixed 3 m"
    using uuid7_groups(2) [OF assms] by blast
  ultimately show ?thesis
    using uuid7_groups(1) [OF assms] by (simp add: uuid7_pattern_def)
qed

lemma limits: "MAX_TIMESTAMP_MS = 2 ^ 48 - 1" "MAX_RANDOM_BITS = 2 ^ 74 - 1"
  by (simp_all add: MAX_TIMESTAMP_MS_def MAX_RANDOM_BITS_def push_bit_eq_mult)

lemma new_id_Inr_iff:
  "new_id p (Some t) (Some r) clock entropy = Inr s \<longleftrightarrow>
     p \<in> set ID_PREFIXES \<and> 0 \<le> t \<and> t < 2 ^ 48 \<and> 0 \<le> r \<and> r < 2 ^ 74
     \<and> s = p @ ''_'' @ uuid_str (nat (uuid7_value t r))"
  unfolding new_id_def limits Let_def by auto

lemma new_id_defaults:
  "new_id p ts rb clock entropy
    = new_id p (Some (case ts of None \<Rightarrow> clock | Some t \<Rightarrow> t))
        (Some (case rb of None \<Rightarrow> entropy | Some r \<Rightarrow> r)) clock entropy"
  unfolding new_id_def by (cases ts; cases rb) (simp_all add: Let_def)

lemma new_id_pattern: "new_id p ts rb clock entropy = Inr s \<Longrightarrow> id_pattern p s"
  by (subst (asm) new_id_defaults)
     (auto simp: new_id_Inr_iff id_pattern_def uuid_str_pattern starts_with_def)

text \<open>Removing the dashes gives back the 32 digits, so the text determines the value.\<close>

lemma uuid_str_undash: "filter (\<lambda>c. c \<noteq> CHR ''-'') (uuid_str n) = hex_fixed 32 n"
proof -
  have "filter (\<lambda>c. c \<noteq> CHR ''-'') (hex_fixed w m) = hex_fixed w m" for w m
    using hex_fixed_hex [of w m] by (intro filter_True) (auto simp: is_hex_def is_digit_def)
  then show ?thesis unfolding uuid_str_groups hex_32_groups by simp
qed

lemma uuid_str_inj: "m < 16 ^ 32 \<Longrightarrow> n < 16 ^ 32 \<Longrightarrow> uuid_str m = uuid_str n \<Longrightarrow> m = n"
  by (metis hex_fixed_inj uuid_str_undash)

lemma uuid7_value_inj:
  assumes "0 \<le> t" "t < 2 ^ 48" "0 \<le> r" "r < 2 ^ 74" "0 \<le> t'" "t' < 2 ^ 48" "0 \<le> r'" "r' < 2 ^ 74"
    and "uuid7_value t r = uuid7_value t' r'"
  shows "t = t' \<and> r = r'"
proof -
  note f = uuid7_value_fields [OF assms(1-4)] and g = uuid7_value_fields [OF assms(5-8)]
  from f(1) g(1) assms(9) have "t = t'" by simp
  moreover from f(2) g(2) assms(9) have "r div 2 ^ 62 = r' div 2 ^ 62" by simp
  moreover from f(4) g(4) assms(9) have "r mod 2 ^ 62 = r' mod 2 ^ 62" by simp
  ultimately show ?thesis by (metis div_mult_mod_eq)
qed

lemma uuid7_text_inj:
  assumes "0 \<le> t" "t < 2 ^ 48" "0 \<le> r" "r < 2 ^ 74" "0 \<le> t'" "t' < 2 ^ 48" "0 \<le> r'" "r' < 2 ^ 74"
    and "uuid_str (nat (uuid7_value t r)) = uuid_str (nat (uuid7_value t' r'))"
  shows "t = t' \<and> r = r'"
proof (rule uuid7_value_inj [OF assms(1-8)])
  have "nat (uuid7_value t r) < 2 ^ 128" and "nat (uuid7_value t' r') < 2 ^ 128"
    using uuid7_value_fields(5) assms(1-8) by (simp_all add: nat_less_iff uuid7_value_nonneg)
  then have "nat (uuid7_value t r) = nat (uuid7_value t' r')"
    using assms(9) by (intro uuid_str_inj) simp_all
  then show "uuid7_value t r = uuid7_value t' r'"
    using uuid7_value_nonneg assms(1-8) by (simp add: eq_nat_nat_iff)
qed

section \<open>What an identifier tells\<close>

lemma new_id_prefix:
  assumes "p @ ''_'' @ u = q @ ''_'' @ v" and "p \<in> set ID_PREFIXES" and "q \<in> set ID_PREFIXES"
  shows "p = q \<and> u = v"
proof -
  have "length p = 3" "length q = 3" using assms(2,3) by (auto simp: ID_PREFIXES_def)
  then show ?thesis using assms(1) append_eq_append_conv [of p q] by auto
qed

text \<open>Every allocated identifier has the textual form the models require of its kind, and it
  determines the kind, the time stamp and the random bits it was allocated from: two
  allocations that differ in any of them never collide.\<close>

theorem new_id_identifies:
  assumes "new_id p (Some t) (Some r) clock entropy = Inr s"
    and "new_id p' (Some t') (Some r') clock' entropy' = Inr s'"
  shows "id_pattern p s \<and> (s = s' \<longleftrightarrow> p = p' \<and> t = t' \<and> r = r')"
proof -
  note a = assms [unfolded new_id_Inr_iff]
  have "p = p' \<and> t = t' \<and> r = r'" if "s = s'"
  proof -
    from a that have "p @ ''_'' @ uuid_str (nat (uuid7_value t r)) = p' @ ''_'' @ uuid_str (nat (uuid7_value t' r'))"
      by simp
    with a have pu: "p = p'" "uuid_str (nat (uuid7_value t r)) = uuid_str (nat (uuid7_value t' r'))"
      using new_id_prefix by blast+
    with a uuid7_text_inj [of t r t' r'] show ?thesis by blast
  qed
  moreover have "s = s'" if "p = p' \<and> t = t' \<and> r = r'" using a that by simp
  ultimately show ?thesis using new_id_pattern [OF assms(1)] by blast
qed

theorem new_id_identifies_witness:
  "\<exists>s s'. new_id ''prd'' (Some 0) (Some 1) 0 0 = Inr s \<and> new_id ''prd'' (Some 0) (Some 2) 0 0 = Inr s' \<and> s \<noteq> s'"
proof -
  have "''prd'' \<in> set ID_PREFIXES" by (simp add: ID_PREFIXES_def)
  then have "\<exists>s. new_id ''prd'' (Some 0) (Some 1) 0 0 = Inr s" "\<exists>s. new_id ''prd'' (Some 0) (Some 2) 0 0 = Inr s"
    by (simp_all add: new_id_Inr_iff)
  with new_id_identifies [of "''prd''" 0 1 0 0 _ "''prd''" 0 2 0 0] show ?thesis by fastforce
qed

end
