(* ===== verification/Models.thy ===== *)
theory Models
  imports Ids
begin

text \<open>
  The data model (\<open>models.py\<close>): the constrained string and integer types as predicates, the
  pydantic models as records with a validating constructor each, and the table locator with
  its normalisation and its key. A record built by a constructor satisfies the record's
  \<open>_ok\<close> predicate, which is the conjunction of its field constraints and its model validator.
\<close>

section \<open>Constrained types\<close>

abbreviation ProductId :: "string \<Rightarrow> bool" where "ProductId \<equiv> id_pattern ''prd''"
abbreviation TableId :: "string \<Rightarrow> bool" where "TableId \<equiv> id_pattern ''tbl''"
abbreviation LinkId :: "string \<Rightarrow> bool" where "LinkId \<equiv> id_pattern ''lnk''"
abbreviation ColumnId :: "string \<Rightarrow> bool" where "ColumnId \<equiv> id_pattern ''col''"
abbreviation MetricId :: "string \<Rightarrow> bool" where "MetricId \<equiv> id_pattern ''met''"
abbreviation RelationshipId :: "string \<Rightarrow> bool" where "RelationshipId \<equiv> id_pattern ''rel''"

text \<open>\<open>[a-z0-9]+(?:-[a-z0-9]+)*\<close>: dash-separated non-empty groups of lower-case letters and digits.\<close>

definition ProductKey :: "string \<Rightarrow> bool" where
  "ProductKey s \<longleftrightarrow>
     list_all (\<lambda>p. p \<noteq> [] \<and> list_all (\<lambda>c. is_lower c \<or> is_digit c) p) (split_on CHR ''-'' s)"

definition Sha256 :: "string \<Rightarrow> bool" where
  "Sha256 s \<longleftrightarrow> length s = 64 \<and> list_all is_hex s"

definition Version :: "int \<Rightarrow> bool" where
  "Version v \<longleftrightarrow> 1 \<le> v \<and> v \<le> 999"

fun opt_ok :: "('a \<Rightarrow> bool) \<Rightarrow> 'a option \<Rightarrow> bool" where
  "opt_ok P None = True"
| "opt_ok P (Some x) = P x"

datatype entity_status = ACTIVE | RETIRED

datatype operation = Create | Update | Retire

section \<open>Table locators\<close>

record table_locator =
  source_system_id :: string
  catalog :: string
  schema_name :: string
  table_name :: string

definition normalize_part :: "string \<Rightarrow> string result" where
  "normalize_part value =
     (let normalized = str_lower (strip value)
      in if normalized = [] \<or> CHR ''|'' \<in> set normalized
         then Inl (ValidationError (''table locator parts must be non-empty and cannot contain ''
                @ [CHR 0x27, CHR ''|'', CHR 0x27]))
         else Inr normalized)"

definition TableLocator :: "string \<Rightarrow> string \<Rightarrow> string \<Rightarrow> string \<Rightarrow> table_locator result" where
  "TableLocator a b c d =
     bind_ok (normalize_part a) (\<lambda>a'. bind_ok (normalize_part b) (\<lambda>b'.
     bind_ok (normalize_part c) (\<lambda>c'. bind_ok (normalize_part d) (\<lambda>d'.
       Inr \<lparr>source_system_id = a', catalog = b', schema_name = c', table_name = d'\<rparr>))))"

definition locator_key :: "table_locator \<Rightarrow> string" where
  "locator_key l = join ''|'' [source_system_id l, catalog l, schema_name l, table_name l]"

definition part_ok :: "string \<Rightarrow> bool" where
  "part_ok s \<longleftrightarrow> s \<noteq> [] \<and> CHR ''|'' \<notin> set s \<and> stripped s \<and> str_lower s = s"

definition locator_ok :: "table_locator \<Rightarrow> bool" where
  "locator_ok l \<longleftrightarrow> part_ok (source_system_id l) \<and> part_ok (catalog l)
     \<and> part_ok (schema_name l) \<and> part_ok (table_name l)"

lemma normalize_part_ok: "normalize_part s = Inr t \<Longrightarrow> part_ok t"
  by (auto simp: normalize_part_def part_ok_def Let_def split: if_splits)

lemma normalize_part_id: "part_ok s \<Longrightarrow> normalize_part s = Inr s"
  by (auto simp: normalize_part_def part_ok_def strip_id)

lemma TableLocator_ok: "TableLocator a b c d = Inr l \<Longrightarrow> locator_ok l"
  by (auto simp: TableLocator_def locator_ok_def dest: normalize_part_ok)

lemma locator_key_split:
  "locator_ok l \<Longrightarrow> split_on CHR ''|'' (locator_key l)
     = [source_system_id l, catalog l, schema_name l, table_name l]"
  unfolding locator_key_def by (rule split_join) (auto simp: locator_ok_def part_ok_def)

text \<open>Distinct normalised locators have distinct keys, which is what makes the key an identity.\<close>

lemma locator_key_inj: "locator_ok l \<Longrightarrow> locator_ok m \<Longrightarrow> locator_key l = locator_key m \<Longrightarrow> l = m"
  using locator_key_split [of l] locator_key_split [of m] by (auto intro: table_locator.equality)

section \<open>Records\<close>

record metric_record =
  mr_metric_id :: string
  mr_name :: string
  mr_aliases :: "string list"
  mr_status :: entity_status

record relationship_record =
  rr_relationship_id :: string
  rr_name :: string
  rr_aliases :: "string list"
  rr_status :: entity_status

record column_record =
  cr_column_id :: string
  cr_name :: string
  cr_aliases :: "string list"
  cr_status :: entity_status

record product_record =
  pr_product_id :: string
  pr_product_key :: string
  pr_version :: int
  pr_status :: entity_status
  pr_display_name :: "string option"
  pr_aliases :: "string list"
  pr_canonical_hash :: "string option"
  pr_metrics :: "metric_record list"
  pr_relationships :: "relationship_record list"

record table_record =
  tr_table_id :: string
  tr_locator :: table_locator
  tr_version :: int
  tr_status :: entity_status
  tr_aliases :: "string list"
  tr_columns :: "column_record list"
  tr_schema_hash :: "string option"
  tr_canonical_hash :: "string option"

datatype usage = SOURCE | OUTPUT | REFERENCE

record product_table_ref =
  ref_link_id :: string
  ref_product_id :: string
  ref_table_id :: string
  ref_table_version :: int
  ref_usage :: usage
  ref_required :: bool
  ref_semantic_dataset :: "string option"

record candidate_change =
  cc_operation :: operation
  cc_product :: product_record
  cc_tables :: "table_record list"
  cc_mappings :: "product_table_ref list"
  cc_base_product_version :: "int option"
  cc_proposed_product_version :: "int option"
  cc_base_table_versions :: "(string, int) dict"
  cc_proposed_table_versions :: "(string, int) dict"
  cc_source_hashes :: "(string, string) dict"
  cc_changeset_id :: "string option"

section \<open>Validators\<close>

definition field_error :: exn where
  "field_error = ValidationError ''field constraint''"

definition normalize_name :: "string \<Rightarrow> string result" where
  "normalize_name value =
     (let normalized = strip value
      in if normalized = [] then Inl (ValidationError ''column name must be non-empty'') else Inr normalized)"

definition MetricRecord :: "string \<Rightarrow> string \<Rightarrow> string list \<Rightarrow> entity_status \<Rightarrow> metric_record result" where
  "MetricRecord i n al st =
     (if MetricId i
      then Inr \<lparr>mr_metric_id = i, mr_name = n, mr_aliases = al, mr_status = st\<rparr> else Inl field_error)"

definition RelationshipRecord ::
  "string \<Rightarrow> string \<Rightarrow> string list \<Rightarrow> entity_status \<Rightarrow> relationship_record result" where
  "RelationshipRecord i n al st =
     (if RelationshipId i
      then Inr \<lparr>rr_relationship_id = i, rr_name = n, rr_aliases = al, rr_status = st\<rparr>
      else Inl field_error)"

definition ColumnRecord :: "string \<Rightarrow> string \<Rightarrow> string list \<Rightarrow> entity_status \<Rightarrow> column_record result" where
  "ColumnRecord i n al st =
     bind_ok (normalize_name n) (\<lambda>n'.
       if ColumnId i
       then Inr \<lparr>cr_column_id = i, cr_name = n', cr_aliases = al, cr_status = st\<rparr>
       else Inl field_error)"

text \<open>\<open>_validate_named_ids\<close>: identifiers and case-folded names are unique.\<close>

definition named_ids_unique :: "('r \<Rightarrow> string) \<Rightarrow> ('r \<Rightarrow> string) \<Rightarrow> 'r list \<Rightarrow> bool" where
  "named_ids_unique ident name records \<longleftrightarrow>
     distinct (map ident records) \<and> distinct (map (\<lambda>r. casefold (name r)) records)"

definition validate_semantic_objects :: "product_record \<Rightarrow> product_record result" where
  "validate_semantic_objects p =
     (if \<not> named_ids_unique mr_metric_id mr_name (pr_metrics p)
      then Inl (ValidationError ''metric names and IDs must be unique within a product'')
      else if \<not> named_ids_unique rr_relationship_id rr_name (pr_relationships p)
      then Inl (ValidationError ''relationship names and IDs must be unique within a product'')
      else Inr p)"

definition product_fields_ok :: "product_record \<Rightarrow> bool" where
  "product_fields_ok p \<longleftrightarrow>
     ProductId (pr_product_id p) \<and> ProductKey (pr_product_key p) \<and> Version (pr_version p)
     \<and> list_all ProductKey (pr_aliases p) \<and> opt_ok Sha256 (pr_canonical_hash p)
     \<and> list_all (\<lambda>m. MetricId (mr_metric_id m)) (pr_metrics p)
     \<and> list_all (\<lambda>r. RelationshipId (rr_relationship_id r)) (pr_relationships p)"

definition ProductRecord :: "product_record \<Rightarrow> product_record result" where
  "ProductRecord p = (if product_fields_ok p then validate_semantic_objects p else Inl field_error)"

definition validate_columns :: "table_record \<Rightarrow> table_record result" where
  "validate_columns t =
     (if named_ids_unique cr_column_id cr_name (tr_columns t) then Inr t
      else Inl (ValidationError ''column names and IDs must be unique within a table''))"

definition column_ok :: "column_record \<Rightarrow> bool" where
  "column_ok c \<longleftrightarrow> ColumnId (cr_column_id c) \<and> cr_name c \<noteq> [] \<and> stripped (cr_name c)"

definition table_fields_ok :: "table_record \<Rightarrow> bool" where
  "table_fields_ok t \<longleftrightarrow>
     TableId (tr_table_id t) \<and> locator_ok (tr_locator t) \<and> Version (tr_version t)
     \<and> list_all column_ok (tr_columns t)
     \<and> opt_ok Sha256 (tr_schema_hash t) \<and> opt_ok Sha256 (tr_canonical_hash t)"

definition TableRecord :: "table_record \<Rightarrow> table_record result" where
  "TableRecord t = (if table_fields_ok t then validate_columns t else Inl field_error)"

definition ProductTableRef :: "product_table_ref \<Rightarrow> product_table_ref result" where
  "ProductTableRef r =
     (if LinkId (ref_link_id r) \<and> ProductId (ref_product_id r) \<and> TableId (ref_table_id r)
         \<and> Version (ref_table_version r)
      then Inr r else Inl field_error)"

text \<open>\<open>CandidateChange.validate_references\<close>: the loop over the mappings, first error wins.\<close>

definition check_mapping :: "candidate_change \<Rightarrow> product_table_ref \<Rightarrow> unit result" where
  "check_mapping c m =
     (if ref_product_id m \<noteq> pr_product_id (cc_product c)
      then Inl (ValidationError ''mapping references a different product'')
      else if ref_table_id m \<notin> set (map tr_table_id (cc_tables c))
      then Inl (ValidationError (''mapping references unlisted table: '' @ ref_table_id m))
      else case find (\<lambda>t. tr_table_id t = ref_table_id m) (cc_tables c) of
          None \<Rightarrow> Inl (AssertionError ''unreachable'')
        | Some t \<Rightarrow>
            (if ref_table_version m \<noteq> tr_version t
             then Inl (ValidationError (''mapping table version differs from table: '' @ ref_table_id m))
             else Inr ()))"

definition validate_references :: "candidate_change \<Rightarrow> candidate_change result" where
  "validate_references c =
     bind_ok (fold_ok (\<lambda>_ m. check_mapping c m) () (cc_mappings c)) (\<lambda>_. Inr c)"

lemma validate_references_iff:
  "validate_references c = Inr c' \<longleftrightarrow> c' = c \<and>
     (\<forall>m\<in>set (cc_mappings c). ref_product_id m = pr_product_id (cc_product c)
        \<and> map_option tr_version (find (\<lambda>t. tr_table_id t = ref_table_id m) (cc_tables c))
            = Some (ref_table_version m))"
proof -
  have step: "check_mapping c m = Inr () \<longleftrightarrow> ref_product_id m = pr_product_id (cc_product c)
        \<and> map_option tr_version (find (\<lambda>t. tr_table_id t = ref_table_id m) (cc_tables c))
            = Some (ref_table_version m)" for m
  proof -
    let ?f = "find (\<lambda>t. tr_table_id t = ref_table_id m) (cc_tables c)"
    have "?f \<noteq> None \<longleftrightarrow> ref_table_id m \<in> set (map tr_table_id (cc_tables c))"
      by (auto simp: find_None_iff_ball intro: rev_image_eqI)
    then show ?thesis by (cases ?f) (auto simp: check_mapping_def)
  qed
  have "fold_ok (\<lambda>_ m. check_mapping c m) () ms = Inr () \<longleftrightarrow> (\<forall>m\<in>set ms. check_mapping c m = Inr ())" for ms
    by (induction ms) (auto split: sum.splits)
  then show ?thesis by (auto simp: validate_references_def step)
qed

lemma ProductRecord_Inr: "ProductRecord p = Inr q \<Longrightarrow> q = p \<and> product_fields_ok p
    \<and> named_ids_unique mr_metric_id mr_name (pr_metrics p)
    \<and> named_ids_unique rr_relationship_id rr_name (pr_relationships p)"
  by (auto simp: ProductRecord_def validate_semantic_objects_def split: if_splits)

lemma TableRecord_Inr: "TableRecord t = Inr u \<Longrightarrow> u = t \<and> table_fields_ok t
    \<and> named_ids_unique cr_column_id cr_name (tr_columns t)"
  by (auto simp: TableRecord_def validate_columns_def split: if_splits)

lemma ColumnRecord_Inr: "ColumnRecord i n al st = Inr c \<Longrightarrow>
    cr_column_id c = i \<and> cr_name c = strip n \<and> cr_aliases c = al \<and> cr_status c = st \<and> column_ok c"
  by (auto simp: ColumnRecord_def normalize_name_def Let_def column_ok_def split: if_splits)

end
