(* ===== verification/Canonical.thy ===== *)
theory Canonical
  imports Models "HOL-Library.Multiset"
begin

text \<open>
  Canonical content hashes (\<open>canonical.py\<close>): a Python value is normalised to JSON without the
  volatile (and, for the physical schema, the semantic-only) fields, written with sorted keys
  and hashed. The JSON writer is modelled to the character, so the lemmas can show that two
  contents with the same text are the same content: the hash identifies the content up to
  collisions of SHA-256 itself. Unicode normalisation and SHA-256 are tables and code of the
  platform; they are the fields of a record the definitions take.
\<close>

section \<open>JSON text\<close>

text \<open>A float is carried as the text that \<open>float.__repr__\<close> gives it.\<close>

datatype json =
    JNull | JBool bool | JInt int | JFloat string | JStr string
  | JArr "json list" | JObj "(string \<times> json) list"

definition quote_char :: char where "quote_char = CHR 0x22"
definition backslash :: char where "backslash = CHR 0x5C"

definition esc :: "char \<Rightarrow> string" where
  "esc c =
     (if c = quote_char \<or> c = backslash then [backslash, c]
      else if c = CHR 0x0A then [backslash, CHR ''n'']
      else if c = CHR 0x0D then [backslash, CHR ''r'']
      else if c = CHR 0x09 then [backslash, CHR ''t'']
      else if c = CHR 0x08 then [backslash, CHR ''b'']
      else if c = CHR 0x0C then [backslash, CHR ''f'']
      else if of_char c < (32 :: nat) then backslash # CHR ''u'' # hex_fixed 4 (of_char c)
      else [c])"

definition quote :: "string \<Rightarrow> string" where
  "quote s = quote_char # concat (map esc s) @ [quote_char]"

fun sort_keys :: "json \<Rightarrow> json" where
  "sort_keys (JArr xs) = JArr (map sort_keys xs)"
| "sort_keys (JObj d) = JObj (sort_key fst (map (\<lambda>(k, v). (k, sort_keys v)) d))"
| "sort_keys j = j"

text \<open>\<open>json.dumps(value, ensure_ascii=False, separators=(",", ":"))\<close>.\<close>

fun dumps :: "json \<Rightarrow> string" where
  "dumps JNull = ''null''"
| "dumps (JBool b) = (if b then ''true'' else ''false'')"
| "dumps (JInt i) = int_str i"
| "dumps (JFloat r) = r"
| "dumps (JStr s) = quote s"
| "dumps (JArr xs) = CHR ''['' # join '','' (map dumps xs) @ '']''"
| "dumps (JObj d) = CHR ''{'' # join '','' (map (\<lambda>(k, v). quote k @ '':'' @ dumps v) d) @ ''}''"

section \<open>Normalisation and hashes\<close>

record library =
  lib_nfc :: "string \<Rightarrow> string"
  lib_sha256 :: "string \<Rightarrow> string"

definition VOLATILE_FIELDS :: "string list" where
  "VOLATILE_FIELDS = [''actions_run_id'', ''commit_sha'', ''generated_at'', ''llm_response_id'',
     ''provenance_collected_at'']"

definition SEMANTIC_ONLY_FIELDS :: "string list" where
  "SEMANTIC_ONLY_FIELDS = [''description'', ''display_name'', ''examples'', ''logical_name'', ''synonyms'']"

text \<open>The Python values the function tells apart; \<open>POther\<close> is a value of any other type.\<close>

datatype py_value =
    PNone | PBool bool | PInt int | PFloat string | PStr string
  | PModel py_value | PEnum py_value
  | PDict "(string \<times> py_value) list" | PSeq "py_value list" | POther string

function normalize :: "library \<Rightarrow> string list \<Rightarrow> py_value \<Rightarrow> json result" where
  "normalize L excluded (PModel dump) = normalize L excluded dump"
| "normalize L excluded (PEnum v) = normalize L excluded v"
| "normalize L excluded (PStr s) = Inr (JStr (lib_nfc L s))"
| "normalize L excluded PNone = Inr JNull"
| "normalize L excluded (PBool b) = Inr (JBool b)"
| "normalize L excluded (PInt i) = Inr (JInt i)"
| "normalize L excluded (PFloat r) = Inr (JFloat r)"
| "normalize L excluded (PDict d) =
     bind_ok (traverse (\<lambda>(k, v). bind_ok (normalize L excluded v) (\<lambda>j. Inr (lib_nfc L k, j)))
                (filter (\<lambda>(k, v). k \<notin> set excluded) d))
       (\<lambda>items. Inr (JObj (dict_of fst snd items)))"
| "normalize L excluded (PSeq xs) =
     bind_ok (traverse (normalize L excluded) xs) (\<lambda>ys. Inr (JArr ys))"
| "normalize L excluded (POther type_name) =
     Inl (TypeError (''unsupported canonical value: '' @ type_name))"
  by pat_completeness auto

lemma size_in_dict: "(k, v) \<in> set d \<Longrightarrow> size v < Suc (size_list (size_prod (\<lambda>_. 0) size) d)"
  by (induction d) auto

lemma size_in_seq: "x \<in> set xs \<Longrightarrow> size x < Suc (size_list size xs)"
  by (induction xs) auto

termination normalize
  by (relation "measure (\<lambda>(_, _, v). size v)") (auto dest: size_in_dict size_in_seq)

definition hash_normalized :: "library \<Rightarrow> string list \<Rightarrow> py_value \<Rightarrow> string result" where
  "hash_normalized L excluded v =
     bind_ok (normalize L excluded v) (\<lambda>n. Inr (lib_sha256 L (dumps (sort_keys n))))"

definition canonical_hash :: "library \<Rightarrow> py_value \<Rightarrow> string result" where
  "canonical_hash L v = hash_normalized L VOLATILE_FIELDS v"

definition schema_hash :: "library \<Rightarrow> py_value \<Rightarrow> string result" where
  "schema_hash L v = hash_normalized L (VOLATILE_FIELDS @ SEMANTIC_ONLY_FIELDS) v"

text \<open>A value without parts of another type can always be hashed.\<close>

fun hashable :: "py_value \<Rightarrow> bool" where
  "hashable (PModel v) = hashable v"
| "hashable (PEnum v) = hashable v"
| "hashable (PDict d) = (\<forall>(k, v)\<in>set d. hashable v)"
| "hashable (PSeq xs) = (\<forall>x\<in>set xs. hashable x)"
| "hashable (POther t) = False"
| "hashable _ = True"

lemma hashable_normalize: "hashable v \<Longrightarrow> \<exists>j. normalize L ex v = Inr j"
proof (induction L ex v rule: normalize.induct)
  case (8 L ex d)
  then have "\<forall>x\<in>set (filter (\<lambda>(k, v). k \<notin> set ex) d).
      \<exists>y. (\<lambda>(k, v). bind_ok (normalize L ex v) (\<lambda>j. Inr (lib_nfc L k, j))) x = Inr y"
    by (fastforce simp: prod_eq_iff)
  then show ?case unfolding traverse_ok_iff [symmetric] by auto
next
  case (9 L ex xs)
  then have "\<forall>x\<in>set xs. \<exists>y. normalize L ex x = Inr y" by simp
  then show ?case unfolding traverse_ok_iff [symmetric] by auto
qed auto

lemma hashable_hash:
  "hashable v \<Longrightarrow> \<exists>h. canonical_hash L v = Inr h" "hashable v \<Longrightarrow> \<exists>h. schema_hash L v = Inr h"
  using hashable_normalize by (simp_all add: canonical_hash_def schema_hash_def hash_normalized_def)

section \<open>The JSON text determines the value\<close>

lemma esc_inj:
  assumes "esc c @ u = esc d @ v"
  shows "c = d \<and> u = v"
proof -
  have ctl: "c = d \<and> u = v" if "hex_fixed 4 (of_char c) @ u = hex_fixed 4 (of_char d) @ v"
  proof -
    from that have "hex_fixed 4 (of_char c) = hex_fixed 4 (of_char d)" and "u = v" by simp_all
    moreover have "(of_char c :: nat) < 16 ^ 4" and "(of_char d :: nat) < 16 ^ 4"
      using less_trans [OF of_char_lt, of "16 ^ 4"] by simp_all
    ultimately have "(of_char c :: nat) = of_char d" by (blast intro: hex_fixed_inj)
    with \<open>u = v\<close> show ?thesis by simp
  qed
  show ?thesis
    using assms ctl unfolding esc_def quote_char_def backslash_def
    by (simp split: if_splits; auto)
qed

lemma esc_head: "esc c \<noteq> [] \<and> hd (esc c) \<noteq> quote_char"
  by (auto simp: esc_def quote_char_def backslash_def)

lemma quote_body_inj:
  "concat (map esc s) @ quote_char # x = concat (map esc t) @ quote_char # y \<Longrightarrow> s = t \<and> x = y"
proof (induction s arbitrary: t)
  case Nil
  then show ?case
  proof (cases t)
    case (Cons d t')
    with Nil esc_head [of d] show ?thesis by (cases "esc d") auto
  qed simp
next
  case (Cons c s)
  show ?case
  proof (cases t)
    case Nil
    with Cons.prems esc_head [of c] show ?thesis by (cases "esc c") auto
  next
    case t: (Cons d t')
    with Cons.prems have "esc c @ (concat (map esc s) @ quote_char # x) = esc d @ (concat (map esc t') @ quote_char # y)"
      by simp
    from esc_inj [OF this] Cons.IH [of t'] t show ?thesis by simp
  qed
qed

lemma quote_inj: "quote s @ x = quote t @ y \<Longrightarrow> s = t \<and> x = y"
  using quote_body_inj [of s x t y] by (simp add: quote_def)

text \<open>A number ends where a character outside its alphabet (or the text) does.\<close>

definition num_char :: "char \<Rightarrow> bool" where
  "num_char c \<longleftrightarrow> is_digit c \<or> c \<in> set ''-+.e''"

definition ends_here :: "string \<Rightarrow> bool" where
  "ends_here s \<longleftrightarrow> s = [] \<or> \<not> num_char (hd s)"

lemma number_end:
  assumes "\<forall>c\<in>set a. num_char c" "\<forall>c\<in>set b. num_char c" "ends_here s" "ends_here t" "a @ s = b @ t"
  shows "a = b \<and> s = t"
proof -
  have cut: "takeWhile num_char (a @ s) = a" if "\<forall>c\<in>set a. num_char c" "ends_here s" for a s
    using that by (cases s) (auto simp: ends_here_def takeWhile_append2)
  show ?thesis using cut [OF assms(1,3)] cut [OF assms(2,4)] assms(5) by simp
qed

text \<open>What \<open>float.__repr__\<close> gives for a finite float: it cannot be read as an integer.\<close>

definition float_text :: "string \<Rightarrow> bool" where
  "float_text r \<longleftrightarrow> list_all num_char r \<and> r \<noteq> [] \<and> (is_digit (hd r) \<or> hd r = CHR ''-'')
     \<and> (\<exists>c\<in>set r. c = CHR ''.'' \<or> c = CHR ''e'')"

fun json_ok :: "json \<Rightarrow> bool" where
  "json_ok (JFloat r) = float_text r"
| "json_ok (JArr xs) = (\<forall>x\<in>set xs. json_ok x)"
| "json_ok (JObj d) = (\<forall>(k, v)\<in>set d. json_ok v)"
| "json_ok _ = True"

lemma int_str_chars: "\<forall>c\<in>set (int_str i). is_digit c \<or> c = CHR ''-''"
  using nat_str_digits by (auto simp: int_str_def)

lemma int_str_shape: "int_str i \<noteq> [] \<and> (is_digit (hd (int_str i)) \<or> hd (int_str i) = CHR ''-'')"
proof -
  have "is_digit (hd (nat_str n))" for n using nat_str_digits hd_in_set [OF nat_str_nonempty] by blast
  then show ?thesis by (simp add: int_str_def)
qed

lemma int_str_eq: "int_str i = int_str j \<longleftrightarrow> i = j"
proof
  assume eq: "int_str i = int_str j"
  have "\<not> is_digit CHR ''-''" by (simp add: is_digit_def)
  then have ndash: "nat_str n \<noteq> CHR ''-'' # s" for n s using nat_str_digits [of n] by auto
  from eq show "i = j"
    by (auto simp: int_str_def ndash ndash [symmetric] dest: nat_str_inj split: if_splits)
qed simp

lemma num_char_digit: "is_digit c \<Longrightarrow> num_char c"
  by (simp add: num_char_def)

lemma int_num: "\<forall>c\<in>set (int_str i). num_char c"
  using int_str_chars by (auto simp: num_char_def)

lemma float_num: "float_text r \<Longrightarrow> \<forall>c\<in>set r. num_char c"
  by (simp add: float_text_def list_all_iff)

lemma int_not_float: "\<not> float_text (int_str i)"
  using int_str_chars [of i] by (auto simp: float_text_def is_digit_def)

text \<open>The first character of a value's text tells its kind.\<close>

fun first_ok :: "json \<Rightarrow> char \<Rightarrow> bool" where
  "first_ok JNull c = (c = CHR ''n'')"
| "first_ok (JBool b) c = (c = (if b then CHR ''t'' else CHR ''f''))"
| "first_ok (JInt i) c = (is_digit c \<or> c = CHR ''-'')"
| "first_ok (JFloat r) c = (is_digit c \<or> c = CHR ''-'')"
| "first_ok (JStr s) c = (c = quote_char)"
| "first_ok (JArr xs) c = (c = CHR ''['')"
| "first_ok (JObj d) c = (c = CHR ''{'')"

lemma dumps_first: "json_ok j \<Longrightarrow> dumps j \<noteq> [] \<and> first_ok j (hd (dumps j))"
  using int_str_shape by (cases j) (auto simp: quote_def float_text_def)

lemma ends_here_delims [simp]:
  "ends_here (CHR '','' # s)" "ends_here ('']'' @ s)" "ends_here (''}'' @ s)" "ends_here []"
  by (simp_all add: ends_here_def num_char_def is_digit_def)

text \<open>Comma-separated items up to a closing bracket.\<close>

lemma join_items_inj:
  assumes item: "\<And>x y s t. x \<in> set xs \<Longrightarrow> ok y \<Longrightarrow> ends_here s \<Longrightarrow> ends_here t \<Longrightarrow> f x @ s = f y @ t
        \<Longrightarrow> x = y \<and> s = t"
    and close: "\<And>x. ok x \<Longrightarrow> f x \<noteq> [] \<and> hd (f x) \<noteq> c" "ends_here (c # s)" "ends_here (c # t)" "c \<noteq> CHR '',''"
    and ok: "\<forall>x\<in>set xs. ok x" "\<forall>y\<in>set ys. ok y"
    and eq: "join '','' (map f xs) @ c # s = join '','' (map f ys) @ c # t"
  shows "xs = ys \<and> s = t"
  using item ok eq
proof (induction xs arbitrary: ys)
  case Nil
  show ?case
  proof (cases ys)
    case (Cons y zs)
    then have "hd (join '','' (map f ys) @ c # t) = hd (f y)"
      using close(1) [of y] Nil.prems(3) by (cases zs) auto
    moreover have "hd (join '','' (map f ys) @ c # t) = c" using Nil.prems(4) by (metis append_Nil join.simps(1) list.sel(1) list.simps(8))
    ultimately show ?thesis using close(1) [of y] Nil.prems(3) Cons by simp
  qed (use Nil in simp)
next
  case (Cons x xs)
  have tail: "\<exists>r. join '','' (map f (z # zs)) @ c # u = f z @ r \<and> ends_here r
      \<and> (zs = [] \<longrightarrow> r = c # u) \<and> (zs \<noteq> [] \<longrightarrow> r = CHR '','' # join '','' (map f zs) @ c # u)"
    if "ends_here (c # u)" for z zs u
    using that by (cases zs) auto
  show ?case
  proof (cases ys)
    case Nil
    have "hd (join '','' (map f (x # xs)) @ c # s) = hd (f x)"
      using close(1) [of x] Cons.prems(2) by (cases xs) auto
    with Nil Cons.prems(4) close(1) [of x] Cons.prems(2) show ?thesis by simp
  next
    case ys: (Cons y zs)
    obtain r where r: "join '','' (map f (x # xs)) @ c # s = f x @ r" "ends_here r"
      "xs = [] \<longrightarrow> r = c # s" "xs \<noteq> [] \<longrightarrow> r = CHR '','' # join '','' (map f xs) @ c # s"
      using tail [OF close(2)] by blast
    obtain q where q: "join '','' (map f (y # zs)) @ c # t = f y @ q" "ends_here q"
      "zs = [] \<longrightarrow> q = c # t" "zs \<noteq> [] \<longrightarrow> q = CHR '','' # join '','' (map f zs) @ c # t"
      using tail [OF close(3)] by blast
    from Cons.prems(4) ys r q have "f x @ r = f y @ q" by simp
    from Cons.prems(1) [OF _ _ r(2) q(2) this] Cons.prems(3) ys have xy: "x = y" "r = q" by simp_all
    from xy(2) r(3,4) q(3,4) close(4) have "xs = [] \<longleftrightarrow> zs = []" by auto
    then show ?thesis
    proof (cases "xs = []")
      case True
      with xy r q ys \<open>xs = [] \<longleftrightarrow> zs = []\<close> show ?thesis by simp
    next
      case False
      with xy(2) r(4) q(4) \<open>xs = [] \<longleftrightarrow> zs = []\<close>
      have "join '','' (map f xs) @ c # s = join '','' (map f zs) @ c # t" by simp
      moreover have "\<forall>x\<in>set xs. ok x" "\<forall>y\<in>set zs. ok y" using Cons.prems(2,3) ys by simp_all
      ultimately have "xs = zs \<and> s = t"
        by (intro Cons.IH) (use Cons.prems(1) in \<open>simp, blast\<close>)
      with ys xy show ?thesis by simp
    qed
  qed
qed

lemma same_first:
  assumes "json_ok j" "json_ok k" "dumps j @ s = dumps k @ t"
  obtains c where "first_ok j c" "first_ok k c"
proof -
  have "hd (dumps j @ s) = hd (dumps j)" "hd (dumps k @ t) = hd (dumps k)"
    using dumps_first assms(1,2) by (simp_all add: hd_append)
  then show thesis using dumps_first [OF assms(1)] dumps_first [OF assms(2)] assms(3) that by metis
qed

lemma same_number:
  assumes "\<forall>c\<in>set a. num_char c" "\<forall>c\<in>set b. num_char c" "ends_here s" "ends_here t" "a @ s = b @ t"
    and "a = b \<Longrightarrow> j = k"
  shows "j = k \<and> s = t"
  using number_end [OF assms(1-5)] assms(6) by simp

lemma delims_first:
  "json_ok j \<Longrightarrow> dumps j \<noteq> [] \<and> hd (dumps j) \<noteq> CHR '']''"
  using dumps_first [of j] by (cases j) (auto simp: is_digit_def quote_char_def split: if_splits)

lemma dumps_prefix_inj:
  "json_ok j \<Longrightarrow> json_ok k \<Longrightarrow> ends_here s \<Longrightarrow> ends_here t \<Longrightarrow> dumps j @ s = dumps k @ t
   \<Longrightarrow> j = k \<and> s = t"
proof (induction j arbitrary: k s t)
  case JNull
  obtain c where "first_ok JNull c" "first_ok k c" using same_first [OF JNull(1,2,5)] .
  with JNull show ?case by (cases k) (auto simp: is_digit_def quote_char_def split: if_splits)
next
  case (JBool b)
  obtain c where "first_ok (JBool b) c" "first_ok k c" using same_first [OF JBool(1,2,5)] .
  with JBool show ?case by (cases k) (auto simp: is_digit_def quote_char_def split: if_splits)
next
  case (JInt i)
  obtain c where c: "first_ok (JInt i) c" "first_ok k c" using same_first [OF JInt(1,2,5)] .
  show ?case
  proof (cases k)
    case (JInt n)
    from JInt.prems(3-5) show ?thesis
      unfolding JInt by (intro same_number [OF int_num int_num]) (simp_all add: int_str_eq)
  next
    case (JFloat r)
    with JInt.prems have r: "\<forall>c\<in>set r. num_char c" "float_text r" by (simp_all add: float_num)
    from JInt.prems(3-5) show ?thesis
      unfolding JFloat by (intro same_number [OF int_num r(1)]) (use r(2) int_not_float in auto)
  qed (use c in \<open>auto simp: is_digit_def quote_char_def split: if_splits\<close>)
next
  case (JFloat q)
  then have q: "\<forall>c\<in>set q. num_char c" "float_text q" by (simp_all add: float_num)
  obtain c where c: "first_ok (JFloat q) c" "first_ok k c" using same_first [OF JFloat(1,2,5)] .
  show ?case
  proof (cases k)
    case (JInt n)
    from JFloat.prems(3-5) show ?thesis
      unfolding JInt by (intro same_number [OF q(1) int_num]) (use q(2) int_not_float in auto)
  next
    case (JFloat r)
    with JFloat.prems have r: "\<forall>c\<in>set r. num_char c" "float_text r" by (simp_all add: float_num)
    from JFloat.prems(3-5) show ?thesis
      unfolding JFloat by (intro same_number [OF q(1) r(1)]) simp_all
  qed (use c in \<open>auto simp: is_digit_def quote_char_def split: if_splits\<close>)
next
  case (JStr a)
  obtain c where "first_ok (JStr a) c" "first_ok k c" using same_first [OF JStr(1,2,5)] .
  with JStr quote_inj [of a s _ t] show ?case
    by (cases k) (auto simp: is_digit_def quote_char_def split: if_splits)
next
  case (JArr xs)
  obtain c where c: "first_ok (JArr xs) c" "first_ok k c" using same_first [OF JArr(2,3,6)] .
  show ?case
  proof (cases k)
    case (JArr ys)
    from JArr.prems(5) have "join '','' (map dumps xs) @ CHR '']'' # s = join '','' (map dumps ys) @ CHR '']'' # t"
      unfolding JArr by simp
    then have "xs = ys \<and> s = t"
    proof (rule join_items_inj [where ok = json_ok, rotated -1])
      fix x y s t
      assume x: "x \<in> set xs" and "json_ok y" "ends_here s" "ends_here t" "dumps x @ s = dumps y @ t"
      moreover from x JArr.prems(1) have "json_ok x" by simp
      ultimately show "x = y \<and> s = t" by (blast dest: JArr.IH)
    next
      show "dumps x \<noteq> [] \<and> hd (dumps x) \<noteq> CHR '']''" if "json_ok x" for x
        using that by (rule delims_first)
    qed (use JArr.prems(1,2) in \<open>simp_all add: JArr ends_here_def num_char_def is_digit_def\<close>)
    with JArr show ?thesis by simp
  qed (use c in \<open>auto simp: is_digit_def quote_char_def split: if_splits\<close>)
next
  case (JObj d)
  obtain c where c: "first_ok (JObj d) c" "first_ok k c" using same_first [OF JObj(2,3,6)] .
  let ?f = "\<lambda>(k, v). quote k @ '':'' @ dumps v"
  show ?case
  proof (cases k)
    case (JObj e)
    from JObj.prems(5) have "join '','' (map ?f d) @ CHR ''}'' # s = join '','' (map ?f e) @ CHR ''}'' # t"
      unfolding JObj by simp
    then have "d = e \<and> s = t"
    proof (rule join_items_inj [where ok = "\<lambda>(k, v). json_ok v", rotated -1])
      fix x y s t
      assume x: "x \<in> set d" and y: "(\<lambda>(k, v). json_ok v) y" and st: "ends_here s" "ends_here t"
        and eq: "?f x @ s = ?f y @ t"
      obtain a v b w where xy: "x = (a, v)" "y = (b, w)" by (cases x, cases y)
      from eq have "quote a @ (CHR '':'' # dumps v @ s) = quote b @ (CHR '':'' # dumps w @ t)"
        by (simp add: xy)
      from quote_inj [OF this] have ab: "a = b" "dumps v @ s = dumps w @ t" by simp_all
      from x y JObj.prems(1) have ok: "json_ok v" "json_ok w" by (auto simp: xy)
      have "v \<in> Basic_BNFs.snds x" by (simp add: xy)
      from JObj.IH [OF x this ok st ab(2)] ab(1) show "x = y \<and> s = t" by (simp add: xy)
    qed (use JObj.prems(1,2) in \<open>auto simp: JObj ends_here_def num_char_def is_digit_def quote_def quote_char_def\<close>)
    with JObj show ?thesis by simp
  qed (use c in \<open>auto simp: is_digit_def quote_char_def split: if_splits\<close>)
qed

lemma dumps_inj: "json_ok j \<Longrightarrow> json_ok k \<Longrightarrow> dumps j = dumps k \<Longrightarrow> j = k"
  using dumps_prefix_inj [of j k "[]" "[]"] by simp

section \<open>What the hash depends on\<close>

lemma json_ok_sort_keys [simp]: "json_ok j \<Longrightarrow> json_ok (sort_keys j)"
  by (induction j rule: sort_keys.induct) auto

lemma hash_eq_iff:
  assumes "normalize L ex v = Inr n" and "normalize L ex w = Inr m" and "json_ok n" and "json_ok m"
    and "lib_sha256 L (dumps (sort_keys n)) = lib_sha256 L (dumps (sort_keys m))
      \<Longrightarrow> dumps (sort_keys n) = dumps (sort_keys m)"
  shows "hash_normalized L ex v = hash_normalized L ex w \<longleftrightarrow> sort_keys n = sort_keys m"
  using assms dumps_inj [of "sort_keys n" "sort_keys m"] by (auto simp: hash_normalized_def)

text \<open>Two contents have the same canonical hash exactly when they are the same JSON value
  up to the order of the keys, unless SHA-256 itself collides on their texts: the text that is
  hashed leaves nothing out and merges nothing.\<close>

theorem canonical_hash_identifies:
  assumes "normalize L VOLATILE_FIELDS v = Inr n" and "normalize L VOLATILE_FIELDS w = Inr m"
    and "json_ok n" and "json_ok m"
    and "lib_sha256 L (dumps (sort_keys n)) = lib_sha256 L (dumps (sort_keys m))
      \<Longrightarrow> dumps (sort_keys n) = dumps (sort_keys m)"
  shows "canonical_hash L v = canonical_hash L w \<longleftrightarrow> sort_keys n = sort_keys m"
  unfolding canonical_hash_def by (rule hash_eq_iff [OF assms])

lemma traverse_perm:
  assumes "traverse f xs = Inr ys" and "mset xs' = mset xs"
  shows "\<exists>ys'. traverse f xs' = Inr ys' \<and> mset ys' = mset ys"
  using list_all2_reorder_left_invariance [OF traverse_list_all2 [OF assms(1)] assms(2)]
  by (blast intro: list_all2_traverse)

lemma dict_of_id:
  assumes "distinct (map fst xs)"
  shows "dict_of fst snd xs = xs"
proof -
  have "fold (\<lambda>x d. dict_set (fst x) (snd x) d) xs d = d @ xs" if "distinct (map fst (d @ xs))" for d
    using that
  proof (induction xs arbitrary: d)
    case (Cons x xs)
    have "dict_set (fst x) (snd x) d = d @ [x]"
      using Cons.prems by (induction d) auto
    with Cons show ?case by simp
  qed simp
  from this [of "[]"] assms show ?thesis by (simp add: dict_of_def)
qed

lemma sort_key_perm:
  assumes "distinct (map f xs)" and "mset xs = mset ys"
  shows "sort_key f xs = sort_key f ys"
proof (rule map_sorted_distinct_set_unique [where f = f])
  have "set xs = set ys" using assms(2) by (rule mset_eq_setD)
  then show "set (sort_key f xs) = set (sort_key f ys)" by simp
  have "distinct (map f ys)" using assms by (metis mset_eq_imp_distinct_iff mset_map)
  then show "distinct (map f (sort_key f ys))" by (simp add: distinct_map)
  show "inj_on f (set (sort_key f xs) \<union> set (sort_key f ys))"
    using assms(1) \<open>set xs = set ys\<close> by (simp add: distinct_map)
qed (use assms in \<open>simp_all add: distinct_map\<close>)

lemma hash_same_fields:
  assumes "hash_normalized L ex (PDict d) = Inr h"
    and "mset (filter (\<lambda>(k, v). k \<notin> set ex) e) = mset (filter (\<lambda>(k, v). k \<notin> set ex) d)"
    and "distinct (map (\<lambda>(k, v). lib_nfc L k) (filter (\<lambda>(k, v). k \<notin> set ex) d))"
  shows "hash_normalized L ex (PDict e) = Inr h"
proof -
  let ?f = "\<lambda>(k, v). bind_ok (normalize L ex v) (\<lambda>j. Inr (lib_nfc L k, j))"
  let ?keep = "filter (\<lambda>(k, v). k \<notin> set ex)"
  from assms(1) obtain items where items: "traverse ?f (?keep d) = Inr items"
    and h: "h = lib_sha256 L (dumps (sort_keys (JObj (dict_of fst snd items))))"
    by (auto simp: hash_normalized_def)
  from traverse_perm [OF items assms(2)] obtain items' where items': "traverse ?f (?keep e) = Inr items'"
    and perm: "mset items' = mset items" by blast
  have "map fst items = map (\<lambda>(k, v). lib_nfc L k) (?keep d)"
    using items by (rule traverse_map) auto
  with assms(3) have dist: "distinct (map fst items)" by simp
  then have dist': "distinct (map fst items')" using perm by (metis mset_eq_imp_distinct_iff mset_map)
  have "sort_keys (JObj items') = sort_keys (JObj items)"
  proof -
    let ?g = "map (\<lambda>(k, v). (k, sort_keys v))"
    have "distinct (map fst (?g items))" using dist by (simp add: comp_def case_prod_unfold)
    then have "sort_key fst (?g items) = sort_key fst (?g items')"
      by (rule sort_key_perm) (use perm in simp)
    then show ?thesis by simp
  qed
  then show ?thesis
    using items' h dict_of_id [OF dist] dict_of_id [OF dist'] by (simp add: hash_normalized_def)
qed

text \<open>The canonical hash of a mapping does not depend on the order of its entries nor on the
  volatile fields, and the schema hash does not depend on the semantic labels either.\<close>

theorem hashes_ignore_excluded_fields:
  assumes "canonical_hash L (PDict d) = Inr h" and "schema_hash L (PDict d) = Inr g"
    and "distinct (map (\<lambda>(k, v). lib_nfc L k) d)"
    and "mset (filter (\<lambda>(k, v). k \<notin> set VOLATILE_FIELDS) e) = mset (filter (\<lambda>(k, v). k \<notin> set VOLATILE_FIELDS) d)"
    and "mset (filter (\<lambda>(k, v). k \<notin> set (VOLATILE_FIELDS @ SEMANTIC_ONLY_FIELDS)) s)
      = mset (filter (\<lambda>(k, v). k \<notin> set (VOLATILE_FIELDS @ SEMANTIC_ONLY_FIELDS)) d)"
  shows "canonical_hash L (PDict e) = Inr h \<and> schema_hash L (PDict s) = Inr g"
  using assms hash_same_fields [of L VOLATILE_FIELDS d h e]
    hash_same_fields [of L "VOLATILE_FIELDS @ SEMANTIC_ONLY_FIELDS" d g s]
  by (simp add: canonical_hash_def schema_hash_def distinct_map_filter)

section \<open>A concrete library\<close>

definition sample_library :: library where
  "sample_library = \<lparr>lib_nfc = id,
     lib_sha256 = (\<lambda>s. hex_fixed 64 (length s))\<rparr>"

lemma sample_library_sha [simp]: "Sha256 (lib_sha256 sample_library s)"
  using hex_fixed_hex by (simp add: Sha256_def sample_library_def list_all_iff)

lemma sample_hash: "hashable v \<Longrightarrow> \<exists>h. canonical_hash sample_library v = Inr h \<and> Sha256 h"
  using hashable_normalize [of v sample_library VOLATILE_FIELDS] by (auto simp: canonical_hash_def hash_normalized_def)

theorem canonical_hash_identifies_witness:
  "canonical_hash sample_library (PDict [(''a'', PBool True)]) \<noteq> canonical_hash sample_library (PDict [(''a'', PBool False)])"
proof -
  have n: "normalize sample_library VOLATILE_FIELDS (PDict [(''a'', PBool b)]) = Inr (JObj [(''a'', JBool b)])" for b
    by (simp add: VOLATILE_FIELDS_def sample_library_def dict_of_def)
  have "length (dumps (sort_keys (JObj [(''a'', JBool b)]))) = (if b then 10 else 11)" for b
    by (simp add: quote_def esc_def quote_char_def backslash_def)
  then have "lib_sha256 sample_library (dumps (sort_keys (JObj [(''a'', JBool True)])))
      \<noteq> lib_sha256 sample_library (dumps (sort_keys (JObj [(''a'', JBool False)])))"
    using hex_fixed_inj [of 10 64 11] by (auto simp: sample_library_def simp del: sort_keys.simps dumps.simps)
  with canonical_hash_identifies [OF n [of True] n [of False]] show ?thesis by simp
qed

theorem hashes_ignore_excluded_fields_witness:
  "\<exists>h g. canonical_hash sample_library (PDict [(''b'', PNone), (''generated_at'', PInt 1), (''a'', PNone)]) = Inr h
     \<and> schema_hash sample_library (PDict [(''synonyms'', PNone), (''b'', PNone), (''a'', PNone)]) = Inr g"
proof -
  let ?d = "[(''a'', PNone), (''b'', PNone)]"
  have "\<exists>h. canonical_hash sample_library (PDict ?d) = Inr h" "\<exists>g. schema_hash sample_library (PDict ?d) = Inr g"
    by (simp_all add: canonical_hash_def schema_hash_def hash_normalized_def VOLATILE_FIELDS_def SEMANTIC_ONLY_FIELDS_def)
  then obtain h g where hg: "canonical_hash sample_library (PDict ?d) = Inr h"
    "schema_hash sample_library (PDict ?d) = Inr g" by blast
  have "canonical_hash sample_library (PDict [(''b'', PNone), (''generated_at'', PInt 1), (''a'', PNone)]) = Inr h
     \<and> schema_hash sample_library (PDict [(''synonyms'', PNone), (''b'', PNone), (''a'', PNone)]) = Inr g"
    by (rule hashes_ignore_excluded_fields [OF hg])
       (simp_all add: VOLATILE_FIELDS_def SEMANTIC_ONLY_FIELDS_def sample_library_def)
  then show ?thesis by blast
qed

end
