(* ===== verification/Semantic_Models.thy ===== *)
theory Semantic_Models
  imports Complex_Main Canonical
begin

text \<open>
  The data of the semantic-document pipeline (\<open>semantic/models.py\<close>): source spans, native groups
  and tables, reconciled blocks, repair plans and the audits of a conversion, with the model
  validator of each class. Floats are their exact rational values. The lemmas show what the
  validators guarantee: a validated table grid is a partition, no span is allocated twice, and a
  fidelity report cannot claim success over lost or duplicated text.
\<close>

section \<open>Constants and constrained types\<close>

definition MAX_TABLE_ROWS :: int where "MAX_TABLE_ROWS = 10000"
definition MAX_TABLE_COLUMNS :: int where "MAX_TABLE_COLUMNS = 256"
definition MAX_TABLE_GRID_AREA :: int where "MAX_TABLE_GRID_AREA = 100000"
definition MAX_TABLE_CELLS :: nat where "MAX_TABLE_CELLS = 100000"
definition MAX_LIST_DEPTH :: int where "MAX_LIST_DEPTH = 32"

datatype extraction_mode = PDF_EMBEDDED | DOCX_XML | OCR

definition SpanId :: "string \<Rightarrow> bool" where
  "SpanId s \<longleftrightarrow> starts_with ''span_'' s \<and> hex_group 16 (drop 5 s)"

definition make_span_id :: "library \<Rightarrow> string \<Rightarrow> int \<Rightarrow> string result" where
  "make_span_id L source_hash ordinal =
     (if ordinal < 0 then Inl (ValueError ''SPAN_ORDINAL_NEGATIVE'')
      else Inr (''span_'' @ take 16 (lib_sha256 L (source_hash @ '':'' @ int_str ordinal))))"

text \<open>The pattern of a validation or provider error code: \<open>[A-Z][A-Z0-9_]{0,127}\<close>.\<close>

definition code_pattern :: "string \<Rightarrow> bool" where
  "code_pattern s \<longleftrightarrow> s \<noteq> [] \<and> is_upper (hd s) \<and> length s \<le> 128
     \<and> list_all (\<lambda>c. is_upper c \<or> is_digit c \<or> c = CHR ''_'') s"

text \<open>A validator step: raise with the given code when the condition holds.\<close>

definition reject_if :: "bool \<Rightarrow> string \<Rightarrow> unit result" where
  "reject_if b code = (if b then Inl (ValidationError code) else Inr ())"

lemma reject_if_Inr [simp]: "reject_if b code = Inr u \<longleftrightarrow> \<not> b"
  by (simp add: reject_if_def)

text \<open>An exception raised inside a model validator reaches the caller as a validation error.\<close>

fun in_validator :: "'a result \<Rightarrow> 'a result" where
  "in_validator (Inl e) = Inl (ValidationError (exn_message e))"
| "in_validator (Inr x) = Inr x"

lemma in_validator_Inr [simp]: "in_validator r = Inr x \<longleftrightarrow> r = Inr x"
  by (cases r) auto

section \<open>Spans\<close>

record source_box =
  sb_left :: rat
  sb_bottom :: rat
  sb_right :: rat
  sb_top :: rat

definition SourceBox :: "source_box \<Rightarrow> source_box result" where
  "SourceBox b =
     (if \<not> (\<forall>x\<in>{sb_left b, sb_bottom b, sb_right b, sb_top b}. 0 \<le> x \<and> x \<le> 1) then Inl field_error
      else bind_ok (reject_if (sb_right b < sb_left b \<or> sb_top b < sb_bottom b) ''SOURCE_BOX_CORNERS_INVALID'')
             (\<lambda>_. Inr b))"

record source_span =
  ss_span_id :: string
  ss_ordinal :: int
  ss_page :: "int option"
  ss_bbox :: "source_box option"
  ss_text :: string
  ss_text_hash :: string
  ss_paragraph_break_before :: bool

definition SourceSpan :: "library \<Rightarrow> source_span \<Rightarrow> source_span result" where
  "SourceSpan L s =
     (if \<not> (SpanId (ss_span_id s) \<and> 0 \<le> ss_ordinal s \<and> opt_ok (\<lambda>p. 1 \<le> p) (ss_page s)
            \<and> ss_text s \<noteq> [] \<and> Sha256 (ss_text_hash s)) then Inl field_error
      else bind_ok (reject_if (ss_text_hash s \<noteq> lib_sha256 L (ss_text s)) ''SOURCE_SPAN_TEXT_HASH_INVALID'')
             (\<lambda>_. Inr s))"

section \<open>Table grids\<close>

record table_cell =
  gc_start_row :: int
  gc_end_row :: int
  gc_start_column :: int
  gc_end_column :: int
  gc_span_ids :: "string list"
  gc_column_header :: bool

record native_table_cell = table_cell +
  nc_bbox :: "source_box option"

definition cell_fields_ok :: "'a table_cell_scheme \<Rightarrow> bool" where
  "cell_fields_ok c \<longleftrightarrow> 0 \<le> gc_start_row c \<and> gc_start_row c \<le> MAX_TABLE_ROWS
     \<and> 0 < gc_end_row c \<and> gc_end_row c \<le> MAX_TABLE_ROWS
     \<and> 0 \<le> gc_start_column c \<and> gc_start_column c \<le> MAX_TABLE_COLUMNS
     \<and> 0 < gc_end_column c \<and> gc_end_column c \<le> MAX_TABLE_COLUMNS
     \<and> list_all SpanId (gc_span_ids c)"

text \<open>The positions a cell occupies in the row-major grid, in the order the loops visit them.\<close>

definition cell_positions :: "int \<Rightarrow> 'a table_cell_scheme \<Rightarrow> nat list" where
  "cell_positions column_count c =
     concat (map (\<lambda>row. map (\<lambda>column. nat (row * column_count + column)) [gc_start_column c..gc_end_column c - 1])
               [gc_start_row c..gc_end_row c - 1])"

definition mark_position :: "string \<Rightarrow> bool list \<times> nat \<Rightarrow> nat \<Rightarrow> (bool list \<times> nat) result" where
  "mark_position error_prefix st position =
     (if fst st ! position then Inl (ValueError (error_prefix @ ''_CELL_REGIONS_OVERLAP''))
      else Inr ((fst st)[position := True], snd st + 1))"

definition mark_cell ::
  "string \<Rightarrow> int \<Rightarrow> int \<Rightarrow> bool list \<times> nat \<Rightarrow> 'a table_cell_scheme \<Rightarrow> (bool list \<times> nat) result" where
  "mark_cell error_prefix row_count column_count st c =
     (if gc_start_row c < 0 \<or> gc_start_column c < 0 \<or> gc_end_row c \<le> gc_start_row c
         \<or> gc_end_column c \<le> gc_start_column c
      then Inl (ValueError (error_prefix @ ''_CELL_OFFSETS_INVALID''))
      else if gc_end_row c > row_count \<or> gc_end_column c > column_count
      then Inl (ValueError (error_prefix @ ''_CELL_OFFSETS_OUT_OF_BOUNDS''))
      else fold_ok (mark_position error_prefix) st (cell_positions column_count c))"

definition validate_grid :: "'a table_cell_scheme list \<Rightarrow> int \<Rightarrow> int \<Rightarrow> string \<Rightarrow> unit result" where
  "validate_grid cells row_count column_count error_prefix =
     (if row_count \<le> 0 \<or> column_count \<le> 0 then Inl (ValueError ''TABLE_DIMENSIONS_INVALID'')
      else if row_count > MAX_TABLE_ROWS then Inl (ValueError ''TABLE_ROWS_LIMIT_EXCEEDED'')
      else if column_count > MAX_TABLE_COLUMNS then Inl (ValueError ''TABLE_COLUMNS_LIMIT_EXCEEDED'')
      else if row_count * column_count > MAX_TABLE_GRID_AREA
      then Inl (ValueError ''TABLE_GRID_AREA_LIMIT_EXCEEDED'')
      else if length cells > MAX_TABLE_CELLS then Inl (ValueError ''TABLE_CELL_COUNT_LIMIT_EXCEEDED'')
      else
        let grid_area = nat (row_count * column_count)
        in bind_ok (fold_ok (mark_cell error_prefix row_count column_count) (replicate grid_area False, 0) cells)
             (\<lambda>(occupied, occupied_count).
               if occupied_count \<noteq> grid_area
               then Inl (ValueError (error_prefix @ ''_CELL_GRID_NOT_PARTITIONED'')) else Inr ()))"

record native_table =
  nt_order :: int
  nt_row_count :: int
  nt_column_count :: int
  nt_cells :: "native_table_cell list"

definition NativeTable :: "native_table \<Rightarrow> native_table result" where
  "NativeTable t =
     (if \<not> (0 \<le> nt_order t \<and> 0 < nt_row_count t \<and> 0 < nt_column_count t \<and> list_all cell_fields_ok (nt_cells t)
            \<and> length (nt_cells t) \<le> MAX_TABLE_CELLS) then Inl field_error
      else bind_ok (in_validator (validate_grid (nt_cells t) (nt_row_count t) (nt_column_count t) ''NATIVE_TABLE'')) (\<lambda>_. Inr t))"

section \<open>Native documents\<close>

datatype group_kind = Paragraph_Group | List_Item_Group | Table_Group | Caption_Group | Text_Box_Group | Alt_Text_Group
datatype list_kind = Ordered | Unordered

record native_group =
  ng_order :: int
  ng_kind :: group_kind
  ng_span_ids :: "string list"
  ng_page :: "int option"
  ng_bbox :: "source_box option"
  ng_style_name :: "string option"
  ng_list_kind :: "list_kind option"
  ng_list_depth :: "int option"
  ng_table_index :: "int option"

record native_document =
  nd_source_hash :: string
  nd_extraction_mode :: extraction_mode
  nd_page_count :: int
  nd_parser_versions :: "(string, string) dict"
  nd_spans :: "source_span list"
  nd_groups :: "native_group list"
  nd_tables :: "native_table list"

definition check_group :: "native_document \<Rightarrow> native_group \<Rightarrow> unit result" where
  "check_group d g =
     (let catalog = map ss_span_id (nd_spans d)
      in bind_ok (reject_if (\<not> set (ng_span_ids g) \<subseteq> set catalog) ''NATIVE_DOCUMENT_GROUP_SPAN_UNKNOWN'') (\<lambda>_.
         bind_ok (reject_if (ng_kind g \<noteq> Table_Group \<and> ng_span_ids g = []) ''NATIVE_DOCUMENT_GROUP_SPANS_REQUIRED'') (\<lambda>_.
         if ng_kind g = Table_Group
         then reject_if (case ng_table_index g of None \<Rightarrow> True | Some i \<Rightarrow> i \<ge> int (length (nd_tables d)))
                ''NATIVE_DOCUMENT_GROUP_TABLE_UNKNOWN''
         else reject_if (ng_table_index g \<noteq> None) ''NATIVE_DOCUMENT_GROUP_TABLE_INVALID'')))"

definition NativeDocument :: "library \<Rightarrow> native_document \<Rightarrow> native_document result" where
  "NativeDocument L d =
     (let span_ids = map ss_span_id (nd_spans d);
          ordinals = map ss_ordinal (nd_spans d);
          group_span_ids = concat (map ng_span_ids (nd_groups d))
      in bind_ok (reject_if (\<not> distinct span_ids \<or> \<not> distinct ordinals) ''NATIVE_DOCUMENT_SPANS_NOT_UNIQUE'') (\<lambda>_.
         bind_ok (reject_if (\<exists>s\<in>set (nd_spans d). Inr (ss_span_id s) \<noteq> make_span_id L (nd_source_hash d) (ss_ordinal s))
                    ''NATIVE_DOCUMENT_SPAN_SOURCE_MISMATCH'') (\<lambda>_.
         bind_ok (reject_if (\<not> distinct (map ng_order (nd_groups d))) ''NATIVE_DOCUMENT_GROUP_ORDERS_NOT_UNIQUE'') (\<lambda>_.
         bind_ok (reject_if (\<not> distinct group_span_ids) ''NATIVE_DOCUMENT_GROUP_SPANS_NOT_UNIQUE'') (\<lambda>_.
         bind_ok (reject_if (\<not> distinct (map nt_order (nd_tables d))) ''NATIVE_DOCUMENT_TABLE_ORDERS_NOT_UNIQUE'') (\<lambda>_.
         bind_ok (traverse (check_group d) (nd_groups d)) (\<lambda>_.
         bind_ok (reject_if (\<exists>t\<in>set (nd_tables d). \<exists>c\<in>set (nt_cells t). \<not> set (gc_span_ids c) \<subseteq> set span_ids)
                    ''NATIVE_DOCUMENT_TABLE_SPAN_UNKNOWN'') (\<lambda>_.
           Inr d))))))))"

definition span_catalog :: "native_document \<Rightarrow> (string, source_span) dict" where
  "span_catalog d = dict_of ss_span_id id (nd_spans d)"

section \<open>Reconciled documents\<close>

datatype lossless_reason = Structure_Unresolved | Provider_Unavailable | Repair_Rejected

datatype semantic_block =
    HeadingBlock int int "string list"
  | ParagraphBlock int "string list"
  | ListItemBlock int list_kind int "string list"
  | TableBlock int int int "table_cell list"
  | LosslessBlock int "string list" lossless_reason

fun block_order :: "semantic_block \<Rightarrow> int" where
  "block_order (HeadingBlock n _ _) = n"
| "block_order (ParagraphBlock n _) = n"
| "block_order (ListItemBlock n _ _ _) = n"
| "block_order (TableBlock n _ _ _) = n"
| "block_order (LosslessBlock n _ _) = n"

fun block_span_ids :: "semantic_block \<Rightarrow> string list" where
  "block_span_ids (HeadingBlock _ _ ids) = ids"
| "block_span_ids (ParagraphBlock _ ids) = ids"
| "block_span_ids (ListItemBlock _ _ _ ids) = ids"
| "block_span_ids (TableBlock _ _ _ cells) = concat (map gc_span_ids cells)"
| "block_span_ids (LosslessBlock _ ids _) = ids"

text \<open>The field constraints of each block class, and the grid validator of a table.\<close>

fun SemanticBlock :: "semantic_block \<Rightarrow> semantic_block result" where
  "SemanticBlock (HeadingBlock n level ids) =
     (if 0 \<le> n \<and> 1 \<le> level \<and> level \<le> 6 \<and> ids \<noteq> [] \<and> list_all SpanId ids
      then Inr (HeadingBlock n level ids) else Inl field_error)"
| "SemanticBlock (ParagraphBlock n ids) =
     (if 0 \<le> n \<and> ids \<noteq> [] \<and> list_all SpanId ids then Inr (ParagraphBlock n ids) else Inl field_error)"
| "SemanticBlock (ListItemBlock n k depth ids) =
     (if 0 \<le> n \<and> 0 \<le> depth \<and> depth \<le> MAX_LIST_DEPTH \<and> ids \<noteq> [] \<and> list_all SpanId ids
      then Inr (ListItemBlock n k depth ids) else Inl field_error)"
| "SemanticBlock (TableBlock n rows columns cells) =
     (if 0 \<le> n \<and> 0 < rows \<and> 0 < columns \<and> cells \<noteq> [] \<and> length cells \<le> MAX_TABLE_CELLS \<and> list_all cell_fields_ok cells
      then bind_ok (in_validator (validate_grid cells rows columns ''TABLE_BLOCK'')) (\<lambda>_. Inr (TableBlock n rows columns cells))
      else Inl field_error)"
| "SemanticBlock (LosslessBlock n ids r) =
     (if 0 \<le> n \<and> ids \<noteq> [] \<and> list_all SpanId ids then Inr (LosslessBlock n ids r) else Inl field_error)"

datatype exclusion_kind = Page_Header | Page_Footer | Page_Number

record excluded_span =
  ex_span_id :: string
  ex_kind :: exclusion_kind

record reconciled_document =
  rc_blocks :: "semantic_block list"
  rc_excluded_spans :: "excluded_span list"

definition ReconciledDocument :: "reconciled_document \<Rightarrow> reconciled_document result" where
  "ReconciledDocument d =
     (let excluded_ids = map ex_span_id (rc_excluded_spans d);
          allocations = concat (map block_span_ids (rc_blocks d))
      in bind_ok (reject_if (\<not> distinct (map block_order (rc_blocks d))) ''RECONCILED_DOCUMENT_BLOCK_ORDERS_NOT_UNIQUE'') (\<lambda>_.
         bind_ok (reject_if (\<not> distinct excluded_ids) ''RECONCILED_DOCUMENT_EXCLUDED_SPANS_NOT_UNIQUE'') (\<lambda>_.
         bind_ok (reject_if (\<not> distinct allocations) ''RECONCILED_DOCUMENT_SPAN_ALLOCATIONS_NOT_UNIQUE'') (\<lambda>_.
         bind_ok (reject_if (set allocations \<inter> set excluded_ids \<noteq> {}) ''RECONCILED_DOCUMENT_SPAN_EXCLUDED'') (\<lambda>_.
           Inr d)))))"

section \<open>Repair plans\<close>

datatype repair_kind = R_Heading | R_Paragraph | R_List_Item | R_Table | R_Exclude

record repair_block =
  rb_kind :: repair_kind
  rb_order :: int
  rb_span_ids :: "string list"
  rb_heading_level :: "int option"
  rb_list_kind :: "list_kind option"
  rb_list_depth :: "int option"
  rb_row_count :: "int option"
  rb_column_count :: "int option"
  rb_cells :: "table_cell list"
  rb_exclusion_kind :: "exclusion_kind option"
  rb_confidence :: rat

definition repair_block_fields_ok :: "repair_block \<Rightarrow> bool" where
  "repair_block_fields_ok b \<longleftrightarrow> 0 \<le> rb_order b \<and> list_all SpanId (rb_span_ids b)
     \<and> opt_ok (\<lambda>d. d \<le> MAX_LIST_DEPTH) (rb_list_depth b) \<and> opt_ok (\<lambda>r. r \<le> MAX_TABLE_ROWS) (rb_row_count b)
     \<and> opt_ok (\<lambda>c. c \<le> MAX_TABLE_COLUMNS) (rb_column_count b) \<and> length (rb_cells b) \<le> MAX_TABLE_CELLS
     \<and> list_all cell_fields_ok (rb_cells b) \<and> 0 \<le> rb_confidence b \<and> rb_confidence b \<le> 1"

definition repair_table_step :: "repair_block \<Rightarrow> unit result" where
  "repair_table_step b =
     (if rb_kind b = R_Table then
        (case (rb_row_count b, rb_column_count b) of
           (Some r, Some c) \<Rightarrow>
             bind_ok (reject_if (r \<le> 0 \<or> c \<le> 0) ''REPAIR_BLOCK_TABLE_DIMENSIONS_INVALID'') (\<lambda>_.
             bind_ok (reject_if (rb_span_ids b \<noteq> []) ''REPAIR_BLOCK_TABLE_SPANS_INVALID'') (\<lambda>_.
               in_validator (validate_grid (rb_cells b) r c ''REPAIR_BLOCK'')))
         | _ \<Rightarrow> Inl (ValidationError ''REPAIR_BLOCK_TABLE_DIMENSIONS_REQUIRED''))
      else reject_if (rb_row_count b \<noteq> None \<or> rb_column_count b \<noteq> None \<or> rb_cells b \<noteq> [])
             ''REPAIR_BLOCK_TABLE_FIELDS_INVALID'')"

definition RepairBlock :: "repair_block \<Rightarrow> repair_block result" where
  "RepairBlock b =
     (if \<not> repair_block_fields_ok b then Inl field_error
      else
      bind_ok (repair_table_step b) (\<lambda>_.
      bind_ok (if rb_kind b = R_Heading
               then reject_if (case rb_heading_level b of None \<Rightarrow> True | Some l \<Rightarrow> \<not> (1 \<le> l \<and> l \<le> 6))
                      ''REPAIR_BLOCK_HEADING_LEVEL_INVALID''
               else reject_if (rb_heading_level b \<noteq> None) ''REPAIR_BLOCK_HEADING_LEVEL_INVALID'') (\<lambda>_.
      bind_ok (if rb_kind b = R_List_Item
               then reject_if (rb_list_kind b = None \<or> (case rb_list_depth b of None \<Rightarrow> True | Some d \<Rightarrow> d < 0))
                      ''REPAIR_BLOCK_LIST_METADATA_INVALID''
               else reject_if (rb_list_kind b \<noteq> None \<or> rb_list_depth b \<noteq> None)
                      ''REPAIR_BLOCK_LIST_METADATA_INVALID'') (\<lambda>_.
      bind_ok (if rb_kind b = R_Exclude
               then reject_if (rb_exclusion_kind b = None) ''REPAIR_BLOCK_EXCLUSION_KIND_REQUIRED''
               else reject_if (rb_exclusion_kind b \<noteq> None) ''REPAIR_BLOCK_EXCLUSION_KIND_INVALID'') (\<lambda>_.
        Inr b)))))"

definition plan_allocations :: "repair_block list \<Rightarrow> string list" where
  "plan_allocations blocks =
     concat (map (\<lambda>b. if rb_kind b = R_Table then concat (map gc_span_ids (rb_cells b)) else rb_span_ids b) blocks)"

definition RepairPlan :: "repair_block list \<Rightarrow> repair_block list result" where
  "RepairPlan blocks =
     bind_ok (reject_if (\<not> distinct (plan_allocations blocks)) ''REPAIR_PLAN_SPAN_ALLOCATIONS_NOT_UNIQUE'')
       (\<lambda>_. Inr blocks)"

section \<open>Audits of a conversion\<close>

datatype ocr_outcome = O_Applied | O_Reused | O_Rejected | O_Provider_Failed | O_Unavailable
datatype correction_kind = Character_Recognition | Spacing

record ocr_patch_audit =
  pa_span_id :: string
  pa_original_text_hash :: string
  pa_corrected_text :: "string option"
  pa_corrected_text_hash :: "string option"
  pa_rejected_text_hash :: "string option"
  pa_bbox :: "source_box option"
  pa_correction_kind :: "correction_kind option"
  pa_confidence :: "rat option"
  pa_outcome :: ocr_outcome
  pa_validation_code :: "string option"

definition patch_fields_ok :: "ocr_patch_audit \<Rightarrow> bool" where
  "patch_fields_ok a \<longleftrightarrow> SpanId (pa_span_id a) \<and> Sha256 (pa_original_text_hash a)
     \<and> opt_ok Sha256 (pa_corrected_text_hash a) \<and> opt_ok Sha256 (pa_rejected_text_hash a)
     \<and> opt_ok (\<lambda>c. 0 \<le> c \<and> c \<le> 1) (pa_confidence a) \<and> pa_outcome a \<in> {O_Applied, O_Reused, O_Rejected}
     \<and> opt_ok code_pattern (pa_validation_code a)"

definition OcrCorrectionPatchAudit :: "library \<Rightarrow> ocr_patch_audit \<Rightarrow> ocr_patch_audit result" where
  "OcrCorrectionPatchAudit L a =
     (if \<not> patch_fields_ok a then Inl field_error
      else if pa_outcome a \<in> {O_Applied, O_Reused}
      then bind_ok (reject_if (pa_corrected_text a = None \<or> pa_corrected_text_hash a = None
                      \<or> pa_rejected_text_hash a \<noteq> None \<or> pa_validation_code a \<noteq> None)
                      ''OCR_CORRECTION_ACCEPTED_AUDIT_INVALID'') (\<lambda>_.
           bind_ok (reject_if (pa_corrected_text_hash a \<noteq> Some (lib_sha256 L (the (pa_corrected_text a))))
                      ''OCR_CORRECTION_ACCEPTED_HASH_INVALID'') (\<lambda>_. Inr a))
      else bind_ok (reject_if (pa_corrected_text a \<noteq> None \<or> pa_corrected_text_hash a \<noteq> None
                      \<or> pa_rejected_text_hash a = None \<or> pa_validation_code a = None)
                      ''OCR_CORRECTION_REJECTED_AUDIT_INVALID'') (\<lambda>_. Inr a))"

record ocr_page_audit =
  oa_source_hash :: string
  oa_page :: int
  oa_page_image_hash :: string
  oa_ocr_catalog_hash :: string
  oa_request_hash :: string
  oa_prompt_version :: string
  oa_prompt_hash :: string
  oa_schema_hash :: string
  oa_repair_prompt_version :: string
  oa_repair_prompt_hash :: string
  oa_effective_prompt_hash :: string
  oa_provider :: string
  oa_model :: string
  oa_repair_validation_codes :: "string list"
  oa_outcome :: ocr_outcome
  oa_patches :: "ocr_patch_audit list"
  oa_provider_error_code :: "string option"
  oa_retry_count :: int
  oa_repair_count :: int

definition OcrCorrectionPageAudit :: "ocr_page_audit \<Rightarrow> ocr_page_audit result" where
  "OcrCorrectionPageAudit p =
     (if \<not> (list_all Sha256 [oa_source_hash p, oa_page_image_hash p, oa_ocr_catalog_hash p, oa_request_hash p, oa_prompt_hash p,
               oa_schema_hash p, oa_repair_prompt_hash p, oa_effective_prompt_hash p]
            \<and> 1 \<le> oa_page p \<and> list_all code_pattern (oa_repair_validation_codes p)
            \<and> length (oa_repair_validation_codes p) \<le> 2 \<and> length (oa_patches p) \<le> 2000
            \<and> opt_ok code_pattern (oa_provider_error_code p) \<and> 0 \<le> oa_retry_count p \<and> oa_retry_count p \<le> 2
            \<and> 0 \<le> oa_repair_count p \<and> oa_repair_count p \<le> 2) then Inl field_error
      else bind_ok (reject_if (oa_repair_count p \<noteq> int (length (oa_repair_validation_codes p)))
                      ''OCR_CORRECTION_REPAIR_AUDIT_INVALID'') (\<lambda>_.
        if oa_outcome p \<in> {O_Applied, O_Reused}
        then bind_ok (reject_if (oa_provider_error_code p \<noteq> None \<or> (\<exists>a\<in>set (oa_patches p). pa_outcome a \<noteq> oa_outcome p))
                        ''OCR_CORRECTION_PAGE_AUDIT_INVALID'') (\<lambda>_. Inr p)
        else if oa_outcome p = O_Rejected
        then bind_ok (reject_if (oa_provider_error_code p \<noteq> None \<or> (\<exists>a\<in>set (oa_patches p). pa_outcome a \<noteq> O_Rejected))
                        ''OCR_CORRECTION_PAGE_AUDIT_INVALID'') (\<lambda>_. Inr p)
        else bind_ok (reject_if (oa_patches p \<noteq> []) ''OCR_CORRECTION_PAGE_PATCHES_INVALID'') (\<lambda>_. Inr p)))"

record degraded_block =
  db_order :: int
  db_reason :: lossless_reason
  db_pages :: "int option list"

datatype fidelity_status = F_PASS | F_WARN | F_FAIL

record fidelity_report =
  fr_source_hash :: string
  fr_extraction_mode :: extraction_mode
  fr_page_count :: int
  fr_status :: fidelity_status
  fr_source_span_count :: int
  fr_preserved_span_count :: int
  fr_excluded_span_count :: int
  fr_unmatched_span_count :: int
  fr_duplicated_span_count :: int
  fr_degraded_block_count :: int
  fr_source_text_coverage :: rat
  fr_degraded_blocks :: "degraded_block list"
  fr_ocr_corrections :: "ocr_page_audit list"
  fr_ocr_correction_applied_count :: int
  fr_ocr_correction_rejected_count :: int
  fr_warning_codes :: "string list"

definition count_patches :: "ocr_outcome set \<Rightarrow> fidelity_report \<Rightarrow> int" where
  "count_patches outcomes r =
     int (length (filter (\<lambda>a. pa_outcome a \<in> outcomes) (concat (map oa_patches (fr_ocr_corrections r)))))"

definition fidelity_fields_ok :: "fidelity_report \<Rightarrow> bool" where
  "fidelity_fields_ok r \<longleftrightarrow> Sha256 (fr_source_hash r)
     \<and> (\<forall>n\<in>{fr_page_count r, fr_source_span_count r, fr_preserved_span_count r, fr_excluded_span_count r,
            fr_unmatched_span_count r, fr_duplicated_span_count r, fr_degraded_block_count r,
            fr_ocr_correction_applied_count r, fr_ocr_correction_rejected_count r}. 0 \<le> n)
     \<and> 0 \<le> fr_source_text_coverage r \<and> fr_source_text_coverage r \<le> 1
     \<and> length (fr_warning_codes r) \<le> 1000"

definition coverage :: "fidelity_report \<Rightarrow> rat" where
  "coverage r =
     (if fr_source_span_count r = 0 then 1
      else of_int (fr_preserved_span_count r + fr_excluded_span_count r) / of_int (fr_source_span_count r))"

definition expected_status :: "fidelity_report \<Rightarrow> fidelity_status" where
  "expected_status r =
     (if fr_unmatched_span_count r \<noteq> 0 \<or> fr_duplicated_span_count r \<noteq> 0 then F_FAIL
      else if fr_degraded_block_count r \<noteq> 0 \<or> fr_warning_codes r \<noteq> []
              \<or> (fr_extraction_mode r = OCR \<and> fr_ocr_corrections r = []) then F_WARN
      else F_PASS)"

fun status_required :: "fidelity_status \<Rightarrow> string" where
  "status_required F_FAIL = ''FIDELITY_STATUS_FAIL_REQUIRED''"
| "status_required F_WARN = ''FIDELITY_STATUS_WARN_REQUIRED''"
| "status_required F_PASS = ''FIDELITY_STATUS_PASS_REQUIRED''"

definition SemanticFidelityReport :: "fidelity_report \<Rightarrow> fidelity_report result" where
  "SemanticFidelityReport r =
     (if \<not> fidelity_fields_ok r then Inl field_error
      else
      bind_ok (reject_if (fr_degraded_block_count r \<noteq> int (length (fr_degraded_blocks r)))
                 ''FIDELITY_DEGRADED_BLOCK_COUNT_INVALID'') (\<lambda>_.
      bind_ok (reject_if (fr_source_span_count r \<noteq> fr_preserved_span_count r + fr_excluded_span_count r
                   + fr_unmatched_span_count r) ''FIDELITY_SPAN_COUNTS_INVALID'') (\<lambda>_.
      bind_ok (reject_if (fr_source_text_coverage r \<noteq> coverage r) ''FIDELITY_COVERAGE_INVALID'') (\<lambda>_.
      bind_ok (reject_if (fr_ocr_correction_applied_count r \<noteq> count_patches {O_Applied, O_Reused} r
                   \<or> fr_ocr_correction_rejected_count r \<noteq> count_patches {O_Rejected} r
                   \<or> \<not> distinct (fr_warning_codes r)) ''FIDELITY_OCR_CORRECTION_COUNTS_INVALID'') (\<lambda>_.
      bind_ok (reject_if (fr_status r \<noteq> expected_status r) (status_required (expected_status r))) (\<lambda>_.
        Inr r))))))"

datatype repair_outcome = RO_Applied | RO_Reused | RO_Rejected | RO_Degraded

record repair_record =
  rp_provider :: string
  rp_model :: string
  rp_outcome :: repair_outcome
  rp_plan :: "repair_block list option"
  rp_validation_codes :: "string list"
  rp_applied_orders :: "int list"
  rp_rejected_orders :: "int list"
  rp_plan_hash :: "string option"

text \<open>The hash of a plan is a parameter: the JSON dump of a plan is not modelled.\<close>

definition SemanticStructureRepairRecord ::
  "(repair_block list \<Rightarrow> string) \<Rightarrow> repair_record \<Rightarrow> repair_record result" where
  "SemanticStructureRepairRecord plan_hash r =
     bind_ok (reject_if (\<not> distinct (rp_applied_orders r) \<or> \<not> distinct (rp_rejected_orders r))
                ''REPAIR_RECORD_ORDERS_NOT_UNIQUE'') (\<lambda>_.
     bind_ok (reject_if (set (rp_applied_orders r) \<inter> set (rp_rejected_orders r) \<noteq> {})
                ''REPAIR_RECORD_ORDERS_OVERLAP'') (\<lambda>_.
     bind_ok (reject_if (rp_outcome r \<in> {RO_Applied, RO_Reused} \<and> (rp_plan r = None \<or> rp_plan_hash r = None))
                ''REPAIR_RECORD_PLAN_REQUIRED'') (\<lambda>_.
     bind_ok (reject_if (rp_plan_hash r \<noteq> None
                \<and> (rp_plan r = None \<or> rp_plan_hash r \<noteq> Some (plan_hash (the (rp_plan r)))))
                ''REPAIR_RECORD_PLAN_HASH_INVALID'') (\<lambda>_.
       Inr r))))"

section \<open>A validated grid is a partition\<close>

text \<open>The cell covers the square of the given row and column.\<close>

definition covers :: "int \<Rightarrow> int \<Rightarrow> 'a table_cell_scheme \<Rightarrow> bool" where
  "covers row column c \<longleftrightarrow> gc_start_row c \<le> row \<and> row < gc_end_row c
     \<and> gc_start_column c \<le> column \<and> column < gc_end_column c"

definition cell_inside :: "int \<Rightarrow> int \<Rightarrow> 'a table_cell_scheme \<Rightarrow> bool" where
  "cell_inside rows columns c \<longleftrightarrow> 0 \<le> gc_start_row c \<and> gc_start_row c < gc_end_row c \<and> gc_end_row c \<le> rows
     \<and> 0 \<le> gc_start_column c \<and> gc_start_column c < gc_end_column c \<and> gc_end_column c \<le> columns"

definition grid_limits :: "'a table_cell_scheme list \<Rightarrow> int \<Rightarrow> int \<Rightarrow> bool" where
  "grid_limits cells rows columns \<longleftrightarrow> 0 < rows \<and> rows \<le> MAX_TABLE_ROWS \<and> 0 < columns
     \<and> columns \<le> MAX_TABLE_COLUMNS \<and> rows * columns \<le> MAX_TABLE_GRID_AREA \<and> length cells \<le> MAX_TABLE_CELLS"

lemma position_bounds:
  assumes "0 \<le> row" "row < rows" "0 \<le> column" "column < columns"
  shows "0 \<le> row * columns + column \<and> row * columns + column < rows * (columns :: int)"
proof -
  have "row * columns + column < row * columns + columns" using assms by simp
  also have "\<dots> = (row + 1) * columns" by (simp add: algebra_simps)
  also have "\<dots> \<le> rows * columns" using assms by (intro mult_right_mono) auto
  finally show ?thesis using assms by simp
qed

lemma position_inj:
  assumes "0 \<le> column" "column < columns" "0 \<le> column'" "column' < columns"
    and "row * columns + column = row' * columns + (column' :: int)"
  shows "row = row' \<and> column = column'"
proof -
  have "(r * columns + k) div columns = r \<and> (r * columns + k) mod columns = k" if "0 \<le> k" "k < columns" for r k
    using that by simp
  from this [OF assms(1,2), of row] this [OF assms(3,4), of row'] assms(5) show ?thesis by simp
qed

lemma cell_positions_set:
  assumes "cell_inside rows columns c" "0 \<le> row" "row < rows" "0 \<le> column" "column < columns"
  shows "nat (row * columns + column) \<in> set (cell_positions columns c) \<longleftrightarrow> covers row column c"
proof
  assume "nat (row * columns + column) \<in> set (cell_positions columns c)"
  then obtain r k where rk: "r \<in> {gc_start_row c..gc_end_row c - 1}" "k \<in> {gc_start_column c..gc_end_column c - 1}"
    and eq: "nat (row * columns + column) = nat (r * columns + k)"
    by (auto simp: cell_positions_def)
  from rk assms(1) have in_range: "0 \<le> r" "r < rows" "0 \<le> k" "k < columns" by (auto simp: cell_inside_def)
  with eq position_bounds [OF assms(2-5)] position_bounds [OF in_range] have "row * columns + column = r * columns + k"
    by linarith
  with position_inj [OF assms(4,5) in_range(3,4)] rk show "covers row column c" by (auto simp: covers_def)
next
  assume "covers row column c"
  then show "nat (row * columns + column) \<in> set (cell_positions columns c)"
    by (force simp: cell_positions_def covers_def)
qed

lemma cell_positions_distinct:
  assumes "cell_inside rows columns c"
  shows "distinct (cell_positions columns c) \<and> (\<forall>p\<in>set (cell_positions columns c). p < nat (rows * columns))"
proof -
  let ?R = "[gc_start_row c..gc_end_row c - 1]" and ?C = "[gc_start_column c..gc_end_column c - 1]"
  have inj: "r = r' \<and> k = k'"
    if "r \<in> set ?R" "r' \<in> set ?R" "k \<in> set ?C" "k' \<in> set ?C" "nat (r * columns + k) = nat (r' * columns + k')" for r r' k k'
  proof -
    from that assms have b: "0 \<le> r" "r < rows" "0 \<le> k" "k < columns" "0 \<le> r'" "r' < rows" "0 \<le> k'" "k' < columns"
      by (auto simp: cell_inside_def)
    with that(5) position_bounds [OF b(1-4)] position_bounds [OF b(5-8)] have "r * columns + k = r' * columns + k'"
      by linarith
    with position_inj [OF b(3,4,7,8)] show ?thesis by blast
  qed
  have "distinct (concat (map (\<lambda>row. map (\<lambda>column. nat (row * columns + column)) ?C) rs))"
    if "distinct rs" "set rs \<subseteq> set ?R" for rs
    using that
  proof (induction rs)
    case (Cons r rs)
    have "distinct (map (\<lambda>column. nat (r * columns + column)) ?C)"
      using inj [of r r] Cons.prems(2) by (auto simp: distinct_map inj_on_def)
    moreover have "nat (r * columns + k) \<noteq> nat (r' * columns + k')"
      if "r' \<in> set rs" "k \<in> set ?C" "k' \<in> set ?C" for r' k k'
    proof -
      have "r \<in> set ?R" "r' \<in> set ?R" "r \<noteq> r'" using Cons.prems that(1) by auto
      with inj [of r r' k k'] that(2,3) show ?thesis by blast
    qed
    then have "set (map (\<lambda>column. nat (r * columns + column)) ?C) \<inter>
        set (concat (map (\<lambda>row. map (\<lambda>column. nat (row * columns + column)) ?C) rs)) = {}"
      by (auto simp del: set_upto)
    ultimately show ?case using Cons by simp
  qed simp
  then have "distinct (cell_positions columns c)" by (simp add: cell_positions_def)
  moreover have "p < nat (rows * columns)" if p: "p \<in> set (cell_positions columns c)" for p
  proof -
    from p obtain r k where "r \<in> set ?R" "k \<in> set ?C" and p: "p = nat (r * columns + k)" by (auto simp: cell_positions_def)
    with assms have "0 \<le> r" "r < rows" "0 \<le> k" "k < columns" by (auto simp: cell_inside_def)
    from position_bounds [OF this] p show ?thesis by simp
  qed
  ultimately show ?thesis by blast
qed

lemma mark_positions_iff:
  assumes "\<forall>p\<in>set ps. p < length occ"
  shows "fold_ok (mark_position pre) (occ, n) ps = Inr (occ', n') \<longleftrightarrow>
    distinct ps \<and> (\<forall>p\<in>set ps. \<not> occ ! p)
    \<and> occ' = map (\<lambda>i. occ ! i \<or> i \<in> set ps) [0..<length occ] \<and> n' = n + length ps"
  using assms
proof (induction ps arbitrary: occ n)
  case Nil
  have "map (\<lambda>i. occ ! i) [0..<length occ] = occ" by (rule map_nth)
  then show ?case by auto
next
  case (Cons p ps)
  let ?occ = "occ[p := True]"
  have "map (\<lambda>i. ?occ ! i \<or> i \<in> set ps) [0..<length ?occ] = map (\<lambda>i. occ ! i \<or> i \<in> set (p # ps)) [0..<length occ]"
    using Cons.prems by (auto simp: nth_list_update)
  moreover have "(\<forall>q\<in>set ps. \<not> ?occ ! q) \<longleftrightarrow> p \<notin> set ps \<and> (\<forall>q\<in>set ps. \<not> occ ! q)"
    using Cons.prems by (auto simp: nth_list_update)
  ultimately show ?case
    using Cons.IH [of ?occ "n + 1"] Cons.prems by (cases "occ ! p") (auto simp: mark_position_def)
qed

lemma mark_cell_iff:
  assumes "0 < columns"
  shows "mark_cell pre rows columns (map (\<lambda>i. i \<in> set P) [0..<nat (rows * columns)], n) c = Inr st \<longleftrightarrow>
    cell_inside rows columns c \<and> (distinct P \<longrightarrow> distinct (P @ cell_positions columns c))
    \<and> (\<forall>p\<in>set (cell_positions columns c). p \<notin> set P)
    \<and> st = (map (\<lambda>i. i \<in> set (P @ cell_positions columns c)) [0..<nat (rows * columns)],
            n + length (cell_positions columns c))"
proof (cases "cell_inside rows columns c")
  case True
  let ?occ = "map (\<lambda>i. i \<in> set P) [0..<nat (rows * columns)]" and ?ps = "cell_positions columns c"
  from cell_positions_distinct [OF True] have ps: "distinct ?ps" "\<forall>p\<in>set ?ps. p < length ?occ"
    "\<forall>p\<in>set ?ps. p < nat (rows * columns)" by simp_all
  have occ: "\<forall>p\<in>set ?ps. ?occ ! p \<longleftrightarrow> p \<in> set P" using ps(3) by simp
  have map: "map (\<lambda>i. ?occ ! i \<or> i \<in> set ?ps) [0..<length ?occ] = map (\<lambda>i. i \<in> set (P @ ?ps)) [0..<nat (rows * columns)]"
    by simp
  obtain occ' n' where st: "st = (occ', n')" by (cases st)
  have "mark_cell pre rows columns (?occ, n) c = Inr st \<longleftrightarrow> fold_ok (mark_position pre) (?occ, n) ?ps = Inr (occ', n')"
    unfolding st using True by (auto simp: mark_cell_def cell_inside_def)
  also have "\<dots> \<longleftrightarrow> distinct ?ps \<and> (\<forall>p\<in>set ?ps. \<not> ?occ ! p)
      \<and> occ' = map (\<lambda>i. ?occ ! i \<or> i \<in> set ?ps) [0..<length ?occ] \<and> n' = n + length ?ps"
    by (rule mark_positions_iff [OF ps(2)])
  finally show ?thesis using True ps(1) occ unfolding st map by auto
next
  case False
  have "mark_cell pre rows columns (map (\<lambda>i. i \<in> set P) [0..<nat (rows * columns)], n) c \<noteq> Inr st"
    using False by (auto simp: mark_cell_def cell_inside_def)
  with False show ?thesis by simp
qed

lemma mark_cells_iff:
  assumes "0 < columns" and "distinct P"
  shows "fold_ok (mark_cell pre rows columns) (map (\<lambda>i. i \<in> set P) [0..<nat (rows * columns)], length P) cells = Inr st
    \<longleftrightarrow> (\<forall>c\<in>set cells. cell_inside rows columns c)
      \<and> distinct (P @ concat (map (cell_positions columns) cells))
      \<and> st = (map (\<lambda>i. i \<in> set (P @ concat (map (cell_positions columns) cells))) [0..<nat (rows * columns)],
              length (P @ concat (map (cell_positions columns) cells)))"
  using assms(2)
proof (induction cells arbitrary: P)
  case Nil
  then show ?case by auto
next
  case (Cons c cells)
  let ?st = "\<lambda>P. (map (\<lambda>i. i \<in> set P) [0..<nat (rows * columns)], length P)" and ?ps = "cell_positions columns c"
  show ?case
  proof (cases "cell_inside rows columns c \<and> (\<forall>p\<in>set ?ps. p \<notin> set P)")
    case True
    then have d: "distinct (P @ ?ps)" using Cons.prems cell_positions_distinct by auto
    have "mark_cell pre rows columns (?st P) c = Inr (?st (P @ ?ps))"
      using True d by (subst mark_cell_iff [OF assms(1)]) simp
    then show ?thesis using Cons.IH [OF d] True by simp
  next
    case False
    then have "mark_cell pre rows columns (?st P) c \<noteq> Inr t" for t
      unfolding mark_cell_iff [OF assms(1)] by blast
    then obtain e where "mark_cell pre rows columns (?st P) c = Inl e" by (meson sum.exhaust)
    moreover have "\<not> (cell_inside rows columns c \<and> distinct (P @ concat (map (cell_positions columns) (c # cells))))"
      using False by auto
    ultimately show ?thesis by auto
  qed
qed

lemma validate_grid_positions:
  "validate_grid cells rows columns pre = Inr () \<longleftrightarrow> grid_limits cells rows columns
     \<and> (\<forall>c\<in>set cells. cell_inside rows columns c)
     \<and> distinct (concat (map (cell_positions columns) cells))
     \<and> length (concat (map (cell_positions columns) cells)) = nat (rows * columns)"
proof (cases "grid_limits cells rows columns")
  case True
  then have "0 < columns" by (simp add: grid_limits_def)
  have zero: "replicate (nat (rows * columns)) False = map (\<lambda>i. i \<in> set []) [0..<nat (rows * columns)]"
    by (simp add: map_replicate_trivial)
  have "validate_grid cells rows columns pre = Inr () \<longleftrightarrow>
      (\<exists>st. fold_ok (mark_cell pre rows columns) (replicate (nat (rows * columns)) False, 0) cells = Inr st
        \<and> snd st = nat (rows * columns))"
    using True unfolding validate_grid_def grid_limits_def Let_def by (auto split: if_splits)
  then show ?thesis
    using True mark_cells_iff [OF \<open>0 < columns\<close>, of "[]" pre rows cells] unfolding zero by auto
next
  case False
  then have "validate_grid cells rows columns pre \<noteq> Inr ()" by (auto simp: validate_grid_def grid_limits_def Let_def)
  with False show ?thesis by simp
qed

lemma count_positions:
  assumes "\<forall>c\<in>set cells. cell_inside rows columns c"
  shows "count (mset (concat (map (cell_positions columns) cells))) p
    = length (filter (\<lambda>c. p \<in> set (cell_positions columns c)) cells)"
  using assms
proof (induction cells)
  case (Cons c cells)
  have "count (mset (cell_positions columns c)) p = (if p \<in> set (cell_positions columns c) then 1 else 0)"
    using cell_positions_distinct [of rows columns c] Cons.prems by (simp add: distinct_count_atmost_1)
  with Cons show ?case by simp
qed simp

lemma partition_iff_count:
  assumes "set xs \<subseteq> {..<n}"
  shows "distinct xs \<and> length xs = n \<longleftrightarrow> (\<forall>p<n. count (mset xs) p = 1)"
proof
  assume d: "distinct xs \<and> length xs = n"
  then have "card (set xs) = card {..<n}" by (simp add: distinct_card)
  with assms have "set xs = {..<n}" by (intro card_subset_eq) simp_all
  with d show "\<forall>p<n. count (mset xs) p = 1" by (simp add: distinct_count_atmost_1)
next
  assume c: "\<forall>p<n. count (mset xs) p = 1"
  then have "{..<n} \<subseteq> set xs" by (metis count_mset_0_iff lessThan_iff subsetI zero_neq_one)
  with assms have s: "set xs = {..<n}" by blast
  have "distinct xs"
    unfolding distinct_count_atmost_1 using c s by (auto simp: count_mset_0_iff)
  with s show "distinct xs \<and> length xs = n" by (metis card_lessThan distinct_card)
qed

lemma grid_accepted_iff:
  "validate_grid cells rows columns pre = Inr () \<longleftrightarrow> grid_limits cells rows columns
     \<and> (\<forall>c\<in>set cells. cell_inside rows columns c)
     \<and> (\<forall>row column. 0 \<le> row \<and> row < rows \<and> 0 \<le> column \<and> column < columns
          \<longrightarrow> length (filter (covers row column) cells) = 1)"
proof (cases "grid_limits cells rows columns \<and> (\<forall>c\<in>set cells. cell_inside rows columns c)")
  case True
  let ?ps = "concat (map (cell_positions columns) cells)"
  have pos: "0 < columns" "0 < rows" using True by (simp_all add: grid_limits_def)
  have inside: "\<forall>c\<in>set cells. cell_inside rows columns c" using True by blast
  then have "set ?ps \<subseteq> {..<nat (rows * columns)}" using cell_positions_distinct by fastforce
  then have "validate_grid cells rows columns pre = Inr () \<longleftrightarrow> (\<forall>p<nat (rows * columns). count (mset ?ps) p = 1)"
    using True validate_grid_positions partition_iff_count by blast
  also have "\<dots> \<longleftrightarrow> (\<forall>row column. 0 \<le> row \<and> row < rows \<and> 0 \<le> column \<and> column < columns
      \<longrightarrow> length (filter (covers row column) cells) = 1)"
  proof -
    have cov: "count (mset ?ps) (nat (row * columns + column)) = length (filter (covers row column) cells)"
      if "0 \<le> row \<and> row < rows \<and> 0 \<le> column \<and> column < columns" for row column
    proof -
      have "filter (\<lambda>c. nat (row * columns + column) \<in> set (cell_positions columns c)) cells = filter (covers row column) cells"
        using cell_positions_set [of rows columns _ row column] inside that by (intro filter_cong) blast+
      then show ?thesis unfolding count_positions [OF inside] by (rule arg_cong)
    qed
    have "\<exists>row column. 0 \<le> row \<and> row < rows \<and> 0 \<le> column \<and> column < columns \<and> p = nat (row * columns + column)"
      if "p < nat (rows * columns)" for p
    proof (intro exI conjI)
      have p: "int p < rows * columns" using that by simp
      show "0 \<le> int p div columns" "0 \<le> int p mod columns" "int p mod columns < columns"
        "p = nat (int p div columns * columns + int p mod columns)" using pos by (simp_all add: pos_imp_zdiv_nonneg_iff)
      show "int p div columns < rows"
      proof (rule ccontr)
        assume "\<not> int p div columns < rows"
        then have "rows * columns \<le> int p div columns * columns" using pos by (intro mult_right_mono) simp_all
        also have "\<dots> = int p - int p mod columns" by (rule minus_mod_eq_div_mult [symmetric])
        also have "\<dots> \<le> int p" using pos by simp
        finally show False using p by simp
      qed
    qed
    moreover have "nat (row * columns + column) < nat (rows * columns)"
      if "0 \<le> row \<and> row < rows \<and> 0 \<le> column \<and> column < columns" for row column
      using position_bounds [of row rows column columns] that by simp
    ultimately show ?thesis using cov by metis
  qed
  finally show ?thesis using True by blast
next
  case False
  then show ?thesis using validate_grid_positions by blast
qed

text \<open>(C6) The grid validator accepts a table exactly when it is within the limits, every cell lies inside
  the table, and every square of the grid is covered by exactly one cell.\<close>

theorem validate_grid_iff_partition:
  "validate_grid cells rows columns pre = Inr () \<longleftrightarrow> grid_limits cells rows columns
     \<and> (\<forall>c\<in>set cells. cell_inside rows columns c)
     \<and> (\<forall>row column. 0 \<le> row \<and> row < rows \<and> 0 \<le> column \<and> column < columns
          \<longrightarrow> length (filter (covers row column) cells) = 1)"
  by (rule grid_accepted_iff)

section \<open>What the validators guarantee\<close>

text \<open>A fidelity report passes its validator only when its status is the one its counts call for: lost
  or duplicated text is a failure, and a PASS means that every source span was kept or
  deliberately excluded, with full coverage, no degraded block and no warning.\<close>

theorem fidelity_report_honest:
  assumes "SemanticFidelityReport r = Inr r'"
  shows "r' = r \<and> (fr_status r = F_FAIL \<longleftrightarrow> 0 < fr_unmatched_span_count r \<or> 0 < fr_duplicated_span_count r)
    \<and> (fr_status r = F_PASS \<longrightarrow> fr_source_span_count r = fr_preserved_span_count r + fr_excluded_span_count r
        \<and> fr_source_text_coverage r = 1 \<and> fr_degraded_blocks r = [] \<and> fr_warning_codes r = [])
    \<and> (fr_source_text_coverage r < 1 \<longleftrightarrow> 0 < fr_unmatched_span_count r)"
proof -
  from assms have f: "fidelity_fields_ok r" "fr_degraded_block_count r = int (length (fr_degraded_blocks r))"
    "fr_source_span_count r = fr_preserved_span_count r + fr_excluded_span_count r + fr_unmatched_span_count r"
    "fr_source_text_coverage r = coverage r" "fr_status r = expected_status r" "r' = r"
    by (auto simp: SemanticFidelityReport_def split: if_splits)
  from f(1) have n: "0 \<le> fr_preserved_span_count r" "0 \<le> fr_excluded_span_count r"
    "0 \<le> fr_unmatched_span_count r" "0 \<le> fr_duplicated_span_count r" by (simp_all add: fidelity_fields_ok_def)
  have cov: "coverage r < 1 \<longleftrightarrow> 0 < fr_unmatched_span_count r"
    using n f(3) by (auto simp: coverage_def field_simps)
  have "coverage r = 1" if "fr_unmatched_span_count r = 0" using f(3) that by (auto simp: coverage_def)
  with f n cov show ?thesis by (auto simp: expected_status_def split: if_splits)
qed

text \<open>A reconciled document allocates no source span twice, neither within a block, nor across
  blocks, nor to a block and to the excluded page elements.\<close>

theorem reconciled_allocations_unique:
  assumes "ReconciledDocument d = Inr d'" and "i < length (rc_blocks d)" and "j < length (rc_blocks d)"
    and "x \<in> set (block_span_ids (rc_blocks d ! i))" and "x \<in> set (block_span_ids (rc_blocks d ! j))"
  shows "i = j \<and> distinct (block_span_ids (rc_blocks d ! i)) \<and> x \<notin> ex_span_id ` set (rc_excluded_spans d)"
proof -
  let ?bs = "map block_span_ids (rc_blocks d)"
  from assms(1) have d: "distinct (concat ?bs)" and e: "set (concat ?bs) \<inter> ex_span_id ` set (rc_excluded_spans d) = {}"
    by (auto simp: ReconciledDocument_def Let_def)
  have "i = j \<and> distinct (bs ! i)"
    if "distinct (concat bs)" "i < length bs" "j < length bs" "x \<in> set (bs ! i)" "x \<in> set (bs ! j)"
    for bs :: "string list list" and i j
    using that
  proof (induction bs arbitrary: i j)
    case (Cons b bs)
    have "x \<in> set (concat bs)" if "x \<in> set (bs ! k)" "k < length bs" for k using that by (auto intro: nth_mem)
    with Cons show ?case by (cases i; cases j) auto
  qed simp
  from this [OF d, of i j] assms(2-5) have "i = j \<and> distinct (block_span_ids (rc_blocks d ! i))"
    unfolding length_map nth_map [OF assms(2)] nth_map [OF assms(3)] by blast
  moreover from assms(2,4) e have "x \<notin> ex_span_id ` set (rc_excluded_spans d)" by (auto dest: nth_mem)
  ultimately show ?thesis by blast
qed

text \<open>In a native document every span that a group or a table cell names is a span of the document,
  and looking it up in the catalogue gives that span.\<close>

theorem native_document_spans_resolve:
  assumes "NativeDocument L d = Inr d'"
    and "(\<exists>g\<in>set (nd_groups d). x \<in> set (ng_span_ids g))
      \<or> (\<exists>t\<in>set (nd_tables d). \<exists>c\<in>set (nt_cells t). x \<in> set (gc_span_ids c))"
  shows "\<exists>s\<in>set (nd_spans d). ss_span_id s = x \<and> dict_get (span_catalog d) x = Some s
    \<and> make_span_id L (nd_source_hash d) (ss_ordinal s) = Inr x"
proof -
  have u: "distinct (map ss_span_id (nd_spans d))"
    using assms(1) by (simp add: NativeDocument_def Let_def split: if_splits, elim conjE) simp
  have src: "\<forall>s\<in>set (nd_spans d). make_span_id L (nd_source_hash d) (ss_ordinal s) = Inr (ss_span_id s)"
    using assms(1) by (auto simp: NativeDocument_def Let_def split: if_splits)
  have g: "\<exists>us. traverse (check_group d) (nd_groups d) = Inr us"
    using assms(1) by (simp add: NativeDocument_def Let_def split: if_splits, elim conjE) blast
  have t: "\<forall>t\<in>set (nd_tables d). \<forall>c\<in>set (nt_cells t). set (gc_span_ids c) \<subseteq> set (map ss_span_id (nd_spans d))"
    using assms(1) by (simp add: NativeDocument_def Let_def split: if_splits, elim conjE) simp
  from g have "\<forall>g\<in>set (nd_groups d). set (ng_span_ids g) \<subseteq> set (map ss_span_id (nd_spans d))"
    unfolding traverse_ok_iff by (auto simp: check_group_def Let_def)
  with t assms(2) have "x \<in> set (map ss_span_id (nd_spans d))" by blast
  then obtain s where s: "s \<in> set (nd_spans d)" "ss_span_id s = x" by auto
  with dict_get_of_unique [OF u s(1), of id] src show ?thesis by (auto simp: span_catalog_def)
qed

section \<open>Samples\<close>

definition grid_cell :: "int \<Rightarrow> int \<Rightarrow> int \<Rightarrow> int \<Rightarrow> table_cell" where
  "grid_cell r1 r2 c1 c2 = \<lparr>gc_start_row = r1, gc_end_row = r2, gc_start_column = c1, gc_end_column = c2,
     gc_span_ids = [], gc_column_header = False\<rparr>"

lemma grid_sample: "cell_positions 2 (grid_cell 0 2 0 1) = [0, 2]" "cell_positions 2 (grid_cell 0 1 1 2) = [1]"
  "cell_positions 2 (grid_cell 1 2 1 2) = [3]"
  by code_simp+

theorem validate_grid_iff_partition_witness:
  "validate_grid [grid_cell 0 2 0 1, grid_cell 0 1 1 2, grid_cell 1 2 1 2] 2 2 ''T'' = Inr ()
   \<and> length (filter (covers 1 0) [grid_cell 0 2 0 1, grid_cell 0 1 1 2, grid_cell 1 2 1 2]) = 1"
proof -
  have "validate_grid [grid_cell 0 2 0 1, grid_cell 0 1 1 2, grid_cell 1 2 1 2] 2 2 ''T'' = Inr ()"
    unfolding validate_grid_positions using grid_sample
    by (simp add: grid_limits_def cell_inside_def MAX_TABLE_ROWS_def MAX_TABLE_COLUMNS_def
        MAX_TABLE_GRID_AREA_def MAX_TABLE_CELLS_def) (simp add: grid_cell_def)
  with validate_grid_iff_partition [of "[grid_cell 0 2 0 1, grid_cell 0 1 1 2, grid_cell 1 2 1 2]" 2 2 "''T''"]
  show ?thesis by simp
qed

definition report1 :: fidelity_report where
  "report1 = \<lparr>fr_source_hash = replicate 64 CHR ''a'', fr_extraction_mode = DOCX_XML, fr_page_count = 1, fr_status = F_PASS,
     fr_source_span_count = 3, fr_preserved_span_count = 2, fr_excluded_span_count = 1,
     fr_unmatched_span_count = 0, fr_duplicated_span_count = 0, fr_degraded_block_count = 0,
     fr_source_text_coverage = 1, fr_degraded_blocks = [], fr_ocr_corrections = [],
     fr_ocr_correction_applied_count = 0, fr_ocr_correction_rejected_count = 0, fr_warning_codes = []\<rparr>"

theorem fidelity_report_honest_witness:
  "SemanticFidelityReport report1 = Inr report1 \<and> fr_degraded_blocks report1 = []"
proof -
  have "Sha256 (replicate 64 CHR ''a'')" by code_simp
  then have "SemanticFidelityReport report1 = Inr report1"
    by (simp add: SemanticFidelityReport_def fidelity_fields_ok_def report1_def coverage_def expected_status_def
        count_patches_def)
  with fidelity_report_honest [OF this] show ?thesis by (simp add: report1_def)
qed

theorem reconciled_allocations_unique_witness:
  "distinct (block_span_ids (rc_blocks \<lparr>rc_blocks = [ParagraphBlock 0 [''a''], ParagraphBlock 1 [''b'']], rc_excluded_spans = []\<rparr> ! 0))"
  using reconciled_allocations_unique
    [of "\<lparr>rc_blocks = [ParagraphBlock 0 [''a''], ParagraphBlock 1 [''b'']], rc_excluded_spans = []\<rparr>" _ 0 0 "''a''"]
  by (simp add: ReconciledDocument_def)

definition span1 :: source_span where
  "span1 = \<lparr>ss_span_id = projr (make_span_id sample_library ''h'' 0), ss_ordinal = 0, ss_page = None, ss_bbox = None,
     ss_text = ''text'', ss_text_hash = lib_sha256 sample_library ''text'', ss_paragraph_break_before = False\<rparr>"

definition native1 :: native_document where
  "native1 = \<lparr>nd_source_hash = ''h'', nd_extraction_mode = DOCX_XML, nd_page_count = 1, nd_parser_versions = [],
     nd_spans = [span1], nd_groups = [\<lparr>ng_order = 0, ng_kind = Paragraph_Group, ng_span_ids = [ss_span_id span1],
       ng_page = None, ng_bbox = None, ng_style_name = None, ng_list_kind = None, ng_list_depth = None,
       ng_table_index = None\<rparr>], nd_tables = []\<rparr>"

theorem native_document_spans_resolve_witness:
  "dict_get (span_catalog native1) (ss_span_id span1) = Some span1"
proof -
  have "NativeDocument sample_library native1 = Inr native1"
    by (simp add: NativeDocument_def native1_def span1_def make_span_id_def check_group_def reject_if_def)
  from native_document_spans_resolve [OF this, of "ss_span_id span1"] show ?thesis
    by (auto simp: native1_def)
qed

end
