(* ===== verification/Identity.thy ===== *)
theory Identity
  imports Models
begin

text \<open>
  Duplicate classification (\<open>identity.py\<close>): does a candidate product or table create, update,
  reuse or conflict with what the registry holds. The lemmas say what each verdict means for
  the registry: a CREATE verdict is given only when nothing in the registry shares the
  candidate's identifier, key, alias or content, and every blocking verdict names a record that
  really conflicts.
\<close>

datatype duplicate_decision = D_BLOCK | D_CREATE | D_NO_CHANGE | D_REUSE | D_UPDATE | D_WARN

datatype entity_type = Product_Entity | Table_Entity

record duplicate_report =
  dr_entity_type :: entity_type
  dr_decision :: duplicate_decision
  dr_code :: string
  dr_target_id :: "string option"
  dr_candidate_ids :: "string list"

definition product_report ::
  "duplicate_decision \<Rightarrow> string \<Rightarrow> string option \<Rightarrow> string list \<Rightarrow> duplicate_report" where
  "product_report d code target ids =
     \<lparr>dr_entity_type = Product_Entity, dr_decision = d, dr_code = code, dr_target_id = target,
      dr_candidate_ids = ids\<rparr>"

definition table_report ::
  "duplicate_decision \<Rightarrow> string \<Rightarrow> string option \<Rightarrow> string list \<Rightarrow> duplicate_report" where
  "table_report d code target ids =
     \<lparr>dr_entity_type = Table_Entity, dr_decision = d, dr_code = code, dr_target_id = target,
      dr_candidate_ids = ids\<rparr>"

section \<open>Products\<close>

definition classify_existing_product :: "product_record \<Rightarrow> product_record option \<Rightarrow> duplicate_report" where
  "classify_existing_product candidate id_match =
     (case id_match of
        None \<Rightarrow> product_report D_BLOCK ''PRODUCT_ID_NOT_FOUND'' None []
      | Some m \<Rightarrow>
          (let target = Some (pr_product_id m)
           in if pr_status m = RETIRED \<and> pr_status candidate = ACTIVE
              then product_report D_BLOCK ''RETIRED_ID_REUSE'' target []
              else if pr_product_key candidate \<noteq> pr_product_key m
              then product_report D_BLOCK ''PRODUCT_ID_KEY_CONFLICT'' target []
              else if pr_canonical_hash candidate = pr_canonical_hash m
              then product_report D_NO_CHANGE ''PRODUCT_NO_CHANGE'' target []
              else product_report D_UPDATE ''PRODUCT_UPDATE'' target []))"

definition classify_new_product ::
  "product_record \<Rightarrow> product_record list \<Rightarrow> string list \<Rightarrow> duplicate_report" where
  "classify_new_product candidate existing semantic_candidate_ids =
     (case find (\<lambda>i. pr_product_id i = pr_product_id candidate) existing of
        Some m \<Rightarrow> product_report D_BLOCK ''PRODUCT_ID_CONFLICT'' (Some (pr_product_id m)) []
      | None \<Rightarrow>
      (case find (\<lambda>i. pr_product_key i = pr_product_key candidate) existing of
        Some m \<Rightarrow> product_report D_BLOCK ''PRODUCT_KEY_CONFLICT'' (Some (pr_product_id m)) []
      | None \<Rightarrow>
      (case find (\<lambda>i. pr_product_key candidate \<in> set (pr_aliases i)) existing of
        Some m \<Rightarrow> product_report D_BLOCK ''PRODUCT_ALIAS_CONFLICT'' (Some (pr_product_id m)) []
      | None \<Rightarrow>
      (case find (\<lambda>i. pr_canonical_hash candidate \<noteq> None
                       \<and> pr_canonical_hash candidate = pr_canonical_hash i) existing of
        Some m \<Rightarrow> product_report D_BLOCK ''PRODUCT_CONTENT_DUPLICATE'' (Some (pr_product_id m)) []
      | None \<Rightarrow>
          (let semantic_ids = sorted_set semantic_candidate_ids
           in if semantic_ids \<noteq> [] then product_report D_WARN ''POSSIBLE_DUPLICATE'' None semantic_ids
              else product_report D_CREATE ''PRODUCT_CREATE'' None [])))))"

definition classify_product ::
  "product_record \<Rightarrow> product_record list \<Rightarrow> operation \<Rightarrow> string list \<Rightarrow> duplicate_report" where
  "classify_product candidate existing operation semantic_candidate_ids =
     (if operation \<noteq> Create
      then classify_existing_product candidate
             (find (\<lambda>i. pr_product_id i = pr_product_id candidate) existing)
      else classify_new_product candidate existing semantic_candidate_ids)"

section \<open>Tables\<close>

definition classify_table :: "table_record \<Rightarrow> table_record list \<Rightarrow> duplicate_report" where
  "classify_table candidate existing =
     (case find (\<lambda>i. tr_table_id i = tr_table_id candidate) existing of
        Some m \<Rightarrow>
          (let target = Some (tr_table_id m)
           in if tr_status m = RETIRED \<and> tr_status candidate = ACTIVE
              then table_report D_BLOCK ''RETIRED_ID_REUSE'' target []
              else if locator_key (tr_locator m) \<noteq> locator_key (tr_locator candidate)
              then table_report D_BLOCK ''TABLE_ID_LOCATOR_CONFLICT'' target []
              else if tr_canonical_hash m = tr_canonical_hash candidate
              then table_report D_NO_CHANGE ''TABLE_NO_CHANGE'' target []
              else table_report D_UPDATE ''TABLE_UPDATE'' target [])
      | None \<Rightarrow>
      (case find (\<lambda>i. locator_key (tr_locator i) = locator_key (tr_locator candidate)) existing of
        Some m \<Rightarrow>
          (if tr_status m = RETIRED
           then table_report D_BLOCK ''RETIRED_ID_REUSE'' (Some (tr_table_id m)) []
           else table_report D_REUSE ''TABLE_LOCATOR_REUSE'' (Some (tr_table_id m)) [])
      | None \<Rightarrow>
          (let schema_matches =
             sort (map tr_table_id
               (filter (\<lambda>i. tr_schema_hash candidate \<noteq> None
                             \<and> tr_schema_hash candidate = tr_schema_hash i) existing))
           in if schema_matches \<noteq> [] then table_report D_WARN ''POSSIBLE_CLONE'' None schema_matches
              else table_report D_CREATE ''TABLE_CREATE'' None [])))"

section \<open>What the verdicts mean\<close>

lemma product_report_sel [simp]:
  "dr_entity_type (product_report d c t ids) = Product_Entity"
  "dr_decision (product_report d c t ids) = d" "dr_code (product_report d c t ids) = c"
  "dr_target_id (product_report d c t ids) = t" "dr_candidate_ids (product_report d c t ids) = ids"
  by (simp_all add: product_report_def)

lemma table_report_sel [simp]:
  "dr_entity_type (table_report d c t ids) = Table_Entity"
  "dr_decision (table_report d c t ids) = d" "dr_code (table_report d c t ids) = c"
  "dr_target_id (table_report d c t ids) = t" "dr_candidate_ids (table_report d c t ids) = ids"
  by (simp_all add: table_report_def)

definition product_conflict :: "product_record \<Rightarrow> product_record \<Rightarrow> bool" where
  "product_conflict candidate other \<longleftrightarrow>
     pr_product_id other = pr_product_id candidate \<or> pr_product_key other = pr_product_key candidate
     \<or> pr_product_key candidate \<in> set (pr_aliases other)
     \<or> (pr_canonical_hash candidate \<noteq> None \<and> pr_canonical_hash candidate = pr_canonical_hash other)"

lemma classify_new_product_block:
  "dr_decision (classify_new_product candidate existing sem) = D_BLOCK \<longleftrightarrow>
     (\<exists>other\<in>set existing. product_conflict candidate other)"
proof -
  let ?a = "find (\<lambda>i. pr_product_id i = pr_product_id candidate) existing"
  let ?b = "find (\<lambda>i. pr_product_key i = pr_product_key candidate) existing"
  let ?c = "find (\<lambda>i. pr_product_key candidate \<in> set (pr_aliases i)) existing"
  let ?d = "find (\<lambda>i. pr_canonical_hash candidate \<noteq> None
            \<and> pr_canonical_hash candidate = pr_canonical_hash i) existing"
  have "dr_decision (classify_new_product candidate existing sem) = D_BLOCK \<longleftrightarrow>
      \<not> (?a = None \<and> ?b = None \<and> ?c = None \<and> ?d = None)"
    unfolding classify_new_product_def Let_def by (simp split: option.split)
  also have "\<dots> \<longleftrightarrow> (\<exists>other\<in>set existing. product_conflict candidate other)"
    unfolding find_None_iff_ball product_conflict_def by blast
  finally show ?thesis .
qed

text \<open>A new product is refused exactly when a registered product shares its identifier, its
  key (as key or as alias) or its content hash; otherwise it is created, with a warning exactly
  when the caller supplied look-alike candidates.\<close>

theorem classify_create_verdict:
  "dr_decision (classify_product candidate existing Create sem) =
     (if \<exists>other\<in>set existing. product_conflict candidate other then D_BLOCK
      else if sem \<noteq> [] then D_WARN else D_CREATE)"
proof (cases "\<exists>other\<in>set existing. product_conflict candidate other")
  case True
  then show ?thesis
    by (simp add: classify_product_def flip: classify_new_product_block [of _ _ sem])
next
  case False
  then have "\<forall>i\<in>set existing. \<not> product_conflict candidate i" by blast
  then have "find (\<lambda>i. pr_product_id i = pr_product_id candidate) existing = None"
    "find (\<lambda>i. pr_product_key i = pr_product_key candidate) existing = None"
    "find (\<lambda>i. pr_product_key candidate \<in> set (pr_aliases i)) existing = None"
    "find (\<lambda>i. pr_canonical_hash candidate \<noteq> None
            \<and> pr_canonical_hash candidate = pr_canonical_hash i) existing = None"
    unfolding find_None_iff_ball product_conflict_def by blast+
  then show ?thesis
    using False unfolding classify_product_def classify_new_product_def Let_def by simp
qed

lemma classify_new_product_target:
  assumes "dr_target_id (classify_new_product candidate existing sem) = Some i"
  shows "\<exists>other\<in>set existing. pr_product_id other = i \<and> product_conflict candidate other"
  using assms unfolding classify_new_product_def Let_def product_conflict_def
  by (force dest: find_SomeD split: option.splits if_splits)

text \<open>An update is accepted only against a registered product with the same identifier and key
  whose status is not being resurrected, and NO_CHANGE and UPDATE are told apart by the content
  hash alone.\<close>

theorem classify_update_verdict:
  assumes "operation \<noteq> Create" and "dr_decision (classify_product candidate existing operation sem) \<noteq> D_BLOCK"
  shows "\<exists>m\<in>set existing. pr_product_id m = pr_product_id candidate
    \<and> pr_product_key m = pr_product_key candidate
    \<and> (pr_status m = RETIRED \<longrightarrow> pr_status candidate = RETIRED)
    \<and> dr_decision (classify_product candidate existing operation sem)
        = (if pr_canonical_hash candidate = pr_canonical_hash m then D_NO_CHANGE else D_UPDATE)"
proof -
  let ?r = "classify_existing_product candidate (find (\<lambda>i. pr_product_id i = pr_product_id candidate) existing)"
  from assms have r: "dr_decision ?r \<noteq> D_BLOCK" by (simp add: classify_product_def)
  then obtain m where m: "find (\<lambda>i. pr_product_id i = pr_product_id candidate) existing = Some m"
    by (auto simp: classify_existing_product_def split: option.splits)
  with r assms(1) find_SomeD [OF m] show ?thesis
    by (intro bexI [of _ m])
       (cases "pr_status m"; cases "pr_status candidate";
        simp add: classify_product_def classify_existing_product_def Let_def split: if_splits)+
qed

text \<open>A table record is created without a warning exactly if no registered table has its
  identifier, its locator or (where it has one) its schema hash.\<close>

theorem classify_table_create:
  "dr_decision (classify_table candidate existing) = D_CREATE \<longleftrightarrow>
     (\<forall>t\<in>set existing. tr_table_id t \<noteq> tr_table_id candidate
        \<and> locator_key (tr_locator t) \<noteq> locator_key (tr_locator candidate)
        \<and> (tr_schema_hash candidate = None \<or> tr_schema_hash t \<noteq> tr_schema_hash candidate))"
proof -
  let ?i = "find (\<lambda>i. tr_table_id i = tr_table_id candidate) existing"
  let ?l = "find (\<lambda>i. locator_key (tr_locator i) = locator_key (tr_locator candidate)) existing"
  have "dr_decision (classify_table candidate existing) = D_CREATE \<longleftrightarrow> ?i = None \<and> ?l = None \<and>
     filter (\<lambda>i. tr_schema_hash candidate \<noteq> None \<and> tr_schema_hash candidate = tr_schema_hash i) existing = []"
    unfolding classify_table_def Let_def by (auto split: option.splits)
  also have "\<dots> \<longleftrightarrow> (\<forall>t\<in>set existing. tr_table_id t \<noteq> tr_table_id candidate
        \<and> locator_key (tr_locator t) \<noteq> locator_key (tr_locator candidate)
        \<and> (tr_schema_hash candidate = None \<or> tr_schema_hash t \<noteq> tr_schema_hash candidate))"
    by (auto simp: find_None_iff_ball filter_empty_conv)
  finally show ?thesis .
qed

end
