(* ===== verification/Impact.thy ===== *)
theory Impact
  imports Models
begin

text \<open>
  Shared-table impact and changesets (\<open>impact.py\<close>): which products a table change touches, and
  the changeset record that collects the readiness of every required product. The changeset is
  a small state machine, BLOCKED until exactly the required products are ready.
\<close>

datatype change_set_status = BLOCKED | READY

record impact_report =
  ir_table_id :: string
  ir_required_product_ids :: "string list"
  ir_shared :: bool

record product_readiness =
  rd_version :: int
  rd_pr_number :: int
  rd_head_sha :: string

record change_set_record =
  cs_changeset_id :: string
  cs_table_ids :: "string list"
  cs_required_product_ids :: "string list"
  cs_ready_products :: "(string, product_readiness) dict"

abbreviation ChangeSetId :: "string \<Rightarrow> bool" where "ChangeSetId \<equiv> id_pattern ''cst''"

definition GitCommitSha :: "string \<Rightarrow> bool" where
  "GitCommitSha s \<longleftrightarrow> (length s = 40 \<or> length s = 64) \<and> list_all is_hex s"

definition ProductReadiness :: "int \<Rightarrow> int \<Rightarrow> string \<Rightarrow> product_readiness result" where
  "ProductReadiness v n sha =
     (if Version v \<and> n > 0 \<and> GitCommitSha sha
      then Inr \<lparr>rd_version = v, rd_pr_number = n, rd_head_sha = sha\<rparr> else Inl field_error)"

definition readiness_ok :: "product_readiness \<Rightarrow> bool" where
  "readiness_ok r \<longleftrightarrow> Version (rd_version r) \<and> rd_pr_number r > 0 \<and> GitCommitSha (rd_head_sha r)"

definition change_set_ok :: "change_set_record \<Rightarrow> bool" where
  "change_set_ok c \<longleftrightarrow> ChangeSetId (cs_changeset_id c) \<and> list_all TableId (cs_table_ids c)
     \<and> list_all ProductId (cs_required_product_ids c)
     \<and> list_all (\<lambda>(i, r). ProductId i \<and> readiness_ok r) (cs_ready_products c)"

definition ChangeSetRecord :: "change_set_record \<Rightarrow> change_set_record result" where
  "ChangeSetRecord c = (if change_set_ok c then Inr c else Inl field_error)"

definition change_set_status :: "change_set_record \<Rightarrow> change_set_status" where
  "change_set_status c =
     (if set (dict_keys (cs_ready_products c)) = set (cs_required_product_ids c) then READY else BLOCKED)"

definition mark_ready ::
  "change_set_record \<Rightarrow> string \<Rightarrow> int \<Rightarrow> int \<Rightarrow> string \<Rightarrow> change_set_record result" where
  "mark_ready c product_id version pr_number head_sha =
     (if product_id \<notin> set (cs_required_product_ids c)
      then Inl (ValueError (''product is not required by changeset: '' @ product_id))
      else bind_ok (ProductReadiness version pr_number head_sha) (\<lambda>r.
             Inr (c\<lparr>cs_ready_products := dict_set product_id r (cs_ready_products c)\<rparr>)))"

definition analyze_table_change :: "string \<Rightarrow> product_table_ref list \<Rightarrow> impact_report" where
  "analyze_table_change table_id mappings =
     (let products = sorted_set (map ref_product_id (filter (\<lambda>m. ref_table_id m = table_id) mappings))
      in \<lparr>ir_table_id = table_id, ir_required_product_ids = products, ir_shared = length products > 1\<rparr>)"

text \<open>\<open>changeset_id or new_id("cst")\<close>: an absent or empty identifier is allocated.\<close>

definition build_changeset ::
  "string list \<Rightarrow> string list \<Rightarrow> string option \<Rightarrow> int \<Rightarrow> int \<Rightarrow> change_set_record result" where
  "build_changeset table_ids required changeset_id clock entropy =
     bind_ok (case changeset_id of
                Some i \<Rightarrow> (if i \<noteq> [] then Inr i else new_id ''cst'' None None clock entropy)
              | None \<Rightarrow> new_id ''cst'' None None clock entropy)
       (\<lambda>i. ChangeSetRecord
          \<lparr>cs_changeset_id = i, cs_table_ids = sorted_set table_ids,
           cs_required_product_ids = sorted_set required, cs_ready_products = []\<rparr>)"

section \<open>Impact\<close>

lemma ir_shared_iff:
  "ir_shared (analyze_table_change t ms) \<longleftrightarrow>
     (\<exists>m\<in>set ms. \<exists>m'\<in>set ms. ref_table_id m = t \<and> ref_table_id m' = t \<and> ref_product_id m \<noteq> ref_product_id m')"
proof -
  let ?P = "ref_product_id ` {m \<in> set ms. ref_table_id m = t}"
  have "1 < card ?P \<longleftrightarrow> (\<exists>p\<in>?P. \<exists>q\<in>?P. p \<noteq> q)"
    by (rule one_less_card_iff) simp
  then show ?thesis by (auto simp: analyze_table_change_def Let_def)
qed

text \<open>The impact report lists, sorted and without repetition, the products with a mapping on
  the table, and calls the table shared exactly when two different products map it.\<close>

theorem analyze_table_change_correct:
  "set (ir_required_product_ids (analyze_table_change t ms))
     = {p. \<exists>m\<in>set ms. ref_table_id m = t \<and> ref_product_id m = p}
   \<and> sorted (ir_required_product_ids (analyze_table_change t ms))
   \<and> distinct (ir_required_product_ids (analyze_table_change t ms))
   \<and> (ir_shared (analyze_table_change t ms) \<longleftrightarrow>
       (\<exists>m\<in>set ms. \<exists>m'\<in>set ms. ref_table_id m = t \<and> ref_table_id m' = t
          \<and> ref_product_id m \<noteq> ref_product_id m'))"
  unfolding ir_shared_iff by (auto simp: analyze_table_change_def Let_def)

section \<open>Changesets\<close>

definition change_set_inv :: "change_set_record \<Rightarrow> bool" where
  "change_set_inv c \<longleftrightarrow> change_set_ok c \<and> dict_ok (cs_ready_products c)
     \<and> set (dict_keys (cs_ready_products c)) \<subseteq> set (cs_required_product_ids c)"

lemma ChangeSetRecord_Inr [simp]: "ChangeSetRecord c = Inr d \<longleftrightarrow> change_set_ok c \<and> d = c"
  by (auto simp: ChangeSetRecord_def)

lemma ProductReadiness_Inr [simp]:
  "ProductReadiness v n sha = Inr r \<longleftrightarrow>
     r = \<lparr>rd_version = v, rd_pr_number = n, rd_head_sha = sha\<rparr> \<and> readiness_ok r"
  by (auto simp: ProductReadiness_def readiness_ok_def)

lemma build_changeset_inv: "build_changeset ts ps i clock entropy = Inr c \<Longrightarrow>
    change_set_inv c \<and> cs_ready_products c = [] \<and> cs_required_product_ids c = sorted_set ps"
  by (auto simp: build_changeset_def change_set_inv_def)

lemma mark_ready_inv:
  assumes "change_set_inv c" and "mark_ready c p v n sha = Inr d"
  shows "change_set_inv d \<and> cs_required_product_ids d = cs_required_product_ids c
    \<and> set (dict_keys (cs_ready_products d)) = insert p (set (dict_keys (cs_ready_products c)))
    \<and> p \<in> set (cs_required_product_ids c)"
proof -
  let ?r = "\<lparr>rd_version = v, rd_pr_number = n, rd_head_sha = sha\<rparr>"
  from assms(2) have p: "p \<in> set (cs_required_product_ids c)" and r: "readiness_ok ?r"
    and d: "d = c\<lparr>cs_ready_products := dict_set p ?r (cs_ready_products c)\<rparr>"
    by (auto simp: mark_ready_def split: if_splits)
  from assms(1) p have "ProductId p" by (auto simp: change_set_inv_def change_set_ok_def list_all_iff)
  with assms(1) r dict_set_subset [of p ?r "cs_ready_products c"] have "change_set_ok d"
    unfolding d change_set_inv_def change_set_ok_def list_all_iff by auto
  with assms(1) p show ?thesis
    unfolding d change_set_inv_def dict_keys_set [symmetric] by (simp add: dict_keys_set del: set_map list.set_map)
qed

text \<open>A run of readiness reports, each (product, version, pull request, head).\<close>

definition mark_all ::
  "change_set_record \<Rightarrow> (string \<times> int \<times> int \<times> string) list \<Rightarrow> change_set_record result" where
  "mark_all = fold_ok (\<lambda>c (p, v, n, sha). mark_ready c p v n sha)"

lemma mark_all_inv:
  assumes "change_set_inv c" and "mark_all c reports = Inr d"
  shows "change_set_inv d \<and> cs_required_product_ids d = cs_required_product_ids c
    \<and> set (dict_keys (cs_ready_products d)) = fst ` set reports \<union> set (dict_keys (cs_ready_products c))"
  using assms
proof (induction reports arbitrary: c)
  case (Cons x xs)
  obtain p v n sha where x: "x = (p, v, n, sha)" by (cases x)
  from Cons.prems(2) x obtain c' where c': "mark_ready c p v n sha = Inr c'" and rest: "mark_all c' xs = Inr d"
    by (auto simp: mark_all_def split: sum.splits)
  from mark_ready_inv [OF Cons.prems(1) c'] Cons.IH [OF _ rest] show ?case
    by (simp add: x)
qed (simp add: mark_all_def)

text \<open>A changeset built for a set of products becomes READY after a run of accepted readiness
  reports exactly when every required product has reported, whatever the order and however
  often each reports.\<close>

theorem changeset_ready_iff:
  assumes "build_changeset tables products cid clock entropy = Inr c" and "mark_all c reports = Inr d"
  shows "change_set_status d = READY \<longleftrightarrow> set products \<subseteq> fst ` set reports"
proof -
  from build_changeset_inv [OF assms(1)] have c: "change_set_inv c" "cs_ready_products c = []"
    "cs_required_product_ids c = sorted_set products" by simp_all
  from mark_all_inv [OF c(1) assms(2)] c have keys:
    "set (dict_keys (cs_ready_products d)) = fst ` set reports" and
    req: "cs_required_product_ids d = sorted_set products" and "change_set_inv d"
    by simp_all
  then have "fst ` set reports \<subseteq> set products"
    unfolding change_set_inv_def keys req by simp
  then show ?thesis
    unfolding change_set_status_def keys req by auto
qed

text \<open>A report for a product outside the changeset is refused and names the product; a report
  with a version, pull request number or commit that is not well formed is refused too.\<close>

theorem mark_ready_refuses:
  "(\<exists>e. mark_ready c p v n sha = Inl e) \<longleftrightarrow>
     p \<notin> set (cs_required_product_ids c) \<or> \<not> (Version v \<and> n > 0 \<and> GitCommitSha sha)"
  by (auto simp: mark_ready_def ProductReadiness_def)

end
