(* ===== verification/Samples.thy ===== *)
theory Samples
  imports Identity Impact
begin

text \<open>
  Concrete records for the witnesses: two products, a table with a column, a mapping between
  them and a changeset. Each is shown valid by evaluation.
\<close>

definition uuid_tail :: "string" where
  "uuid_tail = ''01890000-0000-7000-8000-00000000000''"

definition pid1 :: string where "pid1 = ''prd_'' @ uuid_tail @ ''1''"
definition pid2 :: string where "pid2 = ''prd_'' @ uuid_tail @ ''2''"
definition tid1 :: string where "tid1 = ''tbl_'' @ uuid_tail @ ''1''"
definition tid2 :: string where "tid2 = ''tbl_'' @ uuid_tail @ ''2''"
definition cid1 :: string where "cid1 = ''col_'' @ uuid_tail @ ''1''"
definition lid1 :: string where "lid1 = ''lnk_'' @ uuid_tail @ ''1''"
definition csid1 :: string where "csid1 = ''cst_'' @ uuid_tail @ ''1''"
definition sha40 :: string where "sha40 = replicate 40 CHR ''a''"
definition sha64 :: string where "sha64 = replicate 64 CHR ''a''"

lemmas sample_ids = pid1_def pid2_def tid1_def tid2_def cid1_def lid1_def csid1_def uuid_tail_def

definition product1 :: product_record where
  "product1 = \<lparr>pr_product_id = pid1, pr_product_key = ''orders'', pr_version = 1, pr_status = ACTIVE,
     pr_display_name = Some ''Orders'', pr_aliases = [], pr_canonical_hash = Some sha64,
     pr_metrics = [], pr_relationships = []\<rparr>"

definition product2 :: product_record where
  "product2 = \<lparr>pr_product_id = pid2, pr_product_key = ''sales'', pr_version = 1, pr_status = ACTIVE,
     pr_display_name = Some ''Sales'', pr_aliases = [''orders''], pr_canonical_hash = None,
     pr_metrics = [], pr_relationships = []\<rparr>"

definition locator1 :: table_locator where
  "locator1 = \<lparr>source_system_id = ''bq'', catalog = ''main'', schema_name = ''dw'', table_name = ''orders''\<rparr>"

definition table1 :: table_record where
  "table1 = \<lparr>tr_table_id = tid1, tr_locator = locator1, tr_version = 1, tr_status = ACTIVE, tr_aliases = [],
     tr_columns = [\<lparr>cr_column_id = cid1, cr_name = ''id'', cr_aliases = [], cr_status = ACTIVE\<rparr>],
     tr_schema_hash = None, tr_canonical_hash = Some sha64\<rparr>"

definition ref1 :: product_table_ref where
  "ref1 = \<lparr>ref_link_id = lid1, ref_product_id = pid1, ref_table_id = tid1, ref_table_version = 1,
     ref_usage = SOURCE, ref_required = True, ref_semantic_dataset = None\<rparr>"

lemma sample_id_patterns:
  "ProductId pid1" "ProductId pid2" "TableId tid1" "TableId tid2" "ColumnId cid1" "LinkId lid1" "ChangeSetId csid1"
  by code_simp+

lemma sample_ids_distinct: "pid1 \<noteq> pid2" "tid1 \<noteq> tid2"
  by code_simp+

lemma sample_keys: "ProductKey ''orders''" "ProductKey ''sales''"
  by code_simp+

lemma sample_shas: "GitCommitSha sha40" "Sha256 sha64"
  by code_simp+

lemma product1_valid: "ProductRecord product1 = Inr product1"
  by (simp add: ProductRecord_def product_fields_ok_def validate_semantic_objects_def product1_def
      sample_id_patterns sample_keys sample_shas Version_def named_ids_unique_def)

lemma product2_valid: "ProductRecord product2 = Inr product2"
  by (simp add: ProductRecord_def product_fields_ok_def validate_semantic_objects_def product2_def
      sample_id_patterns sample_keys sample_shas Version_def named_ids_unique_def)

lemma locator1_ok: "locator_ok locator1"
  by code_simp

lemma table1_valid: "TableRecord table1 = Inr table1"
proof -
  have "stripped ''id''" by code_simp
  then show ?thesis
    by (simp add: TableRecord_def table_fields_ok_def validate_columns_def table1_def column_ok_def
        sample_id_patterns sample_shas Version_def named_ids_unique_def locator1_ok)
qed

lemma ref1_valid: "ProductTableRef ref1 = Inr ref1"
  by (simp add: ProductTableRef_def ref1_def sample_id_patterns Version_def)

section \<open>The samples under the classification and the changeset rules\<close>

theorem classify_update_verdict_witness:
  "dr_decision (classify_product (product1\<lparr>pr_canonical_hash := None\<rparr>) [product1] Update []) = D_UPDATE"
proof -
  have "dr_decision (classify_product (product1\<lparr>pr_canonical_hash := None\<rparr>) [product1] Update []) \<noteq> D_BLOCK"
    by (simp add: classify_product_def classify_existing_product_def product1_def)
  from classify_update_verdict [OF _ this] show ?thesis by (auto simp: product1_def split: if_splits)
qed

theorem changeset_ready_iff_witness:
  "\<exists>c d. build_changeset [tid1] [pid1] (Some csid1) 0 0 = Inr c
     \<and> mark_all c [(pid1, 1, 7, sha40)] = Inr d \<and> change_set_status d = READY"
proof -
  let ?c = "\<lparr>cs_changeset_id = csid1, cs_table_ids = [tid1], cs_required_product_ids = [pid1], cs_ready_products = []\<rparr>"
  have b: "build_changeset [tid1] [pid1] (Some csid1) 0 0 = Inr ?c"
    using sample_id_patterns by (simp add: build_changeset_def change_set_ok_def sorted_set_def csid1_def)
  moreover have "\<exists>d. mark_all ?c [(pid1, 1, 7, sha40)] = Inr d"
    using sample_shas by (simp add: mark_all_def mark_ready_def ProductReadiness_def Version_def)
  ultimately show ?thesis using changeset_ready_iff [OF b] by fastforce
qed

end
