(* ===== verification/Registry.thy ===== *)
theory Registry
  imports Identity Impact Samples
begin

text \<open>
  The registry (\<open>registry.py\<close>): four dictionaries in memory and one JSON file per entry on disk,
  with two index files. A write checks the identity rules, writes the file, then the memory,
  then the indexes. The disk holds what \<open>model_dump\<close> wrote, so a file's content is the record
  itself, or \<open>Malformed\<close> text; loading validates it again, as \<open>model_validate_json\<close> does.
\<close>

section \<open>State\<close>

datatype 'a json_file = Json 'a | Malformed

record registry_disk =
  dk_products :: "(string, product_record json_file) dict"
  dk_tables :: "(string, table_record json_file) dict"
  dk_mappings :: "(string, product_table_ref list json_file) dict"
  dk_changesets :: "(string, change_set_record json_file) dict"
  dk_product_keys :: "(string, string) dict"
  dk_table_locators :: "(string, string) dict"

record registry =
  rg_products :: "(string, product_record) dict"
  rg_tables :: "(string, table_record) dict"
  rg_mappings :: "(string, product_table_ref list) dict"
  rg_changesets :: "(string, change_set_record) dict"
  rg_disk :: registry_disk

definition empty_registry :: "registry_disk \<Rightarrow> registry" where
  "empty_registry disk =
     \<lparr>rg_products = [], rg_tables = [], rg_mappings = [], rg_changesets = [], rg_disk = disk\<rparr>"

section \<open>Loading\<close>

definition json_name :: "string \<Rightarrow> string" where
  "json_name stem = stem @ ''.json''"

text \<open>\<open>sorted(directory.glob("*.json"))\<close>, with the content of each file.\<close>

definition json_files :: "(string, 'a) dict \<Rightarrow> (string \<times> 'a) list" where
  "json_files dir = sort_key fst (filter (\<lambda>(name, _). ends_with ''.json'' name) dir)"

definition stem :: "string \<Rightarrow> string" where
  "stem name = take (length name - 5) name"

definition load_models :: "('a \<Rightarrow> 'a result) \<Rightarrow> (string, 'a json_file) dict \<Rightarrow> 'a list result" where
  "load_models validate directory =
     traverse (\<lambda>(_, file). case file of
         Malformed \<Rightarrow> Inl (ValidationError ''invalid JSON'') | Json r \<Rightarrow> validate r)
       (json_files directory)"

definition load_mappings ::
  "(string, product_table_ref list json_file) dict \<Rightarrow> (string, product_table_ref list) dict result" where
  "load_mappings directory =
     fold_ok (\<lambda>d (name, file). case file of
         Malformed \<Rightarrow> Inl (ValidationError ''invalid JSON'')
       | Json refs \<Rightarrow> bind_ok (traverse ProductTableRef refs) (\<lambda>rs. Inr (dict_set (stem name) rs d)))
       [] (json_files directory)"

definition load_registry :: "registry_disk \<Rightarrow> registry result" where
  "load_registry disk =
     bind_ok (load_models ProductRecord (dk_products disk)) (\<lambda>products.
     bind_ok (load_models TableRecord (dk_tables disk)) (\<lambda>tables.
     bind_ok (load_mappings (dk_mappings disk)) (\<lambda>mappings.
     bind_ok (load_models ChangeSetRecord (dk_changesets disk)) (\<lambda>changesets.
       Inr \<lparr>rg_products = dict_of pr_product_id id products, rg_tables = dict_of tr_table_id id tables,
            rg_mappings = mappings, rg_changesets = dict_of cs_changeset_id id changesets,
            rg_disk = disk\<rparr>))))"

section \<open>Reading\<close>

definition get_product :: "registry \<Rightarrow> string \<Rightarrow> product_record option" where
  "get_product s i = dict_get (rg_products s) i"

definition get_table :: "registry \<Rightarrow> string \<Rightarrow> table_record option" where
  "get_table s i = dict_get (rg_tables s) i"

definition get_changeset :: "registry \<Rightarrow> string \<Rightarrow> change_set_record option" where
  "get_changeset s i = dict_get (rg_changesets s) i"

definition products :: "registry \<Rightarrow> product_record list" where
  "products s = sorted_values (rg_products s)"

definition tables :: "registry \<Rightarrow> table_record list" where
  "tables s = sorted_values (rg_tables s)"

definition mappings :: "registry \<Rightarrow> product_table_ref list" where
  "mappings s = concat (sorted_values (rg_mappings s))"

section \<open>Writing\<close>

definition write_indexes :: "registry \<Rightarrow> registry" where
  "write_indexes s =
     s\<lparr>rg_disk := (rg_disk s)
        \<lparr>dk_product_keys := dict_of pr_product_key pr_product_id
            (sort_key pr_product_key (dict_values (rg_products s))),
         dk_table_locators := dict_of (\<lambda>t. locator_key (tr_locator t)) tr_table_id
            (sort_key (\<lambda>t. locator_key (tr_locator t)) (dict_values (rg_tables s)))\<rparr>\<rparr>"

definition retired_reuse :: "string \<Rightarrow> entity_status option \<Rightarrow> entity_status \<Rightarrow> unit result" where
  "retired_reuse i previous new =
     (if previous = Some RETIRED \<and> new = ACTIVE
      then Inl (IdentityConflict (''RETIRED_ID_REUSE: '' @ i)) else Inr ())"

definition write_product :: "registry \<Rightarrow> product_record \<Rightarrow> registry result" where
  "write_product s r =
     bind_ok (retired_reuse (pr_product_id r)
                (map_option pr_status (get_product s (pr_product_id r))) (pr_status r)) (\<lambda>_.
     case find (\<lambda>i. pr_product_id i \<noteq> pr_product_id r
                 \<and> (pr_product_key i = pr_product_key r \<or> pr_product_key r \<in> set (pr_aliases i)))
            (dict_values (rg_products s)) of
       Some conflicting \<Rightarrow> Inl (IdentityConflict
         (''PRODUCT_KEY_CONFLICT: '' @ pr_product_key r @ '' -> '' @ pr_product_id conflicting))
     | None \<Rightarrow>
         Inr (write_indexes
           (s\<lparr>rg_disk := (rg_disk s)\<lparr>dk_products :=
                dict_set (json_name (pr_product_id r)) (Json r) (dk_products (rg_disk s))\<rparr>,
              rg_products := dict_set (pr_product_id r) r (rg_products s)\<rparr>)))"

definition write_table :: "registry \<Rightarrow> table_record \<Rightarrow> registry result" where
  "write_table s r =
     bind_ok (retired_reuse (tr_table_id r)
                (map_option tr_status (get_table s (tr_table_id r))) (tr_status r)) (\<lambda>_.
     case find (\<lambda>i. tr_table_id i \<noteq> tr_table_id r
                 \<and> locator_key (tr_locator i) = locator_key (tr_locator r))
            (dict_values (rg_tables s)) of
       Some conflicting \<Rightarrow> Inl (IdentityConflict
         (''TABLE_LOCATOR_CONFLICT: '' @ locator_key (tr_locator r) @ '' -> '' @ tr_table_id conflicting))
     | None \<Rightarrow>
         Inr (write_indexes
           (s\<lparr>rg_disk := (rg_disk s)\<lparr>dk_tables :=
                dict_set (json_name (tr_table_id r)) (Json r) (dk_tables (rg_disk s))\<rparr>,
              rg_tables := dict_set (tr_table_id r) r (rg_tables s)\<rparr>)))"

definition check_ref :: "registry \<Rightarrow> string \<Rightarrow> product_table_ref \<Rightarrow> unit result" where
  "check_ref s product_id m =
     (if ref_product_id m \<noteq> product_id
      then Inl (IdentityConflict (''MAPPING_PRODUCT_MISMATCH: '' @ ref_product_id m @ '' != '' @ product_id))
      else case get_table s (ref_table_id m) of
          None \<Rightarrow> Inl (IdentityConflict (''MAPPING_TABLE_NOT_FOUND: '' @ ref_table_id m))
        | Some t \<Rightarrow>
            (if ref_table_version m \<noteq> tr_version t
             then Inl (IdentityConflict (''MAPPING_TABLE_VERSION_MISMATCH: '' @ ref_table_id m))
             else Inr ()))"

definition write_mappings :: "registry \<Rightarrow> string \<Rightarrow> product_table_ref list \<Rightarrow> registry result" where
  "write_mappings s product_id refs =
     (if get_product s product_id = None
      then Inl (IdentityConflict (''MAPPING_PRODUCT_NOT_FOUND: '' @ product_id))
      else
        let records = sort_key ref_link_id refs
        in bind_ok (fold_ok (\<lambda>_ m. check_ref s product_id m) () records) (\<lambda>_.
             Inr (s\<lparr>rg_disk := (rg_disk s)\<lparr>dk_mappings :=
                      dict_set (json_name product_id) (Json records) (dk_mappings (rg_disk s))\<rparr>,
                    rg_mappings := dict_set product_id records (rg_mappings s)\<rparr>)))"

definition write_changeset :: "registry \<Rightarrow> change_set_record \<Rightarrow> registry" where
  "write_changeset s r =
     s\<lparr>rg_disk := (rg_disk s)\<lparr>dk_changesets :=
          dict_set (json_name (cs_changeset_id r)) (Json r) (dk_changesets (rg_disk s))\<rparr>,
       rg_changesets := dict_set (cs_changeset_id r) r (rg_changesets s)\<rparr>"

section \<open>The contract of a versioned store\<close>

text \<open>
  Products and tables live in the same registry under the same rules. The client's view of
  either is a lookup by identifier and a checked write; the laws are what the registry promises
  of them, and the lemmas in the locale are what follows for any sequence of writes.
\<close>

locale record_store =
  fixes lookup :: "'s \<Rightarrow> string \<Rightarrow> 'r option"
    and store :: "'s \<Rightarrow> 'r \<Rightarrow> 's result"
    and ident :: "'r \<Rightarrow> string"
    and natural_key :: "'r \<Rightarrow> string"
    and status :: "'r \<Rightarrow> entity_status"
    and invar :: "'s \<Rightarrow> bool"
    and valid :: "'r \<Rightarrow> bool"
  assumes store_lookup: "store s r = Inr s' \<Longrightarrow> lookup s' = (lookup s)(ident r \<mapsto> r)"
    and store_invar: "invar s \<Longrightarrow> valid r \<Longrightarrow> store s r = Inr s' \<Longrightarrow> invar s'"
    and store_status: "store s r = Inr s' \<Longrightarrow> lookup s (ident r) = Some q \<Longrightarrow> status q = RETIRED
          \<Longrightarrow> status r = RETIRED"
    and lookup_ident: "invar s \<Longrightarrow> lookup s i = Some r \<Longrightarrow> ident r = i"
    and key_unique: "invar s \<Longrightarrow> lookup s i = Some r \<Longrightarrow> lookup s j = Some q
          \<Longrightarrow> natural_key r = natural_key q \<Longrightarrow> i = j"
begin

lemma store_all_lookup:
  assumes "fold_ok store s rs = Inr s'"
  shows "lookup s' i = (case find (\<lambda>r. ident r = i) (rev rs) of Some r \<Rightarrow> Some r | None \<Rightarrow> lookup s i)"
proof -
  have "fold_ok store s rs = Inr s' \<Longrightarrow> ?thesis"
  proof (induction rs arbitrary: s' rule: rev_induct)
    case (snoc r rs)
    from snoc.prems obtain t where t: "fold_ok store s rs = Inr t" and "store t r = Inr s'"
      by (auto simp: fold_ok_snoc)
    with store_lookup [of t r s'] snoc.IH [OF t] show ?case by auto
  qed simp
  with assms show ?thesis by blast
qed

lemma store_all_invar:
  assumes "fold_ok store s rs = Inr s'" and "invar s" and "\<forall>r\<in>set rs. valid r"
  shows "invar s'"
  using assms(1,2) by (rule fold_ok_invariant) (use assms(3) store_invar in blast)

lemma store_all_keys:
  assumes "fold_ok store s rs = Inr s'" and "invar s" and "\<forall>r\<in>set rs. valid r"
    and "lookup s' i = Some r" and "lookup s' j = Some q" and "natural_key r = natural_key q"
  shows "i = j"
  using key_unique [OF store_all_invar [OF assms(1-3)] assms(4-6)] .

lemma store_all_retired:
  assumes "fold_ok store s rs = Inr s'" and "lookup s i = Some q" and "status q = RETIRED"
  shows "\<exists>q'. lookup s' i = Some q' \<and> status q' = RETIRED"
proof -
  let ?P = "\<lambda>t. \<exists>q'. lookup t i = Some q' \<and> status q' = RETIRED"
  have "?P s" using assms by blast
  with assms(1) show ?thesis
  proof (rule fold_ok_invariant [where P = ?P])
    fix t r t'
    assume "?P t" and "store t r = Inr t'"
    then show "?P t'"
      using store_lookup [of t r t'] store_status [of t r t'] by (cases "ident r = i") auto
  qed
qed

end

section \<open>The registry invariant\<close>

text \<open>
  A keyed dictionary: every entry is stored under its own identifier, is valid, and no two
  entries share the natural key (the product key, or the key of the table locator).
\<close>

definition keyed :: "('r \<Rightarrow> string) \<Rightarrow> ('r \<Rightarrow> string) \<Rightarrow> ('r \<Rightarrow> bool) \<Rightarrow> (string, 'r) dict \<Rightarrow> bool" where
  "keyed ident key valid d \<longleftrightarrow>
     dict_ok d \<and> (\<forall>i r. dict_get d i = Some r \<longrightarrow> ident r = i \<and> valid r)
     \<and> (\<forall>i j r q. dict_get d i = Some r \<longrightarrow> dict_get d j = Some q \<longrightarrow> key r = key q \<longrightarrow> i = j)"

text \<open>The files of a directory are exactly the entries in memory.\<close>

definition on_disk :: "(string, 'r) dict \<Rightarrow> (string, 'r json_file) dict \<Rightarrow> bool" where
  "on_disk mem disk \<longleftrightarrow> dict_ok disk
     \<and> (\<forall>name file. dict_get disk name = Some file \<longleftrightarrow>
          (\<exists>i r. dict_get mem i = Some r \<and> name = json_name i \<and> file = Json r))"

definition valid_product :: "product_record \<Rightarrow> bool" where
  "valid_product r \<longleftrightarrow> ProductRecord r = Inr r"

definition valid_table :: "table_record \<Rightarrow> bool" where
  "valid_table r \<longleftrightarrow> TableRecord r = Inr r"

abbreviation table_key :: "table_record \<Rightarrow> string" where
  "table_key t \<equiv> locator_key (tr_locator t)"

definition valid_ref :: "product_table_ref \<Rightarrow> bool" where
  "valid_ref m \<longleftrightarrow> ProductTableRef m = Inr m"

definition refs_ok :: "registry \<Rightarrow> bool" where
  "refs_ok s \<longleftrightarrow> dict_ok (rg_mappings s)
     \<and> (\<forall>p ms. dict_get (rg_mappings s) p = Some ms \<longrightarrow>
          get_product s p \<noteq> None \<and> (\<forall>m\<in>set ms. valid_ref m \<and> ref_product_id m = p
             \<and> get_table s (ref_table_id m) \<noteq> None))"

definition reg_inv :: "registry \<Rightarrow> bool" where
  "reg_inv s \<longleftrightarrow>
     keyed pr_product_id pr_product_key valid_product (rg_products s)
     \<and> keyed tr_table_id table_key valid_table (rg_tables s)
     \<and> keyed cs_changeset_id cs_changeset_id change_set_ok (rg_changesets s)
     \<and> refs_ok s
     \<and> on_disk (rg_products s) (dk_products (rg_disk s))
     \<and> on_disk (rg_tables s) (dk_tables (rg_disk s))
     \<and> on_disk (rg_mappings s) (dk_mappings (rg_disk s))
     \<and> on_disk (rg_changesets s) (dk_changesets (rg_disk s))"

lemmas registry_reads = get_product_def get_table_def get_changeset_def

lemma keyed_set:
  assumes "keyed ident key valid d" and "valid r"
    and "\<forall>q\<in>set (dict_values d). ident q \<noteq> ident r \<longrightarrow> key q \<noteq> key r"
  shows "keyed ident key valid (dict_set (ident r) r d)"
proof -
  have "key q \<noteq> key r" if "dict_get d j = Some q" "j \<noteq> ident r" for j q
    using assms that unfolding keyed_def by (metis dict_get_values)
  then show ?thesis
    using assms(1,2) unfolding keyed_def by (auto split: if_splits) metis+
qed

lemma json_name_inj [simp]: "json_name i = json_name j \<longleftrightarrow> i = j"
  by (simp add: json_name_def)

lemma on_disk_set:
  "on_disk mem disk \<Longrightarrow> on_disk (dict_set i r mem) (dict_set (json_name i) (Json r) disk)"
  unfolding on_disk_def by (auto split: if_splits)

lemma refs_ok_mono:
  "refs_ok s \<Longrightarrow> rg_mappings s' = rg_mappings s
    \<Longrightarrow> \<forall>i. get_product s i \<noteq> None \<longrightarrow> get_product s' i \<noteq> None
    \<Longrightarrow> \<forall>i. get_table s i \<noteq> None \<longrightarrow> get_table s' i \<noteq> None \<Longrightarrow> refs_ok s'"
  unfolding refs_ok_def by (auto; metis)

lemma retired_reuse_Inr [simp]: "retired_reuse i p n = Inr u \<longleftrightarrow> \<not> (p = Some RETIRED \<and> n = ACTIVE)"
  by (auto simp: retired_reuse_def)

lemma write_product_Inr:
  assumes "write_product s r = Inr s'"
  shows "s' = write_indexes
           (s\<lparr>rg_disk := (rg_disk s)\<lparr>dk_products :=
                dict_set (json_name (pr_product_id r)) (Json r) (dk_products (rg_disk s))\<rparr>,
              rg_products := dict_set (pr_product_id r) r (rg_products s)\<rparr>)"
    and "\<forall>q\<in>set (dict_values (rg_products s)). pr_product_id q \<noteq> pr_product_id r \<longrightarrow>
           pr_product_key q \<noteq> pr_product_key r \<and> pr_product_key r \<notin> set (pr_aliases q)"
    and "\<forall>q. get_product s (pr_product_id r) = Some q \<longrightarrow> pr_status q = RETIRED \<longrightarrow> pr_status r = RETIRED"
  using assms
  by (auto simp: write_product_def find_None_iff_ball split: option.splits)
     (metis entity_status.exhaust)+

lemma write_table_Inr:
  assumes "write_table s r = Inr s'"
  shows "s' = write_indexes
           (s\<lparr>rg_disk := (rg_disk s)\<lparr>dk_tables :=
                dict_set (json_name (tr_table_id r)) (Json r) (dk_tables (rg_disk s))\<rparr>,
              rg_tables := dict_set (tr_table_id r) r (rg_tables s)\<rparr>)"
    and "\<forall>q\<in>set (dict_values (rg_tables s)). tr_table_id q \<noteq> tr_table_id r \<longrightarrow> table_key q \<noteq> table_key r"
    and "\<forall>q. get_table s (tr_table_id r) = Some q \<longrightarrow> tr_status q = RETIRED \<longrightarrow> tr_status r = RETIRED"
  using assms
  by (auto simp: write_table_def find_None_iff_ball split: option.splits)
     (metis entity_status.exhaust)+

lemma write_indexes_frame [simp]:
  "rg_products (write_indexes s) = rg_products s" "rg_tables (write_indexes s) = rg_tables s"
  "rg_mappings (write_indexes s) = rg_mappings s" "rg_changesets (write_indexes s) = rg_changesets s"
  "dk_products (rg_disk (write_indexes s)) = dk_products (rg_disk s)"
  "dk_tables (rg_disk (write_indexes s)) = dk_tables (rg_disk s)"
  "dk_mappings (rg_disk (write_indexes s)) = dk_mappings (rg_disk s)"
  "dk_changesets (rg_disk (write_indexes s)) = dk_changesets (rg_disk s)"
  by (simp_all add: write_indexes_def)

lemma write_product_frame:
  assumes "write_product s r = Inr s'"
  shows "rg_products s' = dict_set (pr_product_id r) r (rg_products s)" "rg_tables s' = rg_tables s"
  by (simp_all add: write_product_Inr(1) [OF assms])

lemma write_table_frame:
  assumes "write_table s r = Inr s'"
  shows "rg_tables s' = dict_set (tr_table_id r) r (rg_tables s)" "rg_products s' = rg_products s"
  by (simp_all add: write_table_Inr(1) [OF assms])

lemma write_product_inv:
  assumes "reg_inv s" and "valid_product r" and "write_product s r = Inr s'"
  shows "reg_inv s'"
proof -
  note w = write_product_Inr [OF assms(3)]
  have "keyed pr_product_id pr_product_key valid_product (dict_set (pr_product_id r) r (rg_products s))"
    using assms(1,2) w(2) by (intro keyed_set) (auto simp: reg_inv_def)
  moreover have "refs_ok s'"
    by (rule refs_ok_mono [of s]) (use assms(1) w(1) in \<open>auto simp: reg_inv_def registry_reads\<close>)
  ultimately show ?thesis
    using assms(1) by (simp add: w(1) reg_inv_def on_disk_set)
qed

lemma write_table_inv:
  assumes "reg_inv s" and "valid_table r" and "write_table s r = Inr s'"
  shows "reg_inv s'"
proof -
  note w = write_table_Inr [OF assms(3)]
  have "keyed tr_table_id table_key valid_table (dict_set (tr_table_id r) r (rg_tables s))"
    using assms(1,2) w(2) by (intro keyed_set) (auto simp: reg_inv_def)
  moreover have "refs_ok s'"
    by (rule refs_ok_mono [of s]) (use assms(1) w(1) in \<open>auto simp: reg_inv_def registry_reads\<close>)
  ultimately show ?thesis
    using assms(1) by (simp add: w(1) reg_inv_def on_disk_set)
qed

lemma check_ref_Inr:
  "check_ref s p m = Inr u \<longleftrightarrow> ref_product_id m = p
     \<and> map_option tr_version (get_table s (ref_table_id m)) = Some (ref_table_version m)"
  by (cases "get_table s (ref_table_id m)") (auto simp: check_ref_def)

lemma fold_check_Inr:
  "fold_ok (\<lambda>_ m. check m) () ms = Inr u \<longleftrightarrow> (\<forall>m\<in>set ms. check m = Inr ())"
  by (induction ms) (auto split: sum.splits)

lemma write_mappings_Inr_iff:
  "write_mappings s p ms = Inr s' \<longleftrightarrow>
     get_product s p \<noteq> None
     \<and> (\<forall>m\<in>set ms. ref_product_id m = p
          \<and> map_option tr_version (get_table s (ref_table_id m)) = Some (ref_table_version m))
     \<and> s' = s\<lparr>rg_disk := (rg_disk s)\<lparr>dk_mappings :=
                dict_set (json_name p) (Json (sort_key ref_link_id ms)) (dk_mappings (rg_disk s))\<rparr>,
              rg_mappings := dict_set p (sort_key ref_link_id ms) (rg_mappings s)\<rparr>"
  by (auto simp: write_mappings_def Let_def fold_check_Inr check_ref_Inr)

lemma write_mappings_inv:
  assumes "reg_inv s" and "\<forall>m\<in>set ms. valid_ref m" and "write_mappings s p ms = Inr s'"
  shows "reg_inv s'"
proof -
  from assms(3) have p: "get_product s p \<noteq> None"
    and m: "\<forall>m\<in>set ms. ref_product_id m = p \<and> get_table s (ref_table_id m) \<noteq> None"
    and s': "s' = s\<lparr>rg_disk := (rg_disk s)\<lparr>dk_mappings :=
                dict_set (json_name p) (Json (sort_key ref_link_id ms)) (dk_mappings (rg_disk s))\<rparr>,
              rg_mappings := dict_set p (sort_key ref_link_id ms) (rg_mappings s)\<rparr>"
    by (auto simp: write_mappings_Inr_iff)
  have "refs_ok s'"
    using assms(1,2) p m unfolding reg_inv_def refs_ok_def s' by (auto simp: registry_reads)
  then show ?thesis using assms(1) by (simp add: s' reg_inv_def on_disk_set)
qed

lemma write_changeset_inv:
  assumes "reg_inv s" and "change_set_ok r"
  shows "reg_inv (write_changeset s r)"
proof -
  have "keyed cs_changeset_id cs_changeset_id change_set_ok
      (dict_set (cs_changeset_id r) r (rg_changesets s))"
    using assms by (intro keyed_set) (auto simp: reg_inv_def)
  moreover have "refs_ok (write_changeset s r)"
    by (rule refs_ok_mono [of s])
       (use assms in \<open>auto simp: reg_inv_def write_changeset_def registry_reads\<close>)
  ultimately show ?thesis
    using assms(1) by (simp add: write_changeset_def reg_inv_def on_disk_set)
qed

lemma keyed_lookup: "keyed ident key valid d \<Longrightarrow> dict_get d i = Some r \<Longrightarrow> ident r = i \<and> valid r"
  by (auto simp: keyed_def)

lemma keyed_unique: "keyed ident key valid d \<Longrightarrow> dict_get d i = Some r \<Longrightarrow> dict_get d j = Some q
    \<Longrightarrow> key r = key q \<Longrightarrow> i = j"
  unfolding keyed_def by blast

interpretation product_store: record_store get_product write_product pr_product_id pr_product_key
  pr_status reg_inv valid_product
proof unfold_locales
  show "get_product s' = (get_product s)(pr_product_id r \<mapsto> r)" if "write_product s r = Inr s'" for s r s'
    using write_product_Inr(1) [OF that] by (simp add: registry_reads fun_eq_iff)
  show "reg_inv s'" if "reg_inv s" "valid_product r" "write_product s r = Inr s'" for s r s'
    using that by (rule write_product_inv)
  show "pr_status r = RETIRED" if "write_product s r = Inr s'" "get_product s (pr_product_id r) = Some q"
    "pr_status q = RETIRED" for s r s' q
    using write_product_Inr(3) [OF that(1)] that(2,3) by blast
  show "pr_product_id r = i" if "reg_inv s" "get_product s i = Some r" for s i r
    using that by (simp add: reg_inv_def registry_reads keyed_def)
  show "i = j" if "reg_inv s" "get_product s i = Some r" "get_product s j = Some q"
    "pr_product_key r = pr_product_key q" for s i r j q
    using that unfolding reg_inv_def registry_reads by (blast intro: keyed_unique)
qed

interpretation table_store: record_store get_table write_table tr_table_id table_key
  tr_status reg_inv valid_table
proof unfold_locales
  show "get_table s' = (get_table s)(tr_table_id r \<mapsto> r)" if "write_table s r = Inr s'" for s r s'
    using write_table_Inr(1) [OF that] by (simp add: registry_reads fun_eq_iff)
  show "reg_inv s'" if "reg_inv s" "valid_table r" "write_table s r = Inr s'" for s r s'
    using that by (rule write_table_inv)
  show "tr_status r = RETIRED" if "write_table s r = Inr s'" "get_table s (tr_table_id r) = Some q"
    "tr_status q = RETIRED" for s r s' q
    using write_table_Inr(3) [OF that(1)] that(2,3) by blast
  show "tr_table_id r = i" if "reg_inv s" "get_table s i = Some r" for s i r
    using that by (simp add: reg_inv_def registry_reads keyed_def)
  show "i = j" if "reg_inv s" "get_table s i = Some r" "get_table s j = Some q"
    "table_key r = table_key q" for s i r j q
    using that unfolding reg_inv_def registry_reads by (blast intro: keyed_unique)
qed

lemma empty_inv: "reg_inv (empty_registry \<lparr>dk_products = [], dk_tables = [], dk_mappings = [],
    dk_changesets = [], dk_product_keys = [], dk_table_locators = []\<rparr>)"
  by (simp add: reg_inv_def empty_registry_def keyed_def refs_ok_def on_disk_def registry_reads)

section \<open>Loading what was written\<close>

lemma ends_with_json_name [simp]: "ends_with ''.json'' (json_name i)"
  by (simp add: ends_with_def json_name_def starts_with_def)

lemma stem_json_name [simp]: "stem (json_name i) = i"
  by (simp add: stem_def json_name_def)

lemma on_disk_files:
  assumes "on_disk mem disk" and "dict_ok mem"
  shows "set (json_files disk) = (\<lambda>(i, r). (json_name i, Json r)) ` set mem"
    and "distinct (map fst (json_files disk))"
proof -
  have "x \<in> set disk \<longleftrightarrow> x \<in> (\<lambda>(i, r). (json_name i, Json r)) ` set mem" for x
    using assms unfolding on_disk_def by (cases x) (force simp flip: dict_get_in)
  then have eq: "set disk = (\<lambda>(i, r). (json_name i, Json r)) ` set mem" by blast
  then show "set (json_files disk) = (\<lambda>(i, r). (json_name i, Json r)) ` set mem"
    by (auto simp: json_files_def)
  have "distinct (map fst disk)" using assms(1) by (simp add: on_disk_def dict_ok_def)
  then show "distinct (map fst (json_files disk))"
    by (auto simp: json_files_def distinct_map intro: inj_on_subset)
qed

fun file_content :: "'a json_file \<Rightarrow> 'a" where
  "file_content (Json r) = r"
| "file_content Malformed = undefined"

lemma on_disk_entry:
  assumes "on_disk mem disk" and "dict_ok mem" and "x \<in> set (json_files disk)"
  shows "\<exists>i r. x = (json_name i, Json r) \<and> dict_get mem i = Some r"
  using assms on_disk_files(1) [OF assms(1,2)] by (auto simp: dict_get_in)

lemma on_disk_covered:
  assumes "on_disk mem disk" and "dict_ok mem" and "dict_get mem i = Some r"
  shows "(json_name i, Json r) \<in> set (json_files disk)"
  using assms on_disk_files(1) [OF assms(1,2)] by (force simp: dict_get_in)

lemma load_models_written:
  assumes k: "keyed ident key valid mem" and d: "on_disk mem disk"
    and v: "\<And>r. valid r \<Longrightarrow> validate r = Inr r"
  shows "\<exists>rs. load_models validate disk = Inr rs \<and> dict_get (dict_of ident id rs) = dict_get mem"
proof -
  let ?F = "json_files disk"
  let ?rs = "map (\<lambda>x. file_content (snd x)) ?F"
  from k have ok: "dict_ok mem" by (simp add: keyed_def)
  note entry = on_disk_entry [OF d ok]
  have "load_models validate disk = Inr ?rs"
    unfolding load_models_def
  proof (rule traverse_all, rule ballI)
    fix x assume "x \<in> set ?F"
    with entry obtain i r where "x = (json_name i, Json r)" "dict_get mem i = Some r" by blast
    with keyed_lookup [OF k] v show "(case x of (_, file) \<Rightarrow> case file of
        Malformed \<Rightarrow> Inl (ValidationError ''invalid JSON'') | Json r \<Rightarrow> validate r)
      = Inr (file_content (snd x))" by simp
  qed
  moreover have "dict_get (dict_of ident id ?rs) = dict_get mem"
  proof (rule dict_get_of_eq)
    have "map fst ?F = map json_name (map ident ?rs)"
      using entry keyed_lookup [OF k] by fastforce
    with on_disk_files(2) [OF d ok] show "distinct (map ident ?rs)" by (metis distinct_map)
    show "dict_get mem (ident r) = Some (id r)" if "r \<in> set ?rs" for r
      using that entry keyed_lookup [OF k] by fastforce
    show "i \<in> ident ` set ?rs" if "dict_get mem i \<noteq> None" for i
      using that on_disk_covered [OF d ok, of i] keyed_lookup [OF k, of i] by force
  qed
  ultimately show ?thesis by blast
qed

lemma load_mappings_written:
  assumes ok: "dict_ok mem" and d: "on_disk mem disk"
    and v: "\<And>i ms. dict_get mem i = Some ms \<Longrightarrow> \<forall>m\<in>set ms. valid_ref m"
  shows "\<exists>e. load_mappings disk = Inr e \<and> dict_ok e \<and> dict_get e = dict_get mem"
proof -
  let ?F = "json_files disk"
  note entry = on_disk_entry [OF d ok]
  have step: "\<forall>x\<in>set ?F. \<forall>e. (case x of (name, file) \<Rightarrow> (case file of
         Malformed \<Rightarrow> Inl (ValidationError ''invalid JSON'')
       | Json refs \<Rightarrow> bind_ok (traverse ProductTableRef refs) (\<lambda>rs. Inr (dict_set (stem name) rs e))))
      = Inr (dict_set (stem (fst x)) (file_content (snd x)) e)"
  proof (intro ballI allI)
    fix x e assume "x \<in> set ?F"
    with entry obtain i ms where "x = (json_name i, Json ms)" "dict_get mem i = Some ms" by blast
    with v have "x = (json_name i, Json ms)" "traverse ProductTableRef ms = Inr ms"
      using traverse_all [of ms ProductTableRef id] by (auto simp: valid_ref_def)
    then show "(case x of (name, file) \<Rightarrow> (case file of
         Malformed \<Rightarrow> Inl (ValidationError ''invalid JSON'')
       | Json refs \<Rightarrow> bind_ok (traverse ProductTableRef refs) (\<lambda>rs. Inr (dict_set (stem name) rs e))))
      = Inr (dict_set (stem (fst x)) (file_content (snd x)) e)" by simp
  qed
  let ?e = "dict_of (\<lambda>x. stem (fst x)) (\<lambda>x. file_content (snd x)) ?F"
  have "load_mappings disk = Inr ?e"
    unfolding load_mappings_def dict_of_def
    using fold_ok_all [OF step, of "[]"] by (simp add: case_prod_beta')
  moreover have "dict_get ?e = dict_get mem"
  proof (rule dict_get_of_eq)
    have "map fst ?F = map json_name (map (\<lambda>x. stem (fst x)) ?F)"
      using entry by fastforce
    with on_disk_files(2) [OF d ok] show "distinct (map (\<lambda>x. stem (fst x)) ?F)"
      by (metis distinct_map)
    show "dict_get mem (stem (fst x)) = Some (file_content (snd x))" if "x \<in> set ?F" for x
      using entry [OF that] by auto
    show "i \<in> (\<lambda>x. stem (fst x)) ` set ?F" if "dict_get mem i \<noteq> None" for i
      using that on_disk_covered [OF d ok, of i] by force
  qed
  ultimately show ?thesis by auto
qed

text \<open>Whatever satisfies the invariant is loaded back as it is, in the same enumeration order.\<close>

lemma registry_reload:
  assumes "reg_inv s"
  shows "\<exists>t. load_registry (rg_disk s) = Inr t \<and> get_product t = get_product s
    \<and> get_table t = get_table s \<and> get_changeset t = get_changeset s
    \<and> dict_get (rg_mappings t) = dict_get (rg_mappings s)
    \<and> products t = products s \<and> tables t = tables s \<and> mappings t = mappings s"
proof -
  from assms have p: "keyed pr_product_id pr_product_key valid_product (rg_products s)"
    and t: "keyed tr_table_id table_key valid_table (rg_tables s)"
    and c: "keyed cs_changeset_id cs_changeset_id change_set_ok (rg_changesets s)"
    and m: "refs_ok s"
    and d: "on_disk (rg_products s) (dk_products (rg_disk s))" "on_disk (rg_tables s) (dk_tables (rg_disk s))"
      "on_disk (rg_mappings s) (dk_mappings (rg_disk s))"
      "on_disk (rg_changesets s) (dk_changesets (rg_disk s))"
    by (simp_all add: reg_inv_def)
  from load_models_written [OF p d(1), of ProductRecord] obtain ps
    where ps: "load_models ProductRecord (dk_products (rg_disk s)) = Inr ps"
      "dict_get (dict_of pr_product_id id ps) = dict_get (rg_products s)" by (auto simp: valid_product_def)
  from load_models_written [OF t d(2), of TableRecord] obtain ts
    where ts: "load_models TableRecord (dk_tables (rg_disk s)) = Inr ts"
      "dict_get (dict_of tr_table_id id ts) = dict_get (rg_tables s)" by (auto simp: valid_table_def)
  from load_models_written [OF c d(4), of ChangeSetRecord] obtain cs
    where cs: "load_models ChangeSetRecord (dk_changesets (rg_disk s)) = Inr cs"
      "dict_get (dict_of cs_changeset_id id cs) = dict_get (rg_changesets s)" by auto
  have "\<exists>e. load_mappings (dk_mappings (rg_disk s)) = Inr e \<and> dict_ok e
      \<and> dict_get e = dict_get (rg_mappings s)"
    by (rule load_mappings_written [OF _ d(3)]) (use m in \<open>auto simp: refs_ok_def\<close>)
  then obtain ms
    where ms: "load_mappings (dk_mappings (rg_disk s)) = Inr ms" "dict_ok ms"
      "dict_get ms = dict_get (rg_mappings s)" by blast
  let ?t = "\<lparr>rg_products = dict_of pr_product_id id ps, rg_tables = dict_of tr_table_id id ts,
    rg_mappings = ms, rg_changesets = dict_of cs_changeset_id id cs, rg_disk = rg_disk s\<rparr>"
  have "load_registry (rg_disk s) = Inr ?t"
    by (simp add: load_registry_def ps ts ms cs)
  moreover have "sorted_values (dict_of pr_product_id id ps) = sorted_values (rg_products s)"
    "sorted_values (dict_of tr_table_id id ts) = sorted_values (rg_tables s)"
    "sorted_values ms = sorted_values (rg_mappings s)"
    using p t m ps ts ms by (auto intro!: sorted_values_cong simp: keyed_def refs_ok_def)
  ultimately show ?thesis
    by (auto simp: registry_reads products_def tables_def mappings_def ps ts ms cs)
qed

section \<open>Histories of all four writes\<close>

text \<open>
  A registry starts empty on an empty directory and is changed by its four write operations only.
  A history is a sequence of them; what it has written is read off the sequence itself, without
  looking at the registry's memory or its files.
\<close>

datatype registry_write =
    Put_Product product_record
  | Put_Table table_record
  | Put_Mappings string "product_table_ref list"
  | Put_Changeset change_set_record

definition empty_disk :: registry_disk where
  "empty_disk = \<lparr>dk_products = [], dk_tables = [], dk_mappings = [], dk_changesets = [],
     dk_product_keys = [], dk_table_locators = []\<rparr>"

fun apply_write :: "registry \<Rightarrow> registry_write \<Rightarrow> registry result" where
  "apply_write s (Put_Product r) = write_product s r"
| "apply_write s (Put_Table r) = write_table s r"
| "apply_write s (Put_Mappings p ms) = write_mappings s p ms"
| "apply_write s (Put_Changeset r) = Inr (write_changeset s r)"

fun valid_write :: "registry_write \<Rightarrow> bool" where
  "valid_write (Put_Product r) \<longleftrightarrow> valid_product r"
| "valid_write (Put_Table r) \<longleftrightarrow> valid_table r"
| "valid_write (Put_Mappings p ms) \<longleftrightarrow> (\<forall>m\<in>set ms. valid_ref m)"
| "valid_write (Put_Changeset r) \<longleftrightarrow> change_set_ok r"

text \<open>What a history leaves under an identifier: the argument of the last write to it.\<close>

definition written_products :: "registry_write list \<Rightarrow> string \<Rightarrow> product_record option" where
  "written_products ws =
     foldl (\<lambda>m w. case w of Put_Product r \<Rightarrow> m(pr_product_id r \<mapsto> r) | _ \<Rightarrow> m) Map.empty ws"

definition written_tables :: "registry_write list \<Rightarrow> string \<Rightarrow> table_record option" where
  "written_tables ws =
     foldl (\<lambda>m w. case w of Put_Table r \<Rightarrow> m(tr_table_id r \<mapsto> r) | _ \<Rightarrow> m) Map.empty ws"

definition written_mappings :: "registry_write list \<Rightarrow> string \<Rightarrow> product_table_ref list option" where
  "written_mappings ws =
     foldl (\<lambda>m w. case w of Put_Mappings p rs \<Rightarrow> m(p \<mapsto> sort_key ref_link_id rs) | _ \<Rightarrow> m) Map.empty ws"

definition written_changesets :: "registry_write list \<Rightarrow> string \<Rightarrow> change_set_record option" where
  "written_changesets ws =
     foldl (\<lambda>m w. case w of Put_Changeset r \<Rightarrow> m(cs_changeset_id r \<mapsto> r) | _ \<Rightarrow> m) Map.empty ws"

lemmas written_defs = written_products_def written_tables_def written_mappings_def
  written_changesets_def

lemma apply_write_inv: "reg_inv s \<Longrightarrow> valid_write w \<Longrightarrow> apply_write s w = Inr s' \<Longrightarrow> reg_inv s'"
  by (cases w) (auto intro: write_product_inv write_table_inv write_mappings_inv write_changeset_inv)

lemma write_product_reads:
  assumes "write_product s r = Inr s'"
  shows "get_product s' = (get_product s)(pr_product_id r \<mapsto> r)" "get_table s' = get_table s"
    "dict_get (rg_mappings s') = dict_get (rg_mappings s)" "get_changeset s' = get_changeset s"
  by (simp_all add: write_product_Inr(1) [OF assms] registry_reads fun_eq_iff)

lemma write_table_reads:
  assumes "write_table s r = Inr s'"
  shows "get_table s' = (get_table s)(tr_table_id r \<mapsto> r)" "get_product s' = get_product s"
    "dict_get (rg_mappings s') = dict_get (rg_mappings s)" "get_changeset s' = get_changeset s"
  by (simp_all add: write_table_Inr(1) [OF assms] registry_reads fun_eq_iff)

lemma write_mappings_reads:
  assumes "write_mappings s p ms = Inr s'"
  shows "dict_get (rg_mappings s') = (dict_get (rg_mappings s))(p \<mapsto> sort_key ref_link_id ms)"
    "get_product s' = get_product s" "get_table s' = get_table s" "get_changeset s' = get_changeset s"
  using assms by (auto simp: write_mappings_Inr_iff registry_reads fun_eq_iff)

lemma write_changeset_reads:
  "get_changeset (write_changeset s r) = (get_changeset s)(cs_changeset_id r \<mapsto> r)"
  "get_product (write_changeset s r) = get_product s" "get_table (write_changeset s r) = get_table s"
  "dict_get (rg_mappings (write_changeset s r)) = dict_get (rg_mappings s)"
  by (simp_all add: write_changeset_def registry_reads fun_eq_iff)

text \<open>The memory after a history holds what the history wrote.\<close>

lemma history_reads:
  assumes "fold_ok apply_write (empty_registry disk) ws = Inr s"
  shows "get_product s = written_products ws \<and> get_table s = written_tables ws
    \<and> dict_get (rg_mappings s) = written_mappings ws \<and> get_changeset s = written_changesets ws"
  using assms
proof (induction ws arbitrary: s rule: rev_induct)
  case Nil
  then show ?case by (auto simp: empty_registry_def registry_reads written_defs fun_eq_iff)
next
  case (snoc w ws)
  then obtain t where t: "fold_ok apply_write (empty_registry disk) ws = Inr t"
    and w: "apply_write t w = Inr s" by (auto simp: fold_ok_snoc)
  from snoc.IH [OF t] w show ?case
    by (cases w) (auto simp: written_defs write_product_reads write_table_reads
      write_mappings_reads write_changeset_reads)
qed

lemma history_inv:
  assumes "\<forall>w\<in>set ws. valid_write w" and "fold_ok apply_write (empty_registry empty_disk) ws = Inr s"
  shows "reg_inv s"
proof (rule fold_ok_invariant [where P = reg_inv, OF assms(2)])
  show "reg_inv (empty_registry empty_disk)" using empty_inv by (simp add: empty_disk_def)
qed (use assms(1) apply_write_inv in blast)

text \<open>(C1) Start from an empty registry on an empty directory and apply any sequence of product, table,
  mapping and changeset writes that the registry accepts, of records that pass their own
  validation. Loading the files this leaves succeeds, and every lookup in the loaded registry gives
  the record of the last write to that identifier in the sequence (for mappings, its records in the
  order of their link identifiers) and nothing else. The loaded registry also enumerates products,
  tables and mappings exactly as the one that wrote them.\<close>

theorem registry_load_roundtrip:
  assumes "\<forall>w\<in>set ws. valid_write w"
    and "fold_ok apply_write (empty_registry empty_disk) ws = Inr s"
  shows "\<exists>t. load_registry (rg_disk s) = Inr t
    \<and> get_product t = written_products ws \<and> get_table t = written_tables ws
    \<and> dict_get (rg_mappings t) = written_mappings ws \<and> get_changeset t = written_changesets ws
    \<and> products t = products s \<and> tables t = tables s \<and> mappings t = mappings s"
  using registry_reload [OF history_inv [OF assms]] history_reads [OF assms(2)] by auto

section \<open>Indexes\<close>

lemma keyed_distinct_keys:
  assumes "keyed ident key valid d"
  shows "distinct (map key (dict_values d))"
proof -
  have "inj_on (\<lambda>x. key (snd x)) (set d)"
  proof (rule inj_onI)
    fix x y assume xy: "x \<in> set d" "y \<in> set d" "key (snd x) = key (snd y)"
    with assms have "dict_get d (fst x) = Some (snd x)" "dict_get d (fst y) = Some (snd y)"
      by (auto simp: keyed_def dict_get_in)
    with keyed_unique [OF assms] xy(3) show "x = y" by (metis option.inject prod.expand)
  qed
  moreover have "distinct d" using assms by (simp add: keyed_def dict_ok_def distinct_map)
  ultimately have "distinct (map (\<lambda>x. key (snd x)) d)"
    by (intro distinct_map [THEN iffD2] conjI)
  then show ?thesis by (simp only: map_map comp_def)
qed

lemma distinct_map_sort_key: "distinct (map f xs) \<Longrightarrow> distinct (map f (sort_key f xs))"
  by (simp add: distinct_map)

lemma index_correct:
  assumes "keyed ident key valid d"
  shows "dict_get (dict_of key ident (sort_key key (dict_values d))) k = Some i
    \<longleftrightarrow> (\<exists>r. dict_get d i = Some r \<and> key r = k)"
proof -
  let ?vs = "sort_key key (dict_values d)"
  have dist: "distinct (map key ?vs)"
    using keyed_distinct_keys [OF assms] by (rule distinct_map_sort_key)
  have ok: "dict_ok d" using assms by (simp add: keyed_def)
  show ?thesis
  proof (cases "k \<in> key ` set ?vs")
    case True
    then obtain r where r: "r \<in> set ?vs" "k = key r" by blast
    from r(1) ok obtain j where j: "dict_get d j = Some r" by (auto simp: dict_get_in)
    have "dict_get (dict_of key ident ?vs) k = Some j"
      using dict_get_of_unique [OF dist r(1), of ident] keyed_lookup [OF assms j] r(2) by simp
    moreover have "(\<exists>q. dict_get d i = Some q \<and> key q = k) \<longleftrightarrow> i = j"
      using j r(2) keyed_unique [OF assms j, of i] by fastforce
    ultimately show ?thesis by auto
  next
    case False
    then have "dict_get (dict_of key ident ?vs) k = None" by (simp add: dict_get_of_None)
    moreover have "\<not> (\<exists>r. dict_get d i = Some r \<and> key r = k)"
      using False ok by (force simp: dict_get_in)
    ultimately show ?thesis by simp
  qed
qed

text \<open>(C3) After every product write, each index file is the exact inverse of the registry: a key
  (or a locator) is listed if and only if a registered record has it, and it leads to that record.\<close>

theorem indexes_after_write:
  assumes "reg_inv s" and "valid_product r" and "write_product s r = Inr s'"
  shows "(dict_get (dk_product_keys (rg_disk s')) k = Some i
           \<longleftrightarrow> (\<exists>p. get_product s' i = Some p \<and> pr_product_key p = k))
    \<and> (dict_get (dk_table_locators (rg_disk s')) l = Some j
           \<longleftrightarrow> (\<exists>t. get_table s' j = Some t \<and> table_key t = l))"
proof -
  have inv: "reg_inv s'" using assms by (rule write_product_inv)
  have "dk_product_keys (rg_disk s') = dict_of pr_product_key pr_product_id
            (sort_key pr_product_key (dict_values (rg_products s')))"
    "dk_table_locators (rg_disk s') = dict_of table_key tr_table_id
            (sort_key table_key (dict_values (rg_tables s')))"
    using write_product_Inr(1) [OF assms(3)] by (simp_all add: write_indexes_def)
  moreover from inv have "keyed pr_product_id pr_product_key valid_product (rg_products s')"
    "keyed tr_table_id table_key valid_table (rg_tables s')" by (simp_all add: reg_inv_def)
  ultimately show ?thesis
    by (simp add: registry_reads index_correct)
qed

section \<open>Histories of writes\<close>

text \<open>(C2) After any sequence of accepted product writes, a lookup returns the last record written
  under the identifier, two different identifiers never share a product key, and a product once
  retired is still retired.\<close>

theorem product_write_history:
  assumes "reg_inv s" and "\<forall>r\<in>set rs. valid_product r" and "fold_ok write_product s rs = Inr s'"
  shows "get_product s' i =
        (case find (\<lambda>r. pr_product_id r = i) (rev rs) of Some r \<Rightarrow> Some r | None \<Rightarrow> get_product s i)
    \<and> (get_product s' i = Some r \<longrightarrow> get_product s' j = Some q \<longrightarrow> pr_product_key r = pr_product_key q \<longrightarrow> i = j)
    \<and> (get_product s i = Some p \<longrightarrow> pr_status p = RETIRED
        \<longrightarrow> (\<exists>p'. get_product s' i = Some p' \<and> pr_status p' = RETIRED))"
  using product_store.store_all_lookup [OF assms(3), of i]
    product_store.store_all_keys [OF assms(3,1,2), of i r j q]
    product_store.store_all_retired [OF assms(3), of i p] by auto

text \<open>The same for tables, whose natural key is the normalised locator.\<close>

theorem table_write_history:
  assumes "reg_inv s" and "\<forall>r\<in>set rs. valid_table r" and "fold_ok write_table s rs = Inr s'"
  shows "get_table s' i =
        (case find (\<lambda>r. tr_table_id r = i) (rev rs) of Some r \<Rightarrow> Some r | None \<Rightarrow> get_table s i)
    \<and> (get_table s' i = Some r \<longrightarrow> get_table s' j = Some q \<longrightarrow> tr_locator r = tr_locator q \<longrightarrow> i = j)
    \<and> (get_table s i = Some p \<longrightarrow> tr_status p = RETIRED
        \<longrightarrow> (\<exists>p'. get_table s' i = Some p' \<and> tr_status p' = RETIRED))"
  using table_store.store_all_lookup [OF assms(3), of i]
    table_store.store_all_keys [OF assms(3,1,2), of i r j q]
    table_store.store_all_retired [OF assms(3), of i p] by auto

text \<open>A product write is refused exactly when it would resurrect a retired product or take a
  key that another product has, as its key or as an alias; the refusal changes nothing.\<close>

theorem write_product_refused_iff:
  assumes "reg_inv s"
  shows "(\<exists>e. write_product s r = Inl e) \<longleftrightarrow>
    (\<exists>p. get_product s (pr_product_id r) = Some p \<and> pr_status p = RETIRED \<and> pr_status r = ACTIVE)
    \<or> (\<exists>i q. i \<noteq> pr_product_id r \<and> get_product s i = Some q
         \<and> (pr_product_key q = pr_product_key r \<or> pr_product_key r \<in> set (pr_aliases q)))"
proof -
  have k: "keyed pr_product_id pr_product_key valid_product (rg_products s)"
    using assms by (simp add: reg_inv_def)
  then have ok: "dict_ok (rg_products s)" by (simp add: keyed_def)
  let ?c = "\<lambda>q. pr_product_id q \<noteq> pr_product_id r
      \<and> (pr_product_key q = pr_product_key r \<or> pr_product_key r \<in> set (pr_aliases q))"
  have "(\<exists>q\<in>set (dict_values (rg_products s)). ?c q) \<longleftrightarrow> (\<exists>i q. i \<noteq> pr_product_id r
      \<and> get_product s i = Some q \<and> (pr_product_key q = pr_product_key r \<or> pr_product_key r \<in> set (pr_aliases q)))"
    unfolding Bex_def dict_get_values [OF ok] get_product_def using keyed_lookup [OF k] by blast
  moreover have "(\<exists>e. write_product s r = Inl e) \<longleftrightarrow>
      (\<exists>p. get_product s (pr_product_id r) = Some p \<and> pr_status p = RETIRED \<and> pr_status r = ACTIVE)
      \<or> find ?c (dict_values (rg_products s)) \<noteq> None"
    unfolding write_product_def retired_reuse_def
    by (cases "get_product s (pr_product_id r)"; cases "find ?c (dict_values (rg_products s))") auto
  ultimately show ?thesis unfolding find_None_iff_ball by blast
qed

text \<open>The sample registry: one product, one table and their mapping, built by the operations.\<close>

definition reg0 :: registry where "reg0 = empty_registry empty_disk"

definition reg1 :: registry where "reg1 = projr (write_product reg0 product1)"

definition reg2 :: registry where "reg2 = projr (write_table reg1 table1)"

definition reg3 :: registry where "reg3 = projr (write_mappings reg2 pid1 [ref1])"

lemma reg0_inv: "reg_inv reg0"
  using empty_inv by (simp add: reg0_def empty_disk_def)

lemma reg1_written: "write_product reg0 product1 = Inr reg1"
proof -
  have "\<exists>s. write_product reg0 product1 = Inr s"
    by (simp add: reg0_def empty_registry_def write_product_def retired_reuse_def registry_reads)
  then show ?thesis by (auto simp: reg1_def)
qed

lemma reg2_written: "write_table reg1 table1 = Inr reg2"
proof -
  have "rg_tables reg1 = []"
    using write_product_frame(2) [OF reg1_written] by (simp add: reg0_def empty_registry_def)
  then have "\<exists>s. write_table reg1 table1 = Inr s"
    by (simp add: write_table_def retired_reuse_def registry_reads)
  then show ?thesis by (auto simp: reg2_def)
qed

lemma reg1_inv: "reg_inv reg1"
  using write_product_inv [OF reg0_inv _ reg1_written] product1_valid by (simp add: valid_product_def)

lemma reg2_inv: "reg_inv reg2"
  using write_table_inv [OF reg1_inv _ reg2_written] table1_valid by (simp add: valid_table_def)

lemma reg1_product: "get_product reg1 = [pid1 \<mapsto> product1]"
  by (simp add: fun_eq_iff write_product_frame(1) [OF reg1_written] registry_reads)
     (simp add: reg0_def empty_registry_def product1_def)

lemma reg2_reads: "get_product reg2 = [pid1 \<mapsto> product1]" "get_table reg2 = [tid1 \<mapsto> table1]"
proof -
  show "get_product reg2 = [pid1 \<mapsto> product1]"
    using reg1_product unfolding registry_reads write_table_frame(2) [OF reg2_written] .
  have "get_table reg1 = Map.empty"
    by (simp add: fun_eq_iff write_product_frame(2) [OF reg1_written] registry_reads)
       (simp add: reg0_def empty_registry_def)
  then show "get_table reg2 = [tid1 \<mapsto> table1]"
    using table_store.store_lookup [OF reg2_written] by (simp add: table1_def)
qed

lemma reg3_written: "write_mappings reg2 pid1 [ref1] = Inr reg3"
proof -
  have "get_product reg2 pid1 \<noteq> None" "map_option tr_version (get_table reg2 tid1) = Some 1"
    by (simp_all add: reg2_reads table1_def)
  then have "\<exists>s. write_mappings reg2 pid1 [ref1] = Inr s"
    by (simp add: write_mappings_Inr_iff ref1_def)
  then show ?thesis by (auto simp: reg3_def)
qed

lemma reg3_inv: "reg_inv reg3"
  using write_mappings_inv [OF reg2_inv _ reg3_written] ref1_valid by (simp add: valid_ref_def)

theorem registry_load_roundtrip_witness:
  "\<exists>t. load_registry (rg_disk reg3) = Inr t \<and> get_product t pid1 = Some product1
    \<and> get_table t tid1 = Some table1 \<and> dict_get (rg_mappings t) pid1 = Some [ref1]"
proof -
  let ?ws = "[Put_Product product1, Put_Table table1, Put_Mappings pid1 [ref1]]"
  have v: "\<forall>w\<in>set ?ws. valid_write w"
    using product1_valid table1_valid ref1_valid
    by (simp add: valid_product_def valid_table_def valid_ref_def)
  have w: "fold_ok apply_write (empty_registry empty_disk) ?ws = Inr reg3"
    using reg1_written reg2_written reg3_written by (simp add: reg0_def)
  from registry_load_roundtrip [OF v w] show ?thesis
    by (auto simp: written_defs product1_def table1_def)
qed

theorem indexes_after_write_witness:
  "dict_get (dk_product_keys (rg_disk reg1)) ''orders'' = Some pid1"
proof -
  have "valid_product product1" using product1_valid by (simp add: valid_product_def)
  from indexes_after_write [OF reg0_inv this reg1_written, of "''orders''" pid1]
  show ?thesis by (simp add: reg1_product) (simp add: product1_def)
qed

theorem product_write_history_witness:
  "fold_ok write_product reg0 [product1] = Inr reg1 \<and> get_product reg1 pid1 = Some product1"
proof -
  have w: "fold_ok write_product reg0 [product1] = Inr reg1" by (simp add: reg1_written)
  have "\<forall>r\<in>set [product1]. valid_product r" using product1_valid by (simp add: valid_product_def)
  from product_write_history(1) [OF reg0_inv this w, of pid1] w show ?thesis
    by (simp add: product1_def)
qed

theorem table_write_history_witness:
  "fold_ok write_table reg1 [table1] = Inr reg2 \<and> get_table reg2 tid1 = Some table1"
proof -
  have w: "fold_ok write_table reg1 [table1] = Inr reg2" by (simp add: reg2_written)
  have "\<forall>r\<in>set [table1]. valid_table r" using table1_valid by (simp add: valid_table_def)
  from table_write_history(1) [OF reg1_inv this w, of tid1] w show ?thesis
    by (simp add: table1_def)
qed

theorem write_product_refused_iff_witness:
  "\<exists>e. write_product reg1 (product2\<lparr>pr_product_key := ''orders''\<rparr>) = Inl e"
  by (rule write_product_refused_iff [THEN iffD2, OF reg1_inv], rule disjI2, rule exI [of _ pid1])
     (simp add: reg1_product product2_def product1_def sample_ids_distinct)

text \<open>
  The key check looks at the other products' aliases only. A record whose own alias is another
  product's key is accepted, and from then on the other product's unchanged record is refused.
\<close>

definition alias_clash :: registry where "alias_clash = projr (write_product reg1 product2)"

text \<open>The alias rule is checked in one direction only: a product whose alias equals a registered
  product's key is accepted, and then re-writing that registered product, unchanged, is refused
  with a key conflict.\<close>

theorem alias_clash_locks_out_owner:
  "write_product reg1 product2 = Inr alias_clash
   \<and> get_product alias_clash pid1 = Some product1
   \<and> write_product alias_clash product1
      = Inl (IdentityConflict (''PRODUCT_KEY_CONFLICT: '' @ ''orders'' @ '' -> '' @ pid2))"
proof -
  have ps: "rg_products reg1 = [(pid1, product1)]"
    by (simp add: write_product_frame(1) [OF reg1_written]) (simp add: reg0_def empty_registry_def product1_def)
  have "find (\<lambda>i. pr_product_id i \<noteq> pr_product_id product2
      \<and> (pr_product_key i = pr_product_key product2 \<or> pr_product_key product2 \<in> set (pr_aliases i)))
      (dict_values (rg_products reg1)) = None"
    by (simp add: ps product1_def product2_def)
  then have w: "write_product reg1 product2 = Inr alias_clash"
    using sample_ids_distinct
    by (simp add: alias_clash_def write_product_def retired_reuse_def get_product_def ps product2_def)
  have ps2: "rg_products alias_clash = [(pid1, product1), (pid2, product2)]"
    using sample_ids_distinct by (simp add: write_product_frame(1) [OF w] ps product2_def)
  show ?thesis
    using w sample_ids_distinct
    by (simp add: get_product_def ps2 write_product_def retired_reuse_def)
       (simp add: product1_def product2_def)
qed

end
