(* ===== verification/Ossie.thy ===== *)
theory Ossie
  imports Canonical Samples
begin

text \<open>
  The intermediate representation of a product (\<open>ir.py\<close>) and its compilation to the OSSIE 0.1.1
  semantic model (\<open>ossie_compiler.py\<close>). The compiled model is a JSON value; the JSON schema
  validator is a library and enters as an argument. The lemmas show that references in the
  compiled model resolve inside it, that the result does not depend on the order in which the
  pipeline found the parts, and that what the model says of a table can be read back from it.
\<close>

section \<open>The intermediate representation\<close>

datatype source_role = PRODUCT_HTML | SEMANTIC_DOCUMENT | DICTIONARY_EXCEL

record evidence =
  ev_source_hash :: string
  ev_role :: source_role
  ev_locator :: "(string, json) dict"
  ev_excerpt :: "string option"

record product_fact_ir =
  pf_kind :: string
  pf_value :: string
  pf_evidence :: "evidence list"

record column_ir =
  ci_column_id :: string
  ci_ordinal :: int
  ci_name :: string
  ci_logical_name :: "string option"
  ci_data_type :: string
  ci_nullable :: bool
  ci_primary_key :: bool
  ci_unique :: bool
  ci_description :: "string option"
  ci_foreign_key :: "string option"
  ci_formula :: "string option"
  ci_comment :: "string option"
  ci_synonyms :: "string list"
  ci_evidence :: "evidence list"

record table_ir =
  ti_table_id :: string
  ti_table_version :: int
  ti_dataset_name :: string
  ti_source :: string
  ti_description :: "string option"
  ti_synonyms :: "string list"
  ti_columns :: "column_ir list"
  ti_unique_keys :: "string list list"

record relationship_ir =
  ri_relationship_id :: string
  ri_name :: string
  ri_from_table_id :: string
  ri_to_table_id :: string
  ri_from_columns :: "string list"
  ri_to_columns :: "string list"
  ri_description :: "string option"
  ri_evidence :: "evidence list"

record metric_ir =
  mi_metric_id :: string
  mi_name :: string
  mi_expression :: string
  mi_dialect :: string
  mi_description :: "string option"
  mi_synonyms :: "string list"
  mi_instructions :: "string option"
  mi_examples :: "string list"
  mi_evidence :: "evidence list"

record product_ir =
  pi_product_id :: string
  pi_product_key :: string
  pi_version :: int
  pi_display_name :: string
  pi_description :: "string option"
  pi_product_facts :: "product_fact_ir list"
  pi_synonyms :: "string list"
  pi_instructions :: "string option"
  pi_examples :: "string list"
  pi_source_hashes :: "(string, string) dict"
  pi_tables :: "table_ir list"
  pi_relationships :: "relationship_ir list"
  pi_metrics :: "metric_ir list"

text \<open>\<open>if value:\<close> for an optional string.\<close>

fun truthy :: "string option \<Rightarrow> bool" where
  "truthy None = False"
| "truthy (Some s) = (s \<noteq> [])"

text \<open>\<open>if value: payload[key] = value\<close>.\<close>

definition put_text :: "string \<Rightarrow> string option \<Rightarrow> (string, json) dict \<Rightarrow> (string, json) dict" where
  "put_text key value payload = (if truthy value then dict_set key (JStr (the value)) payload else payload)"

definition put_if :: "bool \<Rightarrow> string \<Rightarrow> json \<Rightarrow> (string, json) dict \<Rightarrow> (string, json) dict" where
  "put_if c key value payload = (if c then dict_set key value payload else payload)"

definition strings :: "string list \<Rightarrow> json" where
  "strings xs = JArr (map JStr xs)"

section \<open>Compilation\<close>

definition extension_data :: "string \<Rightarrow> string \<Rightarrow> int option \<Rightarrow> (string, json) dict \<Rightarrow> (string, json) dict" where
  "extension_data kind object_id version attributes =
     (let data = [(''id'', JStr object_id), (''kind'', JStr kind), (''namespace'', JStr ''ai_ready_data'')];
          data = (case version of None \<Rightarrow> data | Some v \<Rightarrow> dict_set ''version'' (JInt v) data)
      in fold (\<lambda>(k, v). dict_set k v) attributes data)"

definition extension :: "string \<Rightarrow> string \<Rightarrow> int option \<Rightarrow> (string, json) dict \<Rightarrow> json" where
  "extension kind object_id version attributes =
     JObj [(''vendor_name'', JStr ''COMMON''),
           (''data'', JStr (dumps (sort_keys (JObj (extension_data kind object_id version attributes)))))]"

definition ai_context :: "string list \<Rightarrow> string option \<Rightarrow> string list \<Rightarrow> (string, json) dict" where
  "ai_context synonyms instructions examples =
     put_if (examples \<noteq> []) ''examples'' (strings examples)
       (put_text ''instructions'' instructions
         (put_if (synonyms \<noteq> []) ''synonyms'' (strings synonyms) []))"

text \<open>\<open>if context: payload["ai_context"] = context\<close>.\<close>

definition put_context :: "(string, json) dict \<Rightarrow> (string, json) dict \<Rightarrow> (string, json) dict" where
  "put_context context payload = put_if (context \<noteq> []) ''ai_context'' (JObj context) payload"

definition sql_expression :: "string \<Rightarrow> string \<Rightarrow> json" where
  "sql_expression dialect e =
     JObj [(''dialects'', JArr [JObj [(''dialect'', JStr dialect), (''expression'', JStr e)]])]"

definition compile_metric :: "metric_ir \<Rightarrow> json" where
  "compile_metric m = JObj
     (put_context (ai_context (mi_synonyms m) (mi_instructions m) (mi_examples m))
       (put_text ''description'' (mi_description m)
         [(''name'', JStr (mi_name m)),
          (''expression'', sql_expression (mi_dialect m) (mi_expression m)),
          (''custom_extensions'', JArr [extension ''metric'' (mi_metric_id m) None []])]))"

definition compile_field :: "column_ir \<Rightarrow> json" where
  "compile_field c = JObj
     (put_context (ai_context (ci_synonyms c) None [])
       (put_text ''description'' (ci_description c)
         (put_text ''label'' (ci_logical_name c)
           [(''name'', JStr (ci_name c)),
            (''expression'', sql_expression ''ANSI_SQL'' (ci_name c)),
            (''custom_extensions'', JArr [extension ''column'' (ci_column_id c) None
                [(''data_type'', JStr (ci_data_type c)), (''nullable'', JBool (ci_nullable c))]])])))"

definition column_order :: "column_ir \<Rightarrow> int \<times> string" where
  "column_order c = (ci_ordinal c, ci_column_id c)"

definition compile_dataset :: "table_ir \<Rightarrow> json" where
  "compile_dataset t =
     (let primary_key = map ci_name (filter ci_primary_key (ti_columns t))
      in JObj
       (put_context (ai_context (ti_synonyms t) None [])
         (put_text ''description'' (ti_description t)
           (put_if (ti_unique_keys t \<noteq> []) ''unique_keys'' (JArr (map strings (ti_unique_keys t)))
             (put_if (primary_key \<noteq> []) ''primary_key'' (strings primary_key)
               [(''name'', JStr (ti_dataset_name t)),
                (''source'', JStr (ti_source t)),
                (''fields'', JArr (map compile_field (sort_key column_order (ti_columns t)))),
                (''custom_extensions'', JArr [extension ''table'' (ti_table_id t)
                    (Some (ti_table_version t)) []])])))))"

text \<open>One turn of the loop over the relationships.\<close>

definition compile_relationship :: "(string, string) dict \<Rightarrow> relationship_ir \<Rightarrow> json result" where
  "compile_relationship table_names r =
     (case (dict_get table_names (ri_from_table_id r), dict_get table_names (ri_to_table_id r)) of
        (Some f, Some t) \<Rightarrow> Inr (JObj
          (put_if (truthy (ri_description r)) ''ai_context''
              (JObj [(''instructions'', JStr (the (ri_description r)))])
            [(''name'', JStr (ri_name r)), (''from'', JStr f), (''to'', JStr t),
             (''from_columns'', strings (ri_from_columns r)), (''to_columns'', strings (ri_to_columns r)),
             (''custom_extensions'', JArr [extension ''relationship'' (ri_relationship_id r) None []])]))
      | _ \<Rightarrow> Inl (ValueError (''OSSIE_UNRESOLVED_REFERENCE: '' @ ri_relationship_id r)))"

definition semantic_model :: "product_ir \<Rightarrow> table_ir list \<Rightarrow> json list \<Rightarrow> json" where
  "semantic_model p tables relationships = JObj
     (put_context (ai_context (pi_synonyms p) (pi_instructions p) (pi_examples p))
       (put_text ''description'' (pi_description p)
         [(''name'', JStr (pi_product_key p)),
          (''datasets'', JArr (map compile_dataset tables)),
          (''relationships'', JArr relationships),
          (''metrics'', JArr (map compile_metric (sort_key mi_metric_id (pi_metrics p)))),
          (''custom_extensions'', JArr [extension ''product'' (pi_product_id p) (Some (pi_version p)) []])]))"

definition compile_ossie :: "(json \<Rightarrow> unit result) \<Rightarrow> product_ir \<Rightarrow> json result" where
  "compile_ossie validate p =
     (let tables = sort_key ti_table_id (pi_tables p);
          table_names = dict_of ti_table_id ti_dataset_name tables
      in bind_ok (traverse (compile_relationship table_names)
                    (sort_key ri_relationship_id (pi_relationships p))) (\<lambda>relationships.
         let compiled = JObj [(''version'', JStr ''0.1.1''), (''dialects'', strings [''ANSI_SQL'']),
               (''vendors'', strings [''COMMON'']),
               (''semantic_model'', JArr [semantic_model p tables relationships])]
         in bind_ok (validate compiled) (\<lambda>_. Inr compiled)))"

section \<open>Reading a compiled model\<close>

fun json_field :: "string \<Rightarrow> json \<Rightarrow> json option" where
  "json_field key (JObj d) = dict_get d key"
| "json_field key _ = None"

fun json_items :: "json option \<Rightarrow> json list" where
  "json_items (Some (JArr xs)) = xs"
| "json_items _ = []"

definition model_of :: "json \<Rightarrow> json" where
  "model_of doc = hd (json_items (json_field ''semantic_model'' doc))"

definition datasets_of :: "json \<Rightarrow> json list" where
  "datasets_of doc = json_items (json_field ''datasets'' (model_of doc))"

definition relationships_of :: "json \<Rightarrow> json list" where
  "relationships_of doc = json_items (json_field ''relationships'' (model_of doc))"

lemma put_frame [simp]:
  "k \<noteq> key \<Longrightarrow> dict_get (put_text key v d) k = dict_get d k"
  "k \<noteq> key \<Longrightarrow> dict_get (put_if c key j d) k = dict_get d k"
  "k \<noteq> ''ai_context'' \<Longrightarrow> dict_get (put_context x d) k = dict_get d k"
  by (simp_all add: put_text_def put_if_def put_context_def)

lemma compile_ossie_Inr:
  assumes "compile_ossie validate p = Inr doc"
  obtains rs where
    "traverse (compile_relationship (dict_of ti_table_id ti_dataset_name (sort_key ti_table_id (pi_tables p))))
       (sort_key ri_relationship_id (pi_relationships p)) = Inr rs"
    and "model_of doc = semantic_model p (sort_key ti_table_id (pi_tables p)) rs" and "validate doc = Inr ()"
  using assms by (auto simp: compile_ossie_def Let_def model_of_def)

lemma semantic_model_fields [simp]:
  "json_items (json_field ''datasets'' (semantic_model p ts rs)) = map compile_dataset ts"
  "json_items (json_field ''relationships'' (semantic_model p ts rs)) = rs"
  by (simp_all add: semantic_model_def)

lemma compile_dataset_name [simp]: "json_field ''name'' (compile_dataset t) = Some (JStr (ti_dataset_name t))"
  by (simp add: compile_dataset_def Let_def)

lemma compile_relationship_Inr:
  assumes "compile_relationship names r = Inr j"
  obtains f t where "dict_get names (ri_from_table_id r) = Some f" and "dict_get names (ri_to_table_id r) = Some t"
    and "json_field ''from'' j = Some (JStr f)" and "json_field ''to'' j = Some (JStr t)"
  using assms by (auto simp: compile_relationship_def split: option.splits)

text \<open>Every relationship of a compiled model goes from a dataset of the same model to a dataset of
  the same model, by name.\<close>

theorem compiled_references_resolve:
  assumes "compile_ossie validate p = Inr doc" and "r \<in> set (relationships_of doc)"
  shows "\<exists>f\<in>set (datasets_of doc). \<exists>t\<in>set (datasets_of doc).
    json_field ''from'' r = json_field ''name'' f \<and> json_field ''to'' r = json_field ''name'' t"
proof -
  let ?tables = "sort_key ti_table_id (pi_tables p)"
  let ?names = "dict_of ti_table_id ti_dataset_name ?tables"
  obtain rs where rs: "traverse (compile_relationship ?names) (sort_key ri_relationship_id (pi_relationships p)) = Inr rs"
    and m: "model_of doc = semantic_model p ?tables rs"
    using compile_ossie_Inr [OF assms(1)] by blast
  from assms(2) m have "r \<in> set rs" by (simp add: relationships_of_def)
  with traverse_in_set [OF rs] obtain x where "compile_relationship ?names x = Inr r" by blast
  then obtain f t where ft: "dict_get ?names (ri_from_table_id x) = Some f" "dict_get ?names (ri_to_table_id x) = Some t"
    and j: "json_field ''from'' r = Some (JStr f)" "json_field ''to'' r = Some (JStr t)"
    by (rule compile_relationship_Inr)
  have "\<exists>d\<in>set (datasets_of doc). json_field ''name'' d = Some (JStr n)" if "dict_get ?names i = Some n" for i n
    using that by (auto simp: datasets_of_def m dict_get_of dest!: find_SomeD)
  with ft j show ?thesis by metis
qed

lemma compile_ossie_validates:
  "compile_ossie validate p = Inr doc \<longleftrightarrow>
     compile_ossie (\<lambda>_. Inr ()) p = Inr doc \<and> validate doc = Inr ()"
  unfolding compile_ossie_def Let_def by auto

lemma compile_ossie_resolves:
  "(\<exists>doc. compile_ossie (\<lambda>_. Inr ()) p = Inr doc) \<longleftrightarrow>
     (\<forall>r\<in>set (pi_relationships p). {ri_from_table_id r, ri_to_table_id r} \<subseteq> ti_table_id ` set (pi_tables p))"
proof -
  let ?names = "dict_of ti_table_id ti_dataset_name (sort_key ti_table_id (pi_tables p))"
  have "(\<exists>j. compile_relationship ?names r = Inr j) \<longleftrightarrow>
      {ri_from_table_id r, ri_to_table_id r} \<subseteq> ti_table_id ` set (pi_tables p)" for r
  proof -
    have "dict_get ?names k \<noteq> None \<longleftrightarrow> k \<in> ti_table_id ` set (pi_tables p)" for k
      by (simp add: dict_get_of_None del: not_None_eq)
    then have "{ri_from_table_id r, ri_to_table_id r} \<subseteq> ti_table_id ` set (pi_tables p)
        \<longleftrightarrow> dict_get ?names (ri_from_table_id r) \<noteq> None \<and> dict_get ?names (ri_to_table_id r) \<noteq> None" by simp
    then show ?thesis
      unfolding compile_relationship_def by (auto split: option.splits)
  qed
  then have "(\<exists>rs. traverse (compile_relationship ?names) xs = Inr rs) \<longleftrightarrow>
      (\<forall>r\<in>set xs. {ri_from_table_id r, ri_to_table_id r} \<subseteq> ti_table_id ` set (pi_tables p))" for xs
    unfolding traverse_ok_iff by simp
  from this [of "sort_key ri_relationship_id (pi_relationships p)"]
  show ?thesis
    unfolding compile_ossie_def Let_def by simp
qed

text \<open>Compilation succeeds exactly when every relationship refers to tables of the product and the
  finished model passes the schema validator; the validator sees the model that is returned.\<close>

theorem compile_ossie_succeeds_iff:
  "(compile_ossie validate p = Inr doc \<longleftrightarrow>
     compile_ossie (\<lambda>_. Inr ()) p = Inr doc \<and> validate doc = Inr ())
   \<and> ((\<exists>doc. compile_ossie (\<lambda>_. Inr ()) p = Inr doc) \<longleftrightarrow>
     (\<forall>r\<in>set (pi_relationships p). {ri_from_table_id r, ri_to_table_id r} \<subseteq> ti_table_id ` set (pi_tables p)))"
  using compile_ossie_validates [of validate p doc] compile_ossie_resolves [of p] by blast

text \<open>The compiled model does not depend on the order in which tables, relationships and metrics
  were collected: identifiers order them.\<close>

theorem compile_ossie_order_independent:
  assumes "distinct (map ti_table_id (pi_tables p))" and "mset ts = mset (pi_tables p)"
    and "distinct (map ri_relationship_id (pi_relationships p))" and "mset rs = mset (pi_relationships p)"
    and "distinct (map mi_metric_id (pi_metrics p))" and "mset ms = mset (pi_metrics p)"
  shows "compile_ossie validate (p\<lparr>pi_tables := ts, pi_relationships := rs, pi_metrics := ms\<rparr>)
    = compile_ossie validate p"
proof -
  have "sort_key ti_table_id ts = sort_key ti_table_id (pi_tables p)"
    "sort_key ri_relationship_id rs = sort_key ri_relationship_id (pi_relationships p)"
    "sort_key mi_metric_id ms = sort_key mi_metric_id (pi_metrics p)"
    using assms by (metis sort_key_perm)+
  then show ?thesis by (simp add: compile_ossie_def semantic_model_def)
qed

section \<open>What the model says of a table\<close>

lemma dict_ok_fold_set: "dict_ok d \<Longrightarrow> dict_ok (fold (\<lambda>(k, v). dict_set k v) xs d)"
  by (induction xs arbitrary: d) auto

lemma extension_data_ok: "dict_ok (extension_data k i v a)"
  unfolding extension_data_def Let_def
  by (intro dict_ok_fold_set) (simp add: dict_ok_def split: option.split)

text \<open>Equal extensions carry equal data, key by key.\<close>

lemma extension_inj:
  assumes "extension k i v a = extension k' i' v' a'"
    and "json_ok (JObj (extension_data k i v a))" and "json_ok (JObj (extension_data k' i' v' a'))"
  shows "map_option sort_keys (dict_get (extension_data k i v a) key)
    = map_option sort_keys (dict_get (extension_data k' i' v' a') key)"
proof -
  let ?d = "extension_data k i v a" and ?e = "extension_data k' i' v' a'"
  let ?f = "map (\<lambda>(k, j). (k, sort_keys j))"
  have "sort_keys (JObj ?d) = sort_keys (JObj ?e)"
  proof (rule dumps_inj)
    show "dumps (sort_keys (JObj ?d)) = dumps (sort_keys (JObj ?e))"
      using assms(1) unfolding extension_def by simp
  qed (use assms(2,3) json_ok_sort_keys in blast)+
  then have "sort_key fst (?f ?d) = sort_key fst (?f ?e)" by simp
  then have "set (?f ?d) = set (?f ?e)" by (metis set_sort)
  moreover have "distinct (map fst (?f d))" if "dict_ok d" for d :: "(string, json) dict"
    using that by (simp add: dict_ok_def comp_def case_prod_unfold)
  ultimately have "map_of (?f ?d) = map_of (?f ?e)"
    using map_of_inject_set extension_data_ok by blast
  then show ?thesis by (simp add: map_of_map fun_eq_iff)
qed

lemma extension_data_simps [simp]:
  "extension_data kind i (Some v) [] =
     [(''id'', JStr i), (''kind'', JStr kind), (''namespace'', JStr ''ai_ready_data''), (''version'', JInt v)]"
  "extension_data kind i None [(''data_type'', d), (''nullable'', n)] =
     [(''id'', JStr i), (''kind'', JStr kind), (''namespace'', JStr ''ai_ready_data''),
      (''data_type'', d), (''nullable'', n)]"
  by (simp_all add: extension_data_def)

lemma table_extension_inj:
  assumes "extension ''table'' i (Some v) [] = extension ''table'' j (Some w) []"
  shows "i = j \<and> v = w"
  using extension_inj [OF assms, of "''id''"] extension_inj [OF assms, of "''version''"] by simp

lemma column_extension_inj:
  assumes "extension ''column'' i None [(''data_type'', JStr d), (''nullable'', JBool n)]
     = extension ''column'' j None [(''data_type'', JStr e), (''nullable'', JBool m)]"
  shows "i = j \<and> d = e \<and> n = m"
  using extension_inj [OF assms, of "''id''"] extension_inj [OF assms, of "''data_type''"]
    extension_inj [OF assms, of "''nullable''"] by simp

lemma compile_field_fields:
  "json_field ''name'' (compile_field c) = Some (JStr (ci_name c))"
  "json_field ''custom_extensions'' (compile_field c) = Some (JArr [extension ''column''
      (ci_column_id c) None [(''data_type'', JStr (ci_data_type c)), (''nullable'', JBool (ci_nullable c))]])"
  by (simp_all add: compile_field_def)

lemma compile_field_inj:
  assumes "compile_field c = compile_field d"
  shows "ci_column_id c = ci_column_id d \<and> ci_name c = ci_name d \<and> ci_data_type c = ci_data_type d
    \<and> ci_nullable c = ci_nullable d"
proof -
  have "Some (JStr (ci_name c)) = Some (JStr (ci_name d))"
    using arg_cong [OF assms, of "json_field ''name''"] unfolding compile_field_fields .
  moreover have "extension ''column'' (ci_column_id c) None
        [(''data_type'', JStr (ci_data_type c)), (''nullable'', JBool (ci_nullable c))]
      = extension ''column'' (ci_column_id d) None
        [(''data_type'', JStr (ci_data_type d)), (''nullable'', JBool (ci_nullable d))]"
    using arg_cong [OF assms, of "json_field ''custom_extensions''"] unfolding compile_field_fields
    by (simp only: option.inject json.inject list.inject simp_thms)
  from column_extension_inj [OF this] calculation show ?thesis by simp
qed

lemma compile_dataset_fields:
  "json_field ''source'' (compile_dataset t) = Some (JStr (ti_source t))"
  "json_field ''fields'' (compile_dataset t) = Some (JArr (map compile_field (sort_key column_order (ti_columns t))))"
  "json_field ''custom_extensions'' (compile_dataset t)
     = Some (JArr [extension ''table'' (ti_table_id t) (Some (ti_table_version t)) []])"
  by (simp_all add: compile_dataset_def Let_def)

lemma map_determines:
  assumes "map f xs = map f ys" and "\<And>x y. f x = f y \<Longrightarrow> g x = g y"
  shows "map g xs = map g ys"
  using assms(1)
proof (induction xs arbitrary: ys)
  case (Cons x xs)
  then obtain y zs where "ys = y # zs" "f x = f y" "map f xs = map f zs" by (cases ys) auto
  with Cons.IH [of zs] assms(2) [of x y] show ?case by simp
qed simp

text \<open>Two tables with the same compiled dataset have the same identifier, version, name and source,
  and the same columns in the same order with identifier, name, data type and nullability: the
  compiled model determines what it was compiled from.\<close>

theorem compiled_dataset_determines_table:
  assumes "compile_dataset t = compile_dataset u"
  shows "ti_table_id t = ti_table_id u \<and> ti_table_version t = ti_table_version u
    \<and> ti_dataset_name t = ti_dataset_name u \<and> ti_source t = ti_source u
    \<and> map (\<lambda>c. (ci_column_id c, ci_name c, ci_data_type c, ci_nullable c)) (sort_key column_order (ti_columns t))
      = map (\<lambda>c. (ci_column_id c, ci_name c, ci_data_type c, ci_nullable c)) (sort_key column_order (ti_columns u))"
proof -
  have f: "json_field k (compile_dataset t) = json_field k (compile_dataset u)" for k
    by (simp only: assms)
  have "Some (JStr (ti_dataset_name t)) = Some (JStr (ti_dataset_name u))"
    using f [of "''name''"] unfolding compile_dataset_name .
  moreover have "Some (JStr (ti_source t)) = Some (JStr (ti_source u))"
    using f [of "''source''"] unfolding compile_dataset_fields .
  moreover have cols: "map compile_field (sort_key column_order (ti_columns t))
      = map compile_field (sort_key column_order (ti_columns u))"
    using f [of "''fields''"] unfolding compile_dataset_fields
    by (simp only: option.inject json.inject list.inject simp_thms)
  moreover have "extension ''table'' (ti_table_id t) (Some (ti_table_version t)) []
      = extension ''table'' (ti_table_id u) (Some (ti_table_version u)) []"
    using f [of "''custom_extensions''"] unfolding compile_dataset_fields
    by (simp only: option.inject json.inject list.inject simp_thms)
  then have "ti_table_id t = ti_table_id u \<and> ti_table_version t = ti_table_version u"
    by (rule table_extension_inj)
  moreover have "map (\<lambda>c. (ci_column_id c, ci_name c, ci_data_type c, ci_nullable c)) (sort_key column_order (ti_columns t))
      = map (\<lambda>c. (ci_column_id c, ci_name c, ci_data_type c, ci_nullable c)) (sort_key column_order (ti_columns u))"
    by (rule map_determines [OF cols]) (drule compile_field_inj, simp)
  ultimately show ?thesis by (simp only: json.inject option.inject simp_thms)
qed

section \<open>A sample product\<close>

definition evidence1 :: evidence where
  "evidence1 = \<lparr>ev_source_hash = sha64, ev_role = DICTIONARY_EXCEL, ev_locator = [], ev_excerpt = None\<rparr>"

definition column_ir1 :: column_ir where
  "column_ir1 = \<lparr>ci_column_id = cid1, ci_ordinal = 1, ci_name = ''id'', ci_logical_name = None,
     ci_data_type = ''BIGINT'', ci_nullable = False, ci_primary_key = True, ci_unique = False,
     ci_description = None, ci_foreign_key = Some ''orders.id'', ci_formula = None, ci_comment = None,
     ci_synonyms = [], ci_evidence = [evidence1]\<rparr>"

definition table_ir1 :: table_ir where
  "table_ir1 = \<lparr>ti_table_id = tid1, ti_table_version = 1, ti_dataset_name = ''orders'',
     ti_source = ''main.dw.orders'', ti_description = Some ''Orders'', ti_synonyms = [],
     ti_columns = [column_ir1], ti_unique_keys = []\<rparr>"

definition relationship_ir1 :: relationship_ir where
  "relationship_ir1 = \<lparr>ri_relationship_id = ''rel_1'', ri_name = ''self'', ri_from_table_id = tid1,
     ri_to_table_id = tid1, ri_from_columns = [''id''], ri_to_columns = [''id''], ri_description = None,
     ri_evidence = [evidence1]\<rparr>"

definition product_ir1 :: product_ir where
  "product_ir1 = \<lparr>pi_product_id = pid1, pi_product_key = ''orders'', pi_version = 1,
     pi_display_name = ''Orders'', pi_description = Some ''All orders'', pi_product_facts = [],
     pi_synonyms = [], pi_instructions = None, pi_examples = [], pi_source_hashes = [],
     pi_tables = [table_ir1, table_ir1\<lparr>ti_table_id := tid2, ti_dataset_name := ''items''\<rparr>],
     pi_relationships = [relationship_ir1], pi_metrics = []\<rparr>"

lemma product_ir1_compiles: "\<exists>doc. compile_ossie (\<lambda>_. Inr ()) product_ir1 = Inr doc"
  by (simp add: compile_ossie_resolves
      product_ir1_def relationship_ir1_def table_ir1_def)

theorem compile_ossie_succeeds_iff_witness:
  "\<not> (\<exists>doc. compile_ossie (\<lambda>_. Inr ()) (product_ir1\<lparr>pi_tables := []\<rparr>) = Inr doc)"
  using compile_ossie_succeeds_iff [of "\<lambda>_. Inr ()" "product_ir1\<lparr>pi_tables := []\<rparr>"]
  by (simp add: product_ir1_def)

theorem compiled_references_resolve_witness:
  "\<exists>doc r. compile_ossie (\<lambda>_. Inr ()) product_ir1 = Inr doc \<and> r \<in> set (relationships_of doc)
     \<and> (\<exists>f\<in>set (datasets_of doc). json_field ''from'' r = json_field ''name'' f)"
proof -
  obtain doc where doc: "compile_ossie (\<lambda>_. Inr ()) product_ir1 = Inr doc" using product_ir1_compiles by blast
  then obtain rs where "traverse (compile_relationship (dict_of ti_table_id ti_dataset_name
        (sort_key ti_table_id (pi_tables product_ir1)))) (sort_key ri_relationship_id (pi_relationships product_ir1)) = Inr rs"
    and m: "model_of doc = semantic_model product_ir1 (sort_key ti_table_id (pi_tables product_ir1)) rs"
    by (rule compile_ossie_Inr)
  from traverse_length [OF this(1)] obtain r where "r \<in> set (relationships_of doc)"
    by (cases rs) (auto simp: relationships_of_def m product_ir1_def)
  with compiled_references_resolve [OF doc this] doc show ?thesis by blast
qed

theorem compile_ossie_order_independent_witness:
  "compile_ossie (\<lambda>_. Inr ()) (product_ir1\<lparr>pi_tables := rev (pi_tables product_ir1),
     pi_relationships := [relationship_ir1], pi_metrics := []\<rparr>) = compile_ossie (\<lambda>_. Inr ()) product_ir1"
  by (rule compile_ossie_order_independent)
     (use sample_ids_distinct in \<open>simp_all add: product_ir1_def table_ir1_def\<close>)

theorem compiled_dataset_determines_table_witness:
  "compile_dataset table_ir1 = compile_dataset (table_ir1\<lparr>ti_columns := [column_ir1\<lparr>ci_unique := True\<rparr>]\<rparr>)
   \<and> ti_source table_ir1 = ti_source (table_ir1\<lparr>ti_columns := [column_ir1\<lparr>ci_unique := True\<rparr>]\<rparr>)"
proof -
  have "compile_dataset table_ir1 = compile_dataset (table_ir1\<lparr>ti_columns := [column_ir1\<lparr>ci_unique := True\<rparr>]\<rparr>)"
    by (simp add: compile_dataset_def compile_field_def table_ir1_def column_ir1_def)
  with compiled_dataset_determines_table [OF this] show ?thesis by blast
qed

end
