(* ===== verification/Dictionary.thy ===== *)
theory Dictionary
  imports Ossie
begin

text \<open>
  The data dictionary reader (\<open>excel_adapter.py\<close>): a workbook sheet is a grid of cells, read either
  as a flat table with named columns or as the Korean template with a metadata block. The cells
  are what the spreadsheet library delivers; its naming of columns by letters is an argument.
\<close>

section \<open>Records\<close>

record dictionary_column =
  dc_ordinal :: int
  dc_name :: string
  dc_logical_name :: "string option"
  dc_data_type :: string
  dc_nullable :: bool
  dc_primary_key :: bool
  dc_foreign_key :: "string option"
  dc_description :: "string option"
  dc_formula :: "string option"
  dc_comment :: "string option"
  dc_evidence :: evidence

record dictionary_table =
  dt_locator :: string
  dt_description :: "string option"
  dt_columns :: "dictionary_column list"

record parsed_dictionary =
  pd_source_hash :: string
  pd_tables :: "dictionary_table list"

text \<open>A cell value: absent, text, Boolean, integer, or another value with the text \<open>str\<close> gives it.\<close>

datatype cell_value = CNone | CStr string | CBool bool | CInt int | COther string

record sheet_cell =
  sc_value :: cell_value
  sc_comment :: "string option"

record sheet =
  sh_title :: string
  sh_rows :: "sheet_cell list list"

fun cell_str :: "cell_value \<Rightarrow> string" where
  "cell_str CNone = ''None''"
| "cell_str (CStr s) = s"
| "cell_str (CBool b) = (if b then ''True'' else ''False'')"
| "cell_str (CInt i) = int_str i"
| "cell_str (COther s) = s"

section \<open>Cells\<close>

definition max_row :: "sheet \<Rightarrow> nat" where
  "max_row sh = length (sh_rows sh)"

text \<open>\<open>sheet[row]\<close>: the cells of a row with their column numbers, both counted from one.\<close>

definition row_cells :: "sheet \<Rightarrow> nat \<Rightarrow> (nat \<times> sheet_cell) list" where
  "row_cells sh row =
     (if 1 \<le> row \<and> row \<le> max_row sh then enumerate 1 (sh_rows sh ! (row - 1)) else [])"

definition the_cell :: "sheet \<Rightarrow> nat \<Rightarrow> nat \<Rightarrow> sheet_cell" where
  "the_cell sh row col =
     (case dict_get (row_cells sh row) col of
        Some c \<Rightarrow> c | None \<Rightarrow> \<lparr>sc_value = CNone, sc_comment = None\<rparr>)"

definition cell_val :: "sheet \<Rightarrow> nat \<Rightarrow> nat \<Rightarrow> cell_value" where
  "cell_val sh row col = sc_value (the_cell sh row col)"

definition is_blank :: "cell_value \<Rightarrow> bool" where
  "is_blank v \<longleftrightarrow> v = CNone \<or> strip (cell_str v) = []"

definition at_row :: "sheet \<Rightarrow> nat \<Rightarrow> string" where
  "at_row sh row = sh_title sh @ ''!'' @ nat_str row"

definition required_value :: "sheet \<Rightarrow> nat \<Rightarrow> (string, nat) dict \<Rightarrow> string \<Rightarrow> cell_value result" where
  "required_value sh row headers name =
     (case dict_get headers name of
        None \<Rightarrow> Inl (KeyError name)
      | Some col \<Rightarrow>
          (let v = cell_val sh row col
           in if is_blank v
              then Inl (ValueError (''MISSING_DICTIONARY_VALUE: '' @ at_row sh row @ '':'' @ name))
              else Inr v))"

definition optional_value :: "sheet \<Rightarrow> nat \<Rightarrow> (string, nat) dict \<Rightarrow> string \<Rightarrow> cell_value" where
  "optional_value sh row headers name =
     (case dict_get headers name of None \<Rightarrow> CNone | Some col \<Rightarrow> cell_val sh row col)"

definition as_optional_text :: "cell_value \<Rightarrow> string option" where
  "as_optional_text v = (if is_blank v then None else Some (strip (cell_str v)))"

definition as_bool :: "cell_value \<Rightarrow> bool result" where
  "as_bool v =
     (case v of CBool b \<Rightarrow> Inr b
      | _ \<Rightarrow>
        (let normalized = str_lower (strip (cell_str v))
         in if normalized \<in> {''1'', ''true'', ''y'', ''yes''} then Inr True
            else if normalized \<in> {''0'', ''false'', ''n'', ''no''} then Inr False
            else Inl (ValueError (''INVALID_BOOLEAN_VALUE: '' @ cell_str v))))"

text \<open>\<open>re.sub(r"\s+", "_", text)\<close>.\<close>

fun underscore_spaces :: "string \<Rightarrow> string" where
  "underscore_spaces [] = []"
| "underscore_spaces [c] = (if is_space c then ''_'' else [c])"
| "underscore_spaces (c # d # s) =
     (if is_space c then (if is_space d then underscore_spaces (d # s) else CHR ''_'' # underscore_spaces (d # s))
      else c # underscore_spaces (d # s))"

text \<open>The no-break space is two bytes of UTF-8.\<close>

fun replace_nbsp :: "string \<Rightarrow> string" where
  "replace_nbsp (c # d # s) =
     (if c = CHR 0xC2 \<and> d = CHR 0xA0 then CHR '' '' # replace_nbsp s else c # replace_nbsp (d # s))"
| "replace_nbsp s = s"

definition normalize_header :: "cell_value \<Rightarrow> string" where
  "normalize_header v = underscore_spaces (str_lower (strip (replace_nbsp (cell_str v))))"

section \<open>The flat layout\<close>

definition REQUIRED_HEADERS :: "string list" where
  "REQUIRED_HEADERS = [''platform'', ''catalog'', ''schema'', ''table'', ''column'', ''data_type'', ''nullable'', ''pk'']"

definition flat_headers :: "sheet \<Rightarrow> (string, nat) dict" where
  "flat_headers sh =
     dict_of (\<lambda>(i, c). normalize_header (sc_value c)) fst
       (filter (\<lambda>(i, c). sc_value c \<noteq> CNone) (row_cells sh 1))"

type_synonym grouped_columns = "(string, dictionary_column list) dict"

definition group_of :: "grouped_columns \<Rightarrow> string \<Rightarrow> dictionary_column list" where
  "group_of grouped locator = (case dict_get grouped locator of None \<Rightarrow> [] | Some cs \<Rightarrow> cs)"

definition group_add :: "string \<Rightarrow> dictionary_column \<Rightarrow> grouped_columns \<Rightarrow> grouped_columns" where
  "group_add locator c grouped =
     dict_set locator
       (group_of grouped locator @ [c\<lparr>dc_ordinal := int (length (group_of grouped locator)) + 1\<rparr>]) grouped"

definition cell_evidence :: "sheet \<Rightarrow> string \<Rightarrow> string \<Rightarrow> string \<Rightarrow> evidence" where
  "cell_evidence sh source_hash cells excerpt =
     \<lparr>ev_source_hash = source_hash, ev_role = DICTIONARY_EXCEL,
      ev_locator = [(''sheet'', JStr (sh_title sh)), (''range'', JStr cells)], ev_excerpt = Some excerpt\<rparr>"

definition flat_foreign_key :: "sheet \<Rightarrow> (string, nat) dict \<Rightarrow> nat \<Rightarrow> string option result" where
  "flat_foreign_key sh headers row =
     (let t = as_optional_text (optional_value sh row headers ''fk_table'');
          c = as_optional_text (optional_value sh row headers ''fk_column'')
      in if truthy t \<noteq> truthy c then Inl (ValueError (''INCOMPLETE_FOREIGN_KEY: '' @ at_row sh row))
         else Inr (if truthy t \<and> truthy c then Some (the t @ ''.'' @ the c) else None))"

text \<open>The column a row describes; its place among the columns of its table is given on insertion.\<close>

definition flat_column ::
  "(nat \<Rightarrow> string) \<Rightarrow> sheet \<Rightarrow> string \<Rightarrow> (string, nat) dict \<Rightarrow> nat \<Rightarrow> string \<Rightarrow> dictionary_column result" where
  "flat_column col_letter sh source_hash headers row name =
     bind_ok (flat_foreign_key sh headers row) (\<lambda>fk.
     bind_ok (required_value sh row headers ''data_type'') (\<lambda>data_type.
     bind_ok (bind_ok (required_value sh row headers ''nullable'') as_bool) (\<lambda>nullable.
     bind_ok (bind_ok (required_value sh row headers ''pk'') as_bool) (\<lambda>pk.
       Inr \<lparr>dc_ordinal = 0, dc_name = name,
            dc_logical_name = as_optional_text (optional_value sh row headers ''logical_name''),
            dc_data_type = strip (cell_str data_type), dc_nullable = nullable, dc_primary_key = pk,
            dc_foreign_key = fk,
            dc_description = as_optional_text (optional_value sh row headers ''description''),
            dc_formula = as_optional_text (optional_value sh row headers ''formula''),
            dc_comment = (case as_optional_text (optional_value sh row headers ''comment'') of
                Some t \<Rightarrow> Some t
              | None \<Rightarrow> sc_comment (the_cell sh row (the (dict_get headers ''column'')))),
            dc_evidence = cell_evidence sh source_hash
                (col_letter 1 @ nat_str row @ '':'' @ col_letter (length headers) @ nat_str row) name\<rparr>))))"

definition flat_locator :: "sheet \<Rightarrow> (string, nat) dict \<Rightarrow> nat \<Rightarrow> string result" where
  "flat_locator sh headers row =
     bind_ok (traverse (required_value sh row headers) [''platform'', ''catalog'', ''schema'', ''table''])
       (\<lambda>parts. Inr (join ''|'' (map (\<lambda>v. str_lower (strip (cell_str v))) parts)))"

definition flat_row ::
  "(nat \<Rightarrow> string) \<Rightarrow> sheet \<Rightarrow> string \<Rightarrow> (string, nat) dict \<Rightarrow> grouped_columns \<Rightarrow> nat \<Rightarrow> grouped_columns result" where
  "flat_row col_letter sh source_hash headers grouped row =
     (let column_name = optional_value sh row headers ''column''
      in if is_blank column_name then Inr grouped
         else bind_ok (flat_locator sh headers row) (\<lambda>locator.
              bind_ok (flat_column col_letter sh source_hash headers row (strip (cell_str column_name))) (\<lambda>c.
                Inr (group_add locator c grouped))))"

definition tables_of :: "grouped_columns \<Rightarrow> dictionary_table list" where
  "tables_of grouped =
     map (\<lambda>(locator, cs). \<lparr>dt_locator = locator, dt_description = None, dt_columns = cs\<rparr>) grouped"

definition parse_flat_sheet ::
  "(nat \<Rightarrow> string) \<Rightarrow> sheet \<Rightarrow> string \<Rightarrow> dictionary_table list option result" where
  "parse_flat_sheet col_letter sh source_hash =
     (let headers = flat_headers sh
      in if headers = [] \<or> \<not> set REQUIRED_HEADERS \<subseteq> set (dict_keys headers) then Inr None
         else bind_ok (fold_ok (flat_row col_letter sh source_hash headers) [] [2..<max_row sh + 1])
                (\<lambda>grouped. Inr (Some (tables_of grouped))))"

section \<open>The Korean template\<close>

text \<open>The labels of the template, as the bytes of their UTF-8 encoding.\<close>

definition KO_COLUMN_NAME :: string where
  "KO_COLUMN_NAME = [CHR 0xEC, CHR 0xBB, CHR 0xAC, CHR 0xEB, CHR 0x9F, CHR 0xBC, CHR 0xEB, CHR 0xAA, CHR 0x85]"

definition KO_COLUMN_DESCRIPTION :: string where
  "KO_COLUMN_DESCRIPTION = [CHR 0xEC, CHR 0xBB, CHR 0xAC, CHR 0xEB, CHR 0x9F, CHR 0xBC, CHR ''_'',
     CHR 0xEC, CHR 0x84, CHR 0xA4, CHR 0xEB, CHR 0xAA, CHR 0x85]"

definition KO_KEY :: string where
  "KO_KEY = ''key_'' @ [CHR 0xEC, CHR 0x97, CHR 0xAC, CHR 0xEB, CHR 0xB6, CHR 0x80]"

definition KO_NULLABLE :: string where
  "KO_NULLABLE = ''null_'' @ [CHR 0xED, CHR 0x97, CHR 0x88, CHR 0xEC, CHR 0x9A, CHR 0xA9]"

definition KO_PARTITION :: string where
  "KO_PARTITION = [CHR 0xED, CHR 0x8C, CHR 0x8C, CHR 0xED, CHR 0x8B, CHR 0xB0, CHR 0xEC, CHR 0x85, CHR 0x98,
     CHR ''_'', CHR 0xEA, CHR 0xB8, CHR 0xB0, CHR 0xEC, CHR 0xA4, CHR 0x80, CHR ''_'', CHR 0xEC, CHR 0xBB,
     CHR 0xAC, CHR 0xEB, CHR 0x9F, CHR 0xBC]"

definition KOREAN_METADATA_LABELS :: "(string, string) dict" where
  "KOREAN_METADATA_LABELS =
     [([CHR 0xEC, CHR 0xA0, CHR 0x80, CHR 0xEC, CHR 0x9E, CHR 0xA5, CHR ''_'', CHR 0xED, CHR 0x94, CHR 0x8C,
        CHR 0xEB, CHR 0x9E, CHR 0xAB, CHR 0xED, CHR 0x8F, CHR 0xBC, CHR ''_'', CHR 0xEB, CHR 0xB0, CHR 0x8F,
        CHR ''_'', CHR 0xEC, CHR 0x84, CHR 0xB8, CHR 0xEB, CHR 0xB6, CHR 0x80, CHR ''_'', CHR 0xEC, CHR 0x9C,
        CHR 0x84, CHR 0xEC, CHR 0xB9, CHR 0x98], ''location''),
      ([CHR 0xED, CHR 0x85, CHR 0x8C, CHR 0xEC, CHR 0x9D, CHR 0xB4, CHR 0xEB, CHR 0xB8, CHR 0x94, CHR ''_'',
        CHR 0xEB, CHR 0xAA, CHR 0x85], ''table''),
      ([CHR 0xED, CHR 0x85, CHR 0x8C, CHR 0xEC, CHR 0x9D, CHR 0xB4, CHR 0xEB, CHR 0xB8, CHR 0x94, CHR ''_'',
        CHR 0xEC, CHR 0x84, CHR 0xA4, CHR 0xEB, CHR 0xAA, CHR 0x85], ''description'')]"

definition KOREAN_REQUIRED_HEADERS :: "string list" where
  "KOREAN_REQUIRED_HEADERS = [''column'', ''description'', ''data_type'', ''key'', ''nullable'']"

text \<open>One cell of a candidate header row: the headers found so far and the last data column.\<close>

definition korean_header_cell ::
  "(string, nat) dict \<times> nat option \<Rightarrow> nat \<times> sheet_cell \<Rightarrow> (string, nat) dict \<times> nat option" where
  "korean_header_cell st ic =
     (case (st, ic) of ((headers, data_end), (i, c)) \<Rightarrow>
        if sc_value c = CNone then (headers, data_end)
        else
          let normalized = normalize_header (sc_value c)
          in if normalized = KO_COLUMN_NAME then (dict_set ''column'' i headers, data_end)
             else if starts_with KO_COLUMN_DESCRIPTION normalized then (dict_set ''description'' i headers, data_end)
             else if normalized = ''type'' then (dict_set ''data_type'' i headers, data_end)
             else if normalized = KO_KEY then (dict_set ''key'' i headers, data_end)
             else if normalized = KO_NULLABLE then (dict_set ''nullable'' i headers, data_end)
             else if normalized = KO_PARTITION then (headers, Some i)
             else (headers, data_end))"

definition korean_header_row :: "sheet \<Rightarrow> nat \<Rightarrow> (nat \<times> (string, nat) dict \<times> nat) option" where
  "korean_header_row sh row =
     (let (headers, data_end) = foldl korean_header_cell ([], None) (row_cells sh row)
      in if set KOREAN_REQUIRED_HEADERS \<subseteq> set (dict_keys headers)
         then Some (row, headers, case data_end of Some i \<Rightarrow> i | None \<Rightarrow> Max (set (dict_values headers)))
         else None)"

fun first_some :: "('a \<Rightarrow> 'b option) \<Rightarrow> 'a list \<Rightarrow> 'b option" where
  "first_some f [] = None"
| "first_some f (x # xs) = (case f x of Some y \<Rightarrow> Some y | None \<Rightarrow> first_some f xs)"

definition find_korean_header :: "sheet \<Rightarrow> (nat \<times> (string, nat) dict \<times> nat) option" where
  "find_korean_header sh = first_some (korean_header_row sh) [1..<min (max_row sh) 50 + 1]"

definition find_korean_metadata :: "sheet \<Rightarrow> nat \<Rightarrow> (string, cell_value) dict" where
  "find_korean_metadata sh end_row =
     foldl (\<lambda>m (row, i, c).
         case dict_get KOREAN_METADATA_LABELS (normalize_header (sc_value c)) of
           None \<Rightarrow> m | Some name \<Rightarrow> dict_set name (cell_val sh row (i + 1)) m) []
       (concat (map (\<lambda>row. map (\<lambda>(i, c). (row, i, c)) (row_cells sh row)) [1..<end_row + 1]))"

definition korean_locator :: "cell_value \<Rightarrow> cell_value \<Rightarrow> string \<Rightarrow> string result" where
  "korean_locator location table title =
     (let parts = map (\<lambda>p. str_lower (strip p)) (split_on CHR ''.'' (cell_str location));
          parts = (if length parts = 2 then ''unspecified'' # parts else parts)
      in if length parts \<noteq> 3 \<or> (\<exists>p\<in>set parts. p = [] \<or> CHR ''|'' \<in> set p)
         then Inl (ValueError (''INVALID_KOREAN_DICTIONARY_LOCATION: '' @ title))
         else
           let table_name = str_lower (strip (cell_str table))
           in if table_name = [] \<or> CHR ''|'' \<in> set table_name
              then Inl (ValueError (''INVALID_KOREAN_DICTIONARY_TABLE: '' @ title))
              else Inr (join ''|'' (parts @ [table_name])))"

definition upper_char :: "char \<Rightarrow> char" where
  "upper_char c = (if is_lower c then char_of ((of_char c :: nat) - 32) else c)"

text \<open>\<open>re.findall(r"[A-Z]+", text)\<close>: the maximal runs of capital letters.\<close>

fun capital_runs :: "string \<Rightarrow> string \<Rightarrow> string list" where
  "capital_runs run [] = (if run = [] then [] else [rev run])"
| "capital_runs run (c # s) =
     (if is_upper c then capital_runs (c # run) s
      else (if run = [] then [] else [rev run]) @ capital_runs [] s)"

definition key_tokens :: "string option \<Rightarrow> string list" where
  "key_tokens key_value = (case key_value of None \<Rightarrow> [] | Some k \<Rightarrow> capital_runs [] (map upper_char k))"

definition korean_column ::
  "(nat \<Rightarrow> string) \<Rightarrow> sheet \<Rightarrow> string \<Rightarrow> (string, nat) dict \<Rightarrow> nat \<Rightarrow> nat \<Rightarrow> nat \<Rightarrow> dictionary_column result" where
  "korean_column col_letter sh source_hash headers data_start data_end row =
     bind_ok (required_value sh row headers ''column'') (\<lambda>column_name.
     let tokens = key_tokens (as_optional_text (optional_value sh row headers ''key''));
         name = strip (cell_str column_name)
     in bind_ok (required_value sh row headers ''data_type'') (\<lambda>data_type.
        bind_ok (bind_ok (required_value sh row headers ''nullable'') as_bool) (\<lambda>nullable.
          Inr \<lparr>dc_ordinal = 0, dc_name = name, dc_logical_name = None,
               dc_data_type = strip (cell_str data_type), dc_nullable = nullable,
               dc_primary_key = (''PK'' \<in> set tokens), dc_foreign_key = None,
               dc_description = as_optional_text (optional_value sh row headers ''description''),
               dc_formula = None, dc_comment = None,
               dc_evidence = cell_evidence sh source_hash
                 (col_letter data_start @ nat_str row @ '':'' @ col_letter data_end @ nat_str row) name\<rparr>)))"

text \<open>The rows of the template end at the first blank one.\<close>

definition korean_rows :: "sheet \<Rightarrow> nat \<Rightarrow> nat \<Rightarrow> nat \<Rightarrow> nat list" where
  "korean_rows sh header_row data_start data_end =
     takeWhile (\<lambda>row. \<exists>col\<in>set [data_start..<data_end + 1]. \<not> is_blank (cell_val sh row col))
       [header_row + 1..<max_row sh + 1]"

definition number_columns :: "dictionary_column list \<Rightarrow> dictionary_column list" where
  "number_columns cs = map (\<lambda>(i, c). c\<lparr>dc_ordinal := int i\<rparr>) (enumerate 1 cs)"

definition parse_korean_template_sheet ::
  "(nat \<Rightarrow> string) \<Rightarrow> sheet \<Rightarrow> string \<Rightarrow> dictionary_table list option result" where
  "parse_korean_template_sheet col_letter sh source_hash =
     (case find_korean_header sh of
        None \<Rightarrow> Inr None
      | Some (header_row, headers, data_end) \<Rightarrow>
        (let metadata = find_korean_metadata sh (header_row - 1)
         in if metadata = [] then Inr None
            else case filter (\<lambda>name. case dict_get metadata name of None \<Rightarrow> True | Some v \<Rightarrow> is_blank v)
                        [''location'', ''table''] of
                missing # _ \<Rightarrow> Inl (ValueError
                  (''MISSING_KOREAN_DICTIONARY_METADATA: '' @ sh_title sh @ '':'' @ missing))
              | [] \<Rightarrow>
                bind_ok (korean_locator (the (dict_get metadata ''location'')) (the (dict_get metadata ''table''))
                          (sh_title sh)) (\<lambda>locator.
                let data_start = Min (set (dict_values headers))
                in bind_ok (traverse (korean_column col_letter sh source_hash headers data_start data_end)
                              (korean_rows sh header_row data_start data_end)) (\<lambda>columns.
                   if columns = [] then Inl (ValueError (''EMPTY_KOREAN_DICTIONARY_TABLE: '' @ sh_title sh))
                   else Inr (Some [\<lparr>dt_locator = locator,
                      dt_description = (case dict_get metadata ''description'' of
                          None \<Rightarrow> None | Some v \<Rightarrow> as_optional_text v),
                      dt_columns = number_columns columns\<rparr>])))))"

section \<open>The workbook\<close>

text \<open>The tables collected so far and their descriptions.\<close>

type_synonym collected = "grouped_columns \<times> (string, string option) dict"

definition collect_table :: "collected \<Rightarrow> dictionary_table \<Rightarrow> collected result" where
  "collect_table st t =
     (case st of (grouped, descriptions) \<Rightarrow>
        let previous = (case dict_get descriptions (dt_locator t) of None \<Rightarrow> None | Some d \<Rightarrow> d)
        in if previous \<noteq> None \<and> dt_description t \<noteq> None \<and> previous \<noteq> dt_description t
           then Inl (ValueError (''CONFLICTING_DICTIONARY_TABLE_DESCRIPTION: '' @ dt_locator t))
           else Inr (fold (group_add (dt_locator t)) (dt_columns t) grouped,
                     dict_set (dt_locator t) (if truthy previous then previous else dt_description t)
                       descriptions))"

definition sheet_tables :: "(nat \<Rightarrow> string) \<Rightarrow> string \<Rightarrow> sheet \<Rightarrow> dictionary_table list option result" where
  "sheet_tables col_letter source_hash sh =
     bind_ok (parse_flat_sheet col_letter sh source_hash) (\<lambda>tables.
       case tables of Some ts \<Rightarrow> Inr (Some ts) | None \<Rightarrow> parse_korean_template_sheet col_letter sh source_hash)"

definition collect_sheet ::
  "(nat \<Rightarrow> string) \<Rightarrow> string \<Rightarrow> collected \<times> bool \<Rightarrow> sheet \<Rightarrow> (collected \<times> bool) result" where
  "collect_sheet col_letter source_hash st sh =
     bind_ok (sheet_tables col_letter source_hash sh) (\<lambda>tables.
       case tables of
         None \<Rightarrow> Inr st
       | Some ts \<Rightarrow> bind_ok (fold_ok collect_table (fst st) ts) (\<lambda>c. Inr (c, True)))"

text \<open>The loop of \<open>_validate_unique_columns\<close>: the names seen so far are the state.\<close>

definition validate_unique_columns :: "string \<Rightarrow> dictionary_column list \<Rightarrow> unit result" where
  "validate_unique_columns locator columns =
     bind_ok (fold_ok (\<lambda>seen c. if casefold (dc_name c) \<in> set seen
         then Inl (ValueError (''DUPLICATE_DICTIONARY_COLUMN: '' @ locator @ '':'' @ dc_name c))
         else Inr (casefold (dc_name c) # seen)) [] columns) (\<lambda>_. Inr ())"

definition parse_dictionary :: "(nat \<Rightarrow> string) \<Rightarrow> sheet list \<Rightarrow> string \<Rightarrow> parsed_dictionary result" where
  "parse_dictionary col_letter worksheets source_hash =
     bind_ok (fold_ok (collect_sheet col_letter source_hash) (([], []), False) worksheets)
       (\<lambda>((grouped, descriptions), parsed_sheet).
         if \<not> parsed_sheet then Inl (ValueError ''MISSING_DICTIONARY_HEADERS'')
         else bind_ok (traverse (\<lambda>(locator, cs). validate_unique_columns locator cs) grouped) (\<lambda>_.
           Inr \<lparr>pd_source_hash = source_hash,
                pd_tables = map (\<lambda>locator. \<lparr>dt_locator = locator,
                    dt_description = (case dict_get descriptions locator of None \<Rightarrow> None | Some d \<Rightarrow> d),
                    dt_columns = group_of grouped locator\<rparr>) (sort (dict_keys grouped))\<rparr>))"

section \<open>The columns of a table\<close>

definition numbered :: "dictionary_column list \<Rightarrow> bool" where
  "numbered cs \<longleftrightarrow> cs \<noteq> [] \<and> map dc_ordinal cs = map int [1..<length cs + 1]"

definition grouped_ok :: "grouped_columns \<Rightarrow> bool" where
  "grouped_ok g \<longleftrightarrow> dict_ok g \<and> (\<forall>l cs. dict_get g l = Some cs \<longrightarrow> numbered cs)"

lemma numbered_snoc:
  "cs = [] \<or> numbered cs \<Longrightarrow> numbered (cs @ [c\<lparr>dc_ordinal := int (length cs) + 1\<rparr>])"
  by (auto simp: numbered_def)

lemma group_add_ok: "grouped_ok g \<Longrightarrow> grouped_ok (group_add l c g)"
  using numbered_snoc [of "group_of g l" c]
  by (auto simp: grouped_ok_def group_add_def group_of_def split: option.splits)

lemma group_fold_ok: "grouped_ok g \<Longrightarrow> grouped_ok (fold (group_add l) cs g)"
  by (induction cs arbitrary: g) (auto intro: group_add_ok)

lemma collect_table_ok: "grouped_ok (fst st) \<Longrightarrow> collect_table st t = Inr st' \<Longrightarrow> grouped_ok (fst st')"
  by (auto simp: collect_table_def Let_def group_fold_ok split: prod.splits if_splits)

lemma collect_sheet_ok:
  assumes "grouped_ok (fst (fst st))" and "collect_sheet col_letter h st sh = Inr st'"
  shows "grouped_ok (fst (fst st'))"
proof -
  from assms(2) obtain tables where t: "(case tables of None \<Rightarrow> Inr st
      | Some ts \<Rightarrow> bind_ok (fold_ok collect_table (fst st) ts) (\<lambda>c. Inr (c, True))) = Inr st'"
    by (auto simp: collect_sheet_def)
  show ?thesis
  proof (cases tables)
    case (Some ts)
    with t obtain c where c: "fold_ok collect_table (fst st) ts = Inr c" and "st' = (c, True)" by auto
    from c have "grouped_ok (fst c)"
      by (rule fold_ok_invariant [where P = "\<lambda>c. grouped_ok (fst c)"]) (use assms(1) collect_table_ok in auto)
    with \<open>st' = (c, True)\<close> show ?thesis by simp
  qed (use t assms(1) in simp)
qed

lemma unique_columns_iff:
  "validate_unique_columns l cs = Inr () \<longleftrightarrow> distinct (map (\<lambda>c. casefold (dc_name c)) cs)"
proof -
  have "(\<exists>t. fold_ok (\<lambda>seen c. if casefold (dc_name c) \<in> set seen
         then Inl (ValueError (''DUPLICATE_DICTIONARY_COLUMN: '' @ l @ '':'' @ dc_name c))
         else Inr (casefold (dc_name c) # seen)) seen cs = Inr t)
      \<longleftrightarrow> distinct (map (\<lambda>c. casefold (dc_name c)) cs) \<and> (\<forall>c\<in>set cs. casefold (dc_name c) \<notin> set seen)" for seen
  proof (induction cs arbitrary: seen)
    case (Cons c cs)
    have "(\<forall>x\<in>set cs. casefold (dc_name x) \<notin> set (casefold (dc_name c) # seen)) \<longleftrightarrow>
        casefold (dc_name c) \<notin> (\<lambda>x. casefold (dc_name x)) ` set cs \<and> (\<forall>x\<in>set cs. casefold (dc_name x) \<notin> set seen)"
      by (auto simp: image_iff)
    with Cons.IH [of "casefold (dc_name c) # seen"] show ?case
      by (cases "casefold (dc_name c) \<in> set seen") (auto simp only: fold_ok.simps if_True if_False sum.case
          list.set list.map distinct.simps list.simps set_map insert_iff simp_thms ball_simps)
  qed simp
  from this [of "[]"] show ?thesis by (simp add: validate_unique_columns_def)
qed

text \<open>A dictionary that was read has its tables in strictly increasing order of their locators,
  every table has columns, numbered from one without gaps, and no two columns of a table have
  names that differ in letter case only.\<close>

theorem parse_dictionary_wf:
  assumes "parse_dictionary col_letter worksheets source_hash = Inr d"
  shows "sorted_wrt (<) (map dt_locator (pd_tables d))
    \<and> (\<forall>t\<in>set (pd_tables d). dt_columns t \<noteq> []
        \<and> map dc_ordinal (dt_columns t) = map int [1..<length (dt_columns t) + 1]
        \<and> distinct (map (\<lambda>c. casefold (dc_name c)) (dt_columns t)))"
proof -
  define finish where "finish = (\<lambda>((grouped, descriptions), parsed_sheet).
    if \<not> parsed_sheet then Inl (ValueError ''MISSING_DICTIONARY_HEADERS'')
    else bind_ok (traverse (\<lambda>(locator, cs). validate_unique_columns locator cs) grouped) (\<lambda>_.
      Inr \<lparr>pd_source_hash = source_hash,
           pd_tables = map (\<lambda>locator. \<lparr>dt_locator = locator,
               dt_description = (case dict_get descriptions locator of None \<Rightarrow> None | Some d \<Rightarrow> d),
               dt_columns = group_of grouped locator\<rparr>) (sort (dict_keys grouped))\<rparr>))"
  obtain grouped descriptions flag where
    run: "fold_ok (collect_sheet col_letter source_hash) (([], []), False) worksheets = Inr ((grouped, descriptions), flag)"
    and fin: "finish ((grouped, descriptions), flag) = Inr d"
    using assms unfolding parse_dictionary_def finish_def [symmetric] by auto
  from fin have u: "\<exists>us. traverse (\<lambda>(locator, cs). validate_unique_columns locator cs) grouped = Inr us"
    and d: "pd_tables d = map (\<lambda>locator. \<lparr>dt_locator = locator,
          dt_description = (case dict_get descriptions locator of None \<Rightarrow> None | Some d \<Rightarrow> d),
          dt_columns = group_of grouped locator\<rparr>) (sort (dict_keys grouped))"
    unfolding finish_def by (auto split: if_splits)
  from run have "grouped_ok (fst (fst ((grouped, descriptions), flag)))"
  proof (rule fold_ok_invariant [where P = "\<lambda>st. grouped_ok (fst (fst st))"])
    show "grouped_ok (fst (fst (([], []), False)))" by (simp add: grouped_ok_def)
  qed (rule collect_sheet_ok)
  then have ok: "dict_ok grouped" "\<And>l cs. dict_get grouped l = Some cs \<Longrightarrow> numbered cs"
    by (auto simp: grouped_ok_def)
  from ok(1) have "sorted_wrt (<) (sort (dict_keys grouped))"
    by (simp add: dict_ok_def strict_sorted_iff)
  moreover have "numbered (dt_columns t) \<and> distinct (map (\<lambda>c. casefold (dc_name c)) (dt_columns t))"
    if t: "t \<in> set (pd_tables d)" for t
  proof -
    from t obtain l cs' where "(l, cs') \<in> set grouped" and l: "dt_columns t = group_of grouped l"
      by (fastforce simp: d)
    then obtain cs where cs: "dict_get grouped l = Some cs" by (meson weak_map_of_SomeI)
    then have "(l, cs) \<in> set grouped" by (rule map_of_SomeD)
    with u have "validate_unique_columns l cs = Inr ()" unfolding traverse_ok_iff by fastforce
    with ok(2) [OF cs] l cs show ?thesis by (simp add: group_of_def unique_columns_iff)
  qed
  ultimately show ?thesis by (auto simp: d numbered_def comp_def)
qed

section \<open>No row is lost\<close>

definition all_columns :: "grouped_columns \<Rightarrow> dictionary_column list" where
  "all_columns g = concat (dict_values g)"

lemma group_add_columns:
  "mset (map dc_name (all_columns (group_add l c g))) = add_mset (dc_name c) (mset (map dc_name (all_columns g)))"
proof -
  have "mset (map dc_name (concat (dict_values (dict_set l (cs @ [c']) g))))
      = add_mset (dc_name c') (mset (map dc_name (concat (dict_values g))))"
    if "cs = (case dict_get g l of None \<Rightarrow> [] | Some v \<Rightarrow> v)" for cs and c' :: dictionary_column
    using that by (induction g) auto
  from this [of "group_of g l" "c\<lparr>dc_ordinal := int (length (group_of g l)) + 1\<rparr>"] show ?thesis
    by (simp add: all_columns_def group_add_def group_of_def)
qed

text \<open>The name cell of a row of a flat sheet.\<close>

definition row_name :: "sheet \<Rightarrow> nat \<Rightarrow> cell_value" where
  "row_name sh row = optional_value sh row (flat_headers sh) ''column''"

text \<open>Reading a flat sheet either fails or keeps every described column: the columns of its tables
  are, one for one, the rows below the header whose column-name cell is not blank.\<close>

theorem flat_sheet_keeps_rows:
  assumes "parse_flat_sheet col_letter sh source_hash = Inr (Some ts)"
  shows "mset (map dc_name (concat (map dt_columns ts)))
    = mset (map (\<lambda>row. strip (cell_str (row_name sh row)))
        (filter (\<lambda>row. \<not> is_blank (row_name sh row)) [2..<max_row sh + 1]))"
proof -
  let ?f = "\<lambda>row. strip (cell_str (row_name sh row))" and ?keep = "\<lambda>row. \<not> is_blank (row_name sh row)"
  from assms obtain g where
    g: "fold_ok (flat_row col_letter sh source_hash (flat_headers sh)) [] [2..<max_row sh + 1] = Inr g"
    and ts: "ts = tables_of g"
    by (auto simp: parse_flat_sheet_def Let_def split: if_splits)
  from g have "mset (map dc_name (all_columns g)) = mset (map ?f (filter ?keep [2..<max_row sh + 1]))"
  proof (rule fold_ok_invariant_prefix
      [where P = "\<lambda>rows g. mset (map dc_name (all_columns g)) = mset (map ?f (filter ?keep rows))"])
    fix rows row g g'
    assume IH: "mset (map dc_name (all_columns g)) = mset (map ?f (filter ?keep rows))"
      and step: "flat_row col_letter sh source_hash (flat_headers sh) g row = Inr g'"
    show "mset (map dc_name (all_columns g')) = mset (map ?f (filter ?keep (rows @ [row])))"
    proof (cases "is_blank (row_name sh row)")
      case False
      with step obtain l c where "g' = group_add l c g" "dc_name c = ?f row"
        by (auto simp: flat_row_def row_name_def Let_def flat_column_def)
      with False IH group_add_columns [of l c g] show ?thesis by simp
    qed (use IH step in \<open>auto simp: flat_row_def row_name_def Let_def\<close>)
  qed (simp add: all_columns_def)
  moreover have "concat (map dt_columns ts) = all_columns g"
    by (simp add: ts tables_of_def all_columns_def comp_def case_prod_unfold)
  ultimately show ?thesis by simp
qed

section \<open>A sample sheet\<close>

definition text_cell :: "string \<Rightarrow> sheet_cell" where
  "text_cell s = \<lparr>sc_value = CStr s, sc_comment = None\<rparr>"

definition sheet1 :: sheet where
  "sheet1 = \<lparr>sh_title = ''Sheet1'', sh_rows =
     [map text_cell [''Platform'', ''Catalog'', ''Schema'', ''Table'', ''Column'', ''Data Type'', ''Nullable'', ''PK''],
      map text_cell [''BQ'', ''main'', ''dw'', ''orders'', ''id'', ''BIGINT'', ''no'', ''yes'']]\<rparr>"

lemma sheet1_parses:
  "is_ok (parse_dictionary (\<lambda>_. ''A'') [sheet1] ''h'')" "parse_flat_sheet (\<lambda>_. ''A'') sheet1 ''h'' \<noteq> Inr None"
  "is_ok (parse_flat_sheet (\<lambda>_. ''A'') sheet1 ''h'')"
  by code_simp+

theorem parse_dictionary_wf_witness:
  "\<exists>d. parse_dictionary (\<lambda>_. ''A'') [sheet1] ''h'' = Inr d \<and> (\<forall>t\<in>set (pd_tables d). dt_columns t \<noteq> [])"
proof -
  obtain d where d: "parse_dictionary (\<lambda>_. ''A'') [sheet1] ''h'' = Inr d"
    using sheet1_parses(1) unfolding is_ok_iff by blast
  from parse_dictionary_wf [OF d] d show ?thesis by blast
qed

theorem flat_sheet_keeps_rows_witness:
  "\<exists>ts. parse_flat_sheet (\<lambda>_. ''A'') sheet1 ''h'' = Inr (Some ts)
     \<and> mset (map dc_name (concat (map dt_columns ts))) = {#''id''#}"
proof -
  obtain ts where ts: "parse_flat_sheet (\<lambda>_. ''A'') sheet1 ''h'' = Inr (Some ts)"
    using sheet1_parses(2,3) unfolding is_ok_iff by (metis not_None_eq)
  have "map (\<lambda>row. strip (cell_str (row_name sheet1 row)))
        (filter (\<lambda>row. \<not> is_blank (row_name sheet1 row)) [2..<max_row sheet1 + 1]) = [''id'']"
    by code_simp
  from flat_sheet_keeps_rows [OF ts, unfolded this] ts show ?thesis by simp
qed

end
