(* ===== verification/Versioning.thy ===== *)
theory Versioning
  imports Models
begin

text \<open>
  Numeric version transitions (\<open>versioning.py\<close>): the decision procedure \<open>plan_version\<close> with
  every branch of the code, a one-line characterisation of the transitions it allows, and the
  version history of an entity whose version only moves by allowed transitions, as a step
  relation.
\<close>

section \<open>The decision procedure\<close>

datatype version_outcome = ALLOW | BLOCK

record version_decision =
  vd_outcome :: version_outcome
  vd_code :: string
  vd_current_version :: "int option"
  vd_base_version :: "int option"
  vd_proposed_version :: "int option"
  vd_expected_version :: "int option"
  vd_changed :: bool

definition next_version :: "int \<Rightarrow> int option" where
  "next_version current = (if current = 999 then None else Some (current + 1))"

definition validate_input_version :: "string \<Rightarrow> int option \<Rightarrow> unit result" where
  "validate_input_version name value =
     (case value of
        None \<Rightarrow> Inr ()
      | Some v \<Rightarrow> (if \<not> (1 \<le> v \<and> v \<le> 999) then Inl (ValueError (name @ '' must be between 1 and 999''))
                    else Inr ()))"

definition decision ::
  "version_outcome \<Rightarrow> string \<Rightarrow> int option \<Rightarrow> int option \<Rightarrow> int option \<Rightarrow> int option \<Rightarrow> bool \<Rightarrow> version_decision"
where
  "decision outcome code current base proposed expected changed =
     \<lparr>vd_outcome = outcome, vd_code = code, vd_current_version = current, vd_base_version = base,
      vd_proposed_version = proposed, vd_expected_version = expected, vd_changed = changed\<rparr>"

definition decide_version ::
  "int option \<Rightarrow> bool \<Rightarrow> int option \<Rightarrow> int option \<Rightarrow> version_decision" where
  "decide_version current_version changed base_version proposed_version =
     (case current_version of
        None \<Rightarrow>
          (let expected = 1;
               d = (\<lambda>outcome code.
                 decision outcome code current_version base_version proposed_version (Some expected) changed)
           in if base_version \<noteq> None then d BLOCK ''VERSION_STALE''
              else if proposed_version \<notin> {None, Some expected} then d BLOCK ''VERSION_GAP''
              else d ALLOW ''NEW_V1'')
      | Some current \<Rightarrow>
          (let expected = (if \<not> changed then Some current else next_version current);
               d = (\<lambda>outcome code.
                 decision outcome code current_version base_version proposed_version expected changed)
           in if base_version \<noteq> current_version then d BLOCK ''VERSION_STALE''
              else if changed \<and> expected = None then d BLOCK ''VERSION_LIMIT_REACHED''
              else if \<not> changed then
                (if proposed_version \<in> {None, current_version} then d ALLOW ''NO_CHANGE''
                 else d BLOCK ''VERSION_NO_CHANGE'')
              else
                (case proposed_version of
                   None \<Rightarrow> d ALLOW ''ADVANCE''
                 | Some p \<Rightarrow>
                     (if Some p = expected then d ALLOW ''ADVANCE''
                      else d BLOCK (if p \<le> current then ''VERSION_COLLISION'' else ''VERSION_GAP'')))))"

definition plan_version ::
  "int option \<Rightarrow> bool \<Rightarrow> int option \<Rightarrow> int option \<Rightarrow> version_decision result" where
  "plan_version current_version changed base_version proposed_version =
     bind_ok (validate_input_version ''current_version'' current_version) (\<lambda>_.
     bind_ok (validate_input_version ''base_version'' base_version) (\<lambda>_.
     bind_ok (validate_input_version ''proposed_version'' proposed_version) (\<lambda>_.
       Inr (decide_version current_version changed base_version proposed_version))))"

section \<open>What is allowed\<close>

lemma validate_input_version_Inr [simp]:
  "validate_input_version name v = Inr u \<longleftrightarrow> opt_ok Version v"
  by (cases v) (auto simp: validate_input_version_def Version_def)

lemma plan_version_Inr_iff:
  "plan_version c ch b p = Inr d \<longleftrightarrow>
     opt_ok Version c \<and> opt_ok Version b \<and> opt_ok Version p \<and> d = decide_version c ch b p"
  by (auto simp: plan_version_def)

text \<open>The version an allowed transition leads to: 1 for a new entity, else 0 or 1 further on.\<close>

definition target_version :: "int option \<Rightarrow> bool \<Rightarrow> int option" where
  "target_version current changed =
     (case current of None \<Rightarrow> Some 1 | Some c \<Rightarrow> if changed then next_version c else Some c)"

lemmas decide_simps = decide_version_def decision_def target_version_def next_version_def

lemma decide_version_fields [simp]:
  "vd_current_version (decide_version c ch b p) = c"
  "vd_base_version (decide_version c ch b p) = b"
  "vd_proposed_version (decide_version c ch b p) = p"
  "vd_expected_version (decide_version c ch b p) = target_version c ch"
  "vd_changed (decide_version c ch b p) = ch"
proof -
  have "\<exists>oc code. decide_version c ch b p = decision oc code c b p (target_version c ch) ch"
    unfolding decide_version_def target_version_def Let_def
    by (cases c) (cases p, (cases ch, auto)[1], cases ch, auto)+
  then show
    "vd_current_version (decide_version c ch b p) = c"
    "vd_base_version (decide_version c ch b p) = b"
    "vd_proposed_version (decide_version c ch b p) = p"
    "vd_expected_version (decide_version c ch b p) = target_version c ch"
    "vd_changed (decide_version c ch b p) = ch"
    by (auto simp: decision_def)
qed

lemma decide_allow_iff:
  "vd_outcome (decide_version current changed base proposed) = ALLOW \<longleftrightarrow>
     base = current \<and> target_version current changed \<noteq> None
     \<and> (proposed = None \<or> proposed = target_version current changed)"
  by (cases current; cases proposed) (auto simp: decide_simps Let_def)

lemma allowed_target:
  "plan_version current changed base (Some p) = Inr d \<Longrightarrow> vd_outcome d = ALLOW
     \<Longrightarrow> target_version current changed = Some p"
  by (auto simp: plan_version_Inr_iff decide_allow_iff)

text \<open>A transition is allowed exactly when the base is the current version (optimistic
  locking), a next version exists, and the proposal is absent or equal to it.\<close>

theorem plan_version_allow_iff:
  assumes "plan_version current changed base proposed = Inr d"
  shows "vd_outcome d = ALLOW \<longleftrightarrow>
    base = current \<and> target_version current changed \<noteq> None
    \<and> (proposed = None \<or> proposed = target_version current changed)"
  using assms by (auto simp: plan_version_Inr_iff decide_allow_iff)

theorem plan_version_allow_iff_witness:
  "\<exists>d. plan_version (Some 4) True (Some 4) (Some 5) = Inr d \<and> vd_outcome d = ALLOW"
proof -
  have "plan_version (Some 4) True (Some 4) (Some 5) = Inr (decide_version (Some 4) True (Some 4) (Some 5))"
    by (simp add: plan_version_Inr_iff Version_def)
  from plan_version_allow_iff [OF this] this show ?thesis
    by (simp add: target_version_def next_version_def)
qed

text \<open>Every refusal carries the code of the first rule it breaks: stale base, exhausted
  numbers, a proposal for unchanged content, a reused number, a skipped number.\<close>

theorem plan_version_block_codes:
  assumes "plan_version current changed base proposed = Inr d" and "vd_outcome d = BLOCK"
  shows "vd_code d =
    (if base \<noteq> current then ''VERSION_STALE''
     else if current \<noteq> None \<and> changed \<and> current = Some 999 then ''VERSION_LIMIT_REACHED''
     else if current \<noteq> None \<and> \<not> changed then ''VERSION_NO_CHANGE''
     else if current \<noteq> None \<and> the proposed \<le> the current then ''VERSION_COLLISION''
     else ''VERSION_GAP'')"
proof -
  from assms(1) have d: "d = decide_version current changed base proposed"
    by (simp add: plan_version_Inr_iff)
  show ?thesis
    using assms(2) by (cases current; cases proposed) (auto simp: d decide_simps Let_def split: if_splits)
qed

theorem plan_version_block_codes_witness:
  "\<exists>d. plan_version (Some 4) True (Some 4) (Some 3) = Inr d \<and> vd_code d = ''VERSION_COLLISION''"
proof -
  let ?d = "decide_version (Some 4) True (Some 4) (Some 3)"
  have p: "plan_version (Some 4) True (Some 4) (Some 3) = Inr ?d"
    by (simp add: plan_version_Inr_iff Version_def)
  have b: "vd_outcome ?d = BLOCK" by (simp add: decide_simps)
  from plan_version_block_codes [OF p b] p show ?thesis by simp
qed

section \<open>Version histories\<close>

text \<open>
  One processing run of an entity: its current version and whether its content changed give a
  decision; if it is allowed the registry stores the version that the decision expects.
\<close>

inductive version_step :: "int option \<Rightarrow> bool \<Rightarrow> int option \<Rightarrow> bool" where
  allowed: "plan_version current changed base proposed = Inr d \<Longrightarrow> vd_outcome d = ALLOW \<Longrightarrow>
    version_step current changed (vd_expected_version d)"

inductive_cases version_stepE: "version_step current changed next"

text \<open>A history: the list of the runs' \<open>changed\<close> flags and the version they lead to.\<close>

inductive version_history :: "bool list \<Rightarrow> int option \<Rightarrow> bool" where
  unregistered: "version_history [] None"
| run: "version_history flags current \<Longrightarrow> version_step current changed next \<Longrightarrow>
    version_history (flags @ [changed]) next"

lemma version_step_target:
  "version_step current changed next \<Longrightarrow> next = target_version current changed \<and> next \<noteq> None
     \<and> opt_ok Version current"
  by (erule version_stepE) (auto simp: plan_version_Inr_iff plan_version_allow_iff)

lemma version_step_iff:
  "version_step current changed next \<longleftrightarrow>
     opt_ok Version current \<and> target_version current changed \<noteq> None \<and> next = target_version current changed"
proof
  assume r: "opt_ok Version current \<and> target_version current changed \<noteq> None
      \<and> next = target_version current changed"
  let ?d = "decide_version current changed current None"
  have p: "plan_version current changed current None = Inr ?d"
    using r by (simp add: plan_version_Inr_iff)
  have "vd_outcome ?d = ALLOW"
    using r by (simp add: plan_version_allow_iff [OF p])
  with p have "version_step current changed (vd_expected_version ?d)" by (rule allowed)
  with r show "version_step current changed next" by simp
qed (use version_step_target in blast)

definition changes :: "bool list \<Rightarrow> nat" where
  "changes flags = length (filter id flags)"

text \<open>An entity's version is one more than the number of runs that changed it after its
  registration, and it exists exactly while that stays below the three-digit limit: no
  history skips, reuses or loses a number.\<close>

theorem version_history_count:
  "version_history flags v \<longleftrightarrow>
     (case flags of [] \<Rightarrow> v = None
      | first # rest \<Rightarrow> changes rest \<le> 998 \<and> v = Some (1 + int (changes rest)))"
proof (induction flags arbitrary: v rule: rev_induct)
  case Nil
  then show ?case by (auto intro: unregistered elim: version_history.cases)
next
  case (snoc f fs)
  have "version_history (fs @ [f]) v \<longleftrightarrow> (\<exists>u. version_history fs u \<and> version_step u f v)"
    by (auto intro: run elim: version_history.cases)
  also have "\<dots> \<longleftrightarrow> (\<exists>u. (case fs of [] \<Rightarrow> u = None
      | first # rest \<Rightarrow> changes rest \<le> 998 \<and> u = Some (1 + int (changes rest)))
      \<and> version_step u f v)" by (simp only: snoc)
  also have "\<dots> \<longleftrightarrow> (case fs @ [f] of [] \<Rightarrow> v = None
      | first # rest \<Rightarrow> changes rest \<le> 998 \<and> v = Some (1 + int (changes rest)))"
    by (cases fs) (auto simp: version_step_iff target_version_def next_version_def changes_def
        Version_def split: if_splits)
  finally show ?case .
qed

end
