(* ===== verification/Drafts.thy ===== *)
theory Drafts
  imports Registry Dictionary Versioning
begin

text \<open>
  The physical side of the pipeline (\<open>pipeline.py\<close>): the configuration, the match of dictionary
  tables and columns with what the registry knows, the table records with their content hashes
  and versions, and the links between a product and its tables. New identifiers come from an
  entropy source, read one value per allocation.
\<close>

section \<open>Configuration\<close>

record table_config =
  tc_locator :: string
  tc_table_id :: "string option"
  tc_version :: "int option"
  tc_base_version :: "int option"
  tc_usage :: usage
  tc_required :: bool

record product_config =
  pc_operation :: operation
  pc_product_id :: string
  pc_product_key :: string
  pc_version :: int
  pc_base_version :: "int option"
  pc_display_name :: string
  pc_description :: "string option"
  pc_synonyms :: "string list"
  pc_changeset_id :: "string option"
  pc_tables :: "table_config list"

definition parse_locator :: "string \<Rightarrow> table_locator result" where
  "parse_locator value =
     (case split_on CHR ''|'' value of
        [a, b, c, d] \<Rightarrow> TableLocator a b c d
      | _ \<Rightarrow> Inl (ValueError ''table locator must be platform|catalog|schema|table''))"

definition TableConfig :: "table_config \<Rightarrow> table_config result" where
  "TableConfig c =
     (if \<not> opt_ok Version (tc_version c) \<or> \<not> opt_ok Version (tc_base_version c) then Inl field_error
      else case parse_locator (tc_locator c) of
          Inl e \<Rightarrow> Inl (ValidationError (exn_message e)) | Inr _ \<Rightarrow> Inr c)"

definition ProductConfig :: "product_config \<Rightarrow> product_config result" where
  "ProductConfig c =
     (if \<not> (ProductId (pc_product_id c) \<and> Version (pc_version c) \<and> opt_ok Version (pc_base_version c))
      then Inl field_error
      else bind_ok (traverse TableConfig (pc_tables c)) (\<lambda>_. Inr c))"

text \<open>\<open>_load_config\<close>: None is a missing file; the YAML reader's result is the argument.\<close>

definition load_config :: "product_config option \<Rightarrow> product_config result" where
  "load_config payload =
     (case payload of
        None \<Rightarrow> Inl (PipelineValidationError ''MISSING_PRODUCT_CONFIG'')
      | Some p \<Rightarrow> bind_ok (ProductConfig p) (\<lambda>c.
          if pc_operation c = Retire then Inl (PipelineValidationError ''RETIRE_NOT_SUPPORTED'') else Inr c))"

definition resolve_existing_product :: "product_config \<Rightarrow> registry \<Rightarrow> product_record option" where
  "resolve_existing_product config reg = get_product reg (pc_product_id config)"

section \<open>Fresh identifiers\<close>

text \<open>The clock and the random bits of each allocation, and how many were made.\<close>

type_synonym entropy = "nat \<Rightarrow> int \<times> int"

definition fresh :: "entropy \<Rightarrow> string \<Rightarrow> nat \<Rightarrow> (string \<times> nat) result" where
  "fresh ent prefix n =
     bind_ok (new_id prefix None None (fst (ent n)) (snd (ent n))) (\<lambda>i. Inr (i, n + 1))"

section \<open>Table drafts\<close>

record table_draft =
  td_config :: table_config
  td_dictionary :: dictionary_table
  td_table_id :: string
  td_locator :: table_locator
  td_description :: "string option"
  td_columns :: "column_ir list"
  td_column_records :: "column_record list"

definition same_column :: "string \<Rightarrow> column_record \<Rightarrow> bool" where
  "same_column name c \<longleftrightarrow> casefold name = casefold (cr_name c) \<or> casefold name \<in> set (map casefold (cr_aliases c))"

definition ColumnIR :: "column_ir \<Rightarrow> column_ir result" where
  "ColumnIR c =
     (if ColumnId (ci_column_id c) \<and> ci_ordinal c > 0 \<and> ci_evidence c \<noteq> [] then Inr c else Inl field_error)"

definition draft_column_ir :: "string \<Rightarrow> dictionary_column \<Rightarrow> column_ir" where
  "draft_column_ir i c =
     \<lparr>ci_column_id = i, ci_ordinal = dc_ordinal c, ci_name = dc_name c, ci_logical_name = dc_logical_name c,
      ci_data_type = dc_data_type c, ci_nullable = dc_nullable c, ci_primary_key = dc_primary_key c,
      ci_unique = False, ci_description = dc_description c, ci_foreign_key = dc_foreign_key c,
      ci_formula = dc_formula c, ci_comment = dc_comment c, ci_synonyms = [], ci_evidence = [dc_evidence c]\<rparr>"

text \<open>One turn of the loop over the columns of a table. The state is what was built and the
  number of identifiers allocated so far.\<close>

definition resolve_column ::
  "entropy \<Rightarrow> column_record list \<Rightarrow> (column_record list \<times> column_ir list) \<times> nat \<Rightarrow> dictionary_column
    \<Rightarrow> ((column_record list \<times> column_ir list) \<times> nat) result" where
  "resolve_column ent existing_columns st c =
     (case st of ((records, irs), n) \<Rightarrow>
      let matched = find (same_column (dc_name c)) existing_columns
      in bind_ok (case matched of
             Some m \<Rightarrow> (if cr_status m = RETIRED
                        then Inl (PipelineValidationError (''RETIRED_COLUMN_REUSE: '' @ cr_column_id m))
                        else Inr (cr_column_id m, n))
           | None \<Rightarrow> fresh ent ''col'' n) (\<lambda>(column_id, n').
         bind_ok (ColumnRecord column_id (dc_name c) (case matched of Some m \<Rightarrow> cr_aliases m | None \<Rightarrow> []) ACTIVE)
           (\<lambda>record.
         bind_ok (ColumnIR (draft_column_ir column_id c)) (\<lambda>ir.
           Inr ((records @ [record], irs @ [ir]), n')))))"

definition retire_column :: "column_record \<Rightarrow> column_record" where
  "retire_column c = c\<lparr>cr_status := RETIRED\<rparr>"

definition resolve_columns ::
  "entropy \<Rightarrow> column_record list \<Rightarrow> dictionary_column list \<Rightarrow> nat
    \<Rightarrow> ((column_record list \<times> column_ir list) \<times> nat) result" where
  "resolve_columns ent existing_columns columns n =
     bind_ok (fold_ok (resolve_column ent existing_columns) (([], []), n) columns) (\<lambda>((records, irs), n').
       let matched_ids = map cr_column_id records
       in Inr ((records @ map retire_column
                  (filter (\<lambda>c. cr_column_id c \<notin> set matched_ids) existing_columns), irs), n'))"

definition default_table_config :: "string \<Rightarrow> table_config" where
  "default_table_config locator =
     \<lparr>tc_locator = locator, tc_table_id = None, tc_version = None, tc_base_version = None,
      tc_usage = SOURCE, tc_required = True\<rparr>"

definition draft_id :: "entropy \<Rightarrow> table_config \<Rightarrow> table_record option \<Rightarrow> nat \<Rightarrow> (string \<times> nat) result" where
  "draft_id ent table_config existing n =
     (if truthy (tc_table_id table_config) then Inr (the (tc_table_id table_config), n)
      else case existing of Some e \<Rightarrow> Inr (tr_table_id e, n) | None \<Rightarrow> fresh ent ''tbl'' n)"

definition draft_table ::
  "entropy \<Rightarrow> registry \<Rightarrow> table_config \<Rightarrow> dictionary_table \<Rightarrow> nat \<Rightarrow> (table_draft \<times> nat) result" where
  "draft_table ent reg table_config t n =
     bind_ok (parse_locator (dt_locator t)) (\<lambda>locator.
     let existing = find (\<lambda>i. locator_key (tr_locator i) = locator_key locator) (tables reg)
     in if existing \<noteq> None \<and> truthy (tc_table_id table_config)
           \<and> tr_table_id (the existing) \<noteq> the (tc_table_id table_config)
        then Inl (PipelineValidationError
          (''TABLE_LOCATOR_CONFLICT: '' @ locator_key locator @ '' -> '' @ tr_table_id (the existing)))
        else bind_ok (draft_id ent table_config existing n) (\<lambda>(table_id, n1).
             bind_ok (resolve_columns ent (case existing of Some e \<Rightarrow> tr_columns e | None \<Rightarrow> []) (dt_columns t) n1)
               (\<lambda>((records, irs), n2).
                Inr (\<lparr>td_config = table_config, td_dictionary = t, td_table_id = table_id,
                       td_locator = locator, td_description = dt_description t, td_columns = irs,
                       td_column_records = records\<rparr>, n2))))"

definition resolve_table ::
  "entropy \<Rightarrow> (string, table_config) dict \<Rightarrow> registry \<Rightarrow> table_draft list \<times> nat \<Rightarrow> dictionary_table
    \<Rightarrow> (table_draft list \<times> nat) result" where
  "resolve_table ent config_by_locator reg st t =
     bind_ok (TableConfig (default_table_config (dt_locator t))) (\<lambda>default.
     bind_ok (draft_table ent reg (case dict_get config_by_locator (dt_locator t) of Some c \<Rightarrow> c | None \<Rightarrow> default)
                t (snd st)) (\<lambda>(d, n).
       Inr (fst st @ [d], n)))"

definition resolve_tables ::
  "entropy \<Rightarrow> product_config \<Rightarrow> parsed_dictionary \<Rightarrow> registry \<Rightarrow> nat \<Rightarrow> (table_draft list \<times> nat) result" where
  "resolve_tables ent config dictionary reg n =
     (let config_by_locator = dict_of (\<lambda>c. str_lower (tc_locator c)) id (pc_tables config);
          dictionary_locators = map dt_locator (pd_tables dictionary)
      in if length config_by_locator \<noteq> length (pc_tables config)
         then Inl (PipelineValidationError ''DUPLICATE_TABLE_CONFIG'')
         else case sort (filter (\<lambda>l. l \<notin> set dictionary_locators) (dict_keys config_by_locator)) of
             unknown # _ \<Rightarrow> Inl (PipelineValidationError (''CONFIG_TABLE_NOT_IN_DICTIONARY: '' @ unknown))
           | [] \<Rightarrow> fold_ok (resolve_table ent config_by_locator reg) ([], n) (pd_tables dictionary))"

section \<open>Table records\<close>

fun py_opt :: "string option \<Rightarrow> py_value" where
  "py_opt None = PNone"
| "py_opt (Some s) = PStr s"

definition py_strings :: "string list \<Rightarrow> py_value" where
  "py_strings xs = PSeq (map PStr xs)"

fun py_of_json :: "json \<Rightarrow> py_value" where
  "py_of_json JNull = PNone"
| "py_of_json (JBool b) = PBool b"
| "py_of_json (JInt i) = PInt i"
| "py_of_json (JFloat r) = PFloat r"
| "py_of_json (JStr s) = PStr s"
| "py_of_json (JArr xs) = PSeq (map py_of_json xs)"
| "py_of_json (JObj d) = PDict (map (\<lambda>(k, v). (k, py_of_json v)) d)"

fun role_value :: "source_role \<Rightarrow> string" where
  "role_value PRODUCT_HTML = ''product_html''"
| "role_value SEMANTIC_DOCUMENT = ''semantic_document''"
| "role_value DICTIONARY_EXCEL = ''dictionary_excel''"

text \<open>\<open>model_dump(mode="json")\<close> of the models that are hashed.\<close>

definition dump_evidence :: "evidence \<Rightarrow> py_value" where
  "dump_evidence e = PDict
     [(''source_hash'', PStr (ev_source_hash e)), (''role'', PStr (role_value (ev_role e))),
      (''locator'', py_of_json (JObj (ev_locator e))), (''excerpt'', py_opt (ev_excerpt e))]"

definition dump_column :: "column_ir \<Rightarrow> py_value" where
  "dump_column c = PDict
     [(''column_id'', PStr (ci_column_id c)), (''ordinal'', PInt (ci_ordinal c)), (''name'', PStr (ci_name c)),
      (''logical_name'', py_opt (ci_logical_name c)), (''data_type'', PStr (ci_data_type c)),
      (''nullable'', PBool (ci_nullable c)), (''primary_key'', PBool (ci_primary_key c)),
      (''unique'', PBool (ci_unique c)), (''description'', py_opt (ci_description c)),
      (''foreign_key'', py_opt (ci_foreign_key c)), (''formula'', py_opt (ci_formula c)),
      (''comment'', py_opt (ci_comment c)), (''synonyms'', py_strings (ci_synonyms c)),
      (''evidence'', PSeq (map dump_evidence (ci_evidence c)))]"

definition dump_locator :: "table_locator \<Rightarrow> py_value" where
  "dump_locator l = PDict
     [(''source_system_id'', PStr (source_system_id l)), (''catalog'', PStr (catalog l)),
      (''schema_name'', PStr (schema_name l)), (''table_name'', PStr (table_name l))]"

definition physical_schema :: "table_draft \<Rightarrow> py_value" where
  "physical_schema d = PSeq (map (\<lambda>c. PDict
     [(''ordinal'', PInt (ci_ordinal c)), (''name'', PStr (ci_name c)), (''data_type'', PStr (ci_data_type c)),
      (''nullable'', PBool (ci_nullable c)), (''primary_key'', PBool (ci_primary_key c))]) (td_columns d))"

definition table_content :: "table_draft \<Rightarrow> py_value" where
  "table_content d = PDict
     [(''locator'', PModel (dump_locator (td_locator d))),
      (''columns'', PSeq (map (\<lambda>c. PModel (dump_column c)) (td_columns d))),
      (''description'', py_opt (td_description d))]"

definition TableIR :: "table_ir \<Rightarrow> table_ir result" where
  "TableIR t =
     (if TableId (ti_table_id t) \<and> Version (ti_table_version t) \<and> ti_columns t \<noteq> [] then Inr t else Inl field_error)"

text \<open>The version of a table that the draft proposes.\<close>

definition proposed_version :: "table_record option \<Rightarrow> bool \<Rightarrow> int option \<Rightarrow> int" where
  "proposed_version existing changed configured =
     (case configured of
        Some v \<Rightarrow> v
      | None \<Rightarrow> (case existing of None \<Rightarrow> 1 | Some e \<Rightarrow> tr_version e + (if changed then 1 else 0)))"

definition draft_source :: "table_locator \<Rightarrow> string" where
  "draft_source l = join ''.'' [catalog l, schema_name l, table_name l]"

definition build_table_record ::
  "library \<Rightarrow> registry \<Rightarrow> table_draft \<Rightarrow> (table_record \<times> table_ir \<times> version_decision) result" where
  "build_table_record L reg d =
     (let existing = get_table reg (td_table_id d)
      in bind_ok (schema_hash L (physical_schema d)) (\<lambda>current_schema_hash.
         bind_ok (canonical_hash L (table_content d)) (\<lambda>current_canonical_hash.
         let changed = (case existing of None \<Rightarrow> True
               | Some e \<Rightarrow> tr_canonical_hash e \<noteq> Some current_canonical_hash);
             proposed = proposed_version existing changed (tc_version (td_config d));
             base = (if tc_base_version (td_config d) \<noteq> None then tc_base_version (td_config d)
                     else map_option tr_version existing)
         in bind_ok (plan_version (map_option tr_version existing) changed base (Some proposed)) (\<lambda>decision.
            bind_ok (TableRecord
              \<lparr>tr_table_id = td_table_id d, tr_locator = td_locator d, tr_version = proposed, tr_status = ACTIVE,
               tr_aliases = (case existing of Some e \<Rightarrow> tr_aliases e | None \<Rightarrow> []),
               tr_columns = td_column_records d, tr_schema_hash = Some current_schema_hash,
               tr_canonical_hash = Some current_canonical_hash\<rparr>) (\<lambda>record.
            bind_ok (TableIR
              \<lparr>ti_table_id = td_table_id d, ti_table_version = proposed,
               ti_dataset_name = table_name (td_locator d), ti_source = draft_source (td_locator d),
               ti_description = td_description d, ti_synonyms = [], ti_columns = td_columns d,
               ti_unique_keys = []\<rparr>) (\<lambda>ir.
              Inr (record, ir, decision)))))))"

definition build_table_records ::
  "library \<Rightarrow> registry \<Rightarrow> table_draft list
    \<Rightarrow> (table_record list \<times> table_ir list \<times> version_decision list) result" where
  "build_table_records L reg drafts =
     bind_ok (traverse (build_table_record L reg) drafts) (\<lambda>xs.
       Inr (map fst xs, map (\<lambda>x. fst (snd x)) xs, map (\<lambda>x. snd (snd x)) xs))"

section \<open>Links\<close>

text \<open>\<open>_build_mappings\<close>: an existing link of the product keeps its identifier per table and usage.\<close>

definition build_mapping ::
  "entropy \<Rightarrow> string \<Rightarrow> (string \<times> usage, product_table_ref) dict \<Rightarrow> product_table_ref list \<times> nat
    \<Rightarrow> table_record \<times> table_draft \<Rightarrow> (product_table_ref list \<times> nat) result" where
  "build_mapping ent product_id existing st td =
     (case (st, td) of ((refs, n), (t, d)) \<Rightarrow>
      bind_ok (case dict_get existing (tr_table_id t, tc_usage (td_config d)) of
          Some m \<Rightarrow> Inr (ref_link_id m, n) | None \<Rightarrow> fresh ent ''lnk'' n) (\<lambda>(link_id, n').
      bind_ok (ProductTableRef
         \<lparr>ref_link_id = link_id, ref_product_id = product_id, ref_table_id = tr_table_id t,
          ref_table_version = tr_version t, ref_usage = tc_usage (td_config d),
          ref_required = tc_required (td_config d), ref_semantic_dataset = None\<rparr>) (\<lambda>m.
        Inr (refs @ [m], n'))))"

definition existing_links :: "string \<Rightarrow> registry \<Rightarrow> (string \<times> usage, product_table_ref) dict" where
  "existing_links product_id reg =
     dict_of (\<lambda>m. (ref_table_id m, ref_usage m)) id (filter (\<lambda>m. ref_product_id m = product_id) (mappings reg))"

definition build_mappings ::
  "entropy \<Rightarrow> string \<Rightarrow> table_record list \<Rightarrow> table_draft list \<Rightarrow> registry \<Rightarrow> nat
    \<Rightarrow> (product_table_ref list \<times> nat) result" where
  "build_mappings ent product_id table_records drafts reg n =
     fold_ok (build_mapping ent product_id (existing_links product_id reg)) ([], n) (zip table_records drafts)"

section \<open>Locators\<close>

lemma TableLocator_id:
  assumes "locator_ok l"
  shows "TableLocator (source_system_id l) (catalog l) (schema_name l) (table_name l) = Inr l"
  using assms by (simp add: TableLocator_def locator_ok_def normalize_part_id)

lemma parse_locator_ok: "parse_locator s = Inr l \<Longrightarrow> locator_ok l"
  by (auto simp: parse_locator_def split: list.splits dest: TableLocator_ok)

text \<open>Parsing a locator gives a normalised locator whose key parses to it again, so a locator text
  and the registry key derived from it name the same table.\<close>

theorem parse_locator_roundtrip:
  assumes "parse_locator s = Inr l"
  shows "locator_ok l \<and> parse_locator (locator_key l) = Inr l"
proof -
  have ok: "locator_ok l" using assms by (rule parse_locator_ok)
  then show ?thesis
    unfolding parse_locator_def locator_key_split [OF ok] by (simp add: TableLocator_id)
qed

lemma locator_text: "parse_locator (''bq|main|dw|Orders'') = Inr locator1"
  by code_simp

theorem parse_locator_roundtrip_witness: "parse_locator (locator_key locator1) = Inr locator1"
  using parse_locator_roundtrip [OF locator_text] by blast

section \<open>Identity of tables and columns\<close>

lemma find_registered:
  assumes "reg_inv reg" and "e \<in> set (tables reg)"
  shows "find (\<lambda>i. table_key i = table_key e) (tables reg) = Some e"
proof -
  have k: "keyed tr_table_id table_key valid_table (rg_tables reg)" and ok: "dict_ok (rg_tables reg)"
    using assms(1) by (simp_all add: reg_inv_def keyed_def)
  have mem: "t \<in> set (tables reg) \<longleftrightarrow> (\<exists>i. dict_get (rg_tables reg) i = Some t)" for t
    unfolding tables_def set_sorted_values by (rule dict_get_values [OF ok])
  let ?P = "\<lambda>i. table_key i = table_key e"
  have "find ?P (tables reg) \<noteq> None" using assms(2) by (auto simp: find_None_iff_ball)
  then obtain t where t: "find ?P (tables reg) = Some t" by blast
  then have t': "t \<in> set (tables reg)" "table_key t = table_key e" using find_SomeD [OF t] by blast+
  then obtain i j where "dict_get (rg_tables reg) i = Some t" "dict_get (rg_tables reg) j = Some e"
    using mem assms(2) by blast
  with keyed_unique [OF k this(1) this(2)] t'(2) have "t = e" by simp
  with t show ?thesis by simp
qed

text \<open>What a resolved column owes to the registered columns of its table.\<close>

definition column_traced :: "column_record list \<Rightarrow> column_ir \<Rightarrow> bool" where
  "column_traced existing ir \<longleftrightarrow>
     (case find (same_column (ci_name ir)) existing of
        Some m \<Rightarrow> ci_column_id ir = cr_column_id m \<and> cr_status m = ACTIVE
      | None \<Rightarrow> ColumnId (ci_column_id ir))"

lemma fresh_pattern: "fresh ent p n = Inr (i, m) \<Longrightarrow> id_pattern p i \<and> m = n + 1"
  by (auto simp: fresh_def dest: new_id_pattern)

lemma resolve_column_step:
  assumes "resolve_column ent ex ((records, irs), n) c = Inr ((records', irs'), n')"
  shows "\<exists>r ir. records' = records @ [r] \<and> irs' = irs @ [ir] \<and> cr_column_id r = ci_column_id ir
    \<and> cr_name r = strip (dc_name c) \<and> column_ok r \<and> ci_name ir = dc_name c \<and> column_traced ex ir"
proof (cases "find (same_column (dc_name c)) ex")
  case None
  with assms show ?thesis
    by (auto simp: resolve_column_def Let_def draft_column_ir_def ColumnIR_def column_traced_def
        dest!: ColumnRecord_Inr fresh_pattern split: if_splits)
next
  case (Some m)
  with assms show ?thesis
    by (cases "cr_status m")
       (auto simp: resolve_column_def Let_def draft_column_ir_def ColumnIR_def column_traced_def
        dest!: ColumnRecord_Inr split: if_splits)
qed

lemma resolve_columns_traced:
  assumes "resolve_columns ent ex columns n = Inr ((records, irs), n')"
  shows "map ci_name irs = map dc_name columns \<and> (\<forall>ir\<in>set irs. column_traced ex ir)
    \<and> (\<forall>c\<in>set ex. \<exists>r\<in>set records. cr_column_id r = cr_column_id c)
    \<and> (\<forall>ir\<in>set irs. \<exists>r\<in>set records. cr_column_id r = ci_column_id ir)"
proof -
  from assms obtain built irs' n'' where
    run: "fold_ok (resolve_column ent ex) (([], []), n) columns = Inr ((built, irs'), n'')"
    and res: "irs = irs'" "records = built @ map retire_column
        (filter (\<lambda>c. cr_column_id c \<notin> cr_column_id ` set built) ex)"
    by (auto simp: resolve_columns_def Let_def)
  let ?P = "\<lambda>(cs :: dictionary_column list) st. map ci_name (snd (fst st)) = map dc_name cs
      \<and> (\<forall>ir\<in>set (snd (fst st)). column_traced ex ir)
      \<and> map cr_column_id (fst (fst st)) = map ci_column_id (snd (fst st))"
  from run have "?P columns ((built, irs'), n'')"
  proof (rule fold_ok_invariant_prefix [where P = ?P])
    fix cs c st st'
    assume P: "?P cs st" and step: "resolve_column ent ex st c = Inr st'"
    obtain rs cs1 m rs' cs2 m' where st: "st = ((rs, cs1), m)" "st' = ((rs', cs2), m')"
      by (metis prod.collapse)
    from resolve_column_step [OF step [unfolded st]] P show "?P (cs @ [c]) st'" by (auto simp: st)
  qed simp
  then have built: "map ci_name irs = map dc_name columns" "\<forall>ir\<in>set irs. column_traced ex ir"
    "map cr_column_id built = map ci_column_id irs" by (simp_all add: res(1))
  have "\<exists>r\<in>set records. cr_column_id r = cr_column_id c" if "c \<in> set ex" for c
  proof (cases "cr_column_id c \<in> cr_column_id ` set built")
    case True
    then show ?thesis unfolding res(2) by force
  next
    case False
    with that have "retire_column c \<in> set records" by (auto simp: res(2))
    moreover have "cr_column_id (retire_column c) = cr_column_id c" by (simp add: retire_column_def)
    ultimately show ?thesis by blast
  qed
  moreover have "\<exists>r\<in>set records. cr_column_id r = ci_column_id ir" if "ir \<in> set irs" for ir
  proof -
    from that have "ci_column_id ir \<in> set (map cr_column_id built)" unfolding built(3) by simp
    then show ?thesis by (auto simp: res(2))
  qed
  ultimately show ?thesis using built(1,2) by blast
qed

definition draft_traced :: "registry \<Rightarrow> dictionary_table \<Rightarrow> table_draft \<Rightarrow> bool" where
  "draft_traced reg t d \<longleftrightarrow>
     parse_locator (dt_locator t) = Inr (td_locator d) \<and> td_description d = dt_description t
     \<and> map ci_name (td_columns d) = map dc_name (dt_columns t)
     \<and> (case find (\<lambda>i. table_key i = locator_key (td_locator d)) (tables reg) of
          None \<Rightarrow> True
        | Some e \<Rightarrow> td_table_id d = tr_table_id e \<and> (\<forall>ir\<in>set (td_columns d). column_traced (tr_columns e) ir)
            \<and> (\<forall>c\<in>set (tr_columns e). \<exists>r\<in>set (td_column_records d). cr_column_id r = cr_column_id c))"

lemma draft_table_traced:
  assumes "draft_table ent reg c t n = Inr (d, n')"
  shows "draft_traced reg t d"
proof -
  from assms obtain l where l: "parse_locator (dt_locator t) = Inr l" by (auto simp: draft_table_def)
  define ex where "ex = find (\<lambda>i. table_key i = locator_key l) (tables reg)"
  from assms l have clash: "ex \<noteq> None \<Longrightarrow> truthy (tc_table_id c) \<Longrightarrow> tr_table_id (the ex) = the (tc_table_id c)"
    by (auto simp: draft_table_def ex_def Let_def split: if_splits)
  from assms l obtain i n1 records irs where i: "draft_id ent c ex n = Inr (i, n1)"
    and cols: "resolve_columns ent (case ex of Some e \<Rightarrow> tr_columns e | None \<Rightarrow> []) (dt_columns t) n1
        = Inr ((records, irs), n')"
    and d: "d = \<lparr>td_config = c, td_dictionary = t, td_table_id = i, td_locator = l,
        td_description = dt_description t, td_columns = irs, td_column_records = records\<rparr>"
    by (auto simp: draft_table_def ex_def Let_def split: if_splits)
  from i clash have "ex = Some e \<Longrightarrow> i = tr_table_id e" for e
    by (auto simp: draft_id_def split: if_splits)
  with resolve_columns_traced [OF cols] l show ?thesis
    by (cases ex) (simp_all add: d draft_traced_def ex_def [symmetric])
qed

lemma resolve_table_traced:
  "resolve_table ent cfg reg st t = Inr st' \<Longrightarrow> \<exists>d. fst st' = fst st @ [d] \<and> draft_traced reg t d"
  by (auto simp: resolve_table_def dest: draft_table_traced)

lemma resolve_tables_traced:
  assumes "resolve_tables ent config dictionary reg n = Inr (drafts, n')"
  shows "list_all2 (draft_traced reg) (pd_tables dictionary) drafts"
proof -
  from assms obtain cfg where "fold_ok (resolve_table ent cfg reg) ([], n) (pd_tables dictionary) = Inr (drafts, n')"
    by (auto simp: resolve_tables_def Let_def split: if_splits list.splits)
  then have "list_all2 (draft_traced reg) (pd_tables dictionary) (fst (drafts, n'))"
  proof (rule fold_ok_invariant_prefix [where P = "\<lambda>ts st. list_all2 (draft_traced reg) ts (fst st)"])
    fix ts t st st'
    assume "list_all2 (draft_traced reg) ts (fst st)" and "resolve_table ent cfg reg st t = Inr st'"
    then show "list_all2 (draft_traced reg) (ts @ [t]) (fst st')"
      using resolve_table_traced [of ent cfg reg st t st'] by (auto intro: list_all2_appendI)
  qed simp
  then show ?thesis by simp
qed

text \<open>(C4) A table that the registry knows by its locator keeps its identifier, each of its columns is
  still recorded under its identifier, and a dictionary column that a registered name or alias
  matches gets that column's identifier (never a retired one).\<close>

theorem resolve_tables_keep_identity:
  assumes "reg_inv reg" and "resolve_tables ent config dictionary reg n = Inr (drafts, n')"
    and "d \<in> set drafts" and "e \<in> set (tables reg)" and "tr_locator e = td_locator d"
  shows "td_table_id d = tr_table_id e
    \<and> (\<forall>c\<in>set (tr_columns e). \<exists>r\<in>set (td_column_records d). cr_column_id r = cr_column_id c)
    \<and> (\<forall>ir\<in>set (td_columns d). \<forall>m. find (same_column (ci_name ir)) (tr_columns e) = Some m
          \<longrightarrow> ci_column_id ir = cr_column_id m \<and> cr_status m = ACTIVE)"
proof -
  from resolve_tables_traced [OF assms(2)] assms(3) obtain t where "draft_traced reg t d"
    by (metis list_all2_conv_all_nth in_set_conv_nth)
  moreover have "find (\<lambda>i. table_key i = locator_key (td_locator d)) (tables reg) = Some e"
    using find_registered [OF assms(1,4)] assms(5) by simp
  ultimately show ?thesis by (auto simp: draft_traced_def column_traced_def)
qed

section \<open>Versions follow content\<close>

lemma hashable_json: "hashable (py_of_json j)"
  by (induction j) auto

lemma hashable_dumps [simp]:
  "hashable (py_opt s)" "hashable (py_strings xs)" "hashable (dump_locator l)"
  by (cases s; simp add: py_strings_def dump_locator_def)+

lemma hashable_column [simp]: "hashable (dump_column c)"
proof -
  have "hashable (dump_evidence e)" for e
    using hashable_json [of "JObj (ev_locator e)"] by (simp add: dump_evidence_def del: py_of_json.simps)
  then show ?thesis by (simp add: dump_column_def)
qed

lemma draft_hashes:
  "\<exists>h. schema_hash L (physical_schema d) = Inr h" "\<exists>h. canonical_hash L (table_content d) = Inr h"
  by (rule hashable_hash; simp add: physical_schema_def table_content_def)+

lemma build_table_record_Inr:
  assumes "build_table_record L reg d = Inr (r, ir, dec)"
  obtains sh ch changed where
    "schema_hash L (physical_schema d) = Inr sh" and "canonical_hash L (table_content d) = Inr ch"
    and "changed \<longleftrightarrow> map_option tr_canonical_hash (get_table reg (td_table_id d)) \<noteq> Some (Some ch)"
    and "plan_version (map_option tr_version (get_table reg (td_table_id d))) changed
      (if tc_base_version (td_config d) \<noteq> None then tc_base_version (td_config d)
       else map_option tr_version (get_table reg (td_table_id d))) (Some (tr_version r)) = Inr dec"
    and "tr_version r = proposed_version (get_table reg (td_table_id d)) changed (tc_version (td_config d))"
    and "r = \<lparr>tr_table_id = td_table_id d, tr_locator = td_locator d, tr_version = tr_version r, tr_status = ACTIVE,
      tr_aliases = (case get_table reg (td_table_id d) of Some e \<Rightarrow> tr_aliases e | None \<Rightarrow> []),
      tr_columns = td_column_records d, tr_schema_hash = Some sh, tr_canonical_hash = Some ch\<rparr>"
    and "tr_table_id r = td_table_id d" and "tr_canonical_hash r = Some ch"
    and "TableRecord r = Inr r"
    and "ir = \<lparr>ti_table_id = td_table_id d, ti_table_version = tr_version r,
      ti_dataset_name = table_name (td_locator d), ti_source = draft_source (td_locator d),
      ti_description = td_description d, ti_synonyms = [], ti_columns = td_columns d, ti_unique_keys = []\<rparr>"
    and "TableIR ir = Inr ir"
proof -
  obtain sh ch where h: "schema_hash L (physical_schema d) = Inr sh" "canonical_hash L (table_content d) = Inr ch"
    using draft_hashes by blast
  define changed where "changed = (case get_table reg (td_table_id d) of None \<Rightarrow> True
      | Some e \<Rightarrow> tr_canonical_hash e \<noteq> Some ch)"
  have c: "changed \<longleftrightarrow> map_option tr_canonical_hash (get_table reg (td_table_id d)) \<noteq> Some (Some ch)"
    by (auto simp: changed_def split: option.split)
  have R: "TableRecord t = Inr u \<Longrightarrow> u = t" for t u by (simp add: TableRecord_Inr)
  have I: "TableIR t = Inr u \<Longrightarrow> u = t" for t u by (simp add: TableIR_def split: if_splits)
  show thesis
    using assms unfolding build_table_record_def Let_def h bind_ok.simps changed_def [symmetric] bind_ok_Inr_iff
    by (elim exE conjE) (rule that [OF h c]; use R I in fastforce)
qed

text \<open>(C5) The version of a table record whose transition is allowed follows its content: a new table
  has version 1, a table with the registered content hash keeps its version, any other advances
  by exactly one. The record's hash is the hash of that content.\<close>

theorem table_version_follows_content:
  assumes "build_table_record L reg d = Inr (r, ir, dec)" and "vd_outcome dec = ALLOW"
  shows "tr_version r = (case get_table reg (td_table_id d) of
      None \<Rightarrow> 1
    | Some e \<Rightarrow> (if tr_canonical_hash e = tr_canonical_hash r then tr_version e else tr_version e + 1))
   \<and> canonical_hash L (table_content d) = Inr (the (tr_canonical_hash r)) \<and> ti_table_version ir = tr_version r"
proof (rule build_table_record_Inr [OF assms(1)])
  fix sh ch changed
  assume b: "canonical_hash L (table_content d) = Inr ch"
    "changed \<longleftrightarrow> map_option tr_canonical_hash (get_table reg (td_table_id d)) \<noteq> Some (Some ch)"
    and p: "plan_version (map_option tr_version (get_table reg (td_table_id d))) changed
      (if tc_base_version (td_config d) \<noteq> None then tc_base_version (td_config d)
       else map_option tr_version (get_table reg (td_table_id d))) (Some (tr_version r)) = Inr dec"
    and r: "tr_canonical_hash r = Some ch"
    and ir: "ir = \<lparr>ti_table_id = td_table_id d, ti_table_version = tr_version r,
      ti_dataset_name = table_name (td_locator d), ti_source = draft_source (td_locator d),
      ti_description = td_description d, ti_synonyms = [], ti_columns = td_columns d, ti_unique_keys = []\<rparr>"
  from p assms(2) have "target_version (map_option tr_version (get_table reg (td_table_id d))) changed = Some (tr_version r)"
    by (rule allowed_target)
  with b r ir show ?thesis
    by (cases "get_table reg (td_table_id d)") (auto simp: target_version_def next_version_def split: if_splits)
qed

text \<open>Processing is idempotent on the tables: once the records of a run are in the registry, the
  same drafts build the same records and IR again and every version decision is \<open>NO_CHANGE\<close>.\<close>

theorem table_records_stable:
  assumes "build_table_records L reg drafts = Inr (rs, irs, ds)"
    and "\<forall>d\<in>set drafts. tc_version (td_config d) = None \<and> tc_base_version (td_config d) = None"
    and "\<forall>r\<in>set rs. get_table reg' (tr_table_id r) = Some r"
  shows "\<exists>ds'. build_table_records L reg' drafts = Inr (rs, irs, ds')
    \<and> (\<forall>x\<in>set ds'. vd_outcome x = ALLOW \<and> vd_code x = ''NO_CHANGE'')"
proof -
  have one: "\<exists>dec'. build_table_record L reg' d = Inr (r, ir, dec') \<and> vd_outcome dec' = ALLOW \<and> vd_code dec' = ''NO_CHANGE''"
    if b: "build_table_record L reg d = Inr (r, ir, dec)" and cfg: "tc_version (td_config d) = None"
      "tc_base_version (td_config d) = None" and reg': "get_table reg' (tr_table_id r) = Some r" for d r ir dec
  proof (rule build_table_record_Inr [OF b])
    fix sh ch
    assume h: "schema_hash L (physical_schema d) = Inr sh" "canonical_hash L (table_content d) = Inr ch"
      and r: "r = \<lparr>tr_table_id = td_table_id d, tr_locator = td_locator d, tr_version = tr_version r, tr_status = ACTIVE,
          tr_aliases = (case get_table reg (td_table_id d) of Some e \<Rightarrow> tr_aliases e | None \<Rightarrow> []),
          tr_columns = td_column_records d, tr_schema_hash = Some sh, tr_canonical_hash = Some ch\<rparr>"
      and fields: "tr_table_id r = td_table_id d" "tr_canonical_hash r = Some ch"
      and rec: "TableRecord r = Inr r"
      and ir: "ir = \<lparr>ti_table_id = td_table_id d, ti_table_version = tr_version r,
          ti_dataset_name = table_name (td_locator d), ti_source = draft_source (td_locator d),
          ti_description = td_description d, ti_synonyms = [], ti_columns = td_columns d, ti_unique_keys = []\<rparr>"
      and ir_ok: "TableIR ir = Inr ir"
    from rec have v: "Version (tr_version r)" by (auto dest: TableRecord_Inr simp: table_fields_ok_def)
    let ?dec = "decide_version (Some (tr_version r)) False (Some (tr_version r)) (Some (tr_version r))"
    have "plan_version (Some (tr_version r)) False (Some (tr_version r)) (Some (tr_version r)) = Inr ?dec"
      using v by (simp add: plan_version_Inr_iff)
    moreover have "TableRecord \<lparr>tr_table_id = td_table_id d, tr_locator = td_locator d, tr_version = tr_version r,
        tr_status = ACTIVE, tr_aliases = tr_aliases r, tr_columns = td_column_records d,
        tr_schema_hash = Some sh, tr_canonical_hash = Some ch\<rparr> = Inr r"
      using rec r by (metis table_record.select_convs(5))
    ultimately have "build_table_record L reg' d = Inr (r, ir, ?dec)"
      using h cfg reg' fields ir_ok unfolding ir by (simp add: build_table_record_def Let_def proposed_version_def)
    moreover have "vd_outcome ?dec = ALLOW" "vd_code ?dec = ''NO_CHANGE''" by (simp_all add: decide_simps)
    ultimately show ?thesis by blast
  qed
  from assms(1) obtain xs where xs: "traverse (build_table_record L reg) drafts = Inr xs"
    and out: "rs = map fst xs" "irs = map (\<lambda>x. fst (snd x)) xs"
    by (auto simp: build_table_records_def)
  have "\<exists>ys. traverse (build_table_record L reg') drafts = Inr ys \<and> map fst ys = map fst xs
      \<and> map (\<lambda>x. fst (snd x)) ys = map (\<lambda>x. fst (snd x)) xs
      \<and> (\<forall>y\<in>set ys. vd_outcome (snd (snd y)) = ALLOW \<and> vd_code (snd (snd y)) = ''NO_CHANGE'')"
    using xs assms(2,3) unfolding out(1)
  proof (induction drafts arbitrary: xs)
    case (Cons d drafts)
    from Cons.prems(1) obtain r ir dec zs where b: "build_table_record L reg d = Inr (r, ir, dec)"
      and zs: "traverse (build_table_record L reg) drafts = Inr zs" and x: "xs = (r, ir, dec) # zs"
      by (auto split: sum.splits)
    from one [OF b] Cons.prems(2,3) x obtain dec' where
      d': "build_table_record L reg' d = Inr (r, ir, dec')" "vd_outcome dec' = ALLOW" "vd_code dec' = ''NO_CHANGE''"
      by auto
    from Cons.IH [OF zs] Cons.prems(2,3) x obtain ys where
      "traverse (build_table_record L reg') drafts = Inr ys" "map fst ys = map fst zs"
      "map (\<lambda>x. fst (snd x)) ys = map (\<lambda>x. fst (snd x)) zs"
      "\<forall>y\<in>set ys. vd_outcome (snd (snd y)) = ALLOW \<and> vd_code (snd (snd y)) = ''NO_CHANGE''" by auto
    with d' x show ?case by (intro exI [of _ "(r, ir, dec') # ys"]) simp
  qed simp
  then show ?thesis unfolding build_table_records_def out by auto
qed

section \<open>Links are kept\<close>

definition link_of :: "string \<Rightarrow> registry \<Rightarrow> table_record \<times> table_draft \<Rightarrow> product_table_ref \<Rightarrow> bool" where
  "link_of product_id reg td m \<longleftrightarrow>
     valid_ref m \<and> ref_product_id m = product_id \<and> ref_table_id m = tr_table_id (fst td)
     \<and> ref_table_version m = tr_version (fst td) \<and> ref_usage m = tc_usage (td_config (snd td))
     \<and> ref_required m = tc_required (td_config (snd td))
     \<and> ((\<exists>e\<in>set (mappings reg). ref_product_id e = product_id \<and> ref_table_id e = ref_table_id m
            \<and> ref_usage e = ref_usage m)
        \<longrightarrow> (\<exists>e\<in>set (mappings reg). ref_product_id e = product_id \<and> ref_table_id e = ref_table_id m
            \<and> ref_usage e = ref_usage m \<and> ref_link_id e = ref_link_id m))"

lemma existing_links_get:
  "dict_get (existing_links p reg) (t, u) = Some m \<Longrightarrow>
     m \<in> set (mappings reg) \<and> ref_product_id m = p \<and> ref_table_id m = t \<and> ref_usage m = u"
  by (auto simp: existing_links_def dict_get_of dest!: find_SomeD)

lemma existing_links_none:
  "dict_get (existing_links p reg) (t, u) = None \<Longrightarrow> m \<in> set (mappings reg) \<Longrightarrow> ref_product_id m = p
     \<Longrightarrow> ref_table_id m = t \<Longrightarrow> ref_usage m \<noteq> u"
  by (auto simp: existing_links_def dict_get_of_None)

lemma build_mapping_step:
  assumes "build_mapping ent p (existing_links p reg) (refs, n) td = Inr (refs', n')"
  shows "\<exists>m. refs' = refs @ [m] \<and> link_of p reg td m"
proof -
  obtain t d where td: "td = (t, d)" by (cases td)
  let ?e = "dict_get (existing_links p reg) (tr_table_id t, tc_usage (td_config d))"
  from assms td obtain i where
    i: "(case ?e of Some m \<Rightarrow> Inr (ref_link_id m, n) | None \<Rightarrow> fresh ent ''lnk'' n) = Inr (i, n')"
    and refs': "refs' = refs @ [\<lparr>ref_link_id = i, ref_product_id = p, ref_table_id = tr_table_id t,
          ref_table_version = tr_version t, ref_usage = tc_usage (td_config d),
          ref_required = tc_required (td_config d), ref_semantic_dataset = None\<rparr>]"
    and v: "valid_ref \<lparr>ref_link_id = i, ref_product_id = p, ref_table_id = tr_table_id t,
          ref_table_version = tr_version t, ref_usage = tc_usage (td_config d),
          ref_required = tc_required (td_config d), ref_semantic_dataset = None\<rparr>"
    by (auto simp: build_mapping_def ProductTableRef_def valid_ref_def split: if_splits)
  show ?thesis
  proof (cases ?e)
    case None
    from existing_links_none [OF this] v show ?thesis by (auto simp: refs' link_of_def td)
  next
    case (Some m)
    with i have "i = ref_link_id m" by simp
    with existing_links_get [OF Some] v show ?thesis by (auto simp: refs' link_of_def td)
  qed
qed

lemma build_mappings_links:
  assumes "build_mappings ent p ts ds reg n = Inr (refs, n')"
  shows "list_all2 (link_of p reg) (zip ts ds) refs"
proof -
  from assms have "fold_ok (build_mapping ent p (existing_links p reg)) ([], n) (zip ts ds) = Inr (refs, n')"
    by (simp add: build_mappings_def)
  then have "list_all2 (link_of p reg) (zip ts ds) (fst (refs, n'))"
  proof (rule fold_ok_invariant_prefix [where P = "\<lambda>tds st. list_all2 (link_of p reg) tds (fst st)"])
    fix tds td st st'
    assume "list_all2 (link_of p reg) tds (fst st)"
      and "build_mapping ent p (existing_links p reg) st td = Inr st'"
    then show "list_all2 (link_of p reg) (tds @ [td]) (fst st')"
      using build_mapping_step [of ent p reg "fst st" "snd st" td "fst st'" "snd st'"]
      by (auto intro: list_all2_appendI)
  qed simp
  then show ?thesis by simp
qed

text \<open>The links of a product mirror its tables one for one, at the table's new version, and a link
  the product already has for a table and usage keeps an identifier it is registered under.\<close>

theorem build_mappings_mirror_tables:
  assumes "build_mappings ent p ts ds reg n = Inr (refs, n')" and "length ts = length ds"
  shows "map ref_table_id refs = map tr_table_id ts \<and> map ref_table_version refs = map tr_version ts
    \<and> (\<forall>m\<in>set refs. valid_ref m \<and> ref_product_id m = p
        \<and> (\<forall>e\<in>set (mappings reg). ref_product_id e = p \<longrightarrow> ref_table_id e = ref_table_id m \<longrightarrow> ref_usage e = ref_usage m
            \<longrightarrow> (\<exists>e'\<in>set (mappings reg). ref_product_id e' = p \<and> ref_table_id e' = ref_table_id m
                  \<and> ref_usage e' = ref_usage m \<and> ref_link_id e' = ref_link_id m)))"
proof -
  have l: "list_all2 (link_of p reg) (zip ts ds) refs" using assms(1) by (rule build_mappings_links)
  then have "map ref_table_id refs = map (tr_table_id \<circ> fst) (zip ts ds)
      \<and> map ref_table_version refs = map (tr_version \<circ> fst) (zip ts ds)"
    by (induction rule: list_all2_induct) (auto simp: link_of_def)
  moreover have "\<exists>td. link_of p reg td m" if "m \<in> set refs" for m
    using l that by (metis in_set_conv_nth list_all2_conv_all_nth)
  ultimately show ?thesis
    using assms(2) by (auto simp: link_of_def map_map [symmetric] simp del: map_map)
qed

section \<open>A sample run\<close>

definition dictionary_column1 :: dictionary_column where
  "dictionary_column1 = \<lparr>dc_ordinal = 1, dc_name = ''ID'', dc_logical_name = None, dc_data_type = ''BIGINT'',
     dc_nullable = False, dc_primary_key = True, dc_foreign_key = None, dc_description = None,
     dc_formula = None, dc_comment = None, dc_evidence = evidence1\<rparr>"

definition dictionary1 :: parsed_dictionary where
  "dictionary1 = \<lparr>pd_source_hash = sha64, pd_tables = [\<lparr>dt_locator = ''bq|main|dw|Orders'',
     dt_description = Some ''Orders'', dt_columns = [dictionary_column1]\<rparr>]\<rparr>"

definition config1 :: product_config where
  "config1 = \<lparr>pc_operation = Update, pc_product_id = pid1, pc_product_key = ''orders'', pc_version = 1,
     pc_base_version = None, pc_display_name = ''Orders'', pc_description = None, pc_synonyms = [],
     pc_changeset_id = None, pc_tables = []\<rparr>"

definition draft1 :: table_draft where
  "draft1 = \<lparr>td_config = default_table_config ''bq|main|dw|Orders'', td_dictionary = hd (pd_tables dictionary1),
     td_table_id = tid1, td_locator = locator1, td_description = Some ''Orders'',
     td_columns = [draft_column_ir cid1 dictionary_column1],
     td_column_records = [\<lparr>cr_column_id = cid1, cr_name = ''ID'', cr_aliases = [], cr_status = ACTIVE\<rparr>]\<rparr>"

definition entropy1 :: entropy where "entropy1 = (\<lambda>n. (0, int n))"

lemma reg2_tables: "tables reg2 = [table1]"
proof -
  have "rg_tables reg1 = []"
    by (simp add: write_product_frame(2) [OF reg1_written]) (simp add: reg0_def empty_registry_def)
  then show ?thesis
    by (simp add: tables_def sorted_values_def write_table_frame(1) [OF reg2_written])
qed

lemma sample_column: "ColumnRecord cid1 ''ID'' [] ACTIVE
    = Inr \<lparr>cr_column_id = cid1, cr_name = ''ID'', cr_aliases = [], cr_status = ACTIVE\<rparr>"
  by code_simp

lemma sample_match: "same_column ''ID'' \<lparr>cr_column_id = cid1, cr_name = ''id'', cr_aliases = [], cr_status = ACTIVE\<rparr>"
  by code_simp

lemma sample_resolved: "resolve_tables entropy1 config1 dictionary1 reg2 0 = Inr ([draft1], 0)"
proof -
  have "resolve_column entropy1 (tr_columns table1) (([], []), 0) dictionary_column1
      = Inr ((td_column_records draft1, td_columns draft1), 0)"
    using sample_column sample_match sample_id_patterns
    by (simp add: resolve_column_def table1_def dictionary_column1_def draft_column_ir_def ColumnIR_def draft1_def)
  then have cols: "resolve_columns entropy1 (tr_columns table1) [dictionary_column1] 0
      = Inr ((td_column_records draft1, td_columns draft1), 0)"
    by (simp add: resolve_columns_def Let_def draft1_def table1_def)
  have "locator_key (tr_locator table1) = locator_key locator1" by (simp add: table1_def)
  then have "draft_table entropy1 reg2 (default_table_config ''bq|main|dw|Orders'') (hd (pd_tables dictionary1)) 0
      = Inr (draft1, 0)"
    using cols by (simp add: draft_table_def dictionary1_def locator_text reg2_tables draft_id_def
        default_table_config_def draft1_def) (simp add: table1_def)
  moreover have "TableConfig (default_table_config ''bq|main|dw|Orders'') = Inr (default_table_config ''bq|main|dw|Orders'')"
    using locator_text by (simp add: TableConfig_def default_table_config_def)
  ultimately show ?thesis
    by (simp add: resolve_tables_def config1_def dict_of_def resolve_table_def dictionary1_def)
qed

theorem resolve_tables_keep_identity_witness: "td_table_id draft1 = tr_table_id table1"
  using resolve_tables_keep_identity [OF reg2_inv sample_resolved, of draft1 table1]
  by (simp add: reg2_tables draft1_def table1_def)

text \<open>In an empty registry the sample table is new.\<close>

lemma sample_built: "\<exists>r ir dec. build_table_record sample_library reg0 draft1 = Inr (r, ir, dec)
    \<and> vd_outcome dec = ALLOW \<and> tr_table_id r = tid1 \<and> tr_version r = 1"
proof -
  obtain sh ch where h: "schema_hash sample_library (physical_schema draft1) = Inr sh"
    "canonical_hash sample_library (table_content draft1) = Inr ch" using draft_hashes by blast
  then have "Sha256 sh" "Sha256 ch" by (auto simp: schema_hash_def canonical_hash_def hash_normalized_def)
  moreover have "get_table reg0 tid1 = None" by (simp add: reg0_def empty_registry_def registry_reads)
  moreover have "stripped ''ID''" by code_simp
  ultimately show ?thesis
    using h sample_id_patterns locator1_ok
    by (simp add: build_table_record_def Let_def draft1_def proposed_version_def default_table_config_def
        plan_version_Inr_iff decide_allow_iff target_version_def Version_def TableRecord_def table_fields_ok_def
        column_ok_def validate_columns_def named_ids_unique_def TableIR_def)
qed

theorem table_version_follows_content_witness:
  "\<exists>r ir dec. build_table_record sample_library reg0 draft1 = Inr (r, ir, dec) \<and> tr_version r = 1
     \<and> canonical_hash sample_library (table_content draft1) = Inr (the (tr_canonical_hash r))"
  using sample_built table_version_follows_content by blast

theorem table_records_stable_witness:
  "\<exists>rs irs ds. build_table_records sample_library reg0 [draft1] = Inr (rs, irs, ds)
     \<and> (\<exists>ds'. build_table_records sample_library (reg0\<lparr>rg_tables := map (\<lambda>r. (tr_table_id r, r)) rs\<rparr>) [draft1]
          = Inr (rs, irs, ds'))"
proof -
  obtain r ir dec where "build_table_record sample_library reg0 draft1 = Inr (r, ir, dec)"
    using sample_built by blast
  then have b: "build_table_records sample_library reg0 [draft1] = Inr ([r], [ir], [dec])"
    by (simp add: build_table_records_def)
  have "\<exists>ds'. build_table_records sample_library (reg0\<lparr>rg_tables := map (\<lambda>r. (tr_table_id r, r)) [r]\<rparr>) [draft1]
      = Inr ([r], [ir], ds') \<and> (\<forall>x\<in>set ds'. vd_outcome x = ALLOW \<and> vd_code x = ''NO_CHANGE'')"
    by (rule table_records_stable [OF b]) (simp_all add: draft1_def default_table_config_def registry_reads)
  with b show ?thesis by blast
qed

theorem build_mappings_mirror_tables_witness:
  "\<exists>refs n'. build_mappings entropy1 pid1 [table1] [draft1] reg3 0 = Inr (refs, n') \<and> map ref_table_id refs = [tid1]"
proof -
  have "new_id ''lnk'' None None 0 0 = new_id ''lnk'' (Some 0) (Some 0) 0 0"
    by (subst new_id_defaults) simp
  moreover have "\<exists>i. new_id ''lnk'' (Some 0) (Some 0) 0 0 = Inr i" by (simp add: new_id_Inr_iff ID_PREFIXES_def)
  ultimately obtain i where "new_id ''lnk'' None None 0 0 = Inr i" by auto
  with new_id_pattern [OF this] have "\<exists>i. fresh entropy1 ''lnk'' 0 = Inr (i, 1) \<and> LinkId i"
    by (simp add: fresh_def entropy1_def)
  moreover have "LinkId (ref_link_id m)" if "m \<in> set (mappings reg3)" for m
  proof -
    have "dict_ok (rg_mappings reg3)" "refs_ok reg3" using reg3_inv by (simp_all add: reg_inv_def refs_ok_def)
    with that have "valid_ref m"
      by (auto simp: mappings_def refs_ok_def dict_get_in)
    then show ?thesis by (auto simp: valid_ref_def ProductTableRef_def split: if_splits)
  qed
  ultimately have "\<exists>refs n'. build_mappings entropy1 pid1 [table1] [draft1] reg3 0 = Inr (refs, n')"
    using sample_id_patterns existing_links_get [of pid1 reg3 tid1 SOURCE]
    by (auto simp: build_mappings_def build_mapping_def draft1_def default_table_config_def table1_def
        ProductTableRef_def Version_def split: option.splits)
  then obtain refs n' where b: "build_mappings entropy1 pid1 [table1] [draft1] reg3 0 = Inr (refs, n')" by blast
  from build_mappings_mirror_tables [OF b] b show ?thesis by (simp add: table1_def)
qed

end
