(* ===== verification/Quality.thy ===== *)
theory Quality
  imports Semantic_Models Drafts
begin

text \<open>
  The quality gate of a product build (\<open>pipeline.py\<close>): what is found on the duplicates, the
  versions, the shared tables, the completeness of the descriptions and the semantic document, and
  the verdict over it. The lemmas say when each group of checks finds nothing, and so what a product
  that passes the gate is known to have.
\<close>

section \<open>Findings and the parsed document\<close>

record quality_finding =
  qf_code :: string
  qf_message :: string
  qf_path :: "string option"

datatype semantic_status = VERIFIED | REVIEW_PENDING | REVIEW_REQUIRED | FAILED

text \<open>Of a validation report the gate reads the status and the codes of the findings.\<close>

record validation_report =
  vr_status :: semantic_status
  vr_findings :: "string list"

record parsed_document =
  doc_role :: source_role
  doc_source_hash :: string
  doc_markdown :: string
  doc_has_content :: "bool option"
  doc_evidence :: "evidence list"
  doc_excluded_evidence :: "evidence list"
  doc_fidelity :: "fidelity_report option"
  doc_repair :: "repair_record option"
  doc_validation :: "validation_report option"

definition finding :: "string \<Rightarrow> string \<Rightarrow> string option \<Rightarrow> quality_finding" where
  "finding code message path = \<lparr>qf_code = code, qf_message = message, qf_path = path\<rparr>"

lemma finding_sel [simp]: "qf_code (finding c m p) = c" "qf_message (finding c m p) = m" "qf_path (finding c m p) = p"
  by (simp_all add: finding_def)

text \<open>\<open>dict.fromkeys(xs)\<close>: the elements in the order of their first occurrence.\<close>

definition dedup :: "'a list \<Rightarrow> 'a list" where
  "dedup xs = rev (remdups (rev xs))"

lemma set_dedup [simp]: "set (dedup xs) = set xs"
  by (simp add: dedup_def)

lemma dedup_Nil_iff [simp]: "dedup xs = [] \<longleftrightarrow> xs = []"
  by (metis set_dedup set_empty)

fun status_value :: "semantic_status \<Rightarrow> string" where
  "status_value VERIFIED = ''verified''"
| "status_value REVIEW_PENDING = ''review_pending''"
| "status_value REVIEW_REQUIRED = ''review_required''"
| "status_value FAILED = ''failed''"

fun mode_value :: "extraction_mode \<Rightarrow> string" where
  "mode_value PDF_EMBEDDED = ''pdf_embedded''"
| "mode_value DOCX_XML = ''docx_xml''"
| "mode_value OCR = ''ocr''"

fun outcome_value :: "ocr_outcome \<Rightarrow> string" where
  "outcome_value O_Applied = ''applied''"
| "outcome_value O_Reused = ''reused''"
| "outcome_value O_Rejected = ''rejected''"
| "outcome_value O_Provider_Failed = ''provider_failed''"
| "outcome_value O_Unavailable = ''unavailable''"

fun reason_value :: "lossless_reason \<Rightarrow> string" where
  "reason_value Structure_Unresolved = ''structure_unresolved''"
| "reason_value Provider_Unavailable = ''provider_unavailable''"
| "reason_value Repair_Rejected = ''repair_rejected''"

fun entity_value :: "entity_type \<Rightarrow> string" where
  "entity_value Product_Entity = ''product''"
| "entity_value Table_Entity = ''table''"

text \<open>\<open>text or default\<close>.\<close>

definition or_else :: "string \<Rightarrow> string \<Rightarrow> string" where
  "or_else s fallback = (if s = [] then fallback else s)"

section \<open>Duplicates and versions\<close>

definition duplicate_reports ::
  "product_config \<Rightarrow> product_record \<Rightarrow> table_record list \<Rightarrow> registry \<Rightarrow> duplicate_report list" where
  "duplicate_reports config product table_records reg =
     (let existing = get_product reg (pr_product_id product);
          product_report = (case existing of
              Some e \<Rightarrow>
                (if pc_operation config = Create \<and> pr_canonical_hash e = pr_canonical_hash product
                 then product_report D_NO_CHANGE ''PRODUCT_NO_CHANGE'' (Some (pr_product_id e)) []
                 else classify_product product (products reg) (pc_operation config) [])
            | None \<Rightarrow> classify_product product (products reg) (pc_operation config) [])
      in product_report # map (\<lambda>t. classify_table t (tables reg)) table_records)"

definition hard_findings :: "duplicate_report list \<Rightarrow> version_decision list \<Rightarrow> quality_finding list" where
  "hard_findings duplicates versions =
     map (\<lambda>d. finding (dr_code d) (''Duplicate check blocked '' @ entity_value (dr_entity_type d)) None)
       (filter (\<lambda>d. dr_decision d = D_BLOCK) duplicates)
     @ map (\<lambda>v. finding (vd_code v) ''Numeric version transition is invalid'' None)
       (filter (\<lambda>v. vd_outcome v = BLOCK) versions)"

section \<open>Shared tables\<close>

definition shared_changed_tables ::
  "table_record list \<Rightarrow> version_decision list \<Rightarrow> registry \<Rightarrow> table_record list" where
  "shared_changed_tables table_records versions reg =
     filter (\<lambda>t. ir_shared (analyze_table_change (tr_table_id t) (mappings reg)))
       (map fst (filter (\<lambda>(t, v). vd_changed v \<and> get_table reg (tr_table_id t) \<noteq> None) (zip table_records versions)))"

definition changeset_findings ::
  "string \<Rightarrow> string \<Rightarrow> change_set_record \<Rightarrow> table_record list \<Rightarrow> int option \<Rightarrow> quality_finding list" where
  "changeset_findings changeset_id product_id changeset shared pr_number =
     (if product_id \<notin> set (cs_required_product_ids changeset)
      then [finding ''CHANGESET_PRODUCT_NOT_REQUIRED''
              (''Product '' @ product_id @ '' is not required by '' @ changeset_id) None] else [])
     @ map (\<lambda>t. finding ''CHANGESET_TABLE_NOT_INCLUDED''
              (''Table '' @ tr_table_id t @ '' is not included by '' @ changeset_id) None)
         (filter (\<lambda>t. tr_table_id t \<notin> set (cs_table_ids changeset)) shared)
     @ (if pr_number = None \<or> the pr_number < 1
        then [finding ''CHANGESET_PR_NUMBER_REQUIRED''
                ''A positive PR number is required to mark changeset readiness'' None] else [])"

definition shared_table_findings ::
  "product_config \<Rightarrow> string \<Rightarrow> table_record list \<Rightarrow> version_decision list \<Rightarrow> registry \<Rightarrow> int option
    \<Rightarrow> quality_finding list result" where
  "shared_table_findings config product_id table_records versions reg pr_number =
     (if length table_records \<noteq> length versions
      then Inl (ValueError ''zip() arguments have different lengths'')
      else
        let shared = shared_changed_tables table_records versions reg
        in if shared = [] then Inr []
           else if \<not> truthy (pc_changeset_id config)
           then Inr (map (\<lambda>t. finding ''SHARED_TABLE_CHANGESET_REQUIRED''
                       (''Shared table '' @ tr_table_id t @ '' must use a changeset'') None) shared)
           else
             let changeset_id = the (pc_changeset_id config)
             in case get_changeset reg changeset_id of
                 None \<Rightarrow> Inr [finding ''CHANGESET_NOT_FOUND''
                           (''Changeset '' @ changeset_id @ '' does not exist'') None]
               | Some changeset \<Rightarrow> Inr (changeset_findings changeset_id product_id changeset shared pr_number))"

section \<open>Completeness\<close>

definition column_findings :: "table_ir \<Rightarrow> quality_finding list" where
  "column_findings t =
     map (\<lambda>c. finding ''MISSING_COLUMN_DESCRIPTION''
              (''Description is missing for '' @ ti_dataset_name t @ ''.'' @ ci_name c)
              (Some (''tables.'' @ ti_table_id t @ ''.columns.'' @ ci_column_id c @ ''.description'')))
       (filter (\<lambda>c. \<not> truthy (ci_description c)) (ti_columns t))"

definition table_findings :: "table_ir \<Rightarrow> quality_finding list" where
  "table_findings t =
     (if \<not> truthy (ti_description t)
      then [finding ''MISSING_TABLE_DESCRIPTION'' (''Description is missing for '' @ ti_dataset_name t)
              (Some (''tables.'' @ ti_table_id t @ ''.description''))] else [])
     @ column_findings t"

definition semantic_document_empty :: "parsed_document \<Rightarrow> bool" where
  "semantic_document_empty d \<longleftrightarrow>
     doc_has_content d = Some False \<or> (doc_has_content d = None \<and> strip (doc_markdown d) = [])"

definition completeness_findings ::
  "product_config \<Rightarrow> table_ir list \<Rightarrow> parsed_document \<Rightarrow> quality_finding list" where
  "completeness_findings config table_irs semantic_document =
     (if \<not> truthy (pc_description config)
      then [finding ''MISSING_PRODUCT_DESCRIPTION'' ''Description is missing'' None] else [])
     @ (if semantic_document_empty semantic_document
        then [finding ''EMPTY_SEMANTIC_DOCUMENT'' ''Semantic document is empty'' None] else [])
     @ concat (map table_findings table_irs)"

text \<open>The values whose mean, rounded to four places, is the completeness score.\<close>

definition completeness_values :: "product_config \<Rightarrow> table_ir list \<Rightarrow> bool list" where
  "completeness_values config table_irs =
     truthy (pc_description config) # map (\<lambda>t. truthy (ti_description t)) table_irs
     @ concat (map (\<lambda>t. map (\<lambda>c. truthy (ci_description c)) (ti_columns t)) table_irs)"

section \<open>The semantic document\<close>

definition semantic_findings :: "parsed_document \<Rightarrow> quality_finding list" where
  "semantic_findings document =
     (case doc_validation document of
        Some v \<Rightarrow>
          (if vr_status v \<noteq> REVIEW_PENDING then []
           else
             let codes = (case doc_fidelity document of
                   Some f \<Rightarrow> (if fr_warning_codes f \<noteq> [] then fr_warning_codes f else [''SEMANTIC_REVIEW_PENDING''])
                 | None \<Rightarrow> [''SEMANTIC_REVIEW_PENDING''])
             in map (\<lambda>code. finding code ''Semantic conversion continued with deferred human review debt''
                       (Some ''quality.semantic-review.json'')) (dedup codes))
      | None \<Rightarrow>
          (case doc_fidelity document of
             None \<Rightarrow> []
           | Some f \<Rightarrow>
               map (\<lambda>code. finding code ''Semantic OCR correction requires review''
                      (Some ''sources.semantic_document'')) (dedup (fr_warning_codes f))
               @ (if fr_degraded_block_count f > 0
                  then [finding ''SEMANTIC_STRUCTURE_DEGRADED'' ''Unresolved semantic structure was preserved losslessly''
                          (Some ''generated.data-semantic.md'')] else [])))"

definition safe_diagnostic_token :: "string \<Rightarrow> string" where
  "safe_diagnostic_token s =
     (if 1 \<le> length s \<and> length s \<le> 80
         \<and> list_all (\<lambda>c. is_upper c \<or> is_lower c \<or> is_digit c \<or> c \<in> set ''._-'') s
      then s else ''unknown'')"

definition semantic_repair_diagnostic :: "parsed_document \<Rightarrow> string" where
  "semantic_repair_diagnostic document =
     (case doc_fidelity document of
        None \<Rightarrow> []
      | Some f \<Rightarrow>
          let spans = concat (map db_pages (fr_degraded_blocks f));
              pages = sorted_set (List.map_filter id spans);
              codes = (case doc_repair document of None \<Rightarrow> [] | Some r \<Rightarrow> rp_validation_codes r);
              (attempts, provider, model, applied, rejected) =
                (case doc_repair document of
                   None \<Rightarrow> (0, ''none'', ''none'', 0, 0)
                 | Some r \<Rightarrow> (if rp_outcome r = RO_Reused then 0 else if codes \<noteq> [] then 2 else 1,
                     safe_diagnostic_token (rp_provider r), safe_diagnostic_token (rp_model r),
                     int (length (rp_applied_orders r)), int (length (rp_rejected_orders r))))
          in ''; extraction_mode='' @ mode_value (fr_extraction_mode f)
             @ ''; unresolved_spans='' @ int_str (int (length spans))
             @ ''; pages='' @ or_else (join '','' (map int_str pages)) ''unknown''
             @ ''; validation_codes='' @ or_else (join '','' codes) ''none''
             @ ''; provider='' @ provider @ ''; model='' @ model
             @ ''; applied_blocks='' @ int_str applied @ ''; rejected_blocks='' @ int_str rejected
             @ ''; attempts='' @ int_str attempts)"

definition candidate_findings :: "validation_report \<Rightarrow> quality_finding list" where
  "candidate_findings v =
     (if ''SEMANTIC_SOURCE_REPLAY_MISMATCH'' \<in> set (vr_findings v)
      then [finding ''SEMANTIC_SOURCE_REPLAY_MISMATCH'' ''Compatible semantic replay failed canonical byte equality''
              (Some ''quality.validation-report.json'')]
      else if vr_status v \<in> {VERIFIED, REVIEW_PENDING} then []
      else
        let code = (if vr_status v = REVIEW_REQUIRED then ''SEMANTIC_CANDIDATE_REVIEW_REQUIRED''
                    else ''SEMANTIC_CANDIDATE_VALIDATION_FAILED'');
            details = or_else (join '','' (vr_findings v)) ''none''
        in [finding code
              (''Candidate semantic PDF is not publishable; status='' @ status_value (vr_status v)
               @ ''; findings='' @ details)
              (Some ''quality.semantic-validation.json'')])"

definition loss_findings :: "fidelity_report \<Rightarrow> quality_finding list" where
  "loss_findings f =
     (if fr_status f = F_FAIL \<or> fr_unmatched_span_count f > 0 \<or> fr_duplicated_span_count f > 0
         \<or> fr_source_text_coverage f < 1
      then [finding ''SEMANTIC_FIDELITY_FAILED'' ''Semantic source text was lost or duplicated''
              (Some ''quality.semantic-fidelity.json'')] else [])"

definition degraded_findings :: "parsed_document \<Rightarrow> fidelity_report \<Rightarrow> quality_finding list" where
  "degraded_findings document f =
     (if fr_degraded_block_count f > 0 then
        let diagnostic = semantic_repair_diagnostic document;
            reasons = join '','' (sorted_set (map (\<lambda>b. reason_value (db_reason b)) (fr_degraded_blocks f)))
        in (case doc_repair document of
              Some r \<Rightarrow>
                (if rp_validation_codes r \<noteq> []
                 then [finding (last (rp_validation_codes r))
                         (''Semantic structure repair validation failed; '' @ ''category=SEMANTIC_STRUCTURE_DEGRADED''
                          @ diagnostic)
                         (Some ''quality.semantic-structure-repair.json'')] else [])
            | None \<Rightarrow> [])
           @ [finding ''SEMANTIC_STRUCTURE_DEGRADED''
                (''Semantic structure remains unresolved: '' @ reasons @ '' (''
                 @ int_str (fr_degraded_block_count f) @ '' block(s))'' @ diagnostic)
                (Some ''generated.data-semantic.md'')]
      else [])"

definition visual_findings :: "fidelity_report \<Rightarrow> quality_finding list" where
  "visual_findings f =
     (let expected_pages = [1..fr_page_count f];
          audited_pages = map oa_page (fr_ocr_corrections f);
          failed_outcomes = sorted_set (map outcome_value
            (filter (\<lambda>o'. o' \<notin> {O_Applied, O_Reused}) (map oa_outcome (fr_ocr_corrections f))));
          missing = join '','' (map int_str (filter (\<lambda>p. p \<notin> set audited_pages) expected_pages));
          details = fr_warning_codes f @ failed_outcomes
            @ (if set audited_pages \<noteq> set expected_pages then [''missing_pages='' @ or_else missing ''none''] else [])
      in if fr_warning_codes f \<noteq> [] \<or> fr_ocr_correction_rejected_count f > 0
            \<or> set audited_pages \<noteq> set expected_pages \<or> failed_outcomes \<noteq> []
         then [finding ''SEMANTIC_VISUAL_CORRECTION_FAILED''
                 (''Semantic PDF visual correction is incomplete or rejected: '' @ join '', '' details)
                 (Some ''quality.semantic-fidelity.json'')] else [])"

definition semantic_hard_findings :: "parsed_document \<Rightarrow> bool \<Rightarrow> quality_finding list" where
  "semantic_hard_findings document require_visual_correction =
     (case doc_validation document of
        Some v \<Rightarrow> candidate_findings v
      | None \<Rightarrow>
          (case doc_fidelity document of
             None \<Rightarrow> []
           | Some f \<Rightarrow>
               loss_findings f @ degraded_findings document f
               @ (if require_visual_correction \<and> fr_extraction_mode f \<in> {PDF_EMBEDDED, OCR}
                  then visual_findings f else [])))"

section \<open>The verdict\<close>

datatype quality_status = Q_PASS | Q_WARN | Q_FAIL

record quality_report =
  qr_status :: quality_status
  qr_product_id :: "string option"
  qr_product_version :: "int option"
  qr_hard_errors :: "quality_finding list"
  qr_warnings :: "quality_finding list"

text \<open>The part of \<open>process_product\<close> that collects the findings. The findings on relationships and
  metrics come from their builders.\<close>

definition assess ::
  "product_config \<Rightarrow> string \<Rightarrow> table_record list \<Rightarrow> table_ir list \<Rightarrow> duplicate_report list
    \<Rightarrow> version_decision \<Rightarrow> version_decision list \<Rightarrow> registry \<Rightarrow> int option
    \<Rightarrow> quality_finding list \<Rightarrow> quality_finding list \<Rightarrow> parsed_document \<Rightarrow> bool \<Rightarrow> bool
    \<Rightarrow> quality_report result" where
  "assess config product_id table_records table_irs duplicates product_version table_versions reg pr_number
     relationship_findings metric_findings semantic_document require_visual warnings_as_errors =
     bind_ok (shared_table_findings config product_id table_records table_versions reg pr_number) (\<lambda>shared.
       let found = hard_findings duplicates (product_version # table_versions) @ shared @ relationship_findings
             @ semantic_hard_findings semantic_document require_visual;
           warnings = completeness_findings config table_irs semantic_document @ metric_findings
             @ semantic_findings semantic_document;
           hard_errors = found @ (if warnings_as_errors \<and> warnings \<noteq> []
             then [finding ''WARNINGS_AS_ERRORS'' ''Quality warnings are configured as hard failures'' None] else [])
       in Inr \<lparr>qr_status = (if hard_errors \<noteq> [] then Q_FAIL else if warnings \<noteq> [] then Q_WARN else Q_PASS),
               qr_product_id = Some product_id, qr_product_version = Some (pc_version config),
               qr_hard_errors = hard_errors, qr_warnings = warnings\<rparr>)"

section \<open>When each group of checks is silent\<close>

lemma hard_findings_Nil_iff:
  "hard_findings ds vs = [] \<longleftrightarrow> (\<forall>d\<in>set ds. dr_decision d \<noteq> D_BLOCK) \<and> (\<forall>v\<in>set vs. vd_outcome v = ALLOW)"
  by (auto simp: hard_findings_def filter_empty_conv) (metis version_outcome.exhaust)

lemma shared_changed_tables_set:
  "t \<in> set (shared_changed_tables ts vs reg) \<longleftrightarrow>
     (\<exists>i < min (length ts) (length vs). ts ! i = t \<and> vd_changed (vs ! i) \<and> get_table reg (tr_table_id t) \<noteq> None
        \<and> ir_shared (analyze_table_change (tr_table_id t) (mappings reg)))"
  by (auto simp: shared_changed_tables_def in_set_conv_nth [of _ "zip ts vs"] image_iff) force+

lemma changeset_findings_Nil_iff:
  "changeset_findings ci p cs shared n = [] \<longleftrightarrow>
     p \<in> set (cs_required_product_ids cs) \<and> (\<forall>t\<in>set shared. tr_table_id t \<in> set (cs_table_ids cs))
     \<and> (\<exists>k. n = Some k \<and> 1 \<le> k)"
  by (cases n) (auto simp: changeset_findings_def filter_empty_conv)

lemma visual_findings_Nil_iff:
  "visual_findings f = [] \<longleftrightarrow> fr_warning_codes f = [] \<and> fr_ocr_correction_rejected_count f \<le> 0
     \<and> oa_page ` set (fr_ocr_corrections f) = {1..fr_page_count f}
     \<and> (\<forall>p\<in>set (fr_ocr_corrections f). oa_outcome p \<in> {O_Applied, O_Reused})"
  by (auto simp: visual_findings_def Let_def filter_empty_conv)

lemma degraded_findings_Nil_iff: "degraded_findings d f = [] \<longleftrightarrow> fr_degraded_block_count f \<le> 0"
  by (auto simp: degraded_findings_def Let_def)

lemma candidate_findings_Nil_iff:
  "candidate_findings v = [] \<longleftrightarrow> vr_status v \<in> {VERIFIED, REVIEW_PENDING}
     \<and> ''SEMANTIC_SOURCE_REPLAY_MISMATCH'' \<notin> set (vr_findings v)"
  by (simp add: candidate_findings_def Let_def)

lemma loss_findings_Nil_iff:
  "loss_findings f = [] \<longleftrightarrow> fr_status f \<noteq> F_FAIL \<and> fr_unmatched_span_count f \<le> 0
     \<and> fr_duplicated_span_count f \<le> 0 \<and> 1 \<le> fr_source_text_coverage f"
  by (auto simp: loss_findings_def)

section \<open>What a product that passes is known to have\<close>

lemma fidelity_report_counts:
  assumes "SemanticFidelityReport f = Inr f'"
  shows "0 \<le> fr_preserved_span_count f" "0 \<le> fr_excluded_span_count f" "0 \<le> fr_unmatched_span_count f"
    "0 \<le> fr_duplicated_span_count f" "fr_degraded_block_count f = int (length (fr_degraded_blocks f))"
    "fr_source_span_count f = fr_preserved_span_count f + fr_excluded_span_count f + fr_unmatched_span_count f"
    "fr_source_text_coverage f = coverage f" "fr_status f = expected_status f"
    "fr_ocr_correction_rejected_count f = count_patches {O_Rejected} f"
  using assms by (auto simp: SemanticFidelityReport_def fidelity_fields_ok_def split: if_splits)

lemma count_patches_0_iff:
  "count_patches outcomes f \<le> 0 \<longleftrightarrow>
     (\<forall>p\<in>set (fr_ocr_corrections f). \<forall>a\<in>set (oa_patches p). pa_outcome a \<notin> outcomes)"
  by (auto simp: count_patches_def filter_empty_conv)

text \<open>(C7) A semantic document that came through the span pipeline passes the gate exactly when every
  source span was kept or deliberately excluded, none twice, no block was degraded and, where
  visual correction is required, every page of a PDF was audited, nothing on it was rejected and
  no warning is left.\<close>

theorem semantic_gate_lossless:
  assumes "doc_validation d = None" and "doc_fidelity d = Some f" and "SemanticFidelityReport f = Inr f'"
  shows "semantic_hard_findings d visual = [] \<longleftrightarrow>
     fr_source_span_count f = fr_preserved_span_count f + fr_excluded_span_count f
     \<and> fr_duplicated_span_count f = 0 \<and> fr_degraded_blocks f = []
     \<and> (visual \<and> fr_extraction_mode f \<noteq> DOCX_XML \<longrightarrow>
          fr_warning_codes f = [] \<and> oa_page ` set (fr_ocr_corrections f) = {1..fr_page_count f}
          \<and> (\<forall>p\<in>set (fr_ocr_corrections f). oa_outcome p \<in> {O_Applied, O_Reused}
                \<and> (\<forall>a\<in>set (oa_patches p). pa_outcome a \<noteq> O_Rejected)))"
proof -
  note c = fidelity_report_counts [OF assms(3)]
  have loss: "loss_findings f = [] \<longleftrightarrow> fr_unmatched_span_count f = 0 \<and> fr_duplicated_span_count f = 0"
    unfolding loss_findings_Nil_iff c(7,8) using c(3,4,6)
    by (auto simp: expected_status_def coverage_def)
  have mode: "fr_extraction_mode f \<in> {PDF_EMBEDDED, OCR} \<longleftrightarrow> fr_extraction_mode f \<noteq> DOCX_XML"
    by (cases "fr_extraction_mode f") auto
  have vis: "visual_findings f = [] \<longleftrightarrow> fr_warning_codes f = []
      \<and> oa_page ` set (fr_ocr_corrections f) = {1..fr_page_count f}
      \<and> (\<forall>p\<in>set (fr_ocr_corrections f). oa_outcome p \<in> {O_Applied, O_Reused}
            \<and> (\<forall>a\<in>set (oa_patches p). pa_outcome a \<noteq> O_Rejected))"
    unfolding visual_findings_Nil_iff c(9) count_patches_0_iff by auto
  show ?thesis
    unfolding semantic_hard_findings_def using assms(1,2) c(5,6) loss mode vis
    by (cases visual; cases "fr_extraction_mode f") (simp_all add: degraded_findings_Nil_iff)
qed

lemma ball_pairs: "(\<forall>t\<in>{t. \<exists>v. (t, v) \<in> Z \<and> S t v}. G t) \<longleftrightarrow> (\<forall>(t, v)\<in>Z. S t v \<longrightarrow> G t)"
  by blast

text \<open>(C8) The gate lets a changed table that two products map through only under a changeset that
  exists, includes the table, requires this product, and with a pull request to record.\<close>

theorem shared_table_gate:
  assumes "length ts = length vs"
  shows "shared_table_findings config p ts vs reg n = Inr [] \<longleftrightarrow>
     (\<forall>(t, v)\<in>set (zip ts vs). vd_changed v \<and> get_table reg (tr_table_id t) \<noteq> None
        \<and> (\<exists>m\<in>set (mappings reg). \<exists>m'\<in>set (mappings reg). ref_table_id m = tr_table_id t
             \<and> ref_table_id m' = tr_table_id t \<and> ref_product_id m \<noteq> ref_product_id m')
        \<longrightarrow> (\<exists>i cs k. pc_changeset_id config = Some i \<and> i \<noteq> [] \<and> get_changeset reg i = Some cs
             \<and> p \<in> set (cs_required_product_ids cs) \<and> tr_table_id t \<in> set (cs_table_ids cs) \<and> n = Some k \<and> 1 \<le> k))"
    (is "?L \<longleftrightarrow> (\<forall>(t, v)\<in>set (zip ts vs). ?shared t v \<longrightarrow> ?gate t)")
proof -
  let ?S = "shared_changed_tables ts vs reg"
  have mem: "set ?S = {t. \<exists>v. (t, v) \<in> set (zip ts vs) \<and> ?shared t v}"
    by (auto simp: shared_changed_tables_def ir_shared_iff image_iff; blast)
  have "?L \<longleftrightarrow> (\<forall>t\<in>set ?S. ?gate t)"
  proof (cases "?S = []")
    case False
    then obtain t0 where t0: "t0 \<in> set ?S" by (cases ?S) auto
    show ?thesis
    proof (cases "pc_changeset_id config")
      case None
      with False have "\<not> ?L" by (simp add: shared_table_findings_def assms Let_def)
      moreover from None have "\<not> ?gate t0" by simp
      ultimately show ?thesis using t0 by blast
    next
      case (Some i)
      show ?thesis
      proof (cases "i = [] \<or> get_changeset reg i = None")
        case True
        with False Some have "\<not> ?L" by (auto simp: shared_table_findings_def assms Let_def)
        moreover from True Some have "\<not> ?gate t0" by auto
        ultimately show ?thesis using t0 by blast
      next
        case gate: False
        then obtain cs where cs: "get_changeset reg i = Some cs" by blast
        define pr where "pr \<longleftrightarrow> (\<exists>k. n = Some k \<and> 1 \<le> k)"
        have gates: "?gate t \<longleftrightarrow> p \<in> set (cs_required_product_ids cs) \<and> tr_table_id t \<in> set (cs_table_ids cs) \<and> pr" for t
          using Some cs gate by (simp add: pr_def)
        from gate False Some cs have "?L \<longleftrightarrow> changeset_findings i p cs ?S n = []"
          by (simp add: shared_table_findings_def assms Let_def)
        also have "\<dots> \<longleftrightarrow> p \<in> set (cs_required_product_ids cs) \<and> (\<forall>t\<in>set ?S. tr_table_id t \<in> set (cs_table_ids cs)) \<and> pr"
          unfolding changeset_findings_Nil_iff pr_def ..
        also have "\<dots> \<longleftrightarrow> (\<forall>t\<in>set ?S. p \<in> set (cs_required_product_ids cs) \<and> tr_table_id t \<in> set (cs_table_ids cs) \<and> pr)"
          using t0 by blast
        finally show ?thesis unfolding gates .
      qed
    qed
  qed (simp add: shared_table_findings_def assms Let_def)
  also have "\<dots> \<longleftrightarrow> (\<forall>(t, v)\<in>set (zip ts vs). ?shared t v \<longrightarrow> ?gate t)" unfolding mem by (rule ball_pairs)
  finally show ?thesis .
qed

text \<open>The findings about a missing description, the ones the score is about.\<close>

definition missing_description :: "quality_finding \<Rightarrow> bool" where
  "missing_description f \<longleftrightarrow> qf_code f \<in> {''MISSING_PRODUCT_DESCRIPTION'', ''MISSING_TABLE_DESCRIPTION'',
     ''MISSING_COLUMN_DESCRIPTION''}"

lemma missing_of_table:
  "length (filter missing_description (table_findings t))
     = (if truthy (ti_description t) then 0 else 1) + length (filter (\<lambda>c. \<not> truthy (ci_description c)) (ti_columns t))"
  by (simp add: table_findings_def column_findings_def missing_description_def filter_map comp_def)

text \<open>The completeness score and the warnings agree: the described items and the findings about a
  missing description together count every item once.\<close>

theorem completeness_counts:
  "length (filter missing_description (completeness_findings config irs doc))
     + length (filter (\<lambda>b. b) (completeness_values config irs)) = length (completeness_values config irs)"
proof -
  let ?m = "\<lambda>ts. length (filter missing_description (concat (map table_findings ts)))"
  have cols: "length (filter (\<lambda>c. \<not> truthy (ci_description c)) cs)
      + length (filter (\<lambda>b. b) (map (\<lambda>c. truthy (ci_description c)) cs)) = length cs" for cs
    by (induction cs) auto
  have "?m ts + (length (filter (\<lambda>b. b) (map (\<lambda>t. truthy (ti_description t)) ts))
      + length (filter (\<lambda>b. b) (concat (map (\<lambda>t. map (\<lambda>c. truthy (ci_description c)) (ti_columns t)) ts))))
      = length ts + length (concat (map ti_columns ts))" for ts
  proof (induction ts)
    case (Cons t ts)
    then show ?case using cols [of "ti_columns t"] by (simp add: missing_of_table)
  qed simp
  from this [of irs] show ?thesis
    by (simp add: completeness_findings_def completeness_values_def missing_description_def length_concat comp_def)
qed

text \<open>The verdict of the gate: a product is not failed exactly when no duplicate check and no
  version blocks it, shared tables are covered, its relationships and its semantic document have
  no finding, and, in strict mode, nothing is warned about.\<close>

theorem assess_verdict:
  assumes "assess config p ts irs ds v vs reg n rf mf doc visual strict = Inr q"
  shows "(qr_status q \<noteq> Q_FAIL \<longleftrightarrow>
       (\<forall>d\<in>set ds. dr_decision d \<noteq> D_BLOCK) \<and> (\<forall>w\<in>set (v # vs). vd_outcome w = ALLOW)
       \<and> shared_table_findings config p ts vs reg n = Inr [] \<and> rf = [] \<and> semantic_hard_findings doc visual = []
       \<and> (strict \<longrightarrow> qr_warnings q = []))
     \<and> (qr_status q = Q_FAIL \<longleftrightarrow> qr_hard_errors q \<noteq> [])
     \<and> (qr_status q = Q_PASS \<longleftrightarrow> qr_hard_errors q = [] \<and> qr_warnings q = [])"
proof -
  from assms obtain s where s: "shared_table_findings config p ts vs reg n = Inr s" by (auto simp: assess_def)
  let ?W = "completeness_findings config irs doc @ mf @ semantic_findings doc"
  have hard: "qr_hard_errors q = [] \<longleftrightarrow> hard_findings ds (v # vs) = [] \<and> s = [] \<and> rf = []
      \<and> semantic_hard_findings doc visual = [] \<and> (strict \<longrightarrow> qr_warnings q = [])"
    and status: "qr_status q = (if qr_hard_errors q \<noteq> [] then Q_FAIL else if qr_warnings q \<noteq> [] then Q_WARN else Q_PASS)"
    using assms unfolding assess_def s by (auto simp only: bind_ok.simps Let_def append_is_Nil_conv
        quality_report.simps sum.inject split: if_splits)
  show ?thesis using status hard s unfolding hard_findings_Nil_iff by auto
qed

section \<open>Samples\<close>

definition document1 :: parsed_document where
  "document1 = \<lparr>doc_role = SEMANTIC_DOCUMENT, doc_source_hash = sha64, doc_markdown = ''text'', doc_has_content = Some True,
     doc_evidence = [], doc_excluded_evidence = [], doc_fidelity = Some report1, doc_repair = None,
     doc_validation = None\<rparr>"

theorem semantic_gate_lossless_witness: "semantic_hard_findings document1 True = []"
proof -
  have "Sha256 (replicate 64 CHR ''a'')" by code_simp
  then have "SemanticFidelityReport report1 = Inr report1"
    by (simp add: SemanticFidelityReport_def fidelity_fields_ok_def report1_def coverage_def expected_status_def
        count_patches_def)
  from semantic_gate_lossless [of document1, OF _ _ this, of True] show ?thesis
    by (simp add: document1_def) (simp add: report1_def)
qed

definition reg_shared :: registry where
  "reg_shared = reg0\<lparr>rg_tables := [(tid1, table1)],
     rg_mappings := [(pid1, [ref1]), (pid2, [ref1\<lparr>ref_product_id := pid2\<rparr>])]\<rparr>"

definition advance1 :: version_decision where
  "advance1 = decision ALLOW ''ADVANCE'' (Some 1) (Some 1) (Some 2) (Some 2) True"

theorem shared_table_gate_witness:
  "shared_table_findings config1 pid1 [table1] [advance1] reg_shared (Some 3) \<noteq> Inr []"
proof -
  have m: "set (mappings reg_shared) = {ref1, ref1\<lparr>ref_product_id := pid2\<rparr>}"
    by (auto simp: mappings_def reg_shared_def)
  have "get_table reg_shared (tr_table_id table1) = Some table1"
    by (simp add: reg_shared_def table1_def get_table_def)
  then show ?thesis
    using sample_ids_distinct
    by (subst shared_table_gate) (simp_all add: m advance1_def decision_def config1_def ref1_def table1_def)
qed

theorem assess_verdict_witness:
  "\<exists>q. assess config1 pid1 [] [] [] advance1 [] reg0 None [] [] document1 True False = Inr q \<and> qr_status q \<noteq> Q_FAIL"
proof -
  obtain q where q: "assess config1 pid1 [] [] [] advance1 [] reg0 None [] [] document1 True False = Inr q"
    by (simp add: assess_def shared_table_findings_def shared_changed_tables_def Let_def)
  have "semantic_hard_findings document1 True = []"
    by (simp add: semantic_hard_findings_def document1_def report1_def loss_findings_def degraded_findings_def)
  then have "qr_status q \<noteq> Q_FAIL"
    using assess_verdict [OF q]
    by (simp add: shared_table_findings_def shared_changed_tables_def advance1_def decision_def)
  with q show ?thesis by blast
qed

end
