(* ===== verification/Product_Facts.thy ===== *)
theory Product_Facts
  imports Quality Renderers
begin

text \<open>
  The facts about a product that an LLM provider suggests (\<open>llm/suggestions.py\<close> and the product-fact
  part of \<open>pipeline.py\<close>): which are accepted, on what evidence, and how the configured description
  overrides them. The provider's answer is arbitrary input; the lemmas show that every accepted item
  rests on evidence of the submitted product page.
\<close>

section \<open>Suggestions\<close>

text \<open>A float: its exact value and the text it prints as.\<close>

record py_float =
  fl_value :: rat
  fl_text :: string

text \<open>The double that the literal \<open>0.7\<close> denotes.\<close>

definition CONFIDENCE_THRESHOLD :: rat where
  "CONFIDENCE_THRESHOLD = 3152519739159347 / 4503599627370496"

record product_fact_suggestion =
  fs_kind :: string
  fs_value :: string
  fs_confidence :: py_float
  fs_evidence_ids :: "string list"

text \<open>\<open>s.split()\<close>: the maximal runs of characters that are not spaces.\<close>

fun py_split :: "string \<Rightarrow> string list" where
  "py_split [] = []"
| "py_split (c # cs) =
     (if is_space c then py_split cs
      else case py_split cs of
          [] \<Rightarrow> [[c]]
        | w # ws \<Rightarrow> (if cs \<noteq> [] \<and> \<not> is_space (hd cs) then (c # w) # ws else [c] # w # ws))"

text \<open>\<open>" ".join(value.split())\<close>.\<close>

definition squash :: "string \<Rightarrow> string" where
  "squash s = join '' '' (py_split s)"

definition ProductFactSuggestion :: "product_fact_suggestion \<Rightarrow> product_fact_suggestion result" where
  "ProductFactSuggestion f =
     (if squash (fs_value f) = [] then Inl (ValidationError ''product fact value must be non-empty'')
      else if fs_kind f \<notin> set ProductFactKind \<or> fl_value (fs_confidence f) < 0 \<or> fl_value (fs_confidence f) > 1
              \<or> fs_evidence_ids f = [] then Inl field_error
      else Inr (f\<lparr>fs_value := squash (fs_value f)\<rparr>))"

section \<open>Evidence\<close>

text \<open>\<open>f"product-evidence-{position:06d}"\<close>.\<close>

definition evidence_name :: "nat \<Rightarrow> string" where
  "evidence_name position =
     (let digits = nat_str position
      in ''product-evidence-'' @ replicate (6 - length digits) CHR ''0'' @ digits)"

definition product_evidence_catalog :: "parsed_document \<Rightarrow> (string, evidence) dict" where
  "product_evidence_catalog document =
     dict_of (\<lambda>(position, _). evidence_name position) snd
       (zip [1..<length (doc_evidence document) + 1] (doc_evidence document))"

definition product_evidence_key :: "evidence \<Rightarrow> string \<times> string \<times> string \<times> string option" where
  "product_evidence_key e =
     (ev_source_hash e, role_value (ev_role e),
      dumps (sort_keys (JObj (filter (\<lambda>(_, v). v \<noteq> JNull) (ev_locator e)))), ev_excerpt e)"

definition resolve_product_fact_evidence ::
  "product_fact_suggestion \<Rightarrow> (string, evidence) dict \<Rightarrow> evidence list result" where
  "resolve_product_fact_evidence item evidence_catalog =
     (if \<not> distinct (fs_evidence_ids item) then Inl (ValueError ''LLM_PRODUCT_FACT_EVIDENCE_ID_DUPLICATE'')
      else traverse (\<lambda>i. case dict_get evidence_catalog i of
          None \<Rightarrow> Inl (ValueError ''LLM_PRODUCT_FACT_EVIDENCE_UNKNOWN'') | Some e \<Rightarrow> Inr e)
        (fs_evidence_ids item))"

text \<open>The pattern of a text marked as generated, in its Korean and its English form.\<close>

definition hangul_auto :: string where
  "hangul_auto = [CHR 0xEC, CHR 0x9E, CHR 0x90, CHR 0xEB, CHR 0x8F, CHR 0x99]"

definition hangul_create :: string where
  "hangul_create = [CHR 0xEC, CHR 0x83, CHR 0x9D, CHR 0xEC, CHR 0x84, CHR 0xB1]"

definition ai_mark_here :: "string \<Rightarrow> bool" where
  "ai_mark_here s \<longleftrightarrow> starts_with ''ai'' (casefold s)
     \<and> (let rest = lstrip (drop 2 s)
        in starts_with ''generated'' (casefold rest)
           \<or> (starts_with hangul_auto rest \<and> starts_with hangul_create (lstrip (drop 6 rest))))"

definition ai_generated :: "string \<Rightarrow> bool" where
  "ai_generated s \<longleftrightarrow> list_ex (\<lambda>i. ai_mark_here (drop i s)) [0..<length s]"

section \<open>Validation\<close>

definition PRODUCT_FACT_KIND_ORDER :: "string list" where
  "PRODUCT_FACT_KIND_ORDER = [''description'', ''purpose'', ''domain'', ''data_type'', ''storage_location'',
     ''source_system'', ''source_name'', ''tag'', ''access'', ''security_classification'', ''owner'',
     ''contact'', ''consumer'', ''refresh_schedule'', ''freshness'', ''sla'', ''ai_readiness'', ''quality'',
     ''constraint'', ''related_link'']"

definition PRODUCT_FACT_SINGLETONS :: "string list" where
  "PRODUCT_FACT_SINGLETONS = [''description'', ''purpose'', ''domain'', ''data_type'', ''storage_location'',
     ''access'', ''security_classification'', ''refresh_schedule'', ''freshness'', ''sla'', ''ai_readiness'']"

definition fact_position :: "string \<Rightarrow> nat" where
  "fact_position kind = length (takeWhile (\<lambda>k. k \<noteq> kind) PRODUCT_FACT_KIND_ORDER)"

definition dump_fact :: "product_fact_suggestion \<Rightarrow> string" where
  "dump_fact f = dumps (sort_keys (JObj
     [(''kind'', JStr (fs_kind f)), (''value'', JStr (fs_value f)), (''confidence'', JFloat (fl_text (fs_confidence f))),
      (''evidence_ids'', JArr (map JStr (fs_evidence_ids f)))]))"

definition product_fact_input_key :: "product_fact_suggestion \<Rightarrow> nat \<times> string \<times> string \<times> string" where
  "product_fact_input_key f = (fact_position (fs_kind f), casefold (fs_value f), fs_value f, dump_fact f)"

definition fact_output_key :: "product_fact_ir \<Rightarrow> nat \<times> string \<times> string" where
  "fact_output_key f = (fact_position (pf_kind f), casefold (pf_value f), pf_value f)"

definition check_fact_evidence :: "parsed_document \<Rightarrow> evidence \<Rightarrow> unit result" where
  "check_fact_evidence document e =
     (let known = map product_evidence_key (doc_evidence document);
          excluded = map product_evidence_key (doc_excluded_evidence document)
      in if ev_role e \<noteq> PRODUCT_HTML then Inl (ValueError ''LLM_PRODUCT_FACT_EVIDENCE_ROLE_INVALID'')
         else if ev_source_hash e \<noteq> doc_source_hash document
         then Inl (ValueError ''LLM_PRODUCT_FACT_EVIDENCE_SOURCE_UNKNOWN'')
         else if \<not> truthy (ev_excerpt e) \<or> strip (the (ev_excerpt e)) = []
         then Inl (ValueError ''LLM_PRODUCT_FACT_EVIDENCE_EXCERPT_REQUIRED'')
         else if product_evidence_key e \<in> set excluded
         then Inl (ValueError ''LLM_PRODUCT_FACT_EVIDENCE_AI_GENERATED'')
         else if product_evidence_key e \<notin> set known then Inl (ValueError ''LLM_PRODUCT_FACT_EVIDENCE_UNKNOWN'')
         else if ai_generated (the (ev_excerpt e)) then Inl (ValueError ''LLM_PRODUCT_FACT_EVIDENCE_AI_GENERATED'')
         else Inr ())"

text \<open>One turn of the loop over the sorted facts. The state is \<open>accepted\<close> and \<open>singleton_values\<close>.\<close>

type_synonym fact_state = "(string \<times> string, product_fact_ir) dict \<times> (string, string) dict"

definition accept_fact :: "parsed_document \<Rightarrow> fact_state \<Rightarrow> product_fact_suggestion \<Rightarrow> fact_state result" where
  "accept_fact document st item =
     (case st of (accepted, singleton_values) \<Rightarrow>
      bind_ok (resolve_product_fact_evidence item (product_evidence_catalog document)) (\<lambda>resolved.
      bind_ok (traverse (check_fact_evidence document) resolved) (\<lambda>_.
        if fl_value (fs_confidence item) < CONFIDENCE_THRESHOLD then Inr st
        else
          let normalized_key = casefold (fs_value item); key = (fs_kind item, normalized_key)
          in if dict_get accepted key \<noteq> None then Inr st
             else if fs_kind item \<in> set PRODUCT_FACT_SINGLETONS
                     \<and> dict_get singleton_values (fs_kind item) \<notin> {None, Some normalized_key}
             then Inl (ValueError ''LLM_PRODUCT_FACT_SINGLETON_CONFLICT'')
             else Inr (dict_set key \<lparr>pf_kind = fs_kind item, pf_value = fs_value item, pf_evidence = resolved\<rparr> accepted,
                       dict_set (fs_kind item) normalized_key singleton_values))))"

definition override_description ::
  "string option \<Rightarrow> (string \<times> string, product_fact_ir) dict \<Rightarrow> (string \<times> string, product_fact_ir) dict" where
  "override_description configured_description accepted =
     (let normalized = (if truthy configured_description then squash (the configured_description) else [])
      in if normalized = [] then accepted
         else dict_set (''description'', casefold normalized)
                \<lparr>pf_kind = ''description'', pf_value = normalized, pf_evidence = []\<rparr>
                (filter (\<lambda>(_, item). pf_kind item \<noteq> ''description'') accepted))"

definition validate_product_facts ::
  "product_fact_suggestion list \<Rightarrow> parsed_document \<Rightarrow> string option \<Rightarrow> product_fact_ir list result" where
  "validate_product_facts facts document configured_description =
     bind_ok (fold_ok (accept_fact document) ([], []) (sort_key product_fact_input_key facts)) (\<lambda>(accepted, _).
       Inr (sort_key fact_output_key (dict_values (override_description configured_description accepted))))"

section \<open>Accepted facts are grounded\<close>

definition grounded_evidence :: "parsed_document \<Rightarrow> evidence \<Rightarrow> bool" where
  "grounded_evidence d e \<longleftrightarrow> e \<in> set (doc_evidence d) \<and> ev_role e = PRODUCT_HTML
     \<and> ev_source_hash e = doc_source_hash d
     \<and> (\<exists>x. ev_excerpt e = Some x \<and> strip x \<noteq> [] \<and> \<not> ai_generated x)
     \<and> product_evidence_key e \<notin> product_evidence_key ` set (doc_excluded_evidence d)"

definition grounded_fact :: "product_fact_suggestion list \<Rightarrow> parsed_document \<Rightarrow> product_fact_ir \<Rightarrow> bool" where
  "grounded_fact sugs d f \<longleftrightarrow> (\<forall>e\<in>set (pf_evidence f). grounded_evidence d e)
     \<and> (\<exists>s\<in>set sugs. fs_kind s = pf_kind f \<and> fs_value s = pf_value f
          \<and> CONFIDENCE_THRESHOLD \<le> fl_value (fs_confidence s)
          \<and> length (pf_evidence f) = length (fs_evidence_ids s))"

abbreviation fact_key :: "product_fact_ir \<Rightarrow> string \<times> string" where
  "fact_key f \<equiv> (pf_kind f, casefold (pf_value f))"

definition fact_inv :: "product_fact_suggestion list \<Rightarrow> parsed_document \<Rightarrow> fact_state \<Rightarrow> bool" where
  "fact_inv sugs d st \<longleftrightarrow> dict_ok (fst st)
     \<and> (\<forall>k f. dict_get (fst st) k = Some f \<longrightarrow> k = fact_key f \<and> grounded_fact sugs d f
          \<and> (pf_kind f \<in> set PRODUCT_FACT_SINGLETONS
              \<longrightarrow> dict_get (snd st) (pf_kind f) = Some (casefold (pf_value f))))"

lemma catalog_evidence: "dict_get (product_evidence_catalog d) i = Some e \<Longrightarrow> e \<in> set (doc_evidence d)"
  by (auto simp: product_evidence_catalog_def dict_get_of dest!: find_SomeD in_set_zipE)

lemma resolved_evidence:
  assumes "resolve_product_fact_evidence s (product_evidence_catalog d) = Inr es"
  shows "set es \<subseteq> set (doc_evidence d)" "length es = length (fs_evidence_ids s)"
proof -
  from assms have t: "traverse (\<lambda>i. case dict_get (product_evidence_catalog d) i of
      None \<Rightarrow> Inl (ValueError ''LLM_PRODUCT_FACT_EVIDENCE_UNKNOWN'') | Some e \<Rightarrow> Inr e) (fs_evidence_ids s) = Inr es"
    by (simp add: resolve_product_fact_evidence_def split: if_splits)
  show "length es = length (fs_evidence_ids s)" using traverse_length [OF t] .
  show "set es \<subseteq> set (doc_evidence d)"
    by (auto elim!: traverse_in_set [OF t] split: option.splits dest: catalog_evidence)
qed

lemma checked_evidence:
  "check_fact_evidence d e = Inr u \<Longrightarrow> e \<in> set (doc_evidence d) \<Longrightarrow> grounded_evidence d e"
  by (cases "ev_excerpt e") (auto simp: check_fact_evidence_def grounded_evidence_def Let_def split: if_splits)

lemma fact_invD:
  "fact_inv sugs d st \<Longrightarrow> dict_get (fst st) k = Some f \<Longrightarrow> k = fact_key f \<and> grounded_fact sugs d f
     \<and> (pf_kind f \<in> set PRODUCT_FACT_SINGLETONS \<longrightarrow> dict_get (snd st) (pf_kind f) = Some (casefold (pf_value f)))"
  unfolding fact_inv_def by blast

lemma fact_inv_ok: "fact_inv sugs d (acc, sing) \<Longrightarrow> dict_ok acc"
  unfolding fact_inv_def fst_conv by blast

lemma accept_fact_inv:
  assumes "fact_inv sugs d st" and "s \<in> set sugs" and "accept_fact d st s = Inr st'"
  shows "fact_inv sugs d st'"
proof -
  obtain acc sing where st: "st = (acc, sing)" by (cases st)
  from assms(3) obtain es us where es: "resolve_product_fact_evidence s (product_evidence_catalog d) = Inr es"
    and us: "traverse (check_fact_evidence d) es = Inr us" by (auto simp: accept_fact_def st)
  let ?n = "casefold (fs_value s)"
  let ?f = "\<lparr>pf_kind = fs_kind s, pf_value = fs_value s, pf_evidence = es\<rparr>"
  have "\<forall>e\<in>set es. grounded_evidence d e"
    using us resolved_evidence(1) [OF es] checked_evidence traverse_ok_iff [of "check_fact_evidence d" es] by blast
  then have g: "CONFIDENCE_THRESHOLD \<le> fl_value (fs_confidence s) \<Longrightarrow> grounded_fact sugs d ?f"
    using assms(2) resolved_evidence(2) [OF es] by (auto simp: grounded_fact_def)
  show ?thesis
  proof (cases "fl_value (fs_confidence s) < CONFIDENCE_THRESHOLD \<or> dict_get acc (fs_kind s, ?n) \<noteq> None")
    case True
    with assms(1,3) es us st show ?thesis by (auto simp: accept_fact_def Let_def split: if_splits)
  next
    case False
    with assms(3) es us have new: "st' = (dict_set (fs_kind s, ?n) ?f acc, dict_set (fs_kind s) ?n sing)"
      and single: "fs_kind s \<in> set PRODUCT_FACT_SINGLETONS \<Longrightarrow> dict_get sing (fs_kind s) \<in> {None, Some ?n}"
      by (auto simp: accept_fact_def st Let_def split: if_splits)
    have kept: "k = fact_key f \<and> grounded_fact sugs d f
        \<and> (pf_kind f \<in> set PRODUCT_FACT_SINGLETONS \<longrightarrow> dict_get (snd st') (pf_kind f) = Some (casefold (pf_value f)))"
      if "dict_get acc k = Some f" for k f
    proof -
      from fact_invD [OF assms(1)] that have k: "k = fact_key f" and gf: "grounded_fact sugs d f"
        and sf: "pf_kind f \<in> set PRODUCT_FACT_SINGLETONS \<Longrightarrow> dict_get sing (pf_kind f) = Some (casefold (pf_value f))"
        by (auto simp: st)
      from single sf have "pf_kind f \<in> set PRODUCT_FACT_SINGLETONS \<Longrightarrow> pf_kind f = fs_kind s \<Longrightarrow> casefold (pf_value f) = ?n"
        by auto
      with k gf sf show ?thesis by (simp add: new)
    qed
    have "k = fact_key f \<and> grounded_fact sugs d f
        \<and> (pf_kind f \<in> set PRODUCT_FACT_SINGLETONS \<longrightarrow> dict_get (snd st') (pf_kind f) = Some (casefold (pf_value f)))"
      if "dict_get (fst st') k = Some f" for k f
    proof (cases "k = (fs_kind s, ?n)")
      case True
      with that have "f = ?f" by (simp add: new)
      with True g False show ?thesis by (simp add: new)
    qed (use that kept in \<open>simp add: new\<close>)
    moreover have "dict_ok (fst st')" using assms(1) by (simp add: new fact_inv_def st)
    ultimately show ?thesis unfolding fact_inv_def by blast
  qed
qed

lemma validated_facts:
  assumes "validate_product_facts sugs d desc = Inr out"
  obtains acc sing where "fact_inv sugs d (acc, sing)"
    and "out = sort_key fact_output_key (dict_values (override_description desc acc))"
proof -
  from assms obtain acc sing where f: "fold_ok (accept_fact d) ([], []) (sort_key product_fact_input_key sugs) = Inr (acc, sing)"
    and out: "out = sort_key fact_output_key (dict_values (override_description desc acc))"
    by (auto simp: validate_product_facts_def)
  have "fact_inv sugs d (acc, sing)"
  proof (rule fold_ok_invariant [OF f])
    show "fact_inv sugs d ([], [])" by (simp add: fact_inv_def)
    show "fact_inv sugs d st'" if "s \<in> set (sort_key product_fact_input_key sugs)" "fact_inv sugs d st"
      "accept_fact d st s = Inr st'" for st s st'
      using accept_fact_inv [OF that(2) _ that(3)] that(1) by simp
  qed
  from this out show thesis by (rule that)
qed

text \<open>The fact that the configured description stands for.\<close>

definition configured_fact :: "string option \<Rightarrow> product_fact_ir option" where
  "configured_fact desc =
     (if truthy desc \<and> squash (the desc) \<noteq> []
      then Some \<lparr>pf_kind = ''description'', pf_value = squash (the desc), pf_evidence = []\<rparr> else None)"

lemma override_entries:
  assumes "fact_inv sugs d (acc, sing)"
  shows "dict_ok (override_description desc acc)"
    and "(k, f) \<in> set (override_description desc acc) \<longleftrightarrow>
      k = fact_key f \<and> (configured_fact desc = Some f
        \<or> (k, f) \<in> set acc \<and> (configured_fact desc = None \<or> pf_kind f \<noteq> ''description''))"
proof -
  have ok: "dict_ok acc" using assms by (simp add: fact_inv_def)
  have key: "k = fact_key f" if "(k, f) \<in> set acc" for k f
    using fact_invD [OF assms, of k f] that dict_get_in [OF ok, of k f] by simp
  let ?F = "filter (\<lambda>(_, item). pf_kind item \<noteq> ''description'') acc"
  have okF: "dict_ok ?F" using ok by (simp add: dict_ok_def distinct_map_filter)
  then show "dict_ok (override_description desc acc)" using ok
    by (simp add: override_description_def Let_def)
  show "(k, f) \<in> set (override_description desc acc) \<longleftrightarrow>
      k = fact_key f \<and> (configured_fact desc = Some f
        \<or> (k, f) \<in> set acc \<and> (configured_fact desc = None \<or> pf_kind f \<noteq> ''description''))"
  proof (cases "configured_fact desc")
    case None
    then have same: "override_description desc acc = acc"
      by (auto simp: configured_fact_def override_description_def Let_def split: if_splits)
    show ?thesis unfolding same None using key [of k f] by blast
  next
    case (Some g)
    then have g: "pf_kind g = ''description''"
      and o: "override_description desc acc = dict_set (fact_key g) g ?F"
      by (auto simp: configured_fact_def override_description_def Let_def split: if_splits)
    have "(k, f) \<in> set (dict_set (fact_key g) g ?F) \<longleftrightarrow> dict_get (dict_set (fact_key g) g ?F) k = Some f"
      by (rule dict_get_in [OF dict_ok_set [OF okF], symmetric])
    also have "\<dots> \<longleftrightarrow> (k = fact_key g \<and> f = g) \<or> (k \<noteq> fact_key g \<and> (k, f) \<in> set ?F)"
      using dict_get_in [OF okF] by auto
    also have "\<dots> \<longleftrightarrow> (k = fact_key g \<and> f = g) \<or> (k, f) \<in> set ?F"
      using g key by fastforce
    finally have "(k, f) \<in> set (override_description desc acc) \<longleftrightarrow>
        (k = fact_key g \<and> f = g) \<or> ((k, f) \<in> set acc \<and> pf_kind f \<noteq> ''description'')"
      unfolding o by simp
    then show ?thesis using key [of k f] unfolding Some by blast
  qed
qed

text \<open>(C9) Every fact in the product is the configured description or a suggestion made with enough
  confidence whose every piece of evidence is a non-blank excerpt of the submitted product page,
  neither excluded nor marked as generated text.\<close>

theorem validated_facts_grounded:
  assumes "validate_product_facts sugs d desc = Inr out"
    and "\<forall>s\<in>set sugs. \<exists>raw. ProductFactSuggestion raw = Inr s" and "f \<in> set out"
  shows "configured_fact desc = Some f
    \<or> grounded_fact sugs d f \<and> pf_evidence f \<noteq> [] \<and> pf_value f \<noteq> [] \<and> pf_kind f \<in> set ProductFactKind"
proof -
  from validated_facts [OF assms(1)] obtain acc sing where inv: "fact_inv sugs d (acc, sing)"
    and out: "out = sort_key fact_output_key (dict_values (override_description desc acc))" by blast
  from assms(3) obtain k where "(k, f) \<in> set (override_description desc acc)" by (auto simp: out)
  then have "configured_fact desc = Some f \<or> (k, f) \<in> set acc" unfolding override_entries(2) [OF inv] by blast
  moreover have "grounded_fact sugs d f" if "(k, f) \<in> set acc"
    using fact_invD [OF inv, of k f] that inv dict_get_in [of acc k f] unfolding fact_inv_def fst_conv by blast
  moreover have "pf_evidence f \<noteq> [] \<and> pf_value f \<noteq> [] \<and> pf_kind f \<in> set ProductFactKind" if "grounded_fact sugs d f"
  proof -
    from that obtain s where s: "s \<in> set sugs" "fs_kind s = pf_kind f" "fs_value s = pf_value f"
      "length (pf_evidence f) = length (fs_evidence_ids s)" by (auto simp: grounded_fact_def)
    from assms(2) s(1) obtain raw where "ProductFactSuggestion raw = Inr s" by blast
    then show ?thesis using s by (auto simp: ProductFactSuggestion_def split: if_splits)
  qed
  ultimately show ?thesis by blast
qed

text \<open>The facts of a product are in the order of their kinds, no kind holds the same value twice up
  to case, a single-valued kind holds one value, and a configured description is the only one.\<close>

theorem validated_facts_unique:
  assumes "validate_product_facts sugs d desc = Inr out"
  shows "distinct (map fact_key out) \<and> sorted (map fact_output_key out)
    \<and> (\<forall>f\<in>set out. \<forall>g\<in>set out. pf_kind f = pf_kind g \<longrightarrow> pf_kind f \<in> set PRODUCT_FACT_SINGLETONS \<longrightarrow> f = g)
    \<and> (\<forall>g. configured_fact desc = Some g \<longrightarrow> g \<in> set out)"
proof -
  from validated_facts [OF assms(1)] obtain acc sing where inv: "fact_inv sugs d (acc, sing)"
    and out: "out = sort_key fact_output_key (dict_values (override_description desc acc))" by blast
  let ?D = "override_description desc acc"
  note e = override_entries [OF inv]
  have mem: "f \<in> set out \<longleftrightarrow> (fact_key f, f) \<in> set ?D" for f
  proof -
    have "f \<in> set out \<longleftrightarrow> (\<exists>k. (k, f) \<in> set ?D)" by (force simp: out)
    then show ?thesis unfolding e(2) by blast
  qed
  have "map fact_key (dict_values ?D) = dict_keys ?D"
    unfolding map_map by (rule map_cong) (auto simp: e(2))
  then have "distinct (map fact_key (dict_values ?D))" using e(1) [of desc] unfolding dict_ok_def by (rule ssubst)
  moreover have "mset (map fact_key out) = mset (map fact_key (dict_values ?D))"
    by (simp add: out multiset.map_comp)
  ultimately have "distinct (map fact_key out)" using mset_eq_imp_distinct_iff by blast
  moreover have "sorted (map fact_output_key out)" by (simp add: out)
  moreover have "f = g" if fg: "f \<in> set out" "g \<in> set out" "pf_kind f = pf_kind g" "pf_kind f \<in> set PRODUCT_FACT_SINGLETONS" for f g
  proof (cases "configured_fact desc = Some f \<or> configured_fact desc = Some g")
    case True
    then have "pf_kind f = ''description''" using fg(3) by (auto simp: configured_fact_def split: if_splits)
    with fg(3) have "pf_kind g = ''description''" by simp
    with True \<open>pf_kind f = ''description''\<close> fg(1,2) show ?thesis unfolding mem e(2) by (elim disjE) simp_all
  next
    case False
    with fg(1,2) have a: "(fact_key f, f) \<in> set acc" "(fact_key g, g) \<in> set acc" unfolding mem e(2) by auto
    then have ga: "dict_get acc (fact_key f) = Some f" "dict_get acc (fact_key g) = Some g"
      unfolding dict_get_in [OF fact_inv_ok [OF inv]] by blast+
    have "dict_get sing (pf_kind f) = Some (casefold (pf_value f))" "dict_get sing (pf_kind g) = Some (casefold (pf_value g))"
      using fact_invD [OF inv, of "fact_key f" f] fact_invD [OF inv, of "fact_key g" g] ga fg(3,4) by simp_all
    with fg(3) have "fact_key f = fact_key g" by simp
    then have "dict_get acc (fact_key f) = Some g" using ga(2) by (rule ssubst)
    then show ?thesis unfolding ga(1) by (rule option.inject [THEN iffD1])
  qed
  moreover have "g \<in> set out" if "configured_fact desc = Some g" for g using that unfolding mem e(2) by simp
  ultimately show ?thesis by blast
qed

section \<open>Samples\<close>

definition html_evidence1 :: evidence where
  "html_evidence1 = \<lparr>ev_source_hash = sha64, ev_role = PRODUCT_HTML, ev_locator = [], ev_excerpt = Some ''Data team''\<rparr>"

definition html_document1 :: parsed_document where
  "html_document1 = document1\<lparr>doc_role := PRODUCT_HTML, doc_evidence := [html_evidence1]\<rparr>"

definition suggestion1 :: product_fact_suggestion where
  "suggestion1 = \<lparr>fs_kind = ''owner'', fs_value = ''Data team'',
     fs_confidence = \<lparr>fl_value = 9 / 10, fl_text = ''0.9''\<rparr>, fs_evidence_ids = [''product-evidence-000001'']\<rparr>"

definition owner_fact :: product_fact_ir where
  "owner_fact = \<lparr>pf_kind = ''owner'', pf_value = ''Data team'', pf_evidence = [html_evidence1]\<rparr>"

lemma sample_fact_steps: "evidence_name 1 = ''product-evidence-000001''" "strip ''Data team'' \<noteq> []" "\<not> ai_generated ''Data team''"
  "squash ''Data team'' = ''Data team''" "''owner'' \<in> set ProductFactKind" "squash ''Orders'' = ''Orders''"
  by code_simp+

lemma sample_facts: "validate_product_facts [suggestion1] html_document1 None = Inr [owner_fact]"
proof -
  have "resolve_product_fact_evidence suggestion1 (product_evidence_catalog html_document1) = Inr [html_evidence1]"
    using sample_fact_steps(1)
    by (simp add: resolve_product_fact_evidence_def suggestion1_def product_evidence_catalog_def dict_of_def
        html_document1_def)
  moreover have "check_fact_evidence html_document1 html_evidence1 = Inr ()"
    using sample_fact_steps(2,3)
    by (simp add: check_fact_evidence_def html_document1_def html_evidence1_def document1_def)
  ultimately show ?thesis
    by (simp add: validate_product_facts_def accept_fact_def override_description_def)
       (simp add: suggestion1_def CONFIDENCE_THRESHOLD_def PRODUCT_FACT_SINGLETONS_def owner_fact_def Let_def)
qed

theorem validated_facts_grounded_witness: "grounded_fact [suggestion1] html_document1 owner_fact"
proof -
  have "ProductFactSuggestion suggestion1 = Inr suggestion1"
    using sample_fact_steps(4,5) by (simp add: ProductFactSuggestion_def suggestion1_def)
  with validated_facts_grounded [OF sample_facts, of owner_fact] show ?thesis
    by (auto simp: configured_fact_def)
qed

theorem validated_facts_unique_witness:
  "\<exists>out. validate_product_facts [] html_document1 (Some ''Orders'') = Inr out \<and> distinct (map fact_key out) \<and> length out = 1"
proof -
  obtain out where out: "validate_product_facts [] html_document1 (Some ''Orders'') = Inr out" "length out = 1"
    using sample_fact_steps(6) by (auto simp: validate_product_facts_def override_description_def Let_def)
  with validated_facts_unique [OF out(1)] show ?thesis by blast
qed

end
