(* ===== verification/Enrichment.thy ===== *)
theory Enrichment
  imports Product_Facts
begin

text \<open>
  What a provider's suggestions and the declared foreign keys add to a product
  (\<open>pipeline.py\<close>): the checks on a suggestion batch, the suggestions applied to the configuration, the
  metrics and the relationships with their identifiers. SQL is read by a third-party parser, a record
  of operations here. The lemmas show what a provider cannot do, that no metric or foreign key is
  silently dropped, and that identifiers follow names and aliases.
\<close>

section \<open>Suggestion batches\<close>

record ai_suggestion =
  as_field_path :: string
  as_value :: json
  as_confidence :: py_float
  as_evidence :: "evidence list"

record metric_suggestion =
  ms_name :: string
  ms_expression :: string
  ms_dataset_names :: "string list"
  ms_description :: "string option"
  ms_synonyms :: "string list"
  ms_confidence :: py_float
  ms_evidence :: "evidence list"

record suggestion_batch =
  sb_suggestions :: "ai_suggestion list"
  sb_metrics :: "metric_suggestion list"
  sb_product_facts :: "product_fact_suggestion list"

definition PHYSICAL_SEGMENTS :: "string list" where
  "PHYSICAL_SEGMENTS = [''column_id'', ''column_name'', ''data_type'', ''foreign_key'', ''locator'', ''nullable'',
     ''primary_key'', ''table_id'', ''table_name'', ''type'']"

definition validate_semantic_suggestions :: "ai_suggestion list \<Rightarrow> ai_suggestion list result" where
  "validate_semantic_suggestions suggestions =
     bind_ok (traverse (\<lambda>s.
         if set (map str_lower (split_on CHR ''.'' (as_field_path s))) \<inter> set PHYSICAL_SEGMENTS \<noteq> {}
         then Inl (ValueError (''LLM_PHYSICAL_FIELD_FORBIDDEN: '' @ as_field_path s)) else Inr ()) suggestions)
       (\<lambda>_. Inr suggestions)"

definition allowed_paths :: "table_draft list \<Rightarrow> string list" where
  "allowed_paths drafts =
     [''product.description'', ''product.synonyms'']
     @ concat (map (\<lambda>d. (''tables.'' @ td_table_id d @ ''.description'')
          # map (\<lambda>c. ''tables.'' @ td_table_id d @ ''.columns.'' @ ci_column_id c @ ''.description'') (td_columns d))
        drafts)"

text \<open>What \<open>_extract_suggestions\<close> does with the batch that the provider returned.\<close>

definition check_batch ::
  "parsed_document \<Rightarrow> parsed_document \<Rightarrow> table_draft list \<Rightarrow> suggestion_batch \<Rightarrow> suggestion_batch result" where
  "check_batch product_document semantic_document drafts batch =
     bind_ok (validate_semantic_suggestions (sb_suggestions batch)) (\<lambda>suggestions.
       case sorted_set (filter (\<lambda>p. p \<notin> set (allowed_paths drafts)) (map as_field_path suggestions)) of
         unknown # _ \<Rightarrow> Inl (ValueError (''LLM_FIELD_PATH_NOT_ALLOWED: '' @ unknown))
       | [] \<Rightarrow>
           let source_hashes = {doc_source_hash product_document, doc_source_hash semantic_document}
           in bind_ok (traverse (\<lambda>s. if \<exists>e\<in>set (as_evidence s). ev_source_hash e \<notin> source_hashes
                 then Inl (ValueError (''LLM_EVIDENCE_SOURCE_UNKNOWN: '' @ as_field_path s)) else Inr ()) suggestions) (\<lambda>_.
              bind_ok (traverse (\<lambda>m. if \<exists>e\<in>set (ms_evidence m). ev_source_hash e \<notin> source_hashes
                 then Inl (ValueError (''LLM_EVIDENCE_SOURCE_UNKNOWN: metric.'' @ ms_name m)) else Inr ()) (sb_metrics batch)) (\<lambda>_.
                Inr (batch\<lparr>sb_suggestions := suggestions\<rparr>))))"

text \<open>\<open>str(value)\<close> of a JSON value that is not a string is the argument \<open>repr\<close>.\<close>

definition str_of :: "(json \<Rightarrow> string) \<Rightarrow> json \<Rightarrow> string" where
  "str_of repr v = (case v of JStr s \<Rightarrow> s | _ \<Rightarrow> repr v)"

definition apply_suggestion :: "(json \<Rightarrow> string) \<Rightarrow> product_config \<Rightarrow> ai_suggestion \<Rightarrow> product_config" where
  "apply_suggestion repr config s =
     (if fl_value (as_confidence s) < CONFIDENCE_THRESHOLD then config
      else if as_field_path s = ''product.description'' \<and> \<not> truthy (pc_description config)
      then config\<lparr>pc_description := Some (str_of repr (as_value s))\<rparr>
      else if as_field_path s = ''product.synonyms''
      then (case as_value s of JArr items \<Rightarrow> config\<lparr>pc_synonyms := map (str_of repr) items\<rparr> | _ \<Rightarrow> config)
      else config)"

definition apply_suggestions ::
  "(json \<Rightarrow> string) \<Rightarrow> product_config \<Rightarrow> table_draft list \<Rightarrow> ai_suggestion list \<Rightarrow> product_config \<times> table_draft list" where
  "apply_suggestions repr config drafts suggestions =
     (foldl (apply_suggestion repr) config suggestions, drafts)"

section \<open>Metrics\<close>

text \<open>
  The SQL library: a statement list or a syntax error (None), the class tests of the code on a parsed
  expression, its column references, the rewriting of those references (name and table, each with a
  quoting flag), the typed rewriting of divisions, and the printed text.
\<close>

record sql_column =
  sq_name :: string
  sq_table :: string
  sq_db :: string
  sq_catalog :: string
  sq_name_quoted :: bool
  sq_table_quoted :: bool

record 'e sql_engine =
  sql_parse :: "string \<Rightarrow> 'e option list option"
  sql_scalar_root :: "'e \<Rightarrow> bool"
  sql_relational :: "'e \<Rightarrow> bool"
  sql_columns :: "'e \<Rightarrow> sql_column list"
  sql_set_columns :: "'e \<Rightarrow> ((string \<times> bool) \<times> (string \<times> bool)) list \<Rightarrow> 'e"
  sql_divisions :: "string \<Rightarrow> column_ir list \<Rightarrow> 'e \<Rightarrow> 'e"
  sql_text :: "'e \<Rightarrow> string"

type_synonym metric_catalog = "(string, string \<times> (string, string) dict) dict"

definition column_names :: "column_ir list \<Rightarrow> (string, string) dict" where
  "column_names columns = dict_of (\<lambda>c. casefold (ci_name c)) ci_name columns"

definition metric_dataset_catalog :: "table_draft list \<Rightarrow> metric_catalog result" where
  "metric_dataset_catalog drafts =
     fold_ok (\<lambda>datasets d.
         let dataset_name = table_name (td_locator d); dataset_key = casefold dataset_name
         in if dict_get datasets dataset_key \<noteq> None
            then Inl (PipelineValidationError ''METRIC_DATASET_NAME_AMBIGUOUS'')
            else Inr (dict_set dataset_key (dataset_name, column_names (td_columns d)) datasets)) [] drafts"

definition parse_metric_scalar :: "'e sql_engine \<Rightarrow> string \<Rightarrow> 'e result" where
  "parse_metric_scalar S expression =
     (case sql_parse S expression of
        None \<Rightarrow> Inl (ValueError ''LLM_METRIC_SQL_INVALID'')
      | Some [Some e] \<Rightarrow>
          (if \<not> sql_scalar_root S e \<or> sql_relational S e then Inl (ValueError ''LLM_METRIC_SQL_UNSAFE'') else Inr e)
      | Some _ \<Rightarrow> Inl (ValueError ''LLM_METRIC_SQL_UNSAFE''))"

text \<open>The identifier is quoted when it was, or when it is not a plain identifier.\<close>

definition plain_identifier :: "string \<Rightarrow> bool" where
  "plain_identifier s \<longleftrightarrow> s \<noteq> [] \<and> \<not> is_digit (hd s)
     \<and> list_all (\<lambda>c. is_upper c \<or> is_lower c \<or> is_digit c \<or> c = CHR ''_'') s"

definition canonical_metric_identifier :: "string \<Rightarrow> bool \<Rightarrow> string \<times> bool" where
  "canonical_metric_identifier value source_quoted = (value, source_quoted \<or> \<not> plain_identifier value)"

record prepared_metrics =
  pm_suggestions :: "metric_suggestion list"
  pm_audit_suggestions :: "metric_suggestion list"
  pm_findings :: "quality_finding list"
  pm_excluded_names :: "string list"

definition reference_unknown :: exn where
  "reference_unknown = ValueError ''LLM_METRIC_REFERENCE_UNKNOWN''"

definition check_multi_column :: "metric_catalog \<Rightarrow> string list \<Rightarrow> sql_column \<Rightarrow> unit result" where
  "check_multi_column datasets dataset_keys column =
     (let qualifier = casefold (strip (sq_table column)); column_key = casefold (sq_name column);
          known = (\<lambda>name. case dict_get datasets name of Some (_, columns) \<Rightarrow> dict_get columns column_key \<noteq> None | None \<Rightarrow> False)
      in if qualifier \<noteq> []
         then (if qualifier \<notin> set dataset_keys then Inl reference_unknown
               else if \<not> known qualifier then Inl reference_unknown else Inr ())
         else if \<not> list_ex known dataset_keys then Inl reference_unknown else Inr ())"

definition qualify_column ::
  "string \<Rightarrow> string \<Rightarrow> (string, string) dict \<Rightarrow> sql_column \<Rightarrow> ((string \<times> bool) \<times> (string \<times> bool)) result" where
  "qualify_column dataset_key canonical_dataset columns column =
     (if sq_table column \<noteq> [] \<and> casefold (sq_table column) \<noteq> dataset_key then Inl reference_unknown
      else case dict_get columns (casefold (sq_name column)) of
          None \<Rightarrow> Inl reference_unknown
        | Some canonical_column \<Rightarrow>
            Inr (canonical_metric_identifier canonical_column (sq_name_quoted column),
                 canonical_metric_identifier canonical_dataset (sq_table_quoted column)))"

text \<open>The checks on the text of a suggestion that come before its SQL is read.\<close>

definition metric_dataset_keys :: "metric_catalog \<Rightarrow> metric_suggestion \<Rightarrow> string list result" where
  "metric_dataset_keys datasets s =
     (let dataset_keys = map (\<lambda>n. casefold (strip n)) (ms_dataset_names s)
      in if strip (ms_name s) = [] \<or> strip (ms_expression s) = []
         then Inl (ValueError ''LLM_METRIC_NAME_OR_EXPRESSION_EMPTY'')
         else if [] \<in> set dataset_keys then Inl (ValueError ''LLM_METRIC_DATASET_EMPTY'')
         else if \<not> distinct dataset_keys then Inl (ValueError ''LLM_METRIC_DATASET_DUPLICATE'')
         else if \<exists>n\<in>set dataset_keys. dict_get datasets n = None then Inl (ValueError ''LLM_METRIC_DATASET_UNKNOWN'')
         else Inr dataset_keys)"

definition draft_columns :: "table_draft list \<Rightarrow> string \<Rightarrow> column_ir list" where
  "draft_columns drafts dataset_key =
     (case find (\<lambda>d. casefold (table_name (td_locator d)) = dataset_key) drafts of
        Some d \<Rightarrow> td_columns d | None \<Rightarrow> [])"

definition prepare_single ::
  "'e sql_engine \<Rightarrow> table_draft list \<Rightarrow> metric_catalog \<Rightarrow> string \<Rightarrow> metric_suggestion \<Rightarrow> 'e \<Rightarrow> metric_suggestion result" where
  "prepare_single S drafts datasets dataset_key s normalized =
     (case dict_get datasets dataset_key of
        None \<Rightarrow> Inl (KeyError dataset_key)
      | Some (canonical_dataset, columns) \<Rightarrow>
          bind_ok (traverse (qualify_column dataset_key canonical_dataset columns) (sql_columns S normalized)) (\<lambda>refs.
          let text = sql_text S (sql_divisions S canonical_dataset (draft_columns drafts dataset_key)
                       (sql_set_columns S normalized refs))
          in bind_ok (parse_metric_scalar S text) (\<lambda>_. Inr (s\<lparr>ms_expression := text\<rparr>))))"

definition unsafe_finding :: "nat \<Rightarrow> quality_finding" where
  "unsafe_finding index = finding ''LLM_METRIC_SQL_UNSAFE'' ''Unsafe optional LLM metric suggestion was excluded''
     (Some (''metrics.provider_suggestion['' @ nat_str index @ '']''))"

definition multi_dataset_finding :: "metric_suggestion \<Rightarrow> quality_finding" where
  "multi_dataset_finding s = finding ''METRIC_MULTI_DATASET_UNSUPPORTED''
     (''Metric uses multiple datasets and was excluded because join path, '' @ ''cardinality, and grain are not declared'')
     (Some (''metrics.'' @ strip (ms_name s)))"

definition prepare_metric ::
  "'e sql_engine \<Rightarrow> table_draft list \<Rightarrow> metric_catalog \<Rightarrow> prepared_metrics \<Rightarrow> nat \<times> metric_suggestion
    \<Rightarrow> prepared_metrics result" where
  "prepare_metric S drafts datasets st is' =
     (case is' of (index, s) \<Rightarrow>
      bind_ok (metric_dataset_keys datasets s) (\<lambda>dataset_keys.
      case parse_metric_scalar S (strip (ms_expression s)) of
        Inl e \<Rightarrow>
          (if e = ValueError ''LLM_METRIC_SQL_UNSAFE''
           then Inr (st\<lparr>pm_findings := pm_findings st @ [unsafe_finding index]\<rparr>) else Inl e)
      | Inr normalized \<Rightarrow>
          if \<exists>c\<in>set (sql_columns S normalized). sq_db c \<noteq> [] \<or> sq_catalog c \<noteq> [] then Inl reference_unknown
          else (case dataset_keys of
              [] \<Rightarrow> Inl (KeyError ''list index out of range'')
            | [dataset_key] \<Rightarrow>
                bind_ok (prepare_single S drafts datasets dataset_key s normalized) (\<lambda>p.
                  Inr (st\<lparr>pm_audit_suggestions := pm_audit_suggestions st @ [s],
                          pm_suggestions := pm_suggestions st @ [p]\<rparr>))
            | _ \<Rightarrow>
                bind_ok (traverse (check_multi_column datasets dataset_keys) (sql_columns S normalized)) (\<lambda>_.
                  Inr (st\<lparr>pm_audit_suggestions := pm_audit_suggestions st @ [s],
                          pm_findings := pm_findings st @ [multi_dataset_finding s],
                          pm_excluded_names := pm_excluded_names st @ [strip (ms_name s)]\<rparr>)))))"

definition metric_keys :: "metric_record \<Rightarrow> string list" where
  "metric_keys r = casefold (mr_name r) # map casefold (mr_aliases r)"

definition validate_metric_name_collisions ::
  "metric_suggestion list \<Rightarrow> product_record option \<Rightarrow> string list \<Rightarrow> unit result" where
  "validate_metric_name_collisions suggestions existing_product excluded_names =
     (let accepted_names = map (\<lambda>s. casefold (strip (ms_name s))) suggestions;
          excluded_keys = set (map casefold excluded_names)
      in if \<not> distinct accepted_names \<or> set accepted_names \<inter> excluded_keys \<noteq> {}
         then Inl (ValueError ''LLM_METRIC_NAME_DUPLICATE'')
         else if \<exists>r\<in>set (case existing_product of Some p \<Rightarrow> pr_metrics p | None \<Rightarrow> []).
                set (metric_keys r) \<inter> set accepted_names \<noteq> {} \<and> set (metric_keys r) \<inter> excluded_keys \<noteq> {}
         then Inl (ValueError ''LLM_METRIC_NAME_DUPLICATE'')
         else Inr ())"

definition prepare_metrics :: "'e sql_engine \<Rightarrow> metric_suggestion list \<Rightarrow> table_draft list \<Rightarrow> prepared_metrics result" where
  "prepare_metrics S suggestions drafts =
     bind_ok (metric_dataset_catalog drafts) (\<lambda>datasets.
     bind_ok (fold_ok (prepare_metric S drafts datasets)
                \<lparr>pm_suggestions = [], pm_audit_suggestions = [], pm_findings = [], pm_excluded_names = []\<rparr>
                (enumerate 0 suggestions)) (\<lambda>p.
     bind_ok (validate_metric_name_collisions (pm_suggestions p) None (pm_excluded_names p)) (\<lambda>_. Inr p)))"

section \<open>Metric identifiers\<close>

definition MetricIR :: "metric_ir \<Rightarrow> metric_ir result" where
  "MetricIR m = (if MetricId (mi_metric_id m) \<and> mi_evidence m \<noteq> [] then Inr m else Inl field_error)"

text \<open>The loop state: the records by identifier, the metrics, the names seen and the identifiers drawn.\<close>

type_synonym metric_state = "((string, metric_record) dict \<times> metric_ir list) \<times> string list \<times> nat"

definition build_metric ::
  "entropy \<Rightarrow> metric_record list \<Rightarrow> metric_state \<Rightarrow> metric_suggestion \<Rightarrow> metric_state result" where
  "build_metric ent existing st s =
     (case st of ((records, metrics), seen, n) \<Rightarrow>
      if fl_value (ms_confidence s) < CONFIDENCE_THRESHOLD then Inr st
      else
        let name_key = casefold (strip (ms_name s))
        in if name_key \<in> set seen then Inl (ValueError (''LLM_METRIC_NAME_DUPLICATE: '' @ ms_name s))
           else
             let matched = find (\<lambda>r. name_key \<in> set (metric_keys r)) existing
             in bind_ok (case matched of
                    Some r \<Rightarrow> (if mr_status r = RETIRED then Inl (ValueError (''RETIRED_METRIC_REUSE: '' @ mr_metric_id r))
                               else Inr (mr_metric_id r, n))
                  | None \<Rightarrow> fresh ent ''met'' n) (\<lambda>(metric_id, n').
                bind_ok (MetricRecord metric_id (strip (ms_name s))
                           (case matched of Some r \<Rightarrow> mr_aliases r | None \<Rightarrow> []) ACTIVE) (\<lambda>record.
                bind_ok (MetricIR
                    \<lparr>mi_metric_id = metric_id, mi_name = strip (ms_name s), mi_expression = strip (ms_expression s),
                     mi_dialect = ''ANSI_SQL'', mi_description = ms_description s, mi_synonyms = ms_synonyms s,
                     mi_instructions = None, mi_examples = [], mi_evidence = ms_evidence s\<rparr>) (\<lambda>ir.
                  Inr ((dict_set metric_id record records, metrics @ [ir]), seen @ [name_key], n')))))"

definition kept_metrics :: "product_record option \<Rightarrow> string list \<Rightarrow> metric_record list" where
  "kept_metrics existing_product excluded_names =
     filter (\<lambda>r. set (map casefold excluded_names) \<inter> set (metric_keys r) = {})
       (case existing_product of Some p \<Rightarrow> pr_metrics p | None \<Rightarrow> [])"

definition build_metrics ::
  "entropy \<Rightarrow> metric_suggestion list \<Rightarrow> product_record option \<Rightarrow> string list \<Rightarrow> nat
    \<Rightarrow> ((metric_ir list \<times> metric_record list) \<times> nat) result" where
  "build_metrics ent suggestions existing_product excluded_names n =
     bind_ok (validate_metric_name_collisions suggestions existing_product excluded_names) (\<lambda>_.
     let existing = kept_metrics existing_product excluded_names
     in bind_ok (fold_ok (build_metric ent existing) ((dict_of mr_metric_id id existing, []), [], n) suggestions)
          (\<lambda>((records, metrics), _, n').
            Inr ((sort_key mi_metric_id metrics, sort_key mr_metric_id (dict_values records)), n')))"

section \<open>Relationships\<close>

definition target_names_of :: "table_draft \<Rightarrow> string list" where
  "target_names_of d =
     dedup [table_name (td_locator d),
            join ''.'' [catalog (td_locator d), schema_name (td_locator d), table_name (td_locator d)],
            locator_key (td_locator d)]"

definition target_names :: "table_draft list \<Rightarrow> (string, table_draft list) dict" where
  "target_names drafts =
     fold (\<lambda>d names. fold (\<lambda>name names'.
            dict_set (casefold name)
              ((case dict_get names' (casefold name) of Some ds \<Rightarrow> ds | None \<Rightarrow> []) @ [d]) names')
          (target_names_of d) names) drafts []"

definition foreign_key_path :: "table_draft \<Rightarrow> column_ir \<Rightarrow> string option" where
  "foreign_key_path source c =
     Some (''tables.'' @ td_table_id source @ ''.columns.'' @ ci_column_id c @ ''.foreign_key'')"

text \<open>The target of a foreign key, or the finding about it.\<close>

definition foreign_key_target ::
  "(string, table_draft list) dict \<Rightarrow> table_draft \<Rightarrow> column_ir \<Rightarrow> quality_finding + (table_draft \<times> column_ir)" where
  "foreign_key_target names source c =
     (let foreign_key = the (ci_foreign_key c)
      in case rsplit1 CHR ''.'' foreign_key of
          None \<Rightarrow> Inl (finding ''FOREIGN_KEY_FORMAT_INVALID''
            (''Foreign key must be table.column: '' @ foreign_key) (foreign_key_path source c))
        | Some (target_name, target_column_name) \<Rightarrow>
            let targets = (case dict_get names (casefold target_name) of Some ds \<Rightarrow> ds | None \<Rightarrow> []);
                missing = finding ''FOREIGN_KEY_TARGET_NOT_FOUND''
                  (''Foreign key target is not in this product: '' @ foreign_key) (foreign_key_path source c)
            in if length targets > 1
               then Inl (finding ''FOREIGN_KEY_TARGET_AMBIGUOUS''
                 (''Foreign key target must use a qualified table name: '' @ foreign_key) (foreign_key_path source c))
               else case targets of
                   [] \<Rightarrow> Inl missing
                 | target # _ \<Rightarrow>
                     (case find (\<lambda>i. casefold (ci_name i) = casefold target_column_name) (td_columns target) of
                        None \<Rightarrow> Inl missing | Some target_column \<Rightarrow> Inr (target, target_column)))"

definition relationship_name :: "table_draft \<Rightarrow> column_ir \<Rightarrow> table_draft \<Rightarrow> column_ir \<Rightarrow> string" where
  "relationship_name source c target target_column =
     table_name (td_locator source) @ ''_'' @ ci_name c @ ''_to_'' @ table_name (td_locator target) @ ''_''
     @ ci_name target_column"

definition relationship_keys :: "relationship_record \<Rightarrow> string list" where
  "relationship_keys r = casefold (rr_name r) # map casefold (rr_aliases r)"

definition RelationshipIR :: "relationship_ir \<Rightarrow> relationship_ir result" where
  "RelationshipIR r =
     (if RelationshipId (ri_relationship_id r) \<and> TableId (ri_from_table_id r) \<and> TableId (ri_to_table_id r)
         \<and> ri_from_columns r \<noteq> [] \<and> ri_to_columns r \<noteq> [] \<and> ri_evidence r \<noteq> []
      then Inr r else Inl field_error)"

type_synonym relationship_state =
  "((string, relationship_record) dict \<times> relationship_ir list) \<times> quality_finding list \<times> nat"

definition build_relationship ::
  "entropy \<Rightarrow> relationship_record list \<Rightarrow> (string, table_draft list) dict \<Rightarrow> relationship_state
    \<Rightarrow> table_draft \<times> column_ir \<Rightarrow> relationship_state result" where
  "build_relationship ent existing names st sc =
     (case (st, sc) of (((records, relationships), findings, n), (source, c)) \<Rightarrow>
      if \<not> truthy (ci_foreign_key c) then Inr st
      else case foreign_key_target names source c of
          Inl f \<Rightarrow> Inr ((records, relationships), findings @ [f], n)
        | Inr (target, target_column) \<Rightarrow>
            let name = relationship_name source c target target_column;
                matched = find (\<lambda>r. casefold name \<in> set (relationship_keys r)) existing
            in if matched \<noteq> None \<and> rr_status (the matched) = RETIRED
               then Inr ((records, relationships),
                 findings @ [finding ''RETIRED_RELATIONSHIP_REUSE''
                   (''Retired relationship ID cannot be reused: '' @ rr_relationship_id (the matched)) None], n)
               else
                 bind_ok (case matched of Some r \<Rightarrow> Inr (rr_relationship_id r, n) | None \<Rightarrow> fresh ent ''rel'' n)
                   (\<lambda>(relationship_id, n').
                 bind_ok (RelationshipRecord relationship_id name
                            (case matched of Some r \<Rightarrow> rr_aliases r | None \<Rightarrow> []) ACTIVE) (\<lambda>record.
                 bind_ok (RelationshipIR
                     \<lparr>ri_relationship_id = relationship_id, ri_name = name, ri_from_table_id = td_table_id source,
                      ri_to_table_id = td_table_id target, ri_from_columns = [ci_name c],
                      ri_to_columns = [ci_name target_column], ri_description = None, ri_evidence = ci_evidence c\<rparr>)
                   (\<lambda>ir. Inr ((dict_set relationship_id record records, relationships @ [ir]), findings, n')))))"

definition retire_relationship :: "relationship_record \<Rightarrow> relationship_record" where
  "retire_relationship r = r\<lparr>rr_status := RETIRED\<rparr>"

definition build_relationships ::
  "entropy \<Rightarrow> table_draft list \<Rightarrow> product_record option \<Rightarrow> nat
    \<Rightarrow> ((relationship_ir list \<times> relationship_record list \<times> quality_finding list) \<times> nat) result" where
  "build_relationships ent drafts existing_product n =
     (let existing = (case existing_product of Some p \<Rightarrow> pr_relationships p | None \<Rightarrow> [])
      in bind_ok (fold_ok (build_relationship ent existing (target_names drafts)) (([], []), [], n)
                    (concat (map (\<lambda>d. map (Pair d) (td_columns d)) drafts)))
           (\<lambda>((records, relationships), findings, n').
             let all_records = fold (\<lambda>r d. if rr_relationship_id r \<notin> set (dict_keys records)
                   then dict_set (rr_relationship_id r) (retire_relationship r) d else d) existing records
             in Inr ((sort_key ri_relationship_id relationships,
                      sort_key rr_relationship_id (dict_values all_records), findings), n')))"

section \<open>How a provider failure is reported\<close>

text \<open>\<open>re.fullmatch(r"LLM_[A-Z0-9_]{1,123}", code)\<close>.\<close>

definition llm_code :: "string \<Rightarrow> bool" where
  "llm_code code \<longleftrightarrow> starts_with ''LLM_'' code \<and> 5 \<le> length code \<and> length code \<le> 127
     \<and> list_all (\<lambda>c. is_upper c \<or> is_digit c \<or> c = CHR ''_'') code"

text \<open>The \<open>except\<close> clauses of \<open>process_product\<close> around the use of the provider.\<close>

definition provider_error :: "exn \<Rightarrow> exn" where
  "provider_error e =
     (case e of
        ProviderExecutionError code kind \<Rightarrow> ProviderExecutionError code kind
      | ValidationError _ \<Rightarrow> ProviderExecutionError ''LLM_OUTPUT_VALIDATION_FAILED'' OUTPUT_FAILURE
      | _ \<Rightarrow>
          (if is_value_error e then
             let code = takeWhile (\<lambda>c. c \<noteq> CHR '':'') (exn_message e)
             in ProviderExecutionError (if llm_code code then code else ''LLM_OUTPUT_VALIDATION_FAILED'') OUTPUT_FAILURE
           else ProviderExecutionError ''LLM_PROVIDER_FAILURE'' TRANSIENT_FAILURE))"

text \<open>The provider-dependent part of \<open>process_product\<close>: the answer is checked and the facts and metrics
  prepared; whatever goes wrong is reported as a provider failure.\<close>

definition use_provider ::
  "'e sql_engine \<Rightarrow> parsed_document \<Rightarrow> parsed_document \<Rightarrow> string option \<Rightarrow> table_draft list \<Rightarrow> product_record option
    \<Rightarrow> suggestion_batch result \<Rightarrow> (suggestion_batch \<times> product_fact_ir list \<times> prepared_metrics) result" where
  "use_provider S product_document semantic_document configured_description drafts existing_product response =
     (case bind_ok response (\<lambda>raw.
           bind_ok (check_batch product_document semantic_document drafts raw) (\<lambda>batch.
           bind_ok (validate_product_facts (sb_product_facts batch) product_document configured_description) (\<lambda>facts.
           bind_ok (prepare_metrics S (sb_metrics batch) drafts) (\<lambda>prepared.
           bind_ok (validate_metric_name_collisions (pm_suggestions prepared) existing_product (pm_excluded_names prepared)) (\<lambda>_.
             Inr (batch\<lparr>sb_metrics := pm_audit_suggestions prepared\<rparr>, facts, prepared)))))) of
        Inl e \<Rightarrow> Inl (provider_error e) | Inr r \<Rightarrow> Inr r)"

section \<open>What a provider can and cannot do\<close>

lemma foldl_apply_frame:
  "(foldl (apply_suggestion repr) config ss)\<lparr>pc_description := d, pc_synonyms := y\<rparr>
     = config\<lparr>pc_description := d, pc_synonyms := y\<rparr>"
proof (induction ss arbitrary: config)
  case (Cons s ss)
  have "(apply_suggestion repr config s)\<lparr>pc_description := d, pc_synonyms := y\<rparr>
      = config\<lparr>pc_description := d, pc_synonyms := y\<rparr>"
    by (simp add: apply_suggestion_def split: json.split)
  with Cons show ?case by simp
qed simp

lemma foldl_apply_description:
  "truthy (pc_description config) \<Longrightarrow>
     pc_description (foldl (apply_suggestion repr) config ss) = pc_description config"
proof (induction ss arbitrary: config)
  case (Cons s ss)
  then have "pc_description (apply_suggestion repr config s) = pc_description config"
    by (simp add: apply_suggestion_def split: json.split)
  with Cons show ?case by simp
qed simp

lemma foldl_apply_weak:
  "\<forall>s\<in>set ss. fl_value (as_confidence s) < CONFIDENCE_THRESHOLD \<Longrightarrow> foldl (apply_suggestion repr) config ss = config"
  by (induction ss) (simp_all add: apply_suggestion_def)

text \<open>Whatever a provider suggests, the tables and columns are untouched, nothing of the configuration
  but the description and the synonyms can change, a configured description stands, and suggestions
  without enough confidence change nothing.\<close>

theorem suggestions_only_describe:
  assumes "apply_suggestions repr config drafts ss = (config', drafts')"
  shows "drafts' = drafts
    \<and> config'\<lparr>pc_description := pc_description config, pc_synonyms := pc_synonyms config\<rparr> = config
    \<and> (truthy (pc_description config) \<longrightarrow> pc_description config' = pc_description config)
    \<and> ((\<forall>s\<in>set ss. fl_value (as_confidence s) < CONFIDENCE_THRESHOLD) \<longrightarrow> config' = config)"
  using assms foldl_apply_frame [where repr = repr and config = config and ss = ss
        and d = "pc_description config" and y = "pc_synonyms config"]
    foldl_apply_description [where repr = repr and config = config and ss = ss]
    foldl_apply_weak [where repr = repr and config = config and ss = ss]
  by (auto simp: apply_suggestions_def)

lemma traverse_reject_iff:
  "(\<exists>us. traverse (\<lambda>x. if P x then Inl (e x) else Inr ()) xs = Inr us) \<longleftrightarrow> (\<forall>x\<in>set xs. \<not> P x)"
  by (simp add: traverse_ok_iff)

text \<open>A batch is accepted exactly when every suggestion is for a text field of this product, names no
  physical attribute, and cites only evidence of the two submitted documents, as every metric does.\<close>

theorem check_batch_accepts_iff:
  "check_batch product semantic drafts b = Inr b' \<longleftrightarrow> b' = b
     \<and> (\<forall>s\<in>set (sb_suggestions b). as_field_path s \<in> set (allowed_paths drafts)
          \<and> set (map str_lower (split_on CHR ''.'' (as_field_path s))) \<inter> set PHYSICAL_SEGMENTS = {}
          \<and> ev_source_hash ` set (as_evidence s) \<subseteq> {doc_source_hash product, doc_source_hash semantic})
     \<and> (\<forall>m\<in>set (sb_metrics b). ev_source_hash ` set (ms_evidence m) \<subseteq> {doc_source_hash product, doc_source_hash semantic})"
proof -
  have v: "validate_semantic_suggestions ss = Inr ss' \<longleftrightarrow> ss' = ss
      \<and> (\<forall>s\<in>set ss. set (map str_lower (split_on CHR ''.'' (as_field_path s))) \<inter> set PHYSICAL_SEGMENTS = {})" for ss ss'
    unfolding validate_semantic_suggestions_def bind_ok_Inr_iff
    using traverse_reject_iff [of "\<lambda>s. set (map str_lower (split_on CHR ''.'' (as_field_path s))) \<inter> set PHYSICAL_SEGMENTS \<noteq> {}"
        "\<lambda>s. ValueError (''LLM_PHYSICAL_FIELD_FORBIDDEN: '' @ as_field_path s)" ss] by auto
  let ?ss = "sb_suggestions b"
  let ?bad = "sorted_set (filter (\<lambda>p. p \<notin> set (allowed_paths drafts)) (map as_field_path ?ss))"
  have u: "?bad = [] \<longleftrightarrow> (\<forall>s\<in>set ?ss. as_field_path s \<in> set (allowed_paths drafts))"
    by (auto simp: filter_empty_conv)
  show ?thesis
  proof (cases ?bad)
    case Nil
    show ?thesis
      unfolding check_batch_def bind_ok_Inr_iff v u [symmetric]
      using Nil u by (auto simp: Let_def traverse_reject_iff sorted_set_def image_subset_iff)
  next
    case (Cons x xs)
    then have "\<not> (\<forall>s\<in>set ?ss. as_field_path s \<in> set (allowed_paths drafts))" using u by simp
    moreover have "check_batch product semantic drafts b \<noteq> Inr b'"
      unfolding check_batch_def bind_ok_Inr_iff v using Cons by auto
    ultimately show ?thesis by blast
  qed
qed

section \<open>Every metric suggestion is accounted for\<close>

lemma catalog_entry:
  assumes "metric_dataset_catalog drafts = Inr D" and "dict_get D k = Some (nm, cols)"
  shows "\<exists>d\<in>set drafts. table_name (td_locator d) = nm \<and> casefold nm = k \<and> cols = column_names (td_columns d)"
proof -
  let ?P = "\<lambda>D. \<forall>k nm cols. dict_get D k = Some (nm, cols) \<longrightarrow>
      (\<exists>d\<in>set drafts. table_name (td_locator d) = nm \<and> casefold nm = k \<and> cols = column_names (td_columns d))"
  have "?P D"
  proof (rule fold_ok_invariant [OF assms(1) [unfolded metric_dataset_catalog_def], where P = ?P])
    fix d D D'
    assume "d \<in> set drafts" "?P D"
      and "(let dataset_name = table_name (td_locator d); dataset_key = casefold dataset_name
         in if dict_get D dataset_key \<noteq> None then Inl (PipelineValidationError ''METRIC_DATASET_NAME_AMBIGUOUS'')
            else Inr (dict_set dataset_key (dataset_name, column_names (td_columns d)) D)) = Inr D'"
    then show "?P D'" by (auto simp: Let_def split: if_splits)
  qed simp
  with assms(2) show ?thesis by blast
qed

lemma column_names_get: "dict_get (column_names cs) k = Some n \<Longrightarrow> \<exists>c\<in>set cs. ci_name c = n \<and> casefold (ci_name c) = k"
  by (auto simp: column_names_def dict_get_of dest!: find_SomeD)

text \<open>A metric that was prepared: the suggestion it comes from, its one dataset, and its references.\<close>

definition metric_grounded :: "'e sql_engine \<Rightarrow> table_draft list \<Rightarrow> metric_suggestion \<Rightarrow> metric_suggestion \<Rightarrow> bool" where
  "metric_grounded S drafts s q \<longleftrightarrow>
     q = s\<lparr>ms_expression := ms_expression q\<rparr> \<and> is_ok (parse_metric_scalar S (ms_expression q))
     \<and> (\<exists>d\<in>set drafts. \<exists>e. map (\<lambda>n. casefold (strip n)) (ms_dataset_names s) = [casefold (table_name (td_locator d))]
          \<and> parse_metric_scalar S (strip (ms_expression s)) = Inr e
          \<and> (\<forall>c\<in>set (sql_columns S e). sq_db c = [] \<and> sq_catalog c = []
               \<and> (sq_table c = [] \<or> casefold (sq_table c) = casefold (table_name (td_locator d)))
               \<and> (\<exists>k\<in>set (td_columns d). casefold (ci_name k) = casefold (sq_name c))))"

lemma prepare_metric_step:
  assumes "metric_dataset_catalog drafts = Inr D" and "prepare_metric S drafts D st (i, s) = Inr st'"
  shows "(pm_suggestions st' = pm_suggestions st
        \<and> (pm_findings st' = pm_findings st @ [unsafe_finding i] \<and> pm_audit_suggestions st' = pm_audit_suggestions st
           \<or> pm_findings st' = pm_findings st @ [multi_dataset_finding s] \<and> pm_audit_suggestions st' = pm_audit_suggestions st @ [s]))
    \<or> (\<exists>q. pm_suggestions st' = pm_suggestions st @ [q] \<and> pm_findings st' = pm_findings st
        \<and> pm_audit_suggestions st' = pm_audit_suggestions st @ [s] \<and> metric_grounded S drafts s q)"
proof -
  from assms(2) obtain keys where keys: "metric_dataset_keys D s = Inr keys" by (auto simp: prepare_metric_def)
  show ?thesis
  proof (cases "parse_metric_scalar S (strip (ms_expression s))")
    case (Inl e)
    with assms(2) keys show ?thesis by (auto simp: prepare_metric_def split: if_splits)
  next
    case (Inr e)
    have db: "\<forall>c\<in>set (sql_columns S e). sq_db c = [] \<and> sq_catalog c = []"
      using assms(2) keys Inr by (auto simp: prepare_metric_def split: if_splits)
    show ?thesis
    proof (cases "\<exists>k. keys = [k]")
      case True
      then obtain k where k: "keys = [k]" by blast
      from assms(2) keys Inr db k obtain q where q: "prepare_single S drafts D k s e = Inr q"
        and st': "st' = st\<lparr>pm_audit_suggestions := pm_audit_suggestions st @ [s], pm_suggestions := pm_suggestions st @ [q]\<rparr>"
        by (auto simp: prepare_metric_def split: if_splits)
      from q obtain nm cols refs where nm: "dict_get D k = Some (nm, cols)"
        and refs: "traverse (qualify_column k nm cols) (sql_columns S e) = Inr refs"
        and q': "q = s\<lparr>ms_expression := ms_expression q\<rparr>" "is_ok (parse_metric_scalar S (ms_expression q))"
        by (auto simp: prepare_single_def Let_def is_ok_iff split: option.splits)
      from catalog_entry [OF assms(1) nm] obtain d where d: "d \<in> set drafts" "table_name (td_locator d) = nm"
        "casefold nm = k" "cols = column_names (td_columns d)" by blast
      have "sq_table c = [] \<or> casefold (sq_table c) = k" "\<exists>k\<in>set (td_columns d). casefold (ci_name k) = casefold (sq_name c)"
        if "c \<in> set (sql_columns S e)" for c
      proof -
        from refs that have "\<exists>x. qualify_column k nm cols c = Inr x"
          using traverse_ok_iff [of "qualify_column k nm cols" "sql_columns S e"] by blast
        then show "sq_table c = [] \<or> casefold (sq_table c) = k" "\<exists>k\<in>set (td_columns d). casefold (ci_name k) = casefold (sq_name c)"
          using d(4) by (auto simp: qualify_column_def split: if_splits option.splits dest!: column_names_get)
      qed
      moreover have "map (\<lambda>n. casefold (strip n)) (ms_dataset_names s) = [k]"
        using keys k by (auto simp: metric_dataset_keys_def Let_def split: if_splits)
      ultimately have "metric_grounded S drafts s q"
        unfolding metric_grounded_def d(3) [symmetric] d(2) [symmetric]
        by (intro conjI q' bexI [OF _ d(1)] exI [of _ e] ballI) (use Inr db in simp_all)
      with st' show ?thesis by auto
    next
      case False
      with assms(2) keys Inr db show ?thesis by (auto simp: prepare_metric_def split: if_splits list.splits)
    qed
  qed
qed

text \<open>No metric suggestion is dropped silently: each is prepared or has a finding. A prepared metric is
  a suggestion on one known table whose expression was read as a safe scalar, refers to columns of
  that table only, and was read again as safe after it was rewritten.\<close>

theorem prepared_metrics_accounted:
  assumes "prepare_metrics S sugs drafts = Inr p"
  shows "length (pm_suggestions p) + length (pm_findings p) = length sugs
    \<and> set (pm_audit_suggestions p) \<subseteq> set sugs
    \<and> (\<forall>q\<in>set (pm_suggestions p). \<exists>s\<in>set sugs. metric_grounded S drafts s q)
    \<and> distinct (map (\<lambda>q. casefold (strip (ms_name q))) (pm_suggestions p))"
proof -
  from assms obtain D where D: "metric_dataset_catalog drafts = Inr D"
    and f: "fold_ok (prepare_metric S drafts D)
        \<lparr>pm_suggestions = [], pm_audit_suggestions = [], pm_findings = [], pm_excluded_names = []\<rparr> (enumerate 0 sugs) = Inr p"
    and n: "validate_metric_name_collisions (pm_suggestions p) None (pm_excluded_names p) = Inr ()"
    by (auto simp: prepare_metrics_def)
  let ?P = "\<lambda>(xs :: (nat \<times> metric_suggestion) list) st. length (pm_suggestions st) + length (pm_findings st) = length xs
      \<and> set (pm_audit_suggestions st) \<subseteq> snd ` set xs
      \<and> (\<forall>q\<in>set (pm_suggestions st). \<exists>s\<in>snd ` set xs. metric_grounded S drafts s q)"
  have "?P (enumerate 0 sugs) p"
  proof (rule fold_ok_invariant_prefix [OF f, where P = ?P])
    fix xs x st st'
    assume "?P xs st" and "prepare_metric S drafts D st x = Inr st'"
    then show "?P (xs @ [x]) st'"
      using prepare_metric_step [OF D, of S st "fst x" "snd x" st'] by (cases x) auto
  qed simp
  moreover have e: "snd ` set (enumerate 0 sugs) = set sugs"
    by (metis list.set_map map_snd_enumerate)
  moreover have "distinct (map (\<lambda>q. casefold (strip (ms_name q))) (pm_suggestions p))"
    using n by (auto simp: validate_metric_name_collisions_def Let_def split: if_splits)
  ultimately show ?thesis unfolding e length_enumerate by blast
qed

section \<open>Identifiers of metrics\<close>

lemma distinct_values:
  assumes "dict_ok d" and "\<And>k v. dict_get d k = Some v \<Longrightarrow> ident v = k"
  shows "distinct (map ident (sort_key g (dict_values d)))"
proof -
  have "map ident (dict_values d) = dict_keys d"
    unfolding map_map by (rule map_cong) (use assms in \<open>auto simp: dict_get_in\<close>)
  then have "distinct (map ident (dict_values d))" using assms(1) unfolding dict_ok_def by (rule ssubst)
  moreover have "mset (map ident (sort_key g (dict_values d))) = mset (map ident (dict_values d))"
    by (simp add: multiset.map_comp)
  ultimately show ?thesis using mset_eq_imp_distinct_iff by blast
qed

lemma build_metric_step:
  assumes "build_metric ent existing ((recs, ms), seen, n) s = Inr st'"
  shows "st' = ((recs, ms), seen, n) \<or> (\<exists>m r n'. st' = ((dict_set (mi_metric_id m) r recs, ms @ [m]),
      seen @ [casefold (strip (ms_name s))], n') \<and> mr_metric_id r = mi_metric_id m \<and> mi_name m = strip (ms_name s)
      \<and> (\<forall>e. find (\<lambda>r. casefold (mi_name m) \<in> set (metric_keys r)) existing = Some e
            \<longrightarrow> mi_metric_id m = mr_metric_id e \<and> mr_status e = ACTIVE))"
proof (cases "fl_value (ms_confidence s) < CONFIDENCE_THRESHOLD")
  case True
  with assms show ?thesis by (simp add: build_metric_def)
next
  case False
  let ?k = "casefold (strip (ms_name s))"
  let ?f = "find (\<lambda>r. ?k \<in> set (metric_keys r)) existing"
  let ?r = "\<lambda>i. \<lparr>mr_metric_id = i, mr_name = strip (ms_name s),
      mr_aliases = (case ?f of Some r \<Rightarrow> mr_aliases r | None \<Rightarrow> []), mr_status = ACTIVE\<rparr>"
  let ?m = "\<lambda>i. \<lparr>mi_metric_id = i, mi_name = strip (ms_name s), mi_expression = strip (ms_expression s),
      mi_dialect = ''ANSI_SQL'', mi_description = ms_description s, mi_synonyms = ms_synonyms s,
      mi_instructions = None, mi_examples = [], mi_evidence = ms_evidence s\<rparr>"
  from assms False obtain i n' where
    i: "(case ?f of Some r \<Rightarrow> (if mr_status r = RETIRED then Inl (ValueError (''RETIRED_METRIC_REUSE: '' @ mr_metric_id r))
          else Inr (mr_metric_id r, n)) | None \<Rightarrow> fresh ent ''met'' n) = Inr (i, n')"
    and st': "st' = ((dict_set i (?r i) recs, ms @ [?m i]), seen @ [?k], n')"
    by (auto simp: build_metric_def Let_def MetricRecord_def MetricIR_def split: if_splits)
  have "i = mr_metric_id e \<and> mr_status e = ACTIVE" if "?f = Some e" for e
    using i that by (cases "mr_status e") (auto split: if_splits)
  with st' show ?thesis by (intro disjI2 exI [of _ "?m i"] exI [of _ "?r i"] exI [of _ n']) simp
qed

text \<open>A metric whose name is the name or an alias of a registered metric keeps that metric's
  identifier, which is never a retired one; every registered metric that no excluded suggestion
  names stays on record; and the identifiers on record are unique.\<close>

theorem metric_identifiers_kept:
  assumes "build_metrics ent sugs product excluded n = Inr ((ms, rs), n')"
  shows "(\<forall>m\<in>set ms. (\<exists>r\<in>set rs. mr_metric_id r = mi_metric_id m)
      \<and> (\<forall>e. find (\<lambda>r. casefold (mi_name m) \<in> set (metric_keys r)) (kept_metrics product excluded) = Some e
            \<longrightarrow> mi_metric_id m = mr_metric_id e \<and> mr_status e = ACTIVE))
    \<and> (\<forall>e\<in>set (kept_metrics product excluded). \<exists>r\<in>set rs. mr_metric_id r = mr_metric_id e)
    \<and> distinct (map mr_metric_id rs)"
proof -
  let ?E = "kept_metrics product excluded"
  from assms obtain recs ms0 seen where
    f: "fold_ok (build_metric ent ?E) ((dict_of mr_metric_id id ?E, []), [], n) sugs = Inr ((recs, ms0), seen, n')"
    and ms: "ms = sort_key mi_metric_id ms0" and rs: "rs = sort_key mr_metric_id (dict_values recs)"
    by (auto simp: build_metrics_def Let_def)
  define P where "P = (\<lambda>st :: metric_state. dict_ok (fst (fst st)) \<and> (\<forall>i r. dict_get (fst (fst st)) i = Some r \<longrightarrow> mr_metric_id r = i)
      \<and> (\<forall>e\<in>set ?E. dict_get (fst (fst st)) (mr_metric_id e) \<noteq> None)
      \<and> (\<forall>m\<in>set (snd (fst st)). dict_get (fst (fst st)) (mi_metric_id m) \<noteq> None
          \<and> (\<forall>e. find (\<lambda>r. casefold (mi_name m) \<in> set (metric_keys r)) ?E = Some e
                \<longrightarrow> mi_metric_id m = mr_metric_id e \<and> mr_status e = ACTIVE)))"
  have "P ((recs, ms0), seen, n')"
  proof (rule fold_ok_invariant [OF f, where P = P])
    have "mr_metric_id r = i" if "dict_get (dict_of mr_metric_id id ?E) i = Some r" for i r
      using that by (auto simp: dict_get_of dest!: find_SomeD)
    moreover have "dict_get (dict_of mr_metric_id id ?E) (mr_metric_id e) \<noteq> None" if "e \<in> set ?E" for e
      unfolding dict_get_of_None using that by blast
    ultimately show "P ((dict_of mr_metric_id id ?E, []), [], n)" unfolding P_def by simp
    show "P st'" if "P st" "build_metric ent ?E st s = Inr st'" for st s st'
      using that build_metric_step [of ent ?E "fst (fst st)" "snd (fst st)" "fst (snd st)" "snd (snd st)" s st']
      unfolding P_def by (cases st) (auto split: if_splits)
  qed
  then have ok: "dict_ok recs" and key: "\<And>i r. dict_get recs i = Some r \<Longrightarrow> mr_metric_id r = i"
    and ex: "\<forall>e\<in>set ?E. dict_get recs (mr_metric_id e) \<noteq> None"
    and met: "\<forall>m\<in>set ms0. dict_get recs (mi_metric_id m) \<noteq> None
          \<and> (\<forall>e. find (\<lambda>r. casefold (mi_name m) \<in> set (metric_keys r)) ?E = Some e
                \<longrightarrow> mi_metric_id m = mr_metric_id e \<and> mr_status e = ACTIVE)"
    unfolding P_def by simp_all
  have on_record: "\<exists>r\<in>set rs. mr_metric_id r = i" if "dict_get recs i \<noteq> None" for i
    using that key by (force simp: rs dest: map_of_SomeD)
  have "distinct (map mr_metric_id rs)" unfolding rs by (rule distinct_values) (use ok key in auto)
  with ex met on_record show ?thesis by (simp add: ms)
qed

section \<open>Every foreign key is accounted for\<close>

lemma target_names_entry:
  assumes "dict_get (target_names drafts) k = Some ds"
  shows "set ds \<subseteq> set drafts"
proof -
  let ?P = "\<lambda>D. \<forall>k ds. dict_get D k = Some ds \<longrightarrow> set ds \<subseteq> set drafts"
  have inner: "?P (fold (\<lambda>name names'. dict_set (casefold name)
      ((case dict_get names' (casefold name) of Some ds \<Rightarrow> ds | None \<Rightarrow> []) @ [d]) names') ns D)"
    if "d \<in> set drafts" "?P D" for d ns and D :: "(string, table_draft list) dict"
    using that(2)
  proof (induction ns arbitrary: D)
    case (Cons n ns)
    have "?P (dict_set (casefold n) ((case dict_get D (casefold n) of Some ds \<Rightarrow> ds | None \<Rightarrow> []) @ [d]) D)"
      using Cons.prems that(1) by (cases "dict_get D (casefold n)") (simp_all, blast?)
    from Cons.IH [OF this] show ?case by simp
  qed simp
  have "?P (fold (\<lambda>d names. fold (\<lambda>name names'. dict_set (casefold name)
      ((case dict_get names' (casefold name) of Some ds \<Rightarrow> ds | None \<Rightarrow> []) @ [d]) names') (target_names_of d) names) ds D)"
    if "set ds \<subseteq> set drafts" "?P D" for ds and D :: "(string, table_draft list) dict"
    using that
  proof (induction ds arbitrary: D)
    case (Cons d ds)
    show ?case unfolding fold_simps comp_apply fold.simps by (rule Cons.IH) (use Cons.prems inner [of d D] in auto)
  qed simp
  from this [of drafts "[]"] assms show ?thesis unfolding target_names_def by auto
qed

lemma foreign_key_target_ok:
  assumes "foreign_key_target (target_names drafts) source c = Inr (t, k)"
  shows "t \<in> set drafts \<and> k \<in> set (td_columns t)"
proof -
  from assms have "\<exists>n cn. dict_get (target_names drafts) (casefold n) = Some [t]
      \<and> find (\<lambda>i. casefold (ci_name i) = casefold cn) (td_columns t) = Some k"
    by (auto simp: foreign_key_target_def Let_def split: option.splits list.splits if_splits)
  then show ?thesis using target_names_entry find_SomeD by fastforce
qed

text \<open>Where a relationship comes from, and that a registered one keeps its identifier.\<close>

definition relationship_traced :: "table_draft list \<Rightarrow> relationship_record list \<Rightarrow> relationship_ir \<Rightarrow> bool" where
  "relationship_traced drafts existing r \<longleftrightarrow>
     (\<exists>d\<in>set drafts. \<exists>c\<in>set (td_columns d). \<exists>t\<in>set drafts. \<exists>k\<in>set (td_columns t).
        truthy (ci_foreign_key c) \<and> ri_name r = relationship_name d c t k
        \<and> ri_from_table_id r = td_table_id d \<and> ri_to_table_id r = td_table_id t
        \<and> ri_from_columns r = [ci_name c] \<and> ri_to_columns r = [ci_name k])
     \<and> (\<forall>e. find (\<lambda>e. casefold (ri_name r) \<in> set (relationship_keys e)) existing = Some e
          \<longrightarrow> ri_relationship_id r = rr_relationship_id e \<and> rr_status e = ACTIVE)"

lemma build_relationship_step:
  assumes "build_relationship ent existing (target_names drafts) ((recs, rels), fs, n) (d, c) = Inr st'"
    and "d \<in> set drafts" and "c \<in> set (td_columns d)"
  shows "\<not> truthy (ci_foreign_key c) \<and> st' = ((recs, rels), fs, n)
    \<or> truthy (ci_foreign_key c) \<and> (\<exists>f. st' = ((recs, rels), fs @ [f], n))
    \<or> truthy (ci_foreign_key c) \<and> (\<exists>m r n'. st' = ((dict_set (ri_relationship_id m) r recs, rels @ [m]), fs, n')
        \<and> rr_relationship_id r = ri_relationship_id m \<and> rr_status r = ACTIVE \<and> relationship_traced drafts existing m)"
proof (cases "truthy (ci_foreign_key c)")
  case fk: True
  show ?thesis
  proof (cases "foreign_key_target (target_names drafts) d c")
    case (Inl f)
    with fk assms(1) show ?thesis by (auto simp: build_relationship_def)
  next
    case (Inr tk)
    obtain t k where tk: "tk = (t, k)" by (cases tk)
    note target = foreign_key_target_ok [OF Inr [unfolded tk]]
    let ?n = "relationship_name d c t k"
    let ?f = "find (\<lambda>r. casefold ?n \<in> set (relationship_keys r)) existing"
    show ?thesis
    proof (cases "?f \<noteq> None \<and> rr_status (the ?f) = RETIRED")
      case True
      with fk Inr tk assms(1) show ?thesis by (auto simp: build_relationship_def Let_def)
    next
      case False
      let ?r = "\<lambda>i. \<lparr>rr_relationship_id = i, rr_name = ?n,
          rr_aliases = (case ?f of Some r \<Rightarrow> rr_aliases r | None \<Rightarrow> []), rr_status = ACTIVE\<rparr>"
      let ?m = "\<lambda>i. \<lparr>ri_relationship_id = i, ri_name = ?n, ri_from_table_id = td_table_id d,
          ri_to_table_id = td_table_id t, ri_from_columns = [ci_name c],
          ri_to_columns = [ci_name k], ri_description = None, ri_evidence = ci_evidence c\<rparr>"
      from False fk Inr tk assms(1) obtain i n' where
        i: "(case ?f of Some r \<Rightarrow> Inr (rr_relationship_id r, n) | None \<Rightarrow> fresh ent ''rel'' n) = Inr (i, n')"
        and st': "st' = ((dict_set i (?r i) recs, rels @ [?m i]), fs, n')"
        by (auto simp: build_relationship_def Let_def RelationshipRecord_def RelationshipIR_def split: if_splits)
      have "i = rr_relationship_id e \<and> rr_status e = ACTIVE" if "?f = Some e" for e
        using i that False by (cases "rr_status e") auto
      with target assms(2,3) fk have "relationship_traced drafts existing (?m i)"
        unfolding relationship_traced_def by auto
      with st' fk show ?thesis by (intro disjI2 conjI exI [of _ "?m i"] exI [of _ "?r i"] exI [of _ n']) simp_all
    qed
  qed
qed (use assms(1) in \<open>simp add: build_relationship_def\<close>)

lemma retire_fold:
  "dict_get (fold (\<lambda>r d. if rr_relationship_id r \<notin> K then dict_set (rr_relationship_id r) (retire_relationship r) d else d) es D) i
     = (if i \<in> K then dict_get D i
        else case find (\<lambda>e. rr_relationship_id e = i) (rev es) of
            Some e \<Rightarrow> Some (retire_relationship e) | None \<Rightarrow> dict_get D i)"
  by (induction es rule: rev_induct) auto

lemma retire_fold_ok:
  "dict_ok D \<Longrightarrow> dict_ok (fold (\<lambda>r d. if rr_relationship_id r \<notin> K
     then dict_set (rr_relationship_id r) (retire_relationship r) d else d) es D)"
  by (induction es arbitrary: D) auto

text \<open>(C10) Every declared foreign key becomes a relationship or a finding. A relationship joins two columns of
  tables of this product and keeps the identifier of the registered relationship that its name or
  an alias names; every registered relationship stays on record, active exactly while a foreign
  key stands behind it, and the identifiers on record are unique.\<close>

theorem relationships_accounted:
  assumes "build_relationships ent drafts product n = Inr ((rels, recs, fs), n')"
  shows "length rels + length fs
      = length (filter (\<lambda>c. truthy (ci_foreign_key c)) (concat (map td_columns drafts)))
    \<and> (\<forall>r\<in>set rels. relationship_traced drafts (case product of Some p \<Rightarrow> pr_relationships p | None \<Rightarrow> []) r)
    \<and> (\<forall>e\<in>set (case product of Some p \<Rightarrow> pr_relationships p | None \<Rightarrow> []).
          \<exists>r\<in>set recs. rr_relationship_id r = rr_relationship_id e)
    \<and> (\<forall>r\<in>set recs. rr_status r = ACTIVE \<longleftrightarrow> (\<exists>m\<in>set rels. ri_relationship_id m = rr_relationship_id r))
    \<and> distinct (map rr_relationship_id recs)"
proof -
  let ?E = "case product of Some p \<Rightarrow> pr_relationships p | None \<Rightarrow> []"
  let ?pairs = "concat (map (\<lambda>d. map (Pair d) (td_columns d)) drafts)"
  let ?fk = "\<lambda>(d :: table_draft, c :: column_ir). truthy (ci_foreign_key c)"
  from assms obtain recs0 rels0 where
    f: "fold_ok (build_relationship ent ?E (target_names drafts)) (([], []), [], n) ?pairs = Inr ((recs0, rels0), fs, n')"
    and rels: "rels = sort_key ri_relationship_id rels0"
    and recs: "recs = sort_key rr_relationship_id (dict_values (fold (\<lambda>r d. if rr_relationship_id r \<notin> set (dict_keys recs0)
        then dict_set (rr_relationship_id r) (retire_relationship r) d else d) ?E recs0))"
    by (auto simp: build_relationships_def Let_def)
  define P where "P = (\<lambda>xs (st :: relationship_state). length (snd (fst st)) + length (fst (snd st)) = length (filter ?fk xs)
      \<and> dict_ok (fst (fst st)) \<and> (\<forall>i r. dict_get (fst (fst st)) i = Some r \<longrightarrow> rr_relationship_id r = i \<and> rr_status r = ACTIVE)
      \<and> set (dict_keys (fst (fst st))) = ri_relationship_id ` set (snd (fst st))
      \<and> (\<forall>r\<in>set (snd (fst st)). relationship_traced drafts ?E r))"
  have "P ?pairs ((recs0, rels0), fs, n')"
  proof (rule fold_ok_invariant_prefix [OF f, where P = P])
    show "P [] (([], []), [], n)" by (simp add: P_def)
    fix xs x st st'
    assume P: "P xs st" and x: "x \<in> set ?pairs" and step: "build_relationship ent ?E (target_names drafts) st x = Inr st'"
    obtain a b c d where st: "st = ((a, b), c, d)" by (metis prod.exhaust)
    obtain dr co where dc: "x = (dr, co)" "dr \<in> set drafts" "co \<in> set (td_columns dr)" using x by auto
    from build_relationship_step [OF step [unfolded st dc(1)] dc(2,3)]
    consider (skip) "\<not> truthy (ci_foreign_key co)" "st' = ((a, b), c, d)"
      | (found) g where "truthy (ci_foreign_key co)" "st' = ((a, b), c @ [g], d)"
      | (added) m r d' where "truthy (ci_foreign_key co)" "st' = ((dict_set (ri_relationship_id m) r a, b @ [m]), c, d')"
          "rr_relationship_id r = ri_relationship_id m" "rr_status r = ACTIVE" "relationship_traced drafts ?E m" by blast
    then show "P (xs @ [x]) st'"
    proof cases
      case skip
      with P show ?thesis by (simp add: P_def st dc(1))
    next
      case found
      with P show ?thesis by (simp add: P_def st dc(1))
    next
      case added
      with P show ?thesis unfolding P_def st dc(1) by (simp add: dict_keys_set [unfolded set_map])
    qed
  qed
  then have len: "length rels0 + length fs = length (filter ?fk ?pairs)" and ok: "dict_ok recs0"
    and act: "\<And>i r. dict_get recs0 i = Some r \<Longrightarrow> rr_relationship_id r = i \<and> rr_status r = ACTIVE"
    and keys: "set (dict_keys recs0) = ri_relationship_id ` set rels0"
    and traced: "\<forall>r\<in>set rels0. relationship_traced drafts ?E r" unfolding P_def by simp_all
  have pairs: "length (filter ?fk (concat (map (\<lambda>d. map (Pair d) (td_columns d)) ds)))
      = length (filter (\<lambda>c. truthy (ci_foreign_key c)) (concat (map td_columns ds)))" for ds
    by (induction ds) (simp_all add: filter_map comp_def)
  define D where "D = fold (\<lambda>r d. if rr_relationship_id r \<notin> set (dict_keys recs0)
        then dict_set (rr_relationship_id r) (retire_relationship r) d else d) ?E recs0"
  have okD: "dict_ok D" unfolding D_def by (rule retire_fold_ok [OF ok])
  have get: "dict_get D i = (if i \<in> set (dict_keys recs0) then dict_get recs0 i
        else map_option retire_relationship (find (\<lambda>e. rr_relationship_id e = i) (rev ?E)))" for i
    unfolding D_def retire_fold by (auto simp: map_of_eq_None_iff split: option.splits)
  have D: "rr_relationship_id r = i \<and> (rr_status r = ACTIVE \<longleftrightarrow> i \<in> set (dict_keys recs0))" if "dict_get D i = Some r" for i r
    using that act [of i r] unfolding get by (auto simp: retire_relationship_def split: if_splits dest!: find_SomeD)
  have in_recs: "r \<in> set recs \<longleftrightarrow> (\<exists>i. dict_get D i = Some r)" for r
    unfolding recs D_def [symmetric] using dict_get_values [OF okD] by simp
  have "\<exists>r\<in>set recs. rr_relationship_id r = rr_relationship_id e" if "e \<in> set ?E" for e
  proof -
    have "dict_get D (rr_relationship_id e) \<noteq> None"
    proof (cases "rr_relationship_id e \<in> set (dict_keys recs0)")
      case True
      then have "dict_get recs0 (rr_relationship_id e) \<noteq> None" unfolding map_of_eq_None_iff by simp
      with True show ?thesis unfolding get by simp
    next
      case False
      have "find (\<lambda>q. rr_relationship_id q = rr_relationship_id e) (rev ?E) \<noteq> None"
        unfolding find_None_iff using that by auto
      with False show ?thesis unfolding get by simp
    qed
    then show ?thesis unfolding in_recs Bex_def using D by blast
  qed
  moreover have "rr_status r = ACTIVE \<longleftrightarrow> (\<exists>m\<in>set rels. ri_relationship_id m = rr_relationship_id r)" if "r \<in> set recs" for r
    using that D unfolding in_recs keys rels by fastforce
  moreover have "distinct (map rr_relationship_id recs)"
    unfolding recs D_def [symmetric] by (rule distinct_values) (use okD D in auto)
  ultimately show ?thesis using len traced by (simp add: rels pairs)
qed

section \<open>Failures of a provider\<close>

definition own_error :: "'a result \<Rightarrow> bool" where
  "own_error r \<longleftrightarrow> (\<forall>code kind. r \<noteq> Inl (ProviderExecutionError code kind))"

lemma own_error_simps [simp]:
  "own_error (Inr x)" "own_error (Inl (ValueError m))" "own_error (Inl (KeyError m))" "own_error (Inl (PipelineValidationError m))"
  "own_error (Inl (ValidationError m))"
  by (simp_all add: own_error_def)

lemma own_error_bind: "own_error r \<Longrightarrow> (\<And>x. r = Inr x \<Longrightarrow> own_error (f x)) \<Longrightarrow> own_error (bind_ok r f)"
  by (cases r) (auto simp: own_error_def)

lemma own_error_traverse: "(\<And>x. own_error (f x)) \<Longrightarrow> own_error (traverse f xs)"
  by (induction xs) (auto simp: own_error_def split: sum.splits)

lemma own_error_fold: "(\<And>s x. own_error (f s x)) \<Longrightarrow> own_error (fold_ok f s xs)"
  by (induction xs arbitrary: s) (auto simp: own_error_def split: sum.splits)

lemmas own_error_intros = own_error_bind own_error_traverse own_error_fold

lemma own_error_check_batch: "own_error (check_batch pd sd drafts b)"
  unfolding check_batch_def validate_semantic_suggestions_def Let_def
  by (intro own_error_bind own_error_traverse) (auto split: list.split intro!: own_error_bind own_error_traverse)

lemma own_error_facts: "own_error (validate_product_facts sugs d desc)"
proof -
  have "own_error (accept_fact d st f)" for st f
    unfolding accept_fact_def resolve_product_fact_evidence_def
    by (cases st) (auto simp: check_fact_evidence_def Let_def split: option.split intro!: own_error_bind own_error_traverse)
  then show ?thesis unfolding validate_product_facts_def by (intro own_error_bind own_error_fold) auto
qed

lemma own_error_collisions: "own_error (validate_metric_name_collisions ms p excluded)"
  by (simp add: validate_metric_name_collisions_def Let_def)

lemma own_error_parse: "own_error (parse_metric_scalar S e)"
  by (auto simp: parse_metric_scalar_def split: option.split list.split)

lemma own_error_prepare: "own_error (prepare_metrics S sugs drafts)"
proof -
  have refs: "own_error (qualify_column k nm cols c)" "own_error (check_multi_column D ks c)" for k nm cols c D ks
    by (auto simp: qualify_column_def check_multi_column_def reference_unknown_def Let_def split: option.split)
  have single: "own_error (prepare_single S drafts D k s e)" for D k s e
    unfolding prepare_single_def Let_def
    by (auto split: option.split intro!: own_error_bind own_error_traverse refs own_error_parse)
  have keys: "own_error (metric_dataset_keys D s)" for D s by (simp add: metric_dataset_keys_def Let_def)
  have step: "own_error (prepare_metric S drafts D st x)" for D st x
  proof -
    obtain i s where x: "x = (i, s)" by (cases x)
    have branch: "own_error (case parse_metric_scalar S (strip (ms_expression s)) of
        Inl e \<Rightarrow> (if e = ValueError ''LLM_METRIC_SQL_UNSAFE''
           then Inr (st\<lparr>pm_findings := pm_findings st @ [unsafe_finding i]\<rparr>) else Inl e) | Inr n \<Rightarrow> g n)"
      if "\<And>n. own_error (g n)" for g
      using own_error_parse [of S "strip (ms_expression s)"] that by (auto simp: own_error_def split: sum.split)
    show ?thesis unfolding prepare_metric_def x prod.case
      by (intro own_error_bind keys branch) (auto simp: reference_unknown_def split: list.split
          intro!: own_error_bind own_error_traverse refs single)
  qed
  have "own_error (metric_dataset_catalog drafts)"
    unfolding metric_dataset_catalog_def Let_def by (rule own_error_fold) simp
  then show ?thesis unfolding prepare_metrics_def
    by (intro own_error_bind own_error_fold step own_error_collisions) auto
qed

lemma llm_codes: "llm_code ''LLM_OUTPUT_VALIDATION_FAILED''" "llm_code ''LLM_PROVIDER_FAILURE''"
  by code_simp+

text \<open>Whatever a provider answers, a failure reaches the caller as a provider error: the provider's own,
  or one with a code of the fixed \<open>LLM_\<close> alphabet, so no text of the answer is in it.\<close>

theorem provider_failures_coded:
  assumes "use_provider S pd sd desc drafts product response = Inl e"
  shows "\<exists>code kind. e = ProviderExecutionError code kind \<and> (response = Inl e \<or> llm_code code)"
proof -
  from assms obtain e0 where e: "e = provider_error e0" and
    e0: "bind_ok response (\<lambda>raw. bind_ok (check_batch pd sd drafts raw) (\<lambda>batch.
        bind_ok (validate_product_facts (sb_product_facts batch) pd desc) (\<lambda>facts.
        bind_ok (prepare_metrics S (sb_metrics batch) drafts) (\<lambda>prepared.
        bind_ok (validate_metric_name_collisions (pm_suggestions prepared) product (pm_excluded_names prepared)) (\<lambda>_.
          Inr (batch\<lparr>sb_metrics := pm_audit_suggestions prepared\<rparr>, facts, prepared)))))) = Inl e0"
    by (auto simp: use_provider_def split: sum.splits)
  have "own_error (bind_ok (check_batch pd sd drafts raw) (\<lambda>batch.
        bind_ok (validate_product_facts (sb_product_facts batch) pd desc) (\<lambda>facts.
        bind_ok (prepare_metrics S (sb_metrics batch) drafts) (\<lambda>prepared.
        bind_ok (validate_metric_name_collisions (pm_suggestions prepared) product (pm_excluded_names prepared)) (\<lambda>_.
          Inr (batch\<lparr>sb_metrics := pm_audit_suggestions prepared\<rparr>, facts, prepared))))))" for raw
    by (intro own_error_bind own_error_check_batch own_error_facts own_error_prepare own_error_collisions) simp
  then have "response = Inl e0 \<or> (\<forall>code kind. e0 \<noteq> ProviderExecutionError code kind)"
    using e0 unfolding bind_ok_Inl_iff [of response] own_error_def by blast
  moreover have "\<exists>code kind. provider_error e0 = ProviderExecutionError code kind \<and> llm_code code"
    if "\<forall>code kind. e0 \<noteq> ProviderExecutionError code kind"
    using that llm_codes by (cases e0) (auto simp: provider_error_def Let_def)
  moreover have "\<exists>code kind. provider_error e0 = ProviderExecutionError code kind \<and> provider_error e0 = e0"
    if "\<exists>code kind. e0 = ProviderExecutionError code kind"
    using that by (auto simp: provider_error_def)
  ultimately show ?thesis unfolding e by (metis (no_types))
qed

section \<open>Samples\<close>

definition strong :: py_float where "strong = \<lparr>fl_value = 9 / 10, fl_text = ''0.9''\<rparr>"

definition description1 :: ai_suggestion where
  "description1 = \<lparr>as_field_path = ''product.description'', as_value = JStr ''Order data'', as_confidence = strong,
     as_evidence = [html_evidence1]\<rparr>"

theorem suggestions_only_describe_witness:
  "snd (apply_suggestions dumps config1 [draft1] [description1]) = [draft1]"
  using suggestions_only_describe [of dumps config1 "[draft1]" "[description1]"]
  by (cases "apply_suggestions dumps config1 [draft1] [description1]") simp

theorem check_batch_accepts_iff_witness:
  "check_batch html_document1 document1 [draft1] \<lparr>sb_suggestions = [description1], sb_metrics = [], sb_product_facts = []\<rparr>
     = Inr \<lparr>sb_suggestions = [description1], sb_metrics = [], sb_product_facts = []\<rparr>"
proof -
  have "set (map str_lower (split_on CHR ''.'' ''product.description'')) \<inter> set PHYSICAL_SEGMENTS = {}" by code_simp
  then show ?thesis
    unfolding check_batch_accepts_iff
    by (simp add: description1_def allowed_paths_def html_document1_def html_evidence1_def document1_def)
qed

definition metric1 :: metric_suggestion where
  "metric1 = \<lparr>ms_name = ''Revenue'', ms_expression = ''SUM(id)'', ms_dataset_names = [''Orders''], ms_description = None,
     ms_synonyms = [], ms_confidence = strong, ms_evidence = [html_evidence1]\<rparr>"

definition sql_engine1 :: "unit sql_engine" where
  "sql_engine1 = \<lparr>sql_parse = (\<lambda>_. Some [Some ()]), sql_scalar_root = (\<lambda>_. True), sql_relational = (\<lambda>_. False),
     sql_columns = (\<lambda>_. [\<lparr>sq_name = ''id'', sq_table = [], sq_db = [], sq_catalog = [], sq_name_quoted = False,
       sq_table_quoted = False\<rparr>]),
     sql_set_columns = (\<lambda>_ _. ()), sql_divisions = (\<lambda>_ _ _. ()), sql_text = (\<lambda>_. ''SUM(orders.ID)'')\<rparr>"

lemma sample_prepared: "prepare_metrics sql_engine1 [metric1] [draft1]
    = Inr \<lparr>pm_suggestions = [metric1\<lparr>ms_expression := ''SUM(orders.ID)''\<rparr>], pm_audit_suggestions = [metric1],
        pm_findings = [], pm_excluded_names = []\<rparr>"
proof -
  have cat: "metric_dataset_catalog [draft1] = Inr [(''orders'', ''orders'', [(''id'', ''ID'')])]" by code_simp
  have keys: "metric_dataset_keys [(''orders'', ''orders'', [(''id'', ''ID'')])] metric1 = Inr [''orders'']" by code_simp
  have parse: "parse_metric_scalar sql_engine1 e = Inr ()" for e by (simp add: parse_metric_scalar_def sql_engine1_def)
  have "str_lower ''id'' = ''id''" by code_simp
  then have "prepare_single sql_engine1 [draft1] [(''orders'', ''orders'', [(''id'', ''ID'')])] ''orders'' metric1 ()
      = Inr (metric1\<lparr>ms_expression := ''SUM(orders.ID)''\<rparr>)"
    using parse by (simp add: prepare_single_def) (simp add: sql_engine1_def qualify_column_def)
  then show ?thesis
    using cat keys parse by (simp add: prepare_metrics_def prepare_metric_def validate_metric_name_collisions_def)
      (simp add: sql_engine1_def)
qed

theorem prepared_metrics_accounted_witness:
  "\<exists>s\<in>set [metric1]. metric_grounded sql_engine1 [draft1] s (metric1\<lparr>ms_expression := ''SUM(orders.ID)''\<rparr>)"
  using prepared_metrics_accounted [OF sample_prepared] by simp

definition registered_metric :: metric_record where
  "registered_metric = \<lparr>mr_metric_id = ''met_'' @ uuid_tail @ ''1'', mr_name = ''Revenue'', mr_aliases = [''Sales''], mr_status = ACTIVE\<rparr>"

definition metric_product :: product_record where
  "metric_product = product1\<lparr>pr_metrics := [registered_metric]\<rparr>"

lemma sample_metric_facts: "MetricId (''met_'' @ uuid_tail @ ''1'')" "strip ''Revenue'' = ''Revenue''" "strip ''Sales'' = ''Sales''"
  "casefold ''Revenue'' = ''revenue''" "casefold ''Sales'' = ''sales''"
  by code_simp+

lemma strong_enough: "\<not> fl_value strong < CONFIDENCE_THRESHOLD"
  by (simp add: strong_def CONFIDENCE_THRESHOLD_def)

lemma sample_metric_steps:
  assumes "i = ''met_'' @ uuid_tail @ ''1''" and "s = metric1 \<or> s = metric1\<lparr>ms_name := ''Sales''\<rparr>"
    and "casefold (strip (ms_name s)) \<notin> set seen"
  shows "\<exists>m r. build_metric ent [registered_metric] ((recs, ms), seen, n) s
      = Inr ((dict_set i r recs, ms @ [m]), seen @ [casefold (strip (ms_name s))], n)
      \<and> mi_metric_id m = i \<and> mi_name m = ms_name s \<and> mr_metric_id r = i"
  using assms strong_enough sample_metric_facts
  by (elim disjE)
     (auto simp: build_metric_def Let_def metric1_def registered_metric_def metric_keys_def MetricRecord_def MetricIR_def)

lemma sample_built_metrics:
  "\<exists>m m' r. build_metrics entropy1 [metric1, metric1\<lparr>ms_name := ''Sales''\<rparr>] (Some metric_product) [] 0 = Inr (([m, m'], [r]), 0)
     \<and> mi_metric_id m = ''met_'' @ uuid_tail @ ''1'' \<and> mi_metric_id m' = ''met_'' @ uuid_tail @ ''1''
     \<and> mi_name m = ''Revenue'' \<and> mi_name m' = ''Sales''"
proof -
  let ?i = "''met_'' @ uuid_tail @ ''1''"
  let ?s = "metric1\<lparr>ms_name := ''Sales''\<rparr>"
  have names: "ms_name metric1 = ''Revenue''" by (simp add: metric1_def)
  have kept: "kept_metrics (Some metric_product) [] = [registered_metric]" by (simp add: kept_metrics_def metric_product_def)
  have init: "dict_of mr_metric_id id [registered_metric] = [(?i, registered_metric)]"
    by (simp add: dict_of_def) (simp add: registered_metric_def)
  obtain m r where a: "build_metric entropy1 [registered_metric] (([(?i, registered_metric)], []), [], 0) metric1
      = Inr (([(?i, r)], [m]), [''revenue''], 0)" "mi_metric_id m = ?i" "mi_name m = ''Revenue''"
    using sample_metric_steps [of ?i metric1 "[]" entropy1 "[(?i, registered_metric)]" "[]" 0] names sample_metric_facts by auto
  obtain m' r' where b: "build_metric entropy1 [registered_metric] (([(?i, r)], [m]), [''revenue''], 0) ?s
      = Inr (([(?i, r')], [m, m']), [''revenue'', ''sales''], 0)" "mi_metric_id m' = ?i" "mi_name m' = ''Sales''"
    using sample_metric_steps [of ?i ?s "[''revenue'']" entropy1 "[(?i, r)]" "[m]" 0] sample_metric_facts by auto
  have "validate_metric_name_collisions [metric1, ?s] (Some metric_product) [] = Inr ()"
    using names sample_metric_facts by (simp add: validate_metric_name_collisions_def)
  then show ?thesis using a b kept init by (simp add: build_metrics_def)
qed

theorem metric_identifiers_kept_witness:
  "\<exists>ms rs n'. build_metrics entropy1 [metric1, metric1\<lparr>ms_name := ''Sales''\<rparr>] (Some metric_product) [] 0 = Inr ((ms, rs), n')
     \<and> distinct (map mr_metric_id rs)"
  using sample_built_metrics metric_identifiers_kept by metis

text \<open>Two suggestions under the name and under the alias of one registered metric are both accepted and get
  the same identifier: the name check does not look at aliases, so a product with two metrics under
  one identifier passes.\<close>

theorem metric_alias_collision:
  "\<exists>m m' r. build_metrics entropy1 [metric1, metric1\<lparr>ms_name := ''Sales''\<rparr>] (Some metric_product) [] 0 = Inr (([m, m'], [r]), 0)
     \<and> mi_metric_id m = mi_metric_id m' \<and> mi_name m \<noteq> mi_name m'"
  using sample_built_metrics by fastforce

theorem provider_failures_coded_witness:
  "\<exists>code kind. use_provider sql_engine1 html_document1 document1 None [draft1] None (Inl (OSError ''timed out''))
     = Inl (ProviderExecutionError code kind) \<and> llm_code code"
proof -
  obtain e where "use_provider sql_engine1 html_document1 document1 None [draft1] None (Inl (OSError ''timed out'')) = Inl e"
    by (simp add: use_provider_def)
  with provider_failures_coded [OF this] show ?thesis by (auto simp: use_provider_def)
qed

definition parent_column :: column_ir where
  "parent_column = (draft_column_ir cid1 dictionary_column1)\<lparr>ci_foreign_key := Some ''orders.id''\<rparr>"

definition draft_fk :: table_draft where
  "draft_fk = draft1\<lparr>td_columns := [parent_column]\<rparr>"

definition registered_relationship :: relationship_record where
  "registered_relationship = \<lparr>rr_relationship_id = ''rel_'' @ uuid_tail @ ''1'', rr_name = ''orders_ID_to_orders_ID'',
     rr_aliases = [], rr_status = ACTIVE\<rparr>"

lemma sample_foreign_key: "foreign_key_target (target_names [draft_fk]) draft_fk parent_column = Inr (draft_fk, parent_column)"
proof -
  have n: "target_names_of draft_fk = [''orders'', ''main.dw.orders'', ''bq|main|dw|orders'']"
    unfolding target_names_of_def draft_fk_def draft1_def locator1_def by code_simp
  have c: "casefold ''orders'' = ''orders''" "casefold ''main.dw.orders'' = ''main.dw.orders''"
    "casefold ''bq|main|dw|orders'' = ''bq|main|dw|orders''" "casefold ''ID'' = ''id''" "casefold ''id'' = ''id''"
    "rsplit1 CHR ''.'' ''orders.id'' = Some (''orders'', ''id'')"
    by code_simp+
  have "dict_get (target_names [draft_fk]) ''orders'' = Some [draft_fk]" by (simp add: target_names_def n c)
  then show ?thesis
    using c by (simp add: foreign_key_target_def) (simp add: draft_fk_def parent_column_def draft_column_ir_def dictionary_column1_def Let_def)
qed

lemma sample_relationships:
  "\<exists>m r. build_relationships entropy1 [draft_fk] (Some (product1\<lparr>pr_relationships := [registered_relationship]\<rparr>)) 0
     = Inr (([m], [r], []), 0)"
proof -
  have name: "relationship_name draft_fk parent_column draft_fk parent_column = ''orders_ID_to_orders_ID''"
    by (simp add: relationship_name_def draft_fk_def draft1_def locator1_def parent_column_def draft_column_ir_def
        dictionary_column1_def)
  have i: "RelationshipId (''rel_'' @ uuid_tail @ ''1'')" by code_simp
  have t: "td_table_id draft_fk = tid1" "truthy (ci_foreign_key parent_column)" "ci_evidence parent_column \<noteq> []"
    by (simp_all add: draft_fk_def draft1_def parent_column_def draft_column_ir_def)
  have "\<exists>m r. build_relationship entropy1 [registered_relationship] (target_names [draft_fk]) (([], []), [], 0) (draft_fk, parent_column)
      = Inr (([(rr_relationship_id registered_relationship, r)], [m]), [], 0)"
    using i t sample_id_patterns
    by (simp add: build_relationship_def sample_foreign_key name Let_def relationship_keys_def RelationshipRecord_def
        RelationshipIR_def registered_relationship_def)
  moreover have "td_columns draft_fk = [parent_column]" by (simp add: draft_fk_def)
  ultimately show ?thesis by (auto simp: build_relationships_def)
qed

theorem relationships_accounted_witness:
  "\<exists>m r n'. build_relationships entropy1 [draft_fk] (Some (product1\<lparr>pr_relationships := [registered_relationship]\<rparr>)) 0
     = Inr (([m], [r], []), n') \<and> ri_from_columns m = [''ID''] \<and> (rr_status r = ACTIVE) = (rr_relationship_id r = ri_relationship_id m)"
proof -
  from sample_relationships obtain m r where
    b: "build_relationships entropy1 [draft_fk] (Some (product1\<lparr>pr_relationships := [registered_relationship]\<rparr>)) 0
      = Inr (([m], [r], []), 0)" by blast
  have "relationship_traced [draft_fk] [registered_relationship] m"
    and "(rr_status r = ACTIVE) = (rr_relationship_id r = ri_relationship_id m)"
    using relationships_accounted [OF b] by auto
  moreover from this(1) have "ri_from_columns m = [''ID'']"
    by (auto simp: relationship_traced_def draft_fk_def parent_column_def draft_column_ir_def dictionary_column1_def)
  ultimately show ?thesis using b by blast
qed

end
