(* ===== verification/Promotion.thy ===== *)
theory Promotion
  imports Py_Strings
begin

text \<open>
  The last step of a product build (\<open>pipeline.py\<close>): the candidate directories are moved into place, one
  after the other, with a backup of what they replace and a rollback when anything fails. The file
  system is a map from paths to entries, and the environment decides which call fails and what a
  failed deletion leaves behind. The lemmas show that one failing call leaves either everything
  replaced or everything as it was. The write loop of an artifact is here as well.
\<close>

section \<open>Files\<close>

text \<open>A path is its directory and its name; the content of a directory is the list of its files.\<close>

datatype path = Path (path_directory: string) (path_name: string)

type_synonym content = "(string \<times> string) list"

datatype entry = Directory content | Symlink

type_synonym files = "path \<Rightarrow> entry option"

text \<open>The environment: the calls that raise an \<open>OSError\<close>, by number, and what the failed deletion of a
  directory leaves of it.\<close>

record environment =
  fails :: "nat \<Rightarrow> bool"
  leftover :: "nat \<Rightarrow> content \<Rightarrow> content"

record promotion =
  pm_files :: files
  pm_calls :: nat
  pm_backups :: "(path \<times> path) list"
  pm_installed :: "path list"

text \<open>A statement: the exception it raises, if any, and the state it leaves.\<close>

type_synonym action = "promotion \<Rightarrow> exn option \<times> promotion"

definition os_error :: exn where "os_error = OSError ''system call failed''"

definition done_action :: action where "done_action s = (None, s)"

definition raise_action :: "exn \<Rightarrow> action" where "raise_action e s = (Some e, s)"

definition seq :: "action \<Rightarrow> action \<Rightarrow> action" where
  "seq a b s = (case a s of (None, s') \<Rightarrow> b s' | (Some e, s') \<Rightarrow> (Some e, s'))"

definition exists_path :: "path \<Rightarrow> promotion \<Rightarrow> bool" where
  "exists_path p s \<longleftrightarrow> pm_files s p \<noteq> None"

definition is_symlink :: "path \<Rightarrow> promotion \<Rightarrow> bool" where
  "is_symlink p s \<longleftrightarrow> pm_files s p = Some Symlink"

text \<open>A system call that fails when the environment says so.\<close>

definition sys_call :: "environment \<Rightarrow> (nat \<Rightarrow> promotion \<Rightarrow> promotion) \<Rightarrow> action \<Rightarrow> action" where
  "sys_call E failed body s =
     (let n = pm_calls s; s' = s\<lparr>pm_calls := n + 1\<rparr>
      in if fails E n then (Some os_error, failed n s') else body s')"

definition make_parent :: "environment \<Rightarrow> action" where
  "make_parent E = sys_call E (\<lambda>_ s. s) done_action"

definition set_entry :: "path \<Rightarrow> entry option \<Rightarrow> promotion \<Rightarrow> promotion" where
  "set_entry p e s = s\<lparr>pm_files := (pm_files s)(p := e)\<rparr>"

text \<open>\<open>os.replace\<close> of a directory: the destination may not be a link or a directory with content.\<close>

definition replace_path :: "environment \<Rightarrow> path \<Rightarrow> path \<Rightarrow> action" where
  "replace_path E source destination =
     sys_call E (\<lambda>_ s. s) (\<lambda>s.
       if pm_files s source = None \<or> pm_files s destination \<notin> {None, Some (Directory [])}
       then (Some os_error, s)
       else (None, set_entry source None (set_entry destination (pm_files s source) s)))"

definition partly_removed :: "environment \<Rightarrow> path \<Rightarrow> nat \<Rightarrow> promotion \<Rightarrow> promotion" where
  "partly_removed E p n s =
     (case pm_files s p of
        Some (Directory files) \<Rightarrow> set_entry p (Some (Directory (leftover E n files))) s
      | _ \<Rightarrow> s)"

text \<open>\<open>shutil.rmtree\<close> refuses a link.\<close>

definition remove_tree :: "environment \<Rightarrow> path \<Rightarrow> action" where
  "remove_tree E p = sys_call E (partly_removed E p)
     (\<lambda>s. if is_symlink p s then (Some os_error, s) else (None, set_entry p None s))"

definition remove_if_exists :: "environment \<Rightarrow> path \<Rightarrow> action" where
  "remove_if_exists E p s = (if exists_path p s then remove_tree E p s else (None, s))"

section \<open>Promotion\<close>

definition backup_path :: "string \<Rightarrow> path \<Rightarrow> path" where
  "backup_path token target = Path (path_directory target) (''.'' @ path_name target @ ''.backup-'' @ token)"

definition move_aside :: "environment \<Rightarrow> path \<Rightarrow> path \<Rightarrow> action" where
  "move_aside E target backup s =
     (if exists_path target s
      then seq (replace_path E target backup)
             (\<lambda>s. (None, s\<lparr>pm_backups := pm_backups s @ [(target, backup)]\<rparr>)) s
      else (None, s))"

definition install_one :: "environment \<Rightarrow> string \<Rightarrow> path \<times> path \<Rightarrow> action" where
  "install_one E token ct =
     (case ct of (candidate, target) \<Rightarrow>
      let backup = backup_path token target
      in seq (make_parent E) (\<lambda>s.
           if is_symlink target s \<or> is_symlink backup s
           then raise_action (PipelineSecurityError ''SYMLINK_NOT_ALLOWED'') s
           else seq (remove_if_exists E backup)
                  (seq (move_aside E target backup)
                    (seq (replace_path E candidate target)
                      (\<lambda>s. (None, s\<lparr>pm_installed := pm_installed s @ [target]\<rparr>)))) s))"

fun install_all :: "environment \<Rightarrow> string \<Rightarrow> (path \<times> path) list \<Rightarrow> action" where
  "install_all E token [] = done_action"
| "install_all E token (ct # cts) = seq (install_one E token ct) (install_all E token cts)"

fun remove_each :: "environment \<Rightarrow> path list \<Rightarrow> action" where
  "remove_each E [] = done_action"
| "remove_each E (p # ps) = seq (remove_if_exists E p) (remove_each E ps)"

definition put_back :: "environment \<Rightarrow> path \<times> path \<Rightarrow> action" where
  "put_back E tb = (case tb of (target, backup) \<Rightarrow>
     (\<lambda>s. if exists_path backup s then replace_path E backup target s else (None, s)))"

fun restore_each :: "environment \<Rightarrow> (path \<times> path) list \<Rightarrow> action" where
  "restore_each E [] = done_action"
| "restore_each E (tb # tbs) = seq (put_back E tb) (restore_each E tbs)"

definition roll_back :: "environment \<Rightarrow> action" where
  "roll_back E s =
     seq (remove_each E (rev (pm_installed s))) (restore_each E (rev (pm_backups s))) s"

definition clean_up :: "environment \<Rightarrow> action" where
  "clean_up E s = remove_each E (map snd (pm_backups s)) s"

definition promote_directories :: "environment \<Rightarrow> string \<Rightarrow> (path \<times> path) list \<Rightarrow> files \<Rightarrow> exn option \<times> promotion" where
  "promote_directories E token directories files =
     (case install_all E token directories
         \<lparr>pm_files = files, pm_calls = 0, pm_backups = [], pm_installed = []\<rparr> of
        (None, s) \<Rightarrow> clean_up E s
      | (Some e, s) \<Rightarrow>
          (case roll_back E s of (None, s') \<Rightarrow> (Some e, s') | (Some e', s') \<Rightarrow> (Some e', s')))"

section \<open>Writing all bytes of an artifact\<close>

text \<open>\<open>_write_all\<close>: the argument \<open>accept\<close> is the n-th \<open>os.write\<close>, given how many bytes remain. It
  either raises, and the exception leaves the loop, or says how many bytes it took; the system
  takes at most what it is offered. The result is the exception, if any, and what has been written.\<close>

function write_all ::
  "(nat \<Rightarrow> nat \<Rightarrow> exn + nat) \<Rightarrow> nat \<Rightarrow> string \<Rightarrow> string \<Rightarrow> exn option \<times> string" where
  "write_all accept n written remaining =
     (if remaining = [] then (None, written)
      else case accept n (length remaining) of
          Inl e \<Rightarrow> (Some e, written)
        | Inr count \<Rightarrow>
            let k = min count (length remaining)
            in if k = 0 then (Some (OSError ''quality artifact write made no progress''), written)
               else write_all accept (n + 1) (written @ take k remaining) (drop k remaining))"
  by pat_completeness auto

termination write_all
  by (relation "measure (\<lambda>(_, _, _, remaining). length remaining)") auto

declare write_all.simps [simp del]

section \<open>How the statements act\<close>

lemma seq_None: "seq a b s = (None, t) \<longleftrightarrow> (\<exists>u. a s = (None, u) \<and> b u = (None, t))"
  by (auto simp: seq_def split: prod.splits option.splits)

lemma seq_Some: "seq a b s = (Some e, t) \<longleftrightarrow> a s = (Some e, t) \<or> (\<exists>u. a s = (None, u) \<and> b u = (Some e, t))"
  by (auto simp: seq_def split: prod.splits option.splits)

lemma set_entry_sel [simp]:
  "pm_files (set_entry p e s) = (pm_files s)(p := e)" "pm_calls (set_entry p e s) = pm_calls s"
  "pm_backups (set_entry p e s) = pm_backups s" "pm_installed (set_entry p e s) = pm_installed s"
  by (simp_all add: set_entry_def)

text \<open>No call from the n-th on fails.\<close>

definition calm :: "environment \<Rightarrow> nat \<Rightarrow> bool" where
  "calm E n \<longleftrightarrow> (\<forall>i\<ge>n. \<not> fails E i)"

lemma calm_Suc: "calm E n \<Longrightarrow> calm E (Suc n)"
  by (simp add: calm_def)

lemma remove_calm:
  "calm E (pm_calls s) \<Longrightarrow> pm_files s p \<noteq> Some Symlink \<Longrightarrow> \<exists>t. remove_if_exists E p s = (None, t) \<and> calm E (pm_calls t)
     \<and> pm_files t = (pm_files s)(p := None) \<and> pm_backups t = pm_backups s \<and> pm_installed t = pm_installed s"
  by (auto simp: remove_if_exists_def exists_path_def remove_tree_def sys_call_def Let_def calm_def fun_upd_idem
      is_symlink_def)

lemma remove_each_calm:
  "calm E (pm_calls s) \<Longrightarrow> \<forall>p\<in>set ps. pm_files s p \<noteq> Some Symlink \<Longrightarrow>
     \<exists>t. remove_each E ps s = (None, t) \<and> calm E (pm_calls t)
     \<and> pm_files t = (\<lambda>q. if q \<in> set ps then None else pm_files s q)
     \<and> pm_backups t = pm_backups s \<and> pm_installed t = pm_installed s"
proof (induction ps arbitrary: s)
  case (Cons p ps)
  from remove_calm [of E s p] Cons.prems obtain u where u: "remove_if_exists E p s = (None, u)" "calm E (pm_calls u)"
    "pm_files u = (pm_files s)(p := None)" "pm_backups u = pm_backups s" "pm_installed u = pm_installed s" by auto
  have "\<forall>q\<in>set ps. pm_files u q \<noteq> Some Symlink" using Cons.prems(2) by (simp add: u(3))
  from Cons.IH [OF u(2) this] u obtain t where "remove_each E ps u = (None, t)" "calm E (pm_calls t)"
    "pm_files t = (\<lambda>q. if q \<in> set ps then None else pm_files u q)"
    "pm_backups t = pm_backups s" "pm_installed t = pm_installed s" by auto
  then show ?case using u(1,3) by (auto simp: seq_def)
qed (simp add: done_action_def)

lemma put_back_calm:
  assumes "calm E (pm_calls s)" and "pm_files s b \<noteq> None" and "pm_files s t = None"
  shows "\<exists>u. put_back E (t, b) s = (None, u) \<and> calm E (pm_calls u) \<and> pm_files u = (pm_files s)(t := pm_files s b, b := None)"
  using assms by (auto simp: put_back_def exists_path_def replace_path_def sys_call_def Let_def calm_def)

lemma restore_each_calm:
  assumes "calm E (pm_calls s)" and "distinct (map fst tbs @ map snd tbs)"
    and "\<And>t b. (t, b) \<in> set tbs \<Longrightarrow> pm_files s b \<noteq> None \<and> pm_files s t = None"
  shows "\<exists>u. restore_each E tbs s = (None, u) \<and> (\<forall>(t, b)\<in>set tbs. pm_files u t = pm_files s b)
     \<and> (\<forall>q. q \<notin> fst ` set tbs \<longrightarrow> q \<notin> snd ` set tbs \<longrightarrow> pm_files u q = pm_files s q)"
  using assms
proof (induction tbs arbitrary: s)
  case Nil
  then show ?case by (simp add: done_action_def)
next
  case (Cons tb tbs)
  obtain t b where tb: "tb = (t, b)" by (cases tb)
  have "pm_files s b \<noteq> None" "pm_files s t = None" using Cons.prems(3) [of t b] by (simp_all add: tb)
  from put_back_calm [OF Cons.prems(1) this] obtain v where v: "put_back E (t, b) s = (None, v)"
    "calm E (pm_calls v)" "pm_files v = (pm_files s)(t := pm_files s b, b := None)" by blast
  have apart: "t \<noteq> b" "t \<notin> fst ` set tbs" "t \<notin> snd ` set tbs" "b \<notin> fst ` set tbs" "b \<notin> snd ` set tbs"
    using Cons.prems(2) by (auto simp: tb)
  have keep: "pm_files v t' = pm_files s t' \<and> pm_files v b' = pm_files s b'" if "(t', b') \<in> set tbs" for t' b'
  proof -
    from that have "t' \<in> fst ` set tbs" "b' \<in> snd ` set tbs" by force+
    with apart have "t' \<noteq> t" "t' \<noteq> b" "b' \<noteq> t" "b' \<noteq> b" by blast+
    then show ?thesis by (simp add: v(3))
  qed
  have "distinct (map fst tbs @ map snd tbs)" using Cons.prems(2) by (simp add: tb)
  moreover have "pm_files v b' \<noteq> None \<and> pm_files v t' = None" if "(t', b') \<in> set tbs" for t' b'
    using Cons.prems(3) [of t' b'] keep [OF that] that by simp
  ultimately obtain u where u: "restore_each E tbs v = (None, u)"
    "\<And>t b. (t, b) \<in> set tbs \<Longrightarrow> pm_files u t = pm_files v b"
    "\<And>q. q \<notin> fst ` set tbs \<Longrightarrow> q \<notin> snd ` set tbs \<Longrightarrow> pm_files u q = pm_files v q"
    using Cons.IH [OF v(2)] by blast
  have "pm_files u t = pm_files s b" using u(3) apart v(3) by simp
  then have "\<forall>(t', b')\<in>set (tb # tbs). pm_files u t' = pm_files s b'" using u(2) keep by (auto simp: tb)
  moreover have "\<forall>q. q \<notin> fst ` set (tb # tbs) \<longrightarrow> q \<notin> snd ` set (tb # tbs) \<longrightarrow> pm_files u q = pm_files s q"
    using u(3) v(3) by (simp add: tb)
  moreover have "restore_each E (tb # tbs) s = (None, u)" using u(1) v(1) by (simp add: tb seq_def)
  ultimately show ?case by blast
qed

section \<open>Installing\<close>

text \<open>One installation: it succeeds, or one of its calls fails and the target is untouched or moved aside.\<close>

definition paused :: "path \<Rightarrow> path \<Rightarrow> promotion \<Rightarrow> promotion \<Rightarrow> bool" where
  "paused t b s s' \<longleftrightarrow> pm_installed s' = pm_installed s
     \<and> (\<forall>q. q \<noteq> t \<longrightarrow> q \<noteq> b \<longrightarrow> pm_files s' q = pm_files s q)
     \<and> (pm_backups s' = pm_backups s \<and> pm_files s' t = pm_files s t
        \<or> pm_backups s' = pm_backups s @ [(t, b)] \<and> pm_files s t \<noteq> None \<and> pm_files s' t = None \<and> pm_files s' b = pm_files s t)"

definition faulted :: "environment \<Rightarrow> exn option \<Rightarrow> promotion \<Rightarrow> bool" where
  "faulted E r s \<longleftrightarrow> r = Some os_error \<and> (\<exists>i<pm_calls s. fails E i)"

definition same_lists :: "promotion \<Rightarrow> promotion \<Rightarrow> bool" where
  "same_lists s u \<longleftrightarrow> pm_backups u = pm_backups s \<and> pm_installed u = pm_installed s"

lemma make_parent_cases:
  "make_parent E s = (r, u) \<Longrightarrow> pm_files u = pm_files s \<and> same_lists s u \<and> (r = None \<or> faulted E r u)"
  by (auto simp: make_parent_def sys_call_def Let_def done_action_def faulted_def same_lists_def split: if_splits)

lemma remove_cases:
  "remove_if_exists E p s = (r, u) \<Longrightarrow> pm_files s p \<noteq> Some Symlink \<Longrightarrow>
     same_lists s u \<and> (\<forall>q. q \<noteq> p \<longrightarrow> pm_files u q = pm_files s q)
     \<and> (r = None \<and> pm_files u p = None \<or> faulted E r u)"
  by (auto simp: remove_if_exists_def exists_path_def remove_tree_def sys_call_def Let_def faulted_def same_lists_def
      is_symlink_def partly_removed_def split: if_splits entry.splits option.splits)

lemma replace_cases:
  "replace_path E p q s = (r, u) \<Longrightarrow> pm_files s p \<noteq> None \<Longrightarrow> pm_files s q = None \<Longrightarrow>
     same_lists s u \<and> (r = None \<and> pm_files u = (pm_files s)(q := pm_files s p, p := None)
       \<or> faulted E r u \<and> pm_files u = pm_files s)"
  by (auto simp: replace_path_def sys_call_def Let_def faulted_def same_lists_def split: if_splits)

lemma move_aside_cases:
  assumes "move_aside E t b s = (r, u)" and "pm_files s b = None" and "t \<noteq> b"
  shows "pm_installed u = pm_installed s \<and>
    (r = None \<and> pm_files u = (pm_files s)(t := None, b := pm_files s t)
       \<and> pm_backups u = pm_backups s @ (if pm_files s t = None then [] else [(t, b)])
     \<or> faulted E r u \<and> pm_files u = pm_files s \<and> pm_backups u = pm_backups s)"
proof (cases "pm_files s t = None")
  case True
  then show ?thesis using assms by (auto simp: move_aside_def exists_path_def fun_upd_idem)
next
  case False
  obtain r1 v where v: "replace_path E t b s = (r1, v)" by (cases "replace_path E t b s")
  from replace_cases [OF v False assms(2)] assms(1,3) False v show ?thesis
    by (auto simp: move_aside_def exists_path_def seq_def same_lists_def faulted_def fun_upd_twist split: option.splits)
qed

lemma install_one_cases:
  assumes one: "install_one E token (c, t) s = (r, s')" and b: "b = backup_path token t"
    and apart: "distinct [c, t, b]"
    and there: "pm_files s c \<noteq> None" "pm_files s t \<noteq> Some Symlink" "pm_files s b \<noteq> Some Symlink"
  shows "(r = None \<and> pm_files s' = (pm_files s)(c := None, t := pm_files s c, b := pm_files s t)
           \<and> pm_backups s' = pm_backups s @ (if pm_files s t = None then [] else [(t, b)])
           \<and> pm_installed s' = pm_installed s @ [t])
    \<or> (faulted E r s' \<and> paused t b s s')"
proof -
  obtain r1 s1 where 1: "make_parent E s = (r1, s1)" by (cases "make_parent E s")
  note f1 = make_parent_cases [OF 1]
  obtain r2 s2 where 2: "remove_if_exists E b s1 = (r2, s2)" by (cases "remove_if_exists E b s1")
  have f2: "same_lists s1 s2" "\<forall>q. q \<noteq> b \<longrightarrow> pm_files s2 q = pm_files s q"
    "r2 = None \<and> pm_files s2 b = None \<or> faulted E r2 s2"
    using remove_cases [OF 2] f1 there(3) by auto
  obtain r3 s3 where 3: "move_aside E t b s2 = (r3, s3)" by (cases "move_aside E t b s2")
  obtain r4 s4 where 4: "replace_path E c t s3 = (r4, s4)" by (cases "replace_path E c t s3")
  have run: "(r, s') = (if r1 \<noteq> None then (r1, s1) else if r2 \<noteq> None then (r2, s2) else if r3 \<noteq> None then (r3, s3)
      else if r4 \<noteq> None then (r4, s4) else (None, s4\<lparr>pm_installed := pm_installed s4 @ [t]\<rparr>))"
    using one 1 2 3 4 f1 there by (auto simp: install_one_def Let_def seq_def is_symlink_def b split: option.splits)
  consider (a) "r1 \<noteq> None" | (b) "r1 = None" "r2 \<noteq> None" | (c) "r1 = None" "r2 = None" "r3 \<noteq> None"
    | (d) "r1 = None" "r2 = None" "r3 = None" by blast
  then show ?thesis
  proof cases
    case a
    then show ?thesis using run f1 by (auto simp: paused_def same_lists_def)
  next
    case b
    then show ?thesis using run f1 f2 apart by (auto simp: paused_def same_lists_def)
  next
    case c
    then have "pm_files s2 b = None" using f2 by (auto simp: faulted_def)
    from move_aside_cases [OF 3 this] c show ?thesis using run f1 f2 apart by (auto simp: paused_def same_lists_def)
  next
    case d
    then have free: "pm_files s2 b = None" using f2 by (auto simp: faulted_def)
    have f3: "pm_files s3 = (pm_files s2)(t := None, b := pm_files s t)"
      "pm_backups s3 = pm_backups s @ (if pm_files s t = None then [] else [(t, b)])" "pm_installed s3 = pm_installed s"
      using move_aside_cases [OF 3 free] d f1 f2 apart by (auto simp: faulted_def same_lists_def)
    have ready: "pm_files s3 c = pm_files s c" "pm_files s3 t = None" using f3(1) f2(2) apart by auto
    have f4: "same_lists s3 s4" "r4 = None \<and> pm_files s4 = (pm_files s3)(t := pm_files s c, c := None)
       \<or> faulted E r4 s4 \<and> pm_files s4 = pm_files s3"
      using replace_cases [OF 4] ready there(1) by auto
    show ?thesis
    proof (cases "r4 = None")
      case True
      have "pm_files s4 q = ((pm_files s)(c := None, t := pm_files s c, b := pm_files s t)) q" for q
        using f4(2) True f3(1) f2(2) apart by (auto simp: faulted_def)
      then show ?thesis using run d True f3 f4(1) by (auto simp: same_lists_def)
    next
      case False
      then show ?thesis using run d f3 f4 f2(2) apart by (auto simp: paused_def same_lists_def)
    qed
  qed
qed

text \<open>The paths of a promotion are distinct, the candidates are there, and nothing is a link.\<close>

definition layout_ok :: "string \<Rightarrow> (path \<times> path) list \<Rightarrow> files \<Rightarrow> bool" where
  "layout_ok token cts f \<longleftrightarrow>
     distinct (map fst cts @ map snd cts @ map (\<lambda>ct. backup_path token (snd ct)) cts)
     \<and> (\<forall>ct\<in>set cts. f (fst ct) \<noteq> None \<and> (\<forall>p\<in>{fst ct, snd ct, backup_path token (snd ct)}. f p \<noteq> Some Symlink))"

definition paths_of :: "string \<Rightarrow> (path \<times> path) list \<Rightarrow> path set" where
  "paths_of token cts = (\<Union>ct\<in>set cts. {fst ct, snd ct, backup_path token (snd ct)})"

definition backups_of :: "string \<Rightarrow> files \<Rightarrow> (path \<times> path) list \<Rightarrow> (path \<times> path) list" where
  "backups_of token f cts = map (\<lambda>ct. (snd ct, backup_path token (snd ct))) (filter (\<lambda>ct. f (snd ct) \<noteq> None) cts)"

definition installed :: "string \<Rightarrow> files \<Rightarrow> (path \<times> path) list \<Rightarrow> promotion \<Rightarrow> bool" where
  "installed token f cts s \<longleftrightarrow> pm_installed s = map snd cts \<and> pm_backups s = backups_of token f cts
     \<and> (\<forall>ct\<in>set cts. pm_files s (snd ct) = f (fst ct) \<and> pm_files s (fst ct) = None
          \<and> pm_files s (backup_path token (snd ct)) = f (snd ct))
     \<and> (\<forall>q. q \<notin> paths_of token cts \<longrightarrow> pm_files s q = f q)"

lemma layout_prefix: "layout_ok token (xs @ ys) f \<Longrightarrow> layout_ok token xs f"
  by (auto simp: layout_ok_def)

lemma distinct_columns:
  "distinct (a @ x # a' @ b @ y # b' @ d @ z # d') \<Longrightarrow>
     {x, y, z} \<inter> (set a \<union> set b \<union> set d) = {} \<and> distinct [x, y, z]"
  by auto

lemma layout_fresh:
  assumes "layout_ok token (pre @ (c, t) # post) f"
  shows "c \<notin> paths_of token pre" "t \<notin> paths_of token pre" "backup_path token t \<notin> paths_of token pre"
    "distinct [c, t, backup_path token t]" "f c \<noteq> None" "f c \<noteq> Some Symlink" "f t \<noteq> Some Symlink" "f (backup_path token t) \<noteq> Some Symlink"
proof -
  let ?b = "\<lambda>ct. backup_path token (snd ct)"
  have "distinct (map fst pre @ c # map fst post @ map snd pre @ t # map snd post @ map ?b pre @ ?b (c, t) # map ?b post)"
    using assms by (simp add: layout_ok_def)
  from distinct_columns [OF this]
  have d: "{c, t, backup_path token t} \<inter> (fst ` set pre \<union> snd ` set pre \<union> ?b ` set pre) = {}"
    "distinct [c, t, backup_path token t]" by simp_all
  show "distinct [c, t, backup_path token t]" by (rule d(2))
  have "paths_of token pre = fst ` set pre \<union> snd ` set pre \<union> ?b ` set pre" by (auto simp: paths_of_def)
  with d(1) have "{c, t, backup_path token t} \<inter> paths_of token pre = {}" by (simp only:)
  then show "c \<notin> paths_of token pre" "t \<notin> paths_of token pre" "backup_path token t \<notin> paths_of token pre"
    by simp_all
  have "(c, t) \<in> set (pre @ (c, t) # post)" by simp
  with assms have "f (fst (c, t)) \<noteq> None \<and> (\<forall>p\<in>{fst (c, t), snd (c, t), backup_path token (snd (c, t))}. f p \<noteq> Some Symlink)"
    unfolding layout_ok_def by blast
  then show "f c \<noteq> None" "f c \<noteq> Some Symlink" "f t \<noteq> Some Symlink" "f (backup_path token t) \<noteq> Some Symlink"
    by simp_all
qed

lemma installed_extend:
  assumes "installed token f pre s" and "layout_ok token (pre @ (c, t) # post) f" and b: "b = backup_path token t"
    and "pm_files s' = (pm_files s)(c := None, t := pm_files s c, b := pm_files s t)"
    and "pm_backups s' = pm_backups s @ (if pm_files s t = None then [] else [(t, b)])"
    and "pm_installed s' = pm_installed s @ [t]"
  shows "installed token f (pre @ [(c, t)]) s'"
proof -
  note fresh = layout_fresh [OF assms(2), folded b]
  have now: "pm_files s c = f c" "pm_files s t = f t" using assms(1) fresh by (auto simp: installed_def)
  have old: "pm_files s' q = pm_files s q" if "q \<in> paths_of token pre" for q
    using that fresh by (auto simp: assms(4))
  have "pm_files s' (snd ct) = f (fst ct) \<and> pm_files s' (fst ct) = None \<and> pm_files s' (backup_path token (snd ct)) = f (snd ct)"
    if "ct \<in> set pre" for ct
  proof -
    from that have "fst ct \<in> paths_of token pre" "snd ct \<in> paths_of token pre" "backup_path token (snd ct) \<in> paths_of token pre"
      by (auto simp: paths_of_def)
    from this [THEN old] that assms(1) show ?thesis by (simp add: installed_def)
  qed
  moreover have "pm_files s' t = f c \<and> pm_files s' c = None \<and> pm_files s' b = f t"
    using fresh(4) now by (simp add: assms(4))
  moreover have "pm_files s' q = f q" if "q \<notin> paths_of token (pre @ [(c, t)])" for q
    using that assms(1) by (auto simp: assms(4) installed_def paths_of_def b)
  ultimately show ?thesis
    using assms(1,5,6) now by (auto simp: installed_def backups_of_def b)
qed

text \<open>Where an interrupted run stands: some directories are in place and one is paused.\<close>

definition interrupted :: "string \<Rightarrow> files \<Rightarrow> (path \<times> path) list \<Rightarrow> promotion \<Rightarrow> bool" where
  "interrupted token f cts s \<longleftrightarrow> (\<exists>pre c t post u. cts = pre @ (c, t) # post \<and> installed token f pre u
     \<and> paused t (backup_path token t) u s)"

lemma install_all_cases:
  assumes "installed token f pre s" and "layout_ok token (pre @ cts) f" and "install_all E token cts s = (r, s')"
  shows "(r = None \<and> installed token f (pre @ cts) s') \<or> (faulted E r s' \<and> interrupted token f (pre @ cts) s')"
  using assms
proof (induction cts arbitrary: pre s)
  case Nil
  then show ?case by (simp add: done_action_def)
next
  case (Cons ct cts)
  obtain c t where ct: "ct = (c, t)" by (cases ct)
  obtain r1 s1 where 1: "install_one E token (c, t) s = (r1, s1)" by (cases "install_one E token (c, t) s")
  note lay = Cons.prems(2) [unfolded ct] and fresh = layout_fresh [OF Cons.prems(2) [unfolded ct]]
  have now: "pm_files s c \<noteq> None" "pm_files s t \<noteq> Some Symlink" "pm_files s (backup_path token t) \<noteq> Some Symlink"
    using Cons.prems(1) fresh by (auto simp: installed_def)
  from install_one_cases [OF 1 refl fresh(4) now] show ?case
  proof (elim disjE conjE)
    assume ok: "r1 = None" "pm_files s1 = (pm_files s)(c := None, t := pm_files s c, backup_path token t := pm_files s t)"
      "pm_backups s1 = pm_backups s @ (if pm_files s t = None then [] else [(t, backup_path token t)])"
      "pm_installed s1 = pm_installed s @ [t]"
    from installed_extend [OF Cons.prems(1) lay refl ok(2-4)] have "installed token f (pre @ [(c, t)]) s1" .
    with Cons.IH [of "pre @ [(c, t)]" s1] Cons.prems(2,3) 1 ok(1) show ?thesis by (simp add: ct seq_def)
  next
    assume bad: "faulted E r1 s1" "paused t (backup_path token t) s s1"
    then have "(r, s') = (r1, s1)" using Cons.prems(3) 1 by (simp add: ct seq_def faulted_def)
    then show ?thesis using bad Cons.prems(1) by (auto simp: interrupted_def ct)
  qed
qed

section \<open>Rolling back\<close>

lemma backups_distinct:
  assumes "layout_ok token cts f"
  shows "distinct (map fst (rev (backups_of token f cts)) @ map snd (rev (backups_of token f cts)))"
proof -
  let ?ts = "map snd (filter (\<lambda>ct. f (snd ct) \<noteq> None) cts)"
  have "distinct (map snd cts)" "distinct (map (\<lambda>ct. backup_path token (snd ct)) cts)"
    "set (map snd cts) \<inter> set (map (\<lambda>ct. backup_path token (snd ct)) cts) = {}"
    using assms by (auto simp: layout_ok_def)
  then show ?thesis
    by (auto simp: backups_of_def rev_map [symmetric] comp_def distinct_map_filter)
qed

lemma layout_apart:
  assumes "layout_ok token cts f" and "ct \<in> set cts" and "ct' \<in> set cts"
  shows "fst ct' \<noteq> snd ct" "backup_path token (snd ct') \<noteq> snd ct"
proof -
  have "set (map fst cts) \<inter> set (map snd cts) = {}"
    "set (map snd cts) \<inter> set (map (\<lambda>ct. backup_path token (snd ct)) cts) = {}"
    using assms(1) by (auto simp: layout_ok_def)
  with assms(2,3) show "fst ct' \<noteq> snd ct" "backup_path token (snd ct') \<noteq> snd ct"
    unfolding set_map by (metis disjoint_iff imageI)+
qed

lemma rolled_back:
  assumes lay: "layout_ok token cts f" and "interrupted token f cts s" and calm: "calm E (pm_calls s)"
  shows "\<exists>u. roll_back E s = (None, u) \<and> (\<forall>ct\<in>set cts. pm_files u (snd ct) = f (snd ct))"
proof -
  obtain pre c t post w where cts: "cts = pre @ (c, t) # post" and inst: "installed token f pre w"
    and pause: "paused t (backup_path token t) w s" using assms(2) by (auto simp: interrupted_def)
  let ?b = "backup_path token t"
  have lay': "layout_ok token (pre @ (c, t) # post) f" using lay cts by simp
  note fresh = layout_fresh [OF lay']
  have now: "pm_files w t = f t" using inst fresh by (simp add: installed_def)
  have keep: "pm_files s q = pm_files w q" if "q \<in> paths_of token pre" for q
    using that pause fresh by (auto simp: paused_def)
  have one: "pm_files s (snd ct) = f (fst ct)" "pm_files s (backup_path token (snd ct)) = f (snd ct)" if "ct \<in> set pre" for ct
  proof -
    from that have "snd ct \<in> paths_of token pre" "backup_path token (snd ct) \<in> paths_of token pre" by (auto simp: paths_of_def)
    from this [THEN keep] that inst show "pm_files s (snd ct) = f (fst ct)" "pm_files s (backup_path token (snd ct)) = f (snd ct)"
      by (simp_all add: installed_def)
  qed
  obtain xs where bs: "pm_backups s = backups_of token f xs" "xs = pre \<and> pm_files s t = f t
      \<or> xs = pre @ [(c, t)] \<and> f t \<noteq> None \<and> pm_files s t = None \<and> pm_files s ?b = f t"
    using pause inst now by (auto simp: paused_def installed_def backups_of_def)
  have targets: "pm_installed s = map snd pre" using pause inst by (simp add: paused_def installed_def)
  have "\<forall>p\<in>set (rev (map snd pre)). pm_files s p \<noteq> Some Symlink"
    using one(1) lay' by (auto simp: layout_ok_def)
  from remove_each_calm [OF calm this] obtain v where v: "remove_each E (rev (map snd pre)) s = (None, v)" "calm E (pm_calls v)"
    "pm_files v = (\<lambda>q. if q \<in> snd ` set pre then None else pm_files s q)" by auto
  have lay2: "layout_ok token xs f" using bs(2) layout_prefix [of token pre "(c, t) # post" f]
    layout_prefix [of token "pre @ [(c, t)]" post f] lay' by auto
  have inxs: "set pre \<subseteq> set xs" "set xs \<subseteq> set cts" using bs(2) cts by auto
  have kept: "pm_files v b = f t' \<and> f t' \<noteq> None \<and> pm_files v t' = None" if "(t', b) \<in> set (rev (backups_of token f xs))" for t' b
  proof -
    from that obtain ct where ct: "ct \<in> set xs" "t' = snd ct" "b = backup_path token (snd ct)" "f (snd ct) \<noteq> None"
      by (auto simp: backups_of_def)
    have "ct \<in> set cts" using ct(1) inxs by auto
    then have "b \<notin> snd ` set pre" using layout_apart(2) [OF lay, where ct' = ct] ct(3) inxs by auto
    moreover have "pm_files s b = f t' \<and> (t' \<in> snd ` set pre \<or> pm_files s t' = None)"
      using bs(2) ct one(2) [of ct] by auto
    ultimately show ?thesis using ct(2,4) by (auto simp: v(3))
  qed
  have ready: "\<And>t' b. (t', b) \<in> set (rev (backups_of token f xs)) \<Longrightarrow> pm_files v b \<noteq> None \<and> pm_files v t' = None"
    using kept by simp
  from restore_each_calm [OF v(2) backups_distinct [OF lay2] ready] obtain u where
    u: "restore_each E (rev (backups_of token f xs)) v = (None, u)"
      "\<forall>(t, b)\<in>set (rev (backups_of token f xs)). pm_files u t = pm_files v b"
      "\<forall>q. q \<notin> fst ` set (rev (backups_of token f xs)) \<longrightarrow> q \<notin> snd ` set (rev (backups_of token f xs)) \<longrightarrow>
        pm_files u q = pm_files v q" by blast
  have "pm_files u (snd ct) = f (snd ct)" if ct: "ct \<in> set cts" for ct
  proof (cases "snd ct \<in> fst ` set (rev (backups_of token f xs))")
    case True
    then obtain b where "(snd ct, b) \<in> set (rev (backups_of token f xs))" by auto
    with kept [OF this] u(2) show ?thesis by auto
  next
    case False
    have old: "f (snd ct') = None" if "ct' \<in> set xs" "snd ct' = snd ct" for ct'
    proof (rule ccontr)
      assume "f (snd ct') \<noteq> None"
      with that(1) have "(snd ct', backup_path token (snd ct')) \<in> set (backups_of token f xs)"
        unfolding backups_of_def set_map set_filter by blast
      then have "snd ct' \<in> fst ` set (rev (backups_of token f xs))" by force
      with False that(2) show False by simp
    qed
    have "snd ct \<notin> snd ` set (rev (backups_of token f xs))"
    proof
      assume "snd ct \<in> snd ` set (rev (backups_of token f xs))"
      then obtain ct' where "ct' \<in> set xs" "backup_path token (snd ct') = snd ct" unfolding backups_of_def by auto
      with layout_apart(2) [OF lay ct, of ct'] inxs(2) show False by auto
    qed
    with False u(3) have uv: "pm_files u (snd ct) = pm_files v (snd ct)" by blast
    show ?thesis
    proof (cases "snd ct \<in> snd ` set pre")
      case True
      then show ?thesis using old inxs(1) uv v(3) by auto
    next
      case out: False
      have "pm_files s (snd ct) = f (snd ct)"
      proof (cases "snd ct = t")
        case True
        then show ?thesis using bs(2) old [of "(c, t)"] by auto
      next
        case False
        have "(c, t) \<in> set cts" by (simp add: cts)
        then have "snd ct \<noteq> ?b" using layout_apart(2) [OF lay ct] by fastforce
        with False pause have "pm_files s (snd ct) = pm_files w (snd ct)" by (simp add: paused_def)
        moreover have "snd ct \<notin> paths_of token pre"
        proof
          assume "snd ct \<in> paths_of token pre"
          then obtain ct' where ct': "ct' \<in> set pre" "snd ct \<in> {fst ct', snd ct', backup_path token (snd ct')}"
            unfolding paths_of_def by blast
          moreover have "ct' \<in> set cts" using ct'(1) inxs by blast
          moreover have "snd ct \<noteq> snd ct'" using out ct'(1) by force
          ultimately show False using layout_apart [OF lay ct, of ct'] by simp
        qed
        ultimately show ?thesis using inst by (simp add: installed_def)
      qed
      then show ?thesis using uv v(3) out by simp
    qed
  qed
  moreover have "roll_back E s = (None, u)" using u(1) v(1) by (simp add: roll_back_def seq_def targets bs(1))
  ultimately show ?thesis by blast
qed

section \<open>The promotion as a whole\<close>

definition started :: "files \<Rightarrow> promotion" where
  "started f = \<lparr>pm_files = f, pm_calls = 0, pm_backups = [], pm_installed = []\<rparr>"

lemma promote_started:
  "promote_directories E token cts f =
     (case install_all E token cts (started f) of
        (None, s) \<Rightarrow> clean_up E s
      | (Some e, s) \<Rightarrow> (case roll_back E s of (None, s') \<Rightarrow> (Some e, s') | (Some e', s') \<Rightarrow> (Some e', s')))"
  by (simp add: promote_directories_def started_def)

lemma install_started:
  assumes "layout_ok token cts f" and "install_all E token cts (started f) = (r, s)"
  shows "(r = None \<and> installed token f cts s) \<or> (faulted E r s \<and> interrupted token f cts s)"
proof -
  have "installed token f [] (started f)" by (simp add: installed_def started_def backups_of_def)
  from install_all_cases [OF this _ assms(2)] assms(1) show ?thesis by simp
qed

text \<open>Deleting touches only the paths it is given, whatever fails.\<close>

lemma remove_each_other:
  "remove_each E ps s = (r, u) \<Longrightarrow> \<forall>p\<in>set ps. pm_files s p \<noteq> Some Symlink \<Longrightarrow> q \<notin> set ps \<Longrightarrow> pm_files u q = pm_files s q"
proof (induction ps arbitrary: s)
  case (Cons p ps)
  obtain r1 s1 where 1: "remove_if_exists E p s = (r1, s1)" by (cases "remove_if_exists E p s")
  have f1: "\<And>q. q \<noteq> p \<Longrightarrow> pm_files s1 q = pm_files s q" "r1 = None \<Longrightarrow> pm_files s1 p = None"
    using remove_cases [OF 1] Cons.prems(2) by (auto simp: faulted_def)
  show ?case
  proof (cases r1)
    case None
    have "\<forall>p'\<in>set ps. pm_files s1 p' \<noteq> Some Symlink" using f1 None Cons.prems(2) by (metis list.set_intros(2) option.distinct(1))
    moreover have "remove_each E ps s1 = (r, u)" using Cons.prems(1) 1 None by (simp add: seq_def)
    ultimately show ?thesis using Cons.IH [of s1] Cons.prems(3) f1(1) by simp
  qed (use Cons.prems 1 f1(1) in \<open>auto simp: seq_def\<close>)
qed (simp add: done_action_def)

lemma installed_backup:
  assumes "installed token f cts s" and "layout_ok token cts f" and "p \<in> set (map snd (pm_backups s))"
  shows "\<exists>ct\<in>set cts. p = backup_path token (snd ct) \<and> pm_files s p = f (snd ct) \<and> f (snd ct) \<noteq> Some Symlink"
  using assms by (fastforce simp: installed_def backups_of_def layout_ok_def)

text \<open>(C11) When at most one system call fails, the promotion of the built directories
  is all or nothing: afterwards every target holds its candidate, or the call raised and every target is as it
  was, a failing last installation and a failing clean-up included.\<close>

theorem promotion_all_or_nothing:
  assumes "layout_ok token cts f" and "\<And>i j. fails E i \<Longrightarrow> fails E j \<Longrightarrow> i = j"
    and "promote_directories E token cts f = (r, s)"
  shows "(\<forall>ct\<in>set cts. pm_files s (snd ct) = f (fst ct)) \<or> (r \<noteq> None \<and> (\<forall>ct\<in>set cts. pm_files s (snd ct) = f (snd ct)))"
proof -
  obtain r1 s1 where 1: "install_all E token cts (started f) = (r1, s1)" by (cases "install_all E token cts (started f)")
  from install_started [OF assms(1) 1] show ?thesis
  proof (elim disjE conjE)
    assume ok: "r1 = None" and inst: "installed token f cts s1"
    have run: "remove_each E (map snd (pm_backups s1)) s1 = (r, s)"
      using assms(3) 1 ok by (simp add: promote_started clean_up_def)
    note kept = installed_backup [OF inst assms(1)]
    have "pm_files s (snd ct) = f (fst ct)" if ct: "ct \<in> set cts" for ct
    proof -
      have "snd ct \<notin> set (map snd (pm_backups s1))" using kept layout_apart(2) [OF assms(1) ct] by metis
      from remove_each_other [OF run _ this] kept have "pm_files s (snd ct) = pm_files s1 (snd ct)" by metis
      then show ?thesis using inst ct by (simp add: installed_def)
    qed
    then show ?thesis by blast
  next
    assume bad: "faulted E r1 s1" "interrupted token f cts s1"
    then obtain i where i: "r1 = Some os_error" "i < pm_calls s1" "fails E i" by (auto simp: faulted_def)
    have "calm E (pm_calls s1)" using i(2) assms(2) [OF i(3)] by (fastforce simp: calm_def)
    from rolled_back [OF assms(1) bad(2) this] show ?thesis
      using assms(3) 1 i(1) by (auto simp: promote_started)
  qed
qed

definition one_fault :: "nat \<Rightarrow> environment" where
  "one_fault k = \<lparr>fails = (\<lambda>i. i = k), leftover = (\<lambda>_ files. tl files)\<rparr>"

definition built :: "(path \<times> path) list" where
  "built = [(Path ''/'' ''.registry.candidate'', Path ''/'' ''registry''), (Path ''/.build'' ''generated'', Path ''/p'' ''generated'')]"

definition built_files :: files where
  "built_files = [Path ''/'' ''.registry.candidate'' \<mapsto> Directory [(''a'', ''new'')], Path ''/'' ''registry'' \<mapsto> Directory [(''a'', ''old'')],
     Path ''/.build'' ''generated'' \<mapsto> Directory [(''g'', ''new'')]]"

lemma built_layout: "layout_ok ''t'' built built_files"
  by (simp add: layout_ok_def built_def built_files_def backup_path_def)

lemma promotion_all_or_nothing_witness:
  "layout_ok ''t'' built built_files \<and> fst (promote_directories (one_fault 4) ''t'' built built_files) = Some os_error \<and>
   (let s = snd (promote_directories (one_fault 4) ''t'' built built_files) in
     (\<forall>ct\<in>set built. pm_files s (snd ct) = built_files (fst ct))
     \<or> (fst (promote_directories (one_fault 4) ''t'' built built_files) \<noteq> None
        \<and> (\<forall>ct\<in>set built. pm_files s (snd ct) = built_files (snd ct))))"
proof -
  have "fails (one_fault 4) i \<Longrightarrow> fails (one_fault 4) j \<Longrightarrow> i = j" for i j by (simp add: one_fault_def)
  note run = promotion_all_or_nothing [OF built_layout this prod.collapse [symmetric]]
  have "fst (promote_directories (one_fault 4) ''t'' built built_files) = Some os_error" by code_simp
  then show ?thesis using run built_layout unfolding Let_def by blast
qed

text \<open>(C12) When no system call fails, the promotion returns: every target holds its
  candidate, the candidates are gone, and no backup is left, one of an earlier run with the same token included.\<close>

theorem promotion_completes:
  assumes "layout_ok token cts f" and "\<And>i. \<not> fails E i"
  shows "\<exists>s. promote_directories E token cts f = (None, s)
    \<and> (\<forall>ct\<in>set cts. pm_files s (snd ct) = f (fst ct) \<and> pm_files s (fst ct) = None \<and> pm_files s (backup_path token (snd ct)) = None)"
proof -
  obtain r1 s1 where 1: "install_all E token cts (started f) = (r1, s1)" by (cases "install_all E token cts (started f)")
  from install_started [OF assms(1) 1] assms(2) have ok: "r1 = None" and inst: "installed token f cts s1"
    by (auto simp: faulted_def)
  note kept = installed_backup [OF inst assms(1)]
  have "calm E (pm_calls s1)" using assms(2) by (simp add: calm_def)
  moreover have "\<forall>p\<in>set (map snd (pm_backups s1)). pm_files s1 p \<noteq> Some Symlink" using kept by metis
  ultimately obtain s where
    s: "remove_each E (map snd (pm_backups s1)) s1 = (None, s)"
      "pm_files s = (\<lambda>q. if q \<in> set (map snd (pm_backups s1)) then None else pm_files s1 q)"
    using remove_each_calm [of E s1 "map snd (pm_backups s1)"] by blast
  have "promote_directories E token cts f = (None, s)" using s(1) 1 ok by (simp add: promote_started clean_up_def)
  moreover have "pm_files s (snd ct) = f (fst ct) \<and> pm_files s (fst ct) = None \<and> pm_files s (backup_path token (snd ct)) = None"
    if ct: "ct \<in> set cts" for ct
  proof -
    have "snd ct \<notin> set (map snd (pm_backups s1))" using kept layout_apart(2) [OF assms(1) ct] by metis
    moreover have "pm_files s1 (snd ct) = f (fst ct)" "pm_files s1 (fst ct) = None"
      "pm_files s1 (backup_path token (snd ct)) = f (snd ct)" using inst ct by (simp_all add: installed_def)
    moreover have "backup_path token (snd ct) \<in> set (map snd (pm_backups s1))" if "f (snd ct) \<noteq> None"
      using that inst ct by (force simp: installed_def backups_of_def)
    ultimately show ?thesis using s(2) by (cases "f (snd ct) = None") auto
  qed
  ultimately show ?thesis by blast
qed

lemma promotion_completes_witness:
  "\<exists>s. promote_directories \<lparr>fails = (\<lambda>_. False), leftover = (\<lambda>_ _. [])\<rparr> ''t'' built built_files = (None, s)
     \<and> (\<forall>ct\<in>set built. pm_files s (snd ct) = built_files (fst ct) \<and> pm_files s (fst ct) = None
          \<and> pm_files s (backup_path ''t'' (snd ct)) = None)"
  by (rule promotion_completes [OF built_layout]) simp

text \<open>A run that was killed after moving the registry aside leaves it only in
  the backup; the retry, whose token is the same for the same sources, replaces the registry by a candidate built
  from nothing and deletes that only copy.\<close>

theorem retry_deletes_the_backup:
  "\<exists>s. promote_directories \<lparr>fails = (\<lambda>_. False), leftover = (\<lambda>_ _. [])\<rparr> ''t''
       [(Path ''/'' ''.registry.candidate'', Path ''/'' ''registry'')]
       [Path ''/'' ''.registry.candidate'' \<mapsto> Directory new, Path ''/'' ''.registry.backup-t'' \<mapsto> Directory old] = (None, s)
     \<and> pm_files s = [Path ''/'' ''registry'' \<mapsto> Directory new]"
  by (auto simp: promote_directories_def install_one_def seq_def make_parent_def sys_call_def Let_def done_action_def
      is_symlink_def backup_path_def remove_if_exists_def exists_path_def remove_tree_def move_aside_def replace_path_def
      clean_up_def fun_eq_iff)

section \<open>The write loop\<close>

lemma write_all_stops:
  assumes "remaining \<noteq> []"
  shows "accept n (length remaining) = Inl e \<Longrightarrow> write_all accept n written remaining = (Some e, written)"
    and "accept n (length remaining) = Inr 0 \<Longrightarrow> write_all accept n written remaining
           = (Some (OSError ''quality artifact write made no progress''), written)"
  using assms by (simp_all add: write_all.simps)

text \<open>(C13) The write loop always returns, in one of three ways: with everything written; or with the
  exception of the system call that raised; or with its own \<open>no progress\<close> error when a call took
  nothing. In the last two cases exactly a proper prefix has been written, that call was offered
  exactly the rest, and every call before it took at least one byte.\<close>

theorem write_all_returns:
  "write_all accept n written remaining = (None, written @ remaining)
   \<or> (\<exists>k m e. k < length remaining \<and> n \<le> m \<and> m \<le> n + k
        \<and> write_all accept n written remaining = (Some e, written @ take k remaining)
        \<and> (accept m (length remaining - k) = Inl e
           \<or> accept m (length remaining - k) = Inr 0
             \<and> e = OSError ''quality artifact write made no progress''))"
proof (induction accept n written remaining rule: write_all.induct)
  case (1 accept n written remaining)
  show ?case
  proof (cases "remaining = []")
    case False
    show ?thesis
    proof (cases "accept n (length remaining)")
      case (Inl e)
      with write_all_stops(1) [OF False, of accept n e] show ?thesis
        using False by (intro disjI2 exI [of _ 0] exI [of _ n] exI [of _ e]) simp
    next
      case (Inr count)
      let ?k = "min count (length remaining)"
      show ?thesis
      proof (cases "?k = 0")
        case True
        with False Inr have "accept n (length remaining) = Inr 0" by (simp add: min_def split: if_splits)
        with write_all_stops(2) [OF False, of accept n] show ?thesis
          using False by (intro disjI2 exI [of _ 0] exI [of _ n] exI) auto
      next
        case more: False
        let ?run = "write_all accept (n + 1) (written @ take ?k remaining) (drop ?k remaining)"
        have step: "write_all accept n written remaining = ?run"
          using False Inr more by (simp only: write_all.simps [of accept n written remaining] Let_def if_False sum.case)
        from 1 [OF False Inr refl more] show ?thesis
        proof (elim disjE [where P = "_ = (None, _)"] exE conjE)
          assume "?run = (None, (written @ take ?k remaining) @ drop ?k remaining)"
          then show ?thesis unfolding step by simp
        next
          fix k m e
          assume "k < length (drop ?k remaining)" "n + 1 \<le> m" "m \<le> n + 1 + k"
            "?run = (Some e, (written @ take ?k remaining) @ take k (drop ?k remaining))"
            "accept m (length (drop ?k remaining) - k) = Inl e
             \<or> accept m (length (drop ?k remaining) - k) = Inr 0
               \<and> e = OSError ''quality artifact write made no progress''"
          with more show ?thesis unfolding step
            by (intro disjI2 exI [of _ "?k + k"] exI [of _ m] exI [of _ e]) (simp add: take_add)
        qed
      qed
    qed
  qed (simp add: write_all.simps)
qed

end
