(* ===== verification/Llm_Service.thy ===== *)
theory Llm_Service
  imports Semantic_Models
begin

text \<open>
  The calls to a language model (\<open>llm/contracts.py\<close>, \<open>llm/service.py\<close>): what a result and an error carry,
  and the two loops that retry transient failures and ask for a repair of an invalid answer. The provider is
  arbitrary: what it answers may depend on everything it was asked before. The lemmas show that a request makes at
  most three calls, what it returns, how the attempts are accounted for, and when it succeeds.
\<close>

section \<open>Contracts\<close>

text \<open>\<open>[A-Z][A-Z0-9_]{0,127}\<close>\<close>

definition ERROR_CODE :: "string \<Rightarrow> bool" where
  "ERROR_CODE s \<longleftrightarrow> code_pattern s"

datatype provider_name = Openai_compatible | Azure_openai | Vertex_gemini | Vertex_claude

record llm_metadata =
  md_profile :: string
  md_provider :: provider_name
  md_model :: string
  md_request_id :: "string option"
  md_input_tokens :: "int option"
  md_output_tokens :: "int option"
  md_finish_reason :: "string option"
  md_elapsed_ms :: int
  md_retry_count :: int
  md_repair_count :: int

definition is_alnum :: "char \<Rightarrow> bool" where
  "is_alnum c \<longleftrightarrow> is_upper c \<or> is_lower c \<or> is_digit c"

definition metadata_fields_ok :: "llm_metadata \<Rightarrow> bool" where
  "metadata_fields_ok m \<longleftrightarrow> ProductKey (md_profile m) \<and> md_model m \<noteq> [] \<and> length (md_model m) \<le> 200
     \<and> opt_ok (\<lambda>r. r \<noteq> [] \<and> length r \<le> 128 \<and> list_all (\<lambda>c. is_alnum c \<or> c \<in> set ''._:-'') r) (md_request_id m)
     \<and> opt_ok (\<lambda>n. 0 \<le> n) (md_input_tokens m) \<and> opt_ok (\<lambda>n. 0 \<le> n) (md_output_tokens m)
     \<and> opt_ok (\<lambda>r. r \<noteq> [] \<and> length r \<le> 64 \<and> list_all (\<lambda>c. is_lower c \<or> is_digit c \<or> c \<in> set ''_:-'') r) (md_finish_reason m)
     \<and> 0 \<le> md_elapsed_ms m \<and> 0 \<le> md_retry_count m \<and> md_retry_count m \<le> 2
     \<and> 0 \<le> md_repair_count m \<and> md_repair_count m \<le> 2"

definition LLMMetadata :: "llm_metadata \<Rightarrow> llm_metadata result" where
  "LLMMetadata m =
     (if \<not> metadata_fields_ok m then Inl field_error
      else
        let normalized = strip (md_model m)
        in bind_ok (reject_if (normalized = [] \<or> (\<exists>c\<in>set normalized. of_char c \<in> {0, 10, 13 :: nat})) ''invalid model'')
             (\<lambda>_. Inr (m\<lparr>md_model := normalized\<rparr>)))"

record llm_result =
  lr_text :: string
  lr_structured :: "(string \<times> json) list option"
  lr_metadata :: llm_metadata
  lr_repair_validation_codes :: "string list"

definition LLMResult :: "llm_result \<Rightarrow> llm_result result" where
  "LLMResult r =
     (if length (lr_repair_validation_codes r) > 2 then Inl field_error
      else bind_ok (reject_if (\<exists>c\<in>set (lr_repair_validation_codes r). \<not> ERROR_CODE c) ''invalid repair validation codes'')
             (\<lambda>_. Inr r))"

text \<open>A \<open>ProviderExecutionError\<close>; the rejected result is kept when it is an \<open>LLMResult\<close>.\<close>

record provider_failure =
  pe_code :: string
  pe_kind :: failure_kind
  pe_rejected_result :: "llm_result option"
  pe_retry_count :: nat
  pe_repair_count :: nat

datatype llm_error = Provider_error provider_failure | Other_error exn

type_synonym 'a reply = "llm_error + 'a"

text \<open>Its constructor, which raises a \<open>ValueError\<close> of its own on a malformed argument.\<close>

definition make_failure :: "string \<Rightarrow> failure_kind \<Rightarrow> llm_result option \<Rightarrow> nat \<Rightarrow> nat \<Rightarrow> llm_error" where
  "make_failure code kind rejected retries repairs =
     (if \<not> ERROR_CODE code then Other_error (ValueError ''INVALID_PROVIDER_ERROR_CODE'')
      else if retries > 2 \<or> repairs > 2 then Other_error (ValueError ''INVALID_PROVIDER_ATTEMPT_COUNT'')
      else Provider_error \<lparr>pe_code = code, pe_kind = kind, pe_rejected_result = rejected,
             pe_retry_count = retries, pe_repair_count = repairs\<rparr>)"

datatype message_part = LLMTextPart string | LLMImagePart string string
datatype message_role = System | User | Assistant

record multimodal_message =
  mm_role :: message_role
  mm_content :: "message_part list"

fun is_image :: "message_part \<Rightarrow> bool" where
  "is_image (LLMImagePart _ _) = True"
| "is_image (LLMTextPart _) = False"

fun message_part_ok :: "message_part \<Rightarrow> bool" where
  "message_part_ok (LLMTextPart text) = (text \<noteq> [] \<and> length text \<le> 200000)"
| "message_part_ok (LLMImagePart mime data) =
     (mime \<in> {''image/png'', ''image/jpeg''} \<and> data \<noteq> [] \<and> length data \<le> 8 * 1024 * 1024)"

definition LLMMultimodalMessage :: "multimodal_message \<Rightarrow> multimodal_message result" where
  "LLMMultimodalMessage m =
     (if mm_content m = [] \<or> length (mm_content m) > 8 \<or> \<not> list_all message_part_ok (mm_content m) then Inl field_error
      else
        let images = filter is_image (mm_content m)
        in bind_ok (reject_if (length images > 1) ''LLM_MULTIMODAL_IMAGE_LIMIT_EXCEEDED'') (\<lambda>_.
           bind_ok (reject_if (images \<noteq> [] \<and> mm_role m \<noteq> User) ''LLM_MULTIMODAL_IMAGE_ROLE_INVALID'') (\<lambda>_. Inr m)))"

section \<open>Checking an answer\<close>

text \<open>The JSON reader and the schema validator of the libraries.\<close>

datatype schema_verdict = Conforms | Violation | Broken_schema exn

record checker =
  ck_loads :: "string \<Rightarrow> json option"
  ck_validate :: "json \<Rightarrow> json \<Rightarrow> schema_verdict"

definition MAX_TOTAL_ATTEMPTS :: nat where "MAX_TOTAL_ATTEMPTS = 3"
definition MAX_REPAIRS :: nat where "MAX_REPAIRS = 2"
definition MAX_BACKOFF_SECONDS :: rat where "MAX_BACKOFF_SECONDS = 8"

definition output_error :: "string \<Rightarrow> llm_error" where
  "output_error code = make_failure code OUTPUT_FAILURE None 0 0"

definition strip_json_fence :: "string \<Rightarrow> string" where
  "strip_json_fence content =
     (let stripped = strip content; opening = ''```json'' @ [CHR 0x0A]; closing = [CHR 0x0A] @ ''```''
      in if starts_with opening stripped \<and> ends_with closing stripped
         then strip (take (length stripped - 4 - 8) (drop 8 stripped)) else stripped)"

definition validate_result :: "checker \<Rightarrow> json \<Rightarrow> llm_result \<Rightarrow> (string \<times> json) list reply" where
  "validate_result K schema r =
     bind_ok (case lr_structured r of
          Some d \<Rightarrow> Inr (JObj d)
        | None \<Rightarrow> (case ck_loads K (strip_json_fence (lr_text r)) of
             None \<Rightarrow> Inl (output_error ''LLM_INVALID_JSON'') | Some j \<Rightarrow> Inr j)) (\<lambda>candidate.
     case candidate of
       JObj d \<Rightarrow> (case ck_validate K schema candidate of
           Conforms \<Rightarrow> Inr d
         | Violation \<Rightarrow> Inl (output_error ''LLM_SCHEMA_VIOLATION'')
         | Broken_schema e \<Rightarrow> Inl (Other_error e))
     | _ \<Rightarrow> Inl (output_error ''LLM_RESPONSE_NOT_OBJECT''))"

section \<open>The messages of a repair\<close>

definition repair_instruction :: "json \<Rightarrow> string \<Rightarrow> json" where
  "repair_instruction schema code =
     JObj [(''validation_code'', JStr code), (''required_schema'', schema),
       (''rules'', JArr [JStr ''Return only one JSON object.'',
          JStr ''Correct only content that violates the schema or validation code.'',
          JStr ''Do not add unsupported facts.''])]"

record text_message =
  tm_role :: string
  tm_content :: string

definition repair_messages :: "text_message list \<Rightarrow> json \<Rightarrow> string \<Rightarrow> text_message list result" where
  "repair_messages original schema code =
     Inr (\<lparr>tm_role = ''system'', tm_content = dumps (sort_keys (repair_instruction schema code))\<rparr> # original)"

definition repair_multimodal_messages ::
  "multimodal_message list \<Rightarrow> json \<Rightarrow> string \<Rightarrow> multimodal_message list result" where
  "repair_multimodal_messages original schema code =
     bind_ok (LLMMultimodalMessage
       \<lparr>mm_role = System, mm_content = [LLMTextPart (dumps (sort_keys (repair_instruction schema code)))]\<rparr>)
       (\<lambda>m. Inr (m # original))"

fun as_python :: "json \<Rightarrow> py_value" where
  "as_python JNull = PNone"
| "as_python (JBool b) = PBool b"
| "as_python (JInt i) = PInt i"
| "as_python (JFloat r) = PFloat r"
| "as_python (JStr s) = PStr s"
| "as_python (JArr xs) = PSeq (map as_python xs)"
| "as_python (JObj d) = PDict (map (\<lambda>(k, v). (k, as_python v)) d)"

definition structured_repair_prompt_contract_hash :: "library \<Rightarrow> json \<Rightarrow> string result" where
  "structured_repair_prompt_contract_hash L schema =
     canonical_hash L (PDict [(''version'', PStr ''structured-output-repair-v1''),
       (''instruction'', as_python (repair_instruction schema ''{VALIDATION_CODE}''))])"

section \<open>The service\<close>

text \<open>What a request has done so far: the messages of each call, the delays it slept, the counts, the codes of the
  rejected answers and the messages of the next call.\<close>

record 'm service =
  sv_calls :: "'m list list"
  sv_sleeps :: "rat list"
  sv_retries :: nat
  sv_repairs :: nat
  sv_repair_codes :: "string list"
  sv_active :: "'m list"

text \<open>The environment of a request: the provider's answer to the n-th call, and the jitter of the n-th delay.\<close>

record 'm service_env =
  se_generate :: "nat \<Rightarrow> 'm list \<Rightarrow> llm_result reply"
  se_jitter :: "nat \<Rightarrow> rat"

definition sleep_before_retry :: "'m service_env \<Rightarrow> nat \<Rightarrow> 'm service \<Rightarrow> 'm service" where
  "sleep_before_retry E retry_number s =
     (let delay = min MAX_BACKOFF_SECONDS (2 ^ retry_number + max 0 (se_jitter E (length (sv_sleeps s))))
      in s\<lparr>sv_sleeps := sv_sleeps s @ [delay]\<rparr>)"

definition with_attempt_counts :: "provider_failure \<Rightarrow> nat \<Rightarrow> nat \<Rightarrow> llm_error" where
  "with_attempt_counts e retries repairs =
     make_failure (pe_code e) (pe_kind e) (pe_rejected_result e) retries repairs"

definition with_counts :: "llm_result \<Rightarrow> nat \<Rightarrow> nat \<Rightarrow> string list \<Rightarrow> llm_result" where
  "with_counts r retries repairs codes =
     r\<lparr>lr_metadata := (lr_metadata r)\<lparr>md_retry_count := int (min retries 2), md_repair_count := int repairs\<rparr>,
       lr_repair_validation_codes := codes\<rparr>"

text \<open>One pass of a loop over the attempts: a value that ends it, or another attempt.\<close>

fun attempts :: "(nat \<Rightarrow> 's \<Rightarrow> 'r option \<times> 's) \<Rightarrow> 'r \<Rightarrow> nat list \<Rightarrow> 's \<Rightarrow> 'r \<times> 's" where
  "attempts body after [] s = (after, s)"
| "attempts body after (attempt # rest) s =
     (case body attempt s of (Some r, s') \<Rightarrow> (r, s') | (None, s') \<Rightarrow> attempts body after rest s')"

definition unreachable :: "'a reply" where
  "unreachable = Inl (Other_error (AssertionError ''unreachable''))"

definition call_provider :: "'m service_env \<Rightarrow> 'm service \<Rightarrow> llm_result reply \<times> 'm service" where
  "call_provider E s =
     (se_generate E (length (sv_calls s)) (sv_active s), s\<lparr>sv_calls := sv_calls s @ [sv_active s]\<rparr>)"

type_synonym 'm repair = "'m list \<Rightarrow> json \<Rightarrow> string \<Rightarrow> 'm list result"

definition ask_repair ::
  "'m repair \<Rightarrow> json \<Rightarrow> 'm list \<Rightarrow> string \<Rightarrow> 'm service \<Rightarrow> llm_result reply option \<times> 'm service" where
  "ask_repair repair schema messages code s =
     (let s' = s\<lparr>sv_repairs := sv_repairs s + 1, sv_repair_codes := sv_repair_codes s @ [code]\<rparr>
      in case repair messages schema code of
           Inl e \<Rightarrow> (Some (Inl (Other_error e)), s')
         | Inr active \<Rightarrow> (None, s'\<lparr>sv_active := active\<rparr>))"

definition structured_attempt ::
  "checker \<Rightarrow> 'm service_env \<Rightarrow> 'm repair \<Rightarrow> json \<Rightarrow> 'm list
    \<Rightarrow> nat \<Rightarrow> 'm service \<Rightarrow> llm_result reply option \<times> 'm service" where
  "structured_attempt K E repair schema messages attempt s0 =
     (case call_provider E s0 of
        (Inl (Other_error e), s) \<Rightarrow> (Some (Inl (Other_error e)), s)
      | (Inl (Provider_error error), s) \<Rightarrow>
          if pe_kind error = TRANSIENT_FAILURE \<and> attempt < MAX_TOTAL_ATTEMPTS - 1
          then (None, (sleep_before_retry E (sv_retries s) s)\<lparr>sv_retries := sv_retries s + 1\<rparr>)
          else if pe_kind error \<noteq> OUTPUT_FAILURE \<or> pe_rejected_result error = None \<or> sv_repairs s \<ge> MAX_REPAIRS
                  \<or> attempt = MAX_TOTAL_ATTEMPTS - 1
          then (Some (Inl (with_attempt_counts error (sv_retries s) (sv_repairs s))), s)
          else ask_repair repair schema messages (pe_code error) s
      | (Inr r, s) \<Rightarrow>
          (case validate_result K schema r of
             Inl (Other_error e) \<Rightarrow> (Some (Inl (Other_error e)), s)
           | Inl (Provider_error error) \<Rightarrow>
               if pe_kind error \<noteq> OUTPUT_FAILURE \<or> sv_repairs s \<ge> MAX_REPAIRS \<or> attempt = MAX_TOTAL_ATTEMPTS - 1
               then (Some (Inl (with_attempt_counts error (sv_retries s) (sv_repairs s))), s)
               else ask_repair repair schema messages (pe_code error) s
           | Inr structured \<Rightarrow>
               (Some (Inr (with_counts (r\<lparr>lr_structured := Some structured\<rparr>) (sv_retries s) (sv_repairs s)
                  (sv_repair_codes s))), s)))"

definition fresh_service :: "'m list \<Rightarrow> 'm service" where
  "fresh_service messages =
     \<lparr>sv_calls = [], sv_sleeps = [], sv_retries = 0, sv_repairs = 0, sv_repair_codes = [], sv_active = messages\<rparr>"

definition run_structured ::
  "checker \<Rightarrow> 'm service_env \<Rightarrow> 'm repair \<Rightarrow> json \<Rightarrow> 'm list \<Rightarrow> llm_result reply \<times> 'm service" where
  "run_structured K E repair schema messages =
     attempts (structured_attempt K E repair schema messages) unreachable [0..<MAX_TOTAL_ATTEMPTS] (fresh_service messages)"

definition generate_structured ::
  "checker \<Rightarrow> text_message service_env \<Rightarrow> json \<Rightarrow> text_message list \<Rightarrow> llm_result reply \<times> text_message service" where
  "generate_structured K E schema messages = run_structured K E repair_messages schema messages"

definition generate_multimodal_structured ::
  "checker \<Rightarrow> multimodal_message service_env \<Rightarrow> json \<Rightarrow> multimodal_message list
    \<Rightarrow> llm_result reply \<times> multimodal_message service" where
  "generate_multimodal_structured K E schema messages = run_structured K E repair_multimodal_messages schema messages"

text \<open>The plain loop, which retries transient failures only.\<close>

definition retry_attempt :: "'m service_env \<Rightarrow> nat \<Rightarrow> 'm service \<Rightarrow> (llm_result \<times> nat) reply option \<times> 'm service" where
  "retry_attempt E attempt s0 =
     (case call_provider E s0 of
        (Inr r, s) \<Rightarrow> (Some (Inr (r, attempt)), s)
      | (Inl (Other_error e), s) \<Rightarrow> (Some (Inl (Other_error e)), s)
      | (Inl (Provider_error error), s) \<Rightarrow>
          if pe_kind error \<noteq> TRANSIENT_FAILURE \<or> attempt = MAX_TOTAL_ATTEMPTS - 1
          then (Some (Inl (Provider_error error)), s)
          else (None, sleep_before_retry E attempt s))"

definition retry :: "'m service_env \<Rightarrow> 'm list \<Rightarrow> (llm_result \<times> nat) reply \<times> 'm service" where
  "retry E messages = attempts (retry_attempt E) unreachable [0..<MAX_TOTAL_ATTEMPTS] (fresh_service messages)"

definition generate_text :: "text_message service_env \<Rightarrow> text_message list \<Rightarrow> llm_result reply \<times> text_message service" where
  "generate_text E messages =
     (case retry E messages of
        (Inl e, s) \<Rightarrow> (Inl e, s)
      | (Inr (r, retries), s) \<Rightarrow> (Inr (with_counts r retries 0 []), s))"

section \<open>The contract of a bounded loop\<close>

text \<open>An invariant indexed by the attempt, which no pass lets run past the last attempt.\<close>

locale bounded_loop =
  fixes body :: "nat \<Rightarrow> 's \<Rightarrow> 'r option \<times> 's" and inv :: "nat \<Rightarrow> 's \<Rightarrow> bool" and post :: "'r \<Rightarrow> 's \<Rightarrow> bool"
  assumes another: "inv a s \<Longrightarrow> a < MAX_TOTAL_ATTEMPTS \<Longrightarrow> body a s = (None, s') \<Longrightarrow> Suc a < MAX_TOTAL_ATTEMPTS \<and> inv (Suc a) s'"
    and finish: "inv a s \<Longrightarrow> a < MAX_TOTAL_ATTEMPTS \<Longrightarrow> body a s = (Some r, s') \<Longrightarrow> post r s'"
begin

lemma ends_from:
  "inv a s \<Longrightarrow> a < MAX_TOTAL_ATTEMPTS \<Longrightarrow> attempts body after [a..<MAX_TOTAL_ATTEMPTS] s = (r, s') \<Longrightarrow> post r s'"
proof (induction "MAX_TOTAL_ATTEMPTS - a" arbitrary: a s)
  case (Suc k)
  obtain v t where v: "body a s = (v, t)" by (cases "body a s")
  show ?case
  proof (cases v)
    case None
    with another [OF Suc.prems(1,2)] v have more: "Suc a < MAX_TOTAL_ATTEMPTS" "inv (Suc a) t" by auto
    have "attempts body after [Suc a..<MAX_TOTAL_ATTEMPTS] t = (r, s')"
      using Suc.prems(2,3) v None by (simp add: upt_conv_Cons)
    with Suc.hyps(1) [of "Suc a" t] Suc.hyps(2) more show ?thesis by simp
  next
    case (Some r0)
    then show ?thesis using finish [OF Suc.prems(1,2)] v Suc.prems(2,3) by (simp add: upt_conv_Cons)
  qed
qed simp

lemma ends: "inv 0 s \<Longrightarrow> attempts body after [0..<MAX_TOTAL_ATTEMPTS] s = (r, s') \<Longrightarrow> post r s'"
  by (rule ends_from) (simp_all add: MAX_TOTAL_ATTEMPTS_def)

end

text \<open>Every delay is at least one second and at most eight.\<close>

definition delays_ok :: "'m service \<Rightarrow> bool" where
  "delays_ok s \<longleftrightarrow> (\<forall>d\<in>set (sv_sleeps s). 1 \<le> d \<and> d \<le> MAX_BACKOFF_SECONDS)"

lemma sleep_sel [simp]:
  "sv_calls (sleep_before_retry E n s) = sv_calls s" "sv_retries (sleep_before_retry E n s) = sv_retries s"
  "sv_repairs (sleep_before_retry E n s) = sv_repairs s" "sv_repair_codes (sleep_before_retry E n s) = sv_repair_codes s"
  "sv_active (sleep_before_retry E n s) = sv_active s"
  "length (sv_sleeps (sleep_before_retry E n s)) = Suc (length (sv_sleeps s))"
  by (simp_all add: sleep_before_retry_def Let_def)

lemma sleep_delays: "delays_ok s \<Longrightarrow> delays_ok (sleep_before_retry E n s)"
proof -
  have "(1 :: rat) \<le> 2 ^ n" by simp
  then have "(1 :: rat) \<le> 2 ^ n + max 0 (se_jitter E (length (sv_sleeps s)))" by (rule add_increasing2 [rotated]) simp
  then show "delays_ok s \<Longrightarrow> ?thesis"
    by (simp add: delays_ok_def sleep_before_retry_def Let_def MAX_BACKOFF_SECONDS_def)
qed

lemma make_failure_cases:
  "make_failure code kind rejected i j = Provider_error e \<Longrightarrow> pe_code e = code \<and> pe_kind e = kind \<and> pe_retry_count e = i \<and> pe_repair_count e = j"
  by (auto simp: make_failure_def split: if_splits)

lemma validate_result_failure:
  "validate_result K schema r = Inl (Provider_error e) \<Longrightarrow> pe_kind e = OUTPUT_FAILURE \<and> ERROR_CODE (pe_code e)"
  by (auto simp: validate_result_def bind_ok_Inl_iff output_error_def make_failure_def
      split: option.splits json.splits schema_verdict.splits if_splits)

lemma validate_result_conforms: "validate_result K schema r = Inr d \<Longrightarrow> ck_validate K schema (JObj d) = Conforms"
proof -
  assume "validate_result K schema r = Inr d"
  then obtain x where "(case x of JObj d \<Rightarrow> (case ck_validate K schema x of Conforms \<Rightarrow> Inr d
      | Violation \<Rightarrow> Inl (output_error ''LLM_SCHEMA_VIOLATION'') | Broken_schema e \<Rightarrow> Inl (Other_error e))
    | _ \<Rightarrow> Inl (output_error ''LLM_RESPONSE_NOT_OBJECT'')) = Inr d"
    unfolding validate_result_def bind_ok_Inr_iff by blast
  then show ?thesis by (cases x) (auto split: schema_verdict.splits)
qed

text \<open>How the attempts of a structured request are accounted for.\<close>

definition asked_with :: "'m repair \<Rightarrow> json \<Rightarrow> 'm list \<Rightarrow> 'm service \<Rightarrow> 'm list \<Rightarrow> bool" where
  "asked_with repair schema messages s ms \<longleftrightarrow>
     ms = messages \<or> (\<exists>code\<in>set (sv_repair_codes s). repair messages schema code = Inr ms)"

definition accounted :: "'m repair \<Rightarrow> json \<Rightarrow> 'm list \<Rightarrow> nat \<Rightarrow> 'm service \<Rightarrow> bool" where
  "accounted repair schema messages a s \<longleftrightarrow>
     length (sv_calls s) = a \<and> sv_retries s + sv_repairs s = a \<and> length (sv_sleeps s) = sv_retries s
     \<and> length (sv_repair_codes s) = sv_repairs s \<and> delays_ok s
     \<and> (\<forall>ms\<in>set (sv_active s # sv_calls s). asked_with repair schema messages s ms)"

definition settled :: "checker \<Rightarrow> json \<Rightarrow> llm_result reply \<Rightarrow> 'm service \<Rightarrow> bool" where
  "settled K schema r s \<longleftrightarrow> sv_calls s \<noteq> [] \<and> length (sv_calls s) \<le> MAX_TOTAL_ATTEMPTS
     \<and> length (sv_sleeps s) < length (sv_calls s) \<and> delays_ok s
     \<and> (case r of
          Inr res \<Rightarrow> (\<exists>d. lr_structured res = Some d \<and> ck_validate K schema (JObj d) = Conforms)
            \<and> md_retry_count (lr_metadata res) = int (length (sv_sleeps s))
            \<and> md_retry_count (lr_metadata res) + md_repair_count (lr_metadata res) + 1 = int (length (sv_calls s))
            \<and> int (length (lr_repair_validation_codes res)) = md_repair_count (lr_metadata res)
        | Inl (Provider_error e) \<Rightarrow> pe_retry_count e = length (sv_sleeps s)
            \<and> pe_retry_count e + pe_repair_count e + 1 = length (sv_calls s)
        | Inl (Other_error e) \<Rightarrow> True)"

lemma accounted_fresh: "accounted repair schema messages 0 (fresh_service messages)"
  by (simp add: accounted_def fresh_service_def delays_ok_def asked_with_def)

text \<open>The state after the call of an attempt, and how the attempt goes on from there.\<close>

definition called :: "'m service \<Rightarrow> 'm service" where
  "called s = s\<lparr>sv_calls := sv_calls s @ [sv_active s]\<rparr>"

lemma call_provider_called: "call_provider E s = (se_generate E (length (sv_calls s)) (sv_active s), called s)"
  by (simp add: call_provider_def called_def)

lemma called_sel [simp]:
  "sv_calls (called s) = sv_calls s @ [sv_active s]" "sv_sleeps (called s) = sv_sleeps s" "sv_retries (called s) = sv_retries s"
  "sv_repairs (called s) = sv_repairs s" "sv_repair_codes (called s) = sv_repair_codes s" "sv_active (called s) = sv_active s"
  by (simp_all add: called_def)

lemma ask_repair_cases:
  "ask_repair repair schema messages code s = (v, s') \<Longrightarrow>
     sv_calls s' = sv_calls s \<and> sv_sleeps s' = sv_sleeps s \<and> sv_retries s' = sv_retries s \<and> sv_repairs s' = Suc (sv_repairs s)
     \<and> sv_repair_codes s' = sv_repair_codes s @ [code]
     \<and> (v = None \<and> repair messages schema code = Inr (sv_active s') \<or> (\<exists>e. v = Some (Inl (Other_error e)) \<and> repair messages schema code = Inl e))"
  by (auto simp: ask_repair_def Let_def split: sum.splits)

lemma accounted_retry:
  assumes "accounted repair schema messages a s" and "s' = (sleep_before_retry E n (called s))\<lparr>sv_retries := sv_retries s + 1\<rparr>"
  shows "accounted repair schema messages (Suc a) s'"
proof -
  have "delays_ok (called s)" using assms(1) by (simp add: accounted_def delays_ok_def)
  then have "delays_ok (sleep_before_retry E n (called s))" by (rule sleep_delays)
  then have "delays_ok s'" using assms(2) by (simp add: delays_ok_def)
  then show ?thesis using assms by (auto simp: accounted_def asked_with_def)
qed

lemma accounted_repair:
  assumes "accounted repair schema messages a s" and "ask_repair repair schema messages code (called s) = (None, s')"
  shows "accounted repair schema messages (Suc a) s'"
  using ask_repair_cases [OF assms(2)] assms(1) by (auto simp: accounted_def asked_with_def delays_ok_def)

lemma accounted_settled:
  assumes "accounted repair schema messages a s" and "a < MAX_TOTAL_ATTEMPTS"
    and "sv_calls s' = sv_calls (called s)" and "sv_sleeps s' = sv_sleeps s"
  shows "settled K schema (Inl (Other_error e)) s'"
    and "f = with_attempt_counts err (sv_retries s) (sv_repairs s) \<Longrightarrow> settled K schema (Inl f) s'"
    and "validate_result K schema res = Inr d \<Longrightarrow>
      settled K schema (Inr (with_counts (res\<lparr>lr_structured := Some d\<rparr>) (sv_retries s) (sv_repairs s) (sv_repair_codes s))) s'"
proof -
  have s: "length (sv_calls s') = Suc a" "sv_retries s + sv_repairs s = a" "length (sv_sleeps s') = sv_retries s" "delays_ok s'"
      "length (sv_repair_codes s) = sv_repairs s" "a \<le> 2"
    using assms by (auto simp: accounted_def delays_ok_def MAX_TOTAL_ATTEMPTS_def)
  then have start: "sv_calls s' \<noteq> []" by auto
  with s show "settled K schema (Inl (Other_error e)) s'" by (simp add: settled_def MAX_TOTAL_ATTEMPTS_def)
  show "settled K schema (Inl f) s'" if "f = with_attempt_counts err (sv_retries s) (sv_repairs s)"
  proof (cases f)
    case (Provider_error e)
    then have "pe_retry_count e = sv_retries s" "pe_repair_count e = sv_repairs s"
      using make_failure_cases that unfolding with_attempt_counts_def by metis+
    with s start Provider_error show ?thesis by (simp add: settled_def MAX_TOTAL_ATTEMPTS_def)
  qed (use s start in \<open>simp add: settled_def MAX_TOTAL_ATTEMPTS_def\<close>)
  show "settled K schema (Inr (with_counts (res\<lparr>lr_structured := Some d\<rparr>) (sv_retries s) (sv_repairs s) (sv_repair_codes s))) s'"
    if "validate_result K schema res = Inr d"
    using s start validate_result_conforms [OF that]
    by (simp add: settled_def MAX_TOTAL_ATTEMPTS_def with_counts_def)
qed

lemma reply_cases:
  fixes r :: "'a reply"
  obtains (other) e where "r = Inl (Other_error e)" | (provider) err where "r = Inl (Provider_error err)" | (ok) x where "r = Inr x"
proof (cases r)
  case (Inl f)
  with other provider show ?thesis by (cases f) simp_all
qed (use ok in simp)

text \<open>The outcomes of one attempt at a structured request.\<close>

lemma structured_attempt_cases:
  assumes "structured_attempt K E repair schema messages a s = (v, s')"
  obtains (other) e where "v = Some (Inl (Other_error e))" "s' = called s"
    | (again) n where "v = None" "a < MAX_TOTAL_ATTEMPTS - 1"
        "s' = (sleep_before_retry E n (called s))\<lparr>sv_retries := sv_retries s + 1\<rparr>"
    | (failed) err where "v = Some (Inl (with_attempt_counts err (sv_retries s) (sv_repairs s)))" "s' = called s"
    | (repaired) code where "ask_repair repair schema messages code (called s) = (v, s')" "a \<noteq> MAX_TOTAL_ATTEMPTS - 1"
    | (valid) res d where "validate_result K schema res = Inr d" "s' = called s"
        "v = Some (Inr (with_counts (res\<lparr>lr_structured := Some d\<rparr>) (sv_retries s) (sv_repairs s) (sv_repair_codes s)))"
proof -
  let ?answer = "se_generate E (length (sv_calls s)) (sv_active s)"
  consider (a) e where "?answer = Inl (Other_error e)" | (b) err where "?answer = Inl (Provider_error err)"
    | (c) res e where "?answer = Inr res" "validate_result K schema res = Inl (Other_error e)"
    | (d) res err where "?answer = Inr res" "validate_result K schema res = Inl (Provider_error err)"
    | (e) res d where "?answer = Inr res" "validate_result K schema res = Inr d"
  proof (cases ?answer rule: reply_cases)
    case (ok res)
    with that(3-5) show ?thesis by (cases "validate_result K schema res" rule: reply_cases) simp_all
  qed (use that(1,2) in simp_all)
  then show ?thesis
  proof cases
    case a
    with assms show ?thesis by (intro other [of e]) (simp_all add: structured_attempt_def call_provider_called)
  next
    case b
    show ?thesis
    proof (cases "pe_kind err = TRANSIENT_FAILURE \<and> a < MAX_TOTAL_ATTEMPTS - 1")
      case True
      with assms b show ?thesis by (intro again [of "sv_retries s"]) (simp_all add: structured_attempt_def call_provider_called)
    next
      case False
      then consider "v = Some (Inl (with_attempt_counts err (sv_retries s) (sv_repairs s)))" "s' = called s"
        | "ask_repair repair schema messages (pe_code err) (called s) = (v, s')" "a \<noteq> MAX_TOTAL_ATTEMPTS - 1"
        using assms b by (simp add: structured_attempt_def call_provider_called split: if_splits)
      then show ?thesis using failed repaired by cases
    qed
  next
    case c
    with assms show ?thesis by (intro other [of e]) (simp_all add: structured_attempt_def call_provider_called)
  next
    case d
    then consider "v = Some (Inl (with_attempt_counts err (sv_retries s) (sv_repairs s)))" "s' = called s"
        | "ask_repair repair schema messages (pe_code err) (called s) = (v, s')" "a \<noteq> MAX_TOTAL_ATTEMPTS - 1"
      using assms by (simp add: structured_attempt_def call_provider_called split: if_splits)
    then show ?thesis using failed repaired by cases
  next
    case e
    with assms show ?thesis by (intro valid [of res d]) (simp_all add: structured_attempt_def call_provider_called)
  qed
qed

interpretation structured_loop: bounded_loop "structured_attempt K E repair schema messages"
  "accounted repair schema messages" "settled K schema" for K E repair schema messages
proof
  fix a s s'
  assume inv: "accounted repair schema messages a s" and a: "a < MAX_TOTAL_ATTEMPTS"
    and step: "structured_attempt K E repair schema messages a s = (None, s')"
  from step show "Suc a < MAX_TOTAL_ATTEMPTS \<and> accounted repair schema messages (Suc a) s'"
  proof (cases rule: structured_attempt_cases)
    case (again n)
    then show ?thesis using accounted_retry [OF inv] by auto
  next
    case (repaired code)
    then show ?thesis using accounted_repair [OF inv] a by auto
  qed simp_all
next
  fix a s r s'
  assume inv: "accounted repair schema messages a s" and a: "a < MAX_TOTAL_ATTEMPTS"
    and step: "structured_attempt K E repair schema messages a s = (Some r, s')"
  note fin = accounted_settled [OF inv a]
  from step show "settled K schema r s'"
  proof (cases rule: structured_attempt_cases)
    case (repaired code)
    then obtain e where "r = Inl (Other_error e)" "sv_calls s' = sv_calls (called s)" "sv_sleeps s' = sv_sleeps s"
      using ask_repair_cases by fastforce
    then show ?thesis using fin by blast
  qed (use fin in auto)
qed

text \<open>The plain loop: every call but the last ended in a transient failure.\<close>

definition transient_until :: "'m service_env \<Rightarrow> 'm list \<Rightarrow> nat \<Rightarrow> bool" where
  "transient_until E messages n \<longleftrightarrow>
     (\<forall>i<n. \<exists>err. se_generate E i messages = Inl (Provider_error err) \<and> pe_kind err = TRANSIENT_FAILURE)"

definition retried :: "'m service_env \<Rightarrow> 'm list \<Rightarrow> nat \<Rightarrow> 'm service \<Rightarrow> bool" where
  "retried E messages a s \<longleftrightarrow> sv_calls s = replicate a messages \<and> sv_active s = messages \<and> length (sv_sleeps s) = a
     \<and> delays_ok s \<and> transient_until E messages a"

definition retry_settled :: "'m service_env \<Rightarrow> 'm list \<Rightarrow> (llm_result \<times> nat) reply \<Rightarrow> 'm service \<Rightarrow> bool" where
  "retry_settled E messages r s \<longleftrightarrow>
     (\<exists>n<MAX_TOTAL_ATTEMPTS. sv_calls s = replicate (Suc n) messages \<and> length (sv_sleeps s) = n \<and> delays_ok s
        \<and> transient_until E messages n \<and> r = map_sum id (\<lambda>res. (res, n)) (se_generate E n messages)
        \<and> (\<forall>err. r = Inl (Provider_error err) \<longrightarrow> pe_kind err = TRANSIENT_FAILURE \<longrightarrow> Suc n = MAX_TOTAL_ATTEMPTS))"

interpretation retry_loop: bounded_loop "retry_attempt E" "retried E messages" "retry_settled E messages" for E messages
proof
  fix a s s'
  assume inv: "retried E messages a s" and a: "a < MAX_TOTAL_ATTEMPTS" and step: "retry_attempt E a s = (None, s')"
  have calls: "length (sv_calls s) = a" "sv_active s = messages" using inv by (simp_all add: retried_def)
  from step show "Suc a < MAX_TOTAL_ATTEMPTS \<and> retried E messages (Suc a) s'"
  proof (cases "se_generate E a messages" rule: reply_cases)
    case (provider err)
    with step calls have s': "pe_kind err = TRANSIENT_FAILURE" "a \<noteq> MAX_TOTAL_ATTEMPTS - 1" "s' = sleep_before_retry E a (called s)"
      by (simp_all add: retry_attempt_def call_provider_called split: if_splits)
    have "delays_ok (called s)" using inv by (simp add: retried_def delays_ok_def)
    then have "delays_ok s'" unfolding s'(3) by (rule sleep_delays)
    moreover have "transient_until E messages (Suc a)"
      using inv provider s'(1) by (auto simp: retried_def transient_until_def less_Suc_eq)
    ultimately show ?thesis using a s'(2,3) inv
      by (auto simp: retried_def replicate_append_same)
  qed (use step calls in \<open>simp_all add: retry_attempt_def call_provider_called\<close>)
next
  fix a s r s'
  assume inv: "retried E messages a s" and a: "a < MAX_TOTAL_ATTEMPTS" and step: "retry_attempt E a s = (Some r, s')"
  have calls: "length (sv_calls s) = a" "sv_active s = messages" using inv by (simp_all add: retried_def)
  have fin: "retry_settled E messages r s'" if "s' = called s" "r = map_sum id (\<lambda>res. (res, a)) (se_generate E a messages)"
    "\<And>err. r = Inl (Provider_error err) \<Longrightarrow> pe_kind err = TRANSIENT_FAILURE \<Longrightarrow> Suc a = MAX_TOTAL_ATTEMPTS"
    unfolding retry_settled_def using that inv a
    by (intro exI [of _ a]) (auto simp: retried_def delays_ok_def replicate_append_same)
  show "retry_settled E messages r s'"
  proof (cases "se_generate E a messages" rule: reply_cases)
    case (provider err)
    then show ?thesis using step calls
      by (intro fin) (auto simp: retry_attempt_def call_provider_called MAX_TOTAL_ATTEMPTS_def split: if_splits)
  qed (use step calls in \<open>(intro fin; simp add: retry_attempt_def call_provider_called; fastforce)+\<close>)
qed

section \<open>What a request does\<close>

text \<open>(C14) A structured request makes one to three calls to the provider and sleeps
  before every retry between one and eight seconds. It never falls
  through its loop; a result satisfies the schema; retries and repairs add up to the calls, in the result's
  metadata as in an error.\<close>

theorem structured_request_accounted:
  "case run_structured K E repair schema messages of (r, s) \<Rightarrow>
     1 \<le> length (sv_calls s) \<and> length (sv_calls s) \<le> 3 \<and> length (sv_sleeps s) < length (sv_calls s)
     \<and> list_all (\<lambda>d. 1 \<le> d \<and> d \<le> 8) (sv_sleeps s)
     \<and> (case r of
          Inr res \<Rightarrow> (\<exists>d. lr_structured res = Some d \<and> ck_validate K schema (JObj d) = Conforms)
            \<and> md_retry_count (lr_metadata res) = int (length (sv_sleeps s))
            \<and> md_retry_count (lr_metadata res) + md_repair_count (lr_metadata res) + 1 = int (length (sv_calls s))
            \<and> int (length (lr_repair_validation_codes res)) = md_repair_count (lr_metadata res)
        | Inl (Provider_error e) \<Rightarrow> pe_retry_count e = length (sv_sleeps s)
            \<and> pe_retry_count e + pe_repair_count e + 1 = length (sv_calls s)
        | Inl (Other_error e) \<Rightarrow> True)"
proof -
  obtain r s where run: "run_structured K E repair schema messages = (r, s)" by (cases "run_structured K E repair schema messages")
  from structured_loop.ends [OF accounted_fresh run [unfolded run_structured_def]] have "settled K schema r s" .
  then show ?thesis
    by (simp add: run settled_def delays_ok_def list_all_iff MAX_BACKOFF_SECONDS_def MAX_TOTAL_ATTEMPTS_def Suc_le_eq split: sum.splits llm_error.splits)
qed

text \<open>A text request repeats exactly the transient failures: it returns what
  the first call that did not fail transiently gave, or the third one's failure, and reports the number of calls.\<close>

theorem text_request_retries:
  "\<exists>n<3. (\<forall>i<n. \<exists>err. se_generate E i messages = Inl (Provider_error err) \<and> pe_kind err = TRANSIENT_FAILURE)
     \<and> (case se_generate E n messages of
          Inl e \<Rightarrow> fst (generate_text E messages) = Inl e \<and> (\<forall>err. e = Provider_error err \<and> pe_kind err = TRANSIENT_FAILURE \<longrightarrow> n = 2)
        | Inr res \<Rightarrow> fst (generate_text E messages) = Inr (with_counts res n 0 []))
     \<and> sv_calls (snd (generate_text E messages)) = replicate (Suc n) messages"
proof -
  obtain r s where run: "retry E messages = (r, s)" by (cases "retry E messages")
  have start: "retried E messages 0 (fresh_service messages)"
    by (simp add: retried_def fresh_service_def delays_ok_def transient_until_def)
  from retry_loop.ends [OF start run [unfolded retry_def]] obtain n where
    n: "n < MAX_TOTAL_ATTEMPTS" "sv_calls s = replicate (Suc n) messages" "transient_until E messages n"
      "r = map_sum id (\<lambda>res. (res, n)) (se_generate E n messages)"
      "\<forall>err. r = Inl (Provider_error err) \<longrightarrow> pe_kind err = TRANSIENT_FAILURE \<longrightarrow> Suc n = MAX_TOTAL_ATTEMPTS"
    by (auto simp: retry_settled_def)
  then show ?thesis
    by (intro exI [of _ n]) (auto simp: run generate_text_def transient_until_def MAX_TOTAL_ATTEMPTS_def split: sum.splits)
qed

text \<open>An answer after which the request goes on: a transient failure, a rejected output, or an invalid answer.\<close>

definition recoverable :: "checker \<Rightarrow> json \<Rightarrow> llm_result reply \<Rightarrow> bool" where
  "recoverable K schema answer \<longleftrightarrow>
     (case answer of
        Inl (Provider_error err) \<Rightarrow> pe_kind err = TRANSIENT_FAILURE \<or> pe_kind err = OUTPUT_FAILURE \<and> pe_rejected_result err \<noteq> None
      | Inl (Other_error e) \<Rightarrow> False
      | Inr res \<Rightarrow> (\<exists>err. validate_result K schema res = Inl (Provider_error err)))"

lemma recoverable_attempt:
  assumes "accounted repair schema messages a s" and "Suc a < MAX_TOTAL_ATTEMPTS"
    and "recoverable K schema (se_generate E a (sv_active s))" and "\<And>code. \<exists>ms. repair messages schema code = Inr ms"
  shows "\<exists>s'. structured_attempt K E repair schema messages a s = (None, s') \<and> accounted repair schema messages (Suc a) s'"
proof -
  have len: "length (sv_calls s) = a" "\<not> MAX_REPAIRS \<le> sv_repairs s" "a \<noteq> MAX_TOTAL_ATTEMPTS - 1" "a < MAX_TOTAL_ATTEMPTS - 1"
    using assms(1,2) by (auto simp: accounted_def MAX_REPAIRS_def MAX_TOTAL_ATTEMPTS_def)
  have ask: "\<exists>s'. ask_repair repair schema messages code (called s) = (None, s')" for code
    using assms(4) [of code] by (auto simp: ask_repair_def Let_def)
  have "\<exists>s'. structured_attempt K E repair schema messages a s = (None, s')"
  proof (cases "se_generate E a (sv_active s)" rule: reply_cases)
    case (provider err)
    with assms(3) len ask [of "pe_code err"] show ?thesis
      by (auto simp: structured_attempt_def call_provider_called recoverable_def)
  next
    case (ok res)
    with assms(3) obtain err where err: "validate_result K schema res = Inl (Provider_error err)" by (auto simp: recoverable_def)
    with ok len ask [of "pe_code err"] validate_result_failure [OF err] show ?thesis
      by (auto simp: structured_attempt_def call_provider_called)
  qed (use assms(3) in \<open>simp add: recoverable_def\<close>)
  then obtain s' where step: "structured_attempt K E repair schema messages a s = (None, s')" by blast
  with structured_loop.another [OF assms(1) _ step] assms(2) show ?thesis by auto
qed

lemma recoverable_run:
  assumes "accounted repair schema messages a s" and "a \<le> k" and "k < MAX_TOTAL_ATTEMPTS"
    and "\<And>i ms. i < k \<Longrightarrow> recoverable K schema (se_generate E i ms)"
    and "\<And>ms. se_generate E k ms = Inr res" and "validate_result K schema res = Inr d"
    and "\<And>code. \<exists>ms. repair messages schema code = Inr ms"
  shows "\<exists>i j codes s'. attempts (structured_attempt K E repair schema messages) unreachable [a..<MAX_TOTAL_ATTEMPTS] s
      = (Inr (with_counts (res\<lparr>lr_structured := Some d\<rparr>) i j codes), s') \<and> i + j = k \<and> length (sv_calls s') = Suc k"
  using assms(1,2)
proof (induction "k - a" arbitrary: a s)
  case 0
  then have "a = k" "length (sv_calls s) = k" "sv_retries s + sv_repairs s = k" by (simp_all add: accounted_def)
  with assms(3,5,6) show ?case
    by (simp add: upt_conv_Cons structured_attempt_def call_provider_called) blast
next
  case (Suc n)
  then have a: "a < k" "Suc a < MAX_TOTAL_ATTEMPTS" "a < MAX_TOTAL_ATTEMPTS" using assms(3) by linarith+
  from recoverable_attempt [OF Suc.prems(1) a(2) assms(4) [OF a(1)] assms(7)] obtain t where
    t: "structured_attempt K E repair schema messages a s = (None, t)" "accounted repair schema messages (Suc a) t" by blast
  from Suc.hyps(1) [OF _ t(2)] Suc.hyps(2) a show ?case by (simp add: upt_conv_Cons t(1))
qed

text \<open>A structured request converges: when every answer before the k-th is a
  transient failure or an invalid output and the k-th of at most three is valid, the request returns that answer
  with its checked content after k calls.\<close>

theorem structured_request_converges:
  assumes "k < 3" and "\<And>i ms. i < k \<Longrightarrow> recoverable K schema (se_generate E i ms)"
    and "\<And>ms. se_generate E k ms = Inr res" and "validate_result K schema res = Inr d"
  shows "\<exists>i j codes s. generate_structured K E schema messages
      = (Inr (with_counts (res\<lparr>lr_structured := Some d\<rparr>) i j codes), s) \<and> i + j = k \<and> length (sv_calls s) = k + 1"
proof -
  have "\<exists>ms. repair_messages messages schema code = Inr ms" for code by (simp add: repair_messages_def)
  then have "\<exists>i j codes s'. attempts (structured_attempt K E repair_messages schema messages) unreachable [0..<MAX_TOTAL_ATTEMPTS]
      (fresh_service messages) = (Inr (with_counts (res\<lparr>lr_structured := Some d\<rparr>) i j codes), s') \<and> i + j = k \<and> length (sv_calls s') = Suc k"
    by (intro recoverable_run [OF accounted_fresh]) (use assms in \<open>simp_all add: MAX_TOTAL_ATTEMPTS_def\<close>)
  then show ?thesis by (simp add: generate_structured_def run_structured_def)
qed

definition sample_answer :: llm_result where
  "sample_answer = \<lparr>lr_text = '' {} '', lr_structured = None,
     lr_metadata = \<lparr>md_profile = ''main'', md_provider = Openai_compatible, md_model = ''m'', md_request_id = None,
       md_input_tokens = None, md_output_tokens = None, md_finish_reason = None, md_elapsed_ms = 5, md_retry_count = 0,
       md_repair_count = 0\<rparr>, lr_repair_validation_codes = []\<rparr>"

definition sample_checker :: checker where
  "sample_checker = \<lparr>ck_loads = (\<lambda>s. if s = ''{}'' then Some (JObj []) else None), ck_validate = (\<lambda>_ _. Conforms)\<rparr>"

text \<open>A provider that is busy first, then answers with a text that is no JSON, then properly.\<close>

definition sample_env :: "text_message service_env" where
  "sample_env = \<lparr>se_generate = (\<lambda>n _.
       if n = 0 then Inl (Provider_error \<lparr>pe_code = ''LLM_RATE_LIMITED'', pe_kind = TRANSIENT_FAILURE,
         pe_rejected_result = None, pe_retry_count = 0, pe_repair_count = 0\<rparr>)
       else if n = 1 then Inr (sample_answer\<lparr>lr_text := ''sure''\<rparr>) else Inr sample_answer),
     se_jitter = (\<lambda>_. 1 / 2)\<rparr>"

lemma structured_request_converges_witness:
  "\<exists>i j codes s. generate_structured sample_checker sample_env (JObj []) []
      = (Inr (with_counts (sample_answer\<lparr>lr_structured := Some []\<rparr>) i j codes), s) \<and> i + j = 2 \<and> length (sv_calls s) = 2 + 1"
proof (rule structured_request_converges)
  fix i :: nat and ms :: "text_message list"
  assume "i < 2"
  then have "i = 0 \<or> i = 1" by auto
  moreover have "\<exists>err. validate_result sample_checker (JObj []) (sample_answer\<lparr>lr_text := ''sure''\<rparr>) = Inl (Provider_error err)"
    by (simp add: validate_result_def sample_checker_def sample_answer_def strip_json_fence_def output_error_def make_failure_def
        ERROR_CODE_def code_pattern_def strip_def lstrip_def rstrip_def is_space_def starts_with_def ends_with_def is_upper_def Let_def)
  ultimately show "recoverable sample_checker (JObj []) (se_generate sample_env i ms)"
    by (auto simp: recoverable_def sample_env_def)
next
  have "strip_json_fence (lr_text sample_answer) = ''{}''" by code_simp
  then show "validate_result sample_checker (JObj []) sample_answer = Inr []"
    by (simp add: validate_result_def sample_checker_def) (simp add: sample_answer_def)
qed (simp_all add: sample_env_def)

lemma text_request_retries_witness:
  "fst (generate_text sample_env []) = Inr (with_counts (sample_answer\<lparr>lr_text := ''sure''\<rparr>) 1 0 [])"
proof -
  from text_request_retries [of sample_env "[]"] obtain n where n: "n < 3"
      "\<And>i. i < n \<Longrightarrow> \<exists>err. se_generate sample_env i [] = Inl (Provider_error err) \<and> pe_kind err = TRANSIENT_FAILURE"
      "case se_generate sample_env n [] of
          Inl e \<Rightarrow> fst (generate_text sample_env []) = Inl e \<and> (\<forall>err. e = Provider_error err \<and> pe_kind err = TRANSIENT_FAILURE \<longrightarrow> n = 2)
        | Inr res \<Rightarrow> fst (generate_text sample_env []) = Inr (with_counts res n 0 [])" by blast
  from n(3) have "n \<noteq> 0" by (cases "n = 0") (simp_all add: sample_env_def)
  moreover have "n \<noteq> 2" using n(2) [of 1] by (auto simp: sample_env_def)
  ultimately have "n = 1" using n(1) by linarith
  with n(3) show ?thesis by (simp add: sample_env_def)
qed

end
