(* ===== verification/Release.thy ===== *)
theory Release
  imports Quality
begin

text \<open>
  Releases (\<open>release.py\<close>): the plan of a release, resolved from the registry and the product's built files,
  the bundle of those files, and the check of a bundle against the plan. The readers of the stored documents, the
  archive format and the text of a float are arguments. The lemmas show what a plan stands for and that a verified
  bundle holds exactly the planned files.
\<close>

section \<open>Names of the released files\<close>

definition GENERATED_ASSETS :: "string list" where
  "GENERATED_ASSETS = [''data-product.md'', ''data-semantic.md'', ''data-dictionary.json'', ''ossie-model.json'', ''source-manifest.json'']"

definition REQUIRED_QUALITY_ASSETS :: "string list" where
  "REQUIRED_QUALITY_ASSETS = [''quality-report.json'', ''duplicate-report.json'', ''version-report.json'',
     ''impact-report.json'', ''llm-suggestions.json'', ''semantic-fidelity.json'']"

definition DIAGNOSTIC_REPORT_NAMES :: "string list" where
  "DIAGNOSTIC_REPORT_NAMES = [''manifest.json'', ''evidence-summary.json'', ''candidate-report.json'', ''decision-report.json'',
     ''application-report.json'', ''validation-report.json'', ''failure-report.json'']"

definition OPTIONAL_QUALITY_ASSETS :: "string list" where
  "OPTIONAL_QUALITY_ASSETS = [''semantic-structure-repair.json'', ''semantic-review.json''] @ DIAGNOSTIC_REPORT_NAMES"

definition generated :: "string \<Rightarrow> string" where "generated name = ''generated/'' @ name"
definition quality :: "string \<Rightarrow> string" where "quality name = ''quality/'' @ name"

section \<open>What the code reads\<close>

text \<open>The stored reports have more fields than the pipeline's gate reads.\<close>

record stored_quality = quality_report +
  qr_artifact_hashes :: "(string, string) dict"
  qr_quality_artifact_hashes :: "(string, string) dict"

record stored_validation = validation_report +
  sv_publishable :: bool

text \<open>The directory of a product: its regular files and the other entries, by their relative names.\<close>

record product_tree =
  pt_files :: "(string, string) dict"
  pt_others :: "string list"

text \<open>Readers of documents, archives, YAML, and the text of a float.\<close>

record reader =
  rd_quality :: "string \<Rightarrow> stored_quality option"
  rd_fidelity :: "string \<Rightarrow> fidelity_report option"
  rd_validation :: "string \<Rightarrow> stored_validation option"
  rd_yaml :: "string \<Rightarrow> json result"
  rd_text :: "json \<Rightarrow> string"
  rd_zip :: "(string \<times> string) list \<Rightarrow> string"
  rd_unzip :: "string \<Rightarrow> (string \<times> string) list option"
  rd_float :: "rat \<Rightarrow> string"

section \<open>Snapshots\<close>

definition quality_asset_names :: "product_tree \<Rightarrow> string list" where
  "quality_asset_names tree = REQUIRED_QUALITY_ASSETS
     @ filter (\<lambda>name. dict_get (pt_files tree) (quality name) \<noteq> None \<or> quality name \<in> set (pt_others tree)) OPTIONAL_QUALITY_ASSETS"

definition release_bundle_entries :: "product_tree \<Rightarrow> string list" where
  "release_bundle_entries tree = map generated GENERATED_ASSETS @ map quality (quality_asset_names tree)"

definition release_source_paths :: "product_tree \<Rightarrow> string list" where
  "release_source_paths tree = ''product.yaml'' # release_bundle_entries tree"

definition require_release_snapshot_entries :: "string list \<Rightarrow> unit result" where
  "require_release_snapshot_entries present =
     (let required = map generated GENERATED_ASSETS @ map quality REQUIRED_QUALITY_ASSETS;
          diagnostic_entries = map quality DIAGNOSTIC_REPORT_NAMES;
          absent = filter (\<lambda>n. n \<notin> set present) diagnostic_entries
      in case filter (\<lambda>n. n \<notin> set present) required of
           name # _ \<Rightarrow> Inl (ReleaseBlocked (''RELEASE_ARTIFACT_MISSING: '' @ name))
         | [] \<Rightarrow>
             if absent \<noteq> [] \<and> (\<exists>n\<in>set diagnostic_entries. n \<in> set present)
             then Inl (ReleaseBlocked (''RELEASE_ARTIFACT_MISSING: '' @ hd (sorted_set absent)))
             else Inr ())"

definition snapshot_release_entries :: "product_tree \<Rightarrow> bool \<Rightarrow> (string, string) dict result" where
  "snapshot_release_entries tree require_complete =
     (let present = filter (\<lambda>p. dict_get (pt_files tree) p \<noteq> None) (release_bundle_entries tree)
      in bind_ok (if require_complete then require_release_snapshot_entries present else Inr ()) (\<lambda>_.
           Inr (map (\<lambda>p. (p, the (dict_get (pt_files tree) p))) (sort present))))"

definition item :: "(string, string) dict \<Rightarrow> string \<Rightarrow> string result" where
  "item d k = (case dict_get d k of None \<Rightarrow> Inl (KeyError k) | Some v \<Rightarrow> Inr v)"

section \<open>The gates\<close>

definition parse_quality_report :: "reader \<Rightarrow> string \<Rightarrow> stored_quality result" where
  "parse_quality_report R payload =
     (case rd_quality R payload of None \<Rightarrow> Inl (ReleaseBlocked ''QUALITY_REPORT_INVALID'') | Some q \<Rightarrow> Inr q)"

definition require_quality_pass :: "stored_quality \<Rightarrow> unit result" where
  "require_quality_pass q =
     (if qr_status q = Q_FAIL \<or> qr_hard_errors q \<noteq> [] then Inl (ReleaseBlocked ''QUALITY_GATE_FAILED'') else Inr ())"

definition verify_entry ::
  "library \<Rightarrow> (string, string) dict \<Rightarrow> stored_quality \<Rightarrow> (string, string) dict \<Rightarrow> bool \<times> string \<Rightarrow> (string, string) dict result" where
  "verify_entry L snapshots q hashes entry =
     (case entry of (from_generated, name) \<Rightarrow>
      let entry_name = (if from_generated then generated name else quality name)
      in bind_ok (item snapshots entry_name) (\<lambda>payload.
         let digest = lib_sha256 L payload; hashes' = dict_set entry_name digest hashes;
             expected = (if from_generated then qr_artifact_hashes q else qr_quality_artifact_hashes q)
         in if from_generated \<or> name \<noteq> ''quality-report.json''
            then bind_ok (item expected name) (\<lambda>e.
                   if e \<noteq> digest then Inl (ReleaseBlocked (''RELEASE_ARTIFACT_HASH_MISMATCH: '' @ name)) else Inr hashes')
            else Inr hashes'))"

definition verify_release_snapshots :: "library \<Rightarrow> (string, string) dict \<Rightarrow> stored_quality \<Rightarrow> (string, string) dict result" where
  "verify_release_snapshots L snapshots q =
     (let quality_names = filter (\<lambda>name. dict_get snapshots (quality name) \<noteq> None) (REQUIRED_QUALITY_ASSETS @ OPTIONAL_QUALITY_ASSETS)
      in if set (dict_keys (qr_artifact_hashes q)) \<noteq> set GENERATED_ASSETS
            \<or> set (dict_keys (qr_quality_artifact_hashes q)) \<noteq> set quality_names - {''quality-report.json''}
         then Inl (ReleaseBlocked ''QUALITY_ARTIFACT_HASH_SET_MISMATCH'')
         else fold_ok (verify_entry L snapshots q) [] (map (Pair True) GENERATED_ASSETS @ map (Pair False) quality_names))"

definition visual_reasons :: "fidelity_report \<Rightarrow> string list" where
  "visual_reasons f =
     (let expected_pages = map int [1..<nat (fr_page_count f) + 1];
          audited_pages = map oa_page (fr_ocr_corrections f);
          failed_outcomes = sorted_set (map outcome_value
            (filter (\<lambda>o'. o' \<notin> {O_Applied, O_Reused}) (map oa_outcome (fr_ocr_corrections f))));
          missing = join '','' (map int_str (filter (\<lambda>p. p \<notin> set audited_pages) expected_pages))
      in (if fr_warning_codes f \<noteq> [] then [''warning_codes='' @ join '','' (fr_warning_codes f)] else [])
         @ (if fr_ocr_correction_rejected_count f > 0
            then [''rejected_corrections='' @ int_str (fr_ocr_correction_rejected_count f)] else [])
         @ (if failed_outcomes \<noteq> [] then [''correction_outcomes='' @ join '','' failed_outcomes] else [])
         @ (if set audited_pages \<noteq> set expected_pages
            then [''missing_correction_pages='' @ or_else missing ''none''] else []))"

definition fidelity_reasons :: "reader \<Rightarrow> fidelity_report \<Rightarrow> string list" where
  "fidelity_reasons R f =
     (if fr_status f = F_FAIL then [''status=FAIL''] else [])
     @ (if fr_unmatched_span_count f > 0 then [''unmatched_spans='' @ int_str (fr_unmatched_span_count f)] else [])
     @ (if fr_duplicated_span_count f > 0 then [''duplicated_spans='' @ int_str (fr_duplicated_span_count f)] else [])
     @ (if fr_source_text_coverage f < 1 then [''source_text_coverage='' @ rd_float R (fr_source_text_coverage f)] else [])
     @ (if fr_degraded_block_count f > 0 then [''degraded_blocks='' @ int_str (fr_degraded_block_count f)] else [])
     @ (if fr_extraction_mode f \<in> {PDF_EMBEDDED, OCR} then visual_reasons f else [])"

definition verify_semantic_fidelity_snapshot :: "reader \<Rightarrow> string \<Rightarrow> bool \<Rightarrow> fidelity_report result" where
  "verify_semantic_fidelity_snapshot R payload candidate_verified =
     (case rd_fidelity R payload of
        None \<Rightarrow> Inl (ReleaseBlocked ''SEMANTIC_FIDELITY_REPORT_INVALID'')
      | Some fidelity \<Rightarrow>
          if candidate_verified then Inr fidelity
          else if fidelity_reasons R fidelity \<noteq> []
          then Inl (ReleaseBlocked (''SEMANTIC_FIDELITY_GATE_FAILED: '' @ join ''; '' (fidelity_reasons R fidelity)))
          else Inr fidelity)"

definition verify_candidate_validation_snapshot :: "reader \<Rightarrow> (string, string) dict \<Rightarrow> bool result" where
  "verify_candidate_validation_snapshot R snapshots =
     (case dict_get snapshots (quality ''validation-report.json'') of
        None \<Rightarrow> Inr False
      | Some payload \<Rightarrow>
          (case rd_validation R payload of
             None \<Rightarrow> Inl (ReleaseBlocked ''SEMANTIC_VALIDATION_REPORT_INVALID'')
           | Some v \<Rightarrow>
               if vr_status v \<noteq> VERIFIED \<or> \<not> sv_publishable v
               then Inl (ReleaseBlocked (''SEMANTIC_VALIDATION_NOT_VERIFIED: '' @ status_value (vr_status v)))
               else Inr True))"

section \<open>The plan\<close>

record release_plan =
  rp_product_id :: string
  rp_product_key :: string
  rp_product_version :: int
  rp_product_tag :: string
  rp_table_tags :: "string list"
  rp_artifact_hashes :: "(string, string) dict"
  rp_changeset_id :: "string option"

definition version_tag :: "string \<Rightarrow> string \<Rightarrow> int \<Rightarrow> string" where
  "version_tag kind i version = kind @ ''/'' @ i @ ''/v'' @ int_str version"

definition build_release_plan ::
  "product_record \<Rightarrow> table_record list \<Rightarrow> change_set_record option \<Rightarrow> stored_quality option \<Rightarrow> (string, string) dict
    \<Rightarrow> release_plan result" where
  "build_release_plan product ts changeset quality_report artifact_hashes =
     bind_ok (case changeset of
          Some c \<Rightarrow> if change_set_status c \<noteq> READY
            then Inl (ReleaseBlocked (''CHANGESET_INCOMPLETE: '' @ join '',''
                   (sorted_set (filter (\<lambda>p. p \<notin> set (dict_keys (cs_ready_products c))) (cs_required_product_ids c)))))
            else Inr ()
        | None \<Rightarrow> Inr ()) (\<lambda>_.
     bind_ok (case quality_report of Some q \<Rightarrow> require_quality_pass q | None \<Rightarrow> Inr ()) (\<lambda>_.
       if \<not> Version (pr_version product) then Inl field_error
       else Inr \<lparr>rp_product_id = pr_product_id product, rp_product_key = pr_product_key product,
         rp_product_version = pr_version product,
         rp_product_tag = version_tag ''product'' (pr_product_id product) (pr_version product),
         rp_table_tags = sort (map (\<lambda>t. version_tag ''table'' (tr_table_id t) (tr_version t)) ts),
         rp_artifact_hashes = artifact_hashes,
         rp_changeset_id = map_option cs_changeset_id changeset\<rparr>))"

text \<open>The tables of a product to release: those asked for, at the version of their mapping.\<close>

definition release_table :: "registry \<Rightarrow> string set option \<Rightarrow> table_record list \<Rightarrow> product_table_ref \<Rightarrow> table_record list result" where
  "release_table reg table_ids ts m =
     (if (case table_ids of None \<Rightarrow> False | Some ids \<Rightarrow> ref_table_id m \<notin> ids) then Inr ts
      else case get_table reg (ref_table_id m) of
          None \<Rightarrow> Inl (ReleaseBlocked (''RELEASE_TABLE_VERSION_MISMATCH: '' @ ref_table_id m))
        | Some t \<Rightarrow>
            if tr_version t \<noteq> ref_table_version m
            then Inl (ReleaseBlocked (''RELEASE_TABLE_VERSION_MISMATCH: '' @ ref_table_id m)) else Inr (ts @ [t]))"

text \<open>The changeset a product's configuration names; an empty value is none.\<close>

definition json_truthy :: "json \<Rightarrow> bool" where
  "json_truthy j \<longleftrightarrow> j \<notin> {JNull, JBool False, JInt 0, JFloat ''0.0'', JFloat ''-0.0'', JStr [], JArr [], JObj []}"

definition config_changeset :: "reader \<Rightarrow> product_tree \<Rightarrow> json option result" where
  "config_changeset R tree =
     (case dict_get (pt_files tree) ''product.yaml'' of
        None \<Rightarrow> Inr None
      | Some content \<Rightarrow>
          bind_ok (rd_yaml R content) (\<lambda>config.
            Inr (case config of JObj d \<Rightarrow> dict_get d ''changeset_id'' | _ \<Rightarrow> None)))"

definition lookup_changeset :: "reader \<Rightarrow> registry \<Rightarrow> json option \<Rightarrow> change_set_record option result" where
  "lookup_changeset R reg changeset_id =
     (case changeset_id of
        None \<Rightarrow> Inr None
      | Some j \<Rightarrow>
          if \<not> json_truthy j then Inr None
          else case j of
              JArr _ \<Rightarrow> Inl (TypeError ''unhashable type'')
            | JObj _ \<Rightarrow> Inl (TypeError ''unhashable type'')
            | _ \<Rightarrow>
              (case (case j of JStr s \<Rightarrow> get_changeset reg s | _ \<Rightarrow> None) of
                 None \<Rightarrow> Inl (ReleaseBlocked (''CHANGESET_NOT_FOUND: '' @ (case j of JStr s \<Rightarrow> s | _ \<Rightarrow> rd_text R j)))
               | Some c \<Rightarrow> Inr (Some c)))"

definition check_readiness :: "registry \<Rightarrow> change_set_record \<Rightarrow> string \<Rightarrow> unit result" where
  "check_readiness reg c p =
     (case dict_get (cs_ready_products c) p of
        None \<Rightarrow> Inr ()
      | Some readiness \<Rightarrow>
          if (case get_product reg p of None \<Rightarrow> True | Some current \<Rightarrow> pr_version current \<noteq> rd_version readiness)
          then Inl (ReleaseBlocked (''CHANGESET_VERSION_NOT_CURRENT: '' @ p @ '':v'' @ int_str (rd_version readiness)))
          else Inr ())"

definition find_product :: "registry \<Rightarrow> string \<Rightarrow> product_record option" where
  "find_product reg i = (case get_product reg i of Some p \<Rightarrow> Some p | None \<Rightarrow> find (\<lambda>p. pr_product_key p = i) (products reg))"

definition resolve_release_plan ::
  "library \<Rightarrow> reader \<Rightarrow> string \<Rightarrow> registry_disk \<Rightarrow> (string \<Rightarrow> product_tree) \<Rightarrow> string set option \<Rightarrow> release_plan result" where
  "resolve_release_plan L R identifier disk product_tree_of table_ids =
     bind_ok (load_registry disk) (\<lambda>reg.
     case find_product reg identifier of
       None \<Rightarrow> Inl (ReleaseBlocked (''PRODUCT_NOT_FOUND: '' @ identifier))
     | Some product \<Rightarrow>
       bind_ok (fold_ok (release_table reg table_ids) []
                  (filter (\<lambda>m. ref_product_id m = pr_product_id product) (mappings reg))) (\<lambda>ts.
       let tree = product_tree_of (pr_product_key product)
       in if dict_get (pt_files tree) (quality ''quality-report.json'') = None
          then Inl (ReleaseBlocked ''QUALITY_REPORT_MISSING'')
          else
       bind_ok (snapshot_release_entries tree False) (\<lambda>snapshots.
       bind_ok (item snapshots (quality ''quality-report.json'')) (\<lambda>payload.
       bind_ok (parse_quality_report R payload) (\<lambda>q.
       if qr_product_id q \<noteq> Some (pr_product_id product) then Inl (ReleaseBlocked ''QUALITY_REPORT_PRODUCT_MISMATCH'')
       else if qr_product_version q \<noteq> Some (pr_version product) then Inl (ReleaseBlocked ''QUALITY_REPORT_VERSION_MISMATCH'')
       else
       bind_ok (config_changeset R tree) (\<lambda>changeset_id.
       bind_ok (lookup_changeset R reg changeset_id) (\<lambda>changeset.
       bind_ok (case changeset of None \<Rightarrow> Inr []
                | Some c \<Rightarrow> traverse (check_readiness reg c) (cs_required_product_ids c)) (\<lambda>_.
       bind_ok (require_release_snapshot_entries (dict_keys snapshots)) (\<lambda>_.
       bind_ok (verify_release_snapshots L snapshots q) (\<lambda>artifact_hashes.
       bind_ok (verify_candidate_validation_snapshot R snapshots) (\<lambda>candidate_verified.
       bind_ok (item snapshots (quality ''semantic-fidelity.json'')) (\<lambda>fidelity_payload.
       bind_ok (verify_semantic_fidelity_snapshot R fidelity_payload candidate_verified) (\<lambda>_.
         build_release_plan product ts changeset (Some q) artifact_hashes)))))))))))))"

section \<open>The bundle\<close>

text \<open>The content of the bundle file; a failure of the file system leaves no bundle.\<close>

definition build_release_bundle :: "reader \<Rightarrow> product_tree \<Rightarrow> string result" where
  "build_release_bundle R tree =
     bind_ok (snapshot_release_entries tree True) (\<lambda>snapshots.
     bind_ok (item snapshots (quality ''quality-report.json'')) (\<lambda>payload.
     bind_ok (parse_quality_report R payload) (\<lambda>q.
     bind_ok (require_quality_pass q) (\<lambda>_.
     bind_ok (verify_candidate_validation_snapshot R snapshots) (\<lambda>candidate_verified.
     bind_ok (item snapshots (quality ''semantic-fidelity.json'')) (\<lambda>fidelity_payload.
     bind_ok (verify_semantic_fidelity_snapshot R fidelity_payload candidate_verified) (\<lambda>_.
       Inr (rd_zip R (sort_key fst snapshots)))))))))"

definition verify_release_bundle :: "library \<Rightarrow> reader \<Rightarrow> string \<Rightarrow> (string, string) dict \<Rightarrow> string result" where
  "verify_release_bundle L R payload expected_hashes =
     (case rd_unzip R payload of
        None \<Rightarrow> Inl (ReleaseBlocked ''RELEASE_BUNDLE_INVALID: release bundle is malformed'')
      | Some archive \<Rightarrow>
          if \<not> distinct (map fst archive) \<or> set (map fst archive) \<noteq> set (dict_keys expected_hashes)
          then Inl (ReleaseBlocked ''RELEASE_BUNDLE_CONTENT_MISMATCH: release bundle entries do not match the verified plan'')
          else bind_ok (traverse (\<lambda>(name, digest). bind_ok (item archive name) (\<lambda>content.
                 if lib_sha256 L content \<noteq> digest
                 then Inl (ReleaseBlocked (''RELEASE_BUNDLE_HASH_MISMATCH: release bundle source changed after planning: '' @ name))
                 else Inr ())) expected_hashes) (\<lambda>_. Inr payload))"

definition verify_tag_target :: "string \<Rightarrow> string \<Rightarrow> string option \<Rightarrow> unit result" where
  "verify_tag_target tag expected_commit existing_target =
     (case existing_target of
        None \<Rightarrow> Inr ()
      | Some target \<Rightarrow>
          if target \<noteq> expected_commit
          then Inl (ReleaseBlocked (''TAG_TARGET_CONFLICT: '' @ tag @ '' -> '' @ target @ '' != '' @ expected_commit))
          else Inr ())"

section \<open>Snapshots and their hashes\<close>

lemma item_Inr [simp]: "item d k = Inr v \<longleftrightarrow> dict_get d k = Some v"
  by (simp add: item_def split: option.splits)

definition released :: "product_tree \<Rightarrow> string list" where
  "released tree = filter (\<lambda>p. dict_get (pt_files tree) p \<noteq> None) (release_bundle_entries tree)"

definition snapshots_of :: "product_tree \<Rightarrow> (string, string) dict" where
  "snapshots_of tree = map (\<lambda>p. (p, the (dict_get (pt_files tree) p))) (sort (released tree))"

lemma snapshot_Inr:
  "snapshot_release_entries tree whole = Inr s \<longleftrightarrow>
     s = snapshots_of tree \<and> (whole \<longrightarrow> require_release_snapshot_entries (released tree) = Inr ())"
  by (auto simp: snapshot_release_entries_def snapshots_of_def released_def Let_def)

lemma snapshot_keys [simp]: "dict_keys (snapshots_of tree) = sort (released tree)"
  by (simp add: snapshots_of_def comp_def)

lemma asset_names_distinct: "distinct (map generated GENERATED_ASSETS @ map quality (REQUIRED_QUALITY_ASSETS @ OPTIONAL_QUALITY_ASSETS))"
  by code_simp

lemma distinct_filter_tail: "distinct (map f xs @ map g (ys @ zs)) \<Longrightarrow> distinct (map f xs @ map g (ys @ filter P zs))"
  by (auto simp: distinct_map_filter)

lemma released_distinct: "distinct (released tree)"
proof -
  have "distinct (release_bundle_entries tree)"
    unfolding release_bundle_entries_def quality_asset_names_def by (rule distinct_filter_tail [OF asset_names_distinct])
  then show ?thesis by (simp add: released_def)
qed

lemma snapshot_get: "dict_get (snapshots_of tree) p = (if p \<in> set (released tree) then dict_get (pt_files tree) p else None)"
proof -
  have "dict_get (snapshots_of tree) p = (if p \<in> set (sort (released tree)) then Some (the (dict_get (pt_files tree) p)) else None)"
    unfolding snapshots_of_def by (simp add: map_of_map_restrict restrict_map_def)
  then show ?thesis by (auto simp: released_def)
qed

lemma released_quality_names:
  "filter (\<lambda>name. dict_get (snapshots_of tree) (quality name) \<noteq> None) (REQUIRED_QUALITY_ASSETS @ OPTIONAL_QUALITY_ASSETS)
     = filter (\<lambda>name. dict_get (pt_files tree) (quality name) \<noteq> None) (REQUIRED_QUALITY_ASSETS @ OPTIONAL_QUALITY_ASSETS)"
  by (rule filter_cong) (auto simp: snapshot_get released_def release_bundle_entries_def quality_asset_names_def)

definition released_names :: "product_tree \<Rightarrow> string list" where
  "released_names tree = filter (\<lambda>name. dict_get (pt_files tree) (quality name) \<noteq> None) (REQUIRED_QUALITY_ASSETS @ OPTIONAL_QUALITY_ASSETS)"

text \<open>The hashes of a plan are the hashes of the files.\<close>

definition hashes_of :: "library \<Rightarrow> product_tree \<Rightarrow> string \<Rightarrow> string option" where
  "hashes_of L tree p = (if p \<in> set (released tree) then map_option (lib_sha256 L) (dict_get (pt_files tree) p) else None)"

lemma verify_entry_step:
  assumes "verify_entry L (snapshots_of tree) q hashes (b, name) = Inr hashes'"
  shows "\<exists>payload. dict_get (snapshots_of tree) (if b then generated name else quality name) = Some payload
    \<and> hashes' = dict_set (if b then generated name else quality name) (lib_sha256 L payload) hashes
    \<and> (b \<longrightarrow> dict_get (qr_artifact_hashes q) name = Some (lib_sha256 L payload))
    \<and> (\<not> b \<longrightarrow> name \<noteq> ''quality-report.json'' \<longrightarrow> dict_get (qr_quality_artifact_hashes q) name = Some (lib_sha256 L payload))"
  using assms by (auto simp: verify_entry_def Let_def split: if_splits)

fun entry_path :: "bool \<times> string \<Rightarrow> string" where
  "entry_path (True, name) = generated name"
| "entry_path (False, name) = quality name"

definition entry_agrees :: "library \<Rightarrow> product_tree \<Rightarrow> stored_quality \<Rightarrow> bool \<times> string \<Rightarrow> bool" where
  "entry_agrees L tree q e \<longleftrightarrow> hashes_of L tree (entry_path e) \<noteq> None
     \<and> (fst e \<longrightarrow> dict_get (qr_artifact_hashes q) (snd e) = hashes_of L tree (entry_path e))
     \<and> (\<not> fst e \<longrightarrow> snd e \<noteq> ''quality-report.json'' \<longrightarrow>
          dict_get (qr_quality_artifact_hashes q) (snd e) = hashes_of L tree (entry_path e))"

lemma verify_entry_agrees:
  assumes "verify_entry L (snapshots_of tree) q hashes e = Inr hashes'"
  shows "entry_agrees L tree q e \<and> hashes' = dict_set (entry_path e) (the (hashes_of L tree (entry_path e))) hashes"
proof -
  obtain b name where e: "e = (b, name)" by (cases e)
  have path: "entry_path e = (if b then generated name else quality name)" by (cases b) (simp_all add: e)
  from verify_entry_step [OF assms [unfolded e]] obtain payload where
    p: "dict_get (snapshots_of tree) (entry_path e) = Some payload"
      "hashes' = dict_set (entry_path e) (lib_sha256 L payload) hashes"
      "b \<longrightarrow> dict_get (qr_artifact_hashes q) name = Some (lib_sha256 L payload)"
      "\<not> b \<longrightarrow> name \<noteq> ''quality-report.json'' \<longrightarrow> dict_get (qr_quality_artifact_hashes q) name = Some (lib_sha256 L payload)"
    unfolding path by blast
  then have "hashes_of L tree (entry_path e) = Some (lib_sha256 L payload)"
    by (auto simp: snapshot_get hashes_of_def split: if_splits)
  with p show ?thesis by (cases b) (simp_all add: entry_agrees_def e)
qed

lemma verified_entries:
  assumes "fold_ok (verify_entry L (snapshots_of tree) q) [] es = Inr hashes"
  shows "dict_ok hashes \<and> (\<forall>p. dict_get hashes p = (if p \<in> entry_path ` set es then hashes_of L tree p else None))
    \<and> (\<forall>e\<in>set es. entry_agrees L tree q e)"
proof (rule fold_ok_invariant_prefix [OF assms, where P = "\<lambda>ys s. dict_ok s
      \<and> (\<forall>p. dict_get s p = (if p \<in> entry_path ` set ys then hashes_of L tree p else None)) \<and> (\<forall>e\<in>set ys. entry_agrees L tree q e)"])
  fix ys e s s'
  assume inv: "dict_ok s \<and> (\<forall>p. dict_get s p = (if p \<in> entry_path ` set ys then hashes_of L tree p else None))
      \<and> (\<forall>e\<in>set ys. entry_agrees L tree q e)" and step: "verify_entry L (snapshots_of tree) q s e = Inr s'"
  from verify_entry_agrees [OF step] have e: "entry_agrees L tree q e"
    "s' = dict_set (entry_path e) (the (hashes_of L tree (entry_path e))) s" by blast+
  from e(1) have "hashes_of L tree (entry_path e) \<noteq> None" by (simp add: entry_agrees_def)
  with e inv show "dict_ok s' \<and> (\<forall>p. dict_get s' p = (if p \<in> entry_path ` set (ys @ [e]) then hashes_of L tree p else None))
      \<and> (\<forall>e\<in>set (ys @ [e]). entry_agrees L tree q e)" by auto
qed simp

definition all_entries :: "product_tree \<Rightarrow> (bool \<times> string) list" where
  "all_entries tree = map (Pair True) GENERATED_ASSETS @ map (Pair False) (released_names tree)"

lemma released_entries: "set (released tree) \<subseteq> entry_path ` set (all_entries tree)"
proof
  fix p assume "p \<in> set (released tree)"
  then have p: "dict_get (pt_files tree) p \<noteq> None" "p \<in> generated ` set GENERATED_ASSETS
      \<or> p \<in> quality ` set (REQUIRED_QUALITY_ASSETS @ OPTIONAL_QUALITY_ASSETS)"
    by (auto simp: released_def release_bundle_entries_def quality_asset_names_def)
  from p(2) show "p \<in> entry_path ` set (all_entries tree)"
  proof (elim disjE imageE)
    fix n assume "p = generated n" "n \<in> set GENERATED_ASSETS"
    then have "p = entry_path (True, n)" "(True, n) \<in> set (all_entries tree)" by (auto simp: all_entries_def)
    then show ?thesis by blast
  next
    fix n assume "p = quality n" "n \<in> set (REQUIRED_QUALITY_ASSETS @ OPTIONAL_QUALITY_ASSETS)"
    with p(1) have "p = entry_path (False, n)" "(False, n) \<in> set (all_entries tree)"
      by (auto simp: all_entries_def released_names_def)
    then show ?thesis by blast
  qed
qed

text \<open>What the check of the files against the quality report gives.\<close>

lemma verified_snapshots:
  assumes "verify_release_snapshots L (snapshots_of tree) q = Inr hashes"
  shows "dict_ok hashes" and "dict_get hashes = hashes_of L tree"
    and "n \<in> set GENERATED_ASSETS \<Longrightarrow>
      hashes_of L tree (generated n) \<noteq> None \<and> dict_get (qr_artifact_hashes q) n = hashes_of L tree (generated n)"
    and "n \<in> set (released_names tree) \<Longrightarrow> n \<noteq> ''quality-report.json'' \<Longrightarrow>
      dict_get (qr_quality_artifact_hashes q) n = hashes_of L tree (quality n)"
proof -
  from assms have "fold_ok (verify_entry L (snapshots_of tree) q) [] (all_entries tree) = Inr hashes"
    unfolding verify_release_snapshots_def Let_def released_quality_names all_entries_def released_names_def
    by (simp split: if_splits)
  note v = verified_entries [OF this]
  show "dict_ok hashes" using v by blast
  show "dict_get hashes = hashes_of L tree"
    using v released_entries [of tree] by (auto simp: fun_eq_iff hashes_of_def)
  show "hashes_of L tree (generated n) \<noteq> None \<and> dict_get (qr_artifact_hashes q) n = hashes_of L tree (generated n)"
    if "n \<in> set GENERATED_ASSETS"
  proof -
    from that have "(True, n) \<in> set (all_entries tree)" by (simp add: all_entries_def)
    with v have "entry_agrees L tree q (True, n)" by blast
    then show ?thesis by (simp add: entry_agrees_def)
  qed
  show "dict_get (qr_quality_artifact_hashes q) n = hashes_of L tree (quality n)"
    if "n \<in> set (released_names tree)" "n \<noteq> ''quality-report.json''"
  proof -
    from that(1) have "(False, n) \<in> set (all_entries tree)" by (simp add: all_entries_def)
    with v have "entry_agrees L tree q (False, n)" by blast
    with that(2) show ?thesis by (simp add: entry_agrees_def)
  qed
qed

section \<open>What a plan stands for\<close>

lemma resolve_release_plan_Inr:
  assumes "resolve_release_plan L R i disk product_tree_of ids = Inr plan"
  obtains reg p ts q cid c hashes candidate payload f where
    "load_registry disk = Inr reg" "find_product reg i = Some p"
    "fold_ok (release_table reg ids) [] (filter (\<lambda>m. ref_product_id m = pr_product_id p) (mappings reg)) = Inr ts"
    "parse_quality_report R payload = Inr q"
    "dict_get (pt_files (product_tree_of (pr_product_key p))) (quality ''quality-report.json'') = Some payload"
    "qr_product_id q = Some (pr_product_id p)" "qr_product_version q = Some (pr_version p)"
    "config_changeset R (product_tree_of (pr_product_key p)) = Inr cid" "lookup_changeset R reg cid = Inr c"
    "\<And>x. c = Some x \<Longrightarrow> \<exists>us. traverse (check_readiness reg x) (cs_required_product_ids x) = Inr us"
    "require_release_snapshot_entries (sort (released (product_tree_of (pr_product_key p)))) = Inr ()"
    "verify_release_snapshots L (snapshots_of (product_tree_of (pr_product_key p))) q = Inr hashes"
    "verify_candidate_validation_snapshot R (snapshots_of (product_tree_of (pr_product_key p))) = Inr candidate"
    "dict_get (pt_files (product_tree_of (pr_product_key p))) (quality ''semantic-fidelity.json'') = Some f"
    "is_ok (verify_semantic_fidelity_snapshot R f candidate)"
    "build_release_plan p ts c (Some q) hashes = Inr plan"
proof -
  from assms obtain reg where reg: "load_registry disk = Inr reg" by (auto simp: resolve_release_plan_def)
  with assms obtain p where p: "find_product reg i = Some p" by (auto simp: resolve_release_plan_def split: option.splits)
  let ?tree = "product_tree_of (pr_product_key p)"
  from assms reg p obtain ts snapshots q payload where
    a: "fold_ok (release_table reg ids) [] (filter (\<lambda>m. ref_product_id m = pr_product_id p) (mappings reg)) = Inr ts"
      "snapshot_release_entries ?tree False = Inr snapshots" "dict_get snapshots (quality ''quality-report.json'') = Some payload"
      "parse_quality_report R payload = Inr q" "qr_product_id q = Some (pr_product_id p)" "qr_product_version q = Some (pr_version p)"
    by (auto simp: resolve_release_plan_def Let_def split: if_splits)
  have s: "snapshots = snapshots_of ?tree" using a(2) by (simp add: snapshot_Inr)
  have report: "dict_get (pt_files ?tree) (quality ''quality-report.json'') = Some payload"
    using a(3) s by (simp add: snapshot_get split: if_splits)
  from assms reg p a report obtain cid c us hashes candidate f fid where
    b: "config_changeset R ?tree = Inr cid" "lookup_changeset R reg cid = Inr c"
      "(case c of None \<Rightarrow> Inr [] | Some x \<Rightarrow> traverse (check_readiness reg x) (cs_required_product_ids x)) = Inr us"
      "require_release_snapshot_entries (dict_keys snapshots) = Inr ()" "verify_release_snapshots L snapshots q = Inr hashes"
      "verify_candidate_validation_snapshot R snapshots = Inr candidate"
      "dict_get snapshots (quality ''semantic-fidelity.json'') = Some f" "verify_semantic_fidelity_snapshot R f candidate = Inr fid"
      "build_release_plan p ts c (Some q) hashes = Inr plan"
    unfolding resolve_release_plan_def Let_def by simp blast
  show thesis
  proof (rule that [OF reg p a(1) a(4) report a(5,6) b(1,2)])
    show "\<exists>us. traverse (check_readiness reg x) (cs_required_product_ids x) = Inr us" if "c = Some x" for x
      using b(3) that by auto
    show "dict_get (pt_files ?tree) (quality ''semantic-fidelity.json'') = Some f"
      using b(7) s by (simp add: snapshot_get split: if_splits)
    show "is_ok (verify_semantic_fidelity_snapshot R f candidate)" using b(8) by (simp add: is_ok_iff)
  qed (use b s in simp_all)
qed

lemma build_release_plan_Inr:
  assumes "build_release_plan p ts c (Some q) hashes = Inr plan"
  shows "rp_product_id plan = pr_product_id p" "rp_product_key plan = pr_product_key p" "rp_product_version plan = pr_version p"
    "rp_table_tags plan = sort (map (\<lambda>t. version_tag ''table'' (tr_table_id t) (tr_version t)) ts)"
    "rp_artifact_hashes plan = hashes" "rp_changeset_id plan = map_option cs_changeset_id c"
    "qr_status q \<noteq> Q_FAIL" "qr_hard_errors q = []" "\<And>x. c = Some x \<Longrightarrow> change_set_status x = READY"
  using assms by (auto simp: build_release_plan_def require_quality_pass_def split: if_splits option.splits)

lemma fidelity_reasons_Nil_iff:
  "fidelity_reasons R f = [] \<longleftrightarrow> fr_status f \<noteq> F_FAIL \<and> fr_unmatched_span_count f \<le> 0 \<and> fr_duplicated_span_count f \<le> 0
     \<and> 1 \<le> fr_source_text_coverage f \<and> fr_degraded_block_count f \<le> 0
     \<and> (fr_extraction_mode f \<in> {PDF_EMBEDDED, OCR} \<longrightarrow> visual_reasons f = [])"
  by (auto simp: fidelity_reasons_def not_less)

text \<open>(C15) A release plan exists only for a product of the registry whose stored
  quality report is about this version and passes without hard errors, and whose semantic document is either a
  verified publishable candidate or lost, duplicated and degraded nothing.\<close>

theorem release_plan_gated:
  assumes "resolve_release_plan L R i disk product_tree_of ids = Inr plan"
  shows "\<exists>reg p q f payload fidelity. load_registry disk = Inr reg \<and> find_product reg i = Some p
    \<and> rp_product_id plan = pr_product_id p \<and> rp_product_version plan = pr_version p
    \<and> dict_get (pt_files (product_tree_of (pr_product_key p))) (quality ''quality-report.json'') = Some payload
    \<and> rd_quality R payload = Some q \<and> qr_product_id q = Some (pr_product_id p) \<and> qr_product_version q = Some (pr_version p)
    \<and> qr_status q \<noteq> Q_FAIL \<and> qr_hard_errors q = []
    \<and> dict_get (pt_files (product_tree_of (pr_product_key p))) (quality ''semantic-fidelity.json'') = Some f
    \<and> rd_fidelity R f = Some fidelity
    \<and> ((\<exists>v w. dict_get (pt_files (product_tree_of (pr_product_key p))) (quality ''validation-report.json'') = Some w
          \<and> rd_validation R w = Some v \<and> vr_status v = VERIFIED \<and> sv_publishable v)
       \<or> (fr_status fidelity \<noteq> F_FAIL \<and> fr_unmatched_span_count fidelity \<le> 0 \<and> fr_duplicated_span_count fidelity \<le> 0
          \<and> 1 \<le> fr_source_text_coverage fidelity \<and> fr_degraded_block_count fidelity \<le> 0))"
  using assms
proof (cases rule: resolve_release_plan_Inr)
  case (1 reg p ts q cid c hashes candidate payload f)
  let ?tree = "product_tree_of (pr_product_key p)"
  note plan = build_release_plan_Inr [OF 1(16)]
  have q: "rd_quality R payload = Some q" using 1(4) by (simp add: parse_quality_report_def split: option.splits)
  from 1(15) obtain fidelity where fid: "rd_fidelity R f = Some fidelity" "candidate \<or> fidelity_reasons R fidelity = []"
    by (auto simp: is_ok_iff verify_semantic_fidelity_snapshot_def split: option.splits if_splits)
  have "\<exists>v w. dict_get (pt_files ?tree) (quality ''validation-report.json'') = Some w
      \<and> rd_validation R w = Some v \<and> vr_status v = VERIFIED \<and> sv_publishable v" if candidate
    using 1(13) that by (auto simp: verify_candidate_validation_snapshot_def snapshot_get split: option.splits if_splits)
  with fid(2) have "(\<exists>v w. dict_get (pt_files ?tree) (quality ''validation-report.json'') = Some w
          \<and> rd_validation R w = Some v \<and> vr_status v = VERIFIED \<and> sv_publishable v)
       \<or> (fr_status fidelity \<noteq> F_FAIL \<and> fr_unmatched_span_count fidelity \<le> 0 \<and> fr_duplicated_span_count fidelity \<le> 0
          \<and> 1 \<le> fr_source_text_coverage fidelity \<and> fr_degraded_block_count fidelity \<le> 0)"
    unfolding fidelity_reasons_Nil_iff by blast
  with 1(1,2,5,6,7,14) q fid(1) plan show ?thesis by blast
qed

lemma release_tables:
  assumes "fold_ok (release_table reg ids) [] ms = Inr ts"
  shows "list_all2 (\<lambda>t m. get_table reg (ref_table_id m) = Some t \<and> tr_version t = ref_table_version m) ts
    (filter (\<lambda>m. case ids of None \<Rightarrow> True | Some wanted \<Rightarrow> ref_table_id m \<in> wanted) ms)"
proof (rule fold_ok_invariant_prefix [OF assms, where P = "\<lambda>ys ts. list_all2 (\<lambda>t m. get_table reg (ref_table_id m) = Some t
      \<and> tr_version t = ref_table_version m) ts (filter (\<lambda>m. case ids of None \<Rightarrow> True | Some wanted \<Rightarrow> ref_table_id m \<in> wanted) ys)"])
qed (auto simp: release_table_def split: option.splits if_splits intro: list_all2_appendI)

lemma loaded_table_id: "load_registry disk = Inr reg \<Longrightarrow> get_table reg i = Some t \<Longrightarrow> tr_table_id t = i"
  by (auto simp: load_registry_def get_table_def dict_get_of dest!: find_SomeD split: option.splits)

text \<open>The tables of a release are exactly the wanted mappings of its product,
  each tagged with the version of the mapping, which is the version in the registry; a changeset of the release is
  complete and every product it requires is at the version it was reported ready with.\<close>

theorem release_plan_versions:
  assumes "resolve_release_plan L R i disk product_tree_of ids = Inr plan" and "load_registry disk = Inr reg"
    and "ms = filter (\<lambda>m. ref_product_id m = rp_product_id plan
           \<and> (case ids of None \<Rightarrow> True | Some wanted \<Rightarrow> ref_table_id m \<in> wanted)) (mappings reg)"
  shows "rp_table_tags plan = sort (map (\<lambda>m. version_tag ''table'' (ref_table_id m) (ref_table_version m)) ms)
    \<and> list_all (\<lambda>m. map_option tr_version (get_table reg (ref_table_id m)) = Some (ref_table_version m)) ms
    \<and> (case rp_changeset_id plan of
          None \<Rightarrow> True
        | Some cid \<Rightarrow> \<exists>s c. get_changeset reg s = Some c \<and> cs_changeset_id c = cid \<and> change_set_status c = READY
            \<and> list_all (\<lambda>r. \<exists>ready current. dict_get (cs_ready_products c) r = Some ready \<and> get_product reg r = Some current
                 \<and> pr_version current = rd_version ready) (cs_required_product_ids c))"
  using assms(1)
proof (cases rule: resolve_release_plan_Inr)
  case (1 reg' p ts q cid c hashes candidate payload f)
  have reg: "reg' = reg" using 1(1) assms(2) by simp
  note plan = build_release_plan_Inr [OF 1(16)]
  have ms: "filter (\<lambda>m. case ids of None \<Rightarrow> True | Some wanted \<Rightarrow> ref_table_id m \<in> wanted)
      (filter (\<lambda>m. ref_product_id m = pr_product_id p) (mappings reg)) = ms"
    unfolding assms(3) plan(1) filter_filter by (rule filter_cong) auto
  have l: "list_all2 (\<lambda>t m. get_table reg (ref_table_id m) = Some t \<and> tr_version t = ref_table_version m) ts ms"
    using release_tables [OF 1(3)] unfolding reg ms .
  have "map (\<lambda>t. version_tag ''table'' (tr_table_id t) (tr_version t)) ts
      = map (\<lambda>m. version_tag ''table'' (ref_table_id m) (ref_table_version m)) ms"
    using l by induction (auto simp: loaded_table_id [OF assms(2)])
  moreover have "list_all (\<lambda>m. map_option tr_version (get_table reg (ref_table_id m)) = Some (ref_table_version m)) ms"
    using l by induction auto
  moreover have "\<exists>s x. get_changeset reg s = Some x \<and> cs_changeset_id x = k \<and> change_set_status x = READY
            \<and> list_all (\<lambda>r. \<exists>ready current. dict_get (cs_ready_products x) r = Some ready \<and> get_product reg r = Some current
                 \<and> pr_version current = rd_version ready) (cs_required_product_ids x)"
    if "rp_changeset_id plan = Some k" for k
  proof -
    from that plan(6) obtain x where x: "c = Some x" "cs_changeset_id x = k" by auto
    with 1(9) obtain s where s: "get_changeset reg s = Some x"
      by (auto simp: lookup_changeset_def reg split: option.splits if_splits json.splits)
    have ready: "change_set_status x = READY" using plan(9) x(1) by simp
    from 1(10) [OF x(1)] have checked: "\<forall>r\<in>set (cs_required_product_ids x). \<exists>u. check_readiness reg x r = Inr u"
      by (simp add: traverse_ok_iff reg)
    have "\<exists>rd current. dict_get (cs_ready_products x) r = Some rd \<and> get_product reg r = Some current \<and> pr_version current = rd_version rd"
      if r: "r \<in> set (cs_required_product_ids x)" for r
    proof -
      from ready r have "r \<in> set (dict_keys (cs_ready_products x))" by (auto simp: change_set_status_def split: if_splits)
      then obtain rd where "dict_get (cs_ready_products x) r = Some rd" by (metis map_of_eq_None_iff not_Some_eq set_map)
      with checked r show ?thesis by (fastforce simp: check_readiness_def split: option.splits if_splits)
    qed
    with s x(2) ready show ?thesis unfolding list_all_iff by blast
  qed
  ultimately show ?thesis using plan(4) by (auto split: option.splits)
qed

text \<open>When a bundle passes the check against hashes of the released files.\<close>

lemma verify_bundle_iff:
  assumes "dict_ok hashes" and "dict_get hashes = hashes_of L tree"
  shows "verify_release_bundle L R payload hashes = Inr payload \<longleftrightarrow>
    (\<exists>archive. rd_unzip R payload = Some archive \<and> distinct (map fst archive)
       \<and> (\<forall>n. map_option (lib_sha256 L) (dict_get archive n) = hashes_of L tree n))"
proof (cases "rd_unzip R payload")
  case (Some archive)
  define F where "F = (\<lambda>(name, digest). bind_ok (item archive name) (\<lambda>content.
        if lib_sha256 L content \<noteq> digest then Inl (ReleaseBlocked (''RELEASE_BUNDLE_HASH_MISMATCH: release bundle source changed after planning: '' @ name))
        else Inr ()))"
  have each: "(\<exists>us. traverse F hashes = Inr us)
      \<longleftrightarrow> (\<forall>(name, digest)\<in>set hashes. map_option (lib_sha256 L) (dict_get archive name) = Some digest)"
    unfolding traverse_ok_iff
  proof (rule ball_cong [OF refl])
    fix x :: "string \<times> string"
    show "(\<exists>u. F x = Inr u) = (case x of (name, digest) \<Rightarrow> map_option (lib_sha256 L) (dict_get archive name) = Some digest)"
      by (cases x; cases "dict_get archive (fst x)") (auto simp: item_def F_def)
  qed
  have run: "verify_release_bundle L R payload hashes = Inr payload \<longleftrightarrow>
      distinct (map fst archive) \<and> set (map fst archive) = set (dict_keys hashes) \<and> (\<exists>us. traverse F hashes = Inr us)"
    by (auto simp: verify_release_bundle_def Some F_def)
  have keys: "set (dict_keys hashes) = {n. hashes_of L tree n \<noteq> None}"
    using dom_map_of_conv_image_fst [of hashes] unfolding assms(2) by (simp add: dom_def)
  have vals: "(name, digest) \<in> set hashes \<longleftrightarrow> hashes_of L tree name = Some digest" for name digest
    using assms by (metis dict_ok_def map_of_eq_Some_iff)
  have arch: "n \<in> set (map fst archive) \<longleftrightarrow> dict_get archive n \<noteq> None" for n
    by (metis map_of_eq_None_iff set_map)
  have entries: "(set (map fst archive) = set (dict_keys hashes) \<and> (\<forall>(name, digest)\<in>set hashes. map_option (lib_sha256 L) (dict_get archive name) = Some digest))
     \<longleftrightarrow> (\<forall>n. map_option (lib_sha256 L) (dict_get archive n) = hashes_of L tree n)"
  proof
    assume l: "set (map fst archive) = set (dict_keys hashes) \<and> (\<forall>(name, digest)\<in>set hashes. map_option (lib_sha256 L) (dict_get archive name) = Some digest)"
    show "\<forall>n. map_option (lib_sha256 L) (dict_get archive n) = hashes_of L tree n"
    proof
      fix n show "map_option (lib_sha256 L) (dict_get archive n) = hashes_of L tree n"
      proof (cases "hashes_of L tree n")
        case None
        then have "n \<notin> set (map fst archive)" using l keys by auto
        then show ?thesis using arch None by auto
      next
        case (Some digest)
        then have "(n, digest) \<in> set hashes" using vals by blast
        moreover have "\<forall>x\<in>set hashes. case x of (name, digest) \<Rightarrow> map_option (lib_sha256 L) (dict_get archive name) = Some digest"
          using l by simp
        ultimately have "map_option (lib_sha256 L) (dict_get archive n) = Some digest" by fastforce
        then show ?thesis by (simp only: Some)
      qed
    qed
  next
    assume r: "\<forall>n. map_option (lib_sha256 L) (dict_get archive n) = hashes_of L tree n"
    then have "\<forall>n. hashes_of L tree n \<noteq> None \<longleftrightarrow> dict_get archive n \<noteq> None" by (metis map_option_is_None)
    then have "set (map fst archive) = set (dict_keys hashes)" unfolding keys set_eq_iff mem_Collect_eq arch by blast
    then show "set (map fst archive) = set (dict_keys hashes)
        \<and> (\<forall>(name, digest)\<in>set hashes. map_option (lib_sha256 L) (dict_get archive name) = Some digest)"
      using r vals by auto
  qed
  have "verify_release_bundle L R payload hashes = Inr payload \<longleftrightarrow>
      distinct (map fst archive) \<and> (\<forall>n. map_option (lib_sha256 L) (dict_get archive n) = hashes_of L tree n)"
    unfolding run each entries [symmetric] ..
  with Some show ?thesis by simp
qed (simp add: verify_release_bundle_def)

lemma bundled:
  assumes "build_release_bundle R tree = Inr payload"
  shows "payload = rd_zip R (snapshots_of tree)"
proof -
  have "sort_key fst (snapshots_of tree) = snapshots_of tree"
    by (rule sort_key_id_if_sorted) (simp only: snapshot_keys sorted_sort)
  with assms show ?thesis by (auto simp: build_release_bundle_def snapshot_Inr)
qed

text \<open>(C16) The bundle built from the planned files passes the check against the plan,
  and where SHA-256 tells the files apart from anything else, a bundle passes exactly when it holds the released
  files, each once and unchanged, and nothing else.\<close>

theorem verified_bundle_is_planned:
  assumes "resolve_release_plan L R i disk product_tree_of ids = Inr plan" and "tree = product_tree_of (rp_product_key plan)"
    and archives: "rd_unzip R (rd_zip R (snapshots_of tree)) = Some (snapshots_of tree)"
    and no_collision: "\<And>n x y. dict_get (pt_files tree) n = Some x \<Longrightarrow> lib_sha256 L y = lib_sha256 L x \<Longrightarrow> y = x"
  shows "(case build_release_bundle R tree of
        Inl e \<Rightarrow> True | Inr payload \<Rightarrow> verify_release_bundle L R payload (rp_artifact_hashes plan) = Inr payload)
    \<and> (verify_release_bundle L R received (rp_artifact_hashes plan) = Inr received \<longleftrightarrow>
         (\<exists>archive. rd_unzip R received = Some archive \<and> distinct (map fst archive)
            \<and> dict_get archive = (\<lambda>n. if n \<in> set (released tree) then dict_get (pt_files tree) n else None)))"
proof -
  obtain hashes where h: "dict_ok hashes" "dict_get hashes = hashes_of L tree" "rp_artifact_hashes plan = hashes"
    using assms(1)
  proof (cases rule: resolve_release_plan_Inr)
    case (1 reg p ts q cid c hashes candidate payload f)
    note plan = build_release_plan_Inr [OF 1(16)]
    have "verify_release_snapshots L (snapshots_of tree) q = Inr hashes" using 1(12) plan(2) assms(2) by simp
    from verified_snapshots(1,2) [OF this] plan(5) show ?thesis by (rule that)
  qed
  note check = verify_bundle_iff [OF h(1,2), of R, folded h(3)]
  let ?files = "\<lambda>n. if n \<in> set (released tree) then dict_get (pt_files tree) n else None"
  have same: "(map_option (lib_sha256 L) (dict_get archive n) = hashes_of L tree n) \<longleftrightarrow> dict_get archive n = ?files n" for archive n
    using no_collision [of n] by (cases "dict_get archive n"; cases "?files n") (auto simp: hashes_of_def split: if_splits)
  have "verify_release_bundle L R payload (rp_artifact_hashes plan) = Inr payload" if "build_release_bundle R tree = Inr payload" for payload
  proof -
    have "distinct (map fst (snapshots_of tree))" using released_distinct [of tree] by simp
    moreover from archives bundled [OF that] have "rd_unzip R payload = Some (snapshots_of tree)" by simp
    moreover have "\<forall>n. map_option (lib_sha256 L) (dict_get (snapshots_of tree) n) = hashes_of L tree n"
      by (simp add: snapshot_get hashes_of_def)
    ultimately show ?thesis unfolding check by blast
  qed
  moreover have "verify_release_bundle L R received (rp_artifact_hashes plan) = Inr received \<longleftrightarrow>
      (\<exists>archive. rd_unzip R received = Some archive \<and> distinct (map fst archive) \<and> dict_get archive = ?files)"
    unfolding check same fun_eq_iff ..
  ultimately show ?thesis by (simp split: sum.splits)
qed

section \<open>A sample release\<close>

definition sample_disk :: registry_disk where
  "sample_disk = (rg_disk reg0)\<lparr>dk_products := [(json_name pid1, Json product1)], dk_tables := [(json_name tid1, Json table1)],
     dk_mappings := [(json_name pid1, Json [ref1])]\<rparr>"

definition sample_tree :: product_tree where
  "sample_tree = \<lparr>pt_files = map (\<lambda>p. (p, p)) (map generated GENERATED_ASSETS @ map quality REQUIRED_QUALITY_ASSETS), pt_others = []\<rparr>"

definition sample_quality :: stored_quality where
  "sample_quality = \<lparr>qr_status = Q_PASS, qr_product_id = Some pid1, qr_product_version = Some 1, qr_hard_errors = [], qr_warnings = [],
     qr_artifact_hashes = map (\<lambda>n. (n, generated n)) GENERATED_ASSETS,
     qr_quality_artifact_hashes = map (\<lambda>n. (n, quality n)) (tl REQUIRED_QUALITY_ASSETS)\<rparr>"

definition sample_reader :: reader where
  "sample_reader = \<lparr>rd_quality = (\<lambda>s. if s = quality ''quality-report.json'' then Some sample_quality else None),
     rd_fidelity = (\<lambda>_. Some report1), rd_validation = (\<lambda>_. None), rd_yaml = (\<lambda>_. Inr JNull), rd_text = (\<lambda>_. []),
     rd_zip = (\<lambda>_. ''zip''), rd_unzip = (\<lambda>s. if s = ''zip'' then Some (snapshots_of sample_tree) else None),
     rd_float = (\<lambda>_. ''0.0'')\<rparr>"

definition plain_library :: library where
  "plain_library = \<lparr>lib_nfc = id, lib_sha256 = id\<rparr>"

abbreviation sample_resolve :: "release_plan result" where
  "sample_resolve \<equiv> resolve_release_plan plain_library sample_reader ''orders'' sample_disk (\<lambda>_. sample_tree) None"

lemma sample_plan: "\<exists>plan. sample_resolve = Inr plan"
proof -
  have "is_ok sample_resolve" by code_simp
  then show ?thesis by (simp add: is_ok_iff)
qed

lemma release_plan_gated_witness:
  "\<exists>plan payload q. sample_resolve = Inr plan \<and> rd_quality sample_reader payload = Some q \<and> qr_status q \<noteq> Q_FAIL"
proof -
  from sample_plan obtain plan where plan: "sample_resolve = Inr plan" by blast
  from release_plan_gated [OF plan] plan show ?thesis by blast
qed

lemma release_plan_versions_witness:
  "\<exists>plan reg. sample_resolve = Inr plan \<and> load_registry sample_disk = Inr reg
    \<and> rp_table_tags plan = sort (map (\<lambda>m. version_tag ''table'' (ref_table_id m) (ref_table_version m))
        (filter (\<lambda>m. ref_product_id m = rp_product_id plan) (mappings reg)))"
proof -
  from sample_plan obtain plan where plan: "sample_resolve = Inr plan" by blast
  then obtain reg where reg: "load_registry sample_disk = Inr reg" by (auto simp: resolve_release_plan_def)
  from release_plan_versions [OF plan reg refl] plan reg show ?thesis by simp
qed

lemma verified_bundle_is_planned_witness:
  "\<exists>plan payload. sample_resolve = Inr plan \<and> build_release_bundle sample_reader sample_tree = Inr payload
    \<and> verify_release_bundle plain_library sample_reader payload (rp_artifact_hashes plan) = Inr payload"
proof -
  from sample_plan obtain plan where plan: "sample_resolve = Inr plan" by blast
  have "is_ok (build_release_bundle sample_reader sample_tree)" by code_simp
  then obtain payload where payload: "build_release_bundle sample_reader sample_tree = Inr payload" by (auto simp: is_ok_iff)
  have "rd_unzip sample_reader (rd_zip sample_reader (snapshots_of sample_tree)) = Some (snapshots_of sample_tree)"
    by (simp add: sample_reader_def)
  from verified_bundle_is_planned [OF plan refl this] payload plan show ?thesis by (simp add: plain_library_def)
qed

end
