(* ===== verification/Remote.thy ===== *)
theory Remote
  imports Canonical "HOL-Library.Sublist"
begin

text \<open>
  The commands the workflows send to Git and GitHub (\<open>adapters/git_cli.py\<close>, \<open>adapters/github_cli.py\<close>), as far as
  releases need them: tags, releases, commit statuses and repository events. The clone and the hosting service are
  one state; the environment says which call fails and whether a failing call took effect before its answer was
  lost. The lemmas say what each command can change.
\<close>

section \<open>State, environment and effects\<close>

record mutation =
  mu_resource :: string
  mu_target :: string
  mu_action :: string
  mu_result_id :: "string option"

text \<open>The workflow errors: the plain ones, and the one that reports what was done before the failure.\<close>

datatype workflow_failure =
    Workflow exit_code string
  | Partial string bool "mutation list"
  | Other exn

fun retryable :: "workflow_failure \<Rightarrow> bool" where
  "retryable (Workflow kind _) = (kind = TRANSIENT)"
| "retryable (Partial _ r _) = r"
| "retryable (Other _) = False"

record release_asset =
  ra_name :: string
  ra_digest :: "string option"

record release_state =
  rs_id :: nat
  rs_tag :: string
  rs_title :: string
  rs_draft :: bool
  rs_prerelease :: bool
  rs_assets :: "release_asset list"

record pull_request =
  pl_head_sha :: string
  pl_merged_at :: "string option"
  pl_merge_sha :: "string option"

record world =
  wo_head :: string
  wo_tags :: "string \<Rightarrow> string option"
  wo_remote_tags :: "string \<Rightarrow> string option"
  wo_releases :: "string \<Rightarrow> release_state option"
  wo_statuses :: "string \<times> string \<Rightarrow> string option"
  wo_events :: "(string \<times> json) list"
  wo_calls :: nat

text \<open>The n-th call fails; a failing call may have taken effect; a failing push may have pushed some of its tags. The
  rest is what GitHub and Git know: the head of the default branch, pull requests and ancestry.\<close>

record remote_env =
  en_fails :: "nat \<Rightarrow> bool"
  en_applied :: "nat \<Rightarrow> bool"
  en_pushed :: "nat \<Rightarrow> string \<Rightarrow> bool"
  en_default_head :: string
  en_pull_request :: "int \<Rightarrow> pull_request option"
  en_ancestor :: "string \<Rightarrow> string \<Rightarrow> bool"

type_synonym 'a command = "world \<Rightarrow> (workflow_failure + 'a) \<times> world"

definition give :: "'a \<Rightarrow> 'a command" where "give x w = (Inr x, w)"

definition raise_failure :: "workflow_failure \<Rightarrow> 'a command" where "raise_failure e w = (Inl e, w)"

definition andthen :: "'a command \<Rightarrow> ('a \<Rightarrow> 'b command) \<Rightarrow> 'b command" where
  "andthen c f w = (case c w of (Inl e, w') \<Rightarrow> (Inl e, w') | (Inr x, w') \<Rightarrow> f x w')"

definition read_world :: "(world \<Rightarrow> 'a) \<Rightarrow> 'a command" where "read_world f w = (Inr (f w), w)"

text \<open>One call of \<open>git\<close> or \<open>gh\<close>.\<close>

definition send :: "remote_env \<Rightarrow> string \<Rightarrow> (world \<Rightarrow> world) \<Rightarrow> unit command" where
  "send E code effect w =
     (let n = wo_calls w; w' = w\<lparr>wo_calls := n + 1\<rparr>
      in if en_fails E n then (Inl (Workflow TRANSIENT code), if en_applied E n then effect w' else w')
         else (Inr (), effect w'))"

definition ask :: "remote_env \<Rightarrow> string \<Rightarrow> (world \<Rightarrow> 'a) \<Rightarrow> 'a command" where
  "ask E code f = andthen (send E code id) (\<lambda>_. read_world f)"

text \<open>A validation that raises a \<open>ValueError\<close> or a conflict before anything is sent.\<close>

definition check :: "bool \<Rightarrow> workflow_failure \<Rightarrow> unit command" where
  "check b e = (if b then give () else raise_failure e)"

section \<open>Git\<close>

text \<open>What \<open>git\<close> prints for a commit is its full hash in lower case, so the check of its output passes; an
  argument is brought to lower case and checked.\<close>

definition GitSha :: "string \<Rightarrow> bool" where
  "GitSha s \<longleftrightarrow> length s = 40 \<and> list_all is_hex s"

definition validated_sha :: "string \<Rightarrow> string \<Rightarrow> string command" where
  "validated_sha code value =
     (let normalized = str_lower value
      in andthen (check (GitSha normalized) (Workflow CONFLICT code)) (\<lambda>_. give normalized))"

definition ref_char :: "char \<Rightarrow> bool" where
  "ref_char c \<longleftrightarrow> is_upper c \<or> is_lower c \<or> is_digit c \<or> c \<in> set ''._/-''"

definition ref_ok :: "string \<Rightarrow> bool" where
  "ref_ok s \<longleftrightarrow> s \<noteq> [] \<and> (is_upper (hd s) \<or> is_lower (hd s) \<or> is_digit (hd s)) \<and> list_all ref_char s
     \<and> \<not> sublist ''..'' s \<and> \<not> sublist ''//'' s \<and> \<not> ends_with ''/'' s \<and> \<not> ends_with ''.'' s \<and> \<not> ends_with ''.lock'' s"

definition validate_ref :: "string \<Rightarrow> unit command" where
  "validate_ref s = check (ref_ok s) (Workflow CONFLICT ''INVALID_GIT_REF'')"

definition current_sha :: "remote_env \<Rightarrow> string command" where
  "current_sha E = ask E ''HEAD_RESOLUTION_FAILED'' wo_head"

definition tag_target :: "remote_env \<Rightarrow> string \<Rightarrow> string option command" where
  "tag_target E tag = andthen (validate_ref tag) (\<lambda>_. ask E ''TAG_LOOKUP_FAILED'' (\<lambda>w. wo_tags w tag))"

text \<open>Git refuses to create a tag that exists.\<close>

definition set_tag :: "string \<Rightarrow> string \<Rightarrow> world \<Rightarrow> world" where
  "set_tag tag target w = (if wo_tags w tag = None then w\<lparr>wo_tags := (wo_tags w)(tag \<mapsto> target)\<rparr> else w)"

definition create_annotated_tag :: "remote_env \<Rightarrow> string \<Rightarrow> string \<Rightarrow> unit command" where
  "create_annotated_tag E tag value =
     andthen (validate_ref tag) (\<lambda>_.
     andthen (validated_sha ''INVALID_GIT_SHA'' (strip value)) (\<lambda>target.
     andthen (tag_target E tag) (\<lambda>existing.
     case existing of
       Some e \<Rightarrow> check (e = target) (Workflow CONFLICT ''TAG_TARGET_CONFLICT'')
     | None \<Rightarrow>
         andthen (send E ''GIT_IDENTITY_FAILED'' id) (\<lambda>_.
         andthen (send E ''GIT_IDENTITY_FAILED'' id) (\<lambda>_.
         andthen (send E ''TAG_CREATE_FAILED'' (set_tag tag target)) (\<lambda>_.
         andthen (tag_target E tag) (\<lambda>found.
           check (found = Some target) (Workflow TRANSIENT ''TAG_VERIFICATION_FAILED''))))))))"

text \<open>A pushed tag never replaces a remote tag; a rejected one does not keep the others from being pushed.\<close>

definition push_some :: "(string \<Rightarrow> bool) \<Rightarrow> world \<Rightarrow> world" where
  "push_some S w = w\<lparr>wo_remote_tags :=
     (\<lambda>t. if S t \<and> wo_remote_tags w t = None then wo_tags w t else wo_remote_tags w t)\<rparr>"

definition push_tags :: "remote_env \<Rightarrow> string list \<Rightarrow> unit command" where
  "push_tags E ts w =
     (if ts = [] then (Inr (), w)
      else if \<not> list_all ref_ok ts then (Inl (Workflow CONFLICT ''INVALID_GIT_REF''), w)
      else
        let n = wo_calls w; w' = w\<lparr>wo_calls := n + 1\<rparr>
        in if en_fails E n then (Inl (Workflow TRANSIENT ''TAG_PUSH_FAILED''), push_some (\<lambda>t. t \<in> set ts \<and> en_pushed E n t) w')
           else if \<exists>t\<in>set ts. wo_tags w t = None then (Inl (Workflow TRANSIENT ''TAG_PUSH_FAILED''), w')
           else if \<exists>t\<in>set ts. wo_remote_tags w t \<notin> {None, wo_tags w t}
           then (Inl (Workflow CONFLICT ''TAG_PUSH_CONFLICT''), push_some (\<lambda>t. t \<in> set ts) w')
           else (Inr (), push_some (\<lambda>t. t \<in> set ts) w'))"

definition is_ancestor :: "remote_env \<Rightarrow> string \<Rightarrow> string \<Rightarrow> bool command" where
  "is_ancestor E ancestor descendant =
     andthen (validated_sha ''INVALID_GIT_SHA'' (strip ancestor)) (\<lambda>a.
     andthen (validated_sha ''INVALID_GIT_SHA'' (strip descendant)) (\<lambda>d.
       ask E ''ANCESTRY_CHECK_FAILED'' (\<lambda>_. en_ancestor E a d)))"

section \<open>GitHub\<close>

definition name_ok :: "string \<Rightarrow> bool" where
  "name_ok s \<longleftrightarrow> s \<noteq> [] \<and> (is_upper (hd s) \<or> is_lower (hd s) \<or> is_digit (hd s))
     \<and> list_all (\<lambda>c. is_upper c \<or> is_lower c \<or> is_digit c \<or> c \<in> set ''_.:/@*+-'') s
     \<and> \<not> sublist ''..'' s \<and> \<not> sublist ''//'' s"

definition get_pr :: "remote_env \<Rightarrow> int \<Rightarrow> pull_request command" where
  "get_pr E number =
     andthen (check (number > 0) (Other (ValueError ''pull request number must be positive''))) (\<lambda>_.
     andthen (ask E ''GITHUB_API_FAILED'' (\<lambda>_. en_pull_request E number)) (\<lambda>p.
       case p of None \<Rightarrow> raise_failure (Workflow TRANSIENT ''GITHUB_API_FAILED'') | Some x \<Rightarrow> give x))"

definition get_release :: "remote_env \<Rightarrow> string \<Rightarrow> release_state option command" where
  "get_release E tag =
     andthen (check (name_ok tag) (Other (ValueError ''invalid tag''))) (\<lambda>_.
       ask E ''RELEASE_LOOKUP_FAILED'' (\<lambda>w. wo_releases w tag))"

definition set_release :: "string \<Rightarrow> release_state \<Rightarrow> world \<Rightarrow> world" where
  "set_release tag r w = w\<lparr>wo_releases := (wo_releases w)(tag \<mapsto> r)\<rparr>"

text \<open>A new release of a tag GitHub does not know creates that tag at the head of the default branch; a second
  release of a tag is refused.\<close>

definition create_release :: "remote_env \<Rightarrow> string \<Rightarrow> string \<Rightarrow> world \<Rightarrow> world" where
  "create_release E tag title w =
     (if wo_releases w tag \<noteq> None then w
      else set_release tag \<lparr>rs_id = wo_calls w, rs_tag = tag, rs_title = title, rs_draft = False, rs_prerelease = False, rs_assets = []\<rparr>
       (if wo_remote_tags w tag = None then w\<lparr>wo_remote_tags := (wo_remote_tags w)(tag \<mapsto> en_default_head E)\<rparr> else w))"

definition patch_release :: "string \<Rightarrow> string \<Rightarrow> world \<Rightarrow> world" where
  "patch_release tag title w =
     (case wo_releases w tag of
        None \<Rightarrow> w
      | Some r \<Rightarrow> set_release tag (r\<lparr>rs_title := title, rs_draft := False, rs_prerelease := False\<rparr>) w)"

definition upload_asset :: "string \<Rightarrow> release_asset \<Rightarrow> world \<Rightarrow> world" where
  "upload_asset tag a w =
     (case wo_releases w tag of
        None \<Rightarrow> w
      | Some r \<Rightarrow> set_release tag (r\<lparr>rs_assets := rs_assets r @ [a]\<rparr>) w)"

definition release_mutation :: "string \<Rightarrow> string \<Rightarrow> nat \<Rightarrow> string \<Rightarrow> mutation" where
  "release_mutation tag action i tail =
     \<lparr>mu_resource = ''release'', mu_target = tag, mu_action = action, mu_result_id = Some (nat_str i @ tail)\<rparr>"

text \<open>The body of \<open>upsert_release\<close>; the asset's bytes have the given hash.\<close>

definition upsert_body :: "remote_env \<Rightarrow> string \<Rightarrow> string \<Rightarrow> string \<Rightarrow> string \<Rightarrow> mutation command" where
  "upsert_body E tag title name sha256 =
     (let upload = (\<lambda>i. andthen (send E ''RELEASE_UPLOAD_FAILED'' (upload_asset tag \<lparr>ra_name = name, ra_digest = Some sha256\<rparr>))
                       (\<lambda>_. give (release_mutation tag ''upload'' i (CHR '':'' # sha256))))
      in andthen (get_release E tag) (\<lambda>existing.
         case existing of
           None \<Rightarrow>
             andthen (send E ''GITHUB_API_FAILED'' (create_release E tag title)) (\<lambda>_.
             andthen (read_world (\<lambda>w. case wo_releases w tag of Some r \<Rightarrow> rs_id r | None \<Rightarrow> 0)) upload)
         | Some r \<Rightarrow>
             let matching = filter (\<lambda>a. ra_name a = name) (rs_assets r);
                 metadata_changed = (rs_title r \<noteq> title \<or> rs_draft r \<or> rs_prerelease r)
             in if length matching > 1 then raise_failure (Workflow CONFLICT ''MULTIPLE_RELEASE_ASSETS'')
                else if matching \<noteq> [] \<and> ra_digest (hd matching) \<noteq> Some sha256
                then raise_failure (Workflow CONFLICT ''RELEASE_ASSET_CONFLICT'')
                else
                  andthen (if metadata_changed then send E ''GITHUB_API_FAILED'' (patch_release tag title) else give ()) (\<lambda>_.
                    if matching \<noteq> []
                    then give (release_mutation tag (if metadata_changed then ''update'' else ''noop'') (rs_id r) [])
                    else upload (rs_id r))))"

definition upsert_release :: "library \<Rightarrow> remote_env \<Rightarrow> string \<Rightarrow> string \<Rightarrow> string \<Rightarrow> string \<Rightarrow> string \<Rightarrow> mutation command" where
  "upsert_release L E tag title name payload sha256 =
     andthen (check (name_ok tag) (Other (ValueError ''invalid tag''))) (\<lambda>_.
     andthen (check (length sha256 = 64 \<and> list_all is_hex sha256) (Other (ValueError ''invalid release asset SHA-256''))) (\<lambda>_.
     andthen (check (lib_sha256 L payload = sha256) (Workflow CONFLICT ''RELEASE_BUNDLE_CHANGED'')) (\<lambda>_.
     andthen (send E ''RELEASE_ASSET_STAGING_FAILED'' id) (\<lambda>_ w.
       case upsert_body E tag title name sha256 w of
         (Inr m, w') \<Rightarrow> andthen (send E ''RELEASE_ASSET_CLEANUP_FAILED'' id) (\<lambda>_. give m) w'
       | (Inl e, w') \<Rightarrow> (Inl e, snd (send E ''RELEASE_ASSET_CLEANUP_FAILED'' id w'))))))"

definition get_status :: "remote_env \<Rightarrow> string \<Rightarrow> string \<Rightarrow> string option command" where
  "get_status E value context =
     andthen (validated_sha ''INVALID_GITHUB_SHA'' value) (\<lambda>sha.
       ask E ''GITHUB_API_FAILED'' (\<lambda>w. wo_statuses w (sha, context)))"

definition set_status :: "remote_env \<Rightarrow> string \<Rightarrow> string \<Rightarrow> string \<Rightarrow> mutation command" where
  "set_status E value context state =
     andthen (validated_sha ''INVALID_GITHUB_SHA'' value) (\<lambda>sha.
     andthen (check (state \<in> {''error'', ''failure'', ''pending'', ''success''}) (Other (ValueError ''invalid commit status state''))) (\<lambda>_.
     andthen (send E ''GITHUB_API_FAILED'' (\<lambda>w. w\<lparr>wo_statuses := (wo_statuses w)((sha, context) \<mapsto> state)\<rparr>)) (\<lambda>_.
       give \<lparr>mu_resource = ''status'', mu_target = sha @ '':'' @ context, mu_action = ''set'', mu_result_id = None\<rparr>)))"

definition repository_dispatch :: "remote_env \<Rightarrow> string \<Rightarrow> json \<Rightarrow> mutation command" where
  "repository_dispatch E event_type payload =
     andthen (check (name_ok event_type) (Other (ValueError ''invalid event type''))) (\<lambda>_.
     andthen (send E ''GITHUB_API_FAILED'' (\<lambda>w. w\<lparr>wo_events := wo_events w @ [(event_type, payload)]\<rparr>)) (\<lambda>_.
       give \<lparr>mu_resource = ''repository_dispatch'', mu_target = event_type, mu_action = ''dispatch'', mu_result_id = None\<rparr>))"

section \<open>What commands may change\<close>

text \<open>A relation between states that does not see the number of calls.\<close>

locale state_relation =
  fixes leads :: "world \<Rightarrow> world \<Rightarrow> bool"
  assumes rel_refl: "leads w w" and rel_trans: "leads u v \<Longrightarrow> leads v w \<Longrightarrow> leads u w"
    and rel_count: "leads w (w\<lparr>wo_calls := n\<rparr>)"
begin

definition keeps :: "'a command \<Rightarrow> bool" where
  "keeps c \<longleftrightarrow> (\<forall>w. leads w (snd (c w)))"

lemma keeps_give: "keeps (give x)"
  by (simp add: keeps_def give_def rel_refl)

lemma keeps_raise: "keeps (raise_failure e)"
  by (simp add: keeps_def raise_failure_def rel_refl)

lemma keeps_check: "keeps (check b e)"
  by (simp add: check_def keeps_give keeps_raise)

lemma keeps_read: "keeps (read_world f)"
  by (simp add: keeps_def read_world_def rel_refl)

lemma keeps_andthen: "keeps c \<Longrightarrow> (\<And>x. keeps (f x)) \<Longrightarrow> keeps (andthen c f)"
  unfolding keeps_def andthen_def by (auto split: prod.splits sum.splits) (metis rel_trans snd_conv)+

lemma keeps_send: "(\<And>w. leads w (effect w)) \<Longrightarrow> keeps (send E code effect)"
  unfolding keeps_def send_def Let_def by (auto intro: rel_count rel_trans [OF rel_count])

lemma keeps_ask: "keeps (ask E code f)"
  unfolding ask_def by (intro keeps_andthen keeps_send keeps_read) (simp add: rel_refl)

lemma keeps_let: "(\<And>x. keeps (f x)) \<Longrightarrow> keeps (Let y f)"
  by simp

lemmas keeps_intros = keeps_give keeps_raise keeps_check keeps_read keeps_andthen keeps_ask

end

text \<open>Tags, remote tags and the assets of a release are never moved or replaced.\<close>

definition grows :: "world \<Rightarrow> world \<Rightarrow> bool" where
  "grows w w' \<longleftrightarrow> wo_head w' = wo_head w \<and> wo_tags w \<subseteq>\<^sub>m wo_tags w' \<and> wo_remote_tags w \<subseteq>\<^sub>m wo_remote_tags w'
     \<and> (\<forall>tag r. wo_releases w tag = Some r \<longrightarrow>
          (\<exists>r'. wo_releases w' tag = Some r' \<and> rs_id r' = rs_id r \<and> rs_tag r' = rs_tag r \<and> set (rs_assets r) \<subseteq> set (rs_assets r')))"

interpretation growth: state_relation grows
proof
  fix u v w :: world and n
  show "grows w w" by (auto simp: grows_def)
  show "grows w (w\<lparr>wo_calls := n\<rparr>)" by (auto simp: grows_def)
  assume a: "grows u v" "grows v w"
  have "\<exists>r''. wo_releases w tag = Some r'' \<and> rs_id r'' = rs_id r \<and> rs_tag r'' = rs_tag r \<and> set (rs_assets r) \<subseteq> set (rs_assets r'')"
    if r: "wo_releases u tag = Some r" for tag r
  proof -
    from a(1) r obtain r' where r': "wo_releases v tag = Some r'" "rs_id r' = rs_id r" "rs_tag r' = rs_tag r"
      "set (rs_assets r) \<subseteq> set (rs_assets r')" unfolding grows_def by blast
    moreover from a(2) r'(1) obtain r'' where "wo_releases w tag = Some r''" "rs_id r'' = rs_id r'" "rs_tag r'' = rs_tag r'"
      "set (rs_assets r') \<subseteq> set (rs_assets r'')" unfolding grows_def by blast
    ultimately show ?thesis by auto
  qed
  moreover have "wo_tags u \<subseteq>\<^sub>m wo_tags w" "wo_remote_tags u \<subseteq>\<^sub>m wo_remote_tags w"
    using a by (auto simp: grows_def intro: map_le_trans)
  ultimately show "grows u w" using a by (simp add: grows_def)
qed

lemma grows_effects:
  "grows w (set_tag tag target w)" "grows w (push_some S w)" "grows w (create_release E tag title w)"
  "grows w (patch_release tag title w)" "grows w (upload_asset tag a w)"
  "grows w (w\<lparr>wo_statuses := st\<rparr>)" "grows w (w\<lparr>wo_events := ev\<rparr>)" "grows w (id w)"
  by (auto simp: grows_def set_tag_def push_some_def create_release_def patch_release_def upload_asset_def set_release_def
      map_le_def split: option.splits)

lemma grows_push_tags: "growth.keeps (push_tags E ts)"
  unfolding growth.keeps_def push_tags_def Let_def
  by (auto intro: growth.rel_refl growth.rel_count growth.rel_trans [OF growth.rel_count grows_effects(2)])

lemma grows_send:
  "growth.keeps (send E code (set_tag tag target))" "growth.keeps (send E code (push_some S))"
  "growth.keeps (send E code (create_release E' tag title))" "growth.keeps (send E code (patch_release tag title))"
  "growth.keeps (send E code (upload_asset tag a))" "growth.keeps (send E code id)"
  "growth.keeps (send E code (\<lambda>w. w\<lparr>wo_statuses := f w\<rparr>))" "growth.keeps (send E code (\<lambda>w. w\<lparr>wo_events := g w\<rparr>))"
  by (intro growth.keeps_send grows_effects)+

lemmas grows_intros = growth.keeps_intros grows_send grows_push_tags

lemma grows_validated: "growth.keeps (validated_sha code value)"
  unfolding validated_sha_def Let_def by (intro grows_intros)

lemma grows_tag_target: "growth.keeps (tag_target E tag)"
  unfolding tag_target_def validate_ref_def by (intro grows_intros)

lemma grows_create_tag: "growth.keeps (create_annotated_tag E tag value)"
  unfolding create_annotated_tag_def validate_ref_def
  by (intro growth.keeps_andthen grows_validated grows_tag_target growth.keeps_check)
     (auto split: option.splits intro!: grows_intros grows_tag_target)

lemma grows_get_release: "growth.keeps (get_release E tag)"
  unfolding get_release_def by (intro grows_intros)

lemma grows_upsert_body: "growth.keeps (upsert_body E tag title name sha)"
  unfolding upsert_body_def Let_def
  by (intro growth.keeps_andthen grows_get_release) (auto split: option.splits intro!: grows_intros)

lemma grows_upsert: "growth.keeps (upsert_release L E tag title name payload sha)"
proof -
  have "growth.keeps (\<lambda>w. case upsert_body E tag title name sha w of
         (Inr m, w') \<Rightarrow> andthen (send E ''RELEASE_ASSET_CLEANUP_FAILED'' id) (\<lambda>_. give m) w'
       | (Inl e, w') \<Rightarrow> (Inl e, snd (send E ''RELEASE_ASSET_CLEANUP_FAILED'' id w')))"
    unfolding growth.keeps_def
  proof
    fix w
    obtain r w' where b: "upsert_body E tag title name sha w = (r, w')" by (cases "upsert_body E tag title name sha w")
    have g: "grows w w'" using grows_upsert_body b unfolding growth.keeps_def by (metis snd_conv)
    have "growth.keeps (send E ''RELEASE_ASSET_CLEANUP_FAILED'' id)"
      "growth.keeps (andthen (send E ''RELEASE_ASSET_CLEANUP_FAILED'' id) (\<lambda>_. give m))" for m :: mutation
      by (intro grows_intros)+
    then show "grows w (snd (case upsert_body E tag title name sha w of
         (Inr m, w') \<Rightarrow> andthen (send E ''RELEASE_ASSET_CLEANUP_FAILED'' id) (\<lambda>_. give m) w'
       | (Inl e, w') \<Rightarrow> (Inl e, snd (send E ''RELEASE_ASSET_CLEANUP_FAILED'' id w'))))"
      using growth.rel_trans [OF g] by (cases r) (auto simp: b growth.keeps_def)
  qed
  then show ?thesis unfolding upsert_release_def by (intro growth.keeps_andthen growth.keeps_check grows_send(6))
qed

end
