(* ===== verification/Publication.thy ===== *)
theory Publication
  imports Release Remote
begin

text \<open>
  Publishing a release (\<open>application/release_publication.py\<close>): the checks that the plan, the bundle and the remote
  state still agree, then the tags and the GitHub release. The lemmas show that nothing changes before every check has
  passed, and what may change then, whatever fails; what holds after a success; and that a second run changes nothing.
\<close>

section \<open>The parts the service is built from\<close>

record publication_request =
  pq_same_repository :: bool
  pq_product_key :: string
  pq_current :: string

text \<open>The path checks of the sources of a product, of the place of the bundle file and of the file that was built, the
  plan resolver, the bundle builder, the registry, and what the bundle file holds when it is read again before the
  publication.\<close>

record publication_parts =
  pp_sources :: "string \<Rightarrow> unit result"
  pp_plan :: "release_plan result"
  pp_registry :: "registry result"
  pp_output :: "string \<Rightarrow> unit result"
  pp_bundle :: "string result"
  pp_readable :: "string \<Rightarrow> unit result"
  pp_bundle_later :: "string option"

definition lift_result :: "'a result \<Rightarrow> 'a command" where
  "lift_result r =
     (case r of
        Inr x \<Rightarrow> give x
      | Inl (WorkflowError kind code) \<Rightarrow> raise_failure (Workflow kind code)
      | Inl e \<Rightarrow> raise_failure (Other e))"

definition release_conflict :: "exn \<Rightarrow> string \<Rightarrow> workflow_failure" where
  "release_conflict e fallback =
     (let code = takeWhile (\<lambda>c. c \<noteq> CHR '':'') (exn_message e)
      in Workflow CONFLICT (if code = [] then fallback else code))"

text \<open>\<open>except (OSError, TypeError, ValueError, ReleaseBlocked)\<close>\<close>

definition lift_release :: "string \<Rightarrow> 'a result \<Rightarrow> 'a command" where
  "lift_release fallback r =
     (case r of
        Inl e \<Rightarrow>
          if is_value_error e \<or> (case e of OSError _ \<Rightarrow> True | TypeError _ \<Rightarrow> True | _ \<Rightarrow> False)
          then raise_failure (release_conflict e fallback) else lift_result r
      | Inr x \<Rightarrow> give x)"

fun each :: "('a \<Rightarrow> 'b command) \<Rightarrow> 'a list \<Rightarrow> 'b list command" where
  "each f [] = give []"
| "each f (x # xs) = andthen (f x) (\<lambda>y. andthen (each f xs) (\<lambda>ys. give (y # ys)))"

section \<open>The checks\<close>

definition require_current_head :: "remote_env \<Rightarrow> string \<Rightarrow> unit command" where
  "require_current_head E expected =
     andthen (current_sha E) (\<lambda>head. check (head = expected) (Workflow SECURITY ''RELEASE_HEAD_MISMATCH''))"

definition check_merged :: "remote_env \<Rightarrow> string \<Rightarrow> product_readiness \<Rightarrow> unit command" where
  "check_merged E current readiness =
     andthen (get_pr E (rd_pr_number readiness)) (\<lambda>p.
     andthen (check (pl_head_sha p = rd_head_sha readiness) (Workflow CONFLICT ''CHANGESET_HEAD_SHA_MISMATCH'')) (\<lambda>_.
     case (pl_merged_at p, pl_merge_sha p) of
       (Some _, Some merge) \<Rightarrow>
         andthen (is_ancestor E merge current) (\<lambda>reachable.
           check reachable (Workflow CONFLICT ''CHANGESET_MERGE_NOT_REACHABLE''))
     | _ \<Rightarrow> raise_failure (Workflow CONFLICT ''CHANGESET_PR_NOT_MERGED'')))"

definition verify_changeset_readiness :: "remote_env \<Rightarrow> registry result \<Rightarrow> release_plan \<Rightarrow> string \<Rightarrow> unit command" where
  "verify_changeset_readiness E registry plan current =
     (case rp_changeset_id plan of
        None \<Rightarrow> give ()
      | Some changeset_id \<Rightarrow>
          andthen (case registry of
               Inr reg \<Rightarrow> give reg
             | Inl e \<Rightarrow> raise_failure (if is_value_error e \<or> (case e of OSError _ \<Rightarrow> True | TypeError _ \<Rightarrow> True | _ \<Rightarrow> False)
                          then Workflow CONFLICT ''RELEASE_REGISTRY_INVALID'' else Other e)) (\<lambda>reg.
          case get_changeset reg changeset_id of
            None \<Rightarrow> raise_failure (Workflow CONFLICT ''CHANGESET_INCOMPLETE'')
          | Some c \<Rightarrow>
              if change_set_status c \<noteq> READY then raise_failure (Workflow CONFLICT ''CHANGESET_INCOMPLETE'')
              else andthen (each (\<lambda>product_id.
                     case dict_get (cs_ready_products c) product_id of
                       None \<Rightarrow> raise_failure (Other (KeyError product_id))
                     | Some readiness \<Rightarrow> check_merged E current readiness) (cs_required_product_ids c)) (\<lambda>_. give ())))"

definition verify_existing_release :: "release_state option \<Rightarrow> release_plan \<Rightarrow> string \<Rightarrow> string \<Rightarrow> unit command" where
  "verify_existing_release release plan asset_name artifact_sha256 =
     (case release of
        None \<Rightarrow> give ()
      | Some r \<Rightarrow>
          let matching = filter (\<lambda>a. ra_name a = asset_name) (rs_assets r)
          in if rs_tag r \<noteq> rp_product_tag plan then raise_failure (Workflow CONFLICT ''RELEASE_TAG_CONFLICT'')
             else if length matching > 1 then raise_failure (Workflow CONFLICT ''MULTIPLE_RELEASE_ASSETS'')
             else if matching \<noteq> [] \<and> ra_digest (hd matching) \<noteq> Some artifact_sha256
             then raise_failure (Workflow CONFLICT ''RELEASE_ASSET_CONFLICT'')
             else give ())"

definition require_bundle_unchanged :: "library \<Rightarrow> string option \<Rightarrow> string \<Rightarrow> unit command" where
  "require_bundle_unchanged L later expected_sha256 =
     check (map_option (lib_sha256 L) later = Some expected_sha256) (Workflow CONFLICT ''RELEASE_BUNDLE_CHANGED'')"

section \<open>The publication\<close>

definition tag_mutation :: "string \<Rightarrow> mutation" where
  "tag_mutation tag = \<lparr>mu_resource = ''tag'', mu_target = tag, mu_action = ''create'', mu_result_id = None\<rparr>"

fun create_tags :: "remote_env \<Rightarrow> string \<Rightarrow> (string \<times> string option) list \<Rightarrow> string list command" where
  "create_tags E current [] = give []"
| "create_tags E current ((tag, existing) # rest) =
     (if existing \<noteq> None then create_tags E current rest
      else andthen (create_annotated_tag E tag current) (\<lambda>_.
           andthen (create_tags E current rest) (\<lambda>new_tags. give (tag # new_tags))))"

text \<open>A failure after the first remote attempt is reported with what was done.\<close>

definition converging :: "mutation list \<Rightarrow> 'a command \<Rightarrow> 'a command" where
  "converging mutations c w =
     (case c w of
        (Inl (Workflow kind code), w') \<Rightarrow> (Inl (Partial ''RELEASE_PUBLICATION_PARTIAL'' (retryable (Workflow kind code)) mutations), w')
      | r \<Rightarrow> r)"

definition bundle_name :: "release_plan \<Rightarrow> string" where
  "bundle_name plan = rp_product_id plan @ ''-v'' @ int_str (rp_product_version plan) @ ''.zip''"

definition publish_remote ::
  "library \<Rightarrow> remote_env \<Rightarrow> release_plan \<Rightarrow> string \<Rightarrow> string \<Rightarrow> (string \<times> string option) list \<Rightarrow> mutation list command" where
  "publish_remote L E plan current payload existing_targets =
     andthen (create_tags E current existing_targets) (\<lambda>new_tags.
       let mutations = map tag_mutation new_tags
       in converging mutations
            (andthen (push_tags E new_tags) (\<lambda>_.
             andthen (upsert_release L E (rp_product_tag plan) (rp_product_key plan @ '' v'' @ int_str (rp_product_version plan))
                        (bundle_name plan) payload (lib_sha256 L payload)) (\<lambda>m.
               give (mutations @ [m])))))"

record publication_result =
  pr_plan :: release_plan
  pr_commit :: string
  pr_artifact_sha256 :: string
  pr_mutations :: "mutation list"

text \<open>The three stages before anything is changed: the plan, the bundle, and the remote state.\<close>

definition publication_plan :: "remote_env \<Rightarrow> publication_parts \<Rightarrow> publication_request \<Rightarrow> release_plan command" where
  "publication_plan E parts request =
     andthen (check (pq_same_repository request) (Workflow SECURITY ''RELEASE_REPOSITORY_MISMATCH'')) (\<lambda>_.
     andthen (require_current_head E (pq_current request)) (\<lambda>_.
     andthen (lift_result (pp_sources parts (pq_product_key request))) (\<lambda>_.
     andthen (lift_release ''RELEASE_PLAN_INVALID'' (pp_plan parts)) (\<lambda>plan.
     andthen (verify_changeset_readiness E (pp_registry parts) plan (pq_current request)) (\<lambda>_. give plan)))))"

definition publication_bundle ::
  "library \<Rightarrow> reader \<Rightarrow> remote_env \<Rightarrow> publication_parts \<Rightarrow> string \<Rightarrow> release_plan \<Rightarrow> string command" where
  "publication_bundle L R E parts current plan =
     andthen (lift_result (pp_output parts (bundle_name plan))) (\<lambda>_.
     andthen (lift_result (pp_sources parts (rp_product_key plan))) (\<lambda>_.
     andthen (lift_release ''RELEASE_BUNDLE_BUILD_FAILED'' (pp_bundle parts)) (\<lambda>zipped.
     andthen (lift_result (pp_readable parts (bundle_name plan))) (\<lambda>_.
     andthen (lift_release ''RELEASE_BUNDLE_INVALID'' (verify_release_bundle L R zipped (rp_artifact_hashes plan))) (\<lambda>payload.
     andthen (require_current_head E current) (\<lambda>_. give payload))))))"

definition publication_targets ::
  "library \<Rightarrow> remote_env \<Rightarrow> publication_parts \<Rightarrow> string \<Rightarrow> release_plan \<Rightarrow> string \<Rightarrow> string option list command" where
  "publication_targets L E parts current plan payload =
     andthen (each (tag_target E) (rp_product_tag plan # rp_table_tags plan)) (\<lambda>targets.
     andthen (check (list_all (\<lambda>t. t = None \<or> t = Some current) targets) (Workflow CONFLICT ''TAG_TARGET_CONFLICT'')) (\<lambda>_.
     andthen (get_release E (rp_product_tag plan)) (\<lambda>existing_release.
     andthen (verify_existing_release existing_release plan (bundle_name plan) (lib_sha256 L payload)) (\<lambda>_.
     andthen (require_bundle_unchanged L (pp_bundle_later parts) (lib_sha256 L payload)) (\<lambda>_. give targets)))))"

definition publish ::
  "library \<Rightarrow> reader \<Rightarrow> remote_env \<Rightarrow> publication_parts \<Rightarrow> publication_request \<Rightarrow> publication_result command" where
  "publish L R E parts request =
     (let current = pq_current request in
      andthen (publication_plan E parts request) (\<lambda>plan.
      andthen (publication_bundle L R E parts current plan) (\<lambda>payload.
      andthen (publication_targets L E parts current plan payload) (\<lambda>targets.
      andthen (publish_remote L E plan current payload (zip (rp_product_tag plan # rp_table_tags plan) targets)) (\<lambda>mutations.
        give \<lparr>pr_plan = plan, pr_commit = current, pr_artifact_sha256 = lib_sha256 L payload, pr_mutations = mutations\<rparr>)))))"

section \<open>What a publication may grow\<close>

lemma grows_lift: "growth.keeps (lift_result r)" "growth.keeps (lift_release fallback r)"
  by (auto simp: lift_result_def lift_release_def release_conflict_def Let_def split: sum.splits exn.splits intro!: grows_intros)

lemma grows_each: "(\<And>x. growth.keeps (f x)) \<Longrightarrow> growth.keeps (each f xs)"
  by (induction xs) (auto intro!: grows_intros)

lemma grows_create_tags: "growth.keeps (create_tags E current ts)"
  by (induction E current ts rule: create_tags.induct) (auto intro!: grows_intros grows_create_tag)

lemma grows_converging: "growth.keeps c \<Longrightarrow> growth.keeps (converging ms c)"
  unfolding growth.keeps_def converging_def
  by (auto split: prod.splits sum.splits workflow_failure.splits) (metis snd_conv)+

lemma grows_checks:
  "growth.keeps (require_current_head E current)" "growth.keeps (verify_changeset_readiness E reg plan current)"
  "growth.keeps (verify_existing_release release plan name sha)" "growth.keeps (require_bundle_unchanged L later sha)"
proof -
  have merged: "growth.keeps (check_merged E current r)" for r
    unfolding check_merged_def get_pr_def is_ancestor_def
    by (auto split: option.splits intro!: grows_intros grows_validated)
  show "growth.keeps (verify_changeset_readiness E reg plan current)"
    unfolding verify_changeset_readiness_def
    by (auto split: option.splits sum.splits exn.splits intro!: grows_intros grows_each merged)
qed (auto simp: require_current_head_def current_sha_def verify_existing_release_def require_bundle_unchanged_def Let_def
    split: option.splits intro!: grows_intros)

lemma grows_publish: "growth.keeps (publish L R E parts request)"
  unfolding publish_def publication_plan_def publication_bundle_def publication_targets_def publish_remote_def Let_def
  by (intro grows_intros grows_checks grows_lift grows_each grows_tag_target grows_get_release grows_create_tags
      grows_converging grows_upsert)

section \<open>What holds after a success\<close>

lemma andthen_Inr: "andthen c f w = (Inr y, w') \<longleftrightarrow> (\<exists>x u. c w = (Inr x, u) \<and> f x u = (Inr y, w'))"
  by (auto simp: andthen_def split: prod.splits sum.splits)

lemma check_Inr [simp]: "check b e w = (Inr x, w') \<longleftrightarrow> b \<and> w' = w"
  by (auto simp: check_def give_def raise_failure_def)

lemma give_Inr [simp]: "give x w = (Inr y, w') \<longleftrightarrow> y = x \<and> w' = w"
  by (auto simp: give_def)

lemma raise_Inr [simp]: "raise_failure e w \<noteq> (Inr y, w')"
  by (simp add: raise_failure_def)

text \<open>Reading commands leave everything but the number of calls.\<close>

definition unchanged :: "world \<Rightarrow> world \<Rightarrow> bool" where
  "unchanged w w' \<longleftrightarrow> w' = w\<lparr>wo_calls := wo_calls w'\<rparr>"

lemma unchangedD:
  assumes "unchanged w w'"
  shows "wo_tags w' = wo_tags w" "wo_remote_tags w' = wo_remote_tags w" "wo_releases w' = wo_releases w"
    "wo_head w' = wo_head w" "wo_statuses w' = wo_statuses w" "wo_events w' = wo_events w"
  using assms unfolding unchanged_def by (metis world.select_convs world.update_convs world.surjective)+

lemma send_Inr: "send E code effect w = (Inr x, w') \<longleftrightarrow> \<not> en_fails E (wo_calls w) \<and> w' = effect (w\<lparr>wo_calls := Suc (wo_calls w)\<rparr>)"
  by (auto simp: send_def Let_def)

lemma ask_Inr: "ask E code f w = (Inr x, w') \<Longrightarrow> unchanged w w' \<and> x = f w'"
  by (auto simp: ask_def andthen_Inr send_Inr read_world_def unchanged_def)

lemma tag_target_Inr: "tag_target E tag w = (Inr t, w') \<Longrightarrow> unchanged w w' \<and> t = wo_tags w tag"
  by (auto simp: tag_target_def validate_ref_def andthen_Inr dest!: ask_Inr) (metis unchangedD(1))

lemma unchanged_trans: "unchanged u v \<Longrightarrow> unchanged v w \<Longrightarrow> unchanged u w"
  unfolding unchanged_def by (metis world.update_convs(7) world.surjective)

lemma is_hex_plain: "is_hex c \<Longrightarrow> \<not> is_space c \<and> \<not> is_upper c"
  by (auto simp: is_hex_def is_digit_def is_space_def is_upper_def Let_def)

lemma GitSha_normal: "GitSha s \<Longrightarrow> str_lower (strip s) = s"
proof -
  assume s: "GitSha s"
  then have c: "\<forall>c\<in>set s. \<not> is_space c \<and> \<not> is_upper c" and "s \<noteq> []"
    by (auto simp: GitSha_def list_all_iff is_hex_plain)
  then have "stripped s" by (simp add: stripped_def)
  then have "strip s = s" by (rule strip_id)
  moreover have "str_lower s = s" using c by (simp add: str_lower_def lower_char_not_upper map_idI)
  ultimately show ?thesis by simp
qed

lemma create_tag_Inr:
  assumes "create_annotated_tag E tag target w = (Inr x, w')" and "GitSha target"
  shows "wo_tags w' tag = Some target \<and> wo_remote_tags w' = wo_remote_tags w \<and> wo_releases w' = wo_releases w"
proof -
  have norm: "str_lower (strip target) = target" by (rule GitSha_normal [OF assms(2)])
  from assms(1) obtain e u where e: "tag_target E tag w = (Inr e, u)" and rest: "(case e of
       Some e \<Rightarrow> check (e = target) (Workflow CONFLICT ''TAG_TARGET_CONFLICT'')
     | None \<Rightarrow>
         andthen (send E ''GIT_IDENTITY_FAILED'' id) (\<lambda>_.
         andthen (send E ''GIT_IDENTITY_FAILED'' id) (\<lambda>_.
         andthen (send E ''TAG_CREATE_FAILED'' (set_tag tag target)) (\<lambda>_.
         andthen (tag_target E tag) (\<lambda>found.
           check (found = Some target) (Workflow TRANSIENT ''TAG_VERIFICATION_FAILED'')))))) u = (Inr x, w')"
    by (auto simp: create_annotated_tag_def validated_sha_def validate_ref_def Let_def andthen_Inr norm)
  note u = tag_target_Inr [OF e]
  show ?thesis
  proof (cases e)
    case None
    with rest obtain v t where v: "send E ''TAG_CREATE_FAILED'' (set_tag tag target)
        (u\<lparr>wo_calls := Suc (Suc (wo_calls u))\<rparr>) = (Inr (), v)" "tag_target E tag v = (Inr t, w')" "t = Some target"
      by (auto simp: andthen_Inr send_Inr)
    have "wo_remote_tags v = wo_remote_tags u \<and> wo_releases v = wo_releases u"
      using v(1) by (auto simp: send_Inr set_tag_def)
    with tag_target_Inr [OF v(2)] v(3) u show ?thesis by (metis unchangedD(1-3))
  next
    case (Some t)
    with rest have "t = target" "w' = u" by simp_all
    with u Some unchangedD [of w u] show ?thesis by simp
  qed
qed

lemma create_tags_Inr:
  "create_tags E current ts w = (Inr new_tags, w') \<Longrightarrow> GitSha current \<Longrightarrow>
     new_tags = map fst (filter (\<lambda>t. snd t = None) ts) \<and> (\<forall>t\<in>set new_tags. wo_tags w' t = Some current)
     \<and> wo_remote_tags w' = wo_remote_tags w \<and> wo_releases w' = wo_releases w"
proof (induction E current ts arbitrary: w new_tags w' rule: create_tags.induct)
  case (2 E current tag existing rest)
  show ?case
  proof (cases "existing = None")
    case True
    with "2.prems"(1) obtain x u ns where u: "create_annotated_tag E tag current w = (Inr x, u)"
      "create_tags E current rest u = (Inr ns, w')" "new_tags = tag # ns" by (auto simp: andthen_Inr)
    note a = create_tag_Inr [OF u(1) "2.prems"(2)] and b = "2.IH"(2) [OF _ u(2) "2.prems"(2)]
    have "grows u w'" using grows_create_tags u(2) unfolding growth.keeps_def by (metis snd_conv)
    then have "wo_tags w' tag = Some current" using a by (auto simp: grows_def map_le_def dom_def)
    with a b u(3) True show ?thesis by auto
  next
    case False
    with 2 show ?thesis by auto
  qed
qed auto

lemma push_tags_Inr:
  "push_tags E ts w = (Inr x, w') \<Longrightarrow> (\<forall>t\<in>set ts. wo_remote_tags w' t = wo_tags w t) \<and> wo_tags w' = wo_tags w \<and> wo_releases w' = wo_releases w"
  by (auto simp: push_tags_def Let_def push_some_def split: if_splits)

definition published :: "string \<Rightarrow> string \<Rightarrow> string \<Rightarrow> string \<Rightarrow> world \<Rightarrow> bool" where
  "published tag title name sha w \<longleftrightarrow> (\<exists>r. wo_releases w tag = Some r \<and> rs_tag r = tag \<and> rs_title r = title
     \<and> \<not> rs_draft r \<and> \<not> rs_prerelease r
     \<and> filter (\<lambda>a. ra_name a = name) (rs_assets r) = [\<lparr>ra_name = name, ra_digest = Some sha\<rparr>])"

lemma published_calls [simp]: "published tag title name sha (w\<lparr>wo_calls := n\<rparr>) = published tag title name sha w"
  by (simp add: published_def)

lemma upload_Inr:
  assumes "andthen (send E code (upload_asset tag \<lparr>ra_name = name, ra_digest = Some sha\<rparr>)) (\<lambda>_. give m) w = (Inr x, w')"
    and "wo_releases w tag = Some r" "rs_tag r = tag" "rs_title r = title" "\<not> rs_draft r" "\<not> rs_prerelease r"
      "filter (\<lambda>a. ra_name a = name) (rs_assets r) = []"
  shows "published tag title name sha w' \<and> wo_tags w' = wo_tags w"
  using assms by (auto simp: andthen_Inr send_Inr upload_asset_def set_release_def published_def)

lemma upsert_body_Inr:
  assumes "upsert_body E tag title name sha w = (Inr m, w')" and tagged: "\<And>r. wo_releases w tag = Some r \<Longrightarrow> rs_tag r = tag"
  shows "published tag title name sha w' \<and> wo_tags w' = wo_tags w"
proof -
  from assms obtain existing u where g: "get_release E tag w = (Inr existing, u)"
    by (auto simp: upsert_body_def Let_def andthen_Inr)
  then have u: "unchanged w u" "existing = wo_releases w tag"
    by (auto simp: get_release_def andthen_Inr dest!: ask_Inr) (metis unchangedD(3))
  show ?thesis
  proof (cases existing)
    case None
    with assms(1) g obtain v where v: "send E ''GITHUB_API_FAILED'' (create_release E tag title) u = (Inr (), v)"
      "andthen (read_world (\<lambda>w. case wo_releases w tag of Some r \<Rightarrow> rs_id r | None \<Rightarrow> 0))
        (\<lambda>i. andthen (send E ''RELEASE_UPLOAD_FAILED'' (upload_asset tag \<lparr>ra_name = name, ra_digest = Some sha\<rparr>))
           (\<lambda>_. give (release_mutation tag ''upload'' i (CHR '':'' # sha)))) v = (Inr m, w')"
      by (auto simp: upsert_body_def Let_def andthen_Inr)
    have rel: "wo_releases u tag = None" using None u by (simp add: unchangedD)
    with v(1) have c: "wo_tags v = wo_tags u" "\<exists>r. wo_releases v tag = Some r \<and> rs_tag r = tag \<and> rs_title r = title \<and> \<not> rs_draft r
        \<and> \<not> rs_prerelease r \<and> rs_assets r = []"
      by (auto simp: send_Inr create_release_def set_release_def)
    from v(2) obtain i where "andthen (send E ''RELEASE_UPLOAD_FAILED'' (upload_asset tag \<lparr>ra_name = name, ra_digest = Some sha\<rparr>))
           (\<lambda>_. give (release_mutation tag ''upload'' i (CHR '':'' # sha))) v = (Inr m, w')"
      by (auto simp: andthen_def [of "read_world _"] read_world_def)
    with upload_Inr [OF this] c u show ?thesis by (auto simp: unchangedD)
  next
    case (Some r)
    let ?matching = "filter (\<lambda>a. ra_name a = name) (rs_assets r)"
    let ?changed = "rs_title r \<noteq> title \<or> rs_draft r \<or> rs_prerelease r"
    from assms(1) g Some obtain v where v: "(if ?changed then send E ''GITHUB_API_FAILED'' (patch_release tag title) else give ()) u = (Inr (), v)"
      "(if ?matching \<noteq> [] then give (release_mutation tag (if ?changed then ''update'' else ''noop'') (rs_id r) [])
        else andthen (send E ''RELEASE_UPLOAD_FAILED'' (upload_asset tag \<lparr>ra_name = name, ra_digest = Some sha\<rparr>))
           (\<lambda>_. give (release_mutation tag ''upload'' (rs_id r) (CHR '':'' # sha)))) v = (Inr m, w')"
      "?matching = [] \<or> ra_digest (hd ?matching) = Some sha" "length ?matching \<le> 1"
      by (auto simp: upsert_body_def Let_def andthen_Inr split: if_splits)
    have rel: "wo_releases u tag = Some r" using Some u by (simp add: unchangedD)
    with v(1) have c: "wo_tags v = wo_tags u" "\<exists>r'. wo_releases v tag = Some r' \<and> rs_tag r' = tag \<and> rs_title r' = title \<and> \<not> rs_draft r'
        \<and> \<not> rs_prerelease r' \<and> rs_assets r' = rs_assets r"
      using tagged [of r] Some u(2) by (auto simp: send_Inr patch_release_def set_release_def split: if_splits)
    show ?thesis
    proof (cases "?matching = []")
      case True
      with v(2) upload_Inr [of E _ tag name sha _ v m w'] c u show ?thesis by (auto simp: unchangedD)
    next
      case False
      then obtain a where a: "?matching = [a]" using v(4) by (cases ?matching) auto
      then have "a \<in> set ?matching" by simp
      then have "ra_name a = name" by simp
      moreover have "ra_digest a = Some sha" using v(3) a by simp
      ultimately have "a = \<lparr>ra_name = name, ra_digest = Some sha\<rparr>" by simp
      with v(2) False c u a show ?thesis by (auto simp: published_def unchangedD)
    qed
  qed
qed

lemma upsert_Inr:
  assumes "upsert_release L E tag title name payload sha w = (Inr m, w')"
    and "\<And>r. wo_releases w tag = Some r \<Longrightarrow> rs_tag r = tag"
  shows "published tag title name sha w' \<and> wo_tags w' = wo_tags w"
proof -
  from assms(1) obtain u r v where u: "u = w\<lparr>wo_calls := Suc (wo_calls w)\<rparr>" and r: "upsert_body E tag title name sha u = (r, v)"
      and rest: "(case (r, v) of
         (Inr m, w') \<Rightarrow> andthen (send E ''RELEASE_ASSET_CLEANUP_FAILED'' id) (\<lambda>_. give m) w'
       | (Inl e, w') \<Rightarrow> (Inl e, snd (send E ''RELEASE_ASSET_CLEANUP_FAILED'' id w'))) = (Inr m, w')"
    unfolding upsert_release_def by (cases "upsert_body E tag title name sha (w\<lparr>wo_calls := Suc (wo_calls w)\<rparr>)")
      (auto simp: andthen_Inr send_Inr)
  then obtain m' where "r = Inr m'" "w' = v\<lparr>wo_calls := Suc (wo_calls v)\<rparr>"
    by (cases r) (auto simp: andthen_Inr send_Inr)
  with upsert_body_Inr [of E tag title name sha u m' v] r u assms(2) show ?thesis by simp
qed

interpretation reading: state_relation unchanged
proof
  fix u v w :: world and n
  show "unchanged w w" by (simp add: unchanged_def)
  show "unchanged w (w\<lparr>wo_calls := n\<rparr>)" by (simp add: unchanged_def)
  show "unchanged u v \<Longrightarrow> unchanged v w \<Longrightarrow> unchanged u w" by (rule unchanged_trans)
qed

lemma reading_lift: "reading.keeps (lift_result r)" "reading.keeps (lift_release fallback r)"
  by (auto simp: lift_result_def lift_release_def release_conflict_def Let_def split: sum.splits exn.splits intro!: reading.keeps_intros)

lemma reading_each: "(\<And>x. reading.keeps (f x)) \<Longrightarrow> reading.keeps (each f xs)"
  by (induction xs) (auto intro!: reading.keeps_intros)

lemma reading_checks:
  "reading.keeps (require_current_head E current)" "reading.keeps (verify_changeset_readiness E reg plan current)"
  "reading.keeps (verify_existing_release release plan name sha)" "reading.keeps (require_bundle_unchanged L later sha)"
  "reading.keeps (tag_target E tag)" "reading.keeps (get_release E tag)"
proof -
  have merged: "reading.keeps (check_merged E current r)" for r
    unfolding check_merged_def get_pr_def is_ancestor_def validated_sha_def Let_def
    by (auto split: option.splits intro!: reading.keeps_intros)
  show "reading.keeps (verify_changeset_readiness E reg plan current)"
    unfolding verify_changeset_readiness_def
    by (auto split: option.splits sum.splits exn.splits intro!: reading.keeps_intros reading_each merged)
qed (auto simp: require_current_head_def current_sha_def verify_existing_release_def require_bundle_unchanged_def
    tag_target_def validate_ref_def get_release_def Let_def split: option.splits intro!: reading.keeps_intros)

lemma reading_Inr: "reading.keeps c \<Longrightarrow> c w = (Inr x, w') \<Longrightarrow> unchanged w w'"
  unfolding reading.keeps_def by (metis snd_conv)

lemma each_tag_target: "each (tag_target E) ts w = (Inr targets, w') \<Longrightarrow> targets = map (wo_tags w) ts"
proof (induction ts arbitrary: w targets)
  case (Cons t ts)
  then obtain x u xs where u: "tag_target E t w = (Inr x, u)" "each (tag_target E) ts u = (Inr xs, w')" "targets = x # xs"
    by (auto simp: andthen_Inr)
  from tag_target_Inr [OF u(1)] have "wo_tags u = wo_tags w" "x = wo_tags w t" by (simp_all add: unchangedD)
  with Cons.IH [OF u(2)] u(3) show ?case by simp
qed simp

lemma reading_stages:
  "reading.keeps (publication_plan E parts request)" "reading.keeps (publication_bundle L R E parts current plan)"
  "reading.keeps (publication_targets L E parts current plan payload)"
  unfolding publication_plan_def publication_bundle_def publication_targets_def
  by (intro reading.keeps_intros reading_checks reading_lift reading_each)+

lemma require_current_head_Inr: "require_current_head E current w = (Inr x, w') \<Longrightarrow> wo_head w = current"
  by (auto simp: require_current_head_def current_sha_def andthen_Inr dest!: ask_Inr) (metis unchangedD(4))

lemma lift_Inr: "lift_result r w = (Inr x, w') \<Longrightarrow> r = Inr x" "lift_release fallback r w = (Inr x, w') \<Longrightarrow> r = Inr x"
  by (auto simp: lift_result_def lift_release_def split: sum.splits exn.splits if_splits)

lemma converging_Inr [simp]: "converging ms c w = (Inr x, w') \<longleftrightarrow> c w = (Inr x, w')"
  by (auto simp: converging_def split: prod.splits sum.splits workflow_failure.splits)

text \<open>What the publishing half does when it succeeds.\<close>

lemma publish_remote_Inr:
  assumes "publish_remote L E plan current payload (zip ts (map (wo_tags w) ts)) w = (Inr ms, w')" and "GitSha current"
    and "list_all (\<lambda>t. t = None \<or> t = Some current) (map (wo_tags w) ts)" and "t \<in> set ts"
    and tagged: "\<And>r. wo_releases w (rp_product_tag plan) = Some r \<Longrightarrow> rs_tag r = rp_product_tag plan"
  shows "wo_tags w' t = Some current" "wo_tags w t = None \<Longrightarrow> wo_remote_tags w' t = Some current"
    "published (rp_product_tag plan) (rp_product_key plan @ '' v'' @ int_str (rp_product_version plan)) (bundle_name plan) (lib_sha256 L payload) w'"
proof -
  from assms(1) obtain new u v m where 1: "create_tags E current (zip ts (map (wo_tags w) ts)) w = (Inr new, u)"
    "push_tags E new u = (Inr (), v)"
    "upsert_release L E (rp_product_tag plan) (rp_product_key plan @ '' v'' @ int_str (rp_product_version plan))
       (bundle_name plan) payload (lib_sha256 L payload) v = (Inr m, w')"
    by (auto simp: publish_remote_def Let_def andthen_Inr)
  note c = create_tags_Inr [OF 1(1) assms(2)] and p = push_tags_Inr [OF 1(2)] 
  have "wo_releases v = wo_releases w" using c p by simp
  then have r: "published (rp_product_tag plan) (rp_product_key plan @ '' v'' @ int_str (rp_product_version plan)) (bundle_name plan)
      (lib_sha256 L payload) w' \<and> wo_tags w' = wo_tags v"
    using upsert_Inr [OF 1(3)] tagged by simp
  have new: "set new = {t \<in> set ts. wo_tags w t = None}"
    using c by (auto simp: zip_map2 zip_same_conv_map image_iff)
  have g: "grows w u" "grows v w'"
    using grows_create_tags 1(1) grows_upsert 1(3) unfolding growth.keeps_def by (metis snd_conv)+
  show "wo_tags w' t = Some current"
  proof (cases "wo_tags w t")
    case None
    then have "t \<in> set new" using new assms(4) by blast
    then have "wo_tags u t = Some current" using c by blast
    then show ?thesis using p r by simp
  next
    case (Some x)
    then have "x = current" using assms(3,4) by (auto simp: list_all_iff)
    with Some g(1) p r show ?thesis by (auto simp: grows_def map_le_def dom_def)
  qed
  show "wo_remote_tags w' t = Some current" if "wo_tags w t = None"
  proof -
    have t: "t \<in> set new" using that new assms(4) by blast
    then have "wo_remote_tags v t = wo_tags u t" using p by blast
    moreover have "wo_tags u t = Some current" using t c by blast
    ultimately have "wo_remote_tags v t = Some current" by simp
    then show ?thesis using g(2) by (auto simp: grows_def map_le_def dom_def)
  qed
  show "published (rp_product_tag plan) (rp_product_key plan @ '' v'' @ int_str (rp_product_version plan)) (bundle_name plan) (lib_sha256 L payload) w'"
    using r by blast
qed

lemma get_release_Inr: "get_release E tag w = (Inr r, w') \<Longrightarrow> unchanged w w' \<and> r = wo_releases w tag \<and> name_ok tag"
  by (auto simp: get_release_def andthen_Inr dest!: ask_Inr) (metis unchangedD(3))

lemma targets_release:
  assumes "publication_targets L E parts current plan payload w = (Inr targets, w')"
  shows "wo_releases w' (rp_product_tag plan) = Some r \<Longrightarrow> rs_tag r = rp_product_tag plan"
    and "name_ok (rp_product_tag plan)" and "map_option (lib_sha256 L) (pp_bundle_later parts) = Some (lib_sha256 L payload)"
    and "\<exists>u. each (tag_target E) (rp_product_tag plan # rp_table_tags plan) w = (Inr targets, u)"
proof -
  from assms obtain u existing v where s: "each (tag_target E) (rp_product_tag plan # rp_table_tags plan) w = (Inr targets, u)"
    "get_release E (rp_product_tag plan) u = (Inr existing, v)"
    "verify_existing_release existing plan (bundle_name plan) (lib_sha256 L payload) v = (Inr (), w')"
    "map_option (lib_sha256 L) (pp_bundle_later parts) = Some (lib_sha256 L payload)"
    by (simp add: publication_targets_def require_bundle_unchanged_def andthen_Inr del: each.simps) blast
  note g = get_release_Inr [OF s(2)]
  have "unchanged v w'" by (rule reading_Inr [OF reading_checks(3) s(3)])
  with g have "existing = wo_releases w' (rp_product_tag plan)" by (metis unchangedD(3))
  with s(3) show "wo_releases w' (rp_product_tag plan) = Some r \<Longrightarrow> rs_tag r = rp_product_tag plan"
    by (auto simp: verify_existing_release_def Let_def split: if_splits)
  show "name_ok (rp_product_tag plan)" using g by simp
  show "map_option (lib_sha256 L) (pp_bundle_later parts) = Some (lib_sha256 L payload)" by (rule s(4))
  show "\<exists>u. each (tag_target E) (rp_product_tag plan # rp_table_tags plan) w = (Inr targets, u)" using s(1) by blast
qed

text \<open>(C19) A publication that succeeds ran at the requested commit and published a bundle
  that passed the check against the plan: the tags of the product and of its tables point to that commit, those that
  were missing in the clone also on the remote, and the release of the product tag is public and holds the asset
  with the bundle's hash.\<close>

theorem publication_complete:
  assumes "publish L R E parts request w = (Inr res, w')" and "GitSha (pq_current request)"
  shows "\<exists>plan payload. pp_plan parts = Inr plan \<and> pp_bundle parts = Inr payload \<and> wo_head w = pq_current request
    \<and> verify_release_bundle L R payload (rp_artifact_hashes plan) = Inr payload
    \<and> (\<forall>t\<in>set (rp_product_tag plan # rp_table_tags plan). wo_tags w' t = Some (pq_current request)
         \<and> (wo_tags w t = None \<longrightarrow> wo_remote_tags w' t = Some (pq_current request)))
    \<and> published (rp_product_tag plan) (rp_product_key plan @ '' v'' @ int_str (rp_product_version plan)) (bundle_name plan)
         (lib_sha256 L payload) w'"
proof -
  let ?current = "pq_current request"
  from assms(1) obtain plan payload targets w1 w2 w3 ms where
    1: "publication_plan E parts request w = (Inr plan, w1)" and 2: "publication_bundle L R E parts ?current plan w1 = (Inr payload, w2)"
    and 3: "publication_targets L E parts ?current plan payload w2 = (Inr targets, w3)"
    and 4: "publish_remote L E plan ?current payload (zip (rp_product_tag plan # rp_table_tags plan) targets) w3 = (Inr ms, w')"
    by (auto simp: publish_def Let_def andthen_Inr)
  note stages = reading_Inr [OF reading_stages(1) 1] reading_Inr [OF reading_stages(2) 2] reading_Inr [OF reading_stages(3) 3]
  have same: "wo_tags w2 = wo_tags w" "wo_tags w3 = wo_tags w" using unchangedD(1) stages by metis+
  let ?ts = "rp_product_tag plan # rp_table_tags plan"
  from 3 have t: "targets = map (wo_tags w3) ?ts" "list_all (\<lambda>t. t = None \<or> t = Some ?current) targets"
    using same by (auto simp: publication_targets_def andthen_Inr simp del: each.simps dest!: each_tag_target)
  have tagged: "rs_tag r = rp_product_tag plan" if "wo_releases w3 (rp_product_tag plan) = Some r" for r
    using targets_release [OF 3] that by simp
  note pub = publish_remote_Inr [OF 4 [unfolded t(1)] assms(2) t(2) [unfolded t(1)] _ tagged]
  have plan: "pp_plan parts = Inr plan" "wo_head w = ?current"
    using 1 by (auto simp: publication_plan_def andthen_Inr dest!: lift_Inr require_current_head_Inr)
  from 2 obtain zipped where "pp_bundle parts = Inr zipped" "verify_release_bundle L R zipped (rp_artifact_hashes plan) = Inr payload"
    by (auto simp: publication_bundle_def andthen_Inr dest!: lift_Inr)
  note zipped = this
  from zipped(2) have "zipped = payload" by (auto simp: verify_release_bundle_def split: option.splits if_splits)
  with zipped have checked: "pp_bundle parts = Inr payload" "verify_release_bundle L R payload (rp_artifact_hashes plan) = Inr payload"
    by simp_all
  have "wo_tags w' t = Some ?current \<and> (wo_tags w t = None \<longrightarrow> wo_remote_tags w' t = Some ?current)" if "t \<in> set ?ts" for t
    using pub(1,2) [OF that] same by simp
  moreover have "published (rp_product_tag plan) (rp_product_key plan @ '' v'' @ int_str (rp_product_version plan)) (bundle_name plan)
         (lib_sha256 L payload) w'"
    using pub(3) [of "rp_product_tag plan"] by simp
  ultimately show ?thesis using plan checked by blast
qed

section \<open>Running it again\<close>

text \<open>The same Git and GitHub without failing calls.\<close>

definition calm_env :: "remote_env \<Rightarrow> remote_env" where
  "calm_env E = E\<lparr>en_fails := (\<lambda>_. False)\<rparr>"

lemma calm_env_sel [simp]:
  "en_fails (calm_env E) n = False" "en_pull_request (calm_env E) = en_pull_request E" "en_ancestor (calm_env E) = en_ancestor E"
  "en_default_head (calm_env E) = en_default_head E"
  by (simp_all add: calm_env_def)

text \<open>A command that reads only the head gives the same answer wherever the head is the same.\<close>

definition reruns :: "'a command \<Rightarrow> 'a command \<Rightarrow> bool" where
  "reruns c c' \<longleftrightarrow> (\<forall>w x u w'. c w = (Inr x, u) \<longrightarrow> wo_head w' = wo_head w \<longrightarrow> (\<exists>u'. c' w' = (Inr x, u') \<and> wo_head u' = wo_head u))"

lemma reruns_andthen: "reruns c c' \<Longrightarrow> (\<And>x. reruns (f x) (f' x)) \<Longrightarrow> reruns (andthen c f) (andthen c' f')"
  unfolding reruns_def andthen_Inr by meson

lemma reruns_simps: "reruns (check b e) (check b e)" "reruns (give x) (give x)" "reruns (raise_failure e) c"
  by (simp_all add: reruns_def)

lemma ask_calm: "ask (calm_env E) code f w = (Inr (f (w\<lparr>wo_calls := Suc (wo_calls w)\<rparr>)), w\<lparr>wo_calls := Suc (wo_calls w)\<rparr>)"
  by (simp add: ask_def andthen_def send_def read_world_def Let_def)

lemma reruns_ask:
  assumes "\<And>w w'. wo_head w' = wo_head w \<Longrightarrow> f w' = f w"
  shows "reruns (ask E code f) (ask (calm_env E) code f)"
  unfolding reruns_def
proof (intro allI impI)
  fix w w' u :: world and x
  assume a: "ask E code f w = (Inr x, u)" and h: "wo_head w' = wo_head w"
  note u = ask_Inr [OF a]
  then have "wo_head u = wo_head w" by (simp add: unchangedD)
  moreover from this h have "f (w'\<lparr>wo_calls := Suc (wo_calls w')\<rparr>) = f u" by (intro assms) simp
  ultimately show "\<exists>u'. ask (calm_env E) code f w' = (Inr x, u') \<and> wo_head u' = wo_head u"
    using u h by (simp add: ask_calm)
qed

lemma reruns_lift: "reruns (lift_result r) (lift_result r)" "reruns (lift_release m r) (lift_release m r)"
  by (auto simp: lift_result_def lift_release_def reruns_simps split: sum.splits exn.splits)

lemma reruns_each: "(\<And>x. reruns (f x) (f' x)) \<Longrightarrow> reruns (each f xs) (each f' xs)"
  by (induction xs) (auto intro!: reruns_andthen reruns_simps)

lemmas reruns_intros = reruns_andthen reruns_simps reruns_lift reruns_each

lemma reruns_head: "reruns (require_current_head E current) (require_current_head (calm_env E) current)"
  unfolding require_current_head_def current_sha_def by (intro reruns_intros reruns_ask)

lemma reruns_merged: "reruns (check_merged E current r) (check_merged (calm_env E) current r)"
proof -
  have pr: "reruns (get_pr E n) (get_pr (calm_env E) n)" for n
    unfolding get_pr_def calm_env_sel by (auto split: option.splits intro!: reruns_intros reruns_ask)
  have anc: "reruns (is_ancestor E a d) (is_ancestor (calm_env E) a d)" for a d
    unfolding is_ancestor_def validated_sha_def Let_def calm_env_sel by (intro reruns_intros reruns_ask) simp
  show ?thesis unfolding check_merged_def
    by (intro reruns_andthen pr reruns_simps) (auto split: option.splits intro!: reruns_intros anc)
qed

lemma reruns_readiness:
  "reruns (verify_changeset_readiness E reg plan current) (verify_changeset_readiness (calm_env E) reg plan current)"
  unfolding verify_changeset_readiness_def
  by (auto split: option.splits sum.splits exn.splits intro!: reruns_intros reruns_merged)

lemma reruns_stages:
  "reruns (publication_plan E parts request) (publication_plan (calm_env E) parts request)"
  "reruns (publication_bundle L R E parts current plan) (publication_bundle L R (calm_env E) parts current plan)"
  unfolding publication_plan_def publication_bundle_def
  by (intro reruns_intros reruns_head reruns_readiness)+

lemma each_tag_target_calm:
  assumes "each (tag_target E) ts w = (Inr targets, u)"
  shows "\<exists>u'. each (tag_target (calm_env E)) ts w' = (Inr (map (wo_tags w') ts), u') \<and> unchanged w' u'"
  using assms
proof (induction ts arbitrary: w w' targets u)
  case (Cons t ts)
  from Cons.prems obtain x v xs u2 where 1: "tag_target E t w = (Inr x, v)" "each (tag_target E) ts v = (Inr xs, u2)"
    by (auto simp: andthen_Inr)
  then have "ref_ok t" by (simp add: tag_target_def validate_ref_def andthen_Inr)
  then have here: "tag_target (calm_env E) t w' = (Inr (wo_tags w' t), w'\<lparr>wo_calls := Suc (wo_calls w')\<rparr>)"
    by (simp add: tag_target_def validate_ref_def andthen_def check_def give_def ask_def send_def read_world_def Let_def)
  from Cons.IH [OF 1(2), of "w'\<lparr>wo_calls := Suc (wo_calls w')\<rparr>"] obtain u' where
    "each (tag_target (calm_env E)) ts (w'\<lparr>wo_calls := Suc (wo_calls w')\<rparr>) = (Inr (map (wo_tags w') ts), u')"
    "unchanged (w'\<lparr>wo_calls := Suc (wo_calls w')\<rparr>) u'" by auto
  then show ?case using here by (auto simp: andthen_def give_def unchanged_def)
qed (simp add: give_def unchanged_def)

lemma create_tags_none: "\<forall>t\<in>set ts. wo_tags w t \<noteq> None \<Longrightarrow> create_tags E current (zip ts (map (wo_tags w) ts)) u = (Inr [], u)"
proof (induction ts)
  case (Cons t ts)
  then obtain y where "wo_tags w t = Some y" by auto
  moreover have "create_tags E current (zip ts (map (wo_tags w) ts)) u = (Inr [], u)" by (rule Cons.IH) (use Cons.prems in simp)
  ultimately show ?case by simp
qed (simp add: give_def)

lemma upsert_again:
  assumes "published tag title name sha w" and "name_ok tag" and "length sha = 64" "list_all is_hex sha" "lib_sha256 L payload = sha"
  shows "\<exists>u r. upsert_release L (calm_env E) tag title name payload sha w = (Inr (release_mutation tag ''noop'' (rs_id r) []), u)
    \<and> wo_releases w tag = Some r \<and> unchanged w u"
  using assms
  by (auto simp: published_def upsert_release_def upsert_body_def get_release_def andthen_def check_def give_def ask_def send_def
      read_world_def Let_def unchanged_def)

lemma get_release_calm:
  "name_ok tag \<Longrightarrow> get_release (calm_env E) tag w = (Inr (wo_releases w tag), w\<lparr>wo_calls := Suc (wo_calls w)\<rparr>)"
  by (simp add: get_release_def andthen_def check_def give_def ask_def send_def read_world_def Let_def)

lemma upsert_Inr_sha: "upsert_release L E tag title name payload sha w = (Inr m, w') \<Longrightarrow> length sha = 64 \<and> list_all is_hex sha"
  by (auto simp: upsert_release_def andthen_Inr)

lemma targets_again:
  assumes "publication_targets L E parts current plan payload w = (Inr targets, w1)"
    and tags: "\<forall>t\<in>set (rp_product_tag plan # rp_table_tags plan). wo_tags v t = Some current"
    and pub: "published (rp_product_tag plan) title (bundle_name plan) (lib_sha256 L payload) v"
  shows "\<exists>v'. publication_targets L (calm_env E) parts current plan payload v
      = (Inr (map (wo_tags v) (rp_product_tag plan # rp_table_tags plan)), v') \<and> unchanged v v'"
proof -
  let ?ts = "rp_product_tag plan # rp_table_tags plan"
  note r = targets_release [OF assms(1)]
  from r(4) obtain v1 where v1: "each (tag_target (calm_env E)) ?ts v = (Inr (map (wo_tags v) ?ts), v1)" "unchanged v v1"
    using each_tag_target_calm by metis
  have same: "list_all (\<lambda>t. t = None \<or> t = Some current) (map (wo_tags v) ?ts)"
    using tags by (simp add: list_all_iff)
  define v2 where "v2 = v1\<lparr>wo_calls := Suc (wo_calls v1)\<rparr>"
  have g: "get_release (calm_env E) (rp_product_tag plan) v1 = (Inr (wo_releases v1 (rp_product_tag plan)), v2)"
    using get_release_calm [OF r(2)] v2_def by simp
  have "published (rp_product_tag plan) title (bundle_name plan) (lib_sha256 L payload) v1"
    using pub v1(2) by (simp add: published_def unchangedD)
  then have ver: "verify_existing_release (wo_releases v1 (rp_product_tag plan)) plan (bundle_name plan) (lib_sha256 L payload) v2 = (Inr (), v2)"
    by (auto simp: published_def verify_existing_release_def Let_def)
  have "require_bundle_unchanged L (pp_bundle_later parts) (lib_sha256 L payload) v2 = (Inr (), v2)"
    using r(3) by (simp add: require_bundle_unchanged_def)
  with v1(1) same g ver have "publication_targets L (calm_env E) parts current plan payload v = (Inr (map (wo_tags v) ?ts), v2)"
    unfolding publication_targets_def andthen_Inr check_Inr give_Inr by blast
  moreover have "unchanged v v2"
    using unchanged_trans [OF v1(2)] v2_def by (simp add: reading.rel_count)
  ultimately show ?thesis by blast
qed

lemma publish_remote_again:
  assumes "\<forall>t\<in>set ts. wo_tags v t = Some current" and "unchanged v u"
    and "published (rp_product_tag plan) (rp_product_key plan @ '' v'' @ int_str (rp_product_version plan)) (bundle_name plan) (lib_sha256 L payload) v"
    and "name_ok (rp_product_tag plan)" and sha: "length (lib_sha256 L payload) = 64 \<and> list_all is_hex (lib_sha256 L payload)"
  shows "\<exists>r u'. publish_remote L (calm_env E) plan current payload (zip ts (map (wo_tags v) ts)) u
      = (Inr [release_mutation (rp_product_tag plan) ''noop'' (rs_id r) []], u')
    \<and> wo_releases v (rp_product_tag plan) = Some r \<and> unchanged v u'"
proof -
  have c: "create_tags (calm_env E) current (zip ts (map (wo_tags v) ts)) u = (Inr [], u)"
    by (rule create_tags_none) (use assms(1) in auto)
  have p: "push_tags (calm_env E) [] u = (Inr (), u)" by (simp add: push_tags_def)
  have "published (rp_product_tag plan) (rp_product_key plan @ '' v'' @ int_str (rp_product_version plan)) (bundle_name plan) (lib_sha256 L payload) u"
    using assms(2,3) by (simp add: published_def unchangedD)
  from upsert_again [OF this assms(4) _ _ refl, of E] sha obtain u' r where u':
    "upsert_release L (calm_env E) (rp_product_tag plan) (rp_product_key plan @ '' v'' @ int_str (rp_product_version plan))
       (bundle_name plan) payload (lib_sha256 L payload) u = (Inr (release_mutation (rp_product_tag plan) ''noop'' (rs_id r) []), u')"
    "wo_releases u (rp_product_tag plan) = Some r" "unchanged u u'" by blast
  have "publish_remote L (calm_env E) plan current payload (zip ts (map (wo_tags v) ts)) u
      = (Inr [release_mutation (rp_product_tag plan) ''noop'' (rs_id r) []], u')"
    using c p u'(1) by (simp add: publish_remote_def andthen_Inr Let_def)
  moreover have "unchanged v u'" using unchanged_trans [OF assms(2) u'(3)] .
  moreover have "wo_releases v (rp_product_tag plan) = Some r" using u'(2) assms(2) by (simp add: unchangedD)
  ultimately show ?thesis by blast
qed

text \<open>The stages of a successful run.\<close>

lemma publish_stages:
  assumes "publish L R E parts request w = (Inr res, w')" and "GitSha (pq_current request)"
  shows "\<exists>plan payload w1 w2 w3 targets. publication_plan E parts request w = (Inr plan, w1)
    \<and> publication_bundle L R E parts (pq_current request) plan w1 = (Inr payload, w2)
    \<and> publication_targets L E parts (pq_current request) plan payload w2 = (Inr targets, w3)
    \<and> wo_head w' = wo_head w \<and> (\<forall>t\<in>set (rp_product_tag plan # rp_table_tags plan). wo_tags w' t = Some (pq_current request))
    \<and> length (lib_sha256 L payload) = 64 \<and> list_all is_hex (lib_sha256 L payload)
    \<and> published (rp_product_tag plan) (rp_product_key plan @ '' v'' @ int_str (rp_product_version plan)) (bundle_name plan)
         (lib_sha256 L payload) w'"
proof -
  let ?current = "pq_current request"
  from assms(1) obtain plan payload targets w1 w2 w3 ms where
    1: "publication_plan E parts request w = (Inr plan, w1)" and 2: "publication_bundle L R E parts ?current plan w1 = (Inr payload, w2)"
    and 3: "publication_targets L E parts ?current plan payload w2 = (Inr targets, w3)"
    and 4: "publish_remote L E plan ?current payload (zip (rp_product_tag plan # rp_table_tags plan) targets) w3 = (Inr ms, w')"
    by (auto simp: publish_def Let_def andthen_Inr)
  let ?ts = "rp_product_tag plan # rp_table_tags plan"
  have "wo_tags w3 = wo_tags w2" using reading_Inr [OF reading_stages(3) 3] by (rule unchangedD(1))
  with 3 have t: "targets = map (wo_tags w3) ?ts" "list_all (\<lambda>t. t = None \<or> t = Some ?current) targets"
    by (auto simp: publication_targets_def andthen_Inr simp del: each.simps dest!: each_tag_target)
  have tagged: "rs_tag r = rp_product_tag plan" if "wo_releases w3 (rp_product_tag plan) = Some r" for r
    using targets_release [OF 3] that by simp
  note pub = publish_remote_Inr [OF 4 [unfolded t(1)] assms(2) t(2) [unfolded t(1)] _ tagged]
  from 4 have "length (lib_sha256 L payload) = 64 \<and> list_all is_hex (lib_sha256 L payload)"
    by (auto simp: publish_remote_def andthen_Inr Let_def dest: upsert_Inr_sha)
  moreover have "wo_head w' = wo_head w"
    using grows_publish [of L R E parts request] assms(1) unfolding growth.keeps_def grows_def by (metis snd_conv)
  moreover have "\<forall>t\<in>set ?ts. wo_tags w' t = Some ?current" using pub(1) by blast
  moreover have "published (rp_product_tag plan) (rp_product_key plan @ '' v'' @ int_str (rp_product_version plan)) (bundle_name plan)
         (lib_sha256 L payload) w'" using pub(3) [of "rp_product_tag plan"] by simp
  ultimately show ?thesis using 1 2 3 by blast
qed

text \<open>(C20) A publication that succeeded can be run again: unless a call fails, the second
  run succeeds, changes nothing, and reports the release as the only, unchanged, resource.\<close>

theorem publication_idempotent:
  assumes "publish L R E parts request w = (Inr res, w')" and "GitSha (pq_current request)"
  shows "\<exists>res' w'' r. publish L R (calm_env E) parts request w' = (Inr res', w'') \<and> unchanged w' w''
    \<and> pr_mutations res' = [release_mutation (rp_product_tag (pr_plan res')) ''noop'' (rs_id r) []]
    \<and> wo_releases w' (rp_product_tag (pr_plan res')) = Some r"
proof -
  let ?current = "pq_current request"
  from publish_stages [OF assms] obtain plan payload w1 w2 w3 targets where
    1: "publication_plan E parts request w = (Inr plan, w1)" and 2: "publication_bundle L R E parts ?current plan w1 = (Inr payload, w2)"
    and 3: "publication_targets L E parts ?current plan payload w2 = (Inr targets, w3)" and head: "wo_head w' = wo_head w"
    and tags: "\<forall>t\<in>set (rp_product_tag plan # rp_table_tags plan). wo_tags w' t = Some ?current"
    and sha: "length (lib_sha256 L payload) = 64 \<and> list_all is_hex (lib_sha256 L payload)"
    and pub: "published (rp_product_tag plan) (rp_product_key plan @ '' v'' @ int_str (rp_product_version plan)) (bundle_name plan)
         (lib_sha256 L payload) w'" by blast
  let ?ts = "rp_product_tag plan # rp_table_tags plan"
  from reruns_stages(1) 1 head obtain v1 where v1: "publication_plan (calm_env E) parts request w' = (Inr plan, v1)" "wo_head v1 = wo_head w1"
    unfolding reruns_def by blast
  from reruns_stages(2) 2 v1(2) obtain v2 where v2: "publication_bundle L R (calm_env E) parts ?current plan v1 = (Inr payload, v2)"
    unfolding reruns_def by blast
  have u2: "unchanged w' v2"
    using reading_Inr [OF reading_stages(1) v1(1)] reading_Inr [OF reading_stages(2) v2] by (rule unchanged_trans)
  then have tags2: "\<forall>t\<in>set ?ts. wo_tags v2 t = Some ?current"
    and pub2: "published (rp_product_tag plan) (rp_product_key plan @ '' v'' @ int_str (rp_product_version plan)) (bundle_name plan)
         (lib_sha256 L payload) v2" using tags pub by (simp_all add: published_def unchangedD)
  from targets_again [OF 3 tags2 pub2] obtain v3 where
    v3: "publication_targets L (calm_env E) parts ?current plan payload v2 = (Inr (map (wo_tags v2) ?ts), v3)" "unchanged v2 v3" by blast
  from publish_remote_again [OF tags2 v3(2) pub2 targets_release(2) [OF 3] sha, of E] obtain r u where
    u: "publish_remote L (calm_env E) plan ?current payload (zip ?ts (map (wo_tags v2) ?ts)) v3
      = (Inr [release_mutation (rp_product_tag plan) ''noop'' (rs_id r) []], u)"
    "wo_releases v2 (rp_product_tag plan) = Some r" "unchanged v2 u" by blast
  have "publish L R (calm_env E) parts request w' = (Inr \<lparr>pr_plan = plan, pr_commit = ?current, pr_artifact_sha256 = lib_sha256 L payload,
      pr_mutations = [release_mutation (rp_product_tag plan) ''noop'' (rs_id r) []]\<rparr>, u)"
    using v1(1) v2 v3(1) u(1) by (simp add: publish_def andthen_Inr Let_def)
  moreover have "unchanged w' u" using unchanged_trans [OF u2 u(3)] .
  moreover have "wo_releases w' (rp_product_tag plan) = Some r" using u(2) u2 by (simp add: unchangedD)
  ultimately show ?thesis by fastforce
qed

section \<open>A sample publication\<close>

definition sample_digest :: string where "sample_digest = replicate 64 (CHR ''a'')"

definition sample_sha :: string where "sample_sha = replicate 40 (CHR ''b'')"

definition zip_reader :: reader where
  "zip_reader = sample_reader\<lparr>rd_zip := (\<lambda>_. sample_digest),
     rd_unzip := (\<lambda>s. if s = sample_digest then Some (snapshots_of sample_tree) else None)\<rparr>"

definition sample_plan_value :: release_plan where
  "sample_plan_value = \<lparr>rp_product_id = pid1, rp_product_key = ''orders'', rp_product_version = 1,
     rp_product_tag = ''product/'' @ pid1 @ ''/v1'', rp_table_tags = [''table/'' @ tid1 @ ''/v1''],
     rp_artifact_hashes = map (\<lambda>p. (p, p)) (map generated GENERATED_ASSETS @ map quality REQUIRED_QUALITY_ASSETS), rp_changeset_id = None\<rparr>"

lemma sample_resolves: "sample_resolve = Inr sample_plan_value"
  by code_simp

definition sample_parts :: publication_parts where
  "sample_parts = \<lparr>pp_sources = (\<lambda>_. Inr ()), pp_plan = Inr sample_plan_value, pp_registry = load_registry sample_disk, pp_output = (\<lambda>_. Inr ()),
     pp_bundle = build_release_bundle zip_reader sample_tree, pp_readable = (\<lambda>_. Inr ()), pp_bundle_later = Some sample_digest\<rparr>"

definition sample_request :: publication_request where
  "sample_request = \<lparr>pq_same_repository = True, pq_product_key = ''orders'', pq_current = sample_sha\<rparr>"

definition sample_world :: world where
  "sample_world = \<lparr>wo_head = sample_sha, wo_tags = Map.empty, wo_remote_tags = Map.empty, wo_releases = Map.empty,
     wo_statuses = Map.empty, wo_events = [], wo_calls = 0\<rparr>"

definition calm_sample :: remote_env where
  "calm_sample = \<lparr>en_fails = (\<lambda>_. False), en_applied = (\<lambda>_. False), en_pushed = (\<lambda>_ _. False), en_default_head = replicate 40 (CHR ''c''),
     en_pull_request = (\<lambda>_. None), en_ancestor = (\<lambda>_ _. False)\<rparr>"

abbreviation sample_publish :: "remote_env \<Rightarrow> publication_result command" where
  "sample_publish E \<equiv> publish plain_library zip_reader E sample_parts sample_request"

lemma sample_bundle:
  "pp_bundle sample_parts = Inr sample_digest"
  "verify_release_bundle plain_library zip_reader sample_digest (rp_artifact_hashes sample_plan_value) = Inr sample_digest"
  by code_simp+

lemma sample_names:
  "ref_ok (rp_product_tag sample_plan_value)" "list_all ref_ok (rp_table_tags sample_plan_value)"
  "name_ok (rp_product_tag sample_plan_value)"
  "GitSha sample_sha" "length sample_digest = 64" "list_all is_hex sample_digest"
  by code_simp+

lemmas run_simps = andthen_def give_def check_def ask_def send_def read_world_def raise_failure_def Let_def lift_result_def
  lift_release_def tag_target_def validate_ref_def require_current_head_def current_sha_def

lemma sample_stages:
  assumes "wo_head w = sample_sha" "\<And>n. \<not> en_fails E n"
  shows "\<exists>n. publication_plan E sample_parts sample_request w = (Inr sample_plan_value, w\<lparr>wo_calls := n\<rparr>)"
    "\<exists>n. publication_bundle plain_library zip_reader E sample_parts sample_sha sample_plan_value w = (Inr sample_digest, w\<lparr>wo_calls := n\<rparr>)"
  using assms sample_bundle
  by (auto simp: publication_plan_def publication_bundle_def run_simps sample_parts_def sample_request_def
      verify_changeset_readiness_def sample_plan_value_def)

abbreviation "sample_tag \<equiv> rp_product_tag sample_plan_value"

lemma sample_table_tag:
  "\<exists>t. rp_table_tags sample_plan_value = [t] \<and> t \<noteq> sample_tag \<and> ref_ok t"
  using sample_names(2) by (simp add: sample_plan_value_def)

lemma sample_targets:
  assumes "\<And>n. \<not> en_fails E n" "wo_releases w sample_tag = None" "list_all (\<lambda>t. wo_tags w t = None \<or> wo_tags w t = Some sample_sha) ts"
    "ts = sample_tag # rp_table_tags sample_plan_value"
  shows "\<exists>n. publication_targets plain_library E sample_parts sample_sha sample_plan_value sample_digest w
      = (Inr (map (wo_tags w) ts), w\<lparr>wo_calls := n\<rparr>)"
  using assms sample_table_tag sample_names(1,3)
  by (auto simp: publication_targets_def run_simps get_release_def verify_existing_release_def require_bundle_unchanged_def sample_parts_def
      plain_library_def)

lemma sample_tags_made:
  assumes "\<And>n. n < wo_calls w + 10 \<Longrightarrow> \<not> en_fails E n" "wo_tags w = Map.empty" "rp_table_tags sample_plan_value = [t]"
  shows "\<exists>u. create_tags E sample_sha (zip [sample_tag, t] [None, None]) w = (Inr [sample_tag, t], u)
     \<and> wo_tags u = [sample_tag \<mapsto> sample_sha, t \<mapsto> sample_sha] \<and> wo_remote_tags u = wo_remote_tags w
     \<and> wo_releases u = wo_releases w \<and> wo_calls u = wo_calls w + 10"
  using assms sample_table_tag sample_names(1,4)
  by (auto simp: run_simps create_annotated_tag_def validated_sha_def set_tag_def GitSha_normal)

lemma sample_upsert:
  assumes "\<And>n. \<not> en_fails E n" "wo_releases w sample_tag = None"
  shows "\<exists>m u. upsert_release plain_library E sample_tag title name sample_digest sample_digest w = (Inr m, u)
    \<and> wo_tags u = wo_tags w
    \<and> wo_remote_tags u = (wo_remote_tags w)(sample_tag \<mapsto> case wo_remote_tags w sample_tag of None \<Rightarrow> en_default_head E | Some x \<Rightarrow> x)"
  using assms sample_names(3,5,6)
  by (cases "wo_remote_tags w sample_tag") (auto simp: upsert_release_def upsert_body_def get_release_def run_simps create_release_def
      set_release_def upload_asset_def plain_library_def)

lemma sample_publishes: "\<exists>res w'. sample_publish calm_sample sample_world = (Inr res, w')"
proof -
  have calm: "\<not> en_fails calm_sample n" for n by (simp add: calm_sample_def)
  obtain t where t: "rp_table_tags sample_plan_value = [t]" "t \<noteq> sample_tag" "ref_ok t" using sample_table_tag by blast
  from sample_stages(1) [of sample_world, OF _ calm] obtain n1 where
    1: "publication_plan calm_sample sample_parts sample_request sample_world = (Inr sample_plan_value, sample_world\<lparr>wo_calls := n1\<rparr>)"
    by (auto simp: sample_world_def)
  from sample_stages(2) [of "sample_world\<lparr>wo_calls := n1\<rparr>", OF _ calm] obtain n2 where
    2: "publication_bundle plain_library zip_reader calm_sample sample_parts sample_sha sample_plan_value (sample_world\<lparr>wo_calls := n1\<rparr>)
      = (Inr sample_digest, sample_world\<lparr>wo_calls := n2\<rparr>)"
    by (auto simp: sample_world_def)
  have blank: "wo_tags (sample_world\<lparr>wo_calls := n\<rparr>) = Map.empty" "wo_releases (sample_world\<lparr>wo_calls := n\<rparr>) = Map.empty"
    "wo_remote_tags (sample_world\<lparr>wo_calls := n\<rparr>) = Map.empty" for n
    by (simp_all add: sample_world_def)
  have "wo_releases (sample_world\<lparr>wo_calls := n2\<rparr>) sample_tag = None" by (simp only: blank)
  moreover have "list_all (\<lambda>t. wo_tags (sample_world\<lparr>wo_calls := n2\<rparr>) t = None \<or> wo_tags (sample_world\<lparr>wo_calls := n2\<rparr>) t = Some sample_sha)
      [sample_tag, t]" by (simp only: blank) simp
  moreover have "[sample_tag, t] = sample_tag # rp_table_tags sample_plan_value" by (simp only: t(1))
  ultimately obtain n where
    "publication_targets plain_library calm_sample sample_parts sample_sha sample_plan_value sample_digest (sample_world\<lparr>wo_calls := n2\<rparr>)
      = (Inr (map (wo_tags (sample_world\<lparr>wo_calls := n2\<rparr>)) [sample_tag, t]), (sample_world\<lparr>wo_calls := n2\<rparr>)\<lparr>wo_calls := n\<rparr>)"
    using sample_targets [of calm_sample, OF calm] by blast
  then obtain n3 where
    3: "publication_targets plain_library calm_sample sample_parts sample_sha sample_plan_value sample_digest (sample_world\<lparr>wo_calls := n2\<rparr>)
      = (Inr [None, None], sample_world\<lparr>wo_calls := n3\<rparr>)"
    by (simp add: blank)
  from sample_tags_made [of "sample_world\<lparr>wo_calls := n3\<rparr>" calm_sample t, OF calm _ t(1)] obtain u where
    4: "create_tags calm_sample sample_sha (zip [sample_tag, t] [None, None]) (sample_world\<lparr>wo_calls := n3\<rparr>) = (Inr [sample_tag, t], u)"
      "wo_tags u = [sample_tag \<mapsto> sample_sha, t \<mapsto> sample_sha]" "wo_remote_tags u = Map.empty" "wo_releases u = Map.empty"
    by (auto simp: blank)
  have 5: "\<exists>v. push_tags calm_sample [sample_tag, t] u = (Inr (), v) \<and> wo_releases v = Map.empty"
    using 4 t sample_names(1) by (simp add: push_tags_def Let_def calm push_some_def)
  then obtain v where v: "push_tags calm_sample [sample_tag, t] u = (Inr (), v)" "wo_releases v sample_tag = None" by auto
  from sample_upsert [OF calm v(2)] obtain m v' where
    6: "upsert_release plain_library calm_sample sample_tag (rp_product_key sample_plan_value @ '' v'' @ int_str (rp_product_version sample_plan_value))
       (bundle_name sample_plan_value) sample_digest sample_digest v = (Inr m, v')" by blast
  have "publish_remote plain_library calm_sample sample_plan_value sample_sha sample_digest (zip [sample_tag, t] [None, None])
      (sample_world\<lparr>wo_calls := n3\<rparr>) = (Inr (map tag_mutation [sample_tag, t] @ [m]), v')"
    unfolding publish_remote_def andthen_Inr Let_def converging_Inr
    using 4(1) v(1) 6 by (auto simp: plain_library_def)
  with 1 2 3 t(1) show ?thesis
    by (simp add: publish_def andthen_Inr Let_def sample_request_def del: zip_Cons_Cons)
qed

lemma publication_complete_witness:
  "\<exists>res w' plan payload. sample_publish calm_sample sample_world = (Inr res, w') \<and> pp_plan sample_parts = Inr plan
    \<and> pp_bundle sample_parts = Inr payload
    \<and> (\<forall>t\<in>set (rp_product_tag plan # rp_table_tags plan). wo_tags w' t = Some sample_sha \<and> wo_remote_tags w' t = Some sample_sha)"
proof -
  have sha: "GitSha (pq_current sample_request)" using sample_names(4) by (simp add: sample_request_def)
  from sample_publishes obtain res w' where run: "sample_publish calm_sample sample_world = (Inr res, w')" by blast
  from publication_complete [OF this sha] run show ?thesis
    by (fastforce simp: sample_world_def sample_request_def)
qed

lemma publication_idempotent_witness:
  "\<exists>res w' res' w''. sample_publish calm_sample sample_world = (Inr res, w')
    \<and> sample_publish (calm_env calm_sample) w' = (Inr res', w'') \<and> unchanged w' w''"
proof -
  have sha: "GitSha (pq_current sample_request)" using sample_names(4) by (simp add: sample_request_def)
  from sample_publishes obtain res w' where run: "sample_publish calm_sample sample_world = (Inr res, w')" by blast
  from publication_idempotent [OF this sha] run show ?thesis by blast
qed

text \<open>A push that fails leaves the new tags in the clone. The second attempt in that clone finds them, so it pushes
  none of them and succeeds: the tags of the tables are missing on the remote, and GitHub makes the product tag
  at the head of its default branch, whatever that is.\<close>

lemma failed_push_keeps_tags:
  "en_fails E (wo_calls w) \<Longrightarrow> (\<And>t. \<not> en_pushed E (wo_calls w) t) \<Longrightarrow>
     wo_tags (snd (push_tags E ts w)) = wo_tags w \<and> wo_remote_tags (snd (push_tags E ts w)) = wo_remote_tags w"
  by (simp add: push_tags_def push_some_def Let_def)

lemma second_attempt_strands_the_tags:
  assumes "w = sample_world\<lparr>wo_tags := (\<lambda>t. Some sample_sha)\<rparr>"
  shows "\<exists>ms w'. publish_remote plain_library calm_sample sample_plan_value sample_sha sample_digest
      (zip (sample_tag # rp_table_tags sample_plan_value) (map (wo_tags w) (sample_tag # rp_table_tags sample_plan_value))) w = (Inr ms, w')
    \<and> (\<forall>t\<in>set (rp_table_tags sample_plan_value). wo_remote_tags w' t = None)
    \<and> wo_remote_tags w' sample_tag = Some (en_default_head calm_sample) \<and> en_default_head calm_sample \<noteq> sample_sha"
proof -
  have calm: "\<not> en_fails calm_sample n" for n by (simp add: calm_sample_def)
  obtain t where t: "rp_table_tags sample_plan_value = [t]" "t \<noteq> sample_tag" using sample_table_tag by blast
  have w: "wo_releases w sample_tag = None" "wo_remote_tags w = Map.empty" "wo_tags w = (\<lambda>t. Some sample_sha)"
    using assms by (simp_all add: sample_world_def)
  from sample_upsert [OF calm w(1)] obtain m v' where
    up: "upsert_release plain_library calm_sample sample_tag (rp_product_key sample_plan_value @ '' v'' @ int_str (rp_product_version sample_plan_value))
       (bundle_name sample_plan_value) sample_digest sample_digest w = (Inr m, v')"
     "wo_remote_tags v' = [sample_tag \<mapsto> en_default_head calm_sample]" unfolding w(2) by fastforce
  have "publish_remote plain_library calm_sample sample_plan_value sample_sha sample_digest
      (zip [sample_tag, t] (map (wo_tags w) [sample_tag, t])) w = (Inr [m], v')"
    using up(1) w(3) by (simp add: publish_remote_def andthen_Inr Let_def push_tags_def plain_library_def)
  moreover have "en_default_head calm_sample \<noteq> sample_sha" by (simp add: calm_sample_def sample_sha_def)
  ultimately show ?thesis using t up(2) by auto
qed

end
