(* ===== verification/Publication_Guards.thy ===== *)
theory Publication_Guards
  imports Publication
begin

text \<open>
  What a publication (\<open>application/release_publication.py\<close>) may change, and under which checks, in every
  outcome: a run that is refused, one that fails half way, and one that succeeds.
\<close>

section \<open>What each command may change\<close>

text \<open>Local tags only appear, in a given set and at a given commit; only one release changes; the head, the statuses
  and the events stay.\<close>

definition confined :: "string set \<Rightarrow> string \<Rightarrow> string \<Rightarrow> world \<Rightarrow> world \<Rightarrow> bool" where
  "confined T current tag w w' \<longleftrightarrow>
     (\<forall>t. wo_tags w' t \<noteq> wo_tags w t \<longrightarrow> t \<in> T \<and> wo_tags w' t = Some current)
     \<and> (\<forall>t. wo_releases w' t \<noteq> wo_releases w t \<longrightarrow> t = tag)
     \<and> wo_statuses w' = wo_statuses w \<and> wo_events w' = wo_events w"

interpretation confining: state_relation "confined T current tag" for T current tag
proof
  fix u v w :: world and n
  show "confined T current tag w w" by (simp add: confined_def)
  show "confined T current tag w (w\<lparr>wo_calls := n\<rparr>)" by (simp add: confined_def)
  show "confined T current tag u v \<Longrightarrow> confined T current tag v w \<Longrightarrow> confined T current tag u w"
    unfolding confined_def by metis
qed

text \<open>A remote tag changes only to a value that is allowed for it.\<close>

definition remote_only :: "(string \<Rightarrow> string option \<Rightarrow> bool) \<Rightarrow> world \<Rightarrow> world \<Rightarrow> bool" where
  "remote_only P w w' \<longleftrightarrow> (\<forall>t. wo_remote_tags w' t \<noteq> wo_remote_tags w t \<longrightarrow> P t (wo_remote_tags w' t))"

interpretation remote: state_relation "remote_only P" for P
proof
  fix u v w :: world and n
  show "remote_only P w w" by (simp add: remote_only_def)
  show "remote_only P w (w\<lparr>wo_calls := n\<rparr>)" by (simp add: remote_only_def)
  show "remote_only P u v \<Longrightarrow> remote_only P v w \<Longrightarrow> remote_only P u w"
    unfolding remote_only_def by metis
qed

lemma confined_effects:
  "t \<in> T \<Longrightarrow> confined T current tag w (set_tag t current w)"
  "confined T current tag w (push_some S w)" "confined T current tag w (create_release E tag title w)"
  "confined T current tag w (patch_release tag title w)" "confined T current tag w (upload_asset tag a w)"
  "confined T current tag w (id w)"
  by (auto simp: confined_def set_tag_def push_some_def create_release_def patch_release_def upload_asset_def
      set_release_def split: option.splits)

lemma remote_effects:
  "remote_only P w (set_tag t target w)" "remote_only P w (patch_release tag title w)"
  "remote_only P w (upload_asset tag a w)" "remote_only P w (id w)"
  "P tag (Some (en_default_head E)) \<Longrightarrow> remote_only P w (create_release E tag title w)"
  by (auto simp: remote_only_def set_tag_def create_release_def patch_release_def upload_asset_def
      set_release_def split: option.splits)

lemma unchanged_confined: "unchanged w w' \<Longrightarrow> confined T current tag w w'"
  by (simp add: confined_def unchangedD [of w w'])

lemma unchanged_remote: "unchanged w w' \<Longrightarrow> remote_only P w w'"
  by (simp add: remote_only_def unchangedD [of w w'])

lemma reading_confined: "reading.keeps c \<Longrightarrow> confining.keeps T current tag c"
  by (simp add: reading.keeps_def confining.keeps_def unchanged_confined)

lemma reading_remote: "reading.keeps c \<Longrightarrow> remote.keeps P c"
  by (simp add: reading.keeps_def remote.keeps_def unchanged_remote)

lemma reading_tag_steps:
  "reading.keeps (validate_ref t)" "reading.keeps (validated_sha code value)" "reading.keeps (send E code' id)"
  by (auto simp: validate_ref_def validated_sha_def Let_def unchanged_def
      intro!: reading.keeps_intros reading.keeps_send)

lemma validated_same:
  "GitSha current \<Longrightarrow> validated_sha code (strip current) = give current"
  by (simp add: validated_sha_def GitSha_normal check_def andthen_def give_def fun_eq_iff)

lemma andthen_give: "andthen (give x) f = f x"
  by (simp add: andthen_def give_def fun_eq_iff)

lemma create_tag_confined:
  assumes "GitSha current" and "t \<in> T"
  shows "confining.keeps T current tag (create_annotated_tag E t current)"
  unfolding create_annotated_tag_def validated_same [OF assms(1)] andthen_give
  by (intro confining.keeps_intros reading_confined [OF reading_tag_steps(1)] reading_confined [OF reading_checks(5)])
     (auto split: option.splits intro!: confining.keeps_intros confining.keeps_send confined_effects assms(2)
        reading_confined [OF reading_checks(5)])

lemma create_tag_remote: "remote.keeps P (create_annotated_tag E t target)"
  unfolding create_annotated_tag_def
  by (intro remote.keeps_intros reading_remote [OF reading_tag_steps(1)] reading_remote [OF reading_tag_steps(2)]
        reading_remote [OF reading_checks(5)])
     (auto split: option.splits intro!: remote.keeps_intros remote.keeps_send remote_effects
        reading_remote [OF reading_checks(5)])

lemma create_tags_confined:
  "GitSha current \<Longrightarrow> {t. (t, None) \<in> set ts} \<subseteq> T \<Longrightarrow> confining.keeps T current tag (create_tags E current ts)"
  by (induction E current ts rule: create_tags.induct)
     (auto intro!: confining.keeps_intros create_tag_confined)

lemma create_tags_remote: "remote.keeps P (create_tags E current ts)"
  by (induction E current ts rule: create_tags.induct) (auto intro!: remote.keeps_intros create_tag_remote)

lemma push_tags_confined: "confining.keeps T current tag (push_tags E ts)"
  unfolding confining.keeps_def push_tags_def Let_def
  by (auto intro: confining.rel_refl confining.rel_count
      confining.rel_trans [OF confining.rel_count confined_effects(2)])

lemma push_tags_remote:
  "remote_only (\<lambda>t v. t \<in> set ts \<and> v = wo_tags w t) w (snd (push_tags E ts w))"
  by (auto simp: remote_only_def push_tags_def push_some_def Let_def)

lemma upsert_body_confined: "confining.keeps T current tag (upsert_body E tag title name sha)"
  unfolding upsert_body_def Let_def
  by (intro confining.keeps_andthen reading_confined [OF reading_checks(6)])
     (auto split: option.splits intro!: confining.keeps_intros confining.keeps_send confined_effects)

lemma upsert_body_remote:
  "P tag (Some (en_default_head E)) \<Longrightarrow> remote.keeps P (upsert_body E tag title name sha)"
  unfolding upsert_body_def Let_def
  by (intro remote.keeps_andthen reading_remote [OF reading_checks(6)])
     (auto split: option.splits intro!: remote.keeps_intros remote.keeps_send remote_effects)

text \<open>The release command keeps what its body keeps: staging and cleaning up change nothing remote.\<close>

context state_relation begin

lemma keeps_upsert:
  assumes "keeps (upsert_body E tag title name sha)"
  shows "keeps (upsert_release L E tag title name payload sha)"
proof -
  have send: "keeps (send E code id)" for code by (rule keeps_send) (simp add: rel_refl)
  have "keeps (\<lambda>w. case upsert_body E tag title name sha w of
         (Inr m, w') \<Rightarrow> andthen (send E ''RELEASE_ASSET_CLEANUP_FAILED'' id) (\<lambda>_. give m) w'
       | (Inl e, w') \<Rightarrow> (Inl e, snd (send E ''RELEASE_ASSET_CLEANUP_FAILED'' id w')))"
    unfolding keeps_def
  proof
    fix w
    obtain r w' where b: "upsert_body E tag title name sha w = (r, w')" by (cases "upsert_body E tag title name sha w")
    have g: "leads w w'" using assms b unfolding keeps_def by (metis snd_conv)
    have "keeps (andthen (send E ''RELEASE_ASSET_CLEANUP_FAILED'' id) (\<lambda>_. give m))" for m :: mutation
      by (intro keeps_intros send)
    with send show "leads w (snd (case upsert_body E tag title name sha w of
         (Inr m, w') \<Rightarrow> andthen (send E ''RELEASE_ASSET_CLEANUP_FAILED'' id) (\<lambda>_. give m) w'
       | (Inl e, w') \<Rightarrow> (Inl e, snd (send E ''RELEASE_ASSET_CLEANUP_FAILED'' id w'))))"
      using rel_trans [OF g] by (cases r) (auto simp: b keeps_def)
  qed
  then show ?thesis unfolding upsert_release_def by (intro keeps_andthen keeps_check send)
qed

end

lemma keeps_converging: "state_relation.keeps R (converging ms c) = state_relation.keeps R c" if "state_relation R"
proof -
  have "snd (converging ms c w) = snd (c w)" for w
    by (auto simp: converging_def split: prod.splits sum.splits workflow_failure.splits)
  then show ?thesis by (simp add: state_relation.keeps_def [OF that])
qed

lemma snd_converging [simp]: "snd (converging ms c w) = snd (c w)"
  by (auto simp: converging_def split: prod.splits sum.splits workflow_failure.splits)

lemma publish_remote_confined:
  assumes "GitSha current"
  shows "confined {t \<in> set ts. wo_tags w t = None} current (rp_product_tag plan) w
    (snd (publish_remote L E plan current payload (zip ts (map (wo_tags w) ts)) w))"
proof -
  let ?T = "{t \<in> set ts. wo_tags w t = None}"
  have "{t. (t, None) \<in> set (zip ts (map (wo_tags w) ts))} \<subseteq> ?T"
    by (auto simp: zip_map2 zip_same_conv_map)
  note create = create_tags_confined [OF assms this]
  have "confining.keeps ?T current (rp_product_tag plan)
      (publish_remote L E plan current payload (zip ts (map (wo_tags w) ts)))"
    unfolding publish_remote_def Let_def
    by (intro confining.keeps_andthen create)
       (simp add: keeps_converging confining.state_relation_axioms,
        intro confining.keeps_intros push_tags_confined confining.keeps_upsert upsert_body_confined)
  then show ?thesis by (simp add: confining.keeps_def)
qed

lemma snd_andthen: "snd (andthen c f w) = (case c w of (Inl e, u) \<Rightarrow> u | (Inr x, u) \<Rightarrow> snd (f x u))"
  by (simp add: andthen_def split: prod.splits sum.splits)

lemma publish_remote_remote:
  assumes "GitSha current"
  shows "remote_only (\<lambda>t v. (t \<in> set ts \<and> wo_tags w t = None \<and> v = Some current)
      \<or> (t = rp_product_tag plan \<and> (t \<in> set ts \<longrightarrow> wo_tags w t \<noteq> None) \<and> v = Some (en_default_head E)))
    w (snd (publish_remote L E plan current payload (zip ts (map (wo_tags w) ts)) w))"
    (is "remote_only ?P w ?w'")
proof -
  let ?tag = "rp_product_tag plan"
  obtain r u where c: "create_tags E current (zip ts (map (wo_tags w) ts)) w = (r, u)" by fastforce
  have keep: "wo_remote_tags u = wo_remote_tags w"
    using create_tags_remote [of "\<lambda>_ _. False" E current "zip ts (map (wo_tags w) ts)"] c
    unfolding remote.keeps_def remote_only_def by (metis ext snd_conv)
  show ?thesis
  proof (cases r)
    case (Inl e)
    with c keep show ?thesis by (simp add: publish_remote_def snd_andthen remote_only_def)
  next
    case (Inr new)
    note made = create_tags_Inr [OF c [unfolded Inr] assms]
    have new: "set new = {t \<in> set ts. wo_tags w t = None}"
      using made by (auto simp: zip_map2 zip_same_conv_map image_iff)
    let ?release = "upsert_release L E ?tag (rp_product_key plan @ '' v'' @ int_str (rp_product_version plan))
      (bundle_name plan) payload (lib_sha256 L payload)"
    obtain q v where p: "push_tags E new u = (q, v)" by fastforce
    have pushed: "remote_only ?P w v"
      using push_tags_remote [of new u E] made new p keep by (auto simp: remote_only_def)
    show ?thesis
    proof (cases q)
      case (Inl e)
      with c Inr p pushed show ?thesis by (simp add: publish_remote_def snd_andthen Let_def)
    next
      case ok: (Inr x)
      have w': "?w' = snd (?release v)"
        using c Inr p ok by (simp add: publish_remote_def snd_andthen Let_def give_def split: prod.splits sum.splits)
      have "remote.keeps (\<lambda>t y. t = ?tag \<and> y = Some (en_default_head E)) ?release"
        by (intro remote.keeps_upsert upsert_body_remote) simp
      then have up: "remote_only (\<lambda>t y. t = ?tag \<and> y = Some (en_default_head E)) v ?w'"
        unfolding w' remote.keeps_def by blast
      have g: "wo_remote_tags v \<subseteq>\<^sub>m wo_remote_tags ?w'"
        using grows_upsert unfolding w' growth.keeps_def grows_def by blast
      have "wo_remote_tags v t = Some current" if "t \<in> set new" for t
        using push_tags_Inr [OF p [unfolded ok]] made that by metis
      with g have "wo_remote_tags ?w' t = wo_remote_tags v t" if "t \<in> set new" for t
        using that by (force simp: map_le_def dom_def)
      with up have "remote_only ?P v ?w'" using new unfolding remote_only_def by blast
      with pushed show ?thesis by (rule remote.rel_trans)
    qed
  qed
qed

section \<open>Nothing changes before every check has passed\<close>

text \<open>The changeset of the plan, if it has one, is registered, ready, and every product it requires was merged, at the
  head it was approved for, into the history of the published commit.\<close>

definition changeset_merged :: "remote_env \<Rightarrow> registry result \<Rightarrow> release_plan \<Rightarrow> string \<Rightarrow> bool" where
  "changeset_merged E registry plan current \<longleftrightarrow>
     (\<forall>i. rp_changeset_id plan = Some i \<longrightarrow>
        (\<exists>reg c. registry = Inr reg \<and> get_changeset reg i = Some c \<and> change_set_status c = READY
           \<and> (\<forall>product_id\<in>set (cs_required_product_ids c). \<exists>readiness p merge.
                 dict_get (cs_ready_products c) product_id = Some readiness
               \<and> en_pull_request E (rd_pr_number readiness) = Some p
               \<and> pl_head_sha p = rd_head_sha readiness \<and> pl_merged_at p \<noteq> None
               \<and> pl_merge_sha p = Some merge \<and> en_ancestor E (str_lower (strip merge)) current)))"

text \<open>A release that exists belongs to the tag and has at most one asset of the name, which is this one.\<close>

definition release_fits :: "release_state option \<Rightarrow> string \<Rightarrow> string \<Rightarrow> string \<Rightarrow> bool" where
  "release_fits release tag name sha \<longleftrightarrow>
     (\<forall>r. release = Some r \<longrightarrow> rs_tag r = tag
        \<and> (filter (\<lambda>a. ra_name a = name) (rs_assets r) = []
           \<or> (\<exists>a. filter (\<lambda>a. ra_name a = name) (rs_assets r) = [a] \<and> ra_digest a = Some sha)))"

definition publication_allowed ::
  "library \<Rightarrow> reader \<Rightarrow> remote_env \<Rightarrow> publication_parts \<Rightarrow> publication_request \<Rightarrow> release_plan \<Rightarrow> string \<Rightarrow> world \<Rightarrow> bool" where
  "publication_allowed L R E parts request plan payload w \<longleftrightarrow>
     pq_same_repository request \<and> wo_head w = pq_current request
     \<and> pp_sources parts (pq_product_key request) = Inr () \<and> pp_sources parts (rp_product_key plan) = Inr ()
     \<and> pp_plan parts = Inr plan
     \<and> changeset_merged E (pp_registry parts) plan (pq_current request)
     \<and> pp_output parts (bundle_name plan) = Inr () \<and> pp_readable parts (bundle_name plan) = Inr ()
     \<and> pp_bundle parts = Inr payload \<and> verify_release_bundle L R payload (rp_artifact_hashes plan) = Inr payload
     \<and> (\<forall>t\<in>set (rp_product_tag plan # rp_table_tags plan). wo_tags w t \<in> {None, Some (pq_current request)})
     \<and> release_fits (wo_releases w (rp_product_tag plan)) (rp_product_tag plan) (bundle_name plan) (lib_sha256 L payload)
     \<and> map_option (lib_sha256 L) (pp_bundle_later parts) = Some (lib_sha256 L payload)"

lemma each_Inr: "each f xs w = (Inr ys, w') \<Longrightarrow> x \<in> set xs \<Longrightarrow> \<exists>y u v. f x u = (Inr y, v)"
  by (induction xs arbitrary: w ys) (auto simp: andthen_Inr)

lemma is_ancestor_Inr:
  "is_ancestor E a d w = (Inr b, w') \<Longrightarrow> b = en_ancestor E (str_lower (strip a)) (str_lower (strip d))"
  by (auto simp: is_ancestor_def validated_sha_def andthen_Inr Let_def dest!: ask_Inr)

lemma get_pr_Inr: "get_pr E n w = (Inr p, w') \<Longrightarrow> en_pull_request E n = Some p"
  by (cases "en_pull_request E n") (auto simp: get_pr_def andthen_Inr dest!: ask_Inr)

lemma check_merged_Inr:
  assumes "check_merged E current readiness u = (Inr y, v)" and "GitSha current"
  shows "\<exists>p merge. en_pull_request E (rd_pr_number readiness) = Some p \<and> pl_head_sha p = rd_head_sha readiness
    \<and> pl_merged_at p \<noteq> None \<and> pl_merge_sha p = Some merge \<and> en_ancestor E (str_lower (strip merge)) current"
  using assms(1) GitSha_normal [OF assms(2)]
  by (auto simp: check_merged_def andthen_Inr split: option.splits dest!: get_pr_Inr is_ancestor_Inr)

lemma readiness_Inr:
  assumes "verify_changeset_readiness E registry plan current w = (Inr x, w')" and "GitSha current"
  shows "changeset_merged E registry plan current"
  unfolding changeset_merged_def
proof (intro allI impI)
  fix i assume i: "rp_changeset_id plan = Some i"
  with assms(1) obtain reg c u ys v where c: "registry = Inr reg" "get_changeset reg i = Some c" "change_set_status c = READY"
    "each (\<lambda>product_id. case dict_get (cs_ready_products c) product_id of
                       None \<Rightarrow> raise_failure (Other (KeyError product_id))
                     | Some readiness \<Rightarrow> check_merged E current readiness) (cs_required_product_ids c) u = (Inr ys, v)"
    by (auto simp: verify_changeset_readiness_def andthen_Inr split: option.splits sum.splits if_splits)
  have "\<exists>readiness p merge. dict_get (cs_ready_products c) product_id = Some readiness
      \<and> en_pull_request E (rd_pr_number readiness) = Some p \<and> pl_head_sha p = rd_head_sha readiness
      \<and> pl_merged_at p \<noteq> None \<and> pl_merge_sha p = Some merge \<and> en_ancestor E (str_lower (strip merge)) current"
    if "product_id \<in> set (cs_required_product_ids c)" for product_id
    using each_Inr [OF c(4) that] check_merged_Inr [OF _ assms(2)]
    by (auto split: option.splits)
  with c show "\<exists>reg c. registry = Inr reg \<and> get_changeset reg i = Some c \<and> change_set_status c = READY
           \<and> (\<forall>product_id\<in>set (cs_required_product_ids c). \<exists>readiness p merge.
                 dict_get (cs_ready_products c) product_id = Some readiness
               \<and> en_pull_request E (rd_pr_number readiness) = Some p
               \<and> pl_head_sha p = rd_head_sha readiness \<and> pl_merged_at p \<noteq> None
               \<and> pl_merge_sha p = Some merge \<and> en_ancestor E (str_lower (strip merge)) current)" by blast
qed

lemma existing_release_Inr:
  assumes "verify_existing_release release plan name sha w = (Inr x, w')"
  shows "release_fits release (rp_product_tag plan) name sha"
  unfolding release_fits_def
proof (intro allI impI)
  fix r assume r: "release = Some r"
  let ?m = "filter (\<lambda>a. ra_name a = name) (rs_assets r)"
  from assms r have m: "rs_tag r = rp_product_tag plan" "\<not> length ?m > 1" "?m = [] \<or> ra_digest (hd ?m) = Some sha"
    by (auto simp: verify_existing_release_def Let_def split: if_splits)
  then show "rs_tag r = rp_product_tag plan \<and> (?m = [] \<or> (\<exists>a. ?m = [a] \<and> ra_digest a = Some sha))"
    by (cases ?m; cases "tl ?m") auto
qed

lemma stages_allow:
  assumes "GitSha (pq_current request)"
    and 1: "publication_plan E parts request w = (Inr plan, w1)"
    and 2: "publication_bundle L R E parts (pq_current request) plan w1 = (Inr payload, w2)"
    and 3: "publication_targets L E parts (pq_current request) plan payload w2 = (Inr targets, w3)"
  shows "publication_allowed L R E parts request plan payload w" and "unchanged w w3"
    and "targets = map (wo_tags w3) (rp_product_tag plan # rp_table_tags plan)"
proof -
  let ?current = "pq_current request" and ?ts = "rp_product_tag plan # rp_table_tags plan"
  note u1 = reading_Inr [OF reading_stages(1) 1] and u2 = reading_Inr [OF reading_stages(2) 2]
    and u3 = reading_Inr [OF reading_stages(3) 3]
  show u: "unchanged w w3" using unchanged_trans [OF unchanged_trans [OF u1 u2] u3] .
  have same: "wo_tags w2 = wo_tags w" "wo_tags w3 = wo_tags w" "wo_releases w2 = wo_releases w"
    using unchangedD(1,3) [OF unchanged_trans [OF u1 u2]] unchangedD(1) [OF u] by metis+
  from 3 obtain u existing v z where t: "each (tag_target E) ?ts w2 = (Inr targets, u)"
    "list_all (\<lambda>t. t = None \<or> t = Some ?current) targets"
    "get_release E (rp_product_tag plan) u = (Inr existing, v)"
    "verify_existing_release existing plan (bundle_name plan) (lib_sha256 L payload) v = (Inr (), z)"
    "map_option (lib_sha256 L) (pp_bundle_later parts) = Some (lib_sha256 L payload)"
    by (simp add: publication_targets_def require_bundle_unchanged_def andthen_Inr del: each.simps) blast
  have targets: "targets = map (wo_tags w) ?ts" using each_tag_target [OF t(1)] same by simp
  then show "targets = map (wo_tags w3) ?ts" using same by simp
  have "unchanged w2 u" by (rule reading_Inr [OF reading_each t(1)]) (rule reading_checks(5))
  with get_release_Inr [OF t(3)] same have "existing = wo_releases w (rp_product_tag plan)"
    by (metis unchangedD(3))
  with existing_release_Inr [OF t(4)]
  have fits: "release_fits (wo_releases w (rp_product_tag plan)) (rp_product_tag plan) (bundle_name plan) (lib_sha256 L payload)"
    by simp
  have tags: "\<forall>t\<in>set ?ts. wo_tags w t \<in> {None, Some ?current}"
    using t(2) unfolding targets by (auto simp: list_all_iff)
  from 1 obtain x y where plan: "pq_same_repository request" "wo_head w = ?current"
    "pp_sources parts (pq_product_key request) = Inr ()" "pp_plan parts = Inr plan"
    "verify_changeset_readiness E (pp_registry parts) plan ?current x = (Inr (), y)"
    by (auto simp: publication_plan_def andthen_Inr dest!: lift_Inr require_current_head_Inr)
  from 2 obtain zipped where built: "pp_output parts (bundle_name plan) = Inr ()" "pp_sources parts (rp_product_key plan) = Inr ()"
    "pp_bundle parts = Inr zipped" "pp_readable parts (bundle_name plan) = Inr ()"
    "verify_release_bundle L R zipped (rp_artifact_hashes plan) = Inr payload"
    by (auto simp: publication_bundle_def andthen_Inr dest!: lift_Inr)
  then have "zipped = payload" by (auto simp: verify_release_bundle_def split: option.splits if_splits)
  with built plan readiness_Inr [OF plan(5) assms(1)] fits tags t(5)
  show "publication_allowed L R E parts request plan payload w"
    by (simp add: publication_allowed_def)
qed

lemma publish_cases:
  "(\<exists>e. publish L R E parts request w = (Inl e, w') \<and> unchanged w w')
   \<or> (\<exists>plan payload targets w1 w2 w3. publication_plan E parts request w = (Inr plan, w1)
        \<and> publication_bundle L R E parts (pq_current request) plan w1 = (Inr payload, w2)
        \<and> publication_targets L E parts (pq_current request) plan payload w2 = (Inr targets, w3)
        \<and> w' = snd (publish_remote L E plan (pq_current request) payload
                    (zip (rp_product_tag plan # rp_table_tags plan) targets) w3))"
  if "w' = snd (publish L R E parts request w)"
proof -
  let ?current = "pq_current request"
  obtain r1 w1 where 1: "publication_plan E parts request w = (r1, w1)" by fastforce
  have u1: "unchanged w w1" using reading_stages(1) 1 unfolding reading.keeps_def by (metis snd_conv)
  show ?thesis
  proof (cases r1)
    case (Inl e)
    with 1 u1 that show ?thesis by (simp add: publish_def andthen_def Let_def)
  next
    case r1: (Inr plan)
    obtain r2 w2 where 2: "publication_bundle L R E parts ?current plan w1 = (r2, w2)" by fastforce
    have "unchanged w1 w2" using reading_stages(2) 2 unfolding reading.keeps_def by (metis snd_conv)
    then have u2: "unchanged w w2" by (rule unchanged_trans [OF u1])
    show ?thesis
    proof (cases r2)
      case (Inl e)
      with 1 r1 2 u2 that show ?thesis by (simp add: publish_def andthen_def Let_def)
    next
      case r2: (Inr payload)
      obtain r3 w3 where 3: "publication_targets L E parts ?current plan payload w2 = (r3, w3)" by fastforce
      have "unchanged w2 w3" using reading_stages(3) 3 unfolding reading.keeps_def by (metis snd_conv)
      then have u3: "unchanged w w3" by (rule unchanged_trans [OF u2])
      show ?thesis
      proof (cases r3)
        case (Inl e)
        with 1 r1 2 r2 3 u3 that show ?thesis by (simp add: publish_def andthen_def Let_def)
      next
        case (Inr targets)
        with 1 r1 2 r2 3 that show ?thesis
          by (simp add: publish_def snd_andthen Let_def give_def split: prod.splits sum.splits)
      qed
    qed
  qed
qed

text \<open>(C18) Whatever the outcome - refused, failed at any call, or successful - a publication
  leaves the tags, the remote tags, the releases, the statuses and the events as they are, unless
  every check has passed: the right repository and head, admissible paths, a plan whose changeset is
  ready and merged into the commit, a bundle that matches the plan and has not changed since, tags
  that are free or already at the commit, and a release that is absent or fits. When they have
  passed, the only local tags that change are tags of the plan that did not exist, set to the commit; the
  only remote tags that change are those tags, set to the commit, or the product tag when the clone
  already had it and the remote did not, which GitHub then creates at the head of its default branch; and the only
  release that changes is that of the product tag, which keeps its assets.\<close>

theorem publication_changes_guarded:
  assumes "GitSha (pq_current request)" and "w' = snd (publish L R E parts request w)"
  shows "unchanged w w' \<or> (\<exists>plan payload. publication_allowed L R E parts request plan payload w
    \<and> wo_head w' = wo_head w \<and> wo_statuses w' = wo_statuses w \<and> wo_events w' = wo_events w
    \<and> (\<forall>t. wo_tags w' t \<noteq> wo_tags w t \<longrightarrow>
         t \<in> set (rp_product_tag plan # rp_table_tags plan) \<and> wo_tags w t = None \<and> wo_tags w' t = Some (pq_current request))
    \<and> (\<forall>t. wo_remote_tags w' t \<noteq> wo_remote_tags w t \<longrightarrow> wo_remote_tags w t = None
         \<and> (t \<in> set (rp_product_tag plan # rp_table_tags plan) \<and> wo_tags w t = None
              \<and> wo_remote_tags w' t = Some (pq_current request)
            \<or> t = rp_product_tag plan \<and> wo_tags w t = Some (pq_current request)
              \<and> wo_remote_tags w' t = Some (en_default_head E)))
    \<and> (\<forall>t. wo_releases w' t \<noteq> wo_releases w t \<longrightarrow> t = rp_product_tag plan)
    \<and> (\<forall>t r. wo_releases w t = Some r \<longrightarrow> (\<exists>r'. wo_releases w' t = Some r' \<and> set (rs_assets r) \<subseteq> set (rs_assets r'))))"
  using publish_cases [OF assms(2)]
proof (elim disjE exE conjE)
  fix plan :: release_plan and payload targets w1 w2 w3
  let ?current = "pq_current request" and ?ts = "rp_product_tag plan # rp_table_tags plan"
  assume stages: "publication_plan E parts request w = (Inr plan, w1)"
    "publication_bundle L R E parts ?current plan w1 = (Inr payload, w2)"
    "publication_targets L E parts ?current plan payload w2 = (Inr targets, w3)"
    and w': "w' = snd (publish_remote L E plan ?current payload (zip ?ts targets) w3)"
  note s = stages_allow [OF assms(1) stages]
  have same: "wo_tags w3 = wo_tags w" "wo_remote_tags w3 = wo_remote_tags w" "wo_releases w3 = wo_releases w"
    "wo_statuses w3 = wo_statuses w" "wo_events w3 = wo_events w"
    using unchangedD [OF s(2)] by simp_all
  note c = publish_remote_confined [OF assms(1), of ?ts w3 plan L E payload, folded s(3), folded w', unfolded confined_def same]
  note r = publish_remote_remote [OF assms(1), of ?ts w3 plan E L payload, folded s(3), folded w', unfolded remote_only_def same]
  have g: "wo_head w' = wo_head w" "wo_remote_tags w \<subseteq>\<^sub>m wo_remote_tags w'"
    "\<forall>t r. wo_releases w t = Some r \<longrightarrow> (\<exists>r'. wo_releases w' t = Some r' \<and> set (rs_assets r) \<subseteq> set (rs_assets r'))"
    using grows_publish [of L R E parts request] unfolding assms(2) growth.keeps_def grows_def by blast+
  have "wo_remote_tags w t = None" if "wo_remote_tags w' t \<noteq> wo_remote_tags w t" for t
    using g(2) that by (force simp: map_le_def dom_def)
  moreover have "\<forall>t\<in>set ?ts. wo_tags w t \<in> {None, Some ?current}"
    using s(1) by (simp add: publication_allowed_def)
  moreover have "rp_product_tag plan \<in> set ?ts" by simp
  ultimately have "\<forall>t. wo_remote_tags w' t \<noteq> wo_remote_tags w t \<longrightarrow> wo_remote_tags w t = None
         \<and> (t \<in> set ?ts \<and> wo_tags w t = None \<and> wo_remote_tags w' t = Some ?current
            \<or> t = rp_product_tag plan \<and> wo_tags w t = Some ?current \<and> wo_remote_tags w' t = Some (en_default_head E))"
    using r by blast
  moreover have "\<forall>t. wo_tags w' t \<noteq> wo_tags w t \<longrightarrow> t \<in> set ?ts \<and> wo_tags w t = None \<and> wo_tags w' t = Some ?current"
    "\<forall>t. wo_releases w' t \<noteq> wo_releases w t \<longrightarrow> t = rp_product_tag plan"
    "wo_statuses w' = wo_statuses w" "wo_events w' = wo_events w"
    using c by blast+
  ultimately show ?thesis
    by (intro disjI2 exI [of _ plan] exI [of _ payload] conjI s(1) g(1,3))
qed blast

lemma publication_changes_guarded_witness:
  "\<exists>plan payload. publication_allowed plain_library zip_reader calm_sample sample_parts sample_request plan payload sample_world
    \<and> wo_tags (snd (sample_publish calm_sample sample_world)) (rp_product_tag plan) = Some sample_sha"
proof -
  have sha: "GitSha (pq_current sample_request)" using sample_names(4) by (simp add: sample_request_def)
  from sample_publishes obtain res w' where run: "sample_publish calm_sample sample_world = (Inr res, w')" by blast
  from publish_stages [OF run sha] obtain plan w1 where plan: "publication_plan calm_sample sample_parts sample_request sample_world = (Inr plan, w1)"
    "wo_tags w' (rp_product_tag plan) = Some sample_sha"
    by (auto simp: sample_request_def)
  have w': "w' = snd (sample_publish calm_sample sample_world)" by (simp add: run)
  have p: "pp_plan sample_parts = Inr plan"
    using plan(1) by (auto simp: publication_plan_def andthen_Inr dest!: lift_Inr)
  have "\<not> unchanged sample_world w'"
    using plan(2) by (auto simp: sample_world_def dest: unchangedD(1))
  with publication_changes_guarded [OF sha w'] p plan(2) show ?thesis
    unfolding publication_allowed_def w' by (metis sum.inject(2))
qed

end
