(* ===== verification/Paths.thy ===== *)
theory Paths
  imports Models "HOL-Library.Sublist"
begin

text \<open>
  The path policy of the repository (\<open>adapters/filesystem.py\<close>): which paths a command may read and write. A path
  is parsed as Python does it, made absolute and normalised without looking at the file system, and refused when it
  leaves the repository, touches the Git metadata or goes through a symbolic link. The lemmas say exactly which
  paths pass, and that the allow-lists of the commands do not reach into another product.
\<close>

section \<open>Paths and the file system\<close>

datatype node = Missing | Regular | Folder | Special | Link

text \<open>What is at an absolute path, and \<open>Path.resolve\<close>.\<close>

record file_system =
  fs_node :: "string list \<Rightarrow> node"
  fs_resolve :: "string list \<Rightarrow> string list"

definition path_error :: "string \<Rightarrow> exn" where
  "path_error code = WorkflowError SECURITY code"

text \<open>A parsed path: the number of leading slashes that count (none, one, or the two that POSIX keeps apart) and
  the parts, without empty ones and single dots.\<close>

definition anchor :: "string \<Rightarrow> nat" where
  "anchor s =
     (if \<not> starts_with ''/'' s then 0 else if starts_with ''//'' s \<and> \<not> starts_with ''///'' s then 2 else 1)"

definition path_parts :: "string \<Rightarrow> string list" where
  "path_parts s = filter (\<lambda>p. p \<noteq> [] \<and> p \<noteq> ''.'') (split_on CHR ''/'' s)"

text \<open>\<open>os.path.abspath\<close> on the parts of an absolute path.\<close>

definition enter :: "string list \<Rightarrow> string \<Rightarrow> string list" where
  "enter ps p = (if p = ''..'' then butlast ps else ps @ [p])"

definition normal_path :: "string list \<Rightarrow> string list" where
  "normal_path ps = foldl enter [] ps"

definition lexical_candidate :: "string list \<Rightarrow> string \<Rightarrow> string list result" where
  "lexical_candidate base path =
     (if CHR 0x00 \<in> set path then Inl (path_error ''INVALID_PATH'')
      else
        let absolute = anchor path \<noteq> 0;
            candidate = normal_path (if absolute then path_parts path else base @ path_parts path)
        in if anchor path = 2 \<or> \<not> prefix base candidate then Inl (path_error ''PATH_OUTSIDE_REPOSITORY'')
           else Inr candidate)"

text \<open>The loop stops at the first part that does not exist.\<close>

fun reject_symlinks :: "file_system \<Rightarrow> string list \<Rightarrow> string list \<Rightarrow> unit result" where
  "reject_symlinks F current [] = Inr ()"
| "reject_symlinks F current (part # rest) =
     (let next_path = current @ [part]
      in if fs_node F next_path = Link then Inl (path_error ''SYMLINK_NOT_ALLOWED'')
         else if fs_node F next_path = Missing then Inr ()
         else reject_symlinks F next_path rest)"

definition require_below_root :: "string list \<Rightarrow> string list \<Rightarrow> unit result" where
  "require_below_root base candidate =
     (if \<not> prefix base candidate then Inl (path_error ''PATH_OUTSIDE_REPOSITORY'') else Inr ())"

definition relative_parts :: "string list \<Rightarrow> string list \<Rightarrow> string list" where
  "relative_parts base p = drop (length base) p"

section \<open>Reading and writing\<close>

definition resolve_read :: "file_system \<Rightarrow> string list \<Rightarrow> string \<Rightarrow> string list result" where
  "resolve_read F base path =
     bind_ok (lexical_candidate base path) (\<lambda>candidate.
     bind_ok (reject_symlinks F base (relative_parts base candidate)) (\<lambda>_.
     let resolved = fs_resolve F candidate
     in bind_ok (require_below_root base resolved) (\<lambda>_.
        if fs_node F resolved = Missing then Inl (path_error ''READ_PATH_NOT_FOUND'')
        else if fs_node F resolved \<notin> {Regular, Folder} then Inl (path_error ''READ_PATH_TYPE_NOT_ALLOWED'')
        else Inr resolved)))"

definition resolve_write :: "file_system \<Rightarrow> string list \<Rightarrow> string \<Rightarrow> string list result" where
  "resolve_write F base path =
     bind_ok (lexical_candidate base path) (\<lambda>candidate.
     if ''.git'' \<in> set (relative_parts base candidate) then Inl (path_error ''GIT_METADATA_WRITE_NOT_ALLOWED'')
     else
     bind_ok (reject_symlinks F base (relative_parts base candidate)) (\<lambda>_.
     let resolved = fs_resolve F candidate
     in bind_ok (require_below_root base resolved) (\<lambda>_. Inr resolved)))"

definition resolve_directory :: "file_system \<Rightarrow> string list \<Rightarrow> string \<Rightarrow> bool \<Rightarrow> string list result" where
  "resolve_directory F base path allow_missing =
     bind_ok (case resolve_read F base path of
          Inl e \<Rightarrow> if \<not> allow_missing \<or> e \<noteq> path_error ''READ_PATH_NOT_FOUND'' then Inl e else resolve_write F base path
        | Inr p \<Rightarrow> Inr p) (\<lambda>resolved.
       if fs_node F resolved \<noteq> Missing \<and> fs_node F resolved \<noteq> Folder then Inl (path_error ''READ_PATH_TYPE_NOT_ALLOWED'')
       else Inr resolved)"

section \<open>The allow-lists\<close>

definition with_product_key :: "string \<Rightarrow> 'a result \<Rightarrow> 'a result" where
  "with_product_key key r = (if \<not> ProductKey key then Inl (path_error ''INVALID_PRODUCT_KEY'') else r)"

definition writable_parts :: "file_system \<Rightarrow> string list \<Rightarrow> string \<Rightarrow> string list result" where
  "writable_parts F base path = bind_ok (resolve_write F base path) (\<lambda>p. Inr (relative_parts base p))"

definition is_writeback_allowed :: "file_system \<Rightarrow> string list \<Rightarrow> string \<Rightarrow> string \<Rightarrow> bool result" where
  "is_writeback_allowed F base path key =
     with_product_key key (bind_ok (writable_parts F base path) (\<lambda>parts.
       Inr (length parts \<ge> 2 \<and> parts ! 0 = ''registry''
          \<or> parts = [''products'', key, ''product.yaml'']
          \<or> length parts \<ge> 4 \<and> parts ! 0 = ''products'' \<and> parts ! 1 = key \<and> parts ! 2 \<in> {''generated'', ''quality''})))"

definition is_intake_write_allowed :: "file_system \<Rightarrow> string list \<Rightarrow> string \<Rightarrow> string \<Rightarrow> bool result" where
  "is_intake_write_allowed F base path key =
     with_product_key key (bind_ok (writable_parts F base path) (\<lambda>parts.
       Inr (if length parts < 3 \<or> take 2 parts \<noteq> [''products'', key] then False
            else if length parts = 3 then parts ! 2 \<in> {''product.yaml'', ''intake-manifest.json''}
            else parts ! 2 = ''sources'')))"

definition is_base_sync_reset_allowed ::
  "file_system \<Rightarrow> string list \<Rightarrow> string \<Rightarrow> string \<Rightarrow> string \<Rightarrow> string list \<Rightarrow> bool result" where
  "is_base_sync_reset_allowed F base path key product_id table_ids =
     with_product_key key (bind_ok (writable_parts F base path) (\<lambda>parts.
       Inr (if length parts \<ge> 4 \<and> take 2 parts = [''products'', key] \<and> parts ! 2 \<in> {''generated'', ''quality''} then True
            else if length parts \<noteq> 3 \<or> parts ! 0 \<noteq> ''registry'' then False
            else if parts ! 1 = ''indexes'' then parts ! 2 \<in> {''product-keys.json'', ''table-locators.json''}
            else if parts ! 1 \<in> {''products'', ''mappings''} then parts ! 2 = product_id @ ''.json''
            else if parts ! 1 = ''tables''
            then ends_with ''.json'' (parts ! 2) \<and> take (length (parts ! 2) - 5) (parts ! 2) \<in> set table_ids
            else False)))"

definition is_changeset_write_allowed ::
  "file_system \<Rightarrow> string list \<Rightarrow> string \<Rightarrow> string \<Rightarrow> string option \<Rightarrow> bool result" where
  "is_changeset_write_allowed F base path changeset_id key =
     (case key of
        Some k \<Rightarrow> with_product_key k (bind_ok (writable_parts F base path) (\<lambda>parts.
          Inr (parts = [''products'', k, ''changesets'', changeset_id @ ''.json''])))
      | None \<Rightarrow> bind_ok (writable_parts F base path) (\<lambda>parts.
          Inr (parts = [''registry'', ''changesets'', changeset_id @ ''.json''])))"

section \<open>Which paths pass\<close>

text \<open>A consistent file system: nothing is below a missing entry, and a path without links is its own resolution.\<close>

definition link_free :: "file_system \<Rightarrow> string list \<Rightarrow> bool" where
  "link_free F p \<longleftrightarrow> (\<forall>q. prefix q p \<longrightarrow> fs_node F q \<noteq> Link)"

definition fs_consistent :: "file_system \<Rightarrow> bool" where
  "fs_consistent F \<longleftrightarrow> (\<forall>p part. fs_node F p = Missing \<longrightarrow> fs_node F (p @ [part]) = Missing)
     \<and> (\<forall>p. link_free F p \<longrightarrow> fs_resolve F p = p)"

lemma missing_below: "fs_consistent F \<Longrightarrow> fs_node F p = Missing \<Longrightarrow> fs_node F (p @ q) = Missing"
proof (induction q rule: rev_induct)
  case (snoc x q)
  then show ?case unfolding append_assoc [symmetric] by (metis fs_consistent_def)
qed simp

lemma reject_symlinks_Inr:
  assumes "fs_consistent F"
  shows "reject_symlinks F current parts = Inr u \<longleftrightarrow> (\<forall>q. q \<noteq> [] \<longrightarrow> prefix q parts \<longrightarrow> fs_node F (current @ q) \<noteq> Link)"
proof (induction parts arbitrary: current)
  case (Cons part rest)
  let ?next = "current @ [part]"
  have below: "(\<forall>q. q \<noteq> [] \<longrightarrow> prefix q (part # rest) \<longrightarrow> fs_node F (current @ q) \<noteq> Link)
      \<longleftrightarrow> fs_node F ?next \<noteq> Link \<and> (\<forall>q. q \<noteq> [] \<longrightarrow> prefix q rest \<longrightarrow> fs_node F (?next @ q) \<noteq> Link)"
    (is "?all \<longleftrightarrow> ?here \<and> ?rest")
  proof
    assume all: ?all
    have ?here using all [rule_format, of "[part]"] by simp
    moreover have ?rest using all by (metis Cons_prefix_Cons append.assoc append_Cons append_Nil list.distinct(1))
    ultimately show "?here \<and> ?rest" ..
  next
    assume r: "?here \<and> ?rest"
    show ?all
    proof (intro allI impI)
      fix q assume "q \<noteq> []" "prefix q (part # rest)"
      then obtain q' where "q = part # q'" "prefix q' rest" by (cases q) auto
      then show "fs_node F (current @ q) \<noteq> Link" using r by (cases "q' = []") auto
    qed
  qed
  show ?case
  proof (cases "fs_node F ?next = Missing")
    case True
    have "\<forall>q. fs_node F (?next @ q) = Missing" using missing_below [OF assms True] by blast
    then show ?thesis using True unfolding below by (simp add: Let_def)
  next
    case False
    then show ?thesis using Cons.IH [of ?next] unfolding below by (simp add: Let_def)
  qed
qed simp

lemma lexical_candidate_Inr:
  "lexical_candidate base path = Inr p \<longleftrightarrow> CHR 0x00 \<notin> set path \<and> anchor path \<noteq> 2
     \<and> p = normal_path (if anchor path \<noteq> 0 then path_parts path else base @ path_parts path) \<and> prefix base p"
  by (auto simp: lexical_candidate_def Let_def)

text \<open>The repository itself is a directory reached without links.\<close>

lemma link_free_below:
  assumes "fs_consistent F" and "link_free F base" and "prefix base p" and "reject_symlinks F base (relative_parts base p) = Inr u"
  shows "link_free F p"
  unfolding link_free_def
proof (intro allI impI)
  fix q assume q: "prefix q p"
  from assms(3) obtain r where r: "p = base @ r" by (auto simp: prefix_def)
  have "prefix q base \<or> (\<exists>s. s \<noteq> [] \<and> q = base @ s \<and> prefix s r)"
    using q unfolding r by (metis append.right_neutral prefix_append prefix_order.order_refl)
  then show "fs_node F q \<noteq> Link"
    using assms(2,4) reject_symlinks_Inr [OF assms(1)] by (auto simp: link_free_def relative_parts_def r)
qed

lemma reject_symlinks_error: "reject_symlinks F current parts = Inl e \<Longrightarrow> e = path_error ''SYMLINK_NOT_ALLOWED''"
  by (induction parts arbitrary: current) (auto simp: Let_def split: if_splits)

lemma reject_symlinks_link_free:
  assumes "fs_consistent F" and "link_free F base" and "prefix base p"
  shows "reject_symlinks F base (relative_parts base p)
    = (if link_free F p then Inr () else Inl (path_error ''SYMLINK_NOT_ALLOWED''))"
proof -
  have "(\<exists>u. reject_symlinks F base (relative_parts base p) = Inr u) \<longleftrightarrow> link_free F p"
  proof
    assume "link_free F p"
    moreover from assms(3) obtain r where "p = base @ r" by (auto simp: prefix_def)
    ultimately show "\<exists>u. reject_symlinks F base (relative_parts base p) = Inr u"
      using reject_symlinks_Inr [OF assms(1)] by (auto simp: relative_parts_def link_free_def)
  qed (use link_free_below [OF assms] in blast)
  then show ?thesis
    using reject_symlinks_error [of F base "relative_parts base p"]
    by (cases "reject_symlinks F base (relative_parts base p)") auto
qed

lemma resolve_write_eq:
  fixes path :: string
  assumes "fs_consistent F" and "link_free F base"
  defines "p \<equiv> normal_path (if anchor path = 0 then base @ path_parts path else path_parts path)"
  shows "resolve_write F base path =
    (if CHR 0x00 \<in> set path then Inl (path_error ''INVALID_PATH'')
     else if anchor path = 2 \<or> \<not> prefix base p then Inl (path_error ''PATH_OUTSIDE_REPOSITORY'')
     else if ''.git'' \<in> set (drop (length base) p) then Inl (path_error ''GIT_METADATA_WRITE_NOT_ALLOWED'')
     else if \<not> link_free F p then Inl (path_error ''SYMLINK_NOT_ALLOWED'')
     else Inr p)"
proof -
  have "fs_resolve F p = p" if "link_free F p" using that assms(1) by (simp add: fs_consistent_def)
  moreover have "normal_path (if anchor path \<noteq> 0 then path_parts path else base @ path_parts path) = p"
    by (simp add: p_def)
  ultimately show ?thesis
    using reject_symlinks_link_free [OF assms(1,2), of p]
    by (auto simp: resolve_write_def lexical_candidate_def require_below_root_def relative_parts_def Let_def)
qed

lemma path_error_inject [simp]: "path_error a = path_error b \<longleftrightarrow> a = b"
  by (simp add: path_error_def)

text \<open>(C17) A path may be written exactly when it has no NUL, names a place below the
  repository after normalisation, has no \<open>.git\<close> part, and passes through no symbolic link; what is returned is that
  place. Every other path is refused with the code of the first of these conditions that it
  breaks, in that order: \<open>INVALID_PATH\<close>, \<open>PATH_OUTSIDE_REPOSITORY\<close>, \<open>GIT_METADATA_WRITE_NOT_ALLOWED\<close> and
  \<open>SYMLINK_NOT_ALLOWED\<close>.\<close>

theorem resolve_write_iff:
  assumes "fs_consistent F" and "link_free F base"
  shows "(resolve_write F base path = Inr p \<longleftrightarrow>
      CHR 0x00 \<notin> set path \<and> anchor path \<noteq> 2
      \<and> p = normal_path (if anchor path = 0 then base @ path_parts path else path_parts path)
      \<and> prefix base p \<and> ''.git'' \<notin> set (drop (length base) p) \<and> link_free F p)
    \<and> (p = normal_path (if anchor path = 0 then base @ path_parts path else path_parts path) \<longrightarrow>
      (resolve_write F base path = Inl e \<longleftrightarrow>
         CHR 0x00 \<in> set path \<and> e = path_error ''INVALID_PATH''
       \<or> CHR 0x00 \<notin> set path \<and> (anchor path = 2 \<or> \<not> prefix base p) \<and> e = path_error ''PATH_OUTSIDE_REPOSITORY''
       \<or> CHR 0x00 \<notin> set path \<and> anchor path \<noteq> 2 \<and> prefix base p
          \<and> ''.git'' \<in> set (drop (length base) p) \<and> e = path_error ''GIT_METADATA_WRITE_NOT_ALLOWED''
       \<or> CHR 0x00 \<notin> set path \<and> anchor path \<noteq> 2 \<and> prefix base p
          \<and> ''.git'' \<notin> set (drop (length base) p) \<and> \<not> link_free F p \<and> e = path_error ''SYMLINK_NOT_ALLOWED''))"
proof (intro conjI impI)
  show "resolve_write F base path = Inr p \<longleftrightarrow>
      CHR 0x00 \<notin> set path \<and> anchor path \<noteq> 2
      \<and> p = normal_path (if anchor path = 0 then base @ path_parts path else path_parts path)
      \<and> prefix base p \<and> ''.git'' \<notin> set (drop (length base) p) \<and> link_free F p"
    unfolding resolve_write_eq [OF assms] by (auto split: if_splits)
next
  assume p: "p = normal_path (if anchor path = 0 then base @ path_parts path else path_parts path)"
  show "resolve_write F base path = Inl e \<longleftrightarrow>
         CHR 0x00 \<in> set path \<and> e = path_error ''INVALID_PATH''
       \<or> CHR 0x00 \<notin> set path \<and> (anchor path = 2 \<or> \<not> prefix base p) \<and> e = path_error ''PATH_OUTSIDE_REPOSITORY''
       \<or> CHR 0x00 \<notin> set path \<and> anchor path \<noteq> 2 \<and> prefix base p
          \<and> ''.git'' \<in> set (drop (length base) p) \<and> e = path_error ''GIT_METADATA_WRITE_NOT_ALLOWED''
       \<or> CHR 0x00 \<notin> set path \<and> anchor path \<noteq> 2 \<and> prefix base p
          \<and> ''.git'' \<notin> set (drop (length base) p) \<and> \<not> link_free F p \<and> e = path_error ''SYMLINK_NOT_ALLOWED''"
    unfolding resolve_write_eq [OF assms] p [symmetric] by auto
qed

lemma allowed_parts:
  "with_product_key key (bind_ok (writable_parts F base path) (\<lambda>parts. Inr (P parts))) = Inr True \<longleftrightarrow>
     ProductKey key \<and> (\<exists>p. resolve_write F base path = Inr p \<and> P (relative_parts base p))"
  by (auto simp: with_product_key_def writable_parts_def)

lemma take_2_iff: "take 2 xs = [a, b] \<longleftrightarrow> length xs \<ge> 2 \<and> xs ! 0 = a \<and> xs ! 1 = b"
  by (cases xs; cases "tl xs") auto

text \<open>What a write-back may touch is the registry or the product itself. The intake
  of a product shares only the product's configuration with it, and the intake and the reset of another product
  share nothing below \<open>products\<close>.\<close>

theorem allow_lists_separate:
  assumes "is_writeback_allowed F base path key = Inr True"
  shows "\<exists>p parts. resolve_write F base path = Inr p \<and> parts = drop (length base) p
    \<and> (parts ! 0 = ''registry'' \<or> take 2 parts = [''products'', key])
    \<and> (is_intake_write_allowed F base path key' = Inr True \<longrightarrow> key' = key \<and> parts = [''products'', key, ''product.yaml''])
    \<and> (is_base_sync_reset_allowed F base path key' product_id table_ids = Inr True \<longrightarrow>
         parts ! 0 = ''registry'' \<or> key' = key \<and> parts ! 2 \<in> {''generated'', ''quality''})
    \<and> (is_changeset_write_allowed F base path changeset_id (Some key') \<noteq> Inr True)"
proof -
  from assms obtain p where p: "resolve_write F base path = Inr p" and w:
    "length (relative_parts base p) \<ge> 2 \<and> relative_parts base p ! 0 = ''registry''
      \<or> relative_parts base p = [''products'', key, ''product.yaml'']
      \<or> length (relative_parts base p) \<ge> 4 \<and> relative_parts base p ! 0 = ''products'' \<and> relative_parts base p ! 1 = key
         \<and> relative_parts base p ! 2 \<in> {''generated'', ''quality''}"
    unfolding is_writeback_allowed_def allowed_parts by blast
  define parts where "parts = relative_parts base p"
  note w = w [folded parts_def]
  have intake: "take 2 parts = [''products'', key'] \<and> (length parts = 3 \<longrightarrow> parts ! 2 \<in> {''product.yaml'', ''intake-manifest.json''})
      \<and> (length parts \<noteq> 3 \<longrightarrow> parts ! 2 = ''sources'')" if "is_intake_write_allowed F base path key' = Inr True"
    using that p unfolding is_intake_write_allowed_def allowed_parts parts_def by (auto split: if_splits)
  have reset: "(length parts \<ge> 4 \<and> take 2 parts = [''products'', key'] \<and> parts ! 2 \<in> {''generated'', ''quality''}) \<or> parts ! 0 = ''registry''"
    if "is_base_sync_reset_allowed F base path key' product_id table_ids = Inr True"
    using that p unfolding is_base_sync_reset_allowed_def allowed_parts parts_def by (auto split: if_splits)
  have changeset: "parts = [''products'', key', ''changesets'', changeset_id @ ''.json'']"
    if "is_changeset_write_allowed F base path changeset_id (Some key') = Inr True"
    using that p unfolding is_changeset_write_allowed_def option.case allowed_parts parts_def by auto
  from w consider (registry) "parts ! 0 = ''registry''" | (yaml) "parts = [''products'', key, ''product.yaml'']"
    | (artifact) "length parts \<ge> 4" "parts ! 0 = ''products''" "parts ! 1 = key" "parts ! 2 \<in> {''generated'', ''quality''}" by blast
  then have "(parts ! 0 = ''registry'' \<or> take 2 parts = [''products'', key])
    \<and> (is_intake_write_allowed F base path key' = Inr True \<longrightarrow> key' = key \<and> parts = [''products'', key, ''product.yaml''])
    \<and> (is_base_sync_reset_allowed F base path key' product_id table_ids = Inr True \<longrightarrow>
         parts ! 0 = ''registry'' \<or> key' = key \<and> parts ! 2 \<in> {''generated'', ''quality''})
    \<and> (is_changeset_write_allowed F base path changeset_id (Some key') \<noteq> Inr True)"
  proof cases
    case registry
    then have "take 2 parts \<noteq> [''products'', k]" for k by (auto simp: take_2_iff)
    then show ?thesis using registry intake changeset by fastforce
  next
    case yaml
    then show ?thesis using intake reset changeset by auto
  next
    case artifact
    then have t: "take 2 parts = [''products'', k] \<longleftrightarrow> k = key" for k by (auto simp: take_2_iff)
    have n: "length parts \<noteq> 3" "parts ! 2 \<noteq> ''sources''" "parts ! 2 \<noteq> ''changesets''" using artifact by auto
    have "is_intake_write_allowed F base path key' \<noteq> Inr True" using intake n by blast
    moreover have "is_changeset_write_allowed F base path changeset_id (Some key') \<noteq> Inr True"
      using changeset n(3) by auto
    moreover have "is_base_sync_reset_allowed F base path key' product_id table_ids = Inr True \<longrightarrow> key' = key"
      using reset t artifact(2) by auto
    ultimately show ?thesis using t artifact(4) by blast
  qed
  then show ?thesis using p unfolding parts_def relative_parts_def by blast
qed

text \<open>A repository in \<open>/repo\<close> without links.\<close>

definition sample_fs :: file_system where
  "sample_fs = \<lparr>fs_node = (\<lambda>p. if p = [''repo'', ''link''] then Link else if prefix p [''repo'', ''products''] then Folder else Missing), fs_resolve = id\<rparr>"

lemma sample_fs_consistent: "fs_consistent sample_fs" "link_free sample_fs [''repo'']"
  by (auto simp: fs_consistent_def link_free_def sample_fs_def prefix_Cons)

lemma resolve_write_iff_witness:
  "resolve_write sample_fs [''repo''] ''products/a/../b/./x'' = Inr [''repo'', ''products'', ''b'', ''x'']
   \<and> resolve_write sample_fs [''repo''] ''link/x'' = Inl (path_error ''SYMLINK_NOT_ALLOWED'')"
proof
  have "path_parts ''products/a/../b/./x'' = [''products'', ''a'', ''..'', ''b'', ''x'']" "anchor ''products/a/../b/./x'' = 0" by code_simp+
  moreover have "link_free sample_fs [''repo'', ''products'', ''b'', ''x'']"
    by (auto simp: link_free_def sample_fs_def prefix_Cons)
  ultimately show "resolve_write sample_fs [''repo''] ''products/a/../b/./x'' = Inr [''repo'', ''products'', ''b'', ''x'']"
    by (subst resolve_write_iff [OF sample_fs_consistent, THEN conjunct1]) (simp add: normal_path_def enter_def)
next
  let ?p = "[''repo'', ''link'', ''x'']"
  have parts: "path_parts ''link/x'' = [''link'', ''x'']" "anchor ''link/x'' = 0" by code_simp+
  then have "?p = normal_path (if anchor ''link/x'' = 0 then [''repo''] @ path_parts ''link/x'' else path_parts ''link/x'')"
    by (simp add: normal_path_def enter_def)
  moreover have "\<not> link_free sample_fs ?p"
    unfolding link_free_def by (auto simp: sample_fs_def intro!: exI [of _ "[''repo'', ''link'']"])
  ultimately show "resolve_write sample_fs [''repo''] ''link/x'' = Inl (path_error ''SYMLINK_NOT_ALLOWED'')"
    by (subst resolve_write_iff [OF sample_fs_consistent, THEN conjunct2, rule_format, of ?p]) (simp_all add: parts)
qed

lemma allow_lists_separate_witness:
  "is_writeback_allowed sample_fs [''repo''] ''products/orders/product.yaml'' ''orders'' = Inr True
   \<and> is_changeset_write_allowed sample_fs [''repo''] ''products/orders/product.yaml'' ''c'' (Some ''orders'') \<noteq> Inr True"
proof -
  have w: "is_writeback_allowed sample_fs [''repo''] ''products/orders/product.yaml'' ''orders'' = Inr True" by code_simp
  from allow_lists_separate [OF w] w show ?thesis by blast
qed

end
