(* ===== verification/Dispatch.thy ===== *)
theory Dispatch
  imports Publication Paths
begin

text \<open>
  Telling the downstream repository about a release (\<open>application/release_dispatch.py\<close>): one event for each
  published version, with a commit status as the mark that it was sent. The lemmas show what an event can say, that
  a run sends at most one, and that no later run sends another once a run has succeeded.
\<close>

section \<open>The result of the release workflow\<close>

datatype workflow_status = Status_success | Status_failure | Status_noop

record workflow_result =
  wr_schema_version :: int
  wr_command :: string
  wr_status :: workflow_status
  wr_outputs :: "(string, json) dict"

text \<open>The repository is where the paths resolve; \<open>dq_envelope\<close> parses the file at a resolved path, if it can.\<close>

record dispatch_request =
  dq_same_repository :: bool
  dq_files :: file_system
  dq_root :: "string list"
  dq_result_path :: string
  dq_envelope :: "string list \<Rightarrow> workflow_result option"
  dq_current :: string

definition result_file :: "string list" where
  "result_file = [''.ard'', ''run'', ''workflow.release-product-result.json'']"

definition security :: "string \<Rightarrow> workflow_failure" where
  "security code = Workflow SECURITY code"

definition load_release_result :: "dispatch_request \<Rightarrow> workflow_result command" where
  "load_release_result q =
     (let value = dq_result_path q;
          supplied = (if anchor value = 0 then dq_root q @ path_parts value else path_parts value)
      in andthen (check (anchor value \<noteq> 2 \<and> supplied = dq_root q @ result_file) (security ''RELEASE_RESULT_PATH_NOT_TRUSTED'')) (\<lambda>_.
         andthen (lift_result (resolve_read (dq_files q) (dq_root q) value)) (\<lambda>file.
         case dq_envelope q file of
           None \<Rightarrow> raise_failure (Workflow VALIDATION ''RELEASE_RESULT_INVALID'')
         | Some r \<Rightarrow>
             andthen (check (wr_schema_version r = 1 \<and> wr_command r = ''workflow.release-product'' \<and> wr_status r = Status_success)
               (security ''RELEASE_RESULT_NOT_APPROVED'')) (\<lambda>_. give r))))"

definition required_string :: "workflow_result \<Rightarrow> string \<Rightarrow> string command" where
  "required_string r key =
     (case dict_get (wr_outputs r) key of
        Some (JStr s) \<Rightarrow> andthen (check (s \<noteq> []) (security ''RELEASE_RESULT_INVALID'')) (\<lambda>_. give s)
      | _ \<Rightarrow> raise_failure (security ''RELEASE_RESULT_INVALID''))"

definition artifact_entry_ok :: "string \<times> json \<Rightarrow> bool" where
  "artifact_entry_ok e =
     (case e of
        (name, JStr digest) \<Rightarrow> name \<noteq> [] \<and> CHR 0x5C \<notin> set name \<and> CHR 0x00 \<notin> set name \<and> anchor name = 0
          \<and> ''..'' \<notin> set (path_parts name) \<and> Sha256 digest
      | _ \<Rightarrow> False)"

definition validated_artifact_hashes :: "json option \<Rightarrow> (string, json) dict command" where
  "validated_artifact_hashes v =
     (case v of
        Some (JObj hashes) \<Rightarrow>
          if hashes = [] then raise_failure (security ''ARTIFACT_HASHES_INVALID'')
          else if \<not> list_all artifact_entry_ok hashes then raise_failure (security ''ARTIFACT_HASHES_INVALID'')
          else give (sort_key fst hashes)
      | _ \<Rightarrow> raise_failure (security ''ARTIFACT_HASHES_INVALID''))"

definition release_version :: "json option \<Rightarrow> int command" where
  "release_version v =
     (case v of
        Some (JInt n) \<Rightarrow> andthen (check (1 \<le> n \<and> n \<le> 999) (security ''RELEASE_VERSION_INVALID'')) (\<lambda>_. give n)
      | _ \<Rightarrow> raise_failure (security ''RELEASE_VERSION_INVALID''))"

section \<open>The run\<close>

record dispatch_outputs =
  do_product_id :: string
  do_version :: int
  do_tag :: string
  do_commit :: string
  do_artifact_hashes :: "(string, json) dict"

definition dispatch_checks :: "remote_env \<Rightarrow> dispatch_request \<Rightarrow> dispatch_outputs command" where
  "dispatch_checks E q =
     andthen (check (dq_same_repository q) (security ''RELEASE_DISPATCH_REPOSITORY_MISMATCH'')) (\<lambda>_.
     andthen (load_release_result q) (\<lambda>r.
     andthen (required_string r ''product_id'') (\<lambda>product_id.
     andthen (required_string r ''product_tag'') (\<lambda>tag.
     andthen (required_string r ''commit'') (\<lambda>commit.
     andthen (check (ProductId product_id) (security ''RELEASE_PRODUCT_ID_INVALID'')) (\<lambda>_.
     andthen (release_version (dict_get (wr_outputs r) ''version'')) (\<lambda>version.
     andthen (check (tag = version_tag ''product'' product_id version) (security ''RELEASE_TAG_MISMATCH'')) (\<lambda>_.
     andthen (check (commit = dq_current q) (security ''RELEASE_COMMIT_MISMATCH'')) (\<lambda>_.
     andthen (current_sha E) (\<lambda>head.
     andthen (check (head = dq_current q \<and> GitSha commit) (security ''RELEASE_COMMIT_MISMATCH'')) (\<lambda>_.
     andthen (validated_artifact_hashes (dict_get (wr_outputs r) ''artifact_hashes'')) (\<lambda>hashes.
       give \<lparr>do_product_id = product_id, do_version = version, do_tag = tag, do_commit = commit, do_artifact_hashes = hashes\<rparr>))))))))))))"

definition status_context :: "dispatch_outputs \<Rightarrow> string" where
  "status_context out = ''ard/dispatched:'' @ do_product_id out @ '':v'' @ int_str (do_version out)"

definition dispatch_payload :: "dispatch_outputs \<Rightarrow> json" where
  "dispatch_payload out = JObj [(''product_id'', JStr (do_product_id out)), (''version'', JInt (do_version out)), (''tag'', JStr (do_tag out)),
     (''commit'', JStr (do_commit out)), (''artifact_hashes'', JObj (do_artifact_hashes out))]"

record dispatch_result =
  ds_noop :: bool
  ds_outputs :: dispatch_outputs
  ds_dispatched :: bool
  ds_mutations :: "mutation list"

definition dispatch_remote :: "remote_env \<Rightarrow> dispatch_outputs \<Rightarrow> dispatch_result command" where
  "dispatch_remote E out =
     andthen (repository_dispatch E ''ard_product_released'' (dispatch_payload out)) (\<lambda>event w.
       case set_status E (do_commit out) (status_context out) ''success'' w of
         (Inr status, w') \<Rightarrow> (Inr \<lparr>ds_noop = False, ds_outputs = out, ds_dispatched = True, ds_mutations = [event, status]\<rparr>, w')
       | (Inl (Workflow kind code), w') \<Rightarrow> (Inl (Partial ''RELEASE_DISPATCH_PARTIAL'' (retryable (Workflow kind code)) [event]), w')
       | (Inl e, w') \<Rightarrow> (Inl e, w'))"

definition dispatch_release :: "remote_env \<Rightarrow> dispatch_request \<Rightarrow> dispatch_result command" where
  "dispatch_release E q =
     andthen (dispatch_checks E q) (\<lambda>out.
     andthen (get_status E (do_commit out) (status_context out)) (\<lambda>status.
       if status = Some ''success'' then give \<lparr>ds_noop = True, ds_outputs = out, ds_dispatched = False, ds_mutations = []\<rparr>
       else dispatch_remote E out))"

section \<open>What the checks establish\<close>

lemma load_release_result_Inr:
  "load_release_result q w = (Inr r, w') \<Longrightarrow>
     w' = w \<and> (\<exists>file. resolve_read (dq_files q) (dq_root q) (dq_result_path q) = Inr file \<and> dq_envelope q file = Some r)
     \<and> wr_command r = ''workflow.release-product'' \<and> wr_status r = Status_success"
  by (auto simp: load_release_result_def Let_def andthen_Inr lift_result_def split: sum.splits exn.splits option.splits)

lemma required_string_Inr: "required_string r key w = (Inr s, w') \<longleftrightarrow> w' = w \<and> dict_get (wr_outputs r) key = Some (JStr s) \<and> s \<noteq> []"
  by (auto simp: required_string_def andthen_Inr split: option.splits json.splits)

lemma release_version_Inr: "release_version v w = (Inr n, w') \<longleftrightarrow> w' = w \<and> v = Some (JInt n) \<and> 1 \<le> n \<and> n \<le> 999"
  by (auto simp: release_version_def andthen_Inr split: option.splits json.splits)

lemma validated_artifact_hashes_Inr:
  "validated_artifact_hashes v w = (Inr hs, w') \<longleftrightarrow>
     w' = w \<and> (\<exists>d. v = Some (JObj d) \<and> d \<noteq> [] \<and> list_all artifact_entry_ok d \<and> hs = sort_key fst d)"
  by (auto simp: validated_artifact_hashes_def split: option.splits json.splits)

definition dispatch_ok :: "dispatch_request \<Rightarrow> dispatch_outputs \<Rightarrow> bool" where
  "dispatch_ok q out \<longleftrightarrow>
     ProductId (do_product_id out) \<and> 1 \<le> do_version out \<and> do_version out \<le> 999
     \<and> do_tag out = version_tag ''product'' (do_product_id out) (do_version out)
     \<and> do_commit out = dq_current q \<and> GitSha (dq_current q)
     \<and> list_all artifact_entry_ok (do_artifact_hashes out) \<and> do_artifact_hashes out \<noteq> []"

text \<open>The outputs that the envelope of the release workflow states.\<close>

definition envelope_states :: "dispatch_request \<Rightarrow> dispatch_outputs \<Rightarrow> bool" where
  "envelope_states q out \<longleftrightarrow>
     (\<exists>file r hashes. resolve_read (dq_files q) (dq_root q) (dq_result_path q) = Inr file \<and> dq_envelope q file = Some r
        \<and> wr_command r = ''workflow.release-product'' \<and> wr_status r = Status_success
        \<and> dict_get (wr_outputs r) ''product_id'' = Some (JStr (do_product_id out))
        \<and> dict_get (wr_outputs r) ''product_tag'' = Some (JStr (do_tag out))
        \<and> dict_get (wr_outputs r) ''commit'' = Some (JStr (do_commit out))
        \<and> dict_get (wr_outputs r) ''version'' = Some (JInt (do_version out))
        \<and> dict_get (wr_outputs r) ''artifact_hashes'' = Some (JObj hashes) \<and> do_artifact_hashes out = sort_key fst hashes)"

lemma envelope_states_unique: "envelope_states q out \<Longrightarrow> envelope_states q out' \<Longrightarrow> out' = out"
  by (auto simp: envelope_states_def)

lemma dispatch_checks_Inr:
  assumes "dispatch_checks E q w = (Inr out, w')"
  shows "unchanged w w' \<and> wo_head w = dq_current q \<and> dispatch_ok q out \<and> envelope_states q out"
proof -
  from assms obtain r f d where r: "resolve_read (dq_files q) (dq_root q) (dq_result_path q) = Inr f" "dq_envelope q f = Some r"
      "wr_command r = ''workflow.release-product''" "wr_status r = Status_success"
    and strings: "dict_get (wr_outputs r) ''product_id'' = Some (JStr (do_product_id out))"
      "dict_get (wr_outputs r) ''product_tag'' = Some (JStr (do_tag out))"
      "dict_get (wr_outputs r) ''commit'' = Some (JStr (do_commit out))"
    and version: "dict_get (wr_outputs r) ''version'' = Some (JInt (do_version out))" "1 \<le> do_version out" "do_version out \<le> 999"
    and hashes: "dict_get (wr_outputs r) ''artifact_hashes'' = Some (JObj d)" "d \<noteq> []" "list_all artifact_entry_ok d"
      "do_artifact_hashes out = sort_key fst d"
    and head: "current_sha E w = (Inr (dq_current q), w')"
    and ok: "ProductId (do_product_id out)" "do_tag out = version_tag ''product'' (do_product_id out) (do_version out)"
      "do_commit out = dq_current q" "GitSha (dq_current q)"
    by (auto simp: dispatch_checks_def andthen_Inr required_string_Inr release_version_Inr validated_artifact_hashes_Inr
        dest!: load_release_result_Inr)
  have u: "unchanged w w'" "wo_head w' = dq_current q" using head by (auto simp: current_sha_def dest!: ask_Inr)
  have "list_all artifact_entry_ok (do_artifact_hashes out)" "do_artifact_hashes out \<noteq> []"
    using hashes by (auto simp: list_all_iff dest: arg_cong [where f = set])
  with version ok have "dispatch_ok q out" by (simp add: dispatch_ok_def)
  moreover have "envelope_states q out"
    unfolding envelope_states_def using r strings version hashes by blast
  ultimately show ?thesis using u unchangedD(4) [OF u(1)] by simp
qed

section \<open>At most one event\<close>

lemma repository_dispatch_events:
  "wo_events (snd (repository_dispatch E kind payload w)) \<in> {wo_events w, wo_events w @ [(kind, payload)]}
   \<and> wo_statuses (snd (repository_dispatch E kind payload w)) = wo_statuses w"
  by (simp add: repository_dispatch_def andthen_def check_def give_def raise_failure_def send_def Let_def)

lemma repository_dispatch_Inr:
  "repository_dispatch E kind payload w = (Inr m, w') \<Longrightarrow>
     wo_events w' = wo_events w @ [(kind, payload)] \<and> wo_statuses w' = wo_statuses w"
  by (auto simp: repository_dispatch_def andthen_Inr send_Inr)

lemma set_status_events: "wo_events (snd (set_status E sha context state w)) = wo_events w"
  by (simp add: set_status_def validated_sha_def andthen_def check_def give_def raise_failure_def send_def Let_def)

lemma set_status_Inr:
  assumes "set_status E sha context state w = (Inr m, w')" and "GitSha sha"
  shows "wo_statuses w' = (wo_statuses w)((sha, context) \<mapsto> state)"
proof -
  have "str_lower sha = sha"
    using assms(2) by (simp add: GitSha_def str_lower_def list_all_iff is_hex_plain lower_char_not_upper map_idI)
  with assms show ?thesis by (auto simp: set_status_def validated_sha_def andthen_Inr send_Inr)
qed

lemma get_status_Inr:
  assumes "get_status E sha context w = (Inr st, w')" and "GitSha sha"
  shows "unchanged w w' \<and> st = wo_statuses w (sha, context)"
proof -
  have "str_lower sha = sha"
    using assms(2) by (simp add: GitSha_def str_lower_def list_all_iff is_hex_plain lower_char_not_upper map_idI)
  with assms show ?thesis by (auto simp: get_status_def validated_sha_def andthen_Inr dest!: ask_Inr) (metis unchangedD(5))
qed

lemma reading_dispatch:
  "reading.keeps (dispatch_checks E q)" "reading.keeps (get_status E sha context)"
proof -
  have "reading.keeps (load_release_result q)" "reading.keeps (required_string r key)" "reading.keeps (release_version v)"
    "reading.keeps (validated_artifact_hashes v)" for r key v
    by (auto simp: load_release_result_def required_string_def release_version_def validated_artifact_hashes_def Let_def
        split: option.splits json.splits intro!: reading.keeps_intros reading_lift)
  then show "reading.keeps (dispatch_checks E q)"
    unfolding dispatch_checks_def current_sha_def by (intro reading.keeps_intros)
  show "reading.keeps (get_status E sha context)"
    unfolding get_status_def validated_sha_def Let_def by (intro reading.keeps_intros)
qed

text \<open>Reading commands do not report a partial success.\<close>

fun reports_partial :: "workflow_failure \<Rightarrow> bool" where
  "reports_partial (Partial _ _ _) = True"
| "reports_partial _ = False"

definition plain :: "'a command \<Rightarrow> bool" where
  "plain c \<longleftrightarrow> (\<forall>w e w'. c w = (Inl e, w') \<longrightarrow> \<not> reports_partial e)"

lemma plain_andthen: "plain c \<Longrightarrow> (\<And>x. plain (f x)) \<Longrightarrow> plain (andthen c f)"
  unfolding plain_def andthen_def by (auto split: prod.splits sum.splits)

lemma plain_simps [simp]:
  "plain (give x)" "plain (ask E code f)" "plain (check b (Workflow kind code))" "plain (check b (Other e))"
  "plain (raise_failure (Workflow kind code))"
  by (auto simp: plain_def give_def ask_def andthen_def send_def read_world_def check_def raise_failure_def Let_def)

lemma plain_dispatch: "plain (dispatch_checks E q)" "plain (get_status E sha context)"
proof -
  have "plain (lift_result r)" for r :: "'a result"
    by (auto simp: plain_def lift_result_def give_def raise_failure_def split: sum.splits exn.splits)
  then have "plain (load_release_result q)" "plain (required_string r key)" "plain (release_version v)"
    "plain (validated_artifact_hashes v)" for r key v
    by (auto simp: load_release_result_def required_string_def release_version_def validated_artifact_hashes_def security_def Let_def
        split: option.splits json.splits intro!: plain_andthen)
  then show "plain (dispatch_checks E q)"
    unfolding dispatch_checks_def current_sha_def security_def by (intro plain_andthen) simp_all
  show "plain (get_status E sha context)"
    unfolding get_status_def validated_sha_def Let_def by (intro plain_andthen) simp_all
qed

text \<open>The run, by what the status says.\<close>

lemma dispatch_release_cases:
  obtains (stopped) e w' where "dispatch_release E q w = (Inl e, w')" "unchanged w w'" "\<not> reports_partial e"
  | (noop) out w' where "dispatch_release E q w = (Inr \<lparr>ds_noop = True, ds_outputs = out, ds_dispatched = False, ds_mutations = []\<rparr>, w')"
      "unchanged w w'" "wo_statuses w (do_commit out, status_context out) = Some ''success''" "envelope_states q out" "dispatch_ok q out"
      "wo_head w = dq_current q"
  | (remote) out u where "dispatch_release E q w = dispatch_remote E out u" "unchanged w u"
      "wo_statuses w (do_commit out, status_context out) \<noteq> Some ''success''" "envelope_states q out" "dispatch_ok q out"
      "wo_head w = dq_current q"
proof (cases "dispatch_checks E q w")
  case (Pair r u)
  have u: "unchanged w u" using reading_dispatch(1) [of E q] Pair unfolding reading.keeps_def by (metis snd_conv)
  show thesis
  proof (cases r)
    case (Inl e)
    with Pair u plain_dispatch(1) [of E q] show thesis
      by (intro stopped [of e u]) (auto simp: dispatch_release_def andthen_def plain_def)
  next
    case (Inr out)
    note c = dispatch_checks_Inr [OF Pair [unfolded Inr]]
    obtain st v where v: "get_status E (do_commit out) (status_context out) u = (st, v)" by fastforce
    have uv: "unchanged u v"
      using reading_dispatch(2) [of E "do_commit out" "status_context out"] v unfolding reading.keeps_def by (metis snd_conv)
    then have wv: "unchanged w v" by (rule unchanged_trans [OF u])
    show thesis
    proof (cases st)
      case (Inl e)
      with Pair Inr v wv plain_dispatch(2) [of E "do_commit out" "status_context out"] show thesis
        by (intro stopped [of e v]) (auto simp: dispatch_release_def andthen_def plain_def)
    next
      case (Inr status)
      have "GitSha (do_commit out)" using c by (simp add: dispatch_ok_def)
      from get_status_Inr [OF v [unfolded Inr] this] u have st: "status = wo_statuses w (do_commit out, status_context out)"
        by (simp add: unchangedD)
      have run: "dispatch_release E q w =
          (if status = Some ''success'' then give \<lparr>ds_noop = True, ds_outputs = out, ds_dispatched = False, ds_mutations = []\<rparr>
           else dispatch_remote E out) v"
        using Pair \<open>r = Inr out\<close> v Inr by (simp add: dispatch_release_def andthen_def)
      show thesis
      proof (cases "status = Some ''success''")
        case True
        with run st c wv show thesis by (intro noop [of out v]) (simp_all add: give_def)
      next
        case False
        with run st c wv show thesis by (intro remote [of out v]) simp_all
      qed
    qed
  qed
qed

definition event_of :: "dispatch_outputs \<Rightarrow> string \<times> json" where
  "event_of out = (''ard_product_released'', dispatch_payload out)"

lemma dispatch_remote_result:
  assumes "GitSha (do_commit out)"
  shows "case dispatch_remote E out u of (r, w') \<Rightarrow>
     wo_events w' \<in> {wo_events u, wo_events u @ [event_of out]}
     \<and> (case r of
          Inr res \<Rightarrow> \<not> ds_noop res \<and> ds_dispatched res \<and> ds_outputs res = out \<and> wo_events w' = wo_events u @ [event_of out]
            \<and> wo_statuses w' (do_commit out, status_context out) = Some ''success''
        | Inl (Partial code retry ms) \<Rightarrow> wo_events w' = wo_events u @ [event_of out] \<and> length ms = 1
        | Inl e \<Rightarrow> True)"
proof (cases "repository_dispatch E ''ard_product_released'' (dispatch_payload out) u")
  case (Pair r u')
  then have ev: "wo_events u' \<in> {wo_events u, wo_events u @ [event_of out]}"
    using repository_dispatch_events [of E "''ard_product_released''" "dispatch_payload out" u] by (simp add: event_of_def)
  show ?thesis
  proof (cases r)
    case (Inl e)
    moreover have "\<exists>kind code. e = Workflow kind code \<or> (\<exists>x. e = Other x)"
      using Pair Inl by (auto simp: repository_dispatch_def andthen_def check_def give_def raise_failure_def send_def Let_def split: if_splits)
    ultimately show ?thesis using Pair ev by (auto simp: dispatch_remote_def andthen_def split: workflow_failure.splits)
  next
    case (Inr event)
    have ev: "wo_events u' = wo_events u @ [event_of out]"
      using repository_dispatch_Inr [OF Pair [unfolded Inr]] by (simp add: event_of_def)
    obtain st w' where st: "set_status E (do_commit out) (status_context out) ''success'' u' = (st, w')" by fastforce
    then have ev': "wo_events w' = wo_events u'" using set_status_events by (metis snd_conv)
    show ?thesis
    proof (cases st)
      case (Inl e)
      moreover have "\<not> (\<exists>c b ms. e = Partial c b ms)"
        using st Inl by (auto simp: set_status_def validated_sha_def andthen_def check_def give_def raise_failure_def send_def Let_def split: if_splits)
      ultimately show ?thesis using Pair Inr st ev ev'
        by (cases e) (simp_all add: dispatch_remote_def andthen_def)
    next
      case (Inr status)
      with st Pair \<open>r = Inr event\<close> ev ev' set_status_Inr [OF st [unfolded Inr] assms] show ?thesis
        by (simp add: dispatch_remote_def andthen_def)
    qed
  qed
qed

text \<open>(C21) One run sends at most one event. When it sends one, the head was the requested
  commit and no success was recorded for the version before; the event says what the approved envelope of the
  release says, with a product tag that fits the product and version, and safe file names with SHA-256 values. A
  run that succeeds leaves the success recorded, and a partial failure is reported only after the event went out.\<close>

theorem dispatch_sends_once:
  "\<exists>out. (wo_events (snd (dispatch_release E q w)) = wo_events w
      \<or> wo_events (snd (dispatch_release E q w)) = wo_events w @ [event_of out]
        \<and> dispatch_ok q out \<and> envelope_states q out \<and> wo_head w = dq_current q
        \<and> wo_statuses w (do_commit out, status_context out) \<noteq> Some ''success'')
    \<and> (case fst (dispatch_release E q w) of
        Inr res \<Rightarrow> out = ds_outputs res
          \<and> wo_statuses (snd (dispatch_release E q w)) (do_commit out, status_context out) = Some ''success''
          \<and> (ds_noop res \<longleftrightarrow> wo_events (snd (dispatch_release E q w)) = wo_events w)
      | Inl (Partial code retry ms) \<Rightarrow> wo_events (snd (dispatch_release E q w)) = wo_events w @ [event_of out]
      | Inl e \<Rightarrow> True)"
proof (cases rule: dispatch_release_cases [of E q w])
  case (stopped e w')
  then show ?thesis by (auto simp: unchangedD split: workflow_failure.splits)
next
  case (noop out w')
  then show ?thesis by (intro exI [of _ out]) (simp add: unchangedD)
next
  case (remote out u)
  have "GitSha (do_commit out)" using remote(5) by (simp add: dispatch_ok_def)
  from dispatch_remote_result [OF this, of u E] remote show ?thesis
    by (intro exI [of _ out]) (auto simp: unchangedD split: prod.splits sum.splits workflow_failure.splits)
qed

section \<open>Never a second event after a success\<close>

definition later_runs :: "remote_env list \<Rightarrow> dispatch_request \<Rightarrow> world \<Rightarrow> world" where
  "later_runs Es q w = fold (\<lambda>E u. snd (dispatch_release E q u)) Es w"

definition recorded :: "dispatch_request \<Rightarrow> world \<Rightarrow> bool" where
  "recorded q w \<longleftrightarrow> (\<forall>out. envelope_states q out \<longrightarrow> wo_statuses w (do_commit out, status_context out) = Some ''success'')"

lemma dispatch_recorded:
  assumes "recorded q w"
  shows "unchanged w (snd (dispatch_release E q w))"
proof (cases rule: dispatch_release_cases [of E q w])
  case (remote out u)
  with assms show ?thesis by (simp add: recorded_def)
qed simp_all

text \<open>(C22) Once a run has succeeded, no later run for the same envelope sends an event
  or changes anything else, whatever calls fail in those runs.\<close>

theorem dispatch_never_repeats:
  assumes "dispatch_release E q w = (Inr res, w')"
  shows "unchanged w' (later_runs Es q w')"
proof -
  have "recorded q w'"
  proof (cases rule: dispatch_release_cases [of E q w])
    case (stopped e u)
    with assms show ?thesis by simp
  next
    case (noop out u)
    with assms have "wo_statuses w' (do_commit out, status_context out) = Some ''success''" by (simp add: unchangedD)
    then show ?thesis unfolding recorded_def using envelope_states_unique [OF noop(4)] by blast
  next
    case (remote out u)
    have "GitSha (do_commit out)" using remote(5) by (simp add: dispatch_ok_def)
    moreover have "dispatch_remote E out u = (Inr res, w')" using remote(1) assms by simp
    ultimately have "wo_statuses w' (do_commit out, status_context out) = Some ''success''"
      using dispatch_remote_result [of out u E] by simp
    then show ?thesis unfolding recorded_def using envelope_states_unique [OF remote(4)] by blast
  qed
  then show ?thesis
  proof (induction Es arbitrary: w')
    case Nil
    then show ?case by (simp add: later_runs_def reading.rel_refl)
  next
    case (Cons E Es)
    note step = dispatch_recorded [OF Cons.prems, of E]
    then have "recorded q (snd (dispatch_release E q w'))" using Cons.prems by (simp add: recorded_def unchangedD)
    from unchanged_trans [OF step Cons.IH [OF this]] show ?case by (simp add: later_runs_def)
  qed
qed

section \<open>A sample dispatch\<close>

definition sample_envelope :: workflow_result where
  "sample_envelope = \<lparr>wr_schema_version = 1, wr_command = ''workflow.release-product'', wr_status = Status_success,
     wr_outputs = [(''product_id'', JStr pid1), (''product_tag'', JStr (''product/'' @ pid1 @ ''/v1'')), (''commit'', JStr sample_sha),
       (''version'', JInt 1), (''artifact_hashes'', JObj [(''generated/ossie-model.json'', JStr sample_digest)])]\<rparr>"

definition dispatch_fs :: file_system where
  "dispatch_fs = \<lparr>fs_node = (\<lambda>p. if p = ''repo'' # result_file then Regular else if prefix p (''repo'' # result_file) then Folder else Missing),
     fs_resolve = id\<rparr>"

definition sample_dispatch :: dispatch_request where
  "sample_dispatch = \<lparr>dq_same_repository = True, dq_files = dispatch_fs, dq_root = [''repo''],
     dq_result_path = ''.ard/run/workflow.release-product-result.json'', dq_envelope = (\<lambda>_. Some sample_envelope), dq_current = sample_sha\<rparr>"

lemma sample_dispatched: "\<exists>res w'. dispatch_release calm_sample sample_dispatch sample_world = (Inr res, w')"
proof -
  have "is_ok (fst (dispatch_release calm_sample sample_dispatch sample_world))" by code_simp
  then show ?thesis by (cases "dispatch_release calm_sample sample_dispatch sample_world") (auto simp: is_ok_iff)
qed

lemma dispatch_never_repeats_witness:
  "\<exists>res w'. dispatch_release calm_sample sample_dispatch sample_world = (Inr res, w')
    \<and> unchanged w' (later_runs [calm_sample, calm_sample] sample_dispatch w')"
  using sample_dispatched dispatch_never_repeats by blast

lemma dispatch_sends_once_witness:
  "length (wo_events (snd (dispatch_release calm_sample sample_dispatch sample_world))) \<le> 1"
  using dispatch_sends_once [of calm_sample sample_dispatch sample_world] by (auto simp: sample_world_def)

end
