(* ===== verification/Detection.thy ===== *)
theory Detection
  imports Drafts Paths
begin

text \<open>
  Which products and tables a merge releases (\<open>application/release_detection.py\<close>): the changed paths are read as
  products, changesets and tables, and a changeset that is ready stands for all its products. The lemmas say exactly
  which products and tables come out, whatever the order of the paths.
\<close>

section \<open>Inputs\<close>

record changed_paths =
  ch_merge_base :: string
  ch_paths :: "string list"

text \<open>\<open>dt_config\<close> reads and parses a product configuration.\<close>

record detection_env =
  dt_same_repository :: bool
  dt_head :: "string result"
  dt_changed :: "changed_paths result"
  dt_registry :: "registry result"
  dt_files :: file_system
  dt_root :: "string list"
  dt_config :: "string list \<Rightarrow> json result"

definition conflict :: "string \<Rightarrow> exn" where
  "conflict code = WorkflowError CONFLICT code"

definition detection_registry :: "detection_env \<Rightarrow> registry result" where
  "detection_registry D =
     (case dt_registry D of
        Inl e \<Rightarrow>
          if is_value_error e \<or> (case e of OSError _ \<Rightarrow> True | TypeError _ \<Rightarrow> True | _ \<Rightarrow> False)
          then Inl (conflict ''RELEASE_REGISTRY_INVALID'') else Inl e
      | Inr reg \<Rightarrow> Inr reg)"

definition safe_relative :: "detection_env \<Rightarrow> string \<Rightarrow> string list result" where
  "safe_relative D path =
     bind_ok (resolve_write (dt_files D) (dt_root D) path) (\<lambda>resolved.
     let relative = relative_parts (dt_root D) resolved
     in if anchor path \<noteq> 0 \<or> ''..'' \<in> set (path_parts path) \<or> relative \<noteq> path_parts path
        then Inl (WorkflowError SECURITY ''RELEASE_CHANGED_PATH_UNSAFE'') else Inr relative)"

definition join_parts :: "string list \<Rightarrow> string" where
  "join_parts ps = join ''/'' ps"

definition require_current_artifact :: "detection_env \<Rightarrow> string list \<Rightarrow> unit result" where
  "require_current_artifact D relative =
     bind_ok (resolve_write (dt_files D) (dt_root D) (join_parts relative)) (\<lambda>p.
       if fs_node (dt_files D) p = Regular then Inr () else Inl (conflict ''RELEASE_ARTIFACT_DELETED''))"

definition require_product_key :: "registry \<Rightarrow> string \<Rightarrow> product_record result" where
  "require_product_key reg product_key =
     (case dict_get (dict_of pr_product_key id (products reg)) product_key of
        None \<Rightarrow> Inl (conflict ''RELEASE_PRODUCT_NOT_FOUND'')
      | Some p \<Rightarrow> Inr p)"

text \<open>\<open>==\<close> of a YAML value and an integer between 1 and 999.\<close>

definition equals_int :: "json option \<Rightarrow> int \<Rightarrow> bool" where
  "equals_int v n =
     (case v of Some (JInt m) \<Rightarrow> m = n | Some (JBool b) \<Rightarrow> n = (if b then 1 else 0) | Some (JFloat s) \<Rightarrow> s = int_str n @ ''.0'' | _ \<Rightarrow> False)"

definition product_changeset :: "detection_env \<Rightarrow> product_record \<Rightarrow> string option result" where
  "product_changeset D p =
     (let config_name = ''products/'' @ pr_product_key p @ ''/product.yaml''
      in bind_ok (resolve_write (dt_files D) (dt_root D) config_name) (\<lambda>path.
         if fs_node (dt_files D) path \<noteq> Regular then Inl (conflict ''RELEASE_PRODUCT_CONFIG_MISSING'')
         else bind_ok (resolve_read (dt_files D) (dt_root D) (CHR ''/'' # join_parts path)) (\<lambda>file.
         case dt_config D file of
           Inl e \<Rightarrow>
             if is_value_error e \<or> (case e of OSError _ \<Rightarrow> True | TypeError _ \<Rightarrow> True | _ \<Rightarrow> False)
             then Inl (conflict ''RELEASE_PRODUCT_CONFIG_INVALID'') else Inl e
         | Inr (JObj config) \<Rightarrow>
             if dict_get config ''product_id'' \<noteq> Some (JStr (pr_product_id p))
                \<or> dict_get config ''product_key'' \<noteq> Some (JStr (pr_product_key p))
                \<or> \<not> equals_int (dict_get config ''version'') (pr_version p)
             then Inl (conflict ''RELEASE_PRODUCT_CONFIG_MISMATCH'')
             else (case dict_get config ''changeset_id'' of
                 None \<Rightarrow> Inr None
               | Some JNull \<Rightarrow> Inr None
               | Some (JStr s) \<Rightarrow>
                   if s = [] then Inr None
                   else if ChangeSetId s then Inr (Some s) else Inl (conflict ''CHANGESET_REFERENCE_INVALID'')
               | Some _ \<Rightarrow> Inl (conflict ''CHANGESET_REFERENCE_INVALID''))
         | Inr _ \<Rightarrow> Inl (conflict ''RELEASE_PRODUCT_CONFIG_MISMATCH''))))"

section \<open>Reading the paths\<close>

datatype path_kind = Direct_product string | Changeset_of string | Changed_table string | Unrelated

definition classify_path :: "detection_env \<Rightarrow> registry \<Rightarrow> string \<Rightarrow> path_kind result" where
  "classify_path D reg path =
     bind_ok (safe_relative D path) (\<lambda>parts.
       if length parts \<ge> 4 \<and> parts ! 0 = ''products'' \<and> parts ! 2 = ''generated''
       then
         if \<not> ProductKey (parts ! 1) then Inl (conflict ''RELEASE_PRODUCT_KEY_INVALID'')
         else bind_ok (require_current_artifact D parts) (\<lambda>_.
              bind_ok (require_product_key reg (parts ! 1)) (\<lambda>p.
              bind_ok (product_changeset D p) (\<lambda>c.
                Inr (case c of None \<Rightarrow> Direct_product (parts ! 1) | Some i \<Rightarrow> Changeset_of i))))
       else if length parts = 3 \<and> take 2 parts = [''registry'', ''changesets''] \<and> ends_with ''.json'' (parts ! 2)
       then
         let i = take (length (parts ! 2) - 5) (parts ! 2)
         in if ChangeSetId i then Inr (Changeset_of i) else Inl (conflict ''CHANGESET_REFERENCE_INVALID'')
       else if length parts = 3 \<and> take 2 parts = [''registry'', ''tables''] \<and> ends_with ''.json'' (parts ! 2)
       then
         let i = take (length (parts ! 2) - 5) (parts ! 2)
         in if \<not> TableId i then Inl (conflict ''TABLE_REFERENCE_INVALID'')
            else if get_table reg i = None then Inl (conflict ''RELEASE_TABLE_NOT_FOUND'')
            else Inr (Changed_table i)
       else Inr Unrelated)"

record detected =
  de_products :: "string set"
  de_changesets :: "string set"
  de_tables :: "string set"

fun note_path :: "path_kind \<Rightarrow> detected \<Rightarrow> detected" where
  "note_path (Direct_product k) s = s\<lparr>de_products := insert k (de_products s)\<rparr>"
| "note_path (Changeset_of i) s = s\<lparr>de_changesets := insert i (de_changesets s)\<rparr>"
| "note_path (Changed_table t) s = s\<lparr>de_tables := insert t (de_tables s)\<rparr>"
| "note_path Unrelated s = s"

fun read_paths :: "detection_env \<Rightarrow> registry \<Rightarrow> string list \<Rightarrow> detected \<Rightarrow> detected result" where
  "read_paths D reg [] s = Inr s"
| "read_paths D reg (path # rest) s = bind_ok (classify_path D reg path) (\<lambda>k. read_paths D reg rest (note_path k s))"

section \<open>Changesets\<close>

fun resolve_required :: "registry \<Rightarrow> change_set_record \<Rightarrow> string list \<Rightarrow> (product_record list \<times> bool) result" where
  "resolve_required reg c [] = Inr ([], False)"
| "resolve_required reg c (product_id # rest) =
     (case (get_product reg product_id, dict_get (cs_ready_products c) product_id) of
        (Some p, Some readiness) \<Rightarrow>
          if rd_version readiness < pr_version p then Inl (conflict ''CHANGESET_VERSION_NOT_CURRENT'')
          else bind_ok (resolve_required reg c rest) (\<lambda>(ps, future). Inr (p # ps, rd_version readiness > pr_version p \<or> future))
      | _ \<Rightarrow> Inl (conflict ''CHANGESET_REGISTRY_REFERENCE_MISSING''))"

fun add_tables :: "registry \<Rightarrow> string list \<Rightarrow> detected \<Rightarrow> detected result" where
  "add_tables reg [] s = Inr s"
| "add_tables reg (t # ts) s =
     (if get_table reg t = None then Inl (conflict ''RELEASE_TABLE_NOT_FOUND'')
      else add_tables reg ts (s\<lparr>de_tables := insert t (de_tables s)\<rparr>))"

definition expand_changeset :: "registry \<Rightarrow> change_set_record \<Rightarrow> detected \<Rightarrow> (bool \<times> detected) result" where
  "expand_changeset reg c s =
     bind_ok (resolve_required reg c (cs_required_product_ids c)) (\<lambda>(ps, future).
       if future then Inr (False, s)
       else bind_ok (add_tables reg (cs_table_ids c) (s\<lparr>de_products := de_products s \<union> set (map pr_product_key ps)\<rparr>)) (\<lambda>s'.
            Inr (True, s')))"

fun expand_all :: "registry \<Rightarrow> string list \<Rightarrow> string set \<Rightarrow> detected \<Rightarrow> (string set \<times> detected) result" where
  "expand_all reg [] deferred s = Inr (deferred, s)"
| "expand_all reg (i # rest) deferred s =
     (case get_changeset reg i of
        None \<Rightarrow> Inl (conflict ''CHANGESET_NOT_FOUND'')
      | Some c \<Rightarrow>
          if change_set_status c \<noteq> READY then expand_all reg rest deferred s
          else bind_ok (expand_changeset reg c s) (\<lambda>(expanded, s').
               expand_all reg rest (if expanded then deferred else deferred \<union> set (cs_table_ids c)) s'))"

record detection =
  dn_merge_base :: string
  dn_products :: "string list"
  dn_tables :: "string list"
  dn_noop :: bool

definition detect_release :: "detection_env \<Rightarrow> string \<Rightarrow> detection result" where
  "detect_release D current =
     (if \<not> dt_same_repository D then Inl (WorkflowError SECURITY ''RELEASE_DETECTION_REPOSITORY_MISMATCH'')
      else bind_ok (dt_head D) (\<lambda>head.
      if head \<noteq> current then Inl (WorkflowError SECURITY ''RELEASE_DETECTION_HEAD_MISMATCH'')
      else bind_ok (dt_changed D) (\<lambda>changed.
      bind_ok (detection_registry D) (\<lambda>reg.
      bind_ok (read_paths D reg (ch_paths changed) \<lparr>de_products = {}, de_changesets = {}, de_tables = {}\<rparr>) (\<lambda>s.
      bind_ok (expand_all reg (sorted_list_of_set (de_changesets s)) {} s) (\<lambda>(deferred, s').
        let tables = de_tables s' - deferred
        in Inr \<lparr>dn_merge_base = ch_merge_base changed, dn_products = sorted_list_of_set (de_products s'),
             dn_tables = sorted_list_of_set tables, dn_noop = (de_products s' = {} \<and> tables = {})\<rparr>))))))"

section \<open>What comes out\<close>

lemma read_paths_iff:
  "read_paths D reg ps s = Inr s' \<longleftrightarrow> (\<forall>p\<in>set ps. is_ok (classify_path D reg p))
     \<and> de_products s' = de_products s \<union> {k. \<exists>p\<in>set ps. classify_path D reg p = Inr (Direct_product k)}
     \<and> de_changesets s' = de_changesets s \<union> {k. \<exists>p\<in>set ps. classify_path D reg p = Inr (Changeset_of k)}
     \<and> de_tables s' = de_tables s \<union> {k. \<exists>p\<in>set ps. classify_path D reg p = Inr (Changed_table k)}"
proof (induction ps arbitrary: s)
  case Nil
  then show ?case by (cases s; cases s') auto
next
  case (Cons p ps)
  show ?case
  proof (cases "classify_path D reg p")
    case (Inl e)
    then show ?thesis by simp
  next
    case (Inr k)
    then show ?thesis by (cases k) (simp_all add: Cons.IH, auto)
  qed
qed

text \<open>A changeset that is ready, with every product at the version it became ready with; and one with a product
  that has not reached that version.\<close>

definition product_reached :: "registry \<Rightarrow> change_set_record \<Rightarrow> (int \<Rightarrow> int \<Rightarrow> bool) \<Rightarrow> string \<Rightarrow> bool" where
  "product_reached reg c compare i =
     (case (get_product reg i, dict_get (cs_ready_products c) i) of
        (Some p, Some r) \<Rightarrow> compare (rd_version r) (pr_version p) | _ \<Rightarrow> False)"

definition current_changeset :: "registry \<Rightarrow> change_set_record \<Rightarrow> bool" where
  "current_changeset reg c \<longleftrightarrow> change_set_status c = READY \<and> list_all (product_reached reg c (=)) (cs_required_product_ids c)"

definition future_changeset :: "registry \<Rightarrow> change_set_record \<Rightarrow> bool" where
  "future_changeset reg c \<longleftrightarrow> change_set_status c = READY \<and> list_all (product_reached reg c (\<ge>)) (cs_required_product_ids c)
     \<and> \<not> list_all (product_reached reg c (=)) (cs_required_product_ids c)"

lemma resolve_required_iff:
  "resolve_required reg c ids = Inr (ps, future) \<longleftrightarrow>
     list_all (product_reached reg c (\<ge>)) ids \<and> map Some ps = map (get_product reg) ids
     \<and> (future \<longleftrightarrow> \<not> list_all (product_reached reg c (=)) ids)"
proof (induction ids arbitrary: ps future)
  case (Cons i ids)
  show ?case
  proof (cases "product_reached reg c (\<ge>) i")
    case True
    then obtain p r where "get_product reg i = Some p" "dict_get (cs_ready_products c) i = Some r" "rd_version r \<ge> pr_version p"
      by (auto simp: product_reached_def split: option.splits)
    then show ?thesis by (cases ps) (auto simp: Cons.IH product_reached_def)
  next
    case False
    then show ?thesis by (auto simp: product_reached_def split: option.splits)
  qed
qed auto

lemma add_tables_iff:
  "add_tables reg ts s = Inr s' \<longleftrightarrow> list_all (\<lambda>t. get_table reg t \<noteq> None) ts \<and> s' = s\<lparr>de_tables := de_tables s \<union> set ts\<rparr>"
proof (induction ts arbitrary: s)
  case (Cons t ts)
  show ?case by (auto simp: Cons.IH)
qed auto

definition products_of :: "registry \<Rightarrow> change_set_record \<Rightarrow> string set" where
  "products_of reg c = {pr_product_key p | i p. i \<in> set (cs_required_product_ids c) \<and> get_product reg i = Some p}"

definition changesets_in :: "registry \<Rightarrow> string set \<Rightarrow> (change_set_record \<Rightarrow> bool) \<Rightarrow> change_set_record set" where
  "changesets_in reg ids Q = {c. \<exists>i\<in>ids. get_changeset reg i = Some c \<and> Q c}"

lemma changesets_in_insert:
  "changesets_in reg (insert i ids) Q =
     (case get_changeset reg i of Some c \<Rightarrow> if Q c then {c} else {} | None \<Rightarrow> {}) \<union> changesets_in reg ids Q"
  by (auto simp: changesets_in_def split: option.splits)

lemma expand_changeset_Inr:
  assumes "expand_changeset reg c s = Inr (expanded, s')" and "change_set_status c = READY"
  shows "(if expanded then current_changeset reg c else future_changeset reg c)
    \<and> de_products s' = de_products s \<union> (if expanded then products_of reg c else {})
    \<and> de_tables s' = de_tables s \<union> (if expanded then set (cs_table_ids c) else {}) \<and> de_changesets s' = de_changesets s"
proof -
  let ?ids = "cs_required_product_ids c"
  from assms(1) obtain ps future where r: "resolve_required reg c ?ids = Inr (ps, future)"
    and rest: "if future then \<not> expanded \<and> s' = s else expanded
      \<and> add_tables reg (cs_table_ids c) (s\<lparr>de_products := de_products s \<union> set (map pr_product_key ps)\<rparr>) = Inr s'"
    by (auto simp: expand_changeset_def split: if_splits)
  note r = r [unfolded resolve_required_iff]
  then have "set (map Some ps) = set (map (get_product reg) ?ids)" by metis
  then have same: "Some ` set ps = get_product reg ` set ?ids" by simp
  have "p \<in> set ps \<longleftrightarrow> (\<exists>i\<in>set ?ids. get_product reg i = Some p)" for p
  proof -
    have "p \<in> set ps \<longleftrightarrow> Some p \<in> Some ` set ps" by auto
    also have "\<dots> \<longleftrightarrow> Some p \<in> get_product reg ` set ?ids" by (simp only: same)
    also have "\<dots> \<longleftrightarrow> (\<exists>i\<in>set ?ids. get_product reg i = Some p)" by (auto intro: sym rev_image_eqI)
    finally show ?thesis .
  qed
  then have "pr_product_key ` set ps = products_of reg c" unfolding products_of_def image_def by blast
  with r rest assms(2) show ?thesis
    by (cases future) (auto simp: current_changeset_def future_changeset_def add_tables_iff)
qed

lemma not_both: "current_changeset reg c \<Longrightarrow> \<not> future_changeset reg c"
  by (simp add: current_changeset_def future_changeset_def)

lemma expand_all_Inr:
  "expand_all reg ids deferred s = Inr (deferred', s') \<Longrightarrow>
     (\<forall>i\<in>set ids. get_changeset reg i \<noteq> None)
     \<and> de_products s' = de_products s \<union> \<Union> (products_of reg ` changesets_in reg (set ids) (current_changeset reg))
     \<and> de_tables s' = de_tables s \<union> \<Union> ((\<lambda>c. set (cs_table_ids c)) ` changesets_in reg (set ids) (current_changeset reg))
     \<and> deferred' = deferred \<union> \<Union> ((\<lambda>c. set (cs_table_ids c)) ` changesets_in reg (set ids) (future_changeset reg))"
proof (induction ids arbitrary: deferred s)
  case Nil
  then show ?case by (simp add: changesets_in_def)
next
  case (Cons i ids)
  from Cons.prems obtain c where c: "get_changeset reg i = Some c" by (auto split: option.splits)
  show ?case
  proof (cases "change_set_status c = READY")
    case False
    with Cons.prems c have "expand_all reg ids deferred s = Inr (deferred', s')" by simp
    from Cons.IH [OF this] c False show ?thesis
      by (simp add: changesets_in_insert current_changeset_def future_changeset_def)
  next
    case True
    with Cons.prems c obtain expanded t where t: "expand_changeset reg c s = Inr (expanded, t)"
      "expand_all reg ids (if expanded then deferred else deferred \<union> set (cs_table_ids c)) t = Inr (deferred', s')" by auto
    note e = expand_changeset_Inr [OF t(1) True] and IH = Cons.IH [OF t(2)]
    show ?thesis
    proof (cases expanded)
      case True
      then have "current_changeset reg c" "\<not> future_changeset reg c" using e not_both by auto
      with IH e True c show ?thesis by (simp add: changesets_in_insert Un_assoc)
    next
      case False
      then have "\<not> current_changeset reg c" "future_changeset reg c" using e not_both by auto
      with IH e False c show ?thesis by (simp add: changesets_in_insert Un_assoc)
    qed
  qed
qed

text \<open>The changesets that the changed paths name, and those among them with a property.\<close>

definition named :: "detection_env \<Rightarrow> registry \<Rightarrow> string list \<Rightarrow> (string \<Rightarrow> path_kind) \<Rightarrow> string set" where
  "named D reg paths kind = {k. \<exists>p\<in>set paths. classify_path D reg p = Inr (kind k)}"

definition named_changesets :: "detection_env \<Rightarrow> registry \<Rightarrow> string list \<Rightarrow> (change_set_record \<Rightarrow> bool) \<Rightarrow> change_set_record set" where
  "named_changesets D reg paths Q = changesets_in reg (named D reg paths Changeset_of) Q"

lemma named_finite: "inj kind \<Longrightarrow> finite (named D reg paths kind)"
proof -
  assume inj: "inj kind"
  have "named D reg paths kind \<subseteq> (\<lambda>p. the_inv kind (case classify_path D reg p of Inr k \<Rightarrow> k | _ \<Rightarrow> kind [])) ` set paths"
    by (force simp: named_def the_inv_f_f [OF inj])
  then show ?thesis by (rule finite_subset) simp
qed

lemma kinds_inj: "inj Direct_product" "inj Changeset_of" "inj Changed_table"
  by (simp_all add: inj_def)

lemma named_changesets_finite: "finite (named_changesets D reg paths Q)"
proof -
  have "named_changesets D reg paths Q \<subseteq> the ` get_changeset reg ` named D reg paths Changeset_of"
    by (force simp: named_changesets_def changesets_in_def)
  then show ?thesis by (rule finite_subset) (simp add: named_finite kinds_inj)
qed

text \<open>(C23) What a successful detection releases. The products are those with a changed
  generated file and no changeset, and all products of the named changesets that are ready and whose products are at
  the versions they became ready with; the tables are the changed ones and those of these changesets, less the
  tables of ready changesets with a product that has not reached its version. Both lists are sorted, without
  repetitions, and there is nothing to do exactly when both are empty.\<close>

theorem detection_exact:
  assumes "detect_release D current = Inr out" and "dt_changed D = Inr changed" and "dt_registry D = Inr reg"
  defines "chosen \<equiv> named_changesets D reg (ch_paths changed)"
  shows "set (dn_products out) = named D reg (ch_paths changed) Direct_product \<union> \<Union> (products_of reg ` chosen (current_changeset reg))
    \<and> set (dn_tables out) = (named D reg (ch_paths changed) Changed_table \<union> \<Union> ((\<lambda>c. set (cs_table_ids c)) ` chosen (current_changeset reg)))
           - \<Union> ((\<lambda>c. set (cs_table_ids c)) ` chosen (future_changeset reg))
    \<and> sorted_wrt (<) (dn_products out) \<and> sorted_wrt (<) (dn_tables out)
    \<and> (dn_noop out \<longleftrightarrow> dn_products out = [] \<and> dn_tables out = []) \<and> dt_head D = Inr current"
proof -
  let ?start = "\<lparr>de_products = {}, de_changesets = {}, de_tables = {}\<rparr>"
  from assms(1-3) obtain s deferred s' where 1: "read_paths D reg (ch_paths changed) ?start = Inr s"
    and 2: "expand_all reg (sorted_list_of_set (de_changesets s)) {} s = Inr (deferred, s')"
    and out: "dn_products out = sorted_list_of_set (de_products s')" "dn_tables out = sorted_list_of_set (de_tables s' - deferred)"
      "dn_noop out \<longleftrightarrow> de_products s' = {} \<and> de_tables s' - deferred = {}" and head: "dt_head D = Inr current"
    by (auto simp: detect_release_def detection_registry_def Let_def split: if_splits prod.splits)
  have s: "de_products s = named D reg (ch_paths changed) Direct_product" "de_changesets s = named D reg (ch_paths changed) Changeset_of"
    "de_tables s = named D reg (ch_paths changed) Changed_table"
    using 1 unfolding read_paths_iff by (auto simp: named_def)
  have "set (sorted_list_of_set (de_changesets s)) = named D reg (ch_paths changed) Changeset_of"
    by (simp add: s named_finite kinds_inj)
  note e = expand_all_Inr [OF 2, unfolded this, unfolded s]
  have fin: "finite (changesets_in reg (named D reg (ch_paths changed) Changeset_of) Q)" for Q
    by (rule named_changesets_finite [unfolded named_changesets_def])
  have prods: "finite (products_of reg c)" for c
  proof -
    have "products_of reg c \<subseteq> (\<lambda>i. pr_product_key (the (get_product reg i))) ` set (cs_required_product_ids c)"
      by (force simp: products_of_def)
    then show ?thesis by (rule finite_subset) simp
  qed
  have "finite (de_products s')" "finite (de_tables s' - deferred)"
    using e by (auto simp: named_finite kinds_inj fin prods)
  with out e head show ?thesis by (simp add: chosen_def named_changesets_def)
qed

text \<open>The order and the repetition of the changed paths make no difference: with the
  same set of paths the detection gives the same result, or fails as well.\<close>

theorem detection_order_free:
  assumes "dt_changed D = Inr changed" and "D' = D\<lparr>dt_changed := Inr changed'\<rparr>"
    and "set (ch_paths changed') = set (ch_paths changed)" and "ch_merge_base changed' = ch_merge_base changed"
  shows "detect_release D' current = detect_release D current \<or> (\<exists>e e'. detect_release D' current = Inl e' \<and> detect_release D current = Inl e)"
proof -
  let ?start = "\<lparr>de_products = {}, de_changesets = {}, de_tables = {}\<rparr>"
  have same: "dt_same_repository D' = dt_same_repository D" "dt_head D' = dt_head D" "detection_registry D' = detection_registry D"
    "dt_files D' = dt_files D" "dt_root D' = dt_root D" "dt_config D' = dt_config D"
    "dt_changed D' = Inr changed'"
    using assms(2) by (simp_all add: detection_registry_def)
  have "classify_path D' reg p = classify_path D reg p" for reg p
    unfolding classify_path_def safe_relative_def require_current_artifact_def product_changeset_def same ..
  then have read: "read_paths D' reg (ch_paths changed') ?start = Inr s \<longleftrightarrow> read_paths D reg (ch_paths changed) ?start = Inr s" for reg s
    unfolding read_paths_iff assms(3) by simp
  show ?thesis
  proof (cases "dt_same_repository D \<and> dt_head D = Inr current \<and> is_ok (detection_registry D)")
    case False
    then show ?thesis
      by (cases "dt_head D"; cases "detection_registry D") (auto simp: detect_release_def same assms(1))
  next
    case True
    then obtain reg where reg: "detection_registry D = Inr reg" by (auto simp: is_ok_iff)
    show ?thesis
    proof (cases "read_paths D reg (ch_paths changed) ?start")
      case (Inr s)
      then show ?thesis using True reg read [of reg s] by (simp add: detect_release_def same assms(1,4))
    next
      case (Inl e)
      then have "\<not> is_ok (read_paths D' reg (ch_paths changed') ?start)" using read [of reg] by (auto simp: is_ok_iff)
      then obtain e' where "read_paths D' reg (ch_paths changed') ?start = Inl e'" by (cases "read_paths D' reg (ch_paths changed') ?start") auto
      with Inl True reg show ?thesis by (simp add: detect_release_def same assms(1))
    qed
  qed
qed

section \<open>A sample merge\<close>

definition sample_change :: changed_paths where
  "sample_change = \<lparr>ch_merge_base = ''a'', ch_paths = [''registry/tables/'' @ tid1 @ ''.json'', ''README.md'']\<rparr>"

definition shuffled_change :: changed_paths where
  "shuffled_change = \<lparr>ch_merge_base = ''a'', ch_paths = [''README.md'', ''registry/tables/'' @ tid1 @ ''.json'', ''README.md'']\<rparr>"

definition sample_detection :: detection_env where
  "sample_detection = \<lparr>dt_same_repository = True, dt_head = Inr ''b'',
     dt_changed = Inr sample_change,
     dt_registry = Inr reg2, dt_files = sample_fs, dt_root = [''repo''], dt_config = (\<lambda>_. Inr JNull)\<rparr>"

lemma sample_detected: "detect_release sample_detection ''b'' = Inr \<lparr>dn_merge_base = ''a'', dn_products = [], dn_tables = [tid1], dn_noop = False\<rparr>"
  by code_simp

lemma detection_exact_witness: "named sample_detection reg2 (ch_paths sample_change) Direct_product = {}"
  using detection_exact [OF sample_detected, of sample_change reg2] by (simp add: sample_detection_def)

lemma detection_order_free_witness:
  "detect_release (sample_detection\<lparr>dt_changed := Inr shuffled_change\<rparr>) ''b'' = detect_release sample_detection ''b''"
proof -
  have "set (ch_paths shuffled_change) = set (ch_paths sample_change)" "ch_merge_base shuffled_change = ch_merge_base sample_change"
    by (auto simp: sample_change_def shuffled_change_def)
  moreover have "dt_changed sample_detection = Inr sample_change" by (simp add: sample_detection_def)
  ultimately show ?thesis
    using detection_order_free [OF _ refl, of sample_detection sample_change shuffled_change "''b''"] sample_detected by auto
qed

end
