(* ===== verification/Sequence_Matcher.thy ===== *)
theory Sequence_Matcher
  imports Complex_Main Py_Strings
begin

text \<open>
  The part of Python's \<open>difflib\<close> that the document code uses: the similarity ratio of two texts with the junk
  heuristics off. Texts are compared by characters, so a text is first cut into the byte groups of its
  characters. The lemmas show that a longest match lies inside both texts and that the ratio is between
  zero and one.
\<close>

section \<open>Characters of a text\<close>

text \<open>A byte of the form 10xxxxxx continues the character before it.\<close>

definition continues :: "char \<Rightarrow> bool" where
  "continues c \<longleftrightarrow> (let n = of_char c :: nat in 128 \<le> n \<and> n < 192)"

definition add_byte :: "char \<Rightarrow> string list \<Rightarrow> string list" where
  "add_byte c groups =
     (case groups of g # gs \<Rightarrow> (if g \<noteq> [] \<and> continues (hd g) then (c # g) # gs else [c] # groups) | [] \<Rightarrow> [[c]])"

definition characters :: "string \<Rightarrow> string list" where
  "characters s = foldr add_byte s []"

lemma concat_add_byte: "concat (add_byte c groups) = c # concat groups"
  by (auto simp: add_byte_def split: list.splits)

lemma concat_characters [simp]: "concat (characters s) = s"
  by (induction s) (simp_all add: characters_def concat_add_byte)

lemma characters_inj: "characters s = characters t \<longleftrightarrow> s = t"
  by (metis concat_characters)

section \<open>The longest match\<close>

fun common_prefix :: "'a list \<Rightarrow> 'a list \<Rightarrow> nat" where
  "common_prefix (a # as) (b # bs) = (if a = b then Suc (common_prefix as bs) else 0)"
| "common_prefix _ _ = 0"

lemma common_prefix_le: "common_prefix as bs \<le> min (length as) (length bs)"
  by (induction as bs rule: common_prefix.induct) auto

lemma common_prefix_same [simp]: "common_prefix as as = length as"
  by (induction as) auto

text \<open>The longest common block, the first in \<open>a\<close> among the longest ones, and then the first in \<open>b\<close>.\<close>

definition better_block :: "'a list \<Rightarrow> 'a list \<Rightarrow> nat \<times> nat \<Rightarrow> nat \<times> nat \<times> nat \<Rightarrow> nat \<times> nat \<times> nat" where
  "better_block as bs p best =
     (case p of (i, j) \<Rightarrow> let k = common_prefix (drop i as) (drop j bs) in if k > snd (snd best) then (i, j, k) else best)"

definition longest_match :: "'a list \<Rightarrow> 'a list \<Rightarrow> nat \<times> nat \<times> nat" where
  "longest_match as bs = fold (better_block as bs) (List.product [0..<length as] [0..<length bs]) (0, 0, 0)"

definition block_in :: "'a list \<Rightarrow> 'a list \<Rightarrow> nat \<times> nat \<times> nat \<Rightarrow> bool" where
  "block_in as bs m \<longleftrightarrow> (case m of (i, j, k) \<Rightarrow> i + k \<le> length as \<and> j + k \<le> length bs)"

lemma better_block_in: "block_in as bs m \<Longrightarrow> i \<le> length as \<Longrightarrow> j \<le> length bs \<Longrightarrow> block_in as bs (better_block as bs (i, j) m)"
  using common_prefix_le [of "drop i as" "drop j bs"] by (auto simp: block_in_def better_block_def Let_def)

lemma longest_match_in: "block_in as bs (longest_match as bs)"
proof -
  have fold: "block_in as bs (fold (better_block as bs) ps m)"
    if "block_in as bs m" "set ps \<subseteq> {..length as} \<times> {..length bs}" for ps m
    using that
  proof (induction ps arbitrary: m)
    case (Cons p ps)
    obtain i j where p: "p = (i, j)" by (cases p)
    have "block_in as bs (better_block as bs p m)" using Cons.prems p by (intro better_block_in [of as bs m i j, folded p]) auto
    with Cons.IH [of "better_block as bs p m"] Cons.prems(2) show ?case by simp
  qed simp
  show ?thesis unfolding longest_match_def by (rule fold) (auto simp: block_in_def less_imp_le)
qed

lemma longest_match_bounds:
  "longest_match as bs = (i, j, k) \<Longrightarrow> i + k \<le> length as \<and> j + k \<le> length bs"
  using longest_match_in [of as bs] by (simp add: block_in_def)

section \<open>The ratio\<close>

text \<open>The characters in matching blocks: the longest one, and those left and right of it.\<close>

function matching_size :: "'a list \<Rightarrow> 'a list \<Rightarrow> nat" where
  "matching_size as bs =
     (case longest_match as bs of (i, j, k) \<Rightarrow>
        if k = 0 then 0
        else k + matching_size (take i as) (take j bs) + matching_size (drop (i + k) as) (drop (j + k) bs))"
  by pat_completeness auto

termination
  by (relation "measure (\<lambda>(as, bs). length as)") (auto dest!: longest_match_bounds [OF sym])

declare matching_size.simps [simp del]

lemma matching_size_le: "matching_size as bs \<le> min (length as) (length bs)"
proof (induction as bs rule: matching_size.induct)
  case (1 as bs)
  obtain i j k where m: "longest_match as bs = (i, j, k)" by (cases "longest_match as bs")
  show ?case
  proof (cases "k = 0")
    case False
    let ?l = "matching_size (take i as) (take j bs)" and ?r = "matching_size (drop (i + k) as) (drop (j + k) bs)"
    have b: "i + k \<le> length as" "j + k \<le> length bs" using longest_match_bounds [OF m] by simp_all
    have "?l \<le> min (length (take i as)) (length (take j bs))" using 1(1) [OF m [symmetric] refl False] by simp
    then have l: "?l \<le> i" "?l \<le> j" by simp_all
    have "?r \<le> min (length (drop (i + k) as)) (length (drop (j + k) bs))" using 1(2) [OF m [symmetric] refl False] by simp
    then have r: "?r \<le> length as - (i + k)" "?r \<le> length bs - (j + k)" by simp_all
    have "k + ?l + ?r \<le> length as" using b(1) l(1) r(1) by linarith
    moreover have "k + ?l + ?r \<le> length bs" using b(2) l(2) r(2) by linarith
    moreover have "matching_size as bs = k + ?l + ?r" using False m by (simp add: matching_size.simps [of as bs])
    ultimately show ?thesis by simp
  qed (simp add: matching_size.simps [of as bs] m)
qed

text \<open>\<open>SequenceMatcher(None, a, b, autojunk=False).ratio()\<close>.\<close>

definition sequence_ratio :: "'a list \<Rightarrow> 'a list \<Rightarrow> rat" where
  "sequence_ratio as bs =
     (if length as + length bs = 0 then 1 else 2 * of_nat (matching_size as bs) / of_nat (length as + length bs))"

lemma sequence_ratio_bounds: "0 \<le> sequence_ratio as bs" "sequence_ratio as bs \<le> 1"
proof -
  have "2 * matching_size as bs \<le> length as + length bs" using matching_size_le [of as bs] by simp
  then have "2 * of_nat (matching_size as bs) \<le> (of_nat (length as + length bs) :: rat)"
    by (metis of_nat_le_iff of_nat_mult of_nat_numeral)
  then show "sequence_ratio as bs \<le> 1" by (simp add: sequence_ratio_def divide_le_eq_1 del: of_nat_add)
  show "0 \<le> sequence_ratio as bs" by (simp add: sequence_ratio_def)
qed

end
