(* ===== verification/Characters.thy ===== *)
theory Characters
  imports Sequence_Matcher
begin

text \<open>
  White space among the characters of a string: \<open>str.isspace\<close> and the texts that remain without it. The semantic modules conserve the
  characters that are no white space.
\<close>

text \<open>\<open>str.isspace\<close> of one character, on its UTF-8 bytes.\<close>

definition space_character :: "string \<Rightarrow> bool" where
  "space_character c \<longleftrightarrow>
     (case map (of_char :: char \<Rightarrow> nat) c of
        [n] \<Rightarrow> 9 \<le> n \<and> n \<le> 13 \<or> 28 \<le> n \<and> n \<le> 32
      | [m, n] \<Rightarrow> m = 194 \<and> (n = 133 \<or> n = 160)
      | [l, m, n] \<Rightarrow> (l, m, n) = (225, 154, 128) \<or> l = 226 \<and> m = 128 \<and> (128 \<le> n \<and> n \<le> 138 \<or> n \<in> {168, 169, 175})
                    \<or> (l, m, n) = (226, 129, 159) \<or> (l, m, n) = (227, 128, 128)
      | _ \<Rightarrow> False)"

definition without_whitespace :: "string \<Rightarrow> string" where
  "without_whitespace s = concat (filter (\<lambda>c. \<not> space_character c) (characters s))"

text \<open>\<open>isspace\<close> of a string: it has characters, all of them white space.\<close>

definition all_space :: "string \<Rightarrow> bool" where
  "all_space s \<longleftrightarrow> s \<noteq> [] \<and> list_all space_character (characters s)"

end
