(* ===== verification/Escaping.thy ===== *)
theory Escaping
  imports Py_Strings
begin

text \<open>
  The escaping of source text for Markdown (\<open>_escape_markdown\<close>, \<open>_escape_inline\<close>, \<open>_escape_table_value\<close> of
  \<open>semantic/render.py\<close>), the checks of the finished page for raw HTML and entities, and the reading of escaped text by the
  backslash rules of CommonMark. The lemmas show that reading gives back the text and that no character of it acts as markup.
\<close>

section \<open>Escaping\<close>

abbreviation bslash :: char where "bslash \<equiv> CHR 0x5C"
abbreviation newline :: char where "newline \<equiv> CHR 0x0A"
abbreviation carriage_return :: char where "carriage_return \<equiv> CHR 0x0D"

definition COMMONMARK_ESCAPABLE_PUNCTUATION :: string where
  "COMMONMARK_ESCAPABLE_PUNCTUATION = ''!'' @ [CHR 0x22] @ ''#$%&'' @ [CHR 0x27] @ ''()*+,-./:;<=>?@[]^_'' @ [CHR 0x60] @ ''{|}~''"

definition replace_char :: "char \<Rightarrow> string \<Rightarrow> string \<Rightarrow> string" where
  "replace_char c t s = concat (map (\<lambda>x. if x = c then t else [x]) s)"

definition escape_markdown :: "string \<Rightarrow> string" where
  "escape_markdown s =
     fold (\<lambda>c t. replace_char c [bslash, c] t) COMMONMARK_ESCAPABLE_PUNCTUATION (replace_char bslash [bslash, bslash] s)"

fun unix_newlines :: "string \<Rightarrow> string" where
  "unix_newlines [] = []"
| "unix_newlines (c # s) =
     (if c = carriage_return then newline # unix_newlines (if s \<noteq> [] \<and> hd s = newline then tl s else s) else c # unix_newlines s)"

definition is_blank_char :: "char \<Rightarrow> bool" where
  "is_blank_char c \<longleftrightarrow> c = CHR '' '' \<or> c = CHR 0x09"

definition strip_blanks :: "string \<Rightarrow> string" where
  "strip_blanks s = rev (dropWhile is_blank_char (rev (dropWhile is_blank_char s)))"

definition escape_inline_line :: "string \<Rightarrow> string" where
  "escape_inline_line s = escape_markdown (strip_blanks s)"

definition escape_inline :: "string \<Rightarrow> string" where
  "escape_inline s = join [bslash, newline] (map escape_inline_line (split_on newline (unix_newlines s)))"

definition escape_table_value :: "string \<Rightarrow> string" where
  "escape_table_value s = escape_markdown (join '' '' (map strip_blanks (split_on newline (unix_newlines s))))"

section \<open>Checks of the finished page\<close>

text \<open>\<open>re.search\<close>: some suffix of the text matches.\<close>

fun some_suffix :: "(string \<Rightarrow> bool) \<Rightarrow> string \<Rightarrow> bool" where
  "some_suffix P [] = P []"
| "some_suffix P (c # s) = (P (c # s) \<or> some_suffix P s)"

definition is_letter :: "char \<Rightarrow> bool" where
  "is_letter c \<longleftrightarrow> is_upper c \<or> is_lower c"

definition tag_char :: "char \<Rightarrow> bool" where
  "tag_char c \<longleftrightarrow> is_letter c \<or> is_digit c \<or> c = CHR ''-''"

text \<open>A closing bracket comes before any other bracket: \<open>[^<>]*>\<close>.\<close>

definition closes :: "string \<Rightarrow> bool" where
  "closes s = (case dropWhile (\<lambda>c. c \<noteq> CHR ''<'' \<and> c \<noteq> CHR ''>'') s of [] \<Rightarrow> False | c # _ \<Rightarrow> c = CHR ''>'')"

definition tag_at :: "string \<Rightarrow> bool" where
  "tag_at s =
     (let t = (if s \<noteq> [] \<and> hd s = CHR ''/'' then tl s else s)
      in t \<noteq> [] \<and> is_letter (hd t)
         \<and> (let r = dropWhile tag_char (tl t)
            in starts_with ''>'' r \<or> starts_with ''/>'' r \<or> r \<noteq> [] \<and> is_space (hd r) \<and> closes (tl r)))"

definition raw_html_at :: "string \<Rightarrow> bool" where
  "raw_html_at s \<longleftrightarrow> starts_with ''<'' s
     \<and> (tag_at (tl s)
        \<or> starts_with ''!--'' (tl s) \<and> some_suffix (starts_with ''-->'') (drop 4 s)
        \<or> starts_with ''!'' (tl s) \<and> drop 2 s \<noteq> [] \<and> is_upper (hd (drop 2 s)) \<and> closes (drop 3 s)
        \<or> starts_with ''?'' (tl s) \<and> some_suffix (starts_with ''?>'') (drop 2 s))"

definition has_raw_html :: "string \<Rightarrow> bool" where
  "has_raw_html s = some_suffix raw_html_at s"

text \<open>An entity that follows the ampersand: \<open>#\d+;\<close>, \<open>#x[0-9A-Fa-f]+;\<close> or a name.\<close>

definition is_hex_any :: "char \<Rightarrow> bool" where
  "is_hex_any c \<longleftrightarrow> is_hex (lower_char c)"

definition entity_at :: "string \<Rightarrow> bool" where
  "entity_at s \<longleftrightarrow>
     starts_with ''#'' s \<and> takeWhile is_digit (tl s) \<noteq> [] \<and> starts_with '';'' (dropWhile is_digit (tl s))
     \<or> starts_with ''#x'' s \<and> takeWhile is_hex_any (drop 2 s) \<noteq> [] \<and> starts_with '';'' (dropWhile is_hex_any (drop 2 s))
     \<or> s \<noteq> [] \<and> is_letter (hd s)
        \<and> (let r = tl s in takeWhile (\<lambda>c. is_letter c \<or> is_digit c) r \<noteq> [] \<and> starts_with '';'' (dropWhile (\<lambda>c. is_letter c \<or> is_digit c) r))"

text \<open>The first argument says that the character before is a backslash.\<close>

fun has_entity :: "bool \<Rightarrow> string \<Rightarrow> bool" where
  "has_entity after_backslash [] = False"
| "has_entity after_backslash (c # s) =
     (c = CHR ''&'' \<and> \<not> after_backslash \<and> entity_at s \<or> has_entity (c = bslash) s)"

section \<open>Reading by the backslash rules\<close>

text \<open>A backslash before ASCII punctuation stands for that character, before a line end for a line break; any other is itself.\<close>

definition escaped_by_backslash :: "string \<Rightarrow> bool" where
  "escaped_by_backslash s \<longleftrightarrow> s \<noteq> [] \<and> (hd s = bslash \<or> hd s = newline \<or> hd s \<in> set COMMONMARK_ESCAPABLE_PUNCTUATION)"

fun read_inline :: "string \<Rightarrow> string" where
  "read_inline [] = []"
| "read_inline (c # s) = (if c = bslash \<and> escaped_by_backslash s then hd s # read_inline (tl s) else c # read_inline s)"

text \<open>The punctuation that no backslash protects.\<close>

fun active_marks :: "string \<Rightarrow> string" where
  "active_marks [] = []"
| "active_marks (c # s) =
     (if c = bslash \<and> escaped_by_backslash s then active_marks (tl s)
      else if c = bslash \<or> c \<in> set COMMONMARK_ESCAPABLE_PUNCTUATION then c # active_marks s else active_marks s)"

section \<open>The replacements escape each character once\<close>

definition escape_char :: "char \<Rightarrow> string" where
  "escape_char c = (if c = bslash \<or> c \<in> set COMMONMARK_ESCAPABLE_PUNCTUATION then [bslash, c] else [c])"

lemma replace_concat: "replace_char c t (concat (map f s)) = concat (map (\<lambda>x. replace_char c t (f x)) s)"
  by (induction s) (simp_all add: replace_char_def)

lemma replacements:
  assumes "bslash \<in> D" and "distinct cs" and "D \<inter> set cs = {}"
  shows "fold (\<lambda>c t. replace_char c [bslash, c] t) cs (concat (map (\<lambda>x. if x \<in> D then [bslash, x] else [x]) s))
    = concat (map (\<lambda>x. if x \<in> D \<union> set cs then [bslash, x] else [x]) s)"
  using assms
proof (induction cs arbitrary: D)
  case (Cons c cs)
  have "replace_char c [bslash, c] (if x \<in> D then [bslash, x] else [x]) = (if x \<in> insert c D then [bslash, x] else [x])" for x
    using Cons.prems by (auto simp: replace_char_def)
  then have "replace_char c [bslash, c] (concat (map (\<lambda>x. if x \<in> D then [bslash, x] else [x]) s))
      = concat (map (\<lambda>x. if x \<in> insert c D then [bslash, x] else [x]) s)" by (simp only: replace_concat)
  with Cons.IH [of "insert c D"] Cons.prems show ?case by simp
qed simp

lemma distinct_punctuation: "distinct COMMONMARK_ESCAPABLE_PUNCTUATION \<and> bslash \<notin> set COMMONMARK_ESCAPABLE_PUNCTUATION"
  by code_simp

lemma escape_markdown_eq: "escape_markdown s = concat (map escape_char s)"
proof -
  have "replace_char bslash [bslash, bslash] s = concat (map (\<lambda>x. if x \<in> {bslash} then [bslash, x] else [x]) s)"
    by (simp add: replace_char_def) (metis (mono_tags, lifting))
  then show ?thesis
    unfolding escape_markdown_def escape_char_def using replacements [of "{bslash}" COMMONMARK_ESCAPABLE_PUNCTUATION s] distinct_punctuation
    by simp
qed

lemma escape_markdown_simps [simp]: "escape_markdown [] = []" "escape_markdown (c # s) = escape_char c @ escape_markdown s"
  "escape_markdown (s @ t) = escape_markdown s @ escape_markdown t"
  by (simp_all add: escape_markdown_eq)

lemma escape_char_blank: "is_blank_char c \<Longrightarrow> escape_char c = [c]"
proof -
  have "CHR '' '' \<notin> set COMMONMARK_ESCAPABLE_PUNCTUATION" "CHR 0x09 \<notin> set COMMONMARK_ESCAPABLE_PUNCTUATION"
    by (simp_all add: COMMONMARK_ESCAPABLE_PUNCTUATION_def)
  then show "is_blank_char c \<Longrightarrow> escape_char c = [c]" by (auto simp: escape_char_def is_blank_char_def)
qed

lemma newline_plain: "newline \<notin> set COMMONMARK_ESCAPABLE_PUNCTUATION"
  by (simp add: COMMONMARK_ESCAPABLE_PUNCTUATION_def)

section \<open>Reading gives the text back\<close>

lemma read_escaped: "newline \<notin> set s \<Longrightarrow> read_inline (escape_markdown s @ t) = s @ read_inline t"
  by (induction s) (auto simp: escape_char_def escaped_by_backslash_def)

lemma active_escaped: "newline \<notin> set s \<Longrightarrow> active_marks (escape_markdown s @ t) = active_marks t"
  by (induction s) (auto simp: escape_char_def escaped_by_backslash_def)

lemma set_strip_blanks: "set (strip_blanks s) \<subseteq> set s"
  unfolding strip_blanks_def set_rev by (rule subsetI) (metis set_dropWhileD set_rev)

lemma read_joined:
  assumes "\<forall>l\<in>set ls. newline \<notin> set l"
  shows "read_inline (join [bslash, newline] (map escape_markdown ls)) = join [newline] ls
    \<and> active_marks (join [bslash, newline] (map escape_markdown ls)) = []"
  using assms
proof (induction ls rule: induct_list012)
  case (2 l)
  then show ?case using read_escaped [of l "[]"] active_escaped [of l "[]"] by simp
next
  case (3 l k ls)
  then show ?case by (simp add: read_escaped active_escaped escaped_by_backslash_def)
qed simp

text \<open>The lines of a text, each without blanks at its ends.\<close>

definition trimmed_lines :: "string \<Rightarrow> string list" where
  "trimmed_lines s = map strip_blanks (split_on newline (unix_newlines s))"

lemma trimmed_lines_plain: "\<forall>l\<in>set (trimmed_lines s). newline \<notin> set l"
  using set_strip_blanks split_on_parts by (fastforce simp: trimmed_lines_def)

text \<open>(C30) Escaped source text reads back as the source text, line by line, up to the line end
  convention and the blanks at the ends of the lines, and none of its characters acts as markup.\<close>

theorem escaped_text_roundtrip:
  "read_inline (escape_inline s) = join [newline] (trimmed_lines s) \<and> active_marks (escape_inline s) = []"
proof -
  have "escape_inline s = join [bslash, newline] (map escape_markdown (trimmed_lines s))"
    by (simp add: escape_inline_def escape_inline_line_def [abs_def] trimmed_lines_def comp_def)
  with read_joined [OF trimmed_lines_plain] show ?thesis by simp
qed

end
