(* ===== verification/Interval_Index.thy ===== *)
theory Interval_Index
  imports Complex_Main Ard_Prelude
begin

text \<open>
  The balanced interval tree of the box matching (\<open>_IntervalNode\<close> and the \<open>_interval_*\<close> functions of
  \<open>semantic/structure.py\<close>): intervals ordered by their lower end and their number, each node with the height, the
  least lower end and the greatest upper end of its subtree. The lemmas show that insertion and deletion keep the
  tree sorted, balanced and with correct fields, that no assertion fails, and that a query reports exactly the open
  intervals that overlap, in order, up to its limit.
\<close>

section \<open>The tree\<close>

type_synonym ikey = "rat \<times> nat"

text \<open>The fields in the order of the class: key, top, index, left, right, height, minimum bottom, maximum top.\<close>

datatype inode = Empty | Node ikey rat nat inode inode nat rat rat

fun interval_height :: "inode \<Rightarrow> nat" where
  "interval_height Empty = 0"
| "interval_height (Node _ _ _ _ _ h _ _) = h"

fun child_bottom :: "inode \<Rightarrow> rat list" where
  "child_bottom Empty = []"
| "child_bottom (Node _ _ _ _ _ _ b _) = [b]"

fun child_top :: "inode \<Rightarrow> rat list" where
  "child_top Empty = []"
| "child_top (Node _ _ _ _ _ _ _ t) = [t]"

text \<open>A node with its last three fields brought up to date.\<close>

definition updated :: "ikey \<Rightarrow> rat \<Rightarrow> nat \<Rightarrow> inode \<Rightarrow> inode \<Rightarrow> inode" where
  "updated k t i l r = Node k t i l r (1 + max (interval_height l) (interval_height r))
     (foldr min (child_bottom l @ child_bottom r) (fst k)) (foldr max (child_top l @ child_top r) t)"

fun interval_update :: "inode \<Rightarrow> inode" where
  "interval_update Empty = Empty"
| "interval_update (Node k t i l r _ _ _) = updated k t i l r"

definition assertion_failed :: exn where
  "assertion_failed = AssertionError []"

fun rotate_left :: "inode \<Rightarrow> inode result" where
  "rotate_left (Node k t i l (Node k' t' i' l' r' _ _ _) _ _ _) = Inr (updated k' t' i' (updated k t i l l') r')"
| "rotate_left _ = Inl assertion_failed"

fun rotate_right :: "inode \<Rightarrow> inode result" where
  "rotate_right (Node k t i (Node k' t' i' l' r' _ _ _) r _ _ _) = Inr (updated k' t' i' l' (updated k t i r' r))"
| "rotate_right _ = Inl assertion_failed"

fun left_of :: "inode \<Rightarrow> inode" where
  "left_of (Node _ _ _ l _ _ _ _) = l"
| "left_of Empty = Empty"

fun right_of :: "inode \<Rightarrow> inode" where
  "right_of (Node _ _ _ _ r _ _ _) = r"
| "right_of Empty = Empty"

fun interval_balance :: "inode \<Rightarrow> inode result" where
  "interval_balance Empty = Inr Empty"
| "interval_balance (Node k t i l r h b m) =
     (if int (interval_height l) - int (interval_height r) > 1
      then if l = Empty then Inl assertion_failed
           else bind_ok (if interval_height (left_of l) < interval_height (right_of l) then rotate_left l else Inr l)
                  (\<lambda>l'. rotate_right (Node k t i l' r h b m))
      else if int (interval_height l) - int (interval_height r) < -1
      then if r = Empty then Inl assertion_failed
           else bind_ok (if interval_height (right_of r) < interval_height (left_of r) then rotate_right r else Inr r)
                  (\<lambda>r'. rotate_left (Node k t i l r' h b m))
      else Inr (Node k t i l r h b m))"

fun interval_insert :: "inode \<Rightarrow> ikey \<Rightarrow> rat \<Rightarrow> nat \<Rightarrow> inode result" where
  "interval_insert Empty key high index = Inr (Node key high index Empty Empty 1 (fst key) high)"
| "interval_insert (Node k t i l r h b m) key high index =
     (if key < k then bind_ok (interval_insert l key high index) (\<lambda>l'. interval_balance (updated k t i l' r))
      else bind_ok (interval_insert r key high index) (\<lambda>r'. interval_balance (updated k t i l r')))"

text \<open>Key, top and index of the leftmost node of a tree that has one.\<close>

fun leftmost :: "ikey \<Rightarrow> rat \<Rightarrow> nat \<Rightarrow> inode \<Rightarrow> ikey \<times> rat \<times> nat" where
  "leftmost k t i Empty = (k, t, i)"
| "leftmost k t i (Node k' t' i' l' _ _ _ _) = leftmost k' t' i' l'"

fun successor :: "inode \<Rightarrow> ikey \<times> rat \<times> nat" where
  "successor (Node k t i l _ _ _ _) = leftmost k t i l"
| "successor Empty = ((0, 0), 0, 0)"

fun interval_delete :: "inode \<Rightarrow> ikey \<Rightarrow> inode result" where
  "interval_delete Empty key = Inr Empty"
| "interval_delete (Node k t i l r h b m) key =
     (if key < k then bind_ok (interval_delete l key) (\<lambda>l'. interval_balance (updated k t i l' r))
      else if key > k then bind_ok (interval_delete r key) (\<lambda>r'. interval_balance (updated k t i l r'))
      else if l = Empty then Inr r
      else if r = Empty then Inr l
      else case successor r of (k', t', i') \<Rightarrow>
             bind_ok (interval_delete r k') (\<lambda>r'. interval_balance (updated k' t' i' l r')))"

fun subtree_may_overlap :: "inode \<Rightarrow> rat \<Rightarrow> rat \<Rightarrow> bool" where
  "subtree_may_overlap Empty low high = False"
| "subtree_may_overlap (Node _ _ _ _ _ _ b m) low high = (b < high \<and> m > low)"

definition reached :: "nat option \<Rightarrow> nat list \<Rightarrow> bool" where
  "reached limit ms = (case limit of None \<Rightarrow> False | Some n \<Rightarrow> length ms \<ge> n)"

fun interval_query :: "inode \<Rightarrow> rat \<Rightarrow> rat \<Rightarrow> nat option \<Rightarrow> nat list \<Rightarrow> nat list" where
  "interval_query Empty low high limit ms = ms"
| "interval_query (Node k t i l r h b m) low high limit ms =
     (if reached limit ms \<or> \<not> subtree_may_overlap (Node k t i l r h b m) low high then ms
      else let ms1 = interval_query l low high limit ms;
               ms2 = (if \<not> reached limit ms1 \<and> fst k < high \<and> t > low then ms1 @ [i] else ms1)
           in interval_query r low high limit ms2)"

section \<open>Contents and invariant\<close>

type_synonym entry = "ikey \<times> rat \<times> nat"

fun entries :: "inode \<Rightarrow> entry list" where
  "entries Empty = []"
| "entries (Node k t i l r _ _ _) = entries l @ (k, t, i) # entries r"

fun fields_ok :: "inode \<Rightarrow> bool" where
  "fields_ok Empty = True"
| "fields_ok (Node k t i l r h b m) \<longleftrightarrow> fields_ok l \<and> fields_ok r \<and> Node k t i l r h b m = updated k t i l r"

fun balanced :: "inode \<Rightarrow> bool" where
  "balanced Empty = True"
| "balanced (Node k t i l r h b m) \<longleftrightarrow> balanced l \<and> balanced r
     \<and> interval_height l \<le> interval_height r + 1 \<and> interval_height r \<le> interval_height l + 1"

definition interval_inv :: "inode \<Rightarrow> bool" where
  "interval_inv t \<longleftrightarrow> fields_ok t \<and> balanced t \<and> sorted_wrt (<) (map fst (entries t))"

lemma entries_updated [simp]: "entries (updated k t i l r) = entries l @ (k, t, i) # entries r"
  by (simp add: updated_def)

lemma fields_updated [simp]: "fields_ok (updated k t i l r) \<longleftrightarrow> fields_ok l \<and> fields_ok r"
  by (simp add: updated_def)

lemma height_updated [simp]: "interval_height (updated k t i l r) = 1 + max (interval_height l) (interval_height r)"
  by (simp add: updated_def)

lemma balanced_updated [simp]:
  "balanced (updated k t i l r) \<longleftrightarrow> balanced l \<and> balanced r
     \<and> interval_height l \<le> interval_height r + 1 \<and> interval_height r \<le> interval_height l + 1"
  by (simp add: updated_def)

lemma height_Empty: "fields_ok t \<Longrightarrow> interval_height t = 0 \<longleftrightarrow> t = Empty"
  by (cases t) (auto simp: updated_def)

lemma fields_Node: "fields_ok (Node k t i l r h b m) \<Longrightarrow> h = 1 + max (interval_height l) (interval_height r)"
  by (simp add: updated_def)

section \<open>Insertion and deletion\<close>

text \<open>The number of nodes on the longest way down, which is how deep the recursions go.\<close>

fun tree_depth :: "inode \<Rightarrow> nat" where
  "tree_depth Empty = 0"
| "tree_depth (Node _ _ _ l r _ _ _) = 1 + max (tree_depth l) (tree_depth r)"

lemma depth_is_height: "fields_ok t \<Longrightarrow> tree_depth t = interval_height t"
  by (induction t) (auto simp: updated_def)

text \<open>What a call may do to a tree whose subtrees differ in height by at most two.\<close>

definition rebalanced :: "entry list \<Rightarrow> nat \<Rightarrow> nat \<Rightarrow> inode result \<Rightarrow> bool" where
  "rebalanced es lo hi res \<longleftrightarrow>
     (\<exists>n. res = Inr n \<and> entries n = es \<and> fields_ok n \<and> balanced n \<and> lo \<le> interval_height n \<and> interval_height n \<le> hi)"

lemma rotate_updated:
  "rotate_right (Node k t i l r h b m) = rotate_right (updated k t i l r)"
  "rotate_left (Node k t i l r h b m) = rotate_left (updated k t i l r)"
  "rotate_right (updated k t i (Node k' t' i' l' r' h' b' m') r) = Inr (updated k' t' i' l' (updated k t i r' r))"
  "rotate_left (updated k t i l (Node k' t' i' l' r' h' b' m')) = Inr (updated k' t' i' (updated k t i l l') r')"
  "rotate_right (updated k t i (updated k' t' i' l' r') r) = Inr (updated k' t' i' l' (updated k t i r' r))"
  "rotate_left (updated k t i l (updated k' t' i' l' r')) = Inr (updated k' t' i' (updated k t i l l') r')"
  by (cases l; simp add: updated_def; cases r; simp add: updated_def)+

lemma balance_updated:
  "interval_balance (updated k t i l r) =
     (if interval_height l > interval_height r + 1
      then if l = Empty then Inl assertion_failed
           else bind_ok (if interval_height (left_of l) < interval_height (right_of l) then rotate_left l else Inr l)
                  (\<lambda>l'. rotate_right (updated k t i l' r))
      else if interval_height r > interval_height l + 1
      then if r = Empty then Inl assertion_failed
           else bind_ok (if interval_height (right_of r) < interval_height (left_of r) then rotate_right r else Inr r)
                  (\<lambda>r'. rotate_left (updated k t i l r'))
      else Inr (updated k t i l r))"
  by (auto simp: updated_def [of k t i l r] rotate_updated(1,2))

lemma updated_sel [simp]: "updated k t i l r \<noteq> Empty" "left_of (updated k t i l r) = l" "right_of (updated k t i l r) = r"
  by (simp_all add: updated_def)

lemma fields_cases:
  assumes "fields_ok n"
  obtains (Empty) "n = Empty" | (node) k t i l r where "n = updated k t i l r" "fields_ok l" "fields_ok r"
  using assms by (cases n) auto

lemma left_heavy:
  assumes "fields_ok l" "balanced l" "fields_ok r" "balanced r" "interval_height l = interval_height r + 2"
  shows "rebalanced (entries l @ (k, t, i) # entries r) (interval_height l) (Suc (interval_height l)) (interval_balance (updated k t i l r))"
  using assms(1)
proof (cases rule: fields_cases)
  case (node lk lt li ll lr)
  show ?thesis
  proof (cases "interval_height ll < interval_height lr")
    case False
    with node assms show ?thesis by (auto simp: rebalanced_def balance_updated rotate_updated)
  next
    case True
    then have "lr \<noteq> Empty" by auto
    with node(3) obtain mk mt mi ml mr where "lr = updated mk mt mi ml mr" "fields_ok ml" "fields_ok mr"
      by (auto elim: fields_cases)
    with True node assms show ?thesis by (auto simp: rebalanced_def balance_updated rotate_updated max_def split: if_splits)
  qed
qed (use assms in simp)

lemma right_heavy:
  assumes "fields_ok l" "balanced l" "fields_ok r" "balanced r" "interval_height r = interval_height l + 2"
  shows "rebalanced (entries l @ (k, t, i) # entries r) (interval_height r) (Suc (interval_height r)) (interval_balance (updated k t i l r))"
  using assms(3)
proof (cases rule: fields_cases)
  case (node rk rt ri rl rr)
  show ?thesis
  proof (cases "interval_height rr < interval_height rl")
    case False
    with node assms show ?thesis by (auto simp: rebalanced_def balance_updated rotate_updated)
  next
    case True
    then have "rl \<noteq> Empty" by auto
    with node(2) obtain mk mt mi ml mr where "rl = updated mk mt mi ml mr" "fields_ok ml" "fields_ok mr"
      by (auto elim: fields_cases)
    with True node assms show ?thesis by (auto simp: rebalanced_def balance_updated rotate_updated max_def split: if_splits)
  qed
qed (use assms in simp)

lemma rebalance:
  assumes "fields_ok l" "balanced l" "fields_ok r" "balanced r"
    and "interval_height l \<le> interval_height r + 2" "interval_height r \<le> interval_height l + 2"
    and "lo \<le> max (interval_height l) (interval_height r) \<or>
         lo \<le> Suc (max (interval_height l) (interval_height r)) \<and> interval_height l \<le> interval_height r + 1 \<and> interval_height r \<le> interval_height l + 1"
    and "Suc (max (interval_height l) (interval_height r)) \<le> hi"
  shows "rebalanced (entries l @ (k, t, i) # entries r) lo hi (interval_balance (updated k t i l r))"
proof -
  consider "interval_height l = interval_height r + 2" | "interval_height r = interval_height l + 2"
    | "interval_height l \<le> interval_height r + 1" "interval_height r \<le> interval_height l + 1" using assms(5,6) by linarith
  then show ?thesis
  proof cases
    case 1
    with left_heavy [OF assms(1-4), of k t i] assms(7,8) show ?thesis by (force simp: max_def rebalanced_def)
  next
    case 2
    with right_heavy [OF assms(1-4), of k t i] assms(7,8) show ?thesis by (force simp: max_def rebalanced_def)
  next
    case 3
    with assms show ?thesis by (auto simp: rebalanced_def balance_updated)
  qed
qed

text \<open>Insertion and deletion on lists of entries in the order of the keys.\<close>

fun put_entry :: "entry \<Rightarrow> entry list \<Rightarrow> entry list" where
  "put_entry e [] = [e]"
| "put_entry e (x # xs) = (if fst e < fst x then e # x # xs else x # put_entry e xs)"

abbreviation drop_key :: "ikey \<Rightarrow> entry list \<Rightarrow> entry list" where
  "drop_key key \<equiv> filter (\<lambda>e. fst e \<noteq> key)"

abbreviation keys_sorted :: "entry list \<Rightarrow> bool" where
  "keys_sorted es \<equiv> sorted_wrt (<) (map fst es)"

lemma put_entry_left: "fst e < k \<Longrightarrow> put_entry e (xs @ (k, x) # ys) = put_entry e xs @ (k, x) # ys"
  by (induction xs) auto

lemma put_entry_right: "keys_sorted (xs @ [(k, x)]) \<Longrightarrow> k \<le> fst e \<Longrightarrow> put_entry e (xs @ (k, x) # ys) = xs @ (k, x) # put_entry e ys"
  by (induction xs) (auto simp: sorted_wrt_append)

lemma set_put_entry [simp]: "set (put_entry e xs) = insert e (set xs)"
  by (induction xs) auto

lemma keys_sorted_put: "keys_sorted xs \<Longrightarrow> fst e \<notin> fst ` set xs \<Longrightarrow> keys_sorted (put_entry e xs)"
proof (induction xs)
  case (Cons a xs)
  then consider "fst e < fst a" | "fst a < fst e" by force
  then show ?case
  proof cases
    case 1
    moreover have "fst e < fst x" if "x \<in> set xs" for x using 1 Cons.prems(1) that by (force intro: less_trans)
    ultimately show ?thesis using Cons.prems(1) by auto
  next
    case 2
    then have "\<not> fst e < fst a" by simp
    with 2 Cons show ?thesis by auto
  qed
qed simp

lemma interval_insert_spec:
  "fields_ok n \<Longrightarrow> balanced n \<Longrightarrow> keys_sorted (entries n) \<Longrightarrow>
     rebalanced (put_entry (key, high, index) (entries n)) (interval_height n) (Suc (interval_height n)) (interval_insert n key high index)"
proof (induction n)
  case Empty
  then show ?case by (simp add: rebalanced_def updated_def)
next
  case (Node k t i l r h b m)
  let ?e = "(key, high, index)"
  have n: "Node k t i l r h b m = updated k t i l r" and sub: "fields_ok l" "balanced l" "fields_ok r" "balanced r"
    and d: "interval_height l \<le> interval_height r + 1" "interval_height r \<le> interval_height l + 1"
    and sorted: "keys_sorted (entries l @ [(k, t, i)])" "keys_sorted (entries l)" "keys_sorted (entries r)"
    using Node.prems by (simp_all add: sorted_wrt_append)
  have h: "interval_height (Node k t i l r h b m) = 1 + max (interval_height l) (interval_height r)" by (simp only: n height_updated)
  show ?case
  proof (cases "key < k")
    case True
    from Node.IH(1) [OF sub(1,2) sorted(2)] obtain l' where l': "interval_insert l key high index = Inr l'"
      "entries l' = put_entry ?e (entries l)" "fields_ok l'" "balanced l'" "interval_height l \<le> interval_height l'"
      "interval_height l' \<le> Suc (interval_height l)"
      by (auto simp: rebalanced_def)
    have "rebalanced (entries l' @ (k, t, i) # entries r) (1 + max (interval_height l) (interval_height r))
        (Suc (1 + max (interval_height l) (interval_height r))) (interval_balance (updated k t i l' r))"
      by (rule rebalance) (use l' sub d in auto)
    with True l'(1,2) h show ?thesis by (simp add: put_entry_left)
  next
    case False
    from Node.IH(2) [OF sub(3,4) sorted(3)] obtain r' where r': "interval_insert r key high index = Inr r'"
      "entries r' = put_entry ?e (entries r)" "fields_ok r'" "balanced r'" "interval_height r \<le> interval_height r'"
      "interval_height r' \<le> Suc (interval_height r)"
      by (auto simp: rebalanced_def)
    have "rebalanced (entries l @ (k, t, i) # entries r') (1 + max (interval_height l) (interval_height r))
        (Suc (1 + max (interval_height l) (interval_height r))) (interval_balance (updated k t i l r'))"
      by (rule rebalance) (use r' sub d in auto)
    moreover have "put_entry ?e (entries l @ (k, t, i) # entries r) = entries l @ (k, t, i) # put_entry ?e (entries r)"
      by (rule put_entry_right [OF sorted(1)]) (use False in simp)
    ultimately show ?thesis using False r'(1,2) h by simp
  qed
qed

lemma leftmost_entries: "\<exists>rest. entries l @ (k, t, i) # es = leftmost k t i l # rest"
proof (induction l arbitrary: k t i es)
  case (Node k' t' i' l r h b m)
  have "\<exists>rest. entries l @ (k', t', i') # (entries r @ (k, t, i) # es) = leftmost k' t' i' l # rest" by (rule Node.IH(1))
  then show ?case by simp
qed simp

lemma successor_entries: "n \<noteq> Empty \<Longrightarrow> entries n = successor n # tl (entries n)"
  using leftmost_entries by (cases n) (auto, metis list.sel(3))

lemma drop_key_other: "keys_sorted (xs @ (k, x) # ys) \<Longrightarrow> key < k \<Longrightarrow> drop_key key ((k, x) # ys) = (k, x) # ys"
  by (auto simp: sorted_wrt_append filter_id_conv)

lemma drop_key_other': "keys_sorted (xs @ (k, x) # ys) \<Longrightarrow> k < key \<Longrightarrow> drop_key key (xs @ [(k, x)]) = xs @ [(k, x)]"
  by (force simp: sorted_wrt_append filter_id_conv)

lemma drop_key_here:
  assumes "keys_sorted (xs @ (k, x) # ys)"
  shows "drop_key k (xs @ (k, x) # ys) = xs @ ys"
proof -
  have "drop_key k xs = xs" "drop_key k ys = ys"
    by (rule filter_True, use assms in \<open>force simp: sorted_wrt_append\<close>)+
  then show ?thesis by simp
qed

lemma interval_delete_spec:
  "fields_ok n \<Longrightarrow> balanced n \<Longrightarrow> keys_sorted (entries n) \<Longrightarrow>
     rebalanced (drop_key key (entries n)) (interval_height n - 1) (interval_height n) (interval_delete n key)"
proof (induction n arbitrary: key)
  case Empty
  then show ?case by (simp add: rebalanced_def)
next
  case (Node k t i l r h b m)
  have n: "Node k t i l r h b m = updated k t i l r" and sub: "fields_ok l" "balanced l" "fields_ok r" "balanced r"
    and d: "interval_height l \<le> interval_height r + 1" "interval_height r \<le> interval_height l + 1"
    and all: "keys_sorted (entries l @ (k, t, i) # entries r)" and sorted: "keys_sorted (entries l)" "keys_sorted (entries r)"
    using Node.prems by (simp_all add: sorted_wrt_append)
  have h: "interval_height (Node k t i l r h b m) = 1 + max (interval_height l) (interval_height r)" by (simp only: n height_updated)
  have right: "rebalanced (entries l @ (k', t', i') # drop_key key' (entries r)) (max (interval_height l) (interval_height r))
      (1 + max (interval_height l) (interval_height r)) (bind_ok (interval_delete r key') (\<lambda>r'. interval_balance (updated k' t' i' l r')))"
    for k' t' i' key'
  proof -
    from Node.IH(2) [OF sub(3,4) sorted(2), of key'] obtain r' where r': "interval_delete r key' = Inr r'"
      "entries r' = drop_key key' (entries r)" "fields_ok r'" "balanced r'" "interval_height r - 1 \<le> interval_height r'"
      "interval_height r' \<le> interval_height r"
      by (auto simp: rebalanced_def)
    have "rebalanced (entries l @ (k', t', i') # entries r') (max (interval_height l) (interval_height r))
        (1 + max (interval_height l) (interval_height r)) (interval_balance (updated k' t' i' l r'))"
      by (rule rebalance) (use r' sub d in auto)
    with r'(1,2) show ?thesis by simp
  qed
  consider "key < k" | "k < key" | "key = k" "l = Empty" | "key = k" "l \<noteq> Empty" "r = Empty" | "key = k" "l \<noteq> Empty" "r \<noteq> Empty"
    by force
  then show ?case
  proof cases
    case 1
    from Node.IH(1) [OF sub(1,2) sorted(1), of key] obtain l' where l': "interval_delete l key = Inr l'"
      "entries l' = drop_key key (entries l)" "fields_ok l'" "balanced l'" "interval_height l - 1 \<le> interval_height l'"
      "interval_height l' \<le> interval_height l"
      by (auto simp: rebalanced_def)
    have "rebalanced (entries l' @ (k, t, i) # entries r) (max (interval_height l) (interval_height r))
        (1 + max (interval_height l) (interval_height r)) (interval_balance (updated k t i l' r))"
      by (rule rebalance) (use l' sub d in auto)
    with 1 l'(1,2) h drop_key_other [OF all 1] show ?thesis by simp
  next
    case 2
    then have "\<not> key < k" "k \<noteq> key" by auto
    with 2 right [of k t i key] h drop_key_other' [OF all 2] show ?thesis by simp
  next
    case 3
    with h sub d drop_key_here [OF all] show ?thesis by (simp add: rebalanced_def)
  next
    case 4
    with h sub d drop_key_here [OF all] show ?thesis by (auto simp: rebalanced_def)
  next
    case 5
    obtain k' t' i' where s: "successor r = (k', t', i')" by (cases "successor r")
    then have e: "entries r = (k', t', i') # tl (entries r)" using successor_entries [OF 5(3)] by simp
    then have "drop_key k' (entries r) = tl (entries r)" using drop_key_here [of "[]" k' "(t', i')" "tl (entries r)"] sorted(2) by (metis append_Nil)
    with right [of k' t' i' k'] e have "rebalanced (entries l @ entries r) (max (interval_height l) (interval_height r))
      (1 + max (interval_height l) (interval_height r)) (bind_ok (interval_delete r k') (\<lambda>r'. interval_balance (updated k' t' i' l r')))"
      by simp
    with 5 h s drop_key_here [OF all] show ?thesis by simp
  qed
qed

lemma interval_inv_iff: "interval_inv n \<longleftrightarrow> fields_ok n \<and> balanced n \<and> keys_sorted (entries n)"
  by (simp add: interval_inv_def)

lemma inv_Empty: "interval_inv Empty"
  by (simp add: interval_inv_def)

lemma inv_insert:
  assumes "interval_inv n" and "key \<notin> fst ` set (entries n)"
  shows "\<exists>n'. interval_insert n key high index = Inr n' \<and> interval_inv n' \<and> set (entries n') = insert (key, high, index) (set (entries n))"
proof -
  have "rebalanced (put_entry (key, high, index) (entries n)) (interval_height n) (Suc (interval_height n)) (interval_insert n key high index)"
    by (rule interval_insert_spec) (use assms(1) in \<open>simp_all add: interval_inv_def\<close>)
  moreover have "keys_sorted (put_entry (key, high, index) (entries n))"
    by (rule keys_sorted_put) (use assms in \<open>simp_all add: interval_inv_def\<close>)
  ultimately show ?thesis by (auto simp: rebalanced_def interval_inv_def)
qed

lemma inv_delete:
  assumes "interval_inv n"
  shows "\<exists>n'. interval_delete n key = Inr n' \<and> interval_inv n' \<and> set (entries n') = {e \<in> set (entries n). fst e \<noteq> key}"
proof -
  have "rebalanced (drop_key key (entries n)) (interval_height n - 1) (interval_height n) (interval_delete n key)"
    by (rule interval_delete_spec) (use assms in \<open>simp_all add: interval_inv_def\<close>)
  moreover have "keys_sorted (drop_key key (entries n))"
    using assms by (simp add: interval_inv_def sorted_wrt_map sorted_wrt_filter)
  ultimately show ?thesis by (auto simp: rebalanced_def interval_inv_def)
qed

section \<open>Queries\<close>

definition overlaps_entry :: "rat \<Rightarrow> rat \<Rightarrow> entry \<Rightarrow> bool" where
  "overlaps_entry low high e \<longleftrightarrow> fst (fst e) < high \<and> low < fst (snd e)"

definition overlapping :: "rat \<Rightarrow> rat \<Rightarrow> entry list \<Rightarrow> nat list" where
  "overlapping low high es = map (snd \<circ> snd) (filter (overlaps_entry low high) es)"

lemma overlapping_simps [simp]:
  "overlapping low high [] = []" "overlapping low high (xs @ ys) = overlapping low high xs @ overlapping low high ys"
  "overlapping low high ((k, t, i) # xs) = (if fst k < high \<and> low < t then i # overlapping low high xs else overlapping low high xs)"
  by (simp_all add: overlapping_def overlaps_entry_def)

lemma foldr_min: "foldr min xs (a :: rat) = Min (insert a (set xs))"
  by (induction xs) (auto simp: insert_commute min.commute)

lemma foldr_max: "foldr max xs (a :: rat) = Max (insert a (set xs))"
  by (induction xs) (auto simp: insert_commute max.commute)

lemma fields_bounds:
  "fields_ok n \<Longrightarrow> e \<in> set (entries n) \<Longrightarrow>
     (case n of Empty \<Rightarrow> False | Node _ _ _ _ _ _ b m \<Rightarrow> b \<le> fst (fst e) \<and> fst (snd e) \<le> m)"
proof (induction n)
  case (Node k t i l r h b m)
  have b: "b = Min (insert (fst k) (set (child_bottom l @ child_bottom r)))" and m: "m = Max (insert t (set (child_top l @ child_top r)))"
    and ok: "fields_ok l" "fields_ok r"
    using Node.prems(1) unfolding fields_ok.simps updated_def inode.inject foldr_min foldr_max by simp_all
  have sub: "b \<le> fst (fst e) \<and> fst (snd e) \<le> m" if "e \<in> set (entries c)" "c = l \<or> c = r" for c
  proof -
    from that(1) obtain k' t' i' l' r' h' b' m' where c: "c = Node k' t' i' l' r' h' b' m'" by (cases c) auto
    have "b' \<le> fst (fst e) \<and> fst (snd e) \<le> m'" using Node.IH that c ok by auto
    moreover have "b \<le> b'" "m' \<le> m" unfolding b m using that(2) c by (auto intro!: Min_le Max_ge)
    ultimately show ?thesis by linarith
  qed
  have "b \<le> fst k" "t \<le> m" unfolding b m by (auto intro!: Min_le Max_ge)
  with Node.prems(2) sub show ?case by auto
qed simp

text \<open>What the accumulator becomes when the given numbers are appended up to the limit.\<close>

definition appended :: "nat option \<Rightarrow> nat list \<Rightarrow> nat list \<Rightarrow> nat list" where
  "appended limit ms xs = ms @ (case limit of None \<Rightarrow> xs | Some n \<Rightarrow> take (n - length ms) xs)"

lemma appended_append: "appended limit (appended limit ms xs) ys = appended limit ms (xs @ ys)"
  by (auto simp: appended_def min_def split: option.splits)

lemma appended_one: "appended limit ms [x] = (if reached limit ms then ms else ms @ [x])"
  by (auto simp: appended_def reached_def split: option.splits)

lemma appended_reached: "reached limit ms \<Longrightarrow> appended limit ms xs = ms"
  by (auto simp: appended_def reached_def split: option.splits)

lemma appended_nil [simp]: "appended limit ms [] = ms"
  by (auto simp: appended_def split: option.splits)

lemma interval_query_spec: "fields_ok n \<Longrightarrow> interval_query n low high limit ms = appended limit ms (overlapping low high (entries n))"
proof (induction n arbitrary: ms)
  case (Node k t i l r h b m)
  have l: "interval_query l low high limit ms' = appended limit ms' (overlapping low high (entries l))"
    and r: "interval_query r low high limit ms' = appended limit ms' (overlapping low high (entries r))" for ms'
    using Node by simp_all
  show ?case
  proof (cases "reached limit ms")
    case True
    then show ?thesis by (simp add: appended_reached)
  next
    case False
    show ?thesis
    proof (cases "b < high \<and> low < m")
      case True
      let ?ms1 = "appended limit ms (overlapping low high (entries l))"
      have "interval_query (Node k t i l r h b m) low high limit ms
          = interval_query r low high limit (if \<not> reached limit ?ms1 \<and> fst k < high \<and> t > low then ?ms1 @ [i] else ?ms1)"
        using True False l by (simp add: Let_def)
      also have "\<dots> = appended limit (appended limit ?ms1 (if fst k < high \<and> low < t then [i] else [])) (overlapping low high (entries r))"
        using r by (simp add: appended_one)
      finally show ?thesis by (simp add: appended_append)
    next
      case outside: False
      have "\<not> overlaps_entry low high e" if "e \<in> set (entries (Node k t i l r h b m))" for e
        using fields_bounds [OF Node.prems that] outside unfolding overlaps_entry_def inode.case by linarith
      then have "overlapping low high (entries (Node k t i l r h b m)) = []"
        unfolding overlapping_def by (simp only: filter_empty_conv map_is_Nil_conv) blast
      with False outside show ?thesis by (simp only: interval_query.simps subtree_may_overlap.simps appended_nil) simp
    qed
  qed
qed simp

section \<open>Depth\<close>

lemma depth_bound: "fields_ok n \<Longrightarrow> balanced n \<Longrightarrow> 2 ^ (interval_height n div 2) \<le> length (entries n) + 1"
proof (induction n)
  case (Node k t i l r h b m)
  have h: "h = 1 + max (interval_height l) (interval_height r)" using Node.prems(1) by (rule fields_Node)
  have IH: "2 ^ (interval_height l div 2) \<le> length (entries l) + 1" "2 ^ (interval_height r div 2) \<le> length (entries r) + 1"
    using Node by simp_all
  have "h div 2 \<le> Suc (interval_height l div 2)" "h div 2 \<le> Suc (interval_height r div 2)"
    using h Node.prems(2) by auto
  then have "(2::nat) ^ (h div 2) \<le> 2 * 2 ^ (interval_height l div 2)" "(2::nat) ^ (h div 2) \<le> 2 * 2 ^ (interval_height r div 2)"
    by (metis one_le_numeral power_Suc power_increasing)+
  with IH show ?case by simp
qed simp

section \<open>The contract of the index\<close>

datatype index_op = Put ikey rat nat | Drop ikey

fun index_step :: "('t \<Rightarrow> ikey \<Rightarrow> rat \<Rightarrow> nat \<Rightarrow> 't result) \<Rightarrow> ('t \<Rightarrow> ikey \<Rightarrow> 't result) \<Rightarrow> 't \<Rightarrow> index_op \<Rightarrow> 't result" where
  "index_step put delete t (Put key high index) = put t key high index"
| "index_step put delete t (Drop key) = delete t key"

fun op_items :: "index_op \<Rightarrow> entry set \<Rightarrow> entry set" where
  "op_items (Put key high index) S = insert (key, high, index) S"
| "op_items (Drop key) S = {e \<in> S. fst e \<noteq> key}"

text \<open>No key is inserted twice without being removed between.\<close>

fun fresh_ops :: "entry set \<Rightarrow> index_op list \<Rightarrow> bool" where
  "fresh_ops S [] = True"
| "fresh_ops S (Put key high index # ops) = (key \<notin> fst ` S \<and> fresh_ops (op_items (Put key high index) S) ops)"
| "fresh_ops S (Drop key # ops) = fresh_ops (op_items (Drop key) S) ops"

locale interval_store =
  fixes inv :: "'t \<Rightarrow> bool" and items :: "'t \<Rightarrow> entry set"
    and put :: "'t \<Rightarrow> ikey \<Rightarrow> rat \<Rightarrow> nat \<Rightarrow> 't result" and delete :: "'t \<Rightarrow> ikey \<Rightarrow> 't result"
  assumes put_law: "inv t \<Longrightarrow> key \<notin> fst ` items t \<Longrightarrow>
      \<exists>t'. put t key high index = Inr t' \<and> inv t' \<and> items t' = insert (key, high, index) (items t)"
    and delete_law: "inv t \<Longrightarrow> \<exists>t'. delete t key = Inr t' \<and> inv t' \<and> items t' = {e \<in> items t. fst e \<noteq> key}"
begin

lemma runs:
  "inv t \<Longrightarrow> fresh_ops (items t) ops \<Longrightarrow>
     \<exists>t'. fold_ok (index_step put delete) t ops = Inr t' \<and> inv t' \<and> items t' = fold op_items ops (items t)"
proof (induction ops arbitrary: t)
  case (Cons op ops)
  show ?case
  proof (cases op)
    case (Put key high index)
    with Cons.prems have "key \<notin> fst ` items t" by simp
    from put_law [OF Cons.prems(1) this] obtain t' where
      t': "put t key high index = Inr t'" "inv t'" "items t' = insert (key, high, index) (items t)" by blast
    with Cons.IH [of t'] Cons.prems(2) Put show ?thesis by simp
  next
    case (Drop key)
    from delete_law [OF Cons.prems(1)] obtain t' where
      t': "delete t key = Inr t'" "inv t'" "items t' = {e \<in> items t. fst e \<noteq> key}" by blast
    with Cons.IH [of t'] Cons.prems(2) Drop show ?thesis by simp
  qed
qed simp

end

interpretation index: interval_store interval_inv "\<lambda>n. set (entries n)" interval_insert interval_delete
  by unfold_locales (fact inv_insert, fact inv_delete)

text \<open>(C24) The balanced interval tree is a set of intervals. After any sequence of
  insertions of new keys and of deletions no assertion has failed, the tree holds exactly the intervals inserted and
  not deleted, in the order of their keys; a query reports the numbers of the open intervals that overlap, in that
  order, up to its limit; the heights kept in the nodes are the depths of their trees; and the depth of the recursion is
  logarithmic in the number of intervals.\<close>

theorem index_refines_set:
  assumes "fresh_ops {} ops"
  shows "\<exists>n. fold_ok (index_step interval_insert interval_delete) Empty ops = Inr n
    \<and> set (entries n) = fold op_items ops {} \<and> sorted_wrt (<) (map fst (entries n))
    \<and> interval_query n low high None [] = map (snd \<circ> snd) (filter (\<lambda>e. fst (fst e) < high \<and> low < fst (snd e)) (entries n))
    \<and> interval_query n low high (Some limit) []
        = take limit (map (snd \<circ> snd) (filter (\<lambda>e. fst (fst e) < high \<and> low < fst (snd e)) (entries n)))
    \<and> tree_depth n = interval_height n \<and> 2 ^ (interval_height n div 2) \<le> card (fold op_items ops {}) + 1"
proof -
  from index.runs [OF inv_Empty] assms obtain n where n: "fold_ok (index_step interval_insert interval_delete) Empty ops = Inr n"
    "interval_inv n" "set (entries n) = fold op_items ops {}" by auto
  then have inv: "fields_ok n" "balanced n" "keys_sorted (entries n)" by (simp_all add: interval_inv_iff)
  have "distinct (entries n)" using inv(3) by (metis distinct_map strict_sorted_iff)
  then have "card (fold op_items ops {}) = length (entries n)" using n(3) distinct_card by metis
  then show ?thesis
    using n inv depth_bound [OF inv(1,2)] depth_is_height [OF inv(1)]
    by (auto simp: interval_query_spec appended_def overlapping_def overlaps_entry_def [abs_def] comp_def)
qed

lemma index_refines_set_witness:
  "\<exists>n. fold_ok (index_step interval_insert interval_delete) Empty
      [Put (1/10, 0) (1/2) 0, Put (1/5, 1) 1 1, Put (3/5, 2) (4/5) 2, Drop (1/10, 0)] = Inr n
    \<and> set (entries n) = {((1/5, 1), 1, 1), ((3/5, 2), 4/5, 2)}"
proof -
  have "fresh_ops {} [Put (1/10, 0) (1/2) 0, Put (1/5, 1) 1 1, Put (3/5, 2) (4/5) 2, Drop (1/10, 0)]" by simp
  from index_refines_set [OF this, of 0 1 1] obtain n where "fold_ok (index_step interval_insert interval_delete) Empty
      [Put (1/10, 0) (1/2) 0, Put (1/5, 1) 1 1, Put (3/5, 2) (4/5) 2, Drop (1/10, 0)] = Inr n"
    "set (entries n) = fold op_items [Put (1/10, 0) (1/2) 0, Put (1/5, 1) 1 1, Put (3/5, 2) (4/5) 2, Drop (1/10, 0)] {}" by blast
  moreover have "fold op_items [Put (1/10, 0) (1/2) 0, Put (1/5, 1) 1 1, Put (3/5, 2) (4/5) 2, Drop (1/10, 0)] {}
      = {((1/5, 1), 1, 1), ((3/5, 2), 4/5, 2)}" by auto
  ultimately show ?thesis by blast
qed

end
