(* ===== verification/Box_Matching.thy ===== *)
theory Box_Matching
  imports Interval_Index Semantic_Models
begin

text \<open>
  Which boxes of a page overlap (\<open>_bounded_rectangle_matches\<close> of \<open>semantic/structure.py\<close>): one sweep from left to right
  over the edges of items and queries, with the boxes that are open kept in two interval trees. The lemmas show that
  the sweep reports for every query exactly the items that share an open area with it, up to the limit.
\<close>

section \<open>The sweep\<close>

definition box_coordinates :: "source_box \<Rightarrow> rat \<times> rat \<times> rat \<times> rat" where
  "box_coordinates b = (sb_left b, sb_bottom b, sb_right b, sb_top b)"

definition box_is_degenerate :: "source_box \<Rightarrow> bool" where
  "box_is_degenerate b \<longleftrightarrow> sb_left b = sb_right b \<or> sb_bottom b = sb_top b"

text \<open>An edge: its coordinate, its kind (0 an item ends, 1 a query ends, 2 an item starts, 3 a query starts), the number
  of the box, and the box.\<close>

type_synonym edge = "rat \<times> nat \<times> nat \<times> source_box"

definition edge_key :: "edge \<Rightarrow> rat \<times> nat \<times> nat" where
  "edge_key e = (case e of (c, kind, index, b) \<Rightarrow> (c, kind, index))"

definition box_edges :: "nat \<Rightarrow> nat \<Rightarrow> (nat \<times> source_box) list \<Rightarrow> edge list" where
  "box_edges ending starting boxes =
     concat (map (\<lambda>(index, b). if box_is_degenerate b then [] else [(sb_right b, ending, index, b), (sb_left b, starting, index, b)]) boxes)"

definition degenerate_items :: "(nat \<times> source_box) list \<Rightarrow> rat \<times> rat \<times> rat \<times> rat \<Rightarrow> nat list" where
  "degenerate_items items c = map fst (filter (\<lambda>(index, b). box_is_degenerate b \<and> box_coordinates b = c) items)"

type_synonym matches = "(nat, nat list) dict"

definition extend_match :: "nat \<Rightarrow> nat list \<Rightarrow> matches \<Rightarrow> matches result" where
  "extend_match index xs m =
     (case dict_get m index of None \<Rightarrow> Inl (KeyError []) | Some ys \<Rightarrow> Inr (dict_set index (ys @ xs) m))"

record sweep =
  sw_matches :: matches
  sw_items :: inode
  sw_queries :: inode
  sw_item_keys :: "(nat, ikey) dict"
  sw_query_keys :: "(nat, ikey) dict"

text \<open>An item that starts is noted for an open query; a query with enough matches is closed.\<close>

definition note_match :: "nat \<Rightarrow> nat \<Rightarrow> sweep \<Rightarrow> nat \<Rightarrow> sweep result" where
  "note_match limit index s q =
     bind_ok (extend_match q [index] (sw_matches s)) (\<lambda>m.
       if length (the (dict_get m q)) \<ge> limit
       then case dict_get (sw_query_keys s) q of
              None \<Rightarrow> Inl (KeyError [])
            | Some key \<Rightarrow> bind_ok (interval_delete (sw_queries s) key) (\<lambda>t.
                Inr (s\<lparr>sw_matches := m, sw_queries := t, sw_query_keys := AList.delete q (sw_query_keys s)\<rparr>))
       else Inr (s\<lparr>sw_matches := m\<rparr>))"

definition sweep_step :: "nat \<Rightarrow> sweep \<Rightarrow> edge \<Rightarrow> sweep result" where
  "sweep_step limit s e =
     (case e of (c, kind, index, b) \<Rightarrow>
        if kind = 0 then
          case dict_get (sw_item_keys s) index of
            None \<Rightarrow> Inr s
          | Some key \<Rightarrow> bind_ok (interval_delete (sw_items s) key) (\<lambda>t.
              Inr (s\<lparr>sw_items := t, sw_item_keys := AList.delete index (sw_item_keys s)\<rparr>))
        else if kind = 1 then
          case dict_get (sw_query_keys s) index of
            None \<Rightarrow> Inr s
          | Some key \<Rightarrow> bind_ok (interval_delete (sw_queries s) key) (\<lambda>t.
              Inr (s\<lparr>sw_queries := t, sw_query_keys := AList.delete index (sw_query_keys s)\<rparr>))
        else if kind = 2 then
          bind_ok (fold_ok (note_match limit index) s (interval_query (sw_queries s) (sb_bottom b) (sb_top b) None [])) (\<lambda>s.
          bind_ok (interval_insert (sw_items s) (sb_bottom b, index) (sb_top b) index) (\<lambda>t.
            Inr (s\<lparr>sw_items := t, sw_item_keys := dict_set index (sb_bottom b, index) (sw_item_keys s)\<rparr>)))
        else
          bind_ok (extend_match index (interval_query (sw_items s) (sb_bottom b) (sb_top b) (Some limit) []) (sw_matches s)) (\<lambda>m.
            if length (the (dict_get m index)) < limit
            then bind_ok (interval_insert (sw_queries s) (sb_bottom b, index) (sb_top b) index) (\<lambda>t.
                   Inr (s\<lparr>sw_matches := m, sw_queries := t, sw_query_keys := dict_set index (sb_bottom b, index) (sw_query_keys s)\<rparr>))
            else Inr (s\<lparr>sw_matches := m\<rparr>)))"

definition match_degenerate :: "nat \<Rightarrow> (nat \<times> source_box) list \<Rightarrow> matches \<Rightarrow> nat \<times> source_box \<Rightarrow> matches result" where
  "match_degenerate limit items m q =
     (case q of (index, b) \<Rightarrow>
        if box_is_degenerate b then extend_match index (take limit (degenerate_items items (box_coordinates b))) m else Inr m)"

definition bounded_rectangle_matches :: "(nat \<times> source_box) list \<Rightarrow> (nat \<times> source_box) list \<Rightarrow> nat \<Rightarrow> matches result" where
  "bounded_rectangle_matches items queries limit =
     (let start = dict_of fst (\<lambda>_. []) queries
      in if limit = 0 then Inr start
         else bind_ok (fold_ok (match_degenerate limit items) start queries) (\<lambda>m.
              bind_ok (fold_ok (sweep_step limit) \<lparr>sw_matches = m, sw_items = Empty, sw_queries = Empty, sw_item_keys = [], sw_query_keys = []\<rparr>
                         (sort_key edge_key (box_edges 0 2 items @ box_edges 1 3 queries))) (\<lambda>s. Inr (sw_matches s))))"

section \<open>The open boxes\<close>

text \<open>A tree with its table of keys that holds a set of numbered boxes.\<close>

definition entry_of :: "nat \<times> source_box \<Rightarrow> entry" where
  "entry_of p = ((sb_bottom (snd p), fst p), sb_top (snd p), fst p)"

definition tracked :: "(nat \<times> source_box) set \<Rightarrow> inode \<Rightarrow> (nat, ikey) dict \<Rightarrow> bool" where
  "tracked A t keys \<longleftrightarrow> interval_inv t \<and> set (entries t) = entry_of ` A \<and> inj_on fst A
     \<and> (\<forall>i k. dict_get keys i = Some k \<longleftrightarrow> (\<exists>b. (i, b) \<in> A \<and> k = (sb_bottom b, i)))"

lemma tracked_empty: "tracked {} Empty []"
  by (simp add: tracked_def inv_Empty)

lemma tracked_insert:
  assumes "tracked A t keys" and "i \<notin> fst ` A"
  shows "\<exists>t'. interval_insert t (sb_bottom b, i) (sb_top b) i = Inr t' \<and> tracked (insert (i, b) A) t' (dict_set i (sb_bottom b, i) keys)"
proof -
  have "(sb_bottom b, i) \<notin> fst ` set (entries t)" using assms by (auto simp: tracked_def entry_of_def image_iff)
  with inv_insert [of t "(sb_bottom b, i)" "sb_top b" i] assms(1) obtain t' where
    t': "interval_insert t (sb_bottom b, i) (sb_top b) i = Inr t'" "interval_inv t'"
      "set (entries t') = insert ((sb_bottom b, i), sb_top b, i) (set (entries t))" by (auto simp: tracked_def)
  have "tracked (insert (i, b) A) t' (dict_set i (sb_bottom b, i) keys)"
    using t' assms by (auto simp: tracked_def entry_of_def inj_on_def image_iff)
  with t'(1) show ?thesis by blast
qed

lemma tracked_delete:
  assumes "tracked A t keys" and "(i, b) \<in> A"
  shows "dict_get keys i = Some (sb_bottom b, i)
    \<and> (\<exists>t'. interval_delete t (sb_bottom b, i) = Inr t' \<and> tracked (A - {(i, b)}) t' (AList.delete i keys))"
proof -
  from inv_delete [of t "(sb_bottom b, i)"] assms(1) obtain t' where
    t': "interval_delete t (sb_bottom b, i) = Inr t'" "interval_inv t'" "set (entries t') = {e \<in> set (entries t). fst e \<noteq> (sb_bottom b, i)}"
    by (auto simp: tracked_def)
  have inj: "(i, c) \<notin> A" if "c \<noteq> b" for c
    using inj_onD [of fst A "(i, c)" "(i, b)"] assms that by (auto simp: tracked_def)
  have others: "A - {(i, b)} = {p \<in> A. fst p \<noteq> i}"
  proof (rule set_eqI)
    fix p
    show "p \<in> A - {(i, b)} \<longleftrightarrow> p \<in> {p \<in> A. fst p \<noteq> i}"
      using inj assms(2) by (cases p) auto
  qed
  have key: "fst (entry_of p) = (sb_bottom b, i) \<longleftrightarrow> fst p = i" if "p \<in> A" for p
    using inj [of "snd p"] that by (cases p; cases "snd p = b") (auto simp: entry_of_def)
  have "{e \<in> entry_of ` A. fst e \<noteq> (sb_bottom b, i)} = entry_of ` {p \<in> A. fst p \<noteq> i}"
    using key by blast
  moreover have "inj_on fst {p \<in> A. fst p \<noteq> i}" using assms(1) unfolding tracked_def by (blast intro: inj_on_subset)
  moreover have "dict_get (AList.delete i keys) j = Some k \<longleftrightarrow> (\<exists>c. (j, c) \<in> {p \<in> A. fst p \<noteq> i} \<and> k = (sb_bottom c, j))" for j k
    using assms(1) by (cases k) (auto simp: tracked_def delete_conv')
  ultimately have "tracked (A - {(i, b)}) t' (AList.delete i keys)"
    using t' assms(1) unfolding tracked_def others by simp
  moreover have "dict_get keys i = Some (sb_bottom b, i)" using assms by (auto simp: tracked_def)
  ultimately show ?thesis using t'(1) by blast
qed

definition open_in :: "(nat \<times> source_box) set \<Rightarrow> source_box \<Rightarrow> nat set" where
  "open_in A b = {i. \<exists>c. (i, c) \<in> A \<and> sb_bottom c < sb_top b \<and> sb_bottom b < sb_top c}"

lemma tracked_query:
  assumes "tracked A t keys"
  shows "\<exists>xs. distinct xs \<and> set xs = open_in A b \<and> interval_query t (sb_bottom b) (sb_top b) None [] = xs
    \<and> interval_query t (sb_bottom b) (sb_top b) (Some limit) [] = take limit xs"
proof (intro exI conjI)
  let ?xs = "overlapping (sb_bottom b) (sb_top b) (entries t)"
  have ok: "fields_ok t" "keys_sorted (entries t)" and es: "set (entries t) = entry_of ` A" and inj: "inj_on fst A"
    using assms by (simp_all add: tracked_def interval_inv_iff)
  show "interval_query t (sb_bottom b) (sb_top b) None [] = ?xs" "interval_query t (sb_bottom b) (sb_top b) (Some limit) [] = take limit ?xs"
    by (simp_all add: interval_query_spec [OF ok(1)] appended_def)
  show "set ?xs = open_in A b"
    by (force simp: overlapping_def overlaps_entry_def es entry_of_def open_in_def)
  have "distinct (entries t)" using ok(2) by (metis distinct_map strict_sorted_iff)
  moreover have "inj_on (snd \<circ> snd) (entry_of ` A)"
    using inj by (auto simp: inj_on_def entry_of_def)
  ultimately show "distinct ?xs"
    unfolding overlapping_def by (intro distinct_filter [THEN distinct_map [THEN iffD2, OF conjI]])
      (auto simp: es intro: inj_on_subset)
qed

lemma extend_match_ok:
  "dict_get m q = Some ys \<Longrightarrow> extend_match q xs m = Inr (dict_set q (ys @ xs) m)"
  by (simp add: extend_match_def)

section \<open>An item meets the open queries\<close>

definition room :: "matches \<Rightarrow> nat \<Rightarrow> nat \<Rightarrow> bool" where
  "room m limit q \<longleftrightarrow> (case dict_get m q of None \<Rightarrow> False | Some xs \<Rightarrow> length xs < limit)"

lemma note_matches:
  assumes "distinct qs" and "set qs \<subseteq> fst ` A" and "tracked A (sw_queries s) (sw_query_keys s)"
    and "\<And>q. q \<in> fst ` A \<Longrightarrow> room (sw_matches s) limit q"
  shows "\<exists>s'. fold_ok (note_match limit index) s qs = Inr s'
    \<and> sw_items s' = sw_items s \<and> sw_item_keys s' = sw_item_keys s
    \<and> dict_get (sw_matches s') = (\<lambda>q. if q \<in> set qs then map_option (\<lambda>xs. xs @ [index]) (dict_get (sw_matches s) q) else dict_get (sw_matches s) q)
    \<and> tracked {p \<in> A. room (sw_matches s') limit (fst p)} (sw_queries s') (sw_query_keys s')"
  using assms
proof (induction qs arbitrary: s A)
  case Nil
  then have "{p \<in> A. room (sw_matches s) limit (fst p)} = A" by auto
  with Nil show ?case by simp
next
  case (Cons q qs)
  from Cons.prems(2) obtain b where b: "(q, b) \<in> A" by auto
  with Cons.prems(4) [of q] obtain ys where ys: "dict_get (sw_matches s) q = Some ys" "length ys < limit"
    by (force simp: room_def split: option.splits)
  let ?m = "dict_set q (ys @ [index]) (sw_matches s)"
  have "inj_on fst A" using Cons.prems(3) by (simp add: tracked_def)
  then have only: "fst p = q \<longleftrightarrow> p = (q, b)" if "p \<in> A" for p using inj_onD [of fst A p "(q, b)"] b that by auto
  have "\<exists>u A'. note_match limit index s q = Inr u \<and> sw_items u = sw_items s \<and> sw_item_keys u = sw_item_keys s \<and> sw_matches u = ?m
    \<and> A' = {p \<in> A. room ?m limit (fst p)} \<and> tracked A' (sw_queries u) (sw_query_keys u)"
  proof (cases "length (ys @ [index]) \<ge> limit")
    case True
    have "{p \<in> A. room ?m limit (fst p)} = A - {(q, b)}"
      using True Cons.prems(4) only by (auto simp: room_def split: if_splits)
    with tracked_delete [OF Cons.prems(3) b] True ys show ?thesis
      by (auto simp: note_match_def extend_match_ok)
  next
    case False
    have "{p \<in> A. room ?m limit (fst p)} = A"
      using False Cons.prems(4) by (auto simp: room_def)
    with False ys Cons.prems(3) show ?thesis by (simp add: note_match_def extend_match_ok)
  qed
  then obtain u A' where u: "note_match limit index s q = Inr u" "sw_items u = sw_items s" "sw_item_keys u = sw_item_keys s"
    "sw_matches u = ?m" "A' = {p \<in> A. room ?m limit (fst p)}" "tracked A' (sw_queries u) (sw_query_keys u)" by blast
  have room: "room (sw_matches u) limit x" if "x \<in> fst ` A'" for x using that u(4,5) by auto
  have "set qs \<subseteq> fst ` A'"
  proof
    fix x assume x: "x \<in> set qs"
    with Cons.prems(2) obtain c where "(x, c) \<in> A" by auto
    moreover have "x \<noteq> q" using x Cons.prems(1) by auto
    ultimately show "x \<in> fst ` A'" using Cons.prems(4) [of x] by (force simp: u(5) room_def)
  qed
  from Cons.IH [OF _ this u(6) room] Cons.prems(1) obtain s' where s': "fold_ok (note_match limit index) u qs = Inr s'"
    "sw_items s' = sw_items u" "sw_item_keys s' = sw_item_keys u"
    "dict_get (sw_matches s') = (\<lambda>q. if q \<in> set qs then map_option (\<lambda>xs. xs @ [index]) (dict_get (sw_matches u) q) else dict_get (sw_matches u) q)"
    "tracked {p \<in> A'. room (sw_matches s') limit (fst p)} (sw_queries s') (sw_query_keys s')" by auto
  have new: "dict_get (sw_matches s') = (\<lambda>x. if x \<in> set (q # qs) then map_option (\<lambda>xs. xs @ [index]) (dict_get (sw_matches s) x) else dict_get (sw_matches s) x)"
    using Cons.prems(1) ys u(4) by (auto simp: s'(4))
  have "room ?m limit x" if "room (sw_matches s') limit x" for x
    using that unfolding room_def s'(4) u(4) by (auto split: if_splits option.splits)
  then have "{p \<in> A'. room (sw_matches s') limit (fst p)} = {p \<in> A. room (sw_matches s') limit (fst p)}"
    using u(5) by blast
  with s' u new show ?case by simp
qed

section \<open>The invariant of the sweep\<close>

definition boxes_ok :: "(nat \<times> source_box) list \<Rightarrow> bool" where
  "boxes_ok boxes \<longleftrightarrow> distinct (map fst boxes) \<and> list_all (\<lambda>(i, b). sb_left b \<le> sb_right b \<and> sb_bottom b \<le> sb_top b) boxes"

definition crossing :: "source_box \<Rightarrow> source_box \<Rightarrow> bool" where
  "crossing b c \<longleftrightarrow> sb_left b < sb_right c \<and> sb_left c < sb_right b \<and> sb_bottom b < sb_top c \<and> sb_bottom c < sb_top b"

definition edges :: "(nat \<times> source_box) list \<Rightarrow> (nat \<times> source_box) list \<Rightarrow> edge set" where
  "edges items queries = set (box_edges 0 2 items @ box_edges 1 3 queries)"

definition started :: "nat \<Rightarrow> edge set \<Rightarrow> (nat \<times> source_box) set" where
  "started kind S = {(i, b). (sb_left b, kind, i, b) \<in> S}"

definition live :: "nat \<Rightarrow> nat \<Rightarrow> edge set \<Rightarrow> (nat \<times> source_box) set" where
  "live ending starting S = {(i, b). (sb_left b, starting, i, b) \<in> S \<and> (sb_right b, ending, i, b) \<notin> S}"

definition hits :: "edge set \<Rightarrow> nat \<Rightarrow> source_box \<Rightarrow> nat set" where
  "hits S q b = (if (q, b) \<in> started 3 S then {i. \<exists>c. (i, c) \<in> started 2 S \<and> crossing b c} else {})"

definition matched :: "nat \<Rightarrow> nat list \<Rightarrow> nat set \<Rightarrow> bool" where
  "matched limit xs H \<longleftrightarrow> distinct xs \<and> set xs \<subseteq> H \<and> length xs = min limit (card H)"

definition sweep_inv :: "(nat \<times> source_box) list \<Rightarrow> nat \<Rightarrow> matches \<Rightarrow> edge set \<Rightarrow> sweep \<Rightarrow> bool" where
  "sweep_inv queries limit m0 S s \<longleftrightarrow>
     tracked (live 0 2 S) (sw_items s) (sw_item_keys s)
     \<and> tracked {p \<in> live 1 3 S. room (sw_matches s) limit (fst p)} (sw_queries s) (sw_query_keys s)
     \<and> (\<forall>q b. (q, b) \<in> set queries \<longrightarrow>
          (if box_is_degenerate b then dict_get (sw_matches s) q = dict_get m0 q
           else \<exists>xs. dict_get (sw_matches s) q = Some xs \<and> matched limit xs (hits S q b)))"

lemma sweep_invD:
  assumes "sweep_inv queries limit m0 S s" and "(q, b) \<in> set queries"
  shows "box_is_degenerate b \<Longrightarrow> dict_get (sw_matches s) q = dict_get m0 q"
    and "\<not> box_is_degenerate b \<Longrightarrow> \<exists>xs. dict_get (sw_matches s) q = Some xs \<and> matched limit xs (hits S q b)"
proof -
  from assms have "if box_is_degenerate b then dict_get (sw_matches s) q = dict_get m0 q
           else \<exists>xs. dict_get (sw_matches s) q = Some xs \<and> matched limit xs (hits S q b)"
    unfolding sweep_inv_def by blast
  then show "box_is_degenerate b \<Longrightarrow> dict_get (sw_matches s) q = dict_get m0 q"
    and "\<not> box_is_degenerate b \<Longrightarrow> \<exists>xs. dict_get (sw_matches s) q = Some xs \<and> matched limit xs (hits S q b)" by simp_all
qed

definition next_edge :: "(nat \<times> source_box) list \<Rightarrow> (nat \<times> source_box) list \<Rightarrow> edge set \<Rightarrow> edge \<Rightarrow> bool" where
  "next_edge items queries S e \<longleftrightarrow> S \<subseteq> edges items queries \<and> e \<in> edges items queries - S
     \<and> (\<forall>x\<in>S. edge_key x \<le> edge_key e) \<and> (\<forall>y\<in>edges items queries - S. edge_key e \<le> edge_key y)"

lemma edges_iff:
  "(c, k, i, b) \<in> edges items queries \<longleftrightarrow> \<not> box_is_degenerate b
     \<and> (k = 0 \<and> c = sb_right b \<and> (i, b) \<in> set items \<or> k = 2 \<and> c = sb_left b \<and> (i, b) \<in> set items
        \<or> k = 1 \<and> c = sb_right b \<and> (i, b) \<in> set queries \<or> k = 3 \<and> c = sb_left b \<and> (i, b) \<in> set queries)"
  by (force simp: edges_def box_edges_def split: if_splits)

lemma proper_box: "boxes_ok boxes \<Longrightarrow> (i, b) \<in> set boxes \<Longrightarrow> \<not> box_is_degenerate b \<Longrightarrow> sb_left b < sb_right b \<and> sb_bottom b < sb_top b"
  by (fastforce simp: boxes_ok_def list_all_iff box_is_degenerate_def)

lemma same_box:
  assumes "boxes_ok boxes" and "(i, b) \<in> set boxes" and "(i, c) \<in> set boxes"
  shows "c = b"
proof -
  have "inj_on fst (set boxes)" using assms(1) by (simp add: boxes_ok_def distinct_map)
  from inj_onD [OF this, of "(i, c)" "(i, b)"] assms(2,3) show ?thesis by simp
qed

lemma key_le: "edge_key (c, k, i, b) \<le> edge_key (c', k', i', b') \<longleftrightarrow> c < c' \<or> c = c' \<and> (k < k' \<or> k = k' \<and> i \<le> i')"
  by (auto simp: edge_key_def)

lemma start_before_end:
  assumes n: "next_edge items queries S (sb_right b, k, i, b)" and ok: "boxes_ok items" "boxes_ok queries" and "k = 0 \<or> k = 1"
  shows "(sb_left b, k + 2, i, b) \<in> S"
proof (rule ccontr)
  assume "(sb_left b, k + 2, i, b) \<notin> S"
  moreover have "(sb_right b, k, i, b) \<in> edges items queries" using n by (simp add: next_edge_def)
  then have e: "\<not> box_is_degenerate b" "(i, b) \<in> set items \<or> (i, b) \<in> set queries" "(sb_left b, k + 2, i, b) \<in> edges items queries"
    using assms(4) by (auto simp: edges_iff)
  ultimately have "edge_key (sb_right b, k, i, b) \<le> edge_key (sb_left b, k + 2, i, b)" using n by (simp add: next_edge_def)
  moreover have "sb_left b < sb_right b" using e proper_box ok by blast
  ultimately show False by (simp add: key_le)
qed

text \<open>A box that started is still open exactly when it reaches beyond the next starting edge.\<close>

lemma live_iff:
  assumes n: "next_edge items queries S (x, k, i, b)" and "k = 2 \<or> k = 3" and "(j, c) \<in> started (m + 2) S" and "m = 0 \<or> m = 1"
  shows "sb_left c \<le> x \<and> ((j, c) \<in> live m (m + 2) S \<longleftrightarrow> x < sb_right c)"
proof -
  have s: "(sb_left c, m + 2, j, c) \<in> S" using assms(3) by (simp add: started_def)
  then have "edge_key (sb_left c, m + 2, j, c) \<le> edge_key (x, k, i, b)" using n by (simp add: next_edge_def)
  then have left: "sb_left c \<le> x" by (auto simp: key_le)
  have inE: "(sb_left c, m + 2, j, c) \<in> edges items queries" using s n by (auto simp: next_edge_def)
  then have E: "(sb_right c, m, j, c) \<in> edges items queries" using assms(4) by (auto simp: edges_iff)
  show ?thesis
  proof (cases "(sb_right c, m, j, c) \<in> S")
    case True
    then have "edge_key (sb_right c, m, j, c) \<le> edge_key (x, k, i, b)" using n by (simp add: next_edge_def)
    with True left show ?thesis by (auto simp: key_le live_def)
  next
    case False
    then have "edge_key (x, k, i, b) \<le> edge_key (sb_right c, m, j, c)" using n E by (simp add: next_edge_def)
    with False left s assms(2,4) show ?thesis by (auto simp: key_le live_def)
  qed
qed

lemma started_insert: "started k (insert (c, k', i, b) S) = (if k' = k \<and> c = sb_left b then insert (i, b) (started k S) else started k S)"
  by (auto simp: started_def)

lemma live_started: "live m k S \<subseteq> started k S"
  by (auto simp: live_def started_def)

lemma started_in:
  assumes "next_edge items queries S e" and "(i, b) \<in> started k S"
  shows "\<not> box_is_degenerate b \<and> (k = 2 \<longrightarrow> (i, b) \<in> set items) \<and> (k = 3 \<longrightarrow> (i, b) \<in> set queries)"
proof -
  have "(sb_left b, k, i, b) \<in> edges items queries" using assms by (auto simp: started_def next_edge_def)
  then show ?thesis by (auto simp: edges_iff)
qed

lemma hits_other: "k \<noteq> 2 \<Longrightarrow> k \<noteq> 3 \<or> q \<noteq> i \<Longrightarrow> hits (insert (c, k, i, b) S) q d = hits S q d"
  by (auto simp: hits_def started_insert)

lemma live_drop: "live m k (insert (sb_right b, m, i, b) S) = live m k S - {(i, b)}" if "m \<noteq> k"
  using that by (auto simp: live_def)

lemma live_keep: "k' \<noteq> m \<Longrightarrow> k' \<noteq> k \<Longrightarrow> live m k (insert (c, k', i, b) S) = live m k S"
  by (auto simp: live_def)

text \<open>The right edge of an item.\<close>

lemma step_item_ends:
  assumes inv: "sweep_inv queries limit m0 S s" and n: "next_edge items queries S (x, 0, i, b)"
    and ok: "boxes_ok items" "boxes_ok queries"
  shows "\<exists>s'. sweep_step limit s (x, 0, i, b) = Inr s' \<and> sweep_inv queries limit m0 (insert (x, 0, i, b) S) s'"
proof -
  have x: "x = sb_right b" using n by (simp add: next_edge_def edges_iff)
  have "(sb_left b, 2, i, b) \<in> S" using start_before_end [of items queries S b 0 i] n ok x by (simp add: numeral_eq_Suc)
  then have "(i, b) \<in> live 0 2 S" using n x by (simp add: live_def next_edge_def)
  from tracked_delete [OF _ this, of "sw_items s" "sw_item_keys s"] inv obtain t where t:
    "dict_get (sw_item_keys s) i = Some (sb_bottom b, i)" "interval_delete (sw_items s) (sb_bottom b, i) = Inr t"
    "tracked (live 0 2 S - {(i, b)}) t (AList.delete i (sw_item_keys s))" by (auto simp: sweep_inv_def)
  have "live 0 2 (insert (x, 0, i, b) S) = live 0 2 S - {(i, b)}" "live 1 3 (insert (x, 0, i, b) S) = live 1 3 S"
    by (simp_all add: x live_drop live_keep)
  with t inv show ?thesis by (simp add: sweep_step_def sweep_inv_def hits_other)
qed

text \<open>The right edge of a query.\<close>

lemma step_query_ends:
  assumes inv: "sweep_inv queries limit m0 S s" and n: "next_edge items queries S (x, 1, i, b)"
    and ok: "boxes_ok items" "boxes_ok queries"
  shows "\<exists>s'. sweep_step limit s (x, 1, i, b) = Inr s' \<and> sweep_inv queries limit m0 (insert (x, 1, i, b) S) s'"
proof -
  let ?A = "{p \<in> live 1 3 S. room (sw_matches s) limit (fst p)}"
  have x: "x = sb_right b" and b: "(i, b) \<in> set queries" using n by (simp_all add: next_edge_def edges_iff)
  have st: "(sb_left b, 3, i, b) \<in> S" using start_before_end [of items queries S b 1 i] n ok x by (simp add: numeral_eq_Suc)
  then have alive: "(i, b) \<in> live 1 3 S" using n x by (simp add: live_def next_edge_def)
  have l: "live 0 2 (insert (x, 1, i, b) S) = live 0 2 S" "live 1 3 (insert (x, 1, i, b) S) = live 1 3 S - {(i, b)}"
    by (simp_all add: x live_drop live_keep)
  have A: "tracked ?A (sw_queries s) (sw_query_keys s)" using inv by (simp add: sweep_inv_def)
  show ?thesis
  proof (cases "room (sw_matches s) limit i")
    case True
    with alive have "(i, b) \<in> ?A" by simp
    from tracked_delete [OF A this] obtain t where t: "dict_get (sw_query_keys s) i = Some (sb_bottom b, i)"
      "interval_delete (sw_queries s) (sb_bottom b, i) = Inr t" "tracked (?A - {(i, b)}) t (AList.delete i (sw_query_keys s))" by auto
    have "{p \<in> live 1 3 S - {(i, b)}. room (sw_matches s) limit (fst p)} = ?A - {(i, b)}" by auto
    with t inv l show ?thesis by (simp add: sweep_step_def sweep_inv_def hits_other)
  next
    case False
    have none: "dict_get (sw_query_keys s) i = None"
    proof (cases "dict_get (sw_query_keys s) i")
      case (Some k)
      with A have "\<exists>c. (i, c) \<in> ?A" unfolding tracked_def by blast
      with False show ?thesis by simp
    qed
    have "{p \<in> live 1 3 S - {(i, b)}. room (sw_matches s) limit (fst p)} = ?A" using False by auto
    with none inv l show ?thesis by (simp add: sweep_step_def sweep_inv_def hits_other)
  qed
qed

lemma finite_started:
  assumes "next_edge items queries S e"
  shows "finite {i. \<exists>c. (i, c) \<in> started 2 S \<and> P c}"
proof (rule finite_subset)
  show "{i. \<exists>c. (i, c) \<in> started 2 S \<and> P c} \<subseteq> fst ` set items" using started_in [OF assms] by force
qed simp

lemma matched_one_more:
  assumes "matched limit xs H" and "finite H" and "i \<notin> H" and "length xs < limit"
  shows "matched limit (xs @ [i]) (insert i H)"
  using assms by (auto simp: matched_def)

lemma matched_full: "matched limit xs H \<Longrightarrow> finite H \<Longrightarrow> H \<subseteq> H' \<Longrightarrow> finite H' \<Longrightarrow> \<not> length xs < limit \<Longrightarrow> matched limit xs H'"
  using card_mono [of H' H] by (auto simp: matched_def)

text \<open>The left edge of an item.\<close>

lemma step_item_starts:
  assumes inv: "sweep_inv queries limit m0 S s" and n: "next_edge items queries S (x, 2, i, b)"
    and ok: "boxes_ok items" "boxes_ok queries"
  shows "\<exists>s'. sweep_step limit s (x, 2, i, b) = Inr s' \<and> sweep_inv queries limit m0 (insert (x, 2, i, b) S) s'"
proof -
  let ?A = "{p \<in> live 1 3 S. room (sw_matches s) limit (fst p)}" and ?S = "insert (x, 2, i, b) S"
  have x: "x = sb_left b" and b: "(i, b) \<in> set items" "\<not> box_is_degenerate b" "(x, 2, i, b) \<notin> S"
    using n by (auto simp: next_edge_def edges_iff)
  have proper: "sb_left b < sb_right b" using proper_box ok(1) b by blast
  have new: "i \<notin> fst ` started 2 S"
  proof
    assume "i \<in> fst ` started 2 S"
    then obtain c where c: "(i, c) \<in> started 2 S" by auto
    with started_in [OF n] have "(i, c) \<in> set items" by blast
    then have "c = b" using same_box [OF ok(1) b(1)] by blast
    with c b(3) x show False by (simp add: started_def)
  qed
  have A: "tracked ?A (sw_queries s) (sw_query_keys s)" and I: "tracked (live 0 2 S) (sw_items s) (sw_item_keys s)"
    using inv by (simp_all add: sweep_inv_def)
  from tracked_query [OF A, of b limit] obtain qs where qs: "distinct qs" "set qs = open_in ?A b"
    "interval_query (sw_queries s) (sb_bottom b) (sb_top b) None [] = qs" by blast
  have roomy: "room (sw_matches s) limit q" if "q \<in> fst ` ?A" for q using that by auto
  have "set qs \<subseteq> fst ` ?A" unfolding qs(2) open_in_def by force
  from note_matches [OF qs(1) this A roomy, of i] obtain u where u: "fold_ok (note_match limit i) s qs = Inr u"
    "sw_items u = sw_items s" "sw_item_keys u = sw_item_keys s"
    "dict_get (sw_matches u) = (\<lambda>q. if q \<in> set qs then map_option (\<lambda>xs. xs @ [i]) (dict_get (sw_matches s) q) else dict_get (sw_matches s) q)"
    "tracked {p \<in> ?A. room (sw_matches u) limit (fst p)} (sw_queries u) (sw_query_keys u)" by blast
  have "i \<notin> fst ` live 0 2 S" using new live_started by blast
  from tracked_insert [OF I this, of b] obtain t where t: "interval_insert (sw_items s) (sb_bottom b, i) (sb_top b) i = Inr t"
    "tracked (insert (i, b) (live 0 2 S)) t (dict_set i (sb_bottom b, i) (sw_item_keys s))" by blast
  let ?s = "u\<lparr>sw_items := t, sw_item_keys := dict_set i (sb_bottom b, i) (sw_item_keys s)\<rparr>"
  have step: "sweep_step limit s (x, 2, i, b) = Inr ?s" using qs(3) u t(1) by (simp add: sweep_step_def)
  have "(sb_right b, 0, i, b) \<notin> S"
  proof
    assume "(sb_right b, 0, i, b) \<in> S"
    with n have "edge_key (sb_right b, 0, i, b) \<le> edge_key (x, 2, i, b)" by (simp add: next_edge_def)
    with proper x show False by (auto simp: key_le)
  qed
  then have liveI: "live 0 2 ?S = insert (i, b) (live 0 2 S)" and liveQ: "live 1 3 ?S = live 1 3 S"
    using x by (auto simp: live_def)
  have "room (sw_matches s) limit q" if "room (sw_matches u) limit q" for q
    using that unfolding room_def u(4) by (auto split: if_splits option.splits)
  then have same: "{p \<in> live 1 3 S. room (sw_matches u) limit (fst p)} = {p \<in> ?A. room (sw_matches u) limit (fst p)}" by blast
  have matches: "if box_is_degenerate d then dict_get (sw_matches u) q = dict_get m0 q
      else \<exists>xs. dict_get (sw_matches u) q = Some xs \<and> matched limit xs (hits ?S q d)" if d: "(q, d) \<in> set queries" for q d
  proof (cases "box_is_degenerate d")
    case True
    have "q \<notin> set qs"
    proof
      assume "q \<in> set qs"
      then obtain c where "(q, c) \<in> live 1 3 S" unfolding qs(2) open_in_def by blast
      then have "(q, c) \<in> started 3 S" using live_started by blast
      with started_in [OF n this] same_box [OF ok(2) d] True show False by blast
    qed
    with True sweep_invD(1) [OF inv d] show ?thesis by (simp add: u(4))
  next
    case False
    with sweep_invD(2) [OF inv d] obtain xs where xs: "dict_get (sw_matches s) q = Some xs" "matched limit xs (hits S q d)" by blast
    have fin: "finite (hits S q d)" using finite_started [OF n] by (simp add: hits_def)
    have hits: "hits ?S q d = (if (q, d) \<in> started 3 S \<and> crossing d b then insert i (hits S q d) else hits S q d)"
      by (auto simp: hits_def started_insert x)
    have fresh: "i \<notin> hits S q d" using new by (auto simp: hits_def image_iff)
    have only: "c = d" if "(q, c) \<in> started 3 S" for c using started_in [OF n that] same_box [OF ok(2) d] by blast
    have qs_iff: "q \<in> set qs \<longleftrightarrow> (q, d) \<in> live 1 3 S \<and> length xs < limit \<and> sb_bottom d < sb_top b \<and> sb_bottom b < sb_top d"
      using only live_started [of 1 3 S] xs(1) unfolding qs(2) open_in_def by (auto simp: room_def)
    have cross: "(q, d) \<in> live 1 3 S \<and> sb_bottom d < sb_top b \<and> sb_bottom b < sb_top d \<longleftrightarrow> (q, d) \<in> started 3 S \<and> crossing d b"
    proof (cases "(q, d) \<in> started 3 S")
      case True
      from live_iff [OF n _ _ , of q d 1] True have "sb_left d \<le> x" "(q, d) \<in> live 1 3 S \<longleftrightarrow> x < sb_right d"
        by (simp_all add: numeral_eq_Suc)
      with True x proper show ?thesis by (auto simp: crossing_def)
    next
      case False
      then show ?thesis using live_started [of 1 3 S] by blast
    qed
    show ?thesis
    proof (cases "length xs < limit")
      case True
      then have "dict_get (sw_matches u) q = Some (if (q, d) \<in> started 3 S \<and> crossing d b then xs @ [i] else xs)"
        using qs_iff cross xs(1) by (auto simp: u(4))
      with False hits matched_one_more [OF xs(2) fin fresh True] xs(2) show ?thesis by simp
    next
      case full: False
      then have "dict_get (sw_matches u) q = Some xs" using qs_iff xs(1) by (auto simp: u(4))
      moreover have "matched limit xs (hits ?S q d)"
        by (rule matched_full [OF xs(2) fin _ _ full]) (use hits fin in auto)
      ultimately show ?thesis using False by simp
    qed
  qed
  have "sweep_inv queries limit m0 ?S ?s"
    unfolding sweep_inv_def using t(2) u(5) liveI liveQ same matches by simp
  with step show ?thesis by blast
qed

text \<open>The left edge of a query.\<close>

lemma step_query_starts:
  assumes inv: "sweep_inv queries limit m0 S s" and n: "next_edge items queries S (x, 3, i, b)"
    and ok: "boxes_ok items" "boxes_ok queries"
  shows "\<exists>s'. sweep_step limit s (x, 3, i, b) = Inr s' \<and> sweep_inv queries limit m0 (insert (x, 3, i, b) S) s'"
proof -
  let ?A = "{p \<in> live 1 3 S. room (sw_matches s) limit (fst p)}" and ?S = "insert (x, 3, i, b) S"
  have x: "x = sb_left b" and b: "(i, b) \<in> set queries" "\<not> box_is_degenerate b" "(x, 3, i, b) \<notin> S"
    using n by (auto simp: next_edge_def edges_iff)
  have proper: "sb_left b < sb_right b" using proper_box ok(2) b by blast
  have new: "i \<notin> fst ` started 3 S"
  proof
    assume "i \<in> fst ` started 3 S"
    then obtain c where c: "(i, c) \<in> started 3 S" by auto
    with started_in [OF n] have "(i, c) \<in> set queries" by blast
    then have "c = b" using same_box [OF ok(2) b(1)] by blast
    with c b(3) x show False by (simp add: started_def)
  qed
  have A: "tracked ?A (sw_queries s) (sw_query_keys s)" and I: "tracked (live 0 2 S) (sw_items s) (sw_item_keys s)"
    using inv by (simp_all add: sweep_inv_def)
  from tracked_query [OF I, of b limit] obtain xs where xs: "distinct xs" "set xs = open_in (live 0 2 S) b"
    "interval_query (sw_items s) (sb_bottom b) (sb_top b) (Some limit) [] = take limit xs" by blast
  have "hits S i b = {}" using new by (force simp: hits_def)
  with sweep_invD(2) [OF inv b(1,2)] have empty: "dict_get (sw_matches s) i = Some []" by (auto simp: matched_def)
  let ?m = "dict_set i (take limit xs) (sw_matches s)"
  have ext: "extend_match i (take limit xs) (sw_matches s) = Inr ?m" using extend_match_ok [OF empty] by simp
  have cross: "(j, c) \<in> live 0 2 S \<and> sb_bottom c < sb_top b \<and> sb_bottom b < sb_top c \<longleftrightarrow> (j, c) \<in> started 2 S \<and> crossing b c" for j c
  proof (cases "(j, c) \<in> started 2 S")
    case True
    from live_iff [OF n _ _ , of j c 0] True have "sb_left c \<le> x" "(j, c) \<in> live 0 2 S \<longleftrightarrow> x < sb_right c"
      by (simp_all add: numeral_eq_Suc)
    with True x proper show ?thesis by (auto simp: crossing_def)
  next
    case False
    then show ?thesis using live_started [of 0 2 S] by blast
  qed
  have hits: "hits ?S i b = set xs"
    unfolding xs(2) open_in_def using cross by (auto simp: hits_def started_insert x)
  have others: "hits ?S q d = hits S q d" if "q \<noteq> i" for q d using that by (intro hits_other) auto
  have "(sb_right b, 1, i, b) \<notin> S"
  proof
    assume "(sb_right b, 1, i, b) \<in> S"
    with n have "edge_key (sb_right b, 1, i, b) \<le> edge_key (x, 3, i, b)" by (simp add: next_edge_def)
    with proper x show False by (auto simp: key_le)
  qed
  then have liveQ: "live 1 3 ?S = insert (i, b) (live 1 3 S)" and liveI: "live 0 2 ?S = live 0 2 S"
    using x by (auto simp: live_def)
  have full: "matched limit (take limit xs) (set xs)"
    using xs(1) by (auto simp: matched_def distinct_card min.commute dest: in_set_takeD)
  have matches: "if box_is_degenerate d then dict_get ?m q = dict_get m0 q
      else \<exists>ys. dict_get ?m q = Some ys \<and> matched limit ys (hits ?S q d)" if d: "(q, d) \<in> set queries" for q d
  proof (cases "q = i")
    case True
    with d have "d = b" using same_box [OF ok(2) b(1)] by blast
    with True b(2) hits full show ?thesis by simp
  next
    case False
    with sweep_invD [OF inv d] others show ?thesis by simp
  qed
  have rest: "{p \<in> live 1 3 S. room ?m limit (fst p)} = ?A"
    using new live_started [of 1 3 S] by (force simp: room_def)
  show ?thesis
  proof (cases "length (take limit xs) < limit")
    case True
    have "i \<notin> fst ` ?A" using new live_started [of 1 3 S] by force
    from tracked_insert [OF A this, of b] obtain t where t: "interval_insert (sw_queries s) (sb_bottom b, i) (sb_top b) i = Inr t"
      "tracked (insert (i, b) ?A) t (dict_set i (sb_bottom b, i) (sw_query_keys s))" by blast
    have "{p \<in> insert (i, b) (live 1 3 S). room ?m limit (fst p)} = insert (i, b) ?A"
      unfolding rest [symmetric] using True by (auto simp: room_def)
    then have Q: "tracked {p \<in> live 1 3 ?S. room ?m limit (fst p)} t (dict_set i (sb_bottom b, i) (sw_query_keys s))"
      using t(2) liveQ by simp
    let ?s = "s\<lparr>sw_matches := ?m, sw_queries := t, sw_query_keys := dict_set i (sb_bottom b, i) (sw_query_keys s)\<rparr>"
    have "length (the (dict_get ?m i)) < limit" using True by simp
    then have "sweep_step limit s (x, 3, i, b) = Inr ?s" using xs(3) ext t(1) by (simp add: sweep_step_def del: dict_get_set)
    moreover have "sweep_inv queries limit m0 ?S ?s"
      unfolding sweep_inv_def using Q I matches liveI by (simp del: dict_get_set)
    ultimately show ?thesis by blast
  next
    case False
    have "{p \<in> insert (i, b) (live 1 3 S). room ?m limit (fst p)} = ?A"
      unfolding rest [symmetric] using False by (auto simp: room_def)
    then have Q: "tracked {p \<in> live 1 3 ?S. room ?m limit (fst p)} (sw_queries s) (sw_query_keys s)"
      using A liveQ by simp
    let ?s = "s\<lparr>sw_matches := ?m\<rparr>"
    have "\<not> length (the (dict_get ?m i)) < limit" using False by simp
    then have "sweep_step limit s (x, 3, i, b) = Inr ?s" using xs(3) ext by (simp add: sweep_step_def del: dict_get_set)
    moreover have "sweep_inv queries limit m0 ?S ?s"
      unfolding sweep_inv_def using Q I matches liveI by (simp del: dict_get_set)
    ultimately show ?thesis by blast
  qed
qed

section \<open>The whole sweep\<close>

lemma sweep_step_inv:
  assumes inv: "sweep_inv queries limit m0 S s" and n: "next_edge items queries S e" and ok: "boxes_ok items" "boxes_ok queries"
  shows "\<exists>s'. sweep_step limit s e = Inr s' \<and> sweep_inv queries limit m0 (insert e S) s'"
proof -
  obtain x k i b where e: "e = (x, k, i, b)" by (cases e)
  then have "k = 0 \<or> k = 1 \<or> k = 2 \<or> k = 3" using n by (auto simp: next_edge_def edges_iff)
  then show ?thesis
    using step_item_ends [OF inv _ ok] step_query_ends [OF inv _ ok] step_item_starts [OF inv _ ok] step_query_starts [OF inv _ ok] n e
    by blast
qed

lemma sweep_runs:
  assumes "sweep_inv queries limit m0 S s" and "boxes_ok items" "boxes_ok queries"
    and "S \<union> set es = edges items queries" "S \<inter> set es = {}" "distinct es" "sorted (map edge_key es)"
    and "\<And>x y. x \<in> S \<Longrightarrow> y \<in> set es \<Longrightarrow> edge_key x \<le> edge_key y"
  shows "\<exists>s'. fold_ok (sweep_step limit) s es = Inr s' \<and> sweep_inv queries limit m0 (edges items queries) s'"
  using assms(1,4-)
proof (induction es arbitrary: S s)
  case (Cons e es)
  have rest: "edges items queries - S = insert e (set es)" using Cons.prems(2,3) by auto
  have "next_edge items queries S e"
    unfolding next_edge_def rest using Cons.prems by auto
  from sweep_step_inv [OF Cons.prems(1) this assms(2,3)] obtain u where
    u: "sweep_step limit s e = Inr u" "sweep_inv queries limit m0 (insert e S) u" by blast
  have "\<exists>s'. fold_ok (sweep_step limit) u es = Inr s' \<and> sweep_inv queries limit m0 (edges items queries) s'"
    by (rule Cons.IH [OF u(2)]) (use Cons.prems in auto)
  with u(1) show ?case by simp
qed auto

lemma distinct_edges:
  assumes "boxes_ok boxes" and "ending \<noteq> starting"
  shows "distinct (box_edges ending starting boxes)"
proof -
  have "distinct (map fst boxes)" using assms(1) by (simp add: boxes_ok_def)
  then show ?thesis
  proof (induction boxes)
    case (Cons p boxes)
    obtain i b where p: "p = (i, b)" by (cases p)
    have fresh: "(x, k, i, c) \<notin> set (box_edges ending starting boxes)" for x k c
      using Cons.prems p by (force simp: box_edges_def split: if_splits)
    have "box_edges ending starting (p # boxes)
        = (if box_is_degenerate b then [] else [(sb_right b, ending, i, b), (sb_left b, starting, i, b)]) @ box_edges ending starting boxes"
      by (simp add: box_edges_def p)
    with fresh assms(2) Cons show ?case by simp
  qed (simp add: box_edges_def)
qed

lemma degenerate_matches:
  assumes "distinct (map fst qs)" and "\<And>q. q \<in> fst ` set qs \<Longrightarrow> dict_get m q = Some []"
  shows "\<exists>m'. fold_ok (match_degenerate limit items) m qs = Inr m'
    \<and> (\<forall>q b. (q, b) \<in> set qs \<longrightarrow>
         dict_get m' q = Some (if box_is_degenerate b then take limit (degenerate_items items (box_coordinates b)) else []))
    \<and> (\<forall>q. q \<notin> fst ` set qs \<longrightarrow> dict_get m' q = dict_get m q)"
  using assms
proof (induction qs arbitrary: m)
  case (Cons p qs)
  obtain q b where p: "p = (q, b)" by (cases p)
  let ?xs = "if box_is_degenerate b then take limit (degenerate_items items (box_coordinates b)) else []"
  have q: "dict_get m q = Some []" using Cons.prems(2) p by simp
  then obtain u where u: "match_degenerate limit items m p = Inr u" "\<And>x. dict_get u x = (if x = q then Some ?xs else dict_get m x)"
    by (cases "box_is_degenerate b") (auto simp: match_degenerate_def p extend_match_ok)
  have "dict_get u x = Some []" if "x \<in> fst ` set qs" for x
    using that Cons.prems p by (auto simp: u(2) image_iff)
  from Cons.IH [OF _ this] Cons.prems(1) obtain m' where m': "fold_ok (match_degenerate limit items) u qs = Inr m'"
    "\<forall>q b. (q, b) \<in> set qs \<longrightarrow>
         dict_get m' q = Some (if box_is_degenerate b then take limit (degenerate_items items (box_coordinates b)) else [])"
    "\<forall>q. q \<notin> fst ` set qs \<longrightarrow> dict_get m' q = dict_get u q" by auto
  have "q \<notin> fst ` set qs" using Cons.prems(1) p by simp
  then have here: "dict_get m' q = Some ?xs" using m'(3) u(2) by simp
  have "dict_get m' x = Some (if box_is_degenerate c then take limit (degenerate_items items (box_coordinates c)) else [])"
    if "(x, c) \<in> set (p # qs)" for x c using that here m'(2) p by auto
  moreover have "dict_get m' x = dict_get m x" if "x \<notin> fst ` set (p # qs)" for x
    using that m'(3) u(2) p by auto
  ultimately show ?case using u(1) m'(1) by auto
qed auto

text \<open>An item meets a query when they share an open area; a box without area only meets the same box.\<close>

definition box_meets :: "source_box \<Rightarrow> source_box \<Rightarrow> bool" where
  "box_meets b c \<longleftrightarrow>
     (if box_is_degenerate b then box_is_degenerate c \<and> box_coordinates c = box_coordinates b else \<not> box_is_degenerate c \<and> crossing b c)"

lemma sweep_exact:
  assumes "boxes_ok items" and "boxes_ok queries"
  shows "\<exists>m. bounded_rectangle_matches items queries limit = Inr m \<and> (\<forall>q b. (q, b) \<in> set queries \<longrightarrow>
    (\<exists>xs. dict_get m q = Some xs \<and> matched limit xs (fst ` {(i, c) \<in> set items. box_meets b c})))"
proof -
  let ?start = "dict_of fst (\<lambda>_. [] :: nat list) queries"
  have dq: "distinct (map fst queries)" and di: "distinct (map fst items)" using assms by (simp_all add: boxes_ok_def)
  have empty: "dict_get ?start x = Some []" if "x \<in> fst ` set queries" for x
    using that dict_get_of_None [of fst "\<lambda>_. [] :: nat list" queries x] by (auto simp: dict_get_of split: option.splits)
  show ?thesis
  proof (cases "limit = 0")
    case True
    then show ?thesis using empty by (force simp: bounded_rectangle_matches_def matched_def)
  next
    case False
    from degenerate_matches [OF dq empty, of limit items] obtain m0 where m0: "fold_ok (match_degenerate limit items) ?start queries = Inr m0"
      "\<forall>q b. (q, b) \<in> set queries \<longrightarrow>
         dict_get m0 q = Some (if box_is_degenerate b then take limit (degenerate_items items (box_coordinates b)) else [])" by blast
    let ?s = "\<lparr>sw_matches = m0, sw_items = Empty, sw_queries = Empty, sw_item_keys = [], sw_query_keys = []\<rparr>"
    let ?es = "sort_key edge_key (box_edges 0 2 items @ box_edges 1 3 queries)"
    have "sweep_inv queries limit m0 {} ?s"
      using m0(2) by (auto simp: sweep_inv_def live_def hits_def started_def matched_def tracked_empty)
    moreover have "distinct ?es"
      using distinct_edges [OF assms(1), of 0 2] distinct_edges [OF assms(2), of 1 3]
      by (auto simp: box_edges_def split: if_splits)
    ultimately obtain s where s: "fold_ok (sweep_step limit) ?s ?es = Inr s" "sweep_inv queries limit m0 (edges items queries) s"
      using sweep_runs [of queries limit m0 "{}" ?s items ?es] assms(1,2) by (auto simp: edges_def)
    have run: "bounded_rectangle_matches items queries limit = Inr (sw_matches s)"
      using False m0(1) s(1) by (simp add: bounded_rectangle_matches_def Let_def)
    have "\<exists>xs. dict_get (sw_matches s) q = Some xs \<and> matched limit xs (fst ` {(i, c) \<in> set items. box_meets b c})"
      if q: "(q, b) \<in> set queries" for q b
    proof (cases "box_is_degenerate b")
      case True
      let ?xs = "degenerate_items items (box_coordinates b)"
      have "dict_get (sw_matches s) q = Some (take limit ?xs)"
        using sweep_invD(1) [OF s(2) q True] m0(2) q True by auto
      moreover have "distinct ?xs" using di by (simp add: degenerate_items_def distinct_map_filter)
      moreover have "set ?xs = fst ` {(i, c) \<in> set items. box_meets b c}" using True by (auto simp: degenerate_items_def box_meets_def)
      ultimately show ?thesis using distinct_card [of ?xs] by (fastforce simp: matched_def min.commute dest: in_set_takeD)
    next
      case False
      have "hits (edges items queries) q b = fst ` {(i, c) \<in> set items. box_meets b c}"
        using False q by (force simp: hits_def started_def edges_iff box_meets_def)
      with sweep_invD(2) [OF s(2) q False] show ?thesis by simp
    qed
    with run show ?thesis by blast
  qed
qed

text \<open>(C25) The sweep over the edges of the boxes, with its two interval trees, raises nothing
  and agrees with the comparison of all pairs: every query gets distinct numbers of items that it meets, as many as
  there are, up to the limit.\<close>

theorem box_sweep_exact:
  assumes "boxes_ok items" and "boxes_ok queries" and "(q, b) \<in> set queries"
  shows "\<exists>m xs. bounded_rectangle_matches items queries limit = Inr m \<and> dict_get m q = Some xs \<and> distinct xs
    \<and> set xs \<subseteq> fst ` {(i, c) \<in> set items. box_meets b c} \<and> length xs = min limit (card {(i, c) \<in> set items. box_meets b c})"
proof -
  have "distinct (map fst items)" using assms(1) by (simp add: boxes_ok_def)
  then have "card {(i, c) \<in> set items. box_meets b c} = card (fst ` {(i, c) \<in> set items. box_meets b c})"
    by (intro card_image [symmetric]) (auto simp: distinct_map intro: inj_on_subset)
  with sweep_exact [OF assms(1,2), of limit] assms(3) show ?thesis by (fastforce simp: matched_def)
qed

definition sample_box :: "rat \<Rightarrow> rat \<Rightarrow> source_box" where
  "sample_box a z = \<lparr>sb_left = a, sb_bottom = a, sb_right = z, sb_top = z\<rparr>"

lemma box_sweep_exact_witness:
  "\<exists>m. bounded_rectangle_matches [(0, sample_box 0 (1/2)), (1, sample_box (3/4) 1)] [(7, sample_box (1/4) (3/4))] 2 = Inr m
    \<and> dict_get m 7 = Some [0]"
proof -
  let ?I = "[(0, sample_box 0 (1/2)), (1, sample_box (3/4) 1)]" and ?Q = "[(7, sample_box (1/4) (3/4))]"
  have ok: "boxes_ok ?I" "boxes_ok ?Q" by (simp_all add: boxes_ok_def sample_box_def)
  have H: "{(i, c) \<in> set ?I. box_meets (sample_box (1/4) (3/4)) c} = {(0, sample_box 0 (1/2))}"
    by (auto simp: box_meets_def crossing_def box_is_degenerate_def sample_box_def)
  have "(7, sample_box (1/4) (3/4)) \<in> set ?Q" by simp
  from box_sweep_exact [OF ok this, of 2, unfolded H] obtain m xs where
    "bounded_rectangle_matches ?I ?Q 2 = Inr m" "dict_get m 7 = Some xs" "set xs \<subseteq> fst ` {(0 :: nat, sample_box 0 (1/2))}"
    "length xs = min 2 (card {(0 :: nat, sample_box 0 (1/2))})" by blast
  then have "bounded_rectangle_matches ?I ?Q 2 = Inr m" "dict_get m 7 = Some xs" "set xs \<subseteq> {0}" "length xs = 1" by simp_all
  moreover then have "xs = [0]" by (cases xs) auto
  ultimately show ?thesis by blast
qed

end
