(* ===== verification/Skeleton.thy ===== *)
theory Skeleton
  imports Box_Matching
begin

text \<open>
  The structural hints that the layout library gives for a document (\<open>build_docling_skeleton\<close> of
  \<open>semantic/structure.py\<close>). The items of the library are a record of the attributes the code reads;
  its conversion of a box to the lower left origin is a function of the document. The
  lemmas show that every hint has the fields of its kind, within the limits of the semantic model.
\<close>

section \<open>Hints\<close>

datatype structure_kind = S_Heading | S_Paragraph | S_List_Item | S_Table

record structure_cell =
  hc_start_row :: int
  hc_end_row :: int
  hc_start_column :: int
  hc_end_column :: int
  hc_text_hint :: string
  hc_column_header :: bool
  hc_bbox :: "source_box option"

record structure_table =
  ht_row_count :: int
  ht_column_count :: int
  ht_cells :: "structure_cell list"

record structure_block =
  hb_kind :: structure_kind
  hb_order :: int
  hb_page :: "int option"
  hb_bbox :: "source_box option"
  hb_text_hint :: string
  hb_heading_level :: "int option"
  hb_list_kind :: "list_kind option"
  hb_list_depth :: "int option"
  hb_table :: "structure_table option"

section \<open>Items of the library\<close>

text \<open>The class of an item, the most special one that the code tests for.\<close>

datatype item_class = Table_Item | Title_Item | Section_Header_Item | List_Item | Text_Item | Other_Item

record 'b docling_cell =
  dlc_offsets :: "int \<times> int \<times> int \<times> int"
  dlc_text :: string
  dlc_header :: bool
  dlc_box :: "'b option"

record 'b docling_item =
  di_class :: item_class
  di_prov :: "(int \<times> 'b) list"
  di_orig :: "string option"
  di_text :: string
  di_level :: int
  di_enumerated :: bool
  di_num_rows :: int
  di_num_cols :: int
  di_cells :: "'b docling_cell list"

text \<open>The size of each page, and the edges (left, bottom, right, top) of a box on a page of the given height; None is an
  attribute, type or value error.\<close>

record 'b docling =
  dl_size :: "int \<Rightarrow> (rat \<times> rat) option"
  dl_edges :: "'b \<Rightarrow> rat \<Rightarrow> (rat \<times> rat \<times> rat \<times> rat) option"

section \<open>Boxes\<close>

definition clamp_unit :: "rat \<Rightarrow> rat" where
  "clamp_unit v = max 0 (min 1 v)"

definition normalize_docling_box :: "'b docling \<Rightarrow> 'b \<Rightarrow> int \<Rightarrow> source_box option" where
  "normalize_docling_box D b page =
     (case dl_size D page of
        None \<Rightarrow> None
      | Some (width, height) \<Rightarrow>
          if width \<le> 0 \<or> height \<le> 0 then None
          else case dl_edges D b height of
                 None \<Rightarrow> None
               | Some (l, bottom, r, t) \<Rightarrow>
                   (case SourceBox \<lparr>sb_left = clamp_unit (l / width), sb_bottom = clamp_unit (bottom / height),
                                   sb_right = clamp_unit (r / width), sb_top = clamp_unit (t / height)\<rparr> of
                      Inl e \<Rightarrow> None | Inr box \<Rightarrow> Some box))"

definition union_boxes :: "source_box list \<Rightarrow> source_box option result" where
  "union_boxes boxes =
     (if boxes = [] then Inr None
      else bind_ok (SourceBox \<lparr>sb_left = Min (set (map sb_left boxes)), sb_bottom = Min (set (map sb_bottom boxes)),
                              sb_right = Max (set (map sb_right boxes)), sb_top = Max (set (map sb_top boxes))\<rparr>)
             (\<lambda>b. Inr (Some b)))"

definition item_location :: "'b docling \<Rightarrow> 'b docling_item \<Rightarrow> (int option \<times> source_box option) result" where
  "item_location D item =
     (case di_prov item of
        [] \<Rightarrow> Inr (None, None)
      | (page, _) # _ \<Rightarrow>
          bind_ok (union_boxes (somes (map (\<lambda>(p, b). normalize_docling_box D b page) (filter (\<lambda>(p, b). p = page) (di_prov item)))))
            (\<lambda>b. Inr (Some page, b)))"

definition item_text_hint :: "'b docling_item \<Rightarrow> string" where
  "item_text_hint item = (case di_orig item of None \<Rightarrow> di_text item | Some s \<Rightarrow> s)"

section \<open>Tables\<close>

definition validate_structure_table_limits :: "int \<Rightarrow> int \<Rightarrow> nat \<Rightarrow> unit result" where
  "validate_structure_table_limits row_count column_count cell_count =
     (if row_count > MAX_TABLE_ROWS then Inl (ValueError ''TABLE_ROWS_LIMIT_EXCEEDED'')
      else if column_count > MAX_TABLE_COLUMNS then Inl (ValueError ''TABLE_COLUMNS_LIMIT_EXCEEDED'')
      else if row_count \<le> 0 \<or> column_count \<le> 0 then Inl (ValueError ''TABLE_DIMENSIONS_INVALID'')
      else if row_count * column_count > MAX_TABLE_GRID_AREA then Inl (ValueError ''TABLE_GRID_AREA_LIMIT_EXCEEDED'')
      else if cell_count > MAX_TABLE_CELLS then Inl (ValueError ''TABLE_CELL_COUNT_LIMIT_EXCEEDED'')
      else Inr ())"

fun first_cells :: "(int \<times> int \<times> int \<times> int) list \<Rightarrow> 'b docling_cell list \<Rightarrow> 'b docling_cell list" where
  "first_cells seen [] = []"
| "first_cells seen (c # cs) =
     (if dlc_offsets c \<in> set seen then first_cells seen cs else c # first_cells (dlc_offsets c # seen) cs)"

definition structure_cell_of :: "'b docling \<Rightarrow> int option \<Rightarrow> 'b docling_cell \<Rightarrow> structure_cell" where
  "structure_cell_of D page c =
     (case dlc_offsets c of (start_row, end_row, start_column, end_column) \<Rightarrow>
        \<lparr>hc_start_row = start_row, hc_end_row = end_row, hc_start_column = start_column, hc_end_column = end_column,
         hc_text_hint = dlc_text c, hc_column_header = dlc_header c,
         hc_bbox = (case (page, dlc_box c) of (Some p, Some b) \<Rightarrow> normalize_docling_box D b p | _ \<Rightarrow> None)\<rparr>)"

definition structure_table :: "'b docling \<Rightarrow> 'b docling_item \<Rightarrow> int option \<Rightarrow> structure_table result" where
  "structure_table D item page =
     bind_ok (validate_structure_table_limits (di_num_rows item) (di_num_cols item) (length (di_cells item))) (\<lambda>_.
       Inr \<lparr>ht_row_count = di_num_rows item, ht_column_count = di_num_cols item,
            ht_cells = map (structure_cell_of D page) (first_cells [] (di_cells item))\<rparr>)"

section \<open>The skeleton\<close>

definition plain_hint :: "structure_kind \<Rightarrow> int \<Rightarrow> int option \<times> source_box option \<Rightarrow> string \<Rightarrow> structure_block" where
  "plain_hint kind n location hint =
     \<lparr>hb_kind = kind, hb_order = n, hb_page = fst location, hb_bbox = snd location, hb_text_hint = hint,
      hb_heading_level = None, hb_list_kind = None, hb_list_depth = None, hb_table = None\<rparr>"

definition item_hint :: "'b docling \<Rightarrow> int \<Rightarrow> 'b docling_item \<Rightarrow> int \<Rightarrow> structure_block option result" where
  "item_hint D n item tree_level =
     bind_ok (item_location D item) (\<lambda>location.
       let hint = item_text_hint item
       in case di_class item of
            Table_Item \<Rightarrow> bind_ok (structure_table D item (fst location)) (\<lambda>table.
              Inr (Some ((plain_hint S_Table n location (join '' '' (map hc_text_hint (ht_cells table))))\<lparr>hb_table := Some table\<rparr>)))
          | Title_Item \<Rightarrow> Inr (Some ((plain_hint S_Heading n location hint)\<lparr>hb_heading_level := Some 1\<rparr>))
          | Section_Header_Item \<Rightarrow>
              Inr (Some ((plain_hint S_Heading n location hint)\<lparr>hb_heading_level := Some (max 1 (min 6 (di_level item)))\<rparr>))
          | List_Item \<Rightarrow>
              (let list_depth = max 0 (tree_level - 1)
               in if list_depth > MAX_LIST_DEPTH then Inl (ValueError ''LIST_DEPTH_LIMIT_EXCEEDED'')
                  else Inr (Some ((plain_hint S_List_Item n location hint)
                         \<lparr>hb_list_kind := Some (if di_enumerated item then Ordered else Unordered), hb_list_depth := Some list_depth\<rparr>)))
          | Text_Item \<Rightarrow> Inr (Some (plain_hint S_Paragraph n location hint))
          | Other_Item \<Rightarrow> Inr None)"

definition add_hint :: "'b docling \<Rightarrow> structure_block list \<Rightarrow> 'b docling_item \<times> int \<Rightarrow> structure_block list result" where
  "add_hint D blocks p =
     bind_ok (item_hint D (int (length blocks)) (fst p) (snd p)) (\<lambda>h. Inr (case h of None \<Rightarrow> blocks | Some b \<Rightarrow> blocks @ [b]))"

definition build_docling_skeleton :: "'b docling \<Rightarrow> ('b docling_item \<times> int) list \<Rightarrow> structure_block list result" where
  "build_docling_skeleton D items = fold_ok (add_hint D) [] items"

section \<open>Boxes stay on the page\<close>

definition box_ok :: "source_box \<Rightarrow> bool" where
  "box_ok b \<longleftrightarrow> 0 \<le> sb_left b \<and> sb_left b \<le> sb_right b \<and> sb_right b \<le> 1 \<and> 0 \<le> sb_bottom b \<and> sb_bottom b \<le> sb_top b \<and> sb_top b \<le> 1"

lemma SourceBox_iff: "SourceBox b = Inr c \<longleftrightarrow> c = b \<and> box_ok b"
  by (auto simp: SourceBox_def box_ok_def)

lemma normalized_box_ok: "normalize_docling_box D b page = Some c \<Longrightarrow> box_ok c"
  by (auto simp: normalize_docling_box_def SourceBox_iff split: option.splits if_splits sum.splits)

lemma union_box_ok:
  assumes "list_all box_ok boxes"
  shows "\<exists>u. union_boxes boxes = Inr u \<and> opt_ok box_ok u \<and> (u = None \<longleftrightarrow> boxes = [])"
proof (cases boxes)
  case (Cons b bs)
  let ?u = "\<lparr>sb_left = Min (set (map sb_left boxes)), sb_bottom = Min (set (map sb_bottom boxes)),
    sb_right = Max (set (map sb_right boxes)), sb_top = Max (set (map sb_top boxes))\<rparr>"
  have b: "box_ok c" if "c \<in> set boxes" for c using assms that by (simp add: list_all_iff)
  have edge: "Min (f ` set boxes) \<in> f ` set boxes" "Max (f ` set boxes) \<in> f ` set boxes" for f :: "source_box \<Rightarrow> rat"
    using Cons by (intro Min_in Max_in; simp)+
  have le: "Min (f ` set boxes) \<le> f b" "g b \<le> Max (g ` set boxes)" for f g :: "source_box \<Rightarrow> rat"
    using Cons by auto
  have across: "Min (f ` set boxes) \<le> Max (g ` set boxes)" if "f b \<le> g b" for f g :: "source_box \<Rightarrow> rat"
    using le(1) [of f] le(2) [of g] that by linarith
  have low: "0 \<le> Min (f ` set boxes)" if "\<And>c. box_ok c \<Longrightarrow> 0 \<le> f c" for f :: "source_box \<Rightarrow> rat"
    using edge(1) [of f] that b by fastforce
  have high: "Max (f ` set boxes) \<le> 1" if "\<And>c. box_ok c \<Longrightarrow> f c \<le> 1" for f :: "source_box \<Rightarrow> rat"
    using edge(2) [of f] that b by fastforce
  have here: "sb_left b \<le> sb_right b" "sb_bottom b \<le> sb_top b" using b [of b] Cons by (simp_all add: box_ok_def)
  have "box_ok ?u"
    unfolding box_ok_def source_box.select_convs set_map
    by (intro conjI across here low high) (simp_all add: box_ok_def)
  then have "union_boxes boxes = Inr (Some ?u)" using Cons by (simp add: union_boxes_def SourceBox_iff)
  with \<open>box_ok ?u\<close> Cons show ?thesis by simp
qed (simp add: union_boxes_def)

section \<open>Every hint has the fields of its kind\<close>

definition cell_offsets :: "structure_cell \<Rightarrow> int \<times> int \<times> int \<times> int" where
  "cell_offsets c = (hc_start_row c, hc_end_row c, hc_start_column c, hc_end_column c)"

definition table_hint_ok :: "structure_table \<Rightarrow> bool" where
  "table_hint_ok t \<longleftrightarrow> 0 < ht_row_count t \<and> ht_row_count t \<le> MAX_TABLE_ROWS \<and> 0 < ht_column_count t \<and> ht_column_count t \<le> MAX_TABLE_COLUMNS
     \<and> ht_row_count t * ht_column_count t \<le> MAX_TABLE_GRID_AREA \<and> length (ht_cells t) \<le> MAX_TABLE_CELLS
     \<and> distinct (map cell_offsets (ht_cells t)) \<and> list_all (opt_ok box_ok \<circ> hc_bbox) (ht_cells t)"

definition hint_ok :: "structure_block \<Rightarrow> bool" where
  "hint_ok h \<longleftrightarrow> opt_ok box_ok (hb_bbox h) \<and> (hb_page h = None \<longrightarrow> hb_bbox h = None)
     \<and> (case hb_kind h of
          S_Heading \<Rightarrow> hb_heading_level h \<in> Some ` {1..6} \<and> hb_list_kind h = None \<and> hb_list_depth h = None \<and> hb_table h = None
        | S_Paragraph \<Rightarrow> hb_heading_level h = None \<and> hb_list_kind h = None \<and> hb_list_depth h = None \<and> hb_table h = None
        | S_List_Item \<Rightarrow> hb_heading_level h = None \<and> hb_list_kind h \<noteq> None \<and> hb_list_depth h \<in> Some ` {0..MAX_LIST_DEPTH} \<and> hb_table h = None
        | S_Table \<Rightarrow> hb_heading_level h = None \<and> hb_list_kind h = None \<and> hb_list_depth h = None \<and> hb_table h \<noteq> None \<and> opt_ok table_hint_ok (hb_table h))"

lemma first_cells_facts:
  "distinct (map dlc_offsets (first_cells seen cs)) \<and> set (first_cells seen cs) \<subseteq> set cs
   \<and> dlc_offsets ` set (first_cells seen cs) = dlc_offsets ` set cs - set seen \<and> length (first_cells seen cs) \<le> length cs"
proof (induction cs arbitrary: seen)
  case (Cons c cs)
  show ?case using Cons [of seen] Cons [of "dlc_offsets c # seen"] by (cases "dlc_offsets c \<in> set seen") auto
qed simp

lemma structure_cell_offsets: "cell_offsets (structure_cell_of D page c) = dlc_offsets c"
  by (cases "dlc_offsets c") (simp add: structure_cell_of_def cell_offsets_def)

lemma structure_cell_box: "opt_ok box_ok (hc_bbox (structure_cell_of D page c))"
  by (cases "dlc_offsets c"; cases page; cases "dlc_box c"; cases "normalize_docling_box D (the (dlc_box c)) (the page)")
    (auto simp: structure_cell_of_def dest: normalized_box_ok)

lemma structure_table_ok:
  assumes "structure_table D item page = Inr t"
  shows "table_hint_ok t"
proof -
  have cells: "distinct (map cell_offsets (map (structure_cell_of D page) (first_cells [] (di_cells item))))"
    "length (first_cells [] (di_cells item)) \<le> length (di_cells item)"
    using first_cells_facts [of "[]" "di_cells item"] by (simp_all add: comp_def structure_cell_offsets)
  from assms have "\<not> di_num_rows item > MAX_TABLE_ROWS" "\<not> di_num_cols item > MAX_TABLE_COLUMNS" "\<not> (di_num_rows item \<le> 0 \<or> di_num_cols item \<le> 0)"
    "\<not> di_num_rows item * di_num_cols item > MAX_TABLE_GRID_AREA" "\<not> length (di_cells item) > MAX_TABLE_CELLS"
    and t: "t = \<lparr>ht_row_count = di_num_rows item, ht_column_count = di_num_cols item,
      ht_cells = map (structure_cell_of D page) (first_cells [] (di_cells item))\<rparr>"
    by (auto simp: structure_table_def validate_structure_table_limits_def split: if_splits)
  with cells show ?thesis by (simp add: table_hint_ok_def list_all_iff structure_cell_box)
qed

lemma item_location_ok:
  assumes "item_location D item = Inr (page, b)"
  shows "opt_ok box_ok b \<and> (page = None \<longrightarrow> b = None)"
proof (cases "di_prov item")
  case (Cons p ps)
  obtain n x where p: "p = (n, x)" by (cases p)
  let ?boxes = "somes (map (\<lambda>(p, b). normalize_docling_box D b n) (filter (\<lambda>(p, b). p = n) (di_prov item)))"
  have "list_all box_ok ?boxes" by (auto simp: list_all_iff dest: normalized_box_ok [OF sym])
  from union_box_ok [OF this] assms Cons p show ?thesis by (auto simp: item_location_def)
qed (use assms in \<open>simp add: item_location_def\<close>)

lemma item_hint_ok:
  assumes "item_hint D n item level = Inr (Some h)"
  shows "hint_ok h \<and> hb_order h = n"
proof -
  from assms obtain page b where l: "item_location D item = Inr (page, b)" by (auto simp: item_hint_def)
  note ok = item_location_ok [OF l]
  show ?thesis
    using assms ok structure_table_ok [of D item page]
    by (cases "di_class item") (auto simp: item_hint_def l Let_def plain_hint_def hint_ok_def image_iff split: if_splits)
qed

lemma skeleton_hints:
  assumes "build_docling_skeleton D items = Inr blocks"
  shows "map hb_order blocks = map int [0..<length blocks] \<and> list_all hint_ok blocks"
proof -
  have "(\<lambda>bs. map hb_order bs = map int [0..<length bs] \<and> list_all hint_ok bs) blocks"
  proof (rule fold_ok_invariant [OF assms [unfolded build_docling_skeleton_def]])
    fix bs p bs'
    assume "map hb_order bs = map int [0..<length bs] \<and> list_all hint_ok bs" "add_hint D bs p = Inr bs'"
    then show "map hb_order bs' = map int [0..<length bs'] \<and> list_all hint_ok bs'"
      using item_hint_ok [of D "int (length bs)" "fst p" "snd p"] by (auto simp: add_hint_def split: option.splits)
  qed simp
  then show ?thesis .
qed

text \<open>(C26) The hints are numbered from zero in reading order, and every hint has exactly the fields of
  its kind: a heading a level from 1 to 6, a list item its kind and a depth within the limit, a table a grid within the limits with
  no cell twice; every box lies on its page, and a hint without a page has no box.\<close>

theorem skeleton_well_typed:
  assumes "build_docling_skeleton D items = Inr blocks"
  shows "map hb_order blocks = map int [0..<length blocks] \<and> list_all hint_ok blocks"
  by (rule skeleton_hints [OF assms])

definition sample_item :: "unit docling_item" where
  "sample_item = \<lparr>di_class = Section_Header_Item, di_prov = [(1, ())], di_orig = None, di_text = ''Scope'', di_level = 9, di_enumerated = False,
     di_num_rows = 0, di_num_cols = 0, di_cells = []\<rparr>"

definition sample_docling :: "unit docling" where
  "sample_docling = \<lparr>dl_size = (\<lambda>_. Some (10, 10)), dl_edges = (\<lambda>_ _. Some (1, 2, 3, 40))\<rparr>"

theorem skeleton_well_typed_witness:
  "\<exists>h. build_docling_skeleton sample_docling [(sample_item, 1)] = Inr [h] \<and> hint_ok h \<and> hb_heading_level h = Some 6"
proof -
  have "build_docling_skeleton sample_docling [(sample_item, 1)] = Inr [(plain_hint S_Heading 0
      (Some 1, Some \<lparr>sb_left = 1/10, sb_bottom = 2/10, sb_right = 3/10, sb_top = 1\<rparr>) ''Scope'')\<lparr>hb_heading_level := Some 6\<rparr>]"
    by (simp add: build_docling_skeleton_def add_hint_def item_hint_def item_location_def union_boxes_def normalize_docling_box_def
        clamp_unit_def SourceBox_def reject_if_def sample_item_def sample_docling_def Let_def item_text_hint_def)
  from skeleton_well_typed [OF this] this show ?thesis by simp
qed

end
