(* ===== verification/Reconciliation.thy ===== *)
theory Reconciliation
  imports Skeleton Sequence_Matcher
begin

text \<open>
  Reconciliation of the layout hints with the spans of the source (\<open>reconcile_structure\<close> of
  \<open>semantic/structure.py\<close>): each hint takes the best scoring native groups after the cursor, tables by their
  native cells or by geometry, and blocks that repeat at a page edge are set aside. Scores are exact rationals.
  The lemmas show that the spans of the document are partitioned into blocks, excluded and unresolved
  spans, and that the blocks come out in order.
\<close>

section \<open>Scores\<close>

definition OVERLAP_WEIGHT :: rat where "OVERLAP_WEIGHT = 55/100"
definition TEXT_SIMILARITY_WEIGHT :: rat where "TEXT_SIMILARITY_WEIGHT = 35/100"
definition ORDER_WEIGHT :: rat where "ORDER_WEIGHT = 10/100"
definition ACCEPTANCE_SCORE :: rat where "ACCEPTANCE_SCORE = 72/100"
definition PAGE_EDGE_BAND :: rat where "PAGE_EDGE_BAND = 10/100"
definition REPEAT_RATIO :: rat where "REPEAT_RATIO = 60/100"

definition comparison_projection :: "library \<Rightarrow> string \<Rightarrow> string" where
  "comparison_projection L s = filter (\<lambda>c. \<not> is_space c) (casefold (lib_nfc L s))"

definition box_overlap_score :: "source_box \<Rightarrow> source_box \<Rightarrow> rat" where
  "box_overlap_score a b =
     (let intersection_width = max 0 (min (sb_right a) (sb_right b) - max (sb_left a) (sb_left b));
          intersection_height = max 0 (min (sb_top a) (sb_top b) - max (sb_bottom a) (sb_bottom b));
          intersection = intersection_width * intersection_height;
          first_area = (sb_right a - sb_left a) * (sb_top a - sb_bottom a);
          second_area = (sb_right b - sb_left b) * (sb_top b - sb_bottom b);
          smaller_area = min first_area second_area
      in if smaller_area \<le> 0 then (if a = b then 1 else 0) else intersection / smaller_area)"

definition boxes_overlap :: "source_box \<Rightarrow> source_box \<Rightarrow> bool" where
  "boxes_overlap a b \<longleftrightarrow> box_overlap_score a b > 0"

text \<open>What a hint is compared with: a text, an order and a place.\<close>

record candidate =
  cd_text :: string
  cd_order :: int
  cd_page :: "int option"
  cd_bbox :: "source_box option"

definition score_candidate :: "library \<Rightarrow> candidate \<Rightarrow> candidate \<Rightarrow> rat option" where
  "score_candidate L c h =
     (if (case (cd_page c, cd_page h) of (Some p, Some q) \<Rightarrow> p \<noteq> q | _ \<Rightarrow> False) then None
      else
        let similarity = sequence_ratio (characters (comparison_projection L (cd_text c))) (characters (comparison_projection L (cd_text h)));
            scores = [(TEXT_SIMILARITY_WEIGHT, similarity), (ORDER_WEIGHT, 1 / (1 + of_int \<bar>cd_order c - cd_order h\<bar>))];
            overlap = (case (cd_bbox c, cd_bbox h) of (Some a, Some b) \<Rightarrow> Some (box_overlap_score a b) | _ \<Rightarrow> None)
        in if (case overlap of Some x \<Rightarrow> x \<le> 0 | None \<Rightarrow> False) then None
           else let scores = scores @ (case overlap of Some x \<Rightarrow> [(OVERLAP_WEIGHT, x)] | None \<Rightarrow> [])
                in Some (sum_list (map (\<lambda>(weight, score). weight * score) scores) / sum_list (map fst scores)))"

section \<open>Places of groups\<close>

type_synonym catalog = "(string, source_span) dict"

definition lookup_span :: "catalog \<Rightarrow> string \<Rightarrow> source_span result" where
  "lookup_span cat x = (case dict_get cat x of None \<Rightarrow> Inl (KeyError x) | Some s \<Rightarrow> Inr s)"

definition spans_text :: "catalog \<Rightarrow> string list \<Rightarrow> string result" where
  "spans_text cat ids = bind_ok (traverse (lookup_span cat) ids) (\<lambda>ss. Inr (concat (map ss_text ss)))"

definition groups_location :: "catalog \<Rightarrow> native_group list \<Rightarrow> (int option \<times> source_box option) option result" where
  "groups_location cat groups =
     bind_ok (traverse (\<lambda>g. bind_ok (traverse (lookup_span cat) (ng_span_ids g)) (\<lambda>ss. Inr (g, ss))) groups) (\<lambda>gs.
       let pages = remdups (somes (concat (map (\<lambda>(g, ss). ng_page g # map ss_page ss) gs)))
       in if length pages > 1 then Inr None
          else bind_ok (union_boxes (somes (concat (map (\<lambda>(g, ss). ng_bbox g # map ss_bbox ss) gs)))) (\<lambda>b.
            Inr (Some (case pages of [] \<Rightarrow> None | p # _ \<Rightarrow> Some p, b))))"

section \<open>Blocks and their spans\<close>

record assigned_block =
  ab_semantic :: semantic_block
  ab_span_ids :: "string list"
  ab_page :: "int option"
  ab_bbox :: "source_box option"
  ab_source_boxes :: "source_box list"

definition assigned_block_of ::
  "semantic_block \<Rightarrow> string list \<Rightarrow> int option \<Rightarrow> source_box option \<Rightarrow> catalog \<Rightarrow> source_box list \<Rightarrow> assigned_block result" where
  "assigned_block_of semantic ids page b cat additional_boxes =
     bind_ok (traverse (lookup_span cat) ids) (\<lambda>ss.
       Inr \<lparr>ab_semantic = semantic, ab_span_ids = ids, ab_page = page, ab_bbox = b,
            ab_source_boxes = somes [b] @ additional_boxes @ somes (map ss_bbox ss)\<rparr>)"

definition or_int :: "int option \<Rightarrow> int \<Rightarrow> int" where
  "or_int x d = (case x of None \<Rightarrow> d | Some v \<Rightarrow> if v = 0 then d else v)"

definition semantic_block_of :: "structure_block \<Rightarrow> int \<Rightarrow> string list \<Rightarrow> semantic_block result" where
  "semantic_block_of h n ids =
     (if hb_kind h = S_Heading
      then SemanticBlock (HeadingBlock n (max 1 (min 6 (or_int (hb_heading_level h) 1))) ids)
      else if hb_kind h = S_List_Item
      then SemanticBlock (ListItemBlock n (case hb_list_kind h of None \<Rightarrow> Unordered | Some k \<Rightarrow> k) (max 0 (or_int (hb_list_depth h) 0)) ids)
      else SemanticBlock (ParagraphBlock n ids))"

section \<open>Groups for a hint\<close>

definition ordinary_group_compatible :: "native_group \<Rightarrow> structure_block \<Rightarrow> bool" where
  "ordinary_group_compatible g h \<longleftrightarrow>
     (if ng_kind g \<in> {Table_Group, Alt_Text_Group, Text_Box_Group} then False
      else if ng_kind g = Caption_Group then hb_kind h = S_Paragraph
      else True)"

record group_match =
  gm_first_index :: nat
  gm_last_index :: nat
  gm_groups :: "native_group list"
  gm_span_ids :: "string list"
  gm_page :: "int option"
  gm_bbox :: "source_box option"
  gm_score :: rat

definition hint_candidate :: "structure_block \<Rightarrow> candidate" where
  "hint_candidate h = \<lparr>cd_text = hb_text_hint h, cd_order = hb_order h, cd_page = hb_page h, cd_bbox = hb_bbox h\<rparr>"

definition better_match :: "group_match option \<Rightarrow> group_match \<Rightarrow> group_match option" where
  "better_match best m =
     (case best of
        None \<Rightarrow> Some m
      | Some b \<Rightarrow> if (- gm_score m, gm_first_index m, gm_last_index m) < (- gm_score b, gm_first_index b, gm_last_index b)
                  then Some m else best)"

text \<open>The score of a group range decides whether it replaces the best one so far.\<close>

definition rate_match :: "library \<Rightarrow> structure_block \<Rightarrow> group_match option \<Rightarrow> candidate \<Rightarrow> group_match \<Rightarrow> group_match option" where
  "rate_match L h best c m =
     (case score_candidate L c (hint_candidate h) of
        None \<Rightarrow> best
      | Some score \<Rightarrow> if score < ACCEPTANCE_SCORE then best else better_match best (m\<lparr>gm_score := score\<rparr>))"

text \<open>The inner loop: from the group at \<open>start\<close>, one more group at a time, until a group cannot be taken.\<close>

fun extend_match_range ::
  "library \<Rightarrow> catalog \<Rightarrow> structure_block \<Rightarrow> bool \<Rightarrow> string set \<Rightarrow> nat \<Rightarrow> native_group list \<Rightarrow> native_group list
     \<Rightarrow> group_match option \<Rightarrow> group_match option result" where
  "extend_match_range L cat h allow_group_ranges allocated start taken [] best = Inr best"
| "extend_match_range L cat h allow_group_ranges allocated start taken (g # rest) best =
     (if taken \<noteq> [] \<and> \<not> allow_group_ranges then Inr best
      else if \<not> ordinary_group_compatible g h then Inr best
      else if set (ng_span_ids g) \<inter> allocated \<noteq> {} then Inr best
      else
        let groups = taken @ [g]; ids = concat (map ng_span_ids groups)
        in if \<not> distinct ids then Inr best
           else bind_ok (groups_location cat groups) (\<lambda>location.
             case location of
               None \<Rightarrow> Inr best
             | Some (page, b) \<Rightarrow>
                 bind_ok (spans_text cat ids) (\<lambda>text.
                   extend_match_range L cat h allow_group_ranges allocated start groups rest
                     (rate_match L h best \<lparr>cd_text = text, cd_order = ng_order (hd groups), cd_page = page, cd_bbox = b\<rparr>
                        \<lparr>gm_first_index = start, gm_last_index = start + length taken, gm_groups = groups,
                         gm_span_ids = ids, gm_page = page, gm_bbox = b, gm_score = 0\<rparr>))))"

definition match_groups ::
  "library \<Rightarrow> native_group list \<Rightarrow> catalog \<Rightarrow> structure_block \<Rightarrow> nat \<Rightarrow> string set \<Rightarrow> bool \<Rightarrow> group_match option result" where
  "match_groups L groups cat h cursor allocated allow_group_ranges =
     fold_ok (\<lambda>best start.
         if \<not> ordinary_group_compatible (groups ! start) h then Inr best
         else extend_match_range L cat h allow_group_ranges allocated start [] (drop start groups) best)
       None [cursor..<length groups]"

section \<open>A native table for a hint\<close>

definition better_table :: "(rat \<times> nat) option \<Rightarrow> rat \<Rightarrow> nat \<Rightarrow> (rat \<times> nat) option" where
  "better_table best score index =
     (case best of
        None \<Rightarrow> Some (score, index)
      | Some (s, i) \<Rightarrow> if (- score, index) < (- s, i) then Some (score, index) else best)"

definition rate_table :: "library \<Rightarrow> structure_block \<Rightarrow> (rat \<times> nat) option \<Rightarrow> candidate \<Rightarrow> nat \<Rightarrow> (rat \<times> nat) option" where
  "rate_table L h best c index =
     (case score_candidate L c (hint_candidate h) of
        None \<Rightarrow> best
      | Some score \<Rightarrow> if score < ACCEPTANCE_SCORE then best else better_table best score index)"

definition table_candidate ::
  "library \<Rightarrow> native_group list \<Rightarrow> catalog \<Rightarrow> structure_block \<Rightarrow> string set \<Rightarrow> (rat \<times> nat) option \<Rightarrow> nat \<Rightarrow> (rat \<times> nat) option result" where
  "table_candidate L groups cat h allocated best index =
     (let g = groups ! index
      in if ng_kind g \<noteq> Table_Group \<or> set (ng_span_ids g) \<inter> allocated \<noteq> {} then Inr best
         else bind_ok (groups_location cat [g]) (\<lambda>location.
           case location of
             None \<Rightarrow> Inr best
           | Some (page, b) \<Rightarrow>
               bind_ok (spans_text cat (ng_span_ids g)) (\<lambda>text.
                 Inr (rate_table L h best \<lparr>cd_text = text, cd_order = ng_order g, cd_page = page, cd_bbox = b\<rparr> index))))"

definition native_table_block :: "native_document \<Rightarrow> native_table \<Rightarrow> native_group \<Rightarrow> structure_block \<Rightarrow> semantic_block result" where
  "native_table_block native table g h =
     SemanticBlock (TableBlock (if nd_extraction_mode native = DOCX_XML then ng_order g else hb_order h)
       (nt_row_count table) (nt_column_count table) (map table_cell.truncate (nt_cells table)))"

definition use_native_table ::
  "native_document \<Rightarrow> native_group list \<Rightarrow> catalog \<Rightarrow> structure_block \<Rightarrow> nat \<Rightarrow> (assigned_block \<times> nat) option result" where
  "use_native_table native groups cat h index =
     (let g = groups ! index
      in case ng_table_index g of
           None \<Rightarrow> Inr None
         | Some i \<Rightarrow>
             if i \<ge> int (length (nd_tables native)) then Inr None
             else
               let table = nd_tables native ! nat i; ids = concat (map gc_span_ids (nt_cells table))
               in if nt_cells table = [] then Inr None
                  else if \<not> distinct ids \<or> set ids \<noteq> set (ng_span_ids g) then Inr None
                  else bind_ok (native_table_block native table g h) (\<lambda>semantic.
                       bind_ok (groups_location cat [g]) (\<lambda>location.
                         case location of
                           None \<Rightarrow> Inr None
                         | Some (page, b) \<Rightarrow>
                             bind_ok (assigned_block_of semantic ids page b cat (somes (map nc_bbox (nt_cells table)))) (\<lambda>a.
                               Inr (Some (a, Suc index))))))"

section \<open>A table of a PDF by geometry\<close>

text \<open>The numbers of the queries that meet an item; a query without an entry is a key error.\<close>

definition met :: "matches \<Rightarrow> (nat \<times> source_box) list \<Rightarrow> nat list result" where
  "met m queries =
     bind_ok (traverse (\<lambda>(i, b). case dict_get m i of None \<Rightarrow> Inl (KeyError []) | Some xs \<Rightarrow> Inr (i, xs \<noteq> [])) queries) (\<lambda>rs.
       Inr (map fst (filter snd rs)))"

definition boxed :: "(nat \<times> source_box option) list \<Rightarrow> (nat \<times> source_box) list" where
  "boxed xs = somes (map (\<lambda>(i, b). map_option (Pair i) b) xs)"

definition group_places :: "catalog \<Rightarrow> native_group list \<Rightarrow> nat \<Rightarrow> int \<Rightarrow> (nat \<times> source_box) list result" where
  "group_places cat groups cursor page =
     bind_ok (traverse (\<lambda>i. bind_ok (groups_location cat [groups ! i]) (\<lambda>location.
         Inr (i, case location of Some (Some p, b) \<Rightarrow> (if p = page then b else None) | _ \<Rightarrow> None))) [cursor..<length groups])
       (\<lambda>xs. Inr (boxed xs))"

definition map_span ::
  "matches \<Rightarrow> string list list option \<Rightarrow> nat \<times> source_span \<Rightarrow> string list list option result" where
  "map_span cell_matches mapped p =
     (case mapped of
        None \<Rightarrow> Inr None
      | Some m \<Rightarrow>
          (case dict_get cell_matches (fst p) of
             None \<Rightarrow> Inl (KeyError [])
           | Some destinations \<Rightarrow>
               if length destinations \<noteq> 1 then Inr None
               else bind_ok (at_index m (hd destinations)) (\<lambda>ids.
                 Inr (Some (m[hd destinations := ids @ [ss_span_id (snd p)]])))))"

definition pdf_cell_block :: "structure_cell \<Rightarrow> string list \<Rightarrow> table_cell" where
  "pdf_cell_block c ids =
     \<lparr>gc_start_row = hc_start_row c, gc_end_row = hc_end_row c, gc_start_column = hc_start_column c, gc_end_column = hc_end_column c,
      gc_span_ids = ids, gc_column_header = hc_column_header c\<rparr>"

text \<open>The spans of the page that lie in the table: all must lie there by their own box.\<close>

definition pdf_table_spans ::
  "native_document \<Rightarrow> native_group list \<Rightarrow> catalog \<Rightarrow> int \<Rightarrow> source_box list \<Rightarrow> nat \<Rightarrow> string set
     \<Rightarrow> (nat list \<times> source_span list) option result" where
  "pdf_table_spans native groups cat page geometry cursor allocated =
     (let items = enumerate 0 geometry
      in bind_ok (group_places cat groups cursor page) (\<lambda>places.
         bind_ok (bounded_rectangle_matches items places 1) (\<lambda>gm.
         bind_ok (met gm places) (\<lambda>indices.
           let queries = boxed (map (\<lambda>(i, s). (i, if ss_span_id s \<notin> allocated \<and> ss_page s = Some page then ss_bbox s else None))
                           (enumerate 0 (nd_spans native)))
           in bind_ok (bounded_rectangle_matches items queries 1) (\<lambda>sm.
              bind_ok (met sm queries) (\<lambda>span_indices.
                let by_group = concat (map (\<lambda>i. ng_span_ids (groups ! i)) indices);
                    by_geometry = map (\<lambda>i. ss_span_id (nd_spans native ! i)) span_indices;
                    spans = filter (\<lambda>s. ss_span_id s \<in> set by_group \<union> set by_geometry \<and> ss_span_id s \<notin> allocated)
                              (sort_key ss_ordinal (nd_spans native))
                in if spans = [] then Inr None
                   else if \<exists>s\<in>set spans. ss_page s \<noteq> Some page \<or> ss_bbox s = None \<or> ss_span_id s \<notin> set by_geometry then Inr None
                   else Inr (Some (indices, spans))))))))"

definition pdf_table_cells :: "structure_table \<Rightarrow> source_span list \<Rightarrow> string list list option result" where
  "pdf_table_cells table spans =
     bind_ok (bounded_rectangle_matches (boxed (enumerate 0 (map hc_bbox (ht_cells table)))) (boxed (enumerate 0 (map ss_bbox spans))) 2)
       (\<lambda>cell_matches. fold_ok (map_span cell_matches) (Some (replicate (length (ht_cells table)) [])) (enumerate 0 spans))"

definition accept_pdf_table ::
  "library \<Rightarrow> native_group list \<Rightarrow> catalog \<Rightarrow> structure_block \<Rightarrow> structure_table \<Rightarrow> nat \<Rightarrow> int \<Rightarrow> source_box
     \<Rightarrow> nat list \<Rightarrow> source_span list \<Rightarrow> string list list \<Rightarrow> (assigned_block \<times> nat) option result" where
  "accept_pdf_table L groups cat h table cursor page b indices spans cells =
     (let ids = map ss_span_id spans;
          orders = map ng_order (filter (\<lambda>g. set (ng_span_ids g) \<inter> set ids \<noteq> {}) (drop cursor groups));
          first_order = (if orders = [] then hb_order h else Min (set orders))
      in case score_candidate L \<lparr>cd_text = concat (map ss_text spans), cd_order = first_order, cd_page = Some page, cd_bbox = Some b\<rparr>
                ((hint_candidate h)\<lparr>cd_bbox := Some b\<rparr>) of
           None \<Rightarrow> Inr None
         | Some score \<Rightarrow>
             if score < ACCEPTANCE_SCORE then Inr None
             else bind_ok (SemanticBlock (TableBlock (hb_order h) (ht_row_count table) (ht_column_count table)
                             (map (\<lambda>(c, ids). pdf_cell_block c ids) (zip (ht_cells table) cells)))) (\<lambda>semantic.
                  bind_ok (assigned_block_of semantic ids (Some page) (Some b) cat (somes (map hc_bbox (ht_cells table)))) (\<lambda>a.
                    Inr (Some (a, if indices = [] then cursor else Suc (Max (set indices)))))))"

definition match_pdf_table ::
  "library \<Rightarrow> native_document \<Rightarrow> native_group list \<Rightarrow> catalog \<Rightarrow> structure_block \<Rightarrow> structure_table \<Rightarrow> nat \<Rightarrow> string set
     \<Rightarrow> (assigned_block \<times> nat) option result" where
  "match_pdf_table L native groups cat h table cursor allocated =
     (let cell_boxes = somes (map hc_bbox (ht_cells table))
      in bind_ok (case hb_bbox h of Some b \<Rightarrow> Inr (Some b) | None \<Rightarrow> union_boxes cell_boxes) (\<lambda>table_bbox.
         case (table_bbox, hb_page h) of
           (Some b, Some page) \<Rightarrow>
             bind_ok (pdf_table_spans native groups cat page (b # cell_boxes) cursor allocated) (\<lambda>found.
               case found of
                 None \<Rightarrow> Inr None
               | Some (indices, spans) \<Rightarrow>
                   bind_ok (pdf_table_cells table spans) (\<lambda>mapped.
                     case mapped of
                       None \<Rightarrow> Inr None
                     | Some cells \<Rightarrow> accept_pdf_table L groups cat h table cursor page b indices spans cells))
         | _ \<Rightarrow> Inr None))"

definition match_table ::
  "library \<Rightarrow> native_document \<Rightarrow> native_group list \<Rightarrow> catalog \<Rightarrow> structure_block \<Rightarrow> nat \<Rightarrow> string set
     \<Rightarrow> (assigned_block \<times> nat) option result" where
  "match_table L native groups cat h cursor allocated =
     (case hb_table h of
        None \<Rightarrow> Inr None
      | Some table \<Rightarrow>
          if nd_extraction_mode native = PDF_EMBEDDED then match_pdf_table L native groups cat h table cursor allocated
          else bind_ok (fold_ok (table_candidate L groups cat h allocated) None [cursor..<length groups]) (\<lambda>best.
            case best of
              None \<Rightarrow> Inr None
            | Some (score, index) \<Rightarrow> use_native_table native groups cat h index))"

section \<open>Repeated page edges\<close>

text \<open>The pattern \<open>\\s*\\d+\\s*(?:/\\s*\\d+\\s*)?\<close>.\<close>

definition after_number :: "string \<Rightarrow> string option" where
  "after_number s =
     (let t = dropWhile is_space s
      in if takeWhile is_digit t = [] then None else Some (dropWhile is_space (dropWhile is_digit t)))"

definition is_page_number :: "string \<Rightarrow> bool" where
  "is_page_number s =
     (case after_number s of
        None \<Rightarrow> False
      | Some [] \<Rightarrow> True
      | Some (c # rest) \<Rightarrow> c = CHR ''/'' \<and> after_number rest = Some [])"

datatype page_edge = Top_Edge | Bottom_Edge

definition edge_of :: "source_box \<Rightarrow> page_edge option" where
  "edge_of b = (if sb_bottom b \<ge> 1 - PAGE_EDGE_BAND then Some Top_Edge else if sb_top b \<le> PAGE_EDGE_BAND then Some Bottom_Edge else None)"

text \<open>The edge and the signature under which a block is compared with the blocks of other pages.\<close>

definition edge_signature :: "library \<Rightarrow> catalog \<Rightarrow> assigned_block \<Rightarrow> (page_edge \<times> string) option result" where
  "edge_signature L cat a =
     (case (ab_page a, ab_bbox a) of
        (Some _, Some b) \<Rightarrow>
          (case edge_of b of
             None \<Rightarrow> Inr None
           | Some edge \<Rightarrow>
               bind_ok (spans_text cat (ab_span_ids a)) (\<lambda>text.
                 let signature = (if is_page_number text then ''<PAGE_NUMBER>'' else comparison_projection L text)
                 in Inr (if signature = [] then None else Some (edge, signature))))
      | _ \<Rightarrow> Inr None)"

type_synonym edge_candidates = "(page_edge \<times> string, (nat \<times> assigned_block) list) dict"

definition add_candidate :: "library \<Rightarrow> catalog \<Rightarrow> edge_candidates \<Rightarrow> nat \<times> assigned_block \<Rightarrow> edge_candidates result" where
  "add_candidate L cat d p =
     bind_ok (edge_signature L cat (snd p)) (\<lambda>k.
       Inr (case k of None \<Rightarrow> d
            | Some key \<Rightarrow> dict_set key ((case dict_get d key of None \<Rightarrow> [] | Some ps \<Rightarrow> ps) @ [p]) d))"

definition overlaps_other_assignment :: "nat \<Rightarrow> assigned_block \<Rightarrow> assigned_block list \<Rightarrow> bool result" where
  "overlaps_other_assignment own_index a assignments =
     (case ab_bbox a of
        None \<Rightarrow> Inl (AssertionError [])
      | Some b \<Rightarrow> Inr (\<exists>(i, other)\<in>set (enumerate 0 assignments). i \<noteq> own_index \<and> ab_page other = ab_page a
                      \<and> list_ex (boxes_overlap b) (ab_source_boxes other)))"

record exclusions =
  xs_removed :: "nat set"
  xs_excluded :: "(string, excluded_span) dict"

definition exclusion_kind_of :: "page_edge \<times> string \<Rightarrow> exclusion_kind" where
  "exclusion_kind_of key =
     (if snd key = ''<PAGE_NUMBER>'' then Page_Number else if fst key = Top_Edge then Page_Header else Page_Footer)"

definition exclude_block :: "assigned_block list \<Rightarrow> page_edge \<times> string \<Rightarrow> exclusions \<Rightarrow> nat \<times> assigned_block \<Rightarrow> exclusions result" where
  "exclude_block assignments key x p =
     bind_ok (overlaps_other_assignment (fst p) (snd p) assignments) (\<lambda>overlaps.
       Inr (if overlaps then x
            else \<lparr>xs_removed = insert (fst p) (xs_removed x),
                  xs_excluded = fold (\<lambda>i d. dict_set i \<lparr>ex_span_id = i, ex_kind = exclusion_kind_of key\<rparr> d) (ab_span_ids (snd p)) (xs_excluded x)\<rparr>))"

definition repeat_threshold :: "int \<Rightarrow> int" where
  "repeat_threshold pages = max 2 \<lceil>of_int pages * REPEAT_RATIO\<rceil>"

definition exclude_candidates ::
  "int \<Rightarrow> assigned_block list \<Rightarrow> exclusions \<Rightarrow> (page_edge \<times> string) \<times> (nat \<times> assigned_block) list \<Rightarrow> exclusions result" where
  "exclude_candidates threshold assignments x c =
     (if int (length (remdups (map (ab_page \<circ> snd) (snd c)))) < threshold then Inr x
      else fold_ok (exclude_block assignments (fst c)) x (snd c))"

definition exclude_repeated_edges ::
  "library \<Rightarrow> native_document \<Rightarrow> assigned_block list \<Rightarrow> catalog \<Rightarrow> (assigned_block list \<times> excluded_span list) result" where
  "exclude_repeated_edges L native assignments cat =
     (if nd_page_count native < 2 then Inr (assignments, [])
      else bind_ok (fold_ok (add_candidate L cat) [] (enumerate 0 assignments)) (\<lambda>candidates.
           bind_ok (fold_ok (exclude_candidates (repeat_threshold (nd_page_count native)) assignments)
                      \<lparr>xs_removed = {}, xs_excluded = []\<rparr> candidates) (\<lambda>x.
             Inr (map snd (filter (\<lambda>(i, a). i \<notin> xs_removed x) (enumerate 0 assignments)),
                  somes (map (\<lambda>s. dict_get (xs_excluded x) (ss_span_id s)) (sort_key ss_ordinal (nd_spans native)))))))"

section \<open>The reconciliation\<close>

record reconciliation_result =
  rr_blocks :: "semantic_block list"
  rr_unresolved_span_ids :: "string list"
  rr_excluded_spans :: "excluded_span list"

record reconciliation =
  rs_cursor :: nat
  rs_allocated :: "string set"
  rs_assignments :: "assigned_block list"

text \<open>The block for one hint and the next cursor.\<close>

definition match_hint ::
  "library \<Rightarrow> native_document \<Rightarrow> native_group list \<Rightarrow> catalog \<Rightarrow> reconciliation \<Rightarrow> structure_block \<Rightarrow> (assigned_block \<times> nat) option result" where
  "match_hint L native groups cat s h =
     (if hb_kind h = S_Table then match_table L native groups cat h (rs_cursor s) (rs_allocated s)
      else bind_ok (match_groups L groups cat h (rs_cursor s) (rs_allocated s) (nd_extraction_mode native = PDF_EMBEDDED)) (\<lambda>m.
        case m of
          None \<Rightarrow> Inr None
        | Some m \<Rightarrow>
            bind_ok (semantic_block_of h (if nd_extraction_mode native = DOCX_XML then ng_order (hd (gm_groups m)) else hb_order h) (gm_span_ids m)) (\<lambda>semantic.
            bind_ok (assigned_block_of semantic (gm_span_ids m) (gm_page m) (gm_bbox m) cat []) (\<lambda>a.
              Inr (Some (a, Suc (gm_last_index m)))))))"

definition reconcile_hint ::
  "library \<Rightarrow> native_document \<Rightarrow> native_group list \<Rightarrow> catalog \<Rightarrow> reconciliation \<Rightarrow> structure_block \<Rightarrow> reconciliation result" where
  "reconcile_hint L native groups cat s h =
     bind_ok (match_hint L native groups cat s h) (\<lambda>r.
       Inr (case r of
              None \<Rightarrow> s
            | Some (a, cursor) \<Rightarrow>
                if set (ab_span_ids a) \<inter> rs_allocated s \<noteq> {} then s\<lparr>rs_cursor := cursor\<rparr>
                else \<lparr>rs_cursor = cursor, rs_allocated = rs_allocated s \<union> set (ab_span_ids a), rs_assignments = rs_assignments s @ [a]\<rparr>))"

definition reconcile_structure :: "library \<Rightarrow> native_document \<Rightarrow> structure_block list \<Rightarrow> reconciliation_result result" where
  "reconcile_structure L native skeleton =
     (let cat = span_catalog native; groups = sort_key ng_order (nd_groups native)
      in bind_ok (fold_ok (reconcile_hint L native groups cat) \<lparr>rs_cursor = 0, rs_allocated = {}, rs_assignments = []\<rparr> (sort_key hb_order skeleton)) (\<lambda>s.
         bind_ok (exclude_repeated_edges L native (rs_assignments s) cat) (\<lambda>(assignments, excluded).
           Inr \<lparr>rr_blocks = map ab_semantic (sort_key (block_order \<circ> ab_semantic) assignments),
                rr_unresolved_span_ids = filter (\<lambda>i. i \<notin> rs_allocated s \<and> i \<notin> ex_span_id ` set excluded) (map ss_span_id (sort_key ss_ordinal (nd_spans native))),
                rr_excluded_spans = excluded\<rparr>)))"

section \<open>What a matched block holds\<close>

lemma lookups_known: "traverse (lookup_span cat) ids = Inr ss \<Longrightarrow> set ids \<subseteq> dom (dict_get cat)"
  by (induction ids arbitrary: ss) (auto simp: lookup_span_def split: sum.splits option.splits)

lemma SemanticBlock_id: "SemanticBlock b = Inr c \<Longrightarrow> c = b"
  by (cases b) (auto split: if_splits)

definition assigned_ok :: "catalog \<Rightarrow> assigned_block \<Rightarrow> bool" where
  "assigned_ok cat a \<longleftrightarrow> distinct (ab_span_ids a) \<and> set (ab_span_ids a) \<subseteq> dom (dict_get cat)
     \<and> mset (block_span_ids (ab_semantic a)) = mset (ab_span_ids a)"

lemma assigned_blockD:
  "assigned_block_of semantic ids page b cat extra = Inr a \<Longrightarrow>
     ab_semantic a = semantic \<and> ab_span_ids a = ids \<and> set ids \<subseteq> dom (dict_get cat)"
  by (auto simp: assigned_block_of_def dest: lookups_known)

text \<open>A range of groups from the cursor on, with no span twice.\<close>

definition match_ok :: "native_group list \<Rightarrow> nat \<Rightarrow> group_match \<Rightarrow> bool" where
  "match_ok groups cursor m \<longleftrightarrow> cursor \<le> gm_first_index m \<and> gm_first_index m \<le> gm_last_index m \<and> gm_last_index m < length groups
     \<and> gm_groups m \<noteq> [] \<and> hd (gm_groups m) = groups ! gm_first_index m
     \<and> gm_span_ids m = concat (map ng_span_ids (gm_groups m)) \<and> distinct (gm_span_ids m) \<and> ACCEPTANCE_SCORE \<le> gm_score m"

lemma rate_match_cases:
  "rate_match L h best c m = best \<or> (\<exists>score. ACCEPTANCE_SCORE \<le> score \<and> rate_match L h best c m = Some (m\<lparr>gm_score := score\<rparr>))"
proof (cases "score_candidate L c (hint_candidate h)")
  case (Some x)
  have "better_match best n = best \<or> better_match best n = Some n" for n by (auto simp: better_match_def split: option.splits)
  with Some show ?thesis by (cases "x < ACCEPTANCE_SCORE") (auto simp: rate_match_def not_less)
qed (simp add: rate_match_def)

lemma rate_table_cases: "rate_table L h best c i = best \<or> (\<exists>s. rate_table L h best c i = Some (s, i))"
  by (auto simp: rate_table_def better_table_def split: option.splits)

lemma found_case [simp]: "(case x of None \<Rightarrow> Inr None | Some y \<Rightarrow> f y) = Inr (Some z) \<longleftrightarrow> (\<exists>y. x = Some y \<and> f y = Inr (Some z))"
  by (cases x) auto

lemma changed_case: "r \<noteq> best \<Longrightarrow> (case x of None \<Rightarrow> Inr best | Some y \<Rightarrow> f y) = Inr r \<longleftrightarrow> (\<exists>y. x = Some y \<and> f y = Inr r)"
  by (cases x) auto

lemma extended_match_ok:
  assumes "extend_match_range L cat h allow allocated start taken rest best = Inr r"
    and "opt_ok (match_ok groups cursor) best" and "cursor \<le> start" and "taken @ rest = drop start groups"
  shows "opt_ok (match_ok groups cursor) r"
  using assms
proof (induction rest arbitrary: taken best)
  case (Cons g rest)
  let ?groups = "taken @ [g]" and ?ids = "concat (map ng_span_ids (taken @ [g]))"
  show ?case
  proof (cases "r = best")
    case False
    from Cons.prems(1) False obtain c page b where
      d: "distinct ?ids"
      and run: "extend_match_range L cat h allow allocated start ?groups rest
          (rate_match L h best c \<lparr>gm_first_index = start, gm_last_index = start + length taken, gm_groups = ?groups,
                  gm_span_ids = ?ids, gm_page = page, gm_bbox = b, gm_score = 0\<rparr>) = Inr r"
      unfolding extend_match_range.simps Let_def by (auto simp: changed_case split: if_splits)
    let ?m = "\<lparr>gm_first_index = start, gm_last_index = start + length taken, gm_groups = ?groups,
                  gm_span_ids = ?ids, gm_page = page, gm_bbox = b, gm_score = 0\<rparr>"
    have eq: "taken @ g # rest = drop start groups" by (rule Cons.prems(4))
    have len: "length taken + Suc (length rest) = length groups - start" using arg_cong [OF eq, of length] by simp
    have "hd (drop start groups) = groups ! start" using len by (intro hd_drop_conv_nth) simp
    then have "hd ?groups = groups ! start" by (cases taken) (simp_all flip: eq)
    then have "match_ok groups cursor (?m\<lparr>gm_score := score\<rparr>)" if "ACCEPTANCE_SCORE \<le> score" for score
      using Cons.prems(3) d that len unfolding match_ok_def by simp
    then have "opt_ok (match_ok groups cursor) (rate_match L h best c ?m)"
      using Cons.prems(2) rate_match_cases [of L h best c ?m] by auto
    from Cons.IH [OF run this Cons.prems(3)] eq show ?thesis by simp
  qed (use Cons.prems in simp)
qed simp

lemma match_groups_ok:
  assumes "match_groups L groups cat h cursor allocated allow = Inr r"
  shows "opt_ok (match_ok groups cursor) r"
  using assms unfolding match_groups_def
proof (rule fold_ok_invariant)
  fix best start r
  assume "start \<in> set [cursor..<length groups]" "opt_ok (match_ok groups cursor) best"
    "(if \<not> ordinary_group_compatible (groups ! start) h then Inr best
      else extend_match_range L cat h allow allocated start [] (drop start groups) best) = Inr r"
  then show "opt_ok (match_ok groups cursor) r"
    by (auto split: if_splits intro: extended_match_ok)
qed simp

lemma table_candidate_from:
  assumes "fold_ok (table_candidate L groups cat h allocated) None [cursor..<length groups] = Inr best"
  shows "opt_ok (\<lambda>(s, i). cursor \<le> i \<and> i < length groups) best"
  using assms
proof (rule fold_ok_invariant)
  fix best i best'
  assume i: "i \<in> set [cursor..<length groups]" and b: "opt_ok (\<lambda>(s, i). cursor \<le> i \<and> i < length groups) best"
    and step: "table_candidate L groups cat h allocated best i = Inr best'"
  from step have "best' = best \<or> (\<exists>s. best' = Some (s, i))"
    using rate_table_cases [of L h best _ i]
    by (cases "best' = best") (auto simp: table_candidate_def Let_def changed_case split: if_splits)
  with i b show "opt_ok (\<lambda>(s, i). cursor \<le> i \<and> i < length groups) best'" by auto
qed simp

lemma truncate_span_ids: "map (gc_span_ids \<circ> table_cell.truncate) cells = map gc_span_ids cells"
  by (simp add: table_cell.truncate_def)

text \<open>The order of a block: that of a group from the cursor on in a Word document, that of the hint otherwise. The new cursor is behind the group.\<close>

definition ordered_ok :: "native_document \<Rightarrow> native_group list \<Rightarrow> nat \<Rightarrow> structure_block \<Rightarrow> assigned_block \<Rightarrow> nat \<Rightarrow> bool" where
  "ordered_ok native groups cursor h a next_cursor \<longleftrightarrow>
     (if nd_extraction_mode native = DOCX_XML
      then \<exists>i. cursor \<le> i \<and> i < next_cursor \<and> i < length groups \<and> block_order (ab_semantic a) = ng_order (groups ! i)
      else block_order (ab_semantic a) = hb_order h)"

lemma native_table_ok:
  assumes "use_native_table native groups cat h i = Inr (Some (a, c))" and "cursor \<le> i" and "i < length groups"
  shows "assigned_ok cat a \<and> ordered_ok native groups cursor h a c"
proof -
  from assms(1) obtain k table ids page b semantic where k: "table = nd_tables native ! k" "ids = concat (map gc_span_ids (nt_cells table))"
    "distinct ids" "native_table_block native table (groups ! i) h = Inr semantic"
    "assigned_block_of semantic ids page b cat (somes (map nc_bbox (nt_cells table))) = Inr a" "c = Suc i"
    by (auto simp: use_native_table_def Let_def split: option.splits if_splits)
  from k(4) have semantic: "semantic = TableBlock (if nd_extraction_mode native = DOCX_XML then ng_order (groups ! i) else hb_order h)
       (nt_row_count table) (nt_column_count table) (map table_cell.truncate (nt_cells table))"
    unfolding native_table_block_def by (rule SemanticBlock_id)
  with assigned_blockD [OF k(5)] k(2,3,6) assms(2,3) show ?thesis
    by (auto simp: assigned_ok_def ordered_ok_def truncate_span_ids)
qed

lemma map_spans_ok:
  assumes "fold_ok (map_span cm) mapped ps = Inr (Some m)"
  shows "\<exists>m0. mapped = Some m0 \<and> length m = length m0 \<and> mset (concat m) = mset (concat m0) + mset (map (ss_span_id \<circ> snd) ps)"
  using assms
proof (induction ps arbitrary: mapped)
  case (Cons p ps)
  from Cons.prems obtain u where u: "map_span cm mapped p = Inr u" "fold_ok (map_span cm) u ps = Inr (Some m)"
    by (auto split: sum.splits)
  from Cons.IH [OF u(2)] obtain m1 where m1: "u = Some m1" "length m = length m1"
    "mset (concat m) = mset (concat m1) + mset (map (ss_span_id \<circ> snd) ps)" by blast
  from u(1) m1(1) obtain m0 d where m0: "mapped = Some m0" "d < length m0" "m1 = m0[d := m0 ! d @ [ss_span_id (snd p)]]"
    by (auto simp: map_span_def split: option.splits if_splits)
  have "mset (concat (xs[d := xs ! d @ [x]])) = mset (concat xs) + {#x#}" if "d < length xs" for xs and x :: string
    using that by (induction xs arbitrary: d) (auto simp: nth_Cons split: nat.splits)
  from this [OF m0(2)] m0 m1 show ?case by (simp add: comp_def)
qed auto

lemma pdf_cells_ok:
  assumes "pdf_table_cells table spans = Inr (Some cells)"
  shows "length cells = length (ht_cells table) \<and> mset (concat cells) = mset (map ss_span_id spans)"
proof -
  from assms obtain cm where "fold_ok (map_span cm) (Some (replicate (length (ht_cells table)) [])) (enumerate 0 spans) = Inr (Some cells)"
    by (auto simp: pdf_table_cells_def)
  from map_spans_ok [OF this] show ?thesis
    by (simp add: concat_replicate_trivial flip: map_map)
qed

lemma pdf_cell_block_ids: "length cells = length hints \<Longrightarrow> map (gc_span_ids \<circ> (\<lambda>(c, ids). pdf_cell_block c ids)) (zip hints cells) = cells"
  by (induction hints cells rule: list_induct2') (simp_all add: pdf_cell_block_def)

lemma pdf_table_ok:
  assumes "match_pdf_table L native groups cat h table cursor allocated = Inr (Some (a, c))" and "distinct (map ss_span_id (nd_spans native))"
  shows "assigned_ok cat a \<and> block_order (ab_semantic a) = hb_order h"
proof -
  let ?cell_boxes = "somes (map hc_bbox (ht_cells table))"
  from assms(1) obtain b page indices spans cells where
    f: "pdf_table_spans native groups cat page (b # ?cell_boxes) cursor allocated = Inr (Some (indices, spans))"
    and cells: "pdf_table_cells table spans = Inr (Some cells)"
    and accept: "accept_pdf_table L groups cat h table cursor page b indices spans cells = Inr (Some (a, c))"
    by (auto simp: match_pdf_table_def Let_def)
  from accept obtain semantic where
    block: "SemanticBlock (TableBlock (hb_order h) (ht_row_count table) (ht_column_count table)
        (map (\<lambda>(c, ids). pdf_cell_block c ids) (zip (ht_cells table) cells))) = Inr semantic"
    and a: "assigned_block_of semantic (map ss_span_id spans) (Some page) (Some b) cat ?cell_boxes = Inr a"
    unfolding accept_pdf_table_def Let_def by (auto simp del: SemanticBlock.simps split: if_splits)
  from f obtain P where "spans = filter P (sort_key ss_ordinal (nd_spans native))"
    by (auto simp: pdf_table_spans_def Let_def split: if_splits)
  moreover have "distinct (map ss_span_id (sort_key ss_ordinal (nd_spans native)))"
    using assms(2) by (simp add: distinct_map)
  ultimately have "distinct (map ss_span_id spans)" by (simp add: distinct_map_filter)
  with assigned_blockD [OF a] SemanticBlock_id [OF block] pdf_cells_ok [OF cells] show ?thesis
    by (simp add: assigned_ok_def pdf_cell_block_ids)
qed

lemma match_hint_ok:
  assumes "match_hint L native groups cat s h = Inr (Some (a, c))" and "distinct (map ss_span_id (nd_spans native))"
  shows "assigned_ok cat a \<and> ordered_ok native groups (rs_cursor s) h a c"
proof (cases "hb_kind h = S_Table")
  case True
  with assms(1) obtain table where t: "match_table L native groups cat h (rs_cursor s) (rs_allocated s) = Inr (Some (a, c))" "hb_table h = Some table"
    by (auto simp: match_hint_def match_table_def split: option.splits)
  show ?thesis
  proof (cases "nd_extraction_mode native = PDF_EMBEDDED")
    case True
    with t pdf_table_ok [OF _ assms(2)] show ?thesis by (simp add: match_table_def ordered_ok_def)
  next
    case False
    with t obtain sc i where "fold_ok (table_candidate L groups cat h (rs_allocated s)) None [rs_cursor s..<length groups] = Inr (Some (sc, i))"
      "use_native_table native groups cat h i = Inr (Some (a, c))"
      by (auto simp: match_table_def split: option.splits)
    with native_table_ok table_candidate_from show ?thesis by fastforce
  qed
next
  case False
  with assms(1) obtain m semantic where m: "match_groups L groups cat h (rs_cursor s) (rs_allocated s) (nd_extraction_mode native = PDF_EMBEDDED) = Inr (Some m)"
    "semantic_block_of h (if nd_extraction_mode native = DOCX_XML then ng_order (hd (gm_groups m)) else hb_order h) (gm_span_ids m) = Inr semantic"
    "assigned_block_of semantic (gm_span_ids m) (gm_page m) (gm_bbox m) cat [] = Inr a" "c = Suc (gm_last_index m)"
    by (auto simp: match_hint_def split: option.splits)
  from match_groups_ok [OF m(1)] have ok: "match_ok groups (rs_cursor s) m" by simp
  have "block_span_ids semantic = gm_span_ids m \<and> block_order semantic = (if nd_extraction_mode native = DOCX_XML then ng_order (hd (gm_groups m)) else hb_order h)"
    using m(2) by (auto simp: semantic_block_of_def dest!: SemanticBlock_id split: if_splits)
  with assigned_blockD [OF m(3)] ok m(4) show ?thesis
    by (auto simp: assigned_ok_def ordered_ok_def match_ok_def)
qed

section \<open>The loop over the hints\<close>

definition held_spans :: "assigned_block list \<Rightarrow> string list" where
  "held_spans as = concat (map ab_span_ids as)"

definition orders :: "assigned_block list \<Rightarrow> int list" where
  "orders as = map (block_order \<circ> ab_semantic) as"

definition allocation_inv :: "catalog \<Rightarrow> reconciliation \<Rightarrow> bool" where
  "allocation_inv cat s \<longleftrightarrow> list_all (assigned_ok cat) (rs_assignments s) \<and> distinct (held_spans (rs_assignments s))
     \<and> rs_allocated s = set (held_spans (rs_assignments s))"

text \<open>Every order given so far is below those that can still be given.\<close>

definition order_inv :: "native_document \<Rightarrow> native_group list \<Rightarrow> structure_block list \<Rightarrow> reconciliation \<Rightarrow> bool" where
  "order_inv native groups hints s \<longleftrightarrow> sorted_wrt (<) (orders (rs_assignments s))
     \<and> (\<forall>n\<in>set (orders (rs_assignments s)).
          if nd_extraction_mode native = DOCX_XML then \<forall>i. rs_cursor s \<le> i \<and> i < length groups \<longrightarrow> n < ng_order (groups ! i)
          else \<forall>h\<in>set hints. n < hb_order h)"

lemma reconcile_hint_cases:
  assumes "reconcile_hint L native groups cat s h = Inr t"
  obtains (unmatched) "match_hint L native groups cat s h = Inr None" "t = s"
  | (matched) a c where "match_hint L native groups cat s h = Inr (Some (a, c))"
      "t = s\<lparr>rs_cursor := c\<rparr> \<or> set (ab_span_ids a) \<inter> rs_allocated s = {}
         \<and> t = \<lparr>rs_cursor = c, rs_allocated = rs_allocated s \<union> set (ab_span_ids a), rs_assignments = rs_assignments s @ [a]\<rparr>"
proof (cases "match_hint L native groups cat s h")
  case (Inr r)
  show thesis
  proof (cases r)
    case (Some p)
    obtain a c where "p = (a, c)" by (cases p)
    with Some Inr assms show thesis by (intro matched [of a c]) (auto simp: reconcile_hint_def split: if_splits)
  next
    case None
    with Inr assms show thesis by (intro unmatched) (simp_all add: reconcile_hint_def)
  qed
qed (use assms in \<open>simp add: reconcile_hint_def\<close>)

lemma allocation_inv_step:
  assumes "reconcile_hint L native groups cat s h = Inr t" and "distinct (map ss_span_id (nd_spans native))" and "allocation_inv cat s"
  shows "allocation_inv cat t"
  using assms(1)
proof (cases rule: reconcile_hint_cases)
  case (matched a c)
  from match_hint_ok [OF matched(1) assms(2)] have "assigned_ok cat a" by blast
  with matched(2) assms(3) show ?thesis by (auto simp: allocation_inv_def held_spans_def assigned_ok_def disjoint_iff)
qed (use assms(3) in simp)

lemma order_inv_step:
  assumes "reconcile_hint L native groups cat s h = Inr t" and "distinct (map ss_span_id (nd_spans native))"
    and "sorted_wrt (<) (map ng_order groups)" and "\<And>x. x \<in> set hints \<Longrightarrow> hb_order h < hb_order x"
    and "order_inv native groups (h # hints) s"
  shows "order_inv native groups hints t"
  using assms(1)
proof (cases rule: reconcile_hint_cases)
  case unmatched
  with assms(5) show ?thesis by (auto simp: order_inv_def)
next
  case (matched a c)
  from match_hint_ok [OF matched(1) assms(2)] have ok: "ordered_ok native groups (rs_cursor s) h a c" by blast
  let ?new = "block_order (ab_semantic a)"
  have up: "ng_order (groups ! i) < ng_order (groups ! j)" if "i < j" "j < length groups" for i j
    using assms(3) that by (simp add: sorted_wrt_iff_nth_less)
  have docx: "rs_cursor s < c \<and> (\<forall>i. c \<le> i \<and> i < length groups \<longrightarrow> ?new < ng_order (groups ! i))
      \<and> (\<forall>n\<in>set (orders (rs_assignments s)). n < ?new)" if "nd_extraction_mode native = DOCX_XML"
    using ok assms(5) that up by (fastforce simp: ordered_ok_def order_inv_def)
  have other: "?new = hb_order h" if "nd_extraction_mode native \<noteq> DOCX_XML" using ok that by (simp add: ordered_ok_def)
  have below: "n < ?new" if "n \<in> set (orders (rs_assignments s))" for n
    using that docx other assms(5) by (cases "nd_extraction_mode native = DOCX_XML") (auto simp: order_inv_def)
  from matched(2) show ?thesis
  proof (elim disjE conjE)
    assume "t = s\<lparr>rs_cursor := c\<rparr>"
    with assms(5) docx show ?thesis by (auto simp: order_inv_def)
  next
    assume "t = \<lparr>rs_cursor = c, rs_allocated = rs_allocated s \<union> set (ab_span_ids a), rs_assignments = rs_assignments s @ [a]\<rparr>"
    then show ?thesis
      using assms(4,5) below docx other unfolding order_inv_def orders_def by (auto simp: sorted_wrt_append)
  qed
qed

lemma reconcile_hints_inv:
  assumes "fold_ok (reconcile_hint L native groups cat) s hints = Inr t" and "distinct (map ss_span_id (nd_spans native))"
    and "sorted_wrt (<) (map ng_order groups)" and "sorted_wrt (<) (map hb_order hints)"
    and "allocation_inv cat s" and "order_inv native groups hints s"
  shows "allocation_inv cat t \<and> order_inv native groups [] t"
  using assms(1,4-)
proof (induction hints arbitrary: s)
  case (Cons h hints)
  from Cons.prems(1) obtain u where u: "reconcile_hint L native groups cat s h = Inr u" "fold_ok (reconcile_hint L native groups cat) u hints = Inr t"
    by (auto split: sum.splits)
  from allocation_inv_step [OF u(1) assms(2) Cons.prems(3)] order_inv_step [OF u(1) assms(2,3) _ Cons.prems(4)] Cons.prems(2)
  have "allocation_inv cat u" "order_inv native groups hints u" by auto
  with Cons.IH [OF u(2)] Cons.prems(2) show ?case by simp
qed simp

text \<open>The spans alone need no order of the hints.\<close>

lemma reconcile_allocates_once:
  assumes "fold_ok (reconcile_hint L native groups cat) s hints = Inr t" and "distinct (map ss_span_id (nd_spans native))"
    and "allocation_inv cat s"
  shows "allocation_inv cat t"
  using assms(1,3) by (rule fold_ok_invariant) (rule allocation_inv_step [OF _ assms(2)])

section \<open>What is set aside\<close>

definition exclusions_inv :: "assigned_block list \<Rightarrow> exclusions \<Rightarrow> bool" where
  "exclusions_inv as x \<longleftrightarrow> xs_removed x \<subseteq> {..<length as}
     \<and> dom (dict_get (xs_excluded x)) = (\<Union>i\<in>xs_removed x. set (ab_span_ids (as ! i)))
     \<and> (\<forall>i e. dict_get (xs_excluded x) i = Some e \<longrightarrow> ex_span_id e = i)"

definition candidates_inv :: "library \<Rightarrow> catalog \<Rightarrow> assigned_block list \<Rightarrow> edge_candidates \<Rightarrow> bool" where
  "candidates_inv L cat as d \<longleftrightarrow> dict_ok d
     \<and> (\<forall>k ps. dict_get d k = Some ps \<longrightarrow> (\<forall>(i, a)\<in>set ps. i < length as \<and> a = as ! i \<and> edge_signature L cat a = Inr (Some k)))"

lemma candidates_ok:
  assumes "fold_ok (add_candidate L cat) [] (enumerate 0 as) = Inr d"
  shows "candidates_inv L cat as d"
  using assms
proof (rule fold_ok_invariant)
  fix d p d'
  assume p: "p \<in> set (enumerate 0 as)" and inv: "candidates_inv L cat as d" and step: "add_candidate L cat d p = Inr d'"
  obtain i a where q: "p = (i, a)" by (cases p)
  with p have a: "i < length as" "a = as ! i" by (auto simp: in_set_enumerate_eq)
  from step obtain k where k: "edge_signature L cat a = Inr k"
    "d' = (case k of None \<Rightarrow> d | Some key \<Rightarrow> dict_set key ((case dict_get d key of None \<Rightarrow> [] | Some ps \<Rightarrow> ps) @ [p]) d)"
    unfolding add_candidate_def q by auto
  show "candidates_inv L cat as d'"
    using inv k a q by (cases k) (fastforce simp: candidates_inv_def split: option.splits if_splits)+
qed (simp add: candidates_inv_def)

lemma excluded_entries:
  "dict_get (fold (\<lambda>i d. dict_set i \<lparr>ex_span_id = i, ex_kind = k\<rparr> d) ids d) =
     (\<lambda>i. if i \<in> set ids then Some \<lparr>ex_span_id = i, ex_kind = k\<rparr> else dict_get d i)"
  by (induction ids arbitrary: d) auto

lemma exclude_block_inv:
  assumes "exclude_block as key x (i, as ! i) = Inr y" and "i < length as" and "exclusions_inv as x"
  shows "exclusions_inv as y"
proof -
  from assms(1) consider "y = x" | "y = \<lparr>xs_removed = insert i (xs_removed x),
      xs_excluded = fold (\<lambda>i d. dict_set i \<lparr>ex_span_id = i, ex_kind = exclusion_kind_of key\<rparr> d) (ab_span_ids (as ! i)) (xs_excluded x)\<rparr>"
    by (auto simp: exclude_block_def split: if_splits)
  then show ?thesis
    using assms(2,3) by cases (auto simp: exclusions_inv_def excluded_entries dom_def split: if_splits)
qed

lemma exclude_candidates_inv:
  assumes "exclude_candidates n as x (k, ps) = Inr y" and "\<forall>(i, a)\<in>set ps. i < length as \<and> a = as ! i" and "exclusions_inv as x"
  shows "exclusions_inv as y"
proof (cases "int (length (remdups (map (ab_page \<circ> snd) ps))) < n")
  case False
  with assms(1) have "fold_ok (exclude_block as k) x ps = Inr y" by (simp add: exclude_candidates_def)
  then show ?thesis using assms(3)
  proof (rule fold_ok_invariant)
    fix x p y
    assume "p \<in> set ps" "exclusions_inv as x" "exclude_block as k x p = Inr y"
    with assms(2) exclude_block_inv [of as k x "fst p" y] show "exclusions_inv as y" by (cases p) auto
  qed
qed (use assms in \<open>simp add: exclude_candidates_def\<close>)

lemma enumerate_kept:
  "map snd (filter (\<lambda>(i, a). i \<notin> R) (enumerate n as)) = nths as {i. n + i \<notin> R}"
proof (induction as arbitrary: n)
  case (Cons a as)
  then show ?case by (simp add: nths_Cons)
qed simp

text \<open>The blocks that stay, and the spans of those that go, in the order of the source.\<close>

lemma excluded_split:
  assumes "exclude_repeated_edges L native as cat = Inr (kept, excluded)"
  shows "\<exists>R. R \<subseteq> {..<length as} \<and> kept = nths as (- R)
    \<and> map ex_span_id excluded = filter (\<lambda>i. i \<in> (\<Union>j\<in>R. set (ab_span_ids (as ! j)))) (map ss_span_id (sort_key ss_ordinal (nd_spans native)))"
proof (cases "nd_page_count native < 2")
  case True
  with assms have "kept = nths as (- {}) \<and> map ex_span_id excluded = []" by (auto simp: exclude_repeated_edges_def nths_all)
  then show ?thesis by (intro exI [of _ "{}"]) simp
next
  case False
  with assms obtain d x where d: "fold_ok (add_candidate L cat) [] (enumerate 0 as) = Inr d"
    and x: "fold_ok (exclude_candidates (repeat_threshold (nd_page_count native)) as) \<lparr>xs_removed = {}, xs_excluded = []\<rparr> d = Inr x"
    and kept: "kept = map snd (filter (\<lambda>(i, a). i \<notin> xs_removed x) (enumerate 0 as))"
    and excluded: "excluded = somes (map (\<lambda>s. dict_get (xs_excluded x) (ss_span_id s)) (sort_key ss_ordinal (nd_spans native)))"
    by (auto simp: exclude_repeated_edges_def)
  from x have inv: "exclusions_inv as x"
  proof (rule fold_ok_invariant)
    fix x c y
    assume c: "c \<in> set d" and step: "exclude_candidates (repeat_threshold (nd_page_count native)) as x c = Inr y" and "exclusions_inv as x"
    obtain k ps where p: "c = (k, ps)" by (cases c)
    have cd: "candidates_inv L cat as d" by (rule candidates_ok [OF d])
    with c p have "dict_get d k = Some ps" by (simp add: candidates_inv_def dict_get_in)
    with cd have "\<forall>(i, a)\<in>set ps. i < length as \<and> a = as ! i" unfolding candidates_inv_def by fastforce
    with exclude_candidates_inv step p \<open>exclusions_inv as x\<close> show "exclusions_inv as y" by blast
  qed (simp add: exclusions_inv_def)
  have entries: "map ex_span_id (somes (map (\<lambda>s. dict_get m (ss_span_id s)) ss)) = filter (\<lambda>i. i \<in> dom (dict_get m)) (map ss_span_id ss)"
    if "\<forall>i e. dict_get m i = Some e \<longrightarrow> ex_span_id e = i" for m and ss :: "source_span list"
  proof (induction ss)
    case (Cons s ss)
    with that show ?case by (cases "dict_get m (ss_span_id s)") auto
  qed simp
  have dom: "dom (dict_get (xs_excluded x)) = (\<Union>i\<in>xs_removed x. set (ab_span_ids (as ! i)))"
    and ids: "\<forall>i e. dict_get (xs_excluded x) i = Some e \<longrightarrow> ex_span_id e = i" using inv by (simp_all add: exclusions_inv_def)
  have "map ex_span_id excluded = filter (\<lambda>i. i \<in> (\<Union>j\<in>xs_removed x. set (ab_span_ids (as ! j)))) (map ss_span_id (sort_key ss_ordinal (nd_spans native)))"
    unfolding excluded entries [OF ids] dom ..
  moreover have "kept = nths as (- xs_removed x)" by (simp add: kept enumerate_kept Compl_eq)
  moreover have "xs_removed x \<subseteq> {..<length as}" using inv by (simp add: exclusions_inv_def)
  ultimately show ?thesis by blast
qed

lemma native_spans:
  assumes "NativeDocument L d = Inr e"
  shows "distinct (map ss_span_id (nd_spans d))" and "distinct (map ng_order (nd_groups d))"
  using assms by (simp add: NativeDocument_def Let_def split: if_splits, elim conjE, simp)+

lemma held_block_spans:
  "list_all (assigned_ok cat) as \<Longrightarrow> mset (concat (map (block_span_ids \<circ> ab_semantic) as)) = mset (held_spans as)"
  by (induction as) (auto simp: held_spans_def assigned_ok_def)

lemma removed_spans:
  assumes "distinct (held_spans as)" and "R \<subseteq> {..<length as}"
  shows "set (held_spans (nths as (- R))) = set (held_spans as) - (\<Union>j\<in>R. set (ab_span_ids (as ! j)))"
proof -
  have other: "set (ab_span_ids (as ! i)) \<inter> set (ab_span_ids (as ! j)) = {}" if "i < length as" "j < length as" "i \<noteq> j" for i j
  proof -
    have "distinct (concat (map ab_span_ids as))" using assms(1) by (simp add: held_spans_def)
    then show ?thesis
      using that
    proof (induction as arbitrary: i j)
      case (Cons a as)
      have "x \<in> set (concat (map ab_span_ids as))" if "k < length as" "x \<in> set (ab_span_ids (as ! k))" for x k
        using that by auto
      with Cons show ?case by (cases i; cases j) fastforce+
    qed simp
  qed
  have "set (held_spans as) = (\<Union>i<length as. set (ab_span_ids (as ! i)))"
  proof -
    have "set as = (!) as ` {..<length as}" by (auto simp: in_set_conv_nth)
    then show ?thesis by (simp add: held_spans_def)
  qed
  moreover have "set (held_spans (nths as (- R))) = (\<Union>i\<in>{..<length as} - R. set (ab_span_ids (as ! i)))"
    by (auto simp: held_spans_def set_nths)
  moreover have "(\<Union>i\<in>{..<length as} - R. f i) = (\<Union>i<length as. f i) - (\<Union>i\<in>R. f i)"
    if "\<And>i j. i < length as \<Longrightarrow> j < length as \<Longrightarrow> i \<noteq> j \<Longrightarrow> f i \<inter> f j = {}" for f :: "nat \<Rightarrow> string set"
    using that assms(2) by blast
  ultimately show ?thesis using other by simp
qed

lemma held_nths: "distinct (held_spans as) \<Longrightarrow> distinct (held_spans (nths as A))"
proof (induction as arbitrary: A)
  case (Cons a as)
  have "set (held_spans (nths as B)) \<subseteq> set (held_spans as)" for B
    using set_nths_subset [of as B] by (auto simp: held_spans_def)
  then have "set (ab_span_ids a) \<inter> set (held_spans (nths as B)) = {}" for B
    using Cons.prems by (fastforce simp: held_spans_def)
  with Cons show ?case by (simp add: nths_Cons held_spans_def)
qed simp

lemma spans_partitioned:
  assumes "NativeDocument L native = Inr native" and "reconcile_structure L native skeleton = Inr r"
  shows "mset (concat (map block_span_ids (rr_blocks r)) @ map ex_span_id (rr_excluded_spans r) @ rr_unresolved_span_ids r)
    = mset (map ss_span_id (nd_spans native))"
proof -
  let ?cat = "span_catalog native" and ?ids = "map ss_span_id (sort_key ss_ordinal (nd_spans native))"
  let ?s0 = "\<lparr>rs_cursor = 0, rs_allocated = {}, rs_assignments = []\<rparr>"
  note unique = native_spans(1) [OF assms(1)]
  from assms(2) obtain s kept excluded where
    run: "fold_ok (reconcile_hint L native (sort_key ng_order (nd_groups native)) ?cat) ?s0 (sort_key hb_order skeleton) = Inr s"
    and ex: "exclude_repeated_edges L native (rs_assignments s) ?cat = Inr (kept, excluded)"
    and r: "rr_blocks r = map ab_semantic (sort_key (block_order \<circ> ab_semantic) kept)" "rr_excluded_spans r = excluded"
      "rr_unresolved_span_ids r = filter (\<lambda>i. i \<notin> rs_allocated s \<and> i \<notin> ex_span_id ` set excluded) ?ids"
    by (auto simp: reconcile_structure_def Let_def)
  have "allocation_inv ?cat ?s0" by (simp add: allocation_inv_def held_spans_def)
  from reconcile_allocates_once [OF run unique this] have inv: "allocation_inv ?cat s" .
  from excluded_split [OF ex] obtain R where R: "R \<subseteq> {..<length (rs_assignments s)}" "kept = nths (rs_assignments s) (- R)"
    "map ex_span_id excluded = filter (\<lambda>i. i \<in> (\<Union>j\<in>R. set (ab_span_ids (rs_assignments s ! j)))) ?ids" by blast
  let ?gone = "\<Union>j\<in>R. set (ab_span_ids (rs_assignments s ! j))" and ?held = "set (held_spans (rs_assignments s))"
  have d: "distinct (held_spans (rs_assignments s))" and alloc: "rs_allocated s = ?held" and ok: "list_all (assigned_ok ?cat) (rs_assignments s)"
    using inv by (simp_all add: allocation_inv_def)
  have dids: "distinct ?ids" using unique by (simp add: distinct_map)
  have known: "?held \<subseteq> set ?ids"
  proof
    fix i assume "i \<in> ?held"
    with ok obtain v where "dict_get ?cat i = Some v" by (auto simp: held_spans_def list_all_iff assigned_ok_def)
    then show "i \<in> set ?ids" using dict_get_of_None [of ss_span_id id "nd_spans native" i] by (auto simp: span_catalog_def)
  qed
  have gone: "?gone \<subseteq> ?held" using R(1) by (force simp: held_spans_def)
  have kept: "set (held_spans kept) = ?held - ?gone" "distinct (held_spans kept)"
    unfolding R(2) using removed_spans [OF d R(1)] held_nths [OF d] by simp_all
  have "list_all (assigned_ok ?cat) kept" using ok set_nths_subset by (fastforce simp: R(2) list_all_iff)
  then have "list_all (assigned_ok ?cat) (sort_key (block_order \<circ> ab_semantic) kept)" by (simp add: list_all_iff)
  from held_block_spans [OF this] have "mset (concat (map block_span_ids (rr_blocks r))) = mset (held_spans (sort_key (block_order \<circ> ab_semantic) kept))"
    by (simp add: r(1))
  also have "\<dots> = mset (held_spans kept)" by (simp add: held_spans_def mset_concat flip: sum_mset_sum_list)
  also have "\<dots> = mset_set (?held - ?gone)" using kept by (metis mset_set_set)
  finally have blocks: "mset (concat (map block_span_ids (rr_blocks r))) = mset_set (?held - ?gone)" .
  have sub: "mset (filter P ?ids) = mset_set {i \<in> set ?ids. P i}" for P
    using dids by (metis distinct_filter mset_set_set set_filter)
  have e: "mset (map ex_span_id (rr_excluded_spans r)) = mset_set ?gone"
    unfolding r(2) R(3) sub using gone known by (intro arg_cong [where f = mset_set]) blast
  have eset: "ex_span_id ` set excluded = ?gone"
    using arg_cong [OF R(3), of set] gone known by auto
  have u: "mset (rr_unresolved_span_ids r) = mset_set (set ?ids - ?held)"
    unfolding r(3) sub alloc eset using gone by (intro arg_cong [where f = mset_set]) blast
  have "mset_set (?held - ?gone) + mset_set ?gone + mset_set (set ?ids - ?held) = mset_set (set ?ids)"
    using gone known by (metis Diff_disjoint List.finite_set finite_Diff finite_subset inf_commute mset_set_Union sup_commute Diff_partition)
  also have "\<dots> = mset (map ss_span_id (nd_spans native))"
    by (metis mset_set_set dids mset_map mset_sort)
  finally show ?thesis using blocks e u by (simp add: ac_simps)
qed

text \<open>(C27) Reconciliation loses no text and duplicates none: the spans of the blocks, the excluded spans and the
  unresolved spans together are the spans of the source, each exactly once.\<close>

theorem reconciliation_partitions_spans:
  assumes "NativeDocument L native = Inr native" and "reconcile_structure L native skeleton = Inr r"
  shows "mset (concat (map block_span_ids (rr_blocks r)) @ map ex_span_id (rr_excluded_spans r) @ rr_unresolved_span_ids r)
    = mset (map ss_span_id (nd_spans native))"
  by (rule spans_partitioned [OF assms])

lemma strict_sort_key:
  assumes "distinct (map f xs)"
  shows "sorted_wrt (<) (map f (sort_key f xs))"
  using assms by (simp add: strict_sorted_iff distinct_map)

lemma sort_key_strict: "sorted_wrt (<) (map f xs) \<Longrightarrow> sort_key f xs = xs"
  by (simp add: strict_sorted_iff sort_key_id_if_sorted)

lemma sorted_nths: "sorted_wrt P (map f xs) \<Longrightarrow> sorted_wrt P (map f (nths xs A))"
proof (induction xs arbitrary: A)
  case (Cons x xs)
  then show ?case using set_nths_subset [of xs] by (auto simp: nths_Cons)
qed simp

text \<open>(C28) The reconciliation of the hints of the layout library gives a document that
  passes the validator of a reconciled document: the blocks come in strictly increasing order, and no span is
  allocated twice or both allocated and excluded.\<close>

theorem reconciled_document_valid:
  assumes "NativeDocument L native = Inr native" and "build_docling_skeleton D items = Inr skeleton"
    and "reconcile_structure L native skeleton = Inr r"
  shows "sorted_wrt (<) (map block_order (rr_blocks r))
    \<and> ReconciledDocument \<lparr>rc_blocks = rr_blocks r, rc_excluded_spans = rr_excluded_spans r\<rparr>
        = Inr \<lparr>rc_blocks = rr_blocks r, rc_excluded_spans = rr_excluded_spans r\<rparr>"
proof -
  let ?cat = "span_catalog native" and ?groups = "sort_key ng_order (nd_groups native)"
  let ?s0 = "\<lparr>rs_cursor = 0, rs_allocated = {}, rs_assignments = []\<rparr>"
  from skeleton_hints [OF assms(2)] have numbered: "sorted_wrt (<) (map hb_order skeleton)"
    by (simp add: sorted_wrt_map)
  from assms(3) obtain s kept excluded where
    run: "fold_ok (reconcile_hint L native ?groups ?cat) ?s0 (sort_key hb_order skeleton) = Inr s"
    and ex: "exclude_repeated_edges L native (rs_assignments s) ?cat = Inr (kept, excluded)"
    and r: "rr_blocks r = map ab_semantic (sort_key (block_order \<circ> ab_semantic) kept)" "rr_excluded_spans r = excluded"
    by (auto simp: reconcile_structure_def Let_def)
  have "allocation_inv ?cat ?s0" "order_inv native ?groups skeleton ?s0"
    by (simp_all add: allocation_inv_def held_spans_def order_inv_def orders_def)
  with reconcile_hints_inv [OF run native_spans(1) [OF assms(1)] strict_sort_key [OF native_spans(2) [OF assms(1)]]]
  have "sorted_wrt (<) (orders (rs_assignments s))"
    using numbered by (simp add: sort_key_strict order_inv_def)
  moreover from excluded_split [OF ex] obtain R where "kept = nths (rs_assignments s) (- R)" by blast
  ultimately have "sorted_wrt (<) (map (block_order \<circ> ab_semantic) kept)"
    unfolding orders_def using sorted_nths by blast
  then have sorted: "sorted_wrt (<) (map block_order (rr_blocks r))"
    by (simp add: r(1) sort_key_strict)
  from spans_partitioned [OF assms(1,3)] have "distinct (concat (map block_span_ids (rr_blocks r)) @ map ex_span_id (rr_excluded_spans r) @ rr_unresolved_span_ids r)"
    using native_spans(1) [OF assms(1)] mset_eq_imp_distinct_iff by blast
  then have "distinct (concat (map block_span_ids (rr_blocks r)))" "distinct (map ex_span_id (rr_excluded_spans r))"
    "set (concat (map block_span_ids (rr_blocks r))) \<inter> set (map ex_span_id (rr_excluded_spans r)) = {}" by (simp_all only: distinct_append) auto
  moreover have "distinct (map block_order (rr_blocks r))" using sorted by (simp add: strict_sorted_iff)
  ultimately have "ReconciledDocument \<lparr>rc_blocks = rr_blocks r, rc_excluded_spans = rr_excluded_spans r\<rparr>
        = Inr \<lparr>rc_blocks = rr_blocks r, rc_excluded_spans = rr_excluded_spans r\<rparr>"
    unfolding ReconciledDocument_def Let_def reconciled_document.select_convs by (simp only: bind_ok_Inr_iff reject_if_Inr) simp
  with sorted show ?thesis by blast
qed

section \<open>Only repeated page edges are set aside\<close>

definition repeating_pages :: "library \<Rightarrow> catalog \<Rightarrow> assigned_block list \<Rightarrow> page_edge \<times> string \<Rightarrow> int option set" where
  "repeating_pages L cat as key = ab_page ` {a \<in> set as. edge_signature L cat a = Inr (Some key)}"

definition rightly_excluded :: "library \<Rightarrow> catalog \<Rightarrow> int \<Rightarrow> assigned_block list \<Rightarrow> excluded_span \<Rightarrow> bool" where
  "rightly_excluded L cat n as e \<longleftrightarrow> (\<exists>a key. a \<in> set as \<and> ex_span_id e \<in> set (ab_span_ids a)
     \<and> edge_signature L cat a = Inr (Some key) \<and> ex_kind e = exclusion_kind_of key \<and> n \<le> int (card (repeating_pages L cat as key)))"

lemma exclude_block_rightly:
  assumes "exclude_block as key x (i, as ! i) = Inr y" and "i < length as" and "edge_signature L cat (as ! i) = Inr (Some key)"
    and "n \<le> int (card (repeating_pages L cat as key))"
    and "\<forall>j e. dict_get (xs_excluded x) j = Some e \<longrightarrow> rightly_excluded L cat n as e"
  shows "\<forall>j e. dict_get (xs_excluded y) j = Some e \<longrightarrow> rightly_excluded L cat n as e"
proof (intro allI impI)
  fix j e
  assume e: "dict_get (xs_excluded y) j = Some e"
  show "rightly_excluded L cat n as e"
  proof (cases "dict_get (xs_excluded x) j = Some e")
    case False
    with assms(1) e have "j \<in> set (ab_span_ids (as ! i))" "e = \<lparr>ex_span_id = j, ex_kind = exclusion_kind_of key\<rparr>"
      by (auto simp: exclude_block_def excluded_entries split: if_splits)
    with assms(2-4) show ?thesis unfolding rightly_excluded_def by (intro exI [of _ "as ! i"] exI [of _ key]) simp
  qed (use assms(5) in simp)
qed

lemma exclude_candidates_rightly:
  assumes "exclude_candidates n as x (k, ps) = Inr y"
    and ps: "\<forall>(i, a)\<in>set ps. i < length as \<and> a = as ! i \<and> edge_signature L cat a = Inr (Some k)"
    and x: "\<forall>j e. dict_get (xs_excluded x) j = Some e \<longrightarrow> rightly_excluded L cat n as e"
  shows "\<forall>j e. dict_get (xs_excluded y) j = Some e \<longrightarrow> rightly_excluded L cat n as e"
proof (cases "int (length (remdups (map (ab_page \<circ> snd) ps))) < n")
  case True
  with assms(1) have "y = x" by (simp add: exclude_candidates_def)
  with x show ?thesis by blast
next
  case False
  have "set (map (ab_page \<circ> snd) ps) \<subseteq> repeating_pages L cat as k" using ps by (fastforce simp: repeating_pages_def)
  then have "card (set (map (ab_page \<circ> snd) ps)) \<le> card (repeating_pages L cat as k)"
    by (intro card_mono) (simp_all add: repeating_pages_def)
  with False have n: "n \<le> int (card (repeating_pages L cat as k))" by (simp add: length_remdups_card_conv)
  from False assms(1) have "fold_ok (exclude_block as k) x ps = Inr y" by (simp add: exclude_candidates_def)
  then show ?thesis using x
  proof (rule fold_ok_invariant)
    fix x p y
    assume p: "p \<in> set ps" and x: "\<forall>j e. dict_get (xs_excluded x) j = Some e \<longrightarrow> rightly_excluded L cat n as e"
      and step: "exclude_block as k x p = Inr y"
    obtain i a where q: "p = (i, a)" by (cases p)
    with p ps have "i < length as" "a = as ! i" "edge_signature L cat (as ! i) = Inr (Some k)" by auto
    with exclude_block_rightly step n x q show "\<forall>j e. dict_get (xs_excluded y) j = Some e \<longrightarrow> rightly_excluded L cat n as e" by blast
  qed
qed

text \<open>(C29) A span is set aside as a page element only when its block stands in the band at a page edge and at least
  two pages, and at least three fifths of all pages, have a block with the same text (or a page number) at that edge.\<close>

theorem excluded_only_repeated_edges:
  assumes "exclude_repeated_edges L native as cat = Inr (kept, excluded)" and "e \<in> set excluded"
  shows "\<exists>a key b. a \<in> set as \<and> ex_span_id e \<in> set (ab_span_ids a) \<and> edge_signature L cat a = Inr (Some key)
    \<and> ab_bbox a = Some b \<and> (sb_bottom b \<ge> 9/10 \<or> sb_top b \<le> 1/10) \<and> ex_kind e = exclusion_kind_of key
    \<and> max 2 (of_int (nd_page_count native) * (3/5)) \<le> (of_nat (card (repeating_pages L cat as key)) :: rat)"
proof -
  let ?n = "repeat_threshold (nd_page_count native)"
  from assms have "\<not> nd_page_count native < 2" by (auto simp: exclude_repeated_edges_def)
  with assms(1) obtain d x where d: "fold_ok (add_candidate L cat) [] (enumerate 0 as) = Inr d"
    and x: "fold_ok (exclude_candidates ?n as) \<lparr>xs_removed = {}, xs_excluded = []\<rparr> d = Inr x"
    and excluded: "excluded = somes (map (\<lambda>s. dict_get (xs_excluded x) (ss_span_id s)) (sort_key ss_ordinal (nd_spans native)))"
    by (auto simp: exclude_repeated_edges_def)
  have cd: "candidates_inv L cat as d" by (rule candidates_ok [OF d])
  from x have "\<forall>j e. dict_get (xs_excluded x) j = Some e \<longrightarrow> rightly_excluded L cat ?n as e"
  proof (rule fold_ok_invariant)
    fix x c y
    assume c: "c \<in> set d" and step: "exclude_candidates ?n as x c = Inr y"
      and x: "\<forall>j e. dict_get (xs_excluded x) j = Some e \<longrightarrow> rightly_excluded L cat ?n as e"
    obtain k ps where p: "c = (k, ps)" by (cases c)
    with c cd have "dict_get d k = Some ps" by (simp add: candidates_inv_def dict_get_in)
    with cd have "\<forall>(i, a)\<in>set ps. i < length as \<and> a = as ! i \<and> edge_signature L cat a = Inr (Some k)"
      unfolding candidates_inv_def by fastforce
    from exclude_candidates_rightly [OF step [unfolded p] this x]
    show "\<forall>j e. dict_get (xs_excluded y) j = Some e \<longrightarrow> rightly_excluded L cat ?n as e" .
  qed simp
  moreover from assms(2) obtain j where "dict_get (xs_excluded x) j = Some e"
    unfolding excluded by (auto intro: that [OF sym])
  ultimately have "rightly_excluded L cat ?n as e" by blast
  then obtain a key where a: "a \<in> set as" "ex_span_id e \<in> set (ab_span_ids a)" "edge_signature L cat a = Inr (Some key)"
    "ex_kind e = exclusion_kind_of key" "?n \<le> int (card (repeating_pages L cat as key))" unfolding rightly_excluded_def by blast
  from a(3) obtain b where b: "ab_bbox a = Some b" "edge_of b \<noteq> None"
    by (auto simp: edge_signature_def split: option.splits)
  from b(2) have "sb_bottom b \<ge> 9/10 \<or> sb_top b \<le> 1/10" by (auto simp: edge_of_def PAGE_EDGE_BAND_def split: if_splits)
  moreover have "of_int (nd_page_count native) * (3/5) \<le> (of_int ?n :: rat)"
    unfolding repeat_threshold_def REPEAT_RATIO_def by (simp add: max_def) linarith
  moreover have "of_int ?n \<le> (of_nat (card (repeating_pages L cat as key)) :: rat)" using a(5) by (metis of_int_le_iff of_int_of_nat_eq)
  moreover have "2 \<le> (of_int ?n :: rat)" by (simp add: repeat_threshold_def)
  ultimately show ?thesis using a(1-4) b(1) by (intro exI [of _ a] exI [of _ key] exI [of _ b]) auto
qed

section \<open>Samples\<close>

definition two_library :: library where
  "two_library = \<lparr>lib_nfc = id, lib_sha256 = (\<lambda>s. replicate 64 (last s))\<rparr>"

definition source_line :: "char \<Rightarrow> int \<Rightarrow> string \<Rightarrow> source_span" where
  "source_line c n s = \<lparr>ss_span_id = ''span_'' @ replicate 16 c, ss_ordinal = n, ss_page = None, ss_bbox = None,
     ss_text = s, ss_text_hash = lib_sha256 two_library s, ss_paragraph_break_before = False\<rparr>"

definition plain_group :: "int \<Rightarrow> source_span \<Rightarrow> native_group" where
  "plain_group n s = \<lparr>ng_order = n, ng_kind = Paragraph_Group, ng_span_ids = [ss_span_id s], ng_page = None, ng_bbox = None,
     ng_style_name = None, ng_list_kind = None, ng_list_depth = None, ng_table_index = None\<rparr>"

definition native2 :: native_document where
  "native2 = (let a = source_line CHR ''0'' 0 ''a''; b = source_line CHR ''1'' 1 ''b'' in
    \<lparr>nd_source_hash = ''h'', nd_extraction_mode = DOCX_XML, nd_page_count = 1, nd_parser_versions = [],
     nd_spans = [a, b], nd_groups = [plain_group 4 a, plain_group 5 b], nd_tables = []\<rparr>)"

definition item2 :: "unit docling_item" where
  "item2 = \<lparr>di_class = Text_Item, di_prov = [], di_orig = None, di_text = ''a'', di_level = 1, di_enumerated = False,
     di_num_rows = 0, di_num_cols = 0, di_cells = []\<rparr>"

definition hint2 :: structure_block where
  "hint2 = plain_hint S_Paragraph 0 (None, None) ''a''"

lemma native2_valid: "NativeDocument two_library native2 = Inr native2"
proof -
  have "is_ok (NativeDocument two_library native2)" by code_simp
  then show ?thesis by (auto simp: is_ok_iff NativeDocument_def Let_def)
qed

lemma hint2_built: "build_docling_skeleton sample_docling [(item2, 1)] = Inr [hint2]"
  by (simp add: build_docling_skeleton_def add_hint_def item_hint_def item_location_def item2_def item_text_hint_def hint2_def Let_def)

lemma reconciled2:
  "reconcile_structure two_library native2 [hint2] = Inr \<lparr>rr_blocks = [ParagraphBlock 4 [''span_'' @ replicate 16 CHR ''0'']],
     rr_unresolved_span_ids = [''span_'' @ replicate 16 CHR ''1''], rr_excluded_spans = []\<rparr>"
  by code_simp

theorem reconciliation_partitions_spans_witness:
  "mset [''span_'' @ replicate 16 CHR ''0'', ''span_'' @ replicate 16 CHR ''1''] = mset (map ss_span_id (nd_spans native2))"
  using reconciliation_partitions_spans [OF native2_valid reconciled2] by simp

theorem reconciled_document_valid_witness:
  "is_ok (ReconciledDocument \<lparr>rc_blocks = [ParagraphBlock 4 [''span_'' @ replicate 16 CHR ''0'']], rc_excluded_spans = []\<rparr>)"
  using reconciled_document_valid [OF native2_valid hint2_built reconciled2] by simp

text \<open>Two pages with the same line in the top band.\<close>

definition header_span :: "char \<Rightarrow> int \<Rightarrow> source_span" where
  "header_span c p = (source_line c p ''a'')\<lparr>ss_page := Some p\<rparr>"

definition native3 :: native_document where
  "native3 = native2\<lparr>nd_page_count := 2, nd_spans := [header_span CHR ''0'' 1, header_span CHR ''1'' 2]\<rparr>"

definition header_block :: "char \<Rightarrow> int \<Rightarrow> assigned_block" where
  "header_block c p = \<lparr>ab_semantic = ParagraphBlock p [''span_'' @ replicate 16 c], ab_span_ids = [''span_'' @ replicate 16 c],
     ab_page = Some p, ab_bbox = Some \<lparr>sb_left = 0, sb_bottom = 19/20, sb_right = 1, sb_top = 1\<rparr>, ab_source_boxes = []\<rparr>"

lemma headers_excluded:
  "exclude_repeated_edges two_library native3 [header_block CHR ''0'' 1, header_block CHR ''1'' 2] (span_catalog native3)
     = Inr ([], [\<lparr>ex_span_id = ''span_'' @ replicate 16 CHR ''0'', ex_kind = Page_Header\<rparr>,
                \<lparr>ex_span_id = ''span_'' @ replicate 16 CHR ''1'', ex_kind = Page_Header\<rparr>])"
proof -
  let ?cat = "span_catalog native3" and ?a = "header_block CHR ''0'' 1" and ?b = "header_block CHR ''1'' 2"
  have words: "spans_text ?cat (ab_span_ids ?a) = Inr ''a''" "spans_text ?cat (ab_span_ids ?b) = Inr ''a''"
    by code_simp+
  have edge: "edge_of \<lparr>sb_left = 0, sb_bottom = 19/20, sb_right = 1, sb_top = 1\<rparr> = Some Top_Edge"
    by (simp add: edge_of_def PAGE_EDGE_BAND_def)
  have plain: "\<not> is_page_number ''a''" "comparison_projection two_library ''a'' = ''a''" by code_simp+
  have sig: "edge_signature two_library ?cat ?a = Inr (Some (Top_Edge, ''a''))" "edge_signature two_library ?cat ?b = Inr (Some (Top_Edge, ''a''))"
    using words by (simp_all add: edge_signature_def header_block_def edge plain Let_def)
  have clear: "overlaps_other_assignment i ?a [?a, ?b] = Inr False" "overlaps_other_assignment i ?b [?a, ?b] = Inr False" for i
    by (simp_all add: overlaps_other_assignment_def header_block_def)
  have n: "repeat_threshold 2 = 2" by (simp add: repeat_threshold_def REPEAT_RATIO_def)
  have spans: "map ss_span_id (sort_key ss_ordinal (nd_spans native3)) = [''span_'' @ replicate 16 CHR ''0'', ''span_'' @ replicate 16 CHR ''1'']"
    by code_simp
  have in_order: "map (\<lambda>s. f (ss_span_id s)) (sort_key ss_ordinal (nd_spans native3)) = [f (''span_'' @ replicate 16 CHR ''0''), f (''span_'' @ replicate 16 CHR ''1'')]"
    for f :: "string \<Rightarrow> excluded_span option" using arg_cong [OF spans, of "map f"] by (simp add: comp_def)
  have "ab_page ?a = Some 1" "ab_page ?b = Some 2" by (simp_all add: header_block_def)
  then have cands: "exclude_candidates 2 [?a, ?b] \<lparr>xs_removed = {}, xs_excluded = []\<rparr> ((Top_Edge, ''a''), [(0, ?a), (1, ?b)])
      = Inr \<lparr>xs_removed = {0, 1}, xs_excluded = [(''span_'' @ replicate 16 CHR ''0'', \<lparr>ex_span_id = ''span_'' @ replicate 16 CHR ''0'', ex_kind = Page_Header\<rparr>),
          (''span_'' @ replicate 16 CHR ''1'', \<lparr>ex_span_id = ''span_'' @ replicate 16 CHR ''1'', ex_kind = Page_Header\<rparr>)]\<rparr>"
    by (simp add: exclude_candidates_def exclude_block_def clear) (simp add: header_block_def exclusion_kind_of_def numeral_eq_Suc insert_commute)
  have "nd_page_count native3 = 2" by (simp add: native3_def)
  then show ?thesis
    using cands by (simp add: exclude_repeated_edges_def n add_candidate_def sig in_order)
qed

theorem excluded_only_repeated_edges_witness:
  "\<exists>key. Page_Header = exclusion_kind_of key
    \<and> 2 \<le> card (repeating_pages two_library (span_catalog native3) [header_block CHR ''0'' 1, header_block CHR ''1'' 2] key)"
proof -
  let ?as = "[header_block CHR ''0'' 1, header_block CHR ''1'' 2]" and ?cat = "span_catalog native3"
  have "\<lparr>ex_span_id = ''span_'' @ replicate 16 CHR ''0'', ex_kind = Page_Header\<rparr>
      \<in> set [\<lparr>ex_span_id = ''span_'' @ replicate 16 CHR ''0'', ex_kind = Page_Header\<rparr>,
              \<lparr>ex_span_id = ''span_'' @ replicate 16 CHR ''1'', ex_kind = Page_Header\<rparr>]" by (rule list.set_intros)
  from excluded_only_repeated_edges [OF headers_excluded this] obtain key where
    key: "Page_Header = exclusion_kind_of key"
      "max 2 (of_int (nd_page_count native3) * (3/5)) \<le> (of_nat (card (repeating_pages two_library ?cat ?as key)) :: rat)"
    unfolding excluded_span.select_convs by blast
  from key(2) have "(of_nat 2 :: rat) \<le> of_nat (card (repeating_pages two_library ?cat ?as key))" by simp
  then have "2 \<le> card (repeating_pages two_library ?cat ?as key)" by (simp only: of_nat_le_iff)
  with key(1) show ?thesis by blast
qed

end
