(* ===== verification/Markdown.thy ===== *)
theory Markdown
  imports Escaping Reconciliation
begin

text \<open>
  The rendering of a reconciled document to Markdown (\<open>semantic/render.py\<close>): the check that every source span
  is allocated once, and the blocks, lists and tables of the page. An error class of the module is the value error with its
  code. The lemmas show when the coverage check passes, and that a rendered table read back by the rules of
  the table syntax shows in every square the text of the cell that covers it.
\<close>

section \<open>Coverage\<close>

record coverage_result =
  cv_source_span_count :: nat
  cv_preserved_span_count :: nat
  cv_excluded_span_count :: nat
  cv_unmatched_span_count :: nat
  cv_duplicated_span_count :: nat
  cv_source_text_coverage :: rat

text \<open>\<open>round(x, 6)\<close>: to the nearest millionth, ties to the even one.\<close>

definition round_millionth :: "rat \<Rightarrow> rat" where
  "round_millionth x =
     (let n = \<lfloor>x * 1000000\<rfloor>; r = x * 1000000 - of_int n
      in of_int (if r < 1/2 \<or> r = 1/2 \<and> even n then n else n + 1) / 1000000)"

definition allocated_span_ids :: "semantic_block list \<Rightarrow> string list" where
  "allocated_span_ids blocks = concat (map block_span_ids blocks)"

definition validate_source_coverage :: "native_document \<Rightarrow> reconciled_document \<Rightarrow> coverage_result result" where
  "validate_source_coverage native document =
     (let source_ids = set (map ss_span_id (nd_spans native));
          allocation_ids = allocated_span_ids (rc_blocks document);
          exclusion_ids = map ex_span_id (rc_excluded_spans document)
      in if \<not> list_all (\<lambda>i. i \<in> source_ids) (allocation_ids @ exclusion_ids) then Inl (ValueError ''SEMANTIC_SOURCE_TEXT_LOSS'')
         else
           let excluded_ids = set exclusion_ids
           in if set allocation_ids \<inter> excluded_ids \<noteq> {} \<or> list_ex (\<lambda>i. count_list allocation_ids i > 1) allocation_ids
              then Inl (ValueError ''SEMANTIC_SOURCE_TEXT_DUPLICATED'')
              else
                let non_excluded_ids = source_ids - excluded_ids;
                    preserved_ids = non_excluded_ids \<inter> set allocation_ids;
                    unmatched_ids = non_excluded_ids - preserved_ids;
                    duplicated_ids = set (filter (\<lambda>i. i \<in> non_excluded_ids \<and> count_list allocation_ids i > 1) allocation_ids)
                in if card unmatched_ids \<noteq> 0 then Inl (ValueError ''SEMANTIC_SOURCE_TEXT_LOSS'')
                   else if card duplicated_ids \<noteq> 0 then Inl (ValueError ''SEMANTIC_SOURCE_TEXT_DUPLICATED'')
                   else Inr \<lparr>cv_source_span_count = card source_ids, cv_preserved_span_count = card preserved_ids,
                             cv_excluded_span_count = card excluded_ids, cv_unmatched_span_count = card unmatched_ids,
                             cv_duplicated_span_count = card duplicated_ids,
                             cv_source_text_coverage =
                               (if non_excluded_ids = {} then 1
                                else round_millionth (of_nat (card preserved_ids) / of_nat (card non_excluded_ids)))\<rparr>)"

section \<open>Blocks\<close>

text \<open>The text of the spans; an unknown span is a loss.\<close>

definition resolve_text :: "catalog \<Rightarrow> string list \<Rightarrow> string result" where
  "resolve_text cat ids =
     (case traverse (lookup_span cat) ids of
        Inl e \<Rightarrow> Inl (ValueError ''SEMANTIC_SOURCE_TEXT_LOSS'')
      | Inr ss \<Rightarrow> Inr (concat (map ss_text ss)))"

text \<open>A span that starts a paragraph gets a line break before it, except the first.\<close>

definition break_before :: "string list \<Rightarrow> source_span \<Rightarrow> string list" where
  "break_before values s = (if ss_paragraph_break_before s \<and> values \<noteq> [] then values @ [[newline]] else values) @ [ss_text s]"

definition joined_value :: "source_span list \<Rightarrow> string" where
  "joined_value ss = concat (fold (\<lambda>s values. break_before values s) ss [])"

definition resolve_table_value :: "catalog \<Rightarrow> string list \<Rightarrow> string result" where
  "resolve_table_value cat ids =
     (case traverse (lookup_span cat) ids of
        Inl e \<Rightarrow> Inl (ValueError ''SEMANTIC_SOURCE_TEXT_LOSS'')
      | Inr ss \<Rightarrow> Inr (escape_table_value (joined_value ss)))"

definition render_list_item :: "catalog \<Rightarrow> list_kind \<Rightarrow> int \<Rightarrow> string list \<Rightarrow> string result" where
  "render_list_item cat k depth ids =
     (if depth > MAX_LIST_DEPTH then Inl (ValueError ''LIST_DEPTH_LIMIT_EXCEEDED'')
      else bind_ok (resolve_text cat ids) (\<lambda>value.
        Inr (concat (replicate (nat depth) ''    '') @ (if k = Ordered then ''1.'' else ''-'') @ '' '' @ escape_inline value)))"

section \<open>Tables\<close>

definition table_line :: "string list \<Rightarrow> string" where
  "table_line values = ''| '' @ join '' | '' values @ '' |''"

type_synonym matrix = "string list list"

definition set_square :: "string \<Rightarrow> matrix \<Rightarrow> int \<times> int \<Rightarrow> matrix" where
  "set_square v m p = m[nat (fst p) := (m ! nat (fst p))[nat (snd p) := v]]"

definition cell_squares :: "'a table_cell_scheme \<Rightarrow> (int \<times> int) list" where
  "cell_squares c = List.product [gc_start_row c..gc_end_row c - 1] [gc_start_column c..gc_end_column c - 1]"

definition fill_cell :: "catalog \<Rightarrow> matrix \<Rightarrow> 'a table_cell_scheme \<Rightarrow> matrix result" where
  "fill_cell cat m c = bind_ok (resolve_table_value cat (gc_span_ids c)) (\<lambda>v. Inr (foldl (set_square v) m (cell_squares c)))"

definition header_row_of :: "'a table_cell_scheme list \<Rightarrow> nat option" where
  "header_row_of cells =
     (let rows = map gc_start_row (filter gc_column_header cells) in if rows = [] then None else Some (nat (Min (set rows))))"

definition render_table :: "catalog \<Rightarrow> int \<Rightarrow> int \<Rightarrow> 'a table_cell_scheme list \<Rightarrow> string result" where
  "render_table cat row_count column_count cells =
     bind_ok (validate_grid cells row_count column_count ''TABLE_BLOCK'') (\<lambda>_.
     bind_ok (fold_ok (fill_cell cat) (replicate (nat row_count) (replicate (nat column_count) [])) cells) (\<lambda>matrix.
       let header_row = header_row_of cells;
           header = (case header_row of Some r \<Rightarrow> matrix ! r | None \<Rightarrow> replicate (nat column_count) []);
           data_rows = map snd (filter (\<lambda>(i, row). header_row \<noteq> Some i) (enumerate 0 matrix))
       in Inr (join [newline] (table_line header # table_line (replicate (nat column_count) ''---'') # map table_line data_rows))))"

fun render_block :: "catalog \<Rightarrow> semantic_block \<Rightarrow> string result" where
  "render_block cat (HeadingBlock n level ids) =
     bind_ok (resolve_text cat ids) (\<lambda>value. Inr (replicate (nat level) CHR ''#'' @ '' '' @ escape_inline value))"
| "render_block cat (ParagraphBlock n ids) = bind_ok (resolve_text cat ids) (\<lambda>value. Inr (escape_inline value))"
| "render_block cat (ListItemBlock n k depth ids) = Inl (TypeError ''Unsupported semantic block'')"
| "render_block cat (TableBlock n rows columns cells) = render_table cat rows columns cells"
| "render_block cat (LosslessBlock n ids r) = bind_ok (resolve_text cat ids) (\<lambda>value. Inr (escape_inline value))"

section \<open>The page\<close>

text \<open>The chunks of the page, and the lines of the list that is open.\<close>

definition flush_list :: "string list \<times> string list \<Rightarrow> string list" where
  "flush_list st = (if snd st = [] then fst st else fst st @ [join [newline] (snd st)])"

fun add_block :: "catalog \<Rightarrow> string list \<times> string list \<Rightarrow> semantic_block \<Rightarrow> (string list \<times> string list) result" where
  "add_block cat st (ListItemBlock n k depth ids) =
     bind_ok (render_list_item cat k depth ids) (\<lambda>line. Inr (fst st, snd st @ [line]))"
| "add_block cat st b = bind_ok (render_block cat b) (\<lambda>chunk. Inr (flush_list st @ [chunk], []))"

definition rstrip_newlines :: "string \<Rightarrow> string" where
  "rstrip_newlines s = rev (dropWhile (\<lambda>c. c = newline) (rev s))"

definition render_document_markdown :: "catalog \<Rightarrow> reconciled_document \<Rightarrow> string result" where
  "render_document_markdown cat document =
     bind_ok (fold_ok (add_block cat) ([], []) (sort_key block_order (rc_blocks document))) (\<lambda>st.
       let rendered = join [newline, newline] (map rstrip_newlines (flush_list st)) @ [newline]
       in if has_raw_html rendered then Inl (ValueError ''SEMANTIC_RAW_HTML_OUTPUT'')
          else if has_entity False rendered then Inl (ValueError ''SEMANTIC_HTML_ENTITY_OUTPUT'')
          else Inr rendered)"

section \<open>When the coverage check passes\<close>

lemma count_above: "list_ex (\<lambda>i. count_list xs i > 1) xs \<longleftrightarrow> \<not> distinct xs"
proof (induction xs)
  case (Cons x xs)
  have "count_list xs x = 0 \<longleftrightarrow> x \<notin> set xs" by (simp add: count_list_0_iff)
  then show ?case using Cons by (auto simp: list_ex_iff)
qed simp

lemma round_one: "round_millionth 1 = 1"
  by (simp add: round_millionth_def Let_def)

lemma coverage_iff:
  "(\<exists>r. validate_source_coverage native d = Inr r)
    \<longleftrightarrow> distinct (allocated_span_ids (rc_blocks d)) \<and> set (allocated_span_ids (rc_blocks d)) \<inter> ex_span_id ` set (rc_excluded_spans d) = {}
      \<and> set (allocated_span_ids (rc_blocks d)) \<union> ex_span_id ` set (rc_excluded_spans d) = ss_span_id ` set (nd_spans native)"
proof -
  let ?a = "allocated_span_ids (rc_blocks d)" and ?e = "ex_span_id ` set (rc_excluded_spans d)" and ?s = "ss_span_id ` set (nd_spans native)"
  have un: "card (?s - ?e - (?s - ?e) \<inter> set ?a) = 0 \<longleftrightarrow> ?s \<subseteq> ?e \<union> set ?a" by (auto simp: card_eq_0_iff)
  have "card (set (filter (\<lambda>i. i \<in> ?s - ?e \<and> count_list ?a i > 1) ?a)) = 0" if "distinct ?a"
  proof -
    have "filter (\<lambda>i. i \<in> ?s - ?e \<and> count_list ?a i > 1) ?a = []"
      using that count_above [of ?a] by (auto simp: filter_empty_conv list_ex_iff)
    then show ?thesis by simp
  qed
  then show ?thesis
    unfolding validate_source_coverage_def Let_def count_above set_map un
    by (auto simp: list_all_iff split: if_splits)
qed

text \<open>(C31) A reconciliation passes the coverage check exactly when it left no span unresolved; a result of
  the check reports full coverage, with every span preserved or excluded and none unmatched or duplicated.\<close>

theorem reconciliation_coverage:
  assumes "NativeDocument L native = Inr native" and "reconcile_structure L native skeleton = Inr r"
    and "d = \<lparr>rc_blocks = rr_blocks r, rc_excluded_spans = rr_excluded_spans r\<rparr>"
  shows "(is_ok (validate_source_coverage native d) \<longleftrightarrow> rr_unresolved_span_ids r = [])
    \<and> list_all (\<lambda>c. cv_source_text_coverage c = 1 \<and> cv_unmatched_span_count c = 0 \<and> cv_duplicated_span_count c = 0
          \<and> cv_preserved_span_count c + cv_excluded_span_count c = length (nd_spans native))
        (case validate_source_coverage native d of Inl _ \<Rightarrow> [] | Inr c \<Rightarrow> [c])"
proof -
  let ?a = "allocated_span_ids (rr_blocks r)" and ?e = "map ex_span_id (rr_excluded_spans r)" and ?s = "map ss_span_id (nd_spans native)"
  have parts: "mset (?a @ ?e @ rr_unresolved_span_ids r) = mset ?s"
    using spans_partitioned [OF assms(1,2)] by (simp add: allocated_span_ids_def)
  then have "distinct (?a @ ?e @ rr_unresolved_span_ids r)" using native_spans(1) [OF assms(1)] mset_eq_imp_distinct_iff by blast
  then have d: "distinct ?a" "distinct ?e" "set ?a \<inter> set ?e = {}" "(set ?a \<union> set ?e) \<inter> set (rr_unresolved_span_ids r) = {}" by auto
  have all: "set ?a \<union> set ?e \<union> set (rr_unresolved_span_ids r) = set ?s"
    using arg_cong [OF parts, of set_mset] by (simp add: Un_assoc)
  have exact: "A \<union> U = S \<Longrightarrow> A \<inter> U = {} \<Longrightarrow> A = S \<longleftrightarrow> U = {}" for A U S :: "string set" by blast
  have "is_ok (validate_source_coverage native d) \<longleftrightarrow> set ?a \<union> set ?e = set ?s"
    unfolding is_ok_iff coverage_iff using d by (simp add: assms(3))
  also have "\<dots> \<longleftrightarrow> set (rr_unresolved_span_ids r) = {}" by (rule exact [OF all d(4)])
  also have "\<dots> \<longleftrightarrow> rr_unresolved_span_ids r = []" by simp
  finally have ok: "is_ok (validate_source_coverage native d) \<longleftrightarrow> rr_unresolved_span_ids r = []" .
  have "cv_source_text_coverage c = 1 \<and> cv_unmatched_span_count c = 0 \<and> cv_duplicated_span_count c = 0
      \<and> cv_preserved_span_count c + cv_excluded_span_count c = length (nd_spans native)"
    if c: "validate_source_coverage native d = Inr c" for c
  proof -
    from c ok have "rr_unresolved_span_ids r = []" by simp
    with all have s: "set ?s = set ?a \<union> set ?e" by simp
    then have minus: "set ?s - set ?e = set ?a" using d(3) by blast
    have "card (set ?a) + card (set ?e) = card (set ?s)" using d(3) unfolding s by (subst card_Un_disjoint) simp_all
    then have "card (set ?a) + card (set ?e) = length (nd_spans native)"
      using distinct_card [OF native_spans(1) [OF assms(1)]] by simp
    then show ?thesis
      using c minus unfolding validate_source_coverage_def Let_def assms(3)
      by (auto simp: round_one split: if_splits)
  qed
  with ok show ?thesis by (cases "validate_source_coverage native d") simp_all
qed

section \<open>Reading a table\<close>

text \<open>A table row is cut at the pipes that no backslash protects; each cell is trimmed and read by the backslash rules.\<close>

fun split_pipes :: "string \<Rightarrow> string list" where
  "split_pipes [] = [[]]"
| "split_pipes (c # s) =
     (if c = bslash \<and> s \<noteq> []
      then (case split_pipes (tl s) of p # ps \<Rightarrow> (c # hd s # p) # ps | [] \<Rightarrow> [])
      else if c = CHR ''|'' then [] # split_pipes s
      else (case split_pipes s of p # ps \<Rightarrow> (c # p) # ps | [] \<Rightarrow> []))"

definition read_row :: "string \<Rightarrow> string list" where
  "read_row line = map (read_inline \<circ> strip_blanks) (butlast (tl (split_pipes line)))"

lemma split_pipes_nonempty: "split_pipes s \<noteq> []"
  by (induction s rule: split_pipes.induct) (auto split: list.splits)

lemma pipe_escaped: "escape_char c = [bslash, c] \<or> escape_char c = [c] \<and> c \<noteq> bslash \<and> c \<noteq> CHR ''|''"
  by (auto simp: escape_char_def COMMONMARK_ESCAPABLE_PUNCTUATION_def)

lemma split_escaped:
  "split_pipes t = p # ps \<Longrightarrow> split_pipes (escape_markdown s @ t) = (escape_markdown s @ p) # ps"
proof (induction s)
  case (Cons c s)
  then show ?case using pipe_escaped [of c] by (auto simp: split: list.splits)
qed simp

lemma split_blank: "split_pipes t = p # ps \<Longrightarrow> split_pipes (CHR '' '' # t) = (CHR '' '' # p) # ps"
  by simp

lemma split_pipe: "split_pipes (CHR ''|'' # t) = [] # split_pipes t"
  by simp

text \<open>A text that is cut nowhere.\<close>

definition uncut :: "string \<Rightarrow> bool" where
  "uncut u \<longleftrightarrow> (\<forall>t p ps. split_pipes t = p # ps \<longrightarrow> split_pipes (u @ t) = (u @ p) # ps)"

lemma uncut_escaped: "uncut (escape_markdown s)"
  using split_escaped by (auto simp: uncut_def)

lemma uncut_dashes: "uncut ''---''"
  by (simp add: uncut_def)

lemma split_row:
  assumes "us \<noteq> []" and "\<forall>u\<in>set us. uncut u"
  shows "split_pipes ('' '' @ join '' | '' us @ '' |'') = map (\<lambda>u. '' '' @ u @ '' '') us @ [[]]"
  using assms
proof (induction us rule: induct_list012)
  case (2 u)
  have "split_pipes ('' |'') = ['' '', []]" by simp
  with 2 have "split_pipes (u @ '' |'') = [u @ '' '', []]" by (simp add: uncut_def)
  then show ?case using split_blank by simp
next
  case (3 u w us)
  let ?rest = "'' '' @ join '' | '' (w # us) @ '' |''"
  have "split_pipes ('' |'' @ ?rest) = '' '' # map (\<lambda>u. '' '' @ u @ '' '') (w # us) @ [[]]"
    using 3 by (simp add: split_blank)
  with 3 have "split_pipes (u @ '' |'' @ ?rest) = (u @ '' '') # map (\<lambda>u. '' '' @ u @ '' '') (w # us) @ [[]]" by (simp add: uncut_def)
  then show ?case by (simp add: split_blank)
qed simp

lemma read_uncut:
  assumes "us \<noteq> []" and "\<forall>u\<in>set us. uncut u"
  shows "read_row (table_line us) = map (\<lambda>u. read_inline (strip_blanks ('' '' @ u @ '' ''))) us"
proof -
  have "table_line us = CHR ''|'' # ('' '' @ join '' | '' us @ '' |'')" by (simp add: table_line_def)
  then have "split_pipes (table_line us) = [] # map (\<lambda>u. '' '' @ u @ '' '') us @ [[]]"
    using split_row [OF assms] by (simp only: split_pipe)
  then show ?thesis by (simp add: read_row_def butlast_append)
qed

lemma trim_escaped: "strip_blanks ('' '' @ escape_markdown v @ '' '') = escape_markdown (strip_blanks v)"
proof -
  have front: "dropWhile is_blank_char (escape_markdown v) = escape_markdown (dropWhile is_blank_char v)" for v
  proof (induction v)
    case (Cons c v)
    have "escape_char c = [bslash, c] \<or> escape_char c = [c]" using pipe_escaped [of c] by blast
    then show ?case using Cons escape_char_blank [of c] by (auto simp: is_blank_char_def)
  qed simp
  have behind: "rev (dropWhile is_blank_char (rev (escape_markdown v))) = escape_markdown (rev (dropWhile is_blank_char (rev v)))" for v
  proof (induction v rule: rev_induct)
    case (snoc c v)
    show ?case
    proof (cases "is_blank_char c")
      case True
      with snoc show ?thesis by (simp add: escape_char_blank)
    next
      case False
      then show ?thesis using pipe_escaped [of c] by auto
    qed
  qed simp
  have blank: "is_blank_char CHR '' ''" by (simp add: is_blank_char_def)
  have "dropWhile is_blank_char ('' '' @ escape_markdown v @ '' '') = dropWhile is_blank_char (escape_markdown (v @ '' ''))"
    using blank escape_char_blank [OF blank] by simp
  also have "\<dots> = escape_markdown (dropWhile is_blank_char (v @ '' ''))" by (rule front)
  finally have "strip_blanks ('' '' @ escape_markdown v @ '' '') = escape_markdown (rev (dropWhile is_blank_char (rev (dropWhile is_blank_char (v @ '' '')))))"
    unfolding strip_blanks_def by (simp only: behind)
  moreover have "rev (dropWhile is_blank_char (rev (dropWhile is_blank_char (v @ '' '')))) = strip_blanks v"
  proof (cases "dropWhile is_blank_char v = []")
    case True
    then have "dropWhile is_blank_char (v @ '' '') = []" using blank by (auto simp: dropWhile_eq_Nil_conv)
    with True show ?thesis unfolding strip_blanks_def by (simp only: rev.simps dropWhile.simps)
  next
    case False
    then have "dropWhile is_blank_char (v @ '' '') = dropWhile is_blank_char v @ '' ''"
      by (auto simp: dropWhile_eq_Nil_conv intro: dropWhile_append1)
    then show ?thesis using blank by (simp add: strip_blanks_def)
  qed
  ultimately show ?thesis by simp
qed

lemma read_table_line:
  assumes "vs \<noteq> []" and "\<forall>v\<in>set vs. newline \<notin> set v"
  shows "read_row (table_line (map escape_markdown vs)) = map strip_blanks vs"
proof -
  have "read_inline (escape_markdown (strip_blanks v)) = strip_blanks v" if "v \<in> set vs" for v
    using read_escaped [of "strip_blanks v" "[]"] set_strip_blanks [of v] assms(2) that by auto
  moreover have "\<forall>u\<in>set (map escape_markdown vs). uncut u" using uncut_escaped by auto
  ultimately show ?thesis using assms(1) trim_escaped by (simp add: read_uncut)
qed

section \<open>What a rendered table shows\<close>

definition spans_of :: "catalog \<Rightarrow> string list \<Rightarrow> source_span list" where
  "spans_of cat ids = map (\<lambda>i. the (dict_get cat i)) ids"

text \<open>The text of a cell: its lines trimmed and joined by spaces.\<close>

definition shown_text :: "catalog \<Rightarrow> 'a table_cell_scheme \<Rightarrow> string" where
  "shown_text cat c = join '' '' (trimmed_lines (joined_value (spans_of cat (gc_span_ids c))))"

definition cell_at :: "'a table_cell_scheme list \<Rightarrow> int \<Rightarrow> int \<Rightarrow> 'a table_cell_scheme" where
  "cell_at cells row column = hd (filter (covers row column) cells)"

lemma lookup_all: "traverse (lookup_span cat) ids = Inr ss \<Longrightarrow> ss = spans_of cat ids"
  by (induction ids arbitrary: ss) (auto simp: lookup_span_def spans_of_def split: sum.splits option.splits)

lemma resolved_value: "resolve_table_value cat ids = Inr v \<Longrightarrow> v = escape_markdown (join '' '' (trimmed_lines (joined_value (spans_of cat ids))))"
  by (auto simp: resolve_table_value_def escape_table_value_def trimmed_lines_def dest: lookup_all split: sum.splits)

lemma join_plain: "\<forall>l\<in>set ls. newline \<notin> set l \<Longrightarrow> newline \<notin> set sep \<Longrightarrow> newline \<notin> set (join sep ls)"
  by (induction sep ls rule: join.induct) auto

lemma shown_plain: "newline \<notin> set (shown_text cat c)"
  unfolding shown_text_def by (rule join_plain [OF trimmed_lines_plain]) simp

definition matrix_ok :: "int \<Rightarrow> int \<Rightarrow> matrix \<Rightarrow> bool" where
  "matrix_ok rows columns m \<longleftrightarrow> length m = nat rows \<and> (\<forall>r\<in>set m. length r = nat columns)"

definition square :: "matrix \<Rightarrow> int \<Rightarrow> int \<Rightarrow> string" where
  "square m row column = m ! nat row ! nat column"

lemma set_square_at:
  assumes "matrix_ok rows columns m" and "0 \<le> fst p" and "fst p < rows" and "0 \<le> snd p" and "snd p < columns"
    and "0 \<le> row" and "row < rows" and "0 \<le> column" and "column < columns"
  shows "matrix_ok rows columns (set_square v m p) \<and> square (set_square v m p) row column = (if p = (row, column) then v else square m row column)"
proof -
  have len: "nat (fst p) < length m" "nat row < length m" using assms by (simp_all add: matrix_ok_def)
  then have row: "length (m ! nat (fst p)) = nat columns" using assms(1) by (simp add: matrix_ok_def)
  have "matrix_ok rows columns (set_square v m p)"
    using assms(1) row by (auto simp: matrix_ok_def set_square_def dest!: set_update_subset_insert [THEN subsetD])
  moreover have "square (set_square v m p) row column = (if p = (row, column) then v else square m row column)"
    using assms len row by (cases p) (auto simp: square_def set_square_def nth_list_update)
  ultimately show ?thesis ..
qed

lemma set_squares_at:
  assumes "matrix_ok rows columns m" and "\<forall>p\<in>set ps. 0 \<le> fst p \<and> fst p < rows \<and> 0 \<le> snd p \<and> snd p < columns"
    and "0 \<le> row" and "row < rows" and "0 \<le> column" and "column < columns"
  shows "matrix_ok rows columns (foldl (set_square v) m ps)
    \<and> square (foldl (set_square v) m ps) row column = (if (row, column) \<in> set ps then v else square m row column)"
  using assms(1,2)
proof (induction ps arbitrary: m)
  case (Cons p ps)
  have "matrix_ok rows columns (set_square v m p) \<and> square (set_square v m p) row column = (if p = (row, column) then v else square m row column)"
    by (rule set_square_at) (use Cons.prems assms in auto)
  with Cons.IH [of "set_square v m p"] Cons.prems(2) show ?case by auto
qed simp

lemma cell_squares_iff: "(row, column) \<in> set (cell_squares c) \<longleftrightarrow> covers row column c"
  by (auto simp: cell_squares_def covers_def)

lemma filled_at:
  assumes "fold_ok (fill_cell cat) m cells = Inr m'" and "matrix_ok rows columns m" and "\<forall>c\<in>set cells. cell_inside rows columns c"
    and "0 \<le> row" and "row < rows" and "0 \<le> column" and "column < columns"
  shows "matrix_ok rows columns m' \<and> (length (filter (covers row column) cells) = 1 \<longrightarrow>
      square m' row column = escape_markdown (shown_text cat (cell_at cells row column)))
    \<and> (filter (covers row column) cells = [] \<longrightarrow> square m' row column = square m row column)"
  using assms(1-3)
proof (induction cells arbitrary: m)
  case (Cons c cells)
  from Cons.prems(1) obtain m1 where m1: "fill_cell cat m c = Inr m1" "fold_ok (fill_cell cat) m1 cells = Inr m'"
    by (auto split: sum.splits)
  then obtain v where v: "resolve_table_value cat (gc_span_ids c) = Inr v"
    and rest: "fold_ok (fill_cell cat) (foldl (set_square v) m (cell_squares c)) cells = Inr m'"
    by (auto simp: fill_cell_def)
  have "cell_inside rows columns c" using Cons.prems(3) by simp
  then have "\<forall>p\<in>set (cell_squares c). 0 \<le> fst p \<and> fst p < rows \<and> 0 \<le> snd p \<and> snd p < columns"
    by (auto simp: cell_squares_def cell_inside_def)
  from set_squares_at [OF Cons.prems(2) this assms(4-7), of v]
  have now: "matrix_ok rows columns (foldl (set_square v) m (cell_squares c))"
    "square (foldl (set_square v) m (cell_squares c)) row column = (if covers row column c then v else square m row column)"
    by (simp_all add: cell_squares_iff)
  from Cons.IH [OF rest now(1)] Cons.prems(3) have later: "matrix_ok rows columns m'"
    "length (filter (covers row column) cells) = 1 \<longrightarrow> square m' row column = escape_markdown (shown_text cat (cell_at cells row column))"
    "filter (covers row column) cells = [] \<longrightarrow> square m' row column = square (foldl (set_square v) m (cell_squares c)) row column" by auto
  have "v = escape_markdown (shown_text cat c)" using resolved_value [OF v] by (simp add: shown_text_def)
  with later now(2) show ?case by (auto simp: cell_at_def)
qed simp

definition shown_row :: "catalog \<Rightarrow> 'a table_cell_scheme list \<Rightarrow> int \<Rightarrow> nat \<Rightarrow> string list" where
  "shown_row cat cells columns row =
     map (\<lambda>column. strip_blanks (shown_text cat (cell_at cells (int row) (int column)))) [0..<nat columns]"

lemma table_line_plain: "\<forall>v\<in>set vs. newline \<notin> set v \<Longrightarrow> newline \<notin> set (table_line vs)"
  using join_plain [of vs "'' | ''"] by (simp add: table_line_def)

lemma escaped_plain: "newline \<notin> set s \<Longrightarrow> newline \<notin> set (escape_markdown s)"
  by (induction s) (auto simp: escape_char_def)

text \<open>(C32) A rendered table has one line per row of the grid, after the header row (empty when no
  cell is a header) and the delimiter row; read by the table syntax, every line has one cell per column, and the cell in a
  row and column shows the text of the one table cell that covers this square.\<close>

theorem rendered_table_shows_cells:
  assumes "render_table cat rows columns cells = Inr page"
  shows "map read_row (split_on newline page) =
      (case header_row_of cells of None \<Rightarrow> replicate (nat columns) [] | Some r \<Rightarrow> shown_row cat cells columns r)
      # replicate (nat columns) ''---''
      # map (shown_row cat cells columns) (filter (\<lambda>r. header_row_of cells \<noteq> Some r) [0..<nat rows])"
proof -
  from assms obtain m where grid: "validate_grid cells rows columns ''TABLE_BLOCK'' = Inr ()"
    and fill: "fold_ok (fill_cell cat) (replicate (nat rows) (replicate (nat columns) [])) cells = Inr m"
    and page: "page = join [newline] (table_line (case header_row_of cells of Some r \<Rightarrow> m ! r | None \<Rightarrow> replicate (nat columns) [])
        # table_line (replicate (nat columns) ''---'') # map table_line (map snd (filter (\<lambda>(i, row). header_row_of cells \<noteq> Some i) (enumerate 0 m))))"
    by (auto simp: render_table_def Let_def)
  from grid have limits: "0 < rows" "0 < columns" and inside: "\<forall>c\<in>set cells. cell_inside rows columns c"
    and once: "\<And>row column. 0 \<le> row \<Longrightarrow> row < rows \<Longrightarrow> 0 \<le> column \<Longrightarrow> column < columns \<Longrightarrow> length (filter (covers row column) cells) = 1"
    by (auto simp: grid_accepted_iff grid_limits_def)
  have m: "matrix_ok rows columns m" and squares: "\<And>row column. 0 \<le> row \<Longrightarrow> row < rows \<Longrightarrow> 0 \<le> column \<Longrightarrow> column < columns
      \<Longrightarrow> square m row column = escape_markdown (shown_text cat (cell_at cells row column))"
  proof -
    have start: "matrix_ok rows columns (replicate (nat rows) (replicate (nat columns) []))" by (simp add: matrix_ok_def)
    show "matrix_ok rows columns m" using filled_at [OF fill start inside, of 0 0] limits by simp
    fix row column
    assume "0 \<le> row" "row < rows" "0 \<le> column" "column < columns"
    with filled_at [OF fill start inside this] once show "square m row column = escape_markdown (shown_text cat (cell_at cells row column))" by simp
  qed
  let ?texts = "\<lambda>r. map (\<lambda>column. shown_text cat (cell_at cells (int r) (int column))) [0..<nat columns]"
  have row: "m ! r = map escape_markdown (?texts r)" if "r < nat rows" for r
  proof (rule nth_equalityI)
    show "length (m ! r) = length (map escape_markdown (?texts r))" using m that by (simp add: matrix_ok_def)
    fix k
    assume "k < length (m ! r)"
    then have "k < nat columns" using m that by (simp add: matrix_ok_def)
    with squares [of "int r" "int k"] that show "m ! r ! k = map escape_markdown (?texts r) ! k" by (simp add: square_def)
  qed
  have shown: "read_row (table_line (m ! r)) = shown_row cat cells columns r" if "r < nat rows" for r
  proof -
    have "read_row (table_line (map escape_markdown (?texts r))) = map strip_blanks (?texts r)"
      using limits(2) shown_plain by (intro read_table_line) auto
    then show ?thesis unfolding row [OF that] by (simp add: shown_row_def)
  qed
  have header: "r < nat rows" if "header_row_of cells = Some r" for r
  proof -
    let ?hs = "map gc_start_row (filter gc_column_header cells)"
    from that have "?hs \<noteq> []" "r = nat (Min (set ?hs))" 
      unfolding header_row_of_def Let_def by (metis option.distinct(1), metis option.distinct(1) option.inject)
    moreover from this(1) have "Min (set ?hs) \<in> set ?hs" by (intro Min_in) (simp_all only: set_empty finite_set not_False_eq_True)
    ultimately obtain c where "c \<in> set cells" "r = nat (gc_start_row c)" by auto
    with inside limits show ?thesis by (auto simp: cell_inside_def)
  qed
  have rows: "map snd (filter (\<lambda>(i, row). P i) (enumerate 0 m)) = map ((!) m) (filter P [0..<nat rows])" for P
  proof -
    have "enumerate 0 m = map (\<lambda>i. (i, m ! i)) [0..<nat rows]"
      using m by (intro nth_equalityI) (simp_all add: matrix_ok_def nth_enumerate_eq)
    then show ?thesis by (simp add: filter_map comp_def)
  qed
  have plain: "newline \<notin> set (table_line (m ! r))" if "r < nat rows" for r
    unfolding row [OF that] using escaped_plain shown_plain by (intro table_line_plain) auto
  have blank: "read_row (table_line (replicate (nat columns) [])) = replicate (nat columns) []"
    using read_table_line [of "replicate (nat columns) []"] limits(2) by (simp add: strip_blanks_def)
  have dashes: "read_row (table_line (replicate (nat columns) ''---'')) = replicate (nat columns) ''---''"
    using limits(2) uncut_dashes by (simp add: read_uncut strip_blanks_def is_blank_char_def)
  let ?head = "table_line (case header_row_of cells of Some r \<Rightarrow> m ! r | None \<Rightarrow> replicate (nat columns) [])"
    and ?rest = "filter (\<lambda>r. header_row_of cells \<noteq> Some r) [0..<nat rows]"
  have "newline \<notin> set ?head" using plain header table_line_plain [of "replicate (nat columns) []"] by (cases "header_row_of cells") auto
  moreover have "newline \<notin> set (table_line (replicate (nat columns) ''---''))" by (rule table_line_plain) simp
  moreover have "newline \<notin> set l" if "l \<in> set (map table_line (map ((!) m) ?rest))" for l using that plain by auto
  ultimately have "split_on newline page = ?head # table_line (replicate (nat columns) ''---'') # map table_line (map ((!) m) ?rest)"
    unfolding page rows by (intro split_join) auto
  moreover have "read_row ?head = (case header_row_of cells of None \<Rightarrow> replicate (nat columns) [] | Some r \<Rightarrow> shown_row cat cells columns r)"
    using blank shown header by (cases "header_row_of cells") auto
  ultimately show ?thesis using dashes shown by simp
qed

section \<open>Samples and findings\<close>

theorem reconciliation_coverage_witness:
  "\<not> is_ok (validate_source_coverage native2 \<lparr>rc_blocks = [ParagraphBlock 4 [''span_'' @ replicate 16 CHR ''0'']], rc_excluded_spans = []\<rparr>)"
  using reconciliation_coverage [OF native2_valid reconciled2 refl] by simp

definition catalog1 :: catalog where
  "catalog1 = [(''s'', source_line CHR ''0'' 0 ''a|b'')]"

definition cell1 :: table_cell where
  "cell1 = (grid_cell 0 1 0 1)\<lparr>gc_span_ids := [''s'']\<rparr>"

lemma sample_texts:
  "trimmed_lines ''a|b'' = [''a|b'']" "strip_blanks ''a|b'' = ''a|b''"
  by (simp_all add: trimmed_lines_def strip_blanks_def is_blank_char_def)

lemma sample_value: "joined_value (spans_of catalog1 [''s'']) = ''a|b''"
  by (simp add: joined_value_def spans_of_def catalog1_def source_line_def break_before_def)

lemma sample_cell: "shown_text catalog1 cell1 = ''a|b''" "cell_at [cell1] 0 0 = cell1" "header_row_of [cell1] = None"
  by (simp add: shown_text_def cell1_def sample_texts sample_value)
    (simp_all add: cell_at_def covers_def header_row_of_def cell1_def grid_cell_def)

lemma sample_row: "shown_row catalog1 [cell1] 1 0 = [''a|b'']"
  by (simp add: shown_row_def sample_cell sample_texts)

lemma sample_table: "is_ok (render_table catalog1 1 1 [cell1])"
proof -
  have "validate_grid [cell1] 1 1 ''TABLE_BLOCK'' = Inr ()"
    unfolding grid_accepted_iff grid_limits_def cell_inside_def covers_def cell1_def grid_cell_def
      MAX_TABLE_ROWS_def MAX_TABLE_COLUMNS_def MAX_TABLE_GRID_AREA_def MAX_TABLE_CELLS_def by auto
  moreover have "lookup_span catalog1 ''s'' = Inr (source_line CHR ''0'' 0 ''a|b'')" by (simp add: lookup_span_def catalog1_def)
  then have "\<exists>m'. fill_cell catalog1 m cell1 = Inr m'" for m
    by (simp add: fill_cell_def resolve_table_value_def cell1_def)
  then obtain m' where "fill_cell catalog1 [[[]]] cell1 = Inr m'" by blast
  ultimately show ?thesis by (simp add: render_table_def Let_def)
qed

theorem rendered_table_shows_cells_witness:
  "\<exists>page. render_table catalog1 1 1 [cell1] = Inr page \<and> map read_row (split_on newline page) = [[[]], [''---''], [''a|b'']]"
proof -
  from sample_table obtain page where page: "render_table catalog1 1 1 [cell1] = Inr page" by (auto simp: is_ok_iff)
  have "map read_row (split_on newline page) = replicate (nat 1) [] # replicate (nat 1) ''---''
      # map (shown_row catalog1 [cell1] 1) (filter (\<lambda>r. None \<noteq> Some r) [0..<nat 1])"
    using rendered_table_shows_cells [OF page] unfolding sample_cell option.case .
  also have "\<dots> = [[[]], [''---''], [''a|b'']]" by (simp add: sample_row)
  finally have "map read_row (split_on newline page) = [[[]], [''---''], [''a|b'']]" .
  with page show ?thesis by (intro exI [of _ page] conjI)
qed

text \<open>The guard against raw HTML ignores the backslashes: escaped text with a tag that has an attribute is refused, while the same
  tag without an attribute passes. None of the characters is active markup in either.\<close>

theorem guard_refuses_escaped_tags:
  "active_marks (escape_inline ''<a b>'') = [] \<and> has_raw_html (escape_inline ''<a b>'') \<and> \<not> has_raw_html (escape_inline ''<a>'')"
proof -
  have e: "escape_inline ''<a b>'' = [bslash] @ ''<a b'' @ [bslash] @ ''>''" "escape_inline ''<a>'' = [bslash] @ ''<a'' @ [bslash] @ ''>''"
    by (simp_all add: escape_inline_def escape_inline_line_def strip_blanks_def is_blank_char_def escape_char_def
        COMMONMARK_ESCAPABLE_PUNCTUATION_def)
  have "active_marks ([bslash] @ ''<a b'' @ [bslash] @ ''>'') = []" by code_simp
  moreover have "has_raw_html ([bslash] @ ''<a b'' @ [bslash] @ ''>'')" by code_simp
  moreover have "\<not> has_raw_html ([bslash] @ ''<a'' @ [bslash] @ ''>'')" by code_simp
  ultimately show ?thesis unfolding e by blast
qed

text \<open>A text that ends in a line break loses the break when the chunk is stripped and keeps its backslash, which then stands in the page as
  a character of the text.\<close>

theorem trailing_break_leaves_a_backslash:
  "rstrip_newlines (escape_inline (''a'' @ [newline])) = [CHR ''a'', bslash]
   \<and> read_inline (rstrip_newlines (escape_inline (''a'' @ [newline]))) = [CHR ''a'', bslash]"
proof -
  have e: "escape_inline (''a'' @ [newline]) = ''a'' @ [bslash, newline]"
    by (simp add: escape_inline_def escape_inline_line_def strip_blanks_def is_blank_char_def escape_char_def
        COMMONMARK_ESCAPABLE_PUNCTUATION_def)
  show ?thesis unfolding e by (simp add: rstrip_newlines_def escaped_by_backslash_def)
qed

end
