(* ===== verification/Ocr_Correction.thy ===== *)
theory Ocr_Correction
  imports Characters Markdown Llm_Service
begin

text \<open>
  The correction of recognised text by an image model (\<open>semantic/correction.py\<close>): the request for a page, the validation of
  the answer, the audits, and the loop over the pages with the reuse of trusted audits. The answer of the provider is any JSON
  value. The lemmas show what a correction can change at most, that every page is audited, and that a reused
  audit gives the same text without a call.
\<close>

section \<open>Limits and environment\<close>

definition MAX_PAGE_IMAGE_BYTES :: nat where "MAX_PAGE_IMAGE_BYTES = 8 * 1024 * 1024"
definition MAX_PAGE_SPANS :: nat where "MAX_PAGE_SPANS = 2000"
definition MAX_CORRECTED_GROWTH :: nat where "MAX_CORRECTED_GROWTH = 2"
definition MAX_CHARACTER_CORRECTIONS :: nat where "MAX_CHARACTER_CORRECTIONS = 4"
definition MAX_CHARACTER_CORRECTION_RATIO :: rat where "MAX_CHARACTER_CORRECTION_RATIO = 15/100"

text \<open>The double that the literal \<open>0.80\<close> denotes.\<close>

definition MIN_CORRECTION_CONFIDENCE :: rat where
  "MIN_CORRECTION_CONFIDENCE = 3602879701896397 / 4503599627370496"

definition OCR_CORRECTION_PROMPT_VERSION :: string where
  "OCR_CORRECTION_PROMPT_VERSION = ''semantic-visual-correction-v2''"

definition PROMPT :: string where
  "PROMPT =
     ''Inspect the supplied page image and extracted PDF span catalog. Return only sparse patches for character-recognition or spacing errors that are visibly supported by the image. Do not summarize, paraphrase, translate, add, delete, reorder, or restructure content. Omit spans that need no correction and copy each span ID, original hash, and bounding box exactly.''"

text \<open>The conversions of the libraries: the float read from a JSON value (\<open>oc_float\<close>, None where it is refused), the
  text of a float, \<open>str\<close> of a JSON value that is no string, and the JSON schema of the answer.\<close>

record ocr_env =
  oc_library :: library
  oc_float :: "json \<Rightarrow> rat option"
  oc_repr :: "rat \<Rightarrow> string"
  oc_str :: "json option \<Rightarrow> string"
  oc_schema :: json

section \<open>The request for a page\<close>

record page_snapshot =
  ps_source_hash :: string
  ps_page :: int
  ps_page_image :: string
  ps_page_image_hash :: string
  ps_spans :: "source_span list"
  ps_ocr_catalog_hash :: string
  ps_prompt_hash :: string
  ps_schema_hash :: string
  ps_repair_prompt_hash :: string
  ps_provider :: string
  ps_model :: string
  ps_request_hash :: string

definition dump_box :: "ocr_env \<Rightarrow> source_box \<Rightarrow> json" where
  "dump_box E b = JObj [(''left'', JFloat (oc_repr E (sb_left b))), (''bottom'', JFloat (oc_repr E (sb_bottom b))),
     (''right'', JFloat (oc_repr E (sb_right b))), (''top'', JFloat (oc_repr E (sb_top b)))]"

definition dump_opt_box :: "ocr_env \<Rightarrow> source_box option \<Rightarrow> json" where
  "dump_opt_box E b = (case b of None \<Rightarrow> JNull | Some b \<Rightarrow> dump_box E b)"

definition STRUCTURED_REPAIR_PROMPT_VERSION :: string where
  "STRUCTURED_REPAIR_PROMPT_VERSION = ''structured-output-repair-v1''"

definition catalog_entry :: "ocr_env \<Rightarrow> source_span \<Rightarrow> json" where
  "catalog_entry E s = JObj [(''span_id'', JStr (ss_span_id s)), (''text_hash'', JStr (ss_text_hash s)), (''bbox'', dump_opt_box E (ss_bbox s))]"

definition make_page_snapshot ::
  "ocr_env \<Rightarrow> string \<Rightarrow> int \<Rightarrow> string \<Rightarrow> source_span list \<Rightarrow> string \<Rightarrow> string \<Rightarrow> page_snapshot result" where
  "make_page_snapshot E source_hash page picture spans provider model =
     (let L = oc_library E
      in if page < 1 \<or> length spans > MAX_PAGE_SPANS then Inl (ValueError ''SEMANTIC_OCR_CORRECTION_PAGE_LIMIT_EXCEEDED'')
         else if picture = [] \<or> length picture > MAX_PAGE_IMAGE_BYTES then Inl (ValueError ''SEMANTIC_OCR_CORRECTION_IMAGE_LIMIT_EXCEEDED'')
         else if list_ex (\<lambda>s. ss_page s \<noteq> Some page \<or> ss_bbox s = None) spans then Inl (ValueError ''SEMANTIC_OCR_CORRECTION_EVIDENCE_INVALID'')
         else
           bind_ok (canonical_hash L (as_python (oc_schema E))) (\<lambda>schema_hash.
           bind_ok (structured_repair_prompt_contract_hash L (oc_schema E)) (\<lambda>repair_prompt_hash.
           bind_ok (canonical_hash L (as_python (JArr (map (catalog_entry E) spans)))) (\<lambda>ocr_catalog_hash.
             let prompt_hash = lib_sha256 L PROMPT; page_image_hash = lib_sha256 L picture
             in bind_ok (canonical_hash L (PDict
                  [(''source_hash'', PStr source_hash), (''page'', PInt page), (''page_image_hash'', PStr page_image_hash),
                   (''ocr_catalog_hash'', PStr ocr_catalog_hash), (''prompt_version'', PStr OCR_CORRECTION_PROMPT_VERSION),
                   (''prompt_hash'', PStr prompt_hash), (''schema_hash'', PStr schema_hash),
                   (''repair_prompt_version'', PStr STRUCTURED_REPAIR_PROMPT_VERSION), (''repair_prompt_hash'', PStr repair_prompt_hash),
                   (''provider'', PStr provider), (''model'', PStr model)])) (\<lambda>request_hash.
                Inr \<lparr>ps_source_hash = source_hash, ps_page = page, ps_page_image = picture, ps_page_image_hash = page_image_hash,
                     ps_spans = spans, ps_ocr_catalog_hash = ocr_catalog_hash, ps_prompt_hash = prompt_hash, ps_schema_hash = schema_hash,
                     ps_repair_prompt_hash = repair_prompt_hash, ps_provider = provider, ps_model = model, ps_request_hash = request_hash\<rparr>)))))"

section \<open>The validation of one patch\<close>

fun json_get :: "json \<Rightarrow> string \<Rightarrow> json option" where
  "json_get (JObj d) k = dict_get d k"
| "json_get _ k = None"

fun json_keys :: "json \<Rightarrow> string set" where
  "json_keys (JObj d) = set (map fst d)"
| "json_keys _ = {}"

fun is_object :: "json \<Rightarrow> bool" where
  "is_object (JObj d) = True"
| "is_object _ = False"

text \<open>A value can be an element of a Python set unless it is a list or a dictionary.\<close>

fun set_element :: "json option \<Rightarrow> bool" where
  "set_element (Some (JArr xs)) = False"
| "set_element (Some (JObj d)) = False"
| "set_element _ = True"

definition unhashable_type :: exn where
  "unhashable_type = TypeError ''unhashable type''"

text \<open>\<open>SourceBox.model_validate\<close>: exactly the four fields, each a float.\<close>

definition parse_box :: "ocr_env \<Rightarrow> json option \<Rightarrow> source_box option" where
  "parse_box E v =
     (case v of
        Some (JObj d) \<Rightarrow>
          if set (map fst d) \<noteq> {''left'', ''bottom'', ''right'', ''top''} then None
          else (case map (\<lambda>k. Option.bind (dict_get d k) (oc_float E)) [''left'', ''bottom'', ''right'', ''top''] of
                  [Some l, Some b, Some r, Some t] \<Rightarrow>
                    (case SourceBox \<lparr>sb_left = l, sb_bottom = b, sb_right = r, sb_top = t\<rparr> of Inl e \<Rightarrow> None | Inr box \<Rightarrow> Some box)
                | _ \<Rightarrow> None)
      | _ \<Rightarrow> None)"

text \<open>The category Cc: the control codes below 32, 127 and the range from 128 to 159, which is encoded after the byte 194.\<close>

definition control_character :: "string \<Rightarrow> bool" where
  "control_character c \<longleftrightarrow>
     (case map (of_char :: char \<Rightarrow> nat) c of [n] \<Rightarrow> n < 32 \<or> n = 127 | [m, n] \<Rightarrow> m = 194 \<and> 128 \<le> n \<and> n < 160 | _ \<Rightarrow> False)"

text \<open>\<open>int(n * ratio)\<close> is the floor of a product that is not negative.\<close>

definition allowed_changes :: "string list \<Rightarrow> nat" where
  "allowed_changes cs =
     max 1 (min MAX_CHARACTER_CORRECTIONS (nat \<lfloor>of_nat (length (filter (\<lambda>c. \<not> space_character c) cs)) * MAX_CHARACTER_CORRECTION_RATIO\<rfloor>))"

definition correction_text_code :: "string \<Rightarrow> string \<Rightarrow> correction_kind \<Rightarrow> string option" where
  "correction_text_code source corrected kind =
     (if kind = Spacing
      then (if source = corrected \<or> without_whitespace source \<noteq> without_whitespace corrected
            then Some ''SEMANTIC_OCR_CORRECTION_SPACING_INVALID'' else None)
      else
        let ss = characters source; cs = characters corrected
        in if length ss \<noteq> length cs
              \<or> list_ex (\<lambda>(s, c). space_character s \<noteq> space_character c \<or> space_character s \<and> s \<noteq> c) (zip ss cs)
           then Some ''SEMANTIC_OCR_CORRECTION_RECOGNITION_INVALID''
           else let changed = length (filter (\<lambda>(s, c). s \<noteq> c) (zip ss cs))
                in if changed = 0 \<or> changed > allowed_changes ss then Some ''SEMANTIC_OCR_CORRECTION_RECOGNITION_INVALID'' else None)"

definition kind_of_json :: "json option \<Rightarrow> correction_kind option" where
  "kind_of_json v =
     (if v = Some (JStr ''character_recognition'') then Some Character_Recognition
      else if v = Some (JStr ''spacing'') then Some Spacing else None)"

text \<open>\<open>isinstance(x, int | float)\<close> and not a boolean.\<close>

definition number_of_json :: "ocr_env \<Rightarrow> json option \<Rightarrow> rat option" where
  "number_of_json E v = (case v of Some (JInt n) \<Rightarrow> Some (of_int n) | Some (JFloat r) \<Rightarrow> oc_float E (JFloat r) | _ \<Rightarrow> None)"

definition PATCH_KEYS :: "string set" where
  "PATCH_KEYS = {''span_id'', ''original_text_hash'', ''corrected_text'', ''correction_kind'', ''bbox'', ''confidence''}"

text \<open>The checks of the corrected text against the text of its span.\<close>

definition corrected_code :: "ocr_env \<Rightarrow> source_span \<Rightarrow> string \<Rightarrow> json \<Rightarrow> string option result" where
  "corrected_code E s corrected raw =
     (let count = (\<lambda>t. length (filter (\<lambda>c. c = newline) t)); kind = json_get raw ''correction_kind''
      in if corrected = [] then Inr (Some ''SEMANTIC_OCR_CORRECTION_TEXT_EMPTY'')
         else if length (characters corrected) > length (characters (ss_text s)) * MAX_CORRECTED_GROWTH
         then Inr (Some ''SEMANTIC_OCR_CORRECTION_TEXT_GROWTH_EXCEEDED'')
         else if count corrected \<noteq> count (ss_text s) then Inr (Some ''SEMANTIC_OCR_CORRECTION_LINE_BLOCK_CHANGE'')
         else if \<not> set_element kind then Inl unhashable_type
         else case kind_of_json kind of
                None \<Rightarrow> Inr (Some ''SEMANTIC_OCR_CORRECTION_KIND_INVALID'')
              | Some k \<Rightarrow>
                  if has_raw_html corrected \<or> list_ex (\<lambda>c. control_character c \<and> c \<noteq> [newline]) (characters corrected)
                  then Inr (Some ''SEMANTIC_OCR_CORRECTION_TEXT_UNSAFE'')
                  else case correction_text_code (ss_text s) corrected k of
                         Some code \<Rightarrow> Inr (Some code)
                       | None \<Rightarrow>
                           (case number_of_json E (json_get raw ''confidence'') of
                              None \<Rightarrow> Inr (Some ''SEMANTIC_OCR_CORRECTION_SCHEMA_INVALID'')
                            | Some c \<Rightarrow>
                                if \<not> (0 \<le> c \<and> c \<le> 1) then Inr (Some ''SEMANTIC_OCR_CORRECTION_SCHEMA_INVALID'')
                                else if c < MIN_CORRECTION_CONFIDENCE then Inr (Some ''SEMANTIC_OCR_CORRECTION_CONFIDENCE_LOW'')
                                else Inr None))"

definition patch_code :: "ocr_env \<Rightarrow> catalog \<Rightarrow> json \<Rightarrow> string option result" where
  "patch_code E cat raw =
     (if \<not> is_object raw \<or> json_keys raw \<noteq> PATCH_KEYS then Inr (Some ''SEMANTIC_OCR_CORRECTION_SCHEMA_INVALID'')
      else case json_get raw ''span_id'' of
             Some (JStr span_id) \<Rightarrow>
               (case dict_get cat span_id of
                  None \<Rightarrow> Inr (Some ''SEMANTIC_OCR_CORRECTION_UNKNOWN_SPAN'')
                | Some s \<Rightarrow>
                    if json_get raw ''original_text_hash'' \<noteq> Some (JStr (ss_text_hash s)) then Inr (Some ''SEMANTIC_OCR_CORRECTION_HASH_MISMATCH'')
                    else if parse_box E (json_get raw ''bbox'') = None \<or> parse_box E (json_get raw ''bbox'') \<noteq> ss_bbox s
                    then Inr (Some ''SEMANTIC_OCR_CORRECTION_BOX_MISMATCH'')
                    else case json_get raw ''corrected_text'' of
                           Some (JStr corrected) \<Rightarrow> corrected_code E s corrected raw
                         | _ \<Rightarrow> Inr (Some ''SEMANTIC_OCR_CORRECTION_SCHEMA_INVALID''))
           | _ \<Rightarrow> Inr (Some ''SEMANTIC_OCR_CORRECTION_UNKNOWN_SPAN''))"

section \<open>The validation of a page\<close>

definition raw_patches :: "json \<Rightarrow> json list" where
  "raw_patches response = (case json_get response ''patches'' of Some (JArr ps) \<Rightarrow> ps | _ \<Rightarrow> [])"

definition plan_ok :: "json \<Rightarrow> bool" where
  "plan_ok response \<longleftrightarrow> (case json_get response ''request_hash'' of Some (JStr h) \<Rightarrow> Sha256 h | _ \<Rightarrow> False)
     \<and> length (raw_patches response) \<le> 2000
     \<and> list_all (\<lambda>p. (case json_get p ''span_id'' of Some (JStr i) \<Rightarrow> SpanId i | _ \<Rightarrow> False)
          \<and> (case json_get p ''original_text_hash'' of Some (JStr h) \<Rightarrow> Sha256 h | _ \<Rightarrow> False)) (raw_patches response)"

text \<open>The loop stops at the first patch with a code.\<close>

fun first_code :: "('a \<Rightarrow> string option result) \<Rightarrow> 'a list \<Rightarrow> string option result" where
  "first_code f [] = Inr None"
| "first_code f (x # xs) = bind_ok (f x) (\<lambda>c. case c of None \<Rightarrow> first_code f xs | Some code \<Rightarrow> Inr (Some code))"

text \<open>What Python's set compares: booleans, integers and floats by their number, a missing value as \<open>None\<close>; a float
  without a rational value counts by its text.\<close>

fun set_value :: "ocr_env \<Rightarrow> json option \<Rightarrow> rat option \<times> json" where
  "set_value E None = (None, JNull)"
| "set_value E (Some (JBool b)) = (Some (if b then 1 else 0), JNull)"
| "set_value E (Some (JInt n)) = (Some (of_int n), JNull)"
| "set_value E (Some (JFloat r)) = (case oc_float E (JFloat r) of Some x \<Rightarrow> (Some x, JNull) | None \<Rightarrow> (None, JFloat r))"
| "set_value E (Some v) = (None, v)"

definition page_validation_code :: "ocr_env \<Rightarrow> page_snapshot \<Rightarrow> json \<Rightarrow> string option result" where
  "page_validation_code E snapshot response =
     (let patches = raw_patches response; ids = map (\<lambda>p. json_get p ''span_id'') (filter is_object patches)
      in if \<not> is_object response \<or> json_keys response \<noteq> {''request_hash'', ''patches''} then Inr (Some ''SEMANTIC_OCR_CORRECTION_SCHEMA_INVALID'')
         else if json_get response ''request_hash'' \<noteq> Some (JStr (ps_request_hash snapshot)) then Inr (Some ''SEMANTIC_OCR_CORRECTION_REQUEST_MISMATCH'')
         else if \<not> (case json_get response ''patches'' of Some (JArr ps) \<Rightarrow> True | _ \<Rightarrow> False) \<or> length patches > MAX_PAGE_SPANS
         then Inr (Some ''SEMANTIC_OCR_CORRECTION_SCHEMA_INVALID'')
         else if length ids \<noteq> length patches then Inr (Some ''SEMANTIC_OCR_CORRECTION_SCHEMA_INVALID'')
         else if \<not> list_all set_element ids then Inl unhashable_type
         else if \<not> distinct (map (set_value E) ids) then Inr (Some ''SEMANTIC_OCR_CORRECTION_DUPLICATE_SPAN'')
         else bind_ok (first_code (patch_code E (dict_of ss_span_id id (ps_spans snapshot))) patches) (\<lambda>c.
           Inr (case c of Some code \<Rightarrow> Some code
                | None \<Rightarrow> if plan_ok response then None else Some ''SEMANTIC_OCR_CORRECTION_SCHEMA_INVALID'')))"

definition effective_prompt_hash :: "ocr_env \<Rightarrow> page_snapshot \<Rightarrow> string list \<Rightarrow> string result" where
  "effective_prompt_hash E snapshot codes =
     canonical_hash (oc_library E) (PDict [(''prompt_hash'', PStr (ps_prompt_hash snapshot)),
       (''repair_prompt_version'', PStr STRUCTURED_REPAIR_PROMPT_VERSION), (''repair_prompt_hash'', PStr (ps_repair_prompt_hash snapshot)),
       (''repair_validation_codes'', PSeq (map PStr codes))])"

text \<open>The counts of the provider's retries and repairs, and the codes of the repairs.\<close>

record attempts =
  at_retry_count :: int
  at_repair_count :: int
  at_repair_codes :: "string list"

definition no_attempts :: attempts where
  "no_attempts = \<lparr>at_retry_count = 0, at_repair_count = 0, at_repair_codes = []\<rparr>"

definition page_audit ::
  "ocr_env \<Rightarrow> page_snapshot \<Rightarrow> ocr_outcome \<Rightarrow> ocr_patch_audit list \<Rightarrow> string option \<Rightarrow> attempts \<Rightarrow> ocr_page_audit result" where
  "page_audit E snapshot outcome patches error_code att =
     bind_ok (effective_prompt_hash E snapshot (at_repair_codes att)) (\<lambda>h.
       OcrCorrectionPageAudit
         \<lparr>oa_source_hash = ps_source_hash snapshot, oa_page = ps_page snapshot, oa_page_image_hash = ps_page_image_hash snapshot,
          oa_ocr_catalog_hash = ps_ocr_catalog_hash snapshot, oa_request_hash = ps_request_hash snapshot,
          oa_prompt_version = OCR_CORRECTION_PROMPT_VERSION, oa_prompt_hash = ps_prompt_hash snapshot, oa_schema_hash = ps_schema_hash snapshot,
          oa_repair_prompt_version = STRUCTURED_REPAIR_PROMPT_VERSION, oa_repair_prompt_hash = ps_repair_prompt_hash snapshot,
          oa_effective_prompt_hash = h, oa_provider = ps_provider snapshot, oa_model = ps_model snapshot,
          oa_repair_validation_codes = at_repair_codes att, oa_outcome = outcome, oa_patches = patches,
          oa_provider_error_code = error_code, oa_retry_count = at_retry_count att, oa_repair_count = at_repair_count att\<rparr>)"

definition rejected_patch_audit :: "ocr_env \<Rightarrow> json \<Rightarrow> string \<Rightarrow> ocr_patch_audit result" where
  "rejected_patch_audit E raw code =
     (if \<not> set_element (json_get raw ''correction_kind'') then Inl unhashable_type
      else OcrCorrectionPatchAudit (oc_library E)
        \<lparr>pa_span_id = (case json_get raw ''span_id'' of Some (JStr i) \<Rightarrow> if SpanId i then i else ''span_0000000000000000'' | _ \<Rightarrow> ''span_0000000000000000''),
         pa_original_text_hash = (case json_get raw ''original_text_hash'' of Some (JStr h) \<Rightarrow> if Sha256 h then h else replicate 64 CHR ''0''
                                  | _ \<Rightarrow> replicate 64 CHR ''0''),
         pa_corrected_text = None, pa_corrected_text_hash = None,
         pa_rejected_text_hash = Some (lib_sha256 (oc_library E) (case json_get raw ''corrected_text'' of Some (JStr t) \<Rightarrow> t | v \<Rightarrow> oc_str E v)),
         pa_bbox = parse_box E (json_get raw ''bbox''), pa_correction_kind = kind_of_json (json_get raw ''correction_kind''),
         pa_confidence = (case number_of_json E (json_get raw ''confidence'') of
                            Some c \<Rightarrow> if 0 \<le> c \<and> c \<le> 1 then Some c else None | None \<Rightarrow> None),
         pa_outcome = O_Rejected, pa_validation_code = Some (if code_pattern code then code else ''SEMANTIC_OCR_CORRECTION_REJECTED'')\<rparr>)"

record page_validation =
  pv_spans :: "source_span list"
  pv_audit :: ocr_page_audit
  pv_warning_codes :: "string list"

definition json_string :: "json \<Rightarrow> string \<Rightarrow> string" where
  "json_string v k = (case json_get v k of Some (JStr s) \<Rightarrow> s | _ \<Rightarrow> [])"

definition corrected_span :: "library \<Rightarrow> source_span \<Rightarrow> string \<Rightarrow> source_span" where
  "corrected_span L s t = s\<lparr>ss_text := t, ss_text_hash := lib_sha256 L t\<rparr>"

definition applied_patch_audit :: "ocr_env \<Rightarrow> ocr_outcome \<Rightarrow> json \<Rightarrow> ocr_patch_audit result" where
  "applied_patch_audit E outcome p =
     OcrCorrectionPatchAudit (oc_library E)
       \<lparr>pa_span_id = json_string p ''span_id'', pa_original_text_hash = json_string p ''original_text_hash'',
        pa_corrected_text = Some (json_string p ''corrected_text''),
        pa_corrected_text_hash = Some (lib_sha256 (oc_library E) (json_string p ''corrected_text'')), pa_rejected_text_hash = None,
        pa_bbox = parse_box E (json_get p ''bbox''), pa_correction_kind = kind_of_json (json_get p ''correction_kind''),
        pa_confidence = number_of_json E (json_get p ''confidence''), pa_outcome = outcome, pa_validation_code = None\<rparr>"

definition apply_patch ::
  "ocr_env \<Rightarrow> catalog \<Rightarrow> ocr_outcome \<Rightarrow> catalog \<times> ocr_patch_audit list \<Rightarrow> json \<Rightarrow> (catalog \<times> ocr_patch_audit list) result" where
  "apply_patch E cat outcome st p =
     bind_ok (lookup_span cat (json_string p ''span_id'')) (\<lambda>s.
     bind_ok (applied_patch_audit E outcome p) (\<lambda>a.
       Inr (dict_set (json_string p ''span_id'') (corrected_span (oc_library E) s (json_string p ''corrected_text'')) (fst st), snd st @ [a])))"

definition validate_page_corrections ::
  "ocr_env \<Rightarrow> page_snapshot \<Rightarrow> json \<Rightarrow> ocr_outcome \<Rightarrow> attempts \<Rightarrow> page_validation result" where
  "validate_page_corrections E snapshot response outcome att =
     bind_ok (page_validation_code E snapshot response) (\<lambda>code.
       case code of
         Some code \<Rightarrow>
           bind_ok (traverse (\<lambda>p. rejected_patch_audit E p code) (raw_patches response)) (\<lambda>rejected.
           bind_ok (page_audit E snapshot O_Rejected rejected None att) (\<lambda>audit.
             Inr \<lparr>pv_spans = ps_spans snapshot, pv_audit = audit, pv_warning_codes = [code]\<rparr>))
       | None \<Rightarrow>
           bind_ok (fold_ok (apply_patch E (dict_of ss_span_id id (ps_spans snapshot)) outcome) ([], []) (raw_patches response)) (\<lambda>(replacements, audits).
           bind_ok (page_audit E snapshot outcome audits None att) (\<lambda>audit.
             Inr \<lparr>pv_spans = map (\<lambda>s. case dict_get replacements (ss_span_id s) of None \<Rightarrow> s | Some t \<Rightarrow> t) (ps_spans snapshot),
                  pv_audit = audit, pv_warning_codes = []\<rparr>)))"

section \<open>Trusted pages\<close>

definition trusted_page :: "fidelity_report option \<Rightarrow> string \<Rightarrow> int \<Rightarrow> ocr_page_audit option" where
  "trusted_page report source_hash page =
     (case report of
        None \<Rightarrow> None
      | Some r \<Rightarrow> if fr_source_hash r \<noteq> source_hash then None
                  else find (\<lambda>a. oa_page a = page \<and> oa_outcome a \<in> {O_Applied, O_Reused}) (fr_ocr_corrections r))"

definition trusted_binding_matches :: "ocr_env \<Rightarrow> page_snapshot \<Rightarrow> ocr_page_audit \<Rightarrow> bool result" where
  "trusted_binding_matches E s a =
     (if oa_source_hash a = ps_source_hash s \<and> oa_page a = ps_page s \<and> oa_page_image_hash a = ps_page_image_hash s
         \<and> oa_ocr_catalog_hash a = ps_ocr_catalog_hash s \<and> oa_request_hash a = ps_request_hash s
         \<and> oa_prompt_version a = OCR_CORRECTION_PROMPT_VERSION \<and> oa_prompt_hash a = ps_prompt_hash s \<and> oa_schema_hash a = ps_schema_hash s
         \<and> oa_repair_prompt_version a = STRUCTURED_REPAIR_PROMPT_VERSION \<and> oa_repair_prompt_hash a = ps_repair_prompt_hash s
      then bind_ok (effective_prompt_hash E s (oa_repair_validation_codes a)) (\<lambda>h.
        Inr (oa_effective_prompt_hash a = h \<and> oa_provider a = ps_provider s \<and> oa_model a = ps_model s))
      else Inr False)"

definition opt_json :: "('a \<Rightarrow> json) \<Rightarrow> 'a option \<Rightarrow> json" where
  "opt_json f x = (case x of None \<Rightarrow> JNull | Some y \<Rightarrow> f y)"

fun kind_name :: "correction_kind \<Rightarrow> string" where
  "kind_name Character_Recognition = ''character_recognition''"
| "kind_name Spacing = ''spacing''"

definition trusted_patch :: "ocr_env \<Rightarrow> ocr_patch_audit \<Rightarrow> json" where
  "trusted_patch E a = JObj
     [(''span_id'', JStr (pa_span_id a)), (''original_text_hash'', JStr (pa_original_text_hash a)),
      (''corrected_text'', opt_json JStr (pa_corrected_text a)), (''correction_kind'', opt_json (JStr \<circ> kind_name) (pa_correction_kind a)),
      (''bbox'', dump_opt_box E (pa_bbox a)), (''confidence'', opt_json (\<lambda>c. JFloat (oc_repr E c)) (pa_confidence a))]"

definition trusted_response :: "ocr_env \<Rightarrow> ocr_page_audit \<Rightarrow> json" where
  "trusted_response E a = JObj [(''request_hash'', JStr (oa_request_hash a)),
     (''patches'', JArr (map (trusted_patch E) (filter (\<lambda>p. pa_outcome p \<in> {O_Applied, O_Reused}) (oa_patches a))))]"

section \<open>The images of the pages\<close>

text \<open>What the library gives for a page: its width and height, and the bytes of the encoded image (each step may raise).\<close>

record rendered_page =
  rp_size :: "(int \<times> int) result"
  rp_encoded :: "string result"

definition MAX_OCR_PAGES :: nat where "MAX_OCR_PAGES = 200"
definition MAX_PAGE_PIXELS :: int where "MAX_PAGE_PIXELS = 16000000"
definition MAX_TOTAL_PAGE_IMAGE_BYTES :: nat where "MAX_TOTAL_PAGE_IMAGE_BYTES = 64 * 1024 * 1024"

definition image_unreadable :: exn where
  "image_unreadable = ValueError ''SEMANTIC_OCR_CORRECTION_IMAGE_UNREADABLE''"

definition or_unreadable :: "'a result \<Rightarrow> 'a result" where
  "or_unreadable r = (case r of Inl e \<Rightarrow> Inl image_unreadable | Inr x \<Rightarrow> Inr x)"

definition encode_page :: "string list \<times> nat \<Rightarrow> rendered_page \<Rightarrow> (string list \<times> nat) result" where
  "encode_page st p =
     (case st of (images, bytes) \<Rightarrow>
        bind_ok (or_unreadable (rp_size p)) (\<lambda>(width, height).
          if width \<le> 0 \<or> height \<le> 0 \<or> width * height > MAX_PAGE_PIXELS
          then Inl (ValueError ''SEMANTIC_OCR_CORRECTION_PIXEL_LIMIT_EXCEEDED'')
          else bind_ok (or_unreadable (rp_encoded p)) (\<lambda>encoded.
            if length encoded > MAX_PAGE_IMAGE_BYTES then Inl (ValueError ''SEMANTIC_OCR_CORRECTION_IMAGE_LIMIT_EXCEEDED'')
            else if bytes + length encoded > MAX_TOTAL_PAGE_IMAGE_BYTES
            then Inl (ValueError ''SEMANTIC_OCR_CORRECTION_TOTAL_IMAGE_LIMIT_EXCEEDED'')
            else Inr (images @ [encoded], bytes + length encoded))))"

definition render_pdf_page_images :: "rendered_page list result \<Rightarrow> string list result" where
  "render_pdf_page_images document =
     bind_ok (or_unreadable document) (\<lambda>pages.
       if pages = [] \<or> length pages > MAX_OCR_PAGES then Inl (ValueError ''SEMANTIC_OCR_CORRECTION_PAGE_LIMIT_EXCEEDED'')
       else bind_ok (fold_ok encode_page ([], 0) pages) (\<lambda>(images, bytes). Inr images))"

section \<open>The loop over the pages\<close>

text \<open>What a provider declares of itself: nothing when there is none, an exception when the call raises.\<close>

definition provider_identity :: "(string, json) dict result option \<Rightarrow> (string \<times> string) option" where
  "provider_identity capabilities =
     (case capabilities of
        Some (Inr c) \<Rightarrow>
          if dict_get c ''vision'' \<noteq> Some (JBool True) then None
          else (case (dict_get c ''provider'', dict_get c ''model'') of
                  (Some (JStr p), Some (JStr m)) \<Rightarrow> if p = [] \<or> m = [] then None else Some (p, m)
                | _ \<Rightarrow> None)
      | _ \<Rightarrow> None)"

text \<open>What the call for a page gives: a \<open>ProviderExecutionError\<close>, another exception, a value that is no \<open>LLMResult\<close>, or
  a result with its identity, its counts and the structured value.\<close>

datatype page_answer =
    Provider_Failed string failure_kind
  | Raised exn
  | No_Result
  | Answered string string attempts "json option"

record correction_state =
  cs_catalog :: catalog
  cs_audits :: "ocr_page_audit list"
  cs_warnings :: "string list"

definition audit_page ::
  "ocr_env \<Rightarrow> page_snapshot \<Rightarrow> ocr_outcome \<Rightarrow> string \<Rightarrow> attempts \<Rightarrow> correction_state \<Rightarrow> correction_state result" where
  "audit_page E snapshot outcome code att st =
     bind_ok (page_audit E snapshot outcome [] (Some code) att) (\<lambda>a.
       Inr (st\<lparr>cs_audits := cs_audits st @ [a], cs_warnings := cs_warnings st @ [code]\<rparr>))"

definition accept_page :: "page_validation \<Rightarrow> correction_state \<Rightarrow> correction_state" where
  "accept_page v st =
     st\<lparr>cs_catalog := fold (\<lambda>s d. dict_set (ss_span_id s) s d) (pv_spans v) (cs_catalog st),
        cs_audits := cs_audits st @ [pv_audit v], cs_warnings := cs_warnings st @ pv_warning_codes v\<rparr>"

definition ask_provider ::
  "ocr_env \<Rightarrow> (page_snapshot \<Rightarrow> page_answer) \<Rightarrow> bool \<Rightarrow> page_snapshot \<Rightarrow> correction_state \<Rightarrow> correction_state result" where
  "ask_provider E ask propagate snapshot st =
     (case ask snapshot of
        Provider_Failed code kind \<Rightarrow>
          if propagate then Inl (ProviderExecutionError code kind)
          else audit_page E snapshot O_Provider_Failed code no_attempts st
      | Raised e \<Rightarrow> Inl e
      | No_Result \<Rightarrow> audit_page E snapshot O_Provider_Failed ''SEMANTIC_OCR_CORRECTION_OUTPUT_INVALID'' no_attempts st
      | Answered provider model att None \<Rightarrow>
          audit_page E snapshot O_Provider_Failed ''SEMANTIC_OCR_CORRECTION_OUTPUT_INVALID'' no_attempts st
      | Answered provider model att (Some response) \<Rightarrow>
          if provider \<noteq> ps_provider snapshot \<or> model \<noteq> ps_model snapshot
          then audit_page E snapshot O_Provider_Failed ''SEMANTIC_OCR_CORRECTION_IDENTITY_MISMATCH'' att st
          else bind_ok (validate_page_corrections E snapshot response O_Applied att) (\<lambda>v. Inr (accept_page v st)))"

text \<open>The reuse of a trusted audit: None when the page has to be asked for.\<close>

definition reuse_page ::
  "ocr_env \<Rightarrow> fidelity_report option \<Rightarrow> string \<Rightarrow> int \<Rightarrow> string \<Rightarrow> source_span list \<Rightarrow> correction_state \<Rightarrow> correction_state option result" where
  "reuse_page E report source_hash page picture spans st =
     (case trusted_page report source_hash page of
        None \<Rightarrow> Inr None
      | Some trusted \<Rightarrow>
          bind_ok (make_page_snapshot E source_hash page picture spans (oa_provider trusted) (oa_model trusted)) (\<lambda>snapshot.
          bind_ok (trusted_binding_matches E snapshot trusted) (\<lambda>same.
            if \<not> same then Inr None
            else bind_ok (validate_page_corrections E snapshot (trusted_response E trusted) O_Reused
                            \<lparr>at_retry_count = oa_retry_count trusted, at_repair_count = oa_repair_count trusted,
                             at_repair_codes = oa_repair_validation_codes trusted\<rparr>) (\<lambda>v.
              Inr (if pv_warning_codes v = [] then Some (accept_page v st) else None)))))"

record correction_setting =
  ct_env :: ocr_env
  ct_ask :: "page_snapshot \<Rightarrow> page_answer"
  ct_identity :: "(string \<times> string) option"
  ct_propagate :: bool
  ct_report :: "fidelity_report option"

definition correct_page ::
  "correction_setting \<Rightarrow> native_document \<Rightarrow> correction_state \<Rightarrow> int \<times> string \<Rightarrow> correction_state result" where
  "correct_page C d st p =
     (case p of (page, picture) \<Rightarrow>
        let E = ct_env C;
            all_spans = filter (\<lambda>s. ss_page s = Some page) (sort_key ss_ordinal (nd_spans d));
            spans = filter (\<lambda>s. ss_bbox s \<noteq> None) all_spans;
            snapshot = (\<lambda>identity. make_page_snapshot E (nd_source_hash d) page picture spans (fst identity) (snd identity))
        in if spans = [] \<or> length spans \<noteq> length all_spans
           then bind_ok (snapshot (case ct_identity C of None \<Rightarrow> (''none'', ''none'') | Some i \<Rightarrow> i)) (\<lambda>s.
                  audit_page E s O_Unavailable ''SEMANTIC_OCR_CORRECTION_EVIDENCE_UNAVAILABLE'' no_attempts st)
           else bind_ok (reuse_page E (ct_report C) (nd_source_hash d) page picture spans st) (\<lambda>reused.
                  case reused of
                    Some st' \<Rightarrow> Inr st'
                  | None \<Rightarrow>
                      (case ct_identity C of
                         None \<Rightarrow> bind_ok (snapshot (''none'', ''none'')) (\<lambda>s.
                           audit_page E s O_Unavailable ''SEMANTIC_OCR_CORRECTION_UNAVAILABLE'' no_attempts st)
                       | Some i \<Rightarrow> bind_ok (snapshot i) (\<lambda>s. ask_provider E (ct_ask C) (ct_propagate C) s st))))"

record correction_application =
  ca_document :: native_document
  ca_audits :: "ocr_page_audit list"
  ca_warning_codes :: "string list"

definition correct_document ::
  "correction_setting \<Rightarrow> rendered_page list result \<Rightarrow> native_document \<Rightarrow> correction_application result" where
  "correct_document C document d =
     (if nd_extraction_mode d \<notin> {PDF_EMBEDDED, OCR} then Inr \<lparr>ca_document = d, ca_audits = [], ca_warning_codes = []\<rparr>
      else bind_ok (render_pdf_page_images document) (\<lambda>images.
        if int (length images) \<noteq> nd_page_count d then Inl (ValueError ''SEMANTIC_OCR_CORRECTION_PAGE_COUNT_MISMATCH'')
        else if list_ex (\<lambda>s. case ss_page s of None \<Rightarrow> True | Some p \<Rightarrow> p < 1 \<or> p > int (length images)) (nd_spans d)
        then Inr \<lparr>ca_document = d, ca_audits = [], ca_warning_codes = [''SEMANTIC_OCR_CORRECTION_EVIDENCE_UNAVAILABLE'']\<rparr>
        else bind_ok (fold_ok (correct_page C d) \<lparr>cs_catalog = dict_of ss_span_id id (nd_spans d), cs_audits = [], cs_warnings = []\<rparr>
                        (zip (map int [1..<Suc (length images)]) images)) (\<lambda>st.
             bind_ok (traverse (\<lambda>s. lookup_span (cs_catalog st) (ss_span_id s)) (nd_spans d)) (\<lambda>spans.
               Inr \<lparr>ca_document = d\<lparr>nd_spans := spans\<rparr>, ca_audits = cs_audits st,
                    ca_warning_codes = rev (remdups (rev (cs_warnings st)))\<rparr>))))"

section \<open>What a correction can change\<close>

text \<open>Spacing only, or a few characters at their places; never a line more or less.\<close>

definition little_change :: "string \<Rightarrow> string \<Rightarrow> bool" where
  "little_change s t \<longleftrightarrow>
     t \<noteq> [] \<and> t \<noteq> s \<and> length (characters t) \<le> 2 * length (characters s)
     \<and> length (filter (\<lambda>c. c = newline) t) = length (filter (\<lambda>c. c = newline) s) \<and> \<not> has_raw_html t
     \<and> (without_whitespace t = without_whitespace s
        \<or> list_all2 (\<lambda>c d. c = d \<or> \<not> space_character c \<and> \<not> space_character d) (characters s) (characters t)
          \<and> length (filter (\<lambda>(c, d). c \<noteq> d) (zip (characters s) (characters t))) \<le> allowed_changes (characters s))"

lemma allowed_changes_le: "allowed_changes cs \<le> 4"
  by (simp add: allowed_changes_def MAX_CHARACTER_CORRECTIONS_def)

lemma no_differences [simp]: "filter (\<lambda>(c, d). c \<noteq> d) (zip xs xs) = []"
  by (induction xs) auto

lemma correction_text_code_None:
  "correction_text_code s t k = None \<Longrightarrow>
     t \<noteq> s \<and> (without_whitespace t = without_whitespace s
        \<or> list_all2 (\<lambda>c d. c = d \<or> \<not> space_character c \<and> \<not> space_character d) (characters s) (characters t)
          \<and> length (filter (\<lambda>(c, d). c \<noteq> d) (zip (characters s) (characters t))) \<le> allowed_changes (characters s))"
  unfolding correction_text_code_def Let_def list_all2_iff list_ex_iff
  by (auto split: if_splits)

lemma corrected_code_None:
  assumes "corrected_code E s t raw = Inr None"
  shows "little_change (ss_text s) t"
    and "\<exists>k. kind_of_json (json_get raw ''correction_kind'') = Some k"
    and "\<exists>c. number_of_json E (json_get raw ''confidence'') = Some c \<and> MIN_CORRECTION_CONFIDENCE \<le> c \<and> c \<le> 1"
  using assms correction_text_code_None [of "ss_text s" t]
  unfolding corrected_code_def little_change_def Let_def MAX_CORRECTED_GROWTH_def
  by (auto split: if_splits option.splits simp: mult.commute not_less)

lemma patch_code_None:
  assumes "patch_code E cat raw = Inr None"
  obtains s t where "json_get raw ''span_id'' = Some (JStr (json_string raw ''span_id''))"
    and "dict_get cat (json_string raw ''span_id'') = Some s"
    and "json_get raw ''original_text_hash'' = Some (JStr (ss_text_hash s))"
    and "parse_box E (json_get raw ''bbox'') = ss_bbox s" and "ss_bbox s \<noteq> None"
    and "json_get raw ''corrected_text'' = Some (JStr t)" and "corrected_code E s t raw = Inr None"
    and "is_object raw" and "json_keys raw = PATCH_KEYS"
  using assms unfolding patch_code_def
  by (force split: if_splits option.splits json.splits simp: json_string_def)

lemma first_code_None: "first_code f xs = Inr None \<longleftrightarrow> list_all (\<lambda>x. f x = Inr None) xs"
  by (induction xs) (auto split: option.splits)

text \<open>One guard of the chain of checks.\<close>

lemma guard_passed:
  "(if b then Inr (Some c) else x) = Inr None \<longleftrightarrow> \<not> b \<and> x = (Inr None :: string option result)"
  "(if b then Inl e else x) = Inr None \<longleftrightarrow> \<not> b \<and> x = (Inr None :: string option result)"
  by auto

lemma page_validation_code_None:
  assumes "page_validation_code E snap r = Inr None"
  shows "list_all (\<lambda>p. patch_code E (dict_of ss_span_id id (ps_spans snap)) p = Inr None) (raw_patches r)"
    and "distinct (map (\<lambda>p. json_get p ''span_id'') (raw_patches r))"
    and "plan_ok r" and "is_object r" and "json_get r ''request_hash'' = Some (JStr (ps_request_hash snap))"
proof -
  let ?ps = "raw_patches r" let ?ids = "map (\<lambda>p. json_get p ''span_id'') (filter is_object ?ps)"
  let ?first = "first_code (patch_code E (dict_of ss_span_id id (ps_spans snap))) ?ps"
  have "is_object r \<and> json_get r ''request_hash'' = Some (JStr (ps_request_hash snap)) \<and> length ?ids = length ?ps \<and> distinct (map (set_value E) ?ids)
    \<and> bind_ok ?first (\<lambda>c. Inr (case c of Some code \<Rightarrow> Some code
                | None \<Rightarrow> if plan_ok r then None else Some ''SEMANTIC_OCR_CORRECTION_SCHEMA_INVALID'')) = Inr None"
    using assms unfolding page_validation_code_def Let_def
    by (simp only: guard_passed) simp
  then have o: "is_object r" "json_get r ''request_hash'' = Some (JStr (ps_request_hash snap))" and l: "length (filter is_object ?ps) = length ?ps"
    and d: "distinct (map (set_value E) ?ids)" and f: "?first = Inr None" and p: "plan_ok r"
    by (auto simp del: map_map split: option.splits if_splits)
  have "filter is_object ?ps = ?ps" using l by (metis filter_id_conv length_filter_less nat_neq_iff)
  then show "distinct (map (\<lambda>p. json_get p ''span_id'') ?ps)" using d unfolding distinct_map by simp
  show "list_all (\<lambda>p. patch_code E (dict_of ss_span_id id (ps_spans snap)) p = Inr None) ?ps" using f by (simp add: first_code_None)
  show "plan_ok r" "is_object r" "json_get r ''request_hash'' = Some (JStr (ps_request_hash snap))" using p o by auto
qed

section \<open>Changes and their audits\<close>

text \<open>A span is kept, or its text is replaced by the text of an accepted patch in the audit of its page.\<close>

definition audited_change :: "library \<Rightarrow> ocr_page_audit list \<Rightarrow> source_span \<Rightarrow> source_span \<Rightarrow> bool" where
  "audited_change L audits s t \<longleftrightarrow>
     t = s \<or> little_change (ss_text s) (ss_text t) \<and> t = s\<lparr>ss_text := ss_text t, ss_text_hash := lib_sha256 L (ss_text t)\<rparr>
       \<and> (\<exists>a\<in>set audits. ss_page s = Some (oa_page a) \<and> oa_outcome a \<in> {O_Applied, O_Reused}
            \<and> (\<exists>p\<in>set (oa_patches a). pa_span_id p = ss_span_id s \<and> pa_original_text_hash p = ss_text_hash s \<and> pa_bbox p = ss_bbox s
                 \<and> pa_corrected_text p = Some (ss_text t) \<and> (\<exists>c. pa_confidence p = Some c \<and> MIN_CORRECTION_CONFIDENCE \<le> c)))"

lemma audited_change_mono: "audited_change L xs s t \<Longrightarrow> set xs \<subseteq> set ys \<Longrightarrow> audited_change L ys s t"
  unfolding audited_change_def by blast

lemma audited_change_refl [simp]: "audited_change L xs s s"
  by (simp add: audited_change_def)

lemma audited_change_id: "audited_change L xs s t \<Longrightarrow> ss_span_id t = ss_span_id s"
  by (auto simp: audited_change_def dest: arg_cong [where f = ss_span_id])

lemma patch_audit_value: "OcrCorrectionPatchAudit L a = Inr b \<Longrightarrow> b = a"
  by (auto simp: OcrCorrectionPatchAudit_def split: if_splits)

lemma page_audit_value: "OcrCorrectionPageAudit a = Inr b \<Longrightarrow> b = a"
  by (auto simp: OcrCorrectionPageAudit_def split: if_splits)

lemma page_audit_fields:
  "page_audit E snap outcome ps code att = Inr a \<Longrightarrow>
     oa_page a = ps_page snap \<and> oa_outcome a = outcome \<and> oa_patches a = ps"
  by (auto simp: page_audit_def dest!: page_audit_value)

definition replacement :: "library \<Rightarrow> catalog \<Rightarrow> json \<Rightarrow> string \<Rightarrow> source_span \<Rightarrow> bool" where
  "replacement L cat p i x \<longleftrightarrow> json_string p ''span_id'' = i
     \<and> (\<exists>s. dict_get cat i = Some s \<and> x = corrected_span L s (json_string p ''corrected_text''))"

lemma apply_patch_step:
  assumes "apply_patch E cat outcome (rs, as) p = Inr (rs', as')"
  shows "\<exists>a. as' = as @ [a] \<and> applied_patch_audit E outcome p = Inr a"
    and "dict_get rs' i = Some x \<Longrightarrow> dict_get rs i = Some x \<or> replacement (oc_library E) cat p i x"
  using assms by (auto simp: apply_patch_def lookup_span_def replacement_def split: option.splits if_splits)

lemma apply_patches:
  assumes "fold_ok (apply_patch E cat outcome) ([], []) ps = Inr (rs, as)"
  shows "list_all2 (\<lambda>p a. applied_patch_audit E outcome p = Inr a) ps as"
    and "dict_get rs i = Some x \<Longrightarrow> \<exists>p\<in>set ps. replacement (oc_library E) cat p i x"
proof -
  let ?P = "\<lambda>ps st. list_all2 (\<lambda>p a. applied_patch_audit E outcome p = Inr a) ps (snd st)
    \<and> (\<forall>i x. dict_get (fst st) i = Some x \<longrightarrow> (\<exists>p\<in>set ps. replacement (oc_library E) cat p i x))"
  have "?P ps (rs, as)"
  proof (rule fold_ok_invariant_prefix [OF assms, where P = ?P])
    fix ys p st st' assume P: "?P ys st" and s: "apply_patch E cat outcome st p = Inr st'"
    from s have s': "apply_patch E cat outcome (fst st, snd st) p = Inr (fst st', snd st')" by simp
    from apply_patch_step(1) [OF s'] P have "list_all2 (\<lambda>p a. applied_patch_audit E outcome p = Inr a) (ys @ [p]) (snd st')"
      by (auto intro: list_all2_appendI)
    moreover have "\<exists>q\<in>set (ys @ [p]). replacement (oc_library E) cat q i x" if "dict_get (fst st') i = Some x" for i x
      using apply_patch_step(2) [OF s' that] P by auto
    ultimately show "?P (ys @ [p]) st'" by blast
  qed simp
  then show "list_all2 (\<lambda>p a. applied_patch_audit E outcome p = Inr a) ps as"
    and "dict_get rs i = Some x \<Longrightarrow> \<exists>p\<in>set ps. replacement (oc_library E) cat p i x"
    by auto
qed

text \<open>A page: the audit is about it, and each span is kept or its change is in the audit.\<close>

definition page_changes :: "library \<Rightarrow> page_snapshot \<Rightarrow> page_validation \<Rightarrow> bool" where
  "page_changes L snap v \<longleftrightarrow> oa_page (pv_audit v) = ps_page snap
     \<and> list_all2 (audited_change L [pv_audit v]) (ps_spans snap) (pv_spans v)"

lemma dict_of_id_get: "dict_get (dict_of ss_span_id id xs) i = Some s \<Longrightarrow> s \<in> set xs \<and> ss_span_id s = i"
  by (auto simp: dict_get_of dest!: find_SomeD)

lemma dict_of_self:
  "distinct (map ss_span_id xs) \<Longrightarrow> s \<in> set xs \<Longrightarrow> dict_get (dict_of ss_span_id id xs) (ss_span_id s) = Some s"
  by (simp add: dict_get_of_unique)

lemma accepted_patch_change:
  assumes "patch_code E (dict_of ss_span_id id xs) p = Inr None"
    and "applied_patch_audit E outcome p = Inr b" and "replacement (oc_library E) (dict_of ss_span_id id xs) p (ss_span_id s) t"
    and "distinct (map ss_span_id xs)" and "s \<in> set xs"
    and "b \<in> set (oa_patches a)" and "ss_page s = Some (oa_page a)" and "oa_outcome a \<in> {O_Applied, O_Reused}"
  shows "audited_change (oc_library E) [a] s t"
proof -
  note i = assms(3) [unfolded replacement_def]
  from assms(1) obtain s' u where
      g: "dict_get (dict_of ss_span_id id xs) (json_string p ''span_id'') = Some s'"
      and h: "json_get p ''original_text_hash'' = Some (JStr (ss_text_hash s'))"
      and bx: "parse_box E (json_get p ''bbox'') = ss_bbox s'" and u: "json_get p ''corrected_text'' = Some (JStr u)"
      and c: "corrected_code E s' u p = Inr None"
    by (rule patch_code_None)
  have s: "s' = s" using g i dict_of_self [OF assms(4,5)] by auto
  have t: "t = corrected_span (oc_library E) s u" using i dict_of_self [OF assms(4,5)] by (simp add: json_string_def u)
  from corrected_code_None [OF c] s obtain k cf where l: "little_change (ss_text s) u"
    and cf: "number_of_json E (json_get p ''confidence'') = Some cf" "MIN_CORRECTION_CONFIDENCE \<le> cf" by auto
  have b: "pa_span_id b = ss_span_id s" "pa_original_text_hash b = ss_text_hash s" "pa_bbox b = ss_bbox s"
    "pa_corrected_text b = Some u" "pa_confidence b = Some cf"
    using patch_audit_value [OF assms(2) [unfolded applied_patch_audit_def], symmetric] i h u cf bx s
    by (auto simp: json_string_def)
  have f: "ss_text t = u" "t = s\<lparr>ss_text := u, ss_text_hash := lib_sha256 (oc_library E) u\<rparr>" by (simp_all add: t corrected_span_def)
  show ?thesis unfolding audited_change_def using assms(6-8) b l f cf(2) by auto
qed

lemma validate_page_changes:
  assumes v: "validate_page_corrections E snap r outcome att = Inr v"
    and d: "distinct (map ss_span_id (ps_spans snap))" and pg: "\<And>s. s \<in> set (ps_spans snap) \<Longrightarrow> ss_page s = Some (ps_page snap)"
    and out: "outcome \<in> {O_Applied, O_Reused}"
  shows "page_changes (oc_library E) snap v"
proof -
  let ?cat = "dict_of ss_span_id id (ps_spans snap)"
  from v obtain code where code: "page_validation_code E snap r = Inr code"
    and rest: "(case code of
         Some code \<Rightarrow>
           bind_ok (traverse (\<lambda>p. rejected_patch_audit E p code) (raw_patches r)) (\<lambda>rejected.
           bind_ok (page_audit E snap O_Rejected rejected None att) (\<lambda>audit.
             Inr \<lparr>pv_spans = ps_spans snap, pv_audit = audit, pv_warning_codes = [code]\<rparr>))
       | None \<Rightarrow>
           bind_ok (fold_ok (apply_patch E ?cat outcome) ([], []) (raw_patches r)) (\<lambda>(replacements, audits).
           bind_ok (page_audit E snap outcome audits None att) (\<lambda>audit.
             Inr \<lparr>pv_spans = map (\<lambda>s. case dict_get replacements (ss_span_id s) of None \<Rightarrow> s | Some t \<Rightarrow> t) (ps_spans snap),
                  pv_audit = audit, pv_warning_codes = []\<rparr>))) = Inr v"
    unfolding validate_page_corrections_def bind_ok_Inr_iff by blast
  show ?thesis
  proof (cases code)
    case (Some c)
    then show ?thesis using rest page_audit_fields unfolding page_changes_def by (auto simp: list_all2_same)
  next
    case None
    from rest None obtain rs as a where f: "fold_ok (apply_patch E ?cat outcome) ([], []) (raw_patches r) = Inr (rs, as)"
      and a: "page_audit E snap outcome as None att = Inr a"
      and w: "v = \<lparr>pv_spans = map (\<lambda>s. case dict_get rs (ss_span_id s) of None \<Rightarrow> s | Some t \<Rightarrow> t) (ps_spans snap),
                  pv_audit = a, pv_warning_codes = []\<rparr>" by auto
    note pc = page_validation_code_None(1) [OF code [unfolded None], unfolded list_all_iff]
    have "audited_change (oc_library E) [a] s t" if s: "s \<in> set (ps_spans snap)" and t: "dict_get rs (ss_span_id s) = Some t" for s t
    proof -
      from apply_patches(2) [OF f t] obtain p where p: "p \<in> set (raw_patches r)" "replacement (oc_library E) ?cat p (ss_span_id s) t" by auto
      from p(1) obtain n where n: "n < length (raw_patches r)" "raw_patches r ! n = p" by (auto simp: in_set_conv_nth)
      have b: "as ! n \<in> set as" "applied_patch_audit E outcome p = Inr (as ! n)"
        using apply_patches(1) [OF f] n list_all2_nthD list_all2_lengthD by fastforce+
      have "ss_page s = Some (oa_page a)" "oa_outcome a \<in> {O_Applied, O_Reused}" "as ! n \<in> set (oa_patches a)"
        using page_audit_fields [OF a] pg [OF s] out b(1) by simp_all
      then show ?thesis using accepted_patch_change [OF pc [rule_format, OF p(1)] b(2) p(2) d s] by blast
    qed
    then have "\<forall>s\<in>set (ps_spans snap). audited_change (oc_library E) [a] s (case dict_get rs (ss_span_id s) of None \<Rightarrow> s | Some t \<Rightarrow> t)"
      by (simp split: option.split)
    then show ?thesis using page_audit_fields [OF a] unfolding page_changes_def w
      by (simp only: page_validation.simps list_all2_map2 list_all2_same)
  qed
qed

section \<open>The loop keeps the change invariant\<close>

lemma make_page_snapshot_fields:
  "make_page_snapshot E h page pic spans provider model = Inr snap \<Longrightarrow>
     ps_spans snap = spans \<and> ps_page snap = page \<and> ps_provider snap = provider \<and> ps_model snap = model"
  by (auto simp: make_page_snapshot_def Let_def split: if_splits)

text \<open>One page appends one audit, and changes only what it records.\<close>

definition page_step :: "library \<Rightarrow> source_span list \<Rightarrow> int \<Rightarrow> correction_state \<Rightarrow> correction_state \<Rightarrow> bool" where
  "page_step L spans page st st' \<longleftrightarrow>
     (\<exists>a. cs_audits st' = cs_audits st @ [a] \<and> oa_page a = page
        \<and> (\<forall>s\<in>set spans. dict_get (cs_catalog st') (ss_span_id s) = dict_get (cs_catalog st) (ss_span_id s)
             \<or> (\<exists>t. dict_get (cs_catalog st') (ss_span_id s) = Some t \<and> audited_change L [a] s t)))"

lemma audit_page_step: "audit_page E snap outcome code att st = Inr st' \<Longrightarrow> page_step L spans (ps_page snap) st st'"
  by (auto simp: audit_page_def page_step_def dest: page_audit_fields)

lemma accept_page_step:
  assumes c: "page_changes L snap v" and d: "distinct (map ss_span_id spans)" and sub: "set (ps_spans snap) \<subseteq> set spans"
    and d': "distinct (map ss_span_id (ps_spans snap))"
  shows "page_step L spans (ps_page snap) st (accept_page v st)"
proof -
  have l: "list_all2 (audited_change L [pv_audit v]) (ps_spans snap) (pv_spans v)" using c by (simp add: page_changes_def)
  then have ids: "map ss_span_id (pv_spans v) = map ss_span_id (ps_spans snap)"
    by (induction rule: list_all2_induct) (auto dest: audited_change_id)
  have "dict_get (cs_catalog (accept_page v st)) (ss_span_id s) = dict_get (cs_catalog st) (ss_span_id s)
    \<or> (\<exists>t. dict_get (cs_catalog (accept_page v st)) (ss_span_id s) = Some t \<and> audited_change L [pv_audit v] s t)"
    if s: "s \<in> set spans" for s
  proof (cases "find (\<lambda>x. ss_span_id x = ss_span_id s) (rev (pv_spans v))")
    case None
    then show ?thesis by (simp add: accept_page_def dict_get_fold)
  next
    case (Some t)
    then have t: "t \<in> set (pv_spans v)" "ss_span_id t = ss_span_id s" by (auto dest: find_SomeD)
    then obtain n where n: "n < length (pv_spans v)" "pv_spans v ! n = t" by (auto simp: in_set_conv_nth)
    have a: "audited_change L [pv_audit v] (ps_spans snap ! n) t" and m: "ps_spans snap ! n \<in> set (ps_spans snap)"
      using l n list_all2_nthD2 list_all2_lengthD by fastforce+
    have "ps_spans snap ! n = s"
      using audited_change_id [OF a] t(2) m sub s d by (auto simp: distinct_map inj_on_def)
    then show ?thesis using Some a by (simp add: accept_page_def dict_get_fold)
  qed
  then show ?thesis using c by (auto simp: page_step_def accept_page_def page_changes_def)
qed

lemma reuse_page_step:
  assumes "reuse_page E report h page pic xs st = Inr (Some st')" and "distinct (map ss_span_id spans)" and "set xs \<subseteq> set spans"
    and "distinct (map ss_span_id xs)" and "\<And>s. s \<in> set xs \<Longrightarrow> ss_page s = Some page"
  shows "page_step (oc_library E) spans page st st'"
proof -
  from assms(1) obtain tr snap v att where m: "make_page_snapshot E h page pic xs (oa_provider tr) (oa_model tr) = Inr snap"
    and v: "validate_page_corrections E snap (trusted_response E tr) O_Reused att = Inr v" and s: "st' = accept_page v st"
    by (auto simp: reuse_page_def split: option.splits if_splits)
  note f = make_page_snapshot_fields [OF m]
  have "page_changes (oc_library E) snap v" by (rule validate_page_changes [OF v]) (use f assms in auto)
  from accept_page_step [OF this assms(2), of st] show ?thesis using f assms by (simp add: s)
qed

lemma ask_provider_step:
  assumes "ask_provider E ask propagate snap st = Inr st'" and "distinct (map ss_span_id spans)" and "set (ps_spans snap) \<subseteq> set spans"
    and "distinct (map ss_span_id (ps_spans snap))" and "\<And>s. s \<in> set (ps_spans snap) \<Longrightarrow> ss_page s = Some (ps_page snap)"
  shows "page_step (oc_library E) spans (ps_page snap) st st'"
proof (cases "\<exists>p m att r. ask snap = Answered p m att (Some r) \<and> p = ps_provider snap \<and> m = ps_model snap")
  case True
  with assms(1) obtain r att v where v: "validate_page_corrections E snap r O_Applied att = Inr v" and s: "st' = accept_page v st"
    by (auto simp: ask_provider_def)
  have "page_changes (oc_library E) snap v" by (rule validate_page_changes [OF v]) (use assms in auto)
  from accept_page_step [OF this assms(2-4)] show ?thesis by (simp add: s)
next
  case False
  with assms(1) show ?thesis
    by (auto simp: ask_provider_def intro: audit_page_step split: page_answer.splits option.splits if_splits)
qed

lemma correct_page_step:
  assumes s: "correct_page C d st (page, pic) = Inr st'" and d: "distinct (map ss_span_id (nd_spans d))"
  shows "page_step (oc_library (ct_env C)) (nd_spans d) page st st'"
proof -
  let ?all = "filter (\<lambda>s. ss_page s = Some page) (sort_key ss_ordinal (nd_spans d))"
  let ?xs = "filter (\<lambda>s. ss_bbox s \<noteq> None) ?all"
  have sub: "set ?xs \<subseteq> set (nd_spans d)" and pg: "\<And>s. s \<in> set ?xs \<Longrightarrow> ss_page s = Some page" by auto
  have dd: "distinct (map ss_span_id ?xs)"
    using d by (auto simp: distinct_map intro: inj_on_subset)
  show ?thesis
  proof (cases "?xs = [] \<or> length ?xs \<noteq> length ?all")
    case True
    with s show ?thesis unfolding correct_page_def
      by (auto simp: Let_def dest!: make_page_snapshot_fields audit_page_step [where spans = "nd_spans d"])
  next
    case False
    from s False obtain r where r: "reuse_page (ct_env C) (ct_report C) (nd_source_hash d) page pic ?xs st = Inr r"
      and rest: "(case r of
                    Some st' \<Rightarrow> Inr st'
                  | None \<Rightarrow>
                      (case ct_identity C of
                         None \<Rightarrow> bind_ok (make_page_snapshot (ct_env C) (nd_source_hash d) page pic ?xs ''none'' ''none'') (\<lambda>s.
                           audit_page (ct_env C) s O_Unavailable ''SEMANTIC_OCR_CORRECTION_UNAVAILABLE'' no_attempts st)
                       | Some i \<Rightarrow> bind_ok (make_page_snapshot (ct_env C) (nd_source_hash d) page pic ?xs (fst i) (snd i))
                           (\<lambda>s. ask_provider (ct_env C) (ct_ask C) (ct_propagate C) s st))) = Inr st'"
      unfolding correct_page_def Let_def by (simp only: prod.case if_False bind_ok_Inr_iff fst_conv snd_conv) blast
    show ?thesis
    proof (cases r)
      case (Some st1)
      with r rest reuse_page_step [OF _ d sub dd pg] show ?thesis by auto
    next
      case None
      show ?thesis
      proof (cases "ct_identity C")
        case None
        with rest \<open>r = None\<close> show ?thesis by (auto dest!: make_page_snapshot_fields audit_page_step [where spans = "nd_spans d"])
      next
        case (Some i)
        with rest \<open>r = None\<close> obtain snap where m: "make_page_snapshot (ct_env C) (nd_source_hash d) page pic ?xs (fst i) (snd i) = Inr snap"
          and a: "ask_provider (ct_env C) (ct_ask C) (ct_propagate C) snap st = Inr st'" by auto
        note f = make_page_snapshot_fields [OF m]
        have x: "ps_spans snap = ?xs" and p: "ps_page snap = page" using f by blast+
        show ?thesis using ask_provider_step [OF a d, unfolded x p, OF sub dd pg] .
      qed
    qed
  qed
qed

definition loop_invariant :: "library \<Rightarrow> source_span list \<Rightarrow> (int \<times> string) list \<Rightarrow> correction_state \<Rightarrow> bool" where
  "loop_invariant L spans ps st \<longleftrightarrow> map oa_page (cs_audits st) = map fst ps
     \<and> (\<forall>s\<in>set spans. \<exists>t. dict_get (cs_catalog st) (ss_span_id s) = Some t \<and> audited_change L (cs_audits st) s t)"

lemma loop_invariant_step:
  assumes "loop_invariant L spans ps st" and "page_step L spans (fst p) st st'"
  shows "loop_invariant L spans (ps @ [p]) st'"
proof -
  from assms(2) obtain a where a: "cs_audits st' = cs_audits st @ [a]" "oa_page a = fst p"
    and g: "\<forall>s\<in>set spans. dict_get (cs_catalog st') (ss_span_id s) = dict_get (cs_catalog st) (ss_span_id s)
             \<or> (\<exists>t. dict_get (cs_catalog st') (ss_span_id s) = Some t \<and> audited_change L [a] s t)"
    unfolding page_step_def by blast
  have "\<exists>t. dict_get (cs_catalog st') (ss_span_id s) = Some t \<and> audited_change L (cs_audits st') s t" if "s \<in> set spans" for s
    using g that assms(1) audited_change_mono [of L "cs_audits st" s _ "cs_audits st'"] audited_change_mono [of L "[a]" s _ "cs_audits st'"]
    unfolding loop_invariant_def a by fastforce
  then show ?thesis using assms(1) a by (simp add: loop_invariant_def)
qed

lemma correct_pages:
  assumes "fold_ok (correct_page C d) \<lparr>cs_catalog = dict_of ss_span_id id (nd_spans d), cs_audits = [], cs_warnings = []\<rparr> ps = Inr st"
    and "distinct (map ss_span_id (nd_spans d))"
  shows "loop_invariant (oc_library (ct_env C)) (nd_spans d) ps st"
proof (rule fold_ok_invariant_prefix [OF assms(1), where P = "loop_invariant (oc_library (ct_env C)) (nd_spans d)"])
  show "loop_invariant (oc_library (ct_env C)) (nd_spans d) []
     \<lparr>cs_catalog = dict_of ss_span_id id (nd_spans d), cs_audits = [], cs_warnings = []\<rparr>"
    using dict_of_self [OF assms(2)] by (simp add: loop_invariant_def)
next
  fix ys p st st'
  assume "loop_invariant (oc_library (ct_env C)) (nd_spans d) ys st" and "correct_page C d st p = Inr st'"
  then show "loop_invariant (oc_library (ct_env C)) (nd_spans d) (ys @ [p]) st'"
    using correct_page_step [of C d st "fst p" "snd p" st'] assms(2) by (auto intro: loop_invariant_step)
qed

lemma loop_spans:
  assumes "loop_invariant L spans ps st" and "traverse (\<lambda>s. lookup_span (cs_catalog st) (ss_span_id s)) spans = Inr ts"
  shows "list_all2 (audited_change L (cs_audits st)) spans ts"
proof -
  have "list_all2 (\<lambda>s t. lookup_span (cs_catalog st) (ss_span_id s) = Inr t) spans ts" using assms(2) by (rule traverse_list_all2)
  moreover have "audited_change L (cs_audits st) s t"
    if "s \<in> set spans" and "lookup_span (cs_catalog st) (ss_span_id s) = Inr t" for s t
    using assms(1) that by (auto simp: loop_invariant_def lookup_span_def split: option.splits)
  ultimately show ?thesis by (simp add: list_all2_conv_all_nth)
qed

lemma corrected_document:
  assumes "correct_document C rendered d = Inr a" and "distinct (map ss_span_id (nd_spans d))"
  shows "list_all2 (audited_change (oc_library (ct_env C)) (ca_audits a)) (nd_spans d) (nd_spans (ca_document a))
    \<and> ca_document a = d\<lparr>nd_spans := nd_spans (ca_document a)\<rparr>
    \<and> (ca_document a = d \<and> ca_audits a = [] \<or> map oa_page (ca_audits a) = [1..nd_page_count d])"
proof (cases "ca_document a = d \<and> ca_audits a = []")
  case True
  then show ?thesis by (simp add: list_all2_same)
next
  case False
  with assms(1) obtain images st ts where n: "int (length images) = nd_page_count d"
    and f: "fold_ok (correct_page C d) \<lparr>cs_catalog = dict_of ss_span_id id (nd_spans d), cs_audits = [], cs_warnings = []\<rparr>
                        (zip (map int [1..<Suc (length images)]) images) = Inr st"
    and t: "traverse (\<lambda>s. lookup_span (cs_catalog st) (ss_span_id s)) (nd_spans d) = Inr ts"
    and a: "ca_document a = d\<lparr>nd_spans := ts\<rparr>" "ca_audits a = cs_audits st"
    unfolding correct_document_def by (auto split: if_splits)
  note inv = correct_pages [OF f assms(2)]
  have "map int [1..<Suc (length images)] = [1..nd_page_count d]"
    by (rule nth_equalityI) (simp_all add: nth_upto del: upt_Suc flip: n)
  moreover have "map fst (zip [1..nd_page_count d] images) = [1..nd_page_count d]" by (rule map_fst_zip) (simp flip: n)
  ultimately have "map oa_page (cs_audits st) = [1..nd_page_count d]" using inv unfolding loop_invariant_def by (simp only:)
  then show ?thesis using loop_spans [OF inv t] a by simp
qed

section \<open>Reuse\<close>

text \<open>The text of a float reads as the float: the documented round trip of \<open>repr\<close>.\<close>

definition floats_roundtrip :: "ocr_env \<Rightarrow> bool" where
  "floats_roundtrip E \<longleftrightarrow> (\<forall>v x. oc_float E v = Some x \<longrightarrow> oc_float E (JFloat (oc_repr E x)) = Some x)
     \<and> oc_float E (JFloat (oc_repr E 1)) = Some 1"

lemma parse_dumped_box:
  assumes "floats_roundtrip E" and "parse_box E v = Some b"
  shows "parse_box E (Some (dump_box E b)) = Some b"
proof -
  from assms(2) obtain d l bt r t where f: "Option.bind (dict_get d ''left'') (oc_float E) = Some l"
      "Option.bind (dict_get d ''bottom'') (oc_float E) = Some bt" "Option.bind (dict_get d ''right'') (oc_float E) = Some r"
      "Option.bind (dict_get d ''top'') (oc_float E) = Some t"
    and b: "b = \<lparr>sb_left = l, sb_bottom = bt, sb_right = r, sb_top = t\<rparr>" and ok: "SourceBox b = Inr b"
    by (auto simp: parse_box_def SourceBox_def split: option.splits json.splits if_splits sum.splits list.splits)
  have "oc_float E (JFloat (oc_repr E x)) = Some x" if "x \<in> {l, bt, r, t}" for x
    using that assms(1) f unfolding floats_roundtrip_def by (auto simp: bind_eq_Some_conv)
  then show ?thesis using ok by (auto simp: parse_box_def dump_box_def b)
qed

lemma accepted_confidence:
  assumes "floats_roundtrip E" and "number_of_json E v = Some c" and "MIN_CORRECTION_CONFIDENCE \<le> c" and "c \<le> 1"
  shows "oc_float E (JFloat (oc_repr E c)) = Some c"
proof (cases "v")
  case (Some x)
  with assms show ?thesis
  proof (cases x)
    case (JInt n)
    with Some assms have "c = of_int n" "n \<le> 1" "0 < n"
      by (auto simp: number_of_json_def MIN_CORRECTION_CONFIDENCE_def intro: ccontr [of "0 < n"])
    then have "c = 1" by auto
    with assms(1) show ?thesis by (simp add: floats_roundtrip_def)
  qed (auto simp: number_of_json_def floats_roundtrip_def)
qed (use assms in \<open>simp add: number_of_json_def\<close>)

lemma trusted_patch_get:
  "json_get (trusted_patch E a) ''span_id'' = Some (JStr (pa_span_id a))"
  "json_get (trusted_patch E a) ''original_text_hash'' = Some (JStr (pa_original_text_hash a))"
  "json_get (trusted_patch E a) ''corrected_text'' = Some (opt_json JStr (pa_corrected_text a))"
  "json_get (trusted_patch E a) ''correction_kind'' = Some (opt_json (JStr \<circ> kind_name) (pa_correction_kind a))"
  "json_get (trusted_patch E a) ''bbox'' = Some (dump_opt_box E (pa_bbox a))"
  "json_get (trusted_patch E a) ''confidence'' = Some (opt_json (\<lambda>c. JFloat (oc_repr E c)) (pa_confidence a))"
  "is_object (trusted_patch E a)" "json_keys (trusted_patch E a) = PATCH_KEYS"
  by (auto simp: trusted_patch_def PATCH_KEYS_def)

lemma kind_of_kind_name: "kind_of_json (Some (JStr (kind_name k))) = Some k"
  by (cases k) (simp_all add: kind_of_json_def)

lemma corrected_code_same:
  assumes "corrected_code E s t p = Inr None" and "set_element (json_get q ''correction_kind'')"
    and "kind_of_json (json_get q ''correction_kind'') = kind_of_json (json_get p ''correction_kind'')"
    and "number_of_json E (json_get q ''confidence'') = number_of_json E (json_get p ''confidence'')"
  shows "corrected_code E s t q = Inr None"
  using assms unfolding corrected_code_def Let_def guard_passed by (auto split: option.splits)

lemma trusted_patch_accepted:
  assumes fl: "floats_roundtrip E" and code: "patch_code E cat p = Inr None" and b: "applied_patch_audit E outcome p = Inr b"
  shows "patch_code E cat (trusted_patch E b) = Inr None"
    and "applied_patch_audit E O_Reused (trusted_patch E b) = Inr (b\<lparr>pa_outcome := O_Reused\<rparr>)"
    and "json_string (trusted_patch E b) ''span_id'' = json_string p ''span_id''"
    and "json_string (trusted_patch E b) ''corrected_text'' = json_string p ''corrected_text''"
proof -
  from code obtain s t where g: "dict_get cat (json_string p ''span_id'') = Some s"
      and h: "json_get p ''original_text_hash'' = Some (JStr (ss_text_hash s))"
      and bx: "parse_box E (json_get p ''bbox'') = ss_bbox s" "ss_bbox s \<noteq> None"
      and t: "json_get p ''corrected_text'' = Some (JStr t)" and c: "corrected_code E s t p = Inr None"
    by (rule patch_code_None)
  from bx obtain box where box: "ss_bbox s = Some box" "parse_box E (json_get p ''bbox'') = Some box" by auto
  from corrected_code_None [OF c] obtain k cf where k: "kind_of_json (json_get p ''correction_kind'') = Some k"
    and cf: "number_of_json E (json_get p ''confidence'') = Some cf" "MIN_CORRECTION_CONFIDENCE \<le> cf" "cf \<le> 1" by auto
  note fc = accepted_confidence [OF fl cf] and pb = parse_dumped_box [OF fl box(2)]
  have ts: "json_string p ''corrected_text'' = t" "json_string p ''original_text_hash'' = ss_text_hash s"
    by (simp_all add: json_string_def t h)
  have f: "pa_span_id b = json_string p ''span_id''" "pa_original_text_hash b = ss_text_hash s" "pa_corrected_text b = Some t"
    "pa_bbox b = Some box" "pa_correction_kind b = Some k" "pa_confidence b = Some cf"
    "b = \<lparr>pa_span_id = json_string p ''span_id'', pa_original_text_hash = ss_text_hash s, pa_corrected_text = Some t,
      pa_corrected_text_hash = Some (lib_sha256 (oc_library E) t), pa_rejected_text_hash = None, pa_bbox = Some box,
      pa_correction_kind = Some k, pa_confidence = Some cf, pa_outcome = outcome, pa_validation_code = None\<rparr>"
    using patch_audit_value [OF b [unfolded applied_patch_audit_def ts box k cf]] by simp_all
  note q = trusted_patch_get [of E b, unfolded f(1-6)]
  have qs: "json_string (trusted_patch E b) ''span_id'' = json_string p ''span_id''"
    "json_string (trusted_patch E b) ''corrected_text'' = t" "json_string (trusted_patch E b) ''original_text_hash'' = ss_text_hash s"
    by (simp_all add: json_string_def [of "trusted_patch E b"] q opt_json_def)
  show "json_string (trusted_patch E b) ''span_id'' = json_string p ''span_id''"
    "json_string (trusted_patch E b) ''corrected_text'' = json_string p ''corrected_text''" by (simp_all add: qs ts)
  have n: "number_of_json E (json_get (trusted_patch E b) ''confidence'') = Some cf"
    using fc by (simp add: q opt_json_def number_of_json_def)
  have kk: "kind_of_json (json_get (trusted_patch E b) ''correction_kind'') = Some k"
    by (simp add: q opt_json_def kind_of_kind_name)
  have pbq: "parse_box E (json_get (trusted_patch E b) ''bbox'') = Some box" using pb by (simp add: q dump_opt_box_def)
  have "corrected_code E s t (trusted_patch E b) = Inr None"
    by (rule corrected_code_same [OF c]) (simp_all only: kk k n cf(1), simp add: q opt_json_def)
  then show "patch_code E cat (trusted_patch E b) = Inr None"
    using g pbq box(1) trusted_patch_get(7,8) [of E b] unfolding patch_code_def guard_passed by (simp add: q(1-6) opt_json_def)
  have "OcrCorrectionPatchAudit (oc_library E) b = Inr b" using b patch_audit_value [OF b [unfolded applied_patch_audit_def]]
    by (simp add: applied_patch_audit_def)
  then have "OcrCorrectionPatchAudit (oc_library E) (b\<lparr>pa_outcome := O_Reused\<rparr>) = Inr (b\<lparr>pa_outcome := O_Reused\<rparr>)"
    using f by (simp add: OcrCorrectionPatchAudit_def patch_fields_ok_def split: if_splits)
  then show "applied_patch_audit E O_Reused (trusted_patch E b) = Inr (b\<lparr>pa_outcome := O_Reused\<rparr>)"
    unfolding applied_patch_audit_def qs n kk pbq using f(7) by simp
qed

text \<open>The accepted patches and the patches of the trusted answer give the same replacements.\<close>

lemma apply_trusted_patches:
  assumes fl: "floats_roundtrip E" and "list_all2 (\<lambda>p b. patch_code E cat p = Inr None \<and> applied_patch_audit E outcome p = Inr b) ps bs"
    and "fold_ok (apply_patch E cat outcome) (rs, xs) ps = Inr (rs', xs')"
  shows "fold_ok (apply_patch E cat O_Reused) (rs, ys) (map (trusted_patch E) bs) = Inr (rs', ys @ map (pa_outcome_update (\<lambda>_. O_Reused)) bs)"
  using assms(2,3)
proof (induction arbitrary: rs xs ys rule: list_all2_induct)
  case (Cons p ps b bs)
  from Cons.hyps have "patch_code E cat p = Inr None" "applied_patch_audit E outcome p = Inr b" by auto
  note t = trusted_patch_accepted [OF fl this]
  from Cons.prems obtain st where st: "apply_patch E cat outcome (rs, xs) p = Inr st" "fold_ok (apply_patch E cat outcome) st ps = Inr (rs', xs')"
    by (auto split: sum.splits)
  from st(1) obtain s where s: "lookup_span cat (json_string p ''span_id'') = Inr s"
    and r: "st = (dict_set (json_string p ''span_id'') (corrected_span (oc_library E) s (json_string p ''corrected_text'')) rs, xs @ [b])"
    using Cons.hyps by (auto simp: apply_patch_def)
  show ?case using Cons.IH [OF st(2) [unfolded r], of "ys @ [b\<lparr>pa_outcome := O_Reused\<rparr>]"] s by (simp add: apply_patch_def t)
qed simp

lemma trusted_patches_of_applied:
  assumes "list_all2 (\<lambda>p b. applied_patch_audit E outcome p = Inr b) ps bs" and "outcome \<in> {O_Applied, O_Reused}"
  shows "filter (\<lambda>b. pa_outcome b \<in> {O_Applied, O_Reused}) bs = bs"
  using assms by (induction rule: list_all2_induct) (auto simp: applied_patch_audit_def dest!: patch_audit_value)

lemma raw_patches_trusted: "raw_patches (trusted_response E a) = map (trusted_patch E) (filter (\<lambda>p. pa_outcome p \<in> {O_Applied, O_Reused}) (oa_patches a))"
  by (simp add: raw_patches_def trusted_response_def)

lemma plan_patch_ok: "OcrCorrectionPatchAudit L b = Inr c \<Longrightarrow> SpanId (pa_span_id b) \<and> Sha256 (pa_original_text_hash b)"
  by (auto simp: OcrCorrectionPatchAudit_def patch_fields_ok_def split: if_splits)

lemma trusted_patches_accepted:
  assumes fl: "floats_roundtrip E" and "list_all2 (\<lambda>p b. patch_code E cat p = Inr None \<and> applied_patch_audit E outcome p = Inr b) ps bs"
  shows "list_all (\<lambda>p. patch_code E cat p = Inr None) (map (trusted_patch E) bs)"
    and "map (\<lambda>p. json_get p ''span_id'') (map (trusted_patch E) bs) = map (\<lambda>p. json_get p ''span_id'') ps"
  using assms(2)
proof (induction rule: list_all2_induct)
  case (Cons p ps b bs)
  then have c: "patch_code E cat p = Inr None" and b: "applied_patch_audit E outcome p = Inr b" by auto
  have "json_get p ''span_id'' = Some (JStr (json_string p ''span_id''))" by (rule patch_code_None [OF c])
  moreover have "pa_span_id b = json_string p ''span_id''"
    using trusted_patch_accepted(3) [OF fl c b] by (simp add: trusted_patch_get json_string_def [of "trusted_patch E b"])
  moreover
  { case 1 then show ?case using Cons.IH(1) trusted_patch_accepted(1) [OF fl c b] by simp }
  { case 2 then show ?case using calculation Cons.IH(2) by (simp add: trusted_patch_get) }
qed simp_all

lemma set_value_strings: "\<forall>v\<in>set vs. \<exists>t. v = Some (JStr t) \<Longrightarrow> distinct (map (set_value E) vs) = distinct vs"
proof -
  assume s: "\<forall>v\<in>set vs. \<exists>t. v = Some (JStr t)"
  have "inj_on (set_value E) (set vs)"
  proof (rule inj_onI)
    fix v w assume vw: "v \<in> set vs" "w \<in> set vs" "set_value E v = set_value E w"
    with s obtain t u where "v = Some (JStr t)" "w = Some (JStr u)" by blast
    with vw(3) show "v = w" by simp
  qed
  then show ?thesis by (simp add: distinct_map)
qed

lemma trusted_validation_code:
  assumes fl: "floats_roundtrip E" and out: "outcome \<in> {O_Applied, O_Reused}"
    and old: "page_validation_code E snap r = Inr None"
    and bs: "list_all2 (\<lambda>p b. applied_patch_audit E outcome p = Inr b) (raw_patches r) bs"
    and a: "oa_request_hash a = ps_request_hash snap" "oa_patches a = bs"
  shows "page_validation_code E snap (trusted_response E a) = Inr None"
proof -
  let ?cat = "dict_of ss_span_id id (ps_spans snap)"
  note o = page_validation_code_None [OF old]
  have raw: "raw_patches (trusted_response E a) = map (trusted_patch E) bs"
    by (simp only: raw_patches_trusted a(2) trusted_patches_of_applied [OF bs out])
  have both: "list_all2 (\<lambda>p b. patch_code E ?cat p = Inr None \<and> applied_patch_audit E outcome p = Inr b) (raw_patches r) bs"
    using bs o(1) by (simp add: list_all2_conv_all_nth list_all_length)
  note acc = trusted_patches_accepted(1) [OF fl both] and ids = trusted_patches_accepted(2) [OF fl both]
  have fields: "list_all (\<lambda>b. SpanId (pa_span_id b) \<and> Sha256 (pa_original_text_hash b)) bs"
    using bs by (induction rule: list_all2_induct) (auto simp: applied_patch_audit_def dest: patch_audit_value plan_patch_ok)
  have len: "length bs \<le> 2000" using o(3) list_all2_lengthD [OF bs] by (simp add: plan_ok_def)
  have req: "Sha256 (ps_request_hash snap)" using o(3,5) by (simp add: plan_ok_def)
  have plan: "plan_ok (trusted_response E a)" unfolding plan_ok_def raw
    using fields len req by (simp add: list_all_iff trusted_patch_get trusted_response_def a(1))
  have obj: "filter is_object (map (trusted_patch E) bs) = map (trusted_patch E) bs" by (simp add: filter_id_conv trusted_patch_get)
  have el: "list_all set_element (map (\<lambda>p. json_get p ''span_id'') (map (trusted_patch E) bs))" by (simp add: list_all_iff trusted_patch_get)
  have keys: "distinct (map (set_value E) (map (\<lambda>p. json_get p ''span_id'') (map (trusted_patch E) bs)))
      \<longleftrightarrow> distinct (map (\<lambda>p. json_get p ''span_id'') (map (trusted_patch E) bs))"
    by (rule set_value_strings) (simp add: trusted_patch_get)
  show ?thesis
    unfolding page_validation_code_def Let_def guard_passed raw obj keys
    using o(2) acc plan len el ids list_all2_lengthD [OF bs]
    by (simp add: trusted_response_def a(1) MAX_PAGE_SPANS_def first_code_None [THEN iffD2])
qed

lemma page_audit_reused:
  assumes "page_audit E snap O_Applied bs None att = Inr a"
  shows "page_audit E snap O_Reused (map (pa_outcome_update (\<lambda>_. O_Reused)) bs) None att
    = Inr (a\<lparr>oa_outcome := O_Reused, oa_patches := map (pa_outcome_update (\<lambda>_. O_Reused)) bs\<rparr>)"
  using assms by (auto simp: page_audit_def OcrCorrectionPageAudit_def split: if_splits)

lemma applied_page_reused:
  assumes fl: "floats_roundtrip E" and v: "validate_page_corrections E snap r O_Applied att = Inr v" and w: "pv_warning_codes v = []"
  shows "\<exists>v'. validate_page_corrections E snap (trusted_response E (pv_audit v)) O_Reused att = Inr v'
    \<and> pv_spans v' = pv_spans v \<and> pv_warning_codes v' = [] \<and> oa_outcome (pv_audit v') = O_Reused"
    and "trusted_binding_matches E snap (pv_audit v) = Inr True"
proof -
  let ?cat = "dict_of ss_span_id id (ps_spans snap)"
  from v w have old: "page_validation_code E snap r = Inr None"
    by (auto simp: validate_page_corrections_def split: option.splits)
  with v obtain rs bs a where f: "fold_ok (apply_patch E ?cat O_Applied) ([], []) (raw_patches r) = Inr (rs, bs)"
      and a: "page_audit E snap O_Applied bs None att = Inr a"
      and vv: "v = \<lparr>pv_spans = map (\<lambda>s. case dict_get rs (ss_span_id s) of None \<Rightarrow> s | Some t \<Rightarrow> t) (ps_spans snap),
                  pv_audit = a, pv_warning_codes = []\<rparr>"
    by (auto simp: validate_page_corrections_def)
  have af: "oa_request_hash a = ps_request_hash snap" "oa_patches a = bs" "oa_repair_validation_codes a = at_repair_codes att"
    and bind: "trusted_binding_matches E snap a = Inr True"
    using a by (auto simp: page_audit_def trusted_binding_matches_def dest!: page_audit_value)
  note bs = apply_patches(1) [OF f]
  have out: "O_Applied \<in> {O_Applied, O_Reused}" by simp
  have new: "page_validation_code E snap (trusted_response E a) = Inr None"
    by (rule trusted_validation_code [OF fl out old bs af(1,2)])
  have raw: "raw_patches (trusted_response E a) = map (trusted_patch E) bs"
    by (simp only: raw_patches_trusted af(2) trusted_patches_of_applied [OF bs out])
  have both: "list_all2 (\<lambda>p b. patch_code E ?cat p = Inr None \<and> applied_patch_audit E O_Applied p = Inr b) (raw_patches r) bs"
    using bs page_validation_code_None(1) [OF old] by (simp add: list_all2_conv_all_nth list_all_length)
  note g = apply_trusted_patches [OF fl both f, of "[]", simplified append_Nil]
  have "validate_page_corrections E snap (trusted_response E a) O_Reused att =
    Inr \<lparr>pv_spans = pv_spans v, pv_audit = a\<lparr>oa_outcome := O_Reused, oa_patches := map (pa_outcome_update (\<lambda>_. O_Reused)) bs\<rparr>,
         pv_warning_codes = []\<rparr>"
    unfolding validate_page_corrections_def new bind_ok.simps option.case raw g prod.case page_audit_reused [OF a] vv by simp
  then show "\<exists>v'. validate_page_corrections E snap (trusted_response E (pv_audit v)) O_Reused att = Inr v'
    \<and> pv_spans v' = pv_spans v \<and> pv_warning_codes v' = [] \<and> oa_outcome (pv_audit v') = O_Reused" by (simp add: vv)
  show "trusted_binding_matches E snap (pv_audit v) = Inr True" using bind by (simp add: vv)
qed

lemma page_audit_values:
  "page_audit E snap outcome ps code att = Inr a \<Longrightarrow>
     oa_provider a = ps_provider snap \<and> oa_model a = ps_model snap \<and> oa_retry_count a = at_retry_count att
     \<and> oa_repair_count a = at_repair_count att \<and> oa_repair_validation_codes a = at_repair_codes att"
  by (auto simp: page_audit_def dest!: page_audit_value)

lemma accepted_audit:
  assumes "validate_page_corrections E snap r outcome att = Inr v"
  shows "\<exists>o' bs. page_audit E snap o' bs None att = Inr (pv_audit v)"
proof -
  from assms obtain code where "page_validation_code E snap r = Inr code"
    unfolding validate_page_corrections_def bind_ok_Inr_iff by blast
  with assms show ?thesis by (cases code) (auto simp: validate_page_corrections_def; blast)+
qed

text \<open>The page of an applied audit is reused, without a call of the provider, and gets the same spans.\<close>

lemma trusted_page_reused:
  assumes fl: "floats_roundtrip E" and m: "make_page_snapshot E h page pic spans provider model = Inr snap"
    and v: "validate_page_corrections E snap r O_Applied att = Inr v" and w: "pv_warning_codes v = []"
    and t: "trusted_page report h page = Some (pv_audit v)"
  shows "\<exists>v'. reuse_page E report h page pic spans st = Inr (Some (accept_page v' st)) \<and> pv_spans v' = pv_spans v"
proof -
  note x = applied_page_reused [OF fl v w] and f = make_page_snapshot_fields [OF m]
  from accepted_audit [OF v] obtain o' bs where "page_audit E snap o' bs None att = Inr (pv_audit v)" by blast
  note a = page_audit_values [OF this]
  have att: "\<lparr>at_retry_count = oa_retry_count (pv_audit v), at_repair_count = oa_repair_count (pv_audit v),
      at_repair_codes = oa_repair_validation_codes (pv_audit v)\<rparr> = att" using a by simp
  have m': "make_page_snapshot E h page pic spans (oa_provider (pv_audit v)) (oa_model (pv_audit v)) = Inr snap"
    using m f a by simp
  from x(1) obtain v' where "validate_page_corrections E snap (trusted_response E (pv_audit v)) O_Reused att = Inr v'"
    "pv_spans v' = pv_spans v" "pv_warning_codes v' = []" by blast
  then show ?thesis by (intro exI [of _ v']) (simp add: reuse_page_def t m' x(2) att)
qed

section \<open>Properties\<close>

text \<open>(C33) Whatever the provider answers: in the corrected document every span is the original, or the original with another text and
  its hash, where the change is a change of white space or of at most a few characters at their places (never a line, never markup) and stands as an
  accepted patch with confidence enough in the audit of the page of the span; nothing else of the document changes, and either nothing is
  audited and the document is the original, or there is exactly one audit for each page in order.\<close>

theorem corrections_are_audited:
  assumes "correct_document C rendered d = Inr a" and "distinct (map ss_span_id (nd_spans d))"
  shows "list_all2 (audited_change (oc_library (ct_env C)) (ca_audits a)) (nd_spans d) (nd_spans (ca_document a))
    \<and> ca_document a = d\<lparr>nd_spans := nd_spans (ca_document a)\<rparr>
    \<and> (ca_document a = d \<and> ca_audits a = [] \<or> map oa_page (ca_audits a) = [1..nd_page_count d])"
  using assms by (rule corrected_document)

text \<open>(C34) A page whose corrections were applied and recorded is reproduced from its audit: with the same image, spans and provider
  the later run accepts the recorded patches, gets the same spans and does not call the provider, given that the
  text of a float reads as that float.\<close>

theorem applied_audit_reproduces_page:
  assumes "floats_roundtrip E" and "make_page_snapshot E h page pic spans provider model = Inr snap"
    and "validate_page_corrections E snap r O_Applied att = Inr v" and "pv_warning_codes v = []"
    and "trusted_page report h page = Some (pv_audit v)"
  shows "\<exists>v'. reuse_page E report h page pic spans st = Inr (Some (accept_page v' st)) \<and> pv_spans v' = pv_spans v"
  using assms by (rule trusted_page_reused)

section \<open>A page\<close>

lemma as_python_hashable: "hashable (as_python j)"
  by (induction j) auto

definition env1 :: ocr_env where
  "env1 = \<lparr>oc_library = sample_library, oc_float = (\<lambda>v. if v = JFloat ''0'' then Some 0 else if v = JFloat ''1'' then Some 1 else None),
     oc_repr = (\<lambda>x. if x = 0 then ''0'' else ''1''), oc_str = (\<lambda>v. ''None''), oc_schema = JNull\<rparr>"

lemma env1_floats: "floats_roundtrip env1"
  by (simp add: floats_roundtrip_def env1_def)

definition ocr_box1 :: source_box where
  "ocr_box1 = \<lparr>sb_left = 0, sb_bottom = 0, sb_right = 1, sb_top = 1\<rparr>"

definition ocr_span1 :: source_span where
  "ocr_span1 = \<lparr>ss_span_id = ''span_0000000000000000'', ss_ordinal = 0, ss_page = Some 1, ss_bbox = Some ocr_box1, ss_text = ''ab'',
     ss_text_hash = replicate 64 CHR ''0'', ss_paragraph_break_before = False\<rparr>"

definition patch1 :: json where
  "patch1 = JObj [(''span_id'', JStr ''span_0000000000000000''), (''original_text_hash'', JStr (replicate 64 CHR ''0'')),
     (''corrected_text'', JStr ''a b''), (''correction_kind'', JStr ''spacing''), (''bbox'', dump_box env1 ocr_box1), (''confidence'', JFloat ''1'')]"

definition answer1 :: "page_snapshot \<Rightarrow> json" where
  "answer1 snap = JObj [(''request_hash'', JStr (ps_request_hash snap)), (''patches'', JArr [patch1])]"

lemma snapshot1: "\<exists>snap. make_page_snapshot env1 (replicate 64 CHR ''0'') 1 ''i'' [ocr_span1] ''p'' ''m'' = Inr snap
  \<and> list_all Sha256 [ps_source_hash snap, ps_page_image_hash snap, ps_ocr_catalog_hash snap, ps_request_hash snap, ps_prompt_hash snap,
       ps_schema_hash snap, ps_repair_prompt_hash snap]"
proof -
  have L: "oc_library env1 = sample_library" by (simp add: env1_def)
  have z: "Sha256 (replicate 64 CHR ''0'')" by code_simp
  obtain h1 where h1: "canonical_hash sample_library (as_python (oc_schema env1)) = Inr h1" "Sha256 h1"
    using sample_hash [OF as_python_hashable] by metis
  have "hashable (PDict [(''version'', PStr ''structured-output-repair-v1''),
       (''instruction'', as_python (repair_instruction (oc_schema env1) ''{VALIDATION_CODE}''))])" by (simp add: as_python_hashable)
  then obtain h2 where h2: "structured_repair_prompt_contract_hash sample_library (oc_schema env1) = Inr h2" "Sha256 h2"
    unfolding structured_repair_prompt_contract_hash_def using sample_hash by metis
  obtain h3 where h3: "canonical_hash sample_library (as_python (JArr (map (catalog_entry env1) [ocr_span1]))) = Inr h3" "Sha256 h3"
    using sample_hash [OF as_python_hashable] by metis
  have "\<exists>h. canonical_hash sample_library (PDict
                  [(''source_hash'', PStr a), (''page'', PInt 1), (''page_image_hash'', PStr b),
                   (''ocr_catalog_hash'', PStr c), (''prompt_version'', PStr d),
                   (''prompt_hash'', PStr e), (''schema_hash'', PStr f),
                   (''repair_prompt_version'', PStr g), (''repair_prompt_hash'', PStr i),
                   (''provider'', PStr j), (''model'', PStr k)]) = Inr h \<and> Sha256 h" for a b c d e f g i j k
    by (rule sample_hash) simp
  from this [of "replicate 64 CHR ''0''" "lib_sha256 sample_library ''i''" h3 OCR_CORRECTION_PROMPT_VERSION
      "lib_sha256 sample_library PROMPT" h1 STRUCTURED_REPAIR_PROMPT_VERSION h2 "''p''" "''m''"]
  obtain h4 where h4: "canonical_hash sample_library (PDict
                  [(''source_hash'', PStr (replicate 64 CHR ''0'')), (''page'', PInt 1), (''page_image_hash'', PStr (lib_sha256 sample_library ''i'')),
                   (''ocr_catalog_hash'', PStr h3), (''prompt_version'', PStr OCR_CORRECTION_PROMPT_VERSION),
                   (''prompt_hash'', PStr (lib_sha256 sample_library PROMPT)), (''schema_hash'', PStr h1),
                   (''repair_prompt_version'', PStr STRUCTURED_REPAIR_PROMPT_VERSION), (''repair_prompt_hash'', PStr h2),
                   (''provider'', PStr ''p''), (''model'', PStr ''m'')]) = Inr h4" "Sha256 h4" by blast
  have "\<not> ((1::int) < 1 \<or> length [ocr_span1] > MAX_PAGE_SPANS)" "\<not> (''i'' = [] \<or> length ''i'' > MAX_PAGE_IMAGE_BYTES)"
    "\<not> list_ex (\<lambda>s. ss_page s \<noteq> Some 1 \<or> ss_bbox s = None) [ocr_span1]"
    by (simp_all add: MAX_PAGE_SPANS_def MAX_PAGE_IMAGE_BYTES_def ocr_span1_def)
  then show ?thesis unfolding make_page_snapshot_def Let_def L
    by (simp only: if_False h1 h2 h3 h4 bind_ok.simps) (simp add: z h1 h2 h3 h4)
qed

lemma corrected1: "corrected_code env1 ocr_span1 ''a b'' patch1 = Inr None"
proof -
  have "characters ''ab'' = [''a'', ''b'']" "characters ''a b'' = [''a'', '' '', ''b'']" "\<not> has_raw_html ''a b''" by code_simp+
  moreover have "list_all (\<lambda>c. \<not> control_character c) [''a'', '' '', ''b'']" "map space_character [''a'', '' '', ''b''] = [False, True, False]" by code_simp+
  ultimately have "correction_text_code ''ab'' ''a b'' Spacing = None" "\<not> list_ex (\<lambda>c. control_character c \<and> c \<noteq> [newline]) (characters ''a b'')"
    by (simp_all add: correction_text_code_def without_whitespace_def)
  then show ?thesis using \<open>\<not> has_raw_html ''a b''\<close> \<open>characters ''ab'' = _\<close> \<open>characters ''a b'' = _\<close>
    unfolding corrected_code_def Let_def guard_passed
    by (simp add: ocr_span1_def patch1_def MAX_CORRECTED_GROWTH_def kind_of_json_def number_of_json_def env1_def MIN_CORRECTION_CONFIDENCE_def)
qed

lemma patch_code1: "dict_get cat ''span_0000000000000000'' = Some ocr_span1 \<Longrightarrow> patch_code env1 cat patch1 = Inr None"
proof -
  assume cat: "dict_get cat ''span_0000000000000000'' = Some ocr_span1"
  have "parse_box env1 (Some (dump_box env1 ocr_box1)) = Some ocr_box1"
    by (simp add: parse_box_def dump_box_def env1_def ocr_box1_def reject_if_def SourceBox_def)
  moreover have "json_keys patch1 = PATCH_KEYS" by (auto simp: patch1_def PATCH_KEYS_def)
  ultimately show ?thesis unfolding patch_code_def guard_passed using cat corrected1
    by (simp add: patch1_def ocr_span1_def)
qed

lemma applied1:
  assumes "ps_spans snap = [ocr_span1]" and "ps_page snap = 1" and "list_all Sha256 [ps_source_hash snap, ps_page_image_hash snap, ps_ocr_catalog_hash snap,
      ps_request_hash snap, ps_prompt_hash snap, ps_schema_hash snap, ps_repair_prompt_hash snap]"
  shows "\<exists>v. validate_page_corrections env1 snap (answer1 snap) O_Applied no_attempts = Inr v \<and> pv_warning_codes v = []
    \<and> pv_spans v = [corrected_span sample_library ocr_span1 ''a b''] \<and> oa_page (pv_audit v) = 1 \<and> oa_outcome (pv_audit v) = O_Applied"
proof -
  have raw: "raw_patches (answer1 snap) = [patch1]" by (simp add: raw_patches_def answer1_def)
  have cat: "dict_get (dict_of ss_span_id id [ocr_span1]) ''span_0000000000000000'' = Some ocr_span1" by (simp add: dict_of_def ocr_span1_def)
  have id: "json_get patch1 ''span_id'' = Some (JStr ''span_0000000000000000'')"
    "json_get patch1 ''original_text_hash'' = Some (JStr (replicate 64 CHR ''0''))" "is_object patch1" by (simp_all add: patch1_def)
  have z: "SpanId ''span_0000000000000000''" "Sha256 (replicate 64 CHR ''0'')" by code_simp+
  have plan: "plan_ok (answer1 snap)" using z assms(3) unfolding plan_ok_def raw by (simp add: id answer1_def)
  have code: "page_validation_code env1 snap (answer1 snap) = Inr None"
    unfolding page_validation_code_def Let_def guard_passed raw
    using plan patch_code1 [OF cat] by (simp add: assms(1) answer1_def MAX_PAGE_SPANS_def id)
  have js: "json_string patch1 ''span_id'' = ''span_0000000000000000''" "json_string patch1 ''corrected_text'' = ''a b''"
    "json_string patch1 ''original_text_hash'' = replicate 64 CHR ''0''" by (simp_all add: json_string_def patch1_def)
  obtain b where b: "applied_patch_audit env1 O_Applied patch1 = Inr b" "pa_outcome b = O_Applied"
    using z unfolding applied_patch_audit_def js
    by (simp add: OcrCorrectionPatchAudit_def patch_fields_ok_def env1_def number_of_json_def patch1_def)
  obtain h where "effective_prompt_hash env1 snap [] = Inr h" "Sha256 h"
    using sample_hash unfolding effective_prompt_hash_def env1_def by force
  then obtain a where a: "page_audit env1 snap O_Applied [b] None no_attempts = Inr a" "oa_page a = 1" "oa_outcome a = O_Applied"
    using assms(2,3) b(2) by (simp add: page_audit_def no_attempts_def OcrCorrectionPageAudit_def)
  have L: "oc_library env1 = sample_library" by (simp add: env1_def)
  have "fold_ok (apply_patch env1 (dict_of ss_span_id id [ocr_span1]) O_Applied) ([], []) [patch1] =
      Inr ([(''span_0000000000000000'', corrected_span sample_library ocr_span1 ''a b'')], [b])"
    using cat by (simp add: apply_patch_def js lookup_span_def b(1) L)
  then show ?thesis unfolding validate_page_corrections_def code raw
    using a by (simp add: assms(1)) (simp add: ocr_span1_def)
qed

definition state1 :: correction_state where
  "state1 = \<lparr>cs_catalog = [], cs_audits = [], cs_warnings = []\<rparr>"

theorem applied_audit_reproduces_page_witness:
  "\<exists>snap v v'. make_page_snapshot env1 (replicate 64 CHR ''0'') 1 ''i'' [ocr_span1] ''p'' ''m'' = Inr snap
     \<and> validate_page_corrections env1 snap (answer1 snap) O_Applied no_attempts = Inr v
     \<and> map ss_text (pv_spans v') = [''a b'']
     \<and> reuse_page env1 (Some \<lparr>fr_source_hash = replicate 64 CHR ''0'', fr_extraction_mode = OCR, fr_page_count = 1, fr_status = F_PASS,
          fr_source_span_count = 1, fr_preserved_span_count = 1, fr_excluded_span_count = 0, fr_unmatched_span_count = 0,
          fr_duplicated_span_count = 0, fr_degraded_block_count = 0, fr_source_text_coverage = 1, fr_degraded_blocks = [],
          fr_ocr_corrections = [pv_audit v], fr_ocr_correction_applied_count = 1, fr_ocr_correction_rejected_count = 0, fr_warning_codes = []\<rparr>)
        (replicate 64 CHR ''0'') 1 ''i'' [ocr_span1] state1 = Inr (Some (accept_page v' state1))"
proof -
  from snapshot1 obtain snap where m: "make_page_snapshot env1 (replicate 64 CHR ''0'') 1 ''i'' [ocr_span1] ''p'' ''m'' = Inr snap"
    and h: "list_all Sha256 [ps_source_hash snap, ps_page_image_hash snap, ps_ocr_catalog_hash snap,
      ps_request_hash snap, ps_prompt_hash snap, ps_schema_hash snap, ps_repair_prompt_hash snap]" by blast
  note f = make_page_snapshot_fields [OF m]
  from applied1 [OF _ _ h] f obtain v where v: "validate_page_corrections env1 snap (answer1 snap) O_Applied no_attempts = Inr v"
    "pv_warning_codes v = []" "pv_spans v = [corrected_span sample_library ocr_span1 ''a b'']" "oa_page (pv_audit v) = 1" "oa_outcome (pv_audit v) = O_Applied"
    by blast
  let ?r = "\<lparr>fr_source_hash = replicate 64 CHR ''0'', fr_extraction_mode = OCR, fr_page_count = 1, fr_status = F_PASS,
          fr_source_span_count = 1, fr_preserved_span_count = 1, fr_excluded_span_count = 0, fr_unmatched_span_count = 0,
          fr_duplicated_span_count = 0, fr_degraded_block_count = 0, fr_source_text_coverage = 1, fr_degraded_blocks = [],
          fr_ocr_corrections = [pv_audit v], fr_ocr_correction_applied_count = 1, fr_ocr_correction_rejected_count = 0, fr_warning_codes = []\<rparr>"
  have t: "trusted_page (Some ?r) (replicate 64 CHR ''0'') 1 = Some (pv_audit v)" by (simp add: trusted_page_def v)
  from applied_audit_reproduces_page [OF env1_floats m v(1,2) t, of state1] v(3) obtain v' where
    "reuse_page env1 (Some ?r) (replicate 64 CHR ''0'') 1 ''i'' [ocr_span1] state1 = Inr (Some (accept_page v' state1))"
    "map ss_text (pv_spans v') = [''a b'']" by (auto simp: corrected_span_def)
  with m v(1) show ?thesis by (intro exI [of _ snap] exI [of _ v] exI [of _ v'] conjI)
qed

definition native_one :: native_document where
  "native_one = \<lparr>nd_source_hash = replicate 64 CHR ''0'', nd_extraction_mode = OCR, nd_page_count = 1, nd_parser_versions = [],
     nd_spans = [ocr_span1], nd_groups = [], nd_tables = []\<rparr>"

definition setting1 :: correction_setting where
  "setting1 = \<lparr>ct_env = env1, ct_ask = (\<lambda>snap. Answered ''p'' ''m'' no_attempts (Some (answer1 snap))), ct_identity = Some (''p'', ''m''),
     ct_propagate = False, ct_report = None\<rparr>"

lemma correct_document1:
  "\<exists>a. correct_document setting1 (Inr [\<lparr>rp_size = Inr (1, 1), rp_encoded = Inr ''i''\<rparr>]) native_one = Inr a
     \<and> map ss_text (nd_spans (ca_document a)) = [''a b''] \<and> length (ca_audits a) = 1"
proof -
  from snapshot1 obtain snap where m: "make_page_snapshot env1 (replicate 64 CHR ''0'') 1 ''i'' [ocr_span1] ''p'' ''m'' = Inr snap"
    and h: "list_all Sha256 [ps_source_hash snap, ps_page_image_hash snap, ps_ocr_catalog_hash snap,
      ps_request_hash snap, ps_prompt_hash snap, ps_schema_hash snap, ps_repair_prompt_hash snap]" by blast
  note f = make_page_snapshot_fields [OF m]
  from applied1 [OF _ _ h] f obtain v where v: "validate_page_corrections env1 snap (answer1 snap) O_Applied no_attempts = Inr v"
    "pv_warning_codes v = []" "pv_spans v = [corrected_span sample_library ocr_span1 ''a b'']" by blast
  let ?st = "\<lparr>cs_catalog = [(''span_0000000000000000'', ocr_span1)], cs_audits = [], cs_warnings = []\<rparr>"
  have imgs: "render_pdf_page_images (Inr [\<lparr>rp_size = Inr (1, 1), rp_encoded = Inr ''i''\<rparr>]) = Inr [''i'']"
    by (simp add: render_pdf_page_images_def encode_page_def or_unreadable_def MAX_OCR_PAGES_def MAX_PAGE_PIXELS_def
        MAX_PAGE_IMAGE_BYTES_def MAX_TOTAL_PAGE_IMAGE_BYTES_def)
  have ask: "ask_provider env1 (ct_ask setting1) False snap ?st = Inr (accept_page v ?st)"
    using v(1) f by (simp add: ask_provider_def setting1_def)
  have page: "correct_page setting1 native_one ?st (1, ''i'') = Inr (accept_page v ?st)"
    using m ask by (simp add: correct_page_def Let_def reuse_page_def trusted_page_def setting1_def native_one_def ocr_span1_def)
  have acc: "accept_page v ?st = \<lparr>cs_catalog = [(''span_0000000000000000'', corrected_span sample_library ocr_span1 ''a b'')],
      cs_audits = [pv_audit v], cs_warnings = []\<rparr>"
    by (simp add: accept_page_def v corrected_span_def ocr_span1_def)
  have d: "dict_of ss_span_id id [ocr_span1] = [(''span_0000000000000000'', ocr_span1)]" "ss_page ocr_span1 = Some 1"
    "nd_spans native_one = [ocr_span1]" "nd_page_count native_one = 1" "ss_span_id ocr_span1 = ''span_0000000000000000''"
    "nd_extraction_mode native_one = OCR"
    by (simp_all add: native_one_def ocr_span1_def dict_of_def)
  show ?thesis unfolding correct_document_def imgs bind_ok.simps
    by (simp add: d page acc lookup_span_def corrected_span_def)
qed

theorem corrections_are_audited_witness:
  "\<exists>a. correct_document setting1 (Inr [\<lparr>rp_size = Inr (1, 1), rp_encoded = Inr ''i''\<rparr>]) native_one = Inr a
     \<and> map ss_text (nd_spans (ca_document a)) = [''a b''] \<and> map oa_page (ca_audits a) = [1]
     \<and> list_all2 (audited_change sample_library (ca_audits a)) [ocr_span1] (nd_spans (ca_document a))"
proof -
  from correct_document1 obtain a where r: "correct_document setting1 (Inr [\<lparr>rp_size = Inr (1, 1), rp_encoded = Inr ''i''\<rparr>]) native_one = Inr a
    \<and> map ss_text (nd_spans (ca_document a)) = [''a b''] \<and> length (ca_audits a) = 1" ..
  note a = conjunct1 [OF r] conjunct1 [OF conjunct2 [OF r]] conjunct2 [OF conjunct2 [OF r]]
  have "distinct (map ss_span_id (nd_spans native_one))" by (simp add: native_one_def)
  note c = corrections_are_audited [OF a(1) this]
  have d: "nd_spans native_one = [ocr_span1]" "nd_page_count native_one = 1" "oc_library (ct_env setting1) = sample_library"
    by (simp_all add: native_one_def setting1_def env1_def)
  have "ca_audits a \<noteq> []" using a(3) by auto
  then have "map oa_page (ca_audits a) = [1]" using c d(2) by simp
  then show ?thesis using a(1,2) conjunct1 [OF c, unfolded d] by (intro exI [of _ a] conjI)
qed

text \<open>A patch whose span identifier is a list is not rejected: the set of the identifiers raises a \<open>TypeError\<close>.\<close>

theorem unhashable_span_id_raises:
  "validate_page_corrections E snap (JObj [(''request_hash'', JStr (ps_request_hash snap)), (''patches'', JArr [JObj [(''span_id'', JArr [])]])]) outcome att
   = Inl (TypeError ''unhashable type'')"
  by (simp add: validate_page_corrections_def page_validation_code_def Let_def raw_patches_def unhashable_type_def MAX_PAGE_SPANS_def
      insert_commute)

end
