(* ===== verification/Evidence.thy ===== *)
theory Evidence
  imports Characters Skeleton
begin

text \<open>
  The evidence a PDF page gives (\<open>semantic/evidence.py\<close>): its characters as atoms with their boxes, the texts other engines
  recognised, and the regions that own the atoms. The lemma says what an accepted document guarantees to
  the steps after it: every atom has one region.
\<close>

section \<open>Identifiers\<close>

definition prefixed_id :: "string \<Rightarrow> string \<Rightarrow> bool" where
  "prefixed_id prefix s \<longleftrightarrow> starts_with prefix s \<and> hex_group 16 (drop (length prefix) s)"

definition AtomId :: "string \<Rightarrow> bool" where "AtomId s \<longleftrightarrow> prefixed_id ''atom_'' s"
definition RegionId :: "string \<Rightarrow> bool" where "RegionId s \<longleftrightarrow> prefixed_id ''region_'' s"
definition HypothesisId :: "string \<Rightarrow> bool" where "HypothesisId s \<longleftrightarrow> prefixed_id ''hyp_'' s"

lemma prefixed_hash: "Sha256 h \<Longrightarrow> prefixed_id p (p @ take 16 h)"
  by (auto simp: prefixed_id_def Sha256_def hex_group_def starts_with_def list_all_iff dest: in_set_takeD)

text \<open>The parts are given as the texts \<open>str\<close> makes of them.\<close>

definition make_evidence_id :: "library \<Rightarrow> string \<Rightarrow> string list \<Rightarrow> string result" where
  "make_evidence_id L prefix parts =
     bind_ok (canonical_hash L (PSeq (map PStr parts))) (\<lambda>digest. Inr (prefix @ ''_'' @ take 16 digest))"

section \<open>Atoms, hypotheses and regions\<close>

datatype evidence_mode = M_Embedded | M_Ocr | M_Mixed
datatype atom_kind = Char_Atom | Space_Atom | Break_Atom
datatype authority = By_Embedded | By_Ocr | By_None

record evidence_atom =
  ea_atom_id :: string
  ea_ordinal :: int
  ea_page :: int
  ea_bbox :: "source_box option"
  ea_text :: string
  ea_kind :: atom_kind
  ea_authority :: authority
  ea_source_object :: int
  ea_source_index :: int
  ea_confidence :: rat

fun atom_kind_valid :: "atom_kind \<Rightarrow> string \<Rightarrow> bool" where
  "atom_kind_valid Break_Atom t = (t = [CHR 0x0A])"
| "atom_kind_valid Space_Atom t = (t \<noteq> [CHR 0x0A] \<and> all_space t)"
| "atom_kind_valid Char_Atom t = (\<not> list_ex space_character (characters t))"

definition EvidenceAtom :: "evidence_atom \<Rightarrow> evidence_atom result" where
  "EvidenceAtom a =
     (if \<not> (AtomId (ea_atom_id a) \<and> 0 \<le> ea_ordinal a \<and> 1 \<le> ea_page a \<and> ea_text a \<noteq> [] \<and> length (characters (ea_text a)) \<le> 2
            \<and> ea_authority a \<noteq> By_None \<and> 0 \<le> ea_source_object a \<and> 0 \<le> ea_source_index a
            \<and> 0 \<le> ea_confidence a \<and> ea_confidence a \<le> 1) then Inl field_error
      else bind_ok (reject_if (\<not> atom_kind_valid (ea_kind a) (ea_text a)) ''EVIDENCE_ATOM_KIND_INVALID'') (\<lambda>_. Inr a))"

record recognition_hypothesis =
  rh_hypothesis_id :: string
  rh_region_id :: string
  rh_page :: int
  rh_bbox :: source_box
  rh_text :: string
  rh_engine :: string
  rh_confidence :: rat

definition RecognitionHypothesis :: "recognition_hypothesis \<Rightarrow> recognition_hypothesis result" where
  "RecognitionHypothesis h =
     (if \<not> (HypothesisId (rh_hypothesis_id h) \<and> RegionId (rh_region_id h) \<and> 1 \<le> rh_page h \<and> rh_text h \<noteq> [] \<and> rh_engine h \<noteq> []
            \<and> 0 \<le> rh_confidence h \<and> rh_confidence h \<le> 1) then Inl field_error else Inr h)"

record evidence_region =
  er_region_id :: string
  er_page :: int
  er_bbox :: source_box
  er_atom_ids :: "string list"
  er_hypothesis_ids :: "string list"
  er_authority :: authority
  er_requires_review :: bool

definition EvidenceRegion :: "evidence_region \<Rightarrow> evidence_region result" where
  "EvidenceRegion r =
     (if \<not> (RegionId (er_region_id r) \<and> 1 \<le> er_page r \<and> list_all AtomId (er_atom_ids r) \<and> list_all HypothesisId (er_hypothesis_ids r))
      then Inl field_error
      else bind_ok (reject_if (er_authority r = By_None \<and> \<not> er_requires_review r) ''EVIDENCE_REGION_REVIEW_REQUIRED'') (\<lambda>_.
           bind_ok (reject_if (er_atom_ids r = [] \<and> er_hypothesis_ids r = []) ''EVIDENCE_REGION_EMPTY'') (\<lambda>_. Inr r)))"

section \<open>The document\<close>

record evidence_document =
  ed_source_hash :: string
  ed_mode :: evidence_mode
  ed_page_count :: int
  ed_parser_versions :: "(string, string) dict"
  ed_atoms :: "evidence_atom list"
  ed_hypotheses :: "recognition_hypothesis list"
  ed_regions :: "evidence_region list"

definition check_hypothesis :: "(string, recognition_hypothesis) dict \<Rightarrow> evidence_region \<Rightarrow> string \<Rightarrow> unit result" where
  "check_hypothesis hyps r i =
     (case dict_get hyps i of
        None \<Rightarrow> Inl (KeyError i)
      | Some h \<Rightarrow> reject_if (rh_region_id h \<noteq> er_region_id r \<or> rh_page h \<noteq> er_page r) ''EVIDENCE_HYPOTHESIS_REGION_MISMATCH'')"

definition check_evidence_region ::
  "bool \<Rightarrow> string set \<Rightarrow> (string, recognition_hypothesis) dict \<Rightarrow> string list \<Rightarrow> evidence_region \<Rightarrow> string list result" where
  "check_evidence_region require_resolved atoms hyps ownership r =
     bind_ok (reject_if (require_resolved \<and> er_authority r = By_None) ''EVIDENCE_REGION_AUTHORITY_UNRESOLVED'') (\<lambda>_.
     bind_ok (reject_if (require_resolved \<and> er_atom_ids r = []) ''EVIDENCE_REGION_ATOMS_REQUIRED'') (\<lambda>_.
     bind_ok (reject_if (\<not> set (er_atom_ids r) \<subseteq> atoms) ''EVIDENCE_REGION_ATOM_UNKNOWN'') (\<lambda>_.
     bind_ok (reject_if (\<not> set (er_hypothesis_ids r) \<subseteq> set (dict_keys hyps)) ''EVIDENCE_REGION_HYPOTHESIS_UNKNOWN'') (\<lambda>_.
     bind_ok (traverse (check_hypothesis hyps r) (er_hypothesis_ids r)) (\<lambda>_.
       Inr (ownership @ er_atom_ids r))))))"

definition validate_evidence :: "bool \<Rightarrow> evidence_document \<Rightarrow> unit result" where
  "validate_evidence require_resolved e =
     (let atom_ids = map ea_atom_id (ed_atoms e); region_ids = map er_region_id (ed_regions e);
          hypothesis_ids = map rh_hypothesis_id (ed_hypotheses e); n = ed_page_count e
      in bind_ok (reject_if (\<not> distinct atom_ids \<or> \<not> distinct (map ea_ordinal (ed_atoms e))) ''EVIDENCE_ATOMS_NOT_UNIQUE'') (\<lambda>_.
         bind_ok (reject_if (\<not> distinct region_ids) ''EVIDENCE_REGIONS_NOT_UNIQUE'') (\<lambda>_.
         bind_ok (reject_if (\<not> distinct hypothesis_ids) ''EVIDENCE_HYPOTHESES_NOT_UNIQUE'') (\<lambda>_.
         bind_ok (reject_if (\<exists>a\<in>set (ed_atoms e). ea_page a > n) ''EVIDENCE_ATOM_PAGE_INVALID'') (\<lambda>_.
         bind_ok (reject_if (\<exists>r\<in>set (ed_regions e). er_page r > n) ''EVIDENCE_REGION_PAGE_INVALID'') (\<lambda>_.
         bind_ok (reject_if (\<exists>h\<in>set (ed_hypotheses e). rh_page h > n) ''EVIDENCE_HYPOTHESIS_PAGE_INVALID'') (\<lambda>_.
         bind_ok (fold_ok (check_evidence_region require_resolved (set atom_ids) (dict_of rh_hypothesis_id id (ed_hypotheses e))) []
                    (ed_regions e)) (\<lambda>ownership.
         bind_ok (reject_if (\<exists>h\<in>set (ed_hypotheses e). rh_region_id h \<notin> set region_ids) ''EVIDENCE_HYPOTHESIS_REGION_UNKNOWN'') (\<lambda>_.
         bind_ok (reject_if (\<not> distinct ownership) ''EVIDENCE_ATOM_OWNERSHIP_NOT_UNIQUE'') (\<lambda>_.
           reject_if (set ownership \<noteq> set atom_ids) ''EVIDENCE_ATOM_OWNERSHIP_INCOMPLETE''))))))))))"

text \<open>\<open>ExtractedEvidence\<close> accepts open questions, \<open>EvidenceDocument\<close> does not.\<close>

definition evidence_fields_ok :: "evidence_document \<Rightarrow> bool" where
  "evidence_fields_ok e \<longleftrightarrow> Sha256 (ed_source_hash e) \<and> 1 \<le> ed_page_count e"

definition ExtractedEvidence :: "evidence_document \<Rightarrow> evidence_document result" where
  "ExtractedEvidence e =
     (if \<not> evidence_fields_ok e then Inl field_error else bind_ok (validate_evidence False e) (\<lambda>_. Inr e))"

definition EvidenceDocument :: "evidence_document \<Rightarrow> evidence_document result" where
  "EvidenceDocument e =
     (if \<not> evidence_fields_ok e then Inl field_error else bind_ok (validate_evidence True e) (\<lambda>_. Inr e))"

definition authoritative_non_whitespace :: "evidence_document \<Rightarrow> string" where
  "authoritative_non_whitespace e = concat (map ea_text (filter (\<lambda>a. \<not> all_space (ea_text a)) (sort_key ea_ordinal (ed_atoms e))))"

section \<open>Ownership\<close>

lemma regions_ownership:
  "fold_ok (check_evidence_region q atoms hyps) own rs = Inr own' \<Longrightarrow> own' = own @ concat (map er_atom_ids rs)
    \<and> (q \<longrightarrow> (\<forall>r\<in>set rs. er_atom_ids r \<noteq> []))"
proof (induction rs arbitrary: own)
  case (Cons r rs)
  then obtain own1 where 1: "check_evidence_region q atoms hyps own r = Inr own1"
    and 2: "fold_ok (check_evidence_region q atoms hyps) own1 rs = Inr own'" by (auto split: sum.splits)
  from 1 have "own1 = own @ er_atom_ids r \<and> (q \<longrightarrow> er_atom_ids r \<noteq> [])" by (auto simp: check_evidence_region_def)
  with Cons.IH [OF 2] show ?case by simp
qed simp

lemma accepted_evidence_partition:
  assumes "EvidenceDocument e = Inr e'"
  shows "mset (concat (map er_atom_ids (ed_regions e))) = mset (map ea_atom_id (ed_atoms e))"
    and "distinct (map ea_atom_id (ed_atoms e))" and "\<forall>r\<in>set (ed_regions e). er_atom_ids r \<noteq> []"
proof -
  from assms obtain own where f: "fold_ok (check_evidence_region True (set (map ea_atom_id (ed_atoms e)))
      (dict_of rh_hypothesis_id id (ed_hypotheses e))) [] (ed_regions e) = Inr own"
    and own: "distinct own" "set own = set (map ea_atom_id (ed_atoms e))" and d: "distinct (map ea_atom_id (ed_atoms e))"
    by (auto simp: EvidenceDocument_def validate_evidence_def Let_def split: if_splits)
  from regions_ownership [OF f] own d
  show "mset (concat (map er_atom_ids (ed_regions e))) = mset (map ea_atom_id (ed_atoms e))"
    and "\<forall>r\<in>set (ed_regions e). er_atom_ids r \<noteq> []"
    using set_eq_iff_mset_eq_distinct [THEN iffD1, OF own(1) d own(2)] by simp_all
  show "distinct (map ea_atom_id (ed_atoms e))" by (rule d)
qed

end
