(* ===== verification/Region_Order.thy ===== *)
theory Region_Order
  imports Ard_Prelude "HOL-Library.Multiset"
begin

text \<open>
  The topological order of the layout (\<open>_ordered_region_ids\<close> of \<open>semantic/layout.py\<close>): a region is ready when no edge enters it any
  more, and of the ready regions the first in the list is taken. The lemmas show that the loop ends with an order
  that every edge follows, exactly when there is one.
\<close>

section \<open>The loop\<close>

text \<open>The position of a region in the list, the number of edges that enter it, and where the edges that leave it lead.\<close>

definition region_rank :: "string list \<Rightarrow> string \<Rightarrow> nat" where
  "region_rank ids x = (case dict_get (dict_of fst snd (zip ids [0..<length ids])) x of Some i \<Rightarrow> i | None \<Rightarrow> 0)"

definition count_incoming :: "(string, int) dict \<Rightarrow> string \<times> string \<Rightarrow> (string, int) dict result" where
  "count_incoming d e = (case dict_get d (snd e) of None \<Rightarrow> Inl (KeyError (snd e)) | Some n \<Rightarrow> Inr (dict_set (snd e) (n + 1) d))"

definition outgoing_of :: "(string \<times> string) list \<Rightarrow> string \<Rightarrow> string list" where
  "outgoing_of edges x = map snd (filter (\<lambda>e. fst e = x) edges)"

definition release_one ::
  "(string \<Rightarrow> nat) \<Rightarrow> (string, int) dict \<times> string list \<Rightarrow> string \<Rightarrow> ((string, int) dict \<times> string list) result" where
  "release_one rank st following =
     (case st of (incoming, ready) \<Rightarrow>
        (case dict_get incoming following of
           None \<Rightarrow> Inl (KeyError following)
         | Some n \<Rightarrow>
             let incoming' = dict_set following (n - 1) incoming
             in Inr (incoming', if n - 1 = 0 then sort_key rank (ready @ [following]) else ready)))"

definition waiting :: "(string, int) dict \<Rightarrow> nat" where
  "waiting incoming = length (filter (\<lambda>(k, n). 1 \<le> n) incoming)"

lemma waiting_set:
  "dict_get d k = Some n \<Longrightarrow> waiting (dict_set k (n - 1) d) + (if n = 1 then 1 else 0) \<le> waiting d"
proof (induction d)
  case (Cons p d)
  then show ?case by (cases p) (auto simp: waiting_def)
qed simp

lemma release_one_waiting:
  assumes "release_one rank (inc, rd) f = Inr (inc', rd')"
  shows "length rd' + waiting inc' \<le> length rd + waiting inc"
proof -
  from assms obtain n where n: "dict_get inc f = Some n" and i: "inc' = dict_set f (n - 1) inc"
    and r: "rd' = (if n - 1 = 0 then sort_key rank (rd @ [f]) else rd)"
    by (auto simp: release_one_def Let_def split: option.splits)
  show ?thesis using waiting_set [OF n] by (auto simp: i r split: if_splits)
qed

lemma release_all_waiting:
  "fold_ok (release_one rank) (inc, rd) fs = Inr (inc', rd') \<Longrightarrow> length rd' + waiting inc' \<le> length rd + waiting inc"
proof (induction fs arbitrary: inc rd)
  case (Cons f fs)
  then obtain inc1 rd1 where 1: "release_one rank (inc, rd) f = Inr (inc1, rd1)"
    and 2: "fold_ok (release_one rank) (inc1, rd1) fs = Inr (inc', rd')"
    by (auto split: sum.splits)
  show ?case using release_one_waiting [OF 1] Cons.IH [OF 2] by simp
qed simp

function order_loop ::
  "(string \<Rightarrow> nat) \<Rightarrow> (string \<Rightarrow> string list) \<Rightarrow> (string, int) dict \<Rightarrow> string list \<Rightarrow> string list \<Rightarrow> string list result" where
  "order_loop rank outgoing incoming [] ordered = Inr ordered"
| "order_loop rank outgoing incoming (current # ready) ordered =
     (case fold_ok (release_one rank) (incoming, ready) (sort_key rank (outgoing current)) of
        Inl e \<Rightarrow> Inl e
      | Inr st \<Rightarrow> order_loop rank outgoing (fst st) (snd st) (ordered @ [current]))"
  by pat_completeness auto

termination
proof (relation "measure (\<lambda>(rank, outgoing, incoming, ready, ordered). length ready + waiting incoming)")
  fix rank outgoing incoming ready st and current :: string and ordered :: "string list"
  assume "fold_ok (release_one rank) (incoming, ready) (sort_key rank (outgoing current)) = Inr st"
  then show "((rank, outgoing, fst st, snd st, ordered @ [current]), rank, outgoing, incoming, current # ready, ordered)
      \<in> measure (\<lambda>(rank, outgoing, incoming, ready, ordered). length ready + waiting incoming)"
    using release_all_waiting [of rank incoming ready "sort_key rank (outgoing current)" "fst st" "snd st"] by simp
qed simp

definition ordered_ids :: "string list \<Rightarrow> (string \<times> string) list \<Rightarrow> string list result" where
  "ordered_ids ids edges =
     (let rank = region_rank ids
      in bind_ok (fold_ok count_incoming (dict_of id (\<lambda>_. 0) ids) edges) (\<lambda>incoming.
         let ready = sort_key rank (map fst (filter (\<lambda>(k, n). n = 0) incoming))
         in bind_ok (order_loop rank (outgoing_of edges) incoming ready []) (\<lambda>ordered.
            if length ordered \<noteq> length ids then Inl (ValueError ''READING_ORDER_CYCLE'') else Inr ordered)))"


section \<open>Orders that follow the edges\<close>

definition edges_forward :: "('a \<times> 'a) list \<Rightarrow> 'a list \<Rightarrow> bool" where
  "edges_forward E xs \<longleftrightarrow> (\<forall>a b us vs. (a, b) \<in> set E \<longrightarrow> xs = us @ b # vs \<longrightarrow> a \<in> set us)"

definition topological :: "('a \<times> 'a) list \<Rightarrow> 'a list \<Rightarrow> 'a list \<Rightarrow> bool" where
  "topological E ids xs \<longleftrightarrow> distinct xs \<and> set xs = set ids \<and> edges_forward E xs"

lemma edges_forward_Nil [simp]: "edges_forward E []"
  by (simp add: edges_forward_def)

lemma edges_forwardD: "edges_forward E xs \<Longrightarrow> (a, b) \<in> set E \<Longrightarrow> xs = us @ b # vs \<Longrightarrow> a \<in> set us"
  by (simp add: edges_forward_def)

lemma edges_forward_snoc:
  "edges_forward E (xs @ [c]) \<longleftrightarrow> edges_forward E xs \<and> (\<forall>a. (a, c) \<in> set E \<longrightarrow> a \<in> set xs)"
proof
  assume e: "edges_forward E (xs @ [c])"
  have "a \<in> set us" if "(a, b) \<in> set E" "xs = us @ b # vs" for a b us vs
    using e that unfolding edges_forward_def by (metis append.assoc append_Cons)
  then show "edges_forward E xs \<and> (\<forall>a. (a, c) \<in> set E \<longrightarrow> a \<in> set xs)"
    using e unfolding edges_forward_def by blast
next
  assume e: "edges_forward E xs \<and> (\<forall>a. (a, c) \<in> set E \<longrightarrow> a \<in> set xs)"
  show "edges_forward E (xs @ [c])" unfolding edges_forward_def
  proof (intro allI impI)
    fix a b us vs assume ab: "(a, b) \<in> set E" and s: "xs @ [c] = us @ b # vs"
    show "a \<in> set us"
    proof (cases vs rule: rev_cases)
      case Nil
      with s ab e show ?thesis by auto
    next
      case (snoc ws w)
      with s have "xs = us @ b # ws" by simp
      with e ab show ?thesis unfolding edges_forward_def by blast
    qed
  qed
qed

definition indegree :: "(string \<times> string) list \<Rightarrow> string set \<Rightarrow> string \<Rightarrow> nat" where
  "indegree E S b = length (filter (\<lambda>(x, y). y = b \<and> x \<notin> S) E)"

lemma indegree_insert:
  "c \<notin> S \<Longrightarrow> indegree E S k = indegree E (insert c S) k + count (mset (outgoing_of E c)) k"
  by (induction E) (auto simp: indegree_def outgoing_of_def)

lemma indegree_zero: "indegree E S b = 0 \<longleftrightarrow> (\<forall>a. (a, b) \<in> set E \<longrightarrow> a \<in> S)"
  by (auto simp: indegree_def filter_empty_conv)

section \<open>The steps of the loop\<close>

lemma count_all:
  assumes "\<forall>e\<in>set E. snd e \<in> set (dict_keys d)" and "dict_ok d"
  shows "\<exists>inc. fold_ok count_incoming d E = Inr inc \<and> dict_ok inc
    \<and> (\<forall>k. dict_get inc k = map_option (\<lambda>n. n + int (indegree E {} k)) (dict_get d k))"
  using assms
proof (induction E arbitrary: d)
  case Nil
  then show ?case by (simp add: indegree_def option.map_ident)
next
  case (Cons e E)
  then obtain n where n: "dict_get d (snd e) = Some n" by (metis list.set_intros(1) map_of_eq_None_iff not_None_eq set_map)
  have k: "set (dict_keys (dict_set (snd e) (n + 1) d)) = set (dict_keys d)"
    unfolding dict_keys_set using Cons.prems(1) by auto
  from Cons.IH [of "dict_set (snd e) (n + 1) d"] Cons.prems k obtain inc where
    "fold_ok count_incoming (dict_set (snd e) (n + 1) d) E = Inr inc" "dict_ok inc"
    "\<forall>j. dict_get inc j = map_option (\<lambda>n. n + int (indegree E {} j)) (dict_get (dict_set (snd e) (n + 1) d) j)" by auto
  moreover have "count_incoming d e = Inr (dict_set (snd e) (n + 1) d)" using n by (simp add: count_incoming_def)
  ultimately show ?case using n by (intro exI [of _ inc]) (auto simp: indegree_def case_prod_beta)
qed

lemma release_all:
  assumes "\<forall>k\<in>set fs. k \<notin> set ready \<and> (\<exists>n. dict_get inc k = Some n \<and> int (count (mset fs) k) \<le> n)" and "distinct ready"
  shows "\<exists>inc' ready'. fold_ok (release_one rank) (inc, ready) fs = Inr (inc', ready') \<and> distinct ready'
    \<and> (\<forall>k. dict_get inc' k = map_option (\<lambda>n. n - int (count (mset fs) k)) (dict_get inc k))
    \<and> set ready' = set ready \<union> {k \<in> set fs. dict_get inc k = Some (int (count (mset fs) k))}"
  using assms
proof (induction fs arbitrary: inc ready)
  case Nil
  then show ?case by (simp add: option.map_ident)
next
  case (Cons f fs)
  then obtain n where n: "dict_get inc f = Some n" "int (count (mset fs) f) + 1 \<le> n" "f \<notin> set ready" by auto
  define ready1 where "ready1 = (if n - 1 = 0 then sort_key rank (ready @ [f]) else ready)"
  let ?inc = "dict_set f (n - 1) inc"
  have s1: "set ready1 = (if n = 1 then insert f (set ready) else set ready)" and d1: "distinct ready1"
    using Cons.prems(2) n(3) by (auto simp: ready1_def)
  have f1: "n = 1 \<Longrightarrow> f \<notin> set fs" using n(2) by (metis add.commute add_le_same_cancel1 count_greater_zero_iff not_le of_nat_0_less_iff set_mset_mset)
  have pre: "\<forall>k\<in>set fs. k \<notin> set ready1 \<and> (\<exists>m. dict_get ?inc k = Some m \<and> int (count (mset fs) k) \<le> m)"
    using Cons.prems(1) n f1 by (auto simp: s1 split: if_splits)
  from Cons.IH [OF pre d1] obtain inc' ready' where
    r: "fold_ok (release_one rank) (?inc, ready1) fs = Inr (inc', ready')" "distinct ready'"
      "\<forall>k. dict_get inc' k = map_option (\<lambda>n. n - int (count (mset fs) k)) (dict_get ?inc k)"
      "set ready' = set ready1 \<union> {k \<in> set fs. dict_get ?inc k = Some (int (count (mset fs) k))}" by blast
  have "set ready' = set ready \<union> {k \<in> set (f # fs). dict_get inc k = Some (int (count (mset (f # fs)) k))}"
  proof (rule set_eqI)
    fix k
    show "k \<in> set ready' \<longleftrightarrow> k \<in> set ready \<union> {k \<in> set (f # fs). dict_get inc k = Some (int (count (mset (f # fs)) k))}"
    proof (cases "k = f")
      case True
      have "f \<in> set ready' \<longleftrightarrow> n = 1 \<or> f \<in> set fs \<and> n - 1 = int (count (mset fs) f)" using r(4) n(3) by (auto simp: s1)
      also have "\<dots> \<longleftrightarrow> n = int (count (mset fs) f) + 1" using f1 by (cases "f \<in> set fs") (auto simp: not_in_iff [symmetric])
      finally show ?thesis using True n by auto
    next
      case False
      then show ?thesis using r(4) by (simp add: s1)
    qed
  qed
  moreover have "release_one rank (inc, ready) f = Inr (?inc, ready1)" using n(1) by (simp add: release_one_def ready1_def Let_def)
  ultimately show ?case using r n by auto
qed

section \<open>The invariant of the loop\<close>

definition order_invariant :: "(string \<times> string) list \<Rightarrow> string list \<Rightarrow> (string, int) dict \<Rightarrow> string list \<Rightarrow> string list \<Rightarrow> bool" where
  "order_invariant E ids inc ready ordered \<longleftrightarrow> distinct ready \<and> distinct ordered \<and> set ordered \<subseteq> set ids \<and> edges_forward E ordered
     \<and> (\<forall>k. dict_get inc k = (if k \<in> set ids then Some (int (indegree E (set ordered) k)) else None))
     \<and> set ready = {k \<in> set ids. k \<notin> set ordered \<and> indegree E (set ordered) k = 0}"

lemma order_step:
  assumes inv: "order_invariant E ids inc (c # ready) ordered" and E: "\<forall>e\<in>set E. snd e \<in> set ids"
  shows "\<exists>inc' ready'. fold_ok (release_one rank) (inc, ready) (sort_key rank (outgoing_of E c)) = Inr (inc', ready')
    \<and> order_invariant E ids inc' ready' (ordered @ [c])"
proof -
  let ?fs = "sort_key rank (outgoing_of E c)" and ?S = "set ordered"
  have c: "c \<in> set ids" "c \<notin> ?S" "indegree E ?S c = 0" and r: "distinct ready" "c \<notin> set ready"
    and rd: "insert c (set ready) = {k \<in> set ids. k \<notin> ?S \<and> indegree E ?S k = 0}"
    and g: "\<And>k. dict_get inc k = (if k \<in> set ids then Some (int (indegree E ?S k)) else None)"
    using inv by (auto simp: order_invariant_def)
  have m: "count (mset ?fs) k = count (mset (outgoing_of E c)) k" for k by simp
  note deg = indegree_insert [OF c(2), of E]
  have fsE: "k \<in> set ids \<and> k \<notin> ?S \<and> k \<noteq> c \<and> indegree E ?S k \<noteq> 0" if k: "k \<in> set ?fs" for k
  proof -
    from k have e: "(c, k) \<in> set E" by (auto simp: outgoing_of_def)
    then have d: "indegree E ?S k \<noteq> 0" using c(2) indegree_zero by blast
    moreover have "k \<notin> ?S"
    proof
      assume "k \<in> ?S"
      then obtain us vs where "ordered = us @ k # vs" by (auto simp: in_set_conv_decomp)
      with e inv have "c \<in> set us" unfolding order_invariant_def edges_forward_def by blast
      with \<open>ordered = _\<close> c(2) show False by simp
    qed
    moreover have "k \<noteq> c" using d c(3) by auto
    ultimately show ?thesis using E e by auto
  qed
  have pre: "\<forall>k\<in>set ?fs. k \<notin> set ready \<and> (\<exists>n. dict_get inc k = Some n \<and> int (count (mset ?fs) k) \<le> n)"
  proof
    fix k assume k: "k \<in> set ?fs"
    have "k \<notin> insert c (set ready)" using fsE [OF k] unfolding rd by simp
    then have "k \<notin> set ready" by simp
    moreover have "dict_get inc k = Some (int (indegree E ?S k))" using fsE [OF k] g by simp
    ultimately show "k \<notin> set ready \<and> (\<exists>n. dict_get inc k = Some n \<and> int (count (mset ?fs) k) \<le> n)"
      using deg [of k] m by simp
  qed
  from release_all [OF pre r(1), of rank] obtain inc' ready' where
    f: "fold_ok (release_one rank) (inc, ready) ?fs = Inr (inc', ready')" and d': "distinct ready'"
    and i': "\<And>k. dict_get inc' k = map_option (\<lambda>n. n - int (count (mset ?fs) k)) (dict_get inc k)"
    and s': "set ready' = set ready \<union> {k \<in> set ?fs. dict_get inc k = Some (int (count (mset ?fs) k))}" by blast
  have "dict_get inc' k = (if k \<in> set ids then Some (int (indegree E (insert c ?S) k)) else None)" for k
    using i' [of k] g [of k] deg [of k] m [of k] by simp
  moreover have "set ready' = {k \<in> set ids. k \<notin> insert c ?S \<and> indegree E (insert c ?S) k = 0}"
  proof (rule set_eqI)
    fix k
    show "k \<in> set ready' \<longleftrightarrow> k \<in> {k \<in> set ids. k \<notin> insert c ?S \<and> indegree E (insert c ?S) k = 0}"
    proof (cases "k \<in> set ?fs")
      case True
      have "k \<notin> set ready" "dict_get inc k = Some (int (indegree E ?S k))" using pre True fsE [OF True] g [of k] by auto
      then have "k \<in> set ready' \<longleftrightarrow> indegree E ?S k = count (mset (outgoing_of E c)) k" using s' True m [of k] by simp
      then show ?thesis using fsE [OF True] deg [of k] by auto
    next
      case False
      then have "count (mset (outgoing_of E c)) k = 0" by (simp only: count_mset_0_iff set_sort not_False_eq_True)
      then have d: "indegree E (insert c ?S) k = indegree E ?S k" using deg [of k] by simp
      have "k \<in> set ready' \<longleftrightarrow> k \<noteq> c \<and> k \<in> insert c (set ready)" using s' False r(2) by auto
      then show ?thesis unfolding rd mem_Collect_eq d by auto
    qed
  qed
  moreover have "edges_forward E (ordered @ [c])"
    using inv c(3) unfolding edges_forward_snoc by (simp add: order_invariant_def indegree_zero)
  moreover have "distinct (ordered @ [c])" "set (ordered @ [c]) \<subseteq> set ids" "set (ordered @ [c]) = insert c ?S"
    using inv c by (simp_all add: order_invariant_def)
  ultimately have "order_invariant E ids inc' ready' (ordered @ [c])" using d' unfolding order_invariant_def by simp
  with f show ?thesis by blast
qed

lemma order_loop_ends:
  assumes "order_invariant E ids inc ready ordered" and "\<forall>e\<in>set E. snd e \<in> set ids"
  shows "\<exists>xs inc'. order_loop rank (outgoing_of E) inc ready ordered = Inr xs \<and> order_invariant E ids inc' [] xs"
  using assms(1)
proof (induction rank "outgoing_of E" inc ready ordered rule: order_loop.induct)
  case (2 rank inc c ready ordered)
  from order_step [OF 2(2) assms(2), of rank] obtain inc' ready' where
    f: "fold_ok (release_one rank) (inc, ready) (sort_key rank (outgoing_of E c)) = Inr (inc', ready')"
    and i: "order_invariant E ids inc' ready' (ordered @ [c])" by blast
  from 2(1) [OF f] i show ?case by (simp add: f)
qed auto

lemma unordered_blocked:
  assumes inv: "order_invariant E ids inc [] xs" and t: "topological E ids ys"
  shows "set xs = set ids"
proof (rule ccontr)
  assume "set xs \<noteq> set ids"
  then have "\<exists>k\<in>set ys. k \<notin> set xs" using inv t by (auto simp: order_invariant_def topological_def)
  then obtain us k vs where ys: "ys = us @ k # vs" and k: "k \<notin> set xs" and us: "\<forall>u\<in>set us. u \<in> set xs"
    using split_list_first_prop [of ys "\<lambda>k. k \<notin> set xs"] by fastforce
  have "edges_forward E ys" using t by (simp add: topological_def)
  then have "a \<in> set us" if "(a, k) \<in> set E" for a by (rule edges_forwardD [OF _ that ys])
  then have "indegree E (set xs) k = 0" using us by (simp add: indegree_zero)
  moreover have "k \<in> set ids" using t ys by (auto simp: topological_def)
  ultimately have "k \<in> set []" using inv k unfolding order_invariant_def by blast
  then show False by simp
qed

lemma ordered_ids_result:
  assumes d: "distinct ids" and E: "\<forall>e\<in>set E. snd e \<in> set ids"
  shows "(\<exists>xs. ordered_ids ids E = Inr xs \<and> topological E ids xs)
    \<or> ordered_ids ids E = Inl (ValueError ''READING_ORDER_CYCLE'') \<and> (\<nexists>xs. topological E ids xs)"
proof -
  have k: "set (dict_keys (dict_of id (\<lambda>_. 0 :: int) ids)) = set ids"
    using dict_get_of_None [of id "\<lambda>_. 0 :: int" ids] by (auto simp: map_of_eq_None_iff)
  have g0: "dict_get (dict_of id (\<lambda>_. 0 :: int) ids) x = (if x \<in> set ids then Some 0 else None)" for x
    using dict_get_of_None [of id "\<lambda>_. 0 :: int" ids x] dict_get_of_unique [of id ids x "\<lambda>_. 0 :: int"] d by auto
  have "\<forall>e\<in>set E. snd e \<in> set (dict_keys (dict_of id (\<lambda>_. 0 :: int) ids))" using E unfolding k .
  from count_all [OF this] obtain inc where f: "fold_ok count_incoming (dict_of id (\<lambda>_. 0) ids) E = Inr inc"
    and ok: "dict_ok inc" and g: "\<And>k. dict_get inc k = (if k \<in> set ids then Some (int (indegree E {} k)) else None)"
    using g0 by auto
  let ?ready = "sort_key (region_rank ids) (map fst (filter (\<lambda>(k, n). n = 0) inc))"
  have "distinct (map fst (filter (\<lambda>(k, n). n = 0) inc))" using ok by (simp add: dict_ok_def distinct_map_filter)
  moreover have "k \<in> set ?ready \<longleftrightarrow> k \<in> set ids \<and> indegree E {} k = 0" for k
    using dict_get_in [OF ok, of k 0] g [of k] by (auto simp: image_iff split: if_splits)
  ultimately have "order_invariant E ids inc ?ready []" using g by (auto simp: order_invariant_def)
  from order_loop_ends [OF this E, of "region_rank ids"] obtain xs inc' where
    l: "order_loop (region_rank ids) (outgoing_of E) inc ?ready [] = Inr xs" and inv: "order_invariant E ids inc' [] xs" by blast
  have card: "length xs = length ids \<longleftrightarrow> set xs = set ids"
    using inv d card_subset_eq [of "set ids" "set xs"] by (auto simp: order_invariant_def distinct_card [symmetric])
  show ?thesis
  proof (cases "set xs = set ids")
    case True
    then have "ordered_ids ids E = Inr xs" using f l card by (simp add: ordered_ids_def Let_def)
    moreover have "topological E ids xs" using inv True by (simp add: topological_def order_invariant_def)
    ultimately show ?thesis by blast
  next
    case False
    then have "ordered_ids ids E = Inl (ValueError ''READING_ORDER_CYCLE'')" using f l card by (simp add: ordered_ids_def Let_def)
    then show ?thesis using unordered_blocked [OF inv] False by blast
  qed
qed

section \<open>Chains\<close>

definition chain_edges :: "'a list \<Rightarrow> ('a \<times> 'a) list" where
  "chain_edges xs = zip xs (tl xs)"

lemma chain_edges_simps [simp]: "chain_edges [] = []" "chain_edges [x] = []" "chain_edges (x # y # zs) = (x, y) # chain_edges (y # zs)"
  by (simp_all add: chain_edges_def)

lemma chain_edges_set: "e \<in> set (chain_edges xs) \<Longrightarrow> fst e \<in> set xs \<and> snd e \<in> set (tl xs)"
  by (cases e) (auto simp: chain_edges_def dest: set_zip_leftD set_zip_rightD)

lemma chain_predecessor: "b \<in> set (tl xs) \<Longrightarrow> \<exists>a. (a, b) \<in> set (chain_edges xs)"
  by (induction xs rule: induct_list012) auto

lemma chain_topological: "distinct xs \<Longrightarrow> topological (chain_edges xs) xs xs"
proof (induction xs rule: rev_induct)
  case (snoc c xs)
  have e: "set (chain_edges (xs @ [c])) = set (chain_edges xs) \<union> (if xs = [] then {} else {(last xs, c)})"
    by (induction xs rule: induct_list012) auto
  have "edges_forward (chain_edges (xs @ [c])) xs"
    using snoc by (auto simp: topological_def edges_forward_def e split: if_splits)
  moreover have "a \<in> set xs" if "(a, c) \<in> set (chain_edges (xs @ [c]))" for a
    using that snoc.prems chain_edges_set [of "(a, c)" xs] by (auto simp: e split: if_splits dest: list.set_sel(2))
  ultimately show ?case using snoc.prems by (auto simp: topological_def edges_forward_snoc)
qed (simp add: topological_def)

lemma chain_order_unique: "distinct ids \<Longrightarrow> topological (chain_edges ids) ids xs \<Longrightarrow> xs = ids"
proof (induction ids arbitrary: xs)
  case (Cons x zs)
  then obtain h xs' where xs: "xs = h # xs'" by (cases xs) (auto simp: topological_def)
  have f: "edges_forward (chain_edges (x # zs)) (h # xs')" using Cons.prems(2) xs by (simp add: topological_def)
  have h: "h = x"
  proof (rule ccontr)
    assume "h \<noteq> x"
    then have "h \<in> set (tl (x # zs))" using Cons.prems(2) xs by (auto simp: topological_def)
    then obtain a where "(a, h) \<in> set (chain_edges (x # zs))" using chain_predecessor by metis
    from edges_forwardD [OF f this, of "[]" xs'] show False by simp
  qed
  have "edges_forward (chain_edges zs) xs'" unfolding edges_forward_def
  proof (intro allI impI)
    fix a b us vs assume ab: "(a, b) \<in> set (chain_edges zs)" and s: "xs' = us @ b # vs"
    have "(a, b) \<in> set (chain_edges (x # zs))" using ab by (cases zs) auto
    from edges_forwardD [OF f this, of "x # us" vs] have "a \<in> set (x # us)" using s h by simp
    moreover have "a \<noteq> x" using chain_edges_set [OF ab] Cons.prems(1) by auto
    ultimately show "a \<in> set us" by simp
  qed
  moreover have "distinct xs'" "set xs' = set zs" using Cons.prems xs h by (auto simp: topological_def)
  ultimately have "topological (chain_edges zs) zs xs'" by (simp add: topological_def)
  with Cons.IH Cons.prems(1) show ?case by (simp add: xs h)
qed (simp add: topological_def)

lemma ordered_chain:
  assumes "distinct ids"
  shows "ordered_ids ids (chain_edges ids) = Inr ids"
proof -
  have "\<forall>e\<in>set (chain_edges ids). snd e \<in> set ids" using chain_edges_set by (metis list.set_sel(2) tl_Nil)
  from ordered_ids_result [OF assms this] show ?thesis
    using chain_topological [OF assms] chain_order_unique [OF assms] by auto
qed

end
