(* ===== verification/Layout.thy ===== *)
theory Layout
  imports Evidence Region_Order
begin

text \<open>
  The layout of a PDF page from its evidence (\<open>semantic/layout.py\<close>): atoms become lines, lines become regions by columns and gaps, the
  blocks of the document converter merge and name regions, repeated page edges are marked, and the regions
  are put in reading order. Coordinates are exact rationals. The lemmas show that no atom is lost or taken twice on the way from the
  evidence to the regions, and that the order of the regions is a topological order of the edges whenever there is one.
\<close>

section \<open>The records\<close>

datatype layout_hint =
    Heading_Hint | Paragraph_Hint | List_Hint | Table_Hint | Caption_Hint | Figure_Hint | Page_Header | Page_Footer | Page_Number

fun hint_of_kind :: "structure_kind \<Rightarrow> layout_hint" where
  "hint_of_kind S_Heading = Heading_Hint"
| "hint_of_kind S_Paragraph = Paragraph_Hint"
| "hint_of_kind S_List_Item = List_Hint"
| "hint_of_kind S_Table = Table_Hint"

definition LineId :: "string \<Rightarrow> bool" where "LineId s \<longleftrightarrow> prefixed_id ''line_'' s"

record layout_line =
  ll_line_id :: string
  ll_page :: int
  ll_bbox :: source_box
  ll_atom_ids :: "string list"
  ll_evidence_region_ids :: "string list"
  ll_baseline :: rat
  ll_median_height :: rat

definition LayoutLine :: "layout_line \<Rightarrow> layout_line result" where
  "LayoutLine l =
     (if \<not> (LineId (ll_line_id l) \<and> 1 \<le> ll_page l \<and> ll_atom_ids l \<noteq> [] \<and> ll_evidence_region_ids l \<noteq> []
            \<and> 0 \<le> ll_baseline l \<and> ll_baseline l \<le> 1 \<and> 0 < ll_median_height l \<and> ll_median_height l \<le> 1) then Inl field_error else Inr l)"

record layout_region =
  lr_region_id :: string
  lr_page :: int
  lr_bbox :: source_box
  lr_line_ids :: "string list"
  lr_atom_ids :: "string list"
  lr_evidence_region_ids :: "string list"
  lr_column :: int
  lr_hint :: "layout_hint option"
  lr_repeated_edge :: bool

definition LayoutRegion :: "layout_region \<Rightarrow> layout_region result" where
  "LayoutRegion r =
     (if \<not> (RegionId (lr_region_id r) \<and> 1 \<le> lr_page r \<and> lr_line_ids r \<noteq> [] \<and> lr_atom_ids r \<noteq> [] \<and> lr_evidence_region_ids r \<noteq> []
            \<and> 0 \<le> lr_column r) then Inl field_error else Inr r)"

datatype order_reason = Same_Column | Next_Column | Next_Page

record order_edge =
  oe_before :: string
  oe_after :: string
  oe_reason :: order_reason

record layout_document =
  ld_source_hash :: string
  ld_page_count :: int
  ld_lines :: "layout_line list"
  ld_regions :: "layout_region list"
  ld_order_edges :: "order_edge list"

definition MAX_HORIZONTAL_GAP_MULTIPLIER :: rat where "MAX_HORIZONTAL_GAP_MULTIPLIER = 6"
definition LINE_GAP_MULTIPLIER :: rat where "LINE_GAP_MULTIPLIER = 7/4"
definition COLUMN_OVERLAP_RATIO :: rat where "COLUMN_OVERLAP_RATIO = 1/5"
definition BASELINE_OVERLAP_RATIO :: rat where "BASELINE_OVERLAP_RATIO = 7/20"

section \<open>The order of the regions\<close>

definition edge_pair :: "order_edge \<Rightarrow> string \<times> string" where
  "edge_pair e = (oe_before e, oe_after e)"

definition ordered_region_ids :: "layout_region list \<Rightarrow> order_edge list \<Rightarrow> string list result" where
  "ordered_region_ids rs es = ordered_ids (map lr_region_id rs) (map edge_pair es)"

definition topological_region_order :: "layout_document \<Rightarrow> string list result" where
  "topological_region_order d = ordered_region_ids (ld_regions d) (ld_order_edges d)"

definition LayoutDocument :: "layout_document \<Rightarrow> layout_document result" where
  "LayoutDocument d =
     (if \<not> (Sha256 (ld_source_hash d) \<and> 1 \<le> ld_page_count d) then Inl field_error
      else let line_ids = map ll_line_id (ld_lines d); region_ids = map lr_region_id (ld_regions d);
               owned = concat (map lr_line_ids (ld_regions d))
           in bind_ok (reject_if (\<not> distinct line_ids) ''LAYOUT_LINES_NOT_UNIQUE'') (\<lambda>_.
              bind_ok (reject_if (\<not> distinct region_ids) ''LAYOUT_REGIONS_NOT_UNIQUE'') (\<lambda>_.
              bind_ok (reject_if (set owned \<noteq> set line_ids \<or> \<not> distinct owned) ''LAYOUT_LINE_OWNERSHIP_INVALID'') (\<lambda>_.
              bind_ok (reject_if (\<exists>e\<in>set (ld_order_edges d). oe_before e \<notin> set region_ids \<or> oe_after e \<notin> set region_ids
                                    \<or> oe_before e = oe_after e) ''READING_ORDER_EDGE_INVALID'') (\<lambda>_.
              bind_ok (in_validator (ordered_region_ids (ld_regions d) (ld_order_edges d))) (\<lambda>_. Inr d))))))"

section \<open>Boxes\<close>

text \<open>The library, and the tables of Unicode for case folding and decimal digits.\<close>

record layout_env =
  le_library :: library
  le_casefold :: "string \<Rightarrow> string"
  le_digit :: "string \<Rightarrow> bool"

definition median :: "rat list \<Rightarrow> rat" where
  "median xs = (let s = sort xs; n = length xs
     in if odd n then s ! (n div 2) else (s ! (n div 2 - 1) + s ! (n div 2)) / 2)"

definition same_baseline :: "source_box option \<Rightarrow> source_box option \<Rightarrow> bool" where
  "same_baseline a b =
     (case (a, b) of
        (Some a, Some b) \<Rightarrow>
          let overlap = max 0 (min (sb_top a) (sb_top b) - max (sb_bottom a) (sb_bottom b));
              height = min (sb_top a - sb_bottom a) (sb_top b - sb_bottom b)
          in height > 0 \<and> overlap / height \<ge> BASELINE_OVERLAP_RATIO
      | _ \<Rightarrow> True)"

definition horizontal_overlap_ratio :: "source_box \<Rightarrow> source_box \<Rightarrow> rat" where
  "horizontal_overlap_ratio a b =
     (let overlap = max 0 (min (sb_right a) (sb_right b) - max (sb_left a) (sb_left b));
          width = min (sb_right a - sb_left a) (sb_right b - sb_left b)
      in if width \<le> 0 then 0 else overlap / width)"

definition box_overlap_fraction :: "source_box \<Rightarrow> source_box option \<Rightarrow> rat" where
  "box_overlap_fraction a b =
     (case b of
        None \<Rightarrow> 0
      | Some b \<Rightarrow>
          let width = max 0 (min (sb_right a) (sb_right b) - max (sb_left a) (sb_left b));
              height = max 0 (min (sb_top a) (sb_top b) - max (sb_bottom a) (sb_bottom b));
              area = (sb_right a - sb_left a) * (sb_top a - sb_bottom a)
          in if area \<le> 0 then 0 else width * height / area)"

definition box_center_distance :: "source_box \<Rightarrow> source_box \<Rightarrow> rat" where
  "box_center_distance a b =
     (let h = (sb_left a + sb_right a) - (sb_left b + sb_right b); v = (sb_bottom a + sb_top a) - (sb_bottom b + sb_top b)
      in h * h + v * v)"

section \<open>Lines\<close>

definition visible_width :: "evidence_atom \<Rightarrow> rat option" where
  "visible_width a = (case ea_bbox a of
     Some b \<Rightarrow> if sb_right b > sb_left b \<and> ea_kind a = Char_Atom then Some (sb_right b - sb_left b) else None | None \<Rightarrow> None)"

text \<open>The chunks that are closed, the open one, and the box of the last visible character in it.\<close>

type_synonym chunk_state = "evidence_atom list list \<times> evidence_atom list \<times> source_box option"

definition splits_chunk :: "rat \<Rightarrow> evidence_atom list \<Rightarrow> source_box option \<Rightarrow> evidence_atom \<Rightarrow> bool" where
  "splits_chunk width current previous a \<longleftrightarrow>
     current \<noteq> [] \<and> ea_kind a \<noteq> Break_Atom
     \<and> (case previous of
          None \<Rightarrow> False
        | Some p \<Rightarrow> \<not> same_baseline (Some p) (ea_bbox a)
            \<or> width > 0 \<and> (case ea_bbox a of None \<Rightarrow> False | Some b \<Rightarrow> sb_left b - sb_right p > width * MAX_HORIZONTAL_GAP_MULTIPLIER))"

definition chunk_step :: "rat \<Rightarrow> chunk_state \<Rightarrow> evidence_atom \<Rightarrow> chunk_state" where
  "chunk_step width st a =
     (case st of (chunks, current, previous) \<Rightarrow>
        let (chunks, current) = (if splits_chunk width current previous a then (chunks @ [current], []) else (chunks, current));
            current = current @ [a]
        in if ea_kind a = Break_Atom then (chunks @ [current], [], None)
           else if ea_bbox a \<noteq> None \<and> ea_kind a = Char_Atom then (chunks, current, ea_bbox a)
           else (chunks, current, previous))"

definition line_chunks :: "evidence_atom list \<Rightarrow> evidence_atom list list" where
  "line_chunks atoms =
     (let widths = somes (map visible_width atoms)
      in case foldl (chunk_step (if widths = [] then 0 else median widths)) ([], [], None) atoms of
           (chunks, current, _) \<Rightarrow> if current = [] then chunks else chunks @ [current])"

definition has_area :: "evidence_atom \<Rightarrow> bool" where
  "has_area a = (case ea_bbox a of None \<Rightarrow> False | Some b \<Rightarrow> sb_right b > sb_left b \<and> sb_top b > sb_bottom b)"

definition attach_step ::
  "evidence_atom list list \<times> evidence_atom list \<Rightarrow> evidence_atom list \<Rightarrow> evidence_atom list list \<times> evidence_atom list" where
  "attach_step st chunk =
     (case st of (done, pending) \<Rightarrow>
        if list_ex has_area chunk then (done @ [pending @ chunk], [])
        else if done \<noteq> [] then (butlast done @ [last done @ chunk], pending)
        else (done, pending @ chunk))"

definition attach_degenerate_chunks :: "evidence_atom list list \<Rightarrow> evidence_atom list list" where
  "attach_degenerate_chunks chunks =
     (case foldl attach_step ([], []) chunks of
        (done, pending) \<Rightarrow> if pending \<noteq> [] \<and> done \<noteq> [] then butlast done @ [last done @ pending] else done)"

definition line_id :: "library \<Rightarrow> string \<Rightarrow> string list \<Rightarrow> string result" where
  "line_id L source_hash parts =
     bind_ok (canonical_hash L (PSeq (map PStr (source_hash # parts)))) (\<lambda>digest. Inr (''line_'' @ take 16 digest))"

definition line_of_chunk :: "layout_env \<Rightarrow> evidence_document \<Rightarrow> evidence_region \<Rightarrow> evidence_atom list \<Rightarrow> layout_line option result" where
  "line_of_chunk E ev r chunk =
     (let boxes = somes (map ea_bbox chunk)
      in bind_ok (union_boxes boxes) (\<lambda>b.
           case b of
             None \<Rightarrow> Inr None
           | Some box \<Rightarrow>
               let heights = map (\<lambda>b. sb_top b - sb_bottom b) (filter (\<lambda>b. sb_top b > sb_bottom b) boxes)
               in if heights = [] then Inr None
                  else bind_ok (line_id (le_library E) (ed_source_hash ev) [ea_atom_id (hd chunk), ea_atom_id (last chunk)]) (\<lambda>i.
                       bind_ok (LayoutLine \<lparr>ll_line_id = i, ll_page = er_page r, ll_bbox = box, ll_atom_ids = map ea_atom_id chunk,
                                  ll_evidence_region_ids = [er_region_id r], ll_baseline = median (map sb_bottom boxes),
                                  ll_median_height = median heights\<rparr>) (\<lambda>l. Inr (Some l)))))"

definition get_ok :: "(string, 'v) dict \<Rightarrow> string \<Rightarrow> 'v result" where
  "get_ok d k = (case dict_get d k of None \<Rightarrow> Inl (KeyError k) | Some v \<Rightarrow> Inr v)"

definition region_lines :: "layout_env \<Rightarrow> evidence_document \<Rightarrow> evidence_region \<Rightarrow> layout_line list result" where
  "region_lines E ev r =
     bind_ok (traverse (get_ok (dict_of ea_atom_id id (ed_atoms ev))) (er_atom_ids r)) (\<lambda>atoms.
     bind_ok (traverse (line_of_chunk E ev r) (attach_degenerate_chunks (line_chunks atoms))) (\<lambda>lines. Inr (somes lines)))"

definition cluster_lines :: "layout_env \<Rightarrow> evidence_document \<Rightarrow> layout_line list result" where
  "cluster_lines E ev =
     bind_ok (traverse (region_lines E ev) (ed_regions ev)) (\<lambda>lines.
       Inr (sort_key (\<lambda>l. (ll_page l, - sb_top (ll_bbox l), sb_left (ll_bbox l))) (concat lines)))"

section \<open>Columns and regions\<close>

text \<open>The groups a dictionary of lists collects, in the order of their first members.\<close>

definition first_seen :: "'a list \<Rightarrow> 'a list" where
  "first_seen xs = rev (remdups (rev xs))"

definition groups_by :: "('a \<Rightarrow> 'k) \<Rightarrow> 'a list \<Rightarrow> 'a list list" where
  "groups_by key xs = map (\<lambda>k. filter (\<lambda>x. key x = k) xs) (first_seen (map key xs))"

type_synonym column = "source_box \<times> layout_line list"

fun place_line :: "layout_line \<Rightarrow> column list \<Rightarrow> column list result" where
  "place_line l [] = Inr [(ll_bbox l, [l])]"
| "place_line l ((c, ms) # cols) =
     (if horizontal_overlap_ratio (ll_bbox l) c \<ge> COLUMN_OVERLAP_RATIO
      then bind_ok (union_boxes [c, ll_bbox l]) (\<lambda>u. Inr ((case u of None \<Rightarrow> ll_bbox l | Some b \<Rightarrow> b, ms @ [l]) # cols))
      else bind_ok (place_line l cols) (\<lambda>r. Inr ((c, ms) # r)))"

definition page_columns :: "layout_line list \<Rightarrow> (string \<times> int) list result" where
  "page_columns lines =
     bind_ok (fold_ok (\<lambda>cols l. place_line l cols) [] (sort_key (\<lambda>l. (sb_left (ll_bbox l), - sb_top (ll_bbox l))) lines)) (\<lambda>cols.
       Inr (concat (map (\<lambda>(n, c). map (\<lambda>l. (ll_line_id l, int n)) (snd c)) (enumerate 0 (sort_key (\<lambda>c. sb_left (fst c)) cols)))))"

definition column_assignments :: "layout_line list \<Rightarrow> (string, int) dict result" where
  "column_assignments lines =
     bind_ok (traverse page_columns (groups_by ll_page lines)) (\<lambda>cols. Inr (dict_of fst snd (concat cols)))"

definition lines_by_page_column :: "layout_line list \<Rightarrow> (string, int) dict \<Rightarrow> layout_line list list result" where
  "lines_by_page_column lines cols =
     bind_ok (traverse (\<lambda>l. bind_ok (get_ok cols (ll_line_id l)) (\<lambda>c. Inr (l, c))) lines) (\<lambda>lcs.
       Inr (map (map fst) (groups_by (\<lambda>(l, c). (ll_page l, c)) lcs)))"

definition lines_share_region :: "layout_line \<Rightarrow> layout_line \<Rightarrow> bool" where
  "lines_share_region a b \<longleftrightarrow>
     sb_bottom (ll_bbox a) - sb_top (ll_bbox b) \<le> median [ll_median_height a, ll_median_height b] * LINE_GAP_MULTIPLIER
     \<and> horizontal_overlap_ratio (ll_bbox a) (ll_bbox b) \<ge> COLUMN_OVERLAP_RATIO"

fun runs :: "('a \<Rightarrow> 'a \<Rightarrow> bool) \<Rightarrow> 'a list \<Rightarrow> 'a list list" where
  "runs share [] = []"
| "runs share [x] = [[x]]"
| "runs share (x # y # zs) =
     (case runs share (y # zs) of [] \<Rightarrow> [[x]] | g # gs \<Rightarrow> if share x y then (x # g) # gs else [x] # g # gs)"

definition some_box :: "source_box option \<Rightarrow> source_box result" where
  "some_box b = (case b of None \<Rightarrow> Inl (AssertionError []) | Some b \<Rightarrow> Inr b)"

definition lines_box :: "layout_line list \<Rightarrow> source_box result" where
  "lines_box ls = bind_ok (union_boxes (map ll_bbox ls)) some_box"

definition lines_evidence_regions :: "layout_line list \<Rightarrow> string list" where
  "lines_evidence_regions ls = first_seen (concat (map ll_evidence_region_ids ls))"

definition region_of_lines :: "layout_env \<Rightarrow> evidence_document \<Rightarrow> (string, int) dict \<Rightarrow> layout_line list \<Rightarrow> layout_region result" where
  "region_of_lines E ev cols ls =
     (let atom_ids = concat (map ll_atom_ids ls)
      in bind_ok (lines_box ls) (\<lambda>box.
         bind_ok (make_evidence_id (le_library E) ''region'' [ed_source_hash ev, ''layout'', hd atom_ids, last atom_ids]) (\<lambda>i.
         bind_ok (get_ok cols (ll_line_id (hd ls))) (\<lambda>c.
           LayoutRegion \<lparr>lr_region_id = i, lr_page = ll_page (hd ls), lr_bbox = box, lr_line_ids = map ll_line_id ls,
             lr_atom_ids = atom_ids, lr_evidence_region_ids = lines_evidence_regions ls, lr_column = c, lr_hint = None,
             lr_repeated_edge = False\<rparr>))))"

definition group_regions :: "layout_env \<Rightarrow> evidence_document \<Rightarrow> layout_line list \<Rightarrow> layout_region list result" where
  "group_regions E ev lines =
     bind_ok (column_assignments lines) (\<lambda>cols.
     bind_ok (lines_by_page_column lines cols) (\<lambda>groups.
       traverse (region_of_lines E ev cols)
         (concat (map (\<lambda>g. runs lines_share_region (sort_key (\<lambda>l. (- sb_top (ll_bbox l), sb_left (ll_bbox l))) g)) groups))))"

section \<open>The blocks of the converter\<close>

definition find_text :: "string \<Rightarrow> string \<Rightarrow> nat option" where
  "find_text s t = find (\<lambda>i. take (length t) (drop i s) = t) [0..<Suc (length s)]"

definition line_text :: "(string, evidence_atom) dict \<Rightarrow> layout_line \<Rightarrow> string result" where
  "line_text atoms l =
     bind_ok (traverse (get_ok atoms) (ll_atom_ids l)) (\<lambda>as. Inr (concat (map ea_text (filter (\<lambda>a. \<not> all_space (ea_text a)) as))))"

text \<open>The lines with text and the place of their text in the hint, and the lines without; None when a text is not in the hint.\<close>

type_synonym ranked_line = "nat \<times> nat \<times> layout_line \<times> string"

fun rank_lines ::
  "(string, evidence_atom) dict \<Rightarrow> string \<Rightarrow> (nat \<times> layout_line) list \<Rightarrow> (ranked_line list \<times> (nat \<times> layout_line) list) option result" where
  "rank_lines atoms target [] = Inr (Some ([], []))"
| "rank_lines atoms target ((i, l) # ls) =
     (case line_text atoms l of
        Inl e \<Rightarrow> Inl e
      | Inr t \<Rightarrow>
          if t = [] then
            (case rank_lines atoms target ls of
               Inr (Some (ranked, spaces)) \<Rightarrow> Inr (Some (ranked, (i, l) # spaces)) | r \<Rightarrow> r)
          else case find_text target t of
                 None \<Rightarrow> Inr None
               | Some p \<Rightarrow>
                   (case rank_lines atoms target ls of
                      Inr (Some (ranked, spaces)) \<Rightarrow> Inr (Some ((p, i, l, t) # ranked, spaces)) | r \<Rightarrow> r))"

text \<open>\<open>min(xs, key=f)\<close>: the first of the smallest.\<close>

fun first_min :: "('a \<Rightarrow> rat) \<Rightarrow> 'a list \<Rightarrow> 'a result" where
  "first_min f [] = Inl (ValueError ''min() iterable argument is empty'')"
| "first_min f (x # xs) = Inr (fold (\<lambda>y m. if f y < f m then y else m) xs x)"

definition ranked_position :: "ranked_line \<Rightarrow> nat \<times> nat" where
  "ranked_position x = (case x of (p, i, l, t) \<Rightarrow> (p, i))"

definition ranked_of :: "ranked_line \<Rightarrow> layout_line" where
  "ranked_of x = (case x of (p, i, l, t) \<Rightarrow> l)"

definition ranked_text :: "ranked_line \<Rightarrow> string" where
  "ranked_text x = (case x of (p, i, l, t) \<Rightarrow> t)"

definition anchor_of :: "layout_line list \<Rightarrow> nat \<times> layout_line \<Rightarrow> (string \<times> nat \<times> layout_line) result" where
  "anchor_of ordered item =
     bind_ok (first_min (\<lambda>l. box_center_distance (ll_bbox l) (ll_bbox (snd item))) ordered) (\<lambda>a. Inr (ll_line_id a, item))"

definition order_lines_by_text_hint ::
  "layout_line list \<Rightarrow> string \<Rightarrow> (string, evidence_atom) dict \<Rightarrow> layout_line list result" where
  "order_lines_by_text_hint lines text_hint atoms =
     (let target = without_whitespace text_hint
      in bind_ok (rank_lines atoms target (enumerate 0 lines)) (\<lambda>r.
           case r of
             None \<Rightarrow> Inr lines
           | Some (ranked, spaces) \<Rightarrow>
               let ordered = sort_key ranked_position ranked
               in if concat (map ranked_text ordered) \<noteq> target then Inr lines
                  else if spaces = [] then Inr (map ranked_of ordered)
                  else bind_ok (traverse (anchor_of (map ranked_of ordered)) spaces) (\<lambda>anchored.
                    Inr (concat (map (\<lambda>l. l # map (snd \<circ> snd) (sort_key (fst \<circ> snd) (filter (\<lambda>a. fst a = ll_line_id l) anchored)))
                                   (map ranked_of ordered))))))"

definition merged_region ::
  "layout_env \<Rightarrow> evidence_document \<Rightarrow> (string, layout_region) dict \<Rightarrow> structure_block \<Rightarrow> layout_line list \<Rightarrow> layout_region result" where
  "merged_region E ev region_by_line hint members =
     (let atom_ids = concat (map ll_atom_ids members)
      in bind_ok (lines_box members) (\<lambda>box.
         bind_ok (make_evidence_id (le_library E) ''region''
                    [ed_source_hash ev, ''layout-table'', int_str (hb_order hint), hd atom_ids, last atom_ids]) (\<lambda>i.
         bind_ok (traverse (\<lambda>l. get_ok region_by_line (ll_line_id l)) members) (\<lambda>rs.
           LayoutRegion \<lparr>lr_region_id = i, lr_page = ll_page (hd members), lr_bbox = box, lr_line_ids = map ll_line_id members,
             lr_atom_ids = atom_ids, lr_evidence_region_ids = lines_evidence_regions members,
             lr_column = Min (set (map lr_column rs)), lr_hint = Some (hint_of_kind (hb_kind hint)), lr_repeated_edge = False\<rparr>))))"

definition hint_members :: "layout_line list \<Rightarrow> string list \<Rightarrow> structure_block \<Rightarrow> layout_line list" where
  "hint_members lines claimed hint =
     filter (\<lambda>l. ll_line_id l \<notin> set claimed \<and> Some (ll_page l) = hb_page hint \<and> box_overlap_fraction (ll_bbox l) (hb_bbox hint) \<ge> 1/2) lines"

definition merge_hint ::
  "layout_env \<Rightarrow> evidence_document \<Rightarrow> layout_line list \<Rightarrow> (string, layout_region) dict \<Rightarrow> string list \<times> layout_region list \<Rightarrow> structure_block
     \<Rightarrow> (string list \<times> layout_region list) result" where
  "merge_hint E ev lines region_by_line st hint =
     (case st of (claimed, merged) \<Rightarrow>
        let members = hint_members lines claimed hint
        in if members = [] then Inr st
           else bind_ok (order_lines_by_text_hint members (hb_text_hint hint) (dict_of ea_atom_id id (ed_atoms ev))) (\<lambda>members.
                bind_ok (merged_region E ev region_by_line hint members) (\<lambda>r.
                  Inr (claimed @ map ll_line_id members, merged @ [r]))))"

definition atom_ranks_known :: "evidence_document \<Rightarrow> string list \<Rightarrow> unit result" where
  "atom_ranks_known ev ids =
     (if length ids > 1 \<and> \<not> list_all (\<lambda>a. dict_get (dict_of ea_atom_id ea_ordinal (ed_atoms ev)) a \<noteq> None) ids
      then Inl (TypeError ''not supported between NoneType and int'') else Inr ())"

definition atom_rank :: "evidence_document \<Rightarrow> string \<Rightarrow> int" where
  "atom_rank ev a = (case dict_get (dict_of ea_atom_id ea_ordinal (ed_atoms ev)) a of None \<Rightarrow> 0 | Some n \<Rightarrow> n)"

definition remainder_region ::
  "layout_env \<Rightarrow> evidence_document \<Rightarrow> (string, layout_line) dict \<Rightarrow> string list \<Rightarrow> layout_region \<Rightarrow> layout_region option result" where
  "remainder_region E ev line_catalog claimed r =
     (let line_ids = filter (\<lambda>i. i \<notin> set claimed) (lr_line_ids r)
      in if line_ids = [] then Inr None
         else bind_ok (traverse (get_ok line_catalog) line_ids) (\<lambda>ls.
              bind_ok (atom_ranks_known ev (concat (map ll_atom_ids ls))) (\<lambda>_.
              let atom_ids = sort_key (atom_rank ev) (concat (map ll_atom_ids ls))
              in bind_ok (lines_box ls) (\<lambda>box.
                 bind_ok (make_evidence_id (le_library E) ''region'' [ed_source_hash ev, ''layout-remainder'', hd atom_ids, last atom_ids]) (\<lambda>i.
                   Inr (Some (r\<lparr>lr_region_id := i, lr_bbox := box, lr_line_ids := line_ids, lr_atom_ids := atom_ids,
                                lr_evidence_region_ids := lines_evidence_regions ls, lr_hint := None\<rparr>)))))))"

definition merge_hint_regions ::
  "layout_env \<Rightarrow> evidence_document \<Rightarrow> layout_line list \<Rightarrow> layout_region list \<Rightarrow> structure_block list \<Rightarrow> layout_region list result" where
  "merge_hint_regions E ev lines rs hints =
     (let bounded = filter (\<lambda>h. hb_bbox h \<noteq> None) (sort_key hb_order hints)
      in if bounded = [] then Inr rs
         else let region_by_line = dict_of fst snd (concat (map (\<lambda>r. map (\<lambda>i. (i, r)) (lr_line_ids r)) rs))
              in bind_ok (fold_ok (merge_hint E ev lines region_by_line) ([], []) bounded) (\<lambda>(claimed, merged).
                 bind_ok (traverse (remainder_region E ev (dict_of ll_line_id id lines) claimed) rs) (\<lambda>remainder.
                   Inr (somes remainder @ merged))))"

section \<open>Hints, page edges and the reading order\<close>

text \<open>\<open>max(xs, key=f, default=None)\<close>: the first of the greatest.\<close>

fun first_max :: "('a \<Rightarrow> 'b::linorder) \<Rightarrow> 'a list \<Rightarrow> 'a option" where
  "first_max f [] = None"
| "first_max f (x # xs) = Some (fold (\<lambda>y m. if f y > f m then y else m) xs x)"

definition structure_hint :: "structure_block list \<Rightarrow> layout_region \<Rightarrow> layout_region" where
  "structure_hint hints r =
     (if lr_hint r \<noteq> None then r
      else let matches = map (\<lambda>h. (box_overlap_fraction (lr_bbox r) (hb_bbox h), h))
                           (filter (\<lambda>h. hb_bbox h \<noteq> None \<and> hb_page h = Some (lr_page r)) hints)
           in r\<lparr>lr_hint := (case first_max (\<lambda>(f, h). (f, - hb_order h)) matches of
                  None \<Rightarrow> None | Some (f, h) \<Rightarrow> if f \<ge> 1/2 then Some (hint_of_kind (hb_kind h)) else None)\<rparr>)"

definition apply_structure_hints :: "layout_region list \<Rightarrow> structure_block list \<Rightarrow> layout_region list" where
  "apply_structure_hints rs hints = map (structure_hint hints) rs"

text \<open>\<open>\s*\d+\s*(?:/\s*\d+\s*)?\<close>.\<close>

definition page_number :: "layout_env \<Rightarrow> string \<Rightarrow> bool" where
  "page_number E t \<longleftrightarrow>
     (let skip = dropWhile space_character; cs = skip (characters t); rest = skip (dropWhile (le_digit E) cs)
      in takeWhile (le_digit E) cs \<noteq> []
         \<and> (rest = [] \<or> hd rest = ''/''
              \<and> (let ds = skip (tl rest) in takeWhile (le_digit E) ds \<noteq> [] \<and> skip (dropWhile (le_digit E) ds) = [])))"

definition edge_text :: "layout_env \<Rightarrow> evidence_document \<Rightarrow> layout_region \<Rightarrow> string result" where
  "edge_text E ev r =
     bind_ok (traverse (get_ok (dict_of ea_atom_id ea_text (ed_atoms ev))) (lr_atom_ids r)) (\<lambda>ts.
       Inr (le_casefold E (without_whitespace (concat ts))))"

definition edge_of_region :: "rat \<Rightarrow> layout_region \<Rightarrow> layout_hint option" where
  "edge_of_region band r =
     (if sb_top (lr_bbox r) \<ge> 1 - band then Some Page_Header
      else if sb_bottom (lr_bbox r) \<le> band then Some Page_Footer else None)"

text \<open>The regions with the same edge and the same text, on enough pages.\<close>

definition repeated_regions :: "rat \<Rightarrow> rat \<Rightarrow> int \<Rightarrow> (layout_region \<times> string) list \<Rightarrow> (string, layout_hint) dict" where
  "repeated_regions band ratio page_count rts =
     (let keyed = groups_by (\<lambda>(e, t, r). (e, t)) (concat (map (\<lambda>(r, t). case edge_of_region band r of None \<Rightarrow> [] | Some e \<Rightarrow> [(e, t, r)]) rts));
          page_by_region = dict_of (lr_region_id \<circ> fst) (lr_page \<circ> fst) rts;
          enough = filter (\<lambda>g. of_nat (card ((\<lambda>(e, t, r). dict_get page_by_region (lr_region_id r)) ` set g)) \<ge> of_int page_count * ratio) keyed
      in dict_of fst snd (map (\<lambda>(e, t, r). (lr_region_id r, e)) (concat enough)))"

definition mark_edge :: "layout_env \<Rightarrow> rat \<Rightarrow> (string, layout_hint) dict \<Rightarrow> (string, string) dict \<Rightarrow> layout_region \<Rightarrow> layout_region" where
  "mark_edge E band repeated region_text r =
     (let number = (case dict_get region_text (lr_region_id r) of None \<Rightarrow> False | Some t \<Rightarrow> page_number E t)
      in case dict_get repeated (lr_region_id r) of
           None \<Rightarrow> if sb_bottom (lr_bbox r) \<le> band \<and> number then r\<lparr>lr_hint := Some Page_Number, lr_repeated_edge := True\<rparr> else r
         | Some edge \<Rightarrow> r\<lparr>lr_hint := Some (if number then Page_Number else edge), lr_repeated_edge := True\<rparr>)"

definition mark_repeated_edges :: "layout_env \<Rightarrow> evidence_document \<Rightarrow> rat \<Rightarrow> rat \<Rightarrow> layout_region list \<Rightarrow> layout_region list result" where
  "mark_repeated_edges E ev band ratio rs =
     bind_ok (traverse (\<lambda>r. bind_ok (edge_text E ev r) (\<lambda>t. Inr (r, t))) rs) (\<lambda>rts.
       Inr (map (mark_edge E band (repeated_regions band ratio (ed_page_count ev) rts) (dict_of (lr_region_id \<circ> fst) snd rts)) rs))"

definition reading_key :: "layout_region \<Rightarrow> int \<times> int \<times> rat \<times> rat \<times> string" where
  "reading_key r = (lr_page r, lr_column r, - sb_top (lr_bbox r), sb_left (lr_bbox r), lr_region_id r)"

definition order_edge_of :: "layout_region \<times> layout_region \<Rightarrow> order_edge" where
  "order_edge_of p = (case p of (a, b) \<Rightarrow>
     \<lparr>oe_before = lr_region_id a, oe_after = lr_region_id b,
      oe_reason = (if lr_page a \<noteq> lr_page b then Next_Page else if lr_column a \<noteq> lr_column b then Next_Column else Same_Column)\<rparr>)"

definition reading_order_edges :: "layout_region list \<Rightarrow> order_edge list" where
  "reading_order_edges rs = map order_edge_of (zip rs (tl rs))"

definition normalize_layout ::
  "layout_env \<Rightarrow> rat \<Rightarrow> rat \<Rightarrow> evidence_document \<Rightarrow> structure_block list \<Rightarrow> layout_document result" where
  "normalize_layout E band ratio ev hints =
     bind_ok (cluster_lines E ev) (\<lambda>lines.
     bind_ok (group_regions E ev lines) (\<lambda>grouped.
     bind_ok (merge_hint_regions E ev lines grouped hints) (\<lambda>merged.
     bind_ok (mark_repeated_edges E ev band ratio (apply_structure_hints merged hints)) (\<lambda>marked.
       let rs = sort_key reading_key marked
       in LayoutDocument \<lparr>ld_source_hash = ed_source_hash ev, ld_page_count = ed_page_count ev, ld_lines = lines,
            ld_regions = rs, ld_order_edges = reading_order_edges rs\<rparr>))))"

section \<open>Atoms on the way to the lines\<close>

lemma chunk_step_concat:
  "chunk_step w (cs, cur, p) a = (cs', cur', p') \<Longrightarrow> concat cs' @ cur' = concat cs @ cur @ [a]"
  by (auto simp: chunk_step_def Let_def split: if_splits)

lemma chunk_steps_concat:
  "foldl (chunk_step w) (cs, cur, p) as = (cs', cur', p') \<Longrightarrow> concat cs' @ cur' = concat cs @ cur @ as"
proof (induction as arbitrary: cs cur p)
  case (Cons a as)
  obtain cs1 cur1 p1 where 1: "chunk_step w (cs, cur, p) a = (cs1, cur1, p1)" by (cases "chunk_step w (cs, cur, p) a")
  from Cons.prems 1 have "foldl (chunk_step w) (cs1, cur1, p1) as = (cs', cur', p')" by simp
  from Cons.IH [OF this] chunk_step_concat [OF 1] show ?case by simp
qed simp

lemma concat_line_chunks: "concat (line_chunks as) = as"
  by (auto simp: line_chunks_def Let_def split: prod.splits dest!: chunk_steps_concat)

text \<open>Atoms wait only as long as no chunk has a box with an area.\<close>

definition attach_invariant :: "evidence_atom list list \<times> evidence_atom list \<Rightarrow> evidence_atom list list \<Rightarrow> bool" where
  "attach_invariant st cs \<longleftrightarrow>
     (case st of (ds, ps) \<Rightarrow> concat ds @ ps = concat cs \<and> (ds \<noteq> [] \<longrightarrow> ps = []) \<and> (\<forall>d\<in>set ds. list_ex has_area d)
        \<and> (ds = [] \<longleftrightarrow> \<not> list_ex has_area (concat cs)))"

lemma concat_butlast_last: "ds \<noteq> [] \<Longrightarrow> concat (butlast ds) @ last ds = concat ds"
  by (metis append_butlast_last_id concat.simps concat_append append_Nil2)

lemma attach_step_invariant:
  assumes "attach_invariant st cs"
  shows "attach_invariant (attach_step st c) (cs @ [c])"
proof -
  obtain ds ps where st: "st = (ds, ps)" by (cases st)
  show ?thesis
  proof (cases "list_ex has_area c \<or> ds = []")
    case True
    then show ?thesis using assms by (auto simp: st attach_invariant_def attach_step_def list_ex_iff)
  next
    case False
    then have "attach_step st c = (butlast ds @ [last ds @ c], [])" "concat ds = concat cs"
      using assms by (auto simp: st attach_invariant_def attach_step_def)
    moreover have "\<forall>d\<in>set (butlast ds @ [last ds @ c]). list_ex has_area d"
      using False assms in_set_butlastD [of _ ds] by (fastforce simp: st attach_invariant_def list_ex_iff)
    ultimately show ?thesis using False assms concat_butlast_last [of ds]
      by (simp add: attach_invariant_def st flip: append_assoc)
  qed
qed

lemma attach_steps_invariant: "attach_invariant (foldl attach_step ([], []) cs) cs"
proof (induction cs rule: rev_induct)
  case Nil
  then show ?case by (simp add: attach_invariant_def)
qed (simp add: attach_step_invariant)

lemma attached_chunks:
  assumes "list_ex has_area (concat cs)"
  shows "concat (attach_degenerate_chunks cs) = concat cs" and "\<forall>d\<in>set (attach_degenerate_chunks cs). list_ex has_area d"
  using attach_steps_invariant [of cs] assms
  by (auto simp: attach_degenerate_chunks_def attach_invariant_def split: prod.splits)

lemma chunk_has_line:
  assumes "line_of_chunk E ev r chunk = Inr x" and "list_ex has_area chunk"
  shows "\<exists>l. x = Some l \<and> ll_atom_ids l = map ea_atom_id chunk"
proof -
  from assms(2) obtain a b where a: "a \<in> set chunk" "ea_bbox a = Some b" "sb_top b > sb_bottom b"
    by (auto simp: list_ex_iff has_area_def split: option.splits)
  then have b: "b \<in> set (somes (map ea_bbox chunk))" by force
  then have "filter (\<lambda>b. sb_top b > sb_bottom b) (somes (map ea_bbox chunk)) \<noteq> []" using a(3) by (force simp: filter_empty_conv)
  moreover have "somes (map ea_bbox chunk) \<noteq> []" using b by (metis empty_iff empty_set)
  ultimately show ?thesis using assms(1)
    by (auto simp: line_of_chunk_def Let_def union_boxes_def LayoutLine_def split: if_splits)
qed

text \<open>A region with a box that has an area gives all its atoms to its lines.\<close>

lemma region_lines_atoms:
  assumes "region_lines E ev r = Inr ls" and "\<exists>a\<in>set (ed_atoms ev). ea_atom_id a \<in> set (er_atom_ids r) \<and> has_area a"
    and d: "distinct (map ea_atom_id (ed_atoms ev))"
  shows "concat (map ll_atom_ids ls) = er_atom_ids r"
proof -
  let ?d = "dict_of ea_atom_id id (ed_atoms ev)"
  from assms(1) obtain as xs where as: "traverse (get_ok ?d) (er_atom_ids r) = Inr as"
    and xs: "traverse (line_of_chunk E ev r) (attach_degenerate_chunks (line_chunks as)) = Inr xs" and ls: "ls = somes xs"
    by (auto simp: region_lines_def)
  have g: "dict_get ?d i = Some a \<Longrightarrow> a \<in> set (ed_atoms ev) \<and> ea_atom_id a = i" for i a
    by (auto simp: dict_get_of dest!: find_SomeD)
  have ids: "map ea_atom_id as = er_atom_ids r"
    using traverse_list_all2 [OF as] by (induction rule: list_all2_induct) (auto simp: get_ok_def dest: g split: option.splits)
  have "list_ex has_area as"
  proof -
    from assms(2) obtain a where a: "a \<in> set (ed_atoms ev)" "ea_atom_id a \<in> set (map ea_atom_id as)" "has_area a" unfolding ids by blast
    then obtain a' where a': "a' \<in> set as" "ea_atom_id a' = ea_atom_id a" by auto
    have "set as \<subseteq> set (ed_atoms ev)"
      using traverse_list_all2 [OF as] by (induction rule: list_all2_induct) (auto simp: get_ok_def dest: g split: option.splits)
    then have "a' = a" using a a' d by (auto simp: distinct_map inj_on_def)
    then show ?thesis using a a' by (auto simp: list_ex_iff)
  qed
  then have at: "concat (attach_degenerate_chunks (line_chunks as)) = as" "\<forall>d\<in>set (attach_degenerate_chunks (line_chunks as)). list_ex has_area d"
    using attached_chunks [of "line_chunks as"] by (simp_all add: concat_line_chunks)
  have "concat (map ll_atom_ids (somes xs)) = map ea_atom_id (concat cs)"
    if "list_all2 (\<lambda>c x. line_of_chunk E ev r c = Inr x) cs xs" "\<forall>c\<in>set cs. list_ex has_area c" for cs xs
    using that by (induction rule: list_all2_induct) (auto dest!: chunk_has_line)
  from this [OF traverse_list_all2 [OF xs] at(2)] show ?thesis by (simp add: ls at(1) ids)
qed

definition regions_have_area :: "evidence_document \<Rightarrow> bool" where
  "regions_have_area ev \<longleftrightarrow> (\<forall>r\<in>set (ed_regions ev). \<exists>a\<in>set (ed_atoms ev). ea_atom_id a \<in> set (er_atom_ids r) \<and> has_area a)"

lemma cluster_lines_atoms:
  assumes "cluster_lines E ev = Inr ls" and "regions_have_area ev" and "distinct (map ea_atom_id (ed_atoms ev))"
  shows "mset (concat (map ll_atom_ids ls)) = mset (concat (map er_atom_ids (ed_regions ev)))"
proof -
  from assms(1) obtain xs where xs: "traverse (region_lines E ev) (ed_regions ev) = Inr xs"
    and ls: "mset ls = mset (concat xs)" by (auto simp: cluster_lines_def)
  have "concat (map ll_atom_ids (concat xs)) = concat (map er_atom_ids rs)"
    if "list_all2 (\<lambda>r x. region_lines E ev r = Inr x) rs xs" "set rs \<subseteq> set (ed_regions ev)" for rs xs
    using that by (induction rule: list_all2_induct)
      (auto simp: region_lines_atoms [OF _ assms(2) [unfolded regions_have_area_def, rule_format] assms(3)])
  from this [OF traverse_list_all2 [OF xs]] have "concat (map ll_atom_ids (concat xs)) = concat (map er_atom_ids (ed_regions ev))" by simp
  moreover have "mset (concat (map ll_atom_ids ls)) = mset (concat (map ll_atom_ids (concat xs)))"
    using ls by (metis mset_concat mset_map sum_mset_sum_list)
  ultimately show ?thesis by simp
qed

section \<open>Lines on the way to the regions\<close>

lemma mset_concat_groups:
  "distinct ks \<Longrightarrow> mset (concat (map (\<lambda>k. filter (\<lambda>x. key x = k) xs) ks)) = mset (filter (\<lambda>x. key x \<in> set ks) xs)"
proof (induction ks)
  case (Cons k ks)
  have "mset (filter (\<lambda>x. key x = k) xs) + mset (filter (\<lambda>x. key x \<in> set ks) xs) = mset (filter (\<lambda>x. key x \<in> set (k # ks)) xs)"
    using Cons.prems by (induction xs) auto
  with Cons show ?case by simp
qed simp

lemma first_seen_simps [simp]: "set (first_seen xs) = set xs" "distinct (first_seen xs)"
  by (simp_all add: first_seen_def)

lemma mset_groups_by: "mset (concat (groups_by key xs)) = mset xs"
proof -
  have "filter (\<lambda>x. key x \<in> set (first_seen (map key xs))) xs = xs" by (simp add: filter_id_conv)
  then show ?thesis using mset_concat_groups [of "first_seen (map key xs)" key xs] by (simp add: groups_by_def del: first_seen_simps(1))
qed

lemma runs_nonempty: "xs \<noteq> [] \<Longrightarrow> runs share xs \<noteq> []"
  by (induction share xs rule: runs.induct) (auto split: list.splits)

lemma concat_runs: "concat (runs share xs) = xs"
  by (induction share xs rule: runs.induct) (auto split: list.splits if_splits)

lemma mset_sorted_runs: "mset (concat (concat (map (\<lambda>g. runs share (sort_key key g)) gs))) = mset (concat gs)"
  by (induction gs) (simp_all add: concat_runs)

lemma distinct_submset: "mset xs \<subseteq># mset ys \<Longrightarrow> distinct ys \<Longrightarrow> distinct xs"
proof -
  assume "mset xs \<subseteq># mset ys" and d: "distinct ys"
  then obtain zs where "mset ys = mset (xs @ zs)" by (metis ex_mset mset_append mset_subset_eq_exists_conv)
  with d have "distinct (xs @ zs)" by (metis mset_eq_imp_distinct_iff)
  then show "distinct xs" by simp
qed

lemma mset_concat_map_mset: "\<forall>x\<in>set xs. mset (f x) = mset (g x) \<Longrightarrow> mset (concat (map f xs)) = mset (concat (map g xs))"
  by (induction xs) auto

text \<open>A region and the lines it is made of.\<close>

definition made_of :: "layout_region \<Rightarrow> layout_line list \<Rightarrow> bool" where
  "made_of r g \<longleftrightarrow> lr_line_ids r = map ll_line_id g \<and> mset (lr_atom_ids r) = mset (concat (map ll_atom_ids g))"

lemma made_of_atoms:
  "list_all2 made_of rs gs \<Longrightarrow> mset (concat (map lr_atom_ids rs)) = mset (concat (map ll_atom_ids (concat gs)))"
  by (induction rule: list_all2_induct) (auto simp: made_of_def)

lemma region_of_lines_made: "region_of_lines E ev cols g = Inr r \<Longrightarrow> made_of r g"
  by (auto simp: region_of_lines_def made_of_def LayoutRegion_def Let_def split: if_splits)

lemma group_regions_made:
  assumes "group_regions E ev lines = Inr rs"
  shows "\<exists>gs. list_all2 made_of rs gs \<and> mset (concat gs) = mset lines"
proof -
  let ?key = "\<lambda>l. (- sb_top (ll_bbox l), sb_left (ll_bbox l))"
  let ?runs = "\<lambda>g. runs lines_share_region (sort_key ?key g)"
  from assms obtain cols lcs where
    l: "traverse (\<lambda>l. bind_ok (get_ok cols (ll_line_id l)) (\<lambda>c. Inr (l, c))) lines = Inr lcs"
    and t: "traverse (region_of_lines E ev cols) (concat (map ?runs (map (map fst) (groups_by (\<lambda>(l, c). (ll_page l, c)) lcs)))) = Inr rs"
    by (auto simp: group_regions_def lines_by_page_column_def)
  let ?gs = "map (map fst) (groups_by (\<lambda>(l, c). (ll_page l, c)) lcs)"
  have "map fst lcs = lines"
    using traverse_list_all2 [OF l] by (induction rule: list_all2_induct) auto
  moreover have "mset (concat ?gs) = image_mset fst (mset (concat (groups_by (\<lambda>(l, c). (ll_page l, c)) lcs)))"
    by (simp flip: map_concat)
  ultimately have "mset (concat ?gs) = mset lines" unfolding mset_groups_by mset_map [symmetric] by simp
  moreover have "mset (concat (concat (map ?runs ?gs))) = mset (concat ?gs)" by (rule mset_sorted_runs)
  moreover have "list_all2 made_of rs (concat (map ?runs ?gs))"
    using traverse_list_all2 [OF t] unfolding list_all2_conv_all_nth by (auto intro: region_of_lines_made)
  ultimately show ?thesis by (intro exI [of _ "concat (map ?runs ?gs)"] conjI) (simp_all only:)
qed

section \<open>The order of the lines of a block\<close>

lemma rank_lines_parts:
  "rank_lines atoms target ils = Inr (Some (ranked, spaces)) \<Longrightarrow>
     mset (map ranked_of ranked) + mset (map snd spaces) = mset (map snd ils)"
proof (induction ils arbitrary: ranked spaces)
  case (Cons il ils)
  then show ?case
    by (cases il) (auto split: sum.splits if_splits option.splits simp: ranked_of_def)
qed simp

lemma anchored_parts:
  assumes "list_all2 (\<lambda>s a. anchor_of ordered s = Inr a) spaces anchored"
  shows "map snd anchored = spaces" and "\<forall>a\<in>set anchored. fst a \<in> ll_line_id ` set ordered"
proof -
  have m: "fold (\<lambda>y m. if f y < f m then y else m) xs x \<in> insert x (set xs)" for f :: "layout_line \<Rightarrow> rat" and xs x
  proof (induction xs arbitrary: x)
    case (Cons y xs)
    from Cons.IH [of "if f y < f x then y else x"] show ?case by (auto split: if_splits)
  qed simp
  have f: "first_min f xs = Inr a \<Longrightarrow> a \<in> set xs" for f :: "layout_line \<Rightarrow> rat" and xs a
    using m by (cases xs) auto
  show "map snd anchored = spaces"
    using assms by (induction rule: list_all2_induct) (auto simp: anchor_of_def)
  show "\<forall>a\<in>set anchored. fst a \<in> ll_line_id ` set ordered"
    using assms by (induction rule: list_all2_induct) (auto simp: anchor_of_def dest: f)
qed

lemma placed_anchors:
  fixes ordered :: "layout_line list"
  assumes "distinct (map ll_line_id ordered)" and "\<forall>a\<in>set anchored. fst a \<in> ll_line_id ` set ordered"
  shows "mset (concat (map (\<lambda>l. l # map (snd \<circ> snd) (sort_key (fst \<circ> snd) (filter (\<lambda>a. fst a = ll_line_id l) anchored))) ordered))
    = mset ordered + mset (map (snd \<circ> snd) anchored)"
proof -
  have "mset (concat (map (\<lambda>l. l # h l) ordered)) = mset ordered + mset (concat (map h ordered))" for h :: "layout_line \<Rightarrow> layout_line list"
    by (induction ordered) auto
  moreover have "mset (concat (map (\<lambda>l. map (snd \<circ> snd) (sort_key (fst \<circ> snd) (filter (\<lambda>a. fst a = ll_line_id l) anchored))) ordered))
    = mset (map (snd \<circ> snd) (concat (map (\<lambda>k. filter (\<lambda>a. fst a = k) anchored) (map ll_line_id ordered))))"
    by (induction ordered) auto
  moreover have "filter (\<lambda>a. fst a \<in> set (map ll_line_id ordered)) anchored = anchored" using assms(2) by (simp add: filter_id_conv)
  then have "mset (concat (map (\<lambda>k. filter (\<lambda>a. fst a = k) anchored) (map ll_line_id ordered))) = mset anchored"
    using mset_concat_groups [OF assms(1), of fst anchored] by simp
  ultimately show ?thesis by (simp only: mset_map)
qed

lemma order_lines_permutes:
  assumes "order_lines_by_text_hint ls t atoms = Inr xs" and d: "distinct (map ll_line_id ls)"
  shows "mset xs = mset ls"
proof -
  from assms(1) obtain r where r: "rank_lines atoms (without_whitespace t) (enumerate 0 ls) = Inr r"
    and rest: "(case r of
             None \<Rightarrow> Inr ls
           | Some (ranked, spaces) \<Rightarrow>
               let ordered = sort_key ranked_position ranked
               in if concat (map ranked_text ordered) \<noteq> without_whitespace t then Inr ls
                  else if spaces = [] then Inr (map ranked_of ordered)
                  else bind_ok (traverse (anchor_of (map ranked_of ordered)) spaces) (\<lambda>anchored.
                    Inr (concat (map (\<lambda>l. l # map (snd \<circ> snd) (sort_key (fst \<circ> snd) (filter (\<lambda>a. fst a = ll_line_id l) anchored)))
                                   (map ranked_of ordered))))) = Inr xs"
    unfolding order_lines_by_text_hint_def Let_def bind_ok_Inr_iff by blast
  show ?thesis
  proof (cases r)
    case None
    with rest show ?thesis by simp
  next
    case (Some p)
    obtain ranked spaces where p: "p = (ranked, spaces)" by (cases p)
    let ?o = "map ranked_of (sort_key ranked_position ranked)"
    have m: "mset ?o + mset (map snd spaces) = mset ls"
      using rank_lines_parts [of atoms "without_whitespace t" "enumerate 0 ls" ranked spaces] r Some p by simp
    then have "mset (map ll_line_id ?o) \<subseteq># mset (map ll_line_id ls)" by (metis image_mset_subseteq_mono mset_map mset_subset_eq_add_left)
    then have d': "distinct (map ll_line_id ?o)"
      using d by (rule distinct_submset)
    show ?thesis
    proof (cases "spaces = [] \<or> xs = ls")
      case True
      then show ?thesis using rest m by (auto simp: Some p Let_def split: if_splits)
    next
      case False
      then obtain anchored where a: "traverse (anchor_of ?o) spaces = Inr anchored"
        and xs: "xs = concat (map (\<lambda>l. l # map (snd \<circ> snd) (sort_key (fst \<circ> snd) (filter (\<lambda>a. fst a = ll_line_id l) anchored))) ?o)"
        using rest by (auto simp: Some p Let_def split: if_splits)
      note ap = anchored_parts [OF traverse_list_all2 [OF a]]
      have "map (snd \<circ> snd) anchored = map snd spaces" using ap(1) by (metis map_map)
      then show ?thesis using placed_anchors [OF d' ap(2)] m by (simp add: xs)
    qed
  qed
qed

section \<open>Merged regions\<close>

definition merge_invariant :: "layout_line list \<Rightarrow> string list \<times> layout_region list \<Rightarrow> bool" where
  "merge_invariant lines st \<longleftrightarrow>
     (\<exists>gs. list_all2 made_of (snd st) gs \<and> distinct (concat gs) \<and> set (concat gs) \<subseteq> set lines
        \<and> set (fst st) = ll_line_id ` set (concat gs))"

lemma distinct_ids: "distinct (map f xs) \<Longrightarrow> distinct xs"
  by (simp add: distinct_map)

lemma merged_region_made: "merged_region E ev by_line h g = Inr r \<Longrightarrow> made_of r g"
  by (auto simp: merged_region_def made_of_def LayoutRegion_def Let_def split: if_splits)

lemma merge_hint_invariant:
  assumes s: "merge_hint E ev lines by_line st h = Inr st'" and i: "merge_invariant lines st" and d: "distinct (map ll_line_id lines)"
  shows "merge_invariant lines st'"
proof -
  obtain claimed merged where st: "st = (claimed, merged)" by (cases st)
  let ?m = "hint_members lines claimed h"
  show ?thesis
  proof (cases "?m = []")
    case True
    with s i show ?thesis by (simp add: merge_hint_def st)
  next
    case False
    with s obtain ms r where o: "order_lines_by_text_hint ?m (hb_text_hint h) (dict_of ea_atom_id id (ed_atoms ev)) = Inr ms"
      and r: "merged_region E ev by_line h ms = Inr r" and st': "st' = (claimed @ map ll_line_id ms, merged @ [r])"
      by (auto simp: merge_hint_def st Let_def)
    have "distinct (map ll_line_id ?m)" using d by (simp add: hint_members_def distinct_map_filter)
    from order_lines_permutes [OF o this] have m: "mset ms = mset ?m" .
    then have sm: "set ms = set ?m" and dm: "distinct ms"
      using distinct_ids [OF \<open>distinct (map ll_line_id ?m)\<close>] by (auto dest: mset_eq_setD mset_eq_imp_distinct_iff)
    from i obtain gs where g: "list_all2 made_of merged gs" "distinct (concat gs)" "set (concat gs) \<subseteq> set lines"
      "set claimed = ll_line_id ` set (concat gs)" by (auto simp: merge_invariant_def st)
    have "list_all2 made_of (merged @ [r]) (gs @ [ms])" using g(1) merged_region_made [OF r] by (simp add: list_all2_appendI)
    moreover have "set ms \<inter> set (concat gs) = {}" using g(4) by (auto simp: sm hint_members_def)
    then have "distinct (concat (gs @ [ms]))" using g(2) dm by auto
    moreover have "set (concat (gs @ [ms])) \<subseteq> set lines" using g(3) by (auto simp: sm hint_members_def)
    moreover have "set (claimed @ map ll_line_id ms) = ll_line_id ` set (concat (gs @ [ms]))" using g(4) by auto
    ultimately show ?thesis unfolding merge_invariant_def st' by (intro exI [of _ "gs @ [ms]"]) simp
  qed
qed

lemma remainder_made:
  assumes x: "remainder_region E ev (dict_of ll_line_id id lines) claimed r = Inr x" and m: "made_of r g" and g: "set g \<subseteq> set lines"
    and d: "distinct (map ll_line_id lines)"
  shows "let h = filter (\<lambda>l. ll_line_id l \<notin> set claimed) g in h = [] \<and> x = None \<or> (\<exists>r'. x = Some r' \<and> made_of r' h)"
proof -
  let ?h = "filter (\<lambda>l. ll_line_id l \<notin> set claimed) g"
  have ids: "filter (\<lambda>i. i \<notin> set claimed) (lr_line_ids r) = map ll_line_id ?h" using m by (simp add: made_of_def filter_map comp_def)
  have get: "get_ok (dict_of ll_line_id id lines) (ll_line_id l) = Inr l" if "l \<in> set g" for l
    using that g dict_get_of_unique [OF d, of l id] by (auto simp: get_ok_def)
  have t: "traverse (get_ok (dict_of ll_line_id id lines)) (map ll_line_id ?h) = Inr ?h"
    using get by (intro list_all2_traverse) (auto simp: list_all2_map1 list_all2_same)
  show ?thesis
  proof (cases "?h = []")
    case True
    with x show ?thesis by (simp add: remainder_region_def ids Let_def)
  next
    case False
    with x t ids show ?thesis by (auto simp: remainder_region_def Let_def made_of_def)
  qed
qed

lemma remainders_made:
  assumes "list_all2 (\<lambda>r x. remainder_region E ev (dict_of ll_line_id id lines) claimed r = Inr x) rs xs" and "list_all2 made_of rs gs"
    and "set (concat gs) \<subseteq> set lines" and d: "distinct (map ll_line_id lines)"
  shows "\<exists>hs. list_all2 made_of (somes xs) hs \<and> concat hs = filter (\<lambda>l. ll_line_id l \<notin> set claimed) (concat gs)"
  using assms(1-3)
proof (induction arbitrary: gs rule: list_all2_induct)
  case Nil
  then show ?case by (intro exI [of _ "[]"]) simp
next
  case (Cons r rs x xs)
  then obtain g gs' where gs: "gs = g # gs'" "made_of r g" "list_all2 made_of rs gs'" by (auto simp: list_all2_Cons1)
  have "set (concat gs') \<subseteq> set lines" using Cons.prems(2) gs(1) by auto
  from Cons.IH [OF gs(3) this] obtain hs where
    hs: "list_all2 made_of (somes xs) hs" "concat hs = filter (\<lambda>l. ll_line_id l \<notin> set claimed) (concat gs')" by blast
  have "set g \<subseteq> set lines" using Cons.prems gs by auto
  from remainder_made [OF Cons.hyps(1) gs(2) this d, unfolded Let_def] show ?case
  proof (elim disjE exE conjE)
    assume "filter (\<lambda>l. ll_line_id l \<notin> set claimed) g = []" "x = None"
    then show ?thesis using hs gs by (intro exI [of _ hs]) simp
  next
    fix r' assume "x = Some r'" "made_of r' (filter (\<lambda>l. ll_line_id l \<notin> set claimed) g)"
    then show ?thesis using hs gs by (intro exI [of _ "filter (\<lambda>l. ll_line_id l \<notin> set claimed) g # hs"]) simp
  qed
qed

lemma merge_made:
  assumes m: "merge_hint_regions E ev lines rs hints = Inr rs'" and g: "list_all2 made_of rs gs" "mset (concat gs) = mset lines"
    and d: "distinct (map ll_line_id lines)"
  shows "\<exists>gs. list_all2 made_of rs' gs \<and> mset (concat gs) = mset lines"
proof (cases "filter (\<lambda>h. hb_bbox h \<noteq> None) (sort_key hb_order hints) = []")
  case True
  with m g show ?thesis by (auto simp: merge_hint_regions_def)
next
  case False
  then obtain by_line claimed merged xs where
    f: "fold_ok (merge_hint E ev lines by_line) ([], []) (filter (\<lambda>h. hb_bbox h \<noteq> None) (sort_key hb_order hints)) = Inr (claimed, merged)"
    and t: "traverse (remainder_region E ev (dict_of ll_line_id id lines) claimed) rs = Inr xs" and rs': "rs' = somes xs @ merged"
    using m by (auto simp: merge_hint_regions_def Let_def)
  have "merge_invariant lines (claimed, merged)"
    by (rule fold_ok_invariant [OF f]) (auto simp: merge_invariant_def [of lines "([], [])"] intro: merge_hint_invariant [OF _ _ d])
  then obtain ms where ms: "list_all2 made_of merged ms" "distinct (concat ms)" "set (concat ms) \<subseteq> set lines"
    "set claimed = ll_line_id ` set (concat ms)" by (auto simp: merge_invariant_def)
  have sub: "set (concat gs) \<subseteq> set lines" using g(2) by (metis mset_eq_setD order_refl)
  from remainders_made [OF traverse_list_all2 [OF t] g(1) sub d] obtain hs where
    hs: "list_all2 made_of (somes xs) hs" "concat hs = filter (\<lambda>l. ll_line_id l \<notin> set claimed) (concat gs)" by blast
  have c: "ll_line_id l \<in> set claimed \<longleftrightarrow> l \<in> set (concat ms)" if "l \<in> set lines" for l
  proof
    assume "ll_line_id l \<in> set claimed"
    then obtain l' where l': "l' \<in> set (concat ms)" "ll_line_id l = ll_line_id l'" using ms(4) by auto
    moreover have "l' \<in> set lines" using l'(1) ms(3) by auto
    ultimately have "l = l'" using d that by (auto simp: distinct_map inj_on_def)
    with l' show "l \<in> set (concat ms)" by simp
  qed (use ms(4) in auto)
  have "mset (concat ms) = mset (filter (\<lambda>l. ll_line_id l \<in> set claimed) lines)"
  proof (rule set_eq_iff_mset_eq_distinct [THEN iffD1, OF ms(2)])
    show "distinct (filter (\<lambda>l. ll_line_id l \<in> set claimed) lines)" using distinct_ids [OF d] by simp
    show "set (concat ms) = set (filter (\<lambda>l. ll_line_id l \<in> set claimed) lines)" using c ms(3) by auto
  qed
  moreover have "mset (concat hs) = mset (filter (\<lambda>l. ll_line_id l \<notin> set claimed) lines)"
    unfolding hs(2) mset_filter g(2) ..
  ultimately have "mset (concat (hs @ ms)) = mset lines" by (simp add: multiset_partition [symmetric] add.commute)
  moreover have "list_all2 made_of rs' (hs @ ms)" using hs(1) ms(1) by (simp add: rs' list_all2_appendI)
  ultimately show ?thesis by blast
qed

section \<open>The whole layout\<close>

lemma mark_keeps:
  assumes "mark_repeated_edges E ev band ratio rs = Inr rs'"
  shows "map lr_atom_ids rs' = map lr_atom_ids rs \<and> map lr_line_ids rs' = map lr_line_ids rs"
proof -
  have "lr_atom_ids (mark_edge E band rep texts r) = lr_atom_ids r \<and> lr_line_ids (mark_edge E band rep texts r) = lr_line_ids r" for rep texts and r :: layout_region
    by (simp add: mark_edge_def Let_def split: option.splits)
  with assms show ?thesis by (auto simp: mark_repeated_edges_def)
qed

lemma hints_keep: "map lr_atom_ids (apply_structure_hints rs hints) = map lr_atom_ids rs"
  "map lr_line_ids (apply_structure_hints rs hints) = map lr_line_ids rs"
  by (simp_all add: apply_structure_hints_def structure_hint_def Let_def)

lemma LayoutDocument_accepted:
  assumes "LayoutDocument d = Inr d'"
  shows "d' = d" and "distinct (map ll_line_id (ld_lines d))" and "distinct (map lr_region_id (ld_regions d))"
    and "is_ok (ordered_region_ids (ld_regions d) (ld_order_edges d))"
  using assms by (auto simp: LayoutDocument_def Let_def is_ok_iff split: if_splits)

lemma made_of_cong:
  "list_all2 made_of rs gs \<Longrightarrow> map lr_atom_ids rs' = map lr_atom_ids rs \<Longrightarrow> map lr_line_ids rs' = map lr_line_ids rs
    \<Longrightarrow> list_all2 made_of rs' gs"
proof (induction rs gs arbitrary: rs' rule: list_all2_induct)
  case (Cons r rs g gs)
  then obtain r' rs'' where "rs' = r' # rs''" by (cases rs') auto
  with Cons show ?case by (auto simp: made_of_def)
qed simp

text \<open>The regions of a layout are made of its lines, each line taken once.\<close>

lemma layout_made:
  assumes "normalize_layout E band ratio ev hints = Inr lay"
  shows "cluster_lines E ev = Inr (ld_lines lay) \<and> distinct (map ll_line_id (ld_lines lay))
    \<and> (\<exists>rs hs. mset rs = mset (ld_regions lay) \<and> list_all2 made_of rs hs \<and> mset (concat hs) = mset (ld_lines lay))"
proof -
  from assms obtain lines grouped merged marked where c: "cluster_lines E ev = Inr lines" and g: "group_regions E ev lines = Inr grouped"
    and m: "merge_hint_regions E ev lines grouped hints = Inr merged"
    and k: "mark_repeated_edges E ev band ratio (apply_structure_hints merged hints) = Inr marked"
    and l: "LayoutDocument \<lparr>ld_source_hash = ed_source_hash ev, ld_page_count = ed_page_count ev, ld_lines = lines,
            ld_regions = sort_key reading_key marked, ld_order_edges = reading_order_edges (sort_key reading_key marked)\<rparr> = Inr lay"
    by (auto simp: normalize_layout_def Let_def)
  note d = LayoutDocument_accepted [OF l]
  from group_regions_made [OF g] obtain gs where "list_all2 made_of grouped gs" "mset (concat gs) = mset lines" by blast
  from merge_made [OF m this] d(2) obtain hs where hs: "list_all2 made_of merged hs" "mset (concat hs) = mset lines" by (auto simp: d(1))
  have "list_all2 made_of marked hs"
    by (rule made_of_cong [OF hs(1)]) (simp_all add: mark_keeps [OF k] hints_keep)
  with hs(2) c d(2) show ?thesis by (auto simp: d(1) intro!: exI [of _ marked] exI [of _ hs])
qed

lemma mset_concat_map_cong: "mset xs = mset ys \<Longrightarrow> mset (concat (map f xs)) = mset (concat (map f ys))"
  by (metis mset_concat mset_map sum_mset_sum_list)

lemma layout_keeps_atoms:
  assumes "normalize_layout E band ratio ev hints = Inr lay" and "EvidenceDocument ev = Inr ev'" and "regions_have_area ev"
  shows "mset (concat (map lr_atom_ids (ld_regions lay))) = mset (map ea_atom_id (ed_atoms ev))"
    and "mset (concat (map ll_atom_ids (ld_lines lay))) = mset (map ea_atom_id (ed_atoms ev))"
proof -
  note e = accepted_evidence_partition [OF assms(2)]
  from layout_made [OF assms(1)] obtain rs hs where c: "cluster_lines E ev = Inr (ld_lines lay)"
    and rs: "mset rs = mset (ld_regions lay)" and hs: "list_all2 made_of rs hs" "mset (concat hs) = mset (ld_lines lay)" by blast
  show lines: "mset (concat (map ll_atom_ids (ld_lines lay))) = mset (map ea_atom_id (ed_atoms ev))"
    using cluster_lines_atoms [OF c assms(3) e(2)] e(1) by simp
  have "mset (concat (map lr_atom_ids (ld_regions lay))) = mset (concat (map lr_atom_ids rs))"
    by (rule mset_concat_map_cong [OF rs [symmetric]])
  also have "\<dots> = mset (concat (map ll_atom_ids (concat hs)))" by (rule made_of_atoms [OF hs(1)])
  also have "\<dots> = mset (concat (map ll_atom_ids (ld_lines lay)))" by (rule mset_concat_map_cong [OF hs(2)])
  finally show "mset (concat (map lr_atom_ids (ld_regions lay))) = mset (map ea_atom_id (ed_atoms ev))" unfolding lines .
qed

text \<open>Every line is in one region, and a region has exactly the atoms of its lines.\<close>

lemma made_of_lines: "list_all2 made_of rs hs \<Longrightarrow> concat (map lr_line_ids rs) = map ll_line_id (concat hs)"
  by (induction rule: list_all2_induct) (auto simp: made_of_def)

lemma layout_region_lines:
  assumes "normalize_layout E band ratio ev hints = Inr lay"
  shows "mset (concat (map lr_line_ids (ld_regions lay))) = mset (map ll_line_id (ld_lines lay))"
    and "r \<in> set (ld_regions lay) \<Longrightarrow> mset (lr_atom_ids r)
      = mset (concat (map ll_atom_ids (filter (\<lambda>l. ll_line_id l \<in> set (lr_line_ids r)) (ld_lines lay))))"
proof -
  from layout_made [OF assms] obtain rs hs where d: "distinct (map ll_line_id (ld_lines lay))"
    and rs: "mset rs = mset (ld_regions lay)" and hs: "list_all2 made_of rs hs" "mset (concat hs) = mset (ld_lines lay)" by blast
  have "mset (concat (map lr_line_ids (ld_regions lay))) = mset (concat (map lr_line_ids rs))"
    by (rule mset_concat_map_cong [OF rs [symmetric]])
  also have "\<dots> = mset (map ll_line_id (ld_lines lay))"
    unfolding made_of_lines [OF hs(1)] mset_map hs(2) ..
  finally show "mset (concat (map lr_line_ids (ld_regions lay))) = mset (map ll_line_id (ld_lines lay))" .
  assume "r \<in> set (ld_regions lay)"
  then have "r \<in> set rs" using rs by (metis mset_eq_setD)
  with hs(1) have "\<exists>g\<in>set hs. made_of r g" by (induction rule: list_all2_induct) auto
  then obtain g where g: "g \<in> set hs" "made_of r g" by blast
  have sub: "set g \<subseteq> set (ld_lines lay)" using g(1) mset_eq_setD [OF hs(2)] by auto
  have "distinct (concat hs)" using hs(2) distinct_ids [OF d] by (metis mset_eq_imp_distinct_iff)
  then have dg: "distinct g" using g(1) by (auto simp: distinct_concat_iff)
  have "set g = set (filter (\<lambda>l. ll_line_id l \<in> set (lr_line_ids r)) (ld_lines lay))"
    using sub g(2) d by (auto simp: made_of_def distinct_map dest: inj_onD)
  then have "mset g = mset (filter (\<lambda>l. ll_line_id l \<in> set (lr_line_ids r)) (ld_lines lay))"
    using set_eq_iff_mset_eq_distinct [OF dg] distinct_filter [OF distinct_ids [OF d]] by blast
  then show "mset (lr_atom_ids r)
      = mset (concat (map ll_atom_ids (filter (\<lambda>l. ll_line_id l \<in> set (lr_line_ids r)) (ld_lines lay))))"
    using g(2) mset_concat_map_cong by (simp only: made_of_def)
qed

lemma reading_edges_chain: "map edge_pair (reading_order_edges rs) = chain_edges (map lr_region_id rs)"
  by (induction rs rule: induct_list012) (auto simp: reading_order_edges_def edge_pair_def order_edge_of_def)

lemma layout_order:
  assumes "normalize_layout E band ratio ev hints = Inr lay"
  shows "topological_region_order lay = Inr (map lr_region_id (ld_regions lay)) \<and> sorted (map reading_key (ld_regions lay))"
proof -
  from assms obtain lines marked where
    l: "LayoutDocument \<lparr>ld_source_hash = ed_source_hash ev, ld_page_count = ed_page_count ev, ld_lines = lines,
            ld_regions = sort_key reading_key marked, ld_order_edges = reading_order_edges (sort_key reading_key marked)\<rparr> = Inr lay"
    by (auto simp: normalize_layout_def Let_def)
  note d = LayoutDocument_accepted [OF l]
  have "topological_region_order lay = ordered_ids (map lr_region_id (ld_regions lay)) (chain_edges (map lr_region_id (ld_regions lay)))"
    unfolding d(1) by (simp add: topological_region_order_def ordered_region_ids_def reading_edges_chain)
  then show ?thesis using d by (simp add: ordered_chain)
qed

section \<open>Properties\<close>

text \<open>(C35) The order of the regions: for distinct regions and edges into them, the computed order holds every region once, with the
  start of every edge before its end; and the computation fails exactly when no such order exists.\<close>

theorem region_order_topological:
  assumes "distinct (map lr_region_id rs)" and "\<forall>e\<in>set es. oe_after e \<in> lr_region_id ` set rs"
  shows "(\<forall>xs. ordered_region_ids rs es = Inr xs \<longrightarrow> topological (map edge_pair es) (map lr_region_id rs) xs)
    \<and> (is_ok (ordered_region_ids rs es) \<longleftrightarrow> (\<exists>xs. topological (map edge_pair es) (map lr_region_id rs) xs))"
proof -
  have "\<forall>e\<in>set (map edge_pair es). snd e \<in> set (map lr_region_id rs)" using assms(2) by (auto simp: edge_pair_def)
  from ordered_ids_result [OF assms(1) this] show ?thesis by (auto simp: ordered_region_ids_def)
qed

text \<open>(C36) The layout conserves the evidence. Take accepted evidence in which each region has at
  least one atom with a box of positive width and height (\<open>regions_have_area\<close>; the atoms of a region without any
  such box are dropped by the code). Then, whatever the blocks of the converter say, the lines of the layout hold
  together every atom of the evidence exactly once, and so do its regions; every line is in exactly one
  region, and a region has exactly the atoms of its lines. The topological order of the regions is the order of
  the list, which is sorted by the reading key.\<close>

theorem layout_conserves_atoms:
  assumes "normalize_layout E band ratio ev hints = Inr lay" and "EvidenceDocument ev = Inr ev" and "regions_have_area ev"
  shows "mset (concat (map lr_atom_ids (ld_regions lay))) = mset (map ea_atom_id (ed_atoms ev))
    \<and> distinct (concat (map lr_atom_ids (ld_regions lay)))
    \<and> mset (concat (map ll_atom_ids (ld_lines lay))) = mset (map ea_atom_id (ed_atoms ev))
    \<and> distinct (concat (map ll_atom_ids (ld_lines lay)))
    \<and> mset (concat (map lr_line_ids (ld_regions lay))) = mset (map ll_line_id (ld_lines lay))
    \<and> distinct (map ll_line_id (ld_lines lay))
    \<and> (\<forall>r\<in>set (ld_regions lay). mset (lr_atom_ids r)
          = mset (concat (map ll_atom_ids (filter (\<lambda>l. ll_line_id l \<in> set (lr_line_ids r)) (ld_lines lay)))))
    \<and> topological_region_order lay = Inr (map lr_region_id (ld_regions lay)) \<and> sorted (map reading_key (ld_regions lay))"
proof -
  note m = layout_keeps_atoms [OF assms]
  note d = accepted_evidence_partition(2) [OF assms(2)]
  have "distinct (concat (map lr_atom_ids (ld_regions lay)))" "distinct (concat (map ll_atom_ids (ld_lines lay)))"
    using mset_eq_imp_distinct_iff [OF m(1)] mset_eq_imp_distinct_iff [OF m(2)] d by simp_all
  with m layout_region_lines [OF assms(1)] layout_made [OF assms(1)] layout_order [OF assms(1)] show ?thesis by blast
qed

section \<open>A page\<close>

definition layout_env1 :: layout_env where
  "layout_env1 = \<lparr>le_library = sample_library, le_casefold = id, le_digit = (\<lambda>c. False)\<rparr>"

definition page_box1 :: source_box where
  "page_box1 = \<lparr>sb_left = 1/4, sb_bottom = 1/4, sb_right = 1/2, sb_top = 1/2\<rparr>"

definition atom1 :: evidence_atom where
  "atom1 = \<lparr>ea_atom_id = ''atom_0000000000000000'', ea_ordinal = 0, ea_page = 1, ea_bbox = Some page_box1, ea_text = ''a'', ea_kind = Char_Atom,
     ea_authority = By_Embedded, ea_source_object = 0, ea_source_index = 0, ea_confidence = 1\<rparr>"

definition evidence1 :: evidence_document where
  "evidence1 = \<lparr>ed_source_hash = replicate 64 CHR ''0'', ed_mode = M_Embedded, ed_page_count = 1, ed_parser_versions = [], ed_atoms = [atom1],
     ed_hypotheses = [], ed_regions = [\<lparr>er_region_id = ''region_0000000000000000'', er_page = 1, er_bbox = page_box1,
       er_atom_ids = [''atom_0000000000000000''], er_hypothesis_ids = [], er_authority = By_Embedded, er_requires_review = False\<rparr>]\<rparr>"

lemma evidence1_accepted: "EvidenceDocument evidence1 = Inr evidence1" "regions_have_area evidence1"
proof -
  have "Sha256 (replicate 64 CHR ''0'')" by code_simp
  then show "EvidenceDocument evidence1 = Inr evidence1"
    by (simp add: EvidenceDocument_def evidence_fields_ok_def validate_evidence_def evidence1_def atom1_def check_evidence_region_def
        Let_def reject_if_def)
  show "regions_have_area evidence1" by (simp add: regions_have_area_def evidence1_def atom1_def has_area_def page_box1_def)
qed

lemma lines1: "\<exists>l. cluster_lines layout_env1 evidence1 = Inr [l] \<and> LineId (ll_line_id l) \<and> ll_page l = 1 \<and> ll_bbox l = page_box1
  \<and> ll_atom_ids l = [''atom_0000000000000000''] \<and> ll_evidence_region_ids l = [''region_0000000000000000'']"
proof -
  have ch: "attach_degenerate_chunks (line_chunks [atom1]) = [[atom1]]"
    by (simp add: line_chunks_def chunk_step_def splits_chunk_def atom1_def Let_def attach_degenerate_chunks_def attach_step_def has_area_def page_box1_def)
  obtain h where h: "canonical_hash sample_library (PSeq (map PStr [ed_source_hash evidence1, ea_atom_id atom1, ea_atom_id atom1])) = Inr h" "Sha256 h"
    using sample_hash [of "PSeq (map PStr [ed_source_hash evidence1, ea_atom_id atom1, ea_atom_id atom1])"] by auto
  have id: "line_id sample_library (ed_source_hash evidence1) [ea_atom_id atom1, ea_atom_id atom1] = Inr (''line_'' @ take 16 h)"
    using h(1) by (simp add: line_id_def)
  have L: "LineId (''line_'' @ take 16 h)" unfolding LineId_def by (rule prefixed_hash [OF h(2)])
  have b: "union_boxes [page_box1] = Inr (Some page_box1)" by (simp add: union_boxes_def SourceBox_def reject_if_def page_box1_def)
  have "sb_bottom page_box1 = 1/4" "sb_top page_box1 = 1/2" by (simp_all add: page_box1_def)
  then show ?thesis using id L b ch
    by (simp add: cluster_lines_def region_lines_def evidence1_def get_ok_def dict_of_def line_of_chunk_def Let_def layout_env1_def
        atom1_def LayoutLine_def median_def)
qed

lemma layout1: "\<exists>lay. normalize_layout layout_env1 (1/10) (3/5) evidence1 [] = Inr lay"
proof -
  from lines1 obtain l where c: "cluster_lines layout_env1 evidence1 = Inr [l]" and l: "LineId (ll_line_id l)" "ll_page l = 1"
    "ll_bbox l = page_box1" "ll_atom_ids l = [''atom_0000000000000000'']" "ll_evidence_region_ids l = [''region_0000000000000000'']" by blast
  have b: "union_boxes [page_box1] = Inr (Some page_box1)" by (simp add: union_boxes_def SourceBox_def reject_if_def page_box1_def)
  obtain h where h: "canonical_hash sample_library (PSeq (map PStr [ed_source_hash evidence1, ''layout'', ''atom_0000000000000000'',
      ''atom_0000000000000000''])) = Inr h" "Sha256 h"
    using sample_hash [of "PSeq (map PStr [ed_source_hash evidence1, ''layout'', ''atom_0000000000000000'', ''atom_0000000000000000''])"] by auto
  have id: "make_evidence_id sample_library ''region'' [ed_source_hash evidence1, ''layout'', ''atom_0000000000000000'', ''atom_0000000000000000'']
    = Inr (''region'' @ ''_'' @ take 16 h)" using h(1) by (simp add: make_evidence_id_def)
  have R: "RegionId (''region'' @ ''_'' @ take 16 h)" using prefixed_hash [OF h(2), of "''region_''"] by (simp add: RegionId_def)
  have cols: "column_assignments [l] = Inr [(ll_line_id l, 0)]"
    by (simp add: column_assignments_def groups_by_def first_seen_def page_columns_def dict_of_def enumerate_eq_zip)
  have E: "le_library layout_env1 = sample_library" by (simp add: layout_env1_def)
  let ?r = "\<lparr>lr_region_id = ''region'' @ ''_'' @ take 16 h, lr_page = 1, lr_bbox = page_box1, lr_line_ids = [ll_line_id l],
    lr_atom_ids = [''atom_0000000000000000''], lr_evidence_region_ids = [''region_0000000000000000''], lr_column = 0, lr_hint = None,
    lr_repeated_edge = False\<rparr>"
  define r where "r = ?r"
  have f: "lr_bbox r = page_box1" "lr_hint r = None" "lr_atom_ids r = [''atom_0000000000000000'']" "lr_line_ids r = [ll_line_id l]"
    by (simp_all add: r_def)
  have "region_of_lines layout_env1 evidence1 [(ll_line_id l, 0)] [l] = Inr r"
    using R by (simp add: region_of_lines_def lines_box_def l b some_box_def E id [simplified] get_ok_def LayoutRegion_def Let_def
        lines_evidence_regions_def first_seen_def r_def)
  then have g: "group_regions layout_env1 evidence1 [l] = Inr [r]"
    by (simp add: group_regions_def cols lines_by_page_column_def get_ok_def groups_by_def first_seen_def)
  have m: "merge_hint_regions layout_env1 evidence1 [l] [r] [] = Inr [r]" by (simp add: merge_hint_regions_def)
  have t: "edge_text layout_env1 evidence1 r = Inr (le_casefold layout_env1 (without_whitespace ''a''))"
    by (simp add: edge_text_def f evidence1_def atom1_def dict_of_def get_ok_def)
  have a: "apply_structure_hints [r] [] = [r]" by (simp add: apply_structure_hints_def structure_hint_def f)
  have e: "edge_of_region (1/10) r = None" "\<not> sb_bottom (lr_bbox r) \<le> 1/10" by (simp_all add: edge_of_region_def f page_box1_def)
  have rep: "repeated_regions (1/10) (3/5) n [(r, u)] = []" for n u
    by (simp add: repeated_regions_def e(1) groups_by_def first_seen_def dict_of_def)
  have mk: "mark_edge layout_env1 (1/10) [] ts r = r" for ts unfolding mark_edge_def Let_def using e(2) by simp
  have k: "mark_repeated_edges layout_env1 evidence1 (1/10) (3/5) [r] = Inr [r]"
    by (simp only: mark_repeated_edges_def traverse.simps t bind_ok.simps sum.case rep mk list.map)
  have z: "Sha256 (ed_source_hash evidence1)" "ed_page_count evidence1 = 1"
  proof -
    show "Sha256 (ed_source_hash evidence1)" unfolding evidence1_def evidence_document.simps by code_simp
  qed (simp add: evidence1_def)
  have o: "ordered_region_ids [r] [] = Inr [lr_region_id r]"
    using ordered_chain [of "[lr_region_id r]"] by (simp add: ordered_region_ids_def)
  show ?thesis unfolding normalize_layout_def c bind_ok.simps g m a k Let_def
    using z o l(1) by (simp add: LayoutDocument_def reading_order_edges_def Let_def reject_if_def f)
qed

theorem layout_conserves_atoms_witness:
  "\<exists>lay. normalize_layout layout_env1 (1/10) (3/5) evidence1 [] = Inr lay
    \<and> concat (map lr_atom_ids (ld_regions lay)) = [''atom_0000000000000000'']"
proof -
  from layout1 obtain lay where lay: "normalize_layout layout_env1 (1/10) (3/5) evidence1 [] = Inr lay" ..
  from layout_conserves_atoms [OF lay evidence1_accepted]
  have "mset (concat (map lr_atom_ids (ld_regions lay))) = {#''atom_0000000000000000''#}" by (simp add: evidence1_def atom1_def)
  then have "concat (map lr_atom_ids (ld_regions lay)) = [''atom_0000000000000000'']" by (simp only: mset_single_iff)
  with lay show ?thesis by (intro exI [of _ lay] conjI)
qed

definition region_named :: "string \<Rightarrow> layout_region" where
  "region_named i = \<lparr>lr_region_id = i, lr_page = 1, lr_bbox = page_box1, lr_line_ids = [], lr_atom_ids = [], lr_evidence_region_ids = [],
     lr_column = 0, lr_hint = None, lr_repeated_edge = False\<rparr>"

definition edge_named :: "string \<Rightarrow> string \<Rightarrow> order_edge" where
  "edge_named a b = \<lparr>oe_before = a, oe_after = b, oe_reason = Same_Column\<rparr>"

theorem region_order_topological_witness:
  "ordered_region_ids [region_named ''b'', region_named ''a'', region_named ''c''] [edge_named ''a'' ''b'', edge_named ''b'' ''c''] = Inr [''a'', ''b'', ''c'']
   \<and> \<not> is_ok (ordered_region_ids [region_named ''b'', region_named ''a''] [edge_named ''a'' ''b'', edge_named ''b'' ''a''])"
proof
  let ?rs = "[region_named ''b'', region_named ''a'', region_named ''c'']" and ?es = "[edge_named ''a'' ''b'', edge_named ''b'' ''c'']"
  have t: "topological [(''a'', ''b''), (''b'', ''c'')] [''b'', ''a'', ''c''] [''a'', ''b'', ''c'']"
    using chain_topological [of "[''a'', ''b'', ''c'']"] by (auto simp: topological_def)
  have h: "(\<forall>xs. ordered_region_ids ?rs ?es = Inr xs \<longrightarrow> topological (map edge_pair ?es) (map lr_region_id ?rs) xs)
    \<and> (is_ok (ordered_region_ids ?rs ?es) \<longleftrightarrow> (\<exists>xs. topological (map edge_pair ?es) (map lr_region_id ?rs) xs))"
    by (rule region_order_topological) (simp_all add: region_named_def edge_named_def)
  have m: "map edge_pair ?es = [(''a'', ''b''), (''b'', ''c'')]" "map lr_region_id ?rs = [''b'', ''a'', ''c'']"
    by (simp_all add: edge_pair_def edge_named_def region_named_def)
  from h m t obtain xs where xs: "ordered_region_ids ?rs ?es = Inr xs" "topological [(''a'', ''b''), (''b'', ''c'')] [''b'', ''a'', ''c''] xs"
    by (auto simp: is_ok_iff)
  then have "topological (chain_edges [''a'', ''b'', ''c'']) [''a'', ''b'', ''c''] xs" by (auto simp: topological_def)
  from chain_order_unique [OF _ this] xs(1) show "ordered_region_ids ?rs ?es = Inr [''a'', ''b'', ''c'']" by simp
next
  let ?rs = "[region_named ''b'', region_named ''a'']" and ?es = "[edge_named ''a'' ''b'', edge_named ''b'' ''a'']"
  have h: "is_ok (ordered_region_ids ?rs ?es) \<longleftrightarrow> (\<exists>xs. topological (map edge_pair ?es) (map lr_region_id ?rs) xs)"
    using region_order_topological [of ?rs ?es] by (simp add: region_named_def edge_named_def)
  have "\<not> topological [(''a'', ''b''), (''b'', ''a'')] [''b'', ''a''] xs" for xs
  proof
    assume t: "topological [(''a'', ''b''), (''b'', ''a'')] [''b'', ''a''] xs"
    then obtain x ys where xs: "xs = x # ys" "x = ''a'' \<or> x = ''b''" by (cases xs) (auto simp: topological_def)
    from t have f: "edges_forward [(''a'', ''b''), (''b'', ''a'')] xs" by (simp add: topological_def)
    show False using xs edges_forwardD [OF f, of "''a''" "''b''" "[]" ys] edges_forwardD [OF f, of "''b''" "''a''" "[]" ys] by auto
  qed
  then show "\<not> is_ok (ordered_region_ids ?rs ?es)" unfolding h by (simp add: edge_pair_def edge_named_def region_named_def)
qed

text \<open>Lines that hold only white space are placed at the nearest line with text; a block without text whose lines are all white
  space has none, and the call of \<open>min\<close> raises.\<close>

theorem blank_block_raises:
  assumes "line_text atoms l = Inr []"
  shows "order_lines_by_text_hint [l] [] atoms = Inl (ValueError ''min() iterable argument is empty'')"
proof -
  have "characters [] = []" by code_simp
  then have "without_whitespace [] = []" by (simp add: without_whitespace_def)
  then show ?thesis using assms by (simp add: order_lines_by_text_hint_def anchor_of_def Let_def enumerate_eq_zip)
qed

end
