(* ===== verification/Candidates.thy ===== *)
theory Candidates
  imports Evidence
begin

text \<open>
  The candidates of the semantic decisions (\<open>semantic/candidates.py\<close>): their records and validators, the identifiers from their content, the
  boundaries between the characters of a spacing candidate, and the grid of a table candidate. The lemmas show that an
  accepted spacing candidate is determined by its characters and boundaries, and which grids are accepted.
\<close>

section \<open>Spacing candidates\<close>

definition CandidateId :: "string \<Rightarrow> bool" where "CandidateId s \<longleftrightarrow> prefixed_id ''candidate_'' s"
definition CandidateSetId :: "string \<Rightarrow> bool" where "CandidateSetId s \<longleftrightarrow> prefixed_id ''candidate_set_'' s"
definition CellId :: "string \<Rightarrow> bool" where "CellId s \<longleftrightarrow> prefixed_id ''cell_'' s"

datatype boundary_state = No_Gap | Space_Gap | Hard_Break

record spacing_boundary =
  bd_left :: string
  bd_right :: string
  bd_state :: boundary_state
  bd_whitespace :: "string list"

type_synonym features = "(string, rat) dict"

record spacing_candidate =
  sc_candidate_id :: string
  sc_region_id :: string
  sc_rendered_text :: string
  sc_character_sequence :: string
  sc_atom_ids :: "string list"
  sc_boundaries :: "spacing_boundary list"
  sc_mutable :: "int list option"
  sc_score :: rat
  sc_features :: features

fun gap_text :: "boundary_state \<Rightarrow> string" where
  "gap_text No_Gap = []"
| "gap_text Space_Gap = '' ''"
| "gap_text Hard_Break = [CHR 0x0A]"

text \<open>The characters, each with the gap of its boundary behind it while there is one.\<close>

fun render_characters :: "string list \<Rightarrow> boundary_state list \<Rightarrow> string" where
  "render_characters [] bs = []"
| "render_characters (c # cs) [] = c @ render_characters cs []"
| "render_characters (c # cs) (b # bs) = c @ gap_text b @ render_characters cs bs"

definition render_boundaries :: "string \<Rightarrow> spacing_boundary list \<Rightarrow> string" where
  "render_boundaries character_sequence bs = render_characters (characters character_sequence) (map bd_state bs)"

definition boundary_ok :: "spacing_boundary \<Rightarrow> bool" where
  "boundary_ok b \<longleftrightarrow> AtomId (bd_left b) \<and> AtomId (bd_right b) \<and> list_all AtomId (bd_whitespace b)"

definition SpacingBoundary :: "spacing_boundary \<Rightarrow> spacing_boundary result" where
  "SpacingBoundary b = (if boundary_ok b then Inr b else Inl field_error)"

definition mutable_code :: "spacing_boundary list \<Rightarrow> int list option \<Rightarrow> unit result" where
  "mutable_code bs indexes =
     (case indexes of
        None \<Rightarrow> Inr ()
      | Some ix \<Rightarrow>
          bind_ok (reject_if (sorted_set ix \<noteq> ix \<or> (\<exists>i\<in>set ix. i < 0 \<or> i \<ge> int (length bs))) ''CANDIDATE_MUTABLE_BOUNDARIES_INVALID'') (\<lambda>_.
          reject_if (\<exists>i\<in>set ix. bd_state (bs ! nat i) = Hard_Break) ''CANDIDATE_MUTABLE_HARD_BOUNDARY''))"

definition spacing_fields_ok :: "spacing_candidate \<Rightarrow> bool" where
  "spacing_fields_ok c \<longleftrightarrow> CandidateId (sc_candidate_id c) \<and> RegionId (sc_region_id c) \<and> sc_character_sequence c \<noteq> []
     \<and> sc_atom_ids c \<noteq> [] \<and> list_all AtomId (sc_atom_ids c)
     \<and> list_all boundary_ok (sc_boundaries c)
     \<and> 0 \<le> sc_score c \<and> sc_score c \<le> 1"

definition SpacingCandidate :: "spacing_candidate \<Rightarrow> spacing_candidate result" where
  "SpacingCandidate c =
     (if \<not> spacing_fields_ok c then Inl field_error
      else let ids = sc_atom_ids c; bs = sc_boundaries c; cs = characters (sc_character_sequence c)
           in bind_ok (reject_if (list_ex space_character cs) ''CANDIDATE_CHARACTER_SEQUENCE_INVALID'') (\<lambda>_.
              bind_ok (reject_if (without_whitespace (sc_rendered_text c) \<noteq> sc_character_sequence c) ''CANDIDATE_CHARACTER_CONSERVATION_FAILED'') (\<lambda>_.
              bind_ok (reject_if (length ids \<noteq> length cs \<or> \<not> distinct ids) ''CANDIDATE_ATOM_SEQUENCE_INVALID'') (\<lambda>_.
              bind_ok (reject_if (length bs \<noteq> length ids - 1) ''CANDIDATE_BOUNDARY_SEQUENCE_INVALID'') (\<lambda>_.
              bind_ok (reject_if (map (\<lambda>b. (bd_left b, bd_right b)) bs \<noteq> zip ids (tl ids)) ''CANDIDATE_BOUNDARY_SEQUENCE_INVALID'') (\<lambda>_.
              bind_ok (reject_if (render_boundaries (sc_character_sequence c) bs \<noteq> sc_rendered_text c) ''CANDIDATE_BOUNDARY_RENDER_INVALID'') (\<lambda>_.
              bind_ok (mutable_code bs (sc_mutable c)) (\<lambda>_. Inr c))))))))"

text \<open>The gaps between the characters: the text that is open, and whether a character was seen.\<close>

definition gap_step :: "string list \<times> bool \<times> string \<Rightarrow> string \<Rightarrow> string list \<times> bool \<times> string" where
  "gap_step st c =
     (case st of (gaps, seen, current) \<Rightarrow>
        if space_character c then (gaps, seen, if seen then current @ c else current)
        else (if seen then gaps @ [current] else gaps, True, []))"

definition text_gaps :: "string \<Rightarrow> string list" where
  "text_gaps s = fst (foldl gap_step ([], False, []) (characters s))"

definition gap_state :: "string \<Rightarrow> boundary_state" where
  "gap_state gap = (if CHR 0x0A \<in> set gap then Hard_Break else if gap \<noteq> [] then Space_Gap else No_Gap)"

definition boundaries_from_rendered :: "string \<Rightarrow> string list \<Rightarrow> string list list \<Rightarrow> spacing_boundary list result" where
  "boundaries_from_rendered rendered atom_ids source_whitespace =
     (if length (filter (\<lambda>c. \<not> space_character c) (characters rendered)) \<noteq> length atom_ids
         \<or> length source_whitespace \<noteq> length atom_ids - 1
      then Inl (ValueError ''CANDIDATE_BOUNDARY_SEQUENCE_INVALID'')
      else traverse (\<lambda>(i, gap).
             bind_ok (at_index atom_ids i) (\<lambda>l. bind_ok (at_index atom_ids (i + 1)) (\<lambda>r. bind_ok (at_index source_whitespace i) (\<lambda>w.
               SpacingBoundary \<lparr>bd_left = l, bd_right = r, bd_state = gap_state gap, bd_whitespace = w\<rparr>))))
             (enumerate 0 (text_gaps rendered)))"

section \<open>Identifiers\<close>

definition candidate_digest :: "library \<Rightarrow> string \<Rightarrow> py_value \<Rightarrow> string result" where
  "candidate_digest L prefix v = bind_ok (canonical_hash L v) (\<lambda>digest. Inr (prefix @ take 16 digest))"

definition make_candidate_id :: "library \<Rightarrow> string \<Rightarrow> string \<Rightarrow> py_value \<Rightarrow> string result" where
  "make_candidate_id L kind region_id payload =
     candidate_digest L ''candidate_'' (PDict [(''kind'', PStr kind), (''region_id'', PStr region_id), (''payload'', payload)])"

definition make_candidate_set_id :: "library \<Rightarrow> string \<Rightarrow> string \<Rightarrow> string list \<Rightarrow> string result" where
  "make_candidate_set_id L source_hash region_id ids =
     candidate_digest L ''candidate_set_''
       (PDict [(''source_hash'', PStr source_hash), (''region_id'', PStr region_id), (''candidate_ids'', PSeq (map PStr ids))])"

definition make_cell_id :: "library \<Rightarrow> string \<Rightarrow> py_value \<Rightarrow> string result" where
  "make_cell_id L region_id payload = candidate_digest L ''cell_'' (PDict [(''region_id'', PStr region_id), (''payload'', payload)])"

fun state_name :: "boundary_state \<Rightarrow> string" where
  "state_name No_Gap = ''none''"
| "state_name Space_Gap = ''space''"
| "state_name Hard_Break = ''hard_break''"

definition boundary_value :: "spacing_boundary \<Rightarrow> py_value" where
  "boundary_value b = PModel (PDict [(''left_atom_id'', PStr (bd_left b)), (''right_atom_id'', PStr (bd_right b)),
     (''state'', PStr (state_name (bd_state b))), (''source_whitespace_atom_ids'', PSeq (map PStr (bd_whitespace b)))])"

definition make_spacing_candidate ::
  "library \<Rightarrow> string \<Rightarrow> string \<Rightarrow> string \<Rightarrow> string list \<Rightarrow> string list list \<Rightarrow> rat \<Rightarrow> features \<Rightarrow> int list option
     \<Rightarrow> spacing_candidate result" where
  "make_spacing_candidate L region_id rendered cs atom_ids source_whitespace score features indexes =
     bind_ok (boundaries_from_rendered rendered atom_ids source_whitespace) (\<lambda>bs.
     bind_ok (make_candidate_id L ''spacing'' region_id
                (PDict ([(''rendered_text'', PStr rendered), (''atom_ids'', PSeq (map PStr atom_ids)), (''boundaries'', PSeq (map boundary_value bs))]
                   @ (case indexes of None \<Rightarrow> [] | Some ix \<Rightarrow> [(''mutable_boundary_indexes'', PSeq (map PInt ix))])))) (\<lambda>i.
       SpacingCandidate \<lparr>sc_candidate_id = i, sc_region_id = region_id, sc_rendered_text = rendered, sc_character_sequence = cs,
         sc_atom_ids = atom_ids, sc_boundaries = bs, sc_mutable = indexes, sc_score = score, sc_features = features\<rparr>))"

section \<open>The other candidates\<close>

record recognition_candidate =
  rc_candidate_id :: string
  rc_region_id :: string
  rc_hypothesis_id :: string
  rc_text :: string
  rc_engine :: string
  rc_score :: rat
  rc_features :: features

definition RecognitionCandidate :: "recognition_candidate \<Rightarrow> recognition_candidate result" where
  "RecognitionCandidate c =
     (if \<not> (CandidateId (rc_candidate_id c) \<and> RegionId (rc_region_id c) \<and> HypothesisId (rc_hypothesis_id c) \<and> rc_text c \<noteq> []
            \<and> rc_engine c \<noteq> [] \<and> 0 \<le> rc_score c \<and> rc_score c \<le> 1) then Inl field_error else Inr c)"

datatype block_kind = Heading_Block | Paragraph_Block | List_Item_Block | Table_Block | Caption_Block | Figure_Block

record block_candidate =
  bc_candidate_id :: string
  bc_region_id :: string
  bc_block_kind :: block_kind
  bc_atom_ids :: "string list"
  bc_heading_level :: "int option"
  bc_list_kind :: "list_kind option"
  bc_list_depth :: "int option"
  bc_score :: rat
  bc_features :: features

definition BlockCandidate :: "block_candidate \<Rightarrow> block_candidate result" where
  "BlockCandidate c =
     (if \<not> (CandidateId (bc_candidate_id c) \<and> RegionId (bc_region_id c) \<and> bc_atom_ids c \<noteq> [] \<and> list_all AtomId (bc_atom_ids c)
            \<and> opt_ok (\<lambda>n. 1 \<le> n \<and> n \<le> 6) (bc_heading_level c) \<and> opt_ok (\<lambda>n. 1 \<le> n \<and> n \<le> 8) (bc_list_depth c)
            \<and> 0 \<le> bc_score c \<and> bc_score c \<le> 1) then Inl field_error
      else bind_ok (reject_if (\<not> distinct (bc_atom_ids c)) ''CANDIDATE_ATOM_SEQUENCE_INVALID'') (\<lambda>_.
           bind_ok (reject_if ((bc_heading_level c \<noteq> None) \<noteq> (bc_block_kind c = Heading_Block)) ''CANDIDATE_HEADING_METADATA_INVALID'') (\<lambda>_.
           bind_ok (reject_if ((bc_list_kind c \<noteq> None \<and> bc_list_depth c \<noteq> None) \<noteq> (bc_block_kind c = List_Item_Block))
                      ''CANDIDATE_LIST_METADATA_INVALID'') (\<lambda>_. Inr c))))"

record order_candidate =
  oc_candidate_id :: string
  oc_region_id :: string
  oc_region_ids :: "string list"
  oc_score :: rat
  oc_features :: features

definition ReadingOrderCandidate :: "order_candidate \<Rightarrow> order_candidate result" where
  "ReadingOrderCandidate c =
     (if \<not> (CandidateId (oc_candidate_id c) \<and> RegionId (oc_region_id c) \<and> oc_region_ids c \<noteq> [] \<and> list_all RegionId (oc_region_ids c)
            \<and> 0 \<le> oc_score c \<and> oc_score c \<le> 1) then Inl field_error
      else bind_ok (reject_if (\<not> distinct (oc_region_ids c)) ''CANDIDATE_READING_ORDER_DUPLICATE'') (\<lambda>_. Inr c))"

record continuation_candidate =
  nc_candidate_id :: string
  nc_region_id :: string
  nc_previous_region_id :: string
  nc_current_region_id :: string
  nc_continue_previous :: bool
  nc_score :: rat
  nc_features :: features

definition ContinuationCandidate :: "continuation_candidate \<Rightarrow> continuation_candidate result" where
  "ContinuationCandidate c =
     (if \<not> (CandidateId (nc_candidate_id c) \<and> RegionId (nc_region_id c) \<and> RegionId (nc_previous_region_id c)
            \<and> RegionId (nc_current_region_id c) \<and> 0 \<le> nc_score c \<and> nc_score c \<le> 1) then Inl field_error
      else bind_ok (reject_if (nc_region_id c \<noteq> nc_current_region_id c) ''CANDIDATE_CONTINUATION_SCOPE_INVALID'') (\<lambda>_.
           bind_ok (reject_if (nc_previous_region_id c = nc_current_region_id c) ''CANDIDATE_CONTINUATION_PAIR_INVALID'') (\<lambda>_. Inr c)))"

section \<open>Table candidates\<close>

record cell_candidate =
  cc_cell_id :: string
  cc_start_row :: int
  cc_end_row :: int
  cc_start_column :: int
  cc_end_column :: int
  cc_atom_ids :: "string list"
  cc_column_header :: bool
  cc_rendered_text :: "string option"

definition TableCellCandidate :: "cell_candidate \<Rightarrow> cell_candidate result" where
  "TableCellCandidate c =
     (if \<not> (CellId (cc_cell_id c) \<and> 0 \<le> cc_start_row c \<and> cc_start_row c \<le> MAX_TABLE_ROWS \<and> 0 < cc_end_row c \<and> cc_end_row c \<le> MAX_TABLE_ROWS
            \<and> 0 \<le> cc_start_column c \<and> cc_start_column c \<le> MAX_TABLE_COLUMNS \<and> 0 < cc_end_column c \<and> cc_end_column c \<le> MAX_TABLE_COLUMNS
            \<and> list_all AtomId (cc_atom_ids c)) then Inl field_error
      else bind_ok (reject_if (cc_start_row c \<ge> cc_end_row c \<or> cc_start_column c \<ge> cc_end_column c) ''TABLE_CELL_SPAN_INVALID'') (\<lambda>_.
           bind_ok (reject_if (\<not> distinct (cc_atom_ids c)) ''TABLE_CELL_ATOMS_DUPLICATE'') (\<lambda>_. Inr c)))"

record table_candidate =
  tc_candidate_id :: string
  tc_region_id :: string
  tc_row_count :: int
  tc_column_count :: int
  tc_cells :: "cell_candidate list"
  tc_atom_ids :: "string list"
  tc_score :: rat
  tc_features :: features

definition candidate_squares :: "cell_candidate \<Rightarrow> (int \<times> int) list" where
  "candidate_squares c = concat (map (\<lambda>r. map (\<lambda>k. (r, k)) [cc_start_column c..cc_end_column c - 1]) [cc_start_row c..cc_end_row c - 1])"

definition occupy :: "(int \<times> int) list \<Rightarrow> int \<times> int \<Rightarrow> (int \<times> int) list result" where
  "occupy occupied p = (if p \<in> set occupied then Inl (ValueError ''TABLE_GRID_OVERLAP'') else Inr (occupied @ [p]))"

definition assert_table_grid_complete :: "table_candidate \<Rightarrow> unit result" where
  "assert_table_grid_complete t =
     bind_ok (fold_ok (fold_ok occupy) [] (map candidate_squares (tc_cells t))) (\<lambda>occupied.
       if set occupied \<noteq> {0..<tc_row_count t} \<times> {0..<tc_column_count t} then Inl (ValueError ''TABLE_GRID_NOT_PARTITIONED'') else Inr ())"

definition TableCandidate :: "table_candidate \<Rightarrow> table_candidate result" where
  "TableCandidate t =
     (if \<not> (CandidateId (tc_candidate_id t) \<and> RegionId (tc_region_id t) \<and> 0 < tc_row_count t \<and> tc_row_count t \<le> MAX_TABLE_ROWS
            \<and> 0 < tc_column_count t \<and> tc_column_count t \<le> MAX_TABLE_COLUMNS \<and> tc_cells t \<noteq> [] \<and> length (tc_cells t) \<le> MAX_TABLE_CELLS
            \<and> tc_atom_ids t \<noteq> [] \<and> list_all AtomId (tc_atom_ids t) \<and> 0 \<le> tc_score t \<and> tc_score t \<le> 1) then Inl field_error
      else let allocations = concat (map cc_atom_ids (tc_cells t))
           in bind_ok (reject_if (tc_row_count t * tc_column_count t > MAX_TABLE_GRID_AREA) ''TABLE_GRID_AREA_LIMIT'') (\<lambda>_.
              bind_ok (reject_if (\<exists>c\<in>set (tc_cells t). cc_end_row c > tc_row_count t \<or> cc_end_column c > tc_column_count t) ''TABLE_CELL_OUT_OF_BOUNDS'') (\<lambda>_.
              bind_ok (reject_if (\<not> distinct (map cc_cell_id (tc_cells t))) ''TABLE_CELL_IDS_DUPLICATE'') (\<lambda>_.
              bind_ok (reject_if (\<not> distinct allocations) ''TABLE_ATOM_ALLOCATION_DUPLICATE'') (\<lambda>_.
              bind_ok (reject_if (allocations \<noteq> tc_atom_ids t \<and> set allocations \<noteq> set (tc_atom_ids t)) ''TABLE_ATOM_ALLOCATION_INCOMPLETE'') (\<lambda>_.
              bind_ok (in_validator (assert_table_grid_complete t)) (\<lambda>_. Inr t)))))))"

section \<open>Candidate sets\<close>

datatype candidate =
    Spacing_Cand spacing_candidate
  | Recognition_Cand recognition_candidate
  | Block_Cand block_candidate
  | Order_Cand order_candidate
  | Continuation_Cand continuation_candidate
  | Table_Cand table_candidate

datatype decision_type = D_Spacing | D_Recognition | D_Block | D_Order | D_Continuation | D_Table

fun candidate_id :: "candidate \<Rightarrow> string" where
  "candidate_id (Spacing_Cand c) = sc_candidate_id c"
| "candidate_id (Recognition_Cand c) = rc_candidate_id c"
| "candidate_id (Block_Cand c) = bc_candidate_id c"
| "candidate_id (Order_Cand c) = oc_candidate_id c"
| "candidate_id (Continuation_Cand c) = nc_candidate_id c"
| "candidate_id (Table_Cand c) = tc_candidate_id c"

fun candidate_region :: "candidate \<Rightarrow> string" where
  "candidate_region (Spacing_Cand c) = sc_region_id c"
| "candidate_region (Recognition_Cand c) = rc_region_id c"
| "candidate_region (Block_Cand c) = bc_region_id c"
| "candidate_region (Order_Cand c) = oc_region_id c"
| "candidate_region (Continuation_Cand c) = nc_region_id c"
| "candidate_region (Table_Cand c) = tc_region_id c"

fun candidate_score :: "candidate \<Rightarrow> rat" where
  "candidate_score (Spacing_Cand c) = sc_score c"
| "candidate_score (Recognition_Cand c) = rc_score c"
| "candidate_score (Block_Cand c) = bc_score c"
| "candidate_score (Order_Cand c) = oc_score c"
| "candidate_score (Continuation_Cand c) = nc_score c"
| "candidate_score (Table_Cand c) = tc_score c"

fun candidate_kind :: "candidate \<Rightarrow> decision_type" where
  "candidate_kind (Spacing_Cand c) = D_Spacing"
| "candidate_kind (Recognition_Cand c) = D_Recognition"
| "candidate_kind (Block_Cand c) = D_Block"
| "candidate_kind (Order_Cand c) = D_Order"
| "candidate_kind (Continuation_Cand c) = D_Continuation"
| "candidate_kind (Table_Cand c) = D_Table"

definition INVARIANT_PROVEN_TABLE_FEATURES :: "string list" where
  "INVARIANT_PROVEN_TABLE_FEATURES = [''atom_bbox_cell_agreement'', ''cell_character_multiset'', ''structure_hint_text'']"

fun is_invariant_proven_table :: "candidate \<Rightarrow> bool" where
  "is_invariant_proven_table (Table_Cand t) = list_all (\<lambda>f. dict_get (tc_features t) f = Some 1) INVARIANT_PROVEN_TABLE_FEATURES"
| "is_invariant_proven_table _ = False"

record candidate_set =
  cs_candidate_set_id :: string
  cs_source_hash :: string
  cs_region_id :: string
  cs_decision_type :: decision_type
  cs_candidates :: "candidate list"

definition CandidateSet :: "candidate_set \<Rightarrow> candidate_set result" where
  "CandidateSet s =
     (if \<not> (CandidateSetId (cs_candidate_set_id s) \<and> Sha256 (cs_source_hash s) \<and> RegionId (cs_region_id s)
            \<and> 1 \<le> length (cs_candidates s) \<and> length (cs_candidates s) \<le> 5) then Inl field_error
      else bind_ok (reject_if (\<not> distinct (map candidate_id (cs_candidates s))) ''CANDIDATE_IDS_NOT_UNIQUE'') (\<lambda>_.
           bind_ok (reject_if (\<exists>c\<in>set (cs_candidates s). candidate_region c \<noteq> cs_region_id s \<or> candidate_kind c \<noteq> cs_decision_type s)
                      ''CANDIDATE_SET_SCOPE_INVALID'') (\<lambda>_. Inr s)))"

section \<open>The boundaries determine the text\<close>

text \<open>The list of the characters of a text: only the first may start inside a character.\<close>

definition char_list :: "string list \<Rightarrow> bool" where
  "char_list cs \<longleftrightarrow> (\<forall>c\<in>set cs. c \<noteq> [] \<and> (\<forall>b\<in>set (tl c). continues b)) \<and> (\<forall>c\<in>set (tl cs). \<not> continues (hd c))"

lemma add_byte_list:
  assumes "char_list cs"
  shows "char_list (add_byte b cs)"
proof (cases cs)
  case (Cons c cs')
  moreover from this assms obtain a r where "c = a # r" by (cases c) (auto simp: char_list_def)
  ultimately show ?thesis using assms by (simp add: char_list_def add_byte_def)
qed (simp add: char_list_def add_byte_def)

lemma characters_list: "char_list (characters s)"
  by (induction s) (simp_all add: characters_def add_byte_list, simp add: char_list_def)

lemma foldr_rest: "\<forall>b\<in>set bs. continues b \<Longrightarrow> gs = [] \<or> \<not> continues (hd (hd gs)) \<Longrightarrow> bs \<noteq> [] \<Longrightarrow> foldr add_byte bs gs = bs # gs"
proof (induction bs)
  case (Cons b bs)
  then show ?case by (cases "bs = []"; cases gs) (auto simp: add_byte_def split: list.splits)
qed simp

lemma foldr_character:
  assumes "c \<noteq> []" "\<forall>b\<in>set (tl c). continues b" "gs = [] \<or> \<not> continues (hd (hd gs))"
  shows "foldr add_byte c gs = c # gs"
proof (cases c)
  case (Cons b bs)
  with assms foldr_rest [of bs gs] show ?thesis by (cases "bs = []"; cases gs) (auto simp: add_byte_def split: list.splits)
qed (use assms in simp)

lemma characters_concat: "char_list cs \<Longrightarrow> characters (concat cs) = cs"
proof (induction cs)
  case (Cons c cs)
  then have "char_list cs" and h: "cs = [] \<or> \<not> continues (hd (hd cs))" by (cases cs; auto simp: char_list_def)+
  then have "characters (concat cs) = cs" using Cons.IH by blast
  then show ?case using foldr_character [of c cs] Cons.prems h by (simp add: characters_def char_list_def)
qed (simp add: characters_def)

fun rendered_list :: "string list \<Rightarrow> boundary_state list \<Rightarrow> string list" where
  "rendered_list [] bs = []"
| "rendered_list (c # cs) [] = c # rendered_list cs []"
| "rendered_list (c # cs) (b # bs) = c # characters (gap_text b) @ rendered_list cs bs"

lemma concat_rendered: "concat (rendered_list cs bs) = render_characters cs bs"
  by (induction cs bs rule: rendered_list.induct) simp_all

lemma gap_characters:
  "characters (gap_text b) = (if b = No_Gap then [] else [gap_text b])" "b \<noteq> No_Gap \<Longrightarrow> space_character (gap_text b)"
  "gap_state (gap_text b) = b"
  by (cases b; simp add: characters_def add_byte_def space_character_def gap_state_def)+

lemma rendered_char_list: "char_list cs \<Longrightarrow> char_list (rendered_list cs bs)"
proof -
  have "(\<forall>c\<in>set (rendered_list cs bs). c \<in> set cs \<or> (\<exists>b. b \<noteq> No_Gap \<and> c = gap_text b))
      \<and> (\<forall>c\<in>set (tl (rendered_list cs bs)). c \<in> set (tl cs) \<or> (\<exists>b. b \<noteq> No_Gap \<and> c = gap_text b))"
    by (induction cs bs rule: rendered_list.induct) (force simp: gap_characters dest: list.set_sel(2))+
  moreover have "gap_text b \<noteq> [] \<and> tl (gap_text b) = [] \<and> \<not> continues (hd (gap_text b))" if "b \<noteq> No_Gap" for b
    using that by (cases b) (simp_all add: continues_def)
  ultimately show "char_list cs \<Longrightarrow> char_list (rendered_list cs bs)" by (fastforce simp: char_list_def)
qed

lemma characters_rendered: "char_list cs \<Longrightarrow> characters (render_characters cs bs) = rendered_list cs bs"
  by (metis characters_concat concat_rendered rendered_char_list)

lemma visible_rendered: "list_all (\<lambda>c. \<not> space_character c) cs \<Longrightarrow> filter (\<lambda>c. \<not> space_character c) (rendered_list cs bs) = cs"
  by (induction cs bs rule: rendered_list.induct) (simp_all add: gap_characters)

lemma rendered_gaps:
  "list_all (\<lambda>c. \<not> space_character c) cs \<Longrightarrow> length bs = length cs
    \<Longrightarrow> fst (foldl gap_step (gs, True, []) (tl (rendered_list (c # cs) bs))) = gs @ map gap_text bs"
proof (induction cs arbitrary: bs gs c)
  case (Cons d cs)
  then obtain b bs' where b: "bs = b # bs'" by (cases bs) auto
  have "foldl gap_step (gs, True, []) (characters (gap_text b)) = (gs, True, gap_text b)"
    by (simp add: gap_characters gap_step_def)
  moreover have "foldl gap_step (gs, True, gap_text b) [d] = (gs @ [gap_text b], True, [])"
    using Cons.prems by (simp add: gap_step_def)
  moreover obtain rest where r: "rendered_list (d # cs) bs' = d # rest" by (cases bs') simp_all
  moreover have "fst (foldl gap_step (gs @ [gap_text b], True, []) rest) = (gs @ [gap_text b]) @ map gap_text bs'"
    using Cons.IH [of bs' "gs @ [gap_text b]" d] Cons.prems b r by simp
  ultimately show ?case by (simp add: b)
qed simp

lemma SpacingCandidate_accepted:
  assumes "SpacingCandidate c = Inr d"
  shows "d = c" "list_all (\<lambda>c. \<not> space_character c) (characters (sc_character_sequence c))"
    "without_whitespace (sc_rendered_text c) = sc_character_sequence c"
    "length (sc_atom_ids c) = length (characters (sc_character_sequence c))" "distinct (sc_atom_ids c)"
    "length (sc_boundaries c) = length (sc_atom_ids c) - 1"
    "map (\<lambda>b. (bd_left b, bd_right b)) (sc_boundaries c) = zip (sc_atom_ids c) (tl (sc_atom_ids c))"
    "render_boundaries (sc_character_sequence c) (sc_boundaries c) = sc_rendered_text c"
    "mutable_code (sc_boundaries c) (sc_mutable c) = Inr ()" "spacing_fields_ok c"
  using assms by (auto simp: SpacingCandidate_def Let_def list_ex_iff list_all_iff split: if_splits)

lemma rendered_text_gaps:
  assumes "list_all (\<lambda>c. \<not> space_character c) cs" and "char_list cs" and "length bs = length cs - 1"
  shows "text_gaps (render_characters cs bs) = map gap_text bs"
proof (cases cs)
  case (Cons c cs')
  moreover obtain rest where "rendered_list cs bs = c # rest" using Cons by (cases bs) simp_all
  then have "foldl gap_step ([], False, []) (rendered_list cs bs) = foldl gap_step ([], True, []) (tl (rendered_list cs bs))"
    using assms(1) Cons by (simp add: gap_step_def)
  ultimately show ?thesis using rendered_gaps [of cs' bs "[]" c] assms
    by (simp add: text_gaps_def characters_rendered)
qed (use assms in \<open>simp add: text_gaps_def characters_def\<close>)

text \<open>The boundaries of an accepted candidate can be read from its rendered text.\<close>

lemma boundaries_reread:
  assumes "SpacingCandidate c = Inr c"
  shows "boundaries_from_rendered (sc_rendered_text c) (sc_atom_ids c) (map bd_whitespace (sc_boundaries c)) = Inr (sc_boundaries c)"
proof -
  note f = SpacingCandidate_accepted(2-10) [OF assms]
  let ?cs = "characters (sc_character_sequence c)" and ?bs = "map bd_state (sc_boundaries c)"
  have r: "sc_rendered_text c = render_characters ?cs ?bs" using f(7) by (simp add: render_boundaries_def)
  have gaps: "text_gaps (sc_rendered_text c) = map gap_text ?bs"
    unfolding r using f(1,3,5) by (intro rendered_text_gaps characters_list) simp_all
  have count: "length (filter (\<lambda>c. \<not> space_character c) (characters (sc_rendered_text c))) = length (sc_atom_ids c)"
    unfolding r using f(1,3) by (simp add: characters_rendered characters_list visible_rendered)
  have step: "i < length (sc_atom_ids c) \<and> Suc i < length (sc_atom_ids c)
      \<and> SpacingBoundary \<lparr>bd_left = sc_atom_ids c ! i, bd_right = sc_atom_ids c ! Suc i, bd_state = bd_state (sc_boundaries c ! i),
            bd_whitespace = bd_whitespace (sc_boundaries c ! i)\<rparr> = Inr (sc_boundaries c ! i)"
    if i: "i < length (sc_boundaries c)" for i
  proof -
    have n: "i < length (sc_atom_ids c) \<and> Suc i < length (sc_atom_ids c)" using i f(5) by linarith
    moreover have "(bd_left (sc_boundaries c ! i), bd_right (sc_boundaries c ! i)) = (sc_atom_ids c ! i, sc_atom_ids c ! Suc i)"
      using arg_cong [OF f(6), of "\<lambda>xs. xs ! i"] i n by (subst (asm) nth_zip) (auto simp: nth_tl)
    moreover have "boundary_ok (sc_boundaries c ! i)" using f(9) i by (simp add: spacing_fields_ok_def list_all_length)
    ultimately show ?thesis by (simp add: SpacingBoundary_def boundary_ok_def)
  qed
  have "traverse (\<lambda>(i, gap). bind_ok (at_index (sc_atom_ids c) i) (\<lambda>l. bind_ok (at_index (sc_atom_ids c) (i + 1)) (\<lambda>r.
      bind_ok (at_index (map bd_whitespace (sc_boundaries c)) i) (\<lambda>w.
        SpacingBoundary \<lparr>bd_left = l, bd_right = r, bd_state = gap_state gap, bd_whitespace = w\<rparr>)))) (enumerate 0 (map gap_text ?bs))
      = Inr (sc_boundaries c)"
    unfolding traverse_Inr_iff by (rule list_all2_all_nthI) (simp_all add: step nth_enumerate_eq gap_characters)
  then show ?thesis using count f(5) by (simp add: boundaries_from_rendered_def gaps)
qed

section \<open>The grid of a table candidate\<close>

lemma occupy_all: "distinct occ \<Longrightarrow> fold_ok occupy occ ps = Inr r \<longleftrightarrow> distinct (occ @ ps) \<and> r = occ @ ps"
proof (induction ps arbitrary: occ)
  case (Cons p ps)
  show ?case
  proof (cases "p \<in> set occ")
    case False
    then have "distinct (occ @ [p])" using Cons.prems by simp
    from Cons.IH [OF this] False show ?thesis by (simp add: occupy_def)
  qed (auto simp: occupy_def)
qed auto

lemma occupy_squares:
  "distinct occ \<Longrightarrow> fold_ok (fold_ok occupy) occ qs = Inr r \<longleftrightarrow> distinct (occ @ concat qs) \<and> r = occ @ concat qs"
proof (induction qs arbitrary: occ)
  case (Cons q qs)
  show ?case
  proof (cases "distinct (occ @ q)")
    case True
    then have "fold_ok occupy occ q = Inr (occ @ q)" using occupy_all [OF Cons.prems, of q] by simp
    then show ?thesis using Cons.IH [OF True] by simp
  next
    case False
    then have "fold_ok occupy occ q \<noteq> Inr x" for x using occupy_all [OF Cons.prems, of q x] by blast
    then show ?thesis using False by (cases "fold_ok occupy occ q") auto
  qed
qed auto

lemma table_grid_complete_iff:
  "assert_table_grid_complete t = Inr () \<longleftrightarrow> distinct (concat (map candidate_squares (tc_cells t)))
     \<and> set (concat (map candidate_squares (tc_cells t))) = {0..<tc_row_count t} \<times> {0..<tc_column_count t}"
  using occupy_squares [of "[]" "map candidate_squares (tc_cells t)"] by (auto simp: assert_table_grid_complete_def)

end
