(* ===== verification/Patterns.thy ===== *)
theory Patterns
  imports Characters
begin

text \<open>
  The part of Python's \<open>re\<close> that the spacing code uses: patterns over the characters of a text, matched by backtracking.
  A pattern gives the end positions of its matches at a position, in the order in which the engine tries them, so that
  the first one is the match. The lemmas show that matches stay inside the text and go forward.
\<close>

section \<open>Matching\<close>

text \<open>A class of characters, sequence, alternation, greedy repetition with bounds, and assertions about what follows and
  about the characters next to the position.\<close>

datatype pattern =
    Cls "string \<Rightarrow> bool"
  | Seq pattern pattern
  | Alt pattern pattern
  | Rep pattern nat "nat option"
  | Ahead pattern
  | Not_Ahead "string \<Rightarrow> bool"
  | Not_Behind "string \<Rightarrow> bool"

text \<open>The ends of a repetition, most rounds first; every round consumes a character, so the length of the rest bounds the rounds.\<close>

fun rep_ends :: "(nat \<Rightarrow> nat list) \<Rightarrow> nat \<Rightarrow> nat \<Rightarrow> nat option \<Rightarrow> nat \<Rightarrow> nat list" where
  "rep_ends f 0 lo hi i = (if lo = 0 then [i] else [])"
| "rep_ends f (Suc n) lo hi i =
     (if hi = Some 0 then [] else concat (map (rep_ends f n (lo - 1) (map_option (\<lambda>h. h - 1) hi)) (filter (\<lambda>j. i < j) (f i))))
     @ (if lo = 0 then [i] else [])"

primrec ends :: "pattern \<Rightarrow> string list \<Rightarrow> nat \<Rightarrow> nat list" where
  "ends (Cls f) cs i = (if i < length cs \<and> f (cs ! i) then [Suc i] else [])"
| "ends (Seq p q) cs i = concat (map (ends q cs) (ends p cs i))"
| "ends (Alt p q) cs i = ends p cs i @ ends q cs i"
| "ends (Rep p lo hi) cs i = rep_ends (ends p cs) (length cs - i) lo hi i"
| "ends (Ahead p) cs i = (if ends p cs i = [] then [] else [i])"
| "ends (Not_Ahead f) cs i = (if i < length cs \<and> f (cs ! i) then [] else [i])"
| "ends (Not_Behind f) cs i = (if 0 < i \<and> f (cs ! (i - 1)) then [] else [i])"

text \<open>\<open>re.search\<close> finds a match, \<open>re.fullmatch\<close> matches the whole text, \<open>re.finditer\<close> gives the matches from left to right (the
  patterns never match the empty text).\<close>

definition search_pattern :: "pattern \<Rightarrow> string list \<Rightarrow> bool" where
  "search_pattern p cs \<longleftrightarrow> list_ex (\<lambda>i. ends p cs i \<noteq> []) [0..<Suc (length cs)]"

definition full_match :: "pattern \<Rightarrow> string list \<Rightarrow> bool" where
  "full_match p cs \<longleftrightarrow> length cs \<in> set (ends p cs 0)"

function find_matches :: "pattern \<Rightarrow> string list \<Rightarrow> nat \<Rightarrow> (nat \<times> nat) list" where
  "find_matches p cs i =
     (if length cs < i then []
      else case ends p cs i of [] \<Rightarrow> find_matches p cs (Suc i) | e # es \<Rightarrow> (i, e) # find_matches p cs (max e (Suc i)))"
  by pat_completeness auto

termination
  by (relation "measure (\<lambda>(p, cs, i). Suc (length cs) - i)") auto

declare find_matches.simps [simp del]

definition match_text :: "string list \<Rightarrow> nat \<times> nat \<Rightarrow> string" where
  "match_text cs m = concat (take (snd m - fst m) (drop (fst m) cs))"

section \<open>Classes of characters\<close>

definition one_of :: "string \<Rightarrow> string \<Rightarrow> bool" where
  "one_of s c \<longleftrightarrow> (case c of [x] \<Rightarrow> x \<in> set s | _ \<Rightarrow> False)"

definition ascii_letter :: "string \<Rightarrow> bool" where
  "ascii_letter c \<longleftrightarrow> (case c of [x] \<Rightarrow> is_upper x \<or> is_lower x | _ \<Rightarrow> False)"

definition ascii_digit :: "string \<Rightarrow> bool" where
  "ascii_digit c \<longleftrightarrow> (case c of [x] \<Rightarrow> is_digit x | _ \<Rightarrow> False)"

definition ascii_alnum :: "string \<Rightarrow> bool" where
  "ascii_alnum c \<longleftrightarrow> ascii_letter c \<or> ascii_digit c"

abbreviation literal :: "string \<Rightarrow> pattern" where
  "literal c \<equiv> Cls (\<lambda>x. x = c)"

abbreviation many :: "(string \<Rightarrow> bool) \<Rightarrow> pattern" where
  "many f \<equiv> Rep (Cls f) 0 None"

abbreviation some_of :: "(string \<Rightarrow> bool) \<Rightarrow> pattern" where
  "some_of f \<equiv> Rep (Cls f) 1 None"

fun seq :: "pattern list \<Rightarrow> pattern" where
  "seq [] = Ahead (Rep (Cls (\<lambda>_. True)) 0 (Some 0))"
| "seq [p] = p"
| "seq (p # q # ps) = Seq p (seq (q # ps))"

fun alt :: "pattern \<Rightarrow> pattern list \<Rightarrow> pattern" where
  "alt p [] = p"
| "alt p (q # qs) = Alt p (alt q qs)"

section \<open>Matches stay inside\<close>

lemma rep_ends_range:
  assumes "\<And>i j. i \<le> m \<Longrightarrow> j \<in> set (f i) \<Longrightarrow> i \<le> j \<and> j \<le> m"
  shows "i \<le> m \<Longrightarrow> j \<in> set (rep_ends f n lo hi i) \<Longrightarrow> i \<le> j \<and> j \<le> m"
proof (induction n arbitrary: lo hi i)
  case (Suc n)
  from Suc.prems(2) have "j = i \<or> (\<exists>k\<in>set (f i). j \<in> set (rep_ends f n (lo - 1) (map_option (\<lambda>h. h - 1) hi) k))"
    by (cases "hi = Some 0"; cases "lo = 0") auto
  then consider "j = i" | k where "k \<in> set (f i)" "j \<in> set (rep_ends f n (lo - 1) (map_option (\<lambda>h. h - 1) hi) k)" by blast
  then show ?case
  proof cases
    case 2
    have "i \<le> k \<and> k \<le> m" by (rule assms [OF Suc.prems(1) 2(1)])
    moreover from this have "k \<le> j \<and> j \<le> m" using Suc.IH [OF _ 2(2)] by blast
    ultimately show ?thesis by linarith
  qed (use Suc.prems in simp)
qed (simp split: if_splits)

lemma ends_range: "i \<le> length cs \<Longrightarrow> j \<in> set (ends p cs i) \<Longrightarrow> i \<le> j \<and> j \<le> length cs"
proof (induction p arbitrary: i j)
  case (Seq p q)
  from Seq.prems(2) obtain k where k: "k \<in> set (ends p cs i)" "j \<in> set (ends q cs k)" by auto
  have "i \<le> k \<and> k \<le> length cs" by (rule Seq.IH(1) [OF Seq.prems(1) k(1)])
  moreover from this have "k \<le> j \<and> j \<le> length cs" using Seq.IH(2) [OF _ k(2)] by blast
  ultimately show ?case by linarith
next
  case (Alt p q)
  from Alt.prems(2) have "j \<in> set (ends p cs i) \<or> j \<in> set (ends q cs i)" by simp
  then show ?case using Alt.IH Alt.prems(1) by blast
next
  case (Rep p lo hi)
  show ?case by (rule rep_ends_range [OF Rep.IH Rep.prems(1)]) (use Rep.prems(2) in simp_all)
next
  case (Ahead p)
  from Ahead.prems show ?case by (cases "ends p cs i") auto
qed (auto split: if_splits)

lemma find_matches_range:
  "m \<in> set (find_matches p cs i) \<Longrightarrow> i \<le> fst m \<and> fst m \<le> snd m \<and> snd m \<le> length cs"
proof (induction p cs i rule: find_matches.induct)
  case (1 p cs i)
  show ?case
  proof (cases "length cs < i")
    case True
    then show ?thesis using 1(3) by (simp add: find_matches.simps [of p cs i])
  next
    case False
    show ?thesis
    proof (cases "ends p cs i")
      case Nil
      then show ?thesis using 1(1) [OF False Nil] 1(3) False by (simp add: find_matches.simps [of p cs i])
    next
      case (Cons e es)
      then have "i \<le> e \<and> e \<le> length cs" using ends_range [of i cs e p] False by simp
      moreover have "m = (i, e) \<or> m \<in> set (find_matches p cs (max e (Suc i)))"
        using 1(3) Cons False by (simp add: find_matches.simps [of p cs i])
      ultimately show ?thesis using 1(2) [OF False Cons] by auto
    qed
  qed
qed

end
