(* ===== verification/Spacing_Repair.thy ===== *)
theory Spacing_Repair
  imports Candidates Patterns Llm_Service
begin

text \<open>
  The contracts of a whitespace-only repair (\<open>semantic/spacing_repair.py\<close>): the defects of a rendered spacing, the candidate built
  from a proposal of the provider, the fallback, and the messages of the generation and the verification. The lemmas
  show that a built candidate has the characters, the hard breaks and the fixed boundaries of its anchor.
\<close>

section \<open>Patterns\<close>

definition ValidationCode :: "string \<Rightarrow> bool" where
  "ValidationCode s \<longleftrightarrow> code_pattern s"

definition ident_char :: "string \<Rightarrow> bool" where
  "ident_char c \<longleftrightarrow> ascii_alnum c \<or> c = ''_''"

definition IDENTIFIER :: pattern where
  "IDENTIFIER = seq [Cls ascii_letter, many ascii_alnum, Rep (seq [literal ''_'', some_of ascii_alnum]) 1 None]"

definition IDENTIFIER_WHITESPACE :: pattern where
  "IDENTIFIER_WHITESPACE = Alt (seq [Cls space_character, literal ''_'']) (seq [literal ''_'', Cls space_character])"

definition QUALIFIED_IDENTIFIER :: pattern where
  "QUALIFIED_IDENTIFIER =
     seq [Cls (\<lambda>c. ascii_letter c \<or> c = ''_''), many ident_char, Rep (seq [literal ''.'', some_of ident_char]) 1 None]"

definition url_char :: "string \<Rightarrow> bool" where
  "url_char c \<longleftrightarrow> ascii_alnum c \<or> one_of (''._~:/?#@!$&()*+,;=%-'' @ [CHR 0x27]) c"

definition domain_char :: "string \<Rightarrow> bool" where
  "domain_char c \<longleftrightarrow> ascii_alnum c \<or> c = ''-''"

text \<open>\<open>\d\<close> matches the decimal digits of Unicode, a table of the library. Letters match the other case under \<open>IGNORECASE\<close>, a class of all ASCII
  letters four more (dotted capital and dotless small I, long S, the Kelvin sign), \<open>k\<close> the Kelvin sign and \<open>s\<close> the long S.\<close>

definition fold_letters :: "string list" where
  "fold_letters = [[CHR 0xC4, CHR 0xB0], [CHR 0xC4, CHR 0xB1], [CHR 0xC5, CHR 0xBF], [CHR 0xE2, CHR 0x84, CHR 0xAA]]"

definition alnum_ci :: "string \<Rightarrow> bool" where
  "alnum_ci c \<longleftrightarrow> ascii_alnum c \<or> c \<in> set fold_letters"

definition letter_ci :: "char \<Rightarrow> pattern" where
  "letter_ci l = Cls (\<lambda>c. map lower_char c = [l] \<or> l = CHR ''k'' \<and> c = [CHR 0xE2, CHR 0x84, CHR 0xAA]
                        \<or> l = CHR ''s'' \<and> c = [CHR 0xC5, CHR 0xBF])"

definition word_ci :: "string \<Rightarrow> pattern" where
  "word_ci w = seq (map letter_ci w)"

definition celsius :: string where "celsius = [CHR 0xE2, CHR 0x84, CHR 0x83]"
definition degree :: string where "degree = [CHR 0xC2, CHR 0xB0]"

definition unit_pattern :: pattern where
  "unit_pattern = alt (literal ''%'') ([literal celsius, seq [literal degree, Alt (letter_ci (CHR ''c'')) (letter_ci (CHR ''f''))]]
     @ map word_ci [''kg'', ''mg'', ''g'', ''km'', ''cm'', ''mm'', ''m'', ''ms'', ''s'', ''h'', ''hz'', ''kb'', ''mb'', ''gb'', ''tb''])"

definition opt :: "pattern \<Rightarrow> pattern" where
  "opt p = Rep p 0 (Some 1)"

definition times :: "nat \<Rightarrow> nat \<Rightarrow> (string \<Rightarrow> bool) \<Rightarrow> pattern" where
  "times lo hi f = Rep (Cls f) lo (Some hi)"

definition PROTECTED_TOKEN_PATTERNS :: "(string \<Rightarrow> bool) \<Rightarrow> pattern list" where
  "PROTECTED_TOKEN_PATTERNS digit =
     [seq [Cls ascii_letter, many (\<lambda>c. ascii_alnum c \<or> one_of ''+.-'' c), literal '':'', literal ''/'', literal ''/'', some_of url_char],
      seq [some_of (\<lambda>c. ascii_alnum c \<or> one_of ''._%+-'' c), literal ''@'', some_of (\<lambda>c. ascii_alnum c \<or> one_of ''.-'' c),
           literal ''.'', times 2 63 ascii_letter],
      seq [times 4 4 digit, Cls (one_of ''-/.''), times 1 2 digit, Cls (one_of ''-/.''), times 1 2 digit],
      seq [times 1 2 digit, literal '':'', times 2 2 digit, opt (seq [literal '':'', times 2 2 digit])],
      IDENTIFIER,
      seq [Not_Behind ascii_alnum, Ahead (Rep (Cls domain_char) 4 None), Ahead (seq [many domain_char, Cls ascii_letter]),
           Ahead (seq [many domain_char, Cls digit]), some_of ascii_alnum,
           Rep (seq [literal ''-'', some_of ascii_alnum]) 0 None, Not_Ahead ascii_alnum],
      seq [Not_Behind alnum_ci, some_of digit, opt (seq [Cls (one_of ''.,''), some_of digit]), unit_pattern, Not_Ahead alnum_ci]]"

definition spaced :: "string \<Rightarrow> pattern list" where
  "spaced c = [many space_character, literal c, many space_character]"

definition LOOSE_PROTECTED_TOKEN_PATTERNS :: "(string \<Rightarrow> bool) \<Rightarrow> pattern list" where
  "LOOSE_PROTECTED_TOKEN_PATTERNS digit =
     [seq ([Cls ascii_letter, many (\<lambda>c. ascii_alnum c \<or> one_of ''+.-'' c), many space_character, literal '':'', many space_character,
            literal ''/'', many space_character, literal ''/'', many space_character, some_of url_char]),
      seq ([some_of (\<lambda>c. ascii_alnum c \<or> one_of ''._%+-'' c)] @ spaced ''@'' @ [some_of domain_char,
            Rep (seq (spaced ''.'' @ [some_of domain_char])) 1 None]),
      seq [times 4 4 digit, many space_character, Cls (one_of ''-/.''), many space_character, times 1 2 digit,
            many space_character, Cls (one_of ''-/.''), many space_character, times 1 2 digit],
      seq ([times 1 2 digit] @ spaced '':'' @ [times 2 2 digit, opt (seq (spaced '':'' @ [times 2 2 digit]))])]"

definition SPACE_BEFORE_PUNCTUATION :: pattern where
  "SPACE_BEFORE_PUNCTUATION = seq [some_of space_character, Cls (\<lambda>c. c = celsius \<or> c = degree \<or> one_of ''%,:;.!?)}]'' c)]"

definition SPACE_AFTER_OPEN :: pattern where
  "SPACE_AFTER_OPEN = seq [Cls (one_of ''({[''), some_of space_character]"

section \<open>Defects\<close>

definition line_boundary :: "string \<Rightarrow> bool" where
  "line_boundary c \<longleftrightarrow>
     (case map (of_char :: char \<Rightarrow> nat) c of
        [n] \<Rightarrow> 10 \<le> n \<and> n \<le> 13 \<or> 28 \<le> n \<and> n \<le> 30
      | [m, n] \<Rightarrow> m = 194 \<and> n = 133
      | [l, m, n] \<Rightarrow> l = 226 \<and> m = 128 \<and> (n = 168 \<or> n = 169)
      | _ \<Rightarrow> False)"

text \<open>\<open>str.splitlines\<close>: a line feed after a carriage return belongs to the same boundary.\<close>

fun split_lines :: "string list \<Rightarrow> string list \<Rightarrow> string list list" where
  "split_lines cur [] = (if cur = [] then [] else [cur])"
| "split_lines cur [c] = (if line_boundary c then [cur] else [cur @ [c]])"
| "split_lines cur (c # d # cs) =
     (if \<not> line_boundary c then split_lines (cur @ [c]) (d # cs)
      else if c = [CHR 0x0D] \<and> d = [CHR 0x0A] then cur # split_lines [] cs
      else cur # split_lines [] (d # cs))"

definition strip_characters :: "string list \<Rightarrow> string list" where
  "strip_characters cs = rev (dropWhile space_character (rev (dropWhile space_character cs)))"

definition has_qualified_identifier_split :: "string list \<Rightarrow> bool" where
  "has_qualified_identifier_split cs \<longleftrightarrow>
     list_ex (\<lambda>l. let s = strip_characters l in list_ex space_character s
        \<and> full_match QUALIFIED_IDENTIFIER (filter (\<lambda>c. \<not> space_character c) s)) (split_lines [] cs)"

definition protected_token_occurrences :: "(string \<Rightarrow> bool) \<Rightarrow> string list \<Rightarrow> string list" where
  "protected_token_occurrences digit cs =
     map (match_text cs) (sorted_set (concat (map (\<lambda>p. find_matches p cs 0) (PROTECTED_TOKEN_PATTERNS digit))))"

definition has_protected_token_split :: "(string \<Rightarrow> bool) \<Rightarrow> string list \<Rightarrow> string list option \<Rightarrow> bool" where
  "has_protected_token_split digit cs expected \<longleftrightarrow>
     (case expected of
        None \<Rightarrow> False
      | Some ts \<Rightarrow> list_ex (\<lambda>t. count_list (protected_token_occurrences digit cs) t < count_list ts t) ts)
     \<or> list_ex (\<lambda>p. list_ex (\<lambda>m. list_ex space_character (take (snd m - fst m) (drop (fst m) cs))) (find_matches p cs 0))
         (LOOSE_PROTECTED_TOKEN_PATTERNS digit)"

definition control_space :: "string \<Rightarrow> bool" where
  "control_space c \<longleftrightarrow> space_character c \<and> c \<noteq> '' '' \<and> c \<noteq> [CHR 0x0A]"

definition spacing_defect_codes :: "(string \<Rightarrow> bool) \<Rightarrow> spacing_candidate \<Rightarrow> string list" where
  "spacing_defect_codes digit c =
     (let cs = characters (sc_rendered_text c); ls = split_lines [] cs; lines = (if ls = [] then [cs] else ls)
      in (if list_ex control_space cs then [''CONTROL_WHITESPACE_SEPARATOR''] else [])
       @ (if list_ex (search_pattern IDENTIFIER_WHITESPACE) lines then [''IDENTIFIER_WHITESPACE_SPLIT'']
          else if has_qualified_identifier_split cs then [''QUALIFIED_IDENTIFIER_WHITESPACE_SPLIT'']
          else if list_ex (\<lambda>l. has_protected_token_split digit l None) lines then [''PROTECTED_TOKEN_WHITESPACE_SPLIT''] else [])
       @ (if list_ex (search_pattern SPACE_BEFORE_PUNCTUATION) lines then [''PUNCTUATION_WHITESPACE_BEFORE''] else [])
       @ (if list_ex (search_pattern SPACE_AFTER_OPEN) lines then [''PUNCTUATION_WHITESPACE_AFTER_OPEN''] else []))"

section \<open>Proposals and verifications\<close>

datatype repair_reason = Korean_Morphology | Identifier_Integrity | Punctuation_Boundary | Table_Cell_Boundary | Line_Boundary

record proposal =
  pp_rendered_text :: string
  pp_confidence :: rat
  pp_repair_reasons :: "repair_reason list"

definition SpacingRepairProposal :: "proposal \<Rightarrow> proposal result" where
  "SpacingRepairProposal p =
     (if 0 \<le> pp_confidence p \<and> pp_confidence p \<le> 1 \<and> length (pp_repair_reasons p) \<le> 5 then Inr p else Inl field_error)"

record verification =
  vr_candidate_id :: string
  vr_confidence :: rat
  vr_validation_codes :: "string list"

definition SpacingVerification :: "verification \<Rightarrow> verification result" where
  "SpacingVerification v =
     (if CandidateId (vr_candidate_id v) \<and> 0 \<le> vr_confidence v \<and> vr_confidence v \<le> 1
         \<and> list_all ValidationCode (vr_validation_codes v) \<and> length (vr_validation_codes v) \<le> 4 then Inr v else Inl field_error)"

text \<open>The schema sent with a verification; the schema of a proposal is generated by the library.\<close>

definition spacing_verification_schema :: "string list \<Rightarrow> json result" where
  "spacing_verification_schema ids =
     (if ids = [] \<or> \<not> distinct ids then Inl (ValueError ''SPACING_VERIFICATION_ALLOWLIST_INVALID'')
      else Inr (JObj [(''type'', JStr ''object''),
        (''properties'', JObj
           [(''candidate_id'', JObj [(''type'', JStr ''string''), (''enum'', JArr (map JStr ids))]),
            (''confidence'', JObj [(''type'', JStr ''number''), (''minimum'', JInt 0), (''maximum'', JInt 1)]),
            (''validation_codes'', JObj [(''type'', JStr ''array''),
               (''items'', JObj [(''type'', JStr ''string''), (''pattern'', JStr ''^[A-Z][A-Z0-9_]{0,127}$'')]), (''maxItems'', JInt 4)])]),
        (''required'', JArr [JStr ''candidate_id'', JStr ''confidence'', JStr ''validation_codes'']),
        (''additionalProperties'', JBool False)]))"

section \<open>The candidate of a proposal\<close>

text \<open>The hashes of the platform, the text of a float, and the decimal digits of Unicode.\<close>

record spacing_env =
  sp_library :: library
  sp_repr :: "rat \<Rightarrow> string"
  sp_digit :: "string \<Rightarrow> bool"

definition hard_break_pairs :: "spacing_candidate \<Rightarrow> (string \<times> string) list" where
  "hard_break_pairs c = map (\<lambda>b. (bd_left b, bd_right b)) (filter (\<lambda>b. bd_state b = Hard_Break) (sc_boundaries c))"

definition unit_interval :: "rat \<Rightarrow> rat" where
  "unit_interval x = max 0 (min 1 x)"

definition raise_if :: "bool \<Rightarrow> string \<Rightarrow> unit result" where
  "raise_if b code = (if b then Inl (ValueError code) else Inr ())"

lemma raise_if_Inr [simp]: "raise_if b code = Inr u \<longleftrightarrow> \<not> b"
  by (simp add: raise_if_def)

definition mutable_indexes :: "spacing_candidate \<Rightarrow> nat set" where
  "mutable_indexes c = (case sc_mutable c of None \<Rightarrow> {0..<length (sc_boundaries c)} | Some ix \<Rightarrow> nat ` set ix)"

definition changes_fixed_boundary :: "spacing_candidate \<Rightarrow> spacing_candidate \<Rightarrow> bool result" where
  "changes_fixed_boundary anchor generated =
     bind_ok (traverse (\<lambda>(i, b). bind_ok (at_index (sc_boundaries generated) i) (\<lambda>g. Inr (bd_state g \<noteq> bd_state b)))
                (filter (\<lambda>(i, b). i \<notin> mutable_indexes anchor) (enumerate 0 (sc_boundaries anchor))))
       (\<lambda>changes. Inr (list_ex id changes))"

definition build_generated_candidate :: "spacing_env \<Rightarrow> spacing_candidate \<Rightarrow> string \<Rightarrow> rat \<Rightarrow> spacing_candidate result" where
  "build_generated_candidate E anchor rendered confidence =
     (let cs = characters rendered
      in bind_ok (raise_if (without_whitespace rendered \<noteq> sc_character_sequence anchor) ''SPACING_REPAIR_CHARACTER_MISMATCH'') (\<lambda>_.
         bind_ok (raise_if (list_ex control_space cs) ''SPACING_REPAIR_CONTROL_SEPARATOR'') (\<lambda>_.
         bind_ok (raise_if (search_pattern IDENTIFIER_WHITESPACE cs) ''SPACING_REPAIR_IDENTIFIER_SPLIT'') (\<lambda>_.
         bind_ok (raise_if (has_protected_token_split (sp_digit E) cs
                     (Some (protected_token_occurrences (sp_digit E) (characters (sc_rendered_text anchor)))))
                   ''SPACING_REPAIR_PROTECTED_TOKEN_SPLIT'') (\<lambda>_.
         bind_ok (make_spacing_candidate (sp_library E) (sc_region_id anchor) rendered (sc_character_sequence anchor) (sc_atom_ids anchor)
                    (map bd_whitespace (sc_boundaries anchor)) (unit_interval confidence)
                    [(''llm_generated_spacing'', unit_interval confidence)] (sc_mutable anchor)) (\<lambda>generated.
         bind_ok (raise_if (hard_break_pairs generated \<noteq> hard_break_pairs anchor) ''SPACING_REPAIR_HARD_LINE_BOUNDARY_MISMATCH'') (\<lambda>_.
         bind_ok (changes_fixed_boundary anchor generated) (\<lambda>changed.
         bind_ok (raise_if changed ''SPACING_REPAIR_IMMUTABLE_BOUNDARY_MISMATCH'') (\<lambda>_. Inr generated)))))))))"

fun spacing_of :: "candidate \<Rightarrow> spacing_candidate option" where
  "spacing_of (Spacing_Cand c) = Some c"
| "spacing_of _ = None"

text \<open>\<open>max\<close> with a key: the first of the largest.\<close>

fun largest :: "('a \<Rightarrow> 'b::linorder) \<Rightarrow> 'a list \<Rightarrow> 'a result" where
  "largest f [] = Inl (ValueError ''max() iterable argument is empty'')"
| "largest f (x # xs) = Inr (fold (\<lambda>y m. if f y > f m then y else m) xs x)"

definition fallback_key :: "spacing_candidate \<Rightarrow> bool \<times> rat \<times> string" where
  "fallback_key c = (dict_get (sc_features c) ''source_spacing'' \<noteq> None, sc_score c, sc_candidate_id c)"

definition fallback_spacing_candidate :: "(string \<Rightarrow> bool) \<Rightarrow> candidate_set \<Rightarrow> spacing_candidate result" where
  "fallback_spacing_candidate digit s =
     (let cs = somes (map spacing_of (cs_candidates s)); valid = filter (\<lambda>c. spacing_defect_codes digit c = []) cs
      in bind_ok (raise_if (cs_decision_type s \<noteq> D_Spacing \<or> cs = []) ''SPACING_REPAIR_FALLBACK_UNAVAILABLE'') (\<lambda>_.
         bind_ok (raise_if (valid = []) ''SPACING_REPAIR_SAFE_FALLBACK_UNAVAILABLE'') (\<lambda>_. largest fallback_key valid)))"

section \<open>Messages\<close>

text \<open>\<open>json.dumps\<close> with sorted keys and compact separators.\<close>

definition json_text :: "py_value \<Rightarrow> string result" where
  "json_text v = bind_ok (normalize \<lparr>lib_nfc = id, lib_sha256 = id\<rparr> [] v) (\<lambda>j. Inr (dumps (sort_keys j)))"

definition string_seq :: "string list \<Rightarrow> py_value" where
  "string_seq xs = PSeq (map PStr xs)"

definition indexes_value :: "int list option \<Rightarrow> py_value" where
  "indexes_value ix = (case ix of None \<Rightarrow> PNone | Some xs \<Rightarrow> PSeq (map PInt xs))"

definition protected_tokens :: "(string \<Rightarrow> bool) \<Rightarrow> string \<Rightarrow> string list" where
  "protected_tokens digit s =
     sort_key (\<lambda>t. (- int (length (characters t)), t)) (remdups (protected_token_occurrences digit (characters s)))"

definition validate_scope :: "candidate_set \<Rightarrow> spacing_candidate list \<Rightarrow> spacing_candidate \<Rightarrow> unit result" where
  "validate_scope s cs anchor =
     bind_ok (raise_if (cs_decision_type s \<noteq> D_Spacing \<or> sc_region_id anchor \<noteq> cs_region_id s) ''SPACING_REPAIR_SCOPE_MISMATCH'') (\<lambda>_.
     bind_ok (raise_if (cs = [] \<or> (\<exists>c\<in>set cs. sc_region_id c \<noteq> cs_region_id s)) ''SPACING_REPAIR_SCOPE_MISMATCH'') (\<lambda>_.
     bind_ok (raise_if (\<exists>c\<in>set cs. sc_character_sequence c \<noteq> sc_character_sequence anchor) ''SPACING_REPAIR_CHARACTER_MISMATCH'') (\<lambda>_.
     raise_if (\<exists>c\<in>set cs. sc_mutable c \<noteq> sc_mutable anchor) ''SPACING_REPAIR_MUTABLE_SCOPE_MISMATCH'')))"

definition boundary_changes :: "spacing_candidate \<Rightarrow> spacing_candidate \<Rightarrow> py_value result" where
  "boundary_changes anchor c =
     bind_ok (traverse (\<lambda>(i, b). bind_ok (at_index (sc_boundaries c) i) (\<lambda>d.
                Inr (if bd_state d = bd_state b then None
                     else Some (PDict [(''index'', PInt (int i)), (''anchor'', PStr (state_name (bd_state b))),
                                 (''candidate'', PStr (state_name (bd_state d)))]))))
                (enumerate 0 (sc_boundaries anchor))) (\<lambda>changes. Inr (PSeq (somes changes)))"

definition offered_candidate :: "spacing_env \<Rightarrow> spacing_candidate \<Rightarrow> spacing_candidate \<Rightarrow> py_value result" where
  "offered_candidate E anchor c =
     bind_ok (boundary_changes anchor c) (\<lambda>changes.
       Inr (PDict [(''candidate_id'', PStr (sc_candidate_id c)), (''rendered_text'', PStr (sc_rendered_text c)),
         (''score'', PFloat (sp_repr E (sc_score c))), (''defect_codes'', string_seq (spacing_defect_codes (sp_digit E) c)),
         (''boundary_changes_from_anchor'', changes)]))"

definition generation_request :: "spacing_env \<Rightarrow> candidate_set \<Rightarrow> spacing_candidate list \<Rightarrow> spacing_candidate \<Rightarrow> py_value result" where
  "generation_request E s cs anchor =
     bind_ok (validate_scope s cs anchor) (\<lambda>_.
     bind_ok (traverse (offered_candidate E anchor) cs) (\<lambda>offered.
       Inr (PDict [(''task'', PStr ''generate_whitespace_repair''), (''candidate_set_id'', PStr (cs_candidate_set_id s)),
         (''region_id'', PStr (cs_region_id s)), (''exact_character_sequence'', PStr (sc_character_sequence anchor)),
         (''protected_identifiers'', string_seq (protected_tokens (sp_digit E) (sc_rendered_text anchor))),
         (''hard_line_boundary_indexes'',
            PSeq (map (\<lambda>(i, b). PInt (int i)) (filter (\<lambda>(i, b). bd_state b = Hard_Break) (enumerate 0 (sc_boundaries anchor))))),
         (''mutable_boundary_indexes'', indexes_value (sc_mutable anchor)),
         (''anchor_candidate_id'', PStr (sc_candidate_id anchor)), (''candidates'', PSeq offered)])))"

text \<open>The offered candidates once per identifier: the place of the first, the value of the last.\<close>

definition verification_request :: "spacing_env \<Rightarrow> candidate_set \<Rightarrow> spacing_candidate list \<Rightarrow> spacing_candidate \<Rightarrow> py_value result" where
  "verification_request E s cs generated =
     bind_ok (at_index cs 0) (\<lambda>anchor.
     bind_ok (validate_scope s cs anchor) (\<lambda>_.
     bind_ok (raise_if (sc_region_id generated \<noteq> cs_region_id s) ''SPACING_REPAIR_SCOPE_MISMATCH'') (\<lambda>_.
       Inr (PDict [(''task'', PStr ''verify_whitespace_repair''), (''candidate_set_id'', PStr (cs_candidate_set_id s)),
         (''region_id'', PStr (cs_region_id s)), (''exact_character_sequence'', PStr (sc_character_sequence generated)),
         (''protected_identifiers'', string_seq (protected_tokens (sp_digit E) (sc_rendered_text generated))),
         (''mutable_boundary_indexes'', indexes_value (sc_mutable generated)),
         (''generated_candidate_id'', PStr (sc_candidate_id generated)),
         (''candidates'', PSeq (map (\<lambda>c. PDict [(''candidate_id'', PStr (sc_candidate_id c)),
              (''rendered_text'', PStr (sc_rendered_text c)), (''defect_codes'', string_seq (spacing_defect_codes (sp_digit E) c)),
              (''generated'', PBool (sc_candidate_id c = sc_candidate_id generated))])
            (dict_values (dict_of sc_candidate_id id (cs @ [generated])))))]))))"

definition request_messages :: "string \<Rightarrow> py_value result \<Rightarrow> text_message list result" where
  "request_messages contract request =
     bind_ok request (\<lambda>v. bind_ok (json_text v) (\<lambda>t.
       Inr [\<lparr>tm_role = ''system'', tm_content = contract\<rparr>, \<lparr>tm_role = ''user'', tm_content = t\<rparr>]))"

definition GENERATION_SYSTEM_CONTRACT :: string where
  "GENERATION_SYSTEM_CONTRACT = join [CHR 0x0A]
     [''You repair whitespace only. Return one JSON object matching the'',
      ''schema.'',
      ''Preserve the exact non-whitespace Unicode sequence and every hard line boundary. Never add, remove,'',
      ''replace, or reorder a character. Keep identifiers containing underscores contiguous. Do not flatten'',
      ''or reinterpret tables. Use Korean morphology, punctuation, and line context only to place spaces.'']"

definition VERIFICATION_SYSTEM_CONTRACT :: string where
  "VERIFICATION_SYSTEM_CONTRACT = join [CHR 0x0A]
     [''You independently verify whitespace candidates. Return one JSON'',
      ''object matching the schema and select only an offered candidate ID. Reject character mutation,'',
      ''identifier splitting, punctuation defects, or changed hard line boundaries. Confidence measures'',
      ''whether the selected rendering is correct, not whether its characters are conserved. Return an'',
      ''empty validation_codes array when the selected candidate has no defects; otherwise list defect'',
      ''codes only.'']"

definition spacing_generation_messages ::
  "spacing_env \<Rightarrow> candidate_set \<Rightarrow> spacing_candidate list \<Rightarrow> spacing_candidate \<Rightarrow> text_message list result" where
  "spacing_generation_messages E s cs anchor = request_messages GENERATION_SYSTEM_CONTRACT (generation_request E s cs anchor)"

definition spacing_verification_messages ::
  "spacing_env \<Rightarrow> candidate_set \<Rightarrow> spacing_candidate list \<Rightarrow> spacing_candidate \<Rightarrow> text_message list result" where
  "spacing_verification_messages E s cs generated = request_messages VERIFICATION_SYSTEM_CONTRACT (verification_request E s cs generated)"

section \<open>What a repair keeps\<close>

definition fixed_boundaries_kept :: "spacing_candidate \<Rightarrow> spacing_candidate \<Rightarrow> bool" where
  "fixed_boundaries_kept anchor g \<longleftrightarrow>
     (\<forall>i<length (sc_boundaries anchor). i \<notin> mutable_indexes anchor \<longrightarrow> bd_state (sc_boundaries g ! i) = bd_state (sc_boundaries anchor ! i))"

definition only_spacing_changed :: "spacing_candidate \<Rightarrow> spacing_candidate \<Rightarrow> bool" where
  "only_spacing_changed anchor g \<longleftrightarrow>
     sc_region_id g = sc_region_id anchor \<and> sc_character_sequence g = sc_character_sequence anchor \<and> sc_atom_ids g = sc_atom_ids anchor
     \<and> sc_mutable g = sc_mutable anchor \<and> length (sc_boundaries g) = length (sc_boundaries anchor)
     \<and> map bd_whitespace (sc_boundaries g) = map bd_whitespace (sc_boundaries anchor)
     \<and> hard_break_pairs g = hard_break_pairs anchor \<and> fixed_boundaries_kept anchor g"

lemma gap_steps_length:
  "length (fst (foldl gap_step (gs, seen, current) cs))
     = length gs + (if seen then length (filter (\<lambda>c. \<not> space_character c) cs) else length (filter (\<lambda>c. \<not> space_character c) cs) - 1)"
  by (induction cs arbitrary: gs seen current) (simp_all add: gap_step_def)

lemma boundaries_from_rendered_fields:
  assumes "boundaries_from_rendered r ids ws = Inr bs"
  shows "map bd_whitespace bs = ws"
proof -
  have len: "length (text_gaps r) = length ws" using assms
    by (auto simp: boundaries_from_rendered_def text_gaps_def gap_steps_length split: if_splits)
  have accepted: "SpacingBoundary b = Inr d \<longleftrightarrow> boundary_ok b \<and> d = b" for b d by (auto simp: SpacingBoundary_def)
  from assms have "length bs = length ws \<and> (\<forall>k<length bs. bd_whitespace (bs ! k) = ws ! k)" using len
    by (auto simp: boundaries_from_rendered_def traverse_Inr_iff accepted list_all2_conv_all_nth nth_enumerate_eq split: if_splits)
  then show ?thesis by (simp add: list_eq_iff_nth_eq)
qed

lemma made_spacing_candidate:
  assumes "make_spacing_candidate L region rendered cs ids ws score feats ix = Inr g"
  shows "\<exists>i bs. boundaries_from_rendered rendered ids ws = Inr bs
     \<and> g = \<lparr>sc_candidate_id = i, sc_region_id = region, sc_rendered_text = rendered, sc_character_sequence = cs,
         sc_atom_ids = ids, sc_boundaries = bs, sc_mutable = ix, sc_score = score, sc_features = feats\<rparr>
     \<and> SpacingCandidate g = Inr g"
  using assms by (auto simp: make_spacing_candidate_def dest: SpacingCandidate_accepted(1))

lemma unchanged_boundaries:
  assumes "changes_fixed_boundary anchor g = Inr False"
  shows "fixed_boundaries_kept anchor g"
  unfolding fixed_boundaries_kept_def
proof (intro allI impI)
  fix i assume i: "i < length (sc_boundaries anchor)" "i \<notin> mutable_indexes anchor"
  from assms obtain changes where c: "list_all2 (\<lambda>p c. fst p < length (sc_boundaries g) \<and> (bd_state (sc_boundaries g ! fst p) \<noteq> bd_state (snd p)) = c)
      (filter (\<lambda>(i, b). i \<notin> mutable_indexes anchor) (enumerate 0 (sc_boundaries anchor))) changes" "\<not> list_ex id changes"
    by (auto simp: changes_fixed_boundary_def traverse_Inr_iff case_prod_beta)
  have "(i, sc_boundaries anchor ! i) \<in> set (filter (\<lambda>(i, b). i \<notin> mutable_indexes anchor) (enumerate 0 (sc_boundaries anchor)))"
    using i by (auto simp: in_set_enumerate_eq)
  then obtain k where k: "k < length (filter (\<lambda>(i, b). i \<notin> mutable_indexes anchor) (enumerate 0 (sc_boundaries anchor)))"
    "filter (\<lambda>(i, b). i \<notin> mutable_indexes anchor) (enumerate 0 (sc_boundaries anchor)) ! k = (i, sc_boundaries anchor ! i)"
    by (meson in_set_conv_nth)
  then have "changes ! k = (bd_state (sc_boundaries g ! i) \<noteq> bd_state (sc_boundaries anchor ! i))" "changes ! k \<in> set changes"
    using c(1) by (auto simp: list_all2_conv_all_nth)
  then show "bd_state (sc_boundaries g ! i) = bd_state (sc_boundaries anchor ! i)" using c(2) by (auto simp: list_ex_iff)
qed

lemma generated_keeps:
  assumes "build_generated_candidate E anchor rendered confidence = Inr g"
  shows "only_spacing_changed anchor g" "SpacingCandidate g = Inr g" "sc_rendered_text g = rendered"
    "\<not> list_ex control_space (characters rendered)"
proof -
  from assms have m: "make_spacing_candidate (sp_library E) (sc_region_id anchor) rendered (sc_character_sequence anchor) (sc_atom_ids anchor)
        (map bd_whitespace (sc_boundaries anchor)) (unit_interval confidence) [(''llm_generated_spacing'', unit_interval confidence)] (sc_mutable anchor) = Inr g"
    and h: "hard_break_pairs g = hard_break_pairs anchor" and f: "changes_fixed_boundary anchor g = Inr False"
    and c: "\<not> list_ex control_space (characters rendered)"
    by (auto simp: build_generated_candidate_def Let_def)
  from made_spacing_candidate [OF m] obtain i bs where b: "boundaries_from_rendered rendered (sc_atom_ids anchor) (map bd_whitespace (sc_boundaries anchor)) = Inr bs"
    and g: "g = \<lparr>sc_candidate_id = i, sc_region_id = sc_region_id anchor, sc_rendered_text = rendered, sc_character_sequence = sc_character_sequence anchor,
         sc_atom_ids = sc_atom_ids anchor, sc_boundaries = bs, sc_mutable = sc_mutable anchor, sc_score = unit_interval confidence,
         sc_features = [(''llm_generated_spacing'', unit_interval confidence)]\<rparr>" and ok: "SpacingCandidate g = Inr g" by blast
  note w = boundaries_from_rendered_fields [OF b]
  have "length bs = length (sc_boundaries anchor)" using map_eq_imp_length_eq [OF w] by simp
  then show "only_spacing_changed anchor g" using h unchanged_boundaries [OF f] w by (simp add: only_spacing_changed_def g)
  show "SpacingCandidate g = Inr g" by (rule ok)
  show "sc_rendered_text g = rendered" by (simp add: g)
  show "\<not> list_ex control_space (characters rendered)" by (rule c)
qed

end
