(* ===== verification/Adjudication.thy ===== *)
theory Adjudication
  imports Spacing_Repair
begin

text \<open>
  The adjudication of closed candidate sets (\<open>semantic/adjudication.py\<close>): the policy and the records, the messages and hashes of the
  votes, the phases of the vote, the repair of spacing, the fallback, and the check of trusted decisions. The model's
  service is the one of \<open>Llm_Service\<close>; what the provider answers during each attempt is arbitrary.
\<close>

section \<open>Records\<close>

definition PROMPT_VERSION :: string where
  "PROMPT_VERSION = ''semantic-candidate-adjudication-v2''"

definition DecisionId :: "string \<Rightarrow> bool" where "DecisionId s \<longleftrightarrow> prefixed_id ''decision_'' s"

record policy =
  po_auto_accept_score :: rat
  po_auto_accept_margin :: rat
  po_minimum_model_confidence :: rat
  po_max_candidates :: nat
  po_max_schema_attempts :: nat
  po_max_confidence_recovery_attempts :: nat
  po_consensus_votes_required :: nat

definition in_unit :: "rat \<Rightarrow> bool" where
  "in_unit x \<longleftrightarrow> 0 \<le> x \<and> x \<le> 1"

definition AdjudicationPolicy :: "policy \<Rightarrow> policy result" where
  "AdjudicationPolicy p =
     (if in_unit (po_auto_accept_score p) \<and> in_unit (po_auto_accept_margin p) \<and> in_unit (po_minimum_model_confidence p)
         \<and> po_max_candidates p \<in> {1..5} \<and> po_max_schema_attempts p \<in> {1..2} \<and> po_max_confidence_recovery_attempts p \<le> 2
         \<and> po_consensus_votes_required p = 2 then Inr p else Inl field_error)"

definition default_policy :: policy where
  "default_policy = \<lparr>po_auto_accept_score = 82/100, po_auto_accept_margin = 12/100, po_minimum_model_confidence = 80/100,
     po_max_candidates = 5, po_max_schema_attempts = 2, po_max_confidence_recovery_attempts = 2, po_consensus_votes_required = 2\<rparr>"

datatype phase = Primary | Recovery | Tiebreak | Generation | Verification

datatype vote_status = Accepted_Vote | Low_Confidence | Candidate_Unknown | Provider_Rejected | Validation_Rejected

record vote_attempt =
  va_index :: nat
  va_phase :: phase
  va_request_hash :: string
  va_candidate_id :: "string option"
  va_confidence :: rat
  va_status :: vote_status
  va_codes :: "string list"
  va_retry_count :: int
  va_repair_count :: int

definition AdjudicationAttempt :: "vote_attempt \<Rightarrow> vote_attempt result" where
  "AdjudicationAttempt a =
     (if va_index a \<in> {1..6} \<and> Sha256 (va_request_hash a) \<and> opt_ok CandidateId (va_candidate_id a) \<and> in_unit (va_confidence a)
         \<and> list_all ValidationCode (va_codes a) \<and> length (va_codes a) \<le> 4 \<and> va_retry_count a \<in> {0..2} \<and> va_repair_count a \<in> {0..2}
      then Inr a else Inl field_error)"

record spacing_snapshot =
  gs_candidate_id :: string
  gs_region_id :: string
  gs_atom_ids :: "string list"
  gs_boundaries :: "spacing_boundary list"
  gs_mutable :: "int list option"
  gs_score :: rat
  gs_features :: features
  gs_rendered_text_hash :: string
  gs_character_sequence_hash :: string

definition GeneratedSpacingSnapshot :: "spacing_snapshot \<Rightarrow> spacing_snapshot result" where
  "GeneratedSpacingSnapshot g =
     (if CandidateId (gs_candidate_id g) \<and> RegionId (gs_region_id g) \<and> gs_atom_ids g \<noteq> [] \<and> list_all boundary_ok (gs_boundaries g)
         \<and> in_unit (gs_score g) \<and> Sha256 (gs_rendered_text_hash g) \<and> Sha256 (gs_character_sequence_hash g) then Inr g else Inl field_error)"

datatype generated = Built spacing_candidate | Snapshot spacing_snapshot

datatype outcome = Selected | Review_Required | Deferred_Review

datatype decision_source =
  Deterministic | Model | Recovered | Cache | Unavailable | Provider | Generated_Source | Fallback

datatype recovery_status = Not_Needed | Was_Recovered | Needs_Review | Was_Generated | Was_Deferred

datatype consensus = No_Consensus | Same_Candidate | Two_Of_Three

record decision =
  de_decision_id :: string
  de_request_hash :: string
  de_source_hash :: string
  de_evidence_hash :: string
  de_candidate_set_id :: string
  de_region_id :: string
  de_decision_type :: string
  de_selected :: "string option"
  de_outcome :: outcome
  de_source :: decision_source
  de_confidence :: rat
  de_provider :: string
  de_model :: string
  de_codes :: "string list"
  de_retry_count :: int
  de_repair_count :: int
  de_recovery_status :: recovery_status
  de_attempts :: "vote_attempt list"
  de_consensus :: consensus
  de_consensus_id :: "string option"
  de_recovery_count :: nat
  de_generated :: "generated option"

definition char_length :: "string \<Rightarrow> nat" where
  "char_length s = length (characters s)"

definition DecisionRecord :: "decision \<Rightarrow> decision result" where
  "DecisionRecord d =
     (if DecisionId (de_decision_id d) \<and> Sha256 (de_request_hash d) \<and> Sha256 (de_source_hash d) \<and> Sha256 (de_evidence_hash d)
         \<and> CandidateSetId (de_candidate_set_id d) \<and> RegionId (de_region_id d) \<and> char_length (de_decision_type d) \<in> {1..40}
         \<and> opt_ok CandidateId (de_selected d) \<and> in_unit (de_confidence d) \<and> char_length (de_provider d) \<in> {1..100}
         \<and> char_length (de_model d) \<in> {1..200} \<and> list_all ValidationCode (de_codes d) \<and> length (de_codes d) \<le> 4
         \<and> de_retry_count d \<in> {0..12} \<and> de_repair_count d \<in> {0..12} \<and> length (de_attempts d) \<le> 6
         \<and> opt_ok CandidateId (de_consensus_id d) \<and> de_recovery_count d \<le> 2 then Inr d else Inl field_error)"

section \<open>The environment\<close>

text \<open>The platform and the libraries: the float read from a JSON value, the text of a validation error with a given code, the schema
  generated for a proposal, the reader and the schema validator; and the provider during each attempt.\<close>

record adjudication_env =
  ae_spacing :: spacing_env
  ae_float :: "json \<Rightarrow> rat option"
  ae_error_text :: "string \<Rightarrow> string"
  ae_proposal_schema :: json
  ae_checker :: checker
  ae_text_service :: "nat \<Rightarrow> text_message service_env"
  ae_page_service :: "nat \<Rightarrow> multimodal_message service_env"

text \<open>The adjudicator: the capabilities of its provider, None when it has none.\<close>

record adjudicator =
  aj_env :: adjudication_env
  aj_capabilities :: "(string, string) dict option"
  aj_policy :: policy
  aj_trusted :: "decision list"

definition aj_library :: "adjudicator \<Rightarrow> library" where
  "aj_library A = sp_library (ae_spacing (aj_env A))"

definition provider_identity :: "adjudicator \<Rightarrow> string \<times> string" where
  "provider_identity A =
     (case aj_capabilities A of
        None \<Rightarrow> (''none'', ''none'')
      | Some d \<Rightarrow> (case_option ''unknown'' id (dict_get d ''provider''), case_option ''unknown'' id (dict_get d ''model'')))"

definition text_value :: "string option \<Rightarrow> py_value" where
  "text_value x = (case x of None \<Rightarrow> PNone | Some s \<Rightarrow> PStr s)"

definition candidate_choice_schema :: json where
  "candidate_choice_schema =
     JObj [(''type'', JStr ''object''),
       (''properties'', JObj
          [(''candidate_id'', JObj [(''type'', JStr ''string''), (''pattern'', JStr ''^candidate_[0-9a-f]{16}$'')]),
           (''confidence'', JObj [(''type'', JStr ''number''), (''minimum'', JInt 0), (''maximum'', JInt 1)])]),
       (''required'', JArr [JStr ''candidate_id'', JStr ''confidence'']), (''additionalProperties'', JBool False)]"

section \<open>The values that are hashed and sent\<close>

fun decision_name :: "decision_type \<Rightarrow> string" where
  "decision_name D_Spacing = ''spacing''"
| "decision_name D_Recognition = ''recognition''"
| "decision_name D_Block = ''block''"
| "decision_name D_Order = ''reading_order''"
| "decision_name D_Continuation = ''continuation''"
| "decision_name D_Table = ''table''"

fun phase_name :: "phase \<Rightarrow> string" where
  "phase_name Primary = ''primary''"
| "phase_name Recovery = ''recovery''"
| "phase_name Tiebreak = ''tiebreak''"
| "phase_name Generation = ''generation''"
| "phase_name Verification = ''verification''"

fun block_kind_name :: "block_kind \<Rightarrow> string" where
  "block_kind_name Heading_Block = ''heading''"
| "block_kind_name Paragraph_Block = ''paragraph''"
| "block_kind_name List_Item_Block = ''list_item''"
| "block_kind_name Table_Block = ''table''"
| "block_kind_name Caption_Block = ''caption''"
| "block_kind_name Figure_Block = ''figure''"

definition list_kind_value :: "list_kind option \<Rightarrow> py_value" where
  "list_kind_value k = (case k of None \<Rightarrow> PNone | Some Ordered \<Rightarrow> PStr ''ordered'' | Some Unordered \<Rightarrow> PStr ''unordered'')"

definition int_value :: "int option \<Rightarrow> py_value" where
  "int_value x = (case x of None \<Rightarrow> PNone | Some i \<Rightarrow> PInt i)"

definition float_value :: "spacing_env \<Rightarrow> rat \<Rightarrow> py_value" where
  "float_value E x = PFloat (sp_repr E x)"

definition features_value :: "spacing_env \<Rightarrow> features \<Rightarrow> py_value" where
  "features_value E f = PDict (map (\<lambda>(k, v). (k, float_value E v)) f)"

definition boundary_dump :: "spacing_boundary \<Rightarrow> py_value" where
  "boundary_dump b = PDict [(''left_atom_id'', PStr (bd_left b)), (''right_atom_id'', PStr (bd_right b)),
     (''state'', PStr (state_name (bd_state b))), (''source_whitespace_atom_ids'', string_seq (bd_whitespace b))]"

definition cell_dump :: "cell_candidate \<Rightarrow> py_value" where
  "cell_dump c = PDict [(''cell_id'', PStr (cc_cell_id c)), (''start_row'', PInt (cc_start_row c)), (''end_row'', PInt (cc_end_row c)),
     (''start_column'', PInt (cc_start_column c)), (''end_column'', PInt (cc_end_column c)), (''atom_ids'', string_seq (cc_atom_ids c)),
     (''column_header'', PBool (cc_column_header c)), (''rendered_text'', text_value (cc_rendered_text c))]"

text \<open>\<open>model_dump(mode="json")\<close> of a candidate and of a candidate set.\<close>

fun candidate_dump :: "spacing_env \<Rightarrow> candidate \<Rightarrow> (string \<times> py_value) list" where
  "candidate_dump E (Spacing_Cand c) =
     [(''rendered_text'', PStr (sc_rendered_text c)), (''character_sequence'', PStr (sc_character_sequence c)),
      (''atom_ids'', string_seq (sc_atom_ids c)), (''boundaries'', PSeq (map boundary_dump (sc_boundaries c))),
      (''mutable_boundary_indexes'', indexes_value (sc_mutable c)), (''features'', features_value E (sc_features c))]"
| "candidate_dump E (Recognition_Cand c) =
     [(''hypothesis_id'', PStr (rc_hypothesis_id c)), (''text'', PStr (rc_text c)), (''engine'', PStr (rc_engine c)),
      (''features'', features_value E (rc_features c))]"
| "candidate_dump E (Block_Cand c) =
     [(''block_kind'', PStr (block_kind_name (bc_block_kind c))), (''atom_ids'', string_seq (bc_atom_ids c)),
      (''heading_level'', int_value (bc_heading_level c)), (''list_kind'', list_kind_value (bc_list_kind c)),
      (''list_depth'', int_value (bc_list_depth c)), (''features'', features_value E (bc_features c))]"
| "candidate_dump E (Order_Cand c) =
     [(''region_ids'', string_seq (oc_region_ids c)), (''features'', features_value E (oc_features c))]"
| "candidate_dump E (Continuation_Cand c) =
     [(''previous_region_id'', PStr (nc_previous_region_id c)), (''current_region_id'', PStr (nc_current_region_id c)),
      (''continue_previous'', PBool (nc_continue_previous c)), (''features'', features_value E (nc_features c))]"
| "candidate_dump E (Table_Cand c) =
     [(''row_count'', PInt (tc_row_count c)), (''column_count'', PInt (tc_column_count c)), (''cells'', PSeq (map cell_dump (tc_cells c))),
      (''atom_ids'', string_seq (tc_atom_ids c)), (''features'', features_value E (tc_features c))]"

definition candidate_set_dump :: "spacing_env \<Rightarrow> candidate_set \<Rightarrow> py_value" where
  "candidate_set_dump E s = PDict [(''candidate_set_id'', PStr (cs_candidate_set_id s)), (''source_hash'', PStr (cs_source_hash s)),
     (''region_id'', PStr (cs_region_id s)), (''decision_type'', PStr (decision_name (cs_decision_type s))),
     (''candidates'', PSeq (map (\<lambda>c. PDict ([(''kind'', PStr (decision_name (candidate_kind c))), (''candidate_id'', PStr (candidate_id c)),
        (''region_id'', PStr (candidate_region c)), (''score'', float_value E (candidate_score c))] @ candidate_dump E c)) (cs_candidates s)))]"

definition policy_dump :: "spacing_env \<Rightarrow> policy \<Rightarrow> py_value" where
  "policy_dump E p = PDict [(''auto_accept_score'', float_value E (po_auto_accept_score p)),
     (''auto_accept_margin'', float_value E (po_auto_accept_margin p)),
     (''minimum_model_confidence'', float_value E (po_minimum_model_confidence p)), (''max_candidates'', PInt (int (po_max_candidates p))),
     (''max_schema_attempts'', PInt (int (po_max_schema_attempts p))),
     (''max_confidence_recovery_attempts'', PInt (int (po_max_confidence_recovery_attempts p))),
     (''consensus_votes_required'', PInt (int (po_consensus_votes_required p)))]"

definition request_hash ::
  "adjudicator \<Rightarrow> candidate_set \<Rightarrow> string \<Rightarrow> string option \<Rightarrow> string result" where
  "request_hash A s evidence_hash page_crop =
     (let L = aj_library A; (provider, model) = provider_identity A
      in bind_ok (canonical_hash L (PStr PROMPT_VERSION)) (\<lambda>prompt_hash.
         bind_ok (canonical_hash L (as_python candidate_choice_schema)) (\<lambda>schema_hash.
           canonical_hash L (PDict [(''source_hash'', PStr (cs_source_hash s)), (''evidence_hash'', PStr evidence_hash),
             (''region_id'', PStr (cs_region_id s)), (''candidate_set_id'', PStr (cs_candidate_set_id s)),
             (''prompt_hash'', PStr prompt_hash), (''schema_hash'', PStr schema_hash), (''provider'', PStr provider), (''model'', PStr model),
             (''policy'', policy_dump (ae_spacing (aj_env A)) (aj_policy A)),
             (''page_crop_hash'', text_value (map_option (lib_sha256 L) page_crop))]))))"

definition attempt_request_hash :: "adjudicator \<Rightarrow> string \<Rightarrow> phase \<Rightarrow> text_message list \<Rightarrow> nat \<Rightarrow> string result" where
  "attempt_request_hash A base p messages n =
     bind_ok (canonical_hash (aj_library A)
                (PSeq (map (\<lambda>m. PDict [(''role'', PStr (tm_role m)), (''content'', PStr (tm_content m))]) messages))) (\<lambda>messages_hash.
       canonical_hash (aj_library A) (PDict [(''base_request_hash'', PStr base), (''phase'', PStr (phase_name p)),
         (''attempt_index'', PInt (int n)), (''messages_hash'', PStr messages_hash)]))"

section \<open>Messages of a vote\<close>

definition cell_text :: "cell_candidate \<Rightarrow> py_value option" where
  "cell_text c = (case cc_rendered_text c of
       None \<Rightarrow> None
     | Some t \<Rightarrow> if t = [] then None
                  else Some (PDict [(''cell_id'', PStr (cc_cell_id c)), (''rendering'', PStr (concat (take 96 (characters t))))]))"

definition cell_summary :: "cell_candidate \<Rightarrow> py_value" where
  "cell_summary c = PDict [(''row'', PSeq [PInt (cc_start_row c), PInt (cc_end_row c)]),
     (''column'', PSeq [PInt (cc_start_column c), PInt (cc_end_column c)]), (''column_header'', PBool (cc_column_header c)),
     (''has_text'', PBool (cc_atom_ids c \<noteq> []))]"

fun kind_summary :: "candidate \<Rightarrow> (string \<times> py_value) list" where
  "kind_summary (Spacing_Cand c) = [(''rendering'', PStr (sc_rendered_text c))]"
| "kind_summary (Recognition_Cand c) = [(''rendering'', PStr (rc_text c)), (''engine'', PStr (rc_engine c))]"
| "kind_summary (Block_Cand c) = [(''block_kind'', PStr (block_kind_name (bc_block_kind c))), (''heading_level'', int_value (bc_heading_level c)),
     (''list_kind'', list_kind_value (bc_list_kind c)), (''list_depth'', int_value (bc_list_depth c))]"
| "kind_summary (Order_Cand c) = [(''region_order'', string_seq (oc_region_ids c))]"
| "kind_summary (Continuation_Cand c) = [(''continue_previous'', PBool (nc_continue_previous c))]"
| "kind_summary (Table_Cand c) = [(''row_count'', PInt (tc_row_count c)), (''column_count'', PInt (tc_column_count c)),
     (''cells'', PSeq (map cell_summary (tc_cells c))), (''cell_renderings'', PSeq (take 32 (somes (map cell_text (tc_cells c)))))]"

fun candidate_features :: "candidate \<Rightarrow> features" where
  "candidate_features (Spacing_Cand c) = sc_features c"
| "candidate_features (Recognition_Cand c) = rc_features c"
| "candidate_features (Block_Cand c) = bc_features c"
| "candidate_features (Order_Cand c) = oc_features c"
| "candidate_features (Continuation_Cand c) = nc_features c"
| "candidate_features (Table_Cand c) = tc_features c"

definition candidate_summary :: "spacing_env \<Rightarrow> candidate \<Rightarrow> py_value" where
  "candidate_summary E c = PDict ([(''candidate_id'', PStr (candidate_id c)), (''score'', float_value E (candidate_score c)),
     (''features'', features_value E (sort_key fst (candidate_features c)))] @ kind_summary c)"

fun recovery_rules :: "phase \<Rightarrow> (string \<times> py_value) list" where
  "recovery_rules Recovery = [(''recovery_rules'', string_seq
     [''Reassess the exact differences among candidates independently.'',
      ''For spacing, consider Korean morphology, particles, compounds, punctuation, and identifiers.'',
      ''Do not raise confidence merely because this is a recovery request.''])]"
| "recovery_rules Tiebreak = [(''recovery_rules'', string_seq
     [''Prior valid votes disagree; make an independent selection.'',
      ''Do not prefer a candidate because it appeared in a prior vote.''])]"
| "recovery_rules _ = []"

definition prior_vote :: "spacing_env \<Rightarrow> vote_attempt \<Rightarrow> py_value option" where
  "prior_vote E a = (case va_candidate_id a of
       None \<Rightarrow> None
     | Some c \<Rightarrow> Some (PDict [(''phase'', PStr (phase_name (va_phase a))), (''candidate_id'', PStr c),
         (''confidence'', float_value E (va_confidence a)), (''validation_codes'', string_seq (va_codes a))]))"

definition vote_messages ::
  "spacing_env \<Rightarrow> candidate_set \<Rightarrow> candidate list \<Rightarrow> phase \<Rightarrow> vote_attempt list \<Rightarrow> text_message list result" where
  "vote_messages E s cs p prior =
     bind_ok (json_text (PDict ([(''task'', PStr ''Select exactly one allowlisted candidate ID.''),
        (''decision_type'', PStr (decision_name (cs_decision_type s))), (''phase'', PStr (phase_name p)),
        (''rules'', string_seq [''Do not transcribe or rewrite text.'', ''Return only candidate_id and confidence.''])] @ recovery_rules p))) (\<lambda>instruction.
     bind_ok (json_text (PDict [(''phase'', PStr (phase_name p)), (''candidate_set_id'', PStr (cs_candidate_set_id s)),
        (''region_id'', PStr (cs_region_id s)), (''candidates'', PSeq (map (candidate_summary E) cs)),
        (''prior_votes'', PSeq (somes (map (prior_vote E) prior)))])) (\<lambda>request.
       Inr [\<lparr>tm_role = ''system'', tm_content = instruction\<rparr>, \<lparr>tm_role = ''user'', tm_content = request\<rparr>]))"

definition corrective_messages :: "text_message list \<Rightarrow> string \<Rightarrow> text_message list result" where
  "corrective_messages original code =
     bind_ok (json_text (PDict [(''validation_code'', PStr code),
        (''instruction'', PStr ''Choose only an ID present in the request allowlist.'')])) (\<lambda>t.
       Inr (\<lparr>tm_role = ''system'', tm_content = t\<rparr> # original))"

section \<open>A phase of the vote\<close>

record vote_result =
  vp_choice :: "(string \<times> rat) option"
  vp_attempts :: "vote_attempt list"
  vp_codes :: "string list"
  vp_retry_count :: int
  vp_repair_count :: int

text \<open>What the parts of one decision share: the candidate set, its candidates in order, the hashes, the provider and the page.\<close>

record vote_case =
  vc_set :: candidate_set
  vc_candidates :: "candidate list"
  vc_request_hash :: string
  vc_evidence_hash :: string
  vc_provider :: string
  vc_model :: string
  vc_page_crop :: "string option"

definition allowlist :: "vote_case \<Rightarrow> string set" where
  "allowlist x = set (map candidate_id (vc_candidates x))"

definition candidate_choice :: "adjudicator \<Rightarrow> (string, json) dict option \<Rightarrow> (string \<times> rat) result" where
  "candidate_choice A answer =
     (case answer of
        None \<Rightarrow> Inl field_error
      | Some d \<Rightarrow>
          (case (dict_get d ''candidate_id'', dict_get d ''confidence'') of
             (Some (JStr i), Some c) \<Rightarrow>
               (case ae_float (aj_env A) c of
                  Some r \<Rightarrow> if set (dict_keys d) \<subseteq> {''candidate_id'', ''confidence''} \<and> CandidateId i \<and> in_unit r then Inr (i, r) else Inl field_error
                | None \<Rightarrow> Inl field_error)
           | _ \<Rightarrow> Inl field_error))"

definition generate_text_answer :: "adjudicator \<Rightarrow> nat \<Rightarrow> json \<Rightarrow> text_message list \<Rightarrow> llm_result reply" where
  "generate_text_answer A n schema messages =
     fst (generate_structured (ae_checker (aj_env A)) (ae_text_service (aj_env A) n) schema messages)"

definition generate_choice :: "adjudicator \<Rightarrow> nat \<Rightarrow> string option \<Rightarrow> text_message list \<Rightarrow> llm_result reply" where
  "generate_choice A n page_crop messages =
     (case page_crop of
        None \<Rightarrow> generate_text_answer A n candidate_choice_schema messages
      | Some picture \<Rightarrow>
          (case LLMMultimodalMessage \<lparr>mm_role = User,
              mm_content = [LLMTextPart (join [CHR 0x0A] (map tm_content messages)), LLMImagePart ''image/png'' picture]\<rparr> of
             Inl e \<Rightarrow> Inl (Other_error e)
           | Inr m \<Rightarrow> fst (generate_multimodal_structured (ae_checker (aj_env A)) (ae_page_service (aj_env A) n) candidate_choice_schema [m])))"

definition low_confidence :: "adjudicator \<Rightarrow> rat \<Rightarrow> bool" where
  "low_confidence A c \<longleftrightarrow> c < po_minimum_model_confidence (aj_policy A)"

definition result_attempt :: "nat \<Rightarrow> phase \<Rightarrow> string \<Rightarrow> string option \<Rightarrow> rat \<Rightarrow> vote_status \<Rightarrow> string list \<Rightarrow> llm_result \<Rightarrow> vote_attempt result" where
  "result_attempt n p hash c confidence status codes r =
     AdjudicationAttempt \<lparr>va_index = n, va_phase = p, va_request_hash = hash, va_candidate_id = c, va_confidence = confidence,
       va_status = status, va_codes = codes, va_retry_count = md_retry_count (lr_metadata r), va_repair_count = md_repair_count (lr_metadata r)\<rparr>"

definition rejected_attempt :: "nat \<Rightarrow> phase \<Rightarrow> string \<Rightarrow> provider_failure \<Rightarrow> vote_attempt result" where
  "rejected_attempt n p hash e =
     AdjudicationAttempt \<lparr>va_index = n, va_phase = p, va_request_hash = hash, va_candidate_id = None, va_confidence = 0,
       va_status = Provider_Rejected, va_codes = [pe_code e], va_retry_count = int (pe_retry_count e), va_repair_count = int (pe_repair_count e)\<rparr>"

definition active_messages :: "text_message list \<Rightarrow> string list \<Rightarrow> text_message list result" where
  "active_messages messages codes = (if codes = [] then Inr messages else corrective_messages messages (last codes))"

text \<open>The loop over the schema attempts, with the attempts and the codes so far.\<close>

fun vote_loop ::
  "adjudicator \<Rightarrow> vote_case \<Rightarrow> phase \<Rightarrow> text_message list \<Rightarrow> nat list \<Rightarrow> vote_attempt list \<Rightarrow> string list \<Rightarrow> vote_result result" where
  "vote_loop A x p messages [] done codes = Inl (AssertionError ''unreachable'')"
| "vote_loop A x p messages (n # ns) done codes =
     bind_ok (active_messages messages codes) (\<lambda>active.
     bind_ok (attempt_request_hash A (vc_request_hash x) p active n) (\<lambda>hash.
       case generate_choice A n (vc_page_crop x) active of
         Inl (Other_error e) \<Rightarrow> Inl e
       | Inl (Provider_error e) \<Rightarrow>
           bind_ok (rejected_attempt n p hash e) (\<lambda>a.
             Inr \<lparr>vp_choice = None, vp_attempts = done @ [a], vp_codes = [pe_code e], vp_retry_count = int (pe_retry_count e),
               vp_repair_count = int (pe_repair_count e)\<rparr>)
       | Inr r \<Rightarrow>
           bind_ok (candidate_choice A (lr_structured r)) (\<lambda>(c, confidence).
             if c \<notin> allowlist x then
               bind_ok (result_attempt n p hash None confidence Candidate_Unknown [''LLM_CANDIDATE_UNKNOWN''] r) (\<lambda>a.
                 if ns \<noteq> [] then vote_loop A x p messages ns (done @ [a]) (codes @ [''LLM_CANDIDATE_UNKNOWN''])
                 else Inr \<lparr>vp_choice = None, vp_attempts = done @ [a], vp_codes = codes @ [''LLM_CANDIDATE_UNKNOWN''],
                        vp_retry_count = md_retry_count (lr_metadata r), vp_repair_count = md_repair_count (lr_metadata r)\<rparr>)
             else
               let low = low_confidence A confidence; low_codes = (if low then [''LLM_CONFIDENCE_TOO_LOW''] else [])
               in bind_ok (result_attempt n p hash (Some c) confidence (if low then Low_Confidence else Accepted_Vote) low_codes r) (\<lambda>a.
                    Inr \<lparr>vp_choice = Some (c, confidence), vp_attempts = done @ [a], vp_codes = low_codes,
                      vp_retry_count = md_retry_count (lr_metadata r), vp_repair_count = md_repair_count (lr_metadata r)\<rparr>))))"

definition run_vote_phase :: "adjudicator \<Rightarrow> vote_case \<Rightarrow> phase \<Rightarrow> vote_attempt list \<Rightarrow> nat \<Rightarrow> vote_result result" where
  "run_vote_phase A x p prior n =
     bind_ok (vote_messages (ae_spacing (aj_env A)) (vc_set x) (vc_candidates x) p prior) (\<lambda>messages.
       vote_loop A x p messages [n..<n + po_max_schema_attempts (aj_policy A)] [] [])"

section \<open>Records of decisions\<close>

definition attempt_dump :: "spacing_env \<Rightarrow> vote_attempt \<Rightarrow> py_value" where
  "attempt_dump E a = PDict [(''attempt_index'', PInt (int (va_index a))), (''phase'', PStr (phase_name (va_phase a))),
     (''request_hash'', PStr (va_request_hash a)), (''candidate_id'', text_value (va_candidate_id a)),
     (''confidence'', float_value E (va_confidence a)),
     (''status'', PStr (case va_status a of Accepted_Vote \<Rightarrow> ''accepted'' | Low_Confidence \<Rightarrow> ''low_confidence'' | Candidate_Unknown \<Rightarrow> ''candidate_unknown''
        | Provider_Rejected \<Rightarrow> ''provider_rejected'' | Validation_Rejected \<Rightarrow> ''validation_rejected'')),
     (''validation_codes'', string_seq (va_codes a)), (''provider_retry_count'', PInt (va_retry_count a)),
     (''provider_repair_count'', PInt (va_repair_count a))]"

definition text_hash :: "library \<Rightarrow> string \<Rightarrow> string" where
  "text_hash L s = lib_sha256 L s"

definition generated_payload ::
  "spacing_env \<Rightarrow> string \<Rightarrow> string \<Rightarrow> string list \<Rightarrow> spacing_boundary list \<Rightarrow> int list option \<Rightarrow> rat \<Rightarrow> features \<Rightarrow> string \<Rightarrow> string \<Rightarrow> py_value" where
  "generated_payload E c region ids bs ix score feats rendered_hash sequence_hash =
     PDict [(''candidate_id'', PStr c), (''region_id'', PStr region), (''atom_ids'', string_seq ids), (''boundaries'', PSeq (map boundary_dump bs)),
       (''mutable_boundary_indexes'', indexes_value ix), (''score'', float_value E score), (''features'', features_value E feats),
       (''rendered_text_hash'', PStr rendered_hash), (''character_sequence_hash'', PStr sequence_hash)]"

fun generated_candidate_identity_payload :: "spacing_env \<Rightarrow> generated option \<Rightarrow> py_value" where
  "generated_candidate_identity_payload E None = PNone"
| "generated_candidate_identity_payload E (Some (Built c)) =
     generated_payload E (sc_candidate_id c) (sc_region_id c) (sc_atom_ids c) (sc_boundaries c) (sc_mutable c) (sc_score c) (sc_features c)
       (text_hash (sp_library E) (sc_rendered_text c)) (text_hash (sp_library E) (sc_character_sequence c))"
| "generated_candidate_identity_payload E (Some (Snapshot g)) =
     generated_payload E (gs_candidate_id g) (gs_region_id g) (gs_atom_ids g) (gs_boundaries g) (gs_mutable g) (gs_score g) (gs_features g)
       (gs_rendered_text_hash g) (gs_character_sequence_hash g)"

fun outcome_name :: "outcome \<Rightarrow> string" where
  "outcome_name Selected = ''selected''"
| "outcome_name Review_Required = ''review_required''"
| "outcome_name Deferred_Review = ''deferred_review''"

fun source_name :: "decision_source \<Rightarrow> string" where
  "source_name Deterministic = ''deterministic''"
| "source_name Model = ''model''"
| "source_name Recovered = ''recovered''"
| "source_name Cache = ''cache''"
| "source_name Unavailable = ''unavailable''"
| "source_name Provider = ''provider''"
| "source_name Generated_Source = ''generated''"
| "source_name Fallback = ''fallback''"

fun recovery_name :: "recovery_status \<Rightarrow> string" where
  "recovery_name Not_Needed = ''not_needed''"
| "recovery_name Was_Recovered = ''recovered''"
| "recovery_name Needs_Review = ''review_required''"
| "recovery_name Was_Generated = ''generated''"
| "recovery_name Was_Deferred = ''deferred_review''"

fun consensus_name :: "consensus \<Rightarrow> string" where
  "consensus_name No_Consensus = ''none''"
| "consensus_name Same_Candidate = ''same_candidate''"
| "consensus_name Two_Of_Three = ''two_of_three''"

definition decision_payload :: "spacing_env \<Rightarrow> decision \<Rightarrow> py_value" where
  "decision_payload E d =
     PDict [(''request_hash'', PStr (de_request_hash d)), (''selected_candidate_id'', text_value (de_selected d)),
        (''outcome'', PStr (outcome_name (de_outcome d))), (''source'', PStr (source_name (de_source d))),
        (''validation_codes'', string_seq (de_codes d)), (''confidence'', float_value E (de_confidence d)), (''provider'', PStr (de_provider d)),
        (''model'', PStr (de_model d)), (''retry_count'', PInt (de_retry_count d)), (''repair_count'', PInt (de_repair_count d)),
        (''attempts'', PSeq (map (attempt_dump E) (de_attempts d))), (''recovery_status'', PStr (recovery_name (de_recovery_status d))),
        (''consensus_method'', PStr (consensus_name (de_consensus d))), (''consensus_candidate_id'', text_value (de_consensus_id d)),
        (''recovery_count'', PInt (int (de_recovery_count d))),
        (''generated_candidate'', generated_candidate_identity_payload E (de_generated d))]"

definition decision_id :: "spacing_env \<Rightarrow> decision \<Rightarrow> string result" where
  "decision_id E d = bind_ok (canonical_hash (sp_library E) (decision_payload E d)) (\<lambda>digest. Inr (''decision_'' @ take 16 digest))"

text \<open>The record with the defaults of the code, and the record of a decision: the counts are the sums over the attempts when there are any.\<close>

definition blank_decision :: "vote_case \<Rightarrow> decision" where
  "blank_decision x =
     \<lparr>de_decision_id = ''decision_0000000000000000'', de_request_hash = vc_request_hash x, de_source_hash = cs_source_hash (vc_set x),
      de_evidence_hash = vc_evidence_hash x, de_candidate_set_id = cs_candidate_set_id (vc_set x), de_region_id = cs_region_id (vc_set x),
      de_decision_type = decision_name (cs_decision_type (vc_set x)), de_selected = None, de_outcome = Review_Required, de_source = Unavailable,
      de_confidence = 0, de_provider = vc_provider x, de_model = vc_model x, de_codes = [], de_retry_count = 0, de_repair_count = 0,
      de_recovery_status = Not_Needed, de_attempts = [], de_consensus = No_Consensus, de_consensus_id = None, de_recovery_count = 0,
      de_generated = None\<rparr>"

definition make_record :: "adjudicator \<Rightarrow> decision \<Rightarrow> decision result" where
  "make_record A d =
     (let d = (if de_attempts d = [] then d
               else d\<lparr>de_retry_count := sum_list (map va_retry_count (de_attempts d)), de_repair_count := sum_list (map va_repair_count (de_attempts d))\<rparr>)
      in bind_ok (DecisionRecord d) (\<lambda>d. bind_ok (decision_id (ae_spacing (aj_env A)) d) (\<lambda>i. Inr (d\<lparr>de_decision_id := i\<rparr>))))"

definition distinct_codes :: "string list \<Rightarrow> string list" where
  "distinct_codes codes = dict_keys (dict_of id id codes)"

definition fallback_candidate :: "adjudicator \<Rightarrow> candidate_set \<Rightarrow> (string \<times> rat) result" where
  "fallback_candidate A s =
     (if cs_decision_type s = D_Spacing
      then bind_ok (fallback_spacing_candidate (sp_digit (ae_spacing (aj_env A))) s) (\<lambda>c. Inr (sc_candidate_id c, sc_score c))
      else bind_ok (largest (\<lambda>c. (candidate_score c, candidate_id c)) (cs_candidates s)) (\<lambda>c. Inr (candidate_id c, candidate_score c)))"

text \<open>\<open>str(error)\<close>: a validation error prints more than the code it was raised with.\<close>

fun error_text :: "adjudicator \<Rightarrow> exn \<Rightarrow> string" where
  "error_text A (ValidationError m) = ae_error_text (aj_env A) m"
| "error_text A e = exn_message e"

definition deferred_candidate_record :: "adjudicator \<Rightarrow> vote_case \<Rightarrow> vote_attempt list \<Rightarrow> string list \<Rightarrow> decision result" where
  "deferred_candidate_record A x atts codes =
     (case fallback_candidate A (vc_set x) of
        Inl e \<Rightarrow>
          if is_value_error e
          then make_record A ((blank_decision x)\<lparr>de_outcome := Review_Required,
                 de_source := (if vc_provider x = ''none'' then Unavailable
                               else if atts \<noteq> [] \<and> va_status (last atts) = Provider_Rejected then Provider else Model),
                 de_codes := distinct_codes (codes @ [error_text A e]), de_recovery_status := Needs_Review, de_attempts := atts\<rparr>)
          else Inl e
      | Inr (c, score) \<Rightarrow>
          make_record A ((blank_decision x)\<lparr>de_selected := Some c, de_outcome := Deferred_Review, de_source := Fallback, de_confidence := score,
            de_codes := distinct_codes (codes @ [if cs_decision_type (vc_set x) = D_Spacing then ''LLM_SPACING_REPAIR_DEFERRED''
                                                 else ''LLM_CANDIDATE_SELECTION_DEFERRED'']),
            de_recovery_status := Was_Deferred, de_attempts := atts\<rparr>))"

section \<open>The repair of spacing\<close>

definition reason_of :: "json \<Rightarrow> repair_reason result" where
  "reason_of j =
     (if j = JStr ''korean_morphology'' then Inr Korean_Morphology
      else if j = JStr ''identifier_integrity'' then Inr Identifier_Integrity
      else if j = JStr ''punctuation_boundary'' then Inr Punctuation_Boundary
      else if j = JStr ''table_cell_boundary'' then Inr Table_Cell_Boundary
      else if j = JStr ''line_boundary'' then Inr Line_Boundary
      else Inl field_error)"

fun json_string :: "json \<Rightarrow> string result" where
  "json_string (JStr s) = Inr s"
| "json_string _ = Inl field_error"

fun json_items :: "json option \<Rightarrow> json list result" where
  "json_items (Some (JArr xs)) = Inr xs"
| "json_items _ = Inl field_error"

definition json_float :: "adjudicator \<Rightarrow> json \<Rightarrow> rat result" where
  "json_float A j = (case ae_float (aj_env A) j of None \<Rightarrow> Inl field_error | Some r \<Rightarrow> Inr r)"

definition json_field :: "(string, json) dict \<Rightarrow> string \<Rightarrow> json result" where
  "json_field d k = (case dict_get d k of None \<Rightarrow> Inl field_error | Some j \<Rightarrow> Inr j)"

definition only_fields :: "(string, json) dict \<Rightarrow> string list \<Rightarrow> unit result" where
  "only_fields d ks = (if set (dict_keys d) \<subseteq> set ks then Inr () else Inl field_error)"

definition parse_proposal :: "adjudicator \<Rightarrow> (string, json) dict option \<Rightarrow> proposal result" where
  "parse_proposal A answer =
     (case answer of
        None \<Rightarrow> Inl field_error
      | Some d \<Rightarrow>
          bind_ok (only_fields d [''rendered_text'', ''confidence'', ''repair_reasons'']) (\<lambda>_.
          bind_ok (bind_ok (json_field d ''rendered_text'') json_string) (\<lambda>rendered.
          bind_ok (bind_ok (json_field d ''confidence'') (json_float A)) (\<lambda>c.
          bind_ok (bind_ok (json_items (dict_get d ''repair_reasons'')) (traverse reason_of)) (\<lambda>reasons.
            SpacingRepairProposal \<lparr>pp_rendered_text = rendered, pp_confidence = c, pp_repair_reasons = reasons\<rparr>)))))"

definition parse_verification :: "adjudicator \<Rightarrow> (string, json) dict option \<Rightarrow> verification result" where
  "parse_verification A answer =
     (case answer of
        None \<Rightarrow> Inl field_error
      | Some d \<Rightarrow>
          bind_ok (only_fields d [''candidate_id'', ''confidence'', ''validation_codes'']) (\<lambda>_.
          bind_ok (bind_ok (json_field d ''candidate_id'') json_string) (\<lambda>c.
          bind_ok (bind_ok (json_field d ''confidence'') (json_float A)) (\<lambda>r.
          bind_ok (if dict_get d ''validation_codes'' = None then Inr []
                   else bind_ok (json_items (dict_get d ''validation_codes'')) (traverse json_string)) (\<lambda>codes.
            SpacingVerification \<lparr>vr_candidate_id = c, vr_confidence = r, vr_validation_codes = codes\<rparr>)))))"

text \<open>The candidate of a proposal, refused when it has a defect.\<close>

definition checked_candidate :: "adjudicator \<Rightarrow> spacing_candidate \<Rightarrow> proposal \<Rightarrow> spacing_candidate result" where
  "checked_candidate A anchor p =
     (let E = ae_spacing (aj_env A)
      in bind_ok (build_generated_candidate E anchor (pp_rendered_text p) (pp_confidence p)) (\<lambda>g.
         bind_ok (case spacing_defect_codes (sp_digit E) g of [] \<Rightarrow> Inr () | code # _ \<Rightarrow> Inl (ValueError code)) (\<lambda>_. Inr g)))"

definition verification_codes :: "adjudicator \<Rightarrow> verification \<Rightarrow> bool \<Rightarrow> string list" where
  "verification_codes A v generated_selected =
     (let codes = filter (\<lambda>c. c \<noteq> ''VALID'') (vr_validation_codes v);
          codes = (if low_confidence A (vr_confidence v) \<and> ''LLM_CONFIDENCE_TOO_LOW'' \<notin> set codes then codes @ [''LLM_CONFIDENCE_TOO_LOW''] else codes)
      in if \<not> generated_selected \<and> length codes < 4 then codes @ [''LLM_GENERATED_CANDIDATE_REJECTED''] else codes)"

text \<open>The verification of a generated candidate, after the attempts so far.\<close>

definition verify_generated ::
  "adjudicator \<Rightarrow> vote_case \<Rightarrow> spacing_candidate list \<Rightarrow> spacing_candidate \<Rightarrow> proposal \<Rightarrow> vote_attempt list \<Rightarrow> decision result" where
  "verify_generated A x cs g p done =
     (let E = ae_spacing (aj_env A); n = length done + 1
      in bind_ok (spacing_verification_messages E (vc_set x) cs g) (\<lambda>messages.
         bind_ok (attempt_request_hash A (vc_request_hash x) Verification messages n) (\<lambda>hash.
         bind_ok (spacing_verification_schema (distinct_codes (map sc_candidate_id (cs @ [g])))) (\<lambda>schema.
           case generate_text_answer A n schema messages of
             Inl (Other_error e) \<Rightarrow> Inl e
           | Inl (Provider_error e) \<Rightarrow>
               bind_ok (rejected_attempt n Verification hash e) (\<lambda>a. deferred_candidate_record A x (done @ [a]) [pe_code e])
           | Inr r \<Rightarrow>
               bind_ok (parse_verification A (lr_structured r)) (\<lambda>v.
                 let selected = (vr_candidate_id v = sc_candidate_id g); codes = verification_codes A v selected;
                     accepted = (\<not> low_confidence A (pp_confidence p) \<and> \<not> low_confidence A (vr_confidence v) \<and> selected \<and> codes = [])
                 in bind_ok (result_attempt n Verification hash (Some (vr_candidate_id v)) (vr_confidence v)
                       (if accepted then Accepted_Vote else if low_confidence A (vr_confidence v) then Low_Confidence else Validation_Rejected)
                       codes r) (\<lambda>a.
                    if \<not> accepted then deferred_candidate_record A x (done @ [a]) []
                    else make_record A ((blank_decision x)\<lparr>de_selected := Some (sc_candidate_id g), de_outcome := Selected,
                           de_source := Generated_Source, de_confidence := min (pp_confidence p) (vr_confidence v),
                           de_codes := [''LLM_SPACING_REPAIR_APPLIED''], de_recovery_status := Was_Generated, de_attempts := done @ [a],
                           de_generated := Some (Built g)\<rparr>)))))))"

definition run_spacing_repair ::
  "adjudicator \<Rightarrow> vote_case \<Rightarrow> spacing_candidate list \<Rightarrow> spacing_candidate \<Rightarrow> vote_attempt list \<Rightarrow> decision result" where
  "run_spacing_repair A x cs anchor done =
     (let E = ae_spacing (aj_env A); n = length done + 1
      in bind_ok (spacing_generation_messages E (vc_set x) cs anchor) (\<lambda>messages.
         bind_ok (attempt_request_hash A (vc_request_hash x) Generation messages n) (\<lambda>hash.
           case generate_text_answer A n (ae_proposal_schema (aj_env A)) messages of
             Inl (Other_error e) \<Rightarrow> Inl e
           | Inl (Provider_error e) \<Rightarrow>
               bind_ok (rejected_attempt n Generation hash e) (\<lambda>a. deferred_candidate_record A x (done @ [a]) [pe_code e])
           | Inr r \<Rightarrow>
               bind_ok (parse_proposal A (lr_structured r)) (\<lambda>p.
                 case checked_candidate A anchor p of
                   Inl e \<Rightarrow>
                     if is_value_error e
                     then bind_ok (result_attempt n Generation hash None (pp_confidence p) Validation_Rejected [error_text A e] r) (\<lambda>a.
                            deferred_candidate_record A x (done @ [a]) [])
                     else Inl e
                 | Inr g \<Rightarrow>
                     let low = low_confidence A (pp_confidence p)
                     in bind_ok (result_attempt n Generation hash (Some (sc_candidate_id g)) (pp_confidence p)
                            (if low then Low_Confidence else Accepted_Vote) (if low then [''LLM_CONFIDENCE_TOO_LOW''] else []) r) (\<lambda>a.
                          verify_generated A x cs g p (done @ [a]))))))"

section \<open>Trusted decisions\<close>

definition cached_record :: "adjudicator \<Rightarrow> decision \<Rightarrow> decision result" where
  "cached_record A d =
     (let d = d\<lparr>de_source := Cache\<rparr> in bind_ok (decision_id (ae_spacing (aj_env A)) d) (\<lambda>i. Inr (d\<lparr>de_decision_id := i\<rparr>)))"

definition spacing_candidates :: "candidate list \<Rightarrow> spacing_candidate list" where
  "spacing_candidates cs = somes (map spacing_of cs)"

text \<open>A decision whose candidate was stored as a snapshot gets the candidate back, or is not usable.\<close>

definition materialize_generated_candidate :: "adjudicator \<Rightarrow> candidate_set \<Rightarrow> decision \<Rightarrow> decision option result" where
  "materialize_generated_candidate A s d =
     (case de_generated d of
        Some (Snapshot g) \<Rightarrow>
          let L = aj_library A; cs = spacing_candidates (cs_candidates s)
          in if cs_decision_type s \<noteq> D_Spacing \<or> gs_region_id g \<noteq> cs_region_id s then Inr None
             else case cs of
               [] \<Rightarrow> Inr None
             | c # _ \<Rightarrow>
                 let sequence = sc_character_sequence c; rendered = render_boundaries sequence (gs_boundaries g)
                 in if list_ex (\<lambda>c. sc_character_sequence c \<noteq> sequence) cs \<or> text_hash L sequence \<noteq> gs_character_sequence_hash g then Inr None
                    else if text_hash L rendered \<noteq> gs_rendered_text_hash g then Inr None
                    else (case make_spacing_candidate L (gs_region_id g) rendered sequence (gs_atom_ids g) (map bd_whitespace (gs_boundaries g))
                              (gs_score g) (gs_features g) (gs_mutable g) of
                            Inl e \<Rightarrow> if is_value_error e then Inr None else Inl e
                          | Inr m \<Rightarrow> Inr (if sc_candidate_id m \<noteq> gs_candidate_id g then None else Some (d\<lparr>de_generated := Some (Built m)\<rparr>)))
      | _ \<Rightarrow> Inr (Some d))"

definition diagnostic_decision_record :: "adjudicator \<Rightarrow> decision \<Rightarrow> decision result" where
  "diagnostic_decision_record A d =
     (case de_generated d of
        Some (Built c) \<Rightarrow>
          bind_ok (GeneratedSpacingSnapshot \<lparr>gs_candidate_id = sc_candidate_id c, gs_region_id = sc_region_id c, gs_atom_ids = sc_atom_ids c,
            gs_boundaries = sc_boundaries c, gs_mutable = sc_mutable c, gs_score = sc_score c, gs_features = sc_features c,
            gs_rendered_text_hash = text_hash (aj_library A) (sc_rendered_text c),
            gs_character_sequence_hash = text_hash (aj_library A) (sc_character_sequence c)\<rparr>) (\<lambda>g. Inr (d\<lparr>de_generated := Some (Snapshot g)\<rparr>))
      | _ \<Rightarrow> Inr d)"

fun hashes_match :: "adjudicator \<Rightarrow> string \<Rightarrow> phase \<Rightarrow> text_message list \<Rightarrow> string list \<Rightarrow> vote_attempt list \<Rightarrow> bool result" where
  "hashes_match A base p messages codes [] = Inr True"
| "hashes_match A base p messages codes (a # as) =
     bind_ok (active_messages messages codes) (\<lambda>active.
     bind_ok (attempt_request_hash A base p active (va_index a)) (\<lambda>hash.
       if va_request_hash a \<noteq> hash then Inr False
       else hashes_match A base p messages (if va_status a = Candidate_Unknown \<and> va_codes a \<noteq> [] then [last (va_codes a)] else []) as))"

text \<open>One phase: the attempts consumed and collected so far, None when the decision does not match.\<close>

definition phase_hashes ::
  "adjudicator \<Rightarrow> vote_case \<Rightarrow> vote_attempt list \<Rightarrow> (nat \<times> vote_attempt list) option \<Rightarrow> phase \<Rightarrow> (nat \<times> vote_attempt list) option result" where
  "phase_hashes A x as st p =
     (case st of
        None \<Rightarrow> Inr None
      | Some (consumed, prior) \<Rightarrow>
          let mine = filter (\<lambda>a. va_phase a = p) as
          in if mine = [] then Inr st
             else if take (length mine) (drop consumed as) \<noteq> mine then Inr None
             else bind_ok (vote_messages (ae_spacing (aj_env A)) (vc_set x) (vc_candidates x) p prior) (\<lambda>messages.
                  bind_ok (hashes_match A (vc_request_hash x) p messages [] mine) (\<lambda>same.
                    Inr (if same then Some (consumed + length mine, prior @ mine) else None))))"

definition repair_hashes :: "adjudicator \<Rightarrow> vote_case \<Rightarrow> decision \<Rightarrow> vote_attempt list \<Rightarrow> vote_attempt list \<Rightarrow> bool result" where
  "repair_hashes A x d prior rest =
     (let E = ae_spacing (aj_env A); cs = spacing_candidates (vc_candidates x);
          votes = filter (\<lambda>a. va_phase a = Primary \<and> va_candidate_id a \<noteq> None) prior
      in if cs_decision_type (vc_set x) \<noteq> D_Spacing \<or> \<not> list_all (\<lambda>c. spacing_of c \<noteq> None) (vc_candidates x) then Inr False
         else if votes = [] then Inr False
         else case filter (\<lambda>c. Some (sc_candidate_id c) = va_candidate_id (last votes)) cs of
           [] \<Rightarrow> Inr False
         | anchor # _ \<Rightarrow>
             if va_phase (hd rest) \<noteq> Generation then Inr False
             else bind_ok (spacing_generation_messages E (vc_set x) cs anchor) (\<lambda>messages.
                  bind_ok (attempt_request_hash A (vc_request_hash x) Generation messages (va_index (hd rest))) (\<lambda>hash.
                    if va_request_hash (hd rest) \<noteq> hash then Inr False
                    else case tl rest of
                      [] \<Rightarrow> Inr True
                    | v # others \<Rightarrow>
                        (case de_generated d of
                           Some (Built g) \<Rightarrow>
                             if va_phase v \<noteq> Verification \<or> others \<noteq> [] then Inr False
                             else bind_ok (spacing_verification_messages E (vc_set x) cs g) (\<lambda>messages.
                                  bind_ok (attempt_request_hash A (vc_request_hash x) Verification messages (va_index v)) (\<lambda>hash.
                                    Inr (va_request_hash v = hash)))
                         | _ \<Rightarrow> Inr False))))"

definition attempt_request_hashes_match :: "adjudicator \<Rightarrow> vote_case \<Rightarrow> decision \<Rightarrow> bool result" where
  "attempt_request_hashes_match A x d =
     (let as = de_attempts d
      in if as = [] then Inr True
         else if map va_index as \<noteq> [1..<length as + 1] then Inr False
         else bind_ok (fold_ok (phase_hashes A x as) (Some (0, [])) [Primary, Recovery, Tiebreak]) (\<lambda>st.
           case st of
             None \<Rightarrow> Inr False
           | Some (consumed, prior) \<Rightarrow>
               if drop consumed as = [] then Inr True else repair_hashes A x d prior (drop consumed as)))"

definition counts_match :: "decision \<Rightarrow> bool" where
  "counts_match d \<longleftrightarrow> de_retry_count d = sum_list (map va_retry_count (de_attempts d))
     \<and> de_repair_count d = sum_list (map va_repair_count (de_attempts d))"

definition generated_audit_matches :: "adjudicator \<Rightarrow> vote_case \<Rightarrow> decision \<Rightarrow> bool" where
  "generated_audit_matches A x d =
     (case de_generated d of
        Some (Built g) \<Rightarrow>
          let as = de_attempts d; votes = take (length as - 2) as; primary = last votes; gen = as ! (length as - 2); ver = last as;
              high = (\<not> low_confidence A (va_confidence primary))
          in de_source d \<in> {Generated_Source, Cache} \<and> 3 \<le> length as
             \<and> list_all (\<lambda>a. va_phase a = Primary) votes \<and> list_all (\<lambda>a. va_status a = Candidate_Unknown) (butlast votes)
             \<and> va_candidate_id primary \<in> Some ` allowlist x \<and> va_status primary = (if high then Accepted_Vote else Low_Confidence)
             \<and> va_codes primary = (if high then [] else [''LLM_CONFIDENCE_TOO_LOW''])
             \<and> va_phase gen = Generation \<and> va_phase ver = Verification \<and> va_status gen = Accepted_Vote \<and> va_status ver = Accepted_Vote
             \<and> va_candidate_id gen = Some (sc_candidate_id g) \<and> va_candidate_id ver = Some (sc_candidate_id g)
             \<and> \<not> low_confidence A (va_confidence gen) \<and> \<not> low_confidence A (va_confidence ver) \<and> va_codes gen = [] \<and> va_codes ver = []
             \<and> de_confidence d = min (va_confidence gen) (va_confidence ver) \<and> de_codes d = [''LLM_SPACING_REPAIR_APPLIED''] \<and> counts_match d
      | _ \<Rightarrow> False)"

definition primary_audit_matches :: "adjudicator \<Rightarrow> vote_case \<Rightarrow> decision \<Rightarrow> bool" where
  "primary_audit_matches A x d \<longleftrightarrow>
     (let as = de_attempts d; terminal = last as
      in de_source d \<in> {Model, Cache} \<and> as \<noteq> [] \<and> list_all (\<lambda>a. va_phase a = Primary) as
         \<and> list_all (\<lambda>a. va_status a = Candidate_Unknown) (butlast as)
         \<and> va_status terminal = Accepted_Vote \<and> va_candidate_id terminal \<in> Some ` allowlist x \<and> va_candidate_id terminal = de_selected d
         \<and> \<not> low_confidence A (va_confidence terminal) \<and> va_confidence terminal = de_confidence d \<and> va_codes terminal = [] \<and> de_codes d = []
         \<and> counts_match d)"

text \<open>The vote of a phase in an audit, None when the phase is not as the code writes it.\<close>

definition phase_vote :: "adjudicator \<Rightarrow> vote_case \<Rightarrow> vote_attempt list \<Rightarrow> phase \<Rightarrow> vote_attempt option" where
  "phase_vote A x as p =
     (let mine = filter (\<lambda>a. va_phase a = p) as; valid = filter (\<lambda>a. va_status a \<in> {Accepted_Vote, Low_Confidence}) mine
      in if length valid = 1 \<and> last mine = hd valid \<and> list_all (\<lambda>a. va_status a = Candidate_Unknown) (butlast mine)
            \<and> va_candidate_id (hd valid) \<in> Some ` allowlist x
            \<and> va_status (hd valid) = (if low_confidence A (va_confidence (hd valid)) then Low_Confidence else Accepted_Vote)
         then Some (hd valid) else None)"

text \<open>\<open>Counter(xs).most_common(1)\<close>: the first of the most frequent and how often it occurs.\<close>

definition most_common :: "'a list \<Rightarrow> 'a \<times> nat" where
  "most_common xs = fold (\<lambda>k m. if snd m < count_list xs k then (k, count_list xs k) else m) xs (hd xs, 0)"

definition recovery_audit_matches :: "adjudicator \<Rightarrow> vote_case \<Rightarrow> decision \<Rightarrow> bool" where
  "recovery_audit_matches A x d \<longleftrightarrow>
     (let as = de_attempts d; phases = (if de_consensus d = Same_Candidate then [Primary, Recovery] else [Primary, Recovery, Tiebreak])
      in map va_index as = [1..<length as + 1] \<and> distinct (map va_request_hash as)
         \<and> dict_keys (dict_of id id (map va_phase as)) = phases
         \<and> (case map (phase_vote A x as) phases of
              [Some primary, Some recovery] \<Rightarrow>
                va_status primary = Low_Confidence \<and> va_status recovery = Accepted_Vote \<and> va_candidate_id primary = va_candidate_id recovery
                \<and> de_recovery_count d = 1 \<and> va_candidate_id recovery = de_consensus_id d \<and> va_confidence recovery = de_confidence d
            | [Some primary, Some recovery, Some tiebreak] \<Rightarrow>
                (let m = most_common [va_candidate_id primary, va_candidate_id recovery, va_candidate_id tiebreak]
                 in va_status primary = Low_Confidence \<and> va_status recovery = Accepted_Vote \<and> va_candidate_id primary \<noteq> va_candidate_id recovery
                \<and> va_status tiebreak = Accepted_Vote \<and> de_recovery_count d = 2
                \<and> po_consensus_votes_required (aj_policy A) \<le> snd m \<and> va_candidate_id tiebreak = fst m
                \<and> va_candidate_id tiebreak = de_consensus_id d \<and> va_confidence tiebreak = de_confidence d)
            | _ \<Rightarrow> False)
         \<and> de_codes d = [''LLM_LOW_CONFIDENCE_RECOVERED''] \<and> counts_match d)"

definition selected_is_current :: "adjudicator \<Rightarrow> vote_case \<Rightarrow> decision \<Rightarrow> bool" where
  "selected_is_current A x d \<longleftrightarrow>
     de_selected d \<in> Some ` allowlist x
     \<or> (case de_generated d of
          Some (Built g) \<Rightarrow> Some (sc_candidate_id g) = de_selected d \<and> sc_region_id g = cs_region_id (vc_set x)
            \<and> cs_decision_type (vc_set x) = D_Spacing
            \<and> list_all (\<lambda>c. case spacing_of c of None \<Rightarrow> False
                 | Some c \<Rightarrow> sc_character_sequence c = sc_character_sequence g \<and> sc_mutable c = sc_mutable g) (cs_candidates (vc_set x))
            \<and> spacing_defect_codes (sp_digit (ae_spacing (aj_env A))) g = []
        | _ \<Rightarrow> False)"

definition binding_matches :: "vote_case \<Rightarrow> decision \<Rightarrow> bool" where
  "binding_matches x d \<longleftrightarrow> de_request_hash d = vc_request_hash x \<and> de_source_hash d = cs_source_hash (vc_set x)
     \<and> de_evidence_hash d = vc_evidence_hash x \<and> de_candidate_set_id d = cs_candidate_set_id (vc_set x)
     \<and> de_region_id d = cs_region_id (vc_set x) \<and> de_provider d = vc_provider x \<and> de_model d = vc_model x \<and> de_outcome d = Selected"

definition identity_matches :: "adjudicator \<Rightarrow> decision \<Rightarrow> bool result" where
  "identity_matches A d = bind_ok (decision_id (ae_spacing (aj_env A)) d) (\<lambda>i. Inr (de_decision_id d = i))"

definition audit_matches :: "adjudicator \<Rightarrow> vote_case \<Rightarrow> decision \<Rightarrow> bool" where
  "audit_matches A x d \<longleftrightarrow>
     (if de_recovery_status d = Was_Generated then generated_audit_matches A x d
      else if de_recovery_status d \<noteq> Was_Recovered
      then de_consensus d = No_Consensus \<and> de_recovery_count d = 0 \<and> primary_audit_matches A x d
      else de_consensus d \<in> {Same_Candidate, Two_Of_Three} \<and> de_consensus_id d = de_selected d
        \<and> de_consensus_id d \<in> Some ` allowlist x \<and> de_attempts d \<noteq> [] \<and> recovery_audit_matches A x d)"

definition trusted_decision_matches :: "adjudicator \<Rightarrow> vote_case \<Rightarrow> decision \<Rightarrow> bool result" where
  "trusted_decision_matches A x d =
     (if \<not> (binding_matches x d \<and> selected_is_current A x d) then Inr False
      else bind_ok (attempt_request_hashes_match A x d) (\<lambda>same.
        if \<not> same \<or> \<not> audit_matches A x d then Inr False else identity_matches A d))"

fun find_trusted :: "adjudicator \<Rightarrow> vote_case \<Rightarrow> decision list \<Rightarrow> decision option result" where
  "find_trusted A x [] = Inr None"
| "find_trusted A x (d # ds) =
     bind_ok (materialize_generated_candidate A (vc_set x) d) (\<lambda>current.
       case current of
         None \<Rightarrow> find_trusted A x ds
       | Some d' \<Rightarrow> bind_ok (trusted_decision_matches A x d') (\<lambda>matched. if matched then Inr (Some d') else find_trusted A x ds))"

section \<open>The decision\<close>

definition table_structure_signature :: "library \<Rightarrow> table_candidate \<Rightarrow> string result" where
  "table_structure_signature L t =
     canonical_hash L (PDict [(''row_count'', PInt (tc_row_count t)), (''column_count'', PInt (tc_column_count t)),
       (''cells'', PSeq (map (\<lambda>c. PDict [(''start_row'', PInt (cc_start_row c)), (''end_row'', PInt (cc_end_row c)),
          (''start_column'', PInt (cc_start_column c)), (''end_column'', PInt (cc_end_column c)),
          (''atom_ids'', string_seq (cc_atom_ids c)), (''column_header'', PBool (cc_column_header c))]) (tc_cells t)))])"

fun table_of :: "candidate \<Rightarrow> table_candidate option" where
  "table_of (Table_Cand t) = Some t"
| "table_of _ = None"

text \<open>The proven table, when all proven tables have one structure.\<close>

definition proven_table :: "adjudicator \<Rightarrow> candidate list \<Rightarrow> table_candidate option result" where
  "proven_table A cs =
     (case somes (map table_of (filter is_invariant_proven_table cs)) of
        [] \<Rightarrow> Inr None
      | t # ts \<Rightarrow>
          bind_ok (traverse (table_structure_signature (aj_library A)) (t # ts)) (\<lambda>signatures.
            if card (set signatures) = 1
            then bind_ok (largest (\<lambda>t. (tc_score t, tc_candidate_id t)) (t # ts)) (\<lambda>best. Inr (Some best)) else Inr None))"

definition auto_accepted :: "adjudicator \<Rightarrow> candidate list \<Rightarrow> bool" where
  "auto_accepted A cs \<longleftrightarrow>
     (let best = hd cs; runner = (case tl cs of [] \<Rightarrow> 0 | c # _ \<Rightarrow> candidate_score c)
      in po_auto_accept_score (aj_policy A) \<le> candidate_score best \<and> po_auto_accept_margin (aj_policy A) \<le> candidate_score best - runner
         \<and> (case spacing_of best of None \<Rightarrow> True | Some c \<Rightarrow> spacing_defect_codes (sp_digit (ae_spacing (aj_env A))) c = []))"

definition deterministic_record :: "adjudicator \<Rightarrow> vote_case \<Rightarrow> string \<Rightarrow> rat \<Rightarrow> decision result" where
  "deterministic_record A x c confidence =
     make_record A ((blank_decision x)\<lparr>de_selected := Some c, de_outcome := Selected, de_source := Deterministic, de_confidence := confidence\<rparr>)"

definition recovered_record :: "adjudicator \<Rightarrow> vote_case \<Rightarrow> string \<Rightarrow> rat \<Rightarrow> vote_attempt list \<Rightarrow> consensus \<Rightarrow> nat \<Rightarrow> decision result" where
  "recovered_record A x c confidence atts method n =
     make_record A ((blank_decision x)\<lparr>de_selected := Some c, de_outcome := Selected, de_source := Recovered, de_confidence := confidence,
       de_codes := [''LLM_LOW_CONFIDENCE_RECOVERED''], de_recovery_status := Was_Recovered, de_attempts := atts, de_consensus := method,
       de_consensus_id := Some c, de_recovery_count := n\<rparr>)"

text \<open>The tie between two different votes.\<close>

definition break_tie :: "adjudicator \<Rightarrow> vote_case \<Rightarrow> string \<Rightarrow> string \<Rightarrow> vote_attempt list \<Rightarrow> decision result" where
  "break_tie A x first second atts =
     (if po_max_confidence_recovery_attempts (aj_policy A) < 2 then deferred_candidate_record A x atts [''LLM_CONSENSUS_NOT_REACHED'']
      else bind_ok (run_vote_phase A x Tiebreak atts (length atts + 1)) (\<lambda>tiebreak.
        let atts' = atts @ vp_attempts tiebreak
        in case vp_choice tiebreak of
             None \<Rightarrow> deferred_candidate_record A x atts' (vp_codes tiebreak)
           | Some (third, confidence) \<Rightarrow>
               let (majority, count) = most_common [first, second, third]
               in if \<not> low_confidence A confidence \<and> po_consensus_votes_required (aj_policy A) \<le> count \<and> third = majority
                  then recovered_record A x majority confidence atts' Two_Of_Three 2
                  else deferred_candidate_record A x atts' [''LLM_CONSENSUS_NOT_REACHED'']))"

text \<open>The recovery from a primary vote of low confidence.\<close>

definition recover_vote :: "adjudicator \<Rightarrow> vote_case \<Rightarrow> string \<Rightarrow> vote_attempt list \<Rightarrow> decision result" where
  "recover_vote A x first done =
     (if po_max_confidence_recovery_attempts (aj_policy A) < 1 then deferred_candidate_record A x done [''LLM_CONFIDENCE_TOO_LOW'']
      else bind_ok (run_vote_phase A x Recovery done (length done + 1)) (\<lambda>recovery.
        let atts = done @ vp_attempts recovery
        in case vp_choice recovery of
             None \<Rightarrow> deferred_candidate_record A x atts (vp_codes recovery)
           | Some (second, confidence) \<Rightarrow>
               if low_confidence A confidence then deferred_candidate_record A x atts [''LLM_CONFIDENCE_RECOVERY_EXHAUSTED'']
               else if second \<noteq> first then break_tie A x first second atts
               else recovered_record A x second confidence atts Same_Candidate 1))"

definition candidate_with_id :: "candidate list \<Rightarrow> string \<Rightarrow> candidate result" where
  "candidate_with_id cs c = (case filter (\<lambda>k. candidate_id k = c) cs of [] \<Rightarrow> Inl (OSError ''StopIteration'') | k # _ \<Rightarrow> Inr k)"

definition decide_by_vote :: "adjudicator \<Rightarrow> vote_case \<Rightarrow> decision result" where
  "decide_by_vote A x =
     bind_ok (run_vote_phase A x Primary [] 1) (\<lambda>primary.
       case vp_choice primary of
         None \<Rightarrow> deferred_candidate_record A x (vp_attempts primary) (vp_codes primary)
       | Some (c, confidence) \<Rightarrow>
           bind_ok (candidate_with_id (vc_candidates x) c) (\<lambda>chosen.
             case spacing_of chosen of
               Some anchor \<Rightarrow>
                 if low_confidence A confidence \<or> spacing_defect_codes (sp_digit (ae_spacing (aj_env A))) anchor \<noteq> []
                 then run_spacing_repair A x (spacing_candidates (vc_candidates x)) anchor (vp_attempts primary)
                 else make_record A ((blank_decision x)\<lparr>de_selected := Some c, de_outcome := Selected, de_source := Model,
                        de_confidence := confidence, de_attempts := vp_attempts primary, de_retry_count := vp_retry_count primary,
                        de_repair_count := vp_repair_count primary\<rparr>)
             | None \<Rightarrow>
                 if \<not> low_confidence A confidence
                 then make_record A ((blank_decision x)\<lparr>de_selected := Some c, de_outcome := Selected, de_source := Model,
                        de_confidence := confidence, de_attempts := vp_attempts primary, de_retry_count := vp_retry_count primary,
                        de_repair_count := vp_repair_count primary\<rparr>)
                 else recover_vote A x c (vp_attempts primary)))"

definition ranked_candidates :: "adjudicator \<Rightarrow> candidate_set \<Rightarrow> candidate list" where
  "ranked_candidates A s = take (po_max_candidates (aj_policy A)) (sort_key (\<lambda>c. (- candidate_score c, candidate_id c)) (cs_candidates s))"

definition decide_case :: "adjudicator \<Rightarrow> vote_case \<Rightarrow> decision result" where
  "decide_case A x =
     bind_ok (proven_table A (vc_candidates x)) (\<lambda>proven.
       case proven of
         Some t \<Rightarrow> deterministic_record A x (tc_candidate_id t) 1
       | None \<Rightarrow>
           if auto_accepted A (vc_candidates x)
           then deterministic_record A x (candidate_id (hd (vc_candidates x))) (candidate_score (hd (vc_candidates x)))
           else bind_ok (find_trusted A x (aj_trusted A)) (\<lambda>trusted.
             case trusted of
               Some d \<Rightarrow> cached_record A d
             | None \<Rightarrow>
                 if aj_capabilities A = None then deferred_candidate_record A x [] [''LLM_PROVIDER_UNAVAILABLE'']
                 else decide_by_vote A x))"

definition decide :: "adjudicator \<Rightarrow> candidate_set \<Rightarrow> string option \<Rightarrow> string option \<Rightarrow> decision result" where
  "decide A s page_crop evidence_hash =
     (let cs = ranked_candidates A s; (provider, model) = provider_identity A
      in if cs = [] then Inl (ValueError ''ADJUDICATION_CANDIDATES_EMPTY'')
         else bind_ok (case evidence_hash of
                  Some (h # hs) \<Rightarrow> Inr (h # hs) | _ \<Rightarrow> canonical_hash (aj_library A) (candidate_set_dump (ae_spacing (aj_env A)) s)) (\<lambda>evidence.
              bind_ok (request_hash A s evidence page_crop) (\<lambda>request.
                decide_case A \<lparr>vc_set = s, vc_candidates = cs, vc_request_hash = request, vc_evidence_hash = evidence,
                  vc_provider = provider, vc_model = model, vc_page_crop = page_crop\<rparr>)))"

end
