(* ===== verification/Adjudication_Facts.thy ===== *)
theory Adjudication_Facts
  imports Adjudication
begin

text \<open>
  What the adjudication guarantees: the audit every phase leaves, the ways a decision comes about, which candidates may
  be selected and on what votes, and that a stored decision is taken again without a call of the provider.
\<close>

section \<open>The audit of a phase\<close>

definition attempt_is :: "adjudicator \<Rightarrow> vote_case \<Rightarrow> (string \<times> rat) option \<Rightarrow> vote_attempt \<Rightarrow> bool" where
  "attempt_is A x choice a \<longleftrightarrow>
     (case choice of
        None \<Rightarrow> va_candidate_id a = None \<and> va_status a \<in> {Candidate_Unknown, Provider_Rejected}
      | Some (c, r) \<Rightarrow> c \<in> allowlist x \<and> va_candidate_id a = Some c \<and> va_confidence a = r
          \<and> va_status a = (if low_confidence A r then Low_Confidence else Accepted_Vote)
          \<and> va_codes a = (if low_confidence A r then [''LLM_CONFIDENCE_TOO_LOW''] else []))"

definition unknown_vote :: "vote_attempt \<Rightarrow> bool" where
  "unknown_vote a \<longleftrightarrow> va_candidate_id a = None \<and> va_status a = Candidate_Unknown \<and> va_codes a = [''LLM_CANDIDATE_UNKNOWN'']"

definition phase_audit ::
  "adjudicator \<Rightarrow> vote_case \<Rightarrow> phase \<Rightarrow> text_message list \<Rightarrow> string list \<Rightarrow> nat \<Rightarrow> (string \<times> rat) option \<Rightarrow> vote_attempt list \<Rightarrow> bool" where
  "phase_audit A x p messages codes n choice as \<longleftrightarrow>
     as \<noteq> [] \<and> list_all (\<lambda>a. va_phase a = p) as \<and> map va_index as = [n..<n + length as] \<and> list_all unknown_vote (butlast as)
     \<and> attempt_is A x choice (last as) \<and> hashes_match A (vc_request_hash x) p messages codes as = Inr True"

lemma AdjudicationAttempt_Inr: "AdjudicationAttempt a = Inr b \<Longrightarrow> b = a"
  by (simp add: AdjudicationAttempt_def split: if_splits)

lemma phase_audit_one:
  assumes "active_messages messages codes = Inr active" and "attempt_request_hash A (vc_request_hash x) p active n = Inr hash"
    and "va_index a = n" and "va_phase a = p" and "va_request_hash a = hash" and "attempt_is A x choice a"
  shows "phase_audit A x p messages codes n choice [a]"
  using assms by (auto simp: phase_audit_def)

lemma active_messages_last: "active_messages messages (codes @ [c]) = active_messages messages [c]"
  by (simp add: active_messages_def)

lemma hashes_match_last: "hashes_match A base p messages (codes @ [c]) as = hashes_match A base p messages [c] as"
  by (cases as) (simp_all add: active_messages_last)

lemma phase_audit_more:
  assumes "active_messages messages codes = Inr active" and "attempt_request_hash A (vc_request_hash x) p active n = Inr hash"
    and "va_index a = n" and "va_phase a = p" and "va_request_hash a = hash" and "unknown_vote a"
    and "phase_audit A x p messages (codes @ [''LLM_CANDIDATE_UNKNOWN'']) (Suc n) choice as"
  shows "phase_audit A x p messages codes n choice (a # as)"
proof -
  note audit = assms(7) [unfolded phase_audit_def]
  from audit have m: "hashes_match A (vc_request_hash x) p messages [''LLM_CANDIDATE_UNKNOWN''] as = Inr True"
    by (simp only: hashes_match_last)
  have "hashes_match A (vc_request_hash x) p messages codes (a # as) = Inr True"
    using assms(1-6) m by (simp add: unknown_vote_def)
  moreover have "map va_index (a # as) = [n..<n + length (a # as)]"
    using audit assms(3) by (simp add: upt_conv_Cons del: upt_Suc)
  ultimately show ?thesis using audit assms(4,6) by (simp add: phase_audit_def del: hashes_match.simps upt_Suc)
qed

lemma vote_loop_audit:
  "vote_loop A x p messages [n..<m] done codes = Inr v \<Longrightarrow>
     \<exists>as. vp_attempts v = done @ as \<and> length as \<le> m - n \<and> phase_audit A x p messages codes n (vp_choice v) as"
proof (induction "m - n" arbitrary: n "done" codes)
  case 0
  then show ?case by simp
next
  case (Suc k)
  then have n: "[n..<m] = n # [Suc n..<m]" "n < m" by (simp_all add: upt_conv_Cons)
  from Suc.prems obtain active hash where am: "active_messages messages codes = Inr active"
    and ah: "attempt_request_hash A (vc_request_hash x) p active n = Inr hash"
    by (auto simp: n(1))
  note one = phase_audit_one [OF am ah] and more = phase_audit_more [OF am ah]
  show ?case
  proof (cases "generate_choice A n (vc_page_crop x) active")
    case (Inl e)
    then obtain f where f: "e = Provider_error f" using Suc.prems am ah by (cases e) (auto simp: n(1))
    then obtain a where a: "rejected_attempt n p hash f = Inr a" and v: "vp_choice v = None" "vp_attempts v = done @ [a]"
      using Suc.prems am ah Inl by (auto simp: n(1))
    have "phase_audit A x p messages codes n None [a]"
      using a by (intro one) (auto simp: rejected_attempt_def attempt_is_def dest!: AdjudicationAttempt_Inr)
    then show ?thesis using v n(2) by auto
  next
    case (Inr r)
    then obtain c q where c: "candidate_choice A (lr_structured r) = Inr (c, q)" using Suc.prems am ah by (auto simp: n(1))
    show ?thesis
    proof (cases "c \<in> allowlist x")
      case True
      then obtain a where a: "result_attempt n p hash (Some c) q (if low_confidence A q then Low_Confidence else Accepted_Vote)
            (if low_confidence A q then [''LLM_CONFIDENCE_TOO_LOW''] else []) r = Inr a"
        and v: "vp_choice v = Some (c, q)" "vp_attempts v = done @ [a]"
        using Suc.prems am ah Inr c by (auto simp: n(1) Let_def)
      have "phase_audit A x p messages codes n (Some (c, q)) [a]"
        using a True by (intro one) (auto simp: result_attempt_def attempt_is_def dest!: AdjudicationAttempt_Inr)
      then show ?thesis using v n(2) by auto
    next
      case False
      then obtain a where a: "result_attempt n p hash None q Candidate_Unknown [''LLM_CANDIDATE_UNKNOWN''] r = Inr a"
        and v: "(if [Suc n..<m] \<noteq> [] then vote_loop A x p messages [Suc n..<m] (done @ [a]) (codes @ [''LLM_CANDIDATE_UNKNOWN''])
            else Inr \<lparr>vp_choice = None, vp_attempts = done @ [a], vp_codes = codes @ [''LLM_CANDIDATE_UNKNOWN''],
                   vp_retry_count = md_retry_count (lr_metadata r), vp_repair_count = md_repair_count (lr_metadata r)\<rparr>) = Inr v"
        using Suc.prems am ah Inr c by (auto simp only: n(1) vote_loop.simps bind_ok_Inr_iff bind_ok.simps sum.case prod.case if_False if_True simp_thms)
      have af: "va_index a = n" "va_phase a = p" "va_request_hash a = hash" "unknown_vote a"
        using a by (auto simp: result_attempt_def unknown_vote_def dest!: AdjudicationAttempt_Inr)
      show ?thesis
      proof (cases "Suc n < m")
        case True
        then have "vote_loop A x p messages [Suc n..<m] (done @ [a]) (codes @ [''LLM_CANDIDATE_UNKNOWN'']) = Inr v" using v by simp
        moreover have "k = m - Suc n" using Suc.hyps(2) by linarith
        ultimately obtain as where as: "vp_attempts v = (done @ [a]) @ as" "length as \<le> m - Suc n"
          "phase_audit A x p messages (codes @ [''LLM_CANDIDATE_UNKNOWN'']) (Suc n) (vp_choice v) as"
          using Suc.hyps(1) by blast
        from more [OF af as(3)] as(1,2) n(2) show ?thesis by (intro exI [of _ "a # as"]) auto
      next
        case False
        then have v': "vp_choice v = None" "vp_attempts v = done @ [a]" using v by auto
        have "phase_audit A x p messages codes n None [a]" using af by (intro one) (auto simp: attempt_is_def unknown_vote_def)
        then show ?thesis using v' n(2) by auto
      qed
    qed
  qed
qed

lemma vote_phase_audit:
  assumes "run_vote_phase A x p prior n = Inr v"
  shows "\<exists>messages. vote_messages (ae_spacing (aj_env A)) (vc_set x) (vc_candidates x) p prior = Inr messages
     \<and> length (vp_attempts v) \<le> po_max_schema_attempts (aj_policy A) \<and> phase_audit A x p messages [] n (vp_choice v) (vp_attempts v)"
  using assms by (auto simp: run_vote_phase_def dest!: vote_loop_audit)

text \<open>A phase that was run after the attempts before it.\<close>

definition voted :: "adjudicator \<Rightarrow> vote_case \<Rightarrow> phase \<Rightarrow> vote_attempt list \<Rightarrow> (string \<times> rat) option \<Rightarrow> vote_attempt list \<Rightarrow> bool" where
  "voted A x p prior choice as \<longleftrightarrow>
     (\<exists>messages. vote_messages (ae_spacing (aj_env A)) (vc_set x) (vc_candidates x) p prior = Inr messages
        \<and> phase_audit A x p messages [] (length prior + 1) choice as)"

lemma run_voted: "run_vote_phase A x p prior (length prior + 1) = Inr v \<Longrightarrow> voted A x p prior (vp_choice v) (vp_attempts v)"
  using vote_phase_audit [of A x p prior "length prior + 1" v] by (auto simp: voted_def)

section \<open>How a decision comes about\<close>

definition repair_attempt :: "adjudicator \<Rightarrow> vote_case \<Rightarrow> phase \<Rightarrow> text_message list \<Rightarrow> nat \<Rightarrow> spacing_candidate \<Rightarrow> vote_attempt \<Rightarrow> bool" where
  "repair_attempt A x p messages n g a \<longleftrightarrow>
     attempt_request_hash A (vc_request_hash x) p messages n = Inr (va_request_hash a) \<and> va_phase a = p \<and> va_index a = n
     \<and> va_candidate_id a = Some (sc_candidate_id g) \<and> va_status a = Accepted_Vote \<and> va_codes a = [] \<and> \<not> low_confidence A (va_confidence a)"

text \<open>A candidate built from a proposal on the ground of the primary vote, and confirmed by the verification.\<close>

definition built_for ::
  "adjudicator \<Rightarrow> vote_case \<Rightarrow> vote_attempt list \<Rightarrow> spacing_candidate \<Rightarrow> spacing_candidate \<Rightarrow> vote_attempt \<Rightarrow> vote_attempt \<Rightarrow> bool" where
  "built_for A x votes anchor g a b \<longleftrightarrow>
     (\<exists>proposal m1 m2 r. voted A x Primary [] (Some (sc_candidate_id anchor, r)) votes \<and> Spacing_Cand anchor \<in> set (vc_candidates x)
        \<and> filter (\<lambda>k. candidate_id k = sc_candidate_id anchor) (vc_candidates x) \<noteq> []
        \<and> hd (filter (\<lambda>k. candidate_id k = sc_candidate_id anchor) (vc_candidates x)) = Spacing_Cand anchor
        \<and> checked_candidate A anchor proposal = Inr g
        \<and> spacing_generation_messages (ae_spacing (aj_env A)) (vc_set x) (spacing_candidates (vc_candidates x)) anchor = Inr m1
        \<and> spacing_verification_messages (ae_spacing (aj_env A)) (vc_set x) (spacing_candidates (vc_candidates x)) g = Inr m2
        \<and> repair_attempt A x Generation m1 (length votes + 1) g a \<and> repair_attempt A x Verification m2 (length votes + 2) g b)"

definition selected_decision :: "vote_case \<Rightarrow> string \<Rightarrow> decision_source \<Rightarrow> rat \<Rightarrow> vote_attempt list \<Rightarrow> decision" where
  "selected_decision x c src confidence as =
     (blank_decision x)\<lparr>de_selected := Some c, de_outcome := Selected, de_source := src, de_confidence := confidence, de_attempts := as\<rparr>"

definition model_decided :: "adjudicator \<Rightarrow> vote_case \<Rightarrow> decision \<Rightarrow> bool" where
  "model_decided A x d \<longleftrightarrow>
     (\<exists>c r votes i j. voted A x Primary [] (Some (c, r)) votes \<and> \<not> low_confidence A r
        \<and> make_record A ((selected_decision x c Model r votes)\<lparr>de_retry_count := i, de_repair_count := j\<rparr>) = Inr d)"

definition recovery_decided :: "adjudicator \<Rightarrow> vote_case \<Rightarrow> decision \<Rightarrow> bool" where
  "recovery_decided A x d \<longleftrightarrow>
     (\<exists>c q r votes again. voted A x Primary [] (Some (c, q)) votes \<and> voted A x Recovery votes (Some (c, r)) again
        \<and> low_confidence A q \<and> \<not> low_confidence A r \<and> recovered_record A x c r (votes @ again) Same_Candidate 1 = Inr d)"

definition tiebreak_decided :: "adjudicator \<Rightarrow> vote_case \<Rightarrow> decision \<Rightarrow> bool" where
  "tiebreak_decided A x d \<longleftrightarrow>
     (\<exists>c c' m q r s votes again third. voted A x Primary [] (Some (c, q)) votes \<and> voted A x Recovery votes (Some (c', r)) again
        \<and> voted A x Tiebreak (votes @ again) (Some (m, s)) third
        \<and> low_confidence A q \<and> \<not> low_confidence A r \<and> \<not> low_confidence A s \<and> c' \<noteq> c \<and> fst (most_common [c, c', m]) = m
        \<and> po_consensus_votes_required (aj_policy A) \<le> snd (most_common [c, c', m])
        \<and> recovered_record A x m s (votes @ again @ third) Two_Of_Three 2 = Inr d)"

definition repair_decided :: "adjudicator \<Rightarrow> vote_case \<Rightarrow> decision \<Rightarrow> bool" where
  "repair_decided A x d \<longleftrightarrow>
     (\<exists>votes anchor g a b. built_for A x votes anchor g a b
        \<and> make_record A ((selected_decision x (sc_candidate_id g) Generated_Source (min (va_confidence a) (va_confidence b)) (votes @ [a, b]))
             \<lparr>de_codes := [''LLM_SPACING_REPAIR_APPLIED''], de_recovery_status := Was_Generated, de_generated := Some (Built g)\<rparr>) = Inr d)"

definition deferred_decided :: "adjudicator \<Rightarrow> vote_case \<Rightarrow> decision \<Rightarrow> bool" where
  "deferred_decided A x d \<longleftrightarrow> (\<exists>as codes. deferred_candidate_record A x as codes = Inr d)"

lemma deferred_decidedI: "deferred_candidate_record A x as codes = Inr d \<Longrightarrow> deferred_decided A x d"
  by (auto simp: deferred_decided_def)

lemma break_tie_decided:
  assumes t: "break_tie A x c c' (votes @ again) = Inr d"
    and v: "voted A x Primary [] (Some (c, q)) votes" "voted A x Recovery votes (Some (c', r)) again"
    and l: "low_confidence A q" "\<not> low_confidence A r" "c' \<noteq> c"
  shows "deferred_decided A x d \<or> tiebreak_decided A x d"
proof (cases "po_max_confidence_recovery_attempts (aj_policy A) < 2")
  case True
  then show ?thesis using t by (auto simp: break_tie_def intro: deferred_decidedI)
next
  case False
  then obtain w where w: "run_vote_phase A x Tiebreak (votes @ again) (length (votes @ again) + 1) = Inr w"
    using t by (auto simp: break_tie_def)
  note tv = run_voted [OF w]
  show ?thesis
  proof (cases "vp_choice w")
    case None
    then show ?thesis using t w False by (auto simp: break_tie_def Let_def intro: deferred_decidedI)
  next
    case (Some ms)
    obtain m s where ms: "ms = (m, s)" by (cases ms)
    obtain k n where k: "most_common [c, c', m] = (k, n)" by (cases "most_common [c, c', m]")
    show ?thesis
    proof (cases "\<not> low_confidence A s \<and> po_consensus_votes_required (aj_policy A) \<le> n \<and> m = k")
      case True
      then have "recovered_record A x m s (votes @ again @ vp_attempts w) Two_Of_Three 2 = Inr d"
        using t w False Some ms k by (simp add: break_tie_def Let_def)
      then show ?thesis unfolding tiebreak_decided_def using v l tv Some ms True k by (metis fst_conv snd_conv)
    next
      case F: False
      then show ?thesis using t w False Some ms k by (auto simp: break_tie_def Let_def intro: deferred_decidedI)
    qed
  qed
qed

lemma recover_vote_decided:
  assumes t: "recover_vote A x c votes = Inr d" and v: "voted A x Primary [] (Some (c, q)) votes" and l: "low_confidence A q"
  shows "deferred_decided A x d \<or> recovery_decided A x d \<or> tiebreak_decided A x d"
proof (cases "po_max_confidence_recovery_attempts (aj_policy A) < 1")
  case True
  then show ?thesis using t by (auto simp: recover_vote_def intro: deferred_decidedI)
next
  case False
  then obtain w where w: "run_vote_phase A x Recovery votes (length votes + 1) = Inr w" using t by (auto simp: recover_vote_def)
  note rv = run_voted [OF w]
  show ?thesis
  proof (cases "vp_choice w")
    case None
    then show ?thesis using t w False by (auto simp: recover_vote_def Let_def intro: deferred_decidedI)
  next
    case (Some cr)
    obtain c' r where cr: "cr = (c', r)" by (cases cr)
    show ?thesis
    proof (cases "low_confidence A r")
      case True
      then show ?thesis using t w False Some cr by (auto simp: recover_vote_def Let_def intro: deferred_decidedI)
    next
      case high: False
      show ?thesis
      proof (cases "c' = c")
        case True
        then have "recovered_record A x c r (votes @ vp_attempts w) Same_Candidate 1 = Inr d"
          using t w False Some cr high by (simp add: recover_vote_def Let_def)
        moreover have "voted A x Recovery votes (Some (c, r)) (vp_attempts w)" using rv Some cr True by simp
        ultimately show ?thesis unfolding recovery_decided_def using v l high by blast
      next
        case other: False
        then have "break_tie A x c c' (votes @ vp_attempts w) = Inr d"
          using t w False Some cr high by (simp add: recover_vote_def Let_def)
        moreover have "voted A x Recovery votes (Some (c', r)) (vp_attempts w)" using rv Some cr by simp
        ultimately have "deferred_decided A x d \<or> tiebreak_decided A x d" using v l high other by (intro break_tie_decided)
        then show ?thesis by blast
      qed
    qed
  qed
qed

lemma repair_attemptI:
  assumes "attempt_request_hash A (vc_request_hash x) p messages n = Inr hash"
    and "result_attempt n p hash (Some (sc_candidate_id g)) confidence Accepted_Vote [] r = Inr a" and "\<not> low_confidence A confidence"
  shows "repair_attempt A x p messages n g a" "va_confidence a = confidence"
  using assms by (auto simp: repair_attempt_def result_attempt_def dest!: AdjudicationAttempt_Inr)

lemma verify_generated_decided:
  assumes "verify_generated A x cs g p done = Inr d"
  shows "deferred_decided A x d \<or>
    (\<exists>m b. spacing_verification_messages (ae_spacing (aj_env A)) (vc_set x) cs g = Inr m \<and> repair_attempt A x Verification m (length done + 1) g b
       \<and> \<not> low_confidence A (pp_confidence p)
       \<and> make_record A ((selected_decision x (sc_candidate_id g) Generated_Source (min (pp_confidence p) (va_confidence b)) (done @ [b]))
             \<lparr>de_codes := [''LLM_SPACING_REPAIR_APPLIED''], de_recovery_status := Was_Generated, de_generated := Some (Built g)\<rparr>) = Inr d)"
proof -
  from assms obtain m hash schema where
    m: "spacing_verification_messages (ae_spacing (aj_env A)) (vc_set x) cs g = Inr m"
    and h: "attempt_request_hash A (vc_request_hash x) Verification m (length done + 1) = Inr hash"
    and sc: "spacing_verification_schema (distinct_codes (map sc_candidate_id (cs @ [g]))) = Inr schema"
    by (auto simp: verify_generated_def Let_def)
  show ?thesis
  proof (cases "generate_text_answer A (length done + 1) schema m")
    case (Inl e)
    then obtain f where f: "e = Provider_error f" using assms m h sc by (cases e) (auto simp: verify_generated_def Let_def)
    then show ?thesis using assms m h sc Inl by (auto simp: verify_generated_def Let_def intro: deferred_decidedI)
  next
    case (Inr r)
    then obtain v where v: "parse_verification A (lr_structured r) = Inr v" using assms m h sc by (auto simp: verify_generated_def Let_def)
    show ?thesis
    proof (cases "low_confidence A (pp_confidence p) \<or> low_confidence A (vr_confidence v) \<or> vr_candidate_id v \<noteq> sc_candidate_id g
        \<or> verification_codes A v True \<noteq> []")
      case True
      then show ?thesis using assms m h sc Inr v
        by (auto simp: verify_generated_def Let_def split: if_splits intro: deferred_decidedI)
    next
      case False
      with assms m h sc Inr v obtain b where
        b: "result_attempt (length done + 1) Verification hash (Some (sc_candidate_id g)) (vr_confidence v) Accepted_Vote [] r = Inr b"
        and d: "make_record A ((blank_decision x)\<lparr>de_selected := Some (sc_candidate_id g), de_outcome := Selected,
               de_source := Generated_Source, de_confidence := min (pp_confidence p) (vr_confidence v),
               de_codes := [''LLM_SPACING_REPAIR_APPLIED''], de_recovery_status := Was_Generated, de_attempts := done @ [b],
               de_generated := Some (Built g)\<rparr>) = Inr d"
        by (auto simp: verify_generated_def Let_def)
      have l: "\<not> low_confidence A (vr_confidence v)" using False by blast
      note ra = repair_attemptI [OF h b l]
      have "(selected_decision x (sc_candidate_id g) Generated_Source (min (pp_confidence p) (va_confidence b)) (done @ [b]))
          \<lparr>de_codes := [''LLM_SPACING_REPAIR_APPLIED''], de_recovery_status := Was_Generated, de_generated := Some (Built g)\<rparr>
        = (blank_decision x)\<lparr>de_selected := Some (sc_candidate_id g), de_outcome := Selected,
               de_source := Generated_Source, de_confidence := min (pp_confidence p) (vr_confidence v),
               de_codes := [''LLM_SPACING_REPAIR_APPLIED''], de_recovery_status := Was_Generated, de_attempts := done @ [b],
               de_generated := Some (Built g)\<rparr>"
        using ra(2) by (simp add: selected_decision_def blank_decision_def)
      then show ?thesis using d m ra(1) False by metis
    qed
  qed
qed

lemma run_spacing_repair_decided:
  assumes t: "run_spacing_repair A x (spacing_candidates (vc_candidates x)) anchor votes = Inr d"
    and v: "voted A x Primary [] (Some (sc_candidate_id anchor, r)) votes" "Spacing_Cand anchor \<in> set (vc_candidates x)"
    and f: "filter (\<lambda>k. candidate_id k = sc_candidate_id anchor) (vc_candidates x) = Spacing_Cand anchor # ks"
  shows "deferred_decided A x d \<or> repair_decided A x d"
proof -
  let ?cs = "spacing_candidates (vc_candidates x)"
  from t obtain m hash where
    m: "spacing_generation_messages (ae_spacing (aj_env A)) (vc_set x) ?cs anchor = Inr m"
    and h: "attempt_request_hash A (vc_request_hash x) Generation m (length votes + 1) = Inr hash"
    by (auto simp: run_spacing_repair_def Let_def)
  show ?thesis
  proof (cases "generate_text_answer A (length votes + 1) (ae_proposal_schema (aj_env A)) m")
    case (Inl e)
    then obtain e' where e: "e = Provider_error e'" using t m h by (cases e) (auto simp: run_spacing_repair_def Let_def)
    then show ?thesis using t m h Inl by (auto simp: run_spacing_repair_def Let_def intro: deferred_decidedI)
  next
    case (Inr res)
    then obtain p where p: "parse_proposal A (lr_structured res) = Inr p" using t m h by (auto simp: run_spacing_repair_def Let_def)
    show ?thesis
    proof (cases "checked_candidate A anchor p")
      case (Inl e)
      then show ?thesis using t m h Inr p by (auto simp: run_spacing_repair_def Let_def intro: deferred_decidedI split: if_splits)
    next
      case g: (Inr g)
      let ?low = "low_confidence A (pp_confidence p)"
      from t m h Inr p g obtain a where
        a: "result_attempt (length votes + 1) Generation hash (Some (sc_candidate_id g)) (pp_confidence p)
              (if ?low then Low_Confidence else Accepted_Vote) (if ?low then [''LLM_CONFIDENCE_TOO_LOW''] else []) res = Inr a"
        and d: "verify_generated A x ?cs g p (votes @ [a]) = Inr d"
        by (auto simp: run_spacing_repair_def Let_def)
      from verify_generated_decided [OF d] show ?thesis
      proof (elim disjE exE conjE)
        fix m2 b
        assume b: "spacing_verification_messages (ae_spacing (aj_env A)) (vc_set x) ?cs g = Inr m2"
          "repair_attempt A x Verification m2 (length (votes @ [a]) + 1) g b" "\<not> ?low"
          "make_record A ((selected_decision x (sc_candidate_id g) Generated_Source (min (pp_confidence p) (va_confidence b)) ((votes @ [a]) @ [b]))
             \<lparr>de_codes := [''LLM_SPACING_REPAIR_APPLIED''], de_recovery_status := Was_Generated, de_generated := Some (Built g)\<rparr>) = Inr d"
        have "result_attempt (length votes + 1) Generation hash (Some (sc_candidate_id g)) (pp_confidence p) Accepted_Vote [] res = Inr a"
          using a b(3) by simp
        note ra = repair_attemptI [OF h this b(3)]
        have "built_for A x votes anchor g a b"
          unfolding built_for_def using v f g m b(1,2) ra(1) by (auto intro!: exI [of _ p] exI [of _ m] exI [of _ m2] exI [of _ r])
        then show ?thesis using b(4) ra(2) unfolding repair_decided_def by (intro disjI2 exI [of _ votes] exI [of _ anchor] exI [of _ g] exI [of _ a] exI [of _ b]) simp
      qed blast
    qed
  qed
qed

lemma decide_by_vote_cases:
  assumes "decide_by_vote A x = Inr d"
  shows "deferred_decided A x d \<or> model_decided A x d \<or> recovery_decided A x d \<or> tiebreak_decided A x d \<or> repair_decided A x d"
proof -
  from assms obtain w where w: "run_vote_phase A x Primary [] 1 = Inr w" by (auto simp: decide_by_vote_def)
  then have "run_vote_phase A x Primary [] (length ([] :: vote_attempt list) + 1) = Inr w" by simp
  note v = run_voted [OF this]
  show ?thesis
  proof (cases "vp_choice w")
    case None
    then show ?thesis using assms w by (auto simp: decide_by_vote_def intro: deferred_decidedI)
  next
    case (Some cr)
    obtain c r where cr: "cr = (c, r)" by (cases cr)
    note v = v [unfolded Some cr]
    from assms w Some cr obtain k where "candidate_with_id (vc_candidates x) c = Inr k" by (auto simp: decide_by_vote_def)
    then obtain ks where k: "filter (\<lambda>k. candidate_id k = c) (vc_candidates x) = k # ks" "candidate_with_id (vc_candidates x) c = Inr k"
      by (auto simp: candidate_with_id_def split: list.splits)
    have model: "make_record A ((blank_decision x)\<lparr>de_selected := Some c, de_outcome := Selected, de_source := Model, de_confidence := r,
        de_attempts := vp_attempts w, de_retry_count := i, de_repair_count := j\<rparr>) = Inr d \<Longrightarrow> \<not> low_confidence A r \<Longrightarrow> model_decided A x d" for i j
      unfolding model_decided_def using v by (auto simp: selected_decision_def intro!: exI [of _ c] exI [of _ r])
    show ?thesis
    proof (cases "spacing_of k")
      case None
      then show ?thesis
        using assms w Some cr k model recover_vote_decided [OF _ v] by (cases "low_confidence A r") (auto simp: decide_by_vote_def)
    next
      case anchor: (Some anchor)
      then have k': "k = Spacing_Cand anchor" by (cases k) auto
      have "k \<in> set (filter (\<lambda>k. candidate_id k = c) (vc_candidates x))" by (simp only: k(1) list.set_intros)
      then have c: "c = sc_candidate_id anchor" and m: "Spacing_Cand anchor \<in> set (vc_candidates x)" using k' by auto
      show ?thesis
      proof (cases "low_confidence A r \<or> spacing_defect_codes (sp_digit (ae_spacing (aj_env A))) anchor \<noteq> []")
        case True
        then have "run_spacing_repair A x (spacing_candidates (vc_candidates x)) anchor (vp_attempts w) = Inr d"
          using assms w Some cr k anchor by (simp add: decide_by_vote_def)
        from run_spacing_repair_decided [OF this _ m] v k(1) k' c show ?thesis by blast
      next
        case False
        then show ?thesis using assms w Some cr k anchor model by (auto simp: decide_by_vote_def)
      qed
    qed
  qed
qed

section \<open>What may be selected\<close>

lemma decision_id_ignores [simp]: "decision_id E (d\<lparr>de_decision_id := i\<rparr>) = decision_id E d"
  by (simp add: decision_id_def decision_payload_def)

lemma DecisionRecord_Inr: "DecisionRecord a = Inr b \<Longrightarrow> b = a"
  by (simp add: DecisionRecord_def split: if_splits)

lemma make_record_fields:
  assumes "make_record A d0 = Inr d"
  shows "\<exists>i j k. d = d0\<lparr>de_retry_count := j, de_repair_count := k, de_decision_id := i\<rparr>"
    and "decision_id (ae_spacing (aj_env A)) d = Inr (de_decision_id d)"
    and "de_attempts d0 \<noteq> [] \<Longrightarrow> counts_match d"
proof -
  define d1 where "d1 = (if de_attempts d0 = [] then d0
     else d0\<lparr>de_retry_count := sum_list (map va_retry_count (de_attempts d0)), de_repair_count := sum_list (map va_repair_count (de_attempts d0))\<rparr>)"
  from assms obtain i where i: "decision_id (ae_spacing (aj_env A)) d1 = Inr i" and d: "d = d1\<lparr>de_decision_id := i\<rparr>"
    by (auto simp: make_record_def Let_def d1_def [symmetric] dest!: DecisionRecord_Inr)
  show "decision_id (ae_spacing (aj_env A)) d = Inr (de_decision_id d)" using i d by simp
  show "de_attempts d0 \<noteq> [] \<Longrightarrow> counts_match d" by (simp add: d d1_def counts_match_def)
  have "d1 = d0\<lparr>de_retry_count := de_retry_count d1, de_repair_count := de_repair_count d1\<rparr>" by (simp add: d1_def)
  then have "d = d0\<lparr>de_retry_count := de_retry_count d1, de_repair_count := de_repair_count d1, de_decision_id := i\<rparr>" using d by metis
  then show "\<exists>i j k. d = d0\<lparr>de_retry_count := j, de_repair_count := k, de_decision_id := i\<rparr>" by blast
qed

lemma make_record_sel:
  assumes "make_record A d0 = Inr d"
  shows "de_selected d = de_selected d0" "de_outcome d = de_outcome d0" "de_source d = de_source d0" "de_confidence d = de_confidence d0"
    "de_attempts d = de_attempts d0" "de_generated d = de_generated d0" "de_codes d = de_codes d0" "de_consensus d = de_consensus d0"
    "de_consensus_id d = de_consensus_id d0" "de_recovery_count d = de_recovery_count d0" "de_recovery_status d = de_recovery_status d0"
    "de_request_hash d = de_request_hash d0" "de_source_hash d = de_source_hash d0" "de_evidence_hash d = de_evidence_hash d0"
    "de_candidate_set_id d = de_candidate_set_id d0" "de_region_id d = de_region_id d0" "de_provider d = de_provider d0" "de_model d = de_model d0"
  using make_record_fields(1) [OF assms] by auto

lemma largest_in: "largest f xs = Inr x \<Longrightarrow> x \<in> set xs"
proof (cases xs)
  case (Cons y ys)
  have "fold (\<lambda>y m. if f y > f m then y else m) ys z \<in> insert z (set ys)" for z
    by (induction ys arbitrary: z) fastforce+
  then show "largest f xs = Inr x \<Longrightarrow> x \<in> set xs" using Cons by auto
qed simp

definition safe_fallback :: "adjudicator \<Rightarrow> candidate \<Rightarrow> bool" where
  "safe_fallback A k \<longleftrightarrow> (case spacing_of k of None \<Rightarrow> True | Some c \<Rightarrow> spacing_defect_codes (sp_digit (ae_spacing (aj_env A))) c = [])"

lemma spacing_of_Some: "spacing_of k = Some c \<longleftrightarrow> k = Spacing_Cand c" "Some c = spacing_of k \<longleftrightarrow> k = Spacing_Cand c"
  by (cases k; auto)+

lemma fallback_candidate_in:
  assumes "fallback_candidate A s = Inr (c, r)"
  shows "\<exists>k\<in>set (cs_candidates s). candidate_id k = c \<and> (cs_decision_type s = D_Spacing \<longrightarrow> safe_fallback A k)"
proof (cases "cs_decision_type s = D_Spacing")
  case True
  with assms obtain k where k: "fallback_spacing_candidate (sp_digit (ae_spacing (aj_env A))) s = Inr k" "sc_candidate_id k = c"
    by (auto simp: fallback_candidate_def)
  have "k \<in> set (filter (\<lambda>c. spacing_defect_codes (sp_digit (ae_spacing (aj_env A))) c = []) (somes (map spacing_of (cs_candidates s))))"
    using k(1) by (auto simp: fallback_spacing_candidate_def Let_def dest: largest_in)
  then have "Spacing_Cand k \<in> set (cs_candidates s)" "spacing_defect_codes (sp_digit (ae_spacing (aj_env A))) k = []"
    by (auto simp: spacing_of_Some)
  then show ?thesis using k(2) by (intro bexI [of _ "Spacing_Cand k"]) (auto simp: safe_fallback_def)
next
  case False
  then show ?thesis using assms largest_in by (fastforce simp: fallback_candidate_def)
qed

lemma deferred_decision:
  assumes "deferred_candidate_record A x as codes = Inr d"
  shows "de_outcome d = Review_Required \<and> de_selected d = None
    \<or> de_outcome d = Deferred_Review \<and> (\<exists>k\<in>set (cs_candidates (vc_set x)). de_selected d = Some (candidate_id k)
        \<and> (cs_decision_type (vc_set x) = D_Spacing \<longrightarrow> safe_fallback A k))"
proof (cases "fallback_candidate A (vc_set x)")
  case (Inl e)
  with assms obtain d0 where "make_record A d0 = Inr d" "de_outcome d0 = Review_Required" "de_selected d0 = None"
    by (auto simp: deferred_candidate_record_def blank_decision_def split: if_splits)
  then show ?thesis using make_record_sel(1,2) by auto
next
  case (Inr cr)
  obtain c r where cr: "cr = (c, r)" by (cases cr)
  with assms Inr obtain d0 where "make_record A d0 = Inr d" "de_outcome d0 = Deferred_Review" "de_selected d0 = Some c"
    by (auto simp: deferred_candidate_record_def)
  then show ?thesis using make_record_sel(1,2) fallback_candidate_in [OF Inr [unfolded cr]] by auto
qed

lemma fold_largest:
  "f z \<le> f (fold (\<lambda>y m. if f y > f m then y else m) ys z) \<and> (\<forall>y\<in>set ys. f y \<le> f (fold (\<lambda>y m. if f y > f m then y else m) ys z))"
  for f :: "'a \<Rightarrow> 'b::linorder"
proof (induction ys arbitrary: z)
  case (Cons y ys)
  from Cons.IH [of "if f y > f z then y else z"] show ?case by (auto split: if_splits)
qed simp

lemma largest_greatest: "largest f xs = Inr x \<Longrightarrow> y \<in> set xs \<Longrightarrow> f y \<le> f x"
  using fold_largest [of f "hd xs" "tl xs"] by (cases xs) auto

text \<open>The proven table that decides: all proven tables have its structure, and none ranks above it.\<close>

definition proven_choice :: "adjudicator \<Rightarrow> candidate list \<Rightarrow> table_candidate \<Rightarrow> bool" where
  "proven_choice A cs t \<longleftrightarrow> Table_Cand t \<in> set cs \<and> is_invariant_proven_table (Table_Cand t)
     \<and> (\<forall>u. Table_Cand u \<in> set cs \<longrightarrow> is_invariant_proven_table (Table_Cand u) \<longrightarrow>
          table_structure_signature (aj_library A) u = table_structure_signature (aj_library A) t
          \<and> (tc_score u, tc_candidate_id u) \<le> (tc_score t, tc_candidate_id t))"

lemma proven_table_choice:
  assumes "proven_table A cs = Inr (Some t)"
  shows "proven_choice A cs t"
proof -
  let ?ts = "somes (map table_of (filter is_invariant_proven_table cs))"
  have table: "table_of k = Some u \<longleftrightarrow> k = Table_Cand u" for k u by (cases k) auto
  have in_ts: "u \<in> set ?ts \<longleftrightarrow> Table_Cand u \<in> set cs \<and> is_invariant_proven_table (Table_Cand u)" for u
  proof (induction cs)
    case (Cons k cs)
    have "table_of k = Some u \<longleftrightarrow> k = Table_Cand u" by (rule table)
    with Cons show ?case
      by (cases "table_of k") (auto simp del: is_invariant_proven_table.simps)
  qed simp
  from assms have "?ts \<noteq> []" by (auto simp: proven_table_def)
  then obtain v vs where ts: "?ts = v # vs" by (cases ?ts) auto
  define sig_of where "sig_of = table_structure_signature (aj_library A)"
  define best_of where "best_of us = largest (\<lambda>t. (tc_score t, tc_candidate_id t)) us" for us :: "table_candidate list"
  have "bind_ok (traverse sig_of ?ts) (\<lambda>signatures. if card (set signatures) = 1
      then bind_ok (best_of ?ts) (\<lambda>best. Inr (Some best)) else Inr None) = Inr (Some t)"
    using assms unfolding proven_table_def ts list.case sig_of_def best_of_def .
  then obtain sigs where sigs: "traverse sig_of ?ts = Inr sigs" and one: "card (set sigs) = 1" and l: "best_of ?ts = Inr t"
    by (auto simp del: is_invariant_proven_table.simps traverse.simps split: if_splits)
  note sigs = sigs [unfolded sig_of_def] and l = l [unfolded best_of_def]
  obtain sig where sig: "set sigs = {sig}" using one by (auto simp: card_1_singleton_iff)
  have "table_structure_signature (aj_library A) u = Inr sig" if "u \<in> set ?ts" for u
  proof -
    have "\<exists>g\<in>set sigs. table_structure_signature (aj_library A) u = Inr g"
      using traverse_list_all2 [OF sigs] that by (induction rule: list_all2_induct) auto
    then show ?thesis using sig by simp
  qed
  then show ?thesis unfolding proven_choice_def using largest_in [OF l] largest_greatest [OF l] in_ts by simp
qed

text \<open>The clear winner: the best-ranked candidate, with a score above the threshold, ahead of every other
  candidate (of nothing, when there is none) by the margin, and for spacing without a defect.\<close>

definition clear_winner :: "adjudicator \<Rightarrow> candidate list \<Rightarrow> candidate \<Rightarrow> bool" where
  "clear_winner A cs k \<longleftrightarrow> (\<exists>others. cs = k # others
     \<and> po_auto_accept_score (aj_policy A) \<le> candidate_score k
     \<and> (others = [] \<longrightarrow> po_auto_accept_margin (aj_policy A) \<le> candidate_score k)
     \<and> (\<forall>j\<in>set others. po_auto_accept_margin (aj_policy A) \<le> candidate_score k - candidate_score j)
     \<and> safe_fallback A k)"

lemma auto_accepted_winner:
  assumes "auto_accepted A cs" and "cs \<noteq> []" and "sorted (map (\<lambda>c. - candidate_score c) cs)"
  shows "clear_winner A cs (hd cs)"
proof (cases cs)
  case (Cons k others)
  have "candidate_score j \<le> candidate_score (hd others)" if "j \<in> set others" for j
    using assms(3) that by (cases others) (auto simp: Cons)
  then show ?thesis using assms(1)
    by (force simp: Cons clear_winner_def auto_accepted_def safe_fallback_def Let_def split: list.splits)
qed (use assms(2) in simp)

lemma proven_table_in: "proven_table A cs = Inr (Some t) \<Longrightarrow> Table_Cand t \<in> set cs"
proof -
  assume p: "proven_table A cs = Inr (Some t)"
  from p obtain u us where u: "somes (map table_of (filter is_invariant_proven_table cs)) = u # us"
    and l: "largest (\<lambda>t. (tc_score t, tc_candidate_id t)) (u # us) = Inr t"
    by (auto simp: proven_table_def simp del: largest.simps split: list.splits if_splits)
  have "t \<in> set (somes (map table_of (filter is_invariant_proven_table cs)))" unfolding u by (rule largest_in [OF l])
  moreover have "table_of k = Some t \<Longrightarrow> k = Table_Cand t" for k by (cases k) auto
  ultimately show ?thesis by (auto simp: eq_commute)
qed

lemma checked_candidate_safe:
  assumes "checked_candidate A anchor p = Inr g"
  shows "only_spacing_changed anchor g" "spacing_defect_codes (sp_digit (ae_spacing (aj_env A))) g = []" "SpacingCandidate g = Inr g"
  using assms generated_keeps by (auto simp: checked_candidate_def Let_def split: list.splits)

definition votes_for :: "decision \<Rightarrow> nat" where
  "votes_for d = length (filter (\<lambda>a. va_candidate_id a = de_selected d) (de_attempts d))"

lemma voted_last: "voted A x p prior (Some (c, r)) as \<Longrightarrow> c \<in> allowlist x \<and> as \<noteq> [] \<and> va_candidate_id (last as) = Some c \<and> va_confidence (last as) = r"
  by (auto simp: voted_def phase_audit_def attempt_is_def)

lemma last_counts: "as \<noteq> [] \<Longrightarrow> f (last as) \<Longrightarrow> 1 \<le> length (filter f as)"
  by (cases as rule: rev_cases) auto

lemma most_common_two:
  assumes "most_common [a, b, c] = (m, n)" and "2 \<le> n" and "m = c" and "b \<noteq> a"
  shows "c = a \<or> c = b"
  using assms by (auto simp: most_common_def split: if_splits)

text \<open>The decision that the votes of a request justify.\<close>

definition justified :: "adjudicator \<Rightarrow> candidate_set \<Rightarrow> candidate list \<Rightarrow> decision \<Rightarrow> bool" where
  "justified A s cs d \<longleftrightarrow>
     (case de_outcome d of
        Review_Required \<Rightarrow> de_selected d = None
      | Deferred_Review \<Rightarrow> (\<exists>k\<in>set (cs_candidates s). de_selected d = Some (candidate_id k)
          \<and> (cs_decision_type s = D_Spacing \<longrightarrow> safe_fallback A k))
      | Selected \<Rightarrow>
          (case de_source d of
             Deterministic \<Rightarrow> de_attempts d = []
               \<and> ((\<exists>t. de_selected d = Some (tc_candidate_id t) \<and> de_confidence d = 1 \<and> proven_choice A cs t)
                  \<or> (\<exists>k. de_selected d = Some (candidate_id k) \<and> de_confidence d = candidate_score k \<and> clear_winner A cs k))
           | Model \<Rightarrow> de_selected d \<in> Some ` candidate_id ` set cs \<and> \<not> low_confidence A (de_confidence d) \<and> 1 \<le> votes_for d
           | Recovered \<Rightarrow> de_selected d \<in> Some ` candidate_id ` set cs \<and> \<not> low_confidence A (de_confidence d) \<and> 2 \<le> votes_for d
           | Generated_Source \<Rightarrow> (\<exists>anchor g. Spacing_Cand anchor \<in> set cs \<and> de_generated d = Some (Built g)
               \<and> de_selected d = Some (sc_candidate_id g) \<and> only_spacing_changed anchor g \<and> SpacingCandidate g = Inr g
               \<and> spacing_defect_codes (sp_digit (ae_spacing (aj_env A))) g = [] \<and> \<not> low_confidence A (de_confidence d) \<and> 2 \<le> votes_for d)
           | _ \<Rightarrow> False))"

lemma vote_counted:
  assumes "voted A x p prior (Some (c, r)) as"
  shows "1 \<le> length (filter (\<lambda>a. va_candidate_id a = Some c) as)"
  using voted_last [OF assms] last_counts [of as "\<lambda>a. va_candidate_id a = Some c"] by blast

lemma decided_justified:
  assumes "decide_by_vote A x = Inr d"
  shows "justified A (vc_set x) (vc_candidates x) d"
  using decide_by_vote_cases [OF assms]
proof (elim disjE)
  assume "deferred_decided A x d"
  then obtain as codes where "deferred_candidate_record A x as codes = Inr d" by (auto simp: deferred_decided_def)
  from deferred_decision [OF this] show ?thesis by (auto simp: justified_def)
next
  assume "model_decided A x d"
  then obtain c r votes i j where v: "voted A x Primary [] (Some (c, r)) votes" "\<not> low_confidence A r"
    and m: "make_record A ((selected_decision x c Model r votes)\<lparr>de_retry_count := i, de_repair_count := j\<rparr>) = Inr d"
    by (auto simp: model_decided_def)
  show ?thesis using allowlist_def [of x] voted_last [OF v(1)] vote_counted [OF v(1)] v(2) make_record_sel [OF m]
    by (simp add: justified_def selected_decision_def votes_for_def)
next
  assume "recovery_decided A x d"
  then obtain c q r votes again where v: "voted A x Primary [] (Some (c, q)) votes" "voted A x Recovery votes (Some (c, r)) again"
    "\<not> low_confidence A r" and m: "recovered_record A x c r (votes @ again) Same_Candidate 1 = Inr d"
    by (auto simp: recovery_decided_def)
  show ?thesis using allowlist_def [of x] voted_last [OF v(1)] vote_counted [OF v(1)] vote_counted [OF v(2)] v(3) make_record_sel [OF m [unfolded recovered_record_def]]
    by (simp add: justified_def votes_for_def)
next
  assume "tiebreak_decided A x d"
  then obtain c c' m q r s votes again third where
    v: "voted A x Primary [] (Some (c, q)) votes" "voted A x Recovery votes (Some (c', r)) again"
       "voted A x Tiebreak (votes @ again) (Some (m, s)) third" "\<not> low_confidence A s" "c' \<noteq> c"
    and mc: "fst (most_common [c, c', m]) = m" "po_consensus_votes_required (aj_policy A) \<le> snd (most_common [c, c', m])"
    and mr: "recovered_record A x m s (votes @ again @ third) Two_Of_Three 2 = Inr d"
    by (auto simp: tiebreak_decided_def)
  have "m = c \<or> m = c'" using mc(1) v(5) by (auto simp: most_common_def split: if_splits)
  then have "2 \<le> length (filter (\<lambda>a. va_candidate_id a = Some m) (votes @ again @ third))"
    using vote_counted [OF v(1)] vote_counted [OF v(2)] vote_counted [OF v(3)] by auto
  then show ?thesis using allowlist_def [of x] voted_last [OF v(3)] v(4) make_record_sel [OF mr [unfolded recovered_record_def]]
    by (simp add: justified_def votes_for_def)
next
  assume "repair_decided A x d"
  then obtain votes anchor g a b where r: "built_for A x votes anchor g a b"
    and m: "make_record A ((selected_decision x (sc_candidate_id g) Generated_Source (min (va_confidence a) (va_confidence b)) (votes @ [a, b]))
             \<lparr>de_codes := [''LLM_SPACING_REPAIR_APPLIED''], de_recovery_status := Was_Generated, de_generated := Some (Built g)\<rparr>) = Inr d"
    by (auto simp: repair_decided_def)
  from r obtain proposal where c: "checked_candidate A anchor proposal = Inr g" "Spacing_Cand anchor \<in> set (vc_candidates x)"
    and ab: "va_candidate_id a = Some (sc_candidate_id g)" "va_candidate_id b = Some (sc_candidate_id g)"
      "\<not> low_confidence A (va_confidence a)" "\<not> low_confidence A (va_confidence b)"
    by (auto simp: built_for_def repair_attempt_def)
  have low: "\<not> low_confidence A (min (va_confidence a) (va_confidence b))" using ab(3,4) by (simp add: low_confidence_def)
  show ?thesis using checked_candidate_safe [OF c(1)] c(2) ab(1,2) low make_record_sel [OF m]
    by (auto simp: justified_def selected_decision_def votes_for_def intro!: exI [of _ anchor])
qed

lemma decide_case_untrusted:
  assumes "decide_case A x = Inr d" and "aj_trusted A = []" and "vc_candidates x \<noteq> []"
    and "sorted (map (\<lambda>c. - candidate_score c) (vc_candidates x))"
  shows "justified A (vc_set x) (vc_candidates x) d"
proof -
  from assms(1) obtain proven where p: "proven_table A (vc_candidates x) = Inr proven" by (auto simp: decide_case_def)
  have det: "de_outcome d = Selected \<and> de_source d = Deterministic \<and> de_selected d = Some c \<and> de_confidence d = r \<and> de_attempts d = []"
    if "deterministic_record A x c r = Inr d" for c r
    using make_record_sel [OF that [unfolded deterministic_record_def]] by (simp add: blank_decision_def)
  show ?thesis
  proof (cases proven)
    case (Some t)
    then have "deterministic_record A x (tc_candidate_id t) 1 = Inr d" using assms(1) p by (simp add: decide_case_def)
    from det [OF this] proven_table_choice [OF p [unfolded Some]] show ?thesis by (auto simp: justified_def)
  next
    case None
    show ?thesis
    proof (cases "auto_accepted A (vc_candidates x)")
      case True
      then have "deterministic_record A x (candidate_id (hd (vc_candidates x))) (candidate_score (hd (vc_candidates x))) = Inr d"
        using assms(1) p None by (simp add: decide_case_def)
      from det [OF this] auto_accepted_winner [OF True assms(3,4)] show ?thesis by (auto simp: justified_def)
    next
      case False
      show ?thesis
      proof (cases "aj_capabilities A = None")
        case True
        then have "deferred_candidate_record A x [] [''LLM_PROVIDER_UNAVAILABLE''] = Inr d"
          using assms(1,2) p None False by (simp add: decide_case_def)
        from deferred_decision [OF this] show ?thesis by (auto simp: justified_def)
      next
        case provider: False
        then have "decide_by_vote A x = Inr d" using assms(1,2) p None False by (auto simp: decide_case_def)
        then show ?thesis by (rule decided_justified)
      qed
    qed
  qed
qed

end
