(* ===== verification/Adjudication_Reuse.thy ===== *)
theory Adjudication_Reuse
  imports Adjudication_Facts
begin

text \<open>
  A decision that was stored is taken again: the hashes and the audit of the record match, so that the adjudicator returns it
  from the trusted decisions, whatever the provider would answer now.
\<close>

section \<open>The hashes of the attempts\<close>

lemma phase_hashes_voted:
  assumes "voted A x p before choice mine" and "as = before @ mine @ after" and "list_all (\<lambda>a. va_phase a \<noteq> p) (before @ after)"
  shows "phase_hashes A x as (Some (length before, before)) p = Inr (Some (length (before @ mine), before @ mine))"
proof -
  from assms(1) obtain messages where
    m: "vote_messages (ae_spacing (aj_env A)) (vc_set x) (vc_candidates x) p before = Inr messages"
    and a: "phase_audit A x p messages [] (length before + 1) choice mine" by (auto simp: voted_def)
  have "filter (\<lambda>a. va_phase a = p) mine = mine" using a by (simp add: phase_audit_def filter_id_conv list_all_iff)
  moreover have "filter (\<lambda>a. va_phase a = p) before = []" "filter (\<lambda>a. va_phase a = p) after = []"
    using assms(3) by (simp_all add: filter_empty_conv list_all_iff)
  ultimately have "filter (\<lambda>a. va_phase a = p) as = mine" by (simp add: assms(2))
  then show ?thesis using m a by (simp add: phase_hashes_def phase_audit_def assms(2))
qed

lemma phase_hashes_absent:
  "list_all (\<lambda>a. va_phase a \<noteq> p) as \<Longrightarrow> phase_hashes A x as (Some st) p = Inr (Some st)"
  by (cases st) (simp add: phase_hashes_def filter_empty_conv list_all_iff)

lemma voted_phase: "voted A x p before choice mine \<Longrightarrow> a \<in> set mine \<Longrightarrow> va_phase a = p"
  by (auto simp: voted_def phase_audit_def list_all_iff)

lemma voted_indexes: "voted A x p before choice mine \<Longrightarrow> map va_index mine = [length before + 1..<length before + 1 + length mine]"
  by (auto simp: voted_def phase_audit_def)

lemma indexes_append: "map va_index before = [1..<length before + 1] \<Longrightarrow> map va_index mine = [length before + 1..<length before + 1 + length mine]
    \<Longrightarrow> map va_index (before @ mine) = [1..<length (before @ mine) + 1]"
  using upt_add_eq_append [of 1 "length before + 1" "length mine"] by (simp add: add.commute add.left_commute del: upt_Suc)

text \<open>The votes of a decision: the primary phase, and the recovery phases when there are any.\<close>

definition vote_phases :: "adjudicator \<Rightarrow> vote_case \<Rightarrow> vote_attempt list \<Rightarrow> vote_attempt list \<Rightarrow> vote_attempt list \<Rightarrow> bool" where
  "vote_phases A x votes again third \<longleftrightarrow> (\<exists>c. voted A x Primary [] c votes) \<and> (again = [] \<or> (\<exists>c. voted A x Recovery votes c again))
     \<and> (third = [] \<or> (\<exists>c. voted A x Tiebreak (votes @ again) c third))"

lemma vote_phases_hashes:
  assumes "vote_phases A x votes again third" and "list_all (\<lambda>a. va_phase a \<in> {Generation, Verification}) rest"
    and "as = votes @ again @ third @ rest"
  shows "fold_ok (phase_hashes A x as) (Some (0, [])) [Primary, Recovery, Tiebreak]
      = Inr (Some (length (votes @ again @ third), votes @ again @ third))"
proof -
  from assms(1) obtain c where 1: "voted A x Primary [] c votes" by (auto simp: vote_phases_def)
  have p: "list_all (\<lambda>a. va_phase a = Primary) votes" using 1 by (auto simp: list_all_iff dest: voted_phase)
  have q: "list_all (\<lambda>a. va_phase a = Recovery) again" using assms(1) by (auto simp: vote_phases_def list_all_iff dest: voted_phase)
  have r: "list_all (\<lambda>a. va_phase a = Tiebreak) third" using assms(1) by (auto simp: vote_phases_def list_all_iff dest: voted_phase)
  have "list_all (\<lambda>a. va_phase a \<noteq> Primary) (again @ third @ rest)" using q r assms(2) by (fastforce simp: list_all_iff)
  then have "phase_hashes A x as (Some (0, [])) Primary = Inr (Some (length votes, votes))"
    using phase_hashes_voted [OF 1, of as "again @ third @ rest"] assms(3) by simp
  moreover have "phase_hashes A x as (Some (length votes, votes)) Recovery = Inr (Some (length (votes @ again), votes @ again))"
  proof (cases "again = []")
    case True
    have "list_all (\<lambda>a. va_phase a \<noteq> Recovery) as" using True p r assms(2,3) by (fastforce simp: list_all_iff)
    then show ?thesis using True by (simp add: phase_hashes_absent)
  next
    case False
    then obtain c where 2: "voted A x Recovery votes c again" using assms(1) by (auto simp: vote_phases_def)
    have "list_all (\<lambda>a. va_phase a \<noteq> Recovery) (votes @ third @ rest)" using p r assms(2) by (fastforce simp: list_all_iff)
    then show ?thesis using phase_hashes_voted [OF 2, of as "third @ rest"] assms(3) by simp
  qed
  moreover have "phase_hashes A x as (Some (length (votes @ again), votes @ again)) Tiebreak
      = Inr (Some (length (votes @ again @ third), votes @ again @ third))"
  proof (cases "third = []")
    case True
    have "list_all (\<lambda>a. va_phase a \<noteq> Tiebreak) as" using True p q assms(2,3) by (fastforce simp: list_all_iff)
    then show ?thesis using True by (simp add: phase_hashes_absent)
  next
    case False
    then obtain c where 3: "voted A x Tiebreak (votes @ again) c third" using assms(1) by (auto simp: vote_phases_def)
    have "list_all (\<lambda>a. va_phase a \<noteq> Tiebreak) ((votes @ again) @ rest)" using p q assms(2) by (fastforce simp: list_all_iff)
    then show ?thesis using phase_hashes_voted [OF 3, of as rest] assms(3) by simp
  qed
  ultimately show ?thesis by simp
qed

lemma vote_phases_indexes:
  assumes "vote_phases A x votes again third"
  shows "map va_index (votes @ again @ third) = [1..<length (votes @ again @ third) + 1]"
proof -
  from assms obtain c where "voted A x Primary [] c votes" by (auto simp: vote_phases_def)
  from voted_indexes [OF this] have 1: "map va_index votes = [1..<length votes + 1]" by simp
  have 2: "map va_index (votes @ again) = [1..<length (votes @ again) + 1]"
  proof (cases "again = []")
    case False
    then obtain c where "voted A x Recovery votes c again" using assms by (auto simp: vote_phases_def)
    from indexes_append [OF 1 voted_indexes [OF this]] show ?thesis .
  qed (use 1 in simp)
  show ?thesis
  proof (cases "third = []")
    case False
    then obtain c where "voted A x Tiebreak (votes @ again) c third" using assms by (auto simp: vote_phases_def)
    from indexes_append [OF 2 voted_indexes [OF this]] show ?thesis by simp
  qed (use 2 in simp)
qed

lemma vote_hashes_match:
  assumes "vote_phases A x votes again third" and "de_attempts d = votes @ again @ third"
  shows "attempt_request_hashes_match A x d = Inr True"
  using vote_phases_hashes [OF assms(1), of "[]"] vote_phases_indexes [OF assms(1)]
  by (simp add: attempt_request_hashes_match_def assms(2) Let_def del: upt_Suc fold_ok.simps)

lemma last_filter: "as \<noteq> [] \<Longrightarrow> f (last as) \<Longrightarrow> filter f as \<noteq> [] \<and> last (filter f as) = last as"
  by (cases as rule: rev_cases) auto

lemma filter_spacing:
  "list_all (\<lambda>c. spacing_of c \<noteq> None) ks
     \<Longrightarrow> filter (\<lambda>c. sc_candidate_id c = i) (spacing_candidates ks) = spacing_candidates (filter (\<lambda>k. candidate_id k = i) ks)"
proof (induction ks)
  case (Cons k ks)
  then obtain c where "k = Spacing_Cand c" by (cases k) auto
  then show ?case using Cons by (simp add: spacing_candidates_def)
qed (simp add: spacing_candidates_def)

lemma generation_spacing: "spacing_generation_messages E s cs anchor = Inr m \<Longrightarrow> cs_decision_type s = D_Spacing"
  by (auto simp: spacing_generation_messages_def request_messages_def generation_request_def validate_scope_def)

lemma generation_scope:
  assumes "spacing_generation_messages E s cs anchor = Inr m"
  shows "sc_region_id anchor = cs_region_id s"
    "\<forall>c\<in>set cs. sc_character_sequence c = sc_character_sequence anchor \<and> sc_mutable c = sc_mutable anchor"
  using assms by (auto simp: spacing_generation_messages_def request_messages_def generation_request_def validate_scope_def)

definition all_spacing :: "candidate list \<Rightarrow> bool" where
  "all_spacing ks \<longleftrightarrow> list_all (\<lambda>c. spacing_of c \<noteq> None) ks"

lemma built_for_hashes:
  assumes b: "built_for A x votes anchor g a b" and s: "all_spacing (vc_candidates x)" and g: "de_generated d = Some (Built g)"
    and as: "de_attempts d = votes @ [a, b]"
  shows "attempt_request_hashes_match A x d = Inr True"
proof -
  from b obtain m1 m2 r where v: "voted A x Primary [] (Some (sc_candidate_id anchor, r)) votes"
    and f: "filter (\<lambda>k. candidate_id k = sc_candidate_id anchor) (vc_candidates x) \<noteq> []"
      "hd (filter (\<lambda>k. candidate_id k = sc_candidate_id anchor) (vc_candidates x)) = Spacing_Cand anchor"
    and m: "spacing_generation_messages (ae_spacing (aj_env A)) (vc_set x) (spacing_candidates (vc_candidates x)) anchor = Inr m1"
      "spacing_verification_messages (ae_spacing (aj_env A)) (vc_set x) (spacing_candidates (vc_candidates x)) g = Inr m2"
    and ra: "repair_attempt A x Generation m1 (length votes + 1) g a" and rb: "repair_attempt A x Verification m2 (length votes + 2) g b"
    unfolding built_for_def by blast
  have vp: "vote_phases A x votes [] []" using v by (auto simp: vote_phases_def)
  have fold: "fold_ok (phase_hashes A x (de_attempts d)) (Some (0, [])) [Primary, Recovery, Tiebreak] = Inr (Some (length votes, votes))"
    using vote_phases_hashes [OF vp, of "[a, b]"] ra rb by (simp add: as repair_attempt_def del: fold_ok.simps)
  have ix: "map va_index (de_attempts d) = [1..<length (de_attempts d) + 1]"
    using vote_phases_indexes [OF vp] ra rb by (simp add: as repair_attempt_def)
  let ?f = "\<lambda>a. va_phase a = Primary \<and> va_candidate_id a \<noteq> None"
  have l: "va_candidate_id (last votes) = Some (sc_candidate_id anchor)" "votes \<noteq> []" using voted_last [OF v] by auto
  then have "?f (last votes)" using voted_phase [OF v, of "last votes"] by auto
  from last_filter [where f = ?f, OF l(2) this] have lf: "filter ?f votes \<noteq> []" "last (filter ?f votes) = last votes" by blast+
  have "filter (\<lambda>c. Some (sc_candidate_id c) = va_candidate_id (last votes)) (spacing_candidates (vc_candidates x))
      = spacing_candidates (filter (\<lambda>k. candidate_id k = sc_candidate_id anchor) (vc_candidates x))"
    unfolding l(1) using filter_spacing [OF s [unfolded all_spacing_def], of "sc_candidate_id anchor"] by simp
  also obtain ks where "filter (\<lambda>k. candidate_id k = sc_candidate_id anchor) (vc_candidates x) = Spacing_Cand anchor # ks"
    using f by (cases "filter (\<lambda>k. candidate_id k = sc_candidate_id anchor) (vc_candidates x)") auto
  finally obtain cs where "filter (\<lambda>c. Some (sc_candidate_id c) = va_candidate_id (last votes)) (spacing_candidates (vc_candidates x)) = anchor # cs"
    by (auto simp: spacing_candidates_def)
  then have "repair_hashes A x d votes [a, b] = Inr True"
    using generation_spacing [OF m(1)] s lf m ra rb g by (simp add: repair_hashes_def all_spacing_def repair_attempt_def Let_def)
  then show ?thesis using fold ix by (simp add: attempt_request_hashes_match_def as Let_def del: fold_ok.simps upt_Suc)
qed

section \<open>The audit\<close>

lemma voted_statuses:
  assumes "voted A x p before (Some (c, r)) as"
  shows "list_all (\<lambda>a. va_phase a = p) as" "list_all unknown_vote (butlast as)" "attempt_is A x (Some (c, r)) (last as)" "as \<noteq> []"
  using assms by (auto simp: voted_def phase_audit_def)

lemma voted_nonempty: "voted A x p before c as \<Longrightarrow> as \<noteq> []"
  by (auto simp: voted_def phase_audit_def)

lemma unknown_status: "list_all unknown_vote as \<Longrightarrow> list_all (\<lambda>a. va_status a = Candidate_Unknown) as"
  by (auto simp: list_all_iff unknown_vote_def)

lemma model_audit:
  assumes "model_decided A x d"
  shows "\<exists>votes. de_attempts d = votes \<and> vote_phases A x votes [] [] \<and> audit_matches A x d \<and> selected_is_current A x d"
proof -
  from assms obtain c r votes i j where v: "voted A x Primary [] (Some (c, r)) votes" "\<not> low_confidence A r"
    and m: "make_record A ((selected_decision x c Model r votes)\<lparr>de_retry_count := i, de_repair_count := j\<rparr>) = Inr d"
    by (auto simp: model_decided_def)
  note f = make_record_sel [OF m] and st = voted_statuses [OF v(1)]
  have n: "counts_match d" using make_record_fields(3) [OF m] st(4) by (simp add: selected_decision_def)
  have "primary_audit_matches A x d" using f st unknown_status [OF st(2)] n v(2)
    by (simp add: primary_audit_matches_def selected_decision_def blank_decision_def attempt_is_def Let_def)
  then have "audit_matches A x d" using f by (simp add: audit_matches_def selected_decision_def blank_decision_def)
  moreover have "selected_is_current A x d" using f st(3) by (simp add: selected_is_current_def selected_decision_def attempt_is_def)
  moreover have "vote_phases A x votes [] []" using v(1) by (auto simp: vote_phases_def)
  ultimately show ?thesis using f by (simp add: selected_decision_def)
qed

lemma phase_vote_found:
  assumes "voted A x p before (Some (c, r)) mine" and "as = us @ mine @ vs" and "list_all (\<lambda>a. va_phase a \<noteq> p) (us @ vs)"
  shows "phase_vote A x as p = Some (last mine)"
proof -
  note st = voted_statuses [OF assms(1)]
  have f: "filter (\<lambda>a. va_phase a = p) as = mine"
    using st(1) assms(3) by (simp add: assms(2) filter_id_conv filter_empty_conv list_all_iff)
  have mine: "mine = butlast mine @ [last mine]" using st(4) by simp
  have "filter (\<lambda>a. va_status a \<in> {Accepted_Vote, Low_Confidence}) (butlast mine) = []"
    using unknown_status [OF st(2)] by (auto simp: filter_empty_conv list_all_iff)
  moreover have "va_status (last mine) \<in> {Accepted_Vote, Low_Confidence}" using st(3) by (simp add: attempt_is_def)
  ultimately have "filter (\<lambda>a. va_status a \<in> {Accepted_Vote, Low_Confidence}) mine = [last mine]"
    by (subst mine) (simp only: filter_append, simp)
  then show ?thesis using st(3) unknown_status [OF st(2)] by (simp add: phase_vote_def f attempt_is_def Let_def)
qed

lemma keys_of_run:
  "ps \<noteq> [] \<Longrightarrow> \<forall>q\<in>set ps. q = p
     \<Longrightarrow> dict_keys (fold (\<lambda>x. dict_set (id x) (id x)) ps d) = (if p \<in> set (dict_keys d) then dict_keys d else dict_keys d @ [p])"
proof (induction ps arbitrary: d)
  case (Cons q ps)
  show ?case
  proof (cases "ps = []")
    case False
    then show ?thesis using Cons.IH [OF False, of "dict_set p p d"] Cons.prems by (auto simp: AList.update_keys)
  qed (use Cons.prems in \<open>simp add: AList.update_keys\<close>)
qed simp

lemma phases_of_votes:
  assumes "voted A x Primary [] (Some u) votes" and "voted A x Recovery votes (Some v) again"
  shows "dict_keys (dict_of id id (map va_phase (votes @ again))) = [Primary, Recovery]"
    and "voted A x Tiebreak (votes @ again) (Some w) third \<Longrightarrow>
      dict_keys (dict_of id id (map va_phase (votes @ again @ third))) = [Primary, Recovery, Tiebreak]"
proof -
  have n: "votes \<noteq> []" "again \<noteq> []" using voted_nonempty assms by blast+
  have 1: "\<forall>q\<in>set (map va_phase votes). q = Primary" "\<forall>q\<in>set (map va_phase again). q = Recovery"
    using voted_phase [OF assms(1)] voted_phase [OF assms(2)] by auto
  let ?d1 = "fold (\<lambda>x. dict_set (id x) (id x)) (map va_phase votes) []"
  let ?d2 = "fold (\<lambda>x. dict_set (id x) (id x)) (map va_phase again) ?d1"
  have k1: "dict_keys ?d1 = [Primary]" using keys_of_run [OF _ 1(1), of "[]"] n by simp
  have k2: "dict_keys ?d2 = [Primary, Recovery]" by (subst keys_of_run [OF _ 1(2)], use n in simp, unfold k1, simp)
  then show "dict_keys (dict_of id id (map va_phase (votes @ again))) = [Primary, Recovery]" by (simp add: dict_of_def)
  assume w: "voted A x Tiebreak (votes @ again) (Some w) third"
  have n3: "map va_phase third \<noteq> []" and 3: "\<forall>q\<in>set (map va_phase third). q = Tiebreak"
    using voted_nonempty [OF w] voted_phase [OF w] by auto
  have "dict_keys (fold (\<lambda>x. dict_set (id x) (id x)) (map va_phase third) ?d2) = [Primary, Recovery, Tiebreak]"
    by (subst keys_of_run [OF n3 3], unfold k2, simp)
  then show "dict_keys (dict_of id id (map va_phase (votes @ again @ third))) = [Primary, Recovery, Tiebreak]" by (simp add: dict_of_def)
qed

lemma recovery_audit:
  assumes "recovery_decided A x d" and "distinct (map va_request_hash (de_attempts d))"
  shows "\<exists>votes again. de_attempts d = votes @ again \<and> vote_phases A x votes again [] \<and> audit_matches A x d \<and> selected_is_current A x d"
proof -
  from assms(1) obtain c q r votes again where v: "voted A x Primary [] (Some (c, q)) votes" "voted A x Recovery votes (Some (c, r)) again"
    "low_confidence A q" "\<not> low_confidence A r" and m: "recovered_record A x c r (votes @ again) Same_Candidate 1 = Inr d"
    by (auto simp: recovery_decided_def)
  note f = make_record_sel [OF m [unfolded recovered_record_def]]
  note s1 = voted_statuses [OF v(1)] and s2 = voted_statuses [OF v(2)]
  have n: "counts_match d" using make_record_fields(3) [OF m [unfolded recovered_record_def]] s1(4) by simp
  have vp: "vote_phases A x votes again []" using v by (auto simp: vote_phases_def)
  have as: "de_attempts d = votes @ again" using f by simp
  have "phase_vote A x (votes @ again) Primary = Some (last votes)"
    using phase_vote_found [OF v(1), of "votes @ again" "[]" again] s2(1) by (fastforce simp: list_all_iff)
  moreover have "phase_vote A x (votes @ again) Recovery = Some (last again)"
    using phase_vote_found [OF v(2), of "votes @ again" votes "[]"] s1(1) by (fastforce simp: list_all_iff)
  ultimately have "recovery_audit_matches A x d"
    using f s1(3) s2(3) n v(3,4) assms(2) phases_of_votes(1) [OF v(1,2)] vote_phases_indexes [OF vp]
    by (simp add: recovery_audit_matches_def as attempt_is_def Let_def del: upt_Suc)
  then have "audit_matches A x d" using f s1(4) s2(3) by (simp add: audit_matches_def attempt_is_def)
  moreover have "selected_is_current A x d" using f s2(3) by (simp add: selected_is_current_def attempt_is_def)
  ultimately show ?thesis using vp as by blast
qed

lemma most_common_options: "most_common [Some a, Some b, Some c] = (Some (fst (most_common [a, b, c])), snd (most_common [a, b, c]))"
  by (simp add: most_common_def)

lemma tiebreak_audit:
  assumes "tiebreak_decided A x d" and "distinct (map va_request_hash (de_attempts d))"
  shows "\<exists>votes again third. de_attempts d = votes @ again @ third \<and> vote_phases A x votes again third \<and> audit_matches A x d
    \<and> selected_is_current A x d"
proof -
  from assms(1) obtain c c' k q r s votes again third where
    v: "voted A x Primary [] (Some (c, q)) votes" "voted A x Recovery votes (Some (c', r)) again"
       "voted A x Tiebreak (votes @ again) (Some (k, s)) third"
    and l: "low_confidence A q" "\<not> low_confidence A r" "\<not> low_confidence A s" "c' \<noteq> c"
    and mc: "fst (most_common [c, c', k]) = k" "po_consensus_votes_required (aj_policy A) \<le> snd (most_common [c, c', k])"
    and m: "recovered_record A x k s (votes @ again @ third) Two_Of_Three 2 = Inr d"
    by (auto simp: tiebreak_decided_def)
  note f = make_record_sel [OF m [unfolded recovered_record_def]]
  note s1 = voted_statuses [OF v(1)] and s2 = voted_statuses [OF v(2)] and s3 = voted_statuses [OF v(3)]
  have n: "counts_match d" using make_record_fields(3) [OF m [unfolded recovered_record_def]] s1(4) by simp
  have vp: "vote_phases A x votes again third" using v by (auto simp: vote_phases_def)
  have as: "de_attempts d = votes @ again @ third" using f by simp
  have "list_all (\<lambda>a. va_phase a \<noteq> Primary) (again @ third)" "list_all (\<lambda>a. va_phase a \<noteq> Recovery) (votes @ third)"
    "list_all (\<lambda>a. va_phase a \<noteq> Tiebreak) (votes @ again)" using s1(1) s2(1) s3(1) by (fastforce simp: list_all_iff)+
  then have "phase_vote A x (votes @ again @ third) Primary = Some (last votes)"
    "phase_vote A x (votes @ again @ third) Recovery = Some (last again)"
    "phase_vote A x (votes @ again @ third) Tiebreak = Some (last third)"
    using phase_vote_found [OF v(1), of _ "[]"] phase_vote_found [OF v(2), of _ votes third] phase_vote_found [OF v(3), of _ "votes @ again" "[]"]
    by simp_all
  then have "recovery_audit_matches A x d"
    using f s1(3) s2(3) s3(3) n l mc assms(2) phases_of_votes(2) [OF v(1,2,3)] vote_phases_indexes [OF vp]
    by (simp add: recovery_audit_matches_def as attempt_is_def most_common_options Let_def del: upt_Suc)
  then have "audit_matches A x d" using f s1(4) s3(3) by (simp add: audit_matches_def attempt_is_def)
  moreover have "selected_is_current A x d" using f s3(3) by (simp add: selected_is_current_def attempt_is_def)
  ultimately show ?thesis using vp as by blast
qed

lemma spacing_candidates_in: "Spacing_Cand c \<in> set ks \<Longrightarrow> c \<in> set (spacing_candidates ks)"
  by (force simp: spacing_candidates_def spacing_of_Some)

lemma repair_audit:
  assumes r: "repair_decided A x d" and s: "all_spacing (vc_candidates x)" and k: "set (cs_candidates (vc_set x)) \<subseteq> set (vc_candidates x)"
  shows "attempt_request_hashes_match A x d = Inr True \<and> audit_matches A x d \<and> selected_is_current A x d"
proof -
  from r obtain votes anchor g a b where bf: "built_for A x votes anchor g a b"
    and m: "make_record A ((selected_decision x (sc_candidate_id g) Generated_Source (min (va_confidence a) (va_confidence b)) (votes @ [a, b]))
             \<lparr>de_codes := [''LLM_SPACING_REPAIR_APPLIED''], de_recovery_status := Was_Generated, de_generated := Some (Built g)\<rparr>) = Inr d"
    by (auto simp: repair_decided_def)
  from bf obtain p m1 m2 q where v: "voted A x Primary [] (Some (sc_candidate_id anchor, q)) votes"
    and c: "checked_candidate A anchor p = Inr g"
    and gm: "spacing_generation_messages (ae_spacing (aj_env A)) (vc_set x) (spacing_candidates (vc_candidates x)) anchor = Inr m1"
    and ra: "repair_attempt A x Generation m1 (length votes + 1) g a" "repair_attempt A x Verification m2 (length votes + 2) g b"
    unfolding built_for_def by blast
  note f = make_record_sel [OF m] and st = voted_statuses [OF v] and ck = checked_candidate_safe [OF c]
  have n: "counts_match d" using make_record_fields(3) [OF m] by (simp add: selected_decision_def)
  have as: "de_attempts d = votes @ [a, b]" using f by (simp add: selected_decision_def)
  have g: "de_generated d = Some (Built g)" using f by simp
  have fields: "de_source d = Generated_Source" "de_confidence d = min (va_confidence a) (va_confidence b)"
    "de_codes d = [''LLM_SPACING_REPAIR_APPLIED'']" "de_recovery_status d = Was_Generated" "de_selected d = Some (sc_candidate_id g)"
    using f by (simp_all add: selected_decision_def)
  have len: "3 \<le> length (votes @ [a, b])" "take (length (votes @ [a, b]) - 2) (votes @ [a, b]) = votes"
    "(votes @ [a, b]) ! (length (votes @ [a, b]) - 2) = a" "last (votes @ [a, b]) = b"
    using st(4) by (simp_all add: nth_append Suc_le_eq)
  have "generated_audit_matches A x d"
    using g fields st unknown_status [OF st(2)] n ra unfolding generated_audit_matches_def as Let_def len
    by (simp add: attempt_is_def repair_attempt_def Suc_le_eq)
  then have audit: "audit_matches A x d" using fields by (simp add: audit_matches_def)
  have "list_all (\<lambda>c. case spacing_of c of None \<Rightarrow> False
      | Some c \<Rightarrow> sc_character_sequence c = sc_character_sequence g \<and> sc_mutable c = sc_mutable g) (cs_candidates (vc_set x))"
    unfolding list_all_iff
  proof
    fix y assume "y \<in> set (cs_candidates (vc_set x))"
    then have y: "y \<in> set (vc_candidates x)" using k by blast
    then obtain c where c: "y = Spacing_Cand c" using s by (auto simp: all_spacing_def list_all_iff spacing_of_Some)
    then have "c \<in> set (spacing_candidates (vc_candidates x))" using y spacing_candidates_in by blast
    then show "case spacing_of y of None \<Rightarrow> False | Some c \<Rightarrow> sc_character_sequence c = sc_character_sequence g \<and> sc_mutable c = sc_mutable g"
      using generation_scope(2) [OF gm] ck(1) c by (simp add: only_spacing_changed_def)
  qed
  then have "selected_is_current A x d"
    using g fields ck generation_scope(1) [OF gm] generation_spacing [OF gm] by (simp add: selected_is_current_def only_spacing_changed_def)
  then show ?thesis using audit built_for_hashes [OF bf s g as] by blast
qed

section \<open>Another run of the adjudicator\<close>

text \<open>Two adjudicators of the same setting: their providers may answer differently, and they may trust different decisions.\<close>

definition same_setting :: "adjudicator \<Rightarrow> adjudicator \<Rightarrow> bool" where
  "same_setting A B \<longleftrightarrow> ae_spacing (aj_env A) = ae_spacing (aj_env B) \<and> aj_policy A = aj_policy B \<and> aj_capabilities A = aj_capabilities B"

lemma same_fields:
  assumes "same_setting A B"
  shows "ae_spacing (aj_env A) = ae_spacing (aj_env B)" "aj_policy A = aj_policy B" "aj_capabilities A = aj_capabilities B"
    "aj_library A = aj_library B"
  using assms by (simp_all add: same_setting_def aj_library_def)

lemma same_parts:
  assumes "same_setting A B"
  shows "low_confidence A = low_confidence B" "attempt_request_hash A = attempt_request_hash B" "request_hash A = request_hash B"
    "provider_identity A = provider_identity B" "ranked_candidates A = ranked_candidates B" "auto_accepted A = auto_accepted B"
    "proven_table A = proven_table B" "make_record A = make_record B" "checked_candidate A = checked_candidate B"
proof -
  note e = same_fields [OF assms]
  show "low_confidence A = low_confidence B" "attempt_request_hash A = attempt_request_hash B"
    "ranked_candidates A = ranked_candidates B" "make_record A = make_record B" "checked_candidate A = checked_candidate B"
    by (simp_all add: fun_eq_iff low_confidence_def attempt_request_hash_def ranked_candidates_def make_record_def checked_candidate_def e)
  show p: "provider_identity A = provider_identity B" by (simp add: provider_identity_def e)
  show "request_hash A = request_hash B" "auto_accepted A = auto_accepted B" "proven_table A = proven_table B"
    unfolding fun_eq_iff request_hash_def auto_accepted_def proven_table_def e p by blast+
qed

lemma same_hashes:
  assumes "same_setting A B"
  shows "hashes_match A base p messages codes as = hashes_match B base p messages codes as"
proof (induction as arbitrary: codes)
  case (Cons a as)
  show ?case unfolding hashes_match.simps Cons.IH same_parts(2) [OF assms] by (rule refl)
qed simp

lemma same_voted:
  assumes "same_setting A B"
  shows "voted A = voted B"
  using assms same_parts(1) [OF assms] same_hashes [OF assms]
  by (simp add: fun_eq_iff voted_def phase_audit_def attempt_is_def same_setting_def split: option.splits prod.splits)

lemma same_decided:
  assumes "same_setting A B"
  shows "model_decided A = model_decided B" "recovery_decided A = recovery_decided B" "tiebreak_decided A = tiebreak_decided B"
    "repair_decided A = repair_decided B"
  using assms same_parts(1,2,8,9) [OF assms] same_voted [OF assms]
  by (simp_all add: fun_eq_iff model_decided_def recovery_decided_def tiebreak_decided_def repair_decided_def recovered_record_def
      built_for_def repair_attempt_def same_setting_def)

lemma remade_candidate:
  assumes "build_generated_candidate E anchor rendered confidence = Inr g"
  shows "make_spacing_candidate (sp_library E) (sc_region_id g) (sc_rendered_text g) (sc_character_sequence g) (sc_atom_ids g)
      (map bd_whitespace (sc_boundaries g)) (sc_score g) (sc_features g) (sc_mutable g) = Inr g"
proof -
  from assms have m: "make_spacing_candidate (sp_library E) (sc_region_id anchor) rendered (sc_character_sequence anchor) (sc_atom_ids anchor)
        (map bd_whitespace (sc_boundaries anchor)) (unit_interval confidence) [(''llm_generated_spacing'', unit_interval confidence)] (sc_mutable anchor) = Inr g"
    by (auto simp: build_generated_candidate_def Let_def)
  from made_spacing_candidate [OF m] have f: "sc_score g = unit_interval confidence"
    "sc_features g = [(''llm_generated_spacing'', unit_interval confidence)]" by auto
  have k: "sc_rendered_text g = rendered" "sc_region_id g = sc_region_id anchor" "sc_character_sequence g = sc_character_sequence anchor"
    "sc_atom_ids g = sc_atom_ids anchor" "sc_mutable g = sc_mutable anchor" "map bd_whitespace (sc_boundaries g) = map bd_whitespace (sc_boundaries anchor)"
    using generated_keeps(1,3) [OF assms] by (simp_all add: only_spacing_changed_def)
  show ?thesis unfolding f k by (rule m)
qed

lemma hashable_features: "hashable (features_value E fs)"
  by (auto simp: features_value_def float_value_def)

lemma decision_id_total: "\<exists>i. decision_id E d = Inr i"
proof -
  have "hashable (boundary_dump b)" for b by (simp add: boundary_dump_def string_seq_def)
  then have "hashable (generated_payload E c region ids bs ix score fs h1 h2)" for c region ids bs ix score fs h1 h2
    using hashable_features [of E fs] by (auto simp: generated_payload_def string_seq_def indexes_value_def float_value_def split: option.splits)
  then have g: "hashable (generated_candidate_identity_payload E k)" for k
    by (cases "(E, k)" rule: generated_candidate_identity_payload.cases) simp_all
  have a: "hashable (attempt_dump E a)" for a
    by (simp add: attempt_dump_def float_value_def string_seq_def text_value_def split: option.split)
  have "hashable (decision_payload E d)"
    using g a by (auto simp: decision_payload_def float_value_def string_seq_def text_value_def split: option.split)
  from hashable_hash(1) [OF this, of "sp_library E"] show ?thesis by (auto simp: decision_id_def)
qed

lemma decided_matches:
  assumes d: "decide_by_vote A x = Inr d" "de_outcome d = Selected" and s: "same_setting A B"
    and h: "distinct (map va_request_hash (de_attempts d))"
    and k: "cs_decision_type (vc_set x) = D_Spacing \<Longrightarrow> all_spacing (vc_candidates x) \<and> set (cs_candidates (vc_set x)) \<subseteq> set (vc_candidates x)"
  shows "attempt_request_hashes_match B x d = Inr True \<and> audit_matches B x d \<and> selected_is_current B x d \<and> binding_matches x d
    \<and> identity_matches B d = Inr True"
proof -
  have "\<not> deferred_decided A x d"
    using d(2) deferred_decision [of A x _ _ d] by (fastforce simp: deferred_decided_def)
  then have cases: "model_decided B x d \<or> recovery_decided B x d \<or> tiebreak_decided B x d \<or> repair_decided B x d"
    using decide_by_vote_cases [OF d(1)] same_decided [OF s] by simp
  have start: "binding_matches x (selected_decision x c src r as)" for c src r as
    by (simp add: binding_matches_def selected_decision_def blank_decision_def)
  from cases obtain d0 where m: "make_record B d0 = Inr d" and b0: "binding_matches x d0"
    using start by (elim disjE) (fastforce simp: model_decided_def recovery_decided_def recovered_record_def tiebreak_decided_def repair_decided_def
        binding_matches_def selected_decision_def blank_decision_def)+
  have b: "binding_matches x d" using b0 make_record_sel [OF m] by (simp add: binding_matches_def)
  have i: "identity_matches B d = Inr True" using make_record_fields(2) [OF m] by (simp add: identity_matches_def)
  from cases show ?thesis
  proof (elim disjE)
    assume "model_decided B x d"
    from model_audit [OF this] vote_hashes_match show ?thesis using b i by fastforce
  next
    assume "recovery_decided B x d"
    from recovery_audit [OF this h] vote_hashes_match show ?thesis using b i by fastforce
  next
    assume "tiebreak_decided B x d"
    from tiebreak_audit [OF this h] vote_hashes_match show ?thesis using b i by blast
  next
    assume r: "repair_decided B x d"
    then have "cs_decision_type (vc_set x) = D_Spacing" by (auto simp: repair_decided_def built_for_def dest: generation_spacing)
    then show ?thesis using repair_audit [OF r] k b i by blast
  qed
qed

text \<open>What is stored gives the decision back: itself, or its diagnostic form with the candidate replaced by a snapshot.\<close>

definition stored_form :: "adjudicator \<Rightarrow> decision \<Rightarrow> decision \<Rightarrow> bool" where
  "stored_form A d stored \<longleftrightarrow> stored = d \<or> diagnostic_decision_record A d = Inr stored"

lemma snapshot_materializes:
  assumes g: "de_generated d = Some (Built g)" and t: "diagnostic_decision_record A d = Inr stored" and L: "aj_library A = aj_library B"
    and ty: "cs_decision_type s = D_Spacing" and rg: "sc_region_id g = cs_region_id s"
    and cs: "spacing_candidates (cs_candidates s) \<noteq> []"
      "\<forall>c\<in>set (spacing_candidates (cs_candidates s)). sc_character_sequence c = sc_character_sequence g"
    and ok: "SpacingCandidate g = Inr g"
    and again: "make_spacing_candidate (aj_library B) (sc_region_id g) (sc_rendered_text g) (sc_character_sequence g) (sc_atom_ids g)
      (map bd_whitespace (sc_boundaries g)) (sc_score g) (sc_features g) (sc_mutable g) = Inr g"
  shows "materialize_generated_candidate B s stored = Inr (Some d)"
proof -
  from g t L have st: "stored = d\<lparr>de_generated := Some (Snapshot \<lparr>gs_candidate_id = sc_candidate_id g, gs_region_id = sc_region_id g,
      gs_atom_ids = sc_atom_ids g, gs_boundaries = sc_boundaries g, gs_mutable = sc_mutable g, gs_score = sc_score g,
      gs_features = sc_features g, gs_rendered_text_hash = text_hash (aj_library B) (sc_rendered_text g),
      gs_character_sequence_hash = text_hash (aj_library B) (sc_character_sequence g)\<rparr>)\<rparr>"
    by (auto simp: diagnostic_decision_record_def GeneratedSpacingSnapshot_def split: if_splits)
  have r: "render_boundaries (sc_character_sequence g) (sc_boundaries g) = sc_rendered_text g"
    using SpacingCandidate_accepted(8) [OF ok] .
  obtain c cs' where c: "spacing_candidates (cs_candidates s) = c # cs'" using cs(1) by (cases "spacing_candidates (cs_candidates s)") auto
  then have e: "sc_character_sequence c = sc_character_sequence g" "\<not> list_ex (\<lambda>c. sc_character_sequence c \<noteq> sc_character_sequence g) (c # cs')"
    using cs(2) by (auto simp: list_ex_iff)
  have "d\<lparr>de_generated := Some (Built g)\<rparr> = d" using g by simp
  then show ?thesis using ty rg again r e by (simp add: materialize_generated_candidate_def st c Let_def)
qed

lemma decided_materializes:
  assumes d: "decide_by_vote A x = Inr d" "de_outcome d = Selected" and s: "same_setting A B" and t: "stored_form A d stored"
    and k: "cs_decision_type (vc_set x) = D_Spacing \<Longrightarrow> all_spacing (vc_candidates x) \<and> set (cs_candidates (vc_set x)) = set (vc_candidates x)"
  shows "materialize_generated_candidate B (vc_set x) stored = Inr (Some d)"
proof -
  have "\<not> deferred_decided A x d" using d(2) deferred_decision [of A x _ _ d] by (fastforce simp: deferred_decided_def)
  then have cases: "model_decided A x d \<or> recovery_decided A x d \<or> tiebreak_decided A x d \<or> repair_decided A x d"
    using decide_by_vote_cases [OF d(1)] by simp
  show ?thesis
  proof (cases "repair_decided A x d")
    case True
    then obtain votes anchor g a b where bf: "built_for A x votes anchor g a b" and g: "de_generated d = Some (Built g)"
      by (auto simp: repair_decided_def dest: make_record_sel(6))
    from bf obtain p m where ck: "checked_candidate A anchor p = Inr g" and an: "Spacing_Cand anchor \<in> set (vc_candidates x)"
      and gm: "spacing_generation_messages (ae_spacing (aj_env A)) (vc_set x) (spacing_candidates (vc_candidates x)) anchor = Inr m"
      unfolding built_for_def by blast
    note safe = checked_candidate_safe [OF ck] and ty = generation_spacing [OF gm] and sc = generation_scope [OF gm]
    have kept: "sc_character_sequence g = sc_character_sequence anchor" "sc_region_id g = sc_region_id anchor"
      using safe(1) by (simp_all add: only_spacing_changed_def)
    have again: "make_spacing_candidate (aj_library B) (sc_region_id g) (sc_rendered_text g) (sc_character_sequence g) (sc_atom_ids g)
        (map bd_whitespace (sc_boundaries g)) (sc_score g) (sc_features g) (sc_mutable g) = Inr g"
    proof -
      from ck have "build_generated_candidate (ae_spacing (aj_env A)) anchor (pp_rendered_text p) (pp_confidence p) = Inr g"
        by (auto simp: checked_candidate_def Let_def)
      from remade_candidate [OF this] show ?thesis using same_fields(1) [OF s] by (simp add: aj_library_def)
    qed
    have sub: "set (spacing_candidates (cs_candidates (vc_set x))) = set (spacing_candidates (vc_candidates x))"
      using k [OF ty] by (simp add: spacing_candidates_def)
    have cs: "\<forall>c\<in>set (spacing_candidates (cs_candidates (vc_set x))). sc_character_sequence c = sc_character_sequence g"
      unfolding sub using sc(2) kept by simp
    have ne: "spacing_candidates (cs_candidates (vc_set x)) \<noteq> []" using sub spacing_candidates_in [OF an] by auto
    from t show ?thesis unfolding stored_form_def
    proof (elim disjE)
      assume "stored = d"
      then show ?thesis using g by (simp add: materialize_generated_candidate_def)
    next
      assume "diagnostic_decision_record A d = Inr stored"
      from snapshot_materializes [OF g this same_fields(4) [OF s] ty _ ne cs safe(3) again] sc(1) kept(2) show ?thesis by simp
    qed
  next
    case False
    then have "model_decided A x d \<or> recovery_decided A x d \<or> tiebreak_decided A x d" using cases by blast
    then have "de_generated d = None"
      by (elim disjE) (auto simp: model_decided_def recovery_decided_def tiebreak_decided_def recovered_record_def selected_decision_def
          blank_decision_def dest!: make_record_sel(6))
    then show ?thesis using t by (auto simp: stored_form_def diagnostic_decision_record_def materialize_generated_candidate_def)
  qed
qed

lemma ranked_all: "length (cs_candidates s) \<le> po_max_candidates (aj_policy A) \<Longrightarrow> set (ranked_candidates A s) = set (cs_candidates s)"
  by (simp add: ranked_candidates_def)

lemma candidate_set_spacing: "CandidateSet s = Inr s \<Longrightarrow> cs_decision_type s = D_Spacing \<Longrightarrow> k \<in> set (cs_candidates s) \<Longrightarrow> spacing_of k \<noteq> None"
  by (cases k) (auto simp: CandidateSet_def split: if_splits)

lemma reuse_of_decision:
  assumes d: "decide A s crop ev = Inr d" "aj_trusted A = []" "de_outcome d = Selected" and ss: "same_setting A B"
    and t: "stored_form A d stored" "aj_trusted B = [stored]"
    and s: "CandidateSet s = Inr s" "length (cs_candidates s) \<le> po_max_candidates (aj_policy A)"
    and h: "distinct (map va_request_hash (de_attempts d))"
  shows "decide B s crop ev = Inr d \<and> de_source d = Deterministic
    \<or> (\<exists>i. decide B s crop ev = Inr (d\<lparr>de_source := Cache, de_decision_id := i\<rparr>))"
proof -
  note same = same_parts [OF ss] and fields = same_fields [OF ss]
  obtain pr mo where pm: "provider_identity B = (pr, mo)" by (cases "provider_identity B")
  note d1 = d(1) [unfolded decide_def same fields pm Let_def prod.case]
  obtain eh rh where e: "(case ev of Some (h # hs) \<Rightarrow> Inr (h # hs) | _ \<Rightarrow> canonical_hash (aj_library B) (candidate_set_dump (ae_spacing (aj_env B)) s)) = Inr eh"
    and r: "request_hash B s eh crop = Inr rh" and ne: "ranked_candidates B s \<noteq> []"
    using d1 by (auto split: if_splits)
  define x where "x = \<lparr>vc_set = s, vc_candidates = ranked_candidates B s, vc_request_hash = rh, vc_evidence_hash = eh,
    vc_provider = pr, vc_model = mo, vc_page_crop = crop\<rparr>"
  have dx: "decide_case A x = Inr d" using d1 e r ne by (simp add: x_def)
  have db: "decide B s crop ev = decide_case B x" using e r ne by (simp add: decide_def pm Let_def x_def)
  have vs: "vc_set x = s" and vc: "vc_candidates x = ranked_candidates B s" by (simp_all add: x_def)
  have all: "set (vc_candidates x) = set (cs_candidates s)" using ranked_all [of s B] s(2) fields(2) by (simp add: vc)
  have sp: "cs_decision_type (vc_set x) = D_Spacing \<Longrightarrow> all_spacing (vc_candidates x) \<and> set (cs_candidates (vc_set x)) = set (vc_candidates x)"
    using candidate_set_spacing [OF s(1)] all by (simp add: vs all_spacing_def list_all_iff)
  from dx obtain proven where p: "proven_table A (vc_candidates x) = Inr proven" by (auto simp: decide_case_def)
  have det: "deterministic_record A = deterministic_record B" by (simp add: fun_eq_iff deterministic_record_def same)
  show ?thesis
  proof (cases "proven \<noteq> None \<or> auto_accepted A (vc_candidates x)")
    case True
    then have "decide_case B x = decide_case A x"
      using p by (cases proven) (simp_all add: decide_case_def det same)
    moreover have "de_source d = Deterministic"
      using True p dx by (cases proven) (auto simp: decide_case_def deterministic_record_def dest!: make_record_sel(3))
    ultimately show ?thesis using dx db by simp
  next
    case False
    have v: "decide_by_vote A x = Inr d"
    proof (cases "aj_capabilities A = None")
      case True
      then have "deferred_candidate_record A x [] [''LLM_PROVIDER_UNAVAILABLE''] = Inr d" using dx p False d(2) by (simp add: decide_case_def)
      from deferred_decision [OF this] show ?thesis using d(3) by auto
    next
      case capable: False
      then show ?thesis using dx p False d(2) by (auto simp: decide_case_def)
    qed
    have "materialize_generated_candidate B s stored = Inr (Some d)"
      using decided_materializes [OF v d(3) ss t(1) sp] by (simp add: vs)
    moreover have "trusted_decision_matches B x d = Inr True"
      using decided_matches [OF v d(3) ss h] sp by (simp add: trusted_decision_matches_def)
    ultimately have "decide_case B x = cached_record B d"
      using p False t(2) by (simp add: decide_case_def same vs)
    moreover obtain i where "decision_id (ae_spacing (aj_env B)) (d\<lparr>de_source := Cache\<rparr>) = Inr i" using decision_id_total by blast
    ultimately show ?thesis using db by (auto simp: cached_record_def)
  qed
qed

end
