(* ===== verification/Decisions.thy ===== *)
theory Decisions
  imports Adjudication_Reuse
begin

text \<open>
  The properties of the adjudication, on a run of two candidates that are decided by one vote.
\<close>

section \<open>A run\<close>

definition first_id :: string where "first_id = ''candidate_0000000000000000''"
definition second_id :: string where "second_id = ''candidate_0000000000000001''"

definition continuation_of :: "string \<Rightarrow> bool \<Rightarrow> rat \<Rightarrow> candidate" where
  "continuation_of i b score = Continuation_Cand \<lparr>nc_candidate_id = i, nc_region_id = ''region_0000000000000000'',
     nc_previous_region_id = ''region_0000000000000001'', nc_current_region_id = ''region_0000000000000000'', nc_continue_previous = b,
     nc_score = score, nc_features = []\<rparr>"

definition two_candidates :: candidate_set where
  "two_candidates = \<lparr>cs_candidate_set_id = ''candidate_set_0000000000000000'', cs_source_hash = replicate 64 CHR ''0'',
     cs_region_id = ''region_0000000000000000'', cs_decision_type = D_Continuation,
     cs_candidates = [continuation_of first_id True (6/10), continuation_of second_id False (5/10)]\<rparr>"

definition vote_reply :: llm_result where
  "vote_reply = sample_answer\<lparr>lr_structured := Some [(''candidate_id'', JStr second_id), (''confidence'', JInt 1)]\<rparr>"

definition number_of :: "json \<Rightarrow> rat option" where
  "number_of j = (case j of JInt i \<Rightarrow> Some (of_int i) | _ \<Rightarrow> None)"

text \<open>The adjudicator of a provider that always gives this reply, with the decisions it trusts.\<close>

definition voter :: "decision list \<Rightarrow> adjudicator" where
  "voter trusted = \<lparr>aj_env = \<lparr>ae_spacing = \<lparr>sp_library = sample_library, sp_repr = (\<lambda>_. ''0.5''), sp_digit = ascii_digit\<rparr>, ae_float = number_of,
       ae_error_text = (\<lambda>m. ''error'' @ [CHR 0x0A] @ m), ae_proposal_schema = JNull, ae_checker = sample_checker,
       ae_text_service = (\<lambda>_. \<lparr>se_generate = (\<lambda>_ _. Inr vote_reply), se_jitter = (\<lambda>_. 0)\<rparr>),
       ae_page_service = (\<lambda>_. \<lparr>se_generate = (\<lambda>_ _. Inr vote_reply), se_jitter = (\<lambda>_. 0)\<rparr>)\<rparr>,
     aj_capabilities = Some [(''provider'', ''p''), (''model'', ''m'')], aj_policy = default_policy, aj_trusted = trusted\<rparr>"

lemma voter_fields [simp]: "aj_capabilities (voter t) = Some [(''provider'', ''p''), (''model'', ''m'')]" "aj_policy (voter t) = default_policy"
    "aj_trusted (voter t) = t" "aj_library (voter t) = sample_library"
  by (simp_all add: voter_def aj_library_def)

lemma hash_ok: "hashable v \<Longrightarrow> \<exists>h. canonical_hash (aj_library (voter t)) v = Inr h \<and> Sha256 h"
  by (simp add: sample_hash)

lemma json_text_ok: "hashable v \<Longrightarrow> \<exists>s. json_text v = Inr s"
  using hashable_normalize [of v "\<lparr>lib_nfc = id, lib_sha256 = id\<rparr>" "[]"] by (auto simp: json_text_def)

lemma bind_exists: "\<exists>s. r = Inr s \<Longrightarrow> (\<And>s. \<exists>m. f s = Inr m) \<Longrightarrow> \<exists>m. bind_ok r f = Inr m"
  by auto

lemma generated_reply: "\<exists>r. generate_text_answer (voter t) n schema messages = Inr r \<and> lr_structured r = lr_structured vote_reply
    \<and> md_retry_count (lr_metadata r) = 0 \<and> md_repair_count (lr_metadata r) = 0"
proof -
  have "[0..<MAX_TOTAL_ATTEMPTS] = [0, 1, 2]" by (simp add: MAX_TOTAL_ATTEMPTS_def upt_rec)
  then show ?thesis
    by (simp add: generate_text_answer_def generate_structured_def run_structured_def structured_attempt_def call_provider_def
        voter_def fresh_service_def validate_result_def vote_reply_def sample_checker_def with_counts_def)
qed

lemma ids_ok: "CandidateId first_id" "CandidateId second_id" "first_id \<noteq> second_id" "RegionId ''region_0000000000000000''"
    "CandidateSetId ''candidate_set_0000000000000000''" "DecisionId ''decision_0000000000000000''" "Sha256 (replicate 64 CHR ''0'')"
  by code_simp+

lemma ranked_two: "ranked_candidates (voter t) two_candidates = cs_candidates two_candidates"
  by (simp add: ranked_candidates_def two_candidates_def continuation_of_def default_policy_def)

lemma messages_ok:
  "\<exists>m. vote_messages (ae_spacing (aj_env (voter t))) two_candidates (cs_candidates two_candidates) Primary [] = Inr m"
proof -
  have "hashable (candidate_summary E (continuation_of i b score))" for E i b score
    by (simp add: candidate_summary_def continuation_of_def float_value_def features_value_def)
  then have "hashable (PSeq (map (candidate_summary E) (cs_candidates two_candidates)))" for E by (simp add: two_candidates_def)
  then show ?thesis
    unfolding vote_messages_def by (intro bind_exists json_text_ok) (simp_all add: string_seq_def)
qed

lemma attempt_hash_ok: "\<exists>h. attempt_request_hash (voter t) base p messages n = Inr h \<and> Sha256 h"
proof -
  obtain g where "canonical_hash (aj_library (voter t))
      (PSeq (map (\<lambda>m. PDict [(''role'', PStr (tm_role m)), (''content'', PStr (tm_content m))]) messages)) = Inr g"
    using hash_ok [of "PSeq (map (\<lambda>m. PDict [(''role'', PStr (tm_role m)), (''content'', PStr (tm_content m))]) messages)" t] by auto
  moreover obtain h where "canonical_hash (aj_library (voter t)) (PDict [(''base_request_hash'', PStr base), (''phase'', PStr (phase_name p)),
      (''attempt_index'', PInt (int n)), (''messages_hash'', PStr g)]) = Inr h" "Sha256 h"
    using hash_ok [of "PDict [(''base_request_hash'', PStr base), (''phase'', PStr (phase_name p)),
      (''attempt_index'', PInt (int n)), (''messages_hash'', PStr g)]" t] by auto
  ultimately show ?thesis by (simp add: attempt_request_hash_def)
qed

lemma decision_ok: "\<exists>i. decision_id E d = Inr i" by (rule decision_id_total)

text \<open>The second candidate is chosen by the vote, with full confidence.\<close>

lemma vote_run:
  assumes "Sha256 rh" and "Sha256 eh"
  shows "\<exists>d. decide_case (voter []) \<lparr>vc_set = two_candidates, vc_candidates = cs_candidates two_candidates, vc_request_hash = rh,
      vc_evidence_hash = eh, vc_provider = ''p'', vc_model = ''m'', vc_page_crop = None\<rparr> = Inr d
    \<and> de_outcome d = Selected \<and> de_source d = Model \<and> de_selected d = Some second_id \<and> length (de_attempts d) = 1"
proof -
  define x where "x = \<lparr>vc_set = two_candidates, vc_candidates = cs_candidates two_candidates, vc_request_hash = rh,
      vc_evidence_hash = eh, vc_provider = ''p'', vc_model = ''m'', vc_page_crop = None\<rparr>"
  have cs: "vc_candidates x = [continuation_of first_id True (6/10), continuation_of second_id False (5/10)]"
    and xf: "vc_set x = two_candidates" "vc_page_crop x = None" "vc_request_hash x = rh" "vc_evidence_hash x = eh" "vc_provider x = ''p''"
      "vc_model x = ''m''" by (simp_all add: x_def two_candidates_def)
  obtain m where m: "vote_messages (ae_spacing (aj_env (voter []))) (vc_set x) (vc_candidates x) Primary [] = Inr m"
    using messages_ok by (auto simp: x_def)
  obtain h where h: "attempt_request_hash (voter []) rh Primary m 1 = Inr h" "Sha256 h" using attempt_hash_ok by blast
  obtain r where r: "generate_text_answer (voter []) 1 candidate_choice_schema m = Inr r" "lr_structured r = lr_structured vote_reply"
    "md_retry_count (lr_metadata r) = 0" "md_repair_count (lr_metadata r) = 0" using generated_reply by blast
  have c: "candidate_choice (voter []) (lr_structured r) = Inr (second_id, 1)"
    unfolding r(2) using ids_ok(2) by (simp add: candidate_choice_def vote_reply_def voter_def number_of_def in_unit_def)
  have al: "second_id \<in> allowlist x" by (simp add: allowlist_def cs continuation_of_def)
  have low: "\<not> low_confidence (voter []) 1" by (simp add: low_confidence_def default_policy_def)
  define a where "a = \<lparr>va_index = 1, va_phase = Primary, va_request_hash = h, va_candidate_id = Some second_id, va_confidence = 1,
     va_status = Accepted_Vote, va_codes = [], va_retry_count = 0, va_repair_count = 0\<rparr>"
  have af: "va_retry_count a = 0" "va_repair_count a = 0" by (simp_all add: a_def)
  have at: "result_attempt 1 Primary h (Some second_id) 1 Accepted_Vote [] r = Inr a"
    using h(2) ids_ok(2) r(3,4) by (simp add: result_attempt_def AdjudicationAttempt_def in_unit_def a_def)
  have sc: "[1..<1 + po_max_schema_attempts (aj_policy (voter []))] = [1, 2]" by (simp add: default_policy_def upt_rec)
  have v: "run_vote_phase (voter []) x Primary [] 1 = Inr \<lparr>vp_choice = Some (second_id, 1), vp_attempts = [a], vp_codes = [],
      vp_retry_count = 0, vp_repair_count = 0\<rparr>"
    unfolding run_vote_phase_def m bind_ok.simps sc
    using h(1) r c al low at by (simp add: active_messages_def generate_choice_def xf)
  have w: "candidate_with_id (vc_candidates x) second_id = Inr (continuation_of second_id False (5/10))"
    using ids_ok(3) by (simp add: candidate_with_id_def cs continuation_of_def)
  define d where "d = (blank_decision x)\<lparr>de_selected := Some second_id, de_outcome := Selected, de_source := Model, de_confidence := 1,
     de_attempts := [a], de_retry_count := 0, de_repair_count := 0\<rparr>"
  have dv: "decide_by_vote (voter []) x = make_record (voter []) d"
    unfolding decide_by_vote_def v bind_ok.simps using low by (simp add: w d_def) (simp add: continuation_of_def)
  have ch: "char_length ''continuation'' = 12" "char_length ''p'' = 1" "char_length ''m'' = 1" by code_simp+
  have "DecisionRecord d = Inr d"
    using assms ids_ok ch by (simp add: DecisionRecord_def d_def blank_decision_def xf two_candidates_def in_unit_def)
  moreover have "d\<lparr>de_retry_count := sum_list (map va_retry_count (de_attempts d)), de_repair_count := sum_list (map va_repair_count (de_attempts d))\<rparr> = d"
    by (simp add: d_def af)
  moreover obtain i where "decision_id (ae_spacing (aj_env (voter []))) d = Inr i" using decision_ok by blast
  ultimately have mr: "make_record (voter []) d = Inr (d\<lparr>de_decision_id := i\<rparr>)" by (simp add: make_record_def)
  have p: "proven_table (voter []) (vc_candidates x) = Inr None" by (simp add: proven_table_def cs continuation_of_def)
  have "\<not> auto_accepted (voter []) (vc_candidates x)" by (simp add: auto_accepted_def cs continuation_of_def default_policy_def)
  then have "decide_case (voter []) x = Inr (d\<lparr>de_decision_id := i\<rparr>)" using p dv mr by (simp add: decide_case_def)
  then show ?thesis unfolding x_def [symmetric] by (simp add: d_def)
qed

lemma voter_decides:
  "\<exists>d. decide (voter []) two_candidates None (Some (replicate 64 CHR ''0'')) = Inr d \<and> de_outcome d = Selected \<and> de_source d = Model
     \<and> de_selected d = Some second_id \<and> length (de_attempts d) = 1"
proof -
  let ?e = "replicate 64 CHR ''0''"
  have e: "?e = CHR ''0'' # replicate 63 CHR ''0''" by (simp flip: replicate_Suc)
  obtain g1 where g1: "canonical_hash (aj_library (voter [])) (PStr PROMPT_VERSION) = Inr g1"
    using hash_ok [of "PStr PROMPT_VERSION" "[]"] by auto
  have "hashable (as_python candidate_choice_schema)" by (simp add: candidate_choice_schema_def)
  then obtain g2 where g2: "canonical_hash (aj_library (voter [])) (as_python candidate_choice_schema) = Inr g2" using hash_ok by blast
  have "\<exists>rh. request_hash (voter []) two_candidates ?e None = Inr rh \<and> Sha256 rh"
    by (simp add: request_hash_def g1 [simplified] g2 [simplified] provider_identity_def policy_dump_def float_value_def text_value_def Let_def)
      (rule sample_hash, simp)
  then obtain rh where rh: "request_hash (voter []) two_candidates ?e None = Inr rh" "Sha256 rh" by blast
  have ne: "cs_candidates two_candidates \<noteq> []" by (simp add: two_candidates_def)
  from vote_run [OF rh(2) ids_ok(7)] show ?thesis
    using rh(1) ne unfolding decide_def ranked_two e by (simp add: provider_identity_def)
qed

section \<open>Properties\<close>

lemma ranked_sorted: "sorted (map (\<lambda>c. - candidate_score c) (ranked_candidates A s))"
proof -
  let ?key = "\<lambda>c. (- candidate_score c, candidate_id c)"
  have "sorted_wrt (\<lambda>c d. ?key c \<le> ?key d) (sort_key ?key (cs_candidates s))"
    using sorted_sort_key [of ?key "cs_candidates s"] by (simp add: sorted_wrt_map)
  then have "sorted_wrt (\<lambda>c d. ?key c \<le> ?key d) (ranked_candidates A s)"
    unfolding ranked_candidates_def by (rule sorted_wrt_take)
  then show ?thesis unfolding sorted_wrt_map by (rule sorted_wrt_mono_rel [rotated]) auto
qed

text \<open>(C37) What may be selected by an adjudicator without trusted decisions. Without any vote: a table whose
  invariants are proven, when all proven tables have its structure and none ranks above it, with confidence one; or the
  best-ranked candidate, with its own score as confidence, when that score reaches the threshold of the policy, leads every other
  offered candidate (or, without one, zero) by the margin of the policy, and, for spacing, has no defect. Otherwise: an offered
  candidate on a confident vote, or on at least two votes for it when the first one was not confident; or a candidate built
  by the repair that has the characters, the hard breaks and the fixed boundaries of an offered one, no defect, and was confirmed
  with confidence. What is deferred is an offered candidate, for spacing one without defects; and a decision that needs review
  selects nothing.\<close>

theorem decisions_justified:
  assumes "decide A s crop ev = Inr d" and "aj_trusted A = []"
  shows "set (ranked_candidates A s) \<subseteq> set (cs_candidates s) \<and> justified A s (ranked_candidates A s) d"
proof -
  obtain pr mo where pm: "provider_identity A = (pr, mo)" by (cases "provider_identity A")
  from assms(1) obtain eh rh where "ranked_candidates A s \<noteq> []" and c: "decide_case A \<lparr>vc_set = s, vc_candidates = ranked_candidates A s,
      vc_request_hash = rh, vc_evidence_hash = eh, vc_provider = pr, vc_model = mo, vc_page_crop = crop\<rparr> = Inr d"
    by (auto simp: decide_def pm Let_def split: if_splits)
  moreover have "set (ranked_candidates A s) \<subseteq> set (cs_candidates s)"
    unfolding ranked_candidates_def using set_take_subset by fastforce
  ultimately show ?thesis using decide_case_untrusted [OF c assms(2)] ranked_sorted by simp
qed

theorem decisions_justified_witness:
  "\<exists>d. decide (voter []) two_candidates None (Some (replicate 64 CHR ''0'')) = Inr d \<and> de_source d = Model
     \<and> de_selected d = Some second_id \<and> justified (voter []) two_candidates (ranked_candidates (voter []) two_candidates) d"
proof -
  from voter_decides obtain d where d: "decide (voter []) two_candidates None (Some (replicate 64 CHR ''0'')) = Inr d"
    "de_source d = Model" "de_selected d = Some second_id" by blast
  from decisions_justified [OF d(1)] d show ?thesis by simp
qed

text \<open>(C38) A stored decision is taken again: an adjudicator of the same setting that trusts a decision made without trusted ones, or its
  diagnostic form, returns the same selection with the same audit, whatever its provider would answer. The set has no
  more candidates than the policy admits, and the hashes of the attempts do not collide.\<close>

theorem stored_decision_reused:
  assumes "decide A s crop ev = Inr d" and "aj_trusted A = []" and "de_outcome d = Selected" and "same_setting A B"
    and "stored_form A d stored" and "aj_trusted B = [stored]"
    and "CandidateSet s = Inr s" and "length (cs_candidates s) \<le> po_max_candidates (aj_policy A)"
    and "distinct (map va_request_hash (de_attempts d))"
  shows "decide B s crop ev = Inr d \<and> de_source d = Deterministic
    \<or> (\<exists>i. decide B s crop ev = Inr (d\<lparr>de_source := Cache, de_decision_id := i\<rparr>))"
  using assms by (rule reuse_of_decision)

theorem stored_decision_reused_witness:
  "\<exists>d i. decide (voter []) two_candidates None (Some (replicate 64 CHR ''0'')) = Inr d \<and> de_source d = Model
     \<and> decide (voter [d]) two_candidates None (Some (replicate 64 CHR ''0'')) = Inr (d\<lparr>de_source := Cache, de_decision_id := i\<rparr>)"
proof -
  from voter_decides obtain d where d: "decide (voter []) two_candidates None (Some (replicate 64 CHR ''0'')) = Inr d"
    "de_outcome d = Selected" "de_source d = Model" "length (de_attempts d) = 1" by blast
  have ss: "same_setting (voter []) (voter [d])" by (simp add: same_setting_def voter_def)
  have cs: "CandidateSet two_candidates = Inr two_candidates"
    using ids_ok by (simp add: CandidateSet_def two_candidates_def continuation_of_def)
  have h: "distinct (map va_request_hash (de_attempts d))" using d(4) by (cases "de_attempts d") auto
  have "length (cs_candidates two_candidates) \<le> po_max_candidates (aj_policy (voter []))"
    by (simp add: two_candidates_def default_policy_def)
  from stored_decision_reused [OF d(1) _ d(2) ss _ _ cs this h, of d] d(1,3) show ?thesis by (auto simp: stored_form_def)
qed

section \<open>Answers that the repair does not survive\<close>

text \<open>A verification of low confidence that already lists four codes gets a fifth one, which the record refuses: the decision raises
  instead of being deferred.\<close>

theorem four_codes_raise:
  assumes "spacing_verification_messages (ae_spacing (aj_env A)) (vc_set x) cs g = Inr m"
    and "attempt_request_hash A (vc_request_hash x) Verification m (length done + 1) = Inr hash"
    and "spacing_verification_schema (distinct_codes (map sc_candidate_id (cs @ [g]))) = Inr schema"
    and "generate_text_answer A (length done + 1) schema m = Inr r" and "parse_verification A (lr_structured r) = Inr v"
    and "low_confidence A (vr_confidence v)" and "length (vr_validation_codes v) = 4"
    and "''VALID'' \<notin> set (vr_validation_codes v)" and "''LLM_CONFIDENCE_TOO_LOW'' \<notin> set (vr_validation_codes v)"
  shows "verify_generated A x cs g p done = Inl field_error"
proof -
  have "filter (\<lambda>c. c \<noteq> ''VALID'') (vr_validation_codes v) = vr_validation_codes v"
    unfolding filter_id_conv using assms(8) by blast
  then have "verification_codes A v b = vr_validation_codes v @ [''LLM_CONFIDENCE_TOO_LOW'']" for b
    using assms(6,7,9) by (simp only: verification_codes_def Let_def) simp
  then have "result_attempt n Verification hash c q st (verification_codes A v b) r = Inl field_error" for n c q st b
    using assms(7) by (simp add: result_attempt_def AdjudicationAttempt_def)
  then show ?thesis using assms(1-6) by (simp add: verify_generated_def Let_def)
qed

text \<open>A proposal whose spacing is not in normal form, such as two spaces in a row, is refused by the validator of the candidate; the text
  of that error is not a code, so the record of the refusal raises instead of the decision being deferred.\<close>

theorem spaced_proposal_raises:
  assumes "spacing_generation_messages (ae_spacing (aj_env A)) (vc_set x) cs anchor = Inr m"
    and "attempt_request_hash A (vc_request_hash x) Generation m (length done + 1) = Inr hash"
    and "generate_text_answer A (length done + 1) (ae_proposal_schema (aj_env A)) m = Inr r"
    and "parse_proposal A (lr_structured r) = Inr p"
    and "checked_candidate A anchor p = Inl (ValidationError code)" and "\<not> ValidationCode (ae_error_text (aj_env A) code)"
  shows "run_spacing_repair A x cs anchor done = Inl field_error"
  using assms by (simp add: run_spacing_repair_def Let_def result_attempt_def AdjudicationAttempt_def)

definition joined_pair :: spacing_candidate where
  "joined_pair = \<lparr>sc_candidate_id = first_id, sc_region_id = ''region_0000000000000000'', sc_rendered_text = ''ab'',
     sc_character_sequence = ''ab'', sc_atom_ids = [''atom_0000000000000000'', ''atom_0000000000000001''],
     sc_boundaries = [\<lparr>bd_left = ''atom_0000000000000000'', bd_right = ''atom_0000000000000001'', bd_state = No_Gap, bd_whitespace = []\<rparr>],
     sc_mutable = None, sc_score = 1/2, sc_features = []\<rparr>"

theorem double_space_refused:
  "checked_candidate (voter []) joined_pair \<lparr>pp_rendered_text = ''a  b'', pp_confidence = 1, pp_repair_reasons = []\<rparr>
     = Inl (ValidationError ''CANDIDATE_BOUNDARY_RENDER_INVALID'')"
proof -
  let ?E = "ae_spacing (aj_env (voter []))"
  have c: "characters ''a  b'' = [''a'', '' '', '' '', ''b'']" "without_whitespace ''a  b'' = ''ab''" "characters ''ab'' = [''a'', ''b'']"
    "\<not> list_ex control_space (characters ''a  b'')" "\<not> search_pattern IDENTIFIER_WHITESPACE (characters ''a  b'')"
    "protected_token_occurrences ascii_digit (characters ''ab'') = []" by code_simp+
  have p: "\<not> has_protected_token_split ascii_digit (characters ''a  b'') (Some [])" by code_simp
  have E: "sp_digit ?E = ascii_digit" "sp_library ?E = sample_library" by (simp_all add: voter_def)
  define bs where "bs = [\<lparr>bd_left = ''atom_0000000000000000'', bd_right = ''atom_0000000000000001'', bd_state = Space_Gap, bd_whitespace = []\<rparr>]"
  have b: "boundaries_from_rendered ''a  b'' [''atom_0000000000000000'', ''atom_0000000000000001''] [[]] = Inr bs"
    unfolding bs_def by code_simp
  have h: "hashable (PDict [(''rendered_text'', PStr ''a  b''), (''atom_ids'', PSeq (map PStr [''atom_0000000000000000'', ''atom_0000000000000001''])),
      (''boundaries'', PSeq (map boundary_value bs))])"
    by (simp add: bs_def boundary_value_def)
  have "hashable (PDict [(''kind'', PStr ''spacing''), (''region_id'', PStr ''region_0000000000000000''), (''payload'', PDict [(''rendered_text'', PStr ''a  b''),
      (''atom_ids'', PSeq (map PStr [''atom_0000000000000000'', ''atom_0000000000000001''])), (''boundaries'', PSeq (map boundary_value bs))])])"
    using h by simp
  then obtain d where d: "canonical_hash sample_library (PDict [(''kind'', PStr ''spacing''), (''region_id'', PStr ''region_0000000000000000''),
      (''payload'', PDict [(''rendered_text'', PStr ''a  b''), (''atom_ids'', PSeq (map PStr [''atom_0000000000000000'', ''atom_0000000000000001''])),
         (''boundaries'', PSeq (map boundary_value bs))])]) = Inr d" "Sha256 d" using sample_hash by blast
  define i where "i = ''candidate_'' @ take 16 d"
  have i: "make_candidate_id sample_library ''spacing'' ''region_0000000000000000'' (PDict [(''rendered_text'', PStr ''a  b''),
      (''atom_ids'', PSeq (map PStr [''atom_0000000000000000'', ''atom_0000000000000001''])), (''boundaries'', PSeq (map boundary_value bs))]) = Inr i"
    using d(1) unfolding make_candidate_id_def candidate_digest_def i_def by (simp only: bind_ok.simps)
  have ci: "CandidateId i" unfolding i_def CandidateId_def by (rule prefixed_hash [OF d(2)])
  have ids: "AtomId ''atom_0000000000000000''" "AtomId ''atom_0000000000000001''" "RegionId ''region_0000000000000000''"
    "\<not> list_ex space_character [''a'', ''b'']" "render_boundaries ''ab'' bs \<noteq> ''a  b''" unfolding bs_def by code_simp+
  have "make_spacing_candidate sample_library ''region_0000000000000000'' ''a  b'' ''ab'' [''atom_0000000000000000'', ''atom_0000000000000001'']
      [[]] 1 fs None = Inl (ValidationError ''CANDIDATE_BOUNDARY_RENDER_INVALID'')" for fs
    unfolding make_spacing_candidate_def b bind_ok.simps option.case append_Nil2 i
    using ci ids c(2,3) by (simp add: SpacingCandidate_def spacing_fields_ok_def boundary_ok_def bs_def reject_if_def Let_def)
  then show ?thesis
    using c p by (simp add: checked_candidate_def build_generated_candidate_def joined_pair_def E raise_if_def unit_interval_def Let_def)
qed

end
