(* ===== verification/Spacing_Facts.thy ===== *)
theory Spacing_Facts
  imports Spacing
begin

text \<open>
  Facts on the whitespace candidates: the characters of a text built from parts, the gaps of a joined text, the characters a
  pattern can match, and what the repair of a cell changes.
\<close>

section \<open>Characters of parts\<close>

lemma char_list_part: "char_list cs \<Longrightarrow> set xs \<subseteq> set cs \<Longrightarrow> set (tl xs) \<subseteq> set (tl cs) \<Longrightarrow> char_list xs"
  unfolding char_list_def by blast

lemma in_tl: "x \<in> set (tl xs) \<Longrightarrow> x \<in> set xs"
  by (cases xs) simp_all

lemma set_tl_dropWhile: "set (tl (dropWhile P xs)) \<subseteq> set (tl xs)"
  by (induction xs) (auto dest: set_dropWhileD in_tl)

lemma set_tl_filter: "set (tl (filter P xs)) \<subseteq> set (tl xs)"
  by (induction xs) (auto dest: in_tl)

lemma set_tl_take: "set (tl (take n xs)) \<subseteq> set (tl xs)"
  by (cases xs; cases n) (auto dest: in_set_takeD)

lemma rev_dropWhile_take: "\<exists>n. rev (dropWhile P (rev xs)) = take n xs"
  by (metis append_eq_conv_conj rev_append rev_rev_ident takeWhile_dropWhile_id)

lemma char_list_filter: "char_list cs \<Longrightarrow> char_list (filter P cs)"
  by (rule char_list_part [OF _ _ set_tl_filter]) auto

lemma char_list_strip:
  assumes "char_list cs"
  shows "char_list (strip_characters cs)"
proof -
  have d: "char_list (dropWhile space_character cs)"
    by (rule char_list_part [OF assms _ set_tl_dropWhile]) (auto dest: set_dropWhileD)
  obtain n where "strip_characters cs = take n (dropWhile space_character cs)"
    using rev_dropWhile_take [of space_character "dropWhile space_character cs"] by (auto simp: strip_characters_def)
  with d show ?thesis using char_list_part [OF d _ set_tl_take] by (auto dest: in_set_takeD)
qed

lemma characters_strip: "characters (strip_text s) = strip_characters (characters s)"
  by (simp add: strip_text_def characters_concat char_list_strip characters_list)

lemma characters_visible: "characters (without_whitespace s) = visible_characters s"
  by (simp add: without_whitespace_def visible_characters_def characters_concat char_list_filter characters_list)

lemma hd_hd_characters: "s \<noteq> [] \<Longrightarrow> characters s \<noteq> [] \<and> hd (hd (characters s)) = hd s"
proof -
  assume s: "s \<noteq> []"
  then have n: "characters s \<noteq> []" using concat_characters [of s] by force
  then obtain c cs where c: "characters s = c # cs" by (cases "characters s") auto
  moreover have "c \<noteq> []" using characters_list [of s] c by (simp add: char_list_def)
  ultimately show ?thesis using concat_characters [of s] by (metis concat.simps(2) hd_append2 list.discI list.sel(1))
qed

lemma characters_append:
  assumes "b = [] \<or> \<not> continues (hd b)"
  shows "characters (a @ b) = characters a @ characters b"
proof -
  have "\<forall>c\<in>set (characters b). \<not> continues (hd c)"
  proof (cases "b = []")
    case False
    then have "characters b = hd (characters b) # tl (characters b)" "hd (hd (characters b)) = hd b"
      using hd_hd_characters [of b] by simp_all
    moreover have "\<forall>c\<in>set (tl (characters b)). \<not> continues (hd c)" using characters_list [of b] by (simp add: char_list_def)
    ultimately show ?thesis using assms False by (metis set_ConsD)
  qed (simp add: characters_def)
  then have "char_list (characters a @ characters b)"
    using characters_list [of a] characters_list [of b] by (cases "characters a") (auto simp: char_list_def)
  from characters_concat [OF this] show ?thesis by simp
qed

text \<open>A text that is one character.\<close>

definition is_character :: "string \<Rightarrow> bool" where
  "is_character t \<longleftrightarrow> characters t = [t] \<and> \<not> continues (hd t)"

lemma characters_of_texts: "list_all is_character ts \<Longrightarrow> characters (concat ts) = ts"
proof (induction ts)
  case (Cons t ts)
  then have h: "concat ts = [] \<or> \<not> continues (hd (concat ts))"
  proof (cases ts)
    case (Cons u us)
    moreover have "u \<noteq> []" using Cons.prems Cons characters_list [of u] by (auto simp: is_character_def char_list_def)
    ultimately show ?thesis using Cons.prems by (simp add: is_character_def)
  qed simp
  show ?case using Cons characters_append [OF h, of t] by (simp add: is_character_def)
qed (simp add: characters_def)

section \<open>Gaps\<close>

text \<open>A text that begins and ends with a character that is no white space.\<close>

definition tight :: "string \<Rightarrow> bool" where
  "tight s \<longleftrightarrow> s \<noteq> [] \<and> \<not> space_character (hd (characters s)) \<and> \<not> space_character (last (characters s)) \<and> \<not> continues (hd s)"

lemma gap_step_prefix: "foldl gap_step (gs @ hs, seen, cur) cs = (case foldl gap_step (hs, seen, cur) cs of (k, s, c) \<Rightarrow> (gs @ k, s, c))"
  by (induction cs arbitrary: hs seen cur) (simp_all add: gap_step_def)

lemma tight_start:
  assumes "tight s"
  shows "foldl gap_step (gs, True, cur) (characters s) = (gs @ cur # text_gaps s, True, [])"
    "foldl gap_step ([], False, []) (characters s) = (text_gaps s, True, [])"
proof -
  have n: "characters s \<noteq> []" using assms hd_hd_characters by (simp add: tight_def)
  then obtain c cs where c: "characters s = c # cs" by (cases "characters s") auto
  have v: "\<not> space_character c" using assms c by (simp add: tight_def)
  obtain ds d where d: "characters s = ds @ [d]" using n by (metis append_butlast_last_id)
  have e: "\<not> space_character d" using assms d by (simp add: tight_def)
  obtain k b q where "foldl gap_step ([], False, []) ds = (k, b, q)" by (metis prod_cases3)
  then obtain g where "foldl gap_step ([], False, []) (characters s) = (g, True, [])" using d e by (simp add: gap_step_def)
  then show f: "foldl gap_step ([], False, []) (characters s) = (text_gaps s, True, [])" by (simp add: text_gaps_def)
  then have "foldl gap_step ([], True, []) cs = (text_gaps s, True, [])" using c v by (simp add: gap_step_def)
  then show "foldl gap_step (gs, True, cur) (characters s) = (gs @ cur # text_gaps s, True, [])"
    using gap_step_prefix [of "gs @ [cur]" "[]" True "[]" cs] c v by (simp add: gap_step_def)
qed

lemma newline_character: "characters [CHR 0x0A] = [[CHR 0x0A]]" "space_character [CHR 0x0A]" "\<not> continues (CHR 0x0A)"
  using gap_characters(1) [of Hard_Break] gap_characters(2) [of Hard_Break] by (simp_all add: continues_def)

lemma tight_append:
  assumes "tight a" and "tight b"
  shows "tight (a @ CHR 0x0A # b)" "spacing_states (a @ CHR 0x0A # b) = spacing_states a @ Hard_Break # spacing_states b"
    "visible_characters (a @ CHR 0x0A # b) = visible_characters a @ visible_characters b"
proof -
  have nb: "b \<noteq> [] \<and> \<not> continues (hd b)" "a \<noteq> []" using assms by (simp_all add: tight_def)
  have c: "characters (a @ CHR 0x0A # b) = characters a @ [CHR 0x0A] # characters b"
    using characters_append [of "CHR 0x0A # b" a] characters_append [of b "[CHR 0x0A]"] nb newline_character by simp
  have n: "characters a \<noteq> []" "characters b \<noteq> []" using hd_hd_characters nb by blast+
  show "tight (a @ CHR 0x0A # b)" using assms n by (simp add: tight_def c)
  have "gap_step (text_gaps a, True, []) [CHR 0x0A] = (text_gaps a, True, [CHR 0x0A])"
    using newline_character by (simp add: gap_step_def)
  then have "foldl gap_step ([], False, []) (characters (a @ CHR 0x0A # b)) = (text_gaps a @ [CHR 0x0A] # text_gaps b, True, [])"
    by (simp only: c foldl_append foldl_Cons tight_start(2) [OF assms(1)] tight_start(1) [OF assms(2)])
  then have "text_gaps (a @ CHR 0x0A # b) = text_gaps a @ [CHR 0x0A] # text_gaps b"
    by (simp add: text_gaps_def [of "a @ CHR 0x0A # b"])
  then show "spacing_states (a @ CHR 0x0A # b) = spacing_states a @ Hard_Break # spacing_states b"
    by (simp add: spacing_states_def gap_state_def)
  show "visible_characters (a @ CHR 0x0A # b) = visible_characters a @ visible_characters b"
    by (simp add: visible_characters_def c newline_character)
qed

fun joined_states :: "string list \<Rightarrow> boundary_state list" where
  "joined_states [] = []"
| "joined_states [p] = spacing_states p"
| "joined_states (p # q # ps) = spacing_states p @ Hard_Break # joined_states (q # ps)"

lemma joined_states_snoc: "joined_states (ps @ [p]) = (if ps = [] then spacing_states p else joined_states ps @ Hard_Break # spacing_states p)"
  by (induction ps rule: joined_states.induct) simp_all

lemma tight_join:
  assumes "list_all tight ps" and "ps \<noteq> []"
  shows "tight (join [CHR 0x0A] ps)" "spacing_states (join [CHR 0x0A] ps) = joined_states ps"
    "visible_characters (join [CHR 0x0A] ps) = concat (map visible_characters ps)"
  using assms by (induction ps rule: joined_states.induct) (simp_all add: tight_append)

lemma spacing_states_length: "length (spacing_states s) = length (visible_characters s) - 1"
  by (simp add: spacing_states_def text_gaps_def gap_steps_length visible_characters_def)

lemma states_of_rendered:
  assumes "list_all (\<lambda>c. \<not> space_character c) cs" and "char_list cs" and "length bs = length cs - 1"
  shows "spacing_states (render_characters cs bs) = bs"
  using rendered_text_gaps [OF assms] by (simp add: spacing_states_def gap_characters(3) comp_def)

lemma render_none: "render_characters cs (replicate n No_Gap) = concat cs"
proof (induction cs arbitrary: n)
  case (Cons c cs)
  show ?case by (cases n) (use Cons [of 0] Cons in simp_all)
qed simp

lemma states_of_dense:
  assumes "list_all (\<lambda>c. \<not> space_character c) (characters s)"
  shows "spacing_states s = replicate (length (characters s) - 1) No_Gap"
  using states_of_rendered [OF assms characters_list, of "replicate (length (characters s) - 1) No_Gap"] by (simp add: render_none)

lemma last_rendered: "cs \<noteq> [] \<Longrightarrow> length bs = length cs - 1 \<Longrightarrow> last (rendered_list cs bs) = last cs"
proof (induction cs bs rule: rendered_list.induct)
  case (3 c cs b bs)
  then have "cs \<noteq> []" by auto
  moreover from this have "rendered_list cs bs \<noteq> []" by (cases cs; cases bs) simp_all
  ultimately show ?case using 3 by simp
qed (auto simp: neq_Nil_conv)

lemma hd_rendered: "cs \<noteq> [] \<Longrightarrow> hd (rendered_list cs bs) = hd cs"
  by (cases cs; cases bs) simp_all

lemma tight_rendered:
  assumes "list_all (\<lambda>c. \<not> space_character c) cs" and "char_list cs" and "cs \<noteq> []" and "length bs = length cs - 1"
    and "\<not> continues (hd (hd cs))"
  shows "tight (render_characters cs bs)" "visible_characters (render_characters cs bs) = cs"
proof -
  have c: "characters (render_characters cs bs) = rendered_list cs bs" by (rule characters_rendered [OF assms(2)])
  have n: "render_characters cs bs \<noteq> []" using c assms(3) by (cases cs; cases bs) (auto simp: characters_def)
  have h: "hd (render_characters cs bs) = hd (hd cs)" using hd_hd_characters [OF n] by (simp add: c hd_rendered assms(3))
  show "tight (render_characters cs bs)"
    using assms n h by (simp add: tight_def c hd_rendered last_rendered list_all_iff)
  show "visible_characters (render_characters cs bs) = cs"
    by (simp add: visible_characters_def c visible_rendered assms(1))
qed

section \<open>The repair of a cell\<close>

text \<open>A gap inside an identifier: it lies in a whole line of the text, from one hard break or end to the next, whose
  characters are a qualified identifier from the first to the last, and no gap of that line is left.\<close>

definition inside_identifier :: "string list \<Rightarrow> boundary_state list \<Rightarrow> nat \<Rightarrow> bool" where
  "inside_identifier cs st i \<longleftrightarrow>
     (\<exists>lo hi. lo \<le> i \<and> i + 1 < hi \<and> hi \<le> length cs
        \<and> (lo = 0 \<or> st ! (lo - 1) = Hard_Break) \<and> (hi = length cs \<or> st ! (hi - 1) = Hard_Break)
        \<and> (\<forall>k. lo \<le> k \<and> k + 1 < hi \<longrightarrow> st ! k = No_Gap)
        \<and> full_match QUALIFIED_IDENTIFIER (take (hi - lo) (drop lo cs)))"

text \<open>A gap at which a repair may take away a space, in a text of these characters and, after the repair, these gaps.\<close>

definition joinable :: "string list \<Rightarrow> boundary_state list \<Rightarrow> nat \<Rightarrow> bool" where
  "joinable cs st i \<longleftrightarrow> hangul (cs ! i) \<and> hangul (cs ! (i + 1)) \<or> inside_identifier cs st i"

lemma joinable_before:
  assumes "joinable cs st i" and "length st = length cs - 1" and "i < length st"
  shows "joinable (cs @ ds) (st @ Hard_Break # st') i"
proof (cases "hangul (cs ! i) \<and> hangul (cs ! (i + 1))")
  case True
  have "i + 1 < length cs" using assms(2,3) by simp
  then show ?thesis using True by (simp add: joinable_def nth_append)
next
  case False
  with assms(1) obtain lo hi where h: "lo \<le> i" "i + 1 < hi" "hi \<le> length cs" "lo = 0 \<or> st ! (lo - 1) = Hard_Break"
    "hi = length cs \<or> st ! (hi - 1) = Hard_Break" "\<forall>k. lo \<le> k \<and> k + 1 < hi \<longrightarrow> st ! k = No_Gap"
    "full_match QUALIFIED_IDENTIFIER (take (hi - lo) (drop lo cs))"
    by (auto simp: joinable_def inside_identifier_def)
  let ?st = "st @ Hard_Break # st'"
  have "lo = 0 \<or> ?st ! (lo - 1) = Hard_Break" using h(1,4) assms(3) by (auto simp: nth_append)
  moreover have "?st ! (hi - 1) = Hard_Break" using h(2,3,5) assms(2) by (cases "hi = length cs") (auto simp: nth_append)
  moreover have "\<forall>k. lo \<le> k \<and> k + 1 < hi \<longrightarrow> ?st ! k = No_Gap" using h(3,6) assms(2) by (auto simp: nth_append)
  moreover have "take (hi - lo) (drop lo (cs @ ds)) = take (hi - lo) (drop lo cs)" using h(1,2,3) by simp
  ultimately show ?thesis using h(1,2,3,7) unfolding joinable_def inside_identifier_def
    by (intro disjI2 exI [of _ lo] exI [of _ hi]) simp
qed

lemma joinable_after:
  assumes "joinable ds st' i" and "length st = length cs - 1" and "cs \<noteq> []"
  shows "joinable (cs @ ds) (st @ Hard_Break # st') (length cs + i)"
proof (cases "hangul (ds ! i) \<and> hangul (ds ! (i + 1))")
  case True
  then show ?thesis by (simp add: joinable_def nth_append)
next
  case False
  with assms(1) obtain lo hi where h: "lo \<le> i" "i + 1 < hi" "hi \<le> length ds" "lo = 0 \<or> st' ! (lo - 1) = Hard_Break"
    "hi = length ds \<or> st' ! (hi - 1) = Hard_Break" "\<forall>k. lo \<le> k \<and> k + 1 < hi \<longrightarrow> st' ! k = No_Gap"
    "full_match QUALIFIED_IDENTIFIER (take (hi - lo) (drop lo ds))"
    by (auto simp: joinable_def inside_identifier_def)
  let ?n = "length cs"
  have at: "(st @ Hard_Break # st') ! (?n - 1) = Hard_Break" "(st @ Hard_Break # st') ! (?n + k) = st' ! k" for k
    using assms(2,3) by (cases cs; simp add: nth_append)+
  have "(st @ Hard_Break # st') ! (?n + lo - 1) = Hard_Break"
    using h(4) at(1) at(2) [of "lo - 1"] by (cases lo) auto
  moreover have "?n + hi = length (cs @ ds) \<or> (st @ Hard_Break # st') ! (?n + hi - 1) = Hard_Break"
    using h(2,5) at(2) [of "hi - 1"] by (cases hi) auto
  moreover have "(st @ Hard_Break # st') ! k = No_Gap" if "?n + lo \<le> k \<and> k + 1 < ?n + hi" for k
  proof -
    have "lo \<le> k - ?n \<and> k - ?n + 1 < hi \<and> k = ?n + (k - ?n)" using that by arith
    then show ?thesis using h(6) at(2) [of "k - ?n"] by metis
  qed
  moreover have "take (?n + hi - (?n + lo)) (drop (?n + lo) (cs @ ds)) = take (hi - lo) (drop lo ds)" by simp
  ultimately show ?thesis using h(1,2,3,7) unfolding joinable_def inside_identifier_def
    by (intro disjI2 exI [of _ "?n + lo"] exI [of _ "?n + hi"]) auto
qed

definition differences :: "'a list \<Rightarrow> 'a list \<Rightarrow> nat set" where
  "differences xs ys = {i. i < length xs \<and> xs ! i \<noteq> ys ! i}"

definition repairs :: "string \<Rightarrow> string \<Rightarrow> nat set \<Rightarrow> bool" where
  "repairs a b changed \<longleftrightarrow> tight b \<and> visible_characters b = visible_characters a
     \<and> changed = differences (spacing_states a) (spacing_states b)
     \<and> (\<forall>i\<in>changed. spacing_states b ! i = No_Gap \<and> joinable (visible_characters a) (spacing_states b) i)"

lemma repairs_same: "tight a \<Longrightarrow> repairs a a {}"
  by (auto simp: repairs_def differences_def)

lemma visible_visible [simp]: "list_all (\<lambda>c. \<not> space_character c) (visible_characters v)"
  by (simp add: visible_characters_def list_all_iff)

lemma char_list_visible: "char_list (visible_characters v)"
  by (simp add: visible_characters_def char_list_filter characters_list)

lemma tight_hd:
  assumes "tight v"
  shows "visible_characters v \<noteq> []" "\<not> continues (hd (hd (visible_characters v)))"
proof -
  have "characters v \<noteq> []" "hd (hd (characters v)) = hd v" using assms hd_hd_characters by (simp_all add: tight_def)
  then obtain c cs where "characters v = c # cs" "hd c = hd v" by (cases "characters v") auto
  then show "visible_characters v \<noteq> []" "\<not> continues (hd (hd (visible_characters v)))"
    using assms by (auto simp: tight_def visible_characters_def)
qed

lemma repairs_rendered:
  assumes "tight v" and "length bs = length (spacing_states v)"
    and "\<And>i. i < length bs \<Longrightarrow> bs ! i \<noteq> spacing_states v ! i \<Longrightarrow> bs ! i = No_Gap \<and> joinable (visible_characters v) bs i"
  shows "repairs v (render_characters (visible_characters v) bs) (differences (spacing_states v) bs)"
proof -
  have n: "length bs = length (visible_characters v) - 1" using assms(2) by (simp add: spacing_states_length)
  note t = tight_rendered [OF visible_visible char_list_visible tight_hd(1) n tight_hd(2), OF assms(1) assms(1)]
  have "spacing_states (render_characters (visible_characters v) bs) = bs"
    by (rule states_of_rendered [OF visible_visible char_list_visible n])
  then show ?thesis using t assms(2,3) by (auto simp: repairs_def differences_def)
qed

lemma fold_updates:
  "length (foldl (\<lambda>st i. st[i := P ! i]) s is) = length s
   \<and> (k < length s \<longrightarrow> foldl (\<lambda>st i. st[i := P ! i]) s is ! k = (if k \<in> set is then P ! k else s ! k))"
proof (induction "is" arbitrary: s)
  case (Cons i "is")
  show ?case using Cons [of "s[i := P ! i]"] by (auto simp: nth_list_update)
qed simp

lemma supported_subset: "set (supported_fragment_removals K v removals) \<subseteq> set removals"
  by (auto simp: supported_fragment_removals_def Let_def split: if_splits)

lemma hangul_repair_sound:
  assumes "hangul_repair E K v region cs ids normalized = Inr (Some (t, changed))" and "tight v"
  shows "repairs v t (set changed)"
proof -
  let ?S = "spacing_states v" and ?P = "spacing_states normalized"
  define removals where "removals = filter (\<lambda>i. zip ?S ?P ! i = (Space_Gap, No_Gap) \<and> hangul_pair_at_boundary v i) [0..<length (zip ?S ?P)]"
  define merged where "merged = foldl (\<lambda>st i. st[i := ?P ! i]) ?S (sorted_set (supported_fragment_removals K v removals))"
  from assms(1) have len: "length ?S = length ?P" and t: "t = render_characters (visible_characters v) merged"
    and c: "changed = sorted_set (supported_fragment_removals K v removals)"
    by (auto simp: hangul_repair_def Let_def zip_strict_def removals_def merged_def characters_visible split: if_splits)
  have sub: "i < length ?S \<and> ?S ! i = Space_Gap \<and> ?P ! i = No_Gap \<and> hangul_pair_at_boundary v i" if "i \<in> set changed" for i
    using that supported_subset [of K v removals] len by (auto simp: c removals_def)
  have m: "length merged = length ?S" "\<And>k. k < length ?S \<Longrightarrow> merged ! k = (if k \<in> set changed then ?P ! k else ?S ! k)"
    using fold_updates [where s = ?S and P = ?P] unfolding merged_def c by blast+
  have r: "repairs v t (differences ?S merged)"
    unfolding t using sub m by (intro repairs_rendered [OF assms(2)]) (auto simp: joinable_def hangul_pair_at_boundary_def Let_def split: if_splits)
  have "differences ?S merged = set changed" using sub m by (auto simp: differences_def split: if_splits)
  with r show ?thesis by simp
qed

lemma first_language_repair_from:
  "first_language_repair E K v region cs ids ps = Inr (Some (t, changed))
     \<Longrightarrow> \<exists>normalized. hangul_repair E K v region cs ids normalized = Inr (Some (t, changed))"
  by (induction E K v region cs ids ps rule: first_language_repair.induct) (auto simp: Let_def split: if_splits)

lemma repair_cell_sound:
  assumes "repair_cell E word K region current cs ids = Inr (repaired, changed, language)" and "tight current"
  shows "repairs current repaired (set changed)"
proof (cases "qualified_identifier_repair current")
  case None
  show ?thesis
  proof (cases "looks_like_formula word current")
    case True
    then show ?thesis using assms(1) None repairs_same [OF assms(2)] by (simp add: repair_cell_def)
  next
    case False
    with assms(1) None obtain l where l: "first_language_repair E K current region cs ids (protected_language_proposals K current) = Inr l"
      and r: "(repaired, changed, language) = (case l of None \<Rightarrow> (current, [], False) | Some (t, changed) \<Rightarrow> (if t = [] then current else t, changed, True))"
      by (auto simp: repair_cell_def)
    show ?thesis
    proof (cases l)
      case None
      then show ?thesis using r repairs_same [OF assms(2)] by simp
    next
      case (Some p)
      then obtain t c where p: "l = Some (t, c)" by (cases p) simp
      with l first_language_repair_from obtain n where "hangul_repair E K current region cs ids n = Inr (Some (t, c))" by blast
      from hangul_repair_sound [OF this assms(2)] have "repairs current t (set c)" .
      moreover from this have "t \<noteq> []" by (simp add: repairs_def tight_def)
      ultimately show ?thesis using r p by simp
    qed
  qed
next
  case (Some dense)
  then have d: "dense = without_whitespace current" and q: "full_match QUALIFIED_IDENTIFIER (visible_characters current)"
    by (auto simp: qualified_identifier_repair_def Let_def characters_visible split: if_splits)
  let ?S = "spacing_states current" and ?N = "replicate (length (visible_characters current) - 1) No_Gap"
  have n: "length ?S = length ?N" by (simp add: spacing_states_length)
  have rn: "render_characters (visible_characters current) ?N = dense"
    by (simp add: render_none d without_whitespace_def visible_characters_def)
  have ch: "joinable (visible_characters current) ?N i" if "i < length ?N" for i
    unfolding joinable_def inside_identifier_def
    using that q by (intro disjI2 exI [of _ 0] exI [of _ "length (visible_characters current)"]) auto
  have "repairs current dense (differences ?S ?N)"
    unfolding rn [symmetric] using ch n
    by (intro repairs_rendered [OF assms(2)]) simp_all
  moreover have sd: "spacing_states dense = ?N"
    using states_of_dense [of dense] by (simp add: d characters_visible)
  have "dense \<noteq> []" using tight_hd(1) [OF assms(2)] characters_visible [of current] d by (auto simp: characters_def)
  then have "repaired = dense" "set changed = differences ?S ?N"
    using assms(1) Some n by (auto simp: repair_cell_def changed_boundary_indexes_def zip_strict_def sd differences_def)
  ultimately show ?thesis by simp
qed

section \<open>The text of a table\<close>

lemma find_atom_id: "find_atom ev i = Inr a \<Longrightarrow> ea_atom_id a = i \<and> a \<in> set (ed_atoms ev)"
  by (auto simp: find_atom_def dict_get_of split: option.splits dest!: find_SomeD)

lemma traverse_find: "traverse (find_atom ev) ids = Inr as \<Longrightarrow> map ea_atom_id as = ids \<and> set as \<subseteq> set (ed_atoms ev)"
  by (induction ids arbitrary: as) (auto dest: find_atom_id split: sum.splits)

lemma traverse_find_visible:
  assumes "traverse (find_atom ev) ids = Inr as"
  shows "traverse (find_atom ev) (map ea_atom_id (visible_atoms as)) = Inr (visible_atoms as)"
  using assms
proof (induction ids arbitrary: as)
  case (Cons i ids)
  then obtain a bs where a: "find_atom ev i = Inr a" and b: "traverse (find_atom ev) ids = Inr bs" and as: "as = a # bs"
    by (auto split: sum.splits)
  show ?case using Cons.IH [OF b] a find_atom_id [OF a] by (simp add: as visible_atoms_def)
qed (simp add: visible_atoms_def)

lemma traverse_append_Inr: "traverse f xs = Inr as \<Longrightarrow> traverse f ys = Inr bs \<Longrightarrow> traverse f (xs @ ys) = Inr (as @ bs)"
  by (induction xs arbitrary: as) (auto split: sum.splits)

definition single_characters :: "evidence_document \<Rightarrow> bool" where
  "single_characters ev \<longleftrightarrow> (\<forall>a\<in>set (ed_atoms ev). is_character (ea_text a))"

lemma visible_texts:
  assumes "list_all (\<lambda>a. is_character (ea_text a)) as"
  shows "characters (atoms_text (visible_atoms as)) = map ea_text (visible_atoms as)"
    "list_all (\<lambda>c. \<not> space_character c) (map ea_text (visible_atoms as))"
    "visible_characters (atoms_text (visible_atoms as)) = map ea_text (visible_atoms as)"
    "without_whitespace (atoms_text (visible_atoms as)) = atoms_text (visible_atoms as)"
proof -
  have l: "list_all is_character (map ea_text (visible_atoms as))" using assms by (auto simp: visible_atoms_def list_all_iff)
  from characters_of_texts [OF this] show c: "characters (atoms_text (visible_atoms as)) = map ea_text (visible_atoms as)"
    by (simp add: atoms_text_def)
  show v: "list_all (\<lambda>c. \<not> space_character c) (map ea_text (visible_atoms as))"
    using assms by (auto simp: visible_atoms_def list_all_iff all_space_def is_character_def characters_def)
  show "visible_characters (atoms_text (visible_atoms as)) = map ea_text (visible_atoms as)"
    using v by (auto simp: visible_characters_def c filter_id_conv list_all_iff)
  then show "without_whitespace (atoms_text (visible_atoms as)) = atoms_text (visible_atoms as)"
    by (simp add: without_whitespace_def visible_characters_def atoms_text_def)
qed

lemma tight_stripped:
  assumes "without_whitespace (strip_text x) = d" and "characters d \<noteq> []" and "\<not> continues (hd (hd (characters d)))"
  shows "tight (strip_text x)" "visible_characters (strip_text x) = characters d"
proof -
  show v: "visible_characters (strip_text x) = characters d" using assms(1) characters_visible by metis
  let ?c = "characters (strip_text x)"
  have n: "?c \<noteq> []" using v assms(2) by (auto simp: visible_characters_def)
  have s: "?c = rev (dropWhile space_character (rev (dropWhile space_character (characters x))))"
    by (simp add: characters_strip strip_characters_def)
  have l: "\<not> space_character (last ?c)" using n hd_dropWhile [of space_character] by (metis last_rev rev_is_Nil_conv s)
  obtain k where k: "?c = take k (dropWhile space_character (characters x))" using rev_dropWhile_take s by metis
  then have "k \<noteq> 0" using n by auto
  then have "hd ?c = hd (dropWhile space_character (characters x))" using k by simp
  then have h: "\<not> space_character (hd ?c)" using n k hd_dropWhile [of space_character "characters x"] by (metis take_Nil)
  then have "hd (characters d) = hd ?c" using v n by (cases ?c) (auto simp: visible_characters_def dest: arg_cong [where f = hd])
  moreover have t: "strip_text x \<noteq> []" using n by (auto simp: characters_def)
  ultimately have "\<not> continues (hd (strip_text x))" using assms(3) hd_hd_characters [OF t] by simp
  with t l h show "tight (strip_text x)" by (simp add: tight_def)
qed

lemma current_text_tight:
  assumes "list_all (\<lambda>a. is_character (ea_text a)) as" and "visible_atoms as \<noteq> []"
  shows "tight (current_text c u (atoms_text (visible_atoms as)))"
    "visible_characters (current_text c u (atoms_text (visible_atoms as))) = map ea_text (visible_atoms as)"
proof -
  let ?d = "atoms_text (visible_atoms as)"
  note v = visible_texts [OF assms(1)]
  have n: "characters ?d \<noteq> []" using assms(2) v(1) by simp
  have "hd (visible_atoms as) \<in> set as" using hd_in_set [OF assms(2)] by (simp add: visible_atoms_def)
  then have h: "\<not> continues (hd (hd (characters ?d)))"
    using assms v(1) by (auto simp: list_all_iff is_character_def hd_map)
  have "\<not> space_character (hd (characters ?d)) \<and> \<not> space_character (last (characters ?d))"
    using v(1,2) n by (metis list_all_iff hd_in_set last_in_set)
  moreover have "?d \<noteq> []" using n by (auto simp: characters_def)
  ultimately have d: "tight ?d" using h hd_hd_characters [of ?d] by (simp add: tight_def)
  show "tight (current_text c u ?d)" "visible_characters (current_text c u ?d) = map ea_text (visible_atoms as)"
    using tight_stripped [OF _ n h] d v(1,3) by (auto simp: current_text_def Let_def)
qed

text \<open>The texts collected so far, over the atoms they own.\<close>

definition texts_of_atoms :: "evidence_atom list \<Rightarrow> string list \<Rightarrow> bool" where
  "texts_of_atoms as ps \<longleftrightarrow> list_all tight ps \<and> (ps = [] \<longleftrightarrow> as = []) \<and> concat (map visible_characters ps) = map ea_text as
     \<and> length (joined_states ps) = length as - 1"

definition table_invariant :: "evidence_document \<Rightarrow> table_texts \<Rightarrow> evidence_atom list \<Rightarrow> bool" where
  "table_invariant ev st as \<longleftrightarrow>
     traverse (find_atom ev) (tx_atoms st) = Inr as \<and> texts_of_atoms as (tx_source st) \<and> texts_of_atoms as (tx_repaired st)
     \<and> set (tx_mutable st) = differences (joined_states (tx_source st)) (joined_states (tx_repaired st))
     \<and> (\<forall>i\<in>set (tx_mutable st). joined_states (tx_repaired st) ! i = No_Gap
          \<and> joinable (map ea_text as) (joined_states (tx_repaired st)) i)"

lemma texts_of_atoms_snoc:
  assumes "texts_of_atoms as ps" and "tight p" and "visible_characters p = map ea_text bs"
  shows "texts_of_atoms (as @ bs) (ps @ [p])"
    "joined_states (ps @ [p]) = (if as = [] then spacing_states p else joined_states ps @ Hard_Break # spacing_states p)"
proof -
  have n: "length (spacing_states p) = length bs - 1" "bs \<noteq> []"
    using assms(3) tight_hd(1) [OF assms(2)] by (auto simp: spacing_states_length)
  show j: "joined_states (ps @ [p]) = (if as = [] then spacing_states p else joined_states ps @ Hard_Break # spacing_states p)"
    using assms(1) by (simp add: joined_states_snoc texts_of_atoms_def)
  have "length (joined_states (ps @ [p])) = length (as @ bs) - 1"
    using assms(1) n by (cases as; cases bs) (simp_all add: j texts_of_atoms_def)
  then show "texts_of_atoms (as @ bs) (ps @ [p])" using assms n by (simp add: texts_of_atoms_def)
qed

lemma differences_append:
  assumes "length xs = length xs'" and "length ys = length ys'"
  shows "differences (xs @ h # ys) (xs' @ h # ys') = differences xs xs' \<union> (\<lambda>i. Suc (length xs) + i) ` differences ys ys'"
proof (rule set_eqI)
  fix i
  show "i \<in> differences (xs @ h # ys) (xs' @ h # ys') \<longleftrightarrow> i \<in> differences xs xs' \<union> (\<lambda>i. Suc (length xs) + i) ` differences ys ys'"
  proof (cases "i \<le> length xs")
    case True
    then show ?thesis using assms by (auto simp: differences_def nth_append)
  next
    case False
    then obtain k where k: "i = Suc (length xs) + k" by (metis add_Suc_right add_Suc_shift less_iff_Suc_add not_le)
    show ?thesis using assms unfolding k by (auto simp: differences_def nth_append)
  qed
qed

lemma add_cell_invariant:
  assumes "add_cell E word K region ev st c = Inr st'" and "table_invariant ev st as" and "single_characters ev"
  shows "\<exists>bs. table_invariant ev st' (as @ bs)"
proof -
  from assms(1) obtain atoms where f: "traverse (find_atom ev) (cc_atom_ids c) = Inr atoms" by (auto simp: add_cell_def)
  have sc: "list_all (\<lambda>a. is_character (ea_text a)) atoms"
    using traverse_find [OF f] assms(3) by (auto simp: single_characters_def list_all_iff)
  show ?thesis
  proof (cases "visible_atoms atoms = []")
    case True
    then show ?thesis using assms(1,2) f by (intro exI [of _ "[]"]) (simp add: add_cell_def)
  next
    case False
    let ?v = "visible_atoms atoms" and ?a = "current_text c (atoms_text atoms) (atoms_text (visible_atoms atoms))"
    note t = current_text_tight [OF sc False, of c "atoms_text atoms"]
    from assms(1) f False obtain b ch l where r: "repair_cell E word K region ?a (atoms_text ?v) (map ea_atom_id ?v) = Inr (b, ch, l)"
      and st': "st' = st\<lparr>tx_source := tx_source st @ [?a], tx_repaired := tx_repaired st @ [b], tx_atoms := tx_atoms st @ map ea_atom_id ?v,
          tx_mutable := tx_mutable st @ map (\<lambda>i. length (tx_atoms st) + i) ch, tx_language := (tx_language st \<or> ch \<noteq> [] \<and> l)\<rparr>"
      by (auto simp: add_cell_def Let_def)
    have p: "repairs ?a b (set ch)" by (rule repair_cell_sound [OF r t(1)])
    then have g: "tight b" "visible_characters b = map ea_text ?v" using t(2) by (simp_all add: repairs_def)
    have ln: "length (spacing_states ?a) = length ?v - 1" "length (spacing_states b) = length ?v - 1"
      using g t(2) by (simp_all add: spacing_states_length)
    have d: "i < length ?v - 1 \<and> spacing_states b ! i = No_Gap \<and> joinable (map ea_text ?v) (spacing_states b) i" if "i \<in> set ch" for i
    proof -
      from p have c: "set ch = differences (spacing_states ?a) (spacing_states b)"
        and "\<forall>i\<in>set ch. spacing_states b ! i = No_Gap \<and> joinable (visible_characters ?a) (spacing_states b) i"
        unfolding repairs_def by blast+
      then have "spacing_states b ! i = No_Gap \<and> joinable (map ea_text ?v) (spacing_states b) i" using that unfolding t(2) by blast
      moreover have "i < length ?v - 1" using that unfolding c differences_def ln(1) by simp
      ultimately show ?thesis by simp
    qed
    have dc: "set ch = differences (spacing_states ?a) (spacing_states b)" using p by (simp add: repairs_def)
    let ?J = "joined_states (tx_source st)" and ?J' = "joined_states (tx_repaired st)"
    from assms(2) have i: "traverse (find_atom ev) (tx_atoms st) = Inr as" "texts_of_atoms as (tx_source st)" "texts_of_atoms as (tx_repaired st)"
      and im: "set (tx_mutable st) = differences ?J ?J'"
      and ij: "\<And>i. i \<in> set (tx_mutable st) \<Longrightarrow> ?J' ! i = No_Gap \<and> joinable (map ea_text as) ?J' i"
      by (simp_all add: table_invariant_def)
    have la: "length (tx_atoms st) = length as" using traverse_find [OF i(1)] by (metis length_map)
    have jl: "length ?J = length as - 1" "length ?J' = length as - 1" using i(2,3) by (simp_all add: texts_of_atoms_def)
    note js = texts_of_atoms_snoc [OF i(2) t] and jr = texts_of_atoms_snoc [OF i(3) g]
    have e: "traverse (find_atom ev) (tx_atoms st @ map ea_atom_id ?v) = Inr (as @ ?v)"
      by (rule traverse_append_Inr [OF i(1) traverse_find_visible [OF f]])
    let ?K = "joined_states (tx_source st @ [?a])" and ?K' = "joined_states (tx_repaired st @ [b])"
    have m: "set (tx_mutable st @ map (\<lambda>i. length (tx_atoms st) + i) ch) = differences ?K ?K'"
      using differences_append [of ?J ?J' "spacing_states ?a" "spacing_states b" Hard_Break] im dc jl ln la
      by (cases as) (auto simp: js(2) jr(2) differences_def)
    have old: "?K' ! i = No_Gap \<and> joinable (map ea_text (as @ ?v)) ?K' i" if "i \<in> set (tx_mutable st)" for i
    proof -
      have i: "i < length as - 1" using that im jl by (simp add: differences_def)
      then have k: "?K' = ?J' @ Hard_Break # spacing_states b" by (auto simp: jr(2))
      have "joinable (map ea_text as @ map ea_text ?v) (?J' @ Hard_Break # spacing_states b) i"
        by (rule joinable_before) (use ij [OF that] jl i in simp_all)
      then show ?thesis using ij [OF that] jl i by (simp add: k nth_append)
    qed
    have new: "?K' ! (length as + i) = No_Gap \<and> joinable (map ea_text (as @ ?v)) ?K' (length as + i)"
      if "i \<in> set ch" for i
    proof (cases "as = []")
      case True
      then show ?thesis using d [OF that] by (simp add: jr(2))
    next
      case False
      have "joinable (map ea_text as @ map ea_text ?v) (?J' @ Hard_Break # spacing_states b) (length (map ea_text as) + i)"
        by (rule joinable_after) (use d [OF that] jl False in simp_all)
      then show ?thesis using d [OF that] jl False by (cases as) (auto simp: jr(2) nth_append)
    qed
    have "\<forall>i\<in>set (tx_mutable st @ map (\<lambda>i. length (tx_atoms st) + i) ch).
        ?K' ! i = No_Gap \<and> joinable (map ea_text (as @ ?v)) ?K' i"
      using old new la by auto
    with e js(1) jr(1) m have "table_invariant ev st' (as @ ?v)" unfolding table_invariant_def st' by simp
    then show ?thesis by blast
  qed
qed

lemma table_texts_invariant:
  assumes "fold_ok (add_cell E word K region ev) \<lparr>tx_source = [], tx_repaired = [], tx_atoms = [], tx_mutable = [], tx_language = False\<rparr> cells = Inr st"
    and "single_characters ev"
  shows "\<exists>as. table_invariant ev st as"
proof (rule fold_ok_invariant [OF assms(1), of "\<lambda>st. \<exists>as. table_invariant ev st as"])
  show "\<exists>as. table_invariant ev \<lparr>tx_source = [], tx_repaired = [], tx_atoms = [], tx_mutable = [], tx_language = False\<rparr> as"
    by (intro exI [of _ "[]"]) (simp add: table_invariant_def texts_of_atoms_def differences_def)
qed (use add_cell_invariant assms(2) in blast)

end
