(* ===== verification/Spacing_Sets.thy ===== *)
theory Spacing_Sets
  imports Spacing_Facts Samples
begin

text \<open>
  The properties of the whitespace candidates: what the candidates of a region own, what the repair of a table may change, and two
  inputs on which the code raises.
\<close>

section \<open>Accepted candidates\<close>

lemma accepted_states:
  assumes "SpacingCandidate c = Inr c"
  shows "map bd_state (sc_boundaries c) = spacing_states (sc_rendered_text c)"
    "visible_characters (sc_rendered_text c) = characters (sc_character_sequence c)"
proof -
  note f = SpacingCandidate_accepted(2-10) [OF assms]
  have "spacing_states (render_characters (characters (sc_character_sequence c)) (map bd_state (sc_boundaries c))) = map bd_state (sc_boundaries c)"
    by (rule states_of_rendered) (use f(1,3,5) in \<open>simp_all add: characters_list\<close>)
  then show "map bd_state (sc_boundaries c) = spacing_states (sc_rendered_text c)" using f(7) by (simp add: render_boundaries_def)
  show "visible_characters (sc_rendered_text c) = characters (sc_character_sequence c)"
    using f(2) characters_visible by metis
qed

text \<open>The gaps of an accepted candidate are single spaces and newlines.\<close>

lemma rendered_list_set: "set (rendered_list cs bs) \<subseteq> set cs \<union> {'' '', [CHR 0x0A]}"
proof (induction cs bs rule: rendered_list.induct)
  case (3 c cs b bs)
  then show ?case using gap_characters(1) [of b] by (cases b) auto
qed auto

lemma accepted_plain:
  assumes "SpacingCandidate c = Inr c"
  shows "\<not> list_ex control_space (characters (sc_rendered_text c))"
proof -
  note f = SpacingCandidate_accepted(2-10) [OF assms]
  have "characters (sc_rendered_text c) = rendered_list (characters (sc_character_sequence c)) (map bd_state (sc_boundaries c))"
    using f(7) characters_rendered [OF characters_list] by (metis render_boundaries_def)
  then show ?thesis using f(1) rendered_list_set by (fastforce simp: list_ex_iff list_all_iff control_space_def)
qed

section \<open>The atoms of a region\<close>

fun weave :: "'a list \<Rightarrow> 'a list list \<Rightarrow> 'a list" where
  "weave [] ws = []"
| "weave (x # xs) [] = x # weave xs []"
| "weave (x # xs) (w # ws) = x # w @ weave xs ws"

abbreviation white :: "evidence_atom \<Rightarrow> bool" where
  "white a \<equiv> all_space (ea_text a)"

definition trim_end :: "evidence_atom list \<Rightarrow> evidence_atom list" where
  "trim_end as = rev (dropWhile white (rev as))"

definition trim_atoms :: "evidence_atom list \<Rightarrow> evidence_atom list" where
  "trim_atoms as = trim_end (dropWhile white as)"

lemma atom_position_at:
  assumes "distinct (map ea_atom_id (xs @ a # ys))"
  shows "atom_position (xs @ a # ys) (ea_atom_id a) = length xs"
proof -
  let ?as = "xs @ a # ys" and ?n = "length xs"
  have "ea_atom_id (?as ! k) = ea_atom_id a \<longleftrightarrow> k = ?n" if "k < length ?as" for k
  proof -
    have "map ea_atom_id ?as ! k = ea_atom_id (?as ! k)" "map ea_atom_id ?as ! ?n = ea_atom_id (?as ! ?n)"
      using that by (simp_all only: nth_map length_append length_Cons)
    then show ?thesis using nth_eq_iff_index_eq [OF assms, of k ?n] that by (simp del: map_append)
  qed
  then have "filter (\<lambda>k. ea_atom_id (?as ! k) = ea_atom_id a) [0..<length ?as] = filter (\<lambda>k. k = ?n) [0..<length ?as]"
    by (intro filter_cong) auto
  also have "\<dots> = [?n]"
    using upt_add_eq_append [of 0 ?n "Suc (length ys)"] by (simp add: upt_rec [of ?n] filter_empty_conv add.commute)
  finally show ?thesis by (simp add: atom_position_def)
qed

lemma trim_end_append: "bs \<noteq> [] \<Longrightarrow> \<not> white (hd bs) \<Longrightarrow> trim_end (as @ bs) = as @ trim_end bs"
  by (cases bs) (simp_all add: trim_end_def dropWhile_append)

lemma weave_suffix:
  assumes "distinct (map ea_atom_id (pre @ a # rest))" and "\<not> white a"
  shows "weave (map ea_atom_id (visible_atoms (a # rest))) (source_whitespace (pre @ a # rest) (visible_atoms (a # rest)))
    = map ea_atom_id (trim_end (a # rest))"
  using assms
proof (induction "length rest" arbitrary: pre a rest rule: less_induct)
  case less
  let ?mid = "takeWhile white rest"
  show ?case
  proof (cases "dropWhile white rest")
    case Nil
    then have w: "\<forall>x\<in>set rest. white x" by simp
    then have "visible_atoms (a # rest) = [a]" using less.prems by (simp add: visible_atoms_def filter_empty_conv)
    moreover have "trim_end (a # rest) = [a]" using w less.prems dropWhile_append2 [of "rev rest" white "[a]"] by (simp add: trim_end_def)
    ultimately show ?thesis by (simp add: source_whitespace_def)
  next
    case (Cons b r)
    have nb: "\<not> white b" using Cons hd_dropWhile [of white rest] by simp
    have rest: "rest = ?mid @ b # r" using takeWhile_dropWhile_id [of white rest] Cons by simp
    have as: "pre @ a # rest = (pre @ a # ?mid) @ b # r" using rest by simp
    have m: "\<forall>x\<in>set ?mid. white x" by (metis set_takeWhileD)
    have v: "visible_atoms rest = visible_atoms (b # r)" "visible_atoms (a # rest) = a # visible_atoms (b # r)"
      using m less.prems(2) by (subst rest, simp add: visible_atoms_def filter_empty_conv)+
    have bv: "visible_atoms (b # r) = b # visible_atoms r" using nb by (simp add: visible_atoms_def)
    have p: "atom_position (pre @ a # rest) (ea_atom_id a) = length pre" by (rule atom_position_at [OF less.prems(1)])
    have q: "atom_position (pre @ a # rest) (ea_atom_id b) = length pre + Suc (length ?mid)"
      using atom_position_at [of "pre @ a # ?mid" b r] less.prems(1) unfolding as by simp
    have "take (length ?mid) rest = ?mid" by (metis append_eq_conv_conj rest)
    then have wb: "whitespace_between (pre @ a # rest) a b = map ea_atom_id ?mid"
      using m by (simp add: whitespace_between_def p q Let_def filter_id_conv)
    have "length rest = length ?mid + Suc (length r)" by (subst rest) simp
    then have lt: "length r < length rest" by simp
    have dd: "distinct (map ea_atom_id ((pre @ a # ?mid) @ b # r))" using less.prems(1) by (simp only: as)
    have IH: "weave (map ea_atom_id (visible_atoms (b # r))) (source_whitespace (pre @ a # rest) (visible_atoms (b # r)))
        = map ea_atom_id (trim_end (b # r))"
      unfolding as by (rule less.hyps [OF lt dd nb])
    have e: "a # rest = (a # ?mid) @ b # r" using rest by simp
    have "trim_end (a # rest) = (a # ?mid) @ trim_end (b # r)" by (subst e, rule trim_end_append) (use nb in simp_all)
    then show ?thesis using IH by (simp add: v source_whitespace_def bv wb)
  qed
qed

lemma source_whitespace_weave:
  assumes "distinct (map ea_atom_id as)"
  shows "weave (map ea_atom_id (visible_atoms as)) (source_whitespace as (visible_atoms as)) = map ea_atom_id (trim_atoms as)"
proof (cases "dropWhile white as")
  case Nil
  then have "visible_atoms as = []" by (simp add: visible_atoms_def filter_empty_conv)
  then show ?thesis by (simp add: trim_atoms_def trim_end_def Nil)
next
  case (Cons a rest)
  let ?pre = "takeWhile white as"
  have as: "as = ?pre @ a # rest" using takeWhile_dropWhile_id [of white as] Cons by simp
  have "\<not> white a" using Cons hd_dropWhile [of white as] by simp
  moreover have "visible_atoms as = visible_atoms (a # rest)"
    by (subst as) (auto simp: visible_atoms_def filter_empty_conv dest: set_takeWhileD)
  ultimately show ?thesis using weave_suffix [of ?pre a rest] assms as by (simp add: trim_atoms_def Cons)
qed

section \<open>What the candidates of a region own\<close>

text \<open>A candidate of a region: accepted, free to change every gap, with the characters of the region; with the white space of its gaps its
  atoms are those of the region from the first character to the last.\<close>

definition region_candidate :: "evidence_atom list \<Rightarrow> string \<Rightarrow> spacing_candidate \<Rightarrow> bool" where
  "region_candidate as region_id k \<longleftrightarrow> SpacingCandidate k = Inr k \<and> sc_region_id k = region_id \<and> sc_mutable k = None
     \<and> sc_character_sequence k = atoms_text (visible_atoms as)
     \<and> weave (sc_atom_ids k) (map bd_whitespace (sc_boundaries k)) = map ea_atom_id (trim_atoms as)"

lemma CandidateSet_accepted: "CandidateSet s = Inr s' \<Longrightarrow> s' = s \<and> CandidateSet s = Inr s \<and> length (cs_candidates s) \<le> 5 \<and> cs_candidates s \<noteq> []"
  by (auto simp: CandidateSet_def split: if_splits)

lemma spacing_set_accepted:
  assumes "spacing_set L h region cs = Inr s"
  shows "CandidateSet s = Inr s" "cs_candidates s = map Spacing_Cand cs" "cs_region_id s = region" "cs_source_hash s = h"
    "cs_decision_type s = D_Spacing" "length (cs_candidates s) \<le> 5" "cs_candidates s \<noteq> []"
  using assms CandidateSet_accepted by (fastforce simp: spacing_set_def)+

lemma built_region:
  assumes "build_spacing_candidate_set L K r ev lay = Inr s"
  obtains as geometry chunks cs where "traverse (find_atom ev) (lr_atom_ids r) = Inr as"
    and "traverse (\<lambda>(t, fs). make_spacing_candidate L (lr_region_id r) t (atoms_text (visible_atoms as)) (map ea_atom_id (visible_atoms as))
            (source_whitespace as (visible_atoms as)) (proposal_score fs) fs None)
          (filter (\<lambda>(t, fs). without_whitespace t = atoms_text (visible_atoms as))
             (region_proposals (canonicalize_whitespace (atoms_text as)) geometry (atoms_text (visible_atoms as))
                (ks_propose K (canonicalize_whitespace (atoms_text as)) chunks))) = Inr cs"
    and "spacing_set L (ed_source_hash ev) (lr_region_id r) (take 5 (sort_key spacing_order cs)) = Inr s"
  using assms by (auto simp: build_spacing_candidate_set_def Let_def)

text \<open>(C39) The candidates of a text region: at most five, from the best score down, each accepted and with the atoms of the region from its first
  character to its last, in their order, the white space at its gap.\<close>

theorem region_candidates_conserve:
  assumes "build_spacing_candidate_set L K r ev lay = Inr s" and "distinct (lr_atom_ids r)"
  shows "\<exists>as ks. map ea_atom_id as = lr_atom_ids r \<and> set as \<subseteq> set (ed_atoms ev) \<and> CandidateSet s = Inr s
    \<and> cs_region_id s = lr_region_id r \<and> cs_source_hash s = ed_source_hash ev \<and> cs_candidates s = map Spacing_Cand ks
    \<and> ks \<noteq> [] \<and> length ks \<le> 5 \<and> sorted_wrt (\<lambda>a b. sc_score b \<le> sc_score a) ks
    \<and> (\<forall>k\<in>set ks. region_candidate as (lr_region_id r) k)"
proof -
  from assms(1) obtain as geometry chunks cs where a: "traverse (find_atom ev) (lr_atom_ids r) = Inr as"
    and c: "traverse (\<lambda>(t, fs). make_spacing_candidate L (lr_region_id r) t (atoms_text (visible_atoms as)) (map ea_atom_id (visible_atoms as))
            (source_whitespace as (visible_atoms as)) (proposal_score fs) fs None)
          (filter (\<lambda>(t, fs). without_whitespace t = atoms_text (visible_atoms as))
             (region_proposals (canonicalize_whitespace (atoms_text as)) geometry (atoms_text (visible_atoms as))
                (ks_propose K (canonicalize_whitespace (atoms_text as)) chunks))) = Inr cs"
    and s: "spacing_set L (ed_source_hash ev) (lr_region_id r) (take 5 (sort_key spacing_order cs)) = Inr s"
    by (rule built_region)
  note ids = traverse_find [OF a] and sa = spacing_set_accepted [OF s]
  have d: "distinct (map ea_atom_id as)" using ids assms(2) by simp
  have "region_candidate as (lr_region_id r) k" if k: "k \<in> set cs" for k
  proof -
    obtain p where "(case p of (t, fs) \<Rightarrow> make_spacing_candidate L (lr_region_id r) t (atoms_text (visible_atoms as)) (map ea_atom_id (visible_atoms as))
        (source_whitespace as (visible_atoms as)) (proposal_score fs) fs None) = Inr k"
      by (rule traverse_in_set [OF c k])
    then obtain t fs where "make_spacing_candidate L (lr_region_id r) t (atoms_text (visible_atoms as)) (map ea_atom_id (visible_atoms as))
        (source_whitespace as (visible_atoms as)) (proposal_score fs) fs None = Inr k"
      by (cases p) simp
    from made_spacing_candidate [OF this] obtain i bs where b: "boundaries_from_rendered t (map ea_atom_id (visible_atoms as)) (source_whitespace as (visible_atoms as)) = Inr bs"
      and k: "k = \<lparr>sc_candidate_id = i, sc_region_id = lr_region_id r, sc_rendered_text = t, sc_character_sequence = atoms_text (visible_atoms as),
         sc_atom_ids = map ea_atom_id (visible_atoms as), sc_boundaries = bs, sc_mutable = None, sc_score = proposal_score fs, sc_features = fs\<rparr>"
      and ok: "SpacingCandidate k = Inr k" by blast
    show ?thesis using ok source_whitespace_weave [OF d] boundaries_from_rendered_fields [OF b] by (simp add: region_candidate_def k)
  qed
  then have "\<forall>k\<in>set (take 5 (sort_key spacing_order cs)). region_candidate as (lr_region_id r) k"
    by (auto dest: in_set_takeD)
  moreover have "sorted_wrt (\<lambda>a b. sc_score b \<le> sc_score a) (take 5 (sort_key spacing_order cs))"
  proof (rule sorted_wrt_take)
    have "sorted_wrt (\<lambda>a b. spacing_order a \<le> spacing_order b) (sort_key spacing_order cs)"
      using sorted_sort_key [of spacing_order cs] by (simp add: sorted_wrt_map)
    then show "sorted_wrt (\<lambda>a b. sc_score b \<le> sc_score a) (sort_key spacing_order cs)"
      by (rule sorted_wrt_mono_rel [rotated]) (auto simp: spacing_order_def less_eq_prod_def)
  qed
  ultimately show ?thesis using ids sa
    by (intro exI [of _ as] exI [of _ "take 5 (sort_key spacing_order cs)"]) auto
qed

section \<open>What the repair of a table changes\<close>

text \<open>The second candidate is the first one without some single spaces. Each was between two Hangul characters, or in a
  whole line that is a qualified identifier and has no gap in the second candidate. These gaps are the ones that both
  allow to change.\<close>

definition only_joins :: "spacing_candidate \<Rightarrow> spacing_candidate \<Rightarrow> bool" where
  "only_joins a b \<longleftrightarrow>
     sc_region_id b = sc_region_id a \<and> sc_character_sequence b = sc_character_sequence a \<and> sc_atom_ids b = sc_atom_ids a
     \<and> sc_mutable b = sc_mutable a \<and> length (sc_boundaries b) = length (sc_boundaries a)
     \<and> (\<exists>ix. sc_mutable a = Some ix \<and> ix \<noteq> []
          \<and> (\<forall>i<length (sc_boundaries a).
               if int i \<in> set ix
               then bd_state (sc_boundaries a ! i) = Space_Gap \<and> bd_state (sc_boundaries b ! i) = No_Gap
                 \<and> joinable (characters (sc_character_sequence a)) (map bd_state (sc_boundaries b)) i
               else bd_state (sc_boundaries b ! i) = bd_state (sc_boundaries a ! i)))"

lemma table_candidate_states:
  assumes "table_text_candidate E region (atoms_text as) st ps score fs = Inr c" and "texts_of_atoms as ps" and "as \<noteq> []"
  shows "SpacingCandidate c = Inr c" "map bd_state (sc_boundaries c) = joined_states ps" "characters (sc_character_sequence c) = map ea_text as"
    "sc_region_id c = region" "sc_character_sequence c = atoms_text as" "sc_atom_ids c = tx_atoms st" "sc_mutable c = Some (map int (tx_mutable st))"
proof -
  from made_spacing_candidate [OF assms(1) [unfolded table_text_candidate_def]] obtain i bs where
    c: "c = \<lparr>sc_candidate_id = i, sc_region_id = region, sc_rendered_text = join [CHR 0x0A] ps, sc_character_sequence = atoms_text as,
        sc_atom_ids = tx_atoms st, sc_boundaries = bs, sc_mutable = Some (map int (tx_mutable st)), sc_score = score, sc_features = fs\<rparr>"
    and ok: "SpacingCandidate c = Inr c" by blast
  have ps: "list_all tight ps" "ps \<noteq> []" "concat (map visible_characters ps) = map ea_text as" using assms(2,3) by (auto simp: texts_of_atoms_def)
  note j = tight_join [OF ps(1,2)] and a = accepted_states [OF ok]
  show "SpacingCandidate c = Inr c" by (rule ok)
  show "map bd_state (sc_boundaries c) = joined_states ps" "characters (sc_character_sequence c) = map ea_text as"
    using a j ps(3) by (simp_all add: c)
  show "sc_region_id c = region" "sc_character_sequence c = atoms_text as" "sc_atom_ids c = tx_atoms st" "sc_mutable c = Some (map int (tx_mutable st))"
    by (simp_all add: c)
qed

lemma mutable_not_hard:
  assumes "SpacingCandidate c = Inr c" and "sc_mutable c = Some (map int ix)" and "i \<in> set ix" 
  shows "i < length (sc_boundaries c) \<and> bd_state (sc_boundaries c ! i) \<noteq> Hard_Break"
  using SpacingCandidate_accepted(9) [OF assms(1)] assms(2,3) by (auto simp: mutable_code_def)

lemma table_pair_joins:
  assumes "table_invariant ev st as" and "tx_mutable st \<noteq> []"
    and a: "table_text_candidate E region (atoms_text as) st (tx_source st) p fs = Inr a"
    and b: "table_text_candidate E region (atoms_text as) st (tx_repaired st) q gs = Inr b"
  shows "SpacingCandidate a = Inr a" "SpacingCandidate b = Inr b" "only_joins a b"
proof -
  from assms(1) have t: "texts_of_atoms as (tx_source st)" "texts_of_atoms as (tx_repaired st)"
    and m: "set (tx_mutable st) = differences (joined_states (tx_source st)) (joined_states (tx_repaired st))"
    and j: "\<And>i. i \<in> set (tx_mutable st) \<Longrightarrow> joined_states (tx_repaired st) ! i = No_Gap
      \<and> joinable (map ea_text as) (joined_states (tx_repaired st)) i"
    by (simp_all add: table_invariant_def)
  have len: "length (joined_states (tx_source st)) = length as - 1" "length (joined_states (tx_repaired st)) = length as - 1"
    using t by (simp_all add: texts_of_atoms_def)
  have "hd (tx_mutable st) \<in> differences (joined_states (tx_source st)) (joined_states (tx_repaired st))"
    using hd_in_set [OF assms(2)] m by blast
  then have n: "as \<noteq> []" by (auto simp: differences_def len)
  note A = table_candidate_states [OF a t(1) n] and B = table_candidate_states [OF b t(2) n]
  show "SpacingCandidate a = Inr a" "SpacingCandidate b = Inr b" by (rule A(1), rule B(1))
  have la: "length (sc_boundaries a) = length as - 1" "length (sc_boundaries b) = length as - 1"
    using arg_cong [OF A(2), of length] arg_cong [OF B(2), of length] len by simp_all
  have sa: "bd_state (sc_boundaries a ! i) = joined_states (tx_source st) ! i" if "i < length as - 1" for i
    using arg_cong [OF A(2), of "\<lambda>xs. xs ! i"] that la by simp
  have sb: "bd_state (sc_boundaries b ! i) = joined_states (tx_repaired st) ! i" if "i < length as - 1" for i
    using arg_cong [OF B(2), of "\<lambda>xs. xs ! i"] that la by simp
  have "if int i \<in> set (map int (tx_mutable st))
      then bd_state (sc_boundaries a ! i) = Space_Gap \<and> bd_state (sc_boundaries b ! i) = No_Gap
        \<and> joinable (characters (sc_character_sequence a)) (map bd_state (sc_boundaries b)) i
      else bd_state (sc_boundaries b ! i) = bd_state (sc_boundaries a ! i)" if i: "i < length as - 1" for i
  proof (cases "i \<in> set (tx_mutable st)")
    case True
    then have "bd_state (sc_boundaries a ! i) \<noteq> Hard_Break" using mutable_not_hard [OF A(1) A(7)] by blast
    moreover have "joined_states (tx_source st) ! i \<noteq> joined_states (tx_repaired st) ! i" using True m by (simp add: differences_def)
    ultimately have "bd_state (sc_boundaries a ! i) = Space_Gap" using j [OF True] sa [OF i] by (cases "bd_state (sc_boundaries a ! i)") simp_all
    then show ?thesis using True j [OF True] sb [OF i] A(3) B(2) by simp
  next
    case False
    then have "joined_states (tx_source st) ! i = joined_states (tx_repaired st) ! i" using m i len by (auto simp: differences_def)
    then show ?thesis using False sa [OF i] sb [OF i] by auto
  qed
  then have "\<forall>i<length (sc_boundaries a). if int i \<in> set (map int (tx_mutable st))
      then bd_state (sc_boundaries a ! i) = Space_Gap \<and> bd_state (sc_boundaries b ! i) = No_Gap
        \<and> joinable (characters (sc_character_sequence a)) (map bd_state (sc_boundaries b)) i
      else bd_state (sc_boundaries b ! i) = bd_state (sc_boundaries a ! i)"
    unfolding la(1) by blast
  moreover have "map int (tx_mutable st) \<noteq> []" using assms(2) by simp
  ultimately show "only_joins a b" unfolding only_joins_def A(4-7) B(4-7) la by blast
qed

text \<open>(C40) The repair of a table offers two accepted texts over the characters of its cells, for evidence whose atoms
  are single characters (\<open>single_characters\<close>: each atom's text is one Unicode character, as the extraction makes them). One
  of them, without defects, only lacks single spaces of the other. Each of these stood between two Hangul
  characters, or in a line of the table's text - from one hard break or end to the next - whose characters match the pattern
  of a qualified identifier from the first to the last, and which then has no gap left. A later repair may change no
  other gap.\<close>

theorem table_repair_only_joins:
  assumes "build_table_spacing_candidate_set E word K t ev = Inr (Some s)" and "single_characters ev"
  shows "\<exists>source repaired. CandidateSet s = Inr s \<and> cs_region_id s = tc_region_id t
    \<and> set (cs_candidates s) = {Spacing_Cand source, Spacing_Cand repaired} \<and> SpacingCandidate source = Inr source
    \<and> SpacingCandidate repaired = Inr repaired \<and> only_joins source repaired \<and> spacing_defect_codes (sp_digit E) repaired = []"
proof -
  from assms(1) obtain st as source repaired where
    f: "fold_ok (add_cell E word K (tc_region_id t) ev)
          \<lparr>tx_source = [], tx_repaired = [], tx_atoms = [], tx_mutable = [], tx_language = False\<rparr> (sort_key cell_order (tc_cells t)) = Inr st"
    and m: "tx_mutable st \<noteq> []" and a: "traverse (find_atom ev) (tx_atoms st) = Inr as"
    and s1: "table_text_candidate E (tc_region_id t) (atoms_text as) st (tx_source st) (45/100)
        [(''source_spacing'', 45/100), (''table_cell_composite'', 1)] = Inr source"
    and s2: "table_text_candidate E (tc_region_id t) (atoms_text as) st (tx_repaired st) (if tx_language st then 78/100 else 95/100)
        [(''table_cell_composite'', 1), (''table_cell_repair'', if tx_language st then 78/100 else 95/100)] = Inr repaired"
    and d: "spacing_defect_codes (sp_digit E) repaired = []"
    and s: "spacing_set (sp_library E) (ed_source_hash ev) (tc_region_id t) (sort_key spacing_order [source, repaired]) = Inr s"
    by (auto simp: build_table_spacing_candidate_set_def Let_def split: if_splits)
  from table_texts_invariant [OF f assms(2)] obtain as' where i: "table_invariant ev st as'" by blast
  with a have "as' = as" by (simp add: table_invariant_def)
  with i have i: "table_invariant ev st as" by simp
  have "set (cs_candidates s) = Spacing_Cand ` set (sort_key spacing_order [source, repaired])"
    by (simp only: spacing_set_accepted(2) [OF s] set_map)
  then have "set (cs_candidates s) = {Spacing_Cand source, Spacing_Cand repaired}" by (simp only: set_sort) simp
  then show ?thesis using spacing_set_accepted(1,3) [OF s] table_pair_joins [OF i m s1 s2] d by blast
qed

section \<open>Inputs that raise\<close>

lemma traverse_member: "traverse f xs = Inr ys \<Longrightarrow> x \<in> set xs \<Longrightarrow> \<exists>y. f x = Inr y"
  using traverse_ok_iff [of f xs] by blast

lemma dict_get_kept: "dict_get d k \<noteq> None \<Longrightarrow> dict_get (foldl add_proposal d ps) k \<noteq> None"
  by (induction ps arbitrary: d) (auto simp: add_proposal_def Let_def update_conv split: prod.splits)

lemma source_proposed:
  "strip_text (canonicalize_whitespace source) \<noteq> []
     \<Longrightarrow> \<exists>fs. (strip_text (canonicalize_whitespace source), fs) \<in> set (region_proposals source geometry dense ps)"
proof -
  assume n: "strip_text (canonicalize_whitespace source) \<noteq> []"
  define rest where "rest = [(geometry, ''geometry'', 62/100), (punctuation_rules source, ''punctuation_rules'', 70/100 :: rat),
    (dense, ''dense'', 20/100)] @ map (\<lambda>p. (punctuation_rules p, ''kiwi'', 88/100)) ps"
  have r: "region_proposals source geometry dense ps = foldl add_proposal (add_proposal [] (source, ''source_spacing'', 45/100)) rest"
    by (simp only: region_proposals_def rest_def append_Cons foldl_Cons)
  have "dict_get (add_proposal [] (source, ''source_spacing'', 45/100)) (strip_text (canonicalize_whitespace source)) \<noteq> None"
    using n by (simp add: add_proposal_def Let_def)
  from dict_get_kept [OF this, of rest] obtain fs where "dict_get (region_proposals source geometry dense ps) (strip_text (canonicalize_whitespace source)) = Some fs"
    unfolding r by blast
  then show ?thesis by (blast dest: map_of_SomeD)
qed

text \<open>A no-break space between two characters stays in the canonical text of a region, while an accepted candidate has only spaces and newlines: the
  candidate set of the region, and with it the document, raises.\<close>

theorem nbsp_region_raises:
  assumes "traverse (find_atom ev) (lr_atom_ids r) = Inr [a, w, b]"
    and "ea_text a = ''a''" and "ea_text w = [CHR 0xC2, CHR 0xA0]" and "ea_text b = ''b''"
  shows "build_spacing_candidate_set L K r ev lay \<noteq> Inr s"
proof
  assume built: "build_spacing_candidate_set L K r ev lay = Inr s"
  let ?t = "[CHR ''a'', CHR 0xC2, CHR 0xA0, CHR ''b'']"
  have e: "strip_text (canonicalize_whitespace (canonicalize_whitespace ?t)) = ?t" "without_whitespace ?t = ''ab''"
    "list_ex control_space (characters ?t)" "all_space [CHR 0xC2, CHR 0xA0]" "\<not> all_space ''a''" "\<not> all_space ''b''" by code_simp+
  have at: "atoms_text [a, w, b] = ?t" "atoms_text (visible_atoms [a, w, b]) = ''ab''"
    using e(4-6) by (simp_all add: atoms_text_def visible_atoms_def assms(2-4))
  obtain as geometry chunks cs where as: "traverse (find_atom ev) (lr_atom_ids r) = Inr as"
    and c: "traverse (\<lambda>(t, fs). make_spacing_candidate L (lr_region_id r) t (atoms_text (visible_atoms as)) (map ea_atom_id (visible_atoms as))
            (source_whitespace as (visible_atoms as)) (proposal_score fs) fs None)
          (filter (\<lambda>(t, fs). without_whitespace t = atoms_text (visible_atoms as))
             (region_proposals (canonicalize_whitespace (atoms_text as)) geometry (atoms_text (visible_atoms as))
                (ks_propose K (canonicalize_whitespace (atoms_text as)) chunks))) = Inr cs"
    by (rule built_region [OF built])
  have "as = [a, w, b]" using as assms(1) by simp
  with at have at': "atoms_text as = ?t" "atoms_text (visible_atoms as) = ''ab''" by simp_all
  obtain fs where "(?t, fs) \<in> set (region_proposals (canonicalize_whitespace ?t) geometry ''ab'' (ks_propose K (canonicalize_whitespace ?t) chunks))"
    using source_proposed [of "canonicalize_whitespace ?t"] unfolding e(1) by blast
  then have "(?t, fs) \<in> set (filter (\<lambda>(t, fs). without_whitespace t = ''ab'')
      (region_proposals (canonicalize_whitespace ?t) geometry ''ab'' (ks_propose K (canonicalize_whitespace ?t) chunks)))"
    using e(2) by simp
  from traverse_member [OF c [unfolded at'] this] obtain k where "make_spacing_candidate L (lr_region_id r) ?t ''ab'' (map ea_atom_id (visible_atoms as))
      (source_whitespace as (visible_atoms as)) (proposal_score fs) fs None = Inr k"
    by auto
  then have "SpacingCandidate k = Inr k" "sc_rendered_text k = ?t" using made_spacing_candidate by fastforce+
  then show False using accepted_plain e(3) by metis
qed

text \<open>An identifier that a line break cuts, in a cell of a table: the repair joins it and so declares the line break as changeable, which the
  validator of the candidate refuses: the candidate set of the table, and with it the document, raises.\<close>

theorem wrapped_identifier_raises:
  assumes "tc_cells t = [c]" and "cc_rendered_text c = None" and "traverse (find_atom ev) (cc_atom_ids c) = Inr as"
    and "map ea_text as = [''d'', ''.'', [CHR 0x0A], ''x'']"
  shows "build_table_spacing_candidate_set E word K t ev \<noteq> Inr s"
proof
  assume built: "build_table_spacing_candidate_set E word K t ev = Inr s"
  let ?t = "[CHR ''d'', CHR ''.'', CHR 0x0A, CHR ''x'']"
  from assms(4) obtain d p n x where as: "as = [d, p, n, x]" and tx: "ea_text d = ''d''" "ea_text p = ''.''" "ea_text n = [CHR 0x0A]" "ea_text x = ''x''"
    by (auto simp: Cons_eq_map_conv)
  have sp: "all_space [CHR 0x0A]" "\<not> all_space ''d''" "\<not> all_space ''.''" "\<not> all_space ''x''" by code_simp+
  have v: "visible_atoms as = [d, p, x]" using sp by (simp add: visible_atoms_def as tx)
  have e: "strip_text [] = []" "without_whitespace [] = []" "strip_text ?t = ?t" "without_whitespace ?t = ''d.x''"
    "qualified_identifier_repair ?t = Some ''d.x''" "changed_boundary_indexes ?t ''d.x'' = Inr [1]"
    "spacing_states ?t = [No_Gap, Hard_Break]" by code_simp+
  have cur: "current_text c (atoms_text as) (atoms_text (visible_atoms as)) = ?t"
    using e(1-4) by (simp add: current_text_def assms(2) v) (simp add: as atoms_text_def tx)
  have "add_cell E word K (tc_region_id t) ev \<lparr>tx_source = [], tx_repaired = [], tx_atoms = [], tx_mutable = [], tx_language = False\<rparr> c
      = Inr \<lparr>tx_source = [?t], tx_repaired = [''d.x''], tx_atoms = map ea_atom_id [d, p, x], tx_mutable = [1], tx_language = False\<rparr>"
    unfolding add_cell_def assms(3) bind_ok.simps Let_def cur
    by (simp add: v repair_cell_def e(5,6))
  then have st: "fold_ok (add_cell E word K (tc_region_id t) ev)
      \<lparr>tx_source = [], tx_repaired = [], tx_atoms = [], tx_mutable = [], tx_language = False\<rparr> (sort_key cell_order (tc_cells t))
      = Inr \<lparr>tx_source = [?t], tx_repaired = [''d.x''], tx_atoms = map ea_atom_id [d, p, x], tx_mutable = [1], tx_language = False\<rparr>"
    by (simp add: assms(1))
  from built obtain as' source where "table_text_candidate E (tc_region_id t) (atoms_text as')
      \<lparr>tx_source = [?t], tx_repaired = [''d.x''], tx_atoms = map ea_atom_id [d, p, x], tx_mutable = [1], tx_language = False\<rparr> [?t] (45/100)
      [(''source_spacing'', 45/100), (''table_cell_composite'', 1)] = Inr source"
    unfolding build_table_spacing_candidate_set_def st bind_ok.simps by (auto simp: Let_def)
  then have ok: "SpacingCandidate source = Inr source" "sc_rendered_text source = ?t" "sc_mutable source = Some (map int [1])"
    using made_spacing_candidate by (fastforce simp: table_text_candidate_def)+
  have "bd_state (sc_boundaries source ! 1) = Hard_Break \<and> 1 < length (sc_boundaries source)"
    using accepted_states(1) [OF ok(1)] unfolding ok(2) e(7) by (auto simp: map_eq_Cons_conv)
  then show False using mutable_not_hard [OF ok(1,3), of 1] by simp
qed

section \<open>Witnesses\<close>

text \<open>Hashes that tell a value with a blank from one without.\<close>

definition blank_library :: library where
  "blank_library = \<lparr>lib_nfc = id, lib_sha256 = (\<lambda>s. replicate 64 (if CHR '' '' \<in> set s then CHR ''1'' else CHR ''0''))\<rparr>"

fun has_blank :: "json \<Rightarrow> bool" where
  "has_blank (JStr s) = (CHR '' '' \<in> set s)"
| "has_blank (JArr xs) = list_ex has_blank xs"
| "has_blank (JObj d) = list_ex (\<lambda>(k, v). CHR '' '' \<in> set k \<or> has_blank v) d"
| "has_blank (JInt i) = (CHR '' '' \<in> set (int_str i))"
| "has_blank (JFloat r) = (CHR '' '' \<in> set r)"
| "has_blank _ = False"

lemma blank_join: "CHR '' '' \<in> set (join '','' ps) \<longleftrightarrow> (\<exists>p\<in>set ps. CHR '' '' \<in> set p)"
  by (induction "'',''" ps rule: join.induct) auto

lemma blank_quote: "CHR '' '' \<in> set (quote s) \<longleftrightarrow> CHR '' '' \<in> set s"
proof -
  have h: "\<not> is_hex (CHR '' '')" by code_simp
  have "CHR '' '' \<notin> set (hex_fixed 4 n)" for n using hex_fixed_hex [of 4 n] h by blast
  then have "CHR '' '' \<in> set (esc c) \<longleftrightarrow> c = CHR '' ''" for c
  proof (cases "c = CHR '' ''")
    case False
    with \<open>\<And>n. CHR '' '' \<notin> set (hex_fixed 4 n)\<close> show ?thesis by (simp add: esc_def quote_char_def backslash_def)
  qed (simp add: esc_def quote_char_def backslash_def)
  then show ?thesis by (auto simp: quote_def quote_char_def)
qed

lemma blank_dumps: "CHR '' '' \<in> set (dumps (sort_keys j)) \<longleftrightarrow> has_blank j"
proof (induction j rule: sort_keys.induct)
  case (1 xs)
  then show ?case by (auto simp: blank_join list_ex_iff)
next
  case (2 d)
  let ?e = "map (\<lambda>(k, v). (k, sort_keys v)) d"
  have "CHR '' '' \<in> set (dumps (sort_keys (JObj d))) \<longleftrightarrow> (\<exists>(k, v)\<in>set ?e. CHR '' '' \<in> set (quote k @ '':'' @ dumps v))"
    by (simp add: blank_join case_prod_beta)
  also have "\<dots> \<longleftrightarrow> (\<exists>(k, v)\<in>set d. CHR '' '' \<in> set k \<or> CHR '' '' \<in> set (dumps (sort_keys v)))"
    by (simp add: blank_quote case_prod_beta)
  also have "\<dots> \<longleftrightarrow> (\<exists>(k, v)\<in>set d. CHR '' '' \<in> set k \<or> has_blank v)" using 2 by (intro bex_cong) auto
  also have "\<dots> \<longleftrightarrow> has_blank (JObj d)" by (simp add: list_ex_iff)
  finally show ?case .
qed (simp_all add: blank_quote)

lemma blank_hash:
  assumes "normalize blank_library VOLATILE_FIELDS v = Inr n"
  shows "canonical_hash blank_library v = Inr (replicate 64 (if has_blank n then CHR ''1'' else CHR ''0''))"
  using assms blank_dumps by (simp add: canonical_hash_def hash_normalized_def blank_library_def)

text \<open>A document of single characters, a region of one of them, and a table of all.\<close>

definition atom_at :: "nat \<Rightarrow> string \<Rightarrow> evidence_atom" where
  "atom_at n s = \<lparr>ea_atom_id = ''atom_000000000000000'' @ nat_str n, ea_ordinal = int n, ea_page = 1, ea_bbox = None, ea_text = s,
     ea_kind = (if all_space s then Space_Atom else Char_Atom), ea_authority = By_Embedded, ea_source_object = 0, ea_source_index = int n,
     ea_confidence = 1\<rparr>"

definition typed_atoms :: "evidence_atom list" where
  "typed_atoms = [atom_at 0 ''d'', atom_at 1 ''.'', atom_at 2 '' '', atom_at 3 ''x'']"

definition typed_evidence :: evidence_document where
  "typed_evidence = \<lparr>ed_source_hash = replicate 64 CHR ''0'', ed_mode = M_Embedded, ed_page_count = 1, ed_parser_versions = [],
     ed_atoms = typed_atoms, ed_hypotheses = [], ed_regions = []\<rparr>"

definition typed_region :: layout_region where
  "typed_region = \<lparr>lr_region_id = ''region_0000000000000000'', lr_page = 1, lr_bbox = \<lparr>sb_left = 0, sb_bottom = 0, sb_right = 1, sb_top = 1\<rparr>,
     lr_line_ids = [], lr_atom_ids = [ea_atom_id (typed_atoms ! 3)], lr_evidence_region_ids = [], lr_column = 0, lr_hint = None,
     lr_repeated_edge = False\<rparr>"

definition typed_layout :: layout_document where
  "typed_layout = \<lparr>ld_source_hash = [], ld_page_count = 1, ld_lines = [], ld_regions = [typed_region], ld_order_edges = []\<rparr>"

definition typed_cell :: cell_candidate where
  "typed_cell = \<lparr>cc_cell_id = ''cell_0000000000000000'', cc_start_row = 0, cc_end_row = 1, cc_start_column = 0, cc_end_column = 1,
     cc_atom_ids = map ea_atom_id typed_atoms, cc_column_header = False, cc_rendered_text = None\<rparr>"

definition typed_table :: table_candidate where
  "typed_table = \<lparr>tc_candidate_id = ''candidate_0000000000000000'', tc_region_id = ''region_0000000000000000'', tc_row_count = 1, tc_column_count = 1,
     tc_cells = [typed_cell], tc_atom_ids = map ea_atom_id typed_atoms, tc_score = 1, tc_features = []\<rparr>"

definition silent_scorer :: scorer where
  "silent_scorer = \<lparr>ks_propose = (\<lambda>_ _. []), ks_supports_join = None\<rparr>"

definition typed_env :: spacing_env where
  "typed_env = \<lparr>sp_library = blank_library, sp_repr = (\<lambda>_. ''0''), sp_digit = ascii_digit\<rparr>"

abbreviation zero_id :: "string \<Rightarrow> string" where
  "zero_id p \<equiv> p @ ''0000000000000000''"

definition typed_candidate :: "string \<Rightarrow> string \<Rightarrow> boundary_state \<Rightarrow> rat \<Rightarrow> features \<Rightarrow> spacing_candidate" where
  "typed_candidate i t b score fs = \<lparr>sc_candidate_id = i, sc_region_id = ''region_0000000000000000'', sc_rendered_text = t, sc_character_sequence = ''d.x'',
     sc_atom_ids = [''atom_0000000000000000'', ''atom_0000000000000001'', ''atom_0000000000000003''],
     sc_boundaries = [\<lparr>bd_left = ''atom_0000000000000000'', bd_right = ''atom_0000000000000001'', bd_state = No_Gap, bd_whitespace = []\<rparr>,
        \<lparr>bd_left = ''atom_0000000000000001'', bd_right = ''atom_0000000000000003'', bd_state = b, bd_whitespace = []\<rparr>],
     sc_mutable = Some [1], sc_score = score, sc_features = fs\<rparr>"

lemma typed_hash:
  assumes "(t, b, i) \<in> {(''d. x'', Space_Gap, ''candidate_1111111111111111''), (''d.x'', No_Gap, ''candidate_0000000000000000'')}"
  shows "make_candidate_id blank_library ''spacing'' ''region_0000000000000000''
      (PDict ([(''rendered_text'', PStr t), (''atom_ids'', PSeq (map PStr (sc_atom_ids (typed_candidate i t b score fs)))),
          (''boundaries'', PSeq (map boundary_value (sc_boundaries (typed_candidate i t b score fs))))]
        @ [(''mutable_boundary_indexes'', PSeq (map PInt [1]))])) = Inr i"
proof -
  let ?v = "PDict [(''kind'', PStr ''spacing''), (''region_id'', PStr ''region_0000000000000000''), (''payload'', PDict
      ([(''rendered_text'', PStr t), (''atom_ids'', PSeq (map PStr (sc_atom_ids (typed_candidate i t b score fs)))),
          (''boundaries'', PSeq (map boundary_value (sc_boundaries (typed_candidate i t b score fs))))]
        @ [(''mutable_boundary_indexes'', PSeq (map PInt [1]))]))]"
  have l: "lib_nfc blank_library s = s" for s by (simp add: blank_library_def)
  have one: "int_str 1 = ''1''" by code_simp
  have "\<exists>n. normalize blank_library VOLATILE_FIELDS ?v = Inr n \<and> (has_blank n \<longleftrightarrow> t = ''d. x'')"
    using assms by (elim insertE emptyE; simp add: typed_candidate_def boundary_value_def VOLATILE_FIELDS_def dict_of_def l one)
  then obtain n where "normalize blank_library VOLATILE_FIELDS ?v = Inr n" "has_blank n \<longleftrightarrow> t = ''d. x''" by blast
  from blank_hash [OF this(1)] this(2) have "canonical_hash blank_library ?v = Inr (replicate 64 (if t = ''d. x'' then CHR ''1'' else CHR ''0''))"
    by simp
  moreover have "''candidate_'' @ take 16 (replicate 64 (if t = ''d. x'' then CHR ''1'' else CHR ''0'')) = i"
    using assms by (elim insertE emptyE; simp; code_simp)
  ultimately show ?thesis unfolding make_candidate_id_def candidate_digest_def by simp
qed

lemma typed_made:
  assumes "(t, b, i) \<in> {(''d. x'', Space_Gap, ''candidate_1111111111111111''), (''d.x'', No_Gap, ''candidate_0000000000000000'')}"
    and "0 \<le> score" and "score \<le> 1"
  shows "make_spacing_candidate blank_library ''region_0000000000000000'' t ''d.x''
      [''atom_0000000000000000'', ''atom_0000000000000001'', ''atom_0000000000000003''] [[], []] score fs (Some [1])
    = Inr (typed_candidate i t b score fs)"
proof -
  let ?ids = "[''atom_0000000000000000'', ''atom_0000000000000001'', ''atom_0000000000000003'']"
  let ?c = "typed_candidate i t b score fs"
  have bs: "boundaries_from_rendered t ?ids [[], []] = Inr (sc_boundaries ?c)"
    using assms(1) unfolding typed_candidate_def spacing_candidate.simps by (elim insertE emptyE; simp; code_simp)
  note id = typed_hash [OF assms(1), of score fs]
  have "SpacingCandidate (?c\<lparr>sc_score := 0, sc_features := []\<rparr>) = Inr (?c\<lparr>sc_score := 0, sc_features := []\<rparr>)"
    using assms(1) unfolding typed_candidate_def by (elim insertE emptyE; simp; code_simp)
  moreover have "sc_score ?c = score" by (simp add: typed_candidate_def)
  ultimately have "SpacingCandidate ?c = Inr ?c"
    using assms(2,3) by (auto simp: SpacingCandidate_def spacing_fields_ok_def Let_def split: if_splits)
  then show ?thesis using bs id by (simp add: make_spacing_candidate_def typed_candidate_def)
qed

lemma typed_found:
  "traverse (find_atom typed_evidence) (map ea_atom_id typed_atoms) = Inr typed_atoms"
  "traverse (find_atom typed_evidence) [''atom_0000000000000000'', ''atom_0000000000000001'', ''atom_0000000000000003'']
     = Inr [typed_atoms ! 0, typed_atoms ! 1, typed_atoms ! 3]"
  "traverse (find_atom typed_evidence) [ea_atom_id (typed_atoms ! 3)] = Inr [typed_atoms ! 3]"
  "single_characters typed_evidence"
proof -
  have "nat_str 0 = ''0''" "nat_str 1 = ''1''" "nat_str 2 = ''2''" "nat_str 3 = ''3''" by code_simp+
  then have i: "ea_atom_id (atom_at 0 s) = ''atom_0000000000000000''" "ea_atom_id (atom_at 1 s) = ''atom_0000000000000001''"
    "ea_atom_id (atom_at 2 s) = ''atom_0000000000000002''" "ea_atom_id (atom_at 3 s) = ''atom_0000000000000003''" for s
    by (simp_all add: atom_at_def)
  show "traverse (find_atom typed_evidence) (map ea_atom_id typed_atoms) = Inr typed_atoms"
    "traverse (find_atom typed_evidence) [''atom_0000000000000000'', ''atom_0000000000000001'', ''atom_0000000000000003'']
       = Inr [typed_atoms ! 0, typed_atoms ! 1, typed_atoms ! 3]"
    "traverse (find_atom typed_evidence) [ea_atom_id (typed_atoms ! 3)] = Inr [typed_atoms ! 3]"
    by (simp_all add: find_atom_def typed_evidence_def typed_atoms_def dict_get_of i del: One_nat_def)
  have "is_character ''d'' \<and> is_character ''.'' \<and> is_character '' '' \<and> is_character ''x''" by code_simp
  then show "single_characters typed_evidence"
    by (simp add: single_characters_def typed_evidence_def typed_atoms_def atom_at_def)
qed

lemma typed_set:
  assumes "ks \<noteq> []" and "length ks \<le> 5" and "distinct (map sc_candidate_id ks)"
    and "\<forall>k\<in>set ks. sc_region_id k = ''region_0000000000000000''"
    and "\<forall>k\<in>set ks. CHR '' '' \<notin> set (sc_candidate_id k)"
  shows "\<exists>s. spacing_set blank_library (replicate 64 CHR ''0'') ''region_0000000000000000'' ks = Inr s"
proof -
  let ?v = "PDict [(''source_hash'', PStr (replicate 64 CHR ''0'')), (''region_id'', PStr ''region_0000000000000000''),
    (''candidate_ids'', PSeq (map PStr (map sc_candidate_id ks)))]"
  obtain n where "normalize blank_library VOLATILE_FIELDS ?v = Inr n"
    using hashable_normalize [of ?v blank_library VOLATILE_FIELDS] by (auto simp: list_all_iff)
  from blank_hash [OF this] obtain c where c: "canonical_hash blank_library ?v = Inr (replicate 64 c)" "c \<in> {CHR ''0'', CHR ''1''}"
    by (auto split: if_splits)
  have "CandidateSetId (''candidate_set_'' @ replicate 16 CHR ''0'') \<and> CandidateSetId (''candidate_set_'' @ replicate 16 CHR ''1'')
      \<and> RegionId ''region_0000000000000000'' \<and> Sha256 (replicate 64 CHR ''0'')" by code_simp
  then have i: "CandidateSetId (''candidate_set_'' @ replicate 16 c)" "RegionId ''region_0000000000000000''" "Sha256 (replicate 64 CHR ''0'')"
    using c(2) by auto
  have "map candidate_id (map Spacing_Cand ks) = map sc_candidate_id ks" by simp
  then show ?thesis using c(1) i assms
    by (auto simp: spacing_set_def make_candidate_set_id_def candidate_digest_def CandidateSet_def comp_def Suc_le_eq)
qed

lemma typed_table_built:
  "\<exists>s. build_table_spacing_candidate_set typed_env (\<lambda>_. False) silent_scorer typed_table typed_evidence = Inr (Some s)"
proof -
  let ?ids = "[''atom_0000000000000000'', ''atom_0000000000000001'', ''atom_0000000000000003'']"
  let ?st = "\<lparr>tx_source = [''d. x''], tx_repaired = [''d.x''], tx_atoms = ?ids, tx_mutable = [1], tx_language = False\<rparr>"
  let ?v = "[typed_atoms ! 0, typed_atoms ! 1, typed_atoms ! 3]"
  have v: "visible_atoms typed_atoms = ?v" "map ea_atom_id ?v = ?ids" "atoms_text ?v = ''d.x''" by code_simp+
  have e: "current_text typed_cell (atoms_text typed_atoms) ''d.x'' = ''d. x''" "qualified_identifier_repair ''d. x'' = Some ''d.x''"
    "changed_boundary_indexes ''d. x'' ''d.x'' = Inr [1]" by code_simp+
  have cell: "cc_atom_ids typed_cell = map ea_atom_id typed_atoms" by (simp add: typed_cell_def)
  have "add_cell typed_env (\<lambda>_. False) silent_scorer (tc_region_id typed_table) typed_evidence
      \<lparr>tx_source = [], tx_repaired = [], tx_atoms = [], tx_mutable = [], tx_language = False\<rparr> typed_cell = Inr ?st"
    unfolding add_cell_def cell typed_found(1) bind_ok.simps Let_def v e(1) by (simp add: repair_cell_def e(2,3))
  then have st: "fold_ok (add_cell typed_env (\<lambda>_. False) silent_scorer (tc_region_id typed_table) typed_evidence)
      \<lparr>tx_source = [], tx_repaired = [], tx_atoms = [], tx_mutable = [], tx_language = False\<rparr> (sort_key cell_order (tc_cells typed_table)) = Inr ?st"
    by (simp add: typed_table_def)
  have r: "tc_region_id typed_table = ''region_0000000000000000''" "sp_library typed_env = blank_library" "sp_digit typed_env = ascii_digit"
    "ed_source_hash typed_evidence = replicate 64 CHR ''0''" by (simp_all add: typed_table_def typed_env_def typed_evidence_def)
  let ?a = "typed_candidate ''candidate_1111111111111111'' ''d. x'' Space_Gap (45/100) [(''source_spacing'', 45/100), (''table_cell_composite'', 1)]"
  let ?b = "typed_candidate ''candidate_0000000000000000'' ''d.x'' No_Gap (95/100) [(''table_cell_composite'', 1), (''table_cell_repair'', 95/100)]"
  have m: "table_text_candidate typed_env (tc_region_id typed_table) ''d.x'' ?st [''d. x''] (45/100)
        [(''source_spacing'', 45/100), (''table_cell_composite'', 1)] = Inr ?a"
    "table_text_candidate typed_env (tc_region_id typed_table) ''d.x'' ?st [''d.x''] (95/100)
        [(''table_cell_composite'', 1), (''table_cell_repair'', 95/100)] = Inr ?b"
    using typed_made [of "''d. x''" Space_Gap "''candidate_1111111111111111''" "45/100"] typed_made [of "''d.x''" No_Gap "''candidate_0000000000000000''" "95/100"]
    by (simp_all add: table_text_candidate_def r eval_nat_numeral)
  have d: "spacing_defect_codes ascii_digit ?b = []" by code_simp
  have o: "sort_key spacing_order [?a, ?b] = [?b, ?a]" by (simp add: spacing_order_def typed_candidate_def)
  obtain s where s: "spacing_set blank_library (replicate 64 CHR ''0'') ''region_0000000000000000'' [?b, ?a] = Inr s"
    using typed_set [of "[?b, ?a]"] by (auto simp: typed_candidate_def)
  have sub: "raise_if (\<not> set (tc_atom_ids typed_table) \<subseteq> set (map ea_atom_id (ed_atoms typed_evidence))) ''TABLE_SPACING_ATOM_UNKNOWN'' = Inr ()"
    by (simp add: typed_table_def typed_evidence_def)
  have f: "(tx_mutable ?st = [] \<or> tx_source ?st = tx_repaired ?st) = False" "tx_language ?st = False" "tx_atoms ?st = ?ids"
    "tx_source ?st = [''d. x'']" "tx_repaired ?st = [''d.x'']" by simp_all
  have "build_table_spacing_candidate_set typed_env (\<lambda>_. False) silent_scorer typed_table typed_evidence = Inr (Some s)"
    unfolding build_table_spacing_candidate_set_def sub bind_ok.simps st
    unfolding f if_False typed_found(2) bind_ok.simps v(3) m Let_def
    unfolding r d o s by simp
  then show ?thesis by blast
qed

theorem table_repair_only_joins_witness:
  "\<exists>s source repaired. build_table_spacing_candidate_set typed_env (\<lambda>_. False) silent_scorer typed_table typed_evidence = Inr (Some s)
     \<and> set (cs_candidates s) = {Spacing_Cand source, Spacing_Cand repaired} \<and> only_joins source repaired"
proof -
  from typed_table_built obtain s where s: "build_table_spacing_candidate_set typed_env (\<lambda>_. False) silent_scorer typed_table typed_evidence = Inr (Some s)"
    by blast
  from table_repair_only_joins [OF s typed_found(4)] s show ?thesis by blast
qed

lemma typed_region_built:
  "\<exists>s. build_spacing_candidate_set blank_library silent_scorer typed_region typed_evidence typed_layout = Inr s"
proof -
  let ?i = "''atom_0000000000000003''"
  define fs :: features where "fs = [(''source_spacing'', 45/100), (''geometry'', 62/100), (''punctuation_rules'', 70/100), (''dense'', 20/100)]"
  have v: "visible_atoms [typed_atoms ! 3] = [typed_atoms ! 3]" "atoms_text [typed_atoms ! 3] = ''x''" "map ea_atom_id [typed_atoms ! 3] = [?i]"
    "canonicalize_whitespace ''x'' = ''x''" "without_whitespace ''x'' = ''x''" by code_simp+
  have g: "geometry_text typed_evidence [typed_atoms ! 3] [] = Inr ''x''"
    "source_whitespace [typed_atoms ! 3] [typed_atoms ! 3] = []" by code_simp+
  have p: "region_proposals ''x'' ''x'' ''x'' [] = [(''x'', fs)]" "0 \<le> proposal_score fs \<and> proposal_score fs \<le> 1" unfolding fs_def by code_simp+
  let ?v = "PDict [(''kind'', PStr ''spacing''), (''region_id'', PStr ''region_0000000000000000''),
    (''payload'', PDict [(''rendered_text'', PStr ''x''), (''atom_ids'', PSeq [PStr ?i]), (''boundaries'', PSeq [])])]"
  have l: "lib_nfc blank_library s = s" for s by (simp add: blank_library_def)
  have "\<exists>n. normalize blank_library VOLATILE_FIELDS ?v = Inr n \<and> \<not> has_blank n" by (simp add: VOLATILE_FIELDS_def dict_of_def l)
  then obtain n where n: "normalize blank_library VOLATILE_FIELDS ?v = Inr n" "\<not> has_blank n" by blast
  define c where "c = \<lparr>sc_candidate_id = ''candidate_0000000000000000'', sc_region_id = ''region_0000000000000000'', sc_rendered_text = ''x'', sc_character_sequence = ''x'',
     sc_atom_ids = [?i], sc_boundaries = [], sc_mutable = None, sc_score = proposal_score fs, sc_features = fs\<rparr>"
  have h: "''candidate_'' @ take 16 (replicate 64 CHR ''0'') = ''candidate_0000000000000000''" by code_simp
  then have k: "make_candidate_id blank_library ''spacing'' ''region_0000000000000000'' (PDict [(''rendered_text'', PStr ''x''), (''atom_ids'', PSeq [PStr ?i]),
      (''boundaries'', PSeq [])]) = Inr ''candidate_0000000000000000''"
    using blank_hash [OF n(1)] n(2) unfolding make_candidate_id_def candidate_digest_def by simp
  have b: "boundaries_from_rendered ''x'' [?i] [] = Inr []" by code_simp
  have f: "CandidateId ''candidate_0000000000000000''" "RegionId ''region_0000000000000000''" "AtomId ?i" "characters ''x'' = [''x'']" "\<not> space_character ''x''"
    "render_boundaries ''x'' [] = ''x''" by code_simp+
  have "SpacingCandidate c = Inr c" using f p(2) v(5) by (simp add: SpacingCandidate_def spacing_fields_ok_def mutable_code_def reject_if_def c_def)
  then have m: "make_spacing_candidate blank_library ''region_0000000000000000'' ''x'' ''x'' [?i] [] (proposal_score fs) fs None = Inr c"
    using k b by (simp add: make_spacing_candidate_def c_def)
  obtain s where s: "spacing_set blank_library (replicate 64 CHR ''0'') ''region_0000000000000000'' [c] = Inr s"
    using typed_set [of "[c]"] by (auto simp: c_def)
  have r: "lr_region_id typed_region = ''region_0000000000000000''" "map lr_region_id (ld_regions typed_layout) = [''region_0000000000000000'']"
    "lr_atom_ids typed_region = [ea_atom_id (typed_atoms ! 3)]" "ld_lines typed_layout = []"
    "ed_source_hash typed_evidence = replicate 64 CHR ''0''" "ks_propose silent_scorer t xs = []" for t xs
    by (simp_all add: typed_region_def typed_layout_def typed_evidence_def silent_scorer_def)
  have "build_spacing_candidate_set blank_library silent_scorer typed_region typed_evidence typed_layout = Inr s"
    unfolding build_spacing_candidate_set_def r typed_found(3) bind_ok.simps Let_def v
    unfolding g v bind_ok.simps
    unfolding g v bind_ok.simps traverse.simps filter.simps p(1) by (simp add: raise_if_def v(5) p(1) m s)
  then show ?thesis by blast
qed

theorem region_candidates_conserve_witness:
  "\<exists>s as ks. build_spacing_candidate_set blank_library silent_scorer typed_region typed_evidence typed_layout = Inr s
     \<and> cs_candidates s = map Spacing_Cand ks \<and> ks \<noteq> [] \<and> (\<forall>k\<in>set ks. region_candidate as ''region_0000000000000000'' k)"
proof -
  from typed_region_built obtain s where s: "build_spacing_candidate_set blank_library silent_scorer typed_region typed_evidence typed_layout = Inr s" by blast
  have "distinct (lr_atom_ids typed_region)" "lr_region_id typed_region = ''region_0000000000000000''" by (simp_all add: typed_region_def)
  with region_candidates_conserve [OF s] s show ?thesis by metis
qed

end
