(* ===== verification/Spec2Isabelle.thy ===== *)
theory Spec2Isabelle
  imports Enrichment Promotion Llm_Service Publication_Guards Dispatch Detection Ocr_Correction Layout Decisions Spacing_Sets
begin

text \<open>
  The ARD to OSSIE provider (Python, \<open>src/src/ard_ossie\<close>).

  The program turns a submitted data product (a document, a data dictionary and a configuration) into a registry of
  versioned products and tables, semantic models and pages, checks them, and releases them from a Git repository. The theories follow
  its modules. A value that may raise is an \<open>exn + 'a\<close> with one constructor for each exception class; a dictionary is an
  association list in insertion order; a loop that stops at the first exception is \<open>fold_ok\<close> or \<open>traverse\<close> (Ard_Prelude). Strings are
  lists of UTF-8 bytes, and where the code counts characters the model counts them (\<open>characters\<close>).

  \<^bold>\<open>Registry and identity.\<close> Ids (\<open>ids.py\<close>), Models (\<open>models.py\<close>), Versioning (\<open>versioning.py\<close>), Identity
  (\<open>identity.py\<close>), Impact (\<open>impact.py\<close>) and Registry (\<open>registry.py\<close>): identifiers, the records and their validators, the version a change gets,
  the verdict on duplicates, the changesets, and the store with its files. Its \<open>record_store\<close> is a locale with
  the laws of a keyed store, interpreted on the products and on the tables of the registry. The lemmas show that what any history of
  accepted writes wrote is what is loaded from the files, that a history of writes keeps keys unique and retired records retired, and that the index files are the inverse of the
  registry.

  \<^bold>\<open>Processing.\<close> Canonical (\<open>canonical.py\<close>, JSON to the character), Ossie (\<open>ir.py\<close>, \<open>ossie_compiler.py\<close>), Renderers (\<open>renderers.py\<close>),
  Dictionary (\<open>excel_adapter.py\<close>), Drafts, Quality, Product_Facts, Enrichment and Promotion (the parts of \<open>pipeline.py\<close> with
  \<open>llm/suggestions.py\<close>), Llm_Service (\<open>llm/contracts.py\<close>, \<open>llm/service.py\<close>). Enrichment and Product_Facts take the answer of a
  language model as a value; the lemmas show that an answer reaches only descriptions, facts with evidence and metrics over
  known columns. Promotion is a state machine over a file system whose calls may fail; with one failing call a build is promoted
  entirely or rolled back entirely.

  \<^bold>\<open>Documents.\<close> Semantic_Models (\<open>semantic/models.py\<close>), Skeleton, Reconciliation, Box_Matching, Interval_Index and
  Sequence_Matcher (\<open>semantic/structure.py\<close>, with the ratio of the library \<open>difflib\<close>), Escaping and Markdown
  (\<open>semantic/render.py\<close>), Ocr_Correction (\<open>semantic/correction.py\<close>). The lemmas show that the interval tree is a set of intervals, the sweep
  finds what a comparison of all pairs finds, the reconciliation partitions the spans of the source, the page shows them, and a
  correction changes only what its audit says.

  \<^bold>\<open>Semantic decisions.\<close> Characters, Evidence (\<open>semantic/evidence.py\<close>), Region_Order and Layout (\<open>semantic/layout.py\<close>), Candidates
  (\<open>semantic/candidates.py\<close>), Patterns (the part of \<open>re\<close> the code uses), Spacing_Repair (\<open>semantic/spacing_repair.py\<close>), Spacing (\<open>semantic/spacing.py\<close>) with
  Spacing_Facts and Spacing_Sets, Adjudication
  (\<open>semantic/adjudication.py\<close>) with Adjudication_Facts, Adjudication_Reuse and Decisions. Evidence gives every atom of a page one region; the layout
  groups the atoms into lines and regions and orders the regions; candidates are the texts and structures that may be chosen; the adjudicator
  chooses by rule, by votes of a provider, or by a repair that the provider writes and confirms. The lemmas show that the lines and
  the regions of a layout keep every atom exactly once (for regions with at least one box that has an area; the atoms of the others are
  dropped by the code), that an accepted order is a topological one, which candidates the adjudicator may select and on what
  scores or votes, that the whitespace
  candidates of a region own its atoms, that the repair of a table only takes away spaces between Hangul characters or in
  lines that are an identifier (for atoms of one character, as the extraction makes them), that a repair changes only the
  gaps it may change, and that a stored decision is taken again without a call of the provider.

  \<^bold>\<open>Releases.\<close> Paths (\<open>adapters/filesystem.py\<close>), Release (\<open>release.py\<close>), Remote (the commands of \<open>adapters/git_cli.py\<close> and
  \<open>adapters/github_cli.py\<close> the releases use, over one shared state), Publication with Publication_Guards, Dispatch and Detection
  (\<open>application/release_*.py\<close>). The lemmas show which paths may be written and with which code the others are refused, that a plan exists
  only for a product that passed the gates, that a publication changes nothing before all its checks have passed and then only the tags and the
  release of its plan, that it can be repeated, and that an event is sent once.

  \<^bold>\<open>Bounds and fuel.\<close> Fuel stands where the code counts rounds. A request to the language model makes at most three calls
  (\<open>structured_request_accounted\<close>), a vote at most the schema attempts of the policy. A repetition of a pattern has the length of the rest as
  fuel: every round consumes a character. The other loops are structural recursion or \<open>function\<close>s with a measure: the size of the value in \<open>normalize\<close>, the
  length of the left list in \<open>matching_size\<close>, the bytes left in the write loop of the promotion, the ready and waiting regions in \<open>order_loop\<close>, the rest of
  the text in \<open>find_matches\<close>.

  \<^bold>\<open>What the libraries do\<close> is an argument: SHA-256 and Unicode normalisation (\<open>library\<close>), the JSON-schema validators, the template
  engine, the spreadsheet reader, the document converter, the PDF renderer, the providers. Properties that need something of them
  state it as a hypothesis and have a witness with a concrete function.

  \<^bold>\<open>Not modelled.\<close> The command line, the adapters of the providers and of processes, and the readers of PDF and DOCX files are calls of
  libraries. The workflows over branches and changesets, the assembly of the canonical document and the scores that propose blocks and tables
  are left out: they call the modelled parts, and what they produce is an arbitrary input here. Floats are exact rationals, so rounding is not
  modelled. The messages of pydantic's field errors are one constructor.
\<close>

end
